(* ===== verification/PyValue.thy ===== *)
theory PyValue
  imports Prelude Complex_Main
begin

section \<open>Python values and psycopg SQL objects\<close>

text \<open>
  The dynamically typed values that flow through the query pipeline, and the four
  classes of \<open>psycopg.sql\<close> that the generated queries are built of.  The two types are
  mutually recursive: a \<open>Literal\<close> holds a Python value, and a filter value may itself
  hold a composable (the ltree operators accept \<open>(offset, path_sql, length)\<close>).

  A float is represented by its \<open>repr\<close> text, which determines the double; a decimal
  and a UUID by their \<open>str\<close> text; a date, a datetime and an instance of another class by
  their \<open>str\<close> and \<open>repr\<close> texts (and the attributes of the instance).  A dict has string
  keys, as GraphQL input and the keyword dictionaries of the code have.

  \<open>SQL\<close> is raw SQL text, \<open>Identifier\<close> a quoted name, \<open>Literal\<close> a quoted value and
  \<open>Composed\<close> a sequence.  How psycopg quotes names and values is not part of this
  development: the theorems speak about which strings are raw text.
\<close>

datatype pyval =
    PNone
  | PBool bool
  | PInt int
  | PFloat string
  | PDecimal string
  | PStr string
  | PDate string string
  | PDatetime string string
  | PUUID string
  | PList "pyval list"
  | PTuple "pyval list"
  | PDict "(string \<times> pyval) list"
  | PObj string string "(string \<times> pyval) list"
  | PSql composable
and composable =
    SQL string
  | Identifier string
  | Literal pyval
  | Composed "composable list"

type_synonym pydict = "(string \<times> pyval) list"

text \<open>\<open>Composed([...])\<close> wraps an element that is no composable in a \<open>Literal\<close>.\<close>

definition as_composable :: "pyval \<Rightarrow> composable" where
  "as_composable v = (case v of PSql c \<Rightarrow> c | _ \<Rightarrow> Literal v)"

subsection \<open>\<open>isinstance\<close> tests and truth values\<close>

fun is_bool :: "pyval \<Rightarrow> bool" where
  "is_bool (PBool _) = True" | "is_bool _ = False"

fun is_int :: "pyval \<Rightarrow> bool" where
  "is_int (PInt _) = True" | "is_int (PBool _) = True" | "is_int _ = False"

fun is_float :: "pyval \<Rightarrow> bool" where
  "is_float (PFloat _) = True" | "is_float _ = False"

fun is_decimal :: "pyval \<Rightarrow> bool" where
  "is_decimal (PDecimal _) = True" | "is_decimal _ = False"

fun is_str :: "pyval \<Rightarrow> bool" where
  "is_str (PStr _) = True" | "is_str _ = False"

fun is_datetime :: "pyval \<Rightarrow> bool" where
  "is_datetime (PDatetime _ _) = True" | "is_datetime _ = False"

text \<open>\<open>datetime\<close> is a subclass of \<open>date\<close>.\<close>

fun is_date :: "pyval \<Rightarrow> bool" where
  "is_date (PDate _ _) = True" | "is_date (PDatetime _ _) = True" | "is_date _ = False"

fun is_uuid :: "pyval \<Rightarrow> bool" where
  "is_uuid (PUUID _) = True" | "is_uuid _ = False"

fun is_list :: "pyval \<Rightarrow> bool" where
  "is_list (PList _) = True" | "is_list _ = False"

fun is_tuple :: "pyval \<Rightarrow> bool" where
  "is_tuple (PTuple _) = True" | "is_tuple _ = False"

fun is_dict :: "pyval \<Rightarrow> bool" where
  "is_dict (PDict _) = True" | "is_dict _ = False"

definition is_numeric :: "pyval \<Rightarrow> bool" where
  "is_numeric v = (is_int v \<or> is_float v \<or> is_decimal v)"

text \<open>The elements of a list or a tuple, and a value wrapped in a list if it is neither.\<close>

fun seq_items :: "pyval \<Rightarrow> pyval list option" where
  "seq_items (PList vs) = Some vs"
| "seq_items (PTuple vs) = Some vs"
| "seq_items _ = None"

definition seq_or_single :: "pyval \<Rightarrow> pyval list" where
  "seq_or_single v = (case seq_items v of Some vs \<Rightarrow> vs | None \<Rightarrow> [v])"

definition list_or_single :: "pyval \<Rightarrow> pyval list" where
  "list_or_single v = (case v of PList vs \<Rightarrow> vs | _ \<Rightarrow> [v])"

text \<open>\<open>hasattr(v, name)\<close> and \<open>getattr\<close> for instances; other values have no such attribute.\<close>

fun obj_attr :: "pyval \<Rightarrow> string \<Rightarrow> pyval option" where
  "obj_attr (PObj _ _ attrs) a = map_of attrs a"
| "obj_attr _ a = None"

definition decimal_is_zero :: "string \<Rightarrow> bool" where
  "decimal_is_zero s = (\<forall>c \<in> set (takeWhile (\<lambda>c. c \<noteq> CHR ''E'') s). c \<in> {CHR ''0'', CHR ''.'', CHR ''-''})"

text \<open>\<open>bool(v)\<close>: the truth value of a condition \<open>if v:\<close>.\<close>

fun truthy :: "pyval \<Rightarrow> bool" where
  "truthy PNone = False"
| "truthy (PBool b) = b"
| "truthy (PInt i) = (i \<noteq> 0)"
| "truthy (PFloat s) = (s \<noteq> ''0.0'' \<and> s \<noteq> ''-0.0'')"
| "truthy (PDecimal s) = (\<not> decimal_is_zero s)"
| "truthy (PStr s) = (s \<noteq> [])"
| "truthy (PList vs) = (vs \<noteq> [])"
| "truthy (PTuple vs) = (vs \<noteq> [])"
| "truthy (PDict d) = (d \<noteq> [])"
| "truthy _ = True"

subsection \<open>\<open>str\<close> and \<open>repr\<close>\<close>

definition hex_digit :: "nat \<Rightarrow> char" where
  "hex_digit n = (if n < 10 then char_of (48 + n) else char_of (87 + n))"

definition hex2 :: "nat \<Rightarrow> string" where
  "hex2 n = [hex_digit (n div 16), hex_digit (n mod 16)]"

definition repr_char :: "char \<Rightarrow> char \<Rightarrow> string" where
  "repr_char q c =
     (let n = (of_char c :: nat) in
      if c = q \<or> n = 92 then [CHR 0x5C, c]
      else if n = 10 then [CHR 0x5C, CHR ''n'']
      else if n = 13 then [CHR 0x5C, CHR ''r'']
      else if n = 9 then [CHR 0x5C, CHR ''t'']
      else if n < 32 \<or> (127 \<le> n \<and> n \<le> 160) \<or> n = 173 then [CHR 0x5C, CHR ''x''] @ hex2 n
      else [c])"

definition repr_str :: "string \<Rightarrow> string" where
  "repr_str s =
     (let q = (if CHR 0x27 \<in> set s \<and> CHR 0x22 \<notin> set s then CHR 0x22 else CHR 0x27)
      in [q] @ concat (map (repr_char q) s) @ [q])"

function (sequential) py_repr :: "pyval \<Rightarrow> string"
  and comp_repr :: "composable \<Rightarrow> string" where
  "py_repr PNone = ''None''"
| "py_repr (PBool b) = (if b then ''True'' else ''False'')"
| "py_repr (PInt i) = int_str i"
| "py_repr (PFloat s) = s"
| "py_repr (PDecimal s) = ''Decimal('' @ repr_str s @ '')''"
| "py_repr (PStr s) = repr_str s"
| "py_repr (PDate s r) = r"
| "py_repr (PDatetime s r) = r"
| "py_repr (PUUID s) = ''UUID('' @ repr_str s @ '')''"
| "py_repr (PList vs) = ''['' @ join_str '', '' (map py_repr vs) @ '']''"
| "py_repr (PTuple vs) =
     (if length vs = 1 then ''('' @ concat (map py_repr vs) @ '',)''
      else ''('' @ join_str '', '' (map py_repr vs) @ '')'')"
| "py_repr (PDict d) =
     ''{'' @ join_str '', '' (map (\<lambda>p. repr_str (fst p) @ '': '' @ py_repr (snd p)) d) @ ''}''"
| "py_repr (PObj s r attrs) = r"
| "py_repr (PSql c) = comp_repr c"
| "comp_repr (SQL s) = ''SQL('' @ repr_str s @ '')''"
| "comp_repr (Identifier s) = ''Identifier('' @ repr_str s @ '')''"
| "comp_repr (Literal v) = ''Literal('' @ py_repr v @ '')''"
| "comp_repr (Composed cs) = ''Composed(['' @ join_str '', '' (map comp_repr cs) @ ''])''"
  by pat_completeness auto
termination
proof (relation "measure (\<lambda>x. case x of Inl v \<Rightarrow> size v | Inr c \<Rightarrow> size c)", goal_cases)
  case (5 d p)
  then have "size p \<le> size_list size d" for size :: "string \<times> pyval \<Rightarrow> nat"
    by (simp add: size_list_estimation')
  from this [of "size_prod (\<lambda>_. 0) size"] show ?case
    by (cases p) simp
qed (auto simp: size_list_estimation' less_Suc_eq_le)

definition py_str :: "pyval \<Rightarrow> string" where
  "py_str v =
     (case v of PStr s \<Rightarrow> s | PDecimal s \<Rightarrow> s | PDate s r \<Rightarrow> s | PDatetime s r \<Rightarrow> s
      | PUUID s \<Rightarrow> s | PObj s r attrs \<Rightarrow> s | _ \<Rightarrow> py_repr v)"

lemma py_str_simps [simp, py_simps]:
  "py_str (PStr s) = s"
  "py_str (PUUID s) = s"
  "py_str (PInt i) = int_str i"
  "py_str (PBool b) = (if b then ''True'' else ''False'')"
  "py_str PNone = ''None''"
  by (simp_all add: py_str_def)

subsection \<open>\<open>json.dumps\<close> with its default settings\<close>

definition json_char :: "char \<Rightarrow> string" where
  "json_char c =
     (let n = (of_char c :: nat) in
      if n = 34 \<or> n = 92 then [CHR 0x5C, c]
      else if n = 10 then [CHR 0x5C, CHR ''n'']
      else if n = 13 then [CHR 0x5C, CHR ''r'']
      else if n = 9 then [CHR 0x5C, CHR ''t'']
      else if n = 8 then [CHR 0x5C, CHR ''b'']
      else if n = 12 then [CHR 0x5C, CHR ''f'']
      else if n < 32 \<or> 126 < n then [CHR 0x5C, CHR ''u'', CHR ''0'', CHR ''0''] @ hex2 n
      else [c])"

definition json_str :: "string \<Rightarrow> string" where
  "json_str s = [CHR 0x22] @ concat (map json_char s) @ [CHR 0x22]"

definition json_float :: "string \<Rightarrow> string" where
  "json_float s = (if s = ''nan'' then ''NaN'' else if s = ''inf'' then ''Infinity''
                   else if s = ''-inf'' then ''-Infinity'' else s)"

function (sequential) json_dumps :: "pyval \<Rightarrow> string result" where
  "json_dumps PNone = Inr ''null''"
| "json_dumps (PBool b) = Inr (if b then ''true'' else ''false'')"
| "json_dumps (PInt i) = Inr (int_str i)"
| "json_dumps (PFloat s) = Inr (json_float s)"
| "json_dumps (PStr s) = Inr (json_str s)"
| "json_dumps (PList vs) =
     rbind (map_result json_dumps vs) (\<lambda>ss. Inr (''['' @ join_str '', '' ss @ '']''))"
| "json_dumps (PTuple vs) =
     rbind (map_result json_dumps vs) (\<lambda>ss. Inr (''['' @ join_str '', '' ss @ '']''))"
| "json_dumps (PDict d) =
     rbind (map_result (\<lambda>p. rbind (json_dumps (snd p)) (\<lambda>s. Inr (json_str (fst p) @ '': '' @ s))) d)
           (\<lambda>ss. Inr (''{'' @ join_str '', '' ss @ ''}''))"
| "json_dumps _ = Inl TypeError"
  by pat_completeness auto
termination
proof (relation "measure size", goal_cases)
  case (4 d p)
  then have "size p \<le> size_list size d" for size :: "string \<times> pyval \<Rightarrow> nat"
    by (simp add: size_list_estimation')
  from this [of "size_prod (\<lambda>_. 0) size"] show ?case
    by (cases p) simp
qed (auto simp: size_list_estimation' less_Suc_eq_le)

subsection \<open>Values without embedded SQL\<close>

text \<open>
  GraphQL variables and the plain dictionaries of callers hold no \<open>psycopg\<close> object;
  \<open>plain\<close> is that shape.
\<close>

fun plain :: "pyval \<Rightarrow> bool" where
  "plain (PList vs) = (\<forall>v \<in> set vs. plain v)"
| "plain (PTuple vs) = (\<forall>v \<in> set vs. plain v)"
| "plain (PDict d) = (\<forall>p \<in> set d. plain (snd p))"
| "plain (PObj s r d) = (\<forall>p \<in> set d. plain (snd p))"
| "plain (PSql c) = False"
| "plain _ = True"

lemma seq_or_single_plain: "plain v \<Longrightarrow> u \<in> set (seq_or_single v) \<Longrightarrow> plain u"
  by (cases v) (auto simp: seq_or_single_def)

lemma as_composable_plain: "plain v \<Longrightarrow> as_composable v = Literal v"
  by (cases v) (auto simp: as_composable_def)

subsection \<open>Numeric conversions of the interpreter\<close>

text \<open>
  \<open>int(x)\<close>, \<open>float(x)\<close> and comparisons of floats and decimals depend on the binary value
  a text denotes; that value and the conversions into floats are a record of functions
  that the definitions using them take.  \<open>rt_value\<close> is the exact value of the float or
  decimal with the given text, \<open>None\<close> for \<open>nan\<close> and the infinities; the other two give the
  \<open>repr\<close> text of the resulting float, \<open>None\<close> for the exception the conversion raises.
\<close>

record py_runtime =
  rt_value :: "string \<Rightarrow> rat option"
  rt_float_of_int :: "int \<Rightarrow> string option"
  rt_float_of_str :: "string \<Rightarrow> string option"

definition rat_trunc :: "rat \<Rightarrow> int" where
  "rat_trunc r = (if r < 0 then - \<lfloor>- r\<rfloor> else \<lfloor>r\<rfloor>)"

definition trunc_text :: "py_runtime \<Rightarrow> string \<Rightarrow> int result" where
  "trunc_text rt s =
     (case rt_value rt s of
        Some r \<Rightarrow> Inr (rat_trunc r)
      | None \<Rightarrow> Inl (if lower s = ''nan'' then ValueError else OverflowError))"

definition is_space :: "char \<Rightarrow> bool" where
  "is_space c = ((of_char c :: nat) \<in> {9, 10, 11, 12, 13, 28, 29, 30, 31, 32, 133, 160})"

definition strip :: "string \<Rightarrow> string" where
  "strip s = rev (dropWhile is_space (rev (dropWhile is_space s)))"

text \<open>The digits of an integer literal: digits, with single underscores between them.\<close>

fun digits_val :: "nat \<Rightarrow> string \<Rightarrow> nat option" where
  "digits_val acc [] = Some acc"
| "digits_val acc (c # cs) =
     (if is_digit c then digits_val (10 * acc + (of_char c - 48)) cs
      else if c = CHR ''_'' \<and> cs \<noteq> [] \<and> is_digit (hd cs) then digits_val acc cs
      else None)"

definition nat_of_str :: "string \<Rightarrow> nat option" where
  "nat_of_str s = (if s \<noteq> [] \<and> is_digit (hd s) then digits_val 0 s else None)"

definition int_of_str :: "string \<Rightarrow> int option" where
  "int_of_str s =
     (let t = strip s in
      case t of
        [] \<Rightarrow> None
      | c # cs \<Rightarrow>
          if c = CHR ''-'' then map_option (\<lambda>n. - int n) (nat_of_str cs)
          else if c = CHR ''+'' then map_option int (nat_of_str cs)
          else map_option int (nat_of_str t))"

definition of_option :: "py_error \<Rightarrow> 'a option \<Rightarrow> 'a result" where
  "of_option e x = (case x of None \<Rightarrow> Inl e | Some y \<Rightarrow> Inr y)"

text \<open>\<open>int(v)\<close>.\<close>

fun py_int :: "py_runtime \<Rightarrow> pyval \<Rightarrow> int result" where
  "py_int rt (PInt i) = Inr i"
| "py_int rt (PBool b) = Inr (if b then 1 else 0)"
| "py_int rt (PFloat s) = trunc_text rt s"
| "py_int rt (PDecimal s) = trunc_text rt s"
| "py_int rt (PStr s) = of_option ValueError (int_of_str s)"
| "py_int rt _ = Inl TypeError"

text \<open>\<open>float(v)\<close>.\<close>

fun py_float :: "py_runtime \<Rightarrow> pyval \<Rightarrow> pyval result" where
  "py_float rt (PFloat s) = Inr (PFloat s)"
| "py_float rt (PInt i) = of_option OverflowError (map_option PFloat (rt_float_of_int rt i))"
| "py_float rt (PBool b) = Inr (PFloat (if b then ''1.0'' else ''0.0''))"
| "py_float rt (PDecimal s) = of_option ValueError (map_option PFloat (rt_float_of_str rt s))"
| "py_float rt (PStr s) = of_option ValueError (map_option PFloat (rt_float_of_str rt s))"
| "py_float rt _ = Inl TypeError"

text \<open>\<open>v < 0\<close> for an int or a float; \<open>nan\<close> and \<open>-0.0\<close> are not negative.\<close>

fun negative :: "pyval \<Rightarrow> bool" where
  "negative (PInt i) = (i < 0)"
| "negative (PFloat s) = (startswith s ''-'' \<and> s \<noteq> ''-0.0'')"
| "negative _ = False"

lemma py_float_cases: "py_float rt v = Inr w \<Longrightarrow> \<exists>s. w = PFloat s"
  by (cases v) (auto simp: of_option_def split: option.splits)

end
