(* ===== verification/Casing.thy ===== *)
theory Casing
  imports PyValue
begin

section \<open>Case conversion of names (\<open>utils/casing.py\<close>)\<close>

text \<open>
  \<open>to_camel_case\<close> and \<open>to_snake_case\<close> and their recursive variants over JSON-like data.
  The two regular-expression substitutions of \<open>to_snake_case\<close> are left-to-right scanners:
  \<open>snake_pass1\<close> is \<open>re.sub("(.)([A-Z][a-z]+)", ...)\<close> and \<open>snake_pass2\<close> is
  \<open>re.sub("([a-z0-9])([A-Z])", ...)\<close>.  The main result is the round trip: a snake-case
  name whose words after the first have at least two characters comes back unchanged
  from camel case.
\<close>

function (sequential) snake_pass1 :: "string \<Rightarrow> string" where
  "snake_pass1 (a # b # c # rest) =
     (if a \<noteq> CHR 0x0A \<and> is_upper b \<and> is_lower c
      then a # CHR ''_'' # b # c # takeWhile is_lower rest @ snake_pass1 (dropWhile is_lower rest)
      else a # snake_pass1 (b # c # rest))"
| "snake_pass1 s = s"
  by pat_completeness auto
termination
  by (relation "measure length") (auto simp: length_dropWhile_le le_imp_less_Suc less_Suc_eq_le le_SucI)

fun snake_pass2 :: "string \<Rightarrow> string" where
  "snake_pass2 (a # b # rest) =
     (if (is_lower a \<or> is_digit a) \<and> is_upper b then a # CHR ''_'' # b # snake_pass2 rest
      else a # snake_pass2 (b # rest))"
| "snake_pass2 s = s"

definition to_snake_case :: "string \<Rightarrow> string" where
  "to_snake_case s = lower (snake_pass2 (snake_pass1 s))"

definition capitalize :: "string \<Rightarrow> string" where
  "capitalize s = (case s of [] \<Rightarrow> [] | c # cs \<Rightarrow> to_upper c # lower cs)"

definition to_camel_case :: "string \<Rightarrow> string" where
  "to_camel_case s = (let parts = split_on (CHR ''_'') s in hd parts @ concat (map capitalize (tl parts)))"

text \<open>
  The recursive key transformations.  A dict comprehension inserts the converted keys
  in order, a later key overwriting an earlier one that converts to the same name.
\<close>

definition rebuild_dict :: "(string \<times> 'v) list \<Rightarrow> (string \<times> 'v) list" where
  "rebuild_dict kvs = foldl (\<lambda>d kv. AList.update (fst kv) (snd kv) d) [] kvs"

function (sequential) transform_keys_to_camel_case :: "pyval \<Rightarrow> pyval" where
  "transform_keys_to_camel_case (PDict d) =
     PDict (rebuild_dict (map (\<lambda>p. (to_camel_case (fst p), transform_keys_to_camel_case (snd p))) d))"
| "transform_keys_to_camel_case (PList vs) = PList (map transform_keys_to_camel_case vs)"
| "transform_keys_to_camel_case v = v"
  by pat_completeness auto
termination
proof (relation "measure size", goal_cases)
  case (2 d p)
  then have "size p \<le> size_list size d" for size :: "string \<times> pyval \<Rightarrow> nat"
    by (simp add: size_list_estimation')
  from this [of "size_prod (\<lambda>_. 0) size"] show ?case by (cases p) simp
qed (auto simp: size_list_estimation' less_Suc_eq_le)

function (sequential) dict_keys_to_snake_case :: "pyval \<Rightarrow> pyval" where
  "dict_keys_to_snake_case (PDict d) =
     PDict (rebuild_dict (map (\<lambda>p. (to_snake_case (fst p), dict_keys_to_snake_case (snd p))) d))"
| "dict_keys_to_snake_case (PList vs) = PList (map dict_keys_to_snake_case vs)"
| "dict_keys_to_snake_case v = v"
  by pat_completeness auto
termination
proof (relation "measure size", goal_cases)
  case (2 d p)
  then have "size p \<le> size_list size d" for size :: "string \<times> pyval \<Rightarrow> nat"
    by (simp add: size_list_estimation')
  from this [of "size_prod (\<lambda>_. 0) size"] show ?case by (cases p) simp
qed (auto simp: size_list_estimation' less_Suc_eq_le)

subsection \<open>Words and names\<close>

text \<open>
  A word character is a lower-case letter or a digit.  A \<^emph>\<open>tail word\<close> starts with a
  letter and has at least two characters; a snake name is a non-empty first word and
  tail words, joined by underscores.
\<close>

definition word_char :: "char \<Rightarrow> bool" where
  "word_char c = (is_lower c \<or> is_digit c)"

definition head_word :: "string \<Rightarrow> bool" where
  "head_word w = (w \<noteq> [] \<and> (\<forall>c \<in> set w. word_char c))"

definition tail_word :: "string \<Rightarrow> bool" where
  "tail_word w = (2 \<le> length w \<and> is_lower (hd w) \<and> (\<forall>c \<in> set w. word_char c))"

definition camel_join :: "string list \<Rightarrow> string" where
  "camel_join ws = concat (map capitalize ws)"

definition snake_join :: "string list \<Rightarrow> string" where
  "snake_join ws = concat (map (\<lambda>w. CHR ''_'' # w) ws)"

lemma word_char_props:
  assumes "word_char c"
  shows "\<not> is_upper c" "c \<noteq> CHR ''_''" "c \<noteq> CHR 0x0A" "to_lower c = c"
  using assms by (auto simp: word_char_def is_lower_def is_digit_def is_upper_def to_lower_def)

lemma word_lower: "\<forall>c \<in> set w. word_char c \<Longrightarrow> lower w = w"
  by (induction w) (auto simp: lower_def word_char_props)

lemma split_on_snake:
  assumes "\<forall>c \<in> set w. word_char c" and "\<forall>v \<in> set ws. tail_word v"
  shows "split_on (CHR ''_'') (w @ snake_join ws) = w # ws"
  using assms
proof (induction ws arbitrary: w)
  case Nil
  then have "CHR ''_'' \<notin> set w" using word_char_props(2) by blast
  then show ?case by (simp add: snake_join_def split_on_word)
next
  case (Cons v ws)
  from Cons.prems(2) have v: "\<forall>c \<in> set v. word_char c" by (simp add: tail_word_def)
  have "split_on (CHR ''_'') (w @ snake_join (v # ws)) = w # split_on (CHR ''_'') (v @ snake_join ws)"
  proof -
    have "CHR ''_'' \<notin> set w" using Cons.prems(1) word_char_props(2) by blast
    then show ?thesis by (simp add: snake_join_def split_on_append)
  qed
  also have "\<dots> = w # v # ws" using Cons.IH [OF v] Cons.prems(2) by simp
  finally show ?case .
qed

lemma to_camel_case_snake:
  assumes "head_word w" and "\<forall>v \<in> set ws. tail_word v"
  shows "to_camel_case (w @ snake_join ws) = w @ camel_join ws"
  using assms by (simp add: to_camel_case_def split_on_snake head_word_def camel_join_def Let_def)

text \<open>
  A tail word capitalised is a \<^emph>\<open>hump\<close>.  The first pass of \<open>to_snake_case\<close> separates some
  of the humps (which ones depends on where its previous match ended), the second
  pass all the others: \<open>mix bs ws\<close> is the text with the humps marked in \<open>bs\<close> separated.
\<close>

fun mix :: "bool list \<Rightarrow> string list \<Rightarrow> string" where
  "mix (b # bs) (v # vs) = (if b then [CHR ''_''] else []) @ capitalize v @ mix bs vs"
| "mix _ _ = []"

lemma capitalize_tail:
  assumes "tail_word v"
  obtains u c r where "capitalize v = u # c # r" "is_upper u" "word_char c"
    "\<forall>x \<in> set r. word_char x" "lower (u # c # r) = v"
proof -
  from assms obtain a c r where v: "v = a # c # r"
    by (auto simp: tail_word_def) (metis One_nat_def Suc_le_length_iff numeral_2_eq_2)
  with assms have *: "is_lower a" "word_char c" "\<forall>x \<in> set r. word_char x"
    by (auto simp: tail_word_def)
  then have r: "lower (c # r) = c # r" by (intro word_lower) auto
  show ?thesis
  proof (rule that)
    show "capitalize v = to_upper a # c # r" using v r by (simp add: capitalize_def)
    show "lower (to_upper a # c # r) = v" using v r * by (simp add: lower_def to_lower_upper)
  qed (use * in \<open>simp_all add: is_upper_to_upper\<close>)
qed

lemma word_not_upper: "word_char c \<Longrightarrow> \<not> is_upper c"
  by (rule word_char_props(1))

lemma upper_not_word: "is_upper c \<Longrightarrow> \<not> is_lower c \<and> \<not> is_digit c"
  using word_not_upper by (auto simp: word_char_def)

lemma snake_pass1_step: "\<not> is_upper b \<Longrightarrow> snake_pass1 (a # b # s) = a # snake_pass1 (b # s)"
  by (cases s) simp_all

lemma dropWhile_lower_humps:
  assumes "\<forall>v \<in> set vs. tail_word v"
  shows "dropWhile is_lower (r @ camel_join vs) = dropWhile is_lower r @ camel_join vs"
    and "takeWhile is_lower (r @ camel_join vs) = takeWhile is_lower r"
proof -
  have "camel_join vs = [] \<or> \<not> is_lower (hd (camel_join vs))"
  proof (cases vs)
    case (Cons v vs')
    with assms have "tail_word v" by simp
    then obtain u c r where "capitalize v = u # c # r" "is_upper u" by (rule capitalize_tail)
    with Cons upper_not_word show ?thesis by (auto simp: camel_join_def)
  qed (simp add: camel_join_def)
  then show "dropWhile is_lower (r @ camel_join vs) = dropWhile is_lower r @ camel_join vs"
    and "takeWhile is_lower (r @ camel_join vs) = takeWhile is_lower r"
    by (induction r; cases "camel_join vs"; simp)+
qed

lemma snake_pass1_humps:
  assumes "\<forall>v \<in> set vs. tail_word v" and "\<forall>x \<in> set t. word_char x"
  shows "\<exists>bs. length bs = length vs \<and> snake_pass1 (t @ camel_join vs) = t @ mix bs vs"
  using assms
proof (induction vs arbitrary: t)
  case Nil
  have "snake_pass1 t = t" if "\<forall>x \<in> set t. word_char x" for t
    using that by (induction t rule: snake_pass1.induct) (auto simp: word_not_upper)
  with Nil show ?case by (simp add: camel_join_def)
next
  case (Cons v vs)
  from Cons.prems(1) obtain u c r where v: "capitalize v = u # c # r" "is_upper u" "word_char c"
    "\<forall>x \<in> set r. word_char x" by (auto elim: capitalize_tail)
  have vs: "\<forall>v \<in> set vs. tail_word v" using Cons.prems(1) by simp
  note IH = Cons.IH [OF vs]
  have J: "camel_join (v # vs) = u # c # r @ camel_join vs" by (simp add: camel_join_def v)
  have nil: "\<exists>bs. length bs = length (v # vs) \<and> snake_pass1 (camel_join (v # vs)) = mix bs (v # vs)"
  proof -
    from IH [of "c # r"] v
    obtain bs where "length bs = length vs" "snake_pass1 ((c # r) @ camel_join vs) = (c # r) @ mix bs vs"
      by auto
    then show ?thesis using v J
      by (intro exI [of _ "False # bs"]) (simp add: snake_pass1_step word_not_upper)
  qed
  from Cons.prems(2) show ?case
  proof (induction t)
    case Nil
    from nil show ?case by simp
  next
    case (Cons d t)
    show ?case
    proof (cases t)
      case (Cons e t')
      with Cons.IH Cons.prems obtain bs where
        "length bs = length (v # vs)" "snake_pass1 (t @ camel_join (v # vs)) = t @ mix bs (v # vs)" by auto
      with Cons Cons.prems show ?thesis
        by (intro exI [of _ bs]) (simp add: snake_pass1_step word_not_upper)
    next
      case t: Nil
      show ?thesis
      proof (cases "is_lower c")
        case True
        have "\<forall>x \<in> set (dropWhile is_lower r). word_char x" using v(4) by (meson set_dropWhileD)
        from IH [OF this] obtain bs where
          bs: "length bs = length vs"
            "snake_pass1 (dropWhile is_lower r @ camel_join vs) = dropWhile is_lower r @ mix bs vs"
          by blast
        have "snake_pass1 (d # u # c # r @ camel_join vs) =
            d # CHR ''_'' # u # c # takeWhile is_lower r @ dropWhile is_lower r @ mix bs vs"
          using v True Cons.prems bs by (simp add: dropWhile_lower_humps [OF vs] word_char_props)
        then show ?thesis using t bs v J by (intro exI [of _ "True # bs"]) simp
      next
        case False
        then have "snake_pass1 (d # u # c # r @ camel_join vs) = d # snake_pass1 (u # c # r @ camel_join vs)"
          by simp
        with nil t J show ?thesis by auto
      qed
    qed
  qed
qed

lemma snake_pass2_humps:
  assumes "length bs = length vs" and "\<forall>v \<in> set vs. tail_word v"
    and "t \<noteq> []" and "\<forall>x \<in> set t. word_char x"
  shows "snake_pass2 (t @ mix bs vs) = t @ mix (replicate (length vs) True) vs"
  using assms
proof (induction bs vs arbitrary: t rule: list_induct2)
  case Nil
  have "snake_pass2 t = t" if "\<forall>x \<in> set t. word_char x" for t
    using that by (induction t rule: snake_pass2.induct) (auto simp: word_not_upper)
  with Nil show ?case by simp
next
  case (Cons b bs v vs)
  from Cons.prems(1) obtain u c r where v: "capitalize v = u # c # r" "is_upper u" "word_char c"
    "\<forall>x \<in> set r. word_char x" by (auto elim: capitalize_tail)
  have IH: "snake_pass2 ((c # r) @ mix bs vs) = (c # r) @ mix (replicate (length vs) True) vs"
    using Cons.IH [of "c # r"] Cons.prems(1) v by simp
  have us: "\<not> is_lower (CHR ''_'')" "\<not> is_digit (CHR ''_'')" "\<not> is_upper (CHR ''_'')"
    by (simp_all add: is_lower_def is_digit_def is_upper_def)
  from Cons.prems(2,3) show ?case
  proof (induction t)
    case (Cons d t)
    show ?case
    proof (cases t)
      case Nil
      from Cons.prems have d: "is_lower d \<or> is_digit d" by (simp add: word_char_def)
      have u: "\<not> is_lower u" "\<not> is_digit u" using v(2) upper_not_word by auto
      show ?thesis using Nil d u us v IH word_not_upper [OF v(3)] by (cases b) simp_all
    next
      case (Cons e t')
      with Cons.IH Cons.prems show ?thesis by (simp add: word_not_upper)
    qed
  qed simp
qed

lemma lower_mix_all:
  "\<forall>v \<in> set vs. tail_word v \<Longrightarrow> lower (mix (replicate (length vs) True) vs) = snake_join vs"
proof (induction vs)
  case (Cons v vs)
  then obtain u c r where "capitalize v = u # c # r" "lower (u # c # r) = v"
    by (auto elim: capitalize_tail)
  then have "lower (capitalize v) = v" by simp
  with Cons show ?case
    by (simp add: snake_join_def) (simp add: lower_def to_lower_def is_upper_def)
qed (simp add: snake_join_def lower_def)

text \<open>
  C13: Case conversion round trip of names of longer words.  A snake-case name \<open>w_v1_..._vn\<close> whose first word is a
  non-empty string of lower-case letters and digits and whose further words start with
  a letter and have at least two characters is restored by \<open>to_snake_case\<close> from the
  camel-case name that \<open>to_camel_case\<close> gives it.  A word of one letter or one that starts with a digit can be
  lost: see \<open>short_words_are_lost\<close>.
\<close>

theorem snake_camel_roundtrip:
  assumes "head_word w" and "\<forall>v \<in> set ws. tail_word v"
  shows "to_snake_case (to_camel_case (w @ snake_join ws)) = w @ snake_join ws"
proof -
  from assms(1) have w: "w \<noteq> []" "\<forall>x \<in> set w. word_char x" by (auto simp: head_word_def)
  from snake_pass1_humps [OF assms(2) w(2)] obtain bs where
    bs: "length bs = length ws" "snake_pass1 (w @ camel_join ws) = w @ mix bs ws" by blast
  have "to_snake_case (to_camel_case (w @ snake_join ws)) = lower (snake_pass2 (w @ mix bs ws))"
    using assms bs(2) by (simp add: to_camel_case_snake to_snake_case_def)
  also have "\<dots> = w @ snake_join ws"
    using snake_pass2_humps [OF bs(1) assms(2) w] w(2) assms(2)
    by (simp add: word_lower lower_mix_all)
  finally show ?thesis .
qed

theorem snake_camel_roundtrip_witness:
  "to_camel_case ''unit_price2_usd'' = ''unitPrice2Usd'' \<and>
   to_snake_case (to_camel_case ''unit_price2_usd'') = ''unit_price2_usd''"
proof -
  have "head_word ''unit''" by (simp add: head_word_def word_char_def is_lower_def is_digit_def)
  moreover have "\<forall>v \<in> set [''price2'', ''usd'']. tail_word v"
    by (simp add: tail_word_def word_char_def is_lower_def is_digit_def)
  ultimately have "to_snake_case (to_camel_case (''unit'' @ snake_join [''price2'', ''usd''])) =
      ''unit'' @ snake_join [''price2'', ''usd'']"
    by (rule snake_camel_roundtrip)
  moreover have "to_camel_case ''unit_price2_usd'' = ''unitPrice2Usd''" by code_simp
  ultimately show ?thesis by (simp add: snake_join_def)
qed

text \<open>Words that the conversion does not give back.\<close>

lemma short_words_are_lost:
  "to_snake_case (to_camel_case ''x_y_z'') = ''x_yz''" "to_snake_case (to_camel_case ''address_2'') = ''address2''"
  by code_simp+

end
