(* ===== verification/SqlCompose.thy ===== *)
theory SqlCompose
  imports PyValue
begin

section \<open>Composed SQL: raw texts, placeholders, rendering\<close>

text \<open>
  Two views of a composed query that the theorems of the pipeline speak about.

  \<open>texts c\<close> is the set of strings that occur as raw SQL in \<open>c\<close>: everything else is a
  quoted identifier or a quoted literal.  A query is free of injected SQL when its raw
  texts come from a vocabulary that does not depend on the input.

  \<open>ph_count s\<close> reads a text the way psycopg reads a query with parameters: \<open>%s\<close> is a
  placeholder, \<open>%%\<close> a literal percent sign, any other use of \<open>%\<close> an error (\<open>None\<close>).
  \<open>comp_ph c\<close> adds the placeholders of the raw texts of \<open>c\<close>; \<open>ph_count_render\<close> shows that
  this is what the rendered query has, for any quoting that produces no percent sign.
\<close>

named_theorems sql_simps \<open>raw texts and placeholders of composed SQL\<close>

function texts :: "composable \<Rightarrow> string set" where
  "texts (SQL s) = {s}"
| "texts (Identifier s) = {}"
| "texts (Literal v) = {}"
| "texts (Composed cs) = (\<Union>c \<in> set cs. texts c)"
  by pat_completeness auto
termination
  by (relation "measure size") (auto simp: size_list_estimation' less_Suc_eq_le)

declare texts.simps [sql_simps]

fun ph_count :: "string \<Rightarrow> nat option" where
  "ph_count [] = Some 0"
| "ph_count [c] = (if c = CHR ''%'' then None else Some 0)"
| "ph_count (c # d # s) =
     (if c = CHR ''%''
      then (if d = CHR ''%'' then ph_count s
            else if d = CHR ''s'' then map_option Suc (ph_count s)
            else None)
      else ph_count (d # s))"

definition add_ph :: "nat option \<Rightarrow> nat option \<Rightarrow> nat option" where
  "add_ph m n = (case m of None \<Rightarrow> None | Some i \<Rightarrow> map_option ((+) i) n)"

fun sum_ph :: "nat option list \<Rightarrow> nat option" where
  "sum_ph [] = Some 0"
| "sum_ph (m # ms) = add_ph m (sum_ph ms)"

function comp_ph :: "composable \<Rightarrow> nat option" where
  "comp_ph (SQL s) = ph_count s"
| "comp_ph (Identifier s) = Some 0"
| "comp_ph (Literal v) = Some 0"
| "comp_ph (Composed cs) = sum_ph (map comp_ph cs)"
  by pat_completeness auto
termination
  by (relation "measure size") (auto simp: size_list_estimation' less_Suc_eq_le)

declare comp_ph.simps [sql_simps]

text \<open>Rendering, for a way to quote names and a way to quote values.\<close>

function render :: "(string \<Rightarrow> string) \<Rightarrow> (pyval \<Rightarrow> string) \<Rightarrow> composable \<Rightarrow> string" where
  "render qi ql (SQL s) = s"
| "render qi ql (Identifier s) = qi s"
| "render qi ql (Literal v) = ql v"
| "render qi ql (Composed cs) = concat (map (render qi ql) cs)"
  by pat_completeness auto
termination
  by (relation "measure (\<lambda>(_, _, c). size c)") (auto simp: size_list_estimation' less_Suc_eq_le)

text \<open>\<open>SQL(sep).join(parts)\<close>.\<close>

fun intersperse_sql :: "composable \<Rightarrow> composable list \<Rightarrow> composable list" where
  "intersperse_sql sep [] = []"
| "intersperse_sql sep [c] = [c]"
| "intersperse_sql sep (c # cs) = c # sep # intersperse_sql sep cs"

definition sql_join :: "string \<Rightarrow> composable list \<Rightarrow> composable" where
  "sql_join sep cs = Composed (intersperse_sql (SQL sep) cs)"

subsection \<open>Raw texts\<close>

lemma texts_intersperse:
  "(\<Union>c \<in> set (intersperse_sql (SQL sep) cs). texts c) \<subseteq> insert sep (\<Union>c \<in> set cs. texts c)"
  by (induction "SQL sep" cs rule: intersperse_sql.induct) auto

lemma texts_sql_join:
  "texts (sql_join sep cs) \<subseteq> insert sep (\<Union>c \<in> set cs. texts c)"
  unfolding sql_join_def using texts_intersperse by simp

lemma texts_sql_join_sub:
  "sep \<in> V \<Longrightarrow> (\<And>c. c \<in> set cs \<Longrightarrow> texts c \<subseteq> V) \<Longrightarrow> texts (sql_join sep cs) \<subseteq> V"
  using texts_sql_join [of sep cs] by fastforce

subsection \<open>Placeholders\<close>

lemma add_ph_simps [simp, sql_simps]:
  "add_ph (Some i) (Some j) = Some (i + j)"
  "add_ph None n = None"
  "add_ph (Some 0) n = n"
  "add_ph m None = None"
  by (cases n; auto simp: add_ph_def split: option.split)+

lemma add_ph_assoc: "add_ph (add_ph a b) c = add_ph a (add_ph b c)"
  by (cases a; cases b; cases c) simp_all

lemma ph_count_append: "ph_count a = Some m \<Longrightarrow> ph_count (a @ b) = add_ph (Some m) (ph_count b)"
proof (induction a arbitrary: m rule: ph_count.induct)
  case (2 c)
  then show ?case by (cases b) (auto split: if_splits)
next
  case (3 c d s)
  then show ?case by (cases "ph_count b") (auto split: if_splits simp: add_ph_def)
qed simp

lemma ph_count_no_percent: "CHR ''%'' \<notin> set s \<Longrightarrow> ph_count s = Some 0"
  by (induction s rule: ph_count.induct) auto

lemma ph_count_append_Some:
  "ph_count a = Some m \<Longrightarrow> ph_count b = Some n \<Longrightarrow> ph_count (a @ b) = Some (m + n)"
  by (simp add: ph_count_append)

lemma sum_ph_append: "sum_ph (xs @ ys) = add_ph (sum_ph xs) (sum_ph ys)"
  by (induction xs) (simp_all add: add_ph_assoc)

lemma sum_ph_zero: "(\<And>m. m \<in> set ms \<Longrightarrow> m = Some 0) \<Longrightarrow> sum_ph ms = Some 0"
proof (induction ms)
  case (Cons m ms)
  then have "m = Some 0" "sum_ph ms = Some 0" by simp_all
  then show ?case by simp
qed simp

lemma comp_ph_zero: "(\<And>t. t \<in> texts c \<Longrightarrow> ph_count t = Some 0) \<Longrightarrow> comp_ph c = Some 0"
proof (induction c rule: comp_ph.induct)
  case (4 cs)
  have "comp_ph c = Some 0" if "c \<in> set cs" for c
    by (rule 4(1)) (use 4(2) that in auto)
  then show ?case by (auto intro: sum_ph_zero)
qed auto

lemma sum_ph_Some_iff:
  "(\<exists>n. sum_ph ms = Some n) \<longleftrightarrow> (\<forall>m \<in> set ms. m \<noteq> None)"
proof (induction ms)
  case (Cons m ms)
  then show ?case by (cases m; cases "sum_ph ms") auto
qed simp

text \<open>
  The placeholders of the rendered text are those of the raw texts, whatever the quoting,
  as long as a quoted name or value has no percent sign.
\<close>

lemma ph_count_concat:
  "sum_ph (map ph_count ss) = Some n \<Longrightarrow> ph_count (concat ss) = Some n"
proof (induction ss arbitrary: n)
  case (Cons s ss)
  then show ?case
    by (cases "ph_count s"; cases "sum_ph (map ph_count ss)") (auto simp: ph_count_append)
qed simp

lemma ph_count_render:
  assumes qi: "\<And>s. CHR ''%'' \<notin> set (qi s)" and ql: "\<And>v. CHR ''%'' \<notin> set (ql v)"
  shows "comp_ph c = Some n \<Longrightarrow> ph_count (render qi ql c) = Some n"
proof (induction c arbitrary: n rule: comp_ph.induct)
  case (4 cs)
  have "sum_ph (map ph_count (map (render qi ql) cs)) = sum_ph (map comp_ph cs)"
  proof -
    have "\<forall>c \<in> set cs. comp_ph c \<noteq> None" using 4(2) sum_ph_Some_iff [of "map comp_ph cs"] by auto
    with 4(1) have "map ph_count (map (render qi ql) cs) = map comp_ph cs" by auto
    then show ?thesis by (simp only:)
  qed
  with 4(2) show ?case by (simp add: ph_count_concat)
qed (auto simp: ph_count_no_percent qi ql)

lemma comp_ph_intersperse:
  assumes "ph_count sep = Some 0"
  shows "sum_ph (map comp_ph (intersperse_sql (SQL sep) cs)) = sum_ph (map comp_ph cs)"
  using assms by (induction "SQL sep" cs rule: intersperse_sql.induct) auto

lemma comp_ph_sql_join:
  "ph_count sep = Some 0 \<Longrightarrow> comp_ph (sql_join sep cs) = sum_ph (map comp_ph cs)"
  by (simp add: sql_join_def comp_ph_intersperse)

text \<open>The text \<open>", ".join([s] * n)\<close> of a placeholder list.\<close>

definition placeholder_list :: "string \<Rightarrow> nat \<Rightarrow> string" where
  "placeholder_list s n = join_str '', '' (replicate n s)"

lemma ph_count_placeholder_list:
  assumes "ph_count s = Some 1"
  shows "ph_count (placeholder_list s n) = Some n"
  unfolding placeholder_list_def
proof (induction n)
  case (Suc n)
  show ?case
  proof (cases n)
    case 0
    with assms show ?thesis by simp
  next
    case (Suc m)
    then have "join_str '', '' (replicate (Suc n) s) = s @ '', '' @ join_str '', '' (replicate n s)"
      by simp
    moreover have "ph_count ('', '' @ join_str '', '' (replicate n s)) = Some n"
      using Suc.IH by (subst ph_count_append [of _ 0]) simp_all
    ultimately show ?thesis using assms by (simp add: ph_count_append)
  qed
qed simp

end
