(* ===== verification/OperatorBase.thy ===== *)
theory OperatorBase
  imports SqlCompose
begin

section \<open>Operator strategies: shared helpers and the registry\<close>

text \<open>
  \<open>sql/operators/base.py\<close> and \<open>sql/operators/strategy_registry.py\<close>: the helpers every
  strategy inherits, and the registry that picks the strategy for an operator and a
  field type.  A strategy is the record of its two methods; \<open>build_sql\<close> may raise, and
  \<open>None\<close> is its answer for an operator it does not handle.

  \<open>SQL("... {} ...").format(a, ...)\<close> is written as the \<open>Composed\<close> of its pieces.

  The locale \<open>safe_strategy\<close> is the contract the query pipeline relies on: the raw SQL
  texts of what a strategy builds are those of the path it was given and words of a
  fixed vocabulary, whatever the (plain) filter value is, and no word of the vocabulary
  is a placeholder.  The locale \<open>safe_registry\<close> lifts it to a list of strategies.
\<close>

subsection \<open>Python types as the strategies inspect them\<close>

text \<open>
  \<open>bool\<close>, \<open>int\<close>, \<open>float\<close>, \<open>str\<close>; a class with a name and its bases; a parametrised
  generic with its origin and its \<open>__name__\<close>; and a type object without \<open>__name__\<close>, of
  which the code reads \<open>str(field_type)\<close>.
\<close>

datatype py_type =
    BoolT | IntT | FloatT | StrT
  | ClassT string "py_type list"
  | GenericT string string
  | OtherT string

fun type_name :: "py_type \<Rightarrow> string" where
  "type_name BoolT = ''bool''"
| "type_name IntT = ''int''"
| "type_name FloatT = ''float''"
| "type_name StrT = ''str''"
| "type_name (ClassT n _) = n"
| "type_name (GenericT _ n) = n"
| "type_name (OtherT s) = s"

fun has_type_name :: "py_type \<Rightarrow> bool" where
  "has_type_name (OtherT _) = False"
| "has_type_name _ = True"

text \<open>\<open>issubclass(t, (int, float))\<close>; a \<open>TypeError\<close> is answered with \<open>False\<close> by the caller.\<close>

fun numeric_subclass :: "py_type \<Rightarrow> bool" where
  "numeric_subclass BoolT = True"
| "numeric_subclass IntT = True"
| "numeric_subclass FloatT = True"
| "numeric_subclass StrT = False"
| "numeric_subclass (ClassT _ bases) = (\<exists>b \<in> set bases. numeric_subclass b)"
| "numeric_subclass (GenericT _ _) = False"
| "numeric_subclass (OtherT _) = False"

fun origin_is_list :: "py_type \<Rightarrow> bool" where
  "origin_is_list (GenericT orig _) = (orig = ''list'')"
| "origin_is_list _ = False"

text \<open>The test \<open>A in type_name or b in type_name.lower()\<close> on an optional type.\<close>

definition type_mentions :: "string \<Rightarrow> string \<Rightarrow> py_type option \<Rightarrow> bool" where
  "type_mentions a b ft =
     (case ft of None \<Rightarrow> False
      | Some t \<Rightarrow> contains_str a (type_name t) \<or> contains_str b (lower (type_name t)))"

type_synonym build_fun =
  "string \<Rightarrow> pyval \<Rightarrow> composable \<Rightarrow> py_type option \<Rightarrow> string option \<Rightarrow> composable option result"

record strategy =
  supports_operator :: "string \<Rightarrow> py_type option \<Rightarrow> bool"
  strategy_build :: build_fun

text \<open>The truth value of \<open>jsonb_column\<close>.\<close>

definition has_jsonb :: "string option \<Rightarrow> bool" where
  "has_jsonb jc = (case jc of None \<Rightarrow> False | Some s \<Rightarrow> s \<noteq> [])"

subsection \<open>Helpers of \<open>BaseOperatorStrategy\<close>\<close>

definition cast_path :: "composable \<Rightarrow> string \<Rightarrow> string option \<Rightarrow> bool \<Rightarrow> composable" where
  "cast_path path target jc use_postgres_cast =
     (if has_jsonb jc
      then (if lower target \<in> {''text'', ''varchar'', ''char''} then path
            else if use_postgres_cast then Composed [SQL ''('', path, SQL '')::'', SQL target]
            else Composed [SQL ''CAST('', path, SQL '' AS '', SQL target, SQL '')''])
      else path)"

definition cast_both_sides :: "composable \<Rightarrow> pyval \<Rightarrow> string \<Rightarrow> bool \<Rightarrow> composable \<times> composable" where
  "cast_both_sides path v target use_postgres_cast =
     (if use_postgres_cast
      then (Composed [SQL ''('', path, SQL '')::'', SQL target],
            Composed [Literal v, SQL ''::'', SQL target])
      else (Composed [SQL ''CAST('', path, SQL '' AS '', SQL target, SQL '')''],
            Composed [SQL ''CAST('', Literal v, SQL '' AS '', SQL target, SQL '')'']))"

definition cast_list_values :: "pyval list \<Rightarrow> string \<Rightarrow> bool \<Rightarrow> composable list" where
  "cast_list_values vs target use_postgres_cast =
     map (\<lambda>v. if use_postgres_cast then Composed [Literal v, SQL ''::'', SQL target]
              else Composed [SQL ''CAST('', Literal v, SQL '' AS '', SQL target, SQL '')'']) vs"

definition build_comparison :: "string \<Rightarrow> composable \<Rightarrow> pyval \<Rightarrow> composable option" where
  "build_comparison op path v =
     (if op = ''eq'' then Some (Composed [path, SQL '' = '', Literal v])
      else if op = ''neq'' then Some (Composed [path, SQL '' != '', Literal v])
      else if op = ''gt'' then Some (Composed [path, SQL '' > '', Literal v])
      else if op = ''gte'' then Some (Composed [path, SQL '' >= '', Literal v])
      else if op = ''lt'' then Some (Composed [path, SQL '' < '', Literal v])
      else if op = ''lte'' then Some (Composed [path, SQL '' <= '', Literal v])
      else None)"

definition build_in_operator :: "composable \<Rightarrow> pyval \<Rightarrow> bool \<Rightarrow> string option \<Rightarrow> composable" where
  "build_in_operator path v negate cast_values =
     (let value_list = seq_or_single v;
          placeholders =
            (case cast_values of
               Some t \<Rightarrow>
                 (if t = [] then sql_join '', '' (map Literal value_list)
                  else sql_join '', ''
                    (map (\<lambda>x. Composed [Literal x, Composed [SQL ''::'', SQL t]]) value_list))
             | None \<Rightarrow> sql_join '', '' (map Literal value_list))
      in if negate then Composed [path, SQL '' NOT IN ('', placeholders, SQL '')'']
         else Composed [path, SQL '' IN ('', placeholders, SQL '')''])"

definition build_null_check :: "composable \<Rightarrow> pyval \<Rightarrow> composable" where
  "build_null_check path v =
     (if truthy v then Composed [path, SQL '' IS NULL''] else Composed [path, SQL '' IS NOT NULL''])"

subsection \<open>The registry\<close>

definition register :: "strategy list \<Rightarrow> strategy \<Rightarrow> strategy list" where
  "register ss s = ss @ [s]"

definition get_strategy :: "strategy list \<Rightarrow> string \<Rightarrow> py_type option \<Rightarrow> strategy option" where
  "get_strategy ss op ft = find (\<lambda>s. supports_operator s op ft) (rev ss)"

definition registry_build_sql :: "strategy list \<Rightarrow> build_fun" where
  "registry_build_sql ss op v path ft jc =
     (case get_strategy ss op ft of
        None \<Rightarrow> Inr None
      | Some s \<Rightarrow> strategy_build s op v path ft jc)"

subsection \<open>Raw texts of the helpers\<close>

text \<open>The words the helpers write themselves; a cast target is a word of its caller.\<close>

definition base_vocab :: "string set" where
  "base_vocab = {''('', '')'', '')::'', ''::'', '', '', ''CAST('', '' AS '', '' = '', '' != '', '' > '', '' >= '',
     '' < '', '' <= '', '' IN ('', '' NOT IN ('', '' IS NULL'', '' IS NOT NULL''}"

lemma texts_cast_path: "target \<in> V \<Longrightarrow> texts (cast_path path target jc b) \<subseteq> texts path \<union> (base_vocab \<union> V)"
  by (auto simp: cast_path_def base_vocab_def)

lemma texts_cast_both_sides:
  assumes "cast_both_sides path v target b = (c, d)" and "target \<in> V"
  shows "texts c \<subseteq> texts path \<union> (base_vocab \<union> V)" and "texts d \<subseteq> base_vocab \<union> V"
  using assms by (auto simp: cast_both_sides_def base_vocab_def split: if_splits)

lemma texts_cast_list_values:
  "target \<in> V \<Longrightarrow> c \<in> set (cast_list_values vs target b) \<Longrightarrow> texts c \<subseteq> base_vocab \<union> V"
  by (auto simp: cast_list_values_def base_vocab_def split: if_splits)

lemma texts_build_comparison:
  "build_comparison op path v = Some c \<Longrightarrow> texts c \<subseteq> texts path \<union> base_vocab"
  by (auto simp: build_comparison_def base_vocab_def split: if_splits)

lemma texts_build_in_operator:
  assumes "\<And>t. cast = Some t \<Longrightarrow> t \<in> V"
  shows "texts (build_in_operator path v neg cast) \<subseteq> texts path \<union> (base_vocab \<union> V)"
proof -
  let ?W = "base_vocab \<union> V"
  have lits: "texts (sql_join '', '' (map Literal vs)) \<subseteq> ?W" for vs
    by (rule texts_sql_join_sub) (auto simp: base_vocab_def)
  have casts: "texts (sql_join '', '' (map (\<lambda>x. Composed [Literal x, Composed [SQL ''::'', SQL t]]) vs)) \<subseteq> ?W"
    if "t \<in> V" for t vs
    by (rule texts_sql_join_sub) (use that in \<open>auto simp: base_vocab_def\<close>)
  define ph where "ph = (case cast of Some t \<Rightarrow>
      (if t = [] then sql_join '', '' (map Literal (seq_or_single v))
       else sql_join '', '' (map (\<lambda>x. Composed [Literal x, Composed [SQL ''::'', SQL t]]) (seq_or_single v)))
    | None \<Rightarrow> sql_join '', '' (map Literal (seq_or_single v)))"
  have ph: "texts ph \<subseteq> ?W"
    using lits casts assms by (simp add: ph_def split: option.split)
  have "build_in_operator path v neg cast =
      Composed [path, SQL (if neg then '' NOT IN ('' else '' IN (''), ph, SQL '')'']"
    by (simp add: build_in_operator_def Let_def ph_def)
  moreover have "{'' NOT IN ('', '' IN ('', '')''} \<subseteq> base_vocab" by (simp add: base_vocab_def)
  ultimately show ?thesis using ph by (simp split: if_split) blast
qed

lemma texts_build_null_check: "texts (build_null_check path v) \<subseteq> texts path \<union> base_vocab"
  by (auto simp: build_null_check_def base_vocab_def)

lemma base_vocab_no_placeholder: "t \<in> base_vocab \<Longrightarrow> ph_count t = Some 0"
  by (auto simp: base_vocab_def)

text \<open>
  \<open>confined V path r\<close>: what \<open>r\<close> built, if anything, has only the raw texts of \<open>path\<close> and words
  of \<open>V\<close>.  The rules follow the shape of a \<open>build_sql\<close> body, so that a chain of branches is
  proved by resolution.
\<close>

named_theorems confined_intros \<open>raw texts of the branches of a strategy\<close>

definition confined :: "string set \<Rightarrow> composable \<Rightarrow> composable option result \<Rightarrow> bool" where
  "confined V path r = (\<forall>c. r = Inr (Some c) \<longrightarrow> texts c \<subseteq> texts path \<union> V)"

lemma confined_D: "confined V path r \<Longrightarrow> r = Inr (Some c) \<Longrightarrow> texts c \<subseteq> texts path \<union> V"
  by (simp add: confined_def)

lemma confined_if [confined_intros]:
  "confined V path x \<Longrightarrow> confined V path y \<Longrightarrow> confined V path (if b then x else y)"
  by simp

lemma confined_Inl [confined_intros]: "confined V path (Inl e)"
  by (simp add: confined_def)

lemma confined_None [confined_intros]: "confined V path (Inr None)"
  by (simp add: confined_def)

lemma confined_rbind [confined_intros]:
  "(\<And>x. confined V path (f x)) \<Longrightarrow> confined V path (rbind r f)"
  by (cases r) (simp_all add: confined_def)

lemma confined_null_check [confined_intros]:
  "base_vocab \<subseteq> V \<Longrightarrow> confined V path (Inr (Some (build_null_check path v)))"
  using texts_build_null_check by (fastforce simp: confined_def)

lemma confined_Some:
  "texts c \<subseteq> texts path \<union> V \<Longrightarrow> confined V path (Inr (Some c))"
  by (simp add: confined_def)

subsection \<open>The contract of a strategy\<close>

locale safe_strategy =
  fixes strat :: strategy and vocab :: "string set"
  assumes build_texts:
      "plain v \<Longrightarrow> strategy_build strat op v path ft jc = Inr (Some c) \<Longrightarrow> texts c \<subseteq> texts path \<union> vocab"
    and vocab_plain: "t \<in> vocab \<Longrightarrow> ph_count t = Some 0"
begin

text \<open>A strategy adds no placeholder to a path that has none.\<close>

lemma build_no_placeholders:
  assumes "plain v" and "strategy_build strat op v path ft jc = Inr (Some c)"
    and "\<And>t. t \<in> texts path \<Longrightarrow> ph_count t = Some 0"
  shows "comp_ph c = Some 0"
  using build_texts [OF assms(1,2)] vocab_plain assms(3) by (blast intro: comp_ph_zero)

end

lemma safe_strategyI:
  assumes "\<And>op v path ft jc. plain v \<Longrightarrow> confined V path (b op v path ft jc)"
    and "\<And>t. t \<in> V \<Longrightarrow> ph_count t = Some 0"
  shows "safe_strategy \<lparr>supports_operator = s, strategy_build = b\<rparr> V"
proof
  fix v op path ft jc c
  assume "plain v" "strategy_build \<lparr>supports_operator = s, strategy_build = b\<rparr> op v path ft jc = Inr (Some c)"
  then show "texts c \<subseteq> texts path \<union> V" by (intro confined_D [OF assms(1)]) simp_all
qed (rule assms(2))

locale safe_registry =
  fixes strats :: "strategy list" and vocab :: "string set"
  assumes all_safe: "s \<in> set strats \<Longrightarrow> safe_strategy s vocab"
begin

lemma get_strategy_safe: "get_strategy strats op ft = Some s \<Longrightarrow> safe_strategy s vocab"
  unfolding get_strategy_def by (rule all_safe) (auto dest: find_Some_D)

lemma registry_texts:
  assumes "plain v" and "registry_build_sql strats op v path ft jc = Inr (Some c)"
  shows "texts c \<subseteq> texts path \<union> vocab"
proof -
  from assms(2) obtain s where "get_strategy strats op ft = Some s"
    and "strategy_build s op v path ft jc = Inr (Some c)"
    by (auto simp: registry_build_sql_def split: option.splits)
  with assms(1) show ?thesis by (meson get_strategy_safe safe_strategy.build_texts)
qed

lemma registry_no_placeholders:
  assumes "plain v" and "registry_build_sql strats op v path ft jc = Inr (Some c)"
    and "\<And>t. t \<in> texts path \<Longrightarrow> ph_count t = Some 0"
  shows "comp_ph c = Some 0"
proof -
  from assms(2) obtain s where "get_strategy strats op ft = Some s"
    and "strategy_build s op v path ft jc = Inr (Some c)"
    by (auto simp: registry_build_sql_def split: option.splits)
  with assms(1,3) show ?thesis by (meson get_strategy_safe safe_strategy.build_no_placeholders)
qed

text \<open>Registering one more safe strategy keeps the registry safe.\<close>

lemma register_safe:
  assumes "safe_strategy s vocab"
  shows "safe_registry (register strats s) vocab"
  by (intro safe_registry.intro) (use assms all_safe in \<open>auto simp: register_def\<close>)

end

text \<open>A larger vocabulary of placeholder-free words is a weaker contract.\<close>

lemma safe_strategy_mono:
  assumes "safe_strategy s V" and "V \<subseteq> W" and "\<And>t. t \<in> W \<Longrightarrow> ph_count t = Some 0"
  shows "safe_strategy s W"
proof
  fix v op path ft jc c
  assume "plain v" "strategy_build s op v path ft jc = Inr (Some c)"
  then show "texts c \<subseteq> texts path \<union> W"
    using safe_strategy.build_texts [OF assms(1)] assms(2) by blast
qed (rule assms(3))

end
