(* ===== verification/CoreStrategies.thy ===== *)
theory CoreStrategies
  imports OperatorBase
begin

section \<open>Core, fallback, array and JSONB operator strategies\<close>

text \<open>
  \<open>sql/operators/core\<close>, \<open>fallback\<close>, \<open>array\<close> and \<open>advanced/jsonb_operators.py\<close>: for each
  strategy its \<open>supports_operator\<close>, its \<open>build_sql\<close> branch by branch, and an
  interpretation of \<open>safe_strategy\<close> with the words the strategy writes.
\<close>

subsection \<open>Strings\<close>

definition string_specific_ops :: "string set" where
  "string_specific_ops = {''contains'', ''icontains'', ''startswith'', ''istartswith'', ''endswith'',
     ''iendswith'', ''like'', ''ilike'', ''matches'', ''imatches'', ''not_matches''}"

definition string_supports :: "string \<Rightarrow> py_type option \<Rightarrow> bool" where
  "string_supports op ft =
     (case ft of
        None \<Rightarrow> op \<in> string_specific_ops
      | Some StrT \<Rightarrow> op \<in> string_specific_ops \<union> {''eq'', ''neq'', ''in'', ''nin'', ''isnull''}
      | Some _ \<Rightarrow> False)"

definition binop :: "composable \<Rightarrow> string \<Rightarrow> pyval \<Rightarrow> composable option result" where
  "binop path op v = Inr (Some (Composed [path, SQL op, Literal v]))"

definition string_build :: build_fun where
  "string_build op v path0 ft jc =
     (let path = cast_path path0 ''text'' jc False; s = py_str v in
      if op \<in> {''eq'', ''neq''} then Inr (build_comparison op path (PStr s))
      else if op = ''contains'' then
        (if is_str v then binop path '' LIKE '' (PStr (''%'' @ s @ ''%''))
         else binop path '' ~ '' (PStr (''.*'' @ s @ ''.*'')))
      else if op = ''icontains'' then
        (if is_str v then binop path '' ILIKE '' (PStr (''%'' @ s @ ''%''))
         else binop path '' ~* '' v)
      else if op = ''startswith'' then
        (if is_str v then binop path '' LIKE '' (PStr (s @ ''%''))
         else binop path '' ~ '' (PStr (''^'' @ s @ ''.*'')))
      else if op = ''istartswith'' then
        (if is_str v then binop path '' ILIKE '' (PStr (s @ ''%''))
         else binop path '' ~* '' (PStr (''^'' @ s)))
      else if op = ''endswith'' then
        (if is_str v then binop path '' LIKE '' (PStr (''%'' @ s))
         else binop path '' ~ '' (PStr (''.*'' @ s @ ''$'')))
      else if op = ''iendswith'' then
        (if is_str v then binop path '' ILIKE '' (PStr (''%'' @ s))
         else binop path '' ~* '' (PStr (s @ ''$'')))
      else if op = ''like'' then binop path '' LIKE '' (PStr s)
      else if op = ''ilike'' then binop path '' ILIKE '' (PStr s)
      else if op = ''matches'' then binop path '' ~ '' v
      else if op = ''imatches'' then binop path '' ~* '' v
      else if op = ''not_matches'' then binop path '' !~ '' v
      else if op = ''in'' then
        Inr (Some (build_in_operator path (PList (map (PStr \<circ> py_str) (seq_or_single v))) False None))
      else if op = ''nin'' then
        Inr (Some (build_in_operator path (PList (map (PStr \<circ> py_str) (seq_or_single v))) True None))
      else if op = ''isnull'' then Inr (Some (build_null_check path0 v))
      else Inr None)"

definition string_strategy :: strategy where
  "string_strategy = \<lparr>supports_operator = string_supports, strategy_build = string_build\<rparr>"

subsection \<open>Numbers and booleans\<close>

definition numeric_supports :: "string \<Rightarrow> py_type option \<Rightarrow> bool" where
  "numeric_supports op ft =
     (if op \<notin> {''eq'', ''neq'', ''gt'', ''gte'', ''lt'', ''lte'', ''in'', ''nin'', ''isnull''} then False
      else case ft of
        None \<Rightarrow> op \<in> {''gt'', ''gte'', ''lt'', ''lte''}
      | Some BoolT \<Rightarrow> False
      | Some t \<Rightarrow> numeric_subclass t)"

definition numeric_build :: build_fun where
  "numeric_build op v path0 ft jc =
     (let path =
        (if has_jsonb jc
         then cast_path path0 (if ft = Some IntT \<or> is_int v then ''integer'' else ''numeric'') jc True
         else path0)
      in case build_comparison op path v of
           Some c \<Rightarrow> Inr (Some c)
         | None \<Rightarrow>
             if op = ''in'' then Inr (Some (build_in_operator path v False None))
             else if op = ''nin'' then Inr (Some (build_in_operator path v True None))
             else if op = ''isnull'' then Inr (Some (build_null_check path0 v))
             else Inr None)"

definition numeric_strategy :: strategy where
  "numeric_strategy = \<lparr>supports_operator = numeric_supports, strategy_build = numeric_build\<rparr>"

definition boolean_supports :: "string \<Rightarrow> py_type option \<Rightarrow> bool" where
  "boolean_supports op ft = (op \<in> {''eq'', ''neq'', ''isnull''} \<and> ft = Some BoolT)"

definition boolean_build :: build_fun where
  "boolean_build op v path ft jc =
     (if op \<in> {''eq'', ''neq''}
      then Inr (build_comparison op (cast_path path ''boolean'' jc True) (PBool (truthy v)))
      else if op = ''isnull'' then Inr (Some (build_null_check path v))
      else Inr None)"

definition boolean_strategy :: strategy where
  "boolean_strategy = \<lparr>supports_operator = boolean_supports, strategy_build = boolean_build\<rparr>"

subsection \<open>Fallback comparison and list strategies\<close>

text \<open>
  \<open>_IP_PATTERN\<close>: four decimal octets without leading zeros, or three to eight groups of
  at most four hexadecimal digits; \<open>$\<close> also matches before a final newline.
\<close>

definition ip_octet :: "string \<Rightarrow> bool" where
  "ip_octet s =
     (case s of
        [a] \<Rightarrow> is_digit a
      | [a, b] \<Rightarrow> is_digit a \<and> a \<noteq> CHR ''0'' \<and> is_digit b
      | [a, b, c] \<Rightarrow>
          (a = CHR ''1'' \<and> is_digit b \<and> is_digit c) \<or>
          (a = CHR ''2'' \<and> is_digit b \<and> (of_char b :: nat) \<le> 52 \<and> is_digit c) \<or>
          (a = CHR ''2'' \<and> b = CHR ''5'' \<and> is_digit c \<and> (of_char c :: nat) \<le> 53)
      | _ \<Rightarrow> False)"

definition is_hex :: "char \<Rightarrow> bool" where
  "is_hex c = (is_digit c \<or> (97 \<le> (of_char c :: nat) \<and> (of_char c :: nat) \<le> 102)
                \<or> (65 \<le> (of_char c :: nat) \<and> (of_char c :: nat) \<le> 70))"

definition ip_pattern_full :: "string \<Rightarrow> bool" where
  "ip_pattern_full s =
     (let octets = split_on (CHR ''.'') s; groups = split_on (CHR '':'') s in
      (length octets = 4 \<and> list_all ip_octet octets) \<or>
      (3 \<le> length groups \<and> length groups \<le> 8 \<and>
       list_all (\<lambda>g. length g \<le> 4 \<and> list_all is_hex g) groups))"

definition ip_pattern_match :: "string \<Rightarrow> bool" where
  "ip_pattern_match s =
     (ip_pattern_full s \<or> (s \<noteq> [] \<and> last s = CHR 0x0A \<and> ip_pattern_full (butlast s)))"

fun is_ip_text :: "pyval \<Rightarrow> bool" where
  "is_ip_text (PStr s) = ip_pattern_match s"
| "is_ip_text _ = False"

definition cast_to :: "composable \<Rightarrow> string \<Rightarrow> composable" where
  "cast_to path t = Composed [SQL ''('', path, SQL ('')::'' @ t)]"

definition comparison_ops :: "string set" where
  "comparison_ops = {''eq'', ''neq'', ''gt'', ''gte'', ''lt'', ''lte''}"

definition comparison_supports :: "string \<Rightarrow> py_type option \<Rightarrow> bool" where
  "comparison_supports op ft = (op \<in> comparison_ops)"

definition comparison_type_cast :: "composable \<Rightarrow> pyval \<Rightarrow> composable" where
  "comparison_type_cast path v =
     (if is_bool v then path
      else if is_numeric v then cast_to path ''numeric''
      else if is_datetime v then cast_to path ''timestamp''
      else if is_date v then cast_to path ''date''
      else if is_uuid v then cast_to path ''uuid''
      else if is_ip_text v then cast_to path ''inet''
      else path)"

definition comparison_map :: "string \<Rightarrow> string option" where
  "comparison_map op = map_of [(''eq'', '' = ''), (''neq'', '' != ''), (''gt'', '' > ''), (''gte'', '' >= ''),
     (''lt'', '' < ''), (''lte'', '' <= '')] op"

definition comparison_build :: build_fun where
  "comparison_build op v path0 ft jc =
     (let path = (if has_jsonb jc then comparison_type_cast path0 v
                  else if is_ip_text v then cast_to path0 ''inet''
                  else path0)
      in case comparison_map op of
           None \<Rightarrow> Inr None
         | Some sql_op \<Rightarrow>
             if is_bool v \<and> has_jsonb jc
             then Inr (Some (Composed [path, SQL sql_op, Literal (PStr (if truthy v then ''true'' else ''false''))]))
             else Inr (Some (Composed [path, SQL sql_op, Literal v])))"

definition comparison_strategy :: strategy where
  "comparison_strategy = \<lparr>supports_operator = comparison_supports, strategy_build = comparison_build\<rparr>"

definition list_supports :: "string \<Rightarrow> py_type option \<Rightarrow> bool" where
  "list_supports op ft = (op \<in> {''in'', ''notin''})"

definition list_type_cast :: "composable \<Rightarrow> pyval \<Rightarrow> composable" where
  "list_type_cast path v =
     (if is_bool v then path else if is_numeric v then cast_to path ''numeric'' else path)"

definition list_build :: build_fun where
  "list_build op v path0 ft jc =
     (case v of
        PList vs \<Rightarrow>
          (let path =
             (if has_jsonb jc \<and> vs \<noteq> [] then list_type_cast path0 (hd vs)
              else if vs \<noteq> [] \<and> is_ip_text (hd vs) then cast_to path0 ''inet''
              else path0);
             lits =
             (if vs \<noteq> [] \<and> list_all is_bool vs
              then map (\<lambda>x. Literal (PStr (if truthy x then ''true'' else ''false''))) vs
              else map Literal vs)
           in Inr (Some (Composed ([path, SQL (if op = ''in'' then '' IN ('' else '' NOT IN ('')]
                @ intersperse_sql (SQL '', '') lits @ [SQL '')'']))))
      | _ \<Rightarrow> Inl TypeError)"

definition list_strategy :: strategy where
  "list_strategy = \<lparr>supports_operator = list_supports, strategy_build = list_build\<rparr>"

subsection \<open>Null, path and pattern strategies\<close>

definition null_supports :: "string \<Rightarrow> py_type option \<Rightarrow> bool" where
  "null_supports op ft = (op = ''isnull'')"

definition null_build :: build_fun where
  "null_build op v path ft jc =
     (if op = ''isnull'' then Inr (Some (build_null_check path v)) else Inr None)"

definition null_strategy :: strategy where
  "null_strategy = \<lparr>supports_operator = null_supports, strategy_build = null_build\<rparr>"

definition path_supports :: "string \<Rightarrow> py_type option \<Rightarrow> bool" where
  "path_supports op ft = (op \<in> {''depth_eq'', ''depth_gt'', ''depth_lt'', ''isdescendant''})"

definition path_build :: build_fun where
  "path_build op v path ft jc =
     (if op = ''depth_eq'' then Inr (Some (Composed [SQL ''nlevel('', path, SQL '') = '', Literal v]))
      else if op = ''depth_gt'' then Inr (Some (Composed [SQL ''nlevel('', path, SQL '') > '', Literal v]))
      else if op = ''depth_lt'' then Inr (Some (Composed [SQL ''nlevel('', path, SQL '') < '', Literal v]))
      else if op = ''isdescendant'' then binop path '' <@ '' v
      else Inr None)"

definition path_strategy :: strategy where
  "path_strategy = \<lparr>supports_operator = path_supports, strategy_build = path_build\<rparr>"

definition pattern_supports :: "string \<Rightarrow> py_type option \<Rightarrow> bool" where
  "pattern_supports op ft = (op \<in> {''matches'', ''imatches'', ''not_matches'', ''startswith'',
     ''endswith'', ''contains'', ''ilike''})"

definition pattern_build :: build_fun where
  "pattern_build op v path ft jc =
     (let s = py_str v in
      if op = ''matches'' then binop path '' ~ '' v
      else if op = ''imatches'' then binop path '' ~* '' v
      else if op = ''not_matches'' then binop path '' !~ '' v
      else if op = ''startswith'' then
        (if is_str v then binop path '' LIKE '' (PStr (s @ ''%''))
         else binop path '' ~ '' (PStr (''^'' @ s @ ''.*'')))
      else if op = ''endswith'' then
        (if is_str v then binop path '' LIKE '' (PStr (''%'' @ s))
         else binop path '' ~ '' (PStr (''.*'' @ s @ ''$'')))
      else if op = ''contains'' then
        (if is_str v then binop path '' LIKE '' (PStr (''%'' @ s @ ''%''))
         else binop path '' ~ '' (PStr (''.*'' @ s @ ''.*'')))
      else if op = ''ilike'' then
        (if is_str v then binop path '' ILIKE '' (PStr (''%'' @ s @ ''%''))
         else binop path '' ~* '' v)
      else Inr None)"

definition pattern_strategy :: strategy where
  "pattern_strategy = \<lparr>supports_operator = pattern_supports, strategy_build = pattern_build\<rparr>"

subsection \<open>Arrays and JSONB\<close>

definition array_supports :: "string \<Rightarrow> py_type option \<Rightarrow> bool" where
  "array_supports op ft =
     (op \<in> {''eq'', ''neq'', ''contains'', ''contained_by'', ''overlaps'', ''len_eq'', ''len_neq'',
            ''len_gt'', ''len_gte'', ''len_lt'', ''len_lte'', ''any_eq'', ''all_eq''}
      \<and> (case ft of None \<Rightarrow> False | Some t \<Rightarrow> origin_is_list t))"

definition json_binop :: "composable \<Rightarrow> string \<Rightarrow> pyval \<Rightarrow> composable option result" where
  "json_binop path op v =
     rbind (json_dumps v) (\<lambda>s. Inr (Some (Composed [path, SQL op, Literal (PStr s), SQL ''::jsonb''])))"

definition array_length_cmp :: "composable \<Rightarrow> string \<Rightarrow> pyval \<Rightarrow> composable option result" where
  "array_length_cmp path op v =
     Inr (Some (Composed [SQL ''jsonb_array_length('', path, SQL op, Literal v]))"

definition array_build :: build_fun where
  "array_build op v path ft jc =
     (if op = ''eq'' then json_binop path '' = '' v
      else if op = ''neq'' then json_binop path '' != '' v
      else if op = ''contains'' then json_binop path '' @> '' v
      else if op = ''contained_by'' then json_binop path '' <@ '' v
      else if op = ''overlaps'' then
        (case v of
           PList vs \<Rightarrow>
             binop path '' ?| ''
               (PStr (''{'' @ join_str '','' (map (\<lambda>x. [CHR 0x22] @ py_str x @ [CHR 0x22]) vs) @ ''}''))
         | _ \<Rightarrow> rbind (json_dumps v) (\<lambda>s. binop path '' ?| '' (PStr s)))
      else if op = ''len_eq'' then array_length_cmp path '') = '' v
      else if op = ''len_neq'' then array_length_cmp path '') != '' v
      else if op = ''len_gt'' then array_length_cmp path '') > '' v
      else if op = ''len_gte'' then array_length_cmp path '') >= '' v
      else if op = ''len_lt'' then array_length_cmp path '') < '' v
      else if op = ''len_lte'' then array_length_cmp path '') <= '' v
      else if op = ''any_eq'' then
        Inr (Some (Composed [SQL ''EXISTS (SELECT 1 FROM jsonb_array_elements_text('', path,
          SQL '') AS elem WHERE elem = '', Literal v, SQL '')'']))
      else if op = ''all_eq'' then
        Inr (Some (Composed [SQL ''jsonb_array_length('', path,
          SQL '') = (SELECT COUNT(*) FROM jsonb_array_elements_text('', path,
          SQL '') AS elem WHERE elem = '', Literal v, SQL '')'']))
      else Inr None)"

definition array_strategy :: strategy where
  "array_strategy = \<lparr>supports_operator = array_supports, strategy_build = array_build\<rparr>"

definition jsonb_supports :: "string \<Rightarrow> py_type option \<Rightarrow> bool" where
  "jsonb_supports op ft = (op \<in> {''overlaps'', ''strictly_contains''})"

definition jsonb_build :: build_fun where
  "jsonb_build op v path ft jc =
     (if op = ''overlaps'' then binop path '' && '' v
      else if op = ''strictly_contains'' then
        Inr (Some (Composed [path, SQL '' @> '', Literal v, SQL '' AND '', path, SQL '' != '', Literal v]))
      else Inr None)"

definition jsonb_strategy :: strategy where
  "jsonb_strategy = \<lparr>supports_operator = jsonb_supports, strategy_build = jsonb_build\<rparr>"

subsection \<open>Every strategy meets the contract\<close>

definition core_vocab :: "string set" where
  "core_vocab = base_vocab \<union> {''text'', ''integer'', ''numeric'', ''boolean'', '')::numeric'', '')::timestamp'',
     '')::date'', '')::uuid'', '')::inet'', '' LIKE '', '' ILIKE '', '' ~ '', '' ~* '', '' !~ '', '' @> '', '' <@ '', '' ?| '',
     '' && '', '' AND '', ''::jsonb'', ''nlevel('', '') = '', '') != '', '') > '', '') >= '', '') < '', '') <= '',
     ''jsonb_array_length('', ''EXISTS (SELECT 1 FROM jsonb_array_elements_text('',
     '') = (SELECT COUNT(*) FROM jsonb_array_elements_text('', '') AS elem WHERE elem = ''}"

lemma core_vocab_words:
  "base_vocab \<subseteq> core_vocab"
  "''text'' \<in> core_vocab" "''integer'' \<in> core_vocab" "''numeric'' \<in> core_vocab" "''boolean'' \<in> core_vocab"
  "'')::numeric'' \<in> core_vocab" "'')::timestamp'' \<in> core_vocab" "'')::date'' \<in> core_vocab"
  "'')::uuid'' \<in> core_vocab" "'')::inet'' \<in> core_vocab"
  "'' LIKE '' \<in> core_vocab" "'' ILIKE '' \<in> core_vocab" "'' ~ '' \<in> core_vocab" "'' ~* '' \<in> core_vocab"
  "'' !~ '' \<in> core_vocab" "'' @> '' \<in> core_vocab" "'' <@ '' \<in> core_vocab" "'' ?| '' \<in> core_vocab"
  "'' && '' \<in> core_vocab" "'' AND '' \<in> core_vocab" "''::jsonb'' \<in> core_vocab" "''nlevel('' \<in> core_vocab"
  "'') = '' \<in> core_vocab" "'') != '' \<in> core_vocab" "'') > '' \<in> core_vocab" "'') >= '' \<in> core_vocab"
  "'') < '' \<in> core_vocab" "'') <= '' \<in> core_vocab" "''jsonb_array_length('' \<in> core_vocab"
  "''EXISTS (SELECT 1 FROM jsonb_array_elements_text('' \<in> core_vocab"
  "'') = (SELECT COUNT(*) FROM jsonb_array_elements_text('' \<in> core_vocab"
  "'') AS elem WHERE elem = '' \<in> core_vocab"
  "'' = '' \<in> core_vocab" "'' != '' \<in> core_vocab" "'' > '' \<in> core_vocab" "'' >= '' \<in> core_vocab"
  "'' < '' \<in> core_vocab" "'' <= '' \<in> core_vocab" "''('' \<in> core_vocab" "'')'' \<in> core_vocab"
  "'', '' \<in> core_vocab" "'' IN ('' \<in> core_vocab" "'' NOT IN ('' \<in> core_vocab"
  by (simp_all add: core_vocab_def base_vocab_def)

lemma core_vocab_no_placeholder: "t \<in> core_vocab \<Longrightarrow> ph_count t = Some 0"
  unfolding core_vocab_def by (auto dest: base_vocab_no_placeholder)

lemma core_cast_path:
  "t \<in> core_vocab \<Longrightarrow> texts (cast_path path t jc b) \<subseteq> texts path \<union> core_vocab"
  using texts_cast_path [of t core_vocab path jc b] core_vocab_words(1) by blast

lemma core_comparison: "build_comparison op path v = Some c \<Longrightarrow> texts c \<subseteq> texts path \<union> core_vocab"
  using texts_build_comparison core_vocab_words(1) by blast

lemma core_in_operator: "texts (build_in_operator path v b None) \<subseteq> texts path \<union> core_vocab"
  using texts_build_in_operator [of None core_vocab] core_vocab_words(1) by blast

lemma core_null_check: "texts (build_null_check path v) \<subseteq> texts path \<union> core_vocab"
  using texts_build_null_check core_vocab_words(1) by blast

lemma core_binop:
  "binop path op v = Inr (Some c) \<Longrightarrow> op \<in> core_vocab \<Longrightarrow> texts c \<subseteq> texts path \<union> core_vocab"
  by (auto simp: binop_def)


lemmas core_dests = core_comparison subsetD [OF core_in_operator] subsetD [OF core_null_check]

lemma string_build_texts:
  assumes "string_build op v path ft jc = Inr (Some c)"
  shows "texts c \<subseteq> texts path \<union> core_vocab"
proof -
  let ?p = "cast_path path ''text'' jc False"
  have p: "texts ?p \<subseteq> texts path \<union> core_vocab" by (rule core_cast_path) (rule core_vocab_words)
  show ?thesis
    using assms p
    by (auto simp: string_build_def Let_def binop_def core_vocab_words split: if_splits dest!: core_dests)
qed

interpretation string_strat: safe_strategy string_strategy core_vocab
  by unfold_locales (auto simp: string_strategy_def dest: string_build_texts core_vocab_no_placeholder)

lemma numeric_build_texts:
  assumes "numeric_build op v path ft jc = Inr (Some c)"
  shows "texts c \<subseteq> texts path \<union> core_vocab"
proof -
  define p where "p = (if has_jsonb jc
    then cast_path path (if ft = Some IntT \<or> is_int v then ''integer'' else ''numeric'') jc True else path)"
  have p: "texts p \<subseteq> texts path \<union> core_vocab"
    using core_cast_path core_vocab_words by (simp add: p_def)
  show ?thesis
    using assms p
    by (auto simp: numeric_build_def Let_def p_def [symmetric] split: if_splits option.splits dest!: core_dests)
qed

interpretation numeric_strat: safe_strategy numeric_strategy core_vocab
  by unfold_locales (auto simp: numeric_strategy_def dest: numeric_build_texts core_vocab_no_placeholder)

lemma boolean_build_texts:
  assumes "boolean_build op v path ft jc = Inr (Some c)"
  shows "texts c \<subseteq> texts path \<union> core_vocab"
proof -
  let ?p = "cast_path path ''boolean'' jc True"
  have p: "texts ?p \<subseteq> texts path \<union> core_vocab" by (rule core_cast_path) (rule core_vocab_words)
  show ?thesis
    using assms p by (auto simp: boolean_build_def split: if_splits dest!: core_dests)
qed

interpretation boolean_strat: safe_strategy boolean_strategy core_vocab
  by unfold_locales (auto simp: boolean_strategy_def dest: boolean_build_texts core_vocab_no_placeholder)

lemma core_cast_to: "('')::'' @ t) \<in> core_vocab \<Longrightarrow> texts (cast_to path t) \<subseteq> texts path \<union> core_vocab"
  using core_vocab_words by (auto simp: cast_to_def)

lemma comparison_type_cast_texts: "texts (comparison_type_cast path v) \<subseteq> texts path \<union> core_vocab"
  using core_vocab_words by (simp add: comparison_type_cast_def core_cast_to)

lemma list_type_cast_texts: "texts (list_type_cast path v) \<subseteq> texts path \<union> core_vocab"
  using core_vocab_words by (simp add: list_type_cast_def core_cast_to)

lemma comparison_build_texts:
  assumes "comparison_build op v path ft jc = Inr (Some c)"
  shows "texts c \<subseteq> texts path \<union> core_vocab"
proof -
  define p where "p = (if has_jsonb jc then comparison_type_cast path v
    else if is_ip_text v then cast_to path ''inet'' else path)"
  have p: "texts p \<subseteq> texts path \<union> core_vocab"
    using core_vocab_words by (simp add: p_def comparison_type_cast_texts core_cast_to)
  from assms obtain o' x where "comparison_map op = Some o'" and c: "c = Composed [p, SQL o', Literal x]"
    by (auto simp: comparison_build_def Let_def p_def [symmetric] split: option.splits if_splits)
  then have "o' \<in> core_vocab"
    by (auto simp: comparison_map_def core_vocab_words split: if_splits)
  with p c show ?thesis by auto
qed

interpretation comparison_strat: safe_strategy comparison_strategy core_vocab
  by unfold_locales (auto simp: comparison_strategy_def dest: comparison_build_texts core_vocab_no_placeholder)

lemma list_build_texts:
  assumes "list_build op v path ft jc = Inr (Some c)"
  shows "texts c \<subseteq> texts path \<union> core_vocab"
proof -
  from assms obtain vs where v: "v = PList vs" by (auto simp: list_build_def split: pyval.splits)
  define p where "p = (if has_jsonb jc \<and> vs \<noteq> [] then list_type_cast path (hd vs)
    else if vs \<noteq> [] \<and> is_ip_text (hd vs) then cast_to path ''inet'' else path)"
  define lits where "lits = (if vs \<noteq> [] \<and> list_all is_bool vs
    then map (\<lambda>x. Literal (PStr (if truthy x then ''true'' else ''false''))) vs else map Literal vs)"
  have p: "texts p \<subseteq> texts path \<union> core_vocab"
    using core_vocab_words by (simp add: p_def list_type_cast_texts core_cast_to)
  have "(\<Union>c \<in> set lits. texts c) = {}" by (auto simp: lits_def)
  then have l: "(\<Union>c \<in> set (intersperse_sql (SQL '', '') lits). texts c) \<subseteq> core_vocab"
    using texts_intersperse [of "'', ''" lits] core_vocab_words by auto
  have "c = Composed ([p, SQL (if op = ''in'' then '' IN ('' else '' NOT IN ('')]
      @ intersperse_sql (SQL '', '') lits @ [SQL '')''])"
    using assms v by (simp add: list_build_def Let_def p_def lits_def)
  then have "texts c = texts p \<union> {if op = ''in'' then '' IN ('' else '' NOT IN (''}
      \<union> (\<Union>c \<in> set (intersperse_sql (SQL '', '') lits). texts c) \<union> {'')''}"
    by (simp only: texts.simps set_append list.set UN_Un UN_insert UN_empty Un_empty_right) auto
  with p l core_vocab_words show ?thesis by (auto split: if_splits)
qed

interpretation list_strat: safe_strategy list_strategy core_vocab
  by unfold_locales (auto simp: list_strategy_def dest: list_build_texts core_vocab_no_placeholder)

interpretation null_strat: safe_strategy null_strategy core_vocab
  using core_null_check core_vocab_no_placeholder
  by unfold_locales (auto simp: null_strategy_def null_build_def split: if_splits)

lemma path_build_texts:
  "path_build op v path ft jc = Inr (Some c) \<Longrightarrow> texts c \<subseteq> texts path \<union> core_vocab"
  by (auto simp: path_build_def binop_def core_vocab_words split: if_splits)

interpretation path_strat: safe_strategy path_strategy core_vocab
  by unfold_locales (auto simp: path_strategy_def dest: path_build_texts core_vocab_no_placeholder)

lemma pattern_build_texts:
  "pattern_build op v path ft jc = Inr (Some c) \<Longrightarrow> texts c \<subseteq> texts path \<union> core_vocab"
  by (auto simp: pattern_build_def Let_def binop_def core_vocab_words split: if_splits)

interpretation pattern_strat: safe_strategy pattern_strategy core_vocab
  by unfold_locales (auto simp: pattern_strategy_def dest: pattern_build_texts core_vocab_no_placeholder)

lemma array_build_texts:
  "array_build op v path ft jc = Inr (Some c) \<Longrightarrow> texts c \<subseteq> texts path \<union> core_vocab"
  by (auto simp: array_build_def json_binop_def array_length_cmp_def binop_def core_vocab_words
      rbind_eq_Inr split: if_splits pyval.splits)

interpretation array_strat: safe_strategy array_strategy core_vocab
  by unfold_locales (auto simp: array_strategy_def dest: array_build_texts core_vocab_no_placeholder)

lemma jsonb_build_texts:
  "jsonb_build op v path ft jc = Inr (Some c) \<Longrightarrow> texts c \<subseteq> texts path \<union> core_vocab"
  by (auto simp: jsonb_build_def binop_def core_vocab_words split: if_splits)

interpretation jsonb_strat: safe_strategy jsonb_strategy core_vocab
  by unfold_locales (auto simp: jsonb_strategy_def dest: jsonb_build_texts core_vocab_no_placeholder)

end
