(* ===== verification/PgStrategies.thy ===== *)
theory PgStrategies
  imports CoreStrategies "HOL-Library.Char_ord" "HOL-Library.List_Lexorder"
begin

section \<open>PostgreSQL operator strategies: network, ltree, daterange, macaddr\<close>

text \<open>
  \<open>sql/operators/postgresql\<close>.  Each \<open>build_sql\<close> is translated branch by branch; the
  lemmas at the end interpret \<open>safe_strategy\<close> for each of them.
\<close>

subsection \<open>Network addresses\<close>

definition LOOPBACK_RANGES :: "string list" where
  "LOOPBACK_RANGES = [''127.0.0.0/8'', ''::1/128'']"
definition MULTICAST_RANGES :: "string list" where
  "MULTICAST_RANGES = [''224.0.0.0/4'', ''ff00::/8'']"
definition BROADCAST_RANGES :: "string list" where
  "BROADCAST_RANGES = [''255.255.255.255/32'']"
definition LINK_LOCAL_RANGES :: "string list" where
  "LINK_LOCAL_RANGES = [''169.254.0.0/16'', ''fe80::/10'']"
definition DOCUMENTATION_RANGES :: "string list" where
  "DOCUMENTATION_RANGES = [''192.0.2.0/24'', ''198.51.100.0/24'', ''203.0.113.0/24'', ''2001:db8::/32'']"
definition RESERVED_RANGES :: "string list" where
  "RESERVED_RANGES = [''0.0.0.0/8'', ''240.0.0.0/4'', ''::/128'']"
definition CARRIER_GRADE_RANGES :: "string list" where
  "CARRIER_GRADE_RANGES = [''100.64.0.0/10'']"
definition SITE_LOCAL_RANGES :: "string list" where
  "SITE_LOCAL_RANGES = [''fec0::/10'']"
definition UNIQUE_LOCAL_RANGES :: "string list" where
  "UNIQUE_LOCAL_RANGES = [''fc00::/7'']"
definition PRIVATE_RANGES :: "string list" where
  "PRIVATE_RANGES = [''10.0.0.0/8'', ''172.16.0.0/12'', ''192.168.0.0/16'', ''127.0.0.0/8'',
     ''169.254.0.0/16'', ''fc00::/7'', ''fe80::/10'']"

definition ALL_SPECIAL_PURPOSE_RANGES :: "string list" where
  "ALL_SPECIAL_PURPOSE_RANGES = sort (remdups (PRIVATE_RANGES @ LOOPBACK_RANGES @ MULTICAST_RANGES
     @ BROADCAST_RANGES @ LINK_LOCAL_RANGES @ DOCUMENTATION_RANGES @ RESERVED_RANGES
     @ CARRIER_GRADE_RANGES @ SITE_LOCAL_RANGES @ UNIQUE_LOCAL_RANGES))"

definition build_cidr_check :: "composable \<Rightarrow> string list \<Rightarrow> bool \<Rightarrow> composable" where
  "build_cidr_check path ranges negate =
     (let casted = cast_to path ''inet'';
          checks = sql_join '' OR ''
            (map (\<lambda>cidr. Composed [casted, SQL ('' << inet '' @ [CHR 0x27]), SQL cidr, SQL [CHR 0x27]]) ranges);
          condition = Composed [SQL ''('', checks, SQL '')'']
      in if negate then Composed [SQL ''NOT ('', condition, SQL '')''] else condition)"


definition network_specific_ops :: "string set" where
  "network_specific_ops = {''isprivate'', ''ispublic'', ''insubnet'', ''inrange'', ''isipv4'', ''isipv6'',
     ''overlaps'', ''strictleft'', ''strictright'', ''isPrivate'', ''isPublic'', ''inSubnet'', ''inRange'',
     ''isIPv4'', ''isIPv6'', ''isLoopback'', ''isMulticast'', ''isBroadcast'', ''isLinkLocal'',
     ''isDocumentation'', ''isReserved'', ''isCarrierGrade'', ''isSiteLocal'', ''isUniqueLocal'',
     ''isGlobalUnicast'', ''isloopback'', ''ismulticast'', ''isbroadcast'', ''islinklocal'',
     ''isdocumentation'', ''isreserved'', ''iscarriergrade'', ''issitelocal'', ''isuniquelocal'',
     ''isglobalunicast''}"

definition is_network_type :: "py_type \<Rightarrow> bool" where
  "is_network_type t =
     list_ex (\<lambda>n. contains_str n (type_name t))
       [''IPv4Address'', ''IPv6Address'', ''IPv4Network'', ''IPv6Network'', ''IpAddress'']"

definition network_supports :: "string \<Rightarrow> py_type option \<Rightarrow> bool" where
  "network_supports op ft =
     (if op \<notin> network_specific_ops \<union> {''eq'', ''neq'', ''in'', ''nin'', ''isnull''} then False
      else if op \<in> network_specific_ops
        then (case ft of None \<Rightarrow> True | Some t \<Rightarrow> is_network_type t)
      else (case ft of None \<Rightarrow> False | Some t \<Rightarrow> is_network_type t))"

definition cast_binop :: "composable \<Rightarrow> string \<Rightarrow> pyval \<Rightarrow> string \<Rightarrow> composable option result" where
  "cast_binop path op v t =
     (let cs = cast_both_sides path (PStr (py_str v)) t True in
      Inr (Some (Composed [fst cs, SQL op, snd cs])))"

definition cast_in :: "composable \<Rightarrow> string \<Rightarrow> pyval \<Rightarrow> string \<Rightarrow> composable option result" where
  "cast_in casted_path op v t =
     Inr (Some (Composed [casted_path, SQL op,
       sql_join '', '' (cast_list_values (map (PStr \<circ> py_str) (seq_or_single v)) t True), SQL '')'']))"

definition network_build :: build_fun where
  "network_build op v path ft jc =
     (if op = ''eq'' then cast_binop path '' = '' v ''inet''
      else if op = ''neq'' then cast_binop path '' != '' v ''inet''
      else if op = ''in'' then cast_in (cast_to path ''inet'') '' IN ('' v ''inet''
      else if op = ''nin'' then cast_in (cast_to path ''inet'') '' NOT IN ('' v ''inet''
      else if op \<in> {''isprivate'', ''isPrivate''} then
        Inr (Some (build_cidr_check path PRIVATE_RANGES (\<not> truthy v)))
      else if op \<in> {''ispublic'', ''isPublic''} then
        Inr (Some (build_cidr_check path PRIVATE_RANGES (truthy v)))
      else if op \<in> {''isloopback'', ''isLoopback''} then
        Inr (Some (build_cidr_check path LOOPBACK_RANGES (\<not> truthy v)))
      else if op \<in> {''ismulticast'', ''isMulticast''} then
        Inr (Some (build_cidr_check path MULTICAST_RANGES (\<not> truthy v)))
      else if op \<in> {''isbroadcast'', ''isBroadcast''} then
        Inr (Some (build_cidr_check path BROADCAST_RANGES (\<not> truthy v)))
      else if op \<in> {''islinklocal'', ''isLinkLocal''} then
        Inr (Some (build_cidr_check path LINK_LOCAL_RANGES (\<not> truthy v)))
      else if op \<in> {''isdocumentation'', ''isDocumentation''} then
        Inr (Some (build_cidr_check path DOCUMENTATION_RANGES (\<not> truthy v)))
      else if op \<in> {''isreserved'', ''isReserved''} then
        Inr (Some (build_cidr_check path RESERVED_RANGES (\<not> truthy v)))
      else if op \<in> {''iscarriergrade'', ''isCarrierGrade''} then
        Inr (Some (build_cidr_check path CARRIER_GRADE_RANGES (\<not> truthy v)))
      else if op \<in> {''issitelocal'', ''isSiteLocal''} then
        Inr (Some (build_cidr_check path SITE_LOCAL_RANGES (\<not> truthy v)))
      else if op \<in> {''isuniquelocal'', ''isUniqueLocal''} then
        Inr (Some (build_cidr_check path UNIQUE_LOCAL_RANGES (\<not> truthy v)))
      else if op \<in> {''isglobalunicast'', ''isGlobalUnicast''} then
        Inr (Some (build_cidr_check path ALL_SPECIAL_PURPOSE_RANGES (truthy v)))
      else if op \<in> {''insubnet'', ''inSubnet''} then cast_binop path '' <<= '' v ''inet''
      else if op \<in> {''inrange'', ''inRange''} then cast_binop path '' <<= '' v ''inet''
      else if op \<in> {''isipv4'', ''isIPv4''} then
        Inr (Some (Composed [SQL ''family('', cast_to path ''inet'', SQL '') = 4'']))
      else if op \<in> {''isipv6'', ''isIPv6''} then
        Inr (Some (Composed [SQL ''family('', cast_to path ''inet'', SQL '') = 6'']))
      else if op = ''overlaps'' then cast_binop path '' && '' v ''inet''
      else if op = ''strictleft'' then cast_binop path '' << '' v ''inet''
      else if op = ''strictright'' then cast_binop path '' >> '' v ''inet''
      else if op = ''isnull'' then Inr (Some (build_null_check path v))
      else Inr None)"

definition network_strategy :: strategy where
  "network_strategy = \<lparr>supports_operator = network_supports, strategy_build = network_build\<rparr>"

subsection \<open>Date ranges\<close>

definition daterange_special_ops :: "string set" where
  "daterange_special_ops = {''contains_date'', ''overlaps'', ''adjacent'', ''strictly_left'',
     ''strictly_right'', ''not_left'', ''not_right''}"

definition daterange_supports :: "string \<Rightarrow> py_type option \<Rightarrow> bool" where
  "daterange_supports op ft =
     (type_mentions ''DateRange'' ''daterange'' ft \<or> op \<in> daterange_special_ops)"

definition pattern_ops :: "string set" where
  "pattern_ops = {''contains'', ''startswith'', ''endswith''}"

definition lowered_name_has :: "string \<Rightarrow> py_type option \<Rightarrow> bool" where
  "lowered_name_has s ft =
     (case ft of None \<Rightarrow> False
      | Some t \<Rightarrow> has_type_name t \<and> contains_str s (lower (type_name t)))"

definition daterange_build :: build_fun where
  "daterange_build op v path ft jc =
     (if op \<in> pattern_ops \<and> lowered_name_has ''daterange'' ft then Inl ValueError
      else if op = ''eq'' then cast_binop path '' = '' v ''daterange''
      else if op = ''neq'' then cast_binop path '' != '' v ''daterange''
      else if op = ''contains_date'' then
        Inr (Some (Composed [cast_to path ''daterange'', SQL '' @> '',
          Composed [Literal (PStr (py_str v)), SQL ''::date'']]))
      else if op = ''overlaps'' then cast_binop path '' && '' v ''daterange''
      else if op = ''adjacent'' then cast_binop path '' -|- '' v ''daterange''
      else if op = ''strictly_left'' then cast_binop path '' << '' v ''daterange''
      else if op = ''strictly_right'' then cast_binop path '' >> '' v ''daterange''
      else if op = ''not_left'' then cast_binop path '' &> '' v ''daterange''
      else if op = ''not_right'' then cast_binop path '' &< '' v ''daterange''
      else if op = ''in'' then cast_in (cast_to path ''daterange'') '' IN ('' v ''daterange''
      else if op \<in> {''nin'', ''notin''} then cast_in (cast_to path ''daterange'') '' NOT IN ('' v ''daterange''
      else if op = ''isnull'' then Inr (Some (build_null_check path v))
      else Inr None)"

definition daterange_strategy :: strategy where
  "daterange_strategy = \<lparr>supports_operator = daterange_supports, strategy_build = daterange_build\<rparr>"

subsection \<open>MAC addresses\<close>

definition mac_supports :: "string \<Rightarrow> py_type option \<Rightarrow> bool" where
  "mac_supports op ft =
     (type_mentions ''MacAddr'' ''macaddr'' ft \<or> type_mentions ''MacAddress'' ''macaddr'' ft)"

definition mac_build :: build_fun where
  "mac_build op v path ft jc =
     (let casted = Composed [SQL ''('', path, SQL '')::'', SQL ''macaddr''] in
      if op \<in> pattern_ops \<and> (lowered_name_has ''mac'' ft \<or> lowered_name_has ''macaddr'' ft) then Inl ValueError
      else if op = ''eq'' then cast_binop path '' = '' v ''macaddr''
      else if op = ''neq'' then cast_binop path '' != '' v ''macaddr''
      else if op = ''in'' then cast_in casted '' IN ('' v ''macaddr''
      else if op \<in> {''nin'', ''notin''} then cast_in casted '' NOT IN ('' v ''macaddr''
      else if op = ''isnull'' then Inr (Some (build_null_check path v))
      else Inr None)"

definition mac_strategy :: strategy where
  "mac_strategy = \<lparr>supports_operator = mac_supports, strategy_build = mac_build\<rparr>"


subsection \<open>The contract\<close>

definition pg_vocab :: "string set" where
  "pg_vocab = core_vocab \<union> {''inet'', ''daterange'', ''macaddr'', '')::daterange'', ''::date'', '' -|- '', '' << '',
     '' >> '', '' &> '', '' &< '', '' <<= '', '' OR '', ''NOT ('', ''family('', '') = 4'', '') = 6'',
     '' << inet '' @ [CHR 0x27], [CHR 0x27]}
     \<union> set PRIVATE_RANGES \<union> set LOOPBACK_RANGES \<union> set MULTICAST_RANGES \<union> set BROADCAST_RANGES
     \<union> set LINK_LOCAL_RANGES \<union> set DOCUMENTATION_RANGES \<union> set RESERVED_RANGES
     \<union> set CARRIER_GRADE_RANGES \<union> set SITE_LOCAL_RANGES \<union> set UNIQUE_LOCAL_RANGES"

lemmas range_defs = PRIVATE_RANGES_def LOOPBACK_RANGES_def MULTICAST_RANGES_def BROADCAST_RANGES_def
  LINK_LOCAL_RANGES_def DOCUMENTATION_RANGES_def RESERVED_RANGES_def CARRIER_GRADE_RANGES_def
  SITE_LOCAL_RANGES_def UNIQUE_LOCAL_RANGES_def

lemma core_pg: "core_vocab \<subseteq> pg_vocab"
  by (auto simp: pg_vocab_def)

lemma pg_vocab_words:
  "''inet'' \<in> pg_vocab" "''daterange'' \<in> pg_vocab" "''macaddr'' \<in> pg_vocab" "'')::daterange'' \<in> pg_vocab"
  "''::date'' \<in> pg_vocab" "'' -|- '' \<in> pg_vocab" "'' << '' \<in> pg_vocab" "'' >> '' \<in> pg_vocab"
  "'' &> '' \<in> pg_vocab" "'' &< '' \<in> pg_vocab" "'' <<= '' \<in> pg_vocab" "'' OR '' \<in> pg_vocab"
  "''NOT ('' \<in> pg_vocab" "''family('' \<in> pg_vocab" "'') = 4'' \<in> pg_vocab" "'') = 6'' \<in> pg_vocab"
  "('' << inet '' @ [CHR 0x27]) \<in> pg_vocab" "[CHR 0x27] \<in> pg_vocab"
  "'')::inet'' \<in> pg_vocab" "''('' \<in> pg_vocab" "'')'' \<in> pg_vocab" "'')::'' \<in> pg_vocab" "''::'' \<in> pg_vocab"
  "'' = '' \<in> pg_vocab" "'' != '' \<in> pg_vocab" "'' && '' \<in> pg_vocab" "'' @> '' \<in> pg_vocab"
  "'' IN ('' \<in> pg_vocab" "'' NOT IN ('' \<in> pg_vocab" "'', '' \<in> pg_vocab"
  unfolding pg_vocab_def core_vocab_def base_vocab_def by simp_all

lemma pg_vocab_ranges:
  "set PRIVATE_RANGES \<subseteq> pg_vocab" "set LOOPBACK_RANGES \<subseteq> pg_vocab" "set MULTICAST_RANGES \<subseteq> pg_vocab"
  "set BROADCAST_RANGES \<subseteq> pg_vocab" "set LINK_LOCAL_RANGES \<subseteq> pg_vocab"
  "set DOCUMENTATION_RANGES \<subseteq> pg_vocab" "set RESERVED_RANGES \<subseteq> pg_vocab"
  "set CARRIER_GRADE_RANGES \<subseteq> pg_vocab" "set SITE_LOCAL_RANGES \<subseteq> pg_vocab"
  "set UNIQUE_LOCAL_RANGES \<subseteq> pg_vocab" "set ALL_SPECIAL_PURPOSE_RANGES \<subseteq> pg_vocab"
  by (auto simp: pg_vocab_def ALL_SPECIAL_PURPOSE_RANGES_def)

lemma pg_vocab_no_placeholder: "t \<in> pg_vocab \<Longrightarrow> ph_count t = Some 0"
  unfolding pg_vocab_def range_defs by (auto dest: core_vocab_no_placeholder)

lemma pg_base: "base_vocab \<subseteq> pg_vocab"
  using core_pg core_vocab_words(1) by blast

lemma pg_cast_binop [confined_intros]:
  "op \<in> pg_vocab \<Longrightarrow> t \<in> pg_vocab \<Longrightarrow> confined pg_vocab path (cast_binop path op v t)"
  using pg_vocab_words by (auto simp: confined_def cast_binop_def cast_both_sides_def Let_def)

lemma pg_cast_to: "('')::'' @ t) \<in> pg_vocab \<Longrightarrow> texts (cast_to path t) \<subseteq> texts path \<union> pg_vocab"
  using pg_vocab_words by (auto simp: cast_to_def)

lemma pg_cast_in:
  assumes "op \<in> pg_vocab" and "t \<in> pg_vocab" and "texts p \<subseteq> texts path \<union> pg_vocab"
  shows "confined pg_vocab path (cast_in p op v t)"
proof -
  have "texts (sql_join '', '' (cast_list_values (map (PStr \<circ> py_str) (seq_or_single v)) t True)) \<subseteq> pg_vocab"
    by (rule texts_sql_join_sub) (use assms(2) pg_vocab_words in \<open>auto simp: cast_list_values_def\<close>)
  then show ?thesis
    unfolding cast_in_def using assms(1,3) pg_vocab_words(21) by (intro confined_Some) (simp, blast)
qed

lemma pg_cast_in_to [confined_intros]:
  "op \<in> pg_vocab \<Longrightarrow> t \<in> pg_vocab \<Longrightarrow> ('')::'' @ t) \<in> pg_vocab \<Longrightarrow>
   confined pg_vocab path (cast_in (cast_to path t) op v t)"
  by (intro pg_cast_in pg_cast_to)

lemma pg_cidr_check:
  assumes "set ranges \<subseteq> pg_vocab"
  shows "texts (build_cidr_check path ranges neg) \<subseteq> texts path \<union> pg_vocab"
proof -
  let ?W = "texts path \<union> pg_vocab"
  define checks where "checks = sql_join '' OR '' (map (\<lambda>cidr. Composed [cast_to path ''inet'',
      SQL ('' << inet '' @ [CHR 0x27]), SQL cidr, SQL [CHR 0x27]]) ranges)"
  have inet: "texts (cast_to path ''inet'') \<subseteq> ?W" using pg_vocab_words(19) by (intro pg_cast_to) simp
  have "texts checks \<subseteq> ?W"
    unfolding checks_def
    by (rule texts_sql_join_sub) (use inet assms pg_vocab_words(12,17,18) in auto)
  moreover have "build_cidr_check path ranges neg =
      (if neg then Composed [SQL ''NOT ('', Composed [SQL ''('', checks, SQL '')''], SQL '')'']
       else Composed [SQL ''('', checks, SQL '')''])"
    by (simp add: build_cidr_check_def Let_def checks_def)
  ultimately show ?thesis using pg_vocab_words(13,20,21) by auto
qed

lemma pg_cidr_within [confined_intros]:
  "set rs \<subseteq> pg_vocab \<Longrightarrow> confined pg_vocab path (Inr (Some (build_cidr_check path rs neg)))"
  by (intro confined_Some pg_cidr_check)

lemma network_build_texts: "confined pg_vocab path (network_build op v path ft jc)"
proof -
  have fam: "confined pg_vocab path (Inr (Some (Composed [SQL ''family('', cast_to path ''inet'', SQL k])))"
    if "k \<in> pg_vocab" for k
    using pg_cast_to [of "''inet''" path] pg_vocab_words that by (intro confined_Some) auto
  show ?thesis
    unfolding network_build_def
    by (intro confined_intros fam) (simp_all add: pg_vocab_words pg_vocab_ranges pg_base)
qed

interpretation network_strat: safe_strategy network_strategy pg_vocab
  unfolding network_strategy_def by (intro safe_strategyI network_build_texts pg_vocab_no_placeholder)

lemma daterange_build_texts: "confined pg_vocab path (daterange_build op v path ft jc)"
proof -
  have cd: "confined pg_vocab path (Inr (Some (Composed [cast_to path ''daterange'', SQL '' @> '',
      Composed [Literal (PStr (py_str v)), SQL ''::date'']])))"
    using pg_cast_to [of "''daterange''" path] pg_vocab_words by (intro confined_Some) auto
  show ?thesis
    unfolding daterange_build_def
    by (intro confined_intros cd) (simp_all add: pg_vocab_words pg_base)
qed

interpretation daterange_strat: safe_strategy daterange_strategy pg_vocab
  unfolding daterange_strategy_def by (intro safe_strategyI daterange_build_texts pg_vocab_no_placeholder)

lemma mac_build_texts: "confined pg_vocab path (mac_build op v path ft jc)"
  unfolding mac_build_def Let_def
  by (intro confined_intros pg_cast_in) (use pg_vocab_words pg_base in auto)

interpretation mac_strat: safe_strategy mac_strategy pg_vocab
  unfolding mac_strategy_def by (intro safe_strategyI mac_build_texts pg_vocab_no_placeholder)

end
