(* ===== verification/LtreeStrategy.thy ===== *)
theory LtreeStrategy
  imports PgStrategies
begin

section \<open>The ltree operator strategy\<close>

text \<open>
  \<open>sql/operators/postgresql/ltree_operators.py\<close>: hierarchical paths.  Some operators take
  a tuple whose middle element is itself a composable path (\<open>(offset, path_sql, length)\<close>);
  the model keeps that form, and the contract is stated for values that hold no
  composable.
\<close>

definition ltree_always_ops :: "string set" where
  "ltree_always_ops = {''ancestor_of'', ''descendant_of'', ''matches_lquery'', ''matches_ltxtquery'',
     ''matches_any_lquery'', ''in_array'', ''array_contains'', ''concat'', ''lca'', ''nlevel'', ''subpath'', ''index''}"

definition ltree_supported :: "string set" where
  "ltree_supported = ltree_always_ops \<union> {''eq'', ''neq'', ''lt'', ''gt'', ''lte'', ''gte'', ''in'', ''nin'', ''notin'',
     ''nlevel_eq'', ''nlevel_gt'', ''nlevel_gte'', ''nlevel_lt'', ''nlevel_lte'', ''nlevel_neq'', ''depth_eq'',
     ''depth_gt'', ''depth_gte'', ''depth_lt'', ''depth_lte'', ''depth_neq'', ''index_eq'', ''index_gte'', ''isnull'',
     ''contains'', ''startswith'', ''endswith''}"

definition ltree_supports :: "string \<Rightarrow> py_type option \<Rightarrow> bool" where
  "ltree_supports op ft =
     (if op \<notin> ltree_supported then False
      else if op \<in> ltree_always_ops \<or> startswith op ''nlevel_'' \<or> startswith op ''depth_''
              \<or> startswith op ''index_'' then True
      else type_mentions ''LTree'' ''ltree'' ft)"

text \<open>\<open>path <op> 'value'::type\<close>, and the array texts \<open>ARRAY['a'::ltree, ...]\<close>.\<close>

definition lt_binop :: "composable \<Rightarrow> string \<Rightarrow> pyval \<Rightarrow> string \<Rightarrow> composable option result" where
  "lt_binop path op v t = Inr (Some (Composed [path, SQL op, Literal (PStr (py_str v)), SQL t]))"

fun ltree_array :: "bool \<Rightarrow> pyval list \<Rightarrow> composable list" where
  "ltree_array cast [] = []"
| "ltree_array cast [v] = Literal (PStr (py_str v)) # (if cast then [SQL ''::ltree''] else [])"
| "ltree_array cast (v # vs) =
     Literal (PStr (py_str v)) # (if cast then [SQL ''::ltree''] else []) @ SQL '', '' # ltree_array cast vs"

definition ltree_path_arg :: "composable \<Rightarrow> pyval list \<Rightarrow> (pyval \<times> composable \<times> pyval) result" where
  "ltree_path_arg casted vs =
     (case vs of
        [a, b] \<Rightarrow> Inr (a, casted, b)
      | [a, p, b] \<Rightarrow> Inr (a, cast_to (as_composable p) ''ltree'', b)
      | _ \<Rightarrow> Inl TypeError)"

definition ltree_comparison_ops :: "string \<Rightarrow> string option" where
  "ltree_comparison_ops c = map_of [(''eq'', '' = ''), (''neq'', '' != ''), (''gt'', '' > ''), (''gte'', '' >= ''),
     (''lt'', '' < ''), (''lte'', '' <= '')] c"

definition ltree_depth :: "py_runtime \<Rightarrow> composable \<Rightarrow> string \<Rightarrow> pyval \<Rightarrow> composable option result" where
  "ltree_depth rt casted op v =
     (let comparison = (if startswith op ''depth_'' then replace_str ''depth_'' [] op
                        else replace_str ''nlevel_'' [] op)
      in case ltree_comparison_ops comparison of
           None \<Rightarrow> Inr None
         | Some sql_op \<Rightarrow>
             rbind (py_int rt v) (\<lambda>n. Inr (Some (Composed
               [Composed [SQL ''nlevel('', casted, SQL '')''], SQL sql_op, Literal (PInt n)]))))"

definition ltree_index :: "py_runtime \<Rightarrow> composable \<Rightarrow> string \<Rightarrow> pyval \<Rightarrow> composable option result" where
  "ltree_index rt casted sql_op v =
     (case v of
        PTuple vs \<Rightarrow>
          rbind (ltree_path_arg casted vs) (\<lambda>(label, path, position).
            rbind (py_int rt position) (\<lambda>n. Inr (Some (Composed
              [Composed [SQL ''index('', path, SQL '', '', Literal (PStr (py_str label)), SQL ''::ltree)''],
               SQL sql_op, Literal (PInt n)]))))
      | _ \<Rightarrow> Inl TypeError)"

definition ltree_array_contains :: "pyval \<Rightarrow> composable option result" where
  "ltree_array_contains v =
     (case v of
        PTuple vs \<Rightarrow>
          rbind (case vs of [a, t] \<Rightarrow> Inr (a, t) | [a, _, t] \<Rightarrow> Inr (a, t) | _ \<Rightarrow> Inl TypeError)
            (\<lambda>(arr, target). case arr of
               PList ps \<Rightarrow> Inr (Some (Composed ([SQL ''ARRAY[''] @ ltree_array True ps
                 @ [SQL ''] @> '', Literal (PStr (py_str target)), SQL ''::ltree''])))
             | _ \<Rightarrow> Inl TypeError)
      | _ \<Rightarrow> Inl TypeError)"

definition ltree_subpath :: "py_runtime \<Rightarrow> composable \<Rightarrow> pyval \<Rightarrow> composable option result" where
  "ltree_subpath rt casted v =
     (case v of
        PTuple vs \<Rightarrow>
          rbind (ltree_path_arg casted vs) (\<lambda>(offset, path, len).
            rbind (py_int rt offset) (\<lambda>n. rbind (py_int rt len) (\<lambda>m. Inr (Some (Composed
              [SQL ''subpath('', path, SQL '', '', Literal (PInt n), SQL '', '', Literal (PInt m), SQL '')''])))))
      | _ \<Rightarrow> Inl TypeError)"

definition ltree_build :: "py_runtime \<Rightarrow> build_fun" where
  "ltree_build rt op v path ft jc =
     (let casted = cast_to path ''ltree''; strs = PList (map (PStr \<circ> py_str) (seq_or_single v)) in
      if op \<in> pattern_ops \<and> type_mentions ''LTree'' ''ltree'' ft then Inl ValueError
      else if op = ''eq'' then lt_binop casted '' = '' v ''::ltree''
      else if op = ''neq'' then lt_binop casted '' != '' v ''::ltree''
      else if op = ''lt'' then lt_binop casted '' < '' v ''::ltree''
      else if op = ''gt'' then lt_binop casted '' > '' v ''::ltree''
      else if op = ''lte'' then lt_binop casted '' <= '' v ''::ltree''
      else if op = ''gte'' then lt_binop casted '' >= '' v ''::ltree''
      else if op = ''ancestor_of'' then lt_binop casted '' @> '' v ''::ltree''
      else if op = ''descendant_of'' then lt_binop casted '' <@ '' v ''::ltree''
      else if op = ''matches_lquery'' then lt_binop casted '' ~ '' v ''::lquery''
      else if op = ''matches_ltxtquery'' then lt_binop casted '' @ '' v ''::ltxtquery''
      else if op = ''in'' then Inr (Some (build_in_operator casted strs False (Some ''ltree'')))
      else if op \<in> {''nin'', ''notin''} then Inr (Some (build_in_operator casted strs True (Some ''ltree'')))
      else if op = ''matches_any_lquery'' then
        (case v of
           PList vs \<Rightarrow>
             (if vs = [] then Inl ValueError
              else Inr (Some (Composed ([casted, SQL '' ? ARRAY[''] @ ltree_array False vs @ [SQL '']'']))))
         | _ \<Rightarrow> Inl TypeError)
      else if op = ''in_array'' then
        (case v of
           PList vs \<Rightarrow> Inr (Some (Composed ([casted, SQL '' <@ ARRAY[''] @ ltree_array True vs @ [SQL '']''])))
         | _ \<Rightarrow> Inl TypeError)
      else if op = ''array_contains'' then ltree_array_contains v
      else if op = ''concat'' then
        (if v = PNone then Inr (Some (Composed [casted, SQL '' || NULL::ltree'']))
         else lt_binop casted '' || '' v ''::ltree'')
      else if op = ''lca'' then
        (case v of
           PList vs \<Rightarrow>
             (if vs = [] then Inl ValueError
              else Inr (Some (Composed ([SQL ''lca(ARRAY[''] @ ltree_array True vs @ [SQL ''])'']))))
         | _ \<Rightarrow> Inl TypeError)
      else if op = ''nlevel'' then Inr (Some (Composed [SQL ''nlevel('', casted, SQL '')'']))
      else if startswith op ''nlevel_'' \<or> startswith op ''depth_'' then ltree_depth rt casted op v
      else if op = ''subpath'' then ltree_subpath rt casted v
      else if op = ''index'' then
        Inr (Some (Composed [SQL ''index('', casted, SQL '', '', Literal (PStr (py_str v)), SQL ''::ltree)'']))
      else if op = ''index_eq'' then ltree_index rt casted '' = '' v
      else if op = ''index_gte'' then ltree_index rt casted '' >= '' v
      else if op = ''isnull'' then Inr (Some (build_null_check path v))
      else Inr None)"

definition ltree_strategy :: "py_runtime \<Rightarrow> strategy" where
  "ltree_strategy rt = \<lparr>supports_operator = ltree_supports, strategy_build = ltree_build rt\<rparr>"

subsection \<open>The contract\<close>

definition ltree_vocab :: "string set" where
  "ltree_vocab = base_vocab \<union> {''ltree'', '')::ltree'', ''::ltree'', ''::lquery'', ''::ltxtquery'', '' @> '', '' <@ '',
     '' ~ '', '' @ '', '' || '', '' || NULL::ltree'', '' ? ARRAY['', '' <@ ARRAY['', '']'', ''ARRAY['', ''] @> '',
     ''lca(ARRAY['', ''])'', ''nlevel('', ''index('', ''::ltree)'', ''subpath(''}"

lemma ltree_vocab_words:
  "base_vocab \<subseteq> ltree_vocab" "''ltree'' \<in> ltree_vocab" "'')::ltree'' \<in> ltree_vocab" "''::ltree'' \<in> ltree_vocab"
  "''::lquery'' \<in> ltree_vocab" "''::ltxtquery'' \<in> ltree_vocab" "'' @> '' \<in> ltree_vocab" "'' <@ '' \<in> ltree_vocab"
  "'' ~ '' \<in> ltree_vocab" "'' @ '' \<in> ltree_vocab" "'' || '' \<in> ltree_vocab" "'' || NULL::ltree'' \<in> ltree_vocab"
  "'' ? ARRAY['' \<in> ltree_vocab" "'' <@ ARRAY['' \<in> ltree_vocab" "'']'' \<in> ltree_vocab" "''ARRAY['' \<in> ltree_vocab"
  "''] @> '' \<in> ltree_vocab" "''lca(ARRAY['' \<in> ltree_vocab" "''])'' \<in> ltree_vocab" "''nlevel('' \<in> ltree_vocab"
  "''index('' \<in> ltree_vocab" "''::ltree)'' \<in> ltree_vocab" "''subpath('' \<in> ltree_vocab"
  "'' = '' \<in> ltree_vocab" "'' != '' \<in> ltree_vocab" "'' < '' \<in> ltree_vocab" "'' > '' \<in> ltree_vocab"
  "'' <= '' \<in> ltree_vocab" "'' >= '' \<in> ltree_vocab" "''('' \<in> ltree_vocab" "'')'' \<in> ltree_vocab" "'', '' \<in> ltree_vocab"
  unfolding ltree_vocab_def base_vocab_def by simp_all

lemma ltree_vocab_no_placeholder: "t \<in> ltree_vocab \<Longrightarrow> ph_count t = Some 0"
  unfolding ltree_vocab_def by (auto dest: base_vocab_no_placeholder)

lemma ltree_casted: "texts (cast_to path ''ltree'') \<subseteq> texts path \<union> ltree_vocab"
  using ltree_vocab_words by (auto simp: cast_to_def)

lemma ltree_array_texts: "c \<in> set (ltree_array b vs) \<Longrightarrow> texts c \<subseteq> ltree_vocab"
  using ltree_vocab_words by (induction b vs rule: ltree_array.induct) (auto split: if_splits)

lemma lt_binop_confined:
  "op \<in> ltree_vocab \<Longrightarrow> t \<in> ltree_vocab \<Longrightarrow> confined ltree_vocab path (lt_binop (cast_to path ''ltree'') op v t)"
  unfolding lt_binop_def using ltree_casted [of path] by (intro confined_Some) auto

lemma ltree_in_confined:
  "confined ltree_vocab path (Inr (Some (build_in_operator (cast_to path ''ltree'') v b (Some ''ltree''))))"
  using texts_build_in_operator [of "Some ''ltree''" ltree_vocab] ltree_casted [of path] ltree_vocab_words(1,2)
  by (intro confined_Some) fastforce

lemma ltree_list_confined:
  assumes "set pre \<subseteq> ltree_vocab" and "w \<in> ltree_vocab"
  shows "confined ltree_vocab path
    (Inr (Some (Composed (cast_to path ''ltree'' # map SQL pre @ ltree_array b vs @ [SQL w]))))"
    and "confined ltree_vocab path (Inr (Some (Composed (map SQL pre @ ltree_array b vs @ [SQL w]))))"
  using assms ltree_casted [of path] ltree_array_texts [of _ b vs]
  by (intro confined_Some; auto)+

lemma ltree_path_arg_texts:
  assumes "ltree_path_arg (cast_to path ''ltree'') vs = Inr (a, p, b)" and "\<forall>x \<in> set vs. plain x"
  shows "texts p \<subseteq> texts path \<union> ltree_vocab"
  using assms ltree_casted [of path] ltree_vocab_words
  by (auto simp: ltree_path_arg_def as_composable_plain cast_to_def split: list.splits)

lemma ltree_index_confined:
  assumes "plain v" and "op \<in> ltree_vocab"
  shows "confined ltree_vocab path (ltree_index rt (cast_to path ''ltree'') op v)"
proof -
  have "texts c \<subseteq> texts path \<union> ltree_vocab"
    if c: "ltree_index rt (cast_to path ''ltree'') op v = Inr (Some c)" for c
  proof -
    from c obtain vs l p n k where v: "v = PTuple vs" and p: "ltree_path_arg (cast_to path ''ltree'') vs = Inr (l, p, k)"
      and "c = Composed [Composed [SQL ''index('', p, SQL '', '', Literal (PStr (py_str l)), SQL ''::ltree)''],
               SQL op, Literal (PInt n)]"
      by (auto simp: ltree_index_def rbind_eq_Inr split: pyval.splits)
    moreover have "texts p \<subseteq> texts path \<union> ltree_vocab"
      by (rule ltree_path_arg_texts [OF p]) (use assms v in auto)
    ultimately show ?thesis using assms(2) ltree_vocab_words by auto
  qed
  then show ?thesis by (simp add: confined_def)
qed

lemma ltree_subpath_confined:
  assumes "plain v"
  shows "confined ltree_vocab path (ltree_subpath rt (cast_to path ''ltree'') v)"
proof -
  have "texts c \<subseteq> texts path \<union> ltree_vocab"
    if c: "ltree_subpath rt (cast_to path ''ltree'') v = Inr (Some c)" for c
  proof -
    from c obtain vs l p n m k where v: "v = PTuple vs" and p: "ltree_path_arg (cast_to path ''ltree'') vs = Inr (l, p, k)"
      and "c = Composed [SQL ''subpath('', p, SQL '', '', Literal (PInt n), SQL '', '', Literal (PInt m), SQL '')'']"
      by (auto simp: ltree_subpath_def rbind_eq_Inr split: pyval.splits)
    moreover have "texts p \<subseteq> texts path \<union> ltree_vocab"
      by (rule ltree_path_arg_texts [OF p]) (use assms v in auto)
    ultimately show ?thesis using ltree_vocab_words by auto
  qed
  then show ?thesis by (simp add: confined_def)
qed

lemma ltree_depth_confined: "confined ltree_vocab path (ltree_depth rt (cast_to path ''ltree'') op v)"
proof -
  have "ltree_comparison_ops k = Some o' \<Longrightarrow> o' \<in> ltree_vocab" for k o'
    by (auto simp: ltree_comparison_ops_def ltree_vocab_words split: if_splits)
  then show ?thesis
    using ltree_casted [of path] ltree_vocab_words
    by (auto simp: ltree_depth_def Let_def rbind_eq_Inr confined_def split: option.splits)
qed

lemma ltree_array_contains_confined: "confined ltree_vocab path (ltree_array_contains v)"
proof -
  have "texts c \<subseteq> ltree_vocab" if "ltree_array_contains v = Inr (Some c)" for c
  proof -
    from that obtain a t where "(case a of
        PList ps \<Rightarrow> Inr (Some (Composed ([SQL ''ARRAY[''] @ ltree_array True ps
          @ [SQL ''] @> '', Literal (PStr (py_str t)), SQL ''::ltree''])))
        | _ \<Rightarrow> Inl TypeError) = (Inr (Some c) :: composable option result)"
      by (cases v) (auto simp: ltree_array_contains_def rbind_eq_Inr)
    then obtain ps where "c = Composed ([SQL ''ARRAY[''] @ ltree_array True ps
        @ [SQL ''] @> '', Literal (PStr (py_str t)), SQL ''::ltree''])"
      by (cases a) auto
    then show ?thesis using ltree_array_texts [of _ True ps] ltree_vocab_words by auto
  qed
  then show ?thesis by (auto simp: confined_def)
qed

lemma ltree_build_texts:
  assumes "plain v"
  shows "confined ltree_vocab path (ltree_build rt op v path ft jc)"
proof -
  let ?P = "cast_to path ''ltree''"
  have any: "confined ltree_vocab path (case v of PList vs \<Rightarrow> (if vs = [] then Inl ValueError
      else Inr (Some (Composed ([?P, SQL '' ? ARRAY[''] @ ltree_array False vs @ [SQL '']''])))) | _ \<Rightarrow> Inl TypeError)"
    using ltree_list_confined(1) [of "['' ? ARRAY['']" "'']''" path] ltree_vocab_words
    by (cases v) (simp_all add: confined_Inl)
  have arr: "confined ltree_vocab path (case v of PList vs \<Rightarrow>
      Inr (Some (Composed ([?P, SQL '' <@ ARRAY[''] @ ltree_array True vs @ [SQL '']'']))) | _ \<Rightarrow> Inl TypeError)"
    using ltree_list_confined(1) [of "['' <@ ARRAY['']" "'']''" path] ltree_vocab_words
    by (cases v) (simp_all add: confined_Inl)
  have lca: "confined ltree_vocab path (case v of PList vs \<Rightarrow> (if vs = [] then Inl ValueError
      else Inr (Some (Composed ([SQL ''lca(ARRAY[''] @ ltree_array True vs @ [SQL ''])''])))) | _ \<Rightarrow> Inl TypeError)"
    using ltree_list_confined(2) [of "[''lca(ARRAY['']" "''])''" path] ltree_vocab_words
    by (cases v) (simp_all add: confined_Inl)
  have cc: "confined ltree_vocab path (Inr (Some (Composed [?P, SQL '' || NULL::ltree''])))"
    "confined ltree_vocab path (Inr (Some (Composed [SQL ''nlevel('', ?P, SQL '')''])))"
    "confined ltree_vocab path (Inr (Some (Composed [SQL ''index('', ?P, SQL '', '', Literal (PStr (py_str v)), SQL ''::ltree)''])))"
    using ltree_casted [of path] ltree_vocab_words by (intro confined_Some; auto)+
  show ?thesis
    unfolding ltree_build_def Let_def
    by (intro confined_if confined_Inl confined_None confined_null_check any arr lca cc lt_binop_confined ltree_in_confined
        ltree_index_confined ltree_subpath_confined ltree_depth_confined ltree_array_contains_confined assms
        ltree_vocab_words)
qed

text \<open>The runtime is a parameter of the strategy, so the contract is a family of interpretations.\<close>

interpretation ltree_strat: safe_strategy "ltree_strategy rt" ltree_vocab for rt
  unfolding ltree_strategy_def by (intro safe_strategyI ltree_build_texts ltree_vocab_no_placeholder)

end
