(* ===== verification/CoordinateOps.thy ===== *)
theory CoordinateOps
  imports LtreeStrategy
begin

section \<open>Geographic coordinates: the scalar and its operator strategy\<close>

text \<open>
  \<open>types/scalars/coordinates.py\<close> (parsing, validation and serialisation of a
  \<open>(latitude, longitude)\<close> pair) and \<open>sql/operators/advanced/coordinate_operators.py\<close> (the
  filters on \<open>point\<close> columns, with the three ways to measure a distance).
\<close>

subsection \<open>The scalar\<close>

definition is_int_float :: "pyval \<Rightarrow> bool" where
  "is_int_float v = (is_int v \<or> is_float v)"

definition serialize_coordinate :: "pyval \<Rightarrow> string result" where
  "serialize_coordinate v =
     (case v of
        PTuple [lat, lng] \<Rightarrow>
          (if is_int_float lat \<and> is_int_float lng then Inr (py_str lat @ '','' @ py_str lng)
           else Inl GraphQLError)
      | _ \<Rightarrow> Inl GraphQLError)"

definition float_pair :: "py_runtime \<Rightarrow> pyval \<Rightarrow> pyval \<Rightarrow> (pyval \<times> pyval) result" where
  "float_pair rt lat lng =
     (if is_int_float lat \<and> is_int_float lng
      then rbind (py_float rt lat) (\<lambda>a. rbind (py_float rt lng) (\<lambda>b. Inr (a, b)))
      else Inl GraphQLError)"

definition extract_lat_lng :: "py_runtime \<Rightarrow> pyval \<Rightarrow> (pyval \<times> pyval) result" where
  "extract_lat_lng rt v =
     (case v of
        PStr s \<Rightarrow>
          (let t = strip s;
               clean = (if startswith t ''('' \<and> endswith t '')'' then butlast (tl t) else t)
           in case split_on (CHR '','') clean of
                [a, b] \<Rightarrow>
                  rbind (of_option GraphQLError (rt_float_of_str rt (strip a))) (\<lambda>x.
                  rbind (of_option GraphQLError (rt_float_of_str rt (strip b))) (\<lambda>y.
                    Inr (PFloat x, PFloat y)))
              | _ \<Rightarrow> Inl GraphQLError)
      | PTuple [lat, lng] \<Rightarrow> float_pair rt lat lng
      | PDict d \<Rightarrow>
          (case (map_of d ''lat'', map_of d ''lng'') of
             (Some lat, Some lng) \<Rightarrow> float_pair rt lat lng
           | _ \<Rightarrow> Inl GraphQLError)
      | _ \<Rightarrow> Inl GraphQLError)"

definition float_between :: "py_runtime \<Rightarrow> rat \<Rightarrow> pyval \<Rightarrow> bool" where
  "float_between rt b v =
     (case v of
        PFloat s \<Rightarrow> (case rt_value rt s of None \<Rightarrow> False | Some r \<Rightarrow> - b \<le> r \<and> r \<le> b)
      | _ \<Rightarrow> False)"

definition parse_coordinate_value :: "py_runtime \<Rightarrow> pyval \<Rightarrow> (pyval \<times> pyval) result" where
  "parse_coordinate_value rt v =
     rbind (extract_lat_lng rt v) (\<lambda>(lat, lng).
       if \<not> float_between rt 90 lat then Inl GraphQLError
       else if \<not> float_between rt 180 lng then Inl GraphQLError
       else Inr (lat, lng))"

subsection \<open>The strategy\<close>

text \<open>
  The distance method: the value set in the application's configuration, else the
  environment variable, else \<open>haversine\<close>.
\<close>

definition distance_method :: "string option \<Rightarrow> string option \<Rightarrow> string" where
  "distance_method cfg env =
     (case cfg of
        Some m \<Rightarrow> lower m
      | None \<Rightarrow> lower (case env of Some e \<Rightarrow> e | None \<Rightarrow> ''haversine''))"

definition coordinate_supports :: "string \<Rightarrow> py_type option \<Rightarrow> bool" where
  "coordinate_supports op ft =
     (if op \<notin> {''eq'', ''neq'', ''in'', ''notin'', ''nin'', ''distance_within''} then False
      else case ft of None \<Rightarrow> op = ''distance_within'' | Some t \<Rightarrow> type_mentions ''Coordinate'' ''coordinate'' ft)"

definition point :: "composable \<Rightarrow> composable" where
  "point path = Composed [SQL ''('', path, SQL '')::point'']"

definition float_sql :: "py_runtime \<Rightarrow> pyval \<Rightarrow> composable result" where
  "float_sql rt v = rbind (py_float rt v) (\<lambda>x. Inr (Composed [Literal x, SQL ''::float8'']))"

definition point_literal :: "pyval \<Rightarrow> composable result" where
  "point_literal coord =
     (case coord of
        PTuple [lat, lng] \<Rightarrow> Inr (Composed [SQL ''POINT('', Literal lng, SQL '', '', Literal lat, SQL '')''])
      | _ \<Rightarrow> Inl TypeError)"

definition build_distance_haversine ::
  "py_runtime \<Rightarrow> composable \<Rightarrow> pyval \<Rightarrow> pyval \<Rightarrow> pyval \<Rightarrow> composable result" where
  "build_distance_haversine rt path lat0 lng0 meters =
     (let lat = Composed [SQL ''('', point path, SQL '')[1]''];
          lng = Composed [SQL ''('', point path, SQL '')[0]'']
      in rbind (float_sql rt lat0) (\<lambda>flat. rbind (float_sql rt lng0) (\<lambda>flng. rbind (float_sql rt meters) (\<lambda>fdist.
           Inr (Composed
             [SQL ''(2 * 6371000 * ASIN(LEAST(1, SQRT(POWER(SIN(RADIANS('', lat, SQL '' - '', flat,
              SQL '') / 2), 2) + COS(RADIANS('', flat, SQL '')) * COS(RADIANS('', lat,
              SQL '')) * POWER(SIN(RADIANS('', lng, SQL '' - '', flng,
              SQL '') / 2), 2)))) <= '', fdist, SQL '')''])))))"

definition build_distance_earthdistance ::
  "py_runtime \<Rightarrow> composable \<Rightarrow> pyval \<Rightarrow> pyval \<Rightarrow> pyval \<Rightarrow> composable result" where
  "build_distance_earthdistance rt path lat0 lng0 meters =
     rbind (float_sql rt lat0) (\<lambda>flat. rbind (float_sql rt lng0) (\<lambda>flng. rbind (float_sql rt meters) (\<lambda>fdist.
       Inr (Composed
         [SQL ''(earth_distance(ll_to_earth('', flat, SQL '', '', flng, SQL ''), ll_to_earth(('', point path,
          SQL '')[1], ('', point path, SQL '')[0])) <= '', fdist, SQL '')'']))))"

definition build_distance_postgis ::
  "py_runtime \<Rightarrow> composable \<Rightarrow> pyval \<Rightarrow> pyval \<Rightarrow> pyval \<Rightarrow> composable result" where
  "build_distance_postgis rt path lat0 lng0 meters =
     rbind (float_sql rt lng0) (\<lambda>flng. rbind (float_sql rt lat0) (\<lambda>flat. rbind (float_sql rt meters) (\<lambda>fdist.
       Inr (Composed
         [SQL ''ST_DWithin(ST_SetSRID(ST_MakePoint(('', point path, SQL '')[0], ('', point path,
          SQL '')[1]), 4326)::geography, ST_SetSRID(ST_MakePoint('', flng, SQL '', '', flat,
          SQL ''), 4326)::geography, '', fdist, SQL '')'']))))"

definition coordinate_distance_build ::
  "py_runtime \<Rightarrow> string \<Rightarrow> pyval \<Rightarrow> composable \<Rightarrow> composable option result" where
  "coordinate_distance_build rt meth v path =
     (case v of
        PTuple [center, meters] \<Rightarrow>
          (case center of
             PTuple [lat, lng] \<Rightarrow>
               (if \<not> is_int_float meters \<or> is_bool meters \<or> negative meters then Inl TypeError
                else if meth = ''postgis'' then map_sum id Some (build_distance_postgis rt path lat lng meters)
                else if meth = ''earthdistance'' then map_sum id Some (build_distance_earthdistance rt path lat lng meters)
                else if meth = ''haversine'' then map_sum id Some (build_distance_haversine rt path lat lng meters)
                else Inl ValueError)
           | _ \<Rightarrow> Inl TypeError)
      | _ \<Rightarrow> Inl TypeError)"

definition coordinate_build :: "py_runtime \<Rightarrow> string \<Rightarrow> build_fun" where
  "coordinate_build rt meth op v path ft jc =
     (if op \<in> {''eq'', ''neq''} then
        rbind (point_literal v) (\<lambda>lit.
          let same = Composed [point path, SQL '' ~= '', lit] in
          Inr (Some (if op = ''eq'' then same else Composed [SQL ''NOT ('', same, SQL '')''])))
      else if op \<in> {''in'', ''notin'', ''nin''} then
        (case v of
           PList vs \<Rightarrow>
             (if vs = [] then Inr (Some (if op = ''in'' then SQL ''FALSE'' else SQL ''TRUE''))
              else rbind (map_result point_literal vs) (\<lambda>lits.
                let any_same = sql_join '' OR '' (map (\<lambda>lit. Composed [point path, SQL '' ~= '', lit]) lits) in
                Inr (Some (if op = ''in'' then Composed [SQL ''('', any_same, SQL '')'']
                           else Composed [SQL ''NOT ('', any_same, SQL '')'']))))
         | _ \<Rightarrow> Inl TypeError)
      else if op = ''distance_within'' then coordinate_distance_build rt meth v path
      else Inr None)"

definition coordinate_strategy :: "py_runtime \<Rightarrow> string \<Rightarrow> strategy" where
  "coordinate_strategy rt meth =
     \<lparr>supports_operator = coordinate_supports, strategy_build = coordinate_build rt meth\<rparr>"

subsection \<open>The contract\<close>

definition coord_vocab :: "string set" where
  "coord_vocab = {''('', '')'', '', '', '')::point'', ''::float8'', ''POINT('', '' ~= '', ''NOT ('', '' OR '', ''FALSE'', ''TRUE'',
     '')[1]'', '')[0]'', '')[1], ('', '')[0], ('', '')[0])) <= '', '' - '',
     ''(2 * 6371000 * ASIN(LEAST(1, SQRT(POWER(SIN(RADIANS('', '') / 2), 2) + COS(RADIANS('',
     '')) * COS(RADIANS('', '')) * POWER(SIN(RADIANS('', '') / 2), 2)))) <= '',
     ''(earth_distance(ll_to_earth('', ''), ll_to_earth(('', ''ST_DWithin(ST_SetSRID(ST_MakePoint(('',
     '')[1]), 4326)::geography, ST_SetSRID(ST_MakePoint('', ''), 4326)::geography, ''}"

lemma coord_vocab_words:
  "''('' \<in> coord_vocab" "'')'' \<in> coord_vocab" "'', '' \<in> coord_vocab" "'')::point'' \<in> coord_vocab"
  "''::float8'' \<in> coord_vocab" "''POINT('' \<in> coord_vocab" "'' ~= '' \<in> coord_vocab" "''NOT ('' \<in> coord_vocab"
  "'' OR '' \<in> coord_vocab" "''FALSE'' \<in> coord_vocab" "''TRUE'' \<in> coord_vocab" "'')[1]'' \<in> coord_vocab"
  "'')[0]'' \<in> coord_vocab" "'')[1], ('' \<in> coord_vocab" "'')[0], ('' \<in> coord_vocab" "'')[0])) <= '' \<in> coord_vocab"
  "'' - '' \<in> coord_vocab" "''(2 * 6371000 * ASIN(LEAST(1, SQRT(POWER(SIN(RADIANS('' \<in> coord_vocab"
  "'') / 2), 2) + COS(RADIANS('' \<in> coord_vocab" "'')) * COS(RADIANS('' \<in> coord_vocab"
  "'')) * POWER(SIN(RADIANS('' \<in> coord_vocab" "'') / 2), 2)))) <= '' \<in> coord_vocab"
  "''(earth_distance(ll_to_earth('' \<in> coord_vocab" "''), ll_to_earth(('' \<in> coord_vocab"
  "''ST_DWithin(ST_SetSRID(ST_MakePoint(('' \<in> coord_vocab"
  "'')[1]), 4326)::geography, ST_SetSRID(ST_MakePoint('' \<in> coord_vocab" "''), 4326)::geography, '' \<in> coord_vocab"
  unfolding coord_vocab_def by simp_all

lemma coord_vocab_no_placeholder: "t \<in> coord_vocab \<Longrightarrow> ph_count t = Some 0"
  unfolding coord_vocab_def by auto

lemma point_texts: "texts (point path) \<subseteq> texts path \<union> coord_vocab"
  using coord_vocab_words by (auto simp: point_def)

lemma float_sql_texts: "float_sql rt v = Inr c \<Longrightarrow> texts c \<subseteq> coord_vocab"
  using coord_vocab_words by (auto simp: float_sql_def rbind_eq_Inr)

lemma point_literal_texts: "point_literal v = Inr c \<Longrightarrow> texts c \<subseteq> coord_vocab"
  using coord_vocab_words by (auto simp: point_literal_def split: pyval.splits list.splits)

lemma distance_texts:
  "build_distance_haversine rt path lat lng d = Inr c \<Longrightarrow> texts c \<subseteq> texts path \<union> coord_vocab"
  "build_distance_earthdistance rt path lat lng d = Inr c \<Longrightarrow> texts c \<subseteq> texts path \<union> coord_vocab"
  "build_distance_postgis rt path lat lng d = Inr c \<Longrightarrow> texts c \<subseteq> texts path \<union> coord_vocab"
  using point_texts [of path] coord_vocab_words
  unfolding build_distance_haversine_def build_distance_earthdistance_def build_distance_postgis_def Let_def
  by (auto simp: rbind_eq_Inr dest!: float_sql_texts)


lemma coordinate_distance_confined: "confined coord_vocab path (coordinate_distance_build rt meth v path)"
proof -
  have map_sum_Inr: "map_sum id Some r = Inr (Some c) \<longleftrightarrow> r = Inr c" for r :: "composable result" and c
    by (cases r) auto
  have "texts c \<subseteq> texts path \<union> coord_vocab"
    if "coordinate_distance_build rt meth v path = Inr (Some c)" for c
    using that by (auto simp: coordinate_distance_build_def map_sum_Inr split: pyval.splits list.splits if_splits
        dest!: distance_texts)
  then show ?thesis by (simp add: confined_def)
qed

lemma coordinate_in_texts:
  assumes "map_result point_literal vs = Inr lits"
  shows "texts (sql_join '' OR '' (map (\<lambda>lit. Composed [point path, SQL '' ~= '', lit]) lits))
    \<subseteq> texts path \<union> coord_vocab"
proof (rule texts_sql_join_sub)
  fix c
  assume "c \<in> set (map (\<lambda>lit. Composed [point path, SQL '' ~= '', lit]) lits)"
  then obtain lit where lit: "lit \<in> set lits" and c: "c = Composed [point path, SQL '' ~= '', lit]" by auto
  from map_result_set [OF assms lit] have "texts lit \<subseteq> coord_vocab" by (auto dest: point_literal_texts)
  with c show "texts c \<subseteq> texts path \<union> coord_vocab" using point_texts [of path] coord_vocab_words(7) by auto
qed (use coord_vocab_words in simp)

lemma confined_list_case:
  "(\<And>vs. confined V path (f vs)) \<Longrightarrow> confined V path (case v of PList vs \<Rightarrow> f vs | _ \<Rightarrow> Inl TypeError)"
  by (cases v) (simp_all add: confined_Inl)

lemma coordinate_build_texts: "confined coord_vocab path (coordinate_build rt meth op v path ft jc)"
proof -
  have eq: "confined coord_vocab path (rbind (point_literal v) (\<lambda>lit.
      Inr (Some (if b then Composed [point path, SQL '' ~= '', lit]
                 else Composed [SQL ''NOT ('', Composed [point path, SQL '' ~= '', lit], SQL '')'']))))" for b
    using point_texts [of path] coord_vocab_words
    by (auto simp: confined_def rbind_eq_Inr dest!: point_literal_texts split: if_splits)
  have lst: "confined coord_vocab path (rbind (map_result point_literal vs) (\<lambda>lits.
      Inr (Some (if b then Composed [SQL ''('', sql_join '' OR '' (map (\<lambda>lit. Composed [point path, SQL '' ~= '', lit]) lits), SQL '')'']
        else Composed [SQL ''NOT ('', sql_join '' OR '' (map (\<lambda>lit. Composed [point path, SQL '' ~= '', lit]) lits), SQL '')'']))))" for b vs
    using coordinate_in_texts [of vs _ path] coord_vocab_words
    by (fastforce simp: confined_def rbind_eq_Inr split: if_splits)
  have nil: "confined coord_vocab path (Inr (Some (if b then SQL ''FALSE'' else SQL ''TRUE'')))" for b
    using coord_vocab_words by (simp add: confined_def)
  show ?thesis
    unfolding coordinate_build_def Let_def
    by (intro confined_if confined_None confined_list_case eq lst nil coordinate_distance_confined)
qed

interpretation coordinate_strat: safe_strategy "coordinate_strategy rt meth" coord_vocab for rt meth
  unfolding coordinate_strategy_def
  by (intro safe_strategyI coordinate_build_texts coord_vocab_no_placeholder)

subsection \<open>Validation and round trip\<close>

lemma float_between_cases:
  assumes "float_between rt b v"
  shows "\<exists>s r. v = PFloat s \<and> rt_value rt s = Some r \<and> - b \<le> r \<and> r \<le> b"
  using assms by (cases v) (simp_all add: float_between_def split: option.splits)

text \<open>
  A coordinate that \<open>parse_coordinate_value\<close> accepts is a pair of floats whose values
  lie between -90 and 90 and between -180 and 180 degrees, whatever the input format was.
\<close>

theorem parse_coordinate_bounds:
  assumes "parse_coordinate_value rt v = Inr (lat, lng)"
  shows "\<exists>s t r q. lat = PFloat s \<and> lng = PFloat t \<and> rt_value rt s = Some r \<and> rt_value rt t = Some q
     \<and> -90 \<le> r \<and> r \<le> 90 \<and> -180 \<le> q \<and> q \<le> 180"
proof -
  have "float_between rt 90 lat" "float_between rt 180 lng"
    using assms by (auto simp: parse_coordinate_value_def rbind_eq_Inr split: if_splits)
  then show ?thesis using float_between_cases [of rt 90 lat] float_between_cases [of rt 180 lng] by blast
qed

text \<open>The characters of a finite float's \<open>repr\<close>; such a text has no comma, blank or parenthesis.\<close>

definition float_chars :: "string \<Rightarrow> bool" where
  "float_chars s = (\<forall>c \<in> set s. c \<in> set ''0123456789.e+-'')"

lemma float_char_plain:
  assumes "c \<in> set ''0123456789.e+-''"
  shows "\<not> is_space c" "c \<noteq> CHR '',''" "c \<noteq> CHR ''(''"
proof -
  have "list_all (\<lambda>c. \<not> is_space c \<and> c \<noteq> CHR '','' \<and> c \<noteq> CHR ''('') ''0123456789.e+-''"
    by (simp add: is_space_def)
  with assms show "\<not> is_space c" "c \<noteq> CHR '',''" "c \<noteq> CHR ''(''"
    unfolding list_all_iff by blast+
qed

lemma float_chars_props:
  assumes "float_chars s"
  shows "CHR '','' \<notin> set s" "strip s = s" "\<not> startswith s ''(''"
proof -
  have nospace: "\<forall>c \<in> set s. \<not> is_space c"
    using assms float_char_plain(1) unfolding float_chars_def by blast
  then have "dropWhile is_space s = s" "dropWhile is_space (rev s) = rev s"
    by (metis dropWhile_eq_self_iff hd_in_set list.set_sel(1) set_rev)+
  then show "strip s = s" by (simp add: strip_def)
  show "CHR '','' \<notin> set s" using assms float_char_plain(2) unfolding float_chars_def by blast
  have "CHR ''('' \<notin> set s" using assms float_char_plain(3) unfolding float_chars_def by blast
  then show "\<not> startswith s ''(''" by (cases s) (auto simp: startswith_def)
qed

lemma strip_join:
  assumes "float_chars s" "float_chars t"
  shows "strip (s @ '','' @ t) = s @ '','' @ t"
proof -
  have "\<forall>c \<in> set s \<union> set t. \<not> is_space c"
    using assms float_char_plain(1) unfolding float_chars_def by blast
  then have "\<forall>c \<in> set (s @ '','' @ t). \<not> is_space c" by (auto simp: is_space_def)
  then have "dropWhile is_space (s @ '','' @ t) = s @ '','' @ t"
    "dropWhile is_space (rev (s @ '','' @ t)) = rev (s @ '','' @ t)"
    by (metis dropWhile_eq_self_iff hd_in_set list.set_sel(1) set_rev)+
  then show ?thesis by (simp add: strip_def)
qed

text \<open>
  Coordinate round trip.  For a pair of floats within the bounds whose \<open>repr\<close> texts read
  back as themselves (as Python's \<open>repr\<close> guarantees), parsing the serialised text gives the
  pair back.
\<close>

theorem coordinate_roundtrip:
  assumes chars: "float_chars s" "float_chars t"
    and repr: "rt_float_of_str rt s = Some s" "rt_float_of_str rt t = Some t"
    and bounds: "float_between rt 90 (PFloat s)" "float_between rt 180 (PFloat t)"
  shows "rbind (serialize_coordinate (PTuple [PFloat s, PFloat t]))
           (\<lambda>text. parse_coordinate_value rt (PStr text)) = Inr (PFloat s, PFloat t)"
proof -
  have ser: "serialize_coordinate (PTuple [PFloat s, PFloat t]) = Inr (s @ '','' @ t)"
    by (simp add: serialize_coordinate_def is_int_float_def py_str_def)
  have "\<not> startswith (s @ '','' @ t) ''(''"
    using chars float_chars_props(3) [OF chars(1)] by (cases s) (auto simp: startswith_def)
  moreover have "split_on (CHR '','') (s @ '','' @ t) = [s, t]"
    using float_chars_props(1) [OF chars(1)] float_chars_props(1) [OF chars(2)]
    by (simp add: split_on_append split_on_word)
  ultimately have "extract_lat_lng rt (PStr (s @ '','' @ t)) = Inr (PFloat s, PFloat t)"
    using strip_join [OF chars] float_chars_props(2) [OF chars(1)] float_chars_props(2) [OF chars(2)] repr
    by (simp add: extract_lat_lng_def Let_def of_option_def)
  with ser bounds show ?thesis by (simp add: parse_coordinate_value_def)
qed

text \<open>A runtime that knows the four texts of the examples.\<close>

definition example_runtime :: py_runtime where
  "example_runtime = \<lparr>rt_value = map_of [(''37.5'', 75 / 2), (''-122.25'', - (489 / 4)), (''50.0'', 50)],
     rt_float_of_int = (\<lambda>i. if i = 50 then Some ''50.0'' else None),
     rt_float_of_str = (\<lambda>s. if s \<in> {''37.5'', ''-122.25'', ''50.0''} then Some s else None)\<rparr>"

theorem parse_coordinate_bounds_witness:
  "parse_coordinate_value example_runtime (PStr ''(37.5, -122.25)'') = Inr (PFloat ''37.5'', PFloat ''-122.25'') \<and>
   (\<exists>s t r q. PFloat ''37.5'' = PFloat s \<and> PFloat ''-122.25'' = PFloat t \<and>
     rt_value example_runtime s = Some r \<and> rt_value example_runtime t = Some q
     \<and> -90 \<le> r \<and> r \<le> 90 \<and> -180 \<le> q \<and> q \<le> 180)"
proof -
  have "parse_coordinate_value example_runtime (PStr ''(37.5, -122.25)'') = Inr (PFloat ''37.5'', PFloat ''-122.25'')"
    by code_simp
  from parse_coordinate_bounds [OF this] this show ?thesis by blast
qed

theorem coordinate_roundtrip_witness:
  "rbind (serialize_coordinate (PTuple [PFloat ''37.5'', PFloat ''-122.25'']))
     (\<lambda>text. parse_coordinate_value example_runtime (PStr text)) = Inr (PFloat ''37.5'', PFloat ''-122.25'')"
  by (rule coordinate_roundtrip) (simp_all add: float_chars_def float_between_def example_runtime_def)

end
