(* ===== verification/Registry.thy ===== *)
theory Registry
  imports CoreStrategies PgStrategies LtreeStrategy CoordinateOps
begin

text \<open>
  The default operator registry: the strategies that \<open>sql/operators/__init__.py\<close> registers at
  import time, in its order.  The lookup walks the list backwards, so the strategy registered
  last is asked first.  The registry is an instance of \<open>safe_registry\<close>; the properties of this
  theory are the shape of everything it builds, and which strategy answers for an operator
  whose field has no declared type.
\<close>

definition default_registry :: "py_runtime \<Rightarrow> string \<Rightarrow> strategy list" where
  "default_registry rt meth = foldl register []
     [path_strategy, list_strategy, pattern_strategy, comparison_strategy,
      jsonb_strategy, coordinate_strategy rt meth, array_strategy, null_strategy,
      mac_strategy, daterange_strategy, ltree_strategy rt, network_strategy,
      boolean_strategy, numeric_strategy, string_strategy]"

definition registry_vocab :: "string set" where
  "registry_vocab = core_vocab \<union> pg_vocab \<union> ltree_vocab \<union> coord_vocab"

lemma registry_vocab_no_placeholder: "t \<in> registry_vocab \<Longrightarrow> ph_count t = Some 0"
  unfolding registry_vocab_def
  by (blast dest: core_vocab_no_placeholder pg_vocab_no_placeholder ltree_vocab_no_placeholder
      coord_vocab_no_placeholder)

lemma default_registry_list:
  "default_registry rt meth =
     [path_strategy, list_strategy, pattern_strategy, comparison_strategy,
      jsonb_strategy, coordinate_strategy rt meth, array_strategy, null_strategy,
      mac_strategy, daterange_strategy, ltree_strategy rt, network_strategy,
      boolean_strategy, numeric_strategy, string_strategy]"
  by (simp add: default_registry_def register_def)

lemma wider:
  "V \<subseteq> registry_vocab \<Longrightarrow> safe_strategy s V \<Longrightarrow> safe_strategy s registry_vocab"
  by (rule safe_strategy_mono) (auto dest: registry_vocab_no_placeholder)

lemma registry_vocab_parts:
  "core_vocab \<subseteq> registry_vocab" "pg_vocab \<subseteq> registry_vocab" "ltree_vocab \<subseteq> registry_vocab"
  "coord_vocab \<subseteq> registry_vocab"
  by (auto simp: registry_vocab_def)

lemmas strategies_safe =
  registry_vocab_parts(1) [THEN wider, OF path_strat.safe_strategy_axioms]
  registry_vocab_parts(1) [THEN wider, OF list_strat.safe_strategy_axioms]
  registry_vocab_parts(1) [THEN wider, OF pattern_strat.safe_strategy_axioms]
  registry_vocab_parts(1) [THEN wider, OF comparison_strat.safe_strategy_axioms]
  registry_vocab_parts(1) [THEN wider, OF jsonb_strat.safe_strategy_axioms]
  registry_vocab_parts(1) [THEN wider, OF array_strat.safe_strategy_axioms]
  registry_vocab_parts(1) [THEN wider, OF null_strat.safe_strategy_axioms]
  registry_vocab_parts(1) [THEN wider, OF boolean_strat.safe_strategy_axioms]
  registry_vocab_parts(1) [THEN wider, OF numeric_strat.safe_strategy_axioms]
  registry_vocab_parts(1) [THEN wider, OF string_strat.safe_strategy_axioms]
  registry_vocab_parts(2) [THEN wider, OF mac_strat.safe_strategy_axioms]
  registry_vocab_parts(2) [THEN wider, OF daterange_strat.safe_strategy_axioms]
  registry_vocab_parts(2) [THEN wider, OF network_strat.safe_strategy_axioms]
  registry_vocab_parts(3) [THEN wider, OF ltree_strat.safe_strategy_axioms]
  registry_vocab_parts(4) [THEN wider, OF coordinate_strat.safe_strategy_axioms]

interpretation default_reg: safe_registry "default_registry rt meth" registry_vocab for rt meth
proof (rule safe_registry.intro)
  fix s assume "s \<in> set (default_registry rt meth)"
  then show "safe_strategy s registry_vocab"
    unfolding default_registry_list list.set insert_iff empty_iff
    by (elim disjE; simp only: strategies_safe)
qed

text \<open>
  Injection safety of the operator strategies.  Whatever plain value a client sends, with
  whatever operator and field type, the raw SQL text of the condition the default registry
  builds is the raw text of the field path plus words of a fixed vocabulary that does not
  depend on the value: the value itself only ever occurs inside \<open>Literal\<close> nodes, which psycopg
  quotes.
\<close>

theorem registry_injection_safe:
  assumes "plain v" and "registry_build_sql (default_registry rt meth) op v path ft jc = Inr (Some c)"
  shows "texts c \<subseteq> texts path \<union> registry_vocab"
  using assms by (rule default_reg.registry_texts)

theorem registry_injection_safe_witness:
  "registry_build_sql (default_registry example_runtime ''haversine'') ''endswith'' (PStr ''x); --'')
       (Composed [Identifier ''data'', SQL '' ->> '', Literal (PStr ''name'')]) None None
     = Inr (Some (Composed [Composed [Identifier ''data'', SQL '' ->> '', Literal (PStr ''name'')],
          SQL '' LIKE '', Literal (PStr ''%x); --'')]))
   \<and> texts (Composed [Composed [Identifier ''data'', SQL '' ->> '', Literal (PStr ''name'')],
          SQL '' LIKE '', Literal (PStr ''%x); --'')])
       \<subseteq> texts (Composed [Identifier ''data'', SQL '' ->> '', Literal (PStr ''name'')]) \<union> registry_vocab"
proof -
  have built: "registry_build_sql (default_registry example_runtime ''haversine'') ''endswith'' (PStr ''x); --'')
       (Composed [Identifier ''data'', SQL '' ->> '', Literal (PStr ''name'')]) None None
     = Inr (Some (Composed [Composed [Identifier ''data'', SQL '' ->> '', Literal (PStr ''name'')],
          SQL '' LIKE '', Literal (PStr ''%x); --'')]))"
    by (simp add: registry_build_sql_def get_strategy_def default_registry_list string_strategy_def
        string_supports_def string_specific_ops_def string_build_def cast_path_def has_jsonb_def Let_def binop_def)
  with registry_injection_safe [OF _ built] show ?thesis by simp
qed

end
