(* ===== verification/WhereClause.thy ===== *)
theory WhereClause
  imports Registry
begin

section \<open>The canonical WHERE clause\<close>

text \<open>
  \<open>where_clause.py\<close>: the operator tables, the condition on one field (\<open>FieldCondition\<close>), the
  clause that combines conditions, nested clauses and a negation (\<open>WhereClause\<close>), and the SQL
  each of them generates, together with the two helpers of \<open>sql/where/core/sql_builder.py\<close>
  that the ID-based hierarchy filters call.

  A table is an association list in the source's order.  Where the source reads a
  process-wide setting (the entity schema of the schema registry, the distance method of the
  coordinate strategy) or the interpreter's float conversions, the operation takes the record
  \<open>where_env\<close>.  A generated query is a pair of a composable and the list of its parameters; an
  exception is the left summand.  Warnings are not modelled.
\<close>

subsection \<open>Operator tables\<close>

definition in_keys :: "string \<Rightarrow> (string \<times> 'a) list \<Rightarrow> bool" where
  "in_keys k d = (k \<in> set (map fst d))"

definition dict_get :: "(string \<times> 'a) list \<Rightarrow> string \<Rightarrow> 'a result" where
  "dict_get d k = of_option KeyError (map_of d k)"

definition COMPARISON_OPERATORS :: "(string \<times> string) list" where
  "COMPARISON_OPERATORS =
    [(''eq'', ''=''), (''neq'', ''!=''), (''gt'', ''>''), (''gte'', ''>=''), (''lt'', ''<''),
     (''lte'', ''<='')]"

definition CONTAINMENT_OPERATORS :: "(string \<times> string) list" where
  "CONTAINMENT_OPERATORS =
    [(''in'', ''IN''), (''nin'', ''NOT IN'')]"

definition STRING_OPERATORS :: "(string \<times> string) list" where
  "STRING_OPERATORS =
    [(''contains'', ''LIKE''), (''icontains'', ''ILIKE''), (''startswith'', ''LIKE''),
     (''istartswith'', ''ILIKE''), (''endswith'', ''LIKE''), (''iendswith'', ''ILIKE''),
     (''like'', ''LIKE''), (''ilike'', ''ILIKE'')]"

definition NULL_OPERATORS :: "(string \<times> string) list" where
  "NULL_OPERATORS =
    [(''isnull'', ''IS NULL'')]"

definition VECTOR_OPERATORS :: "(string \<times> string) list" where
  "VECTOR_OPERATORS =
    [(''cosine_distance'', ''<=>''), (''l2_distance'', ''<->''), (''l1_distance'', ''<+>''),
     (''inner_product'', ''<#>''), (''hamming_distance'', ''<~>''), (''jaccard_distance'', ''<%>'')]"

definition FULLTEXT_OPERATORS :: "(string \<times> string) list" where
  "FULLTEXT_OPERATORS =
    [(''matches'', ''@@''), (''plain_query'', ''@@''), (''phrase_query'', ''@@''),
     (''websearch_query'', ''@@''), (''rank_gt'', ''>''), (''rank_lt'', ''<''),
     (''rank_cd_gt'', ''>''), (''rank_cd_lt'', ''<'')]"

definition ARRAY_OPERATORS :: "(string \<times> string) list" where
  "ARRAY_OPERATORS =
    [(''array_eq'', ''=''), (''array_neq'', ''!=''), (''array_contains'', ''@>''),
     (''contains'', ''@>''), (''array_contained_by'', ''<@''), (''contained_by'', ''<@''),
     (''array_overlaps'', ''&&''), (''overlaps'', ''&&''), (''array_length_eq'', ''=''),
     (''len_eq'', ''=''), (''array_length_gt'', ''>''), (''len_gt'', ''>''),
     (''array_length_lt'', ''<''), (''len_lt'', ''<''), (''array_length_gte'', ''>=''),
     (''len_gte'', ''>=''), (''array_any_eq'', ''= ANY''), (''any_eq'', ''= ANY''),
     (''array_all_eq'', ''= ALL''), (''all_eq'', ''= ALL'')]"

definition NETWORK_OPERATORS :: "(string \<times> string) list" where
  "NETWORK_OPERATORS =
    [(''isIPv4'', ''family({}) = 4''), (''isIPv6'', ''family({}) = 6''),
     (''isPrivate'', ''CIDR_RANGE_CHECK''), (''isPublic'', ''NOT_CIDR_RANGE_CHECK''),
     (''inSubnet'', ''{} <<= {}''), (''inRange'', ''{} <<= {}''), (''overlaps'', ''{} && {}''),
     (''strictleft'', ''{} << {}''), (''strictright'', ''{} >> {}''),
     (''isprivate'', ''CIDR_RANGE_CHECK''), (''ispublic'', ''NOT_CIDR_RANGE_CHECK''),
     (''insubnet'', ''{} <<= {}''), (''inrange'', ''{} <<= {}''), (''isipv4'', ''family({}) = 4''),
     (''isipv6'', ''family({}) = 6''), (''isLoopback'', ''LOOPBACK_CIDR_CHECK''),
     (''isMulticast'', ''MULTICAST_CIDR_CHECK''), (''isBroadcast'', ''BROADCAST_CIDR_CHECK''),
     (''isLinkLocal'', ''LINK_LOCAL_CIDR_CHECK''),
     (''isDocumentation'', ''DOCUMENTATION_CIDR_CHECK''), (''isReserved'', ''RESERVED_CIDR_CHECK''),
     (''isCarrierGrade'', ''CARRIER_GRADE_CIDR_CHECK''),
     (''isSiteLocal'', ''SITE_LOCAL_CIDR_CHECK''), (''isUniqueLocal'', ''UNIQUE_LOCAL_CIDR_CHECK''),
     (''isGlobalUnicast'', ''NOT_SPECIAL_PURPOSE_CHECK''), (''isloopback'', ''LOOPBACK_CIDR_CHECK''),
     (''ismulticast'', ''MULTICAST_CIDR_CHECK''), (''isbroadcast'', ''BROADCAST_CIDR_CHECK''),
     (''islinklocal'', ''LINK_LOCAL_CIDR_CHECK''),
     (''isdocumentation'', ''DOCUMENTATION_CIDR_CHECK''), (''isreserved'', ''RESERVED_CIDR_CHECK''),
     (''iscarriergrade'', ''CARRIER_GRADE_CIDR_CHECK''),
     (''issitelocal'', ''SITE_LOCAL_CIDR_CHECK''), (''isuniquelocal'', ''UNIQUE_LOCAL_CIDR_CHECK''),
     (''isglobalunicast'', ''NOT_SPECIAL_PURPOSE_CHECK'')]"

definition MACADDR_OPERATORS :: "(string \<times> string) list" where
  "MACADDR_OPERATORS =
    [(''notin'', ''NOT IN'')]"

definition DATERANGE_OPERATORS :: "(string \<times> string) list" where
  "DATERANGE_OPERATORS =
    [(''contains_date'', ''@>''), (''adjacent'', ''-|-''), (''strictly_left'', ''<<''),
     (''strictly_right'', ''>>''), (''not_left'', ''&>''), (''not_right'', ''&<''),
     (''notin'', ''NOT IN'')]"

definition LTREE_OPERATORS :: "(string \<times> string) list" where
  "LTREE_OPERATORS =
    [(''ancestor_of'', ''@>''), (''descendant_of'', ''<@''), (''descendant_of_id'', ''<@''),
     (''ancestor_of_id'', ''@>''), (''matches_lquery'', ''~''), (''matches_ltxtquery'', ''@''),
     (''matches_any_lquery'', ''?''), (''in_array'', ''<@''), (''concat'', ''||''),
     (''lca'', ''lca''), (''nlevel'', ''nlevel({})''), (''nlevel_eq'', ''nlevel({}) =''),
     (''nlevel_gt'', ''nlevel({}) >''), (''nlevel_gte'', ''nlevel({}) >=''),
     (''nlevel_lt'', ''nlevel({}) <''), (''nlevel_lte'', ''nlevel({}) <=''),
     (''nlevel_neq'', ''nlevel({}) !=''), (''depth_eq'', ''nlevel({}) =''),
     (''depth_gt'', ''nlevel({}) >''), (''depth_gte'', ''nlevel({}) >=''),
     (''depth_lt'', ''nlevel({}) <''), (''depth_lte'', ''nlevel({}) <=''),
     (''depth_neq'', ''nlevel({}) !=''), (''subpath'', ''subpath''), (''index'', ''index''),
     (''index_eq'', ''index =''), (''index_gte'', ''index >=''), (''notin'', ''NOT IN'')]"

definition JSONB_OPERATORS :: "(string \<times> string) list" where
  "JSONB_OPERATORS =
    [(''strictly_contains'', ''@>'')]"

definition COORDINATE_OPERATORS :: "(string \<times> string) list" where
  "COORDINATE_OPERATORS =
    [(''distance_within'', ''distance_within''), (''notin'', ''NOT IN'')]"

definition PATTERN_OPERATORS :: "(string \<times> string) list" where
  "PATTERN_OPERATORS =
    [(''imatches'', ''~*''), (''not_matches'', ''!~'')]"

definition ARRAY_OPERATORS_EXTRA :: "(string \<times> string) list" where
  "ARRAY_OPERATORS_EXTRA =
    [(''len_lte'', ''<=''), (''len_neq'', ''!='')]"

definition PATH_OPERATORS :: "(string \<times> string) list" where
  "PATH_OPERATORS =
    [(''isdescendant'', ''isdescendant'')]"

definition LTREE_DEPTH_COMPARISONS :: "(string \<times> string) list" where
  "LTREE_DEPTH_COMPARISONS =
    [(''nlevel'', ''=''), (''nlevel_eq'', ''=''), (''nlevel_neq'', ''!=''), (''nlevel_gt'', ''>''),
     (''nlevel_gte'', ''>=''), (''nlevel_lt'', ''<''), (''nlevel_lte'', ''<=''),
     (''depth_eq'', ''=''), (''depth_neq'', ''!=''), (''depth_gt'', ''>''), (''depth_gte'', ''>=''),
     (''depth_lt'', ''<''), (''depth_lte'', ''<='')]"

definition LTREE_INDEX_COMPARISONS :: "(string \<times> string) list" where
  "LTREE_INDEX_COMPARISONS =
    [(''index_eq'', ''=''), (''index_gte'', ''>='')]"

definition LTREE_MATCH_OPERATORS :: "(string \<times> (string \<times> string)) list" where
  "LTREE_MATCH_OPERATORS =
    [(''ancestor_of'', (''@>'', ''ltree'')), (''descendant_of'', (''<@'', ''ltree'')),
     (''isdescendant'', (''<@'', ''ltree'')), (''matches_lquery'', (''~'', ''lquery'')),
     (''matches_ltxtquery'', (''@'', ''ltxtquery'')),
     (''matches_any_lquery'', (''?'', ''lquery[]'')), (''in_array'', (''<@'', ''ltree[]''))]"

definition LIST_OPERATORS :: "(string \<times> string) list" where
  "LIST_OPERATORS =
    [(''notin'', ''NOT IN'')]"

definition BINARY_VECTOR_OPERATORS :: "string list" where
  "BINARY_VECTOR_OPERATORS = [''hamming_distance'', ''jaccard_distance'']"

definition ARRAY_OPERATORS_FOR_ALL :: "(string \<times> string) list" where
  "ARRAY_OPERATORS_FOR_ALL = filter (\<lambda>(k, v). k \<noteq> ''contains'') ARRAY_OPERATORS"

definition COORDINATE_FIELD_OPERATORS :: "string list" where
  "COORDINATE_FIELD_OPERATORS = [''eq'', ''neq'', ''in'', ''nin'', ''notin'', ''distance_within'']"

definition LTREE_NON_FILTERS :: "string list" where
  "LTREE_NON_FILTERS = [''subpath'', ''index'', ''concat'']"

definition LTREE_FUNCTION_FILTERS :: "string list" where
  "LTREE_FUNCTION_FILTERS = map fst LTREE_INDEX_COMPARISONS @ [''lca''] @ LTREE_NON_FILTERS"

text \<open>
  The merge \<open>{**a, **b, ...}\<close>: an entry of a later table replaces one of an earlier table, so
  the tables are concatenated in reverse and the first entry of a key counts.
\<close>

definition ALL_OPERATORS :: "(string \<times> string) list" where
  "ALL_OPERATORS = concat (rev
     [COMPARISON_OPERATORS, CONTAINMENT_OPERATORS, STRING_OPERATORS, NULL_OPERATORS, VECTOR_OPERATORS,
      FULLTEXT_OPERATORS, ARRAY_OPERATORS_FOR_ALL, NETWORK_OPERATORS, MACADDR_OPERATORS,
      DATERANGE_OPERATORS, LTREE_OPERATORS, JSONB_OPERATORS, COORDINATE_OPERATORS, PATTERN_OPERATORS,
      ARRAY_OPERATORS_EXTRA, PATH_OPERATORS, LIST_OPERATORS])"

lemmas operator_tables =
  COMPARISON_OPERATORS_def CONTAINMENT_OPERATORS_def STRING_OPERATORS_def NULL_OPERATORS_def
  VECTOR_OPERATORS_def FULLTEXT_OPERATORS_def ARRAY_OPERATORS_def NETWORK_OPERATORS_def
  MACADDR_OPERATORS_def DATERANGE_OPERATORS_def LTREE_OPERATORS_def JSONB_OPERATORS_def
  COORDINATE_OPERATORS_def PATTERN_OPERATORS_def ARRAY_OPERATORS_EXTRA_def PATH_OPERATORS_def
  LIST_OPERATORS_def ARRAY_OPERATORS_FOR_ALL_def LTREE_DEPTH_COMPARISONS_def
  LTREE_INDEX_COMPARISONS_def LTREE_MATCH_OPERATORS_def LTREE_NON_FILTERS_def
  LTREE_FUNCTION_FILTERS_def COORDINATE_FIELD_OPERATORS_def BINARY_VECTOR_OPERATORS_def

subsection \<open>Helpers on values\<close>

definition is_number :: "pyval \<Rightarrow> bool" where
  "is_number v = (is_numeric v \<and> \<not> is_bool v)"

definition as_numeric :: "composable \<Rightarrow> composable" where
  "as_numeric expr = Composed [SQL ''('', expr, SQL '')::numeric'']"

definition temporal_cast_operator :: "string \<Rightarrow> bool" where
  "temporal_cast_operator op = (in_keys op COMPARISON_OPERATORS \<or> in_keys op CONTAINMENT_OPERATORS)"

function (sequential) temporal_cast_of_value :: "pyval \<Rightarrow> string option" where
  "temporal_cast_of_value (PList vs) =
     (case remdups (map temporal_cast_of_value vs) of [c] \<Rightarrow> c | _ \<Rightarrow> None)"
| "temporal_cast_of_value (PTuple vs) =
     (case remdups (map temporal_cast_of_value vs) of [c] \<Rightarrow> c | _ \<Rightarrow> None)"
| "temporal_cast_of_value v =
     (if is_datetime v then Some ''timestamptz'' else if is_date v then Some ''date'' else None)"
  by pat_completeness auto
termination
  by (relation "measure size") (auto simp: size_list_estimation' less_Suc_eq_le)

definition coordinate :: "py_runtime \<Rightarrow> pyval \<Rightarrow> pyval result" where
  "coordinate rt v =
     rbind (parse_coordinate_value rt (case v of PList vs \<Rightarrow> PTuple vs | _ \<Rightarrow> v))
           (\<lambda>(lat, lng). Inr (PTuple [lat, lng]))"

definition coordinate_distance :: "py_runtime \<Rightarrow> pyval \<Rightarrow> pyval result" where
  "coordinate_distance rt v =
     rbind
       (case v of
          PDict d \<Rightarrow>
            (case (map_of d ''center'', map_of d ''radius'') of
               (Some c, Some r) \<Rightarrow> Inr (c, r) | _ \<Rightarrow> Inl TypeError)
        | PList [c, r] \<Rightarrow> Inr (c, r)
        | PTuple [c, r] \<Rightarrow> Inr (c, r)
        | _ \<Rightarrow>
            (case (obj_attr v ''center'', obj_attr v ''radius'') of
               (Some c, Some r) \<Rightarrow> Inr (c, r) | _ \<Rightarrow> Inl TypeError))
       (\<lambda>(center, radius).
          if \<not> is_number radius then Inl TypeError
          else rbind (coordinate rt center) (\<lambda>c. rbind (py_float rt radius) (\<lambda>r. Inr (PTuple [c, r]))))"

subsection \<open>Helpers of the SQL builder\<close>

definition resolve_entity_name :: "string \<Rightarrow> string result" where
  "resolve_entity_name name =
     (if \<not> endswith name ''_id'' then Inl ValueError
      else let entity = removesuffix name ''_id'' in
           if entity = [] then Inl ValueError else Inr entity)"

definition build_hierarchy_subquery ::
  "string \<Rightarrow> string \<Rightarrow> string \<Rightarrow> string \<Rightarrow> composable \<Rightarrow> composable" where
  "build_hierarchy_subquery entity_schema entity_name uuid_value ltree_op path =
     (let schema = Identifier entity_schema; table = Identifier (''tb_'' @ entity_name) in
      Composed [SQL ''('', path, SQL '')::uuid IN (SELECT id FROM '', schema, SQL ''.'', table,
        SQL '' WHERE path '', SQL ltree_op, SQL '' (SELECT path FROM '', schema, SQL ''.'', table,
        SQL '' WHERE id = '', Literal (PStr uuid_value), SQL ''::uuid)::ltree)''])"

definition build_jsonb_path :: "string list \<Rightarrow> composable result" where
  "build_jsonb_path fs =
     (case fs of
        [] \<Rightarrow> Inl ValueError
      | [f] \<Rightarrow> Inr (Composed [SQL ''data ->> '', Literal (PStr f)])
      | _ \<Rightarrow> Inr (Composed (SQL ''data''
                 # concat (map (\<lambda>f. [SQL '' -> '', Literal (PStr f)]) (butlast fs))
                 @ [SQL '' ->> '', Literal (PStr (last fs))])))"

subsection \<open>The condition on one field\<close>

record field_condition =
  field_path :: "string list"
  operator :: string
  fc_value :: pyval
  lookup_strategy :: string
  target_column :: string
  jsonb_path :: "string list option"
  temporal_cast :: "string option"

text \<open>The settings that the generation reads.\<close>

record where_env =
  we_runtime :: py_runtime
  we_distance_method :: string
  default_entity_schema :: "string option"

type_synonym sql_params = "composable \<times> pyval list"

text \<open>\<open>__post_init__\<close>: a condition that fails one of the checks is not constructed.\<close>

definition validate_condition :: "field_condition \<Rightarrow> field_condition result" where
  "validate_condition fc =
     (if \<not> in_keys (operator fc) ALL_OPERATORS then Inl ValueError
      else if lookup_strategy fc \<notin> {''fk_column'', ''jsonb_path'', ''sql_column''} then Inl ValueError
      else if lookup_strategy fc = ''jsonb_path'' \<and> (jsonb_path fc = None \<or> jsonb_path fc = Some []) then Inl ValueError
      else if field_path fc = [] then Inl ValueError
      else Inr fc)"

definition is_coordinate_filter :: "field_condition \<Rightarrow> bool" where
  "is_coordinate_filter fc =
     (operator fc = ''distance_within'' \<or>
      (temporal_cast fc = Some ''point'' \<and> operator fc \<in> set COORDINATE_FIELD_OPERATORS))"

text \<open>
  \<open>_coordinate_sql\<close>: a \<open>TypeError\<close> or \<open>GraphQLError\<close> of the conversion or of the strategy becomes
  a \<open>ValueError\<close>; other exceptions pass.
\<close>

definition catch_coordinate :: "'a result \<Rightarrow> 'a result" where
  "catch_coordinate r =
     (case r of
        Inl e \<Rightarrow> Inl (if e = TypeError \<or> e = GraphQLError then ValueError else e)
      | Inr x \<Rightarrow> Inr x)"

definition coordinate_value :: "py_runtime \<Rightarrow> string \<Rightarrow> pyval \<Rightarrow> pyval result" where
  "coordinate_value rt op v =
     (if op = ''distance_within'' then coordinate_distance rt v
      else if op \<in> {''in'', ''notin''} then
        (case seq_items v of
           None \<Rightarrow> Inl TypeError
         | Some vs \<Rightarrow> rbind (map_result (coordinate rt) vs) (\<lambda>cs. Inr (PList cs)))
      else coordinate rt v)"

definition coordinate_sql :: "where_env \<Rightarrow> field_condition \<Rightarrow> composable \<Rightarrow> sql_params result" where
  "coordinate_sql env fc path =
     (let op = (if operator fc = ''nin'' then ''notin'' else operator fc) in
      rbind
        (catch_coordinate
          (rbind (coordinate_value (we_runtime env) op (fc_value fc)) (\<lambda>v.
             coordinate_build (we_runtime env) (we_distance_method env) op v path None None)))
        (\<lambda>r. case r of None \<Rightarrow> Inl ValueError | Some sql \<Rightarrow> Inr (Composed [sql], [])))"

definition ltree_match_sql :: "field_condition \<Rightarrow> composable \<Rightarrow> sql_params result" where
  "ltree_match_sql fc path =
     rbind (dict_get LTREE_MATCH_OPERATORS (operator fc)) (\<lambda>(sql_op, value_type).
     rbind
       (if endswith value_type ''[]'' then
          (case seq_items (fc_value fc) of
             None \<Rightarrow> Inl ValueError
           | Some vs \<Rightarrow> if vs = [] then Inl ValueError else Inr (PList (map (PStr \<circ> py_str) vs)))
        else if seq_items (fc_value fc) \<noteq> None \<or> is_dict (fc_value fc) then Inl ValueError
        else Inr (PStr (py_str (fc_value fc))))
       (\<lambda>param. Inr (Composed [path, SQL ('' '' @ sql_op @ '' %s::'' @ value_type)], [param])))"

definition ltree_depth_sql :: "where_env \<Rightarrow> field_condition \<Rightarrow> composable \<Rightarrow> sql_params result" where
  "ltree_depth_sql env fc path =
     rbind (dict_get LTREE_DEPTH_COMPARISONS (operator fc)) (\<lambda>comparison.
     rbind (py_int (we_runtime env) (fc_value fc)) (\<lambda>i.
       Inr (Composed [SQL ''nlevel('', path, SQL ('') '' @ comparison @ '' ''), SQL ''%s''], [PInt i])))"

definition label_and_position :: "pyval \<Rightarrow> pyval" where
  "label_and_position v =
     (case v of
        PDict d \<Rightarrow>
          (case (map_of d ''label'', map_of d ''position'') of
             (Some l, Some p) \<Rightarrow> PTuple [l, p] | _ \<Rightarrow> v)
      | _ \<Rightarrow>
          (case (obj_attr v ''label'', obj_attr v ''position'') of
             (Some l, Some p) \<Rightarrow> PTuple [l, p] | _ \<Rightarrow> v))"

definition ltree_function_sql :: "where_env \<Rightarrow> field_condition \<Rightarrow> composable \<Rightarrow> sql_params result" where
  "ltree_function_sql env fc path =
     (if operator fc \<in> set LTREE_NON_FILTERS then Inl ValueError
      else if operator fc = ''lca'' then
        (case seq_items (fc_value fc) of
           None \<Rightarrow> Inl ValueError
         | Some vs \<Rightarrow>
             if vs = [] then Inl ValueError
             else Inr (Composed [path, SQL ('' = lca(ARRAY['' @ placeholder_list ''%s::ltree'' (length vs) @ ''])'')],
                       map (PStr \<circ> py_str) vs))
      else
        (case seq_items (label_and_position (fc_value fc)) of
           Some [label, position] \<Rightarrow>
             rbind (dict_get LTREE_INDEX_COMPARISONS (operator fc)) (\<lambda>comparison.
             rbind (py_int (we_runtime env) position) (\<lambda>i.
               Inr (Composed [SQL ''index('', path, SQL ('', %s::ltree) '' @ comparison @ '' %s'')],
                    [PStr (py_str label), PInt i])))
         | _ \<Rightarrow> Inl ValueError))"

definition build_like_pattern :: "field_condition \<Rightarrow> string" where
  "build_like_pattern fc =
     (if operator fc \<in> {''contains'', ''icontains''} then ''%'' @ py_str (fc_value fc) @ ''%''
      else if operator fc \<in> {''startswith'', ''istartswith''} then py_str (fc_value fc) @ ''%''
      else if operator fc \<in> {''endswith'', ''iendswith''} then ''%'' @ py_str (fc_value fc)
      else py_str (fc_value fc))"

text \<open>
  The filters that all three lookup strategies treat alike: the ID-based hierarchy filters
  (with the column or key the entity is named after), the coordinate filters and the three
  groups of ltree filters, whose path is typed on its own.  \<open>None\<close> means that none applies.
\<close>

definition hierarchy_sql :: "where_env \<Rightarrow> field_condition \<Rightarrow> string \<Rightarrow> composable \<Rightarrow> sql_params result" where
  "hierarchy_sql env fc entity_field path =
     (case default_entity_schema env of
        None \<Rightarrow> Inl ValueError
      | Some entity_schema \<Rightarrow>
          rbind (resolve_entity_name entity_field) (\<lambda>entity_name.
            Inr (build_hierarchy_subquery entity_schema entity_name (py_str (fc_value fc))
                   (if operator fc = ''descendant_of_id'' then ''<@'' else ''@>'') path, [])))"

definition special_sql ::
  "where_env \<Rightarrow> field_condition \<Rightarrow> string \<Rightarrow> composable \<Rightarrow> composable \<Rightarrow> sql_params result option" where
  "special_sql env fc entity_field path ltree_path =
     (if operator fc \<in> {''descendant_of_id'', ''ancestor_of_id''}
        then Some (hierarchy_sql env fc entity_field path)
      else if is_coordinate_filter fc then Some (coordinate_sql env fc path)
      else if in_keys (operator fc) LTREE_MATCH_OPERATORS then Some (ltree_match_sql fc ltree_path)
      else if in_keys (operator fc) LTREE_DEPTH_COMPARISONS then Some (ltree_depth_sql env fc ltree_path)
      else if operator fc \<in> set LTREE_FUNCTION_FILTERS then Some (ltree_function_sql env fc ltree_path)
      else None)"

definition in_list_sql :: "composable \<Rightarrow> string \<Rightarrow> string \<Rightarrow> pyval \<Rightarrow> sql_params" where
  "in_list_sql path sql_op placeholder v =
     (let values_list = list_or_single v in
      (Composed [path, SQL ('' '' @ sql_op @ '' ('' @ placeholder_list placeholder (length values_list) @ '')'')],
       values_list))"

definition null_sql :: "composable \<Rightarrow> pyval \<Rightarrow> sql_params" where
  "null_sql path v = (Composed [path, SQL ('' '' @ (if truthy v then ''IS NULL'' else ''IS NOT NULL''))], [])"

definition op_sql :: "composable \<Rightarrow> string \<Rightarrow> pyval \<Rightarrow> sql_params" where
  "op_sql path sql_op v = (Composed [path, SQL ('' '' @ sql_op @ '' ''), SQL ''%s''], [v])"

definition fk_column_sql :: "where_env \<Rightarrow> field_condition \<Rightarrow> sql_params result" where
  "fk_column_sql env fc =
     (let col = Identifier (target_column fc) in
      case special_sql env fc (target_column fc) col col of
        Some r \<Rightarrow> r
      | None \<Rightarrow>
          rbind (dict_get ALL_OPERATORS (operator fc)) (\<lambda>sql_op.
            Inr (if in_keys (operator fc) CONTAINMENT_OPERATORS then in_list_sql col sql_op ''%s'' (fc_value fc)
                 else if operator fc = ''isnull'' then null_sql col (fc_value fc)
                 else op_sql col sql_op (fc_value fc))))"

definition jsonb_expr :: "string \<Rightarrow> string list \<Rightarrow> composable" where
  "jsonb_expr col keys =
     Composed (Identifier col
       # concat (map (\<lambda>k. [SQL '' -> '', Literal (PStr k)]) (butlast keys))
       @ [SQL '' ->> '', Literal (PStr (last keys))])"

text \<open>\<open>self.temporal_cast or temporal_cast_of_value(self.value)\<close>\<close>

definition effective_cast :: "field_condition \<Rightarrow> string option" where
  "effective_cast fc =
     (case temporal_cast fc of
        Some c \<Rightarrow> if c \<noteq> [] then Some c else temporal_cast_of_value (fc_value fc)
      | None \<Rightarrow> temporal_cast_of_value (fc_value fc))"

definition network_sql :: "where_env \<Rightarrow> field_condition \<Rightarrow> composable \<Rightarrow> string option \<Rightarrow> sql_params result" where
  "network_sql env fc path jc =
     rbind (registry_build_sql (default_registry (we_runtime env) (we_distance_method env))
              (operator fc) (fc_value fc) path None jc)
       (\<lambda>r. case r of None \<Rightarrow> Inl ValueError | Some sql \<Rightarrow> Inr (sql, []))"

definition temporal_sql :: "field_condition \<Rightarrow> composable \<Rightarrow> string \<Rightarrow> string \<Rightarrow> sql_params" where
  "temporal_sql fc expr sql_op cast =
     (let values_list = list_or_single (fc_value fc);
          rhs = (if in_keys (operator fc) CONTAINMENT_OPERATORS
                 then '' '' @ sql_op @ '' ('' @ placeholder_list (''%s::'' @ cast) (length values_list) @ '')''
                 else '' '' @ sql_op @ '' %s::'' @ cast)
      in (Composed [SQL ''('', expr, SQL ('')::'' @ cast), SQL rhs], values_list))"

text \<open>The branches of the JSONB lookup after the shared filters.\<close>

definition jsonb_compare_sql :: "where_env \<Rightarrow> field_condition \<Rightarrow> composable \<Rightarrow> string \<Rightarrow> sql_params result" where
  "jsonb_compare_sql env fc expr sql_op =
     (let v = fc_value fc in
      case (if temporal_cast_operator (operator fc) then effective_cast fc else None) of
        Some cast \<Rightarrow> Inr (temporal_sql fc expr sql_op cast)
      | None \<Rightarrow>
          if in_keys (operator fc) CONTAINMENT_OPERATORS then
            Inr (in_list_sql
                   (if list_or_single v \<noteq> [] \<and> list_all is_number (list_or_single v)
                    then as_numeric expr else expr) sql_op ''%s'' v)
          else if operator fc = ''isnull'' then Inr (null_sql expr v)
          else if in_keys (operator fc) STRING_OPERATORS
            then Inr (op_sql expr sql_op (PStr (build_like_pattern fc)))
          else if in_keys (operator fc) NETWORK_OPERATORS
            then network_sql env fc expr (Some ''data'')
          else if is_number v then Inr (op_sql (as_numeric expr) sql_op v)
          else Inr (op_sql expr sql_op
                 (case v of PBool b \<Rightarrow> PStr (if b then ''true'' else ''false'') | _ \<Rightarrow> PStr (py_str v))))"

definition jsonb_path_sql :: "where_env \<Rightarrow> field_condition \<Rightarrow> sql_params result" where
  "jsonb_path_sql env fc =
     rbind (dict_get ALL_OPERATORS (operator fc)) (\<lambda>sql_op.
       case jsonb_path fc of
         None \<Rightarrow> Inl ValueError
       | Some keys \<Rightarrow>
           if keys = [] then Inl ValueError
           else let expr = jsonb_expr (target_column fc) keys in
             case special_sql env fc (last keys) expr (Composed [SQL ''('', expr, SQL '')::ltree'']) of
               Some r \<Rightarrow> r
             | None \<Rightarrow> jsonb_compare_sql env fc expr sql_op)"

definition vector_args :: "pyval \<Rightarrow> (pyval \<times> pyval \<times> pyval) result" where
  "vector_args v =
     (case v of
        PDict d \<Rightarrow>
          Inr (case map_of d ''vector'' of Some x \<Rightarrow> x | None \<Rightarrow> PNone,
               case map_of d ''threshold'' of
                 Some PNone \<Rightarrow> PFloat ''0.5'' | Some t \<Rightarrow> t | None \<Rightarrow> PFloat ''0.5'',
               case map_of d ''comparison'' of Some c \<Rightarrow> c | None \<Rightarrow> PStr ''lt'')
      | PList [vector, threshold] \<Rightarrow> Inr (vector, threshold, PStr ''lt'')
      | PTuple [vector, threshold] \<Rightarrow> Inr (vector, threshold, PStr ''lt'')
      | _ \<Rightarrow> Inl ValueError)"

definition vector_expr :: "string \<Rightarrow> string \<Rightarrow> string \<Rightarrow> string \<Rightarrow> composable" where
  "vector_expr column op escaped comp_op =
     (let col = Identifier column in
      if op \<in> set BINARY_VECTOR_OPERATORS
      then Composed [SQL ''('', col, SQL ('' '' @ escaped @ '' ''), SQL ''%s'', SQL ('') '' @ comp_op @ '' ''), SQL ''%s'']
      else Composed [SQL ''('', col, SQL ''::vector'', SQL ('' '' @ escaped @ '' ''), SQL ''%s::vector'',
                     SQL ('') '' @ comp_op @ '' ''), SQL ''%s''])"

definition vector_sql :: "field_condition \<Rightarrow> sql_params result" where
  "vector_sql fc =
     rbind (vector_args (fc_value fc)) (\<lambda>(vector, threshold, comparison).
     rbind (dict_get VECTOR_OPERATORS (operator fc)) (\<lambda>vector_op.
       let comp_op = (if comparison = PStr ''lt'' then ''<'' else if comparison = PStr ''lte'' then ''<='' else ''>'')
       in Inr (vector_expr (target_column fc) (operator fc) (replace_str ''%'' ''%%'' vector_op) comp_op,
               [vector, threshold])))"

text \<open>\<open>query:threshold\<close> or a dict; \<open>split(":", 1)\<close> cuts at the first colon.\<close>

definition rank_args :: "py_runtime \<Rightarrow> pyval \<Rightarrow> (pyval \<times> pyval) result" where
  "rank_args rt v =
     (case v of
        PDict d \<Rightarrow>
          Inr (case map_of d ''query'' of Some q \<Rightarrow> q | None \<Rightarrow> PNone,
               case map_of d ''threshold'' of Some t \<Rightarrow> t | None \<Rightarrow> PNone)
      | PStr s \<Rightarrow>
          (if CHR '':'' \<in> set s
           then rbind (py_float rt (PStr (tl (dropWhile (\<lambda>c. c \<noteq> CHR '':'') s)))) (\<lambda>t.
                  Inr (PStr (takeWhile (\<lambda>c. c \<noteq> CHR '':'') s), t))
           else Inl ValueError)
      | _ \<Rightarrow> Inl ValueError)"

definition rank_sql :: "where_env \<Rightarrow> field_condition \<Rightarrow> string \<Rightarrow> string \<Rightarrow> sql_params result" where
  "rank_sql env fc fn cmp =
     rbind (rank_args (we_runtime env) (fc_value fc)) (\<lambda>(query, threshold).
       Inr (Composed [SQL fn, Identifier (target_column fc), SQL '', to_tsquery('', SQL ''%s'',
              SQL ('')) '' @ cmp @ '' ''), SQL ''%s''], [query, threshold]))"

definition fulltext_sql :: "where_env \<Rightarrow> field_condition \<Rightarrow> sql_params result" where
  "fulltext_sql env fc =
     (let query = (\<lambda>fn. Inr (Composed [Identifier (target_column fc), SQL fn, SQL ''%s'', SQL '')''], [fc_value fc]))
      in if operator fc = ''matches'' then query '' @@ to_tsquery(''
         else if operator fc = ''plain_query'' then query '' @@ plainto_tsquery(''
         else if operator fc = ''phrase_query'' then query '' @@ phraseto_tsquery(''
         else if operator fc = ''websearch_query'' then query '' @@ websearch_to_tsquery(''
         else if operator fc \<in> {''rank_gt'', ''rank_lt''}
           then rank_sql env fc ''ts_rank('' (if operator fc = ''rank_gt'' then ''>'' else ''<'')
         else if operator fc \<in> {''rank_cd_gt'', ''rank_cd_lt''}
           then rank_sql env fc ''ts_rank_cd('' (if operator fc = ''rank_cd_gt'' then ''>'' else ''<'')
         else Inl UnboundLocalError)"

definition array_sql :: "field_condition \<Rightarrow> sql_params result" where
  "array_sql fc =
     (let col = Identifier (target_column fc) in
      if operator fc \<in> {''array_eq'', ''array_neq''}
        then Inr (op_sql col (if operator fc = ''array_eq'' then ''='' else ''!='') (fc_value fc))
      else if operator fc \<in> {''array_contains'', ''array_contained_by'', ''contained_by'', ''array_overlaps'', ''overlaps''}
        then rbind (dict_get ARRAY_OPERATORS (operator fc)) (\<lambda>op. Inr (op_sql col op (fc_value fc)))
      else if operator fc \<in> {''array_length_eq'', ''len_eq'', ''array_length_gt'', ''len_gt'', ''array_length_lt'',
                             ''len_lt'', ''array_length_gte'', ''len_gte''}
        then rbind (dict_get ARRAY_OPERATORS (operator fc)) (\<lambda>op.
               Inr (Composed [SQL ''array_length('', col, SQL '', 1) '', SQL (op @ '' ''), SQL ''%s''], [fc_value fc]))
      else if operator fc \<in> {''array_any_eq'', ''any_eq'', ''array_all_eq'', ''all_eq''}
        then Inr (Composed [SQL ''%s = '',
                    SQL ((if operator fc \<in> {''array_any_eq'', ''any_eq''} then ''ANY'' else ''ALL'') @ ''(''),
                    col, SQL '')''], [fc_value fc])
      else Inl UnboundLocalError)"

definition sql_column_sql :: "where_env \<Rightarrow> field_condition \<Rightarrow> sql_params result" where
  "sql_column_sql env fc =
     (let col = Identifier (target_column fc); v = fc_value fc in
      case special_sql env fc (target_column fc) col col of
        Some r \<Rightarrow> r
      | None \<Rightarrow>
          rbind (dict_get ALL_OPERATORS (operator fc)) (\<lambda>sql_op.
            if operator fc = ''contains'' \<and> is_list v
              then rbind (dict_get ARRAY_OPERATORS ''contains'') (\<lambda>op. Inr (op_sql col op v))
            else if in_keys (operator fc) CONTAINMENT_OPERATORS then Inr (in_list_sql col sql_op ''%s'' v)
            else if operator fc = ''isnull'' then Inr (null_sql col v)
            else if in_keys (operator fc) STRING_OPERATORS then Inr (op_sql col sql_op (PStr (build_like_pattern fc)))
            else if in_keys (operator fc) VECTOR_OPERATORS then vector_sql fc
            else if in_keys (operator fc) FULLTEXT_OPERATORS then fulltext_sql env fc
            else if in_keys (operator fc) ARRAY_OPERATORS then array_sql fc
            else if in_keys (operator fc) NETWORK_OPERATORS then network_sql env fc col None
            else Inr (op_sql col sql_op v)))"

definition condition_to_sql :: "where_env \<Rightarrow> field_condition \<Rightarrow> sql_params result" where
  "condition_to_sql env fc =
     (if lookup_strategy fc = ''fk_column'' then fk_column_sql env fc
      else if lookup_strategy fc = ''jsonb_path'' then jsonb_path_sql env fc
      else if lookup_strategy fc = ''sql_column'' then sql_column_sql env fc
      else Inl ValueError)"

subsection \<open>The clause\<close>

datatype where_clause =
  WhereClause (conditions: "field_condition list") (logical_op: string)
    (nested_clauses: "where_clause list") (not_clause: "where_clause option")

text \<open>\<open>__post_init__\<close>\<close>

definition make_clause ::
  "field_condition list \<Rightarrow> string \<Rightarrow> where_clause list \<Rightarrow> where_clause option \<Rightarrow> where_clause result" where
  "make_clause cs lop nested nc =
     (if lop \<notin> {''AND'', ''OR''} then Inl ValueError
      else if cs = [] \<and> nested = [] \<and> nc = None then Inl ValueError
      else Inr (WhereClause cs lop nested nc))"

text \<open>
  The parts of a clause, in order: the conditions, the nested clauses in parentheses, the
  negated clause; a clause that generated nothing is left out together with its parameters.
\<close>

definition clause_parts ::
  "sql_params list \<Rightarrow> (composable option \<times> pyval list) list \<Rightarrow> composable option \<times> pyval list \<Rightarrow> sql_params list" where
  "clause_parts own subs neg =
     own
     @ concat (map (\<lambda>(s, ps). case s of None \<Rightarrow> [] | Some c \<Rightarrow> [(Composed [SQL ''('', c, SQL '')''], ps)]) subs)
     @ (case neg of (None, ps) \<Rightarrow> [] | (Some c, ps) \<Rightarrow> [(Composed [SQL ''NOT ('', c, SQL '')''], ps)])"

definition combine_parts :: "string \<Rightarrow> sql_params list \<Rightarrow> composable option \<times> pyval list" where
  "combine_parts lop parts =
     (case parts of
        [] \<Rightarrow> (None, [])
      | [(sql, ps)] \<Rightarrow> (Some sql, ps)
      | _ \<Rightarrow> (Some (sql_join ('' '' @ lop @ '' '') (map fst parts)), concat (map snd parts)))"

function clause_to_sql :: "where_env \<Rightarrow> where_clause \<Rightarrow> (composable option \<times> pyval list) result" where
  "clause_to_sql env (WhereClause cs lop nested nc) =
     rbind (map_result (condition_to_sql env) cs) (\<lambda>own.
     rbind (map_result (clause_to_sql env) nested) (\<lambda>subs.
     rbind (case nc of None \<Rightarrow> Inr (None, []) | Some c \<Rightarrow> clause_to_sql env c) (\<lambda>neg.
       Inr (combine_parts lop (clause_parts own subs neg)))))"
  by pat_completeness auto
termination
  by (relation "measure (\<lambda>(_, c). size c)")
    (auto simp: size_list_estimation' less_Suc_eq_le intro: trans_le_add1)

text \<open>A clause as the constructors build it, at every level.\<close>

function clause_valid :: "where_clause \<Rightarrow> bool" where
  "clause_valid (WhereClause cs lop nested nc) =
     (lop \<in> {''AND'', ''OR''} \<and> (cs \<noteq> [] \<or> nested \<noteq> [] \<or> nc \<noteq> None)
      \<and> (\<forall>fc \<in> set cs. validate_condition fc = Inr fc)
      \<and> (\<forall>c \<in> set nested. clause_valid c) \<and> (\<forall>c \<in> set_option nc. clause_valid c))"
  by pat_completeness auto
termination
  by (relation "measure size")
    (auto simp: size_list_estimation' less_Suc_eq_le intro: trans_le_add1)

text \<open>All conditions of a clause and its sub-clauses.\<close>

function clause_conditions :: "where_clause \<Rightarrow> field_condition set" where
  "clause_conditions (WhereClause cs lop nested nc) =
     set cs \<union> (\<Union>c \<in> set nested. clause_conditions c) \<union> (\<Union>c \<in> set_option nc. clause_conditions c)"
  by pat_completeness auto
termination
  by (relation "measure size")
    (auto simp: size_list_estimation' less_Suc_eq_le intro: trans_le_add1)

end
