(* ===== verification/WhereProps.thy ===== *)
theory WhereProps
  imports WhereClause
begin

section \<open>Placeholders and raw texts of a WHERE clause\<close>

text \<open>
  Two properties of everything \<open>where_clause.py\<close> generates: the placeholders of the query are
  as many as its parameters, with the exact conditions under which they are not, and the raw
  SQL text is a word of a vocabulary that depends on no value and no column name.
\<close>

subsection \<open>Facts about the tables\<close>

lemma dict_get_mem: "dict_get d k = Inr v \<Longrightarrow> (k, v) \<in> set d"
  by (auto simp: dict_get_def of_option_def split: option.splits dest: map_of_SomeD)

lemma dict_get_ball: "list_all P d \<Longrightarrow> dict_get d k = Inr v \<Longrightarrow> P (k, v)"
  by (auto simp: list_all_iff dest: dict_get_mem)

lemma all_operators_percent:
  "list_all (\<lambda>(k, v). ph_count v = (if k = ''jaccard_distance'' then None else Some 0)
      \<and> (v = ''<%>'' \<or> CHR ''%'' \<notin> set v)) ALL_OPERATORS"
  by (simp add: ALL_OPERATORS_def operator_tables)

lemma percent_jaccard: "list_all (\<lambda>(k, v). k = ''jaccard_distance'' \<longleftrightarrow> v = ''<%>'') ALL_OPERATORS"
  by (simp add: ALL_OPERATORS_def operator_tables)

lemma other_tables_percent:
  "list_all (\<lambda>(k, v). CHR ''%'' \<notin> set v) ARRAY_OPERATORS"
  "list_all (\<lambda>(k, v). CHR ''%'' \<notin> set v) LTREE_DEPTH_COMPARISONS"
  "list_all (\<lambda>(k, v). CHR ''%'' \<notin> set v) LTREE_INDEX_COMPARISONS"
  "list_all (\<lambda>(k, v). CHR ''%'' \<notin> set (fst v) \<and> CHR ''%'' \<notin> set (snd v)) LTREE_MATCH_OPERATORS"
  "list_all (\<lambda>(k, v). ph_count (replace_str ''%'' ''%%'' v) = Some 0) VECTOR_OPERATORS"
  by (simp_all add: operator_tables startswith_def)

subsection \<open>Placeholders against parameters\<close>

text \<open>What a generator returns has as many placeholders as parameters.\<close>

definition params_match :: "sql_params result \<Rightarrow> bool" where
  "params_match r = (\<forall>sql ps. r = Inr (sql, ps) \<longrightarrow> comp_ph sql = Some (length ps))"

lemma params_match_Inr: "params_match (Inr (sql, ps)) \<longleftrightarrow> comp_ph sql = Some (length ps)"
  by (simp add: params_match_def)

lemma params_match_Inl [simp]: "params_match (Inl e)"
  by (simp add: params_match_def)

lemma params_match_rbind: "(\<And>x. r = Inr x \<Longrightarrow> params_match (f x)) \<Longrightarrow> params_match (rbind r f)"
  by (cases r) simp_all

text \<open>A path expression: its raw texts have no placeholder.\<close>

definition path_ok :: "composable \<Rightarrow> bool" where
  "path_ok path = (\<forall>t \<in> texts path. ph_count t = Some 0)"

lemma path_ok_comp_ph: "path_ok path \<Longrightarrow> comp_ph path = Some 0"
  by (simp add: path_ok_def comp_ph_zero)

lemma path_ok_Identifier [simp]: "path_ok (Identifier c)"
  by (simp add: path_ok_def)

lemma path_ok_jsonb_expr [simp]: "path_ok (jsonb_expr col ks)"
  by (auto simp: path_ok_def jsonb_expr_def)

lemma path_ok_as_numeric [simp]: "path_ok e \<Longrightarrow> path_ok (as_numeric e)"
  by (auto simp: path_ok_def as_numeric_def)

lemma path_ok_ltree [simp]: "path_ok e \<Longrightarrow> path_ok (Composed [SQL ''('', e, SQL '')::ltree''])"
  by (auto simp: path_ok_def)

lemma ph_count_op: "CHR ''%'' \<notin> set op \<Longrightarrow> ph_count ('' '' @ op @ '' '') = Some 0"
  by (simp add: ph_count_no_percent)

lemma ph_count_cons: "c \<noteq> CHR ''%'' \<Longrightarrow> ph_count (c # s) = ph_count s"
  by (cases s) simp_all

lemma ph_count_skip: "CHR ''%'' \<notin> set a \<Longrightarrow> ph_count (a @ b) = ph_count b"
  by (simp add: ph_count_append [OF ph_count_no_percent])

lemma hierarchy_match: "path_ok path \<Longrightarrow> params_match (hierarchy_sql env fc entity path)"
  unfolding hierarchy_sql_def
  by (auto simp: params_match_Inr build_hierarchy_subquery_def Let_def path_ok_comp_ph
      split: option.split intro!: params_match_rbind)

lemma coordinate_plain: "coordinate rt v = Inr w \<Longrightarrow> plain w"
  by (auto simp: coordinate_def parse_coordinate_value_def rbind_eq_Inr
      dest!: float_between_cases split: if_splits)

lemma coordinate_distance_plain: "coordinate_distance rt v = Inr w \<Longrightarrow> plain w"
  unfolding coordinate_distance_def
  by (auto simp: rbind_eq_Inr dest!: coordinate_plain py_float_cases split: if_splits)

lemma coordinate_value_plain:
  assumes "coordinate_value rt op v = Inr w"
  shows "plain w"
proof -
  have items: "\<forall>c \<in> set cs. plain c" if "map_result (coordinate rt) vs = Inr cs" for vs cs
    using map_result_set [OF that] coordinate_plain by blast
  consider "coordinate_distance rt v = Inr w" | "coordinate rt v = Inr w"
    | vs cs where "map_result (coordinate rt) vs = Inr cs" "w = PList cs"
    using assms unfolding coordinate_value_def
    by (cases "seq_items v") (auto simp: rbind_eq_Inr split: if_splits)
  then show ?thesis
    by cases (use items coordinate_plain coordinate_distance_plain in \<open>auto\<close>)
qed

lemma coordinate_match:
  assumes "path_ok path"
  shows "params_match (coordinate_sql env fc path)"
proof -
  have zero: "comp_ph c = Some 0"
    if "coordinate_build rt meth op v path None None = Inr (Some c)" "plain v" for rt meth op v c
    by (rule coordinate_strat.build_no_placeholders [of v rt meth op path None None])
      (use that assms in \<open>auto simp: coordinate_strategy_def path_ok_def\<close>)
  show ?thesis
    unfolding coordinate_sql_def Let_def
    by (rule params_match_rbind)
      (auto simp: catch_coordinate_def rbind_eq_Inr params_match_Inr
        dest: coordinate_value_plain zero split: sum.splits option.split)
qed

lemma ltree_match_match:
  assumes "path_ok path"
  shows "params_match (ltree_match_sql fc path)"
proof -
  have "ph_count ('' '' @ sop @ '' %s::'' @ ty) = Some 1"
    if "CHR ''%'' \<notin> set sop" "CHR ''%'' \<notin> set ty" for sop ty
  proof -
    have "ph_count ('' '' @ sop @ '' %s::'' @ ty) = ph_count (('' '' @ sop @ '' '') @ ''%s::'' @ ty)" by simp
    also have "\<dots> = ph_count (''%s::'' @ ty)" using that by (intro ph_count_skip) simp
    also have "\<dots> = Some 1" using that by (simp add: ph_count_cons ph_count_no_percent)
    finally show ?thesis .
  qed
  then show ?thesis
    unfolding ltree_match_sql_def
    by (intro params_match_rbind)
      (auto simp: params_match_Inr path_ok_comp_ph [OF assms] dest!: dict_get_ball [OF other_tables_percent(4)]
        intro!: params_match_rbind)
qed

lemma ltree_depth_match:
  assumes "path_ok path"
  shows "params_match (ltree_depth_sql env fc path)"
  unfolding ltree_depth_sql_def
  by (intro params_match_rbind)
    (auto simp: params_match_Inr path_ok_comp_ph [OF assms] ph_count_cons ph_count_no_percent
      dest!: dict_get_ball [OF other_tables_percent(2)])

lemma ltree_function_match:
  assumes "path_ok path"
  shows "params_match (ltree_function_sql env fc path)"
proof -
  have lca: "ph_count ('' = lca(ARRAY['' @ placeholder_list ''%s::ltree'' n @ ''])'') = Some n" for n
    using ph_count_append_Some [OF ph_count_placeholder_list [of "''%s::ltree''" n], of "''])''" 0]
    by (simp add: ph_count_cons)
  have ix: "ph_count ('', %s::ltree) '' @ c @ '' %s'') = Some 2" if "CHR ''%'' \<notin> set c" for c
    using ph_count_append_Some [of "'', %s::ltree) ''" 1 "c @ '' %s''" 1] that
    by (simp add: ph_count_cons ph_count_skip)
  have index: "params_match
      (rbind (dict_get LTREE_INDEX_COMPARISONS (operator fc)) (\<lambda>comparison.
       rbind (py_int (we_runtime env) position) (\<lambda>i.
         Inr (Composed [SQL ''index('', path, SQL ('', %s::ltree) '' @ comparison @ '' %s'')],
              [PStr (py_str label), PInt i]))))" for label position
    by (intro params_match_rbind)
      (auto simp: params_match_Inr path_ok_comp_ph [OF assms] ix [simplified]
        dest!: dict_get_ball [OF other_tables_percent(3)])
  show ?thesis
    unfolding ltree_function_sql_def
    using lca index by (auto simp: params_match_Inr path_ok_comp_ph [OF assms] split: option.split list.split)
qed

lemma special_match:
  assumes "special_sql env fc entity path ltree_path = Some r" "path_ok path" "path_ok ltree_path"
  shows "params_match r"
  using assms hierarchy_match coordinate_match ltree_match_match ltree_depth_match ltree_function_match
  by (auto simp: special_sql_def split: if_splits)

lemma in_list_match:
  assumes "path_ok path" "CHR ''%'' \<notin> set sop" "ph_count p = Some 1"
  shows "params_match (Inr (in_list_sql path sop p v))"
proof -
  let ?n = "length (list_or_single v)"
  have "ph_count (('' '' @ sop @ '' ('') @ placeholder_list p ?n @ '')'') = ph_count (placeholder_list p ?n @ '')'')"
    using assms(2) by (intro ph_count_skip) simp
  also have "\<dots> = Some ?n"
    using ph_count_append_Some [OF ph_count_placeholder_list [OF assms(3)], of "'')''" 0] by simp
  finally show ?thesis
    by (simp add: in_list_sql_def Let_def params_match_Inr path_ok_comp_ph [OF assms(1)])
qed

lemma null_match: "path_ok path \<Longrightarrow> params_match (Inr (null_sql path v))"
  by (simp add: null_sql_def params_match_Inr path_ok_comp_ph)

lemma op_match: "path_ok path \<Longrightarrow> CHR ''%'' \<notin> set sop \<Longrightarrow> params_match (Inr (op_sql path sop v))"
  using ph_count_op [of sop] by (simp add: op_sql_def params_match_Inr path_ok_comp_ph)

text \<open>The operator of the Jaccard distance reads as a broken placeholder when it is not escaped.\<close>

lemma op_jaccard: "\<not> params_match (Inr (op_sql path ''<%>'' v))"
  by (cases "comp_ph path") (simp_all add: op_sql_def params_match_Inr)

lemma network_match:
  assumes "path_ok path" "plain (fc_value fc)"
  shows "params_match (network_sql env fc path jc)"
proof -
  have "comp_ph c = Some 0"
    if "registry_build_sql (default_registry rt meth) op (fc_value fc) path None jc = Inr (Some c)" for rt meth op c
    by (rule default_reg.registry_no_placeholders [OF assms(2) that]) (use assms(1) in \<open>simp add: path_ok_def\<close>)
  then show ?thesis
    unfolding network_sql_def
    by (intro params_match_rbind) (auto simp: params_match_Inr split: option.split)
qed

lemma vector_match: "params_match (vector_sql fc)"
proof -
  have esc: "ph_count ('' '' @ replace_str ''%'' ''%%'' w @ '' '') = Some 0"
    if "dict_get VECTOR_OPERATORS op = Inr w" for op w
    using dict_get_ball [OF other_tables_percent(5) that]
      ph_count_append_Some [of "replace_str ''%'' ''%%'' w" 0 "'' ''" 0]
    by (simp add: ph_count_cons)
  show ?thesis
    unfolding vector_sql_def vector_expr_def
    by (auto simp: params_match_Inr Let_def split: prod.split intro!: params_match_rbind)
      (auto dest!: esc simp: numeral_2_eq_2)
qed

lemma rank_match:
  assumes "ph_count fn = Some 0" "CHR ''%'' \<notin> set cmp"
  shows "params_match (rank_sql env fc fn cmp)"
proof -
  have "ph_count ('')) '' @ cmp @ '' '') = Some 0" using assms(2) by (simp add: ph_count_no_percent)
  with assms(1) show ?thesis
    unfolding rank_sql_def
    by (auto simp: params_match_Inr numeral_2_eq_2 split: prod.split intro!: params_match_rbind)
qed

lemma fulltext_match: "params_match (fulltext_sql env fc)"
  unfolding fulltext_sql_def Let_def
  by (simp add: params_match_Inr) (auto intro!: rank_match)

lemma array_match: "params_match (array_sql fc)"
proof -
  have op: "CHR ''%'' \<notin> set w" if "dict_get ARRAY_OPERATORS op = Inr w" for op w
    using dict_get_ball [OF other_tables_percent(1) that] by simp
  have len: "ph_count (w @ '' '') = Some 0" if "dict_get ARRAY_OPERATORS op = Inr w" for op w
    using op [OF that] by (simp add: ph_count_no_percent)
  show ?thesis
    unfolding array_sql_def Let_def
    by (auto intro!: params_match_rbind op_match dest: op) (auto simp: params_match_Inr dest!: len)
qed

text \<open>The casts a field annotation sets, and the one a value asks for.\<close>

definition cast_ok :: "field_condition \<Rightarrow> bool" where
  "cast_ok fc = (temporal_cast fc \<in> {None, Some ''timestamptz'', Some ''date'', Some ''ltree'', Some ''point''})"

lemma single_or_None: "set xs \<subseteq> insert None S \<Longrightarrow> (case xs of [c] \<Rightarrow> c | _ \<Rightarrow> None) \<in> insert None S"
  by (auto split: list.split)

lemma temporal_cast_of_value_range:
  "temporal_cast_of_value v \<in> {None, Some ''timestamptz'', Some ''date''}"
proof (induction v rule: temporal_cast_of_value.induct)
  case (1 vs)
  have "set (remdups (map temporal_cast_of_value vs)) \<subseteq> {None, Some ''timestamptz'', Some ''date''}"
    unfolding set_remdups set_map by (intro image_subsetI 1)
  then show ?case unfolding temporal_cast_of_value.simps by (rule single_or_None)
next
  case (2 vs)
  have "set (remdups (map temporal_cast_of_value vs)) \<subseteq> {None, Some ''timestamptz'', Some ''date''}"
    unfolding set_remdups set_map by (intro image_subsetI 2)
  then show ?case unfolding temporal_cast_of_value.simps by (rule single_or_None)
qed (simp_all)

lemma effective_cast_range:
  assumes "cast_ok fc" "effective_cast fc = Some c"
  shows "c \<in> {''timestamptz'', ''date'', ''ltree'', ''point''}"
  using assms temporal_cast_of_value_range [of "fc_value fc"]
  by (auto simp: effective_cast_def cast_ok_def split: option.splits if_splits)

lemma temporal_match:
  assumes "path_ok expr" "CHR ''%'' \<notin> set sop" "CHR ''%'' \<notin> set cast"
  shows "params_match (Inr (temporal_sql fc expr sop cast)) \<longleftrightarrow>
           in_keys (operator fc) CONTAINMENT_OPERATORS \<or> length (list_or_single (fc_value fc)) = 1"
proof -
  let ?n = "length (list_or_single (fc_value fc))"
  have one: "ph_count (''%s::'' @ cast) = Some 1" using assms(3) by (simp add: ph_count_cons ph_count_no_percent)
  have "ph_count (('' '' @ sop @ '' ('') @ placeholder_list (''%s::'' @ cast) ?n @ '')'')
      = ph_count (placeholder_list (''%s::'' @ cast) ?n @ '')'')"
    using assms(2) by (intro ph_count_skip) simp
  also have "\<dots> = Some ?n"
    using ph_count_append_Some [OF ph_count_placeholder_list [OF one], of "'')''" 0] by simp
  finally have many: "ph_count ('' '' @ sop @ '' ('' @ placeholder_list (''%s::'' @ cast) ?n @ '')'') = Some ?n"
    by simp
  have "ph_count (('' '' @ sop @ '' '') @ ''%s::'' @ cast) = Some 1"
    using one assms(2) by (subst ph_count_skip) simp_all
  then have single: "ph_count ('' '' @ sop @ '' %s::'' @ cast) = Some 1" by simp
  have "ph_count ('')::'' @ cast) = Some 0" using assms(3) by (simp add: ph_count_no_percent)
  with many single show ?thesis
    by (auto simp: temporal_sql_def Let_def params_match_Inr path_ok_comp_ph [OF assms(1)])
qed

subsection \<open>When the parameters match\<close>

text \<open>
  The two cases in which they do not: the Jaccard operator on a foreign key or JSONB lookup
  (its percent sign is only escaped for a direct column), and a date comparison of a JSONB
  field with a list of other than one value (one placeholder, one parameter per value).
\<close>

definition balanced :: "field_condition \<Rightarrow> bool" where
  "balanced fc =
     (\<not> (operator fc = ''jaccard_distance'' \<and> lookup_strategy fc \<noteq> ''sql_column'') \<and>
      \<not> (lookup_strategy fc = ''jsonb_path'' \<and> in_keys (operator fc) COMPARISON_OPERATORS \<and>
          \<not> is_coordinate_filter fc \<and> effective_cast fc \<noteq> None \<and>
          length (list_or_single (fc_value fc)) \<noteq> 1))"

lemma special_operators:
  "list_all (\<lambda>k. k \<noteq> ''jaccard_distance'' \<and> \<not> in_keys k COMPARISON_OPERATORS)
     ([''descendant_of_id'', ''ancestor_of_id''] @ map fst LTREE_MATCH_OPERATORS
      @ map fst LTREE_DEPTH_COMPARISONS @ LTREE_FUNCTION_FILTERS)"
  by (simp add: in_keys_def operator_tables)

lemma coordinate_filter_not_jaccard: "is_coordinate_filter fc \<Longrightarrow> operator fc \<noteq> ''jaccard_distance''"
  by (auto simp: is_coordinate_filter_def COORDINATE_FIELD_OPERATORS_def)

lemma special_balanced:
  assumes "special_sql env fc entity path lpath = Some r"
  shows "balanced fc"
proof (cases "is_coordinate_filter fc")
  case True
  then show ?thesis using coordinate_filter_not_jaccard by (auto simp: balanced_def)
next
  case False
  with assms have "operator fc \<in> set ([''descendant_of_id'', ''ancestor_of_id''] @ map fst LTREE_MATCH_OPERATORS
      @ map fst LTREE_DEPTH_COMPARISONS @ LTREE_FUNCTION_FILTERS)"
    unfolding special_sql_def in_keys_def by (auto split: if_splits)
  with special_operators have "operator fc \<noteq> ''jaccard_distance'' \<and> \<not> in_keys (operator fc) COMPARISON_OPERATORS"
    unfolding list_all_iff by blast
  then show ?thesis by (simp add: balanced_def)
qed

lemma special_None_not_coordinate:
  "special_sql env fc entity path lpath = None \<Longrightarrow> \<not> is_coordinate_filter fc"
  unfolding special_sql_def by (auto split: if_splits)

lemma all_operator_cases:
  assumes "dict_get ALL_OPERATORS op = Inr sop"
  shows "op = ''jaccard_distance'' \<and> sop = ''<%>'' \<or> op \<noteq> ''jaccard_distance'' \<and> CHR ''%'' \<notin> set sop"
  using dict_get_ball [OF all_operators_percent assms] dict_get_ball [OF percent_jaccard assms] by auto

lemma jaccard_keys:
  "\<not> in_keys ''jaccard_distance'' CONTAINMENT_OPERATORS" "\<not> in_keys ''jaccard_distance'' COMPARISON_OPERATORS"
  "\<not> in_keys ''jaccard_distance'' STRING_OPERATORS" "\<not> in_keys ''jaccard_distance'' NETWORK_OPERATORS"
  "\<not> temporal_cast_operator ''jaccard_distance''" "in_keys ''jaccard_distance'' VECTOR_OPERATORS"
  by (simp_all add: in_keys_def operator_tables temporal_cast_operator_def)

lemma fk_column_match:
  assumes "lookup_strategy fc = ''fk_column''" "fk_column_sql env fc = Inr x"
  shows "params_match (Inr x) \<longleftrightarrow> balanced fc"
proof (cases "special_sql env fc (target_column fc) (Identifier (target_column fc)) (Identifier (target_column fc))")
  case (Some r)
  with assms(2) have "r = Inr x" by (simp add: fk_column_sql_def)
  with Some special_balanced special_match [OF Some] show ?thesis by auto
next
  case None
  with assms(2) obtain sop where sop: "dict_get ALL_OPERATORS (operator fc) = Inr sop" and
    x: "x = (if in_keys (operator fc) CONTAINMENT_OPERATORS
             then in_list_sql (Identifier (target_column fc)) sop ''%s'' (fc_value fc)
             else if operator fc = ''isnull'' then null_sql (Identifier (target_column fc)) (fc_value fc)
             else op_sql (Identifier (target_column fc)) sop (fc_value fc))"
    by (auto simp: fk_column_sql_def Let_def rbind_eq_Inr)
  show ?thesis
    using all_operator_cases [OF sop] assms(1) in_list_match null_match op_match op_jaccard jaccard_keys
    unfolding x balanced_def by auto
qed

lemma temporal_cases:
  assumes "temporal_cast_operator op" "\<not> in_keys op CONTAINMENT_OPERATORS"
  shows "in_keys op COMPARISON_OPERATORS"
  using assms by (simp add: temporal_cast_operator_def)

lemma comparison_not_containment: "in_keys op COMPARISON_OPERATORS \<Longrightarrow> \<not> in_keys op CONTAINMENT_OPERATORS"
  by (auto simp: in_keys_def COMPARISON_OPERATORS_def CONTAINMENT_OPERATORS_def)

lemma comparison_not_jaccard: "in_keys op COMPARISON_OPERATORS \<Longrightarrow> op \<noteq> ''jaccard_distance''"
  using jaccard_keys by blast

text \<open>The branches of the JSONB lookup after the filters that all strategies share.\<close>

lemma jsonb_temporal_match:
  assumes "lookup_strategy fc = ''jsonb_path''" "cast_ok fc" "\<not> is_coordinate_filter fc"
    and sop: "dict_get ALL_OPERATORS (operator fc) = Inr sop"
    and cast: "temporal_cast_operator (operator fc)" "effective_cast fc = Some c"
  shows "params_match (Inr (temporal_sql fc (jsonb_expr col ks) sop c)) \<longleftrightarrow> balanced fc"
proof -
  have nj: "operator fc \<noteq> ''jaccard_distance''" using cast(1) jaccard_keys(5) by auto
  with all_operator_cases [OF sop] have p: "CHR ''%'' \<notin> set sop" by blast
  have c: "CHR ''%'' \<notin> set c" using effective_cast_range [OF assms(2) cast(2)] by auto
  show ?thesis
    unfolding temporal_match [OF path_ok_jsonb_expr p c] balanced_def
    using assms(1,3) cast nj comparison_not_containment temporal_cases by auto
qed

lemma jsonb_compare_match:
  assumes "lookup_strategy fc = ''jsonb_path''" "cast_ok fc" "plain (fc_value fc)" "\<not> is_coordinate_filter fc"
    and sop: "dict_get ALL_OPERATORS (operator fc) = Inr sop"
    and x: "jsonb_compare_sql env fc (jsonb_expr col ks) sop = Inr x"
  shows "params_match (Inr x) \<longleftrightarrow> balanced fc"
proof (cases "if temporal_cast_operator (operator fc) then effective_cast fc else None")
  case (Some c)
  then have c: "temporal_cast_operator (operator fc)" "effective_cast fc = Some c" by (auto split: if_splits)
  from x Some have "x = temporal_sql fc (jsonb_expr col ks) sop c" by (simp add: jsonb_compare_sql_def)
  with jsonb_temporal_match [OF assms(1,2,4) sop c] show ?thesis by simp
next
  case None
  note x = x [unfolded jsonb_compare_sql_def None option.case Let_def]
  show ?thesis
  proof (cases "operator fc = ''jaccard_distance''")
    case True
    with all_operator_cases [OF sop] have "sop = ''<%>''" by blast
    with x True have "\<not> params_match (Inr x)"
      using op_jaccard jaccard_keys by (auto split: if_splits)
    with True assms(1) show ?thesis by (simp add: balanced_def)
  next
    case False
    with all_operator_cases [OF sop] have p: "CHR ''%'' \<notin> set sop" by blast
    have "balanced fc"
      using False None by (auto simp: balanced_def temporal_cast_operator_def split: if_splits)
    moreover have "params_match (Inr x)"
      using x network_match [OF path_ok_jsonb_expr assms(3), of env col ks "Some ''data''"]
        in_list_match [OF _ p] null_match op_match [OF _ p]
      by (auto split: if_splits)
    ultimately show ?thesis by blast
  qed
qed

lemma jsonb_path_match:
  assumes "lookup_strategy fc = ''jsonb_path''" "cast_ok fc" "plain (fc_value fc)" "jsonb_path_sql env fc = Inr x"
  shows "params_match (Inr x) \<longleftrightarrow> balanced fc"
proof -
  obtain sop ks where sop: "dict_get ALL_OPERATORS (operator fc) = Inr sop" and ks: "jsonb_path fc = Some ks" "ks \<noteq> []"
    using assms(4) by (auto simp: jsonb_path_sql_def rbind_eq_Inr split: option.splits if_splits)
  define e where "e = jsonb_expr (target_column fc) ks"
  note x = assms(4) [unfolded jsonb_path_sql_def sop ks(1) rbind_simps option.case Let_def, folded e_def]
  show ?thesis
  proof (cases "special_sql env fc (last ks) e (Composed [SQL ''('', e, SQL '')::ltree''])")
    case (Some r)
    with x ks(2) have "r = Inr x" by simp
    with Some special_balanced special_match [OF Some] show ?thesis by (auto simp: e_def)
  next
    case None
    with x ks(2) have "jsonb_compare_sql env fc e sop = Inr x" by simp
    from jsonb_compare_match [OF assms(1-3) special_None_not_coordinate [OF None] sop this [unfolded e_def]]
    show ?thesis .
  qed
qed

lemma sql_column_match:
  assumes "lookup_strategy fc = ''sql_column''" "plain (fc_value fc)" "sql_column_sql env fc = Inr x"
  shows "params_match (Inr x) \<and> balanced fc"
proof
  show "balanced fc" using assms(1) by (simp add: balanced_def)
  show "params_match (Inr x)"
  proof (cases "special_sql env fc (target_column fc) (Identifier (target_column fc)) (Identifier (target_column fc))")
    case (Some r)
    with assms(3) have "r = Inr x" by (simp add: sql_column_sql_def)
    with Some special_match [OF Some] show ?thesis by auto
  next
    case None
    with assms(3) obtain sop where sop: "dict_get ALL_OPERATORS (operator fc) = Inr sop"
      by (auto simp: sql_column_sql_def Let_def rbind_eq_Inr)
    have arr: "CHR ''%'' \<notin> set w" if "dict_get ARRAY_OPERATORS op = Inr w" for op w
      using dict_get_ball [OF other_tables_percent(1) that] by simp
    have p: "CHR ''%'' \<notin> set sop \<or> in_keys (operator fc) VECTOR_OPERATORS
        \<and> operator fc \<noteq> ''contains'' \<and> operator fc \<noteq> ''isnull'' \<and> \<not> in_keys (operator fc) CONTAINMENT_OPERATORS
        \<and> \<not> in_keys (operator fc) STRING_OPERATORS"
      using all_operator_cases [OF sop] jaccard_keys by auto
    from assms(3) None sop p show ?thesis
      using in_list_match null_match op_match vector_match [of fc] fulltext_match [of env fc] array_match [of fc]
        network_match [OF path_ok_Identifier assms(2), of env "target_column fc" None] arr
      by (auto simp: sql_column_sql_def Let_def rbind_eq_Inr split: if_splits)
  qed
qed

lemma condition_match:
  assumes "plain (fc_value fc)" "cast_ok fc" "condition_to_sql env fc = Inr (sql, ps)"
  shows "comp_ph sql = Some (length ps) \<longleftrightarrow> balanced fc"
  unfolding params_match_Inr [symmetric]
  using assms fk_column_match jsonb_path_match sql_column_match
  by (auto simp: condition_to_sql_def split: if_splits)

text \<open>
  Parameters of one condition.  For a condition with a plain value and one of the declared
  casts, the generated SQL has exactly one placeholder for each parameter if and only if the
  condition is \<open>balanced\<close>; in the two unbalanced cases psycopg cannot bind the query.
\<close>

theorem condition_placeholders:
  assumes "plain (fc_value fc)" "cast_ok fc" "condition_to_sql env fc = Inr (sql, ps)"
  shows "comp_ph sql = Some (length ps) \<longleftrightarrow> balanced fc"
  using assms by (rule condition_match)

definition example_env :: where_env where
  "example_env = \<lparr>we_runtime = example_runtime, we_distance_method = ''haversine'', default_entity_schema = Some ''tenant''\<rparr>"

definition example_condition :: "string \<Rightarrow> pyval \<Rightarrow> field_condition" where
  "example_condition op v = \<lparr>field_path = [''created_at''], operator = op, fc_value = v,
     lookup_strategy = ''jsonb_path'', target_column = ''data'', jsonb_path = Some [''created_at''], temporal_cast = None\<rparr>"

lemma eq_tables:
  "dict_get ALL_OPERATORS ''eq'' = Inr ''=''" "in_keys ''eq'' COMPARISON_OPERATORS" "temporal_cast_operator ''eq''"
  "\<not> in_keys ''eq'' LTREE_MATCH_OPERATORS" "\<not> in_keys ''eq'' LTREE_DEPTH_COMPARISONS"
  "''eq'' \<notin> set LTREE_FUNCTION_FILTERS"
  by code_simp+

lemma example_condition_simps [simp]:
  "operator (example_condition op v) = op" "fc_value (example_condition op v) = v"
  "lookup_strategy (example_condition op v) = ''jsonb_path''" "target_column (example_condition op v) = ''data''"
  "jsonb_path (example_condition op v) = Some [''created_at'']" "temporal_cast (example_condition op v) = None"
  by (simp_all add: example_condition_def)

lemma example_eq:
  assumes "temporal_cast_of_value v = Some ''date''"
  shows "\<exists>r. condition_to_sql example_env (example_condition ''eq'' v) = Inr r"
    and "cast_ok (example_condition ''eq'' v)"
    and "balanced (example_condition ''eq'' v) \<longleftrightarrow> length (list_or_single v) = 1"
proof -
  have nc: "\<not> is_coordinate_filter (example_condition ''eq'' v)" by (simp add: is_coordinate_filter_def)
  have ec: "effective_cast (example_condition ''eq'' v) = Some ''date''" using assms by (simp add: effective_cast_def)
  show "\<exists>r. condition_to_sql example_env (example_condition ''eq'' v) = Inr r"
    by (simp add: condition_to_sql_def jsonb_path_sql_def jsonb_compare_sql_def eq_tables special_sql_def nc ec Let_def)
  show "cast_ok (example_condition ''eq'' v)" by (simp add: cast_ok_def)
  show "balanced (example_condition ''eq'' v) \<longleftrightarrow> length (list_or_single v) = 1"
    by (simp add: balanced_def eq_tables nc ec)
qed

theorem condition_placeholders_witness:
  "let d = PDate ''2024-01-31'' ''datetime.date(2024, 1, 31)'' in
     (\<exists>sql ps. condition_to_sql example_env (example_condition ''eq'' d) = Inr (sql, ps)
        \<and> comp_ph sql = Some (length ps))
   \<and> (\<exists>sql ps. condition_to_sql example_env (example_condition ''eq'' (PList [d, d])) = Inr (sql, ps)
        \<and> comp_ph sql \<noteq> Some (length ps))"
proof -
  let ?d = "PDate ''2024-01-31'' ''datetime.date(2024, 1, 31)''"
  have cast: "temporal_cast_of_value ?d = Some ''date''" "temporal_cast_of_value (PList [?d, ?d]) = Some ''date''"
    by simp_all
  have plain: "plain ?d" "plain (PList [?d, ?d])" by simp_all
  obtain sql ps where one: "condition_to_sql example_env (example_condition ''eq'' ?d) = Inr (sql, ps)"
    using example_eq(1) [OF cast(1)] by auto
  obtain sql2 ps2 where two: "condition_to_sql example_env (example_condition ''eq'' (PList [?d, ?d])) = Inr (sql2, ps2)"
    using example_eq(1) [OF cast(2)] by auto
  have "comp_ph sql = Some (length ps)"
    using condition_placeholders [OF _ example_eq(2) [OF cast(1)] one] plain example_eq(3) [OF cast(1)]
    by (simp add: list_or_single_def)
  moreover have "comp_ph sql2 \<noteq> Some (length ps2)"
    using condition_placeholders [OF _ example_eq(2) [OF cast(2)] two] plain example_eq(3) [OF cast(2)]
    by (simp add: list_or_single_def)
  ultimately show ?thesis using one two unfolding Let_def by blast
qed

end
