(* ===== verification/ClauseProps.thy ===== *)
theory ClauseProps
  imports WhereProps
begin

section \<open>Properties of whole clauses\<close>

text \<open>
  Properties of conditions lifted to clauses.  The locale \<open>clause_contract\<close> is the interface: a
  property of generated queries that every admitted condition has, and that parentheses,
  negation and joining keep, holds for the query of every clause.  It is interpreted for the
  match of placeholders and parameters and for the vocabulary of raw texts.
\<close>

lemma clause_to_sql_cases:
  assumes "clause_to_sql env (WhereClause cs lop nested nc) = Inr r"
  obtains own subs neg where
    "map_result (condition_to_sql env) cs = Inr own"
    "map_result (clause_to_sql env) nested = Inr subs"
    "(case nc of None \<Rightarrow> Inr (None, []) | Some c \<Rightarrow> clause_to_sql env c) = Inr neg"
    "r = combine_parts lop (clause_parts own subs neg)"
  using assms by (auto simp: rbind_eq_Inr)

lemma clause_valid_sub:
  assumes "clause_valid (WhereClause cs lop nested nc)"
  shows "lop \<in> {''AND'', ''OR''}" "d \<in> set nested \<Longrightarrow> clause_valid d" "nc = Some e \<Longrightarrow> clause_valid e"
    "cs \<noteq> [] \<or> nested \<noteq> [] \<or> nc \<noteq> None" "\<forall>fc \<in> set cs. validate_condition fc = Inr fc"
  using assms by simp_all

lemma clause_conditions_sub:
  "set cs \<subseteq> clause_conditions (WhereClause cs lop nested nc)"
  "d \<in> set nested \<Longrightarrow> clause_conditions d \<subseteq> clause_conditions (WhereClause cs lop nested nc)"
  "nc = Some e \<Longrightarrow> clause_conditions e \<subseteq> clause_conditions (WhereClause cs lop nested nc)"
  by auto

lemma combine_parts_cases:
  assumes "combine_parts lop parts = (Some s, ps)"
  obtains "parts = [(s, ps)]"
    | "s = sql_join ('' '' @ lop @ '' '') (map fst parts)" "ps = concat (map snd parts)"
  using assms by (auto simp: combine_parts_def split: list.splits prod.splits)

lemma clause_parts_cases:
  assumes "x \<in> set (clause_parts own subs neg)"
  obtains "x \<in> set own"
    | c ps where "(Some c, ps) \<in> set subs" "x = (Composed [SQL ''('', c, SQL '')''], ps)"
    | c ps where "neg = (Some c, ps)" "x = (Composed [SQL ''NOT ('', c, SQL '')''], ps)"
  using assms by (cases neg) (fastforce simp: clause_parts_def split: option.splits)

locale clause_contract =
  fixes env :: where_env and admit :: "field_condition \<Rightarrow> bool" and good :: "sql_params \<Rightarrow> bool"
  assumes condition: "admit fc \<Longrightarrow> condition_to_sql env fc = Inr x \<Longrightarrow> good x"
    and wrap: "good (c, ps) \<Longrightarrow> good (Composed [SQL ''('', c, SQL '')''], ps)"
    and negate: "good (c, ps) \<Longrightarrow> good (Composed [SQL ''NOT ('', c, SQL '')''], ps)"
    and join: "lop \<in> {''AND'', ''OR''} \<Longrightarrow> \<forall>x \<in> set parts. good x \<Longrightarrow>
      good (sql_join ('' '' @ lop @ '' '') (map fst parts), concat (map snd parts))"
begin

lemma combine: "lop \<in> {''AND'', ''OR''} \<Longrightarrow> \<forall>x \<in> set parts. good x \<Longrightarrow>
    combine_parts lop parts = (Some s, ps) \<Longrightarrow> good (s, ps)"
  using join [of lop parts] by (elim combine_parts_cases) (simp_all del: append.simps insert_iff)

lemma clause_good:
  "clause_valid c \<Longrightarrow> \<forall>fc \<in> clause_conditions c. admit fc \<Longrightarrow>
   clause_to_sql env c = Inr (Some s, ps) \<Longrightarrow> good (s, ps)"
proof (induction c arbitrary: s ps)
  case (WhereClause cs lop nested nc)
  note valid = clause_valid_sub [OF WhereClause.prems(1)]
  from WhereClause.prems(3) obtain own subs neg where
    own: "map_result (condition_to_sql env) cs = Inr own" and
    subs: "map_result (clause_to_sql env) nested = Inr subs" and
    neg: "(case nc of None \<Rightarrow> Inr (None, []) | Some c \<Rightarrow> clause_to_sql env c) = Inr neg" and
    r: "combine_parts lop (clause_parts own subs neg) = (Some s, ps)"
    by (rule clause_to_sql_cases) simp
  have "good x" if "x \<in> set (clause_parts own subs neg)" for x
    using that
  proof (cases rule: clause_parts_cases)
    case 1
    with map_result_set [OF own] obtain fc where fc: "fc \<in> set cs" "condition_to_sql env fc = Inr x" by blast
    with WhereClause.prems(2) clause_conditions_sub(1) have "admit fc" by blast
    with fc(2) show ?thesis by (rule condition [rotated])
  next
    case (2 c qs)
    with map_result_set [OF subs] obtain d where d: "d \<in> set nested" "clause_to_sql env d = Inr (Some c, qs)" by blast
    have "\<forall>fc \<in> clause_conditions d. admit fc" using WhereClause.prems(2) clause_conditions_sub(2) [OF d(1)] by blast
    from WhereClause.IH(1) [OF d(1) valid(2) [OF d(1)] this d(2)] 2(2) show ?thesis by (simp add: wrap)
  next
    case (3 c qs)
    with neg obtain e where e: "nc = Some e" "clause_to_sql env e = Inr (Some c, qs)" by (cases nc) auto
    have "\<forall>fc \<in> clause_conditions e. admit fc" using WhereClause.prems(2) clause_conditions_sub(3) [OF e(1)] by blast
    from WhereClause.IH(2) [of e, OF _ valid(3) [OF e(1)] this e(2)] e(1) 3(2) show ?thesis by (simp add: negate)
  qed
  with r valid(1) show ?case by (blast intro: combine)
qed

end

subsection \<open>Parameters\<close>

lemma sum_ph_lengths:
  assumes "\<forall>x \<in> set parts. comp_ph (fst x) = Some (length (snd x))"
  shows "sum_ph (map comp_ph (map fst parts)) = Some (length (concat (map snd parts)))"
  using assms by (induction parts) auto

text \<open>A condition whose parameters match.\<close>

definition condition_ok :: "field_condition \<Rightarrow> bool" where
  "condition_ok fc = (plain (fc_value fc) \<and> cast_ok fc \<and> balanced fc)"

interpretation clause_ph: clause_contract env condition_ok "\<lambda>x. comp_ph (fst x) = Some (length (snd x))" for env
proof
  fix fc x assume "condition_ok fc" "condition_to_sql env fc = Inr x"
  then show "comp_ph (fst x) = Some (length (snd x))"
    using condition_match [of fc env "fst x" "snd x"] by (simp add: condition_ok_def)
next
  fix lop and parts :: "sql_params list"
  assume "lop \<in> {''AND'', ''OR''}" and parts: "\<forall>x \<in> set parts. comp_ph (fst x) = Some (length (snd x))"
  then have "ph_count ('' '' @ lop @ '' '') = Some 0" by auto
  from comp_ph_sql_join [OF this] sum_ph_lengths [OF parts]
  show "comp_ph (fst (sql_join ('' '' @ lop @ '' '') (map fst parts), concat (map snd parts)))
      = Some (length (snd (sql_join ('' '' @ lop @ '' '') (map fst parts), concat (map snd parts))))"
    by simp
qed simp_all

text \<open>
  Parameters of a query.  The SQL of a valid clause whose conditions are all balanced has
  exactly one placeholder for each parameter, however deeply the clause is nested.
\<close>

theorem clause_placeholders:
  assumes "clause_valid c" "\<forall>fc \<in> clause_conditions c. condition_ok fc"
    and "clause_to_sql env c = Inr (Some s, ps)"
  shows "comp_ph s = Some (length ps)"
  using clause_ph.clause_good [OF assms] by simp

text \<open>The clause \<open>status = 'active' AND (priority > 3 OR NOT (owner IS NULL))\<close> on direct columns.\<close>

definition example_column :: "string \<Rightarrow> string \<Rightarrow> pyval \<Rightarrow> field_condition" where
  "example_column col op v = \<lparr>field_path = [col], operator = op, fc_value = v,
     lookup_strategy = ''sql_column'', target_column = col, jsonb_path = None, temporal_cast = None\<rparr>"

definition example_clause :: where_clause where
  "example_clause = WhereClause [example_column ''status'' ''eq'' (PStr ''active'')] ''AND''
     [WhereClause [example_column ''priority'' ''gt'' (PInt 3)] ''OR'' []
        (Some (WhereClause [example_column ''owner'' ''isnull'' (PBool True)] ''AND'' [] None))] None"

definition example_sql :: composable where
  "example_sql =
     Composed [Composed [Identifier ''status'', SQL '' = '', SQL ''%s''], SQL '' AND '',
       Composed [SQL ''('',
         Composed [Composed [Identifier ''priority'', SQL '' > '', SQL ''%s''], SQL '' OR '',
           Composed [SQL ''NOT ('', Composed [Identifier ''owner'', SQL '' IS NULL''], SQL '')'']], SQL '')'']]"

lemma example_columns:
  "condition_to_sql example_env (example_column ''status'' ''eq'' (PStr ''active''))
     = Inr (Composed [Identifier ''status'', SQL '' = '', SQL ''%s''], [PStr ''active''])"
  "condition_to_sql example_env (example_column ''priority'' ''gt'' (PInt 3))
     = Inr (Composed [Identifier ''priority'', SQL '' > '', SQL ''%s''], [PInt 3])"
  "condition_to_sql example_env (example_column ''owner'' ''isnull'' (PBool True))
     = Inr (Composed [Identifier ''owner'', SQL '' IS NULL''], [])"
  unfolding example_env_def example_runtime_def by code_simp+

lemma example_clause_sql:
  "clause_to_sql example_env example_clause = Inr (Some example_sql, [PStr ''active'', PInt 3])"
  by (simp add: example_clause_def example_sql_def example_columns combine_parts_def clause_parts_def sql_join_def)

lemma example_clause_valid: "clause_valid example_clause"
  by (simp add: example_clause_def validate_condition_def example_column_def in_keys_def ALL_OPERATORS_def operator_tables)

lemma example_clause_conditions:
  "clause_conditions example_clause =
     {example_column ''status'' ''eq'' (PStr ''active''), example_column ''priority'' ''gt'' (PInt 3),
      example_column ''owner'' ''isnull'' (PBool True)}"
  by (simp add: example_clause_def insert_commute)

theorem clause_placeholders_witness:
  "clause_to_sql example_env example_clause = Inr (Some example_sql, [PStr ''active'', PInt 3])
   \<and> comp_ph example_sql = Some 2"
proof -
  have "\<forall>fc \<in> clause_conditions example_clause. condition_ok fc"
    by (simp add: example_clause_conditions condition_ok_def cast_ok_def balanced_def example_column_def)
  from clause_placeholders [OF example_clause_valid this example_clause_sql] example_clause_sql
  show ?thesis by simp
qed

subsection \<open>A valid clause generates a query\<close>

lemma combine_parts_Some: "parts \<noteq> [] \<Longrightarrow> fst (combine_parts lop parts) \<noteq> None"
  by (auto simp: combine_parts_def split: list.split)

lemma clause_parts_nonempty:
  assumes "own \<noteq> [] \<or> subs \<noteq> [] \<or> fst neg \<noteq> None" "\<forall>(t, qs) \<in> set subs. t \<noteq> None"
  shows "clause_parts own subs neg \<noteq> []"
  using assms by (cases neg; cases subs) (auto simp: clause_parts_def split: option.split)

lemma clause_never_empty:
  "clause_valid c \<Longrightarrow> clause_to_sql env c = Inr (s, ps) \<Longrightarrow> s \<noteq> None"
proof (induction c arbitrary: s ps)
  case (WhereClause cs lop nested nc)
  note valid = clause_valid_sub [OF WhereClause.prems(1)]
  from WhereClause.prems(2) obtain own subs neg where
    own: "map_result (condition_to_sql env) cs = Inr own" and
    subs: "map_result (clause_to_sql env) nested = Inr subs" and
    neg: "(case nc of None \<Rightarrow> Inr (None, []) | Some c \<Rightarrow> clause_to_sql env c) = Inr neg" and
    r: "(s, ps) = combine_parts lop (clause_parts own subs neg)"
    by (rule clause_to_sql_cases)
  have sub: "\<forall>(t, qs) \<in> set subs. t \<noteq> None"
    using map_result_set [OF subs] WhereClause.IH(1) valid(2) by blast
  have "fst neg \<noteq> None" if "nc = Some e" for e
    using neg WhereClause.IH(2) [of e "fst neg" "snd neg"] valid(3) [OF that] that by simp
  then have "own \<noteq> [] \<or> subs \<noteq> [] \<or> fst neg \<noteq> None"
    using valid(4) map_result_length [OF own] map_result_length [OF subs] by fastforce
  from combine_parts_Some [OF clause_parts_nonempty [OF this sub]] r show ?case by (metis fst_conv)
qed

text \<open>
  A clause that passed the constructors' checks at every level never loses its filter: if
  it generates SQL at all, it generates a condition, so no query runs without its \<open>WHERE\<close>.
\<close>

theorem clause_generates:
  assumes "clause_valid c" "clause_to_sql env c = Inr (s, ps)"
  shows "\<exists>sql. s = Some sql"
  using clause_never_empty [OF assms] by blast

theorem clause_generates_witness:
  "clause_to_sql example_env example_clause = Inr (Some example_sql, [PStr ''active'', PInt 3])
   \<and> (\<exists>sql. Some example_sql = Some sql)"
  using clause_generates [OF example_clause_valid example_clause_sql] example_clause_sql by simp

end
