(* ===== verification/WhereTexts.thy ===== *)
theory WhereTexts
  imports ClauseProps
begin

section \<open>The raw SQL of a WHERE clause\<close>

text \<open>
  The vocabulary of \<open>where_clause.py\<close>: the words it writes as raw SQL.  The words are built
  from the operator tables, the four casts and the number of values of a list; none is built
  from a column name, a JSON key or a value.
\<close>

definition operator_words :: "string set" where
  "operator_words = set (map snd ALL_OPERATORS) \<union> set (map snd ARRAY_OPERATORS)"

definition cast_words :: "string set" where
  "cast_words = {''timestamptz'', ''date'', ''ltree'', ''point''}"

definition fixed_words :: "string set" where
  "fixed_words = {''('', '')'', ''NOT ('', '' AND '', '' OR '', '' -> '', '' ->> '', '')::ltree'', '')::numeric'', ''%s'',
     '')::uuid IN (SELECT id FROM '', ''.'', '' WHERE path '', ''<@'', ''@>'', '' (SELECT path FROM '', '' WHERE id = '',
     ''::uuid)::ltree)'', ''nlevel('', ''index('', '' IS NULL'', '' IS NOT NULL'', ''::vector'', ''%s::vector'',
     '') < '', '') <= '', '') > '', ''ts_rank('', ''ts_rank_cd('', '', to_tsquery('', '')) > '', '')) < '',
     '' @@ to_tsquery('', '' @@ plainto_tsquery('', '' @@ phraseto_tsquery('', '' @@ websearch_to_tsquery('',
     ''array_length('', '', 1) '', ''%s = '', ''ANY('', ''ALL('', '' = '', '' != ''}"

inductive_set where_vocab :: "string set" where
  registry: "t \<in> registry_vocab \<Longrightarrow> t \<in> where_vocab"
| fixed: "t \<in> fixed_words \<Longrightarrow> t \<in> where_vocab"
| op: "sop \<in> operator_words \<Longrightarrow> '' '' @ sop @ '' '' \<in> where_vocab"
| op_bare: "sop \<in> operator_words \<Longrightarrow> sop @ '' '' \<in> where_vocab"
| op_list: "sop \<in> operator_words \<Longrightarrow> '' '' @ sop @ '' ('' @ placeholder_list ''%s'' n @ '')'' \<in> where_vocab"
| op_cast: "sop \<in> operator_words \<Longrightarrow> c \<in> cast_words \<Longrightarrow> '' '' @ sop @ '' %s::'' @ c \<in> where_vocab"
| op_cast_list: "sop \<in> operator_words \<Longrightarrow> c \<in> cast_words \<Longrightarrow>
    '' '' @ sop @ '' ('' @ placeholder_list (''%s::'' @ c) n @ '')'' \<in> where_vocab"
| cast: "c \<in> cast_words \<Longrightarrow> '')::'' @ c \<in> where_vocab"
| ltree_match: "(k, sop, ty) \<in> set LTREE_MATCH_OPERATORS \<Longrightarrow> '' '' @ sop @ '' %s::'' @ ty \<in> where_vocab"
| ltree_depth: "(k, cmp) \<in> set LTREE_DEPTH_COMPARISONS \<Longrightarrow> '') '' @ cmp @ '' '' \<in> where_vocab"
| ltree_index: "(k, cmp) \<in> set LTREE_INDEX_COMPARISONS \<Longrightarrow> '', %s::ltree) '' @ cmp @ '' %s'' \<in> where_vocab"
| ltree_lca: "'' = lca(ARRAY['' @ placeholder_list ''%s::ltree'' n @ ''])'' \<in> where_vocab"
| vector: "(k, sop) \<in> set VECTOR_OPERATORS \<Longrightarrow> '' '' @ replace_str ''%'' ''%%'' sop @ '' '' \<in> where_vocab"

lemma fixed_word: "t \<in> fixed_words \<Longrightarrow> texts (SQL t) \<subseteq> where_vocab"
  by (simp add: where_vocab.fixed)

lemma operator_words_get:
  "dict_get ALL_OPERATORS k = Inr sop \<Longrightarrow> sop \<in> operator_words"
  "dict_get ARRAY_OPERATORS k = Inr sop \<Longrightarrow> sop \<in> operator_words"
  by (force dest!: dict_get_mem simp: operator_words_def)+

text \<open>What a generator returns has its raw texts in the vocabulary.\<close>

definition words_ok :: "sql_params result \<Rightarrow> bool" where
  "words_ok r = (\<forall>sql ps. r = Inr (sql, ps) \<longrightarrow> texts sql \<subseteq> where_vocab)"

lemma words_ok_Inr: "words_ok (Inr (sql, ps)) \<longleftrightarrow> texts sql \<subseteq> where_vocab"
  by (simp add: words_ok_def)

lemma words_ok_Inl [simp]: "words_ok (Inl e)"
  by (simp add: words_ok_def)

lemma words_ok_rbind: "(\<And>x. r = Inr x \<Longrightarrow> words_ok (f x)) \<Longrightarrow> words_ok (rbind r f)"
  by (cases r) simp_all

lemma words_ok_if: "words_ok x \<Longrightarrow> words_ok y \<Longrightarrow> words_ok (if b then x else y)"
  by simp

lemma words_ok_option:
  "words_ok x \<Longrightarrow> (\<And>y. r = Some y \<Longrightarrow> words_ok (f y)) \<Longrightarrow> words_ok (case r of None \<Rightarrow> x | Some y \<Rightarrow> f y)"
  by (cases r) simp_all

lemma texts_if: "texts x \<subseteq> V \<Longrightarrow> texts y \<subseteq> V \<Longrightarrow> texts (if b then x else y) \<subseteq> V"
  by simp

lemma fixed_in: "t \<in> fixed_words \<Longrightarrow> t \<in> where_vocab" by (rule where_vocab.fixed)

lemmas word_rules = words_ok_Inr [THEN iffD2] fixed_in where_vocab.op where_vocab.op_bare where_vocab.op_list

lemma composed_words: "\<forall>c \<in> set cs. texts c \<subseteq> where_vocab \<Longrightarrow> texts (Composed cs) \<subseteq> where_vocab"
  by auto

lemma jsonb_expr_words: "texts (jsonb_expr col ks) \<subseteq> where_vocab"
  by (auto simp: jsonb_expr_def fixed_words_def intro!: fixed_in)

lemma hierarchy_words: "texts path \<subseteq> where_vocab \<Longrightarrow> words_ok (hierarchy_sql env fc entity path)"
  unfolding hierarchy_sql_def build_hierarchy_subquery_def Let_def
  by (auto simp: words_ok_Inr fixed_words_def split: option.split intro!: words_ok_rbind fixed_in)

lemma coordinate_words:
  assumes "texts path \<subseteq> where_vocab"
  shows "words_ok (coordinate_sql env fc path)"
proof -
  have built: "texts c \<subseteq> where_vocab"
    if "coordinate_build rt meth op v path None None = Inr (Some c)" "plain v" for rt meth op v c
  proof -
    have "texts c \<subseteq> texts path \<union> coord_vocab"
      by (rule coordinate_strat.build_texts) (use that in \<open>auto simp: coordinate_strategy_def\<close>)
    with assms registry_vocab_parts(4) show ?thesis by (blast intro: where_vocab.registry)
  qed
  show ?thesis
    unfolding coordinate_sql_def Let_def
    by (intro words_ok_rbind)
      (auto simp: catch_coordinate_def rbind_eq_Inr words_ok_Inr
        dest: coordinate_value_plain built [THEN subsetD] split: sum.splits option.split)
qed

lemma ltree_match_words: "texts path \<subseteq> where_vocab \<Longrightarrow> words_ok (ltree_match_sql fc path)"
  unfolding ltree_match_sql_def
  by (auto simp: words_ok_Inr intro!: words_ok_rbind dest!: dict_get_mem
      intro: where_vocab.ltree_match [unfolded append.simps])

lemma ltree_depth_words: "texts path \<subseteq> where_vocab \<Longrightarrow> words_ok (ltree_depth_sql env fc path)"
  unfolding ltree_depth_sql_def
  by (auto simp: words_ok_Inr fixed_words_def intro!: words_ok_rbind fixed_in [of "''nlevel(''"] fixed_in [of "''%s''"]
      dest!: dict_get_mem intro: where_vocab.ltree_depth [unfolded append.simps])

lemma ltree_function_words:
  assumes "texts path \<subseteq> where_vocab"
  shows "words_ok (ltree_function_sql env fc path)"
proof -
  have lca: "words_ok (Inr (Composed [path, SQL ('' = lca(ARRAY['' @ placeholder_list ''%s::ltree'' n @ ''])'')], ps))" for n ps
    using assms where_vocab.ltree_lca by (simp add: words_ok_Inr)
  have index: "words_ok
      (rbind (dict_get LTREE_INDEX_COMPARISONS (operator fc)) (\<lambda>comparison.
       rbind (py_int (we_runtime env) position) (\<lambda>i.
         Inr (Composed [SQL ''index('', path, SQL ('', %s::ltree) '' @ comparison @ '' %s'')],
              [PStr (py_str label), PInt i]))))" for label position
    using assms
    by (auto simp: words_ok_Inr fixed_words_def intro!: words_ok_rbind fixed_in [of "''index(''"]
        dest!: dict_get_mem intro: where_vocab.ltree_index [unfolded append.simps])
  show ?thesis
    unfolding ltree_function_sql_def
    using lca index by (auto split: option.split list.split)
qed

lemma special_words:
  assumes "special_sql env fc entity path lpath = Some r" "texts path \<subseteq> where_vocab" "texts lpath \<subseteq> where_vocab"
  shows "words_ok r"
  using assms hierarchy_words coordinate_words ltree_match_words ltree_depth_words ltree_function_words
  by (auto simp: special_sql_def split: if_splits)

lemma op_words:
  "texts path \<subseteq> where_vocab \<Longrightarrow> sop \<in> operator_words \<Longrightarrow> words_ok (Inr (op_sql path sop v))"
  using where_vocab.op [of sop] fixed_in [of "''%s''"] by (auto simp: op_sql_def words_ok_Inr fixed_words_def)

lemma in_list_words:
  "texts path \<subseteq> where_vocab \<Longrightarrow> sop \<in> operator_words \<Longrightarrow> words_ok (Inr (in_list_sql path sop ''%s'' v))"
  using where_vocab.op_list [of sop] by (auto simp: in_list_sql_def Let_def words_ok_Inr)

lemma null_words: "texts path \<subseteq> where_vocab \<Longrightarrow> words_ok (Inr (null_sql path v))"
  using fixed_in [of "'' IS NULL''"] fixed_in [of "'' IS NOT NULL''"]
  by (auto simp: null_sql_def words_ok_Inr fixed_words_def)

lemma network_words:
  assumes "texts path \<subseteq> where_vocab" "plain (fc_value fc)"
  shows "words_ok (network_sql env fc path jc)"
proof -
  have built: "texts c \<subseteq> where_vocab"
    if "registry_build_sql (default_registry rt meth) op (fc_value fc) path None jc = Inr (Some c)" for rt meth op c
    using default_reg.registry_texts [OF assms(2) that] assms(1) by (blast intro: where_vocab.registry)
  show ?thesis
    unfolding network_sql_def
    by (intro words_ok_rbind) (auto simp: words_ok_Inr dest: built [THEN subsetD] split: option.split)
qed

lemma temporal_words:
  assumes "texts expr \<subseteq> where_vocab" "sop \<in> operator_words" "c \<in> cast_words"
  shows "words_ok (Inr (temporal_sql fc expr sop c))"
  using assms where_vocab.op_cast [OF assms(2,3)] where_vocab.op_cast_list [OF assms(2,3)] where_vocab.cast [OF assms(3)]
    fixed_in [of "''(''"]
  by (simp add: temporal_sql_def Let_def words_ok_Inr fixed_words_def)

lemma vector_words: "words_ok (vector_sql fc)"
proof -
  have esc: "'' '' @ replace_str ''%'' ''%%'' w @ '' '' \<in> where_vocab" if "dict_get VECTOR_OPERATORS op = Inr w" for op w
    using where_vocab.vector dict_get_mem [OF that] by blast
  have fixed: "{''('', ''%s'', ''%s::vector'', ''::vector'', '') < '', '') <= '', '') > ''} \<subseteq> where_vocab"
    by (intro subsetI fixed_in) (auto simp: fixed_words_def)
  note words = fixed [unfolded insert_subset]
  have cmp: "'') '' @ cmp @ '' '' \<in> where_vocab" if "cmp \<in> {''<'', ''<='', ''>''}" for cmp
    using that unfolding insert_iff empty_iff by (elim disjE) (simp_all add: words)
  have expr: "texts (vector_expr col op w cmp) \<subseteq> where_vocab"
    if "'' '' @ w @ '' '' \<in> where_vocab" "'') '' @ cmp @ '' '' \<in> where_vocab" for col op w cmp
    using that words unfolding vector_expr_def Let_def by (simp split: if_split)
  show ?thesis
    unfolding vector_sql_def Let_def case_prod_beta
    by (intro words_ok_rbind words_ok_Inr [THEN iffD2] expr esc cmp) simp_all
qed

lemma rank_words:
  assumes "fn \<in> fixed_words" "'')) '' @ cmp @ '' '' \<in> fixed_words"
  shows "words_ok (rank_sql env fc fn cmp)"
proof -
  have "'', to_tsquery('' \<in> fixed_words" "''%s'' \<in> fixed_words" unfolding fixed_words_def by simp_all
  note words = assms [THEN fixed_in] this [THEN fixed_in]
  show ?thesis
    unfolding rank_sql_def case_prod_beta
    by (intro words_ok_rbind words_ok_Inr [THEN iffD2]) (use words in simp)
qed

lemma fulltext_words: "words_ok (fulltext_sql env fc)"
proof -
  have fixed: "{''%s'', '')'', '' @@ to_tsquery('', '' @@ plainto_tsquery('', '' @@ phraseto_tsquery('',
      '' @@ websearch_to_tsquery(''} \<subseteq> where_vocab"
    by (intro subsetI fixed_in) (auto simp: fixed_words_def)
  have rank: "words_ok (rank_sql env fc fn cmp)" if "fn \<in> {''ts_rank('', ''ts_rank_cd(''}" "cmp \<in> {''>'', ''<''}" for fn cmp
    by (rule rank_words) (use that in \<open>auto simp: fixed_words_def\<close>)
  show ?thesis
    unfolding fulltext_sql_def Let_def using fixed rank by (auto simp: words_ok_Inr)
qed

lemma array_words: "words_ok (array_sql fc)"
proof -
  have fixed: "{''array_length('', '', 1) '', ''%s'', ''%s = '', ''ANY('', ''ALL('', '')'', '' = '', '' != ''} \<subseteq> where_vocab"
    by (intro subsetI fixed_in) (auto simp: fixed_words_def)
  have op: "words_ok (rbind (dict_get ARRAY_OPERATORS (operator fc)) (\<lambda>op. Inr (op_sql (Identifier col) op v)))" for col v
    by (intro words_ok_rbind op_words) (auto dest: operator_words_get(2))
  have len: "words_ok (rbind (dict_get ARRAY_OPERATORS (operator fc)) (\<lambda>op.
      Inr (Composed [SQL ''array_length('', col, SQL '', 1) '', SQL (op @ '' ''), SQL ''%s''], vs)))"
    if "texts col = {}" for col vs
    using fixed that
    by (auto simp: words_ok_Inr intro!: words_ok_rbind where_vocab.op_bare dest: operator_words_get(2))
  have eq: "words_ok (Inr (op_sql (Identifier col) (if b then ''='' else ''!='') v))" for col b v
    using fixed by (simp add: op_sql_def words_ok_Inr)
  have anyall: "words_ok (Inr (Composed [SQL ''%s = '', SQL ((if b then ''ANY'' else ''ALL'') @ ''(''), Identifier col, SQL '')''], vs))"
    for b col vs
    using fixed by (simp add: words_ok_Inr)
  show ?thesis
    unfolding array_sql_def Let_def
    by (simp only: op len eq anyall words_ok_Inl texts.simps split: if_split) simp
qed

lemma fk_column_words: "words_ok (fk_column_sql env fc)"
proof -
  have "words_ok r" if "special_sql env fc e (Identifier col) (Identifier col) = Some r" for e col r
    by (rule special_words [OF that]) simp_all
  then show ?thesis
    unfolding fk_column_sql_def Let_def
    by (auto split: option.split intro!: words_ok_rbind in_list_words null_words op_words dest: operator_words_get(1))
qed

lemma jsonb_path_words:
  assumes "cast_ok fc" "plain (fc_value fc)"
  shows "words_ok (jsonb_path_sql env fc)"
proof -
  have expr: "texts (jsonb_expr col ks) \<subseteq> where_vocab" "texts (as_numeric (jsonb_expr col ks)) \<subseteq> where_vocab"
    "texts (Composed [SQL ''('', jsonb_expr col ks, SQL '')::ltree'']) \<subseteq> where_vocab" for col ks
    using jsonb_expr_words [of col ks] fixed_in [of "''(''"] fixed_in [of "'')::ltree''"] fixed_in [of "'')::numeric''"]
    by (simp_all add: as_numeric_def fixed_words_def)
  have special: "words_ok r" if "special_sql env fc e (jsonb_expr col ks) (Composed [SQL ''('', jsonb_expr col ks, SQL '')::ltree'']) = Some r"
    for e col ks r
    by (rule special_words [OF that expr(1,3)])
  have cast: "c \<in> cast_words" if "(if b then effective_cast fc else None) = Some c" for b c
    using effective_cast_range [OF assms(1)] that by (auto simp: cast_words_def split: if_splits)
  have compare: "words_ok (jsonb_compare_sql env fc (jsonb_expr col ks) sop)" if "sop \<in> operator_words" for col ks sop
    unfolding jsonb_compare_sql_def Let_def
  proof (rule words_ok_option, goal_cases)
    case 1
    show ?case
      by (intro words_ok_if texts_if in_list_words null_words op_words network_words that expr assms(2))
  next
    case (2 c)
    show ?case by (intro temporal_words that expr cast [OF 2])
  qed
  show ?thesis
    unfolding jsonb_path_sql_def Let_def
    by (intro words_ok_rbind words_ok_option words_ok_if words_ok_Inl compare operator_words_get(1))
      (assumption, erule special)
qed

lemma sql_column_words:
  assumes "plain (fc_value fc)"
  shows "words_ok (sql_column_sql env fc)"
proof -
  have special: "words_ok r" if "special_sql env fc e (Identifier col) (Identifier col) = Some r" for e col r
    by (rule special_words [OF that]) simp_all
  show ?thesis
    unfolding sql_column_sql_def Let_def
    by (auto split: option.split dest: operator_words_get special
        intro!: words_ok_rbind in_list_words null_words op_words network_words vector_words fulltext_words array_words assms)
qed

text \<open>A condition the vocabulary covers: a plain value and one of the declared casts.\<close>

definition condition_typed :: "field_condition \<Rightarrow> bool" where
  "condition_typed fc = (plain (fc_value fc) \<and> cast_ok fc)"

lemma condition_words:
  assumes "condition_typed fc" "condition_to_sql env fc = Inr (sql, ps)"
  shows "texts sql \<subseteq> where_vocab"
  using assms fk_column_words [of env fc] jsonb_path_words [of fc env] sql_column_words [of fc env]
  by (simp add: condition_typed_def condition_to_sql_def words_ok_def split: if_splits)

interpretation clause_words: clause_contract env condition_typed "\<lambda>x. texts (fst x) \<subseteq> where_vocab" for env
proof
  fix fc x assume "condition_typed fc" "condition_to_sql env fc = Inr x"
  then show "texts (fst x) \<subseteq> where_vocab" using condition_words [of fc env "fst x" "snd x"] by simp
next
  fix lop and parts :: "sql_params list"
  assume lop: "lop \<in> {''AND'', ''OR''}" and parts: "\<forall>x \<in> set parts. texts (fst x) \<subseteq> where_vocab"
  have "'' AND '' \<in> fixed_words" "'' OR '' \<in> fixed_words" unfolding fixed_words_def by simp_all
  with lop have "'' '' @ lop @ '' '' \<in> where_vocab" by (auto intro: fixed_in)
  then show "texts (fst (sql_join ('' '' @ lop @ '' '') (map fst parts), concat (map snd parts))) \<subseteq> where_vocab"
    unfolding fst_conv by (rule texts_sql_join_sub) (use parts in auto)
next
  fix c and ps :: "pyval list"
  have words: "''('' \<in> where_vocab" "''NOT ('' \<in> where_vocab" "'')'' \<in> where_vocab"
    by (rule fixed_in, unfold fixed_words_def, simp)+
  assume "texts (fst (c, ps)) \<subseteq> where_vocab"
  with words show "texts (fst (Composed [SQL ''('', c, SQL '')''], ps)) \<subseteq> where_vocab"
    "texts (fst (Composed [SQL ''NOT ('', c, SQL '')''], ps)) \<subseteq> where_vocab" by simp_all
qed

text \<open>
  Injection safety of a WHERE clause.  Every raw SQL text of the query of a valid clause is
  a word of \<open>where_vocab\<close>, which depends on the operator tables and the number of values only:
  column names and JSON keys occur as quoted identifiers and literals, values as parameters or
  quoted literals.
\<close>

theorem clause_injection_safe:
  assumes "clause_valid c" "\<forall>fc \<in> clause_conditions c. condition_typed fc"
    and "clause_to_sql env c = Inr (Some sql, ps)"
  shows "texts sql \<subseteq> where_vocab"
  using clause_words.clause_good [OF assms] by simp

theorem clause_injection_safe_witness:
  "clause_to_sql example_env example_clause = Inr (Some example_sql, [PStr ''active'', PInt 3])
   \<and> texts example_sql \<subseteq> where_vocab"
proof -
  have "\<forall>fc \<in> clause_conditions example_clause. condition_typed fc"
    by (simp add: example_clause_conditions condition_typed_def cast_ok_def example_column_def)
  from clause_injection_safe [OF example_clause_valid this example_clause_sql] example_clause_sql
  show ?thesis by simp
qed

end
