(* ===== verification/BoolStructure.thy ===== *)
theory BoolStructure
  imports ClauseProps
begin

section \<open>The boolean structure of the generated text\<close>

text \<open>
  SQL reads \<open>AND\<close>, \<open>OR\<close> and \<open>NOT\<close> with a precedence, so a generator that forgets a pair of
  parentheses changes the meaning of a filter.  This theory reads the generated text back:
  its tokens are the conditions, parentheses and the three operators; \<open>read_bool\<close> splits a
  token list at the top-level \<open>OR\<close>s, then at the top-level \<open>AND\<close>s, then takes a \<open>NOT\<close>, a
  parenthesised expression or a condition, which is the precedence of SQL; \<open>None\<close> is a syntax
  error.  The text of a valid clause reads back as the expression the clause denotes.
\<close>

datatype btok = TAtom field_condition | TOpen | TClose | TAnd | TOr | TNot

datatype bexp = BAtom field_condition | BNot bexp | BAnd "bexp list" | BOr "bexp list"

subsection \<open>Reading\<close>

fun depth_after :: "nat \<Rightarrow> btok \<Rightarrow> nat" where
  "depth_after d TOpen = Suc d"
| "depth_after d TClose = d - 1"
| "depth_after d _ = d"

text \<open>The pieces of a token list between the separators outside all parentheses.\<close>

fun split_top :: "btok \<Rightarrow> nat \<Rightarrow> btok list \<Rightarrow> btok list list" where
  "split_top sep d [] = [[]]"
| "split_top sep d (t # ts) =
     (if t = sep \<and> d = 0 then [] # split_top sep 0 ts
      else (case split_top sep (depth_after d t) ts of
              [] \<Rightarrow> [[t]]
            | p # ps \<Rightarrow> (t # p) # ps))"

fun all_some :: "'a option list \<Rightarrow> 'a list option" where
  "all_some [] = Some []"
| "all_some (x # xs) = (case x of None \<Rightarrow> None | Some y \<Rightarrow> map_option (Cons y) (all_some xs))"

lemma split_top_ne [simp]: "split_top sep d ts \<noteq> []"
  by (induction ts arbitrary: d) (auto split: list.split)

lemma split_top_length: "sum_list (map length (split_top sep d ts)) + length (split_top sep d ts) = Suc (length ts)"
proof (induction ts arbitrary: d)
  case (Cons t ts)
  from Cons [of 0] Cons [of "depth_after d t"] show ?case
    by (cases "split_top sep (depth_after d t) ts") auto
qed simp

lemma split_top_shorter:
  assumes "p \<in> set (split_top sep d ts)" "length (split_top sep d ts) \<noteq> 1"
  shows "length p < length ts"
proof -
  have "length p \<le> sum_list (map length (split_top sep d ts))"
    using assms(1) by (simp add: member_le_sum_list)
  moreover have "length (split_top sep d ts) \<ge> 2"
    using assms(2) by (cases "split_top sep d ts" rule: list.exhaust; cases "tl (split_top sep d ts)") auto
  ultimately show ?thesis using split_top_length [of sep d ts] by linarith
qed

function read_bool :: "btok list \<Rightarrow> bexp option" where
  "read_bool ts =
     (let ors = split_top TOr 0 ts; ands = split_top TAnd 0 ts in
      if length ors \<noteq> 1 then map_option BOr (all_some (map read_bool ors))
      else if length ands \<noteq> 1 then map_option BAnd (all_some (map read_bool ands))
      else case ts of
        TNot # r \<Rightarrow> map_option BNot (read_bool r)
      | TOpen # r \<Rightarrow> if r \<noteq> [] \<and> last r = TClose then read_bool (butlast r) else None
      | [TAtom a] \<Rightarrow> Some (BAtom a)
      | _ \<Rightarrow> None)"
  by pat_completeness auto
termination
  by (relation "measure length") (auto dest: split_top_shorter)

declare read_bool.simps [simp del]

subsection \<open>What a clause denotes\<close>

text \<open>
  The parts of a valid clause are its conditions, its nested clauses and the negation; more
  than one part is combined by the clause's operator.
\<close>

definition combine_exp :: "string \<Rightarrow> bexp list \<Rightarrow> bexp" where
  "combine_exp lop es = (case es of [e] \<Rightarrow> e | _ \<Rightarrow> if lop = ''OR'' then BOr es else BAnd es)"

function clause_exp :: "where_clause \<Rightarrow> bexp" where
  "clause_exp (WhereClause cs lop nested nc) =
     combine_exp lop (map BAtom cs @ map clause_exp nested
       @ (case nc of None \<Rightarrow> [] | Some c \<Rightarrow> [BNot (clause_exp c)]))"
  by pat_completeness auto
termination
  by (relation "measure size")
    (auto simp: size_list_estimation' less_Suc_eq_le intro: trans_le_add1)

text \<open>The tokens of the generated text.\<close>

fun join_tokens :: "btok \<Rightarrow> btok list list \<Rightarrow> btok list" where
  "join_tokens sep [] = []"
| "join_tokens sep [p] = p"
| "join_tokens sep (p # ps) = p @ [sep] @ join_tokens sep ps"

definition op_token :: "string \<Rightarrow> btok" where
  "op_token lop = (if lop = ''OR'' then TOr else TAnd)"

function clause_tokens :: "where_clause \<Rightarrow> btok list" where
  "clause_tokens (WhereClause cs lop nested nc) =
     join_tokens (op_token lop)
       (map (\<lambda>c. [TAtom c]) cs @ map (\<lambda>c. [TOpen] @ clause_tokens c @ [TClose]) nested
        @ (case nc of None \<Rightarrow> [] | Some c \<Rightarrow> [[TNot, TOpen] @ clause_tokens c @ [TClose]]))"
  by pat_completeness auto
termination
  by (relation "measure size")
    (auto simp: size_list_estimation' less_Suc_eq_le intro: trans_le_add1)

subsection \<open>Parts are read whole\<close>

fun nest :: "nat \<Rightarrow> btok list \<Rightarrow> nat option" where
  "nest d [] = Some d"
| "nest d (TOpen # ts) = nest (Suc d) ts"
| "nest d (TClose # ts) = (case d of 0 \<Rightarrow> None | Suc e \<Rightarrow> nest e ts)"
| "nest d (_ # ts) = nest d ts"

lemma nest_append: "nest d (a @ b) = Option.bind (nest d a) (\<lambda>e. nest e b)"
  by (induction d a rule: nest.induct) (auto split: nat.split)

lemma nest_shift: "nest d ts = Some e \<Longrightarrow> nest (d + k) ts = Some (e + k)"
  by (induction d ts rule: nest.induct) (auto split: nat.splits)

definition extend_head :: "btok list \<Rightarrow> btok list list \<Rightarrow> btok list list" where
  "extend_head w ps = (w @ hd ps) # tl ps"

lemma split_top_step:
  "\<not> (t = sep \<and> d = 0) \<Longrightarrow> split_top sep d (t # r) = extend_head [t] (split_top sep (depth_after d t) r)"
  by (cases "split_top sep (depth_after d t) r") (auto simp: extend_head_def)

lemma extend_head_append: "extend_head a (extend_head b ps) = extend_head (a @ b) ps"
  by (simp add: extend_head_def)

lemma extend_head_Nil: "ps \<noteq> [] \<Longrightarrow> extend_head [] ps = ps"
  by (simp add: extend_head_def)

lemma split_inside:
  "nest k w = Some e \<Longrightarrow>
   split_top sep (Suc d + k) (w @ r) = extend_head w (split_top sep (Suc d + e) r)"
proof (induction k w rule: nest.induct)
  case (3 k ts)
  then show ?case by (cases k) (auto simp: split_top_step extend_head_append simp del: split_top.simps)
qed (auto simp: split_top_step extend_head_append extend_head_Nil simp del: split_top.simps)

definition is_part :: "btok list \<Rightarrow> bool" where
  "is_part p = ((\<exists>c. p = [TAtom c]) \<or>
     (\<exists>w. nest 0 w = Some 0 \<and> (p = [TOpen] @ w @ [TClose] \<or> p = [TNot, TOpen] @ w @ [TClose])))"

lemma split_part:
  assumes "is_part p" "sep \<in> {TAnd, TOr}"
  shows "split_top sep 0 (p @ r) = extend_head p (split_top sep 0 r)"
proof -
  have paren: "split_top sep 0 ([TOpen] @ w @ [TClose] @ r) = extend_head ([TOpen] @ w @ [TClose]) (split_top sep 0 r)"
    if "nest 0 w = Some 0" for w
    using assms(2) split_inside [OF that, of sep 0 "TClose # r"]
    by (auto simp: split_top_step extend_head_append simp del: split_top.simps)
  from assms(1) show ?thesis
    unfolding is_part_def
  proof (elim disjE exE conjE)
    fix c assume "p = [TAtom c]"
    with assms(2) show ?thesis by (auto simp: split_top_step simp del: split_top.simps)
  next
    fix w assume "nest 0 w = Some 0" "p = [TOpen] @ w @ [TClose]"
    with paren [of w] show ?thesis by simp
  next
    fix w assume "nest 0 w = Some 0" "p = [TNot, TOpen] @ w @ [TClose]"
    with paren [of w] assms(2) show ?thesis
      by (auto simp: split_top_step [of TNot] extend_head_append simp del: split_top.simps)
  qed
qed

lemma split_join:
  assumes "sep \<in> {TAnd, TOr}" "sep' \<in> {TAnd, TOr}" "sep' \<noteq> sep"
  shows "\<forall>p \<in> set ps. is_part p \<Longrightarrow> ps \<noteq> [] \<Longrightarrow>
    split_top sep 0 (join_tokens sep ps) = ps \<and> split_top sep' 0 (join_tokens sep ps) = [join_tokens sep ps]"
proof (induction ps rule: induct_list012)
  case (2 p)
  then have "is_part p" by simp
  from split_part [OF this assms(1), of "[]"] split_part [OF this assms(2), of "[]"] show ?case
    using 2 by (simp add: extend_head_def)
next
  case (3 p q qs)
  then have p: "is_part p" and rest: "\<forall>p \<in> set (q # qs). is_part p" by simp_all
  from 3 rest have IH: "split_top sep 0 (join_tokens sep (q # qs)) = q # qs"
    "split_top sep' 0 (join_tokens sep (q # qs)) = [join_tokens sep (q # qs)]" by simp_all
  show ?case
    using split_part [OF p, of sep "[sep] @ join_tokens sep (q # qs)"]
      split_part [OF p, of sep' "[sep] @ join_tokens sep (q # qs)"] assms IH
    by (auto simp: extend_head_def)
qed simp

subsection \<open>Reading a clause back\<close>

lemma read_part:
  assumes "nest 0 w = Some 0"
  shows "read_bool [TAtom c] = Some (BAtom c)"
    and "read_bool ([TOpen] @ w @ [TClose]) = read_bool w"
    and "read_bool ([TNot, TOpen] @ w @ [TClose]) = map_option BNot (read_bool w)"
proof -
  have one: "split_top sep 0 p = [p]" if "is_part p" "sep \<in> {TAnd, TOr}" for sep p
    using split_part [OF that, of "[]"] by (simp add: extend_head_def)
  have parts: "is_part [TAtom c]" "is_part ([TOpen] @ w @ [TClose])" "is_part ([TNot, TOpen] @ w @ [TClose])"
    using assms by (auto simp: is_part_def)
  show "read_bool [TAtom c] = Some (BAtom c)"
    by (subst read_bool.simps) simp
  show paren: "read_bool ([TOpen] @ w @ [TClose]) = read_bool w"
    using one [OF parts(2), of TOr] one [OF parts(2), of TAnd]
    by (subst read_bool.simps) (simp add: Let_def del: split_top.simps)
  show "read_bool ([TNot, TOpen] @ w @ [TClose]) = map_option BNot (read_bool w)"
    using one [OF parts(3), of TOr] one [OF parts(3), of TAnd] paren
    by (subst read_bool.simps) (simp add: Let_def del: split_top.simps)
qed

lemma all_some_map: "(\<And>x. x \<in> set xs \<Longrightarrow> f x = Some (g x)) \<Longrightarrow> all_some (map f xs) = Some (map g xs)"
  by (induction xs) auto

lemma read_join:
  assumes parts: "\<forall>(p, e) \<in> set pes. is_part p \<and> read_bool p = Some e" and "pes \<noteq> []" and "lop \<in> {''AND'', ''OR''}"
  shows "read_bool (join_tokens (op_token lop) (map fst pes)) = Some (combine_exp lop (map snd pes))"
proof (cases "length pes = 1")
  case True
  then obtain p e where "pes = [(p, e)]" by (cases pes) auto
  with parts show ?thesis by (simp add: combine_exp_def)
next
  case False
  with assms(2) have len: "length (map fst pes) \<noteq> 1" "map fst pes \<noteq> []" "length (map snd pes) \<noteq> 1" by auto
  have ps: "\<forall>p \<in> set (map fst pes). is_part p" using parts by auto
  have all: "all_some (map read_bool (map fst pes)) = Some (map snd pes)"
    unfolding map_map using parts by (intro all_some_map) auto
  have exp: "combine_exp lop (map snd pes) = (if lop = ''OR'' then BOr (map snd pes) else BAnd (map snd pes))"
    using len(3) by (auto simp: combine_exp_def split: list.split)
  from assms(3) consider "lop = ''AND''" | "lop = ''OR''" by blast
  then show ?thesis
  proof cases
    case 1
    with split_join [of TAnd TOr, OF _ _ _ ps len(2)] len(1) all exp show ?thesis
      by (subst read_bool.simps) (simp add: op_token_def Let_def del: map_map)
  next
    case 2
    with split_join [of TOr TAnd, OF _ _ _ ps len(2)] len(1) all exp show ?thesis
      by (subst read_bool.simps) (simp add: op_token_def Let_def del: map_map)
  qed
qed

lemma nest_part: "is_part p \<Longrightarrow> nest 0 p = Some 0"
  by (auto simp: is_part_def nest_append dest: nest_shift [of 0 _ 0 1])

lemma nest_join: "\<forall>p \<in> set ps. is_part p \<Longrightarrow> sep \<in> {TAnd, TOr} \<Longrightarrow> nest 0 (join_tokens sep ps) = Some 0"
  by (induction ps rule: induct_list012) (auto simp: nest_append nest_part)

text \<open>The parts of a clause with what each of them denotes.\<close>

definition part_pairs :: "field_condition list \<Rightarrow> where_clause list \<Rightarrow> where_clause option \<Rightarrow> (btok list \<times> bexp) list" where
  "part_pairs cs nested nc =
     map (\<lambda>c. ([TAtom c], BAtom c)) cs
     @ map (\<lambda>c. ([TOpen] @ clause_tokens c @ [TClose], clause_exp c)) nested
     @ (case nc of None \<Rightarrow> [] | Some c \<Rightarrow> [([TNot, TOpen] @ clause_tokens c @ [TClose], BNot (clause_exp c))])"

lemma clause_tokens_pairs:
  "clause_tokens (WhereClause cs lop nested nc) = join_tokens (op_token lop) (map fst (part_pairs cs nested nc))"
  "clause_exp (WhereClause cs lop nested nc) = combine_exp lop (map snd (part_pairs cs nested nc))"
  by (cases nc; simp add: part_pairs_def comp_def)+

lemma clause_read:
  "clause_valid c \<Longrightarrow> nest 0 (clause_tokens c) = Some 0 \<and> read_bool (clause_tokens c) = Some (clause_exp c)"
proof (induction c)
  case (WhereClause cs lop nested nc)
  note valid = clause_valid_sub [OF WhereClause.prems]
  have sub: "is_part ([TOpen] @ clause_tokens d @ [TClose]) \<and>
      read_bool ([TOpen] @ clause_tokens d @ [TClose]) = Some (clause_exp d)" if "d \<in> set nested" for d
    using WhereClause.IH(1) [OF that valid(2) [OF that]] read_part(2) by (auto simp: is_part_def)
  have neg: "is_part ([TNot, TOpen] @ clause_tokens d @ [TClose]) \<and>
      read_bool ([TNot, TOpen] @ clause_tokens d @ [TClose]) = Some (BNot (clause_exp d))" if "nc = Some d" for d
    using WhereClause.IH(2) [of d] valid(3) [OF that] that read_part(3) by (auto simp: is_part_def)
  have atom: "is_part [TAtom c] \<and> read_bool [TAtom c] = Some (BAtom c)" for c
    using read_part(1) [of "[]"] by (simp add: is_part_def)
  have parts: "\<forall>(p, e) \<in> set (part_pairs cs nested nc). is_part p \<and> read_bool p = Some e"
    using sub neg atom by (cases nc) (auto simp: part_pairs_def)
  have "part_pairs cs nested nc \<noteq> []" using valid(4) by (auto simp: part_pairs_def)
  from read_join [OF parts this valid(1)] have "read_bool (clause_tokens (WhereClause cs lop nested nc))
      = Some (clause_exp (WhereClause cs lop nested nc))" unfolding clause_tokens_pairs .
  moreover have "nest 0 (clause_tokens (WhereClause cs lop nested nc)) = Some 0"
    unfolding clause_tokens_pairs by (rule nest_join) (use parts in \<open>auto simp: op_token_def\<close>)
  ultimately show ?case by blast
qed

subsection \<open>The text of the tokens\<close>

fun tok_text :: "where_env \<Rightarrow> (string \<Rightarrow> string) \<Rightarrow> (pyval \<Rightarrow> string) \<Rightarrow> btok \<Rightarrow> string" where
  "tok_text env qi ql (TAtom fc) =
     (case condition_to_sql env fc of Inr (s, ps) \<Rightarrow> render qi ql s | Inl _ \<Rightarrow> [])"
| "tok_text env qi ql TOpen = ''(''"
| "tok_text env qi ql TClose = '')''"
| "tok_text env qi ql TAnd = '' AND ''"
| "tok_text env qi ql TOr = '' OR ''"
| "tok_text env qi ql TNot = ''NOT ''"

definition tokens_text :: "where_env \<Rightarrow> (string \<Rightarrow> string) \<Rightarrow> (pyval \<Rightarrow> string) \<Rightarrow> btok list \<Rightarrow> string" where
  "tokens_text env qi ql ts = concat (map (tok_text env qi ql) ts)"

lemma tokens_text_simps:
  "tokens_text env qi ql (a @ b) = tokens_text env qi ql a @ tokens_text env qi ql b"
  "tokens_text env qi ql (t # b) = tok_text env qi ql t @ tokens_text env qi ql b"
  "tokens_text env qi ql [] = []"
  by (simp_all add: tokens_text_def)

lemma tokens_text_join:
  "tokens_text env qi ql (join_tokens sep ps) = join_str (tok_text env qi ql sep) (map (tokens_text env qi ql) ps)"
  by (induction ps rule: induct_list012) (simp_all add: tokens_text_simps)

lemma render_sql_join: "render qi ql (sql_join sep cs) = join_str sep (map (render qi ql) cs)"
  unfolding sql_join_def by (induction cs rule: induct_list012) simp_all

lemma combine_parts_text:
  assumes "combine_parts lop parts = (Some s, ps)" "lop \<in> {''AND'', ''OR''}"
  shows "render qi ql s = join_str (tok_text env qi ql (op_token lop)) (map (render qi ql \<circ> fst) parts)"
  using assms(1)
proof (cases rule: combine_parts_cases)
  case 2
  with assms(2) show ?thesis by (auto simp: render_sql_join op_token_def)
qed simp

lemma own_text:
  assumes "map_result (condition_to_sql env) cs = Inr own"
  shows "map (render qi ql \<circ> fst) own = map (\<lambda>c. tokens_text env qi ql [TAtom c]) cs"
  using assms unfolding map_result_Inr_iff
  by (induction rule: list_all2_induct) (auto simp: tokens_text_simps)

lemma subs_text:
  assumes "map_result (clause_to_sql env) nested = Inr subs"
    and "\<And>d s ps. d \<in> set nested \<Longrightarrow> clause_to_sql env d = Inr (s, ps) \<Longrightarrow>
      \<exists>t. s = Some t \<and> render qi ql t = tokens_text env qi ql (clause_tokens d)"
  shows "map (render qi ql \<circ> fst) (clause_parts [] subs (None, []))
    = map (\<lambda>c. tokens_text env qi ql ([TOpen] @ clause_tokens c @ [TClose])) nested"
  using assms
proof (induction nested arbitrary: subs)
  case (Cons d ds)
  then obtain s ps xs where x: "clause_to_sql env d = Inr (s, ps)" "map_result (clause_to_sql env) ds = Inr xs"
    "subs = (s, ps) # xs" by (auto simp: rbind_eq_Inr)
  from Cons.prems(2) [of d] x(1) obtain t where
    t: "s = Some t" "render qi ql t = tokens_text env qi ql (clause_tokens d)" by auto
  from Cons.IH [OF x(2)] Cons.prems(2) have
    "map (render qi ql \<circ> fst) (clause_parts [] xs (None, []))
      = map (\<lambda>c. tokens_text env qi ql ([TOpen] @ clause_tokens c @ [TClose])) ds" by (simp add: comp_def)
  with t x(3) show ?case by (simp add: clause_parts_def tokens_text_simps comp_def)
qed (simp add: clause_parts_def)

lemma clause_parts_split: "clause_parts own subs neg = own @ clause_parts [] subs (None, []) @ clause_parts [] [] neg"
  by (simp add: clause_parts_def)

lemma clause_text:
  "clause_valid c \<Longrightarrow> clause_to_sql env c = Inr (s, ps) \<Longrightarrow>
   \<exists>t. s = Some t \<and> render qi ql t = tokens_text env qi ql (clause_tokens c)"
proof (induction c arbitrary: s ps)
  case (WhereClause cs lop nested nc)
  note valid = clause_valid_sub [OF WhereClause.prems(1)]
  from WhereClause.prems(2) obtain own subs neg where
    own: "map_result (condition_to_sql env) cs = Inr own" and
    subs: "map_result (clause_to_sql env) nested = Inr subs" and
    neg: "(case nc of None \<Rightarrow> Inr (None, []) | Some c \<Rightarrow> clause_to_sql env c) = Inr neg" and
    r: "(s, ps) = combine_parts lop (clause_parts own subs neg)"
    by (rule clause_to_sql_cases)
  from clause_never_empty [OF WhereClause.prems] obtain t where t: "s = Some t" by blast
  have neg_text: "map (render qi ql \<circ> fst) (clause_parts [] [] neg)
      = (case nc of None \<Rightarrow> [] | Some c \<Rightarrow> [tokens_text env qi ql ([TNot, TOpen] @ clause_tokens c @ [TClose])])"
  proof (cases nc)
    case (Some e)
    with neg WhereClause.IH(2) [of e "fst neg" "snd neg"] valid(3) [OF Some] obtain u where
      "fst neg = Some u" "render qi ql u = tokens_text env qi ql (clause_tokens e)" by auto
    with Some show ?thesis by (cases neg) (simp add: clause_parts_def tokens_text_simps)
  qed (use neg in \<open>auto simp: clause_parts_def\<close>)
  have sub_text: "map (render qi ql \<circ> fst) (clause_parts [] subs (None, []))
      = map (\<lambda>c. tokens_text env qi ql ([TOpen] @ clause_tokens c @ [TClose])) nested"
    by (rule subs_text [OF subs]) (use WhereClause.IH(1) valid(2) in blast)
  have "map (render qi ql \<circ> fst) (clause_parts own subs neg) = map (tokens_text env qi ql) (map fst (part_pairs cs nested nc))"
    unfolding clause_parts_split [of own subs neg] map_append own_text [OF own] sub_text neg_text
    by (simp add: part_pairs_def comp_def split: option.split)
  with combine_parts_text [OF r [symmetric, unfolded t] valid(1), of qi ql env] t show ?case
    by (simp add: clause_tokens_pairs tokens_text_join del: clause_tokens.simps)
qed

text \<open>
  C7: Boolean structure.  The text generated for a valid clause is the text of a token list that
  SQL's precedence (\<open>NOT\<close> before \<open>AND\<close> before \<open>OR\<close>) reads as exactly the combination of
  conditions the clause denotes, for every nesting of \<open>AND\<close>, \<open>OR\<close> and \<open>NOT\<close> and for any way to
  quote names and values.
\<close>

theorem clause_structure:
  assumes "clause_valid c" "clause_to_sql env c = Inr (s, ps)"
  shows "\<exists>t ts. s = Some t \<and> render qi ql t = tokens_text env qi ql ts \<and> read_bool ts = Some (clause_exp c)"
  using clause_text [OF assms] clause_read [OF assms(1)] by blast

theorem clause_structure_witness:
  "clause_exp example_clause =
     BAnd [BAtom (example_column ''status'' ''eq'' (PStr ''active'')),
           BOr [BAtom (example_column ''priority'' ''gt'' (PInt 3)),
                BNot (BAtom (example_column ''owner'' ''isnull'' (PBool True)))]]
   \<and> (\<exists>t ts. Some example_sql = Some t
        \<and> render (\<lambda>s. s) py_repr t = tokens_text example_env (\<lambda>s. s) py_repr ts
        \<and> read_bool ts = Some (clause_exp example_clause))"
proof
  show "clause_exp example_clause =
     BAnd [BAtom (example_column ''status'' ''eq'' (PStr ''active'')),
           BOr [BAtom (example_column ''priority'' ''gt'' (PInt 3)),
                BNot (BAtom (example_column ''owner'' ''isnull'' (PBool True)))]]"
    by (simp add: example_clause_def combine_exp_def)
qed (rule clause_structure [OF example_clause_valid example_clause_sql])

end
