(* ===== verification/WhereNormalize.thy ===== *)
theory WhereNormalize
  imports Casing WhereTexts BoolStructure
begin

section \<open>Normalisation of dict filters\<close>

text \<open>
  \<open>where_normalization.py\<close>: the translation of a nested filter dictionary into the canonical
  \<open>WhereClause\<close>, the annotation of its conditions with casts and the re-resolution onto flat
  columns.

  The registries of \<open>db.py\<close> that the code consults (\<open>_table_metadata\<close>, \<open>_type_registry\<close>) are the
  record \<open>norm_env\<close>; the type lookups of the annotation pass (\<open>_resolve_field_type\<close> with the
  \<open>issubclass\<close> tests) are functions the pass takes.  The source recurses on the Python stack: the
  model takes the remaining depth as fuel and raises \<open>RecursionError\<close> when it is used up; depth
  \<open>pv_depth\<close> of the input is enough.  Logging is not modelled.  A dictionary is an association
  list in insertion order.
\<close>

subsection \<open>Registries\<close>

record table_meta =
  columns :: "string list option"
  has_jsonb_data :: bool
  meta_jsonb_column :: "string option"
  fk_relationships :: "(string \<times> string) list"
  validate_fk_strict :: bool
  native_dimension_mapping :: "(string \<times> string) list"
  column_mapping :: "(string \<times> string) list"

record norm_env =
  table_metadata :: "string \<Rightarrow> table_meta option"
  declared_fields :: "string \<Rightarrow> string list"

subsection \<open>Operators and keys\<close>

definition has_underscore :: "string \<Rightarrow> bool" where
  "has_underscore s = (CHR ''_'' \<in> set s)"

definition normalize_operator :: "string \<Rightarrow> string" where
  "normalize_operator op =
     (if has_underscore op \<or> in_keys op ALL_OPERATORS then op
      else let snake_op = to_snake_case op in
           if in_keys snake_op ALL_OPERATORS then snake_op else op)"

definition field_db_name :: "string \<Rightarrow> string" where
  "field_db_name s = (if has_underscore s then s else to_snake_case s)"

text \<open>\<open>key.rpartition("__")\<close>: cut at the last double underscore; the scan runs on the reversed key.\<close>

fun cut_dunder :: "string \<Rightarrow> string \<Rightarrow> (string \<times> string) option" where
  "cut_dunder acc (c # d # r) =
     (if c = CHR ''_'' \<and> d = CHR ''_'' then Some (rev r, acc) else cut_dunder (c # acc) (d # r))"
| "cut_dunder acc _ = None"

definition rpartition_dunder :: "string \<Rightarrow> (string \<times> string) option" where
  "rpartition_dunder key = cut_dunder [] (rev key)"

definition reject_operator_suffix_key :: "norm_env \<Rightarrow> string \<Rightarrow> string \<Rightarrow> string list option \<Rightarrow> unit result" where
  "reject_operator_suffix_key ne key view cols =
     (case rpartition_dunder key of
        None \<Rightarrow> Inr ()
      | Some (field, op) \<Rightarrow>
          if field = [] \<or> \<not> in_keys op ALL_OPERATORS then Inr ()
          else if (case cols of None \<Rightarrow> False | Some cs \<Rightarrow> key \<in> set cs) then Inr ()
          else if key \<in> set (declared_fields ne view) then Inr ()
          else Inl ValueError)"

definition is_flat_view :: "norm_env \<Rightarrow> string \<Rightarrow> string list \<Rightarrow> bool" where
  "is_flat_view ne view cols =
     (cols = [] \<and> (case table_metadata ne view of
        None \<Rightarrow> False
      | Some md \<Rightarrow> \<not> has_jsonb_data md \<and> meta_jsonb_column md = None))"

subsection \<open>Vector filters\<close>

definition or_none :: "pyval option \<Rightarrow> pyval" where
  "or_none v = (case v of Some x \<Rightarrow> x | None \<Rightarrow> PNone)"

text \<open>The rewritten operand of one vector operator, in the three steps of the source.\<close>

definition distance_input_dict :: "pyval \<Rightarrow> pyval" where
  "distance_input_dict value =
     (if obj_attr value ''dense'' \<noteq> None \<or> obj_attr value ''sparse'' \<noteq> None
      then PDict [(''dense'', or_none (obj_attr value ''dense'')), (''sparse'', or_none (obj_attr value ''sparse''))]
      else value)"

definition vector_operand :: "pyval \<Rightarrow> pyval \<Rightarrow> pyval result" where
  "vector_operand threshold value =
     (case value of
        PDict d \<Rightarrow>
          (if in_keys ''dense'' d \<or> in_keys ''sparse'' d then
             (if or_none (map_of d ''dense'') = PNone then Inl ValueError
              else if threshold = PNone then Inl ValueError
              else Inr (PDict [(''vector'', or_none (map_of d ''dense''))]))
           else Inr value)
      | PStr s \<Rightarrow> if threshold = PNone then Inl ValueError else Inr (PDict [(''vector'', value)])
      | PList vs \<Rightarrow> Inr (if threshold \<noteq> PNone then PDict [(''vector'', value)] else value)
      | _ \<Rightarrow> Inr value)"

definition with_threshold :: "pyval \<Rightarrow> pyval \<Rightarrow> pyval" where
  "with_threshold threshold value =
     (case value of
        PDict d \<Rightarrow>
          (if threshold \<noteq> PNone \<and> \<not> in_keys ''threshold'' d
           then PDict (AList.update ''comparison'' (PStr ''lte'') (AList.update ''threshold'' threshold d))
           else value)
      | _ \<Rightarrow> value)"

definition fold_vector_value :: "pyval \<Rightarrow> pyval \<Rightarrow> pyval result" where
  "fold_vector_value threshold value =
     rbind (vector_operand threshold (distance_input_dict value)) (\<lambda>v. Inr (with_threshold threshold v))"

fun fold_vector_items :: "pydict \<Rightarrow> pyval \<Rightarrow> (string \<times> string) list \<Rightarrow> pydict \<Rightarrow> pydict result" where
  "fold_vector_items filt threshold [] folded = Inr folded"
| "fold_vector_items filt threshold ((op, key) # ops) folded =
     (let value = or_none (map_of filt key) in
      if op = ''distance_within'' then fold_vector_items filt threshold ops folded
      else if \<not> in_keys op VECTOR_OPERATORS \<or> value = PNone
        then fold_vector_items filt threshold ops (AList.update key value folded)
      else rbind (fold_vector_value threshold value) (\<lambda>v.
             fold_vector_items filt threshold ops (AList.update op v folded)))"

definition fold_vector_filter :: "pydict \<Rightarrow> pydict result" where
  "fold_vector_filter filt =
     (let operators = rebuild_dict (map (\<lambda>(k, v). (normalize_operator k, k)) filt) in
      if \<not> list_ex (\<lambda>(op, k). in_keys op VECTOR_OPERATORS) operators then Inr filt
      else let threshold = or_none (map_of filt
                 (case map_of operators ''distance_within'' of Some k \<Rightarrow> k | None \<Rightarrow> ''distance_within''))
           in fold_vector_items filt threshold operators [])"

subsection \<open>Nested objects\<close>

definition has_nested_ops :: "pydict \<Rightarrow> bool" where
  "has_nested_ops filt =
     list_ex (\<lambda>(k, v). case v of
        PDict d \<Rightarrow> \<not> list_ex (\<lambda>(k', w). k' \<in> {''OR'', ''AND'', ''NOT''}) d
      | _ \<Rightarrow> False) filt"

definition is_nested_object_filter ::
  "norm_env \<Rightarrow> string \<Rightarrow> pydict \<Rightarrow> string list option \<Rightarrow> string \<Rightarrow> (bool \<times> bool) result" where
  "is_nested_object_filter ne field filt cols view =
     (let column_exists = (\<lambda>c. case cols of None \<Rightarrow> False | Some cs \<Rightarrow> c \<in> set cs);
          by_convention = (case map_of filt ''id'' of
             Some (PDict d) \<Rightarrow> Inr (True, column_exists (field @ ''_id''))
           | _ \<Rightarrow> Inr (True, False))
      in if list_ex (\<lambda>(k, v). in_keys k VECTOR_OPERATORS
               \<or> in_keys (normalize_operator k) LTREE_INDEX_COMPARISONS
               \<or> normalize_operator k = ''distance_within'') filt then Inr (False, False)
         else if \<not> has_nested_ops filt then Inr (False, False)
         else case table_metadata ne view of
           None \<Rightarrow> by_convention
         | Some md \<Rightarrow>
             (case map_of (fk_relationships md) field of
                None \<Rightarrow> by_convention
              | Some fk_column \<Rightarrow>
                  if column_exists fk_column then Inr (True, True)
                  else if validate_fk_strict md then Inl RuntimeError
                  else by_convention))"

subsection \<open>Conditions of a field\<close>

definition make_condition ::
  "string list \<Rightarrow> string \<Rightarrow> pyval \<Rightarrow> string \<Rightarrow> string \<Rightarrow> string list option \<Rightarrow> field_condition result" where
  "make_condition path op v strat col jpath =
     validate_condition \<lparr>field_path = path, operator = op, fc_value = v, lookup_strategy = strat,
       target_column = col, jsonb_path = jpath, temporal_cast = None\<rparr>"

text \<open>One condition for each operator of a filter whose value is not \<open>None\<close>.\<close>

definition operator_conditions ::
  "(string \<Rightarrow> pyval \<Rightarrow> field_condition result) \<Rightarrow> pydict \<Rightarrow> field_condition list result" where
  "operator_conditions mk filt =
     map_result (\<lambda>(op, v). mk (normalize_operator op) v) (filter (\<lambda>(op, v). v \<noteq> PNone) filt)"

text \<open>The filter on a nested object through its foreign key.\<close>

definition fk_nested_conditions :: "string \<Rightarrow> string \<Rightarrow> pydict \<Rightarrow> field_condition list result" where
  "fk_nested_conditions jcol field filt =
     rbind (map_result (\<lambda>(k, v).
         let nested = field_db_name k in
         case v of
           PDict d \<Rightarrow>
             (if nested = ''id'' then
                operator_conditions (\<lambda>op w. make_condition [field, ''id''] op w ''fk_column'' (field @ ''_id'') None) d
              else
                operator_conditions (\<lambda>op w. make_condition [field, nested] op w ''jsonb_path'' jcol (Some [field, nested])) d)
         | _ \<Rightarrow> Inr []) filt)
       (\<lambda>css. Inr (concat css))"

text \<open>The filter on a field of the view itself.\<close>

definition direct_lookup :: "norm_env \<Rightarrow> string \<Rightarrow> string list option \<Rightarrow> string \<Rightarrow> string" where
  "direct_lookup ne view cols field =
     (case cols of
        Some cs \<Rightarrow> if field \<notin> set cs \<and> \<not> is_flat_view ne view cs then ''jsonb_path'' else ''sql_column''
      | None \<Rightarrow>
          (case table_metadata ne view of
             Some md \<Rightarrow> if has_jsonb_data md \<and> field \<noteq> ''id'' then ''jsonb_path'' else ''sql_column''
           | None \<Rightarrow> ''sql_column''))"

definition direct_conditions ::
  "norm_env \<Rightarrow> string \<Rightarrow> string list option \<Rightarrow> string \<Rightarrow> string \<Rightarrow> pydict \<Rightarrow> field_condition list result" where
  "direct_conditions ne view cols jcol field filt =
     operator_conditions (\<lambda>op v.
        if direct_lookup ne view cols field = ''jsonb_path'' \<and> \<not> in_keys op VECTOR_OPERATORS
        then make_condition [field] op v ''jsonb_path'' jcol (Some [field])
        else make_condition [field] op v ''sql_column'' field None) filt"

text \<open>\<open>field_path.insert(0, f)\<close>, and the same for a JSONB path that is set.\<close>

definition prefix_condition :: "string \<Rightarrow> field_condition \<Rightarrow> field_condition" where
  "prefix_condition f fc =
     fc\<lparr>field_path := f # field_path fc,
        jsonb_path := (case jsonb_path fc of
                         Some (k # ks) \<Rightarrow> Some (f # k # ks) | p \<Rightarrow> p)\<rparr>"

definition prefix_clause :: "string \<Rightarrow> where_clause \<Rightarrow> where_clause" where
  "prefix_clause f c = WhereClause (map (prefix_condition f) (conditions c)) (logical_op c) (nested_clauses c) (not_clause c)"

subsection \<open>The recursive translation\<close>

text \<open>
  What one entry of the dictionary adds: conditions, nested clauses and, possibly, the negated
  clause.  A later negation replaces an earlier one.
\<close>

type_synonym contribution = "field_condition list \<times> where_clause list \<times> where_clause option"

definition last_some :: "'a option list \<Rightarrow> 'a option" where
  "last_some xs = (case rev (filter (\<lambda>x. x \<noteq> None) xs) of [] \<Rightarrow> None | x # _ \<Rightarrow> x)"

definition merge_contributions :: "contribution list \<Rightarrow> contribution" where
  "merge_contributions cs =
     (concat (map fst cs), concat (map (fst \<circ> snd) cs), last_some (map (snd \<circ> snd) cs))"

definition clause_complex :: "where_clause \<Rightarrow> bool" where
  "clause_complex c = (nested_clauses c \<noteq> [] \<or> not_clause c \<noteq> None)"

definition or_item :: "(pyval \<Rightarrow> where_clause result) \<Rightarrow> pyval \<Rightarrow> contribution result" where
  "or_item rec v =
     (case v of
        PList ds \<Rightarrow>
          rbind (map_result rec ds) (\<lambda>cs.
            if cs = [] then Inr ([], [], None)
            else rbind (make_clause [] ''OR'' cs None) (\<lambda>c. Inr ([], [c], None)))
      | _ \<Rightarrow> Inr ([], [], None))"

definition and_item :: "(pyval \<Rightarrow> where_clause result) \<Rightarrow> pyval \<Rightarrow> contribution result" where
  "and_item rec v =
     (case v of
        PList ds \<Rightarrow>
          rbind (map_result rec ds) (\<lambda>cs.
            Inr (concat (map conditions (filter (\<lambda>c. \<not> clause_complex c) cs)), filter clause_complex cs, None))
      | _ \<Rightarrow> Inr ([], [], None))"

definition not_item :: "(pyval \<Rightarrow> where_clause result) \<Rightarrow> pyval \<Rightarrow> contribution result" where
  "not_item rec v =
     (case v of
        PDict d \<Rightarrow> rbind (rec v) (\<lambda>c. Inr ([], [], Some c))
      | _ \<Rightarrow> Inr ([], [], None))"

definition jsonb_nested_item ::
  "(pyval \<Rightarrow> where_clause result) \<Rightarrow> string \<Rightarrow> string \<Rightarrow> string \<times> pyval \<Rightarrow> contribution result" where
  "jsonb_nested_item rec jcol field kv =
     (let nested = field_db_name (fst kv) in
      case snd kv of
        PDict d \<Rightarrow>
          (if has_nested_ops d then
             rbind (rec (PDict [(nested, PDict d)])) (\<lambda>c.
               Inr (map (prefix_condition field) (conditions c), map (prefix_clause field) (nested_clauses c),
                    map_option (prefix_clause field) (not_clause c)))
           else
             rbind (operator_conditions (\<lambda>op v. make_condition [field, nested] op v ''jsonb_path'' jcol (Some [field, nested])) d)
                   (\<lambda>cs. Inr (cs, [], None)))
      | _ \<Rightarrow> Inr ([], [], None))"

definition field_item ::
  "(pyval \<Rightarrow> where_clause result) \<Rightarrow> norm_env \<Rightarrow> string \<Rightarrow> string list option \<Rightarrow> string \<Rightarrow> string \<Rightarrow> pyval \<Rightarrow> contribution result" where
  "field_item rec ne view cols jcol key v =
     rbind (reject_operator_suffix_key ne key view cols) (\<lambda>_.
     let field = field_db_name key in
     rbind (fold_vector_filter (case v of PDict d \<Rightarrow> d | _ \<Rightarrow> [(''eq'', v)])) (\<lambda>filt.
     rbind (is_nested_object_filter ne field filt cols view) (\<lambda>(is_nested, use_fk).
       if is_nested \<and> use_fk then rbind (fk_nested_conditions jcol field filt) (\<lambda>cs. Inr (cs, [], None))
       else if is_nested then
         rbind (map_result (jsonb_nested_item rec jcol field) filt) (\<lambda>cs. Inr (merge_contributions cs))
       else rbind (direct_conditions ne view cols jcol field filt) (\<lambda>cs. Inr (cs, [], None)))))"

definition dict_item ::
  "(pyval \<Rightarrow> where_clause result) \<Rightarrow> norm_env \<Rightarrow> string \<Rightarrow> string list option \<Rightarrow> string \<Rightarrow> string \<times> pyval \<Rightarrow> contribution result" where
  "dict_item rec ne view cols jcol kv =
     (if fst kv = ''OR'' then or_item rec (snd kv)
      else if fst kv = ''AND'' then and_item rec (snd kv)
      else if fst kv = ''NOT'' then not_item rec (snd kv)
      else field_item rec ne view cols jcol (fst kv) (snd kv))"

definition known_columns :: "norm_env \<Rightarrow> string \<Rightarrow> string list option \<Rightarrow> string list option" where
  "known_columns ne view cols =
     (case cols of
        Some cs \<Rightarrow> Some cs
      | None \<Rightarrow>
          (case table_metadata ne view of
             None \<Rightarrow> None
           | Some md \<Rightarrow> Some (case columns md of Some cs \<Rightarrow> cs | None \<Rightarrow> [])))"

fun normalize_dict_where ::
  "nat \<Rightarrow> norm_env \<Rightarrow> string \<Rightarrow> string \<Rightarrow> string list option \<Rightarrow> pyval \<Rightarrow> where_clause result" where
  "normalize_dict_where 0 ne view jcol cols w = Inl RecursionError"
| "normalize_dict_where (Suc n) ne view jcol cols w =
     (if \<not> truthy w then Inl ValueError
      else case w of
        PDict d \<Rightarrow>
          (let cols' = known_columns ne view cols in
           rbind (map_result (dict_item (normalize_dict_where n ne view jcol cols') ne view cols' jcol) d) (\<lambda>cs.
             case merge_contributions cs of (conds, nested, nc) \<Rightarrow> make_clause conds ''AND'' nested nc))
      | _ \<Rightarrow> Inl AttributeError)"

subsection \<open>Casts of declared fields\<close>

text \<open>
  The answers of \<open>_declared_temporal_cast\<close>, \<open>_declared_ltree\<close> and \<open>_declared_coordinate\<close> for the
  fields of the source type.
\<close>

datatype declared_temporal = NoTemporal | DeclaredTimestamptz | DeclaredDate

record declared_types =
  declared_temporal_cast :: "string list \<Rightarrow> declared_temporal"
  declared_ltree :: "string list \<Rightarrow> bool"
  declared_coordinate :: "string list \<Rightarrow> bool"

definition annotate_condition :: "declared_types \<Rightarrow> field_condition \<Rightarrow> field_condition" where
  "annotate_condition ty fc =
     (if temporal_cast fc \<noteq> None then fc
      else
        let path = field_path fc;
            c1 = (if lookup_strategy fc = ''jsonb_path'' then
                    (case declared_temporal_cast ty path of
                       DeclaredTimestamptz \<Rightarrow> Some ''timestamptz''
                     | DeclaredDate \<Rightarrow> Some ''date''
                     | NoTemporal \<Rightarrow> if declared_ltree ty path then Some ''ltree'' else None)
                  else None)
        in fc\<lparr>temporal_cast := (if c1 = None \<and> declared_coordinate ty path then Some ''point'' else c1)\<rparr>)"

function annotate_clause :: "declared_types \<Rightarrow> where_clause \<Rightarrow> where_clause" where
  "annotate_clause ty (WhereClause cs lop nested nc) =
     WhereClause (map (annotate_condition ty) cs) lop (map (annotate_clause ty) nested)
       (map_option (annotate_clause ty) nc)"
  by pat_completeness auto
termination
  by (relation "measure (\<lambda>(_, c). size c)")
    (auto simp: size_list_estimation' less_Suc_eq_le intro: trans_le_add1)

definition annotate_temporal_casts :: "declared_types option \<Rightarrow> where_clause \<Rightarrow> where_clause" where
  "annotate_temporal_casts source_type c =
     (case source_type of None \<Rightarrow> c | Some ty \<Rightarrow> annotate_clause ty c)"

subsection \<open>Declared column mappings\<close>

definition mapped_lookup_strategy :: "string \<Rightarrow> pyval \<Rightarrow> string" where
  "mapped_lookup_strategy column v =
     (if endswith column ''_id'' then ''fk_column''
      else if is_uuid v then ''fk_column''
      else case seq_items v of
        Some vs \<Rightarrow> if vs \<noteq> [] \<and> list_all is_uuid vs then ''fk_column'' else ''sql_column''
      | None \<Rightarrow> ''sql_column'')"

text \<open>\<open>replace\<close> runs the checks of the constructor again.\<close>

definition map_condition ::
  "(string \<times> string) list \<Rightarrow> string list option \<Rightarrow> bool \<Rightarrow> field_condition \<Rightarrow> field_condition result" where
  "map_condition mapping cols strict fc =
     (case map_of mapping (join_str ''.'' (field_path fc)) of
        None \<Rightarrow> Inr fc
      | Some column \<Rightarrow>
          if (case cols of Some cs \<Rightarrow> cs \<noteq> [] \<and> column \<notin> set cs | None \<Rightarrow> False)
          then (if strict then Inl RuntimeError else Inr fc)
          else validate_condition (fc\<lparr>lookup_strategy := mapped_lookup_strategy column (fc_value fc),
                 target_column := column, jsonb_path := None\<rparr>))"

function map_clause ::
  "(string \<times> string) list \<Rightarrow> string list option \<Rightarrow> bool \<Rightarrow> where_clause \<Rightarrow> where_clause result" where
  "map_clause mapping cols strict (WhereClause cs lop nested nc) =
     rbind (map_result (map_condition mapping cols strict) cs) (\<lambda>cs'.
     rbind (map_result (map_clause mapping cols strict) nested) (\<lambda>nested'.
     rbind (case nc of None \<Rightarrow> Inr None | Some c \<Rightarrow> map_sum id Some (map_clause mapping cols strict c)) (\<lambda>nc'.
       make_clause cs' lop nested' nc')))"
  by pat_completeness auto
termination
  by (relation "measure (\<lambda>(_, _, _, c). size c)")
    (auto simp: size_list_estimation' less_Suc_eq_le intro: trans_le_add1)

definition apply_column_mapping ::
  "(string \<times> string) list \<Rightarrow> string list option \<Rightarrow> bool \<Rightarrow> where_clause \<Rightarrow> where_clause result" where
  "apply_column_mapping mapping cols strict c = (if mapping = [] then Inr c else map_clause mapping cols strict c)"

end
