(* ===== verification/NormalizeProps.thy ===== *)
theory NormalizeProps
  imports WhereNormalize
begin

section \<open>Correctness of the normalisation\<close>

text \<open>
  Three groups of results: every clause that the normalisation, the cast annotation and the
  column mapping return is valid and typed, so the theorems on generated SQL apply to the
  whole pipeline; the translation terminates within the depth of its input; and the clause
  means what the logical keys of the dictionary say.
\<close>

subsection \<open>Invariant of the translation\<close>

definition fresh_condition :: "field_condition \<Rightarrow> bool" where
  "fresh_condition fc = (validate_condition fc = Inr fc \<and> temporal_cast fc = None \<and> plain (fc_value fc))"

definition fresh_clause :: "where_clause \<Rightarrow> bool" where
  "fresh_clause c = (clause_valid c \<and> (\<forall>fc \<in> clause_conditions c. fresh_condition fc))"

definition fresh_contribution :: "contribution \<Rightarrow> bool" where
  "fresh_contribution x =
     (case x of (cs, ns, nc) \<Rightarrow>
        (\<forall>fc \<in> set cs. fresh_condition fc) \<and> (\<forall>c \<in> set ns. fresh_clause c) \<and> (\<forall>c \<in> set_option nc. fresh_clause c))"

lemma validate_condition_Inr: "validate_condition fc = Inr x \<Longrightarrow> x = fc"
  by (simp add: validate_condition_def split: if_splits)

lemma make_condition_fresh:
  assumes "make_condition path op v strat col jp = Inr fc" "plain v"
  shows "fresh_condition fc"
  using assms validate_condition_Inr by (fastforce simp: make_condition_def fresh_condition_def)

lemma fresh_clause_iff:
  "fresh_clause (WhereClause cs lop ns nc) \<longleftrightarrow>
     lop \<in> {''AND'', ''OR''} \<and> (cs \<noteq> [] \<or> ns \<noteq> [] \<or> nc \<noteq> None) \<and> (\<forall>fc \<in> set cs. fresh_condition fc)
     \<and> (\<forall>d \<in> set ns. fresh_clause d) \<and> (\<forall>d \<in> set_option nc. fresh_clause d)"
proof -
  have "\<forall>fc \<in> set cs. fresh_condition fc \<Longrightarrow> \<forall>fc \<in> set cs. validate_condition fc = Inr fc"
    by (simp add: fresh_condition_def)
  then show ?thesis unfolding fresh_clause_def clause_valid.simps clause_conditions.simps by blast
qed

lemma make_clause_fresh:
  assumes "make_clause cs lop ns nc = Inr c" "fresh_contribution (cs, ns, nc)"
  shows "fresh_clause c"
proof -
  have c: "c = WhereClause cs lop ns nc" "lop \<in> {''AND'', ''OR''}" "cs \<noteq> [] \<or> ns \<noteq> [] \<or> nc \<noteq> None"
    using assms(1) unfolding make_clause_def by (auto split: if_splits)
  from assms(2) c(2,3) show ?thesis unfolding c(1) fresh_clause_iff by (simp add: fresh_contribution_def)
qed

lemma fresh_clause_parts:
  assumes "fresh_clause c"
  shows "fc \<in> set (conditions c) \<Longrightarrow> fresh_condition fc" "d \<in> set (nested_clauses c) \<Longrightarrow> fresh_clause d"
    "not_clause c = Some e \<Longrightarrow> fresh_clause e"
  using assms by (cases c; simp add: fresh_clause_iff)+

lemma last_some_mem: "last_some xs = Some y \<Longrightarrow> Some y \<in> set xs"
proof -
  assume "last_some xs = Some y"
  then obtain r where "rev (filter (\<lambda>x. x \<noteq> None) xs) = Some y # r" by (auto simp: last_some_def split: list.splits)
  then have "Some y \<in> set (rev (filter (\<lambda>x. x \<noteq> None) xs))" by simp
  then show ?thesis by simp
qed

lemma merge_fresh: "\<forall>x \<in> set xs. fresh_contribution x \<Longrightarrow> fresh_contribution (merge_contributions xs)"
  by (fastforce simp: merge_contributions_def fresh_contribution_def dest: last_some_mem)

lemma operator_conditions_fresh:
  assumes "operator_conditions mk filt = Inr cs" "\<forall>(k, v) \<in> set filt. plain v"
    and "\<And>op v fc. plain v \<Longrightarrow> mk op v = Inr fc \<Longrightarrow> fresh_condition fc"
  shows "\<forall>fc \<in> set cs. fresh_condition fc"
proof
  fix fc assume "fc \<in> set cs"
  then obtain op v where "(op, v) \<in> set filt" "mk (normalize_operator op) v = Inr fc"
    using map_result_set [OF assms(1) [unfolded operator_conditions_def]] by fastforce
  with assms(2,3) show "fresh_condition fc" by blast
qed

lemma prefix_condition_fresh: "fresh_condition fc \<Longrightarrow> fresh_condition (prefix_condition f fc)"
  unfolding fresh_condition_def prefix_condition_def validate_condition_def
  by (cases "jsonb_path fc"; cases "the (jsonb_path fc)"; simp split: if_splits)

lemma prefix_clause_fresh: "fresh_clause c \<Longrightarrow> fresh_clause (prefix_clause f c)"
  by (cases c) (simp add: prefix_clause_def fresh_clause_iff prefix_condition_fresh)

subsection \<open>Plain values stay plain\<close>

definition plain_dict :: "pydict \<Rightarrow> bool" where
  "plain_dict d = (\<forall>(k, v) \<in> set d. plain v)"

lemma plain_PDict: "plain (PDict d) \<longleftrightarrow> plain_dict d"
  by (auto simp: plain_dict_def)

lemma plain_map_of: "plain_dict d \<Longrightarrow> map_of d k = Some v \<Longrightarrow> plain v"
  by (auto simp: plain_dict_def dest: map_of_SomeD)

lemma plain_or_none: "plain_dict d \<Longrightarrow> plain (or_none (map_of d k))"
  by (auto simp: or_none_def split: option.split dest: plain_map_of)

lemma plain_obj_attr: "plain v \<Longrightarrow> plain (or_none (obj_attr v a))"
  by (cases v) (auto simp: or_none_def split: option.split dest!: map_of_SomeD)

lemma plain_update: "plain_dict d \<Longrightarrow> plain v \<Longrightarrow> plain_dict (AList.update k v d)"
  unfolding plain_dict_def by (induction d) auto

lemma vector_operand_plain:
  assumes "vector_operand threshold w = Inr x" "plain w"
  shows "plain x"
proof (cases w)
  case (PDict d)
  with assms(2) have "plain_dict d" by (simp only: plain_PDict)
  with assms PDict show ?thesis by (auto simp: vector_operand_def plain_or_none split: if_splits)
qed (use assms in \<open>auto simp: vector_operand_def split: if_splits\<close>)

lemma with_threshold_plain:
  assumes "plain threshold" "plain v"
  shows "plain (with_threshold threshold v)"
proof (cases v)
  case (PDict d)
  with assms(2) have "plain_dict d" by (simp only: plain_PDict)
  with assms(1) have "plain_dict (AList.update ''comparison'' (PStr ''lte'') (AList.update ''threshold'' threshold d))"
    by (intro plain_update) simp_all
  with assms(2) PDict show ?thesis by (simp add: with_threshold_def plain_PDict [symmetric])
qed (use assms in \<open>auto simp: with_threshold_def\<close>)

lemma fold_vector_value_plain:
  assumes "fold_vector_value threshold value = Inr v" "plain threshold" "plain value"
  shows "plain v"
proof -
  have "plain (distance_input_dict value)" using assms(3) plain_obj_attr by (simp add: distance_input_dict_def)
  moreover obtain x where "vector_operand threshold (distance_input_dict value) = Inr x" "v = with_threshold threshold x"
    using assms(1) unfolding fold_vector_value_def rbind_eq_Inr by blast
  ultimately show ?thesis using vector_operand_plain with_threshold_plain [OF assms(2)] by blast
qed

lemma fold_vector_items_plain:
  assumes "plain_dict filt" "plain threshold"
  shows "fold_vector_items filt threshold ops folded = Inr r \<Longrightarrow> plain_dict folded \<Longrightarrow> plain_dict r"
proof (induction ops arbitrary: folded)
  case (Cons p ops)
  obtain op key where p: "p = (op, key)" by (cases p)
  have v: "plain (or_none (map_of filt key))" using plain_or_none [OF assms(1)] .
  from Cons.prems(1) consider
      "fold_vector_items filt threshold ops folded = Inr r"
    | "fold_vector_items filt threshold ops (AList.update key (or_none (map_of filt key)) folded) = Inr r"
    | w where "fold_vector_value threshold (or_none (map_of filt key)) = Inr w"
        "fold_vector_items filt threshold ops (AList.update op w folded) = Inr r"
    unfolding p fold_vector_items.simps Let_def rbind_eq_Inr by (auto split: if_splits simp: rbind_eq_Inr)
  then show ?case
    by cases (use Cons.IH Cons.prems(2) plain_update v fold_vector_value_plain [OF _ assms(2) v] in blast)+
qed simp

lemma fold_vector_filter_plain:
  assumes "fold_vector_filter filt = Inr r" "plain_dict filt"
  shows "plain_dict r"
  using assms fold_vector_items_plain [OF assms(2) plain_or_none [OF assms(2)], of _ _ "[]" r]
  by (auto simp: fold_vector_filter_def Let_def plain_dict_def [of "[]"] split: if_splits)

subsection \<open>Every entry adds valid, typed conditions\<close>

definition sound_rec :: "(pyval \<Rightarrow> where_clause result) \<Rightarrow> bool" where
  "sound_rec rec = (\<forall>v c. plain v \<longrightarrow> rec v = Inr c \<longrightarrow> fresh_clause c)"

lemma fresh_nothing: "fresh_contribution ([], [], None)"
  by (simp add: fresh_contribution_def)

lemma sound_rec_list:
  assumes "sound_rec rec" "plain (PList ds)" "map_result rec ds = Inr cs"
  shows "\<forall>c \<in> set cs. fresh_clause c"
  using assms map_result_set [OF assms(3)] by (fastforce simp: sound_rec_def)

lemma or_item_fresh:
  assumes "sound_rec rec" "plain v" "or_item rec v = Inr x"
  shows "fresh_contribution x"
proof (cases v)
  case (PList ds)
  with assms(3) obtain cs where cs: "map_result rec ds = Inr cs"
    and x: "(if cs = [] then Inr ([], [], None) else rbind (make_clause [] ''OR'' cs None) (\<lambda>c. Inr ([], [c], None))) = Inr x"
    by (auto simp: or_item_def rbind_eq_Inr)
  have "fresh_contribution ([], cs, None)"
    using sound_rec_list [OF assms(1) _ cs] assms(2) PList by (simp add: fresh_contribution_def)
  then have "fresh_clause c" if "make_clause [] ''OR'' cs None = Inr c" for c
    using make_clause_fresh [OF that] by blast
  with x show ?thesis by (auto simp: rbind_eq_Inr fresh_contribution_def split: if_splits)
qed (use assms(3) fresh_nothing in \<open>auto simp: or_item_def\<close>)

lemma and_item_fresh:
  assumes "sound_rec rec" "plain v" "and_item rec v = Inr x"
  shows "fresh_contribution x"
proof (cases v)
  case (PList ds)
  with assms(3) obtain cs where cs: "map_result rec ds = Inr cs"
    and x: "x = (concat (map conditions (filter (\<lambda>c. \<not> clause_complex c) cs)), filter clause_complex cs, None)"
    by (auto simp: and_item_def rbind_eq_Inr)
  have "\<forall>c \<in> set cs. fresh_clause c" using sound_rec_list [OF assms(1) _ cs] assms(2) PList by simp
  with x show ?thesis using fresh_clause_parts(1) by (fastforce simp: fresh_contribution_def)
qed (use assms(3) fresh_nothing in \<open>auto simp: and_item_def\<close>)

lemma not_item_fresh:
  assumes "sound_rec rec" "plain v" "not_item rec v = Inr x"
  shows "fresh_contribution x"
proof (cases v)
  case (PDict d)
  with assms show ?thesis by (auto simp: not_item_def rbind_eq_Inr sound_rec_def fresh_contribution_def simp del: plain.simps)
qed (use assms(3) fresh_nothing in \<open>auto simp: not_item_def\<close>)

lemma operator_conditions_make:
  assumes "operator_conditions (\<lambda>op v. if b op then make_condition p op v s c j else make_condition p' op v s' c' j') d = Inr cs"
    and "plain_dict d"
  shows "\<forall>fc \<in> set cs. fresh_condition fc"
  by (rule operator_conditions_fresh [OF assms(1) assms(2) [unfolded plain_dict_def]])
    (auto split: if_splits dest: make_condition_fresh)

lemma jsonb_nested_fresh:
  assumes "sound_rec rec" "plain (snd kv)" "jsonb_nested_item rec jcol field kv = Inr x"
  shows "fresh_contribution x"
proof (cases "snd kv")
  case (PDict d)
  let ?n = "field_db_name (fst kv)"
  have d: "plain_dict d" using assms(2) by (simp only: PDict plain_PDict)
  show ?thesis
  proof (cases "has_nested_ops d")
    case True
    with assms(3) PDict obtain c where c: "rec (PDict [(?n, PDict d)]) = Inr c" and
      x: "x = (map (prefix_condition field) (conditions c), map (prefix_clause field) (nested_clauses c),
               map_option (prefix_clause field) (not_clause c))"
      by (auto simp: jsonb_nested_item_def Let_def rbind_eq_Inr)
    have "plain (PDict [(?n, PDict d)])" using assms(2) PDict by simp
    with c assms(1) have "fresh_clause c" by (simp only: sound_rec_def)
    note parts = fresh_clause_parts [OF this]
    show ?thesis
      using parts by (auto simp: x fresh_contribution_def intro: prefix_condition_fresh prefix_clause_fresh)
  next
    case False
    with assms(3) PDict obtain cs where
      "operator_conditions (\<lambda>op v. make_condition [field, ?n] op v ''jsonb_path'' jcol (Some [field, ?n])) d = Inr cs"
      and x: "x = (cs, [], None)"
      by (auto simp: jsonb_nested_item_def Let_def rbind_eq_Inr)
    from operator_conditions_make [of "\<lambda>_. True", simplified, OF this(1) d] show ?thesis
      by (simp add: x fresh_contribution_def)
  qed
qed (use assms(3) fresh_nothing in \<open>auto simp: jsonb_nested_item_def\<close>)

lemma fk_nested_fresh:
  assumes "plain_dict filt" "fk_nested_conditions jcol field filt = Inr cs"
  shows "\<forall>fc \<in> set cs. fresh_condition fc"
proof -
  let ?f = "\<lambda>(k, v). let nested = field_db_name k in
         case v of
           PDict d \<Rightarrow>
             (if nested = ''id'' then
                operator_conditions (\<lambda>op w. make_condition [field, ''id''] op w ''fk_column'' (field @ ''_id'') None) d
              else
                operator_conditions (\<lambda>op w. make_condition [field, nested] op w ''jsonb_path'' jcol (Some [field, nested])) d)
         | _ \<Rightarrow> Inr []"
  obtain css where css: "map_result ?f filt = Inr css" "cs = concat css"
    using assms(2) unfolding fk_nested_conditions_def rbind_eq_Inr by blast
  have "\<forall>fc \<in> set ds. fresh_condition fc" if "ds \<in> set css" for ds
  proof -
    from map_result_set [OF css(1) that] obtain k v where kv: "(k, v) \<in> set filt" "?f (k, v) = Inr ds" by auto
    show ?thesis
    proof (cases v)
      case (PDict d)
      have "plain (PDict d)" using assms(1) kv(1) unfolding PDict plain_dict_def by blast
      then have d: "plain_dict d" by (simp only: plain_PDict)
      from kv(2) PDict operator_conditions_make [of "\<lambda>_. True", simplified, OF _ d] show ?thesis
        by (auto simp: Let_def split: if_splits)
    qed (use kv(2) in auto)
  qed
  with css(2) show ?thesis by auto
qed

lemma field_item_fresh:
  assumes "sound_rec rec" "plain v" "field_item rec ne view cols jcol key v = Inr x"
  shows "fresh_contribution x"
proof -
  let ?d = "case v of PDict d \<Rightarrow> d | _ \<Rightarrow> [(''eq'', v)]" and ?field = "field_db_name key"
  obtain filt is_nested use_fk where filt: "fold_vector_filter ?d = Inr filt" and
    x: "(if is_nested \<and> use_fk then rbind (fk_nested_conditions jcol ?field filt) (\<lambda>cs. Inr (cs, [], None))
       else if is_nested then
         rbind (map_result (jsonb_nested_item rec jcol ?field) filt) (\<lambda>cs. Inr (merge_contributions cs))
       else rbind (direct_conditions ne view cols jcol ?field filt) (\<lambda>cs. Inr (cs, [], None))) = Inr x"
    using assms(3) unfolding field_item_def Let_def rbind_eq_Inr by auto
  have "plain_dict ?d" using assms(2) by (cases v) (auto simp: plain_dict_def)
  note filt = fold_vector_filter_plain [OF filt this]
  have nested: "fresh_contribution (merge_contributions cs)"
    if cs: "map_result (jsonb_nested_item rec jcol ?field) filt = Inr cs" for cs
  proof (rule merge_fresh, rule ballI)
    fix y assume "y \<in> set cs"
    from map_result_set [OF cs this] obtain kv where "kv \<in> set filt" "jsonb_nested_item rec jcol ?field kv = Inr y" by blast
    moreover from this(1) filt have "plain (snd kv)" by (cases kv) (auto simp: plain_dict_def)
    ultimately show "fresh_contribution y" using assms(1) by (blast intro: jsonb_nested_fresh)
  qed
  have direct: "\<forall>fc \<in> set cs. fresh_condition fc" if "direct_conditions ne view cols jcol ?field filt = Inr cs" for cs
    using operator_conditions_make [OF that [unfolded direct_conditions_def] filt] .
  from x show ?thesis
    using nested direct fk_nested_fresh [OF filt] by (auto simp: rbind_eq_Inr fresh_contribution_def split: if_splits)
qed

lemma dict_item_fresh:
  assumes "sound_rec rec" "plain (snd kv)" "dict_item rec ne view cols jcol kv = Inr x"
  shows "fresh_contribution x"
  using assms or_item_fresh and_item_fresh not_item_fresh field_item_fresh
  unfolding dict_item_def by (auto split: if_splits)

lemma normalize_fresh: "sound_rec (normalize_dict_where n ne view jcol cols)"
proof (induction n arbitrary: cols)
  case (Suc n)
  show ?case
    unfolding sound_rec_def
  proof (intro allI impI)
    fix w c assume "plain w" and n: "normalize_dict_where (Suc n) ne view jcol cols w = Inr c"
    then obtain d where w: "w = PDict d" by (cases w) (auto split: if_splits)
    let ?cols = "known_columns ne view cols"
    from n w obtain xs where
      xs: "map_result (dict_item (normalize_dict_where n ne view jcol ?cols) ne view ?cols jcol) d = Inr xs" and
      c: "(case merge_contributions xs of (conds, nested, nc) \<Rightarrow> make_clause conds ''AND'' nested nc) = Inr c"
      by (auto simp: Let_def rbind_eq_Inr split: if_splits)
    have "fresh_contribution x" if "x \<in> set xs" for x
    proof -
      from map_result_set [OF xs that] obtain kv where
        kv: "kv \<in> set d" "dict_item (normalize_dict_where n ne view jcol ?cols) ne view ?cols jcol kv = Inr x" by blast
      with \<open>plain w\<close> w have "plain (snd kv)" by simp
      from dict_item_fresh [OF Suc this kv(2)] show ?thesis .
    qed
    then have "\<forall>x \<in> set xs. fresh_contribution x" by blast
    from merge_fresh [OF this] c show "fresh_clause c"
      by (cases "merge_contributions xs") (auto intro: make_clause_fresh)
  qed
qed (simp add: sound_rec_def)

text \<open>
  C11: The normalisation only builds clauses that pass the constructors' checks: whatever plain
  filter dictionary a client sends, the result is valid at every level, its conditions carry a
  registered operator, a known lookup strategy and, for a JSONB lookup, a non-empty path.
\<close>

theorem normalize_valid:
  assumes "plain w" "normalize_dict_where n ne view jcol cols w = Inr c"
  shows "clause_valid c \<and> (\<forall>fc \<in> clause_conditions c. validate_condition fc = Inr fc
           \<and> temporal_cast fc = None \<and> plain (fc_value fc))"
  using normalize_fresh assms unfolding sound_rec_def fresh_clause_def fresh_condition_def by blast

definition example_norm_env :: norm_env where
  "example_norm_env = \<lparr>table_metadata = (\<lambda>_. None), declared_fields = (\<lambda>_. [])\<rparr>"

definition example_filter :: pyval where
  "example_filter = PDict [(''status'', PDict [(''eq'', PStr ''a'')]),
     (''OR'', PList [PDict [(''userName'', PStr ''x'')], PDict [(''NOT'', PDict [(''age'', PDict [(''gt'', PInt 3)])])]])]"

definition jsonb_condition :: "string list \<Rightarrow> string \<Rightarrow> pyval \<Rightarrow> field_condition" where
  "jsonb_condition path op v = \<lparr>field_path = path, operator = op, fc_value = v, lookup_strategy = ''jsonb_path'',
     target_column = ''data'', jsonb_path = Some path, temporal_cast = None\<rparr>"

definition example_normalized :: where_clause where
  "example_normalized = WhereClause [example_column ''status'' ''eq'' (PStr ''a'')] ''AND''
     [WhereClause [] ''OR''
        [WhereClause [jsonb_condition [''user_name''] ''eq'' (PStr ''x'')] ''AND'' [] None,
         WhereClause [] ''AND'' [] (Some (WhereClause [jsonb_condition [''age''] ''gt'' (PInt 3)] ''AND'' [] None))] None] None"

lemma example_filter_normalized:
  "normalize_dict_where 9 example_norm_env ''v_users'' ''data'' (Some [''id'', ''status'']) example_filter = Inr example_normalized"
  by code_simp

lemma example_filter_plain: "plain example_filter"
  by (simp add: example_filter_def)

theorem normalize_valid_witness:
  "normalize_dict_where 9 example_norm_env ''v_users'' ''data'' (Some [''id'', ''status'']) example_filter = Inr example_normalized
   \<and> clause_valid example_normalized
   \<and> temporal_cast (jsonb_condition [''age''] ''gt'' (PInt 3)) = None \<and> plain (fc_value (jsonb_condition [''age''] ''gt'' (PInt 3)))
   \<and> validate_condition (jsonb_condition [''age''] ''gt'' (PInt 3)) = Inr (jsonb_condition [''age''] ''gt'' (PInt 3))"
proof -
  have "jsonb_condition [''age''] ''gt'' (PInt 3) \<in> clause_conditions example_normalized"
    by (simp add: example_normalized_def)
  with normalize_valid [OF example_filter_plain example_filter_normalized] example_filter_normalized show ?thesis by blast
qed

subsection \<open>The depth of the input is enough fuel\<close>

function pv_depth :: "pyval \<Rightarrow> nat" where
  "pv_depth v = (case v of
      PList vs \<Rightarrow> Suc (Max (insert 0 (pv_depth ` set vs)))
    | PDict d \<Rightarrow> Suc (Max (insert 0 ((\<lambda>p. pv_depth (snd p)) ` set d)))
    | _ \<Rightarrow> 0)"
  by pat_completeness auto
termination
proof (relation "measure size", goal_cases)
  case (3 v d p)
  then have "size p \<le> size_list size d" for size :: "string \<times> pyval \<Rightarrow> nat"
    by (simp add: size_list_estimation')
  from this [of "size_prod (\<lambda>_. 0) size"] 3 show ?case by (cases p) simp
qed (auto simp: size_list_estimation' less_Suc_eq_le)

declare pv_depth.simps [simp del]

lemma pv_depth_dict: "(k, v) \<in> set d \<Longrightarrow> pv_depth v < pv_depth (PDict d)"
proof -
  assume "(k, v) \<in> set d"
  then have "pv_depth v \<in> insert 0 ((\<lambda>p. pv_depth (snd p)) ` set d)" by force
  then have "pv_depth v \<le> Max (insert 0 ((\<lambda>p. pv_depth (snd p)) ` set d))" by (intro Max_ge) auto
  then show ?thesis by (simp add: pv_depth.simps [of "PDict d"])
qed

lemma pv_depth_list: "v \<in> set vs \<Longrightarrow> pv_depth v < pv_depth (PList vs)"
proof -
  assume "v \<in> set vs"
  then have "pv_depth v \<le> Max (insert 0 (pv_depth ` set vs))" by (intro Max_ge) auto
  then show ?thesis by (simp add: pv_depth.simps [of "PList vs"])
qed

lemma pv_depth_single: "pv_depth (PDict [(k, v)]) = Suc (pv_depth v)"
  by (simp add: pv_depth.simps [of "PDict [(k, v)]"])

text \<open>A folded vector filter either shows its vector operator or has the values it had before.\<close>

lemma update_keys: "in_keys k (AList.update k' v d) \<longleftrightarrow> k = k' \<or> in_keys k d"
  by (simp add: in_keys_def dom_update [symmetric] image_iff) (induction d; auto)

lemma update_values: "(k, w) \<in> set (AList.update k' v d) \<Longrightarrow> w = v \<or> (k, w) \<in> set d"
  by (induction d) (auto split: if_splits)

lemma or_none_value: "or_none (map_of d k) = PNone \<or> (\<exists>j. (j, or_none (map_of d k)) \<in> set d)"
  by (auto simp: or_none_def split: option.split dest: map_of_SomeD)

definition kept_values :: "pydict \<Rightarrow> pydict \<Rightarrow> bool" where
  "kept_values filt d = (\<forall>(k, v) \<in> set d. v = PNone \<or> (\<exists>j. (j, v) \<in> set filt))"

lemma kept_values_update:
  assumes "kept_values filt d"
  shows "kept_values filt (AList.update key (or_none (map_of filt key)) d)"
  using assms or_none_value [of filt key] unfolding kept_values_def by (auto dest!: update_values)

definition shows_vector :: "pydict \<Rightarrow> bool" where
  "shows_vector d = (\<exists>k. in_keys k d \<and> in_keys k VECTOR_OPERATORS)"

lemma fold_vector_items_kept:
  "fold_vector_items filt threshold ops folded = Inr r \<Longrightarrow> shows_vector folded \<or> kept_values filt folded \<Longrightarrow>
   shows_vector r \<or> kept_values filt r"
proof (induction ops arbitrary: folded)
  case (Cons p ops)
  obtain op key where p: "p = (op, key)" by (cases p)
  from Cons.prems(1) consider
      "fold_vector_items filt threshold ops folded = Inr r"
    | "fold_vector_items filt threshold ops (AList.update key (or_none (map_of filt key)) folded) = Inr r"
    | w where "in_keys op VECTOR_OPERATORS" "fold_vector_items filt threshold ops (AList.update op w folded) = Inr r"
    unfolding p fold_vector_items.simps Let_def rbind_eq_Inr by (auto split: if_splits simp: rbind_eq_Inr)
  then show ?case
  proof cases
    case 1
    then show ?thesis using Cons.IH Cons.prems(2) by blast
  next
    case 2
    moreover have "shows_vector (AList.update key (or_none (map_of filt key)) folded)
        \<or> kept_values filt (AList.update key (or_none (map_of filt key)) folded)"
      using Cons.prems(2) kept_values_update by (auto simp: shows_vector_def update_keys)
    ultimately show ?thesis using Cons.IH by blast
  next
    case (3 w)
    then have "shows_vector (AList.update op w folded)" by (auto simp: shows_vector_def update_keys)
    with 3 Cons.IH show ?thesis by blast
  qed
qed simp

lemma fold_vector_filter_kept:
  assumes "fold_vector_filter filt = Inr r"
  shows "shows_vector r \<or> kept_values filt r"
proof -
  have "kept_values filt filt" "kept_values filt []" by (auto simp: kept_values_def)
  with assms show ?thesis
    using fold_vector_items_kept by (fastforce simp: fold_vector_filter_def Let_def split: if_splits)
qed

lemma nested_not_vector:
  assumes "is_nested_object_filter ne f filt cols view = Inr (True, b)"
  shows "\<not> shows_vector filt"
proof
  assume "shows_vector filt"
  then obtain k where k: "in_keys k filt" "in_keys k VECTOR_OPERATORS" unfolding shows_vector_def by blast
  from k(1) obtain v where "(k, v) \<in> set filt" by (auto simp: in_keys_def)
  with k(2) have "list_ex (\<lambda>(k, v). in_keys k VECTOR_OPERATORS
      \<or> in_keys (normalize_operator k) LTREE_INDEX_COMPARISONS \<or> normalize_operator k = ''distance_within'') filt"
    unfolding list_ex_iff by blast
  with assms show False by (simp add: is_nested_object_filter_def Let_def)
qed

lemma nested_values:
  assumes "fold_vector_filter filt0 = Inr filt" "is_nested_object_filter ne f filt cols view = Inr (True, b)"
    and "(k, PDict d) \<in> set filt"
  shows "\<exists>j. (j, PDict d) \<in> set filt0"
  using fold_vector_filter_kept [OF assms(1)] nested_not_vector [OF assms(2)] assms(3)
  unfolding kept_values_def by fastforce

text \<open>Two recursive calls that agree on smaller values give the same contributions.\<close>

definition agree_below :: "nat \<Rightarrow> (pyval \<Rightarrow> where_clause result) \<Rightarrow> (pyval \<Rightarrow> where_clause result) \<Rightarrow> bool" where
  "agree_below n rec rec' = (\<forall>v. pv_depth v < n \<longrightarrow> rec v = rec' v)"

lemma agree_list:
  assumes "agree_below n rec rec'" "pv_depth (PList ds) < n"
  shows "map_result rec ds = map_result rec' ds"
  using assms pv_depth_list by (intro map_result_cong refl) (fastforce simp: agree_below_def)

lemma jsonb_nested_agree:
  assumes "agree_below n rec rec'" "\<And>d. snd kv = PDict d \<Longrightarrow> Suc (pv_depth (PDict d)) < n"
  shows "jsonb_nested_item rec jcol field kv = jsonb_nested_item rec' jcol field kv"
proof (cases "snd kv")
  case (PDict d)
  have "rec (PDict [(k, PDict d)]) = rec' (PDict [(k, PDict d)])" for k
    using assms(1) assms(2) [OF PDict] by (simp add: agree_below_def pv_depth_single)
  with PDict show ?thesis by (simp add: jsonb_nested_item_def Let_def)
qed (simp_all add: jsonb_nested_item_def)

lemma field_item_agree:
  assumes "agree_below n rec rec'" "pv_depth v < n"
  shows "field_item rec ne view cols jcol key v = field_item rec' ne view cols jcol key v"
proof -
  let ?d = "case v of PDict d \<Rightarrow> d | _ \<Rightarrow> [(''eq'', v)]" and ?field = "field_db_name key"
  have same: "map_result (jsonb_nested_item rec jcol ?field) filt = map_result (jsonb_nested_item rec' jcol ?field) filt"
    if filt: "fold_vector_filter ?d = Inr filt" "is_nested_object_filter ne ?field filt cols view = Inr (True, b)" for filt b
  proof (rule map_result_cong [OF refl], rule jsonb_nested_agree [OF assms(1)])
    fix kv d assume "kv \<in> set filt" "snd kv = PDict d"
    then have "(fst kv, PDict d) \<in> set filt" by (metis prod.collapse)
    from nested_values [OF filt this] obtain j where "(j, PDict d) \<in> set ?d" by blast
    then have "pv_depth (PDict d) < pv_depth v" by (cases v) (auto dest: pv_depth_dict)
    with assms(2) show "Suc (pv_depth (PDict d)) < n" by simp
  qed
  show ?thesis
    unfolding field_item_def Let_def
    by (intro rbind_cong refl) (auto simp: same split: prod.split)
qed

lemma dict_item_agree:
  assumes "agree_below n rec rec'" "pv_depth (snd kv) < n"
  shows "dict_item rec ne view cols jcol kv = dict_item rec' ne view cols jcol kv"
proof -
  have "or_item rec (snd kv) = or_item rec' (snd kv)" "and_item rec (snd kv) = and_item rec' (snd kv)"
    using agree_list [OF assms(1)] assms(2) by (cases "snd kv"; simp add: or_item_def and_item_def)+
  moreover have "not_item rec (snd kv) = not_item rec' (snd kv)"
    using assms by (cases "snd kv") (simp_all add: not_item_def agree_below_def)
  ultimately show ?thesis
    using field_item_agree [OF assms] by (simp add: dict_item_def)
qed

lemma normalize_fuel:
  "pv_depth w < n \<Longrightarrow> pv_depth w < m \<Longrightarrow>
   normalize_dict_where n ne view jcol cols w = normalize_dict_where m ne view jcol cols w"
proof (induction n arbitrary: m cols w)
  case (Suc n)
  then obtain m' where m: "m = Suc m'" by (cases m) auto
  show ?case
  proof (cases w)
    case (PDict d)
    let ?cols = "known_columns ne view cols"
    have agree: "agree_below (pv_depth w) (normalize_dict_where n ne view jcol ?cols) (normalize_dict_where m' ne view jcol ?cols)"
      unfolding agree_below_def
      by (intro allI impI, rule Suc.IH) (use Suc.prems m in simp_all)
    have "map_result (dict_item (normalize_dict_where n ne view jcol ?cols) ne view ?cols jcol) d
        = map_result (dict_item (normalize_dict_where m' ne view jcol ?cols) ne view ?cols jcol) d"
      by (rule map_result_cong [OF refl], rule dict_item_agree [OF agree])
        (metis PDict prod.collapse pv_depth_dict)
    with PDict m show ?thesis by simp
  qed (simp_all add: m)
qed simp

text \<open>No helper of the translation raises \<open>RecursionError\<close>.\<close>

definition returns :: "'a result \<Rightarrow> bool" where
  "returns r = (r \<noteq> Inl RecursionError)"

lemma returns_rbind: "returns r \<Longrightarrow> (\<And>x. r = Inr x \<Longrightarrow> returns (f x)) \<Longrightarrow> returns (rbind r f)"
  by (cases r) (simp_all add: returns_def)

lemma returns_map_result: "(\<And>x. x \<in> set xs \<Longrightarrow> returns (f x)) \<Longrightarrow> returns (map_result f xs)"
  by (induction xs) (auto simp: returns_def rbind_eq_Inl)

lemma returns_Inr [simp]: "returns (Inr x)"
  by (simp add: returns_def)

lemma returns_make: "returns (make_condition p op v s c j)" "returns (make_clause cs lop ns nc)"
  by (simp_all add: returns_def make_condition_def validate_condition_def make_clause_def)

lemma returns_operator_conditions: "(\<And>op v. returns (mk op v)) \<Longrightarrow> returns (operator_conditions mk d)"
  unfolding operator_conditions_def by (rule returns_map_result) (auto split: prod.split)

lemma returns_fk_nested: "returns (fk_nested_conditions jcol field filt)"
  unfolding fk_nested_conditions_def
  by (intro returns_rbind returns_map_result returns_Inr)
    (auto simp: Let_def intro!: returns_operator_conditions returns_make split: prod.split pyval.split)

lemma returns_direct: "returns (direct_conditions ne view cols jcol field filt)"
  unfolding direct_conditions_def by (rule returns_operator_conditions) (simp add: returns_make)

lemma returns_reject: "returns (reject_operator_suffix_key ne key view cols)"
  by (auto simp: reject_operator_suffix_key_def returns_def split: option.split prod.split)

lemma returns_fold_value: "returns (fold_vector_value t v)"
  unfolding fold_vector_value_def
  by (intro returns_rbind returns_Inr) (simp add: vector_operand_def returns_def split: pyval.split)

lemma returns_fold_items: "returns (fold_vector_items filt t ops folded)"
proof (induction ops arbitrary: folded)
  case (Cons p ops)
  then show ?case by (cases p) (auto simp: Let_def intro!: returns_rbind returns_fold_value)
qed simp

lemma returns_fold: "returns (fold_vector_filter filt)"
  by (simp add: fold_vector_filter_def Let_def returns_fold_items)

lemma returns_is_nested: "returns (is_nested_object_filter ne field filt cols view)"
  by (auto simp: is_nested_object_filter_def Let_def returns_def split: option.split pyval.split)

lemma returns_field_item:
  assumes "\<And>u. pv_depth u < n \<Longrightarrow> returns (rec u)" "pv_depth v < n"
  shows "returns (field_item rec ne view cols jcol key v)"
proof -
  let ?d = "case v of PDict d \<Rightarrow> d | _ \<Rightarrow> [(''eq'', v)]" and ?field = "field_db_name key"
  have nested: "returns (map_result (jsonb_nested_item rec jcol ?field) filt)"
    if filt: "fold_vector_filter ?d = Inr filt" "is_nested_object_filter ne ?field filt cols view = Inr (True, b)" for filt b
  proof (rule returns_map_result)
    fix kv assume kv: "kv \<in> set filt"
    show "returns (jsonb_nested_item rec jcol ?field kv)"
    proof (cases "snd kv")
      case (PDict d)
      with kv have "(fst kv, PDict d) \<in> set filt" by (metis prod.collapse)
      from nested_values [OF filt this] obtain j where "(j, PDict d) \<in> set ?d" by blast
      then have "pv_depth (PDict d) < pv_depth v" by (cases v) (auto dest: pv_depth_dict)
      with assms(2) have "pv_depth (PDict [(k, PDict d)]) < n" for k by (simp add: pv_depth_single)
      with assms(1) PDict show ?thesis
        by (auto simp: jsonb_nested_item_def Let_def intro!: returns_rbind returns_operator_conditions returns_make)
    qed (simp_all add: jsonb_nested_item_def)
  qed
  show ?thesis
    unfolding field_item_def Let_def
    by (intro returns_rbind returns_reject returns_fold returns_is_nested)
      (auto intro!: returns_rbind returns_fk_nested returns_direct nested split: prod.split)
qed

lemma returns_dict_item:
  assumes "\<And>u. pv_depth u < n \<Longrightarrow> returns (rec u)" "pv_depth (snd kv) < n"
  shows "returns (dict_item rec ne view cols jcol kv)"
proof -
  have list: "returns (map_result rec ds)" if "snd kv = PList ds" for ds
    using assms that pv_depth_list by (intro returns_map_result) fastforce
  have "returns (or_item rec (snd kv))" "returns (and_item rec (snd kv))" "returns (not_item rec (snd kv))"
    using assms list
    by (cases "snd kv"; auto simp: or_item_def and_item_def not_item_def intro!: returns_rbind returns_make)+
  then show ?thesis using returns_field_item [OF assms] by (simp add: dict_item_def)
qed

lemma normalize_returns: "pv_depth w < n \<Longrightarrow> returns (normalize_dict_where n ne view jcol cols w)"
proof (induction n arbitrary: cols w)
  case (Suc n)
  show ?case
  proof (cases w)
    case (PDict d)
    let ?cols = "known_columns ne view cols"
    have rec: "returns (normalize_dict_where n ne view jcol ?cols u)" if "pv_depth u < pv_depth w" for u
      by (rule Suc.IH) (use Suc.prems that in simp)
    have "returns (map_result (dict_item (normalize_dict_where n ne view jcol ?cols) ne view ?cols jcol) d)"
      by (rule returns_map_result, rule returns_dict_item [of "pv_depth w", OF rec])
        (assumption, metis PDict prod.collapse pv_depth_dict)
    then show ?thesis
      by (auto simp: PDict Let_def returns_def [of "Inl ValueError"] intro!: returns_rbind returns_make split: prod.split)
  qed (simp_all add: returns_def)
qed simp

text \<open>
  C12: Termination.  A recursion depth greater than the nesting depth of the filter is enough:
  the translation then returns a clause or one of its own errors, never \<open>RecursionError\<close>, and a
  larger depth gives the same result.
\<close>

theorem normalize_terminates:
  assumes "pv_depth w < n"
  shows "normalize_dict_where n ne view jcol cols w \<noteq> Inl RecursionError
    \<and> (\<forall>m \<ge> n. normalize_dict_where m ne view jcol cols w = normalize_dict_where n ne view jcol cols w)"
  using normalize_returns [OF assms] normalize_fuel assms unfolding returns_def
  by (meson less_le_trans)

theorem normalize_terminates_witness:
  "normalize_dict_where 9 example_norm_env ''v_users'' ''data'' (Some [''id'', ''status'']) example_filter \<noteq> Inl RecursionError
   \<and> normalize_dict_where 1000 example_norm_env ''v_users'' ''data'' (Some [''id'', ''status'']) example_filter
        = normalize_dict_where 9 example_norm_env ''v_users'' ''data'' (Some [''id'', ''status'']) example_filter"
proof -
  have "pv_depth example_filter < 9"
    by (simp add: example_filter_def pv_depth.simps)
  note t = normalize_terminates [OF this, of example_norm_env "''v_users''" "''data''" "Some [''id'', ''status'']"]
  have "(9::nat) \<le> 1000" by simp
  with t [THEN conjunct2, rule_format, of 1000] t [THEN conjunct1] show ?thesis by blast
qed

end
