(* ===== verification/FilterMeaning.thy ===== *)
theory FilterMeaning
  imports NormalizeProps
begin

section \<open>The meaning of a filter dictionary\<close>

text \<open>
  SQL's three-valued logic (\<open>None\<close> is \<open>NULL\<close>) on the expressions that clauses denote, and the
  compositional meaning of the logical keys: entries are conjoined, \<open>OR\<close> disjoins its members,
  \<open>AND\<close> conjoins them, \<open>NOT\<close> negates.  What a field says is in \<open>FilterReading\<close>.
\<close>

definition and3 :: "bool option list \<Rightarrow> bool option" where
  "and3 xs = (if Some False \<in> set xs then Some False else if None \<in> set xs then None else Some True)"

definition or3 :: "bool option list \<Rightarrow> bool option" where
  "or3 xs = (if Some True \<in> set xs then Some True else if None \<in> set xs then None else Some False)"

function bexp_val :: "(field_condition \<Rightarrow> bool option) \<Rightarrow> bexp \<Rightarrow> bool option" where
  "bexp_val v (BAtom a) = v a"
| "bexp_val v (BNot e) = map_option Not (bexp_val v e)"
| "bexp_val v (BAnd es) = and3 (map (bexp_val v) es)"
| "bexp_val v (BOr es) = or3 (map (bexp_val v) es)"
  by pat_completeness auto
termination
  by (relation "measure (\<lambda>(_, e). size e)") (auto simp: size_list_estimation' less_Suc_eq_le)

definition clause_val :: "(field_condition \<Rightarrow> bool option) \<Rightarrow> where_clause \<Rightarrow> bool option" where
  "clause_val v c = bexp_val v (clause_exp c)"

subsection \<open>Laws of the logic\<close>

lemma and3_single [simp]: "and3 [x] = x"
  by (cases x) (auto simp: and3_def)

lemma or3_single [simp]: "or3 [x] = x"
  by (cases x) (auto simp: or3_def)

lemma and3_Nil [simp]: "and3 [] = Some True"
  by (simp add: and3_def)

lemma and3_cong_set: "set xs = set ys \<Longrightarrow> and3 xs = and3 ys"
  by (simp add: and3_def)

lemma and3_eq: "and3 xs = Some False \<longleftrightarrow> Some False \<in> set xs"
  "and3 xs = None \<longleftrightarrow> Some False \<notin> set xs \<and> None \<in> set xs"
  by (auto simp: and3_def)

lemma and3_concat: "and3 (concat xss) = and3 (map and3 xss)"
  by (auto simp: and3_def)

lemma and3_append: "and3 (xs @ ys) = and3 [and3 xs, and3 ys]"
  using and3_concat [of "[xs, ys]"] by simp

lemma clause_val_and:
  "clause_val v (WhereClause cs ''AND'' ns nc) =
     and3 (map v cs @ map (clause_val v) ns
       @ (case nc of None \<Rightarrow> [] | Some c \<Rightarrow> [map_option Not (clause_val v c)]))"
proof -
  let ?es = "map BAtom cs @ map clause_exp ns @ (case nc of None \<Rightarrow> [] | Some c \<Rightarrow> [BNot (clause_exp c)])"
  have "bexp_val v (combine_exp ''AND'' es) = and3 (map (bexp_val v) es)" for es
    by (auto simp: combine_exp_def split: list.split)
  then have "clause_val v (WhereClause cs ''AND'' ns nc) = and3 (map (bexp_val v) ?es)"
    unfolding clause_val_def by simp
  also have "map (bexp_val v) ?es = map v cs @ map (clause_val v) ns
      @ (case nc of None \<Rightarrow> [] | Some c \<Rightarrow> [map_option Not (clause_val v c)])"
    by (simp add: clause_val_def comp_def split: option.split)
  finally show ?thesis .
qed

lemma clause_val_or: "clause_val v (WhereClause [] ''OR'' ns None) = or3 (map (clause_val v) ns)"
proof -
  have "ns \<noteq> [] \<Longrightarrow> bexp_val v (combine_exp ''OR'' (map clause_exp ns)) = or3 (map (\<lambda>c. bexp_val v (clause_exp c)) ns)"
    by (cases ns; cases "tl ns") (auto simp: combine_exp_def comp_def)
  then show ?thesis by (cases "ns = []") (simp_all add: clause_val_def [abs_def] combine_exp_def)
qed

text \<open>A clause with nothing nested is the conjunction of its conditions.\<close>

lemma clause_val_simple:
  "logical_op c = ''AND'' \<Longrightarrow> \<not> clause_complex c \<Longrightarrow> clause_val v c = and3 (map v (conditions c))"
  by (cases c) (auto simp: clause_complex_def clause_val_and)

subsection \<open>What the entries contribute\<close>

definition contribution_vals :: "(field_condition \<Rightarrow> bool option) \<Rightarrow> contribution \<Rightarrow> bool option list" where
  "contribution_vals v x =
     (case x of (cs, ns, nc) \<Rightarrow> map v cs @ map (clause_val v) ns
        @ (case nc of None \<Rightarrow> [] | Some c \<Rightarrow> [map_option Not (clause_val v c)]))"

lemma contribution_vals_set:
  "set (contribution_vals v (cs, ns, nc)) =
     v ` set cs \<union> clause_val v ` set ns \<union> (\<lambda>c. map_option Not (clause_val v c)) ` set_option nc"
  by (cases nc) (auto simp: contribution_vals_def)

lemma last_some_set:
  assumes "length (filter (\<lambda>x. x \<noteq> None) ys) \<le> 1"
  shows "set_option (last_some ys) = (\<Union>y \<in> set ys. set_option y)"
proof -
  define zs where "zs = filter (\<lambda>x. x \<noteq> None) ys"
  have "(\<Union>y \<in> set ys. set_option y) = (\<Union>y \<in> set zs. set_option y)"
    unfolding zs_def by (auto simp: elem_set)
  moreover have "last_some ys = (case rev zs of [] \<Rightarrow> None | x # _ \<Rightarrow> x)"
    by (simp add: last_some_def zs_def)
  moreover have "zs = [] \<or> (\<exists>z. zs = [z])" using assms unfolding zs_def [symmetric] by (cases zs) auto
  ultimately show ?thesis by auto
qed

text \<open>With at most one negation, merging keeps all contributed values.\<close>

definition one_negation :: "contribution list \<Rightarrow> bool" where
  "one_negation xs = (length (filter (\<lambda>x. snd (snd x) \<noteq> None) xs) \<le> 1)"

lemma merge_vals:
  assumes "one_negation xs"
  shows "set (contribution_vals v (merge_contributions xs)) = (\<Union>x \<in> set xs. set (contribution_vals v x))"
proof -
  have "length (filter (\<lambda>x. x \<noteq> None) (map (snd \<circ> snd) xs)) \<le> 1"
    using assms by (simp add: one_negation_def filter_map comp_def)
  note neg = last_some_set [OF this]
  have vals: "set (contribution_vals v x) = v ` set (fst x) \<union> clause_val v ` set (fst (snd x))
      \<union> (\<lambda>c. map_option Not (clause_val v c)) ` set_option (snd (snd x))" for x
    by (cases x) (simp add: contribution_vals_set)
  show ?thesis unfolding vals merge_contributions_def fst_conv snd_conv neg by auto
qed

lemma map_result_one_negation:
  assumes "\<And>kv x. kv \<in> set d \<Longrightarrow> fst kv \<noteq> ''NOT'' \<Longrightarrow> f kv = Inr x \<Longrightarrow> snd (snd x) = None"
    and "distinct (map fst d)" "map_result f d = Inr xs"
  shows "one_negation xs \<and> (''NOT'' \<notin> fst ` set d \<longrightarrow> filter (\<lambda>x. snd (snd x) \<noteq> None) xs = [])"
  using assms
proof (induction d arbitrary: xs)
  case (Cons kv d)
  then obtain x ys where x: "f kv = Inr x" "map_result f d = Inr ys" "xs = x # ys" by (auto simp: rbind_eq_Inr)
  have none: "\<And>kv x. kv \<in> set d \<Longrightarrow> fst kv \<noteq> ''NOT'' \<Longrightarrow> f kv = Inr x \<Longrightarrow> snd (snd x) = None"
    using Cons.prems(1) by (meson list.set_intros(2))
  have "distinct (map fst d)" using Cons.prems(2) by simp
  from Cons.IH [OF none this x(2)] have
    IH: "one_negation ys" "''NOT'' \<notin> fst ` set d \<longrightarrow> filter (\<lambda>x. snd (snd x) \<noteq> None) ys = []" by auto
  show ?case
  proof (cases "fst kv = ''NOT''")
    case True
    with Cons.prems(2) have "''NOT'' \<notin> fst ` set d" by (metis distinct.simps(2) list.set_map list.simps(9))
    with IH True show ?thesis by (simp add: x(3) one_negation_def)
  next
    case False
    with Cons.prems(1) [of kv x] x(1) have "snd (snd x) = None" by simp
    with IH show ?thesis by (auto simp: x(3) one_negation_def)
  qed
qed (simp add: one_negation_def)

subsection \<open>A field contributes conditions only\<close>

definition logic_keys :: "string set" where
  "logic_keys = {''OR'', ''AND'', ''NOT''}"

lemma lower_no_upper: "c \<in> set (lower s) \<Longrightarrow> \<not> is_upper c"
  by (auto simp: lower_def to_lower_not_upper)

lemma field_db_name_not_logic: "field_db_name k \<notin> logic_keys"
proof (cases "has_underscore k")
  case True
  then have "CHR ''_'' \<in> set (field_db_name k)" by (simp add: field_db_name_def has_underscore_def)
  then show ?thesis by (auto simp: logic_keys_def)
next
  case False
  have "list_ex is_upper s" if "s \<in> logic_keys" for s
    using that by (auto simp: logic_keys_def is_upper_def)
  moreover have "\<not> list_ex is_upper (field_db_name k)"
    using False lower_no_upper by (auto simp: field_db_name_def to_snake_case_def list_ex_iff)
  ultimately show ?thesis by blast
qed

definition simple_rec :: "(pyval \<Rightarrow> where_clause result) \<Rightarrow> bool" where
  "simple_rec rec = (\<forall>k v c. k \<notin> logic_keys \<longrightarrow> rec (PDict [(k, v)]) = Inr c \<longrightarrow> nested_clauses c = [] \<and> not_clause c = None)"

lemma jsonb_nested_simple:
  assumes "simple_rec rec" "jsonb_nested_item rec jcol field kv = Inr x"
  shows "snd x = ([], None)"
proof (cases "snd kv")
  case (PDict d)
  show ?thesis
  proof (cases "has_nested_ops d")
    case True
    with assms(2) PDict obtain c where c: "rec (PDict [(field_db_name (fst kv), PDict d)]) = Inr c" and
      x: "x = (map (prefix_condition field) (conditions c), map (prefix_clause field) (nested_clauses c),
               map_option (prefix_clause field) (not_clause c))"
      by (auto simp: jsonb_nested_item_def Let_def rbind_eq_Inr)
    with assms(1) field_db_name_not_logic [of "fst kv"] show ?thesis by (simp add: simple_rec_def)
  qed (use assms(2) PDict in \<open>auto simp: jsonb_nested_item_def Let_def rbind_eq_Inr\<close>)
qed (use assms(2) in \<open>auto simp: jsonb_nested_item_def\<close>)

lemma merge_simple:
  assumes "\<forall>x \<in> set xs. snd x = ([], None)"
  shows "snd (merge_contributions xs) = ([], None)"
proof -
  have "filter (\<lambda>x. x \<noteq> None) (map (snd \<circ> snd) xs) = []" using assms by (auto simp: filter_empty_conv)
  then have "last_some (map (snd \<circ> snd) xs) = None" by (simp add: last_some_def)
  with assms show ?thesis by (auto simp: merge_contributions_def)
qed

lemma field_item_simple:
  assumes "simple_rec rec" "field_item rec ne view cols jcol key v = Inr x"
  shows "snd x = ([], None)"
proof -
  let ?field = "field_db_name key"
  obtain filt is_nested use_fk where
    x: "(if is_nested \<and> use_fk then rbind (fk_nested_conditions jcol ?field filt) (\<lambda>cs. Inr (cs, [], None))
       else if is_nested then
         rbind (map_result (jsonb_nested_item rec jcol ?field) filt) (\<lambda>cs. Inr (merge_contributions cs))
       else rbind (direct_conditions ne view cols jcol ?field filt) (\<lambda>cs. Inr (cs, [], None))) = Inr x"
    using assms(2) unfolding field_item_def Let_def rbind_eq_Inr by auto
  have "snd (merge_contributions cs) = ([], None)" if "map_result (jsonb_nested_item rec jcol ?field) filt = Inr cs" for cs
    using map_result_set [OF that] jsonb_nested_simple [OF assms(1)] by (intro merge_simple) blast
  with x show ?thesis by (auto simp: rbind_eq_Inr split: if_splits)
qed

lemma normalize_simple: "simple_rec (normalize_dict_where n ne view jcol cols)"
proof (induction n arbitrary: cols)
  case (Suc n)
  show ?case
    unfolding simple_rec_def
  proof (intro allI impI)
    fix k v c assume k: "k \<notin> logic_keys" and n: "normalize_dict_where (Suc n) ne view jcol cols (PDict [(k, v)]) = Inr c"
    let ?cols = "known_columns ne view cols"
    from n k obtain x where
      x: "field_item (normalize_dict_where n ne view jcol ?cols) ne view ?cols jcol k v = Inr x" and
      c: "(case merge_contributions [x] of (conds, nested, nc) \<Rightarrow> make_clause conds ''AND'' nested nc) = Inr c"
      by (auto simp: Let_def rbind_eq_Inr dict_item_def logic_keys_def)
    have "snd (merge_contributions [x]) = ([], None)"
      using field_item_simple [OF Suc x] by (intro merge_simple) simp
    with c show "nested_clauses c = [] \<and> not_clause c = None"
      by (cases "merge_contributions [x]") (auto simp: make_clause_def split: if_splits)
  qed
qed (simp add: simple_rec_def)

subsection \<open>The meaning of an entry\<close>

text \<open>
  The value of a dictionary is the value of the clause it normalises to.  An empty \<open>OR\<close> list
  and a logical key whose value has the wrong type add nothing, as in the code.
\<close>

definition filter_val :: "(pyval \<Rightarrow> where_clause result) \<Rightarrow> (field_condition \<Rightarrow> bool option) \<Rightarrow> pyval \<Rightarrow> bool option" where
  "filter_val rec v w = (case rec w of Inr c \<Rightarrow> clause_val v c | Inl _ \<Rightarrow> None)"

definition entry_val ::
  "(pyval \<Rightarrow> where_clause result) \<Rightarrow> (string \<times> pyval \<Rightarrow> contribution result) \<Rightarrow> (field_condition \<Rightarrow> bool option)
   \<Rightarrow> string \<times> pyval \<Rightarrow> bool option" where
  "entry_val rec item v kv =
     (if fst kv = ''OR'' then
        (case snd kv of PList ds \<Rightarrow> if ds = [] then Some True else or3 (map (filter_val rec v) ds) | _ \<Rightarrow> Some True)
      else if fst kv = ''AND'' then
        (case snd kv of PList ds \<Rightarrow> and3 (map (filter_val rec v) ds) | _ \<Rightarrow> Some True)
      else if fst kv = ''NOT'' then
        (case snd kv of PDict d \<Rightarrow> map_option Not (filter_val rec v (snd kv)) | _ \<Rightarrow> Some True)
      else (case item kv of Inr (cs, _, _) \<Rightarrow> and3 (map v cs) | Inl _ \<Rightarrow> None))"

text \<open>Clauses that the translation returns are conjunctions.\<close>

definition and_rec :: "(pyval \<Rightarrow> where_clause result) \<Rightarrow> bool" where
  "and_rec rec = (\<forall>w c. rec w = Inr c \<longrightarrow> logical_op c = ''AND'')"

lemma normalize_and: "and_rec (normalize_dict_where n ne view jcol cols)"
  unfolding and_rec_def
proof (intro allI impI)
  fix w c assume n: "normalize_dict_where n ne view jcol cols w = Inr c"
  then obtain m where m: "n = Suc m" by (cases n) simp_all
  with n obtain d where "w = PDict d" by (cases w) (auto split: if_splits)
  with n m obtain xs where
    "(case merge_contributions xs of (conds, nested, nc) \<Rightarrow> make_clause conds ''AND'' nested nc) = Inr c"
    by (auto simp: Let_def rbind_eq_Inr split: if_splits)
  then show "logical_op c = ''AND''"
    by (cases "merge_contributions xs") (auto simp: make_clause_def split: if_splits)
qed

lemma filter_vals: "map_result rec ds = Inr cs \<Longrightarrow> map (filter_val rec v) ds = map (clause_val v) cs"
  unfolding map_result_Inr_iff by (induction rule: list_all2_induct) (simp_all add: filter_val_def)

lemma or_item_val:
  assumes "or_item rec x = Inr y"
  shows "and3 (contribution_vals v y) = entry_val rec item v (''OR'', x)"
proof (cases x)
  case (PList ds)
  with assms obtain cs where cs: "map_result rec ds = Inr cs"
    and y: "(if cs = [] then Inr ([], [], None) else rbind (make_clause [] ''OR'' cs None) (\<lambda>c. Inr ([], [c], None))) = Inr y"
    by (auto simp: or_item_def rbind_eq_Inr)
  have "ds = [] \<longleftrightarrow> cs = []" using map_result_length [OF cs] by auto
  with y PList show ?thesis
    by (auto simp: entry_val_def filter_vals [OF cs] contribution_vals_def rbind_eq_Inr make_clause_def clause_val_or
        split: if_splits)
qed (use assms in \<open>auto simp: or_item_def entry_val_def contribution_vals_def\<close>)

lemma and_item_val:
  assumes "and_rec rec" "and_item rec x = Inr y"
  shows "and3 (contribution_vals v y) = entry_val rec item v (''AND'', x)"
proof (cases x)
  case (PList ds)
  with assms(2) obtain cs where cs: "map_result rec ds = Inr cs"
    and y: "y = (concat (map conditions (filter (\<lambda>c. \<not> clause_complex c) cs)), filter clause_complex cs, None)"
    by (auto simp: and_item_def rbind_eq_Inr)
  have simple: "and3 (map v (conditions c)) = clause_val v c" if "c \<in> set cs" "\<not> clause_complex c" for c
    using map_result_set [OF cs that(1)] assms(1) clause_val_simple [OF _ that(2)] by (metis and_rec_def)
  have "and3 (contribution_vals v y)
      = and3 [and3 (concat (map (map v) (map conditions (filter (\<lambda>c. \<not> clause_complex c) cs)))),
              and3 (map (clause_val v) (filter clause_complex cs))]"
    by (simp add: y contribution_vals_def and3_append map_concat)
  also have "map and3 (map (map v) (map conditions (filter (\<lambda>c. \<not> clause_complex c) cs)))
      = map (clause_val v) (filter (\<lambda>c. \<not> clause_complex c) cs)"
    unfolding map_map using simple by (intro map_cong) simp_all
  then have "and3 [and3 (concat (map (map v) (map conditions (filter (\<lambda>c. \<not> clause_complex c) cs)))),
              and3 (map (clause_val v) (filter clause_complex cs))]
      = and3 [and3 (map (clause_val v) (filter (\<lambda>c. \<not> clause_complex c) cs)),
      and3 (map (clause_val v) (filter clause_complex cs))]"
    by (simp only: and3_concat)
  also have "\<dots> = and3 (map (clause_val v) (filter (\<lambda>c. \<not> clause_complex c) cs) @ map (clause_val v) (filter clause_complex cs))"
    by (simp add: and3_append)
  also have "\<dots> = and3 (map (clause_val v) cs)" by (rule and3_cong_set) auto
  finally show ?thesis using PList by (simp add: entry_val_def filter_vals [OF cs])
qed (use assms(2) in \<open>auto simp: and_item_def entry_val_def contribution_vals_def\<close>)

lemma not_item_val:
  assumes "not_item rec x = Inr y"
  shows "and3 (contribution_vals v y) = entry_val rec item v (''NOT'', x)"
  using assms
  by (cases x) (auto simp: not_item_def entry_val_def contribution_vals_def filter_val_def rbind_eq_Inr)

lemma dict_item_val:
  assumes "and_rec rec" "simple_rec rec" "dict_item rec ne view cols jcol kv = Inr y"
  shows "and3 (contribution_vals v y) = entry_val rec (dict_item rec ne view cols jcol) v kv"
proof -
  consider "fst kv = ''OR''" | "fst kv = ''AND''" | "fst kv = ''NOT''" | "fst kv \<notin> logic_keys"
    by (auto simp: logic_keys_def)
  then show ?thesis
  proof cases
    case 4
    with assms(3) have "snd y = ([], None)"
      by (auto simp: dict_item_def logic_keys_def intro: field_item_simple [OF assms(2)])
    with 4 assms(3) show ?thesis
      by (cases y) (auto simp: entry_val_def logic_keys_def contribution_vals_def)
  qed (use assms or_item_val [of rec "snd kv" y] and_item_val [of rec "snd kv" y] not_item_val [of rec "snd kv" y]
       in \<open>cases kv, simp add: dict_item_def\<close>)+
qed

lemma dict_item_positive:
  assumes "simple_rec rec" "fst kv \<noteq> ''NOT''" "dict_item rec ne view cols jcol kv = Inr x"
  shows "snd (snd x) = None"
proof -
  have "or_item rec (snd kv) = Inr x \<Longrightarrow> ?thesis" "and_item rec (snd kv) = Inr x \<Longrightarrow> ?thesis"
    by (cases "snd kv"; auto simp: or_item_def and_item_def rbind_eq_Inr split: if_splits)+
  moreover have "field_item rec ne view cols jcol (fst kv) (snd kv) = Inr x \<Longrightarrow> ?thesis"
    using field_item_simple [OF assms(1)] by simp
  ultimately show ?thesis using assms(2,3) by (auto simp: dict_item_def split: if_splits)
qed

text \<open>
  The clause has the value of the conjunction of the entries, where a field entry stands for the conditions
  it contributes.  Flattening \<open>AND\<close> members into the parent changes nothing.
\<close>

lemma normalize_entries:
  assumes "distinct (map fst d)" "normalize_dict_where (Suc n) ne view jcol cols (PDict d) = Inr c"
  shows "clause_val v c =
     and3 (map (entry_val (normalize_dict_where n ne view jcol (known_columns ne view cols))
                  (dict_item (normalize_dict_where n ne view jcol (known_columns ne view cols)) ne view
                     (known_columns ne view cols) jcol) v) d)"
proof -
  let ?cols = "known_columns ne view cols"
  let ?rec = "normalize_dict_where n ne view jcol ?cols"
  let ?item = "dict_item ?rec ne view ?cols jcol"
  obtain xs where xs: "map_result ?item d = Inr xs" and
    c: "(case merge_contributions xs of (conds, nested, nc) \<Rightarrow> make_clause conds ''AND'' nested nc) = Inr c"
    using assms(2) by (auto simp: Let_def rbind_eq_Inr split: if_splits)
  have none: "snd (snd x) = None" if "kv \<in> set d" "fst kv \<noteq> ''NOT''" "?item kv = Inr x" for kv x
    using dict_item_positive [OF normalize_simple that(2,3)] .
  have one: "one_negation xs"
    by (rule map_result_one_negation [THEN conjunct1, OF _ assms(1) xs]) (rule none)
  have "clause_val v c = and3 (contribution_vals v (merge_contributions xs))"
    using c by (auto simp: make_clause_def clause_val_and contribution_vals_def split: if_splits prod.splits)
  also have "\<dots> = and3 (concat (map (contribution_vals v) xs))"
    by (rule and3_cong_set) (simp add: merge_vals [OF one])
  also have "\<dots> = and3 (map (and3 \<circ> contribution_vals v) xs)" by (simp add: and3_concat)
  also have "map (and3 \<circ> contribution_vals v) xs = map (entry_val ?rec ?item v) d"
    using xs unfolding map_result_Inr_iff
    by (induction rule: list_all2_induct) (simp_all add: dict_item_val [OF normalize_and normalize_simple])
  finally show ?thesis .
qed

subsection \<open>Filters that are read differently from what they say\<close>

text \<open>
  A logical key inside a nested object is read as a field name: \<open>NOT\<close> under \<open>machine\<close> becomes the
  JSON key \<open>not\<close>, and the condition is not negated.
\<close>

lemma nested_not_is_a_field:
  "normalize_dict_where 9 example_norm_env ''v_users'' ''data'' (Some [''id''])
     (PDict [(''machine'', PDict [(''NOT'', PDict [(''name'', PDict [(''eq'', PStr ''x'')])])])])
   = Inr (WhereClause [jsonb_condition [''machine'', ''not'', ''name''] ''eq'' (PStr ''x'')] ''AND'' [] None)"
  by code_simp

text \<open>A scalar beside an operator dictionary of a nested object is dropped.\<close>

lemma nested_scalar_is_dropped:
  "normalize_dict_where 9 example_norm_env ''v_users'' ''data'' (Some [''id''])
     (PDict [(''machine'', PDict [(''name'', PDict [(''eq'', PStr ''x'')]), (''kind'', PStr ''y'')])])
   = Inr (WhereClause [jsonb_condition [''machine'', ''name''] ''eq'' (PStr ''x'')] ''AND'' [] None)"
  by code_simp

text \<open>A declared foreign key chooses the column lookup, but the condition is on \<open><field>_id\<close>.\<close>

lemma declared_fk_column_is_ignored:
  "normalize_dict_where 9
     \<lparr>table_metadata = (\<lambda>_. Some \<lparr>columns = Some [''id'', ''owner_fk''], has_jsonb_data = True, meta_jsonb_column = None,
        fk_relationships = [(''owner'', ''owner_fk'')], validate_fk_strict = True,
        native_dimension_mapping = [], column_mapping = []\<rparr>), declared_fields = (\<lambda>_. [])\<rparr>
     ''v_users'' ''data'' None (PDict [(''owner'', PDict [(''id'', PDict [(''eq'', PInt 7)])])])
   = Inr (WhereClause [\<lparr>field_path = [''owner'', ''id''], operator = ''eq'', fc_value = PInt 7,
        lookup_strategy = ''fk_column'', target_column = ''owner_id'', jsonb_path = None, temporal_cast = None\<rparr>] ''AND'' [] None)"
  by code_simp

end
