(* ===== verification/QueryWhere.thy ===== *)
theory QueryWhere
  imports FilterMeaning
begin

section \<open>The WHERE clause of a repository query\<close>

text \<open>
  The part of \<open>db.py\<close> that turns a \<open>where\<close> argument into the WHERE clause of a query: the
  mandatory filters of the caller and of the operation's authorization, the single entry point
  of the normalisation, the application of a view's column mapping, and the conjunction of the
  parts.  The theorem this is about: a mandatory filter constrains every row a query returns,
  whatever the client filters by.
\<close>

subsection \<open>Mandatory filters\<close>

text \<open>\<open>_SAFE_COLUMN\<close>: a letter or underscore, then up to 62 letters, digits or underscores.\<close>

definition column_start :: "char \<Rightarrow> bool" where
  "column_start c = (is_lower c \<or> is_upper c \<or> c = CHR ''_'')"

definition safe_column :: "string \<Rightarrow> bool" where
  "safe_column s =
     (case s of
        [] \<Rightarrow> False
      | c # cs \<Rightarrow> column_start c \<and> length cs \<le> 62 \<and> list_all (\<lambda>c. column_start c \<or> is_digit c) cs)"

definition make_mandatory_conditions :: "pydict \<Rightarrow> (composable list \<times> pyval list) result" where
  "make_mandatory_conditions filters =
     rbind (map_result (\<lambda>(col, v).
         if safe_column col then Inr (Composed [Identifier col, SQL '' = '', SQL ''%s''], v) else Inl ValueError) filters)
       (\<lambda>xs. Inr (map fst xs, map snd xs))"

text \<open>
  The caller's filters and those that the authorization of the current root field wrote into
  the context; \<open>None\<close> when there are neither.
\<close>

definition consume_mandatory_filters ::
  "pydict option \<Rightarrow> (string \<times> pydict) list option \<Rightarrow> string option \<Rightarrow> pydict option result" where
  "consume_mandatory_filters caller auth_filters graphql_field_name =
     (let explicit = (case caller of Some d \<Rightarrow> d | None \<Rightarrow> []);
          auth = (case (auth_filters, graphql_field_name) of
                    (Some fs, Some name) \<Rightarrow> (case map_of fs name of Some d \<Rightarrow> d | None \<Rightarrow> [])
                  | _ \<Rightarrow> [])
      in if auth = [] then Inr (if explicit = [] then None else Some explicit)
         else if list_ex (\<lambda>(k, _). k \<in> set (map fst auth)) explicit then Inl GraphQLError
         else Inr (Some (rebuild_dict (explicit @ auth))))"

subsection \<open>Normalisation of the argument\<close>

text \<open>
  The \<open>where\<close> argument: a clause, a dictionary, a \<open>WhereInput\<close> object (its dictionary and its
  \<open>_target_class\<close>), any other dataclass (its \<open>asdict\<close> and, when the class has one, its \<open>_target_class\<close>),
  or something else.
\<close>

datatype where_arg =
  ArgClause where_clause
| ArgDict pydict
| ArgInput pydict "declared_types option"
| ArgDataclass pydict "declared_types option"
| ArgOther

fun arg_dict :: "where_arg \<Rightarrow> pydict option" where
  "arg_dict (ArgDict d) = Some d"
| "arg_dict (ArgInput d _) = Some d"
| "arg_dict (ArgDataclass d _) =
     (let d' = filter (\<lambda>(_, v). v \<noteq> PNone \<and> v \<noteq> PDict []) d in if d' = [] then None else Some d')"
| "arg_dict _ = None"

fun target_class :: "where_arg \<Rightarrow> declared_types option" where
  "target_class (ArgInput _ t) = t"
| "target_class (ArgDataclass _ t) = t"
| "target_class _ = None"

definition view_column_mapping :: "norm_env \<Rightarrow> string \<Rightarrow> (string \<times> string) list" where
  "view_column_mapping ne view =
     (case table_metadata ne view of
        None \<Rightarrow> []
      | Some md \<Rightarrow> rebuild_dict (native_dimension_mapping md @ column_mapping md))"

definition apply_view_column_mapping ::
  "norm_env \<Rightarrow> where_clause \<Rightarrow> string \<Rightarrow> string list option \<Rightarrow> where_clause result" where
  "apply_view_column_mapping ne c view cols =
     (let mapping = view_column_mapping ne view in
      if mapping = [] then Inr c
      else case table_metadata ne view of
        None \<Rightarrow> Inr c
      | Some md \<Rightarrow>
          apply_column_mapping mapping (case cols of Some cs \<Rightarrow> Some cs | None \<Rightarrow> columns md) (validate_fk_strict md) c)"

definition view_jsonb_column :: "norm_env \<Rightarrow> string \<Rightarrow> string" where
  "view_jsonb_column ne view =
     (case table_metadata ne view of
        None \<Rightarrow> ''data''
      | Some md \<Rightarrow>
          if has_jsonb_data md
          then (case meta_jsonb_column md of Some c \<Rightarrow> if c \<noteq> [] then c else ''data'' | None \<Rightarrow> ''data'')
          else ''data'')"

definition normalize_where ::
  "nat \<Rightarrow> norm_env \<Rightarrow> declared_types option \<Rightarrow> where_arg \<Rightarrow> string \<Rightarrow> string list option \<Rightarrow> where_clause result" where
  "normalize_where fuel ne registered arg view cols =
     (case arg of
        ArgClause c \<Rightarrow> Inr c
      | _ \<Rightarrow>
          (case arg_dict arg of
             None \<Rightarrow> Inl TypeError
           | Some d \<Rightarrow>
               rbind (normalize_dict_where fuel ne view (view_jsonb_column ne view) cols (PDict d)) (\<lambda>r.
               rbind (apply_view_column_mapping ne r view cols) (\<lambda>r.
                 Inr (annotate_temporal_casts
                        (case registered of Some t \<Rightarrow> Some t | None \<Rightarrow> target_class arg) r)))))"

definition arg_truthy :: "where_arg option \<Rightarrow> bool" where
  "arg_truthy arg = (case arg of None \<Rightarrow> False | Some (ArgDict d) \<Rightarrow> d \<noteq> [] | Some _ \<Rightarrow> True)"

definition query_columns :: "norm_env \<Rightarrow> string \<Rightarrow> string list option \<Rightarrow> string list option" where
  "query_columns ne view known =
     (case known of
        Some cs \<Rightarrow> Some cs
      | None \<Rightarrow> (case table_metadata ne view of Some md \<Rightarrow> columns md | None \<Rightarrow> None))"

definition build_where_clause ::
  "nat \<Rightarrow> norm_env \<Rightarrow> where_env \<Rightarrow> declared_types option \<Rightarrow> string \<Rightarrow> composable list \<times> pyval list
   \<Rightarrow> string list option \<Rightarrow> where_arg option \<Rightarrow> pydict \<Rightarrow> (composable list \<times> pyval list) result" where
  "build_where_clause fuel ne env registered view mandatory known arg kwargs =
     rbind
       (if \<not> arg_truthy arg then Inr mandatory
        else
          rbind (normalize_where fuel ne registered (the arg) view (query_columns ne view known)) (\<lambda>c.
          rbind (clause_to_sql env c) (\<lambda>(sql, ps).
            Inr (case sql of
                   None \<Rightarrow> mandatory
                 | Some s \<Rightarrow> (fst mandatory @ [s], snd mandatory @ ps)))))
       (\<lambda>r. if kwargs \<noteq> [] then Inl TypeError else Inr r)"

text \<open>
  \<open>_helper_where\<close>, the WHERE parts of every read helper; \<open>shape\<close> is what the catalog says of an
  unregistered view (its columns and its JSONB column).
\<close>

record query_request =
  rq_view :: string
  rq_mandatory :: "pydict option"
  rq_where :: "where_arg option"
  rq_kwargs :: pydict

definition helper_where ::
  "nat \<Rightarrow> norm_env \<Rightarrow> where_env \<Rightarrow> declared_types option \<Rightarrow> (string \<times> pydict) list option \<Rightarrow> string option
   \<Rightarrow> string list option \<times> string option \<Rightarrow> query_request \<Rightarrow> (composable list \<times> pyval list) result" where
  "helper_where fuel ne env registered auth_filters field shape rq =
     rbind (consume_mandatory_filters (rq_mandatory rq) auth_filters field) (\<lambda>filters.
     rbind (case filters of Some fs \<Rightarrow> make_mandatory_conditions fs | None \<Rightarrow> Inr ([], [])) (\<lambda>mandatory.
       let known = (if arg_truthy (rq_where rq) \<and> table_metadata ne (rq_view rq) = None
                       \<and> snd shape \<noteq> None \<and> fst shape \<noteq> None
                    then fst shape else None)
       in build_where_clause fuel ne env registered (rq_view rq) mandatory known (rq_where rq) (rq_kwargs rq)))"

definition where_sql :: "composable list \<Rightarrow> composable" where
  "where_sql parts =
     (if parts = [] then SQL '''' else Composed (SQL '' WHERE '' # intersperse_sql (SQL '' AND '') parts))"

subsection \<open>The passes keep a clause valid\<close>

lemma annotate_condition_simps [simp]:
  "field_path (annotate_condition ty fc) = field_path fc" "operator (annotate_condition ty fc) = operator fc"
  "fc_value (annotate_condition ty fc) = fc_value fc" "lookup_strategy (annotate_condition ty fc) = lookup_strategy fc"
  "jsonb_path (annotate_condition ty fc) = jsonb_path fc" "target_column (annotate_condition ty fc) = target_column fc"
  by (simp_all add: annotate_condition_def Let_def)

lemma annotate_condition_valid:
  assumes "validate_condition fc = Inr fc"
  shows "validate_condition (annotate_condition ty fc) = Inr (annotate_condition ty fc)"
  using assms by (cases "jsonb_path fc") (auto simp: validate_condition_def split: if_splits)

lemma annotate_condition_typed: "condition_typed fc \<Longrightarrow> condition_typed (annotate_condition ty fc)"
  unfolding condition_typed_def cast_ok_def
  by (auto simp: annotate_condition_def Let_def split: declared_temporal.split)

definition typed_clause :: "where_clause \<Rightarrow> bool" where
  "typed_clause c = (clause_valid c \<and> (\<forall>fc \<in> clause_conditions c. condition_typed fc))"

lemma typed_clause_iff:
  "typed_clause (WhereClause cs lop ns nc) \<longleftrightarrow>
     lop \<in> {''AND'', ''OR''} \<and> (cs \<noteq> [] \<or> ns \<noteq> [] \<or> nc \<noteq> None)
     \<and> (\<forall>fc \<in> set cs. validate_condition fc = Inr fc \<and> condition_typed fc)
     \<and> (\<forall>d \<in> set ns. typed_clause d) \<and> (\<forall>d \<in> set_option nc. typed_clause d)"
  unfolding typed_clause_def clause_valid.simps clause_conditions.simps by blast

lemma fresh_typed: "fresh_clause c \<Longrightarrow> typed_clause c"
  unfolding fresh_clause_def typed_clause_def fresh_condition_def condition_typed_def cast_ok_def by blast

lemma annotate_typed: "typed_clause c \<Longrightarrow> typed_clause (annotate_clause ty c)"
proof (induction c)
  case (WhereClause cs lop ns nc)
  from WhereClause.prems have t: "lop \<in> {''AND'', ''OR''}" "cs \<noteq> [] \<or> ns \<noteq> [] \<or> nc \<noteq> None"
    "\<forall>fc \<in> set cs. validate_condition fc = Inr fc \<and> condition_typed fc"
    "\<forall>d \<in> set ns. typed_clause d" "\<forall>d \<in> set_option nc. typed_clause d"
    unfolding typed_clause_iff by blast+
  have "\<forall>fc \<in> set (map (annotate_condition ty) cs). validate_condition fc = Inr fc \<and> condition_typed fc"
    using t(3) annotate_condition_valid annotate_condition_typed by simp
  moreover have "\<forall>d \<in> set (map (annotate_clause ty) ns). typed_clause d" using WhereClause.IH(1) t(4) by simp
  moreover have "\<forall>d \<in> set_option (map_option (annotate_clause ty) nc). typed_clause d"
    using WhereClause.IH(2) t(5) by (cases nc) simp_all
  ultimately show ?case using t(1,2) unfolding annotate_clause.simps typed_clause_iff by simp
qed

lemma map_condition_cases:
  assumes "map_condition mapping cols strict fc = Inr x"
  shows "x = fc \<or> (\<exists>col. validate_condition (fc\<lparr>lookup_strategy := mapped_lookup_strategy col (fc_value fc),
      target_column := col, jsonb_path := None\<rparr>) = Inr x)"
proof (cases "map_of mapping (join_str ''.'' (field_path fc))")
  case (Some col)
  note r = assms [unfolded map_condition_def Some option.case]
  show ?thesis
  proof (cases "case cols of Some cs \<Rightarrow> cs \<noteq> [] \<and> col \<notin> set cs | None \<Rightarrow> False")
    case True
    from r [unfolded if_P [OF True]] show ?thesis by (cases strict) simp_all
  next
    case False
    from r [unfolded if_not_P [OF False]] show ?thesis by blast
  qed
qed (use assms in \<open>simp add: map_condition_def\<close>)

lemma map_condition_typed:
  assumes "map_condition mapping cols strict fc = Inr x" "validate_condition fc = Inr fc" "condition_typed fc"
  shows "validate_condition x = Inr x \<and> condition_typed x"
proof (cases "x = fc")
  case False
  obtain col where 2: "validate_condition (fc\<lparr>lookup_strategy := mapped_lookup_strategy col (fc_value fc),
      target_column := col, jsonb_path := None\<rparr>) = Inr x"
    using map_condition_cases [OF assms(1)] False by blast
  from validate_condition_Inr [OF 2] 2 assms(3) show ?thesis by (simp add: condition_typed_def cast_ok_def)
qed (use assms in simp)

lemma map_clause_typed: "map_clause mapping cols strict c = Inr x \<Longrightarrow> typed_clause c \<Longrightarrow> typed_clause x \<and> logical_op x = logical_op c"
proof (induction c arbitrary: x)
  case (WhereClause cs lop ns nc)
  obtain cs' ns' nc' where
    cs: "map_result (map_condition mapping cols strict) cs = Inr cs'" and
    ns: "map_result (map_clause mapping cols strict) ns = Inr ns'" and
    nc: "(case nc of None \<Rightarrow> Inr None | Some c \<Rightarrow> map_sum id Some (map_clause mapping cols strict c)) = Inr nc'" and
    x: "make_clause cs' lop ns' nc' = Inr x"
    using WhereClause.prems(1) by (auto simp: rbind_eq_Inr)
  from WhereClause.prems(2) have t: "\<forall>fc \<in> set cs. validate_condition fc = Inr fc \<and> condition_typed fc"
    "\<forall>d \<in> set ns. typed_clause d" "\<forall>d \<in> set_option nc. typed_clause d"
    unfolding typed_clause_iff by blast+
  have "validate_condition y = Inr y \<and> condition_typed y" if "y \<in> set cs'" for y
    using map_result_set [OF cs that] map_condition_typed t(1) by blast
  moreover have "typed_clause y" if "y \<in> set ns'" for y
    using map_result_set [OF ns that] WhereClause.IH(1) t(2) by blast
  moreover have "typed_clause y" if "nc' = Some y" for y
  proof (cases nc)
    case (Some e)
    with nc that have "map_clause mapping cols strict e = Inr y"
      by (cases "map_clause mapping cols strict e") auto
    with Some WhereClause.IH(2) [of e] t(3) show ?thesis by simp
  qed (use nc that in simp)
  moreover have "x = WhereClause cs' lop ns' nc'" "lop \<in> {''AND'', ''OR''}" "cs' \<noteq> [] \<or> ns' \<noteq> [] \<or> nc' \<noteq> None"
    using x unfolding make_clause_def by (auto split: if_splits)
  ultimately show ?case by (simp add: typed_clause_iff)
qed

lemma normalize_where_typed:
  assumes "normalize_where fuel ne ty arg view cols = Inr c" "arg_dict arg = Some d" "plain (PDict d)"
  shows "typed_clause c \<and> logical_op c = ''AND''"
proof -
  let ?ty = "case ty of Some t \<Rightarrow> Some t | None \<Rightarrow> target_class arg"
  have "\<not> (\<exists>c. arg = ArgClause c)" using assms(2) by auto
  with assms(1,2) obtain r s where r: "normalize_dict_where fuel ne view (view_jsonb_column ne view) cols (PDict d) = Inr r"
    and s: "apply_view_column_mapping ne r view cols = Inr s" and c: "c = annotate_temporal_casts ?ty s"
    by (cases arg) (auto simp: normalize_where_def rbind_eq_Inr simp del: normalize_dict_where.simps)
  from r assms(3) normalize_fresh have "typed_clause r" unfolding sound_rec_def using fresh_typed by blast
  moreover have "logical_op r = ''AND''" using normalize_and r unfolding and_rec_def by blast
  ultimately have "typed_clause s \<and> logical_op s = ''AND''"
    using s map_clause_typed
    by (auto simp: apply_view_column_mapping_def apply_column_mapping_def Let_def split: if_splits option.splits)
  moreover have "logical_op (annotate_clause x s) = logical_op s" for x by (cases s) simp
  ultimately show ?thesis
    using annotate_typed [of s] unfolding c annotate_temporal_casts_def by (cases ?ty) simp_all
qed

lemma build_where_clause_Inr:
  assumes "build_where_clause fuel ne env ty view mandatory known arg kwargs = Inr (parts, ps)"
  shows "kwargs = []"
    and "\<not> arg_truthy arg \<Longrightarrow> mandatory = (parts, ps)"
    and "arg_truthy arg \<Longrightarrow> \<exists>c s qs. normalize_where fuel ne ty (the arg) view (query_columns ne view known) = Inr c
       \<and> clause_to_sql env c = Inr (s, qs)
       \<and> (parts, ps) = (case s of None \<Rightarrow> mandatory | Some sql \<Rightarrow> (fst mandatory @ [sql], snd mandatory @ qs))"
  using assms unfolding build_where_clause_def by (auto simp: rbind_eq_Inr eq_commute [of "(parts, ps)"] split: if_split_asm)

lemma generated_texts:
  assumes "normalize_where fuel ne ty arg view cols = Inr c" "arg_dict arg = Some d" "plain (PDict d)"
    and "clause_to_sql env c = Inr (Some sql, qs)"
  shows "texts sql \<subseteq> where_vocab"
proof -
  have t: "clause_valid c" "\<forall>fc \<in> clause_conditions c. condition_typed fc"
    using normalize_where_typed [OF assms(1-3)] unfolding typed_clause_def by blast+
  from clause_words.clause_good [OF t] assms(4) show ?thesis by simp
qed

lemma make_mandatory_parts:
  assumes "make_mandatory_conditions m = Inr (parts, ps)"
  shows "parts = map (\<lambda>x. Composed [Identifier (fst x), SQL '' = '', SQL ''%s'']) m" "ps = map snd m"
    "\<forall>x \<in> set m. safe_column (fst x)"
proof -
  obtain xs where xs: "map_result (\<lambda>(col, v).
      if safe_column col then Inr (Composed [Identifier col, SQL '' = '', SQL ''%s''], v) else Inl ValueError) m = Inr xs"
    and r: "parts = map fst xs" "ps = map snd xs"
    using assms by (auto simp: make_mandatory_conditions_def rbind_eq_Inr)
  from xs have "xs = map (\<lambda>x. (Composed [Identifier (fst x), SQL '' = '', SQL ''%s''], snd x)) m \<and> (\<forall>x \<in> set m. safe_column (fst x))"
    unfolding map_result_Inr_iff by (induction rule: list_all2_induct) (auto split: if_splits)
  with r show "parts = map (\<lambda>x. Composed [Identifier (fst x), SQL '' = '', SQL ''%s'']) m" "ps = map snd m"
    "\<forall>x \<in> set m. safe_column (fst x)"
    by (simp_all add: comp_def)
qed

lemma mandatory_texts:
  assumes "make_mandatory_conditions m = Inr mandatory" "p \<in> set (fst mandatory)"
  shows "texts p \<subseteq> {'' = '', ''%s''}"
  using assms make_mandatory_parts(1) [of m "fst mandatory" "snd mandatory"] by auto

text \<open>A part of the clause is a mandatory condition, or its raw texts are in the vocabulary.\<close>

lemma where_parts_texts:
  assumes "\<forall>arg. oarg = Some arg \<longrightarrow> (\<exists>d. arg_dict arg = Some d \<and> plain (PDict d))"
    and "build_where_clause fuel ne env ty view mandatory known oarg kwargs = Inr (parts, ps)" "p \<in> set parts"
  shows "p \<in> set (fst mandatory) \<or> texts p \<subseteq> where_vocab"
proof (cases "arg_truthy oarg")
  case True
  then obtain arg where arg: "oarg = Some arg" by (auto simp: arg_truthy_def split: option.splits)
  then obtain d where d: "arg_dict arg = Some d" "plain (PDict d)" using assms(1) by blast
  from build_where_clause_Inr(3) [OF assms(2) True] arg obtain c s qs where
    n: "normalize_where fuel ne ty arg view (query_columns ne view known) = Inr c" "clause_to_sql env c = Inr (s, qs)"
    and parts: "(parts, ps) = (case s of None \<Rightarrow> mandatory | Some sql \<Rightarrow> (fst mandatory @ [sql], snd mandatory @ qs))"
    by auto
  show ?thesis
  proof (cases s)
    case (Some sql)
    with generated_texts [OF n(1) d] n(2) parts assms(3) show ?thesis by auto
  next
    case None
    with parts have "fst mandatory = parts" by (cases mandatory) simp
    with assms(3) show ?thesis by simp
  qed
qed (use build_where_clause_Inr(2) [OF assms(2)] assms(3) in auto)

end
