(* ===== verification/MandatoryFilters.thy ===== *)
theory MandatoryFilters
  imports QueryWhere
begin

section \<open>Mandatory filters constrain every query\<close>

text \<open>
  A mandatory filter is the row scope that a caller or the authorization of an operation puts
  on a query.  Its text is that of an equality condition on a column, and the text of the
  whole WHERE clause reads, with SQL's precedence, as the conjunction of the mandatory
  conditions with the client's filter.
\<close>

definition mandatory_atom :: "string \<times> pyval \<Rightarrow> field_condition" where
  "mandatory_atom m = \<lparr>field_path = [fst m], operator = ''eq'', fc_value = snd m,
     lookup_strategy = ''sql_column'', target_column = fst m, jsonb_path = None, temporal_cast = None\<rparr>"

subsection \<open>The conditions\<close>

lemma eq_no_special:
  "operator fc = ''eq'' \<Longrightarrow> temporal_cast fc = None \<Longrightarrow> special_sql env fc field path lpath = None"
  by (simp add: special_sql_def is_coordinate_filter_def in_keys_def operator_tables)

lemma mandatory_atom_sql:
  "condition_to_sql env (mandatory_atom m) = Inr (Composed [Identifier (fst m), SQL '' = '', SQL ''%s''], [snd m])"
proof -
  have "in_keys ''eq'' CONTAINMENT_OPERATORS = False" "in_keys ''eq'' STRING_OPERATORS = False"
    "in_keys ''eq'' VECTOR_OPERATORS = False" "in_keys ''eq'' FULLTEXT_OPERATORS = False"
    "in_keys ''eq'' ARRAY_OPERATORS = False" "in_keys ''eq'' NETWORK_OPERATORS = False"
    "dict_get ALL_OPERATORS ''eq'' = Inr ''=''"
    by code_simp+
  then show ?thesis
    by (simp add: condition_to_sql_def sql_column_sql_def mandatory_atom_def eq_no_special Let_def op_sql_def)
qed

text \<open>
  Mandatory conditions.  The conversion succeeds exactly when every column is a safe
  identifier; it then gives one parameterised equality per filter, in the order of the
  filters, and the parameters are the filters' values, none of which is in the text.
\<close>

theorem mandatory_conditions_correct:
  "make_mandatory_conditions m =
     (if list_all (safe_column \<circ> fst) m
      then Inr (map (\<lambda>x. Composed [Identifier (fst x), SQL '' = '', SQL ''%s'']) m, map snd m)
      else Inl ValueError)"
proof -
  have "map_result (\<lambda>(col, v).
      if safe_column col then Inr (Composed [Identifier col, SQL '' = '', SQL ''%s''], v) else Inl ValueError) m =
    (if list_all (safe_column \<circ> fst) m
     then Inr (map (\<lambda>x. (Composed [Identifier (fst x), SQL '' = '', SQL ''%s''], snd x)) m) else Inl ValueError)"
    by (induction m) auto
  then show ?thesis by (simp add: make_mandatory_conditions_def comp_def)
qed

subsection \<open>Reading the WHERE clause\<close>

lemma join_tokens_flat:
  "qs \<noteq> [] \<Longrightarrow> join_tokens sep (ps @ [join_tokens sep qs]) = join_tokens sep (ps @ qs)"
proof (induction ps)
  case (Cons p ps)
  moreover have "ps @ qs \<noteq> []" "ps @ [join_tokens sep qs] \<noteq> []" using Cons.prems by simp_all
  moreover have "join_tokens sep (p # r) = p @ [sep] @ join_tokens sep r" if "r \<noteq> []" for r
    using that by (cases r) simp_all
  ultimately show ?case by simp
qed simp

definition mandatory_pairs :: "pydict \<Rightarrow> (btok list \<times> bexp) list" where
  "mandatory_pairs m = map (\<lambda>x. ([TAtom (mandatory_atom x)], BAtom (mandatory_atom x))) m"

lemma clause_pairs:
  assumes "clause_valid (WhereClause cs lop ns nc)"
  shows "\<forall>(p, e) \<in> set (part_pairs cs ns nc). is_part p \<and> read_bool p = Some e" "part_pairs cs ns nc \<noteq> []"
proof -
  note valid = clause_valid_sub [OF assms]
  have "is_part ([TOpen] @ clause_tokens d @ [TClose])" "read_bool ([TOpen] @ clause_tokens d @ [TClose]) = Some (clause_exp d)"
    "is_part ([TNot, TOpen] @ clause_tokens d @ [TClose])"
    "read_bool ([TNot, TOpen] @ clause_tokens d @ [TClose]) = Some (BNot (clause_exp d))" if "clause_valid d" for d
    using clause_read [OF that] read_part(2,3) by (auto simp: is_part_def)
  moreover have "is_part [TAtom c] \<and> read_bool [TAtom c] = Some (BAtom c)" for c
    using read_part(1) [of "[]"] by (simp add: is_part_def)
  ultimately show "\<forall>(p, e) \<in> set (part_pairs cs ns nc). is_part p \<and> read_bool p = Some e"
    using valid(2,3) by (cases nc) (auto simp: part_pairs_def)
  show "part_pairs cs ns nc \<noteq> []" using valid(4) by (auto simp: part_pairs_def)
qed

lemma combine_and_val: "bexp_val v (combine_exp ''AND'' es) = and3 (map (bexp_val v) es)"
  by (auto simp: combine_exp_def split: list.split)

lemma conjunction_read:
  assumes "clause_valid c" "logical_op c = ''AND''"
  shows "\<exists>e. read_bool (join_tokens TAnd (map fst (mandatory_pairs m) @ [clause_tokens c])) = Some e
    \<and> (\<forall>v. bexp_val v e = and3 (map (v \<circ> mandatory_atom) m @ [clause_val v c]))"
proof -
  obtain cs ns nc where c: "c = WhereClause cs ''AND'' ns nc" using assms(2) by (cases c) simp
  let ?pes = "mandatory_pairs m @ part_pairs cs ns nc"
  note cp = clause_pairs [OF assms(1) [unfolded c]]
  have "is_part [TAtom a] \<and> read_bool [TAtom a] = Some (BAtom a)" for a
    using read_part(1) [of "[]"] by (simp add: is_part_def)
  then have "\<forall>(p, e) \<in> set ?pes. is_part p \<and> read_bool p = Some e"
    using cp(1) by (auto simp: mandatory_pairs_def)
  from read_join [OF this, of "''AND''"] cp(2) have
    "read_bool (join_tokens TAnd (map fst ?pes)) = Some (combine_exp ''AND'' (map snd ?pes))"
    by (simp add: op_token_def)
  moreover have "join_tokens TAnd (map fst (mandatory_pairs m) @ [clause_tokens c]) = join_tokens TAnd (map fst ?pes)"
    using cp(2) join_tokens_flat [of "map fst (part_pairs cs ns nc)" TAnd "map fst (mandatory_pairs m)"]
    unfolding c clause_tokens_pairs(1) by (simp add: op_token_def)
  moreover have "bexp_val v (combine_exp ''AND'' (map snd ?pes)) = and3 (map (v \<circ> mandatory_atom) m @ [clause_val v c])" for v
  proof -
    have "clause_val v c = and3 (map (bexp_val v) (map snd (part_pairs cs ns nc)))"
      unfolding c clause_val_def clause_tokens_pairs(2) combine_and_val ..
    then show ?thesis
      unfolding combine_and_val map_append and3_append [of _ "map (bexp_val v) (map snd (part_pairs cs ns nc))"]
        and3_append [of _ "[clause_val v c]"]
      by (simp add: mandatory_pairs_def comp_def)
  qed
  ultimately show ?thesis by auto
qed

lemma render_where_sql:
  "parts \<noteq> [] \<Longrightarrow> render qi ql (where_sql parts) = '' WHERE '' @ join_str '' AND '' (map (render qi ql) parts)"
proof -
  have "concat (map (render qi ql) (intersperse_sql (SQL '' AND '') parts)) = join_str '' AND '' (map (render qi ql) parts)"
    using render_sql_join [of qi ql "'' AND ''" parts] by (simp add: sql_join_def)
  then show "parts \<noteq> [] \<Longrightarrow> ?thesis" by (simp add: where_sql_def)
qed

lemma mandatory_text:
  "tokens_text env qi ql [TAtom (mandatory_atom x)] = render qi ql (Composed [Identifier (fst x), SQL '' = '', SQL ''%s''])"
  by (simp add: tokens_text_simps mandatory_atom_sql)

lemma where_text:
  assumes "make_mandatory_conditions m = Inr (parts, mps)" "clause_valid c" "clause_to_sql env c = Inr (s, ps)"
  shows "\<exists>sql. s = Some sql \<and> render qi ql (where_sql (parts @ [sql])) =
    '' WHERE '' @ tokens_text env qi ql (join_tokens TAnd (map fst (mandatory_pairs m) @ [clause_tokens c]))"
proof -
  obtain sql where s: "s = Some sql" "render qi ql sql = tokens_text env qi ql (clause_tokens c)"
    using clause_text [OF assms(2,3)] by blast
  have "map (render qi ql) parts = map (tokens_text env qi ql) (map fst (mandatory_pairs m))"
    unfolding make_mandatory_parts(1) [OF assms(1)] mandatory_pairs_def by (simp add: mandatory_text del: render.simps)
  then show ?thesis
    using s by (simp add: render_where_sql tokens_text_join)
qed

subsection \<open>Collecting the filters\<close>

lemma map_of_rebuild_dict: "map_of (rebuild_dict kvs) = map_of (rev kvs)"
proof (induction kvs rule: rev_induct)
  case (snoc kv kvs)
  have "map_of (rebuild_dict (kvs @ [kv])) = (map_of (rebuild_dict kvs))(fst kv \<mapsto> snd kv)"
    by (simp add: rebuild_dict_def update_conv')
  with snoc show ?case by (cases kv) simp
qed (simp add: rebuild_dict_def)

lemma map_of_rebuild_distinct: "distinct (map fst kvs) \<Longrightarrow> map_of (rebuild_dict kvs) = map_of kvs"
  unfolding map_of_rebuild_dict by (rule map_of_inject_set [THEN iffD2]) (simp_all add: rev_map [symmetric])

definition auth_scope :: "(string \<times> pydict) list option \<Rightarrow> string option \<Rightarrow> pydict" where
  "auth_scope auth_filters field =
     (case (auth_filters, field) of
        (Some fs, Some name) \<Rightarrow> (case map_of fs name of Some d \<Rightarrow> d | None \<Rightarrow> [])
      | _ \<Rightarrow> [])"

definition filters_map :: "pydict option \<Rightarrow> string \<rightharpoonup> pyval" where
  "filters_map fs = (case fs of None \<Rightarrow> Map.empty | Some d \<Rightarrow> map_of d)"

text \<open>
  C10: No scope is lost or overridden.  The mandatory filters of a query are the caller's filters
  together with all filters that the authorization wrote for the current root field; when the
  two name a common column the query is refused, so neither replaces the other.
\<close>

theorem consume_mandatory_filters_correct:
  assumes "distinct (map fst (case caller of Some d \<Rightarrow> d | None \<Rightarrow> []))" "distinct (map fst (auth_scope auth_filters field))"
  shows "if dom (filters_map caller) \<inter> fst ` set (auth_scope auth_filters field) = {}
     then \<exists>fs. consume_mandatory_filters caller auth_filters field = Inr fs \<and> fs \<noteq> Some []
        \<and> filters_map fs = filters_map caller ++ map_of (auth_scope auth_filters field)
     else consume_mandatory_filters caller auth_filters field = Inl GraphQLError"
proof -
  let ?explicit = "case caller of Some d \<Rightarrow> d | None \<Rightarrow> []"
  let ?auth = "auth_scope auth_filters field"
  have caller: "filters_map caller = map_of ?explicit" by (simp add: filters_map_def split: option.split)
  have eq: "consume_mandatory_filters caller auth_filters field =
      (if ?auth = [] then Inr (if ?explicit = [] then None else Some ?explicit)
       else if list_ex (\<lambda>(k, _). k \<in> set (map fst ?auth)) ?explicit then Inl GraphQLError
       else Inr (Some (rebuild_dict (?explicit @ ?auth))))"
    unfolding consume_mandatory_filters_def Let_def auth_scope_def ..
  have overlap: "list_ex (\<lambda>(k, _). k \<in> set (map fst ?auth)) ?explicit \<longleftrightarrow> fst ` set ?explicit \<inter> fst ` set ?auth \<noteq> {}"
    by (force simp: list_ex_iff)
  have dom: "dom (filters_map caller) = fst ` set ?explicit" unfolding caller by (rule dom_map_of_conv_image_fst)
  show ?thesis
  proof (cases "fst ` set ?explicit \<inter> fst ` set ?auth = {}")
    case True
    have "\<exists>fs. consume_mandatory_filters caller auth_filters field = Inr fs \<and> fs \<noteq> Some []
        \<and> filters_map fs = filters_map caller ++ map_of ?auth"
    proof (cases "?auth = []")
      case True
      then show ?thesis unfolding eq caller by (simp add: filters_map_def)
    next
      case False
      have "distinct (map fst (?explicit @ ?auth))" using assms True by auto
      note m = map_of_rebuild_distinct [OF this]
      have "map_of (?explicit @ ?auth) = map_of ?explicit ++ map_of ?auth"
        unfolding map_of_append by (rule map_add_comm) (use True in \<open>auto simp: dom_map_of_conv_image_fst\<close>)
      moreover have "rebuild_dict (?explicit @ ?auth) \<noteq> []"
      proof
        assume "rebuild_dict (?explicit @ ?auth) = []"
        with m have "dom (map_of (?explicit @ ?auth)) = {}" by simp
        with False show False by (simp add: dom_map_of_conv_image_fst)
      qed
      ultimately show ?thesis using False True overlap m unfolding eq caller by (simp add: filters_map_def)
    qed
    with True dom show ?thesis by simp
  next
    case False
    then have "?auth \<noteq> []" by auto
    with False overlap dom show ?thesis unfolding eq by simp
  qed
qed

theorem consume_mandatory_filters_correct_witness:
  "consume_mandatory_filters (Some [(''status'', PStr ''a'')]) (Some [(''users'', [(''tenant_id'', PInt 7)])]) (Some ''users'')
     = Inr (Some [(''status'', PStr ''a''), (''tenant_id'', PInt 7)])
   \<and> consume_mandatory_filters (Some [(''tenant_id'', PInt 8)]) (Some [(''users'', [(''tenant_id'', PInt 7)])]) (Some ''users'')
     = Inl GraphQLError"
proof
  show "consume_mandatory_filters (Some [(''status'', PStr ''a'')]) (Some [(''users'', [(''tenant_id'', PInt 7)])]) (Some ''users'')
     = Inr (Some [(''status'', PStr ''a''), (''tenant_id'', PInt 7)])"
    by code_simp
  show "consume_mandatory_filters (Some [(''tenant_id'', PInt 8)]) (Some [(''users'', [(''tenant_id'', PInt 7)])]) (Some ''users'')
     = Inl GraphQLError"
    using consume_mandatory_filters_correct [of "Some [(''tenant_id'', PInt 8)]" "Some [(''users'', [(''tenant_id'', PInt 7)])]" "Some ''users''"]
    by (simp add: auth_scope_def filters_map_def)
qed

subsection \<open>The scope of a query\<close>

lemma conjunction_only:
  assumes "make_mandatory_conditions m = Inr (parts, mps)" "m \<noteq> []"
  shows "render qi ql (where_sql parts) = '' WHERE '' @ tokens_text env qi ql (join_tokens TAnd (map fst (mandatory_pairs m)))"
    and "\<exists>e. read_bool (join_tokens TAnd (map fst (mandatory_pairs m))) = Some e
      \<and> (\<forall>v. bexp_val v e = and3 (map (v \<circ> mandatory_atom) m))"
proof -
  have parts: "map (render qi ql) parts = map (tokens_text env qi ql) (map fst (mandatory_pairs m))" "parts \<noteq> []"
    using assms(2) unfolding make_mandatory_parts(1) [OF assms(1)] mandatory_pairs_def
    by (simp_all add: mandatory_text del: render.simps)
  then show "render qi ql (where_sql parts) = '' WHERE '' @ tokens_text env qi ql (join_tokens TAnd (map fst (mandatory_pairs m)))"
    by (simp add: render_where_sql tokens_text_join)
  have "is_part [TAtom a] \<and> read_bool [TAtom a] = Some (BAtom a)" for a
    using read_part(1) [of "[]"] by (simp add: is_part_def)
  then have "\<forall>(p, e) \<in> set (mandatory_pairs m). is_part p \<and> read_bool p = Some e" by (auto simp: mandatory_pairs_def)
  from read_join [OF this, of "''AND''"] assms(2) have
    "read_bool (join_tokens TAnd (map fst (mandatory_pairs m))) = Some (combine_exp ''AND'' (map snd (mandatory_pairs m)))"
    by (simp add: op_token_def mandatory_pairs_def)
  moreover have "bexp_val v (combine_exp ''AND'' (map snd (mandatory_pairs m))) = and3 (map (v \<circ> mandatory_atom) m)" for v
    unfolding combine_and_val by (simp add: mandatory_pairs_def comp_def)
  ultimately show "\<exists>e. read_bool (join_tokens TAnd (map fst (mandatory_pairs m))) = Some e
      \<and> (\<forall>v. bexp_val v e = and3 (map (v \<circ> mandatory_atom) m))" by blast
qed

lemma where_is_conjunction_aux:
  assumes "arg_dict arg = Some d" "plain (PDict d)" "arg_truthy (Some arg)"
    and "make_mandatory_conditions m = Inr mandatory"
    and "build_where_clause fuel ne env ty view mandatory known (Some arg) kwargs = Inr (parts, ps)"
  shows "\<exists>c ts e. normalize_where fuel ne ty arg view (query_columns ne view known) = Inr c
    \<and> render qi ql (where_sql parts) = '' WHERE '' @ tokens_text env qi ql ts \<and> read_bool ts = Some e
    \<and> (\<forall>v. bexp_val v e = and3 (map (v \<circ> mandatory_atom) m @ [clause_val v c]))"
proof -
  from build_where_clause_Inr(3) [OF assms(5,3)] obtain c s qs where
    n: "normalize_where fuel ne ty arg view (query_columns ne view known) = Inr c" "clause_to_sql env c = Inr (s, qs)"
    and parts: "(parts, ps) = (case s of None \<Rightarrow> mandatory | Some sql \<Rightarrow> (fst mandatory @ [sql], snd mandatory @ qs))"
    by auto
  have t: "clause_valid c" "logical_op c = ''AND''"
    using normalize_where_typed [OF n(1) assms(1,2)] unfolding typed_clause_def by blast+
  have m: "make_mandatory_conditions m = Inr (fst mandatory, snd mandatory)" using assms(4) by simp
  from where_text [OF m t(1) n(2), of qi ql] conjunction_read [OF t, of m] parts n(1) show ?thesis by auto
qed

text \<open>
  The clause that a query adds to its mandatory filters: none without a filter, otherwise the one the
  filter normalises to.  The parts of a query with mandatory filters are, joined by AND, the text of a token list that is a
  conjunction at the top and reads as the conjunction of the mandatory conditions with that clause.
\<close>

definition client_clause :: "nat \<Rightarrow> norm_env \<Rightarrow> declared_types option \<Rightarrow> where_arg option \<Rightarrow> string \<Rightarrow> where_clause list \<Rightarrow> bool" where
  "client_clause fuel ne ty arg view cl \<longleftrightarrow>
     (if arg_truthy arg then \<exists>c known. cl = [c] \<and> normalize_where fuel ne ty (the arg) view known = Inr c else cl = [])"

lemma where_tokens:
  assumes "build_where_clause fuel ne env ty view mandatory known arg kwargs = Inr (parts, qs)"
    and "make_mandatory_conditions filters = Inr mandatory" "filters \<noteq> []"
    and "arg = None \<or> (\<exists>a d. arg = Some a \<and> arg_dict a = Some d \<and> plain (PDict d))"
  obtains ts e cl where "parts \<noteq> []" "read_bool ts = Some e" "client_clause fuel ne ty arg view cl"
    "\<And>v. bexp_val v e = and3 (map (v \<circ> mandatory_atom) filters @ map (clause_val v) cl)"
    "\<exists>ps. ts = join_tokens TAnd ps \<and> (\<forall>p \<in> set ps. is_part p)"
    "join_str '' AND '' (map (render qi ql) parts) = tokens_text env qi ql ts"
proof -
  have mk: "make_mandatory_conditions filters = Inr (fst mandatory, snd mandatory)" using assms(2) by simp
  have ne: "fst mandatory \<noteq> []" using make_mandatory_parts(1) [OF mk] assms(3) by simp
  have part: "is_part [TAtom a]" for a by (simp add: is_part_def)
  then have pairs: "\<forall>p \<in> set (map fst (mandatory_pairs filters)). is_part p" by (auto simp: mandatory_pairs_def)
  show thesis
  proof (cases "arg_truthy arg")
    case False
    with build_where_clause_Inr(2) [OF assms(1)] have "fst mandatory = parts" by simp
    moreover from this ne conjunction_only(1) [OF mk assms(3), of qi ql env] have
      "join_str '' AND '' (map (render qi ql) parts) = tokens_text env qi ql (join_tokens TAnd (map fst (mandatory_pairs filters)))"
      by (simp add: render_where_sql)
    moreover from conjunction_only(2) [OF mk assms(3)] obtain e where "read_bool (join_tokens TAnd (map fst (mandatory_pairs filters))) = Some e"
      "\<forall>v. bexp_val v e = and3 (map (v \<circ> mandatory_atom) filters)" by blast
    moreover have "\<exists>ps. join_tokens TAnd (map fst (mandatory_pairs filters)) = join_tokens TAnd ps \<and> (\<forall>p \<in> set ps. is_part p)"
      using pairs by blast
    ultimately show thesis using False ne by (intro that [of _ e "[]"]) (auto simp: client_clause_def)
  next
    case True
    then obtain a d where a: "arg = Some a" "arg_dict a = Some d" "plain (PDict d)"
      using assms(4) by (auto simp: arg_truthy_def)
    from build_where_clause_Inr(3) [OF assms(1) True] a(1) obtain c s ps where
      n: "normalize_where fuel ne ty a view (query_columns ne view known) = Inr c" "clause_to_sql env c = Inr (s, ps)"
      and parts: "(parts, qs) = (case s of None \<Rightarrow> mandatory | Some sql \<Rightarrow> (fst mandatory @ [sql], snd mandatory @ ps))" by auto
    have t: "clause_valid c" "logical_op c = ''AND''"
      using normalize_where_typed [OF n(1) a(2,3)] unfolding typed_clause_def by blast+
    then obtain cs ns nc where c: "c = WhereClause cs ''AND'' ns nc" by (cases c) simp
    note cp = clause_pairs [OF t(1) [unfolded c]]
    let ?ts = "join_tokens TAnd (map fst (mandatory_pairs filters) @ [clause_tokens c])"
    let ?ps = "map fst (mandatory_pairs filters) @ map fst (part_pairs cs ns nc)"
    from where_text [OF mk t(1) n(2), of qi ql] obtain sql where s: "s = Some sql"
      "render qi ql (where_sql (fst mandatory @ [sql])) = '' WHERE '' @ tokens_text env qi ql ?ts" by blast
    then have "join_str '' AND '' (map (render qi ql) parts) = tokens_text env qi ql ?ts" "parts \<noteq> []"
      using parts render_where_sql [of "fst mandatory @ [sql]" qi ql] by (simp_all add: prod_eq_iff)
    moreover have "?ts = join_tokens TAnd ?ps"
      unfolding c clause_tokens_pairs(1) using cp(2) by (simp add: op_token_def join_tokens_flat)
    moreover have "\<forall>p \<in> set ?ps. is_part p" using pairs cp(1) by auto
    moreover from conjunction_read [OF t, of filters] obtain e where "read_bool ?ts = Some e"
      "\<forall>v. bexp_val v e = and3 (map (v \<circ> mandatory_atom) filters @ [clause_val v c])" by blast
    moreover have "client_clause fuel ne ty arg view [c]" using True a(1) n(1) by (auto simp: client_clause_def)
    ultimately show thesis by (intro that [of ?ts e "[c]"]) auto
  qed
qed

lemma and3_all: "and3 (xs @ ys) = Some True \<longleftrightarrow> (\<forall>x \<in> set xs. x = Some True) \<and> (\<forall>y \<in> set ys. y = Some True)"
  by (auto simp: and3_def image_iff split: if_splits) (metis (full_types) not_None_eq)+

text \<open>
  The WHERE clause of a query is the conjunction of its scope and the client's filter.  The
  text of the clause built from mandatory conditions and a filter dictionary reads, with the
  precedence of SQL, as an expression whose value is, for every valuation of the conditions, the
  three-valued conjunction of the mandatory conditions and of the value of the filter's clause.
\<close>

theorem where_is_conjunction:
  assumes "arg_dict arg = Some d" "plain (PDict d)" "arg_truthy (Some arg)"
    and "make_mandatory_conditions m = Inr mandatory"
    and "build_where_clause fuel ne env ty view mandatory known (Some arg) kwargs = Inr (parts, ps)"
  shows "\<exists>c ts e. normalize_where fuel ne ty arg view (query_columns ne view known) = Inr c
    \<and> render qi ql (where_sql parts) = '' WHERE '' @ tokens_text env qi ql ts \<and> read_bool ts = Some e
    \<and> (\<forall>v. bexp_val v e = and3 (map (v \<circ> mandatory_atom) m @ [clause_val v c]))"
  by (rule where_is_conjunction_aux [OF assms])

text \<open>
  C2: Row scope.  A row that the WHERE clause of a read helper selects satisfies every mandatory
  filter of the query, those of the caller and those of the operation's authorization, whatever
  filter dictionary the client sent: if the clause is true for a row, each of the equalities is.
\<close>

theorem mandatory_filters_enforced:
  assumes "helper_where fuel ne env ty auth field shape rq = Inr (parts, ps)"
    and "consume_mandatory_filters (rq_mandatory rq) auth field = Inr (Some filters)" "filters \<noteq> []"
    and "rq_where rq = None \<or> (\<exists>arg d. rq_where rq = Some arg \<and> arg_dict arg = Some d \<and> plain (PDict d))"
  shows "\<exists>ts e. render qi ql (where_sql parts) = '' WHERE '' @ tokens_text env qi ql ts \<and> read_bool ts = Some e
    \<and> (\<forall>v. bexp_val v e = Some True \<longrightarrow> (\<forall>x \<in> set filters. v (mandatory_atom x) = Some True))"
proof -
  obtain mandatory known where m: "make_mandatory_conditions filters = Inr mandatory" and
    b: "build_where_clause fuel ne env ty (rq_view rq) mandatory known (rq_where rq) (rq_kwargs rq) = Inr (parts, ps)"
    using assms(1,2) by (auto simp: helper_where_def rbind_eq_Inr Let_def)
  have all: "\<forall>x \<in> set filters. v (mandatory_atom x) = Some True"
    if "and3 (map (v \<circ> mandatory_atom) filters @ r) = Some True" for v r
    using that by (auto simp: and3_def image_iff split: if_splits) (metis (full_types) not_None_eq)
  show ?thesis
  proof (cases "arg_truthy (rq_where rq)")
    case True
    then obtain arg d where a: "rq_where rq = Some arg" "arg_dict arg = Some d" "plain (PDict d)"
      using assms(4) by (auto simp: arg_truthy_def)
    from where_is_conjunction_aux [OF a(2,3) _ m, of fuel ne env ty "rq_view rq" known "rq_kwargs rq" parts ps qi ql] True b a(1)
    obtain ts e c where "render qi ql (where_sql parts) = '' WHERE '' @ tokens_text env qi ql ts" "read_bool ts = Some e"
      "\<forall>v. bexp_val v e = and3 (map (v \<circ> mandatory_atom) filters @ [clause_val v c])" by auto
    with all show ?thesis by metis
  next
    case False
    with b build_where_clause_Inr(2) [OF b] have "mandatory = (parts, ps)" by simp
    with m have "make_mandatory_conditions filters = Inr (parts, ps)" by simp
    from conjunction_only [OF this assms(3)] all [of _ "[]"] show ?thesis by (metis append_Nil2)
  qed
qed

text \<open>
  The guarantee is one of dictionaries.  A clause object given as \<open>where\<close> is joined as it is, and
  the parts are not parenthesised: with a top-level \<open>OR\<close> the text \<open>tenant_id = %s AND a OR b\<close> reads
  as \<open>(tenant_id = %s AND a) OR b\<close>, which is true of rows outside the mandatory filter.
\<close>

definition or_clause :: where_clause where
  "or_clause = WhereClause [example_column ''status'' ''eq'' (PStr ''active''), example_column ''priority'' ''gt'' (PInt 3)]
     ''OR'' [] None"

lemma or_clause_escapes_scope:
  "\<exists>parts ps. build_where_clause 9 example_norm_env example_env None ''v_users''
       ([Composed [Identifier ''tenant_id'', SQL '' = '', SQL ''%s'']], [PInt 7]) None (Some (ArgClause or_clause)) [] = Inr (parts, ps)
     \<and> render qi ql (where_sql parts) = '' WHERE '' @ tokens_text example_env qi ql
          [TAtom (mandatory_atom (''tenant_id'', PInt 7)), TAnd, TAtom (example_column ''status'' ''eq'' (PStr ''active'')),
           TOr, TAtom (example_column ''priority'' ''gt'' (PInt 3))]"
  "read_bool [TAtom t, TAnd, TAtom a, TOr, TAtom b] = Some (BOr [BAnd [BAtom t, BAtom a], BAtom b])"
  "bexp_val (\<lambda>fc. Some (fc = b)) (BOr [BAnd [BAtom t, BAtom a], BAtom b]) = Some True"
proof -
  have "clause_to_sql example_env or_clause =
      Inr (Some (Composed [Composed [Identifier ''status'', SQL '' = '', SQL ''%s''], SQL '' OR '',
        Composed [Identifier ''priority'', SQL '' > '', SQL ''%s'']]), [PStr ''active'', PInt 3])"
    by (simp add: or_clause_def example_columns combine_parts_def clause_parts_def sql_join_def)
  then show "\<exists>parts ps. build_where_clause 9 example_norm_env example_env None ''v_users''
       ([Composed [Identifier ''tenant_id'', SQL '' = '', SQL ''%s'']], [PInt 7]) None (Some (ArgClause or_clause)) [] = Inr (parts, ps)
     \<and> render qi ql (where_sql parts) = '' WHERE '' @ tokens_text example_env qi ql
          [TAtom (mandatory_atom (''tenant_id'', PInt 7)), TAnd, TAtom (example_column ''status'' ''eq'' (PStr ''active'')),
           TOr, TAtom (example_column ''priority'' ''gt'' (PInt 3))]"
    by (simp add: build_where_clause_def arg_truthy_def normalize_where_def where_sql_def tokens_text_simps
        mandatory_atom_sql example_columns)
  show "read_bool [TAtom t, TAnd, TAtom a, TOr, TAtom b] = Some (BOr [BAnd [BAtom t, BAtom a], BAtom b])"
    by (simp add: read_bool.simps)
  show "bexp_val (\<lambda>fc. Some (fc = b)) (BOr [BAnd [BAtom t, BAtom a], BAtom b]) = Some True"
    by (simp add: or3_def)
qed

subsection \<open>The words of the query\<close>

text \<open>
  C9: Injection safety from the client's filter to the query.  For every plain filter, given as a
  dictionary, a \<open>WhereInput\<close> object or a dataclass, whatever view, registered metadata, column
  mapping and declared types, every raw SQL text of the generated WHERE clause is a word of the
  fixed vocabulary or one of the constants of the mandatory conditions: the filter's names and
  values reach the query only as quoted identifiers, literals and parameters.
\<close>

theorem pipeline_injection_safe:
  assumes "arg_dict arg = Some d" "plain (PDict d)" "make_mandatory_conditions m = Inr mandatory"
    and "build_where_clause fuel ne env ty view mandatory known (Some arg) kwargs = Inr (parts, ps)"
  shows "texts (where_sql parts) \<subseteq> where_vocab \<union> {[], '' WHERE '', '' AND '', '' = '', ''%s''}"
proof -
  have arg: "\<forall>a. Some arg = Some a \<longrightarrow> (\<exists>d. arg_dict a = Some d \<and> plain (PDict d))" using assms(1,2) by blast
  have "texts p \<subseteq> where_vocab \<union> {'' = '', ''%s''}" if "p \<in> set parts" for p
    using where_parts_texts [OF arg assms(4) that] mandatory_texts [OF assms(3)] by blast
  moreover have "texts (where_sql parts) \<subseteq> {[], '' WHERE '', '' AND ''} \<union> (\<Union>p \<in> set parts. texts p)"
    using texts_intersperse [of "'' AND ''" parts] by (auto simp: where_sql_def)
  ultimately show ?thesis by blast
qed

subsection \<open>An example query\<close>

definition example_parts :: "composable list" where
  "example_parts = [Composed [Identifier ''tenant_id'', SQL '' = '', SQL ''%s''],
     Composed [Identifier ''status'', SQL '' = '', SQL ''%s'']]"

definition example_request :: query_request where
  "example_request = \<lparr>rq_view = ''v_users'', rq_mandatory = None,
     rq_where = Some (ArgDict [(''status'', PDict [(''eq'', PStr ''active'')])]), rq_kwargs = []\<rparr>"

lemma example_normalize:
  "normalize_where 9 example_norm_env None (ArgDict [(''status'', PDict [(''eq'', PStr ''active'')])]) ''v_users'' (Some [''id'', ''status''])
   = Inr (WhereClause [example_column ''status'' ''eq'' (PStr ''active'')] ''AND'' [] None)"
  by code_simp

lemma example_plain: "plain (PDict [(''status'', PDict [(''eq'', PStr ''active'')])])"
  by simp

lemma example_mandatory:
  "make_mandatory_conditions [(''tenant_id'', PInt 7)] = Inr ([Composed [Identifier ''tenant_id'', SQL '' = '', SQL ''%s'']], [PInt 7])"
  by code_simp

lemma example_build:
  "build_where_clause 9 example_norm_env example_env None ''v_users''
     ([Composed [Identifier ''tenant_id'', SQL '' = '', SQL ''%s'']], [PInt 7]) (Some [''id'', ''status''])
     (Some (ArgDict [(''status'', PDict [(''eq'', PStr ''active'')])])) [] = Inr (example_parts, [PInt 7, PStr ''active''])"
  by (simp add: build_where_clause_def arg_truthy_def query_columns_def example_normalize example_columns
      combine_parts_def clause_parts_def example_parts_def)

lemma example_helper:
  "helper_where 9 example_norm_env example_env None (Some [(''users'', [(''tenant_id'', PInt 7)])]) (Some ''users'')
     (Some [''id'', ''status''], Some ''data'') example_request = Inr (example_parts, [PInt 7, PStr ''active''])"
proof -
  have "consume_mandatory_filters None (Some [(''users'', [(''tenant_id'', PInt 7)])]) (Some ''users'') = Inr (Some [(''tenant_id'', PInt 7)])"
    by code_simp
  then show ?thesis
    by (simp add: helper_where_def example_request_def example_mandatory arg_truthy_def example_norm_env_def
        example_build [unfolded example_norm_env_def])
qed

theorem pipeline_injection_safe_witness:
  "build_where_clause 9 example_norm_env example_env None ''v_users''
     ([Composed [Identifier ''tenant_id'', SQL '' = '', SQL ''%s'']], [PInt 7]) (Some [''id'', ''status''])
     (Some (ArgDict [(''status'', PDict [(''eq'', PStr ''active'')])])) [] = Inr (example_parts, [PInt 7, PStr ''active''])
   \<and> texts (where_sql example_parts) \<subseteq> where_vocab \<union> {[], '' WHERE '', '' AND '', '' = '', ''%s''}"
  using pipeline_injection_safe [OF _ example_plain example_mandatory example_build] example_build by simp

theorem where_is_conjunction_witness:
  "render (\<lambda>s. s) py_repr (where_sql example_parts) = '' WHERE tenant_id = %s AND status = %s''
   \<and> (\<exists>c ts e. normalize_where 9 example_norm_env None (ArgDict [(''status'', PDict [(''eq'', PStr ''active'')])]) ''v_users''
          (query_columns example_norm_env ''v_users'' (Some [''id'', ''status''])) = Inr c
      \<and> render (\<lambda>s. s) py_repr (where_sql example_parts) = '' WHERE '' @ tokens_text example_env (\<lambda>s. s) py_repr ts
      \<and> read_bool ts = Some e
      \<and> (\<forall>v. bexp_val v e = and3 (map (v \<circ> mandatory_atom) [(''tenant_id'', PInt 7)] @ [clause_val v c])))"
proof
  show "render (\<lambda>s. s) py_repr (where_sql example_parts) = '' WHERE tenant_id = %s AND status = %s''"
    by (simp add: example_parts_def where_sql_def)
qed (rule where_is_conjunction [OF _ example_plain _ example_mandatory example_build]; simp add: arg_truthy_def)

theorem mandatory_filters_enforced_witness:
  "helper_where 9 example_norm_env example_env None (Some [(''users'', [(''tenant_id'', PInt 7)])]) (Some ''users'')
     (Some [''id'', ''status''], Some ''data'') example_request = Inr (example_parts, [PInt 7, PStr ''active''])
   \<and> (\<exists>ts e. render (\<lambda>s. s) py_repr (where_sql example_parts) = '' WHERE '' @ tokens_text example_env (\<lambda>s. s) py_repr ts
      \<and> read_bool ts = Some e
      \<and> (\<forall>v. bexp_val v e = Some True \<longrightarrow> (\<forall>x \<in> set [(''tenant_id'', PInt 7)]. v (mandatory_atom x) = Some True)))"
proof
  show "\<exists>ts e. render (\<lambda>s. s) py_repr (where_sql example_parts) = '' WHERE '' @ tokens_text example_env (\<lambda>s. s) py_repr ts
      \<and> read_bool ts = Some e
      \<and> (\<forall>v. bexp_val v e = Some True \<longrightarrow> (\<forall>x \<in> set [(''tenant_id'', PInt 7)]. v (mandatory_atom x) = Some True))"
  proof (rule mandatory_filters_enforced [OF example_helper])
    show "consume_mandatory_filters (rq_mandatory example_request) (Some [(''users'', [(''tenant_id'', PInt 7)])]) (Some ''users'')
        = Inr (Some [(''tenant_id'', PInt 7)])" by code_simp
  qed (simp_all add: example_request_def)
qed (rule example_helper)

end
