(* ===== verification/FilterReading.thy ===== *)
theory FilterReading
  imports FilterMeaning
begin

section \<open>What a filter dictionary says\<close>

text \<open>
  A meaning of filter dictionaries that does not use the translation of \<open>where_normalization.py\<close>: which
  place of the view each operator of the filter speaks about, read off the path to it, and how the
  entries combine.  The theorem at the end says that the translation gives a clause with this meaning.
\<close>

subsection \<open>Places\<close>








subsection \<open>Meaning\<close>










subsection \<open>Filters that are read as they say\<close>







subsection \<open>The paths of the operators\<close>





subsection \<open>Names\<close>




subsection \<open>Conditions read back\<close>






subsection \<open>The conditions of a field\<close>











subsection \<open>The translation keeps the meaning\<close>






text \<open>
  In an object inside another one the columns of the view are still asked for: \<open>machine.owner.id\<close> is looked
  up in the \<open>owner_id\<close> column of the view itself.
\<close>

lemma inner_key_reads_outer_column:
  "normalize_dict_where 9 example_norm_env ''v_users'' ''data'' (Some [''id'', ''owner_id''])
     (PDict [(''machine'', PDict [(''owner'', PDict [(''id'', PDict [(''eq'', PInt 7)])])])])
   = Inr (WhereClause [\<lparr>field_path = [''machine'', ''owner'', ''id''], operator = ''eq'', fc_value = PInt 7,
        lookup_strategy = ''fk_column'', target_column = ''owner_id'', jsonb_path = None, temporal_cast = None\<rparr>] ''AND'' [] None)"
  by code_simp

end
