(* ===== verification/RateLimit.thy ===== *)
theory RateLimit
  imports PyValue
begin

section \<open>Rate limiting\<close>

text \<open>
  \<open>middleware/rate_limiter.py\<close>: the configuration, the in-memory limiter with its two sliding
  windows per client, the PostgreSQL limiter with its table of requests, and the middleware that
  turns a decision into a response.  The contract both limiters keep is a locale; a limit on the
  requests of any window is proved once inside it.

  Times are rationals in seconds.  \<open>time.time()\<close> and PostgreSQL's \<open>NOW()\<close> are arguments of the
  operations.  The tables of the SQL statements are lists of rows and each statement is the
  list operation that PostgreSQL documents; a transaction that fails changes nothing.  Logging of
  security events is not modelled, nor is rounding of floats.
\<close>

subsection \<open>Configuration and answers\<close>

record limit_config =
  enabled :: bool
  requests_per_minute :: int
  requests_per_hour :: int
  burst_size :: int
  whitelist :: "string list"
  blacklist :: "string list"

record limit_info =
  allowed :: bool
  remaining :: int
  reset_after :: int
  retry_after :: int
  minute_requests :: int
  hour_requests :: int
  minute_limit :: int
  hour_limit :: int

definition is_allowed :: "limit_config \<Rightarrow> nat \<Rightarrow> nat \<Rightarrow> bool" where
  "is_allowed cfg minute_count hour_count =
     (if int hour_count \<ge> requests_per_hour cfg then False
      else int minute_count < max (requests_per_minute cfg) (burst_size cfg))"

definition blacklist_info :: "nat \<Rightarrow> nat \<Rightarrow> limit_info" where
  "blacklist_info mc hc = \<lparr>allowed = False, remaining = 0, reset_after = 3600, retry_after = 3600,
     minute_requests = int mc, hour_requests = int hc, minute_limit = 0, hour_limit = 0\<rparr>"

definition whitelist_info :: "nat \<Rightarrow> nat \<Rightarrow> limit_info" where
  "whitelist_info mc hc = \<lparr>allowed = True, remaining = 999999, reset_after = 0, retry_after = 0,
     minute_requests = int mc, hour_requests = int hc, minute_limit = 999999, hour_limit = 999999\<rparr>"

definition allowed_info :: "limit_config \<Rightarrow> nat \<Rightarrow> nat \<Rightarrow> int \<Rightarrow> limit_info" where
  "allowed_info cfg mc hc reset =
     \<lparr>allowed = True,
      remaining = min (max 0 (requests_per_minute cfg - int mc - 1)) (max 0 (requests_per_hour cfg - int hc - 1)),
      reset_after = reset, retry_after = 0, minute_requests = int mc + 1, hour_requests = int hc + 1,
      minute_limit = requests_per_minute cfg, hour_limit = requests_per_hour cfg\<rparr>"

definition denied_info :: "limit_config \<Rightarrow> nat \<Rightarrow> nat \<Rightarrow> int \<Rightarrow> limit_info" where
  "denied_info cfg mc hc retry =
     \<lparr>allowed = False, remaining = 0, reset_after = retry, retry_after = retry,
      minute_requests = int mc, hour_requests = int hc,
      minute_limit = requests_per_minute cfg, hour_limit = requests_per_hour cfg\<rparr>"

definition status_info :: "limit_config \<Rightarrow> nat \<Rightarrow> nat \<Rightarrow> int \<Rightarrow> limit_info" where
  "status_info cfg mc hc reset =
     (let r = min (max 0 (requests_per_minute cfg - int mc)) (max 0 (requests_per_hour cfg - int hc)) in
      \<lparr>allowed = r > 0, remaining = r, reset_after = reset, retry_after = 0,
       minute_requests = int mc, hour_requests = int hc,
       minute_limit = requests_per_minute cfg, hour_limit = requests_per_hour cfg\<rparr>)"

subsection \<open>The in-memory limiter\<close>

type_synonym windows = "(string \<times> rat list) list"

record memory_limiter =
  minute_windows :: windows
  hour_windows :: windows

definition empty_limiter :: memory_limiter where
  "empty_limiter = \<lparr>minute_windows = [], hour_windows = []\<rparr>"

text \<open>\<open>_clean_window\<close> pops old entries from the left; \<open>window\<close> is the \<open>defaultdict\<close> lookup.\<close>

definition clean_window :: "rat \<Rightarrow> rat list \<Rightarrow> rat list" where
  "clean_window cutoff w = dropWhile (\<lambda>t. t < cutoff) w"

definition window :: "windows \<Rightarrow> string \<Rightarrow> rat list" where
  "window ws key = (case map_of ws key of None \<Rightarrow> [] | Some w \<Rightarrow> w)"

text \<open>\<open>int(width - (now - window[0]))\<close>\<close>

definition until_expiry :: "rat \<Rightarrow> rat \<Rightarrow> rat list \<Rightarrow> int result" where
  "until_expiry width now w = (case w of [] \<Rightarrow> Inl IndexError | t # _ \<Rightarrow> Inr (rat_trunc (width - (now - t))))"

definition check_rate_limit ::
  "limit_config \<Rightarrow> rat \<Rightarrow> string \<Rightarrow> memory_limiter \<Rightarrow> limit_info result \<times> memory_limiter" where
  "check_rate_limit cfg now key st =
     (let mw = clean_window (now - 60) (window (minute_windows st) key);
          hw = clean_window (now - 3600) (window (hour_windows st) key);
          st1 = st\<lparr>minute_windows := AList.update key mw (minute_windows st),
                   hour_windows := AList.update key hw (hour_windows st)\<rparr>;
          mc = length mw; hc = length hw
      in if key \<in> set (blacklist cfg) then (Inr (blacklist_info mc hc), st1)
         else if key \<in> set (whitelist cfg) then (Inr (whitelist_info mc hc), st1)
         else if is_allowed cfg mc hc then
           (rbind (until_expiry 60 now (mw @ [now])) (\<lambda>reset. Inr (allowed_info cfg mc hc reset)),
            st1\<lparr>minute_windows := AList.update key (mw @ [now]) (minute_windows st1),
                hour_windows := AList.update key (hw @ [now]) (hour_windows st1)\<rparr>)
         else
           (rbind (if int hc < requests_per_hour cfg then until_expiry 60 now mw else until_expiry 3600 now hw)
                  (\<lambda>retry. Inr (denied_info cfg mc hc retry)), st1))"

definition get_rate_limit_info ::
  "limit_config \<Rightarrow> rat \<Rightarrow> string \<Rightarrow> memory_limiter \<Rightarrow> limit_info result \<times> memory_limiter" where
  "get_rate_limit_info cfg now key st =
     (let mw = clean_window (now - 60) (window (minute_windows st) key);
          hw = clean_window (now - 3600) (window (hour_windows st) key);
          st1 = st\<lparr>minute_windows := AList.update key mw (minute_windows st),
                   hour_windows := AList.update key hw (hour_windows st)\<rparr>
      in (rbind (if mw \<noteq> [] then until_expiry 60 now mw else Inr 0)
                (\<lambda>reset. Inr (status_info cfg (length mw) (length hw) reset)), st1))"

text \<open>\<open>cleanup_expired\<close> cleans every window and deletes the keys whose window is empty.\<close>

definition clean_windows :: "rat \<Rightarrow> windows \<Rightarrow> windows" where
  "clean_windows cutoff ws = filter (\<lambda>(k, w). w \<noteq> []) (map (\<lambda>(k, w). (k, clean_window cutoff w)) ws)"

definition cleanup_expired :: "rat \<Rightarrow> memory_limiter \<Rightarrow> nat \<times> memory_limiter" where
  "cleanup_expired now st =
     (let mws = clean_windows (now - 60) (minute_windows st);
          hws = clean_windows (now - 3600) (hour_windows st)
      in (length (minute_windows st) - length mws + (length (hour_windows st) - length hws),
          st\<lparr>minute_windows := mws, hour_windows := hws\<rparr>))"

definition get_limited_keys :: "memory_limiter \<Rightarrow> string set" where
  "get_limited_keys st = set (map fst (minute_windows st)) \<union> set (map fst (hour_windows st))"

subsection \<open>The PostgreSQL limiter\<close>

datatype window_type = Minute | Hour

record request_row =
  client_key :: string
  request_time :: rat
  row_window :: window_type

type_synonym request_table = "request_row list"

definition rows_of :: "request_table \<Rightarrow> string \<Rightarrow> window_type \<Rightarrow> rat list" where
  "rows_of tb key w = map request_time (filter (\<lambda>r. client_key r = key \<and> row_window r = w) tb)"

text \<open>\<open>DELETE \<dots> WHERE request_time < NOW() - INTERVAL '1 hour'\<close>\<close>

definition delete_old :: "rat \<Rightarrow> request_table \<Rightarrow> request_table" where
  "delete_old db_now tb = filter (\<lambda>r. \<not> request_time r < db_now - 3600) tb"

text \<open>\<open>SELECT COUNT(*) \<dots> AND request_time > NOW() - INTERVAL \<dots>\<close>\<close>

definition count_recent :: "rat \<Rightarrow> rat \<Rightarrow> string \<Rightarrow> window_type \<Rightarrow> request_table \<Rightarrow> nat" where
  "count_recent db_now width key w tb = length (filter (\<lambda>t. t > db_now - width) (rows_of tb key w))"

text \<open>\<open>SELECT request_time \<dots> ORDER BY request_time ASC LIMIT 1\<close>\<close>

definition oldest :: "rat list \<Rightarrow> rat option" where
  "oldest ts = (case sort ts of [] \<Rightarrow> None | t # _ \<Rightarrow> Some t)"

text \<open>\<open>INSERT\<close> of the two rows; the primary key is the whole row.\<close>

definition insert_request :: "string \<Rightarrow> rat \<Rightarrow> request_table \<Rightarrow> request_table result" where
  "insert_request key now tb =
     (let rows = [\<lparr>client_key = key, request_time = now, row_window = Minute\<rparr>,
                  \<lparr>client_key = key, request_time = now, row_window = Hour\<rparr>]
      in if list_ex (\<lambda>r. r \<in> set tb) rows then Inl DatabaseError else Inr (tb @ rows))"

definition seconds_left :: "rat \<Rightarrow> rat \<Rightarrow> int \<Rightarrow> rat option \<Rightarrow> int" where
  "seconds_left width now fallback t = (case t of None \<Rightarrow> fallback | Some t0 \<Rightarrow> rat_trunc (width - (now - t0)))"

text \<open>
  What the counts decide: the answer, and the INSERT of a request that is allowed.  The table is the one the
  transaction sees after its DELETE.
\<close>

definition pg_decide :: "limit_config \<Rightarrow> rat \<Rightarrow> string \<Rightarrow> nat \<Rightarrow> nat \<Rightarrow> request_table \<Rightarrow> (limit_info \<times> request_table) result" where
  "pg_decide cfg now key mc hc tb =
     (if key \<in> set (blacklist cfg) then Inr (blacklist_info mc hc, tb)
      else if key \<in> set (whitelist cfg) then Inr (whitelist_info mc hc, tb)
      else if is_allowed cfg mc hc then
        (case insert_request key now tb of
           Inl e \<Rightarrow> Inl e
         | Inr tb2 \<Rightarrow> Inr (allowed_info cfg mc hc (seconds_left 60 now 0 (oldest (rows_of tb2 key Minute))), tb2))
      else
        Inr (denied_info cfg mc hc
              (if int hc < requests_per_hour cfg
               then seconds_left 60 now 60 (oldest (rows_of tb key Minute))
               else seconds_left 3600 now 3600 (oldest (rows_of tb key Hour))), tb))"

text \<open>
  A check that no other transaction overlaps.  The transaction of a check takes no lock: what happens when
  several run side by side is the subject of \<open>LimiterRace\<close>.
\<close>

definition pg_check_rate_limit ::
  "limit_config \<Rightarrow> rat \<Rightarrow> rat \<Rightarrow> string \<Rightarrow> request_table \<Rightarrow> limit_info result \<times> request_table" where
  "pg_check_rate_limit cfg now db_now key tb =
     (let tb1 = delete_old db_now tb in
      case pg_decide cfg now key (count_recent db_now 60 key Minute tb1) (count_recent db_now 3600 key Hour tb1) tb1 of
        Inl e \<Rightarrow> (Inl e, tb)
      | Inr (info, tb2) \<Rightarrow> (Inr info, tb2))"

text \<open>
  The statements of a check, one at a time.  \<open>NOW()\<close> is the time the transaction began; the rows it
  deleted are gone for the others when it commits.  Any statement may fail, which rolls it back.
\<close>

record pg_transaction =
  tx_key :: string
  tx_now :: rat
  tx_start :: rat
  tx_deleted :: request_table
  tx_minute :: "nat option"
  tx_hour :: "nat option"

record pg_state =
  ps_table :: request_table
  ps_open :: "(nat \<times> pg_transaction) list"

datatype pg_event = Begins nat string rat | CountsMinute nat | CountsHour nat | Ends nat | Fails nat | Cleans

definition seen_by :: "pg_transaction \<Rightarrow> request_table \<Rightarrow> request_table" where
  "seen_by tx tb = filter (\<lambda>r. r \<notin> set (tx_deleted tx)) tb"

definition pg_begin :: "nat \<Rightarrow> string \<Rightarrow> rat \<Rightarrow> rat \<Rightarrow> pg_state \<Rightarrow> pg_state" where
  "pg_begin i key now db_now s =
     s\<lparr>ps_open := AList.update i
        \<lparr>tx_key = key, tx_now = now, tx_start = db_now,
         tx_deleted = filter (\<lambda>r. request_time r < db_now - 3600) (ps_table s), tx_minute = None, tx_hour = None\<rparr> (ps_open s)\<rparr>"

definition pg_end :: "limit_config \<Rightarrow> nat \<Rightarrow> pg_transaction \<Rightarrow> pg_state \<Rightarrow> limit_info result option \<times> pg_state" where
  "pg_end cfg i tx s =
     (case (tx_minute tx, tx_hour tx) of
        (Some mc, Some hc) \<Rightarrow>
          (case pg_decide cfg (tx_now tx) (tx_key tx) mc hc (seen_by tx (ps_table s)) of
             Inl e \<Rightarrow> (Some (Inl e), s\<lparr>ps_open := AList.delete i (ps_open s)\<rparr>)
           | Inr (info, tb) \<Rightarrow> (Some (Inr info), s\<lparr>ps_table := tb, ps_open := AList.delete i (ps_open s)\<rparr>))
      | _ \<Rightarrow> (None, s))"

fun pg_step :: "limit_config \<Rightarrow> rat \<Rightarrow> pg_event \<Rightarrow> pg_state \<Rightarrow> limit_info result option \<times> pg_state" where
  "pg_step cfg t (Begins i key now) s = (None, if map_of (ps_open s) i = None then pg_begin i key now t s else s)"
| "pg_step cfg t (CountsMinute i) s =
     (None, case map_of (ps_open s) i of
        Some tx \<Rightarrow>
          if tx_minute tx = None
          then s\<lparr>ps_open := AList.update i
                 (tx\<lparr>tx_minute := Some (count_recent (tx_start tx) 60 (tx_key tx) Minute (seen_by tx (ps_table s)))\<rparr>) (ps_open s)\<rparr>
          else s
      | None \<Rightarrow> s)"
| "pg_step cfg t (CountsHour i) s =
     (None, case map_of (ps_open s) i of
        Some tx \<Rightarrow>
          if tx_minute tx \<noteq> None \<and> tx_hour tx = None
          then s\<lparr>ps_open := AList.update i
                 (tx\<lparr>tx_hour := Some (count_recent (tx_start tx) 3600 (tx_key tx) Hour (seen_by tx (ps_table s)))\<rparr>) (ps_open s)\<rparr>
          else s
      | None \<Rightarrow> s)"
| "pg_step cfg t (Ends i) s = (case map_of (ps_open s) i of Some tx \<Rightarrow> pg_end cfg i tx s | None \<Rightarrow> (None, s))"
| "pg_step cfg t (Fails i) s = (None, s\<lparr>ps_open := AList.delete i (ps_open s)\<rparr>)"
| "pg_step cfg t Cleans s = (None, s\<lparr>ps_table := delete_old t (ps_table s)\<rparr>)"

definition pg_get_rate_limit_info :: "limit_config \<Rightarrow> rat \<Rightarrow> rat \<Rightarrow> string \<Rightarrow> request_table \<Rightarrow> limit_info" where
  "pg_get_rate_limit_info cfg now db_now key tb =
     status_info cfg (count_recent db_now 60 key Minute tb) (count_recent db_now 3600 key Hour tb)
       (seconds_left 60 now 0 (oldest (rows_of tb key Minute)))"

definition pg_cleanup_expired :: "rat \<Rightarrow> request_table \<Rightarrow> nat \<times> request_table" where
  "pg_cleanup_expired db_now tb = (length tb - length (delete_old db_now tb), delete_old db_now tb)"

subsection \<open>The middleware\<close>

text \<open>
  The request as far as the middleware reads it, and the response: passed on to the application
  with the headers added, or a rejection.  \<open>later\<close> is the clock when the header is written.
\<close>

record http_request =
  url_path :: string
  client_host :: "string option"

datatype limit_response =
  PassThrough
| PassWithHeaders int int int
| Forbidden
| TooManyRequests int int int

definition unlimited_paths :: "string list" where
  "unlimited_paths = [''/health'', ''/ready'', ''/metrics'', ''/'']"

definition client_id :: "(http_request \<Rightarrow> string) option \<Rightarrow> http_request \<Rightarrow> string" where
  "client_id key_func rq =
     (case key_func of
        Some f \<Rightarrow> f rq
      | None \<Rightarrow> (case client_host rq of Some h \<Rightarrow> h | None \<Rightarrow> ''anonymous''))"

definition dispatch ::
  "limit_config \<Rightarrow> (http_request \<Rightarrow> string) option \<Rightarrow> (string \<Rightarrow> 's \<Rightarrow> limit_info result \<times> 's) \<Rightarrow> rat
   \<Rightarrow> http_request \<Rightarrow> 's \<Rightarrow> limit_response result \<times> 's" where
  "dispatch cfg key_func check later rq st =
     (if \<not> enabled cfg \<or> url_path rq \<in> set unlimited_paths then (Inr PassThrough, st)
      else let key = client_id key_func rq in
        if key \<in> set (blacklist cfg) then (Inr Forbidden, st)
        else case check key st of
          (Inl e, st') \<Rightarrow> (Inl e, st')
        | (Inr info, st') \<Rightarrow>
            if \<not> allowed info then
              (let retry = max 1 (retry_after info)
               in (Inr (TooManyRequests retry (minute_limit info) (rat_trunc later + retry)), st'))
            else (Inr (PassWithHeaders (minute_limit info) (remaining info) (rat_trunc later + reset_after info)), st'))"

end
