(* ===== verification/RateLimitProps.thy ===== *)
theory RateLimitProps
  imports RateLimit
begin

section \<open>Both limiters keep the limits\<close>

text \<open>
  Operations on a limiter as a sequence of timed calls, the specification that keeps every accepted
  request forever, the refinement of the specification by the pruned windows, the contract of a
  limiter as a locale with the bound on any window, and what a rejected client may rely on.
\<close>

subsection \<open>Traces of calls\<close>

datatype limiter_op = Check string | Status string | Cleanup

datatype limiter_output = Answer "limit_info result" | Cleaned

fun run_ops :: "(rat \<Rightarrow> 'a \<Rightarrow> 's \<Rightarrow> 'r \<times> 's) \<Rightarrow> (rat \<times> 'a) list \<Rightarrow> 's \<Rightarrow> 'r list \<times> 's" where
  "run_ops f [] s = ([], s)"
| "run_ops f ((now, x) # tr) s =
     (case f now x s of (r, s') \<Rightarrow> case run_ops f tr s' of (rs, s'') \<Rightarrow> (r # rs, s''))"

fun memory_op :: "limit_config \<Rightarrow> rat \<Rightarrow> limiter_op \<Rightarrow> memory_limiter \<Rightarrow> limiter_output \<times> memory_limiter" where
  "memory_op cfg now (Check key) st = map_prod Answer id (check_rate_limit cfg now key st)"
| "memory_op cfg now (Status key) st = map_prod Answer id (get_rate_limit_info cfg now key st)"
| "memory_op cfg now Cleanup st = map_prod (\<lambda>_. Cleaned) id (cleanup_expired now st)"

lemma fst_run_ops: "fst (run_ops f ((now, x) # tr) s) = fst (f now x s) # fst (run_ops f tr (snd (f now x s)))"
  by (simp split: prod.split)

text \<open>One clock: the application and the database agree on the time.\<close>

fun pg_limiter_op :: "limit_config \<Rightarrow> rat \<Rightarrow> limiter_op \<Rightarrow> request_table \<Rightarrow> limiter_output \<times> request_table" where
  "pg_limiter_op cfg now (Check key) tb = map_prod Answer id (pg_check_rate_limit cfg now now key tb)"
| "pg_limiter_op cfg now (Status key) tb = (Answer (Inr (pg_get_rate_limit_info cfg now now key tb)), tb)"
| "pg_limiter_op cfg now Cleanup tb = map_prod (\<lambda>_. Cleaned) id (pg_cleanup_expired now tb)"

definition granted :: "limiter_output \<Rightarrow> bool" where
  "granted r = (case r of Answer (Inr info) \<Rightarrow> allowed info | _ \<Rightarrow> False)"

text \<open>The times of the granted requests of a client in a trace.\<close>

fun granted_times :: "string \<Rightarrow> (rat \<times> limiter_op) list \<Rightarrow> limiter_output list \<Rightarrow> rat list" where
  "granted_times key ((now, x) # tr) (r # rs) =
     (if x = Check key \<and> granted r then now # granted_times key tr rs else granted_times key tr rs)"
| "granted_times key _ _ = []"

subsection \<open>The specification: a log that is never pruned\<close>

type_synonym request_log = "string \<Rightarrow> rat list"

definition recent :: "rat \<Rightarrow> rat list \<Rightarrow> rat list" where
  "recent cutoff ts = filter (\<lambda>t. cutoff \<le> t) ts"

definition log_check :: "limit_config \<Rightarrow> rat \<Rightarrow> string \<Rightarrow> request_log \<Rightarrow> limit_info result \<times> request_log" where
  "log_check cfg now key hist =
     (let m = recent (now - 60) (hist key); h = recent (now - 3600) (hist key) in
      if key \<in> set (blacklist cfg) then (Inr (blacklist_info (length m) (length h)), hist)
      else if key \<in> set (whitelist cfg) then (Inr (whitelist_info (length m) (length h)), hist)
      else if is_allowed cfg (length m) (length h)
      then (rbind (until_expiry 60 now (m @ [now])) (\<lambda>r. Inr (allowed_info cfg (length m) (length h) r)),
            hist(key := hist key @ [now]))
      else (rbind (if int (length h) < requests_per_hour cfg then until_expiry 60 now m else until_expiry 3600 now h)
                  (\<lambda>r. Inr (denied_info cfg (length m) (length h) r)), hist))"

definition log_status :: "limit_config \<Rightarrow> rat \<Rightarrow> string \<Rightarrow> request_log \<Rightarrow> limit_info result" where
  "log_status cfg now key hist =
     (let m = recent (now - 60) (hist key); h = recent (now - 3600) (hist key) in
      rbind (if m \<noteq> [] then until_expiry 60 now m else Inr 0) (\<lambda>r. Inr (status_info cfg (length m) (length h) r)))"

fun log_op :: "limit_config \<Rightarrow> rat \<Rightarrow> limiter_op \<Rightarrow> request_log \<Rightarrow> limiter_output \<times> request_log" where
  "log_op cfg now (Check key) hist = map_prod Answer id (log_check cfg now key hist)"
| "log_op cfg now (Status key) hist = (Answer (log_status cfg now key hist), hist)"
| "log_op cfg now Cleanup hist = (Cleaned, hist)"

subsection \<open>The windows represent the log\<close>

lemma window_update: "window (AList.update k w ws) k' = (if k' = k then w else window ws k')"
  by (simp add: window_def update_conv')

lemma window_clean: "distinct (map fst ws) \<Longrightarrow> window (clean_windows c ws) k = clean_window c (window ws k)"
proof (induction ws)
  case (Cons p ws)
  obtain k' w where p: "p = (k', w)" by (cases p)
  have "k' \<notin> fst ` set ws" using Cons.prems p by auto
  then have none: "map_of ws k' = None" by (simp add: map_of_eq_None_iff)
  have IH: "window (clean_windows c ws) k = clean_window c (window ws k)" using Cons by auto
  show ?case
  proof (cases "k = k'")
    case True
    with IH none show ?thesis
      by (cases "clean_window c w = []") (simp_all add: p window_def clean_windows_def, simp add: clean_window_def)
  next
    case False
    with IH show ?thesis by (simp add: p window_def clean_windows_def)
  qed
qed (simp add: window_def clean_windows_def clean_window_def)

lemma clean_windows_distinct: "distinct (map fst ws) \<Longrightarrow> distinct (map fst (clean_windows c ws))"
proof -
  assume "distinct (map fst ws)"
  moreover have "map fst (map (\<lambda>(k, w). (k, clean_window c w)) ws) = map fst ws" by (induction ws) auto
  ultimately have "distinct (map fst (map (\<lambda>(k, w). (k, clean_window c w)) ws))" by metis
  then show ?thesis unfolding clean_windows_def by (rule distinct_map_filter)
qed

lemma clean_sorted: "sorted ts \<Longrightarrow> clean_window c ts = recent c ts"
  unfolding clean_window_def recent_def
proof (induction ts)
  case (Cons t ts)
  then show ?case by (cases "t < c") (auto simp: filter_id_conv intro!: filter_True [symmetric])
qed simp

lemma recent_recent: "recent c (recent c' ts) = recent (max c c') ts"
  by (simp add: recent_def conj_commute)

lemma sorted_recent: "sorted ts \<Longrightarrow> sorted (recent c ts)"
  by (simp add: recent_def sorted_wrt_filter)

lemma recent_append: "c \<le> now \<Longrightarrow> recent c (ts @ [now]) = recent c ts @ [now]"
  by (simp add: recent_def)

definition pruned :: "rat \<Rightarrow> rat list \<Rightarrow> rat list \<Rightarrow> bool" where
  "pruned bound w ts = (\<exists>c \<le> bound. w = recent c ts)"

lemma pruned_clean: "sorted ts \<Longrightarrow> pruned b w ts \<Longrightarrow> b \<le> c \<Longrightarrow> clean_window c w = recent c ts"
  by (auto simp: pruned_def clean_sorted sorted_recent recent_recent max_absorb1)

lemma pruned_recent: "c \<le> b \<Longrightarrow> pruned b (recent c ts) ts"
  by (auto simp: pruned_def)

lemma pruned_mono: "pruned b w ts \<Longrightarrow> b \<le> b' \<Longrightarrow> pruned b' w ts"
  unfolding pruned_def using order_trans by blast

definition memory_represents :: "rat \<Rightarrow> memory_limiter \<Rightarrow> request_log \<Rightarrow> bool" where
  "memory_represents T st hist =
     (distinct (map fst (minute_windows st)) \<and> distinct (map fst (hour_windows st))
      \<and> (\<forall>k. sorted (hist k) \<and> (\<forall>t \<in> set (hist k). t \<le> T)
          \<and> pruned (T - 60) (window (minute_windows st) k) (hist k)
          \<and> pruned (T - 3600) (window (hour_windows st) k) (hist k)))"

lemma memory_represents_later: "memory_represents T st hist \<Longrightarrow> T \<le> T' \<Longrightarrow> memory_represents T' st hist"
  unfolding memory_represents_def by (meson diff_right_mono order_trans pruned_mono)

lemma memory_represents_empty: "memory_represents T empty_limiter (\<lambda>_. [])"
  by (auto simp: memory_represents_def empty_limiter_def window_def pruned_def recent_def)

lemma memory_cleaned:
  assumes "memory_represents now st hist"
  shows "clean_window (now - 60) (window (minute_windows st) k) = recent (now - 60) (hist k)"
    and "clean_window (now - 3600) (window (hour_windows st) k) = recent (now - 3600) (hist k)"
  using assms unfolding memory_represents_def by (meson pruned_clean order_refl)+

text \<open>Replacing the windows of a client by what they represent keeps the relation.\<close>

lemma memory_represents_update:
  assumes "memory_represents now st hist"
    and "pruned (now - 60) m ts" "pruned (now - 3600) h ts" "sorted ts" "\<forall>t \<in> set ts. t \<le> now"
  shows "memory_represents now
     (st\<lparr>minute_windows := AList.update k m (minute_windows st), hour_windows := AList.update k h (hour_windows st)\<rparr>)
     (hist(k := ts))"
  using assms by (simp add: memory_represents_def window_update distinct_update)

lemma memory_represents_pruned:
  assumes "memory_represents now st hist"
  shows "memory_represents now
     (st\<lparr>minute_windows := AList.update k (recent (now - 60) (hist k)) (minute_windows st),
         hour_windows := AList.update k (recent (now - 3600) (hist k)) (hour_windows st)\<rparr>) hist"
  using memory_represents_update [OF assms pruned_recent pruned_recent, of "now - 60" "now - 3600" "hist k" k] assms
  by (simp add: memory_represents_def)

lemma check_refines:
  assumes "memory_represents now st hist"
  shows "fst (check_rate_limit cfg now k st) = fst (log_check cfg now k hist)"
    and "memory_represents now (snd (check_rate_limit cfg now k st)) (snd (log_check cfg now k hist))"
proof -
  note c = memory_cleaned [OF assms]
  show "fst (check_rate_limit cfg now k st) = fst (log_check cfg now k hist)"
    unfolding check_rate_limit_def log_check_def Let_def c by simp
  have "memory_represents now
     (st\<lparr>minute_windows := AList.update k (recent (now - 60) (hist k) @ [now]) (minute_windows st),
         hour_windows := AList.update k (recent (now - 3600) (hist k) @ [now]) (hour_windows st)\<rparr>) (hist(k := hist k @ [now]))"
  proof (rule memory_represents_update [OF assms])
    show "pruned (now - 60) (recent (now - 60) (hist k) @ [now]) (hist k @ [now])"
      "pruned (now - 3600) (recent (now - 3600) (hist k) @ [now]) (hist k @ [now])"
      using pruned_recent [of "now - 60" "now - 60" "hist k @ [now]"]
        pruned_recent [of "now - 3600" "now - 3600" "hist k @ [now]"] by (simp_all add: recent_append)
  qed (use assms in \<open>auto simp: memory_represents_def sorted_append\<close>)
  with memory_represents_pruned [OF assms, of k]
  show "memory_represents now (snd (check_rate_limit cfg now k st)) (snd (log_check cfg now k hist))"
    unfolding check_rate_limit_def log_check_def Let_def c by simp
qed

lemma status_refines:
  assumes "memory_represents now st hist"
  shows "fst (get_rate_limit_info cfg now k st) = log_status cfg now k hist"
    and "memory_represents now (snd (get_rate_limit_info cfg now k st)) hist"
  using memory_represents_pruned [OF assms, of k]
  unfolding get_rate_limit_info_def log_status_def Let_def memory_cleaned [OF assms] by simp_all

lemma cleanup_refines:
  assumes "memory_represents now st hist"
  shows "memory_represents now (snd (cleanup_expired now st)) hist"
  using assms memory_cleaned [OF assms]
  by (simp add: cleanup_expired_def Let_def memory_represents_def window_clean clean_windows_distinct pruned_recent)

lemma memory_op_refines:
  assumes "memory_represents now st hist"
  shows "fst (memory_op cfg now x st) = fst (log_op cfg now x hist)"
    and "memory_represents now (snd (memory_op cfg now x st)) (snd (log_op cfg now x hist))"
  using check_refines [OF assms] status_refines [OF assms] cleanup_refines [OF assms]
  by (cases x; simp)+

lemma start_time: "\<exists>T. \<forall>t \<in> set (map fst (tr :: (rat \<times> 'a) list)). T \<le> t"
  by (rule exI [of _ "Min (insert 0 (set (map fst tr)))"]) simp

text \<open>
  C29: Refinement.  On every sequence of calls with a clock that does not run backwards, the limiter
  that prunes its windows, deletes empty ones and re-creates them on demand gives exactly the answers
  of the specification that keeps all accepted requests and counts those of the last minute and
  hour: allowed or not, the counts, the remaining requests and the seconds to wait.
\<close>

theorem memory_refines_log:
  assumes "sorted (map fst tr)"
  shows "fst (run_ops (memory_op cfg) tr empty_limiter) = fst (run_ops (log_op cfg) tr (\<lambda>_. []))"
proof -
  have "fst (run_ops (memory_op cfg) tr st) = fst (run_ops (log_op cfg) tr hist)"
    if "memory_represents T st hist" "sorted (map fst tr)" "\<forall>t \<in> set (map fst tr). T \<le> t" for T st hist
    using that
  proof (induction tr arbitrary: T st hist)
    case (Cons e tr)
    obtain now x where e: "e = (now, x)" by (cases e)
    from Cons.prems e have r: "memory_represents now st hist" using memory_represents_later by auto
    note IH = Cons.IH [OF memory_op_refines(2) [OF r, of cfg x]]
    show ?case using Cons.prems memory_op_refines(1) [OF r, of cfg x] IH
      unfolding e fst_run_ops by simp
  qed simp
  then show ?thesis using start_time memory_represents_empty assms by blast
qed

subsection \<open>The contract of a limiter\<close>

text \<open>
  A state represents the log of the granted requests of the clients that are limited.  Serving a
  call keeps the relation, and a granted request was within the limits of the log.
\<close>

definition log_allows :: "limit_config \<Rightarrow> rat \<Rightarrow> rat list \<Rightarrow> bool" where
  "log_allows cfg now ts =
     is_allowed cfg (length (filter (\<lambda>t. now - 60 < t) ts)) (length (filter (\<lambda>t. now - 3600 < t) ts))"

definition extend_log :: "limit_config \<Rightarrow> rat \<Rightarrow> limiter_op \<Rightarrow> limiter_output \<Rightarrow> request_log \<Rightarrow> request_log" where
  "extend_log cfg now x r hist =
     (case x of
        Check k \<Rightarrow> if granted r \<and> k \<notin> set (whitelist cfg) then hist(k := hist k @ [now]) else hist
      | _ \<Rightarrow> hist)"

locale request_limiter =
  fixes cfg :: limit_config
    and serve :: "rat \<Rightarrow> limiter_op \<Rightarrow> 's \<Rightarrow> limiter_output \<times> 's"
    and represents :: "rat \<Rightarrow> 's \<Rightarrow> request_log \<Rightarrow> bool"
  assumes later: "represents T st hist \<Longrightarrow> T \<le> T' \<Longrightarrow> represents T' st hist"
    and keeps: "represents now st hist \<Longrightarrow> serve now x st = (r, st') \<Longrightarrow> represents now st' (extend_log cfg now x r hist)"
    and within_log: "represents now st hist \<Longrightarrow> serve now (Check k) st = (r, st') \<Longrightarrow> granted r \<Longrightarrow>
      k \<notin> set (whitelist cfg) \<Longrightarrow> log_allows cfg now (hist k)"
    and past: "represents T st hist \<Longrightarrow> t \<in> set (hist k) \<Longrightarrow> t \<le> T"
begin

lemma served_log:
  assumes "represents T st hist" "sorted (map fst tr)" "\<forall>t \<in> set (map fst tr). T \<le> t"
    and "\<forall>t \<in> set (hist k). t \<le> T" "k \<notin> set (whitelist cfg)" "log_good ts0"
    and step: "\<And>now ts. log_good ts \<Longrightarrow> \<forall>t \<in> set ts. t \<le> now \<Longrightarrow> log_allows cfg now ts \<Longrightarrow> log_good (ts @ [now])"
    and "ts0 = hist k"
  shows "log_good (ts0 @ granted_times k tr (fst (run_ops serve tr st)))"
  using assms(1-6,8)
proof (induction tr arbitrary: T st hist ts0)
  case (Cons e tr)
  obtain now x where e: "e = (now, x)" by (cases e)
  obtain r st' where s: "serve now x st = (r, st')" by (cases "serve now x st")
  from Cons.prems(1,3) e have rep: "represents now st hist" using later by auto
  let ?hist = "extend_log cfg now x r hist"
  from keeps [OF rep s] have rep': "represents now st' ?hist" .
  have ext: "log_good (?hist k) \<and> ?hist k @ ts = ts0 @ (if x = Check k \<and> granted r then now # ts else ts)" for ts
  proof (cases "x = Check k \<and> granted r")
    case True
    with within_log [OF rep, of k r st'] s Cons.prems(5) have "log_allows cfg now (hist k)" by simp
    with step [of "hist k" now] Cons.prems(6,7) past [OF rep] have "log_good (hist k @ [now])" by blast
    with True Cons.prems(5,7) show ?thesis by (simp add: extend_log_def)
  next
    case False
    then have "?hist k = hist k" by (auto simp: extend_log_def split: limiter_op.split)
    with False Cons.prems(6,7) show ?thesis by simp
  qed
  have "log_good (?hist k @ granted_times k tr (fst (run_ops serve tr st')))"
    using Cons.IH [OF rep' _ _ _ Cons.prems(5), of "?hist k"] Cons.prems(2) ext past [OF rep'] e by auto
  with ext [of "granted_times k tr (fst (run_ops serve tr st'))"] show ?case
    by (simp add: e fst_run_ops s del: run_ops.simps split: if_splits)
qed simp

end

subsection \<open>No window holds more than the limit\<close>

text \<open>Of any stretch of \<open>width\<close> seconds, at most \<open>n\<close> times.\<close>

definition at_most :: "nat \<Rightarrow> rat \<Rightarrow> rat list \<Rightarrow> bool" where
  "at_most n width ts = (\<forall>a. length (filter (\<lambda>t. a < t \<and> t \<le> a + width) ts) \<le> n)"

definition minute_bound :: "limit_config \<Rightarrow> nat" where
  "minute_bound cfg = nat (max (requests_per_minute cfg) (burst_size cfg))"

definition hour_bound :: "limit_config \<Rightarrow> nat" where
  "hour_bound cfg = nat (requests_per_hour cfg)"

definition limits_kept :: "limit_config \<Rightarrow> rat list \<Rightarrow> bool" where
  "limits_kept cfg ts = (at_most (minute_bound cfg) 60 ts \<and> at_most (hour_bound cfg) 3600 ts)"

lemma length_filter_mono: "(\<And>x. P x \<Longrightarrow> Q x) \<Longrightarrow> length (filter P xs) \<le> length (filter Q xs)"
  by (induction xs) auto

lemma at_most_append:
  assumes "at_most n width ts" "length (filter (\<lambda>t. now - width < t) ts) < n"
  shows "at_most n width (ts @ [now])"
  unfolding at_most_def
proof
  fix a
  show "length (filter (\<lambda>t. a < t \<and> t \<le> a + width) (ts @ [now])) \<le> n"
  proof (cases "a < now \<and> now \<le> a + width")
    case True
    have "length (filter (\<lambda>t. a < t \<and> t \<le> a + width) ts) \<le> length (filter (\<lambda>t. now - width < t) ts)"
      using True by (intro length_filter_mono) auto
    with True assms(2) show ?thesis by simp
  next
    case False
    with assms(1) show ?thesis by (auto simp: at_most_def)
  qed
qed

lemma limits_kept_append: "limits_kept cfg ts \<Longrightarrow> log_allows cfg now ts \<Longrightarrow> limits_kept cfg (ts @ [now])"
  unfolding limits_kept_def log_allows_def is_allowed_def minute_bound_def hour_bound_def
  by (intro conjI at_most_append) (auto split: if_splits)

lemma limits_kept_Nil: "limits_kept cfg []"
  by (simp add: limits_kept_def at_most_def)

context request_limiter
begin

lemma limits_served:
  assumes "represents T st (\<lambda>_. [])" "sorted (map fst tr)" "\<forall>t \<in> set (map fst tr). T \<le> t" "k \<notin> set (whitelist cfg)"
  shows "limits_kept cfg (granted_times k tr (fst (run_ops serve tr st)))"
  using served_log [OF assms(1-3) _ assms(4), of "limits_kept cfg" "[]"] limits_kept_append limits_kept_Nil by simp

end

subsection \<open>The in-memory limiter keeps the contract\<close>

lemma log_check_granted:
  assumes "log_check cfg now k hist = (Inr info, hist')" "allowed info" "k \<notin> set (whitelist cfg)"
  shows "hist' = hist(k := hist k @ [now])" "is_allowed cfg (length (recent (now - 60) (hist k))) (length (recent (now - 3600) (hist k)))"
  using assms
  by (auto simp: log_check_def Let_def rbind_eq_Inr blacklist_info_def denied_info_def split: if_split_asm)

lemma until_expiry_ok: "\<exists>n. until_expiry width now (ts @ [t]) = Inr n"
  by (cases ts) (simp_all add: until_expiry_def)

lemma log_check_refused:
  "\<not> granted (Answer (fst (log_check cfg now k hist))) \<or> k \<in> set (whitelist cfg) \<Longrightarrow> snd (log_check cfg now k hist) = hist"
  using until_expiry_ok [of 60 now "recent (now - 60) (hist k)" now]
  by (auto simp: log_check_def Let_def granted_def allowed_info_def)

lemma is_allowed_mono: "is_allowed cfg m h \<Longrightarrow> m' \<le> m \<Longrightarrow> h' \<le> h \<Longrightarrow> is_allowed cfg m' h'"
  by (auto simp: is_allowed_def split: if_splits)

lemma recent_allows:
  assumes "is_allowed cfg (length (recent (now - 60) ts)) (length (recent (now - 3600) ts))"
  shows "log_allows cfg now ts"
proof -
  have "length (filter (\<lambda>t. c < t) ts) \<le> length (recent c ts)" for c
    unfolding recent_def by (rule length_filter_mono) auto
  with assms is_allowed_mono show ?thesis unfolding log_allows_def by blast
qed

lemma log_op_extend: "snd (log_op cfg now x hist) = extend_log cfg now x (fst (log_op cfg now x hist)) hist"
proof (cases x)
  case (Check k)
  show ?thesis
  proof (cases "granted (Answer (fst (log_check cfg now k hist))) \<and> k \<notin> set (whitelist cfg)")
    case True
    then obtain info where "log_check cfg now k hist = (Inr info, snd (log_check cfg now k hist))" "allowed info"
      by (cases "log_check cfg now k hist") (auto simp: granted_def split: sum.splits)
    from log_check_granted(1) [OF this] True show ?thesis by (simp add: Check extend_log_def)
  next
    case False
    with log_check_refused [of cfg now k hist] show ?thesis by (auto simp: Check extend_log_def)
  qed
qed (simp_all add: extend_log_def)

interpretation memory: request_limiter cfg "memory_op cfg" memory_represents for cfg
proof
  show "memory_represents T st hist \<Longrightarrow> T \<le> T' \<Longrightarrow> memory_represents T' st hist" for T st hist T'
    by (rule memory_represents_later)
  show "memory_represents now st' (extend_log cfg now x r hist)"
    if r: "memory_represents now st hist" "memory_op cfg now x st = (r, st')" for now st hist x r st'
    using memory_op_refines [OF r(1), of cfg x] r(2) log_op_extend [of cfg now x hist] by simp
  show "log_allows cfg now (hist k)"
    if r: "memory_represents now st hist" "memory_op cfg now (Check k) st = (r, st')" "granted r" "k \<notin> set (whitelist cfg)"
    for now st hist k r st'
  proof -
    from memory_op_refines(1) [OF r(1), of cfg "Check k"] r(2) have "r = Answer (fst (log_check cfg now k hist))"
      by (cases "check_rate_limit cfg now k st") simp
    with r(3) obtain info where "log_check cfg now k hist = (Inr info, snd (log_check cfg now k hist))" "allowed info"
      by (cases "log_check cfg now k hist") (auto simp: granted_def split: sum.splits)
    from log_check_granted(2) [OF this r(4)] show ?thesis by (rule recent_allows)
  qed
  show "memory_represents T st hist \<Longrightarrow> t \<in> set (hist k) \<Longrightarrow> t \<le> T" for T st hist t k
    by (simp add: memory_represents_def)
qed

subsection \<open>The PostgreSQL limiter keeps the contract\<close>

definition pg_represents :: "rat \<Rightarrow> request_table \<Rightarrow> request_log \<Rightarrow> bool" where
  "pg_represents T tb hist =
     ((\<forall>k. \<forall>t \<in> set (hist k). t \<le> T)
      \<and> (\<forall>k w. pruned (T - 3600) (rows_of tb k w) (hist k)))"

lemma rows_of_delete: "rows_of (delete_old now tb) k w = recent (now - 3600) (rows_of tb k w)"
  unfolding rows_of_def delete_old_def recent_def by (induction tb) auto

lemma pruned_recent_again: "pruned b w ts \<Longrightarrow> pruned b (recent b w) ts"
  unfolding pruned_def by (auto simp: recent_recent intro: exI [of _ b])

lemma pg_represents_deleted: "pg_represents now tb hist \<Longrightarrow> pg_represents now (delete_old now tb) hist"
  by (simp add: pg_represents_def rows_of_delete pruned_recent_again)

lemma pg_count:
  assumes "pg_represents now tb hist" "width \<le> 3600"
  shows "count_recent now width k w (delete_old now tb) = length (filter (\<lambda>t. now - width < t) (hist k))"
proof -
  obtain c where c: "c \<le> now - 3600" "rows_of tb k w = recent c (hist k)"
    using assms(1) unfolding pg_represents_def pruned_def by blast
  have "filter (\<lambda>t. now - width < t) (recent (now - 3600) (recent c (hist k))) = filter (\<lambda>t. now - width < t) (hist k)"
    unfolding recent_def filter_filter using c(1) assms(2) by (intro filter_cong) auto
  then show ?thesis by (simp add: count_recent_def rows_of_delete c(2))
qed

lemma pg_inserted:
  assumes "pg_represents now tb hist" "insert_request k now tb = Inr tb'"
  shows "pg_represents now tb' (hist(k := hist k @ [now]))"
proof -
  have rows: "rows_of tb' k' w = rows_of tb k' w @ (if k' = k then [now] else [])" for k' w
    using assms(2) by (cases w) (auto simp: insert_request_def Let_def rows_of_def split: if_splits)
  have "pruned (now - 3600) (rows_of tb k w @ [now]) (hist k @ [now])" for w
  proof -
    obtain c where "c \<le> now - 3600" "rows_of tb k w = recent c (hist k)"
      using assms(1) unfolding pg_represents_def pruned_def by blast
    then show ?thesis unfolding pruned_def by (intro exI [of _ c]) (simp add: recent_def)
  qed
  with assms(1) show ?thesis by (auto simp: pg_represents_def rows)
qed

lemma pg_check_cases:
  assumes "pg_check_rate_limit cfg now now k tb = (r, tb')" "pg_represents now tb hist"
  shows "granted (Answer r) \<and> k \<notin> set (whitelist cfg) \<Longrightarrow>
      log_allows cfg now (hist k) \<and> pg_represents now tb' (hist(k := hist k @ [now]))"
    and "\<not> (granted (Answer r) \<and> k \<notin> set (whitelist cfg)) \<Longrightarrow> pg_represents now tb' hist"
proof -
  note d = pg_represents_deleted [OF assms(2)]
  note c = pg_count [OF assms(2), of 60 k Minute] pg_count [OF assms(2), of 3600 k Hour]
  show "log_allows cfg now (hist k) \<and> pg_represents now tb' (hist(k := hist k @ [now]))"
    if "granted (Answer r) \<and> k \<notin> set (whitelist cfg)"
    using that assms(1) c pg_inserted [OF d, of k]
    by (auto simp: pg_check_rate_limit_def pg_decide_def Let_def log_allows_def granted_def blacklist_info_def denied_info_def
        split: if_split_asm sum.split_asm)
  show "pg_represents now tb' hist" if "\<not> (granted (Answer r) \<and> k \<notin> set (whitelist cfg))"
    using that assms(1) d assms(2)
    by (auto simp: pg_check_rate_limit_def pg_decide_def Let_def granted_def allowed_info_def split: if_split_asm sum.split_asm)
qed

lemma pg_represents_later: "pg_represents T tb hist \<Longrightarrow> T \<le> T' \<Longrightarrow> pg_represents T' tb hist"
  unfolding pg_represents_def by (meson diff_right_mono order_trans pruned_mono)

interpretation pg: request_limiter cfg "pg_limiter_op cfg" pg_represents for cfg
proof
  show "pg_represents T st hist \<Longrightarrow> T \<le> T' \<Longrightarrow> pg_represents T' st hist" for T st hist T'
    by (rule pg_represents_later)
  show "pg_represents now st' (extend_log cfg now x r hist)"
    if s: "pg_represents now st hist" "pg_limiter_op cfg now x st = (r, st')" for now st hist x r st'
  proof (cases x)
    case (Check k)
    obtain a where a: "pg_check_rate_limit cfg now now k st = (a, st')" "r = Answer a"
      using s(2) Check by (cases "pg_check_rate_limit cfg now now k st") auto
    from pg_check_cases [OF a(1) s(1)] show ?thesis by (simp add: Check extend_log_def a(2))
  qed (use s pg_represents_deleted in \<open>auto simp: extend_log_def pg_cleanup_expired_def\<close>)
  show "log_allows cfg now (hist k)"
    if r: "pg_represents now st hist" "pg_limiter_op cfg now (Check k) st = (r, st')" "granted r" "k \<notin> set (whitelist cfg)"
    for now st hist k r st'
    using pg_check_cases(1) [of cfg now k st "fst (pg_check_rate_limit cfg now now k st)" st' hist] r
    by (cases "pg_check_rate_limit cfg now now k st") auto
  show "pg_represents T st hist \<Longrightarrow> t \<in> set (hist k) \<Longrightarrow> t \<le> T" for T st hist t k
    by (simp add: pg_represents_def)
qed

lemma pg_represents_empty: "pg_represents T [] (\<lambda>_. [])"
  by (auto simp: pg_represents_def rows_of_def pruned_def recent_def)

text \<open>
  The limits hold in every window, for the limiter in memory, whose checks run under a lock, and for checks in
  PostgreSQL that follow one another.
\<close>

lemma limits_alone:
  assumes "sorted (map fst tr)" "k \<notin> set (whitelist cfg)"
  shows "limits_kept cfg (granted_times k tr (fst (run_ops (memory_op cfg) tr empty_limiter)))"
    and "limits_kept cfg (granted_times k tr (fst (run_ops (pg_limiter_op cfg) tr [])))"
proof -
  obtain T where "\<forall>t \<in> set (map fst tr). T \<le> t" using start_time by blast
  with memory.limits_served [OF memory_represents_empty assms(1) _ assms(2)]
    pg.limits_served [OF pg_represents_empty assms(1) _ assms(2)]
  show "limits_kept cfg (granted_times k tr (fst (run_ops (memory_op cfg) tr empty_limiter)))"
    and "limits_kept cfg (granted_times k tr (fst (run_ops (pg_limiter_op cfg) tr [])))" by blast+
qed

definition example_config :: limit_config where
  "example_config = \<lparr>enabled = True, requests_per_minute = 1, requests_per_hour = 10, burst_size = 2,
     whitelist = [], blacklist = []\<rparr>"

definition example_trace :: "(rat \<times> limiter_op) list" where
  "example_trace = [(0, Check ''a''), (1, Check ''a''), (2, Check ''a''), (3, Cleanup), (61, Check ''a'')]"

lemma example_granted:
  "granted_times ''a'' example_trace (fst (run_ops (memory_op example_config) example_trace empty_limiter)) = [0, 1, 61]"
  "granted_times ''a'' example_trace (fst (run_ops (pg_limiter_op example_config) example_trace [])) = [0, 1, 61]"
  by code_simp+

theorem memory_refines_log_witness:
  "fst (run_ops (memory_op example_config) example_trace empty_limiter) ! 2 =
     Answer (Inr (denied_info example_config 2 2 58))
   \<and> fst (run_ops (memory_op example_config) example_trace empty_limiter)
     = fst (run_ops (log_op example_config) example_trace (\<lambda>_. []))"
proof
  show "fst (run_ops (memory_op example_config) example_trace empty_limiter) ! 2 =
     Answer (Inr (denied_info example_config 2 2 58))" by code_simp
qed (rule memory_refines_log, simp add: example_trace_def)

subsection \<open>What a rejected client may rely on\<close>

text \<open>The states a limiter can be in, with the time of the last call.\<close>

inductive reachable :: "limit_config \<Rightarrow> rat \<Rightarrow> memory_limiter \<Rightarrow> bool" for cfg where
  start: "reachable cfg T empty_limiter"
| call: "reachable cfg T st \<Longrightarrow> T \<le> now \<Longrightarrow> reachable cfg now (snd (memory_op cfg now x st))"

definition windows_bounded :: "limit_config \<Rightarrow> rat \<Rightarrow> memory_limiter \<Rightarrow> bool" where
  "windows_bounded cfg T st =
     (distinct (map fst (minute_windows st)) \<and> distinct (map fst (hour_windows st))
      \<and> (\<forall>k. length (window (minute_windows st) k) \<le> minute_bound cfg \<and> length (window (hour_windows st) k) \<le> hour_bound cfg
          \<and> (\<forall>t \<in> set (window (minute_windows st) k). t \<le> T) \<and> (\<forall>t \<in> set (window (hour_windows st) k). t \<le> T)))"

lemma windows_bounded_update:
  assumes "windows_bounded cfg now st"
    and "length m \<le> minute_bound cfg" "length h \<le> hour_bound cfg" "\<forall>t \<in> set m. t \<le> now" "\<forall>t \<in> set h. t \<le> now"
  shows "windows_bounded cfg now
     (st\<lparr>minute_windows := AList.update k m (minute_windows st), hour_windows := AList.update k h (hour_windows st)\<rparr>)"
  using assms by (simp add: windows_bounded_def window_update distinct_update)

lemma clean_window_le: "length (clean_window c w) \<le> length w" "set (clean_window c w) \<subseteq> set w"
  unfolding clean_window_def by (simp_all add: length_dropWhile_le) (auto dest: set_dropWhileD)

lemma windows_bounded_clean:
  assumes "windows_bounded cfg now st"
  defines "m \<equiv> \<lambda>k. clean_window (now - 60) (window (minute_windows st) k)"
    and "h \<equiv> \<lambda>k. clean_window (now - 3600) (window (hour_windows st) k)"
  shows "length (m k) \<le> minute_bound cfg" "length (h k) \<le> hour_bound cfg"
    "\<forall>t \<in> set (m k). t \<le> now" "\<forall>t \<in> set (h k). t \<le> now"
  using assms(1) clean_window_le unfolding windows_bounded_def m_def h_def by (meson order_trans subsetD)+

lemma check_keeps_bounds:
  assumes "windows_bounded cfg now st"
  shows "windows_bounded cfg now (snd (check_rate_limit cfg now k st))"
proof -
  let ?m = "clean_window (now - 60) (window (minute_windows st) k)"
  let ?h = "clean_window (now - 3600) (window (hour_windows st) k)"
  note c = windows_bounded_clean [OF assms, of k]
  have "windows_bounded cfg now
     (st\<lparr>minute_windows := AList.update k (?m @ [now]) (minute_windows st), hour_windows := AList.update k (?h @ [now]) (hour_windows st)\<rparr>)"
    if "is_allowed cfg (length ?m) (length ?h)"
    by (rule windows_bounded_update [OF assms])
      (use that c in \<open>auto simp: is_allowed_def minute_bound_def hour_bound_def split: if_splits\<close>)
  with windows_bounded_update [OF assms c] show ?thesis
    by (simp add: check_rate_limit_def Let_def)
qed

lemma reachable_bounded: "reachable cfg T st \<Longrightarrow> windows_bounded cfg T st"
proof (induction rule: reachable.induct)
  case (start T)
  show ?case by (simp add: windows_bounded_def empty_limiter_def window_def)
next
  case (call T st now x)
  then have b: "windows_bounded cfg now st" unfolding windows_bounded_def by (meson order_trans)
  note c = windows_bounded_clean [OF b]
  show ?case
  proof (cases x)
    case (Status k)
    from windows_bounded_update [OF b c [of k]] show ?thesis by (simp add: Status get_rate_limit_info_def Let_def)
  next
    case Cleanup
    from b c show ?thesis
      by (simp add: Cleanup cleanup_expired_def Let_def windows_bounded_def window_clean clean_windows_distinct)
  qed (use check_keeps_bounds [OF b] in simp)
qed

lemma rat_trunc_nonneg: "0 \<le> q \<Longrightarrow> rat_trunc q = \<lfloor>q\<rfloor>"
  by (simp add: rat_trunc_def)

text \<open>The window of a client that was rejected for the minute's requests.\<close>

lemma minute_rejection:
  assumes "check_rate_limit cfg now k st = (Inr info, st')" "\<not> allowed info" "k \<notin> set (blacklist cfg)"
    and "hour_requests info < requests_per_hour cfg"
  shows "\<exists>t w. window (minute_windows st') k = t # w \<and> now - 60 \<le> t \<and> retry_after info = rat_trunc (60 - (now - t))
     \<and> int (length (window (hour_windows st') k)) < requests_per_hour cfg \<and> k \<notin> set (whitelist cfg)"
proof -
  let ?m = "clean_window (now - 60) (window (minute_windows st) k)"
  let ?h = "clean_window (now - 3600) (window (hour_windows st) k)"
  have st': "window (minute_windows st') k = ?m" "window (hour_windows st') k = ?h"
    and retry: "\<exists>r. until_expiry 60 now ?m = Inr r \<and> retry_after info = r"
    and ok: "int (length ?h) < requests_per_hour cfg" "k \<notin> set (whitelist cfg)"
    using assms by (auto simp: check_rate_limit_def Let_def window_update rbind_eq_Inr denied_info_def allowed_info_def
        whitelist_info_def split: if_split_asm)
  then obtain t w where m: "?m = t # w" and r: "retry_after info = rat_trunc (60 - (now - t))"
    by (auto simp: until_expiry_def split: list.splits)
  have "\<not> t < now - 60" using m unfolding clean_window_def by (metis dropWhile_eq_Cons_conv)
  with st' m r ok show ?thesis by (intro exI [of _ t] exI [of _ w]) simp
qed

text \<open>
  \<open>retry_after\<close> is honoured.  When a limiter in a reachable state rejects a client for its requests
  of the last minute, \<open>retry_after\<close> is between 0 and 60 seconds, and a request of that client
  \<open>retry_after + 1\<close> seconds later or at any later time is granted if none was served in between.
\<close>

theorem retry_after_honoured:
  assumes "reachable cfg T st" "T \<le> now" "check_rate_limit cfg now k st = (Inr info, st')" "\<not> allowed info"
    and "k \<notin> set (blacklist cfg)" "hour_requests info < requests_per_hour cfg"
    and "now + of_int (retry_after info) + 1 \<le> now'"
  shows "0 \<le> retry_after info \<and> retry_after info \<le> 60
    \<and> (\<exists>info'. fst (check_rate_limit cfg now' k st') = Inr info' \<and> allowed info')"
proof -
  from minute_rejection [OF assms(3-6)] obtain t w where w: "window (minute_windows st') k = t # w" "now - 60 \<le> t"
    and r: "retry_after info = rat_trunc (60 - (now - t))"
    and h: "int (length (window (hour_windows st') k)) < requests_per_hour cfg" and wl: "k \<notin> set (whitelist cfg)" by blast
  have "windows_bounded cfg now st'"
    using reachable_bounded [OF reachable.call [OF assms(1,2), of "Check k"]] assms(3) by simp
  then have "length (window (minute_windows st') k) \<le> minute_bound cfg" "\<forall>t \<in> set (window (minute_windows st') k). t \<le> now"
    unfolding windows_bounded_def by blast+
  with w have t: "t \<le> now" and len: "Suc (length w) \<le> minute_bound cfg" by simp_all
  have r': "retry_after info = \<lfloor>60 - (now - t)\<rfloor>" using r w(2) by (simp add: rat_trunc_nonneg)
  then have "60 - (now - t) < of_int (retry_after info) + 1" by linarith
  with assms(7) have late: "t < now' - 60" by linarith
  let ?m = "clean_window (now' - 60) (window (minute_windows st') k)"
  let ?h = "clean_window (now' - 3600) (window (hour_windows st') k)"
  have "?m = clean_window (now' - 60) w" using w(1) late by (simp add: clean_window_def)
  then have "length ?m < minute_bound cfg" using clean_window_le(1) [of "now' - 60" w] len by simp
  moreover have "int (length ?h) < requests_per_hour cfg"
    using h clean_window_le(1) [of "now' - 3600" "window (hour_windows st') k"] by linarith
  ultimately have "is_allowed cfg (length ?m) (length ?h)"
    by (auto simp: is_allowed_def minute_bound_def)
  with assms(5) wl until_expiry_ok [of 60 now' ?m now'] have
    "\<exists>info'. fst (check_rate_limit cfg now' k st') = Inr info' \<and> allowed info'"
    by (auto simp: check_rate_limit_def Let_def allowed_info_def)
  moreover have "0 \<le> retry_after info" "retry_after info \<le> 60" unfolding r' using w(2) t by linarith+
  ultimately show ?thesis by blast
qed

definition example_limiter :: memory_limiter where
  "example_limiter = snd (memory_op example_config 1 (Check ''a'') (snd (memory_op example_config 0 (Check ''a'') empty_limiter)))"

theorem retry_after_honoured_witness:
  "check_rate_limit example_config 2 ''a'' example_limiter = (Inr (denied_info example_config 2 2 58), example_limiter)
   \<and> (\<exists>info'. fst (check_rate_limit example_config 61 ''a'' example_limiter) = Inr info' \<and> allowed info')"
proof -
  have r: "reachable example_config 1 example_limiter"
    unfolding example_limiter_def by (rule reachable.call [OF reachable.call [OF reachable.start [of _ 0]]]) simp_all
  have c: "check_rate_limit example_config 2 ''a'' example_limiter = (Inr (denied_info example_config 2 2 58), example_limiter)"
    by code_simp
  from retry_after_honoured [OF r _ c, of 61] c show ?thesis
    by (simp add: denied_info_def example_config_def)
qed

text \<open>
  The PostgreSQL limiter reads the oldest of the rows of the last hour, not of the last minute: a
  client rejected after a burst is told a negative number of seconds (the middleware then says 1)
  while the in-memory limiter says 59.
\<close>

lemma pg_retry_after_negative:
  "let tr = [(0, Check ''a''), (3000, Check ''a''), (3001, Check ''a''), (3002, Check ''a'')] in
   fst (run_ops (pg_limiter_op example_config) tr []) ! 3 = Answer (Inr (denied_info example_config 2 3 (- 2942)))
   \<and> fst (run_ops (memory_op example_config) tr empty_limiter) ! 3 = Answer (Inr (denied_info example_config 2 3 58))"
  by code_simp

text \<open>The status of a client ignores the burst size: it says no request remains while one is granted.\<close>

lemma status_ignores_burst:
  "let st = snd (memory_op example_config 0 (Check ''a'') empty_limiter) in
   fst (memory_op example_config 1 (Status ''a'') st) = Answer (Inr (status_info example_config 1 1 59))
   \<and> \<not> allowed (status_info example_config 1 1 59)
   \<and> granted (fst (memory_op example_config 1 (Check ''a'') st))"
  by code_simp

text \<open>With no limit above zero the rejection reads the first entry of an empty window.\<close>

lemma zero_limit_raises:
  "fst (check_rate_limit (example_config\<lparr>requests_per_minute := 0, burst_size := 0\<rparr>) 0 ''a'' empty_limiter) = Inl IndexError"
  by code_simp

end
