(* ===== verification/LimiterRace.thy ===== *)
theory LimiterRace
  imports RateLimitProps
begin

section \<open>Checks of the PostgreSQL limiter side by side\<close>

text \<open>
  The transaction of \<open>PostgreSQLRateLimiter.check_rate_limit\<close> deletes, counts, counts again and inserts
  without a lock, so that checks overlap.  The events of \<open>RateLimit\<close> run its statements in any interleaving,
  with the application's clock read before the transaction starts.  Requests that overlap exceed the limit;
  the bound that remains grows with the number of checks in flight.
\<close>

subsection \<open>Runs\<close>

definition empty_state :: pg_state where
  "empty_state = \<lparr>ps_table = [], ps_open = []\<rparr>"

definition pg_run :: "limit_config \<Rightarrow> (rat \<times> pg_event) list \<Rightarrow> pg_state \<Rightarrow> pg_state" where
  "pg_run cfg evs s = fold (\<lambda>(t, e) s. snd (pg_step cfg t e s)) evs s"

text \<open>The time of the request that an event grants to a client.\<close>

definition grants :: "limit_config \<Rightarrow> string \<Rightarrow> rat \<times> pg_event \<Rightarrow> pg_state \<Rightarrow> rat list" where
  "grants cfg k ev s =
     (case ev of
        (t, Ends i) \<Rightarrow>
          (case (map_of (ps_open s) i, fst (pg_step cfg t (Ends i) s)) of
             (Some tx, Some (Inr info)) \<Rightarrow> if tx_key tx = k \<and> allowed info then [tx_now tx] else []
           | _ \<Rightarrow> [])
      | _ \<Rightarrow> [])"

fun granted_in :: "limit_config \<Rightarrow> string \<Rightarrow> (rat \<times> pg_event) list \<Rightarrow> pg_state \<Rightarrow> rat list" where
  "granted_in cfg k [] s = []"
| "granted_in cfg k (ev # evs) s = grants cfg k ev s @ granted_in cfg k evs (snd (pg_step cfg (fst ev) (snd ev) s))"

definition in_flight :: "string \<Rightarrow> pg_state \<Rightarrow> nat" where
  "in_flight k s = length (filter (\<lambda>(i, tx). tx_key tx = k) (ps_open s))"

text \<open>
  A check of the client counts within \<open>delay\<close> seconds of its clock reading, and at most \<open>c\<close> are in flight.
\<close>

definition prompt :: "rat \<Rightarrow> string \<Rightarrow> rat \<times> pg_event \<Rightarrow> pg_state \<Rightarrow> bool" where
  "prompt delay k ev s =
     (case ev of
        (t, CountsMinute i) \<Rightarrow> (case map_of (ps_open s) i of Some tx \<Rightarrow> tx_key tx = k \<longrightarrow> t \<le> tx_now tx + delay | None \<Rightarrow> True)
      | (t, CountsHour i) \<Rightarrow> (case map_of (ps_open s) i of Some tx \<Rightarrow> tx_key tx = k \<longrightarrow> t \<le> tx_now tx + delay | None \<Rightarrow> True)
      | _ \<Rightarrow> True)"

fun bounded_run :: "rat \<Rightarrow> nat \<Rightarrow> limit_config \<Rightarrow> string \<Rightarrow> (rat \<times> pg_event) list \<Rightarrow> pg_state \<Rightarrow> bool" where
  "bounded_run delay c cfg k [] s = True"
| "bounded_run delay c cfg k (ev # evs) s =
     (let s' = snd (pg_step cfg (fst ev) (snd ev) s)
      in prompt delay k ev s \<and> in_flight k s' \<le> c \<and> bounded_run delay c cfg k evs s')"

subsection \<open>The invariant of one window\<close>

text \<open>
  The window of requests later than \<open>a\<close> and at most \<open>width - delay\<close> seconds later.  A transaction has
  passed when its count is under the bound.
\<close>

fun counted :: "window_type \<Rightarrow> pg_transaction \<Rightarrow> nat option" where
  "counted Minute tx = tx_minute tx"
| "counted Hour tx = tx_hour tx"

fun width_of :: "window_type \<Rightarrow> rat" where
  "width_of Minute = 60"
| "width_of Hour = 3600"

fun bound_of :: "limit_config \<Rightarrow> window_type \<Rightarrow> nat" where
  "bound_of cfg Minute = minute_bound cfg"
| "bound_of cfg Hour = hour_bound cfg"

definition inside :: "window_type \<Rightarrow> rat \<Rightarrow> rat \<Rightarrow> rat \<Rightarrow> bool" where
  "inside w delay a t = (a < t \<and> t \<le> a + (width_of w - delay))"

definition passes :: "limit_config \<Rightarrow> window_type \<Rightarrow> rat \<Rightarrow> rat \<Rightarrow> string \<Rightarrow> pg_transaction \<Rightarrow> bool" where
  "passes cfg w delay a k tx \<longleftrightarrow>
     tx_key tx = k \<and> inside w delay a (tx_now tx) \<and> (\<exists>n. counted w tx = Some n \<and> n < bound_of cfg w)"

definition passed :: "limit_config \<Rightarrow> window_type \<Rightarrow> rat \<Rightarrow> rat \<Rightarrow> string \<Rightarrow> pg_state \<Rightarrow> nat set" where
  "passed cfg w delay a k s = {i. \<exists>tx. map_of (ps_open s) i = Some tx \<and> passes cfg w delay a k tx}"

definition opened_by :: "rat \<Rightarrow> pg_state \<Rightarrow> bool" where
  "opened_by T s \<longleftrightarrow>
     (\<forall>i tx. map_of (ps_open s) i = Some tx \<longrightarrow>
        tx_start tx \<le> T \<and> (\<forall>r \<in> set (tx_deleted tx). request_time r < tx_start tx - 3600))"

definition window_inv :: "limit_config \<Rightarrow> window_type \<Rightarrow> rat \<Rightarrow> nat \<Rightarrow> rat \<Rightarrow> string \<Rightarrow> rat \<Rightarrow> pg_state \<Rightarrow> rat list \<Rightarrow> bool" where
  "window_inv cfg w delay c a k T s G \<longleftrightarrow>
     opened_by T s
     \<and> (T \<le> a + width_of w \<longrightarrow> filter (inside w delay a) (rows_of (ps_table s) k w) = filter (inside w delay a) G)
     \<and> (let n = length (filter (inside w delay a) G) + card (passed cfg w delay a k s) in n = 0 \<or> n < bound_of cfg w + c)"

lemma width_le: "width_of w \<le> 3600" by (cases w) simp_all

lemma finite_passed [simp]: "finite (passed cfg w delay a k s)"
proof (rule finite_subset)
  show "passed cfg w delay a k s \<subseteq> fst ` set (ps_open s)" by (force simp: passed_def dest!: map_of_SomeD)
qed simp

lemma passed_in_flight: "card (passed cfg w delay a k s) \<le> in_flight k s"
proof -
  have "passed cfg w delay a k s \<subseteq> fst ` set (filter (\<lambda>(i, tx). tx_key tx = k) (ps_open s))"
    by (force simp: passed_def passes_def dest!: map_of_SomeD)
  from card_mono [OF _ this] have "card (passed cfg w delay a k s) \<le> card (fst ` set (filter (\<lambda>(i, tx). tx_key tx = k) (ps_open s)))" by simp
  also have "\<dots> \<le> in_flight k s"
    unfolding in_flight_def by (rule order_trans [OF card_image_le card_length]) simp
  finally show ?thesis .
qed

lemma opened_later: "opened_by T s \<Longrightarrow> T \<le> T' \<Longrightarrow> opened_by T' s"
  unfolding opened_by_def using order_trans by blast

lemma opened_update:
  assumes "opened_by T s" "map_of (ps_open s) i = Some tx" "tx_start tx' = tx_start tx" "tx_deleted tx' = tx_deleted tx"
  shows "opened_by T (s\<lparr>ps_open := AList.update i tx' (ps_open s)\<rparr>)"
  using assms by (simp add: opened_by_def update_conv')

lemma opened_delete:
  assumes "opened_by T s" "map_of (ps_open s') = (map_of (ps_open s))(i := None)"
  shows "opened_by T s'"
  using assms by (simp add: opened_by_def)

lemma passed_mono:
  assumes "window_inv cfg w delay c a k T s G" "T \<le> T'" "ps_table s' = ps_table s" "opened_by T' s'"
    and "passed cfg w delay a k s' \<subseteq> passed cfg w delay a k s"
  shows "window_inv cfg w delay c a k T' s' G"
proof -
  have "card (passed cfg w delay a k s') \<le> card (passed cfg w delay a k s)" by (rule card_mono [OF finite_passed assms(5)])
  with assms(1-4) show ?thesis unfolding window_inv_def Let_def by auto
qed

subsection \<open>Rows that leave the table are older than the window\<close>

lemma rows_of_append: "rows_of (tb @ tb') k w = rows_of tb k w @ rows_of tb' k w"
  by (simp add: rows_of_def)

lemma rows_of_filter:
  assumes "\<And>r. r \<in> set tb \<Longrightarrow> \<not> P r \<Longrightarrow> request_time r \<le> a"
  shows "filter (inside w delay a) (rows_of (filter P tb) k w') = filter (inside w delay a) (rows_of tb k w')"
  using assms by (induction tb) (auto simp: rows_of_def inside_def, fastforce)

lemma seen_inside:
  assumes "\<forall>r \<in> set (tx_deleted tx). request_time r < tx_start tx - 3600" "tx_start tx \<le> a + width_of w"
  shows "filter (inside w delay a) (rows_of (seen_by tx tb) k w') = filter (inside w delay a) (rows_of tb k w')"
  unfolding seen_by_def using assms width_le [of w] by (intro rows_of_filter) force

lemma inserted_rows:
  assumes "insert_request key now tb = Inr tb2"
  shows "rows_of tb2 k w = rows_of tb k w @ (if key = k then [now] else [])"
  using assms by (cases w) (auto simp: insert_request_def Let_def rows_of_def split: if_split_asm)

lemma allowed_under: "is_allowed cfg mc hc \<Longrightarrow> mc < minute_bound cfg \<and> hc < hour_bound cfg"
  by (auto simp: is_allowed_def minute_bound_def hour_bound_def split: if_split_asm)

lemma decided:
  assumes "pg_decide cfg now key mc hc tb = Inr (info, tb2)" "key \<notin> set (whitelist cfg)"
  shows "if allowed info then is_allowed cfg mc hc \<and> insert_request key now tb = Inr tb2 else tb2 = tb"
  using assms by (auto simp: pg_decide_def blacklist_info_def denied_info_def allowed_info_def split: if_split_asm sum.split_asm)

lemma decided_rows:
  assumes "pg_decide cfg now key mc hc tb = Inr (info, tb2)" "key \<noteq> k"
  shows "rows_of tb2 k w = rows_of tb k w"
  using assms inserted_rows [of key now tb _ k w]
  by (auto simp: pg_decide_def split: if_split_asm sum.split_asm)

subsection \<open>Every step keeps the invariant\<close>

lemma window_inv_later: "window_inv cfg w delay c a k T s G \<Longrightarrow> T \<le> T' \<Longrightarrow> window_inv cfg w delay c a k T' s G"
  by (rule passed_mono [where s' = s]) (auto simp: window_inv_def intro: opened_later)

lemma begin_keeps:
  assumes "window_inv cfg w delay c a k t s G" "map_of (ps_open s) i = None"
  shows "window_inv cfg w delay c a k t (pg_begin i key now t s) G"
proof (rule passed_mono [OF assms(1) order_refl])
  show "passed cfg w delay a k (pg_begin i key now t s) \<subseteq> passed cfg w delay a k s"
    by (cases w) (auto simp: passed_def passes_def pg_begin_def update_conv' split: if_split_asm)
qed (use assms(1) in \<open>auto simp: pg_begin_def update_conv' opened_by_def window_inv_def split: if_split_asm\<close>)

lemma count_passes:
  assumes inv: "window_inv cfg w delay c a k t s G" and tx: "map_of (ps_open s) i = Some tx"
    and s': "s' = s\<lparr>ps_open := AList.update i tx' (ps_open s)\<rparr>"
    and same: "tx_key tx' = tx_key tx" "tx_now tx' = tx_now tx" "tx_start tx' = tx_start tx" "tx_deleted tx' = tx_deleted tx"
    and count: "counted w tx' = Some (count_recent (tx_start tx) (width_of w) (tx_key tx) w (seen_by tx (ps_table s)))"
    and time: "tx_key tx = k \<Longrightarrow> t \<le> tx_now tx + delay" and flight: "in_flight k s' \<le> c"
  shows "window_inv cfg w delay c a k t s' G"
proof -
  have open': "map_of (ps_open s') j = (if j = i then Some tx' else map_of (ps_open s) j)" for j
    by (simp add: s' update_conv')
  from inv have "opened_by t s" by (simp add: window_inv_def)
  from opened_update [OF this tx same(3,4)] have opened: "opened_by t s'" by (simp add: s')
  show ?thesis
  proof (cases "passes cfg w delay a k tx'")
    case False
    then have "passed cfg w delay a k s' \<subseteq> passed cfg w delay a k s" by (auto simp: open' passed_def split: if_split_asm)
    from passed_mono [OF inv order_refl _ opened this] show ?thesis by (simp add: s')
  next
    case True
    then have k: "tx_key tx = k" and now: "tx_now tx \<le> a + (width_of w - delay)"
      and n: "count_recent (tx_start tx) (width_of w) k w (seen_by tx (ps_table s)) < bound_of cfg w"
      using count by (auto simp: passes_def same inside_def)
    from time [OF k] now have t: "t \<le> a + width_of w" by simp
    from inv tx have old: "tx_start tx \<le> t" "\<forall>r \<in> set (tx_deleted tx). request_time r < tx_start tx - 3600"
      unfolding window_inv_def opened_by_def by blast+
    have start: "tx_start tx \<le> a + width_of w" using old(1) t by simp
    have "filter (inside w delay a) (rows_of (seen_by tx (ps_table s)) k w) = filter (inside w delay a) G"
      using seen_inside [OF old(2) start] inv t by (simp add: window_inv_def)
    moreover have "length (filter (inside w delay a) (rows_of (seen_by tx (ps_table s)) k w))
        \<le> count_recent (tx_start tx) (width_of w) k w (seen_by tx (ps_table s))"
      unfolding count_recent_def by (rule length_filter_mono) (use start in \<open>auto simp: inside_def\<close>)
    ultimately have "length (filter (inside w delay a) G) < bound_of cfg w" using n by simp
    moreover have "card (passed cfg w delay a k s') \<le> c" using passed_in_flight flight by (rule order_trans)
    ultimately show ?thesis
      using inv opened unfolding window_inv_def Let_def by (auto simp: s')
  qed
qed

lemma other_count:
  assumes inv: "window_inv cfg w delay c a k t s G" and tx: "map_of (ps_open s) i = Some tx"
    and s': "s' = s\<lparr>ps_open := AList.update i tx' (ps_open s)\<rparr>"
    and same: "tx_key tx' = tx_key tx" "tx_now tx' = tx_now tx" "tx_start tx' = tx_start tx" "tx_deleted tx' = tx_deleted tx"
      "counted w tx' = counted w tx"
  shows "window_inv cfg w delay c a k t s' G"
proof (rule passed_mono [OF inv order_refl])
  have "passes cfg w delay a k tx' = passes cfg w delay a k tx" by (simp add: passes_def same)
  then show "passed cfg w delay a k s' \<subseteq> passed cfg w delay a k s" using tx
    by (auto simp: passed_def s' update_conv' split: if_split_asm)
  from inv have "opened_by t s" by (simp add: window_inv_def)
  from opened_update [OF this tx same(3,4)] show "opened_by t s'" by (simp add: s')
qed (simp add: s')

lemma count_keeps:
  assumes inv: "window_inv cfg w delay c a k t s G" and prompt: "prompt delay k (t, e) s"
    and e: "e = CountsMinute i \<or> e = CountsHour i" and flight: "in_flight k (snd (pg_step cfg t e s)) \<le> c"
  shows "window_inv cfg w delay c a k t (snd (pg_step cfg t e s)) G"
proof (cases "map_of (ps_open s) i")
  case (Some tx)
  let ?m = "tx\<lparr>tx_minute := Some (count_recent (tx_start tx) 60 (tx_key tx) Minute (seen_by tx (ps_table s)))\<rparr>"
  let ?h = "tx\<lparr>tx_hour := Some (count_recent (tx_start tx) 3600 (tx_key tx) Hour (seen_by tx (ps_table s)))\<rparr>"
  have time: "tx_key tx = k \<Longrightarrow> t \<le> tx_now tx + delay" using prompt e Some by (auto simp: prompt_def)
  consider "e = CountsMinute i" "tx_minute tx = None" | "e = CountsHour i" "tx_minute tx \<noteq> None" "tx_hour tx = None"
    | "snd (pg_step cfg t e s) = s" using e Some by (cases "tx_minute tx"; cases "tx_hour tx") auto
  then show ?thesis
  proof cases
    case 1
    then have s': "snd (pg_step cfg t e s) = s\<lparr>ps_open := AList.update i ?m (ps_open s)\<rparr>" using Some by simp
    show ?thesis
    proof (cases w)
      case Minute
      then show ?thesis by (intro count_passes [OF inv Some s']) (use time flight in simp_all)
    next
      case Hour
      then show ?thesis by (intro other_count [OF inv Some s']) simp_all
    qed
  next
    case 2
    then have s': "snd (pg_step cfg t e s) = s\<lparr>ps_open := AList.update i ?h (ps_open s)\<rparr>" using Some by simp
    show ?thesis
    proof (cases w)
      case Minute
      then show ?thesis by (intro other_count [OF inv Some s']) simp_all
    next
      case Hour
      then show ?thesis by (intro count_passes [OF inv Some s']) (use time flight in simp_all)
    qed
  next
    case 3
    with inv show ?thesis by simp
  qed
qed (use inv e in auto)

lemma passed_delete: "map_of (ps_open s') = (map_of (ps_open s))(i := None) \<Longrightarrow> passed cfg w delay a k s' = passed cfg w delay a k s - {i}"
  by (auto simp: passed_def)

lemma end_keeps:
  assumes inv: "window_inv cfg w delay c a k t s G" and k: "k \<notin> set (whitelist cfg)"
  shows "window_inv cfg w delay c a k t (snd (pg_step cfg t (Ends i) s)) (G @ grants cfg k (t, Ends i) s)"
proof (cases "map_of (ps_open s) i")
  case None
  then show ?thesis using inv by (simp add: grants_def)
next
  case (Some tx)
  show ?thesis
  proof (cases "\<exists>mc hc. tx_minute tx = Some mc \<and> tx_hour tx = Some hc")
    case False
    then have "pg_end cfg i tx s = (None, s)" by (auto simp: pg_end_def split: option.splits)
    with Some inv show ?thesis by (simp add: grants_def)
  next
    case True
    then obtain mc hc where counts: "tx_minute tx = Some mc" "tx_hour tx = Some hc" by blast
    let ?seen = "seen_by tx (ps_table s)"
    let ?closed = "AList.delete i (ps_open s)"
    have del: "map_of ?closed = (map_of (ps_open s))(i := None)" by (rule delete_conv')
    from inv Some have old: "tx_start tx \<le> t" "\<forall>r \<in> set (tx_deleted tx). request_time r < tx_start tx - 3600"
      unfolding window_inv_def opened_by_def by blast+
    have seen: "filter (inside w delay a) (rows_of ?seen k w) = filter (inside w delay a) (rows_of (ps_table s) k w)"
      if "t \<le> a + width_of w" using seen_inside [OF old(2)] old(1) that by simp
    have refused: "window_inv cfg w delay c a k t s' G"
      if "map_of (ps_open s') = (map_of (ps_open s))(i := None)"
        "t \<le> a + width_of w \<Longrightarrow> filter (inside w delay a) (rows_of (ps_table s') k w) = filter (inside w delay a) (rows_of (ps_table s) k w)" for s'
    proof -
      have "card (passed cfg w delay a k s') \<le> card (passed cfg w delay a k s)"
        unfolding passed_delete [OF that(1)] by (rule card_Diff1_le)
      moreover have "opened_by t s'" using opened_delete [OF _ that(1)] inv by (simp add: window_inv_def)
      ultimately show ?thesis using inv that(2) unfolding window_inv_def Let_def by auto
    qed
    show ?thesis
    proof (cases "pg_decide cfg (tx_now tx) (tx_key tx) mc hc ?seen")
      case (Inl e)
      then have "pg_end cfg i tx s = (Some (Inl e), s\<lparr>ps_open := ?closed\<rparr>)" by (simp add: pg_end_def counts)
      with Some refused [of "s\<lparr>ps_open := ?closed\<rparr>"] del show ?thesis by (simp add: grants_def)
    next
      case (Inr r)
      obtain info tb where r: "r = (info, tb)" by (cases r)
      let ?s = "s\<lparr>ps_table := tb, ps_open := ?closed\<rparr>"
      have step: "pg_end cfg i tx s = (Some (Inr info), ?s)" by (simp add: pg_end_def counts Inr r)
      show ?thesis
      proof (cases "tx_key tx = k \<and> allowed info")
        case False
        have "rows_of tb k w = rows_of ?seen k w"
        proof (cases "tx_key tx = k")
          case True
          with False decided [OF Inr [unfolded r]] k show ?thesis by simp
        next
          case False
          from decided_rows [OF Inr [unfolded r] this] show ?thesis .
        qed
        then have "window_inv cfg w delay c a k t ?s G" using refused [of ?s] del seen by simp
        with False Some step show ?thesis by (auto simp: grants_def)
      next
        case True
        with decided [OF Inr [unfolded r]] k have ok: "is_allowed cfg mc hc" "insert_request k (tx_now tx) ?seen = Inr tb" by auto
        then have rows: "rows_of tb k w = rows_of ?seen k w @ [tx_now tx]" using inserted_rows by simp
        have grants: "grants cfg k (t, Ends i) s = [tx_now tx]" using True Some step by (simp add: grants_def)
        have passed: "passed cfg w delay a k ?s = passed cfg w delay a k s - {i}" by (rule passed_delete) (simp add: del)
        show ?thesis
        proof (cases "inside w delay a (tx_now tx)")
          case False
          then have "filter (inside w delay a) (G @ [tx_now tx]) = filter (inside w delay a) G" by simp
          with refused [of ?s] del seen rows False have "window_inv cfg w delay c a k t ?s G" by simp
          with False Some step grants show ?thesis by (simp add: window_inv_def)
        next
          case True
          have "i \<in> passed cfg w delay a k s"
            using Some True \<open>tx_key tx = k \<and> allowed info\<close> allowed_under [OF ok(1)] counts
            by (cases w) (auto simp: passed_def passes_def)
          then have "Suc (card (passed cfg w delay a k ?s)) = card (passed cfg w delay a k s)"
            unfolding passed by (rule card.remove [OF finite_passed, symmetric])
          moreover have "opened_by t ?s" using opened_delete [of t s ?s i] inv del by (simp add: window_inv_def)
          ultimately show ?thesis using inv Some step grants True seen rows
            unfolding window_inv_def Let_def by auto
        qed
      qed
    qed
  qed
qed

lemma step_keeps:
  assumes inv: "window_inv cfg w delay c a k T s G" and time: "T \<le> t" and k: "k \<notin> set (whitelist cfg)"
    and prompt: "prompt delay k (t, e) s" and flight: "in_flight k (snd (pg_step cfg t e s)) \<le> c"
  shows "window_inv cfg w delay c a k t (snd (pg_step cfg t e s)) (G @ grants cfg k (t, e) s)"
proof -
  note inv = window_inv_later [OF inv time]
  show ?thesis
  proof (cases e)
    case (Begins i key now)
    with begin_keeps [OF inv, of i key now] inv show ?thesis by (simp add: grants_def)
  next
    case (CountsMinute i)
    with count_keeps [OF inv prompt _ flight, of i] show ?thesis by (simp add: grants_def)
  next
    case (CountsHour i)
    with count_keeps [OF inv prompt _ flight, of i] show ?thesis by (simp add: grants_def)
  next
    case (Ends i)
    with end_keeps [OF inv k, of i] show ?thesis by simp
  next
    case (Fails i)
    have "window_inv cfg w delay c a k t (s\<lparr>ps_open := AList.delete i (ps_open s)\<rparr>) G"
      by (rule passed_mono [OF inv order_refl]) (use inv in \<open>auto simp: passed_def delete_conv' opened_by_def window_inv_def split: if_split_asm\<close>)
    with Fails show ?thesis by (simp add: grants_def)
  next
    case Cleans
    have "filter (inside w delay a) (rows_of (delete_old t (ps_table s)) k w) = filter (inside w delay a) (rows_of (ps_table s) k w)"
      if "t \<le> a + width_of w"
      unfolding delete_old_def by (rule rows_of_filter) (use that width_le [of w] in simp)
    then have "window_inv cfg w delay c a k t (s\<lparr>ps_table := delete_old t (ps_table s)\<rparr>) G"
      using inv by (simp add: window_inv_def passed_def opened_by_def)
    with Cleans show ?thesis by (simp add: grants_def)
  qed
qed

lemma run_keeps:
  assumes "window_inv cfg w delay c a k T s G" "sorted (map fst evs)" "\<forall>t \<in> set (map fst evs). T \<le> t" "k \<notin> set (whitelist cfg)"
    and "bounded_run delay c cfg k evs s"
  shows "\<exists>T'. window_inv cfg w delay c a k T' (pg_run cfg evs s) (G @ granted_in cfg k evs s)"
  using assms
proof (induction evs arbitrary: T s G)
  case (Cons ev evs)
  obtain t e where ev: "ev = (t, e)" by (cases ev)
  from step_keeps [OF Cons.prems(1) _ Cons.prems(4), of t e] Cons.prems(3,5) ev
  have "window_inv cfg w delay c a k t (snd (pg_step cfg t e s)) (G @ grants cfg k (t, e) s)" by (simp add: Let_def)
  from Cons.IH [OF this] Cons.prems(2,4,5) ev show ?case by (auto simp: pg_run_def Let_def)
qed (auto simp: pg_run_def)

lemma window_inv_empty: "window_inv cfg w delay c a k T empty_state []"
  by (simp add: window_inv_def opened_by_def empty_state_def passed_def rows_of_def)

subsection \<open>The limits\<close>

lemma run_bounded:
  assumes "sorted (map fst evs)" "k \<notin> set (whitelist cfg)" "bounded_run delay c cfg k evs empty_state"
  shows "at_most (bound_of cfg w + c - 1) (width_of w - delay) (granted_in cfg k evs empty_state)"
  unfolding at_most_def
proof
  fix a
  obtain T where "\<forall>t \<in> set (map fst evs). T \<le> t" using start_time by blast
  from run_keeps [OF window_inv_empty assms(1) this assms(2,3), of w a]
  show "length (filter (\<lambda>t. a < t \<and> t \<le> a + (width_of w - delay)) (granted_in cfg k evs empty_state)) \<le> bound_of cfg w + c - 1"
    unfolding window_inv_def Let_def inside_def by auto
qed

text \<open>
  C25: Both limiters bound the requests of every window.  In memory, where a check holds a lock, with a clock
  that does not run backwards, any 60 seconds hold no more granted requests of a client that is not
  whitelisted than the larger of \<open>requests_per_minute\<close> and \<open>burst_size\<close>, and any hour no more than
  \<open>requests_per_hour\<close>.  In PostgreSQL the statements of checks interleave in any way: if at most \<open>c\<close> checks of
  the client are in flight and each counts within \<open>delay\<close> seconds of reading the clock, any \<open>60 - delay\<close>
  seconds and any \<open>3600 - delay\<close> seconds hold at most \<open>c - 1\<close> requests more than the limit.
\<close>

theorem rate_limits_hold:
  assumes "k \<notin> set (whitelist cfg)" "sorted (map fst tr)" "sorted (map fst evs)" "bounded_run delay c cfg k evs empty_state"
  shows "limits_kept cfg (granted_times k tr (fst (run_ops (memory_op cfg) tr empty_limiter)))
    \<and> at_most (minute_bound cfg + c - 1) (60 - delay) (granted_in cfg k evs empty_state)
    \<and> at_most (hour_bound cfg + c - 1) (3600 - delay) (granted_in cfg k evs empty_state)"
  using limits_alone(1) [OF assms(2,1)] run_bounded [OF assms(3,1,4), of Minute] run_bounded [OF assms(3,1,4), of Hour] by simp

text \<open>A check that nothing overlaps is \<open>pg_check_rate_limit\<close>.\<close>

lemma alone:
  assumes "map_of (ps_open s) i = None" and s1: "s1 = snd (pg_step cfg t3 (CountsHour i) (snd (pg_step cfg t2 (CountsMinute i) (snd (pg_step cfg t1 (Begins i key now) s)))))"
  shows "fst (pg_step cfg t4 (Ends i) s1) = Some (fst (pg_check_rate_limit cfg now t1 key (ps_table s)))"
    and "ps_table (snd (pg_step cfg t4 (Ends i) s1)) = snd (pg_check_rate_limit cfg now t1 key (ps_table s))"
proof -
  let ?tx = "\<lparr>tx_key = key, tx_now = now, tx_start = t1,
     tx_deleted = filter (\<lambda>r. request_time r < t1 - 3600) (ps_table s), tx_minute = None, tx_hour = None\<rparr>"
  have seen: "seen_by tx (ps_table s) = delete_old t1 (ps_table s)" if "tx_deleted tx = tx_deleted ?tx" for tx
    using that by (auto simp: seen_by_def delete_old_def intro!: filter_cong)
  show "fst (pg_step cfg t4 (Ends i) s1) = Some (fst (pg_check_rate_limit cfg now t1 key (ps_table s)))"
    "ps_table (snd (pg_step cfg t4 (Ends i) s1)) = snd (pg_check_rate_limit cfg now t1 key (ps_table s))"
    by (simp_all add: s1 assms(1) pg_begin_def update_conv' pg_end_def seen pg_check_rate_limit_def Let_def split: sum.split)
qed

text \<open>
  The bound is reached: with a limit of one request, two checks that overlap are both granted.  One after the
  other, the second is refused.
\<close>

definition one_per_minute :: limit_config where
  "one_per_minute = example_config\<lparr>burst_size := 1\<rparr>"

definition overlapping :: "(rat \<times> pg_event) list" where
  "overlapping = [(0, Begins 1 ''a'' 0), (1, Begins 2 ''a'' 1), (1, CountsMinute 1), (1, CountsMinute 2), (1, CountsHour 1),
     (1, CountsHour 2), (1, Ends 1), (1, Ends 2)]"

lemma parallel_requests_exceed:
  "granted_in one_per_minute ''a'' overlapping empty_state = [0, 1]"
  "\<not> limits_kept one_per_minute (granted_in one_per_minute ''a'' overlapping empty_state)"
  "granted_times ''a'' [(0, Check ''a''), (1, Check ''a'')] (fst (run_ops (pg_limiter_op one_per_minute) [(0, Check ''a''), (1, Check ''a'')] [])) = [0]"
proof -
  show g: "granted_in one_per_minute ''a'' overlapping empty_state = [0, 1]" by code_simp
  show "\<not> limits_kept one_per_minute (granted_in one_per_minute ''a'' overlapping empty_state)"
  proof
    assume "limits_kept one_per_minute (granted_in one_per_minute ''a'' overlapping empty_state)"
    then have "length (filter (\<lambda>t. - 1 < t \<and> t \<le> - 1 + 60) [0, 1 :: rat]) \<le> minute_bound one_per_minute"
      unfolding g limits_kept_def at_most_def by blast
    then show False by (simp add: minute_bound_def one_per_minute_def example_config_def)
  qed
  show "granted_times ''a'' [(0, Check ''a''), (1, Check ''a'')] (fst (run_ops (pg_limiter_op one_per_minute) [(0, Check ''a''), (1, Check ''a'')] [])) = [0]"
    by code_simp
qed

theorem rate_limits_hold_witness:
  "limits_kept example_config [0, 1, 61]
   \<and> granted_times ''a'' example_trace (fst (run_ops (memory_op example_config) example_trace empty_limiter)) = [0, 1, 61]
   \<and> at_most 3 59 (granted_in example_config ''a'' overlapping empty_state)
   \<and> granted_in example_config ''a'' overlapping empty_state = [0, 1]"
proof -
  have g: "granted_in example_config ''a'' overlapping empty_state = [0, 1]" by code_simp
  have "sorted (map fst overlapping)" "bounded_run 1 2 example_config ''a'' overlapping empty_state" by code_simp+
  from rate_limits_hold [of "''a''" example_config example_trace, OF _ _ this] example_granted(1) g show ?thesis
    by (simp add: example_trace_def example_config_def minute_bound_def)
qed

end
