(* ===== verification/Revocation.thy ===== *)
theory Revocation
  imports PyValue
begin

section \<open>Token revocation\<close>

text \<open>
  \<open>auth/token_revocation.py\<close>: the in-memory store, the PostgreSQL store, the service that decides
  whether the claims of a token are revoked, and the check that an authentication provider makes.
  A dictionary is an association list, a set of token ids a list without repetition, the table of
  the SQL statements a list of rows.  Times are rationals in seconds; \<open>time.time()\<close> and \<open>NOW()\<close> are
  arguments.  Logging, the creation of the table and the timer of the clean-up task are not
  modelled; one run of the clean-up is an operation.
\<close>

definition revocation_period :: rat where
  "revocation_period = 86400"

subsection \<open>The in-memory store\<close>

record memory_store =
  revoked_tokens :: "(string \<times> rat) list"
  user_tokens :: "(string \<times> string list) list"
  user_cutoffs :: "(string \<times> (rat \<times> rat)) list"

definition empty_store :: memory_store where
  "empty_store = \<lparr>revoked_tokens = [], user_tokens = [], user_cutoffs = []\<rparr>"

definition tokens_of :: "memory_store \<Rightarrow> string \<Rightarrow> string list" where
  "tokens_of st user = (case map_of (user_tokens st) user of None \<Rightarrow> [] | Some ts \<Rightarrow> ts)"

definition revoke_token :: "rat \<Rightarrow> string \<Rightarrow> string \<Rightarrow> memory_store \<Rightarrow> memory_store" where
  "revoke_token now token user st =
     st\<lparr>revoked_tokens := AList.update token (now + revocation_period) (revoked_tokens st),
        user_tokens := AList.update user (List.insert token (tokens_of st user)) (user_tokens st)\<rparr>"

definition is_revoked :: "rat \<Rightarrow> string \<Rightarrow> memory_store \<Rightarrow> bool \<times> memory_store" where
  "is_revoked now token st =
     (case map_of (revoked_tokens st) token of
        None \<Rightarrow> (False, st)
      | Some expiry \<Rightarrow>
          if now > expiry then (False, st\<lparr>revoked_tokens := AList.delete token (revoked_tokens st)\<rparr>)
          else (True, st))"

definition revoke_all_user_tokens :: "rat \<Rightarrow> string \<Rightarrow> memory_store \<Rightarrow> memory_store" where
  "revoke_all_user_tokens now user st =
     (let expiry_time = now + revocation_period in
      st\<lparr>user_cutoffs := AList.update user (now, expiry_time) (user_cutoffs st),
         revoked_tokens := foldl (\<lambda>d token. AList.update token expiry_time d) (revoked_tokens st) (tokens_of st user)\<rparr>)"

definition revoked_before :: "rat \<Rightarrow> string \<Rightarrow> memory_store \<Rightarrow> rat option \<times> memory_store" where
  "revoked_before now user st =
     (case map_of (user_cutoffs st) user of
        None \<Rightarrow> (None, st)
      | Some (cutoff, expiry) \<Rightarrow>
          if now > expiry then (None, st\<lparr>user_cutoffs := AList.delete user (user_cutoffs st)\<rparr>)
          else (Some cutoff, st))"

definition cleanup_store :: "rat \<Rightarrow> memory_store \<Rightarrow> nat \<times> memory_store" where
  "cleanup_store now st =
     (let expired = map fst (filter (\<lambda>(t, expiry). now > expiry) (revoked_tokens st));
          expired_cutoffs = map fst (filter (\<lambda>(u, c, expiry). now > expiry) (user_cutoffs st));
          kept = map (\<lambda>(u, ts). (u, filter (\<lambda>t. t \<notin> set expired) ts)) (user_tokens st)
      in (length expired + length expired_cutoffs,
          \<lparr>revoked_tokens = filter (\<lambda>(t, expiry). \<not> now > expiry) (revoked_tokens st),
           user_tokens = filter (\<lambda>(u, ts). ts \<noteq> []) kept,
           user_cutoffs = filter (\<lambda>(u, c, expiry). \<not> now > expiry) (user_cutoffs st)\<rparr>))"

definition get_revoked_count :: "memory_store \<Rightarrow> nat" where
  "get_revoked_count st = length (revoked_tokens st)"

subsection \<open>The PostgreSQL store\<close>

record revocation_row =
  row_token :: string
  row_user :: string
  revoked_at :: rat
  expires_at :: rat

type_synonym revocation_table = "revocation_row list"

definition row_for :: "string \<Rightarrow> revocation_table \<Rightarrow> revocation_row option" where
  "row_for token tb = find (\<lambda>r. row_token r = token) tb"

text \<open>\<open>INSERT \<dots> ON CONFLICT (token_id) DO NOTHING\<close>; \<open>revoked_at\<close> defaults to \<open>NOW()\<close>.\<close>

definition pg_revoke_token :: "rat \<Rightarrow> rat \<Rightarrow> string \<Rightarrow> string \<Rightarrow> revocation_table \<Rightarrow> revocation_table" where
  "pg_revoke_token now db_now token user tb =
     (if row_for token tb \<noteq> None then tb
      else tb @ [\<lparr>row_token = token, row_user = user, revoked_at = db_now, expires_at = now + revocation_period\<rparr>])"

text \<open>\<open>SELECT 1 \<dots> WHERE token_id = %s AND expires_at > NOW()\<close>\<close>

definition pg_is_revoked :: "rat \<Rightarrow> string \<Rightarrow> revocation_table \<Rightarrow> bool" where
  "pg_is_revoked db_now token tb = list_ex (\<lambda>r. row_token r = token \<and> expires_at r > db_now) tb"

definition cutoff_token_id :: "string \<Rightarrow> string" where
  "cutoff_token_id user = ''__all__'' @ user"

text \<open>\<open>INSERT \<dots> ON CONFLICT (token_id) DO UPDATE SET revoked_at, expires_at\<close>\<close>

definition pg_revoke_all_user_tokens :: "rat \<Rightarrow> string \<Rightarrow> revocation_table \<Rightarrow> revocation_table" where
  "pg_revoke_all_user_tokens now user tb =
     (let token = cutoff_token_id user; expiry = now + revocation_period in
      if row_for token tb \<noteq> None
      then map (\<lambda>r. if row_token r = token then r\<lparr>revoked_at := now, expires_at := expiry\<rparr> else r) tb
      else tb @ [\<lparr>row_token = token, row_user = user, revoked_at = now, expires_at = expiry\<rparr>])"

definition pg_revoked_before :: "rat \<Rightarrow> string \<Rightarrow> revocation_table \<Rightarrow> rat option" where
  "pg_revoked_before db_now user tb =
     map_option revoked_at (find (\<lambda>r. row_token r = cutoff_token_id user \<and> expires_at r > db_now) tb)"

definition pg_cleanup_store :: "rat \<Rightarrow> revocation_table \<Rightarrow> nat \<times> revocation_table" where
  "pg_cleanup_store db_now tb =
     (length (filter (\<lambda>r. expires_at r \<le> db_now) tb), filter (\<lambda>r. \<not> expires_at r \<le> db_now) tb)"

definition pg_get_revoked_count :: "rat \<Rightarrow> revocation_table \<Rightarrow> nat" where
  "pg_get_revoked_count db_now tb = length (filter (\<lambda>r. expires_at r > db_now) tb)"

subsection \<open>The service\<close>

text \<open>
  The service uses a store through its operations; \<open>so_revoked_before\<close> is optional in the
  protocol.  Of the claims it reads \<open>jti\<close>, \<open>sub\<close> and \<open>iat\<close>.
\<close>

record 's store_ops =
  so_revoke :: "rat \<Rightarrow> string \<Rightarrow> string \<Rightarrow> 's \<Rightarrow> 's"
  so_is_revoked :: "rat \<Rightarrow> string \<Rightarrow> 's \<Rightarrow> bool \<times> 's"
  so_revoke_all :: "rat \<Rightarrow> string \<Rightarrow> 's \<Rightarrow> 's"
  so_revoked_before :: "(rat \<Rightarrow> string \<Rightarrow> 's \<Rightarrow> rat option \<times> 's) option"
  so_cleanup :: "rat \<Rightarrow> 's \<Rightarrow> nat \<times> 's"

definition memory_ops :: "memory_store store_ops" where
  "memory_ops = \<lparr>so_revoke = revoke_token, so_is_revoked = is_revoked, so_revoke_all = revoke_all_user_tokens,
     so_revoked_before = Some revoked_before, so_cleanup = cleanup_store\<rparr>"

text \<open>One clock for the application and the database.\<close>

definition pg_ops :: "revocation_table store_ops" where
  "pg_ops = \<lparr>so_revoke = (\<lambda>now. pg_revoke_token now now), so_is_revoked = (\<lambda>now token tb. (pg_is_revoked now token tb, tb)),
     so_revoke_all = pg_revoke_all_user_tokens,
     so_revoked_before = Some (\<lambda>now user tb. (pg_revoked_before now user tb, tb)), so_cleanup = pg_cleanup_store\<rparr>"

record revocation_config =
  rev_enabled :: bool
  check_revocation :: bool
  ttl :: int
  cleanup_interval :: int

datatype issued_at = NoIat | NumericIat rat | OtherIat

record token_payload =
  jti :: "string option"
  sub :: "string option"
  iat :: issued_at

definition claim :: "string option \<Rightarrow> string option" where
  "claim c = (case c of Some s \<Rightarrow> if s = [] then None else Some s | None \<Rightarrow> None)"

definition service_revoke_token ::
  "'s store_ops \<Rightarrow> revocation_config \<Rightarrow> rat \<Rightarrow> token_payload \<Rightarrow> 's \<Rightarrow> 's result" where
  "service_revoke_token ops cfg now payload st =
     (if \<not> rev_enabled cfg then Inr st
      else case (claim (jti payload), claim (sub payload)) of
        (None, _) \<Rightarrow> Inl ValueError
      | (_, None) \<Rightarrow> Inl ValueError
      | (Some token, Some user) \<Rightarrow> Inr (so_revoke ops now token user st))"

definition is_token_revoked ::
  "'s store_ops \<Rightarrow> revocation_config \<Rightarrow> rat \<Rightarrow> token_payload \<Rightarrow> 's \<Rightarrow> bool \<times> 's" where
  "is_token_revoked ops cfg now payload st =
     (if \<not> rev_enabled cfg \<or> \<not> check_revocation cfg then (False, st)
      else
        let (by_id, st1) = (case claim (jti payload) of None \<Rightarrow> (False, st) | Some token \<Rightarrow> so_is_revoked ops now token st)
        in if by_id then (True, st1)
           else case (claim (sub payload), so_revoked_before ops) of
             (Some user, Some before) \<Rightarrow>
               (case before now user st1 of
                  (None, st2) \<Rightarrow> (False, st2)
                | (Some cutoff, st2) \<Rightarrow>
                    (case iat payload of NumericIat t \<Rightarrow> (t < cutoff, st2) | _ \<Rightarrow> (True, st2)))
           | _ \<Rightarrow> (False, st1))"

definition service_revoke_all :: "'s store_ops \<Rightarrow> revocation_config \<Rightarrow> rat \<Rightarrow> string \<Rightarrow> 's \<Rightarrow> 's" where
  "service_revoke_all ops cfg now user st = (if \<not> rev_enabled cfg then st else so_revoke_all ops now user st)"

definition run_cleanup_once :: "'s store_ops \<Rightarrow> rat \<Rightarrow> 's \<Rightarrow> 's" where
  "run_cleanup_once ops now st = snd (so_cleanup ops now st)"

text \<open>
  \<open>TokenRevocationMixin\<close>: \<open>original\<close> is the provider's own validation of the token text, which the
  class leaves to the provider; the service is optional.
\<close>

definition validate_token ::
  "'s store_ops \<Rightarrow> revocation_config option \<Rightarrow> (string \<Rightarrow> token_payload result) \<Rightarrow> rat \<Rightarrow> string \<Rightarrow> 's
   \<Rightarrow> token_payload result \<times> 's" where
  "validate_token ops service original now token st =
     (case original token of
        Inl e \<Rightarrow> (Inl e, st)
      | Inr payload \<Rightarrow>
          (case service of
             None \<Rightarrow> (Inr payload, st)
           | Some cfg \<Rightarrow>
               (case is_token_revoked ops cfg now payload st of
                  (True, st') \<Rightarrow> (Inl InvalidTokenError, st')
                | (False, st') \<Rightarrow> (Inr payload, st'))))"

definition logout :: "'s store_ops \<Rightarrow> revocation_config option \<Rightarrow> rat \<Rightarrow> token_payload \<Rightarrow> 's \<Rightarrow> 's result" where
  "logout ops service now payload st =
     (case service of None \<Rightarrow> Inr st | Some cfg \<Rightarrow> service_revoke_token ops cfg now payload st)"

definition logout_all_sessions :: "'s store_ops \<Rightarrow> revocation_config option \<Rightarrow> rat \<Rightarrow> string \<Rightarrow> 's \<Rightarrow> 's" where
  "logout_all_sessions ops service now user st =
     (case service of None \<Rightarrow> st | Some cfg \<Rightarrow> service_revoke_all ops cfg now user st)"

end
