(* ===== verification/RevocationProps.thy ===== *)
theory RevocationProps
  imports Revocation
begin

section \<open>Revoked tokens stay out\<close>

text \<open>
  The contract of a revocation store as a locale, with the consequences for the service proved once
  inside it; both stores keep the contract.  A call on a store is a value of \<open>revocation_call\<close>, and
  a state after a sequence of timed calls is \<open>perform_all\<close>.
\<close>

datatype revocation_call =
  Revoke string string | IsRevoked string | RevokeAll string | RevokedBefore string | CleanupExpired

fun perform :: "'s store_ops \<Rightarrow> rat \<Rightarrow> revocation_call \<Rightarrow> 's \<Rightarrow> 's" where
  "perform ops now (Revoke token user) st = so_revoke ops now token user st"
| "perform ops now (IsRevoked token) st = snd (so_is_revoked ops now token st)"
| "perform ops now (RevokeAll user) st = so_revoke_all ops now user st"
| "perform ops now (RevokedBefore user) st = (case so_revoked_before ops of None \<Rightarrow> st | Some f \<Rightarrow> snd (f now user st))"
| "perform ops now CleanupExpired st = run_cleanup_once ops now st"

fun perform_all :: "'s store_ops \<Rightarrow> (rat \<times> revocation_call) list \<Rightarrow> 's \<Rightarrow> 's" where
  "perform_all ops [] st = st"
| "perform_all ops ((now, x) # tr) st = perform_all ops tr (perform ops now x st)"

definition active :: "rat \<Rightarrow> rat \<Rightarrow> bool" where
  "active since now = (since \<le> now \<and> now < since + revocation_period)"

subsection \<open>The contract of a store\<close>

text \<open>
  \<open>holds st token since\<close>: the revocation of the token at \<open>since\<close> is in force; \<open>cut st user since\<close>: the
  revocation of all tokens of the user at \<open>since\<close> is; \<open>accepts st token\<close>: the store records a new
  revocation of the token.
\<close>

locale revocation_store =
  fixes ops :: "'s store_ops"
    and before :: "rat \<Rightarrow> string \<Rightarrow> 's \<Rightarrow> rat option \<times> 's"
    and accepts :: "'s \<Rightarrow> string \<Rightarrow> bool"
    and holds :: "'s \<Rightarrow> string \<Rightarrow> rat \<Rightarrow> bool"
    and cut :: "'s \<Rightarrow> string \<Rightarrow> rat \<Rightarrow> bool"
  assumes has_before: "so_revoked_before ops = Some before"
    and recorded: "accepts st token \<Longrightarrow> holds (so_revoke ops since token user st) token since"
    and cut_recorded: "cut (so_revoke_all ops since user st) user since"
    and answers: "holds st token since \<Longrightarrow> active since now \<Longrightarrow> fst (so_is_revoked ops now token st)"
    and answers_cut: "cut st user since \<Longrightarrow> active since now \<Longrightarrow> \<exists>c \<ge> since. fst (before now user st) = Some c"
    and keeps: "holds st token since \<Longrightarrow> active since now \<Longrightarrow> holds (perform ops now x st) token since"
    and keeps_cut: "cut st user since \<Longrightarrow> active since now \<Longrightarrow> cut (perform ops now x st) user since"
begin

lemma keeps_all: "holds st token since \<Longrightarrow> list_all (active since \<circ> fst) tr \<Longrightarrow> holds (perform_all ops tr st) token since"
  by (induction tr arbitrary: st) (auto simp: keeps)

lemma keeps_cut_all: "cut st user since \<Longrightarrow> list_all (active since \<circ> fst) tr \<Longrightarrow> cut (perform_all ops tr st) user since"
  by (induction tr arbitrary: st) (auto simp: keeps_cut)

lemma revoked_by_id:
  assumes "rev_enabled cfg" "check_revocation cfg" "claim (jti payload) = Some token"
    and "holds st token since" "active since now"
  shows "fst (is_token_revoked ops cfg now payload st)"
  using assms answers [OF assms(4,5)] by (cases "so_is_revoked ops now token st") (simp add: is_token_revoked_def)

lemma revoked_by_user:
  assumes "rev_enabled cfg" "check_revocation cfg" "claim (sub payload) = Some user"
    and "cut st user since" "active since now" "\<And>t. iat payload = NumericIat t \<Longrightarrow> t < since"
  shows "fst (is_token_revoked ops cfg now payload st)"
proof -
  define r where "r = (case claim (jti payload) of None \<Rightarrow> (False, st) | Some token \<Rightarrow> so_is_revoked ops now token st)"
  have "cut (snd r) user since"
    using assms(4) keeps_cut [OF assms(4,5), of "IsRevoked (the (claim (jti payload)))"]
    by (cases "claim (jti payload)") (simp_all add: r_def)
  from answers_cut [OF this assms(5)] obtain c where c: "since \<le> c" "fst (before now user (snd r)) = Some c" by blast
  from c(1) assms(6) have "(case iat payload of NumericIat t \<Rightarrow> t < c | _ \<Rightarrow> True)"
    by (auto split: issued_at.split intro: less_le_trans)
  with c assms(1-3) has_before show ?thesis
    unfolding is_token_revoked_def r_def [symmetric]
    by (cases "before now user (snd r)") (auto split: prod.split issued_at.split)
qed

lemma validation_rejects:
  assumes "original token = Inr payload" "fst (is_token_revoked ops cfg now payload st)"
  shows "fst (validate_token ops (Some cfg) original now token st) = Inl InvalidTokenError"
  using assms by (cases "is_token_revoked ops cfg now payload st") (simp add: validate_token_def)

lemma logged_out:
  assumes "rev_enabled cfg" "check_revocation cfg" "original token = Inr payload" "claim (jti payload) = Some i"
    and "logout ops (Some cfg) since payload st = Inr st'" "accepts st i" "list_all (active since \<circ> fst) tr" "active since now"
  shows "fst (validate_token ops (Some cfg) original now token (perform_all ops tr st')) = Inl InvalidTokenError"
proof -
  obtain user where "st' = so_revoke ops since i user st"
    using assms(1,4,5) by (auto simp: logout_def service_revoke_token_def split: option.splits)
  with recorded [OF assms(6)] keeps_all assms(7) have "holds (perform_all ops tr st') i since" by blast
  from revoked_by_id [OF assms(1,2,4) this assms(8)] validation_rejects [where original = original and token = token, OF assms(3)] show ?thesis by blast
qed

lemma logged_out_everywhere:
  assumes "rev_enabled cfg" "check_revocation cfg" "original token = Inr payload" "claim (sub payload) = Some user"
    and "\<And>t. iat payload = NumericIat t \<Longrightarrow> t < since" "list_all (active since \<circ> fst) tr" "active since now"
  shows "fst (validate_token ops (Some cfg) original now token
    (perform_all ops tr (logout_all_sessions ops (Some cfg) since user st))) = Inl InvalidTokenError"
proof -
  have "cut (perform_all ops tr (logout_all_sessions ops (Some cfg) since user st)) user since"
    using keeps_cut_all [OF cut_recorded assms(6)] assms(1) by (simp add: logout_all_sessions_def service_revoke_all_def)
  from revoked_by_user [OF assms(1,2,4) this assms(7,5)] validation_rejects [where original = original and token = token, OF assms(3)] show ?thesis by blast
qed

end

subsection \<open>The in-memory store\<close>

definition memory_holds :: "memory_store \<Rightarrow> string \<Rightarrow> rat \<Rightarrow> bool" where
  "memory_holds st token since = (\<exists>x. map_of (revoked_tokens st) token = Some x \<and> since + revocation_period \<le> x)"

definition memory_cut :: "memory_store \<Rightarrow> string \<Rightarrow> rat \<Rightarrow> bool" where
  "memory_cut st user since =
     (\<exists>c x. map_of (user_cutoffs st) user = Some (c, x) \<and> since \<le> c \<and> since + revocation_period \<le> x)"

lemma map_of_foldl_update:
  "map_of (foldl (\<lambda>d k. AList.update k v d) d ks) k = (if k \<in> set ks then Some v else map_of d k)"
  by (induction ks arbitrary: d) (auto simp: update_conv')

lemma map_of_filter_keep:
  "map_of d k = Some v \<Longrightarrow> P (k, v) \<Longrightarrow> map_of (filter P d) k = Some v"
  by (induction d) (auto split: if_splits)

lemma memory_keeps:
  assumes "memory_holds st token since" "active since now"
  shows "memory_holds (perform memory_ops now x st) token since"
proof (cases x)
  case (Revoke i u)
  with assms show ?thesis
    by (auto simp: memory_ops_def revoke_token_def memory_holds_def active_def update_conv')
next
  case (IsRevoked i)
  with assms show ?thesis
    by (auto simp: memory_ops_def is_revoked_def memory_holds_def active_def delete_conv' split: option.split)
next
  case (RevokeAll u)
  with assms show ?thesis
    by (auto simp: memory_ops_def revoke_all_user_tokens_def Let_def memory_holds_def active_def map_of_foldl_update)
next
  case (RevokedBefore u)
  with assms show ?thesis
    by (auto simp: memory_ops_def revoked_before_def memory_holds_def split: option.split prod.split)
next
  case CleanupExpired
  from assms obtain y where y: "map_of (revoked_tokens st) token = Some y" "since + revocation_period \<le> y" "\<not> now > y"
    by (auto simp: memory_holds_def active_def)
  from map_of_filter_keep [OF y(1), of "\<lambda>(t, expiry). \<not> now > expiry"] y(2,3) show ?thesis
    by (simp add: CleanupExpired run_cleanup_once_def memory_ops_def cleanup_store_def Let_def memory_holds_def)
qed

lemma memory_keeps_cut:
  assumes "memory_cut st user since" "active since now"
  shows "memory_cut (perform memory_ops now x st) user since"
proof (cases x)
  case (Revoke i u)
  with assms show ?thesis by (simp add: memory_ops_def revoke_token_def memory_cut_def)
next
  case (IsRevoked i)
  with assms show ?thesis by (simp add: memory_ops_def is_revoked_def memory_cut_def split: option.split)
next
  case (RevokeAll u)
  with assms show ?thesis
    by (auto simp: memory_ops_def revoke_all_user_tokens_def Let_def memory_cut_def active_def update_conv')
next
  case (RevokedBefore u)
  with assms show ?thesis
    by (auto simp: memory_ops_def revoked_before_def memory_cut_def active_def delete_conv' split: option.split)
next
  case CleanupExpired
  from assms obtain c y where y: "map_of (user_cutoffs st) user = Some (c, y)" "since \<le> c" "since + revocation_period \<le> y" "\<not> now > y"
    by (auto simp: memory_cut_def active_def)
  from map_of_filter_keep [OF y(1), of "\<lambda>(u, c, expiry). \<not> now > expiry"] y(2-4) show ?thesis
    by (simp add: CleanupExpired run_cleanup_once_def memory_ops_def cleanup_store_def Let_def memory_cut_def)
qed

interpretation mem: revocation_store memory_ops revoked_before "\<lambda>_ _. True" memory_holds memory_cut
proof
  show "memory_holds (so_revoke memory_ops since token user st) token since" for st token since user
    by (simp add: memory_ops_def revoke_token_def memory_holds_def update_conv')
  show "memory_cut (so_revoke_all memory_ops since user st) user since" for since user st
    by (simp add: memory_ops_def revoke_all_user_tokens_def Let_def memory_cut_def update_conv')
  show "fst (so_is_revoked memory_ops now token st)" if "memory_holds st token since" "active since now" for st token since now
    using that by (auto simp: memory_ops_def is_revoked_def memory_holds_def active_def)
  show "\<exists>c \<ge> since. fst (revoked_before now user st) = Some c" if "memory_cut st user since" "active since now" for st user since now
    using that by (auto simp: revoked_before_def memory_cut_def active_def)
qed (simp add: memory_ops_def, (rule memory_keeps memory_keeps_cut; assumption)+)

subsection \<open>The PostgreSQL store\<close>

text \<open>The primary key makes the row of a token unique.\<close>

definition pg_holds :: "revocation_table \<Rightarrow> string \<Rightarrow> rat \<Rightarrow> bool" where
  "pg_holds tb token since = (\<exists>r \<in> set tb. row_token r = token \<and> since + revocation_period \<le> expires_at r)"

definition pg_cut :: "revocation_table \<Rightarrow> string \<Rightarrow> rat \<Rightarrow> bool" where
  "pg_cut tb user since =
     ((\<exists>r \<in> set tb. row_token r = cutoff_token_id user \<and> since + revocation_period \<le> expires_at r)
      \<and> (\<forall>r \<in> set tb. row_token r = cutoff_token_id user \<longrightarrow> since \<le> revoked_at r))"

lemma row_for_None: "row_for token tb = None \<longleftrightarrow> (\<forall>r \<in> set tb. row_token r \<noteq> token)"
  by (auto simp: row_for_def find_None_iff)

text \<open>The upsert as an image: without a conflict the update changes no row.\<close>

definition renewed :: "rat \<Rightarrow> string \<Rightarrow> revocation_row \<Rightarrow> revocation_row" where
  "renewed now token r =
     (if row_token r = token then r\<lparr>revoked_at := now, expires_at := now + revocation_period\<rparr> else r)"

lemma revoke_all_set:
  "set (pg_revoke_all_user_tokens now user tb) =
     renewed now (cutoff_token_id user) ` set tb
     \<union> (if row_for (cutoff_token_id user) tb = None
        then {\<lparr>row_token = cutoff_token_id user, row_user = user, revoked_at = now, expires_at = now + revocation_period\<rparr>}
        else {})"
proof (cases "row_for (cutoff_token_id user) tb")
  case None
  then have "renewed now (cutoff_token_id user) ` set tb = set tb"
    unfolding row_for_None by (simp add: renewed_def cong: image_cong)
  with None show ?thesis by (simp add: pg_revoke_all_user_tokens_def Let_def)
next
  case (Some r)
  then show ?thesis by (simp add: pg_revoke_all_user_tokens_def Let_def renewed_def)
qed

lemma renewed_simps [simp]:
  "row_token (renewed now token r) = row_token r"
  "row_token r = token \<Longrightarrow> revoked_at (renewed now token r) = now"
  "row_token r = token \<Longrightarrow> expires_at (renewed now token r) = now + revocation_period"
  "row_token r \<noteq> token \<Longrightarrow> renewed now token r = r"
  by (simp_all add: renewed_def)

lemma renewed_expiry: "since \<le> now \<Longrightarrow> since + revocation_period \<le> expires_at r \<Longrightarrow>
    since + revocation_period \<le> expires_at (renewed now token r)"
  by (simp add: renewed_def)

lemma revoke_set: "set tb \<subseteq> set (pg_revoke_token now now token user tb)"
  "r \<in> set (pg_revoke_token now now token user tb) \<Longrightarrow> r \<in> set tb \<or> row_token r = token \<and> revoked_at r = now"
  by (auto simp: pg_revoke_token_def split: if_splits)

lemma pg_keeps:
  assumes "pg_holds tb token since" "active since now"
  shows "pg_holds (perform pg_ops now x tb) token since"
proof -
  from assms(1) obtain r where r: "r \<in> set tb" "row_token r = token" "since + revocation_period \<le> expires_at r"
    by (auto simp: pg_holds_def)
  show ?thesis
  proof (cases x)
    case (Revoke i u)
    then have "perform pg_ops now x tb = pg_revoke_token now now i u tb" by (simp add: pg_ops_def)
    with r revoke_set(1) [of tb now i u] show ?thesis unfolding pg_holds_def by auto
  next
    case (RevokeAll u)
    have "renewed now (cutoff_token_id u) r \<in> set (pg_revoke_all_user_tokens now u tb)"
      using r(1) by (simp add: revoke_all_set)
    moreover have "since + revocation_period \<le> expires_at (renewed now (cutoff_token_id u) r)"
      using renewed_expiry r(3) assms(2) by (simp add: active_def)
    ultimately show ?thesis using r(2) unfolding RevokeAll pg_holds_def
      by (intro bexI [of _ "renewed now (cutoff_token_id u) r"]) (simp_all add: pg_ops_def)
  next
    case CleanupExpired
    have "r \<in> set (filter (\<lambda>r. \<not> expires_at r \<le> now) tb)" using r assms(2) by (simp add: active_def)
    with r show ?thesis unfolding pg_holds_def CleanupExpired by (auto simp: pg_ops_def run_cleanup_once_def pg_cleanup_store_def)
  qed (use assms(1) in \<open>simp_all add: pg_ops_def\<close>)
qed

lemma pg_keeps_cut:
  assumes "pg_cut tb user since" "active since now"
  shows "pg_cut (perform pg_ops now x tb) user since"
proof -
  from assms(1) have held: "pg_holds tb (cutoff_token_id user) since"
    and all: "\<And>r. r \<in> set tb \<Longrightarrow> row_token r = cutoff_token_id user \<Longrightarrow> since \<le> revoked_at r"
    by (auto simp: pg_cut_def pg_holds_def)
  have now: "since \<le> now" using assms(2) by (simp add: active_def)
  have "since \<le> revoked_at r" if "r \<in> set (perform pg_ops now x tb)" "row_token r = cutoff_token_id user" for r
  proof (cases x)
    case (Revoke i u)
    then have "r \<in> set (pg_revoke_token now now i u tb)" using that by (simp add: pg_ops_def)
    from revoke_set(2) [OF this] all that(2) now show ?thesis by auto
  next
    case (RevokeAll u)
    then have "r \<in> set (pg_revoke_all_user_tokens now u tb)" using that by (simp add: pg_ops_def)
    with that(2) all now show ?thesis
      by (cases "row_for (cutoff_token_id u) tb = None"; cases "cutoff_token_id u = cutoff_token_id user")
        (auto simp: revoke_all_set)
  next
    case CleanupExpired
    with that all show ?thesis by (auto simp: pg_ops_def run_cleanup_once_def pg_cleanup_store_def)
  qed (use that all in \<open>simp_all add: pg_ops_def\<close>)
  with pg_keeps [OF held assms(2), of x] show ?thesis by (simp add: pg_cut_def pg_holds_def)
qed

lemma pg_cut_recorded: "pg_cut (pg_revoke_all_user_tokens since user tb) user since"
proof -
  have "\<exists>r \<in> set (pg_revoke_all_user_tokens since user tb).
      row_token r = cutoff_token_id user \<and> since + revocation_period \<le> expires_at r"
  proof (cases "row_for (cutoff_token_id user) tb = None")
    case False
    then obtain r where "r \<in> set tb" "row_token r = cutoff_token_id user" unfolding row_for_None by blast
    then show ?thesis unfolding revoke_all_set by (intro bexI [of _ "renewed since (cutoff_token_id user) r"]) simp_all
  qed (simp add: revoke_all_set)
  moreover have "since \<le> revoked_at r"
    if "r \<in> set (pg_revoke_all_user_tokens since user tb)" "row_token r = cutoff_token_id user" for r
    using that by (auto simp: revoke_all_set split: if_splits)
  ultimately show ?thesis by (simp add: pg_cut_def)
qed

interpretation pg_store: revocation_store pg_ops "\<lambda>now user tb. (pg_revoked_before now user tb, tb)"
  "\<lambda>tb token. row_for token tb = None" pg_holds pg_cut
proof
  show "pg_holds (so_revoke pg_ops since token user tb) token since" if "row_for token tb = None" for tb token since user
    using that by (simp add: pg_ops_def pg_revoke_token_def pg_holds_def)
  show "pg_cut (so_revoke_all pg_ops since user tb) user since" for since user tb
    using pg_cut_recorded by (simp add: pg_ops_def)
  show "fst (so_is_revoked pg_ops now token tb)" if "pg_holds tb token since" "active since now" for tb token since now
    using that by (force simp: pg_ops_def pg_is_revoked_def pg_holds_def active_def list_ex_iff)
  show "\<exists>c \<ge> since. fst (pg_revoked_before now user tb, tb) = Some c" if c: "pg_cut tb user since" "active since now" for tb user since now
  proof -
    let ?P = "\<lambda>r. row_token r = cutoff_token_id user \<and> expires_at r > now"
    have "\<exists>r \<in> set tb. ?P r" using c unfolding pg_cut_def active_def by (meson less_le_trans)
    then obtain r where r: "find ?P tb = Some r" by (cases "find ?P tb") (auto simp: find_None_iff)
    with find_Some_D [OF r] c(1) show ?thesis by (simp add: pg_revoked_before_def pg_cut_def)
  qed
qed (simp add: pg_ops_def, (rule pg_keeps pg_keeps_cut; assumption)+)

subsection \<open>Properties\<close>

text \<open>
  C26: A token that was logged out is rejected.  For 24 hours after \<open>logout\<close>, whatever is revoked,
  asked or cleaned up meanwhile, \<open>validate_token\<close> raises \<open>InvalidTokenError\<close> for every token text that
  carries the id.  The in-memory store guarantees it in every state; the PostgreSQL store only when it has
  no row for the id yet, since a second revocation over an old row has no effect
  (\<open>pg_second_revocation_ignored\<close>).
\<close>

theorem logged_out_token_rejected:
  assumes "rev_enabled cfg" "check_revocation cfg" "original token = Inr payload" "claim (jti payload) = Some i"
    and "logout memory_ops (Some cfg) since payload st = Inr st'" "logout pg_ops (Some cfg) since payload tb = Inr tb'"
    and "row_for i tb = None" "list_all (active since \<circ> fst) tr" "active since now"
  shows "fst (validate_token memory_ops (Some cfg) original now token (perform_all memory_ops tr st')) = Inl InvalidTokenError
    \<and> fst (validate_token pg_ops (Some cfg) original now token (perform_all pg_ops tr tb')) = Inl InvalidTokenError"
  using mem.logged_out [where original = original and token = token, OF assms(1-5) TrueI assms(8,9)]
    pg_store.logged_out [where original = original and token = token, OF assms(1-4,6-9)] by blast

text \<open>
  Logging out everywhere.  For 24 hours after \<open>logout_all_sessions\<close> for a user, every token with
  that \<open>sub\<close> that was issued before, or whose time of issue cannot be told, is rejected, by either
  store, in every state and whatever happens meanwhile.
\<close>

theorem logged_out_everywhere_rejected:
  assumes "rev_enabled cfg" "check_revocation cfg" "original token = Inr payload" "claim (sub payload) = Some user"
    and "case iat payload of NumericIat t \<Rightarrow> t < since | _ \<Rightarrow> True" "list_all (active since \<circ> fst) tr" "active since now"
  shows "fst (validate_token memory_ops (Some cfg) original now token
      (perform_all memory_ops tr (logout_all_sessions memory_ops (Some cfg) since user st))) = Inl InvalidTokenError
    \<and> fst (validate_token pg_ops (Some cfg) original now token
      (perform_all pg_ops tr (logout_all_sessions pg_ops (Some cfg) since user tb))) = Inl InvalidTokenError"
proof -
  have "t < since" if "iat payload = NumericIat t" for t using assms(5) that by simp
  from mem.logged_out_everywhere [where original = original and token = token, OF assms(1-4) this assms(6,7)]
    pg_store.logged_out_everywhere [where original = original and token = token, OF assms(1-4) this assms(6,7)]
  show ?thesis by blast
qed

subsection \<open>Nobody else is locked out\<close>

text \<open>What the in-memory store holds comes from the calls that were made.\<close>

definition store_explained :: "(rat \<times> revocation_call) set \<Rightarrow> memory_store \<Rightarrow> bool" where
  "store_explained calls st =
     ((\<forall>p \<in> set (revoked_tokens st). \<exists>t u. (t, Revoke (fst p) u) \<in> calls)
      \<and> (\<forall>p \<in> set (user_tokens st). \<forall>i \<in> set (snd p). \<exists>t u. (t, Revoke i u) \<in> calls)
      \<and> (\<forall>p \<in> set (user_cutoffs st). (fst (snd p), RevokeAll (fst p)) \<in> calls))"

lemma set_update: "set (AList.update k v d) \<subseteq> insert (k, v) (set d)"
  by (induction d) auto

lemma set_delete: "set (AList.delete k d) \<subseteq> set d"
  by (auto simp: AList.delete_eq)

lemma set_foldl_update: "set (foldl (\<lambda>d k. AList.update k v d) d ks) \<subseteq> set d \<union> (\<lambda>k. (k, v)) ` set ks"
proof (induction ks arbitrary: d)
  case (Cons k ks)
  from Cons [of "AList.update k v d"] set_update [of k v d] show ?case by auto
qed simp

lemma explained_tokens_of:
  "store_explained calls st \<Longrightarrow> i \<in> set (tokens_of st u) \<Longrightarrow> \<exists>t v. (t, Revoke i v) \<in> calls"
  unfolding tokens_of_def store_explained_def
  by (cases "map_of (user_tokens st) u") (fastforce dest: map_of_SomeD)+

lemma explained_shrink:
  assumes "store_explained calls st" "set (revoked_tokens st') \<subseteq> set (revoked_tokens st)"
    and "set (user_cutoffs st') \<subseteq> set (user_cutoffs st)"
    and "\<forall>p \<in> set (user_tokens st'). \<forall>i \<in> set (snd p). \<exists>q \<in> set (user_tokens st). i \<in> set (snd q)"
  shows "store_explained calls st'"
  using assms unfolding store_explained_def by (meson subsetD)

lemma explainedI:
  assumes "\<And>p. p \<in> set (revoked_tokens st) \<Longrightarrow> \<exists>t u. (t, Revoke (fst p) u) \<in> calls"
    and "\<And>p i. p \<in> set (user_tokens st) \<Longrightarrow> i \<in> set (snd p) \<Longrightarrow> \<exists>t u. (t, Revoke i u) \<in> calls"
    and "\<And>p. p \<in> set (user_cutoffs st) \<Longrightarrow> (fst (snd p), RevokeAll (fst p)) \<in> calls"
  shows "store_explained calls st"
  using assms unfolding store_explained_def by blast

lemma explainedD:
  assumes "store_explained calls st"
  shows "p \<in> set (revoked_tokens st) \<Longrightarrow> \<exists>t u. (t, Revoke (fst p) u) \<in> calls"
    and "q \<in> set (user_tokens st) \<Longrightarrow> i \<in> set (snd q) \<Longrightarrow> \<exists>t u. (t, Revoke i u) \<in> calls"
    and "c \<in> set (user_cutoffs st) \<Longrightarrow> (fst (snd c), RevokeAll (fst c)) \<in> calls"
  using assms unfolding store_explained_def by blast+

lemma explained_revoke:
  assumes "store_explained calls st" "(now, Revoke i u) \<in> calls"
  shows "store_explained calls (revoke_token now i u st)"
proof (rule explainedI)
  fix p assume "p \<in> set (revoked_tokens (revoke_token now i u st))"
  then have "p = (i, now + revocation_period) \<or> p \<in> set (revoked_tokens st)"
    using set_update [of i "now + revocation_period" "revoked_tokens st"] by (auto simp: revoke_token_def)
  then show "\<exists>t u. (t, Revoke (fst p) u) \<in> calls" using assms explainedD(1) by fastforce
next
  fix p j assume "p \<in> set (user_tokens (revoke_token now i u st))" "j \<in> set (snd p)"
  then have "p \<in> set (user_tokens st) \<or> j \<in> insert i (set (tokens_of st u))"
    using set_update [of u "List.insert i (tokens_of st u)" "user_tokens st"] by (auto simp: revoke_token_def)
  with \<open>j \<in> set (snd p)\<close> show "\<exists>t u. (t, Revoke j u) \<in> calls"
    using assms explainedD(2) [OF assms(1)] explained_tokens_of [OF assms(1)] by blast
next
  fix p assume "p \<in> set (user_cutoffs (revoke_token now i u st))"
  with explainedD(3) [OF assms(1)] show "(fst (snd p), RevokeAll (fst p)) \<in> calls" by (simp add: revoke_token_def)
qed

lemma explained_revoke_all:
  assumes "store_explained calls st" "(now, RevokeAll u) \<in> calls"
  shows "store_explained calls (revoke_all_user_tokens now u st)"
proof (rule explainedI)
  let ?e = "now + revocation_period"
  fix p assume "p \<in> set (revoked_tokens (revoke_all_user_tokens now u st))"
  then have "p \<in> set (revoked_tokens st) \<or> fst p \<in> set (tokens_of st u)"
    using set_foldl_update [of ?e "revoked_tokens st" "tokens_of st u"] by (auto simp: revoke_all_user_tokens_def Let_def)
  then show "\<exists>t u. (t, Revoke (fst p) u) \<in> calls" using explainedD(1) explained_tokens_of assms(1) by blast
next
  fix p j assume "p \<in> set (user_tokens (revoke_all_user_tokens now u st))" "j \<in> set (snd p)"
  with explainedD(2) [OF assms(1)] show "\<exists>t u. (t, Revoke j u) \<in> calls" by (simp add: revoke_all_user_tokens_def Let_def)
next
  fix p assume "p \<in> set (user_cutoffs (revoke_all_user_tokens now u st))"
  then have "p = (u, now, now + revocation_period) \<or> p \<in> set (user_cutoffs st)"
    using set_update [of u "(now, now + revocation_period)" "user_cutoffs st"]
    by (auto simp: revoke_all_user_tokens_def Let_def)
  with assms(2) explainedD(3) [OF assms(1), of p] show "(fst (snd p), RevokeAll (fst p)) \<in> calls" by (cases p) auto
qed

lemma explained_perform:
  assumes "store_explained calls st"
  shows "store_explained (insert (now, x) calls) (perform memory_ops now x st)"
proof -
  have e: "store_explained (insert (now, x) calls) st" using assms unfolding store_explained_def by blast
  show ?thesis
  proof (cases x)
    case (Revoke i u)
    with explained_revoke [OF e] show ?thesis by (simp add: memory_ops_def)
  next
    case (IsRevoked i)
    have "store_explained (insert (now, x) calls) (snd (is_revoked now i st))"
      by (rule explained_shrink [OF e]) (use set_delete [of i "revoked_tokens st"] in \<open>auto simp: is_revoked_def split: option.split\<close>)
    with IsRevoked show ?thesis by (simp add: memory_ops_def)
  next
    case (RevokeAll u)
    with explained_revoke_all [OF e] show ?thesis by (simp add: memory_ops_def)
  next
    case (RevokedBefore u)
    have "store_explained (insert (now, x) calls) (snd (revoked_before now u st))"
      by (rule explained_shrink [OF e]) (use set_delete [of u "user_cutoffs st"] in \<open>auto simp: revoked_before_def split: option.split\<close>)
    with RevokedBefore show ?thesis by (simp add: memory_ops_def)
  next
    case CleanupExpired
    have "store_explained (insert (now, x) calls) (snd (cleanup_store now st))"
      by (rule explained_shrink [OF e]) (auto simp: cleanup_store_def Let_def, force)
    with CleanupExpired show ?thesis by (simp add: memory_ops_def run_cleanup_once_def)
  qed
qed

lemma explained_all:
  "store_explained calls st \<Longrightarrow> store_explained (calls \<union> set tr) (perform_all memory_ops tr st)"
proof (induction tr arbitrary: calls st)
  case (Cons e tr)
  obtain now x where e: "e = (now, x)" by (cases e)
  from Cons.IH [OF explained_perform [OF Cons.prems, of now x]] show ?case by (simp add: e insert_commute)
qed simp

text \<open>
  Only what was revoked is rejected.  In every state of the in-memory store the service answers
  that a token is revoked only if its id was revoked, or all tokens of its user were revoked after
  it was issued.
\<close>

theorem revocation_is_explained:
  assumes "fst (is_token_revoked memory_ops cfg now payload (perform_all memory_ops tr empty_store))"
  shows "(\<exists>i t u. jti payload = Some i \<and> (t, Revoke i u) \<in> set tr)
    \<or> (\<exists>u t. sub payload = Some u \<and> (t, RevokeAll u) \<in> set tr \<and> (case iat payload of NumericIat s \<Rightarrow> s < t | _ \<Rightarrow> True))"
proof -
  define st where "st = perform_all memory_ops tr empty_store"
  have e: "store_explained (set tr) st"
    using explained_all [of "{}" empty_store tr] by (simp add: st_def store_explained_def empty_store_def)
  define r where "r = (case claim (jti payload) of None \<Rightarrow> (False, st) | Some i \<Rightarrow> is_revoked now i st)"
  show ?thesis
  proof (cases "fst r")
    case True
    then obtain i where i: "claim (jti payload) = Some i" "fst (is_revoked now i st)"
      by (auto simp: r_def split: option.splits)
    then have "jti payload = Some i" by (auto simp: claim_def split: option.splits if_splits)
    moreover obtain x where "(i, x) \<in> set (revoked_tokens st)"
      using i(2) by (auto simp: is_revoked_def split: option.splits dest: map_of_SomeD)
    ultimately show ?thesis using e by (fastforce simp: store_explained_def)
  next
    case False
    have cut: "set (user_cutoffs (snd r)) = set (user_cutoffs st)"
      by (simp add: r_def is_revoked_def split: option.split)
    from assms False obtain u c where u: "claim (sub payload) = Some u" "fst (revoked_before now u (snd r)) = Some c"
      and iat: "case iat payload of NumericIat s \<Rightarrow> s < c | _ \<Rightarrow> True"
      unfolding st_def [symmetric]
      by (cases r) (auto simp: is_token_revoked_def memory_ops_def r_def split: option.splits prod.splits issued_at.splits if_splits)
    from u(2) obtain x where "(u, c, x) \<in> set (user_cutoffs (snd r))"
      by (auto simp: revoked_before_def split: option.splits prod.splits if_splits dest: map_of_SomeD)
    with e cut have "(c, RevokeAll u) \<in> set tr" by (fastforce simp: store_explained_def)
    moreover have "sub payload = Some u" using u(1) by (auto simp: claim_def split: option.splits if_splits)
    ultimately show ?thesis using iat by blast
  qed
qed

subsection \<open>Examples\<close>

definition example_service :: revocation_config where
  "example_service = \<lparr>rev_enabled = True, check_revocation = True, ttl = 86400, cleanup_interval = 3600\<rparr>"

definition example_payload :: token_payload where
  "example_payload = \<lparr>jti = Some ''t1'', sub = Some ''alice'', iat = NumericIat 90\<rparr>"

definition example_calls :: "(rat \<times> revocation_call) list" where
  "example_calls = [(150, CleanupExpired), (200, IsRevoked ''t1''), (300, Revoke ''t2'' ''bob'')]"

theorem logged_out_token_rejected_witness:
  "fst (validate_token memory_ops (Some example_service) (\<lambda>_. Inr example_payload) 400 ''x''
      (perform_all memory_ops example_calls (revoke_token 100 ''t1'' ''alice'' empty_store))) = Inl InvalidTokenError
   \<and> fst (validate_token pg_ops (Some example_service) (\<lambda>_. Inr example_payload) 400 ''x''
      (perform_all pg_ops example_calls (pg_revoke_token 100 100 ''t1'' ''alice'' []))) = Inl InvalidTokenError"
  by (rule logged_out_token_rejected [where payload = example_payload and i = "''t1''" and since = 100 and st = empty_store and tb = "[]"])
    (simp_all add: example_service_def example_payload_def example_calls_def logout_def service_revoke_token_def claim_def
      memory_ops_def pg_ops_def row_for_def active_def revocation_period_def)

theorem logged_out_everywhere_rejected_witness:
  "fst (validate_token memory_ops (Some example_service) (\<lambda>_. Inr example_payload) 400 ''x''
      (perform_all memory_ops example_calls (logout_all_sessions memory_ops (Some example_service) 100 ''alice'' empty_store)))
      = Inl InvalidTokenError
   \<and> fst (validate_token pg_ops (Some example_service) (\<lambda>_. Inr example_payload) 400 ''x''
      (perform_all pg_ops example_calls (logout_all_sessions pg_ops (Some example_service) 100 ''alice'' [])))
      = Inl InvalidTokenError"
  by (rule logged_out_everywhere_rejected [where payload = example_payload])
    (simp_all add: example_service_def example_payload_def example_calls_def claim_def active_def revocation_period_def)

theorem revocation_is_explained_witness:
  "fst (is_token_revoked memory_ops example_service 400 example_payload
      (perform_all memory_ops [(100, Revoke ''t1'' ''alice'')] empty_store))
   \<and> ((\<exists>i t u. jti example_payload = Some i \<and> (t, Revoke i u) \<in> set [(100 :: rat, Revoke ''t1'' ''alice'')])
    \<or> (\<exists>u t. sub example_payload = Some u \<and> (t, RevokeAll u) \<in> set [(100 :: rat, Revoke ''t1'' ''alice'')]
        \<and> (case iat example_payload of NumericIat s \<Rightarrow> s < t | _ \<Rightarrow> True)))"
proof -
  have "fst (is_token_revoked memory_ops example_service 400 example_payload
      (perform_all memory_ops [(100, Revoke ''t1'' ''alice'')] empty_store))" by code_simp
  from revocation_is_explained [OF this] this show ?thesis by blast
qed

text \<open>
  With PostgreSQL, a row that has expired but was not cleaned up makes a new revocation of the same
  token void, and a second revocation does not extend the first; in memory both take effect.
\<close>

lemma pg_second_revocation_ignored:
  "let calls = [(0, Revoke ''t1'' ''alice''), (86401, Revoke ''t1'' ''alice'')] in
   \<not> pg_is_revoked 86402 ''t1'' (perform_all pg_ops calls [])
   \<and> fst (is_revoked 86402 ''t1'' (perform_all memory_ops calls empty_store))"
  by code_simp

text \<open>The row of a revocation of all tokens is found under an id that a token may have.\<close>

lemma pg_cutoff_shares_ids:
  "fst (is_token_revoked pg_ops example_service 2 \<lparr>jti = Some ''t1'', sub = Some ''alice'', iat = NumericIat 0\<rparr>
     (perform_all pg_ops [(1, Revoke ''__all__alice'' ''mallory'')] []))"
  by code_simp

end
