(* ===== verification/Calendar.thy ===== *)
theory Calendar
  imports Prelude
begin

section \<open>Dates of Python\<close>

text \<open>
  \<open>datetime.date\<close> as the code uses it: the proleptic Gregorian calendar from year 1 to 9999,
  comparison, the neighbours of a date with the \<open>OverflowError\<close> at either end, adding days,
  \<open>toordinal\<close>, \<open>weekday\<close>, and \<open>fromisoformat\<close>.
\<close>

datatype pydate = Date (d_year: nat) (d_month: nat) (d_day: nat)

definition leap :: "nat \<Rightarrow> bool" where
  "leap y = (4 dvd y \<and> (\<not> 100 dvd y \<or> 400 dvd y))"

definition days_in_month :: "nat \<Rightarrow> nat \<Rightarrow> nat" where
  "days_in_month y m = (if m = 2 then (if leap y then 29 else 28) else if m \<in> {4, 6, 9, 11} then 30 else 31)"

definition valid_date :: "pydate \<Rightarrow> bool" where
  "valid_date d = (1 \<le> d_year d \<and> d_year d \<le> 9999 \<and> 1 \<le> d_month d \<and> d_month d \<le> 12
     \<and> 1 \<le> d_day d \<and> d_day d \<le> days_in_month (d_year d) (d_month d))"

text \<open>The constructor \<open>date(y, m, d)\<close>.\<close>

definition make_date :: "nat \<Rightarrow> nat \<Rightarrow> nat \<Rightarrow> pydate result" where
  "make_date y m d = (if valid_date (Date y m d) then Inr (Date y m d) else Inl ValueError)"

instantiation pydate :: linorder
begin

definition less_eq_pydate :: "pydate \<Rightarrow> pydate \<Rightarrow> bool" where
  "less_eq_pydate a b = (d_year a < d_year b \<or> d_year a = d_year b \<and>
     (d_month a < d_month b \<or> d_month a = d_month b \<and> d_day a \<le> d_day b))"

definition less_pydate :: "pydate \<Rightarrow> pydate \<Rightarrow> bool" where
  "less_pydate a b = (d_year a < d_year b \<or> d_year a = d_year b \<and>
     (d_month a < d_month b \<or> d_month a = d_month b \<and> d_day a < d_day b))"

instance
  by standard (auto simp: less_eq_pydate_def less_pydate_def intro: pydate.expand)

end

subsection \<open>Neighbours and sums\<close>

definition next_day :: "pydate \<Rightarrow> pydate result" where
  "next_day d =
     (if d_day d < days_in_month (d_year d) (d_month d) then Inr (Date (d_year d) (d_month d) (d_day d + 1))
      else if d_month d < 12 then Inr (Date (d_year d) (d_month d + 1) 1)
      else if d_year d < 9999 then Inr (Date (d_year d + 1) 1 1)
      else Inl OverflowError)"

definition prev_day :: "pydate \<Rightarrow> pydate result" where
  "prev_day d =
     (if 1 < d_day d then Inr (Date (d_year d) (d_month d) (d_day d - 1))
      else if 1 < d_month d then Inr (Date (d_year d) (d_month d - 1) (days_in_month (d_year d) (d_month d - 1)))
      else if 1 < d_year d then Inr (Date (d_year d - 1) 12 31)
      else Inl OverflowError)"

fun add_days :: "nat \<Rightarrow> pydate \<Rightarrow> pydate result" where
  "add_days 0 d = Inr d"
| "add_days (Suc n) d = rbind (next_day d) (add_days n)"

fun sub_days :: "nat \<Rightarrow> pydate \<Rightarrow> pydate result" where
  "sub_days 0 d = Inr d"
| "sub_days (Suc n) d = rbind (prev_day d) (sub_days n)"

subsection \<open>Ordinals\<close>

definition days_before_year :: "nat \<Rightarrow> nat" where
  "days_before_year y = (y - 1) * 365 + (y - 1) div 4 - (y - 1) div 100 + (y - 1) div 400"

fun days_before_month :: "nat \<Rightarrow> nat \<Rightarrow> nat" where
  "days_before_month y 0 = 0"
| "days_before_month y (Suc 0) = 0"
| "days_before_month y (Suc (Suc m)) = days_before_month y (Suc m) + days_in_month y (Suc m)"

definition toordinal :: "pydate \<Rightarrow> nat" where
  "toordinal d = days_before_year (d_year d) + days_before_month (d_year d) (d_month d) + d_day d"

definition weekday :: "pydate \<Rightarrow> nat" where
  "weekday d = (toordinal d + 6) mod 7"

lemma days_in_month_pos: "1 \<le> days_in_month y m" "days_in_month y m \<le> 31"
  by (simp_all add: days_in_month_def)

lemma days_before_month_Suc: "1 \<le> m \<Longrightarrow> days_before_month y (m + 1) = days_before_month y m + days_in_month y m"
  by (cases m) simp_all

lemma days_before_month_less:
  assumes "1 \<le> m" "m < m'"
  shows "days_before_month y m + days_in_month y m \<le> days_before_month y m'"
proof -
  from assms(2) obtain k where m': "m' = m + Suc k" using less_imp_Suc_add by fastforce
  have "days_before_month y m + days_in_month y m \<le> days_before_month y (m + Suc k)"
    using assms(1)
  proof (induction k)
    case 0
    then show ?case using days_before_month_Suc [of m y] by simp
  next
    case (Suc k)
    then show ?case using days_before_month_Suc [of "m + Suc k" y] by simp
  qed
  with m' show ?thesis by simp
qed

lemma days_in_year: "days_before_month y 12 + 31 = (if leap y then 366 else 365)"
proof -
  note step = days_before_month_Suc [of _ y]
  have "days_before_month y 2 = 31" by (simp add: numeral_2_eq_2 days_in_month_def)
  then show ?thesis
    using step [of 2] step [of 3] step [of 4] step [of 5] step [of 6] step [of 7] step [of 8] step [of 9]
      step [of 10] step [of 11] by (simp add: days_in_month_def)
qed

lemma leap_count:
  fixes a b c :: nat
  assumes "b \<le> a" "a' = a + (if P then 1 else 0)" "b' = b + (if Q then 1 else 0)" "c' = c + (if R then 1 else 0)"
    and "Q \<Longrightarrow> P" "R \<Longrightarrow> Q"
  shows "Suc n * 365 + a' - b' + c' = n * 365 + a - b + c + (if P \<and> (\<not> Q \<or> R) then 366 else 365)"
  using assms by (cases P; cases Q; cases R) simp_all

lemma days_before_year_Suc:
  assumes "1 \<le> y"
  shows "days_before_year (y + 1) = days_before_year y + (if leap y then 366 else 365)"
proof -
  obtain n where y: "y = Suc n" using assms by (cases y) auto
  have le: "n div 100 \<le> n div 4" by (rule div_le_mono2) simp_all
  have d: "Suc n div k = n div k + (if k dvd Suc n then 1 else 0)" for k :: nat
    by (simp add: div_Suc dvd_eq_mod_eq_0)
  have "(4 :: nat) dvd 100" "(100 :: nat) dvd 400" by simp_all
  then have "100 dvd Suc n \<Longrightarrow> 4 dvd Suc n" "400 dvd Suc n \<Longrightarrow> 100 dvd Suc n" using dvd_trans by blast+
  note leap_count [OF le d [of 4] d [of 100] d [of 400] this, of n]
  moreover have "y + 1 - 1 = Suc n" "y - 1 = n" by (simp_all add: y)
  ultimately show ?thesis unfolding days_before_year_def leap_def y by (simp only:)
qed

lemma days_before_year_less: "1 \<le> y \<Longrightarrow> y < y' \<Longrightarrow> days_before_year (y + 1) \<le> days_before_year y'"
proof (induction y')
  case (Suc y')
  show ?case
  proof (cases "y < y'")
    case True
    with Suc days_before_year_Suc [of y'] show ?thesis by simp
  next
    case False
    with Suc.prems have "y' = y" by simp
    then show ?thesis by simp
  qed
qed simp

lemma toordinal_in_year: "valid_date d \<Longrightarrow> toordinal d \<le> days_before_year (d_year d + 1)"
proof -
  assume v: "valid_date d"
  have "days_before_month (d_year d) (d_month d) + d_day d \<le> days_before_month (d_year d) 12 + 31"
  proof (cases "d_month d = 12")
    case False
    with v have "days_before_month (d_year d) (d_month d) + days_in_month (d_year d) (d_month d) \<le> days_before_month (d_year d) 12"
      by (intro days_before_month_less) (auto simp: valid_date_def)
    with v show ?thesis by (simp add: valid_date_def)
  next
    case True
    with v show ?thesis by (simp add: valid_date_def days_in_month_def)
  qed
  with days_in_year [of "d_year d"] days_before_year_Suc [of "d_year d"] v show ?thesis
    by (simp add: toordinal_def valid_date_def)
qed

lemma toordinal_mono:
  assumes "valid_date a" "valid_date b" "a < b"
  shows "toordinal a < toordinal b"
proof -
  from assms(3) consider "d_year a < d_year b" | "d_year a = d_year b" "d_month a < d_month b"
    | "d_year a = d_year b" "d_month a = d_month b" "d_day a < d_day b"
    by (auto simp: less_pydate_def)
  then show ?thesis
  proof cases
    case 1
    from toordinal_in_year [OF assms(1)] days_before_year_less [OF _ 1] assms(1,2) show ?thesis
      by (force simp: toordinal_def valid_date_def)
  next
    case 2
    from days_before_month_less [OF _ 2(2), of "d_year a"] 2 assms(1,2) show ?thesis
      by (force simp: toordinal_def valid_date_def)
  next
    case 3
    then show ?thesis by (simp add: toordinal_def)
  qed
qed

lemma toordinal_less_iff: "valid_date a \<Longrightarrow> valid_date b \<Longrightarrow> toordinal a < toordinal b \<longleftrightarrow> a < b"
  by (metis linorder_cases order_less_imp_not_less toordinal_mono order_less_irrefl)

lemma toordinal_inject: "valid_date a \<Longrightarrow> valid_date b \<Longrightarrow> toordinal a = toordinal b \<longleftrightarrow> a = b"
  by (metis linorder_cases order_less_irrefl toordinal_mono)

lemma toordinal_le_iff: "valid_date a \<Longrightarrow> valid_date b \<Longrightarrow> toordinal a \<le> toordinal b \<longleftrightarrow> a \<le> b"
  by (metis linorder_not_less toordinal_less_iff)

lemma next_day_ordinal:
  assumes "valid_date d" "next_day d = Inr e"
  shows "valid_date e" "toordinal e = toordinal d + 1"
proof -
  from assms show "valid_date e"
    using days_in_month_pos by (auto simp: next_day_def valid_date_def split: if_splits)
  show "toordinal e = toordinal d + 1"
  proof (cases "d_day d < days_in_month (d_year d) (d_month d)")
    case True
    with assms show ?thesis by (auto simp: next_day_def toordinal_def)
  next
    case False
    with assms(1) have last: "d_day d = days_in_month (d_year d) (d_month d)" by (simp add: valid_date_def)
    show ?thesis
    proof (cases "d_month d < 12")
      case True
      with False assms last days_before_month_Suc [of "d_month d" "d_year d"] show ?thesis
        by (auto simp: next_day_def toordinal_def valid_date_def)
    next
      case False
      with assms(1) have "d_month d = 12" by (simp add: valid_date_def)
      with \<open>\<not> d_day d < _\<close> assms last days_before_year_Suc [of "d_year d"] days_in_year [of "d_year d"] show ?thesis
        by (auto simp: next_day_def toordinal_def valid_date_def days_in_month_def split: if_splits)
    qed
  qed
qed

lemma prev_day_next:
  assumes "valid_date d" "prev_day d = Inr e"
  shows "valid_date e \<and> next_day e = Inr d"
proof -
  obtain y m n where d: "d = Date y m n" by (cases d)
  from assms(1) d have v: "1 \<le> y" "y \<le> 9999" "1 \<le> m" "m \<le> 12" "1 \<le> n" "n \<le> days_in_month y m"
    by (simp_all add: valid_date_def)
  consider "1 < n" | "n = 1" "1 < m" | "n = 1" "m = 1" "1 < y" | "n = 1" "m = 1" "y = 1" using v by linarith
  then show ?thesis
  proof cases
    case 2
    obtain q where q: "m = Suc q" using 2 by (cases m) auto
    with 2 assms(2) d have "e = Date y q (days_in_month y q)" by (simp add: prev_day_def)
    with 2 d v q days_in_month_pos(1) [of y q] show ?thesis by (simp add: next_day_def valid_date_def)
  next
    case 3
    have "days_in_month (y - 1) 12 = 31" by (simp add: days_in_month_def)
    with 3 assms(2) d v show ?thesis by (auto simp: prev_day_def next_day_def valid_date_def)
  qed (use assms(2) d v in \<open>auto simp: prev_day_def next_day_def valid_date_def\<close>)
qed

lemma prev_day_ordinal:
  assumes "valid_date d" "prev_day d = Inr e"
  shows "valid_date e" "toordinal d = toordinal e + 1"
  using prev_day_next [OF assms] next_day_ordinal by blast+

lemma add_days_ordinal: "valid_date d \<Longrightarrow> add_days n d = Inr e \<Longrightarrow> valid_date e \<and> toordinal e = toordinal d + n"
proof (induction n arbitrary: d)
  case (Suc n)
  then obtain x where x: "next_day d = Inr x" "add_days n x = Inr e" by (auto simp: rbind_eq_Inr)
  from next_day_ordinal [OF Suc.prems(1) x(1)] Suc.IH [OF _ x(2)] show ?case by simp
qed simp

lemma sub_days_ordinal: "valid_date d \<Longrightarrow> sub_days n d = Inr e \<Longrightarrow> valid_date e \<and> toordinal d = toordinal e + n"
proof (induction n arbitrary: d)
  case (Suc n)
  then obtain x where x: "prev_day d = Inr x" "sub_days n x = Inr e" by (auto simp: rbind_eq_Inr)
  from prev_day_ordinal [OF Suc.prems(1) x(1)] Suc.IH [OF _ x(2)] show ?case by simp
qed simp

lemma next_day_discrete:
  assumes "valid_date d" "next_day d = Inr e" "valid_date x"
  shows "x < e \<longleftrightarrow> x \<le> d" "d < e"
  using next_day_ordinal [OF assms(1,2)] assms(1,3)
  by (simp_all flip: toordinal_less_iff toordinal_le_iff) linarith

end
