(* ===== verification/PartialPeriod.thy ===== *)
theory PartialPeriod
  imports Calendar WhereClause
begin

section \<open>Partial periods of pre-aggregated views\<close>

text \<open>
  \<open>partial_period.py\<close> and the partition of \<open>_build_partial_period_union_query\<close> in \<open>db.py\<close>: the start
  and the end of a period, the date bounds of a filter, what is left of the filter once the bounds
  are taken out, and the up to three segments of the requested window that are read from the
  fine-grain or from the coarse-grain view.
\<close>

subsection \<open>Periods\<close>

definition grain_truncs :: "string list" where
  "grain_truncs = [''day'', ''week'', ''half_month'', ''month'', ''quarter'', ''semester'', ''year'']"

definition validate_grain_trunc :: "string \<Rightarrow> string result" where
  "validate_grain_trunc g = (if g \<in> set grain_truncs then Inr g else Inl ValueError)"

definition is_period_aligned :: "pydate \<Rightarrow> string \<Rightarrow> bool result" where
  "is_period_aligned dt trunc = rbind (validate_grain_trunc trunc) (\<lambda>_. Inr
     (if trunc = ''day'' then True
      else if trunc = ''week'' then weekday dt = 0
      else if trunc = ''half_month'' then d_day dt \<in> {1, 16}
      else if trunc = ''month'' then d_day dt = 1
      else if trunc = ''quarter'' then d_day dt = 1 \<and> d_month dt \<in> {1, 4, 7, 10}
      else if trunc = ''semester'' then d_day dt = 1 \<and> d_month dt \<in> {1, 7}
      else d_day dt = 1 \<and> d_month dt = 1))"

definition period_start :: "pydate \<Rightarrow> string \<Rightarrow> pydate result" where
  "period_start dt trunc = rbind (validate_grain_trunc trunc) (\<lambda>_.
     if trunc = ''day'' then Inr dt
     else if trunc = ''week'' then sub_days (weekday dt) dt
     else if trunc = ''half_month'' then
       (if d_day dt \<le> 15 then make_date (d_year dt) (d_month dt) 1 else make_date (d_year dt) (d_month dt) 16)
     else if trunc = ''month'' then make_date (d_year dt) (d_month dt) 1
     else if trunc = ''quarter'' then make_date (d_year dt) ((d_month dt - 1) div 3 * 3 + 1) 1
     else if trunc = ''semester'' then make_date (d_year dt) (if d_month dt \<le> 6 then 1 else 7) 1
     else make_date (d_year dt) 1 1)"

definition next_period_start :: "pydate \<Rightarrow> string \<Rightarrow> pydate result" where
  "next_period_start dt trunc = rbind (period_start dt trunc) (\<lambda>start.
     if trunc = ''day'' then add_days 1 start
     else if trunc = ''week'' then add_days 7 start
     else if trunc = ''half_month'' then
       (if d_day start = 1 then make_date (d_year start) (d_month start) 16
        else if d_month start = 12 then make_date (d_year start + 1) 1 1
        else make_date (d_year start) (d_month start + 1) 1)
     else if trunc = ''month'' then
       (if d_month start = 12 then make_date (d_year start + 1) 1 1
        else make_date (d_year start) (d_month start + 1) 1)
     else if trunc = ''quarter'' then
       (if d_month start = 10 then make_date (d_year start + 1) 1 1
        else make_date (d_year start) (d_month start + 3) 1)
     else if trunc = ''semester'' then
       (if d_month start = 7 then make_date (d_year start + 1) 1 1
        else make_date (d_year start) 7 1)
     else make_date (d_year start + 1) 1 1)"

subsection \<open>The bounds of a filter\<close>

text \<open>\<open>date.fromisoformat\<close> on the calendar forms \<open>YYYY-MM-DD\<close> and \<open>YYYYMMDD\<close> and the week forms.\<close>

definition digit :: "char \<Rightarrow> nat option" where
  "digit c = (if is_digit c then Some (of_char c - 48) else None)"

fun digits :: "nat \<Rightarrow> string \<Rightarrow> nat option" where
  "digits acc [] = Some acc"
| "digits acc (c # cs) = (case digit c of None \<Rightarrow> None | Some n \<Rightarrow> digits (10 * acc + n) cs)"

definition iso_week_date :: "nat \<Rightarrow> nat \<Rightarrow> nat \<Rightarrow> pydate result" where
  "iso_week_date y w d =
     (let first = Date y 1 1;
          long_year = (weekday first = 3 \<or> leap y \<and> weekday first = 2)
      in if \<not> (1 \<le> y \<and> y \<le> 9999) \<or> \<not> (1 \<le> w \<and> (w \<le> 52 \<or> w = 53 \<and> long_year)) \<or> \<not> (1 \<le> d \<and> d \<le> 7)
         then Inl ValueError
         else rbind (if weekday first \<le> 3 then sub_days (weekday first) first else add_days (7 - weekday first) first)
                    (add_days (7 * (w - 1) + (d - 1))))"

definition from_parts :: "(nat \<Rightarrow> nat \<Rightarrow> nat \<Rightarrow> pydate result) \<Rightarrow> string \<Rightarrow> string \<Rightarrow> string \<Rightarrow> pydate result" where
  "from_parts mk a b c =
     (case (digits 0 a, digits 0 b, digits 0 c) of
        (Some x, Some y, Some z) \<Rightarrow> mk x y z
      | _ \<Rightarrow> Inl ValueError)"

definition fromisoformat :: "string \<Rightarrow> pydate result" where
  "fromisoformat s =
     (let y = take 4 s; r = drop 4 s in
      if length s = 10 \<and> hd r = CHR ''-'' \<and> r ! 1 = CHR ''W'' \<and> r ! 4 = CHR ''-''
        then from_parts iso_week_date y (take 2 (drop 2 r)) (drop 5 r)
      else if length s = 10 \<and> hd r = CHR ''-'' \<and> r ! 3 = CHR ''-''
        then from_parts make_date y (take 2 (tl r)) (drop 4 r)
      else if length s = 8 \<and> hd r = CHR ''W'' then from_parts iso_week_date y (take 2 (tl r)) (drop 3 r)
      else if length s = 8 \<and> hd r = CHR ''-'' \<and> r ! 1 = CHR ''W'' then from_parts iso_week_date y (drop 2 r) ''1''
      else if length s = 7 \<and> hd r = CHR ''W'' then from_parts iso_week_date y (tl r) ''1''
      else if length s = 8 then from_parts make_date y (take 2 r) (drop 2 r)
      else Inl ValueError)"

text \<open>A bound is a date, or a \<open>datetime\<close>, which is an instance of \<open>date\<close> too.\<close>

datatype date_bound = DateBound pydate | DatetimeBound pydate

definition bound_value :: "pyval \<Rightarrow> date_bound option result" where
  "bound_value v =
     (case v of
        PStr s \<Rightarrow> rbind (fromisoformat s) (\<lambda>d. Inr (Some (DateBound d)))
      | PDate s r \<Rightarrow> rbind (fromisoformat s) (\<lambda>d. Inr (Some (DateBound d)))
      | PDatetime s r \<Rightarrow> rbind (fromisoformat (take 10 s)) (\<lambda>d. Inr (Some (DatetimeBound d)))
      | _ \<Rightarrow> Inr None)"

definition day_after :: "date_bound \<Rightarrow> date_bound result" where
  "day_after b =
     (case b of
        DateBound d \<Rightarrow> rbind (add_days 1 d) (\<lambda>d. Inr (DateBound d))
      | DatetimeBound d \<Rightarrow> rbind (add_days 1 d) (\<lambda>d. Inr (DatetimeBound d)))"

text \<open>The first condition on the column with one of two operators; one of them moves the bound a day.\<close>

fun extract_bound :: "string \<Rightarrow> string \<Rightarrow> string \<Rightarrow> field_condition list \<Rightarrow> date_bound option result" where
  "extract_bound direct moved column [] = Inr None"
| "extract_bound direct moved column (c # cs) =
     (if target_column c \<noteq> column \<or> operator c \<notin> {direct, moved} then extract_bound direct moved column cs
      else rbind (bound_value (fc_value c)) (\<lambda>v.
        case v of
          None \<Rightarrow> extract_bound direct moved column cs
        | Some b \<Rightarrow> if operator c = moved then rbind (day_after b) (\<lambda>b. Inr (Some b)) else Inr (Some b)))"

definition extract_lower_date_bound :: "where_clause \<Rightarrow> string \<Rightarrow> date_bound option result" where
  "extract_lower_date_bound c column = extract_bound ''gte'' ''gt'' column (conditions c)"

definition extract_upper_date_bound :: "where_clause \<Rightarrow> string \<Rightarrow> date_bound option result" where
  "extract_upper_date_bound c column = extract_bound ''lt'' ''lte'' column (conditions c)"

definition build_extra_where :: "where_clause \<Rightarrow> string \<Rightarrow> field_condition list \<Rightarrow> where_clause option result" where
  "build_extra_where c column mandatory =
     (let remaining = filter (\<lambda>fc. target_column fc \<noteq> column) (conditions c) in
      if mandatory = [] \<and> remaining = [] \<and> nested_clauses c = [] \<and> not_clause c = None then Inr None
      else rbind (make_clause (mandatory @ remaining) (logical_op c) (nested_clauses c) (not_clause c)) (\<lambda>r. Inr (Some r)))"

text \<open>
  The dispatch of \<open>find\<close>: a clause is rewritten when its top level is a conjunction with a lower
  bound; an exception of the extraction keeps the ordinary query.
\<close>

definition union_bounds :: "where_clause \<Rightarrow> string \<Rightarrow> (date_bound \<times> date_bound option) option" where
  "union_bounds c column =
     (if logical_op c \<noteq> ''AND'' then None
      else case extract_lower_date_bound c column of
        Inr (Some lo) \<Rightarrow>
          (case extract_upper_date_bound c column of Inr hi \<Rightarrow> Some (lo, hi) | Inl _ \<Rightarrow> Some (lo, None))
      | _ \<Rightarrow> None)"

subsection \<open>The segments\<close>

datatype segment = Fine pydate pydate | Coarse pydate pydate

definition cut_points ::
  "string \<Rightarrow> pydate \<Rightarrow> pydate option \<Rightarrow> pydate \<Rightarrow> (pydate \<times> pydate \<times> pydate \<times> pydate) result" where
  "cut_points trunc lo upper today =
     rbind (add_days 1 today) (\<lambda>today_exclusive.
     rbind (period_start today trunc) (\<lambda>current_ps.
     let hi = (case upper of None \<Rightarrow> today_exclusive | Some u \<Rightarrow> min u today_exclusive) in
     rbind (is_period_aligned lo trunc) (\<lambda>lo_aligned.
     rbind (if lo_aligned then Inr lo else next_period_start lo trunc) (\<lambda>coarse_start.
     rbind (is_period_aligned hi trunc) (\<lambda>hi_aligned.
     rbind (if hi_aligned then Inr hi else rbind (sub_days 1 hi) (\<lambda>d. period_start d trunc)) (\<lambda>upper_coarse_end.
     let coarse_end = min upper_coarse_end current_ps;
         p1 = min (max coarse_start lo) hi;
         p2 = min (max coarse_end p1) hi
     in Inr (lo, p1, p2, hi)))))))"

definition segments_of :: "pydate \<times> pydate \<times> pydate \<times> pydate \<Rightarrow> segment list" where
  "segments_of ps =
     (case ps of (p0, p1, p2, p3) \<Rightarrow>
        let segs = (if p1 > p0 then [Fine p0 p1] else []) @ (if p2 > p1 then [Coarse p1 p2] else [])
                 @ (if p3 > p2 then [Fine p2 p3] else [])
        in if segs = [] then [Fine p0 p0] else segs)"

definition union_segments :: "string \<Rightarrow> pydate \<Rightarrow> pydate option \<Rightarrow> pydate \<Rightarrow> segment list result" where
  "union_segments trunc lo upper today = rbind (cut_points trunc lo upper today) (\<lambda>ps. Inr (segments_of ps))"

text \<open>A \<open>datetime\<close> cannot be compared with the date of today.\<close>

definition union_segments_for ::
  "string \<Rightarrow> date_bound \<times> date_bound option \<Rightarrow> pydate \<Rightarrow> segment list result" where
  "union_segments_for trunc bounds today =
     (case bounds of
        (DateBound lo, None) \<Rightarrow> union_segments trunc lo None today
      | (DateBound lo, Some (DateBound hi)) \<Rightarrow> union_segments trunc lo (Some hi) today
      | _ \<Rightarrow> Inl TypeError)"

end
