(* ===== verification/PartialPeriodProps.thy ===== *)
theory PartialPeriodProps
  imports PartialPeriod
begin

section \<open>The periods tile the calendar, the segments tile the window\<close>

text \<open>
  The laws of a grain as a locale, interpreted for each of the seven grains; the partition of the
  requested window; and the correctness of the rewrite: the rows that the branches return are the
  rows that aggregating the fine-grain view over the window would return.
\<close>

subsection \<open>Laws of a grain\<close>

locale grain =
  fixes trunc :: string
  assumes total: "valid_date d \<Longrightarrow> \<exists>s. period_start d trunc = Inr s"
    and start: "valid_date d \<Longrightarrow> period_start d trunc = Inr s \<Longrightarrow> valid_date s \<and> s \<le> d \<and> period_start s trunc = Inr s"
    and aligned: "valid_date d \<Longrightarrow> is_period_aligned d trunc = Inr (period_start d trunc = Inr d)"
    and convex: "valid_date d \<Longrightarrow> valid_date e \<Longrightarrow> valid_date x \<Longrightarrow> period_start d trunc = Inr s \<Longrightarrow>
      period_start e trunc = Inr s \<Longrightarrow> d \<le> x \<Longrightarrow> x \<le> e \<Longrightarrow> period_start x trunc = Inr s"
    and "next": "valid_date d \<Longrightarrow> next_period_start d trunc = Inr n \<Longrightarrow> valid_date n \<and> d < n \<and> period_start n trunc = Inr n"
    and tight: "valid_date d \<Longrightarrow> next_period_start d trunc = Inr n \<Longrightarrow> valid_date x \<Longrightarrow> d \<le> x \<Longrightarrow> x < n \<Longrightarrow>
      period_start x trunc = period_start d trunc"

subsection \<open>The seven grains\<close>

lemma grain_evals:
  "period_start dt ''day'' = Inr dt"
  "period_start dt ''week'' = sub_days (weekday dt) dt"
  "period_start dt ''half_month'' =
     (if d_day dt \<le> 15 then make_date (d_year dt) (d_month dt) 1 else make_date (d_year dt) (d_month dt) 16)"
  "period_start dt ''month'' = make_date (d_year dt) (d_month dt) 1"
  "period_start dt ''quarter'' = make_date (d_year dt) ((d_month dt - 1) div 3 * 3 + 1) 1"
  "period_start dt ''semester'' = make_date (d_year dt) (if d_month dt \<le> 6 then 1 else 7) 1"
  "period_start dt ''year'' = make_date (d_year dt) 1 1"
  by (simp_all add: period_start_def validate_grain_trunc_def grain_truncs_def)

lemma aligned_evals:
  "is_period_aligned dt ''day'' = Inr True"
  "is_period_aligned dt ''week'' = Inr (weekday dt = 0)"
  "is_period_aligned dt ''half_month'' = Inr (d_day dt \<in> {1, 16})"
  "is_period_aligned dt ''month'' = Inr (d_day dt = 1)"
  "is_period_aligned dt ''quarter'' = Inr (d_day dt = 1 \<and> d_month dt \<in> {1, 4, 7, 10})"
  "is_period_aligned dt ''semester'' = Inr (d_day dt = 1 \<and> d_month dt \<in> {1, 7})"
  "is_period_aligned dt ''year'' = Inr (d_day dt = 1 \<and> d_month dt = 1)"
  by (simp_all add: is_period_aligned_def validate_grain_trunc_def grain_truncs_def)

lemma next_evals:
  "next_period_start dt ''day'' = rbind (period_start dt ''day'') (add_days 1)"
  "next_period_start dt ''week'' = rbind (period_start dt ''week'') (add_days 7)"
  "next_period_start dt ''half_month'' = rbind (period_start dt ''half_month'') (\<lambda>s.
     if d_day s = 1 then make_date (d_year s) (d_month s) 16
     else if d_month s = 12 then make_date (d_year s + 1) 1 1 else make_date (d_year s) (d_month s + 1) 1)"
  "next_period_start dt ''month'' = rbind (period_start dt ''month'') (\<lambda>s.
     if d_month s = 12 then make_date (d_year s + 1) 1 1 else make_date (d_year s) (d_month s + 1) 1)"
  "next_period_start dt ''quarter'' = rbind (period_start dt ''quarter'') (\<lambda>s.
     if d_month s = 10 then make_date (d_year s + 1) 1 1 else make_date (d_year s) (d_month s + 3) 1)"
  "next_period_start dt ''semester'' = rbind (period_start dt ''semester'') (\<lambda>s.
     if d_month s = 7 then make_date (d_year s + 1) 1 1 else make_date (d_year s) 7 1)"
  "next_period_start dt ''year'' = rbind (period_start dt ''year'') (\<lambda>s. make_date (d_year s + 1) 1 1)"
  unfolding next_period_start_def by (rule rbind_cong; simp)+

lemma valid_parts:
  "valid_date d \<Longrightarrow> 1 \<le> d_year d \<and> d_year d \<le> 9999 \<and> 1 \<le> d_month d \<and> d_month d \<le> 12 \<and> 1 \<le> d_day d \<and> d_day d \<le> 31"
  using days_in_month_pos(2) [of "d_year d" "d_month d"] by (simp add: valid_date_def)

lemma make_date_small:
  "1 \<le> y \<Longrightarrow> y \<le> 9999 \<Longrightarrow> 1 \<le> m \<Longrightarrow> m \<le> 12 \<Longrightarrow> 1 \<le> d \<Longrightarrow> d \<le> 28 \<Longrightarrow> make_date y m d = Inr (Date y m d)"
  by (simp add: make_date_def valid_date_def days_in_month_def)

lemma make_date_Inr: "make_date y m d = Inr e \<longleftrightarrow> e = Date y m d \<and> valid_date e"
  by (auto simp: make_date_def)

text \<open>Grains that are ranges of month and day: the start is a function of the date.\<close>

lemma field_grain:
  assumes "\<And>d. valid_date d \<Longrightarrow> period_start d trunc = Inr (f d)"
    and "\<And>d. valid_date d \<Longrightarrow> valid_date (f d) \<and> f d \<le> d \<and> f (f d) = f d"
    and "\<And>d. valid_date d \<Longrightarrow> is_period_aligned d trunc = Inr (f d = d)"
    and "\<And>d e x. valid_date d \<Longrightarrow> valid_date e \<Longrightarrow> valid_date x \<Longrightarrow> f d = f e \<Longrightarrow> d \<le> x \<Longrightarrow> x \<le> e \<Longrightarrow> f x = f d"
    and "\<And>d n. valid_date d \<Longrightarrow> next_period_start d trunc = Inr n \<Longrightarrow> valid_date n \<and> d < n \<and> f n = n"
    and "\<And>d n x. valid_date d \<Longrightarrow> next_period_start d trunc = Inr n \<Longrightarrow> valid_date x \<Longrightarrow> d \<le> x \<Longrightarrow> x < n \<Longrightarrow> f x = f d"
  shows "grain trunc"
proof
  show "\<exists>s. period_start d trunc = Inr s" if "valid_date d" for d
    using assms(1) [OF that] by blast
  show "valid_date s \<and> s \<le> d \<and> period_start s trunc = Inr s" if "valid_date d" "period_start d trunc = Inr s" for d s
    using assms(1,2) [OF that(1)] that(2) assms(1) [of s] by simp
  show "is_period_aligned d trunc = Inr (period_start d trunc = Inr d)" if "valid_date d" for d
    using assms(1,3) [OF that] by simp
  show "period_start x trunc = Inr s"
    if "valid_date d" "valid_date e" "valid_date x" "period_start d trunc = Inr s" "period_start e trunc = Inr s" "d \<le> x" "x \<le> e"
    for d e x s
    using assms(1) [OF that(1)] assms(1) [OF that(2)] assms(1) [OF that(3)] assms(4) [OF that(1-3) _ that(6,7)] that(4,5) by simp
  show "valid_date n \<and> d < n \<and> period_start n trunc = Inr n" if "valid_date d" "next_period_start d trunc = Inr n" for d n
    using assms(5) [OF that] assms(1) [of n] by simp
  show "period_start x trunc = period_start d trunc"
    if "valid_date d" "next_period_start d trunc = Inr n" "valid_date x" "d \<le> x" "x < n" for d n x
    using assms(6) [OF that] assms(1) that(1,3) by simp
qed

lemmas date_order = less_eq_pydate_def less_pydate_def

lemma date_eq_iff: "a = b \<longleftrightarrow> d_year a = d_year b \<and> d_month a = d_month b \<and> d_day a = d_day b"
  by (cases a; cases b) simp

lemma before_new_year:
  assumes "valid_date x" "d \<le> x" "x < Date (d_year d + 1) 1 1"
  shows "d_year x = d_year d \<and> d_month d \<le> d_month x \<and> (d_month x = d_month d \<longrightarrow> d_day d \<le> d_day x)"
proof -
  have "\<not> d_month x < 1" "\<not> (d_month x = 1 \<and> d_day x < 1)" using valid_parts [OF assms(1)] by simp_all
  then have "d_year x < d_year d + 1" using assms(3) by (auto simp: less_pydate_def)
  with assms(2) show ?thesis by (simp add: less_eq_pydate_def) linarith
qed

lemma before_month:
  assumes "valid_date x" "d \<le> x" "x < Date (d_year d) m 1"
  shows "d_year x = d_year d \<and> d_month d \<le> d_month x \<and> d_month x < m \<and> (d_month x = d_month d \<longrightarrow> d_day d \<le> d_day x)"
proof -
  have "\<not> d_day x < 1" using valid_parts [OF assms(1)] by simp
  then have "d_year x < d_year d \<or> d_year x = d_year d \<and> d_month x < m" using assms(3) by (simp add: less_pydate_def)
  with assms(2) show ?thesis by (simp add: less_eq_pydate_def) linarith
qed

text \<open>Grains of whole months: \<open>g\<close> is the first month of the period, \<open>k\<close> its number of months.\<close>

lemma month_grain:
  fixes g :: "nat \<Rightarrow> nat"
  assumes ps: "\<And>d. valid_date d \<Longrightarrow> period_start d trunc = Inr (Date (d_year d) (g (d_month d)) 1)"
    and al: "\<And>d. valid_date d \<Longrightarrow> is_period_aligned d trunc = Inr (d_day d = 1 \<and> g (d_month d) = d_month d)"
    and nx: "\<And>d. next_period_start d trunc = rbind (period_start d trunc) (\<lambda>s.
        if d_month s = last_month then make_date (d_year s + 1) 1 1 else make_date (d_year s) (d_month s + k) 1)"
    and g: "\<And>m. 1 \<le> m \<Longrightarrow> m \<le> 12 \<Longrightarrow> 1 \<le> g m \<and> g m \<le> m \<and> m < g m + k \<and> g (g m) = g m"
    and block: "\<And>m x. 1 \<le> m \<Longrightarrow> m \<le> 12 \<Longrightarrow> g m \<le> x \<Longrightarrow> x < g m + k \<Longrightarrow> x \<le> 12 \<Longrightarrow> g x = g m"
    and wrap: "\<And>m. 1 \<le> m \<Longrightarrow> m \<le> 12 \<Longrightarrow> if g m = last_month then 12 < g m + k else g m + k \<le> 12 \<and> g (g m + k) = g m + k"
    and first: "g 1 = 1"
  shows "grain trunc"
proof (rule field_grain [where f = "\<lambda>d. Date (d_year d) (g (d_month d)) 1"])
  fix d assume d: "valid_date d"
  note v = valid_parts [OF d]
  then have gm: "1 \<le> g (d_month d) \<and> g (d_month d) \<le> d_month d \<and> d_month d < g (d_month d) + k \<and> g (g (d_month d)) = g (d_month d)"
    using g by blast
  show "period_start d trunc = Inr (Date (d_year d) (g (d_month d)) 1)" by (rule ps [OF d])
  show "valid_date (Date (d_year d) (g (d_month d)) 1) \<and> Date (d_year d) (g (d_month d)) 1 \<le> d
      \<and> Date (d_year (Date (d_year d) (g (d_month d)) 1)) (g (d_month (Date (d_year d) (g (d_month d)) 1))) 1
        = Date (d_year d) (g (d_month d)) 1"
    using v gm days_in_month_pos(1) by (auto simp: date_order valid_date_def)
  show "is_period_aligned d trunc = Inr (Date (d_year d) (g (d_month d)) 1 = d)"
    using al [OF d] by (auto simp: date_eq_iff)
  fix n assume n: "next_period_start d trunc = Inr n"
  from wrap [of "d_month d"] v consider (wrapped) "g (d_month d) = last_month" "12 < g (d_month d) + k"
    | (same) "g (d_month d) \<noteq> last_month" "g (d_month d) + k \<le> 12" "g (g (d_month d) + k) = g (d_month d) + k"
    by (auto split: if_splits)
  then have n': "valid_date n \<and> d < n \<and> Date (d_year n) (g (d_month n)) 1 = n
      \<and> (\<forall>x. valid_date x \<longrightarrow> d \<le> x \<longrightarrow> x < n \<longrightarrow> Date (d_year x) (g (d_month x)) 1 = Date (d_year d) (g (d_month d)) 1)"
  proof cases
    case wrapped
    with n ps [OF d] have "make_date (d_year d + 1) 1 1 = Inr n" by (simp add: nx)
    then have e: "n = Date (d_year d + 1) 1 1" "valid_date n" unfolding make_date_Inr by blast+
    have "Date (d_year x) (g (d_month x)) 1 = Date (d_year d) (g (d_month d)) 1" if x: "valid_date x" "d \<le> x" "x < n" for x
      using before_new_year [OF x(1,2)] x(3) e(1) block [of "d_month d" "d_month x"] v gm valid_parts [OF x(1)] wrapped by simp
    moreover have "d < n" "Date (d_year n) (g (d_month n)) 1 = n" using e(1) first by (simp_all add: date_order)
    ultimately show ?thesis using e(2) by blast
  next
    case same
    with n ps [OF d] have "make_date (d_year d) (g (d_month d) + k) 1 = Inr n" by (simp add: nx)
    then have e: "n = Date (d_year d) (g (d_month d) + k) 1" "valid_date n" unfolding make_date_Inr by blast+
    have "Date (d_year x) (g (d_month x)) 1 = Date (d_year d) (g (d_month d)) 1" if x: "valid_date x" "d \<le> x" "x < n" for x
      using before_month [OF x(1,2) x(3) [unfolded e(1)]] block [of "d_month d" "d_month x"] v gm valid_parts [OF x(1)] by simp
    moreover have "d < n" "Date (d_year n) (g (d_month n)) 1 = n" using e(1) same gm by (simp_all add: date_order)
    ultimately show ?thesis using e(2) by blast
  qed
  then show "valid_date n \<and> d < n \<and> Date (d_year n) (g (d_month n)) 1 = n" by blast
  show "valid_date x \<Longrightarrow> d \<le> x \<Longrightarrow> x < n \<Longrightarrow> Date (d_year x) (g (d_month x)) 1 = Date (d_year d) (g (d_month d)) 1" for x
    using n' by blast
next
  fix d e x
  assume "valid_date d" "valid_date e" "valid_date x"
    and f: "Date (d_year d) (g (d_month d)) 1 = Date (d_year e) (g (d_month e)) 1" and o: "d \<le> x" "x \<le> e"
  then have v: "1 \<le> d_month d" "d_month d \<le> 12" "1 \<le> d_month e" "d_month e \<le> 12" "1 \<le> d_month x" "d_month x \<le> 12"
    using valid_parts by blast+
  from f have e: "d_year e = d_year d" "g (d_month e) = g (d_month d)" by simp_all
  with o have "d_year x = d_year d" "d_month d \<le> d_month x" "d_month x \<le> d_month e"
    unfolding less_eq_pydate_def by linarith+
  with block [of "d_month d" "d_month x"] g [of "d_month d"] g [of "d_month e"] v e
  show "Date (d_year x) (g (d_month x)) 1 = Date (d_year d) (g (d_month d)) 1" by simp
qed

lemma month_cases: "1 \<le> m \<Longrightarrow> m \<le> 12 \<Longrightarrow> m \<in> {1, 2, 3, 4, 5, 6, 7, 8, 9, 10, 11, 12 :: nat}"
  by (simp, presburger)

interpretation year: grain "''year''"
proof (rule month_grain [where g = "\<lambda>_. 1" and k = 12 and last_month = 1])
  show "next_period_start d ''year'' = rbind (period_start d ''year'') (\<lambda>s.
      if d_month s = 1 then make_date (d_year s + 1) 1 1 else make_date (d_year s) (d_month s + 12) 1)" for d
    unfolding next_evals by (rule rbind_cong) (auto simp: grain_evals make_date_Inr)
qed (auto simp: grain_evals aligned_evals make_date_small dest!: valid_parts)

interpretation month: grain "''month''"
  by (rule month_grain [where g = "\<lambda>m. m" and k = 1 and last_month = 12])
    (auto simp: grain_evals aligned_evals next_evals make_date_small dest!: valid_parts)

interpretation semester: grain "''semester''"
proof (rule month_grain [where g = "\<lambda>m. if m \<le> 6 then 1 else 7" and k = 6 and last_month = 7])
  show "next_period_start d ''semester'' = rbind (period_start d ''semester'') (\<lambda>s.
      if d_month s = 7 then make_date (d_year s + 1) 1 1 else make_date (d_year s) (d_month s + 6) 1)" for d
    unfolding next_evals by (rule rbind_cong) (auto simp: grain_evals make_date_Inr split: if_splits)
  show "is_period_aligned d ''semester'' = Inr (d_day d = 1 \<and> (if d_month d \<le> 6 then 1 else 7) = d_month d)"
    if "valid_date d" for d using valid_parts [OF that] by (auto simp: aligned_evals)
  show "(if x \<le> 6 then 1 else 7) = (if m \<le> 6 then 1 else 7 :: nat)"
    if "(if m \<le> 6 then 1 else 7) \<le> x" "x < (if m \<le> 6 then 1 else 7) + 6" for m x :: nat
    using that by (simp split: if_splits)
  show "period_start d ''semester'' = Inr (Date (d_year d) (if d_month d \<le> 6 then 1 else 7) 1)" if "valid_date d" for d
    using valid_parts [OF that] by (simp add: grain_evals make_date_small)
qed auto

interpretation quarter: grain "''quarter''"
proof (rule month_grain [where g = "\<lambda>m. (m - 1) div 3 * 3 + 1" and k = 3 and last_month = 10])
  show "is_period_aligned d ''quarter'' = Inr (d_day d = 1 \<and> (d_month d - 1) div 3 * 3 + 1 = d_month d)"
    if "valid_date d" for d
    using month_cases [of "d_month d"] valid_parts [OF that] by (auto simp: aligned_evals)
  show "period_start d ''quarter'' = Inr (Date (d_year d) ((d_month d - 1) div 3 * 3 + 1) 1)" if "valid_date d" for d
  proof -
    have "(d_month d - 1) div 3 * 3 + 1 \<le> 12" using valid_parts [OF that] by linarith
    with valid_parts [OF that] show ?thesis by (simp add: grain_evals make_date_small)
  qed
  show "(x - 1) div 3 * 3 + 1 = (m - 1) div 3 * 3 + 1"
    if "1 \<le> m" "(m - 1) div 3 * 3 + 1 \<le> x" "x < (m - 1) div 3 * 3 + 1 + 3" for m x :: nat
  proof -
    from that have "(m - 1) div 3 \<le> (x - 1) div 3" "(x - 1) div 3 \<le> (m - 1) div 3" by linarith+
    then show ?thesis by simp
  qed
  show "1 \<le> (m - 1) div 3 * 3 + 1 \<and> (m - 1) div 3 * 3 + 1 \<le> m \<and> m < (m - 1) div 3 * 3 + 1 + 3
      \<and> ((m - 1) div 3 * 3 + 1 - 1) div 3 * 3 + 1 = (m - 1) div 3 * 3 + 1" if "1 \<le> m" for m :: nat
    using that by simp linarith
  show "if (m - 1) div 3 * 3 + 1 = 10 then 12 < (m - 1) div 3 * 3 + 1 + 3
      else (m - 1) div 3 * 3 + 1 + 3 \<le> 12 \<and> ((m - 1) div 3 * 3 + 1 + 3 - 1) div 3 * 3 + 1 = (m - 1) div 3 * 3 + 1 + 3"
    if "1 \<le> m" "m \<le> 12" for m :: nat
    using month_cases [OF that] by auto
qed (simp_all add: next_evals)

interpretation half_month: grain "''half_month''"
proof (rule field_grain [where f = "\<lambda>d. Date (d_year d) (d_month d) (if d_day d \<le> 15 then 1 else 16)"])
  fix d assume d: "valid_date d"
  note v = valid_parts [OF d]
  let ?s = "Date (d_year d) (d_month d) (if d_day d \<le> 15 then 1 else 16)"
  show ps: "period_start d ''half_month'' = Inr ?s" using v by (simp add: grain_evals make_date_small)
  have "28 \<le> days_in_month (d_year d) (d_month d)" by (simp add: days_in_month_def)
  with v show "valid_date ?s \<and> ?s \<le> d \<and> Date (d_year ?s) (d_month ?s) (if d_day ?s \<le> 15 then 1 else 16) = ?s"
    by (auto simp: date_order valid_date_def)
  show "is_period_aligned d ''half_month'' = Inr (?s = d)" by (auto simp: aligned_evals date_eq_iff)
  fix n assume n: "next_period_start d ''half_month'' = Inr n"
  with ps consider (mid) "d_day d \<le> 15" "n = Date (d_year d) (d_month d) 16" "valid_date n"
    | (year) "\<not> d_day d \<le> 15" "d_month d = 12" "n = Date (d_year d + 1) 1 1" "valid_date n"
    | (month) "\<not> d_day d \<le> 15" "d_month d < 12" "n = Date (d_year d) (d_month d + 1) 1" "valid_date n"
    using v by (auto simp: next_evals make_date_Inr split: if_splits)
  then have "valid_date n \<and> d < n \<and> Date (d_year n) (d_month n) (if d_day n \<le> 15 then 1 else 16) = n
      \<and> (\<forall>x. valid_date x \<longrightarrow> d \<le> x \<longrightarrow> x < n \<longrightarrow>
        d_year x = d_year d \<and> d_month x = d_month d \<and> (d_day x \<le> 15 \<longleftrightarrow> d_day d \<le> 15))"
  proof cases
    case mid
    then show ?thesis by (auto simp: date_order)
  next
    case year
    have "d_year x = d_year d \<and> d_month x = d_month d \<and> \<not> d_day x \<le> 15" if "valid_date x" "d \<le> x" "x < n" for x
      using before_new_year [OF that(1,2)] that(3) year(1-3) valid_parts [OF that(1)] by (auto intro: le_antisym)
    with year show ?thesis by (simp add: date_order)
  next
    case month
    have "d_year x = d_year d \<and> d_month x = d_month d \<and> \<not> d_day x \<le> 15" if "valid_date x" "d \<le> x" "x < n" for x
      using before_month [OF that(1,2) that(3) [unfolded month(3)]] month(1) by auto
    with month show ?thesis by (simp add: date_order)
  qed
  note n' = this
  then show "valid_date n \<and> d < n \<and> Date (d_year n) (d_month n) (if d_day n \<le> 15 then 1 else 16) = n" by blast
  show "Date (d_year x) (d_month x) (if d_day x \<le> 15 then 1 else 16) = ?s" if "valid_date x" "d \<le> x" "x < n" for x
    using n' that by simp
next
  show "Date (d_year x) (d_month x) (if d_day x \<le> 15 then 1 else 16) = Date (d_year d) (d_month d) (if d_day d \<le> 15 then 1 else 16)"
    if "Date (d_year d) (d_month d) (if d_day d \<le> 15 then 1 else 16) = Date (d_year e) (d_month e) (if d_day e \<le> 15 then 1 else 16)"
      "d \<le> x" "x \<le> e" for d e x
  proof -
    from that(1) have e: "d_year e = d_year d" "d_month e = d_month d" "d_day e \<le> 15 \<longleftrightarrow> d_day d \<le> 15"
      by (simp_all split: if_splits)
    with that(2,3) have "d_year x = d_year d" "d_month x = d_month d" "d_day d \<le> d_day x" "d_day x \<le> d_day e"
      by (simp_all add: date_order) linarith+
    with e(3) show ?thesis by (cases "d_day d \<le> 15") simp_all
  qed
qed

lemma sub_days_ok: "valid_date d \<Longrightarrow> n < toordinal d \<Longrightarrow> \<exists>e. sub_days n d = Inr e"
proof (induction n arbitrary: d)
  case (Suc n)
  have "\<exists>x. prev_day d = Inr x"
  proof (rule ccontr)
    assume "\<nexists>x. prev_day d = Inr x"
    with Suc.prems(1) have "d = Date 1 1 1" by (cases d) (auto simp: prev_day_def valid_date_def split: if_splits)
    with Suc.prems(2) show False by (simp add: toordinal_def days_before_year_def)
  qed
  then obtain x where x: "prev_day d = Inr x" ..
  from prev_day_ordinal [OF Suc.prems(1) x] Suc.prems(2) Suc.IH [of x] x show ?case by simp
qed simp

text \<open>Weeks are ranges of ordinals that begin at a multiple of seven plus one.\<close>

definition week_number :: "pydate \<Rightarrow> nat" where
  "week_number d = (toordinal d + 6) div 7"

lemma week_start:
  assumes "valid_date d" "sub_days (weekday d) d = Inr s"
  shows "valid_date s" "toordinal s + 6 = 7 * week_number d"
proof -
  from sub_days_ordinal [OF assms] show "valid_date s" by simp
  from sub_days_ordinal [OF assms] show "toordinal s + 6 = 7 * week_number d"
    using mult_div_mod_eq [of 7 "toordinal d + 6"] unfolding weekday_def week_number_def by linarith
qed

lemma toordinal_pos: "valid_date d \<Longrightarrow> 1 \<le> toordinal d"
  by (simp add: toordinal_def valid_date_def)

lemma week_start_ex: "valid_date d \<Longrightarrow> \<exists>s. sub_days (weekday d) d = Inr s"
proof (rule sub_days_ok)
  assume d: "valid_date d"
  have "1 \<le> (toordinal d + 6) div 7" using toordinal_pos [OF d] by simp
  then show "weekday d < toordinal d"
    using mult_div_mod_eq [of 7 "toordinal d + 6"] unfolding weekday_def by linarith
qed

lemma week_start_number:
  assumes "valid_date d" "valid_date e" "sub_days (weekday d) d = Inr s"
  shows "sub_days (weekday e) e = Inr s \<longleftrightarrow> week_number e = week_number d"
proof -
  obtain t where t: "sub_days (weekday e) e = Inr t" using week_start_ex [OF assms(2)] by blast
  note s = week_start [OF assms(1,3)] and t' = week_start [OF assms(2) t]
  have "t = s \<longleftrightarrow> toordinal t = toordinal s" using toordinal_inject [OF t'(1) s(1)] by simp
  also have "\<dots> \<longleftrightarrow> week_number e = week_number d" using s(2) t'(2) by linarith
  finally show ?thesis using t by simp
qed

lemma week_number_mono: "valid_date d \<Longrightarrow> valid_date e \<Longrightarrow> d \<le> e \<Longrightarrow> week_number d \<le> week_number e"
  unfolding week_number_def by (intro div_le_mono) (simp add: toordinal_le_iff)

interpretation week: grain "''week''"
proof
  show "\<exists>s. period_start d ''week'' = Inr s" if "valid_date d" for d
    using week_start_ex [OF that] by (simp add: grain_evals)
  show "valid_date s \<and> s \<le> d \<and> period_start s ''week'' = Inr s" if d: "valid_date d" "period_start d ''week'' = Inr s" for d s
  proof -
    have s: "sub_days (weekday d) d = Inr s" using d(2) by (simp add: grain_evals)
    note w = week_start [OF d(1) s]
    have "week_number s = week_number d" using w(2) unfolding week_number_def [of s] by simp
    with week_start_number [OF d(1) w(1) s] sub_days_ordinal [OF d(1) s] toordinal_le_iff [OF w(1) d(1)] w(1)
    show ?thesis by (simp add: grain_evals)
  qed
  show "is_period_aligned d ''week'' = Inr (period_start d ''week'' = Inr d)" if d: "valid_date d" for d
  proof -
    have "weekday d = 0" if "sub_days (weekday d) d = Inr d" using sub_days_ordinal [OF d that] by simp
    then show ?thesis by (auto simp: aligned_evals grain_evals)
  qed
  show "period_start x ''week'' = Inr s"
    if d: "valid_date d" "valid_date e" "valid_date x" "period_start d ''week'' = Inr s" "period_start e ''week'' = Inr s"
      "d \<le> x" "x \<le> e" for d e x s
  proof -
    have "sub_days (weekday d) d = Inr s" "sub_days (weekday e) e = Inr s" using d(4,5) by (simp_all add: grain_evals)
    with week_start_number [OF d(1,2)] have "week_number e = week_number d" by simp
    with week_number_mono [OF d(1,3,6)] week_number_mono [OF d(3,2,7)] week_start_number [OF d(1,3)] d(4)
    show ?thesis by (simp add: grain_evals)
  qed
  fix d n assume d: "valid_date d" and n: "next_period_start d ''week'' = Inr n"
  then obtain s where s: "sub_days (weekday d) d = Inr s" "add_days 7 s = Inr n"
    by (auto simp: next_evals grain_evals rbind_eq_Inr)
  note w = week_start [OF d s(1)]
  from add_days_ordinal [OF w(1) s(2)] have n': "valid_date n" "toordinal n = toordinal s + 7" by simp_all
  have "toordinal d < toordinal n" using w(2) n'(2) unfolding week_number_def by linarith
  moreover have "weekday n = 0"
  proof -
    have "toordinal n + 6 = 7 * (week_number d + 1)" using w(2) n'(2) by simp
    then show ?thesis unfolding weekday_def by presburger
  qed
  ultimately show "valid_date n \<and> d < n \<and> period_start n ''week'' = Inr n"
    using n'(1) toordinal_less_iff [OF d n'(1)] by (simp add: grain_evals)
  show "period_start x ''week'' = period_start d ''week''" if x: "valid_date x" "d \<le> x" "x < n" for x
  proof -
    have "toordinal x < toordinal n" "toordinal d \<le> toordinal x"
      using x toordinal_less_iff [OF x(1) n'(1)] toordinal_le_iff [OF d x(1)] by simp_all
    with w(2) n'(2) have "week_number x = week_number d" unfolding week_number_def by linarith
    with week_start_number [OF d x(1) s(1)] s(1) show ?thesis by (simp add: grain_evals)
  qed
qed

interpretation day: grain "''day''"
proof
  fix d n assume d: "valid_date d" and n: "next_period_start d ''day'' = Inr n"
  then have e: "next_day d = Inr n" by (simp add: next_evals grain_evals rbind_eq_Inr)
  from next_day_ordinal(1) [OF d e] next_day_discrete [OF d e d] show "valid_date n \<and> d < n \<and> period_start n ''day'' = Inr n"
    by (simp add: grain_evals)
  show "period_start x ''day'' = period_start d ''day''" if "valid_date x" "d \<le> x" "x < n" for x
    using next_day_discrete(1) [OF d e that(1)] that(2,3) by (simp add: grain_evals)
qed (simp_all add: grain_evals aligned_evals)

lemma any_grain: "trunc \<in> set grain_truncs \<Longrightarrow> grain trunc"
  using day.grain_axioms week.grain_axioms half_month.grain_axioms month.grain_axioms quarter.grain_axioms
    semester.grain_axioms year.grain_axioms
  unfolding grain_truncs_def by auto

subsection \<open>Consequences of the laws\<close>

context grain begin

lemma period_mono:
  assumes "valid_date d" "valid_date e" "d \<le> e" "period_start d trunc = Inr s" "period_start e trunc = Inr t"
  shows "s \<le> t"
proof (rule ccontr)
  assume "\<not> s \<le> t"
  note s = start [OF assms(1,4)] and t = start [OF assms(2,5)]
  have "t \<le> d" using s \<open>\<not> s \<le> t\<close> by (meson linear order_trans)
  with convex [OF _ assms(2,1) _ assms(5) _ assms(3)] t have "period_start d trunc = Inr t" by blast
  with assms(4) \<open>\<not> s \<le> t\<close> show False by simp
qed

lemma aligned_iff: "valid_date d \<Longrightarrow> is_period_aligned d trunc = Inr b \<Longrightarrow> b \<longleftrightarrow> period_start d trunc = Inr d"
  using aligned by simp

text \<open>A period start separates the dates as it separates their periods.\<close>

lemma boundary:
  assumes "valid_date b" "period_start b trunc = Inr b" "valid_date x" "period_start x trunc = Inr p"
  shows "x < b \<longleftrightarrow> p < b"
proof
  assume "x < b"
  then show "p < b" using start [OF assms(3,4)] le_less_trans by blast
next
  assume p: "p < b"
  show "x < b"
  proof (rule ccontr)
    assume "\<not> x < b"
    then have "b \<le> p" using period_mono [OF assms(1,3) _ assms(2,4)] by simp
    with p show False by simp
  qed
qed

lemma bounds:
  assumes d: "valid_date d" and s: "period_start d trunc = Inr s" and n: "next_period_start d trunc = Inr n" and x: "valid_date x"
  shows "period_start x trunc = Inr s \<longleftrightarrow> s \<le> x \<and> x < n"
proof
  assume p: "period_start x trunc = Inr s"
  note n' = "next" [OF d n] and s' = start [OF d s]
  from n' s' have "s < n" by auto
  with boundary [OF _ _ x p, of n] n' start [OF x p] show "s \<le> x \<and> x < n" by simp
next
  assume "s \<le> x \<and> x < n"
  then show "period_start x trunc = Inr s"
    using convex [OF _ d x _ s, of s] start [OF d s] tight [OF d n x] s by (cases "x \<le> d") auto
qed

lemma first_aligned:
  assumes "valid_date hi" "\<not> (period_start hi trunc = Inr hi)"
  shows "\<exists>e. sub_days 1 hi = Inr e"
proof -
  obtain s where s: "period_start hi trunc = Inr s" using total [OF assms(1)] ..
  with start [OF assms(1) s] assms(2) have "valid_date s" "s < hi" by auto
  then have "toordinal s < toordinal hi" using toordinal_less_iff assms(1) by blast
  with toordinal_pos [OF \<open>valid_date s\<close>] show ?thesis by (intro sub_days_ok [OF assms(1)]) simp
qed

end

subsection \<open>The cut points\<close>

definition window_end :: "pydate option \<Rightarrow> pydate \<Rightarrow> pydate" where
  "window_end upper tomorrow = (case upper of None \<Rightarrow> tomorrow | Some u \<Rightarrow> min u tomorrow)"

text \<open>What the three segments need of the cuts: order, and that no cut inside the window splits a period.\<close>

definition good_cut :: "string \<Rightarrow> pydate \<Rightarrow> pydate \<Rightarrow> pydate \<Rightarrow> bool" where
  "good_cut trunc lo hi c = (valid_date c \<and> (lo < hi \<longrightarrow> lo \<le> c \<and> c \<le> hi \<and> (c = hi \<or> period_start c trunc = Inr c)))"

context grain begin

lemma lower_edge:
  assumes "valid_date lo" "is_period_aligned lo trunc = Inr b"
    and "(if b then Inr lo else next_period_start lo trunc) = Inr cs"
  shows "valid_date cs \<and> lo \<le> cs \<and> period_start cs trunc = Inr cs"
  using aligned_iff [OF assms(1,2)] "next" [OF assms(1)] assms(1,3) by (cases b) auto

lemma upper_edge:
  assumes "valid_date hi" "is_period_aligned hi trunc = Inr b"
    and "(if b then Inr hi else rbind (sub_days 1 hi) (\<lambda>d. period_start d trunc)) = Inr ce"
  shows "valid_date ce \<and> ce \<le> hi \<and> period_start ce trunc = Inr ce"
proof (cases b)
  case True
  then show ?thesis using aligned_iff [OF assms(1,2)] assms(1,3) by simp
next
  case False
  with assms(3) obtain e where e: "sub_days 1 hi = Inr e" "period_start e trunc = Inr ce" by (auto simp: rbind_eq_Inr)
  from sub_days_ordinal [OF assms(1) e(1)] have e': "valid_date e" "toordinal e < toordinal hi" by simp_all
  then have "e < hi" using toordinal_less_iff [OF e'(1) assms(1)] by simp
  with start [OF e'(1) e(2)] show ?thesis by auto
qed

lemma cuts:
  assumes v: "valid_date lo" "valid_date today" "\<forall>u. upper = Some u \<longrightarrow> valid_date u"
    and c: "cut_points trunc lo upper today = Inr (p0, p1, p2, p3)"
    and tomorrow: "add_days 1 today = Inr tomorrow" and ps: "period_start today trunc = Inr ps"
  shows "p0 = lo" "p3 = window_end upper tomorrow" "p1 \<le> p2" "p2 \<le> p3"
    "good_cut trunc lo p3 p1" "good_cut trunc lo p3 p2"
    "p1 < p2 \<Longrightarrow> period_start p1 trunc = Inr p1 \<and> period_start p2 trunc = Inr p2 \<and> p2 \<le> ps"
    "p3 \<le> lo \<Longrightarrow> p1 = p3"
proof -
  let ?hi = "window_end upper tomorrow"
  have hi: "valid_date ?hi"
    using add_days_ordinal [OF v(2) tomorrow] v(3) by (auto simp: window_end_def min_def split: option.splits)
  from c obtain b cs b' ce where e: "is_period_aligned lo trunc = Inr b" "(if b then Inr lo else next_period_start lo trunc) = Inr cs"
      "is_period_aligned ?hi trunc = Inr b'" "(if b' then Inr ?hi else rbind (sub_days 1 ?hi) (\<lambda>d. period_start d trunc)) = Inr ce"
    and p: "p0 = lo" "p1 = min (max cs lo) ?hi" "p2 = min (max (min ce ps) p1) ?hi" "p3 = ?hi"
    unfolding cut_points_def window_end_def [symmetric] tomorrow ps by (auto simp: rbind_eq_Inr Let_def)
  note le = lower_edge [OF v(1) e(1,2)] and ue = upper_edge [OF hi e(3,4)]
  have s: "valid_date ps" "period_start ps trunc = Inr ps" using start [OF v(2) ps] by blast+
  show "p0 = lo" "p3 = ?hi" by (fact p)+
  show "p1 \<le> p2" "p2 \<le> p3" using p by (auto simp: min_def max_def)
  have p1: "p1 = min cs ?hi" using p(2) le by (simp add: max_absorb1)
  show "p1 = p3" if "p3 \<le> lo" using that p1 le unfolding p(4) by (auto simp: min_def)
  define q where "q = min ce ps"
  have m: "valid_date (q)" "period_start (q) trunc = Inr (q)" "q \<le> ?hi" "q \<le> ps"
    using ue s by (auto simp: q_def min_def)
  have p2: "p2 = (if q \<le> p1 then p1 else q)" using p(3) [folded q_def] m(3) p(2) by (auto simp: min_def max_def)
  have g: "good_cut trunc lo ?hi p1" using le hi unfolding good_cut_def p1 by (auto simp: min_def)
  then show "good_cut trunc lo p3 p1" using p(4) by simp
  show "good_cut trunc lo p3 p2"
  proof (cases "q \<le> p1")
    case True
    then show ?thesis using g p(4) p2 by simp
  next
    case False
    moreover from False have "p2 = q" using p2 by simp
    ultimately show ?thesis using m g p(4) unfolding good_cut_def by auto
  qed
  show "period_start p1 trunc = Inr p1 \<and> period_start p2 trunc = Inr p2 \<and> p2 \<le> ps" if "p1 < p2"
  proof -
    from that p2 have e2: "p2 = q" by (simp split: if_splits)
    with that m(3) have "p1 < ?hi" by simp
    then have "p1 = cs" using p1 by (simp add: min_def split: if_splits)
    with le e2 m show ?thesis by simp
  qed
qed

text \<open>The cuts exist unless the lower bound lies in the last period of the calendar.\<close>

lemma cuts_exist:
  assumes v: "valid_date lo" "valid_date today" "\<forall>u. upper = Some u \<longrightarrow> valid_date u"
    and n: "next_period_start lo trunc = Inr n" and tomorrow: "add_days 1 today = Inr tomorrow"
  shows "\<exists>ps. cut_points trunc lo upper today = Inr ps"
proof -
  obtain ps where ps: "period_start today trunc = Inr ps" using total [OF v(2)] ..
  let ?hi = "window_end upper tomorrow"
  have hi: "valid_date ?hi"
    using add_days_ordinal [OF v(2) tomorrow] v(3) by (auto simp: window_end_def min_def split: option.splits)
  have "\<exists>ce. (if period_start ?hi trunc = Inr ?hi then Inr ?hi else rbind (sub_days 1 ?hi) (\<lambda>d. period_start d trunc)) = Inr ce"
  proof (cases "period_start ?hi trunc = Inr ?hi")
    case False
    then obtain e where e: "sub_days 1 ?hi = Inr e" using first_aligned [OF hi] by blast
    with sub_days_ordinal [OF hi e] total [of e] show ?thesis using False by auto
  qed simp
  then obtain ce where "(if period_start ?hi trunc = Inr ?hi then Inr ?hi else rbind (sub_days 1 ?hi) (\<lambda>d. period_start d trunc)) = Inr ce" ..
  with n show ?thesis
    unfolding cut_points_def window_end_def [symmetric] tomorrow ps by (simp add: aligned [OF v(1)] aligned [OF hi] Let_def)
qed

lemma cut_separates:
  assumes "good_cut trunc lo hi c" "valid_date x" "lo \<le> x" "x < hi" "period_start x trunc = Inr p"
  shows "x < c \<longleftrightarrow> p < c"
proof (cases "c = hi")
  case True
  then show ?thesis using start [OF assms(2,5)] assms(4) by auto
next
  case False
  then show ?thesis using assms boundary [OF _ _ assms(2,5)] unfolding good_cut_def by auto
qed

end

end
