(* ===== verification/UnionRows.thy ===== *)
theory UnionRows
  imports PartialPeriodProps "HOL-Library.Disjoint_Sets"
begin

section \<open>The rows of the rewritten query\<close>

text \<open>
  The correctness of the partial-period rewrite: the three segments tile the window without
  splitting a period, complete periods are read from the coarse view only, and the rows of the
  branches are the rows that aggregating the fine-grain view over the window would give.
\<close>

subsection \<open>The rows of a branch\<close>

text \<open>
  A view is a list of rows: the dimensions, the date, and the measure. A branch keeps the rows of
  its segment and sums the measure for each group; the fine-grain branch groups by the period.
\<close>

type_synonym 'k view_rows = "('k \<times> pydate \<times> int) list"

definition period_of :: "string \<Rightarrow> pydate \<Rightarrow> pydate" where
  "period_of trunc d = (case period_start d trunc of Inl _ \<Rightarrow> d | Inr s \<Rightarrow> s)"

definition in_range :: "pydate \<Rightarrow> pydate \<Rightarrow> 'k view_rows \<Rightarrow> 'k view_rows" where
  "in_range a b = filter (\<lambda>(k, d, v). a \<le> d \<and> d < b)"

definition truncated :: "string \<Rightarrow> 'k view_rows \<Rightarrow> 'k view_rows" where
  "truncated trunc = map (\<lambda>(k, d, v). (k, period_of trunc d, v))"

definition group_total :: "'k view_rows \<Rightarrow> 'k \<Rightarrow> pydate \<Rightarrow> int" where
  "group_total rs k p = (\<Sum>(k', d, v) \<leftarrow> filter (\<lambda>(k', d, v). k' = k \<and> d = p) rs. v)"

definition aggregate :: "'k view_rows \<Rightarrow> ('k \<times> pydate \<times> int) set" where
  "aggregate rs = (\<lambda>(k, p, v). (k, p, group_total rs k p)) ` set rs"

definition fine_rows :: "string \<Rightarrow> 'k view_rows \<Rightarrow> pydate \<Rightarrow> pydate \<Rightarrow> ('k \<times> pydate \<times> int) set" where
  "fine_rows trunc fine a b = aggregate (truncated trunc (in_range a b fine))"

definition segment_rows :: "string \<Rightarrow> 'k view_rows \<Rightarrow> 'k view_rows \<Rightarrow> segment \<Rightarrow> ('k \<times> pydate \<times> int) set" where
  "segment_rows trunc fine coarse s =
     (case s of Fine a b \<Rightarrow> fine_rows trunc fine a b | Coarse a b \<Rightarrow> aggregate (in_range a b coarse))"

text \<open>The contract of the coarse view: it is right about the periods that have ended.\<close>

definition coarse_complete :: "string \<Rightarrow> 'k view_rows \<Rightarrow> 'k view_rows \<Rightarrow> pydate \<Rightarrow> bool" where
  "coarse_complete trunc fine coarse current =
     (aggregate (filter (\<lambda>(k, d, v). d < current) coarse)
      = aggregate (truncated trunc (filter (\<lambda>(k, d, v). d < current) fine)))"

definition valid_rows :: "'k view_rows \<Rightarrow> bool" where
  "valid_rows rs = list_all (\<lambda>(k, d, v). valid_date d) rs"

subsection \<open>Aggregation and filters on the group\<close>

lemma group_total_filter:
  "group_total (filter (\<lambda>(k, d, v). P d) rs) k p = (if P p then group_total rs k p else 0)"
  by (induction rs) (auto simp: group_total_def)

lemma aggregate_filter: "aggregate (filter (\<lambda>(k, d, v). P d) rs) = {(k, p, v) \<in> aggregate rs. P p}"
  by (force simp: aggregate_def group_total_filter)

lemma filter_truncated:
  assumes "\<And>k d v. (k, d, v) \<in> set rs \<Longrightarrow> Q d \<longleftrightarrow> P (period_of trunc d)"
  shows "truncated trunc (filter (\<lambda>(k, d, v). Q d) rs) = filter (\<lambda>(k, d, v). P d) (truncated trunc rs)"
  using assms by (induction rs) (auto simp: truncated_def)

text \<open>Rows of a part of a window that contains whole periods of it only.\<close>

lemma aggregate_part:
  assumes "\<And>k d v. (k, d, v) \<in> set rs \<Longrightarrow> Q d \<longleftrightarrow> P (period_of trunc d)"
  shows "aggregate (truncated trunc (filter (\<lambda>(k, d, v). Q d) rs)) = {(k, p, v) \<in> aggregate (truncated trunc rs). P p}"
  unfolding aggregate_filter [symmetric] using filter_truncated [of rs Q P trunc, OF assms] by simp

lemma in_range_part:
  "lo \<le> a \<Longrightarrow> b \<le> hi \<Longrightarrow> in_range a b rs = filter (\<lambda>(k, d, v). a \<le> d \<and> d < b) (in_range lo hi rs)"
  unfolding in_range_def by (induction rs) auto

lemma in_range_member: "(k, d, v) \<in> set (in_range a b rs) \<longleftrightarrow> (k, d, v) \<in> set rs \<and> a \<le> d \<and> d < b"
  by (auto simp: in_range_def)

lemma valid_rowsD: "valid_rows rs \<Longrightarrow> (k, d, v) \<in> set rs \<Longrightarrow> valid_date d"
  by (auto simp: valid_rows_def list_all_iff)

lemma aggregate_empty: "aggregate [] = {}"
  by (simp add: aggregate_def)

lemma in_range_empty: "b \<le> a \<Longrightarrow> in_range a b rs = []"
  by (auto simp: in_range_def filter_empty_conv)

subsection \<open>The segments\<close>

lemma segments_cases:
  "p1 \<le> p2 \<Longrightarrow> set (segments_of (p0, p1, p2, p3)) =
     (if p0 < p1 \<or> p1 < p2 \<or> p2 < p3
      then {s. s = Fine p0 p1 \<and> p0 < p1 \<or> s = Coarse p1 p2 \<and> p1 < p2 \<or> s = Fine p2 p3 \<and> p2 < p3}
      else {Fine p0 p0})"
  by (auto simp: segments_of_def Let_def split: if_splits)

context grain begin

lemma period_of_valid: "valid_date d \<Longrightarrow> period_start d trunc = Inr (period_of trunc d)"
  using total [of d] by (auto simp: period_of_def)

lemma fine_part:
  assumes "valid_rows fine" "good_cut trunc lo hi a \<or> a = lo" "good_cut trunc lo hi b \<or> b = hi" "lo \<le> a" "b \<le> hi"
  shows "fine_rows trunc fine a b = {(k, p, v) \<in> fine_rows trunc fine lo hi. (a = lo \<or> a \<le> p) \<and> p < b}"
proof -
  have "(a \<le> d \<and> d < b) = ((a = lo \<or> a \<le> period_of trunc d) \<and> period_of trunc d < b)"
    if "(k, d, v) \<in> set (in_range lo hi fine)" for k d v
  proof -
    from that have m: "(k, d, v) \<in> set fine" "lo \<le> d" "d < hi" by (auto simp: in_range_member)
    note d = valid_rowsD [OF assms(1) m(1)]
    note p = period_of_valid [OF d]
    have "d < c \<longleftrightarrow> period_of trunc d < c" if "good_cut trunc lo hi c" for c
      by (rule cut_separates [OF that d m(2,3) p])
    moreover have "d < hi \<longleftrightarrow> period_of trunc d < hi" using m(3) start [OF d p] le_less_trans by blast
    ultimately show ?thesis using assms(2,3) m(2) by (auto simp: not_less [symmetric])
  qed
  from aggregate_part [of "in_range lo hi fine" "\<lambda>d. a \<le> d \<and> d < b" "\<lambda>p. (a = lo \<or> a \<le> p) \<and> p < b" trunc, OF this] show ?thesis
    unfolding fine_rows_def in_range_part [OF assms(4,5)] by simp
qed

lemma coarse_part:
  assumes "valid_rows fine" "coarse_complete trunc fine coarse current"
    and a: "valid_date a" "period_start a trunc = Inr a" and b: "valid_date b" "period_start b trunc = Inr b" "b \<le> current"
  shows "aggregate (in_range a b coarse) = fine_rows trunc fine a b"
proof -
  let ?P = "\<lambda>d. a \<le> d \<and> d < b" and ?c = "\<lambda>(k, d, v). d < current"
  have c: "in_range a b rs = filter (\<lambda>(k, d, v). ?P d) (filter ?c rs)" for rs :: "'a view_rows"
    using b(3) unfolding in_range_def by (induction rs) auto
  have "?P d = ?P (period_of trunc d)" if "(k, d, v) \<in> set (filter ?c fine)" for k d v
  proof -
    from that have d: "valid_date d" using valid_rowsD [OF assms(1)] by auto
    from boundary [OF a d period_of_valid [OF d]] boundary [OF b(1,2) d period_of_valid [OF d]]
    show ?thesis by (simp add: not_less [symmetric])
  qed
  note part = aggregate_part [of "filter ?c fine" ?P ?P trunc, OF this]
  have "aggregate (in_range a b coarse) = {(k, p, v) \<in> aggregate (filter ?c coarse). ?P p}"
    unfolding c by (rule aggregate_filter)
  also have "\<dots> = fine_rows trunc fine a b"
    using assms(2) part unfolding fine_rows_def c coarse_complete_def by (simp only:)
  finally show ?thesis .
qed

lemma fine_rows_below: "valid_rows fine \<Longrightarrow> (k, p, v) \<in> fine_rows trunc fine lo hi \<Longrightarrow> p < hi"
  using start period_of_valid le_less_trans
  by (fastforce simp: fine_rows_def aggregate_def truncated_def in_range_member dest: valid_rowsD)

text \<open>The parts of the window, as filters of the groups of the whole window.\<close>

lemma segment_parts:
  assumes "valid_rows fine" "coarse_complete trunc fine coarse current" "lo < hi"
    and c: "p1 \<le> p2" "p2 \<le> hi" "good_cut trunc lo hi p1" "good_cut trunc lo hi p2"
    and a: "p1 < p2 \<Longrightarrow> period_start p1 trunc = Inr p1 \<and> period_start p2 trunc = Inr p2 \<and> p2 \<le> current"
  defines "F \<equiv> fine_rows trunc fine lo hi"
  shows "segment_rows trunc fine coarse (Fine lo p1) = {(k, p, v) \<in> F. p < p1}"
    and "p1 < p2 \<Longrightarrow> segment_rows trunc fine coarse (Coarse p1 p2) = {(k, p, v) \<in> F. (p1 = lo \<or> p1 \<le> p) \<and> p < p2}"
    and "segment_rows trunc fine coarse (Fine p2 hi) = {(k, p, v) \<in> F. p2 = lo \<or> p2 \<le> p}"
proof -
  note fp = fine_part [OF assms(1), of lo hi]
  have g: "valid_date p1" "lo \<le> p1" "p1 \<le> hi" "valid_date p2" "lo \<le> p2" using c assms(3) by (auto simp: good_cut_def)
  show "segment_rows trunc fine coarse (Fine lo p1) = {(k, p, v) \<in> F. p < p1}"
    unfolding segment_rows_def F_def using fp [of lo p1] c(3) g(3) by simp
  show "segment_rows trunc fine coarse (Coarse p1 p2) = {(k, p, v) \<in> F. (p1 = lo \<or> p1 \<le> p) \<and> p < p2}" if "p1 < p2"
  proof -
    from a [OF that] coarse_part [OF assms(1,2) g(1) _ g(4)] have "aggregate (in_range p1 p2 coarse) = fine_rows trunc fine p1 p2" by blast
    then show ?thesis unfolding segment_rows_def F_def using fp [of p1 p2] c g by simp
  qed
  have "{(k, p, v) \<in> F. (p2 = lo \<or> p2 \<le> p) \<and> p < hi} = {(k, p, v) \<in> F. p2 = lo \<or> p2 \<le> p}"
    unfolding F_def using fine_rows_below [OF assms(1)] by auto
  then show "segment_rows trunc fine coarse (Fine p2 hi) = {(k, p, v) \<in> F. p2 = lo \<or> p2 \<le> p}"
    unfolding segment_rows_def F_def using fp [of p2 hi] c g by simp
qed

lemma union_rows:
  assumes v: "valid_date lo" "valid_date today" "\<forall>u. upper = Some u \<longrightarrow> valid_date u"
    and c: "cut_points trunc lo upper today = Inr ps" and tomorrow: "add_days 1 today = Inr tomorrow"
    and fine: "valid_rows fine" and coarse: "coarse_complete trunc fine coarse (period_of trunc today)"
  shows "(\<Union>s\<in>set (segments_of ps). segment_rows trunc fine coarse s) = fine_rows trunc fine lo (window_end upper tomorrow)"
    and "disjoint_family_on (segment_rows trunc fine coarse) (set (segments_of ps))" and "distinct (segments_of ps)"
proof -
  let ?hi = "window_end upper tomorrow" and ?R = "segment_rows trunc fine coarse"
  obtain p0 p1 p2 p3 where ps: "ps = (p0, p1, p2, p3)" by (cases ps) auto
  note cuts = cuts [OF v c [unfolded ps] tomorrow period_of_valid [OF v(2)]]
  have seg: "set (segments_of ps) = (if lo < p1 \<or> p1 < p2 \<or> p2 < ?hi
      then {s. s = Fine lo p1 \<and> lo < p1 \<or> s = Coarse p1 p2 \<and> p1 < p2 \<or> s = Fine p2 ?hi \<and> p2 < ?hi} else {Fine lo lo})"
    using segments_cases [OF cuts(3), of lo ?hi] ps cuts(1,2) by (simp only:)
  show "distinct (segments_of ps)" using cuts(3) by (auto simp: ps segments_of_def Let_def)
  have "(\<Union>s\<in>set (segments_of ps). ?R s) = fine_rows trunc fine lo ?hi \<and> disjoint_family_on ?R (set (segments_of ps))"
  proof (cases "lo < ?hi")
    case False
    with cuts have "p1 = ?hi" "p2 = ?hi" by auto
    with False seg have "set (segments_of ps) = {Fine lo lo}" by auto
    moreover have "in_range lo ?hi fine = []" "in_range lo lo fine = []" using False by (simp_all add: in_range_empty)
    ultimately show ?thesis by (simp add: segment_rows_def fine_rows_def disjoint_family_on_def)
  next
    case True
    define F where "F = fine_rows trunc fine lo ?hi"
    have g: "lo \<le> p1" "p1 \<le> p2" "p2 \<le> ?hi" using cuts True by (auto simp: good_cut_def)
    with True seg have S: "set (segments_of ps) =
        {s. s = Fine lo p1 \<and> lo < p1 \<or> s = Coarse p1 p2 \<and> p1 < p2 \<or> s = Fine p2 ?hi \<and> p2 < ?hi}" by auto
    note R = segment_parts [OF fine coarse True cuts(3) cuts(4) [unfolded cuts(2)] cuts(5,6) [unfolded cuts(2)] cuts(7), folded F_def]
    have below: "p < ?hi" if "(k, p, v) \<in> F" for k p v using fine_rows_below [OF fine] that unfolding F_def by blast
    have "(\<Union>s\<in>set (segments_of ps). ?R s) = F"
    proof -
      have "(\<Union>s\<in>set (segments_of ps). ?R s) = (if lo < p1 then ?R (Fine lo p1) else {})
          \<union> (if p1 < p2 then ?R (Coarse p1 p2) else {}) \<union> (if p2 < ?hi then ?R (Fine p2 ?hi) else {})"
        unfolding S by auto
      also have "\<dots> = {(k, p, v) \<in> F. lo < p1 \<and> p < p1 \<or> p1 < p2 \<and> (p1 = lo \<or> p1 \<le> p) \<and> p < p2 \<or> p2 < ?hi \<and> (p2 = lo \<or> p2 \<le> p)}"
        using R g by auto
      also have "\<dots> = F"
      proof -
        have "lo < p1 \<and> p < p1 \<or> p1 < p2 \<and> (p1 = lo \<or> p1 \<le> p) \<and> p < p2 \<or> p2 < ?hi \<and> (p2 = lo \<or> p2 \<le> p)"
          if "p < ?hi" for p using that g True by (metis le_less_linear order_antisym_conv order_less_le order_trans)
        then show ?thesis using below by auto
      qed
      finally show ?thesis .
    qed
    moreover have "disjoint_family_on ?R (set (segments_of ps))"
    proof -
      have "?R (Fine lo p1) \<inter> ?R (Coarse p1 p2) = {}" if "lo < p1" "p1 < p2" using R that g by auto
      moreover have "?R (Fine lo p1) \<inter> ?R (Fine p2 ?hi) = {}" if "lo < p1" using R that g by auto
      moreover have "?R (Coarse p1 p2) \<inter> ?R (Fine p2 ?hi) = {}" if "p1 < p2" using R that g by auto
      ultimately show ?thesis unfolding S disjoint_family_on_def by (auto simp: Int_commute)
    qed
    ultimately show ?thesis unfolding F_def ..
  qed
  then show "(\<Union>s\<in>set (segments_of ps). ?R s) = fine_rows trunc fine lo ?hi" "disjoint_family_on ?R (set (segments_of ps))"
    by blast+
qed

end

subsection \<open>The properties\<close>

text \<open>
  For every grain, the start of a date's period is aligned, the next period starts at the first
  aligned date after it, and the dates with the same start are exactly the dates between the two.
\<close>

theorem period_bounds:
  assumes "trunc \<in> set grain_truncs" "valid_date d" "period_start d trunc = Inr s" "next_period_start d trunc = Inr n"
    and "valid_date x"
  shows "(period_start x trunc = Inr s \<longleftrightarrow> s \<le> x \<and> x < n) \<and> s \<le> d \<and> d < n
    \<and> is_period_aligned s trunc = Inr True \<and> is_period_aligned n trunc = Inr True"
  using grain.bounds [OF any_grain [OF assms(1)] assms(2-5)] grain.bounds [OF any_grain [OF assms(1)] assms(2-4,2)]
    grain.start [OF any_grain [OF assms(1)] assms(2,3)] grain.next [OF any_grain [OF assms(1)] assms(2,4)]
    grain.aligned [OF any_grain [OF assms(1)]] assms(3)
  by simp

theorem period_bounds_witness:
  "(period_start (Date 2024 2 29) ''half_month'' = Inr (Date 2024 2 16) \<longleftrightarrow> Date 2024 2 16 \<le> Date 2024 2 29 \<and> Date 2024 2 29 < Date 2024 3 1)
    \<and> is_period_aligned (Date 2024 2 16) ''half_month'' = Inr True"
  using period_bounds [of "''half_month''" "Date 2024 2 20" "Date 2024 2 16" "Date 2024 3 1" "Date 2024 2 29"]
  by (simp add: grain_truncs_def valid_date_def days_in_month_def leap_def next_evals grain_evals make_date_def)

text \<open>
  C27: When the lower bound does not lie in the last period of the calendar, the window is rewritten;
  no two branches return the same group, and together they return exactly the groups and sums that
  aggregating the fine-grain view over the window returns.  This holds of queries whose groups contain the
  truncated date column (without it a group comes back once per branch, see
  \<open>groups_without_the_date_column\<close>) and that sum a measure, given that the coarse view is right about the
  periods that ended before today's.
\<close>

theorem union_rows_correct:
  assumes "trunc \<in> set grain_truncs" "valid_date lo" "valid_date today" "\<forall>u. upper = Some u \<longrightarrow> valid_date u"
    and "next_period_start lo trunc = Inr n" "add_days 1 today = Inr tomorrow"
    and "valid_rows fine" "coarse_complete trunc fine coarse (period_of trunc today)"
  shows "\<exists>segs. union_segments trunc lo upper today = Inr segs \<and> distinct segs
    \<and> (\<Union>s\<in>set segs. segment_rows trunc fine coarse s) = fine_rows trunc fine lo (window_end upper tomorrow)
    \<and> disjoint_family_on (segment_rows trunc fine coarse) (set segs)"
proof -
  note g = any_grain [OF assms(1)]
  obtain ps where ps: "cut_points trunc lo upper today = Inr ps" using grain.cuts_exist [OF g assms(2-6)] ..
  then have "union_segments trunc lo upper today = Inr (segments_of ps)" by (simp add: union_segments_def)
  with grain.union_rows [OF g assms(2-4) ps assms(6-8)] show ?thesis by blast
qed

text \<open>Daily sales of two machines, monthly totals, a window from the middle of January to today in March.\<close>

definition daily :: "string view_rows" where
  "daily = [(''a'', Date 2024 1 10, 1), (''a'', Date 2024 1 20, 2), (''b'', Date 2024 2 3, 4), (''b'', Date 2024 2 28, 8), (''a'', Date 2024 3 5, 16)]"

definition monthly :: "string view_rows" where
  "monthly = [(''a'', Date 2024 1 1, 3), (''b'', Date 2024 2 1, 12)]"

lemma sales_segments:
  "union_segments ''month'' (Date 2024 1 15) None (Date 2024 3 10) =
     Inr [Fine (Date 2024 1 15) (Date 2024 2 1), Coarse (Date 2024 2 1) (Date 2024 3 1), Fine (Date 2024 3 1) (Date 2024 3 11)]"
  by (simp add: union_segments_def cut_points_def aligned_evals grain_evals next_evals make_date_def valid_date_def
      days_in_month_def next_day_def prev_day_def segments_of_def date_order min_def max_def leap_def)

lemma month_period: "1 \<le> y \<Longrightarrow> y \<le> 9999 \<Longrightarrow> 1 \<le> m \<Longrightarrow> m \<le> 12 \<Longrightarrow> period_of ''month'' (Date y m d) = Date y m 1"
  by (simp add: period_of_def grain_evals make_date_small)

lemma sales_complete: "valid_rows daily" "coarse_complete ''month'' daily monthly (Date 2024 3 1)"
  by (simp_all add: valid_rows_def daily_def valid_date_def days_in_month_def leap_def coarse_complete_def monthly_def
      aggregate_def truncated_def group_total_def date_order month_period)

theorem union_rows_correct_witness:
  "(\<Union>s\<in>{Fine (Date 2024 1 15) (Date 2024 2 1), Coarse (Date 2024 2 1) (Date 2024 3 1), Fine (Date 2024 3 1) (Date 2024 3 11)}.
     segment_rows ''month'' daily monthly s)
   = {(''a'', Date 2024 1 1, 2), (''b'', Date 2024 2 1, 12), (''a'', Date 2024 3 1, 16)}"
proof -
  have "next_period_start (Date 2024 1 15) ''month'' = Inr (Date 2024 2 1)" "add_days 1 (Date 2024 3 10) = Inr (Date 2024 3 11)"
    "''month'' \<in> set grain_truncs" "valid_date (Date 2024 1 15)" "valid_date (Date 2024 3 10)"
    by (simp_all add: next_evals grain_evals make_date_def valid_date_def days_in_month_def next_day_def grain_truncs_def)
  from union_rows_correct [OF this(3,4,5) _ this(1,2) sales_complete(1), of None monthly]
  have "(\<Union>s\<in>set [Fine (Date 2024 1 15) (Date 2024 2 1), Coarse (Date 2024 2 1) (Date 2024 3 1), Fine (Date 2024 3 1) (Date 2024 3 11)].
      segment_rows ''month'' daily monthly s) = fine_rows ''month'' daily (Date 2024 1 15) (Date 2024 3 11)"
    using sales_complete(2) unfolding sales_segments by (auto simp: month_period window_end_def)
  also have "fine_rows ''month'' daily (Date 2024 1 15) (Date 2024 3 11)
      = {(''a'', Date 2024 1 1, 2), (''b'', Date 2024 2 1, 12), (''a'', Date 2024 3 1, 16)}"
    by (simp add: fine_rows_def in_range_def daily_def truncated_def aggregate_def group_total_def date_order month_period)
  finally show ?thesis by simp
qed

subsection \<open>What the rewrite does not cover\<close>

text \<open>A lower bound in the last period of the calendar raises, where the ordinary query returns no rows.\<close>

lemma last_period_raises: "union_segments ''month'' (Date 9999 12 15) None (Date 2024 3 10) = Inl ValueError"
  by (simp add: union_segments_def cut_points_def aligned_evals grain_evals next_evals make_date_def valid_date_def
      days_in_month_def next_day_def)

text \<open>A bound given as a \<open>datetime\<close> raises too.\<close>

lemma datetime_bound_raises: "union_segments_for trunc (DatetimeBound lo, hi) today = Inl TypeError"
  by (simp add: union_segments_for_def)

text \<open>
  A branch groups by the requested dimensions alone. When the date column is not one of them, a
  group gets a row from every branch it has rows in: machine \<open>a\<close> sold 18, the rows say 2 and 16.
\<close>

definition dimension_rows :: "'k view_rows \<Rightarrow> ('k \<times> int) set" where
  "dimension_rows rs = (\<lambda>(k, d, v). (k, \<Sum>(k', d', v') \<leftarrow> filter (\<lambda>(k', d', v'). k' = k) rs. v')) ` set rs"

lemma groups_without_the_date_column:
  "dimension_rows (in_range (Date 2024 1 15) (Date 2024 3 11) daily) = {(''a'', 18), (''b'', 12)}"
  "dimension_rows (in_range (Date 2024 1 15) (Date 2024 2 1) daily) = {(''a'', 2)}"
  "dimension_rows (in_range (Date 2024 2 1) (Date 2024 3 1) monthly) = {(''b'', 12)}"
  "dimension_rows (in_range (Date 2024 3 1) (Date 2024 3 11) daily) = {(''a'', 16)}"
  by (simp_all add: dimension_rows_def in_range_def daily_def monthly_def date_order insert_commute)

end
