(* ===== verification/WindowRewrite.thy ===== *)
theory WindowRewrite
  imports UnionRows FilterMeaning
begin

section \<open>The filter of the rewritten query\<close>

text \<open>
  The rewrite takes the bounds out of the filter and puts what is left of it into every branch.
  When the conditions on the date column are at most one lower and one upper bound, each with a
  date, the bounds together with the rest accept exactly the rows that the filter accepts; what
  happens with other conditions on that column is shown after it.
\<close>

subsection \<open>Date conditions\<close>

definition date_compare :: "string \<Rightarrow> pydate \<Rightarrow> pydate \<Rightarrow> bool" where
  "date_compare op d b =
     (if op = ''gte'' then b \<le> d else if op = ''gt'' then b < d
      else if op = ''lte'' then d \<le> b else if op = ''lt'' then d < b else d = b)"

definition date_of :: "pyval \<Rightarrow> pydate option" where
  "date_of v = (case bound_value v of Inr (Some (DateBound b)) \<Rightarrow> if valid_date b then Some b else None | _ \<Rightarrow> None)"

text \<open>What a row with date \<open>d\<close> makes of the conditions: those on the column compare its date.\<close>

definition dated :: "string \<Rightarrow> pydate \<Rightarrow> (field_condition \<Rightarrow> bool option) \<Rightarrow> field_condition \<Rightarrow> bool option" where
  "dated column d v fc =
     (if target_column fc = column then map_option (date_compare (operator fc) d) (date_of (fc_value fc)) else v fc)"

definition ops_on :: "string \<Rightarrow> string set \<Rightarrow> field_condition list \<Rightarrow> field_condition list" where
  "ops_on column ops = filter (\<lambda>c. target_column c = column \<and> operator c \<in> ops)"

text \<open>The filters the rewrite is meant for.\<close>

definition simple_window :: "string \<Rightarrow> where_clause \<Rightarrow> bool" where
  "simple_window column c =
     (length (ops_on column {''gte'', ''gt''} (conditions c)) = 1
      \<and> length (ops_on column {''lte'', ''lt''} (conditions c)) \<le> 1
      \<and> list_all (\<lambda>fc. target_column fc = column \<longrightarrow>
          operator fc \<in> {''gte'', ''gt'', ''lte'', ''lt''} \<and> date_of (fc_value fc) \<noteq> None) (conditions c))"

subsection \<open>Extraction\<close>

lemma date_of_bound: "date_of v = Some b \<Longrightarrow> bound_value v = Inr (Some (DateBound b)) \<and> valid_date b"
  by (auto simp: date_of_def split: sum.splits option.splits date_bound.splits if_splits)

lemma extract_none: "ops_on column {x, y} cs = [] \<Longrightarrow> extract_bound x y column cs = Inr None"
  by (induction cs) (auto simp: ops_on_def split: if_splits)

lemma extract_one:
  "ops_on column {x, y} cs = [fc] \<Longrightarrow> date_of (fc_value fc) = Some b \<Longrightarrow>
   extract_bound x y column cs =
     (if operator fc = y then rbind (add_days 1 b) (\<lambda>d. Inr (Some (DateBound d))) else Inr (Some (DateBound b)))"
proof (induction cs)
  case (Cons c cs)
  show ?case
  proof (cases "target_column c = column \<and> operator c \<in> {x, y}")
    case True
    then have "c = fc" using Cons.prems(1) by (simp add: ops_on_def split: if_splits)
    with True date_of_bound [OF Cons.prems(2)] show ?thesis by (cases "add_days 1 b") (auto simp: day_after_def)
  next
    case False
    then show ?thesis using Cons by (auto simp: ops_on_def)
  qed
qed (simp add: ops_on_def)

lemma and3_True: "and3 xs = Some True \<longleftrightarrow> (\<forall>x \<in> set xs. x = Some True)"
  by (auto simp: and3_def split: if_splits) (metis (full_types) not_Some_eq)

lemma ops_on_set: "set (ops_on column ops cs) = {fc \<in> set cs. target_column fc = column \<and> operator fc \<in> ops}"
  by (auto simp: ops_on_def)

lemma clause_val_all:
  "clause_val v (WhereClause cs ''AND'' ns nc) = Some True \<longleftrightarrow>
     (\<forall>fc \<in> set cs. v fc = Some True) \<and> (\<forall>c \<in> set ns. clause_val v c = Some True)
     \<and> (\<forall>c \<in> set_option nc. clause_val v c = Some False)"
  unfolding clause_val_and and3_True by (auto split: option.splits)

text \<open>A moved bound compares as the condition it came from.\<close>

lemma moved_bound:
  assumes "valid_date b" "valid_date d" "add_days 1 b = Inr e"
  shows "b < d \<longleftrightarrow> e \<le> d" "d \<le> b \<longleftrightarrow> d < e"
proof -
  have "next_day b = Inr e" using assms(3) by (auto simp: rbind_eq_Inr)
  from next_day_discrete(1) [OF assms(1) this assms(2)] show "b < d \<longleftrightarrow> e \<le> d" "d \<le> b \<longleftrightarrow> d < e" by auto
qed

lemma lower_bound_meaning:
  assumes "extract_lower_date_bound c column = Inr (Some (DateBound lo))" "ops_on column {''gte'', ''gt''} (conditions c) = [fc]"
    and "date_of (fc_value fc) = Some b" "valid_date d"
  shows "date_compare (operator fc) d b \<longleftrightarrow> lo \<le> d"
proof -
  have "operator fc = ''gte'' \<or> operator fc = ''gt''"
    using arg_cong [OF assms(2), of set] unfolding ops_on_set by auto
  moreover have "valid_date b" using date_of_bound [OF assms(3)] by simp
  ultimately show ?thesis
    using assms(1) extract_one [OF assms(2,3)] moved_bound(1) [OF _ assms(4)]
    by (auto simp: extract_lower_date_bound_def date_compare_def rbind_eq_Inr split: if_splits)
qed

lemma upper_bound_meaning:
  assumes "extract_upper_date_bound c column = Inr (Some (DateBound hi))" "ops_on column {''lt'', ''lte''} (conditions c) = [fc]"
    and "date_of (fc_value fc) = Some b" "valid_date d"
  shows "date_compare (operator fc) d b \<longleftrightarrow> d < hi"
proof -
  have "operator fc = ''lt'' \<or> operator fc = ''lte''"
    using arg_cong [OF assms(2), of set] unfolding ops_on_set by auto
  moreover have "valid_date b" using date_of_bound [OF assms(3)] by simp
  ultimately show ?thesis
    using assms(1) extract_one [OF assms(2,3)] moved_bound(2) [OF _ assms(4)]
    by (auto simp: extract_upper_date_bound_def date_compare_def rbind_eq_Inr split: if_splits)
qed

lemma last_day: "valid_date b \<Longrightarrow> valid_date d \<Longrightarrow> add_days 1 b = Inl e \<Longrightarrow> d \<le> b"
proof -
  assume v: "valid_date b" "valid_date d" and e: "add_days 1 b = Inl e"
  from e have "\<not> d_day b < days_in_month (d_year b) (d_month b)" "\<not> d_month b < 12" "\<not> d_year b < 9999"
    by (auto simp: next_day_def rbind_def split: if_splits sum.splits)
  with v(1) have "d_year b = 9999" "d_month b = 12" "d_day b = 31" by (simp_all add: valid_date_def days_in_month_def)
  with v(2) days_in_month_pos(2) [of "d_year d" "d_month d"] show "d \<le> b"
    by (auto simp: valid_date_def date_order)
qed

text \<open>An upper bound that cannot be moved past the end of the calendar is left out, which changes nothing.\<close>

lemma no_upper_meaning:
  assumes "extract_upper_date_bound c column = Inl e" "ops_on column {''lt'', ''lte''} (conditions c) = [fc]"
    and "date_of (fc_value fc) = Some b" "valid_date d"
  shows "date_compare (operator fc) d b"
proof -
  have "operator fc = ''lte''" "add_days 1 b = Inl e"
    using assms(1) extract_one [OF assms(2,3)] by (auto simp: extract_upper_date_bound_def rbind_def split: if_splits sum.splits)
  with last_day [OF _ assms(4)] date_of_bound [OF assms(3)] show ?thesis by (auto simp: date_compare_def)
qed

lemma one_elem: "length xs = 1 \<Longrightarrow> \<exists>x. xs = [x]"
  by (cases xs) auto

definition bound_date :: "date_bound \<Rightarrow> pydate" where
  "bound_date b = (case b of DateBound d \<Rightarrow> d | DatetimeBound d \<Rightarrow> d)"

definition in_window :: "date_bound \<times> date_bound option \<Rightarrow> pydate \<Rightarrow> bool" where
  "in_window bounds d = (bound_date (fst bounds) \<le> d \<and> (case snd bounds of None \<Rightarrow> True | Some h \<Rightarrow> d < bound_date h))"

text \<open>The bounds hold of a date when the conditions on the column do.\<close>

lemma bounds_meaning:
  assumes s: "simple_window column c" and u: "union_bounds c column = Some bounds" and d: "valid_date d"
  shows "in_window bounds d \<longleftrightarrow> (\<forall>fc \<in> set (conditions c). target_column fc = column \<longrightarrow> dated column d v fc = Some True)"
proof -
  let ?lo = "ops_on column {''gte'', ''gt''} (conditions c)" and ?hi = "ops_on column {''lt'', ''lte''} (conditions c)"
  obtain fc where lo: "?lo = [fc]" using s one_elem unfolding simple_window_def by blast
  have dates: "\<exists>b. date_of (fc_value fc) = Some b" "operator fc \<in> {''gte'', ''gt'', ''lte'', ''lt''}"
    if "fc \<in> set (conditions c)" "target_column fc = column" for fc
    using s that by (auto simp: simple_window_def list_all_iff)
  have val: "dated column d v fc = Some True \<longleftrightarrow> date_compare (operator fc) d b"
    if "target_column fc = column" "date_of (fc_value fc) = Some b" for fc b
    using that by (simp add: dated_def)
  have all: "(\<forall>fc \<in> set (conditions c). target_column fc = column \<longrightarrow> dated column d v fc = Some True) \<longleftrightarrow>
      (\<forall>fc \<in> set ?lo. dated column d v fc = Some True) \<and> (\<forall>fc \<in> set ?hi. dated column d v fc = Some True)"
    using dates(2) unfolding ops_on_set by blast
  from lo have fc: "fc \<in> set (conditions c)" "target_column fc = column" using arg_cong [OF lo, of set] unfolding ops_on_set by auto
  obtain b where b: "date_of (fc_value fc) = Some b" using dates(1) [OF fc] ..
  from u obtain l where l: "extract_lower_date_bound c column = Inr (Some l)" "fst bounds = l"
    by (auto simp: union_bounds_def split: if_splits sum.splits option.splits)
  have "\<exists>e. l = DateBound e"
    using l(1) extract_one [OF lo b] by (auto simp: extract_lower_date_bound_def rbind_eq_Inr split: if_splits)
  then obtain e where e: "l = DateBound e" ..
  have first: "bound_date (fst bounds) \<le> d \<longleftrightarrow> (\<forall>fc \<in> set ?lo. dated column d v fc = Some True)"
    using lower_bound_meaning [OF l(1) [unfolded e] lo b d] val [OF fc(2) b] unfolding lo l(2) e by (simp add: bound_date_def)
  have "(case snd bounds of None \<Rightarrow> True | Some h \<Rightarrow> d < bound_date h) \<longleftrightarrow> (\<forall>fc \<in> set ?hi. dated column d v fc = Some True)"
  proof (cases ?hi)
    case Nil
    then have "extract_upper_date_bound c column = Inr None" by (simp add: extract_upper_date_bound_def extract_none)
    then have "snd bounds = None" using u l by (cases bounds) (auto simp: union_bounds_def split: if_splits)
    with Nil show ?thesis by simp
  next
    case (Cons hc hcs)
    moreover have "length ?hi \<le> 1" using s by (simp add: simple_window_def insert_commute)
    ultimately have hi: "?hi = [hc]" by simp
    then have hc: "hc \<in> set (conditions c)" "target_column hc = column" using arg_cong [OF hi, of set] unfolding ops_on_set by auto
    obtain h where h: "date_of (fc_value hc) = Some h" using dates(1) [OF hc] ..
    show ?thesis
    proof (cases "extract_upper_date_bound c column")
      case (Inl x)
      then have "snd bounds = None" using u l by (cases bounds) (auto simp: union_bounds_def split: if_splits)
      with no_upper_meaning [OF Inl hi h d] val [OF hc(2) h] show ?thesis unfolding hi by simp
    next
      case (Inr x)
      then have "snd bounds = x" using u l by (cases bounds) (auto simp: union_bounds_def split: if_splits)
      moreover have "\<exists>g. x = Some (DateBound g)"
        using Inr extract_one [OF hi h] by (auto simp: extract_upper_date_bound_def rbind_eq_Inr split: if_splits)
      ultimately show ?thesis
        using upper_bound_meaning [OF _ hi h d] Inr val [OF hc(2) h] unfolding hi by (auto simp: bound_date_def)
    qed
  qed
  with first show ?thesis unfolding in_window_def all by blast
qed

text \<open>
  C28: For a filter whose conditions on the date column are one lower bound and at most one upper
  bound, the bounds the rewrite extracts together with the clause it leaves for the branches
  accept a row exactly when the filter and the mandatory conditions accept it.  For other filters it does
  not: see \<open>timestamp_bound_dropped\<close> and \<open>other_conditions_dropped\<close>.
\<close>

theorem window_rewrite_exact:
  assumes "simple_window column c" "union_bounds c column = Some bounds" "valid_date d"
    and "build_extra_where c column mandatory = Inr extra"
  shows "in_window bounds d \<and> list_all (\<lambda>r. clause_val (dated column d v) r = Some True) (case extra of None \<Rightarrow> [] | Some r \<Rightarrow> [r])
    \<longleftrightarrow> clause_val (dated column d v) c = Some True \<and> list_all (\<lambda>fc. dated column d v fc = Some True) mandatory"
proof -
  let ?v = "dated column d v"
  obtain cs lop ns nc where c: "c = WhereClause cs lop ns nc" by (cases c) auto
  have lop: "lop = ''AND''" using assms(2) c by (auto simp: union_bounds_def split: if_splits)
  let ?rest = "filter (\<lambda>fc. target_column fc \<noteq> column) cs"
  have "mandatory @ ?rest = [] \<and> ns = [] \<and> nc = None \<and> extra = None \<or> extra = Some (WhereClause (mandatory @ ?rest) ''AND'' ns nc)"
    using assms(4) unfolding c lop by (auto simp: build_extra_where_def make_clause_def Let_def split: if_splits)
  then have "(\<forall>r \<in> set_option extra. clause_val ?v r = Some True) \<longleftrightarrow>
      clause_val ?v (WhereClause (mandatory @ ?rest) ''AND'' ns nc) = Some True"
    by (elim disjE) (auto simp: clause_val_all)
  also have "\<dots> \<longleftrightarrow> list_all (\<lambda>fc. ?v fc = Some True) mandatory \<and> (\<forall>fc \<in> set ?rest. ?v fc = Some True)
      \<and> (\<forall>c \<in> set ns. clause_val ?v c = Some True) \<and> (\<forall>c \<in> set_option nc. clause_val ?v c = Some False)"
    unfolding clause_val_all list_all_iff by auto
  finally have rest: "(\<forall>r \<in> set_option extra. clause_val ?v r = Some True) \<longleftrightarrow> \<dots>" .
  have conds: "(\<forall>fc \<in> set cs. ?v fc = Some True) \<longleftrightarrow> in_window bounds d \<and> (\<forall>fc \<in> set ?rest. ?v fc = Some True)"
    using bounds_meaning [OF assms(1-3), of v] unfolding c by auto
  have opt: "list_all P (case extra of None \<Rightarrow> [] | Some r \<Rightarrow> [r]) \<longleftrightarrow> (\<forall>r \<in> set_option extra. P r)" for P
    by (cases extra) simp_all
  show ?thesis unfolding opt rest c lop clause_val_all conds by blast
qed

text \<open>\<open>date >= '2024-01-15' AND date <= '2024-06-30' AND status = 'sold'\<close> for a tenant.\<close>

definition date_condition :: "string \<Rightarrow> string \<Rightarrow> field_condition" where
  "date_condition op s = example_column ''date'' op (PDate s [])"

definition sales_filter :: where_clause where
  "sales_filter = WhereClause [date_condition ''gte'' ''2024-01-15'', date_condition ''lte'' ''2024-06-30'',
     example_column ''status'' ''eq'' (PStr ''sold'')] ''AND'' [] None"

lemma sales_dates:
  "bound_value (PDate ''2024-01-15'' r) = Inr (Some (DateBound (Date 2024 1 15)))"
  "bound_value (PDate ''2024-06-30'' r) = Inr (Some (DateBound (Date 2024 6 30)))"
  by (simp_all add: bound_value_def fromisoformat_def from_parts_def digit_def is_digit_def make_date_def valid_date_def days_in_month_def)

lemma sales_bounds:
  "union_bounds sales_filter ''date'' = Some (DateBound (Date 2024 1 15), Some (DateBound (Date 2024 7 1)))"
  by (simp add: union_bounds_def sales_filter_def date_condition_def example_column_def extract_lower_date_bound_def
      extract_upper_date_bound_def sales_dates day_after_def next_day_def days_in_month_def)

theorem window_rewrite_exact_witness:
  "clause_val (dated ''date'' (Date 2024 6 30) (\<lambda>_. Some True)) sales_filter = Some True
   \<and> in_window (DateBound (Date 2024 1 15), Some (DateBound (Date 2024 7 1))) (Date 2024 6 30)"
proof -
  let ?tenant = "example_column ''tenant_id'' ''eq'' (PInt 7)" and ?status = "example_column ''status'' ''eq'' (PStr ''sold'')"
  have "simple_window ''date'' sales_filter"
    by (simp add: simple_window_def ops_on_def sales_filter_def date_condition_def example_column_def date_of_def sales_dates
        valid_date_def days_in_month_def)
  moreover have "build_extra_where sales_filter ''date'' [?tenant] = Inr (Some (WhereClause [?tenant, ?status] ''AND'' [] None))"
    by (simp add: build_extra_where_def sales_filter_def date_condition_def example_column_def make_clause_def)
  moreover have "valid_date (Date 2024 6 30)" by (simp add: valid_date_def days_in_month_def)
  moreover have w: "in_window (DateBound (Date 2024 1 15), Some (DateBound (Date 2024 7 1))) (Date 2024 6 30)"
    by (simp add: in_window_def bound_date_def date_order)
  ultimately show ?thesis
    using window_rewrite_exact [of "''date''" sales_filter _ "Date 2024 6 30" "[?tenant]" _ "\<lambda>_. Some True", OF _ sales_bounds]
    by (simp add: clause_val_all dated_def example_column_def)
qed

subsection \<open>Filters the rewrite changes\<close>

text \<open>
  An upper bound that is not a date, such as a timestamp, is neither extracted nor kept: the
  condition is taken out of the filter with the others on its column, and the window runs to today.
\<close>

lemma timestamp_bound: "bound_value (PStr ''2024-06-30T23:59:59'') = Inl ValueError"
  by (simp add: bound_value_def fromisoformat_def)

lemma timestamp_bound_dropped:
  assumes "c = WhereClause [date_condition ''gte'' ''2024-01-15'', example_column ''date'' ''lte'' (PStr ''2024-06-30T23:59:59'')] ''AND'' [] None"
  shows "union_bounds c ''date'' = Some (DateBound (Date 2024 1 15), None)" "build_extra_where c ''date'' [] = Inr None"
  by (simp_all add: assms union_bounds_def date_condition_def example_column_def extract_lower_date_bound_def sales_dates
      extract_upper_date_bound_def timestamp_bound build_extra_where_def)

text \<open>So is every other condition on the column.\<close>

lemma other_conditions_dropped:
  assumes "c = WhereClause [date_condition ''gte'' ''2024-01-15'', date_condition ''neq'' ''2024-06-30''] ''AND'' [] None"
  shows "union_bounds c ''date'' = Some (DateBound (Date 2024 1 15), None)" "build_extra_where c ''date'' [] = Inr None"
  by (simp_all add: assms union_bounds_def date_condition_def example_column_def extract_lower_date_bound_def sales_dates
      extract_upper_date_bound_def build_extra_where_def)

end
