(* ===== verification/OrderBy.thy ===== *)
theory OrderBy
  imports WhereNormalize
begin

section \<open>Sorting\<close>

text \<open>
  \<open>sql/order_by_generator.py\<close>, the conversion of the accepted \<open>order_by\<close> shapes in
  \<open>sql/graphql_order_by_generator.py\<close>, the resolution of a field to a flat column in
  \<open>sql/native_columns.py\<close>, and from \<open>db.py\<close> the parser of a string \<open>order_by\<close> and the two helpers
  that resolve any shape to SQL.

  A GraphQL input object, an \<open>OrderByItem\<close> and an enum member are instances with their
  attributes.  Whether a field is declared as text, the answer of \<open>_is_text_field\<close>, and the
  temporal cast it is declared with are functions of the field path.  The warning for an entry
  that is no direction is not modelled; the entry is left out.
\<close>

subsection \<open>Flat columns\<close>

definition resolve_native_column ::
  "string \<Rightarrow> string list \<Rightarrow> (string \<times> string) list \<Rightarrow> (string \<times> string) list \<Rightarrow> string option" where
  "resolve_native_column field native_columns mapping native_measures =
     (if field \<in> set native_columns then Some field
      else case map_of mapping field of
        Some c \<Rightarrow> Some c
      | None \<Rightarrow> map_of native_measures field)"

subsection \<open>Instructions\<close>

definition upper :: "string \<Rightarrow> string" where
  "upper s = map to_upper s"

text \<open>A direction is a member of the enumeration; Python code may also pass a bare string.\<close>

datatype sort_direction = Asc | Desc | BareDirection string

record order_by =
  ord_field :: string
  ord_direction :: sort_direction
  ord_value :: pyval
  ord_collation :: "string option"
  ord_cast :: "string option"

definition plain_order :: "string \<Rightarrow> sort_direction \<Rightarrow> order_by" where
  "plain_order f d = \<lparr>ord_field = f, ord_direction = d, ord_value = PNone, ord_collation = None, ord_cast = None\<rparr>"

definition VECTOR_DISTANCE_OPERATORS :: "string list" where
  "VECTOR_DISTANCE_OPERATORS =
     [''cosine_distance'', ''l2_distance'', ''l1_distance'', ''inner_product'', ''hamming_distance'', ''jaccard_distance'']"

definition direction_sql :: "sort_direction \<Rightarrow> composable" where
  "direction_sql d = SQL (case d of Asc \<Rightarrow> ''ASC'' | Desc \<Rightarrow> ''DESC'' | BareDirection s \<Rightarrow> upper s)"

definition collated :: "order_by \<Rightarrow> composable \<Rightarrow> composable" where
  "collated ob e = (case ord_collation ob of None \<Rightarrow> e | Some c \<Rightarrow> Composed [e, SQL '' COLLATE '', Identifier c])"

definition flat_column :: "string list \<Rightarrow> (string \<times> string) list \<Rightarrow> order_by \<Rightarrow> string option" where
  "flat_column native_columns mapping ob = resolve_native_column (ord_field ob) native_columns mapping []"

definition bit_cast :: "string \<Rightarrow> composable" where
  "bit_cast s = Composed [SQL ''::bit('', Literal (PInt (int (length s))), SQL '')'']"

definition unpack_vector_operand :: "pyval \<Rightarrow> pyval" where
  "unpack_vector_operand value =
     (let pick = (\<lambda>dense sparse.
            if dense \<noteq> PNone then dense
            else if sparse \<noteq> PNone \<and> \<not> is_dict sparse
              then PDict [(''indices'', or_none (obj_attr sparse ''indices'')), (''values'', or_none (obj_attr sparse ''values''))]
            else sparse)
      in case value of
        PDict d \<Rightarrow>
          (if \<not> in_keys ''dense'' d \<and> \<not> in_keys ''sparse'' d then value
           else pick (or_none (map_of d ''dense'')) (or_none (map_of d ''sparse'')))
      | _ \<Rightarrow>
          (if obj_attr value ''dense'' \<noteq> None \<or> obj_attr value ''sparse'' \<noteq> None
           then pick (or_none (obj_attr value ''dense'')) (or_none (obj_attr value ''sparse''))
           else value))"

text \<open>\<open>"[" + ",".join(str(v) for v in value) + "]"\<close>; a string is iterated over its characters.\<close>

definition vector_text :: "pyval \<Rightarrow> string result" where
  "vector_text v =
     (case v of
        PStr s \<Rightarrow> Inr (''['' @ join_str '','' (map (\<lambda>c. [c]) s) @ '']'')
      | _ \<Rightarrow> (case seq_items v of
          Some vs \<Rightarrow> Inr (''['' @ join_str '','' (map py_str vs) @ '']'')
        | None \<Rightarrow> Inl TypeError))"

definition build_vector_distance_sql ::
  "string \<Rightarrow> string \<Rightarrow> sort_direction \<Rightarrow> pyval \<Rightarrow> string \<Rightarrow> (string \<times> string) list \<Rightarrow> composable result" where
  "build_vector_distance_sql field op dir operand table_ref mapping =
     (let value = unpack_vector_operand operand in
      if is_dict value then Inl ValueError
      else rbind (vector_text value) (\<lambda>dense.
        let column = (case map_of mapping field of Some c \<Rightarrow> c | None \<Rightarrow> field);
            column_sql = (if table_ref = ''t'' then Composed [SQL ''t.'', Identifier column] else Composed [Identifier column]);
            infix_form = (\<lambda>sym lit cast. Composed [SQL ''('', column_sql, SQL '')'', SQL '' '', SQL sym, SQL '' '',
              Literal (PStr lit), cast, SQL '' '', direction_sql dir])
        in if op = ''cosine_distance'' then Inr (infix_form ''<=>'' dense (SQL ''::vector''))
           else if op = ''l2_distance'' then Inr (infix_form ''<->'' dense (SQL ''::vector''))
           else if op = ''l1_distance'' then Inr (infix_form ''<+>'' dense (SQL ''::vector''))
           else if op = ''inner_product'' then Inr (infix_form ''<#>'' dense (SQL ''::vector''))
           else if op = ''hamming_distance'' then Inr (infix_form ''<~>'' (py_str value) (bit_cast (py_str value)))
           else if op = ''jaccard_distance'' then
             Inr (Composed [SQL ''jaccard_distance'', SQL ''('', column_sql, SQL '', '', Literal (PStr (py_str value)),
                    bit_cast (py_str value), SQL '') '', direction_sql dir])
           else Inl ValueError))"

definition is_vector_sort :: "order_by \<Rightarrow> bool" where
  "is_vector_sort ob =
     (let parts = split_on (CHR ''.'') (ord_field ob)
      in ord_value ob \<noteq> PNone \<and> length parts = 2 \<and> parts ! 1 \<in> set VECTOR_DISTANCE_OPERATORS)"

definition json_sort_expr :: "string \<Rightarrow> bool \<Rightarrow> string \<Rightarrow> composable" where
  "json_sort_expr table_ref as_text field =
     (let path = split_on (CHR ''.'') field;
          leaf_op = SQL (if as_text then '' ->> '' else '' -> '');
          last_key = Literal (PStr (last path))
      in if butlast path \<noteq> []
         then Composed [SQL (table_ref @ '' -> ''), sql_join '' -> '' (map (\<lambda>p. Literal (PStr p)) (butlast path)), leaf_op, last_key]
         else Composed [SQL table_ref, leaf_op, last_key])"

definition instruction_sql ::
  "string \<Rightarrow> string list \<Rightarrow> (string \<times> string) list \<Rightarrow> order_by \<Rightarrow> composable result" where
  "instruction_sql table_ref native_columns mapping ob =
     (case flat_column native_columns mapping ob of
        Some c \<Rightarrow>
          Inr (Composed [collated ob (Composed [Identifier ''t'', SQL ''.'', Identifier c]), SQL '' '', direction_sql (ord_direction ob)])
      | None \<Rightarrow>
          if is_vector_sort ob then
            (let parts = split_on (CHR ''.'') (ord_field ob)
             in build_vector_distance_sql (parts ! 0) (parts ! 1) (ord_direction ob) (ord_value ob) table_ref mapping)
          else
            (let expr = json_sort_expr table_ref (ord_collation ob \<noteq> None \<or> ord_cast ob \<noteq> None) (ord_field ob)
             in case ord_cast ob of
                  Some cast \<Rightarrow>
                    Inr (Composed [SQL ''('', expr, SQL '')::'', SQL cast, SQL '' '', direction_sql (ord_direction ob)])
                | None \<Rightarrow>
                    Inr (Composed [collated ob (if ord_collation ob \<noteq> None then Composed [SQL ''('', expr, SQL '')''] else expr),
                           SQL '' '', direction_sql (ord_direction ob)])))"

definition order_set_sql ::
  "string \<Rightarrow> string list \<Rightarrow> (string \<times> string) list \<Rightarrow> order_by list \<Rightarrow> composable result" where
  "order_set_sql table_ref native_columns mapping instrs =
     (if instrs = [] then Inr (Composed [])
      else rbind (map_result (instruction_sql table_ref native_columns mapping) instrs)
             (\<lambda>cs. Inr (Composed [SQL ''ORDER BY '', sql_join '', '' cs])))"

definition uses_flat_columns :: "string list \<Rightarrow> (string \<times> string) list \<Rightarrow> order_by list \<Rightarrow> bool" where
  "uses_flat_columns native_columns mapping instrs = list_ex (\<lambda>ob. flat_column native_columns mapping ob \<noteq> None) instrs"

definition with_temporal_casts :: "declared_types option \<Rightarrow> order_by list \<Rightarrow> order_by list" where
  "with_temporal_casts source_type instrs =
     (case source_type of
        None \<Rightarrow> instrs
      | Some ty \<Rightarrow> map (\<lambda>ob.
          if ord_value ob = PNone \<and> ord_collation ob = None \<and> ord_cast ob = None
          then (case declared_temporal_cast ty (split_on (CHR ''.'') (ord_field ob)) of
                  DeclaredTimestamptz \<Rightarrow> ob\<lparr>ord_cast := Some ''timestamptz''\<rparr>
                | DeclaredDate \<Rightarrow> ob\<lparr>ord_cast := Some ''date''\<rparr>
                | NoTemporal \<Rightarrow> ob)
          else ob) instrs)"

subsection \<open>The accepted shapes\<close>

text \<open>The configured collation and the fields declared as text.\<close>

record order_env =
  default_string_collation :: "string option"
  is_text_field :: "string \<Rightarrow> bool"

definition direction_object :: "sort_direction \<Rightarrow> pyval" where
  "direction_object d =
     (case d of
        Asc \<Rightarrow> PObj ''OrderDirection.ASC'' ''<OrderDirection.ASC: 'asc'>'' [(''value'', PStr ''asc'')]
      | _ \<Rightarrow> PObj ''OrderDirection.DESC'' ''<OrderDirection.DESC: 'desc'>'' [(''value'', PStr ''desc'')])"

definition normalize_order_direction :: "pyval \<Rightarrow> sort_direction result" where
  "normalize_order_direction direction =
     (case (case obj_attr direction ''value'' of Some raw \<Rightarrow> raw | None \<Rightarrow> direction) of
        PStr s \<Rightarrow> if upper s = ''ASC'' then Inr Asc else if upper s = ''DESC'' then Inr Desc else Inl ValueError
      | _ \<Rightarrow> Inl ValueError)"

definition snake_path :: "string \<Rightarrow> string" where
  "snake_path f = join_str ''.'' (map to_snake_case (split_on (CHR ''.'') f))"

definition order_by_item_from_sequence :: "pyval \<Rightarrow> order_by result" where
  "order_by_item_from_sequence item =
     (case item of
        PStr f \<Rightarrow> Inr (plain_order (snake_path f) Asc)
      | PTuple [PStr f] \<Rightarrow> if f \<noteq> [] then Inr (plain_order (snake_path f) Asc) else Inl TypeError
      | PTuple [PStr f, d] \<Rightarrow>
          if f \<noteq> [] then rbind (normalize_order_direction d) (\<lambda>d. Inr (plain_order (snake_path f) d)) else Inl TypeError
      | _ \<Rightarrow> Inl TypeError)"

definition apply_collation_default :: "string option \<Rightarrow> string option \<Rightarrow> bool \<Rightarrow> bool \<Rightarrow> string option" where
  "apply_collation_default own global explicit is_text = (if explicit then own else if is_text then global else None)"

definition default_collation :: "order_env \<Rightarrow> string \<Rightarrow> string option" where
  "default_collation env path = apply_collation_default None (default_string_collation env) False (is_text_field env path)"

definition is_vector_order_by :: "pyval \<Rightarrow> bool" where
  "is_vector_order_by v = (obj_attr v ''__gql_fields__'' \<noteq> None \<and> obj_attr v ''cosine_distance'' \<noteq> None)"

fun first_operand :: "pyval \<Rightarrow> string list \<Rightarrow> (string \<times> pyval) option" where
  "first_operand v [] = None"
| "first_operand v (op # ops) =
     (if or_none (obj_attr v op) \<noteq> PNone then Some (op, or_none (obj_attr v op)) else first_operand v ops)"

definition vector_instructions :: "pyval \<Rightarrow> string \<Rightarrow> order_by list" where
  "vector_instructions v path =
     (case first_operand v VECTOR_DISTANCE_OPERATORS of
        None \<Rightarrow> []
      | Some (op, operand) \<Rightarrow> [(plain_order (path @ ''.'' @ op) Asc)\<lparr>ord_value := operand\<rparr>])"

definition is_vector_operand :: "string \<Rightarrow> pyval \<Rightarrow> bool" where
  "is_vector_operand op v =
     (op \<in> set VECTOR_DISTANCE_OPERATORS \<and>
      (case v of
         PList vs \<Rightarrow> True
       | PTuple vs \<Rightarrow> True
       | PDict d \<Rightarrow> (let keys = set (map fst d) in
           keys \<noteq> {} \<and> (keys \<subseteq> {''dense'', ''sparse''} \<or> keys = {''indices'', ''values''}))
       | PStr s \<Rightarrow> op \<in> {''hamming_distance'', ''jaccard_distance''} \<and> s \<noteq> [] \<and> set s \<subseteq> {CHR ''0'', CHR ''1''}
       | _ \<Rightarrow> False))"

definition dotted :: "string \<Rightarrow> string \<Rightarrow> string" where
  "dotted pre name = (if pre \<noteq> [] then pre @ ''.'' @ name else name)"

definition direction_instruction :: "order_env \<Rightarrow> string \<Rightarrow> pyval \<Rightarrow> order_by list result" where
  "direction_instruction env path v =
     rbind (normalize_order_direction v) (\<lambda>d. Inr [(plain_order path d)\<lparr>ord_collation := default_collation env path\<rparr>])"

text \<open>\<open>_collect_dict_order_by\<close>: one instruction per leaf of a nested dictionary.\<close>

function (sequential) collect_dict_order_by :: "order_env \<Rightarrow> string \<Rightarrow> pyval \<Rightarrow> order_by list result" where
  "collect_dict_order_by env pre (PDict d) =
     rbind (map_result (\<lambda>p.
         let name = to_snake_case (fst p); v = snd p; path = dotted pre name in
         if v = PNone then Inr []
         else if pre \<noteq> [] \<and> is_vector_operand name v then Inr [(plain_order path Asc)\<lparr>ord_value := v\<rparr>]
         else if is_dict v then collect_dict_order_by env path v
         else if is_vector_order_by v then Inr (vector_instructions v path)
         else if is_str v \<or> obj_attr v ''value'' \<noteq> None then direction_instruction env path v
         else Inr []) d)
       (\<lambda>iss. Inr (concat iss))"
| "collect_dict_order_by env pre v = Inr []"
  by pat_completeness auto
termination
proof (relation "measure (\<lambda>(_, _, v). size v)", goal_cases)
  case (2 env pre d p name v path)
  then have "size p \<le> size_list size d" for size :: "string \<times> pyval \<Rightarrow> nat"
    by (simp add: size_list_estimation')
  from this [of "size_prod (\<lambda>_. 0) size"] 2 show ?case by (cases p) simp
qed simp

text \<open>\<open>process_order_by\<close>: the fields of a generated input object, in the order of its declaration.\<close>

definition gql_fields :: "pyval \<Rightarrow> string list" where
  "gql_fields obj = (case obj_attr obj ''__gql_fields__'' of Some (PDict d) \<Rightarrow> map fst d | _ \<Rightarrow> [])"

lemma obj_attr_size: "obj_attr v a = Some x \<Longrightarrow> size x < size v"
proof (cases v)
  case (PObj s r attrs)
  assume "obj_attr v a = Some x"
  then have "(a, x) \<in> set attrs" using PObj map_of_SomeD by fastforce
  then have "size_prod (\<lambda>_. 0) size (a, x) \<le> size_list (size_prod (\<lambda>_. 0) size) attrs" by (simp add: size_list_estimation')
  with PObj show ?thesis by simp
qed simp_all

function process_order_by :: "order_env \<Rightarrow> string \<Rightarrow> pyval \<Rightarrow> order_by list result" where
  "process_order_by env pre obj =
     rbind (map_result (\<lambda>f.
         let path = dotted pre f in
         (case obj_attr obj f of
            None \<Rightarrow> Inl AttributeError
          | Some v \<Rightarrow>
              if v = PNone then Inr []
              else if is_vector_order_by v then Inr (vector_instructions v path)
              else if is_str v \<or> v \<in> {direction_object Asc, direction_object Desc} then direction_instruction env path v
              else if obj_attr v ''__gql_fields__'' \<noteq> None then process_order_by env path v
              else Inr [])) (gql_fields obj))
       (\<lambda>iss. Inr (concat iss))"
  by pat_completeness auto
termination
  by (relation "measure (\<lambda>(_, _, v). size v)") (auto dest: obj_attr_size)

declare process_order_by.simps [simp del]

text \<open>An \<open>OrderByItem\<close>.\<close>

definition has_direction :: "pyval \<Rightarrow> bool" where
  "has_direction v = (obj_attr v ''field'' \<noteq> None \<and> obj_attr v ''direction'' \<noteq> None)"

definition item_instruction :: "order_env \<Rightarrow> pyval \<Rightarrow> order_by list result" where
  "item_instruction env v =
     rbind (normalize_order_direction (or_none (obj_attr v ''direction''))) (\<lambda>d.
       let f = py_str (or_none (obj_attr v ''field''));
           own = (case obj_attr v ''collation'' of Some (PStr c) \<Rightarrow> Some c | _ \<Rightarrow> None)
       in Inr [(plain_order f d)\<lparr>ord_collation :=
            apply_collation_default own (default_string_collation env) (obj_attr v ''collation'' \<noteq> None) (is_text_field env f)\<rparr>])"

definition list_item_instructions :: "order_env \<Rightarrow> pyval \<Rightarrow> order_by list result" where
  "list_item_instructions env item =
     (if has_direction item then item_instruction env item
      else if is_dict item then collect_dict_order_by env [] item
      else if is_tuple item \<or> is_str item then
        rbind (order_by_item_from_sequence item)
          (\<lambda>ob. Inr [(plain_order (ord_field ob) (ord_direction ob))\<lparr>ord_collation := default_collation env (ord_field ob)\<rparr>])
      else if item \<noteq> PNone then Inl TypeError
      else Inr [])"

definition convert_order_by_input :: "order_env \<Rightarrow> pyval \<Rightarrow> order_by list option result" where
  "convert_order_by_input env v =
     (let some = (\<lambda>r. rbind r (\<lambda>obs. Inr (if obs = [] then None else Some obs))) in
      if v = PNone then Inr None
      else if has_direction v then some (item_instruction env v)
      else case v of
        PList items \<Rightarrow> some (rbind (map_result (list_item_instructions env) items) (\<lambda>iss. Inr (concat iss)))
      | PDict d \<Rightarrow> some (collect_dict_order_by env [] v)
      | _ \<Rightarrow> if obj_attr v ''__gql_fields__'' \<noteq> None then some (process_order_by env [] v) else Inr None)"

subsection \<open>From an argument to SQL\<close>

text \<open>An \<open>order_by\<close> argument: a ready \<open>OrderBySet\<close>, or any other value.\<close>

datatype order_arg = OrderSet "order_by list" | OrderValue pyval

text \<open>A generated input has a method \<open>_to_sql_order_by\<close>; an \<open>OrderByItem\<close> alone has none.\<close>

definition tuple_as_list :: "pyval \<Rightarrow> pyval" where
  "tuple_as_list v =
     (case v of
        PTuple vs \<Rightarrow> (if length vs \<le> 2 \<and> vs \<noteq> [] \<and> is_str (hd vs) then PList [v] else PList vs)
      | _ \<Rightarrow> v)"

definition resolve_order_by_set ::
  "order_env \<Rightarrow> declared_types option \<Rightarrow> order_arg \<Rightarrow> order_by list option result" where
  "resolve_order_by_set env source_type arg =
     (case arg of
        OrderSet obs \<Rightarrow> Inr (Some (with_temporal_casts source_type obs))
      | OrderValue v \<Rightarrow>
          if \<not> truthy v then Inr None
          else
            let w = tuple_as_list v in
            rbind
              (if obj_attr w ''_to_sql_order_by'' \<noteq> None \<or> is_dict w \<or> is_list w then convert_order_by_input env w
               else if is_str w then Inr None
               else Inl TypeError)
              (\<lambda>r. Inr (map_option (with_temporal_casts source_type) r)))"

definition build_order_by_sql ::
  "order_env \<Rightarrow> declared_types option \<Rightarrow> order_arg \<Rightarrow> string \<Rightarrow> string list \<Rightarrow> (string \<times> string) list \<Rightarrow> bool
   \<Rightarrow> (composable option \<times> bool) result" where
  "build_order_by_sql env source_type arg table_ref native_columns mapping flat_view =
     rbind (resolve_order_by_set env source_type arg) (\<lambda>r.
       case r of
         None \<Rightarrow> Inr (None, False)
       | Some obs \<Rightarrow>
           let native = native_columns @ (if flat_view then filter (\<lambda>f. CHR ''.'' \<notin> set f) (map ord_field obs) else [])
           in rbind (order_set_sql table_ref native mapping obs)
                (\<lambda>c. Inr (Some c, uses_flat_columns native mapping obs)))"

subsection \<open>A string \<open>order_by\<close>\<close>

text \<open>
  The regular expression of one sort key, read from left to right: a name is a plain identifier,
  folded to lower case, or a quoted one in which \<open>""\<close> stands for a quote; up to three names with
  dots between; an optional direction; an optional position of nulls; a comma or the end.
\<close>

definition name_start :: "char \<Rightarrow> bool" where
  "name_start c = (is_upper c \<or> is_lower c \<or> c = CHR ''_'')"

definition name_char :: "char \<Rightarrow> bool" where
  "name_char c = (name_start c \<or> is_digit c \<or> c = CHR ''$'')"

fun quoted_name :: "string \<Rightarrow> (string \<times> string) option" where
  "quoted_name [] = None"
| "quoted_name (c # s) =
     (if c = CHR 0x22 then
        (case s of
           d # s' \<Rightarrow> if d = CHR 0x22 then map_option (apfst (Cons (CHR 0x22))) (quoted_name s') else Some ([], s)
         | [] \<Rightarrow> Some ([], s))
      else if c = CHR 0x00 then None
      else map_option (apfst (Cons c)) (quoted_name s))"

definition order_name :: "string \<Rightarrow> (string \<times> string) option" where
  "order_name s =
     (case s of
        [] \<Rightarrow> None
      | c # s' \<Rightarrow>
          if name_start c then Some (lower (takeWhile name_char s), dropWhile name_char s)
          else if c = CHR 0x22 then (case quoted_name s' of Some (n, r) \<Rightarrow> if n \<noteq> [] then Some (n, r) else None | None \<Rightarrow> None)
          else None)"

definition skip_space :: "string \<Rightarrow> string" where
  "skip_space s = dropWhile is_space s"

fun more_names :: "nat \<Rightarrow> string \<Rightarrow> string list \<times> string" where
  "more_names 0 s = ([], s)"
| "more_names (Suc n) s =
     (case skip_space s of
        c # s' \<Rightarrow>
          (if c = CHR ''.'' then
             (case order_name (skip_space s') of
                Some (nm, r) \<Rightarrow> apfst (Cons nm) (more_names n r)
              | None \<Rightarrow> ([], s))
           else ([], s))
      | [] \<Rightarrow> ([], s))"

text \<open>A keyword after white space: its upper-case text and the rest.\<close>

definition keyword :: "string list \<Rightarrow> string \<Rightarrow> (string \<times> string) option" where
  "keyword ks s =
     (let t = skip_space s; w = takeWhile (\<lambda>c. name_start c \<or> is_digit c) t in
      if length t < length s \<and> upper w \<in> set ks then Some (upper w, drop (length w) t) else None)"

definition order_key :: "string \<Rightarrow> ((string list \<times> string option \<times> string option) \<times> string) option" where
  "order_key s =
     (case order_name (skip_space s) of
        None \<Rightarrow> None
      | Some (nm, r) \<Rightarrow>
          let (nms, r1) = more_names 2 r;
              (dir, r2) = (case keyword [''ASC'', ''DESC''] r1 of Some (d, r') \<Rightarrow> (Some d, r') | None \<Rightarrow> (None, r1));
              (nulls, r3) = (case keyword [''NULLS''] r2 of
                 Some (_, r') \<Rightarrow> (case keyword [''FIRST'', ''LAST''] r' of Some (n, r'') \<Rightarrow> (Some n, r'') | None \<Rightarrow> (None, r2))
               | None \<Rightarrow> (None, r2))
          in Some ((nm # nms, dir, nulls), skip_space r3))"

definition key_sql :: "string list \<times> string option \<times> string option \<Rightarrow> composable" where
  "key_sql k =
     (case k of (names, dir, nulls) \<Rightarrow>
        Composed (intersperse_sql (SQL ''.'') (map Identifier names)
          @ (case dir of Some d \<Rightarrow> [SQL ('' '' @ d)] | None \<Rightarrow> [])
          @ (case nulls of Some n \<Rightarrow> [SQL ('' NULLS '' @ n)] | None \<Rightarrow> [])))"

text \<open>The loop over the keys; each key consumes at least one character.\<close>

fun order_keys_of :: "nat \<Rightarrow> string \<Rightarrow> (string list \<times> string option \<times> string option) list result" where
  "order_keys_of 0 s = Inl ValueError"
| "order_keys_of (Suc n) s =
     (case order_key s of
        None \<Rightarrow> Inl ValueError
      | Some (k, []) \<Rightarrow> Inr [k]
      | Some (k, c # r) \<Rightarrow> if c = CHR '','' then rbind (order_keys_of n r) (\<lambda>ks. Inr (k # ks)) else Inl ValueError)"

definition order_by_string_sql :: "string \<Rightarrow> composable result" where
  "order_by_string_sql s =
     rbind (order_keys_of (Suc (length s)) s)
       (\<lambda>ks. Inr (Composed [SQL ''ORDER BY '', sql_join '', '' (map key_sql ks)]))"

end
