(* ===== verification/FindQuery.thy ===== *)
theory FindQuery
  imports OrderBy QueryWhere
begin

section \<open>The SELECT of a repository query\<close>

text \<open>
  \<open>_build_find_query\<close> of \<open>db.py\<close> with its helpers: the expressions for a field inside the JSONB
  document and for a flat column, the nested \<open>json_build_object\<close> of an aggregated query, the
  aggregation expressions, and the statement composed of SELECT, WHERE, GROUP BY, ORDER BY, LIMIT
  and OFFSET; and the derivation of an aggregation from the selected fields.
\<close>

subsection \<open>Field expressions\<close>

definition qualified_identifier :: "string \<Rightarrow> composable" where
  "qualified_identifier name =
     (if CHR ''.'' \<in> set name
      then Composed [Identifier (takeWhile (\<lambda>c. c \<noteq> CHR ''.'') name), SQL ''.'',
                     Identifier (tl (dropWhile (\<lambda>c. c \<noteq> CHR ''.'') name))]
      else Identifier name)"

definition build_jsonb_field_expr :: "string \<Rightarrow> string \<Rightarrow> composable" where
  "build_jsonb_field_expr fp jsonb_ref =
     (let parts = split_on (CHR ''.'') fp in
      Composed [foldl (\<lambda>e p. Composed [e, SQL ''->'', Literal (PStr p)]) (Identifier jsonb_ref) (butlast parts),
                SQL ''->>'', Literal (PStr (last parts))])"

definition build_non_jsonb_field_expr :: "string \<Rightarrow> string \<Rightarrow> composable" where
  "build_non_jsonb_field_expr fp table_alias = Composed [Identifier table_alias, SQL ''.'', Identifier fp]"

subsection \<open>The nested JSON object\<close>

datatype json_node = Leaf composable | Branch "(string \<times> json_node) list"

definition sub_entries :: "string \<Rightarrow> (string \<times> json_node) list \<Rightarrow> (string \<times> json_node) list" where
  "sub_entries k node = (case map_of node k of Some (Branch b) \<Rightarrow> b | _ \<Rightarrow> [])"

fun put_entry :: "string list \<Rightarrow> composable \<Rightarrow> (string \<times> json_node) list \<Rightarrow> (string \<times> json_node) list" where
  "put_entry [] e node = node"
| "put_entry [k] e node = AList.update k (Leaf e) node"
| "put_entry (k # ks) e node = AList.update k (Branch (put_entry ks e (sub_entries k node))) node"

definition entry_tree :: "(string \<times> composable) list \<Rightarrow> (string \<times> json_node) list" where
  "entry_tree entries = foldl (\<lambda>node p. put_entry (split_on (CHR ''.'') (fst p)) (snd p) node) [] entries"

function render_node :: "json_node \<Rightarrow> composable" where
  "render_node (Leaf e) = e"
| "render_node (Branch node) =
     Composed [SQL ''json_build_object('',
       sql_join '''' (tl (concat (map (\<lambda>p. [SQL '', '', Literal (PStr (fst p)), SQL '', '', render_node (snd p)]) node))),
       SQL '')'']"
  by pat_completeness auto
termination
proof (relation "measure size", goal_cases)
  case (2 node p)
  then have "size p \<le> size_list size node" for size :: "string \<times> json_node \<Rightarrow> nat"
    by (simp add: size_list_estimation')
  from this [of "size_prod (\<lambda>_. 0) size"] show ?case by (cases p) simp
qed simp

definition build_nested_json_object :: "(string \<times> composable) list \<Rightarrow> composable" where
  "build_nested_json_object entries = render_node (Branch (entry_tree entries))"

subsection \<open>Aggregations\<close>

definition allowed_aggregation_funcs :: "string list" where
  "allowed_aggregation_funcs =
     [''SUM'', ''AVG'', ''COUNT'', ''MIN'', ''MAX'', ''ARRAY_AGG'', ''STRING_AGG'', ''BOOL_AND'', ''BOOL_OR'', ''JSON_AGG'', ''JSONB_AGG'']"

definition numeric_aggregation_funcs :: "string list" where
  "numeric_aggregation_funcs = [''SUM'', ''AVG'']"

text \<open>\<open>^(\w+)\((.+)\)$\<close> on the stripped text; a dot of a regular expression is no newline.\<close>

definition parse_aggregation_expr :: "string \<Rightarrow> (string \<times> string) result" where
  "parse_aggregation_expr expr =
     (let t = strip expr;
          w = takeWhile (\<lambda>c. name_start c \<or> is_digit c) t;
          r = drop (length w) t;
          body = butlast (tl r)
      in if w = [] \<or> length r < 3 \<or> hd r \<noteq> CHR ''('' \<or> last r \<noteq> CHR '')'' \<or> CHR 0x0A \<in> set body then Inl ValueError
         else if upper w \<notin> set allowed_aggregation_funcs then Inl ValueError
         else Inr (upper w, strip body))"

text \<open>What an aggregated query asks for.\<close>

record grouping =
  group_by :: "string list"
  aggregations :: "(string \<times> string) list"
  native_dimensions :: "string list"
  native_measures :: "(string \<times> string) list"
  dimension_mapping :: "(string \<times> string) list"

definition native_column :: "grouping \<Rightarrow> string \<Rightarrow> string option" where
  "native_column g fp = resolve_native_column fp (native_dimensions g) (dimension_mapping g) (native_measures g)"

definition build_field :: "grouping \<Rightarrow> string option \<Rightarrow> string \<Rightarrow> composable" where
  "build_field g jsonb_column fp =
     (case native_column g fp of
        Some c \<Rightarrow> build_non_jsonb_field_expr c ''t''
      | None \<Rightarrow>
          (case jsonb_column of
             Some col \<Rightarrow> build_jsonb_field_expr fp (if col = [] then ''data'' else col)
           | None \<Rightarrow> build_non_jsonb_field_expr fp ''t''))"

definition aggregate_call :: "string \<Rightarrow> bool \<Rightarrow> composable \<Rightarrow> composable" where
  "aggregate_call func as_number e =
     (if as_number then Composed [SQL func, SQL ''(('', e, SQL '')::'', SQL ''numeric'', SQL '')'']
      else Composed [SQL func, SQL ''('', e, SQL '')''])"

definition aggregation_entry :: "grouping \<Rightarrow> string option \<Rightarrow> string \<times> string \<Rightarrow> (string \<times> composable) result" where
  "aggregation_entry g jsonb_column a =
     rbind (parse_aggregation_expr (snd a)) (\<lambda>(func, field).
       Inr (fst a,
         if field = ''*'' then Composed [SQL func, SQL ''(*)'']
         else aggregate_call func
           (jsonb_column \<noteq> None \<and> func \<in> set numeric_aggregation_funcs \<and> native_column g field = None)
           (build_field g jsonb_column field)))"

definition grouped_entries :: "grouping \<Rightarrow> string option \<Rightarrow> (string \<times> composable) list result" where
  "grouped_entries g jsonb_column =
     rbind (map_result (aggregation_entry g jsonb_column) (aggregations g)) (\<lambda>aggs.
       Inr (map (\<lambda>fp. (fp, build_field g jsonb_column fp)) (group_by g) @ aggs))"

subsection \<open>The statement\<close>

text \<open>\<open>_row_json\<close>, given the columns that the registered type reads as lists of floats.\<close>

definition row_json :: "string list \<Rightarrow> composable" where
  "row_json float_columns =
     (if float_columns = [] then SQL ''row_to_json(t)''
      else Composed [SQL ''(to_jsonb(t) || jsonb_build_object('',
        sql_join '', '' (map (\<lambda>c. let col = Literal (PStr c) in
          Composed [col, SQL '', CASE WHEN left(to_jsonb(t) ->> '', col, SQL '', 1) = '[' AND jsonb_typeof(to_jsonb(t) -> '', col,
            SQL '') = 'string' THEN (to_jsonb(t) ->> '', col, SQL '')::jsonb ELSE to_jsonb(t) -> '', col, SQL '' END'']) float_columns),
        SQL ''))''])"

definition select_part :: "grouping \<Rightarrow> string option \<Rightarrow> string \<Rightarrow> string list \<Rightarrow> bool \<Rightarrow> (string \<times> composable) list \<Rightarrow> composable list" where
  "select_part g jsonb_column view float_columns order_alias entries =
     (let table = qualified_identifier view in
      if group_by g \<noteq> [] then
        [SQL ''SELECT '', build_nested_json_object entries, SQL ''::text FROM '', table]
        @ (if jsonb_column \<noteq> None \<and> native_dimensions g = [] \<and> native_measures g = [] \<and> dimension_mapping g = []
           then [] else [SQL '' AS t''])
      else case jsonb_column of
        None \<Rightarrow> [SQL ''SELECT '', row_json float_columns, SQL ''::text FROM '', table, SQL '' AS t'']
      | Some col \<Rightarrow>
          [SQL ''SELECT '', Identifier (if col = [] then ''data'' else col), SQL ''::text FROM '', table]
          @ (if order_alias then [SQL '' AS t''] else []))"

definition group_part :: "grouping \<Rightarrow> string option \<Rightarrow> composable list" where
  "group_part g jsonb_column =
     (if group_by g = [] then [] else [SQL '' GROUP BY '', sql_join '', '' (map (build_field g jsonb_column) (group_by g))])"

definition order_part :: "order_arg option \<Rightarrow> composable option \<Rightarrow> composable list result" where
  "order_part arg order_sql =
     (case order_sql of
        Some c \<Rightarrow> Inr [SQL '' '', c]
      | None \<Rightarrow>
          (case arg of
             Some (OrderValue (PStr s)) \<Rightarrow> rbind (order_by_string_sql s) (\<lambda>c. Inr [SQL '' '', c])
           | _ \<Rightarrow> Inr []))"

definition limit_part :: "string \<Rightarrow> pyval \<Rightarrow> composable list" where
  "limit_part word v = (if v = PNone then [] else [SQL word, Literal v])"

text \<open>
  The keyword arguments, among them the mandatory conditions that a caller inside the repository
  has already made (\<open>_mandatory_parts\<close>, \<open>_mandatory_params\<close>), and what the registries say of the view.
\<close>

record find_request =
  fq_query :: query_request
  fq_mandatory :: "composable list \<times> pyval list"
  fq_jsonb_column :: "string option"
  fq_grouping :: grouping
  fq_mapping :: "(string \<times> string) list option"
  fq_order_by :: "order_arg option"
  fq_limit :: pyval
  fq_offset :: pyval

record find_env =
  fe_fuel :: nat
  fe_norm :: norm_env
  fe_where :: where_env
  fe_type :: "declared_types option"
  fe_order :: order_env
  fe_auth_filters :: "(string \<times> pydict) list option"
  fe_field :: "string option"
  fe_columns :: "string list option"
  fe_float_columns :: "string list"

definition effective_grouping :: "find_env \<Rightarrow> find_request \<Rightarrow> grouping" where
  "effective_grouping fe rq =
     (fq_grouping rq)\<lparr>dimension_mapping :=
        (case fq_mapping rq of Some m \<Rightarrow> m | None \<Rightarrow> view_column_mapping (fe_norm fe) (rq_view (fq_query rq)))\<rparr>"

definition find_where :: "find_env \<Rightarrow> find_request \<Rightarrow> composable list \<times> pyval list \<Rightarrow> (composable list \<times> pyval list) result" where
  "find_where fe rq mandatory =
     build_where_clause (fe_fuel fe) (fe_norm fe) (fe_where fe) (fe_type fe) (rq_view (fq_query rq)) mandatory
       (fe_columns fe) (rq_where (fq_query rq)) (rq_kwargs (fq_query rq))"

text \<open>The composition of the statement, and before it the mandatory filters.\<close>

definition compose_find :: "find_env \<Rightarrow> find_request \<Rightarrow> composable list \<times> pyval list \<Rightarrow> (composable \<times> pyval list) result" where
  "compose_find fe rq mandatory =
     (let view = rq_view (fq_query rq); g = effective_grouping fe rq; col = fq_jsonb_column rq in
      if aggregations g \<noteq> [] \<and> group_by g = [] then Inl ValueError
      else
      rbind (find_where fe rq mandatory) (\<lambda>(parts, params).
      rbind (case fq_order_by rq of
               None \<Rightarrow> Inr (None, False)
             | Some arg \<Rightarrow>
                 build_order_by_sql (fe_order fe) (fe_type fe) arg (case col of Some c \<Rightarrow> c | None \<Rightarrow> ''t'')
                   (native_dimensions g) (dimension_mapping g) (col = None)) (\<lambda>(order_sql, order_alias).
      rbind (if group_by g \<noteq> [] then grouped_entries g col else Inr []) (\<lambda>entries.
      rbind (order_part (fq_order_by rq) order_sql) (\<lambda>order.
        Inr (sql_join '''' (select_part g col view (fe_float_columns fe) order_alias entries
               @ (if parts = [] then [] else [SQL '' WHERE '', sql_join '' AND '' parts])
               @ group_part g col @ order
               @ limit_part '' LIMIT '' (fq_limit rq) @ limit_part '' OFFSET '' (fq_offset rq)), params))))))"

definition build_find_query :: "find_env \<Rightarrow> find_request \<Rightarrow> (composable \<times> pyval list) result" where
  "build_find_query fe rq =
     rbind (consume_mandatory_filters (rq_mandatory (fq_query rq)) (fe_auth_filters fe) (fe_field fe)) (\<lambda>filters.
     rbind (case filters of Some fs \<Rightarrow> make_mandatory_conditions fs | None \<Rightarrow> Inr (fq_mandatory rq))
       (compose_find fe rq))"

definition build_find_one_query :: "find_env \<Rightarrow> find_request \<Rightarrow> (composable \<times> pyval list) result" where
  "build_find_one_query fe rq = build_find_query fe (rq\<lparr>fq_limit := PInt 1\<rparr>)"

subsection \<open>Automatic aggregation\<close>

text \<open>
  \<open>_derive_auto_aggregation\<close>: the selected field paths and the metadata of the view.  The native
  dimensions are a Python set; their order, which the code leaves open, is an argument.
\<close>

record aggregation_meta =
  am_measures :: "(string \<times> string) list"
  am_dimensions :: string
  am_native_dimensions :: "string list"
  am_skip_when :: "string list"

fun derive_steps :: "aggregation_meta \<Rightarrow> string list list \<Rightarrow> string list \<Rightarrow> (string \<times> string) list
  \<Rightarrow> string list \<times> (string \<times> string) list" where
  "derive_steps am [] gb aggs = (gb, aggs)"
| "derive_steps am (fp # fps) gb aggs =
     (let dot = join_str ''.'' fp;
          call = (\<lambda>func path. func @ ''('' @ path @ '')'')
      in if length fp = 1 \<and> hd fp \<in> set (am_native_dimensions am) then derive_steps am fps gb aggs
         else if hd fp = am_dimensions am then derive_steps am fps (gb @ [dot]) aggs
         else case map_of (am_measures am) dot of
           Some func \<Rightarrow> derive_steps am fps gb (AList.update dot (call func dot) aggs)
         | None \<Rightarrow>
             derive_steps am fps gb
               (foldl (\<lambda>a (path, func). if startswith path (dot @ ''.'') then AList.update path (call func path) a else a)
                  aggs (am_measures am)))"

definition derive_auto_aggregation ::
  "aggregation_meta \<Rightarrow> string list list \<Rightarrow> (string list \<times> (string \<times> string) list) option" where
  "derive_auto_aggregation am fps =
     (if list_ex (\<lambda>fp. length fp = 1 \<and> hd fp \<in> set (am_skip_when am)) fps then None
      else
        let (gb, aggs) = derive_steps am fps (am_native_dimensions am) []
        in if gb = [] then None else Some (gb, aggs))"

end
