(* ===== verification/UnionQuery.thy ===== *)
theory UnionQuery
  imports FindQuery PartialPeriod
begin

section \<open>The UNION ALL of a partial-period query\<close>

text \<open>
  \<open>_build_partial_period_union_query\<close> of \<open>db.py\<close> with its branch builders, and the dispatch of
  \<open>find\<close> between it and the ordinary statement.  The partition of the window into segments is in
  \<open>PartialPeriod\<close>; here a segment becomes a SELECT on the fine-grain or the coarse view, and the
  branches are joined, sorted on projected keys, and wrapped.
\<close>

subsection \<open>Dates and truncation\<close>

definition digit_char :: "nat \<Rightarrow> char" where
  "digit_char n = char_of (48 + n mod 10)"

definition two_digits :: "nat \<Rightarrow> string" where
  "two_digits n = [digit_char (n div 10), digit_char n]"

definition isoformat :: "pydate \<Rightarrow> string" where
  "isoformat d =
     two_digits (d_year d div 100) @ two_digits (d_year d mod 100) @ ''-'' @ two_digits (d_month d) @ ''-'' @ two_digits (d_day d)"

definition date_literal :: "pydate \<Rightarrow> composable" where
  "date_literal d =
     Literal (PDate (isoformat d)
       (''datetime.date('' @ nat_digits (d_year d) @ '', '' @ nat_digits (d_month d) @ '', '' @ nat_digits (d_day d) @ '')''))"

definition t_column :: "string \<Rightarrow> composable" where
  "t_column c = Composed [SQL ''t.'', Identifier c]"

definition build_trunc_expr :: "string \<Rightarrow> string \<Rightarrow> composable result" where
  "build_trunc_expr trunc c =
     (if trunc \<in> {''day'', ''week'', ''month'', ''quarter'', ''year''} then
        Inr (Composed [SQL ''date_trunc('', Literal (PStr trunc), SQL '', t.'', Identifier c, SQL '')::date''])
      else if trunc = ''semester'' then
        Inr (Composed [SQL ''MAKE_DATE(EXTRACT(YEAR FROM t.'', Identifier c, SQL '')::int, CASE WHEN EXTRACT(MONTH FROM t.'', Identifier c,
          SQL '') <= 6 THEN 1 ELSE 7 END, 1)''])
      else if trunc = ''half_month'' then
        Inr (Composed [SQL ''CASE WHEN EXTRACT(DAY FROM t.'', Identifier c, SQL '') <= 15 THEN date_trunc('month', t.'', Identifier c,
          SQL '')::date ELSE date_trunc('month', t.'', Identifier c, SQL '')::date + 15 END''])
      else Inl ValueError)"

subsection \<open>A branch\<close>

text \<open>What all branches share: the grouping, the JSONB column, the rest of the filter, the sort keys.\<close>

record branch_env =
  br_column :: string
  br_grouping :: grouping
  br_jsonb :: string
  br_extra :: "composable option"
  br_keys :: "string list"

text \<open>The \<open>build_field\<close> of a branch; the fine-grain one, which has a granularity, truncates its date column.\<close>

definition branch_field :: "branch_env \<Rightarrow> string option \<Rightarrow> string \<Rightarrow> composable result" where
  "branch_field be trunc fp =
     (if trunc \<noteq> None \<and> fp = br_column be then build_trunc_expr (the trunc) (br_column be)
      else Inr (case native_column (br_grouping be) fp of
          Some c \<Rightarrow> build_non_jsonb_field_expr c ''t''
        | None \<Rightarrow> build_jsonb_field_expr fp (br_jsonb be)))"

definition branch_aggregation :: "branch_env \<Rightarrow> string option \<Rightarrow> string \<times> string \<Rightarrow> (string \<times> composable) result" where
  "branch_aggregation be trunc a =
     rbind (parse_aggregation_expr (snd a)) (\<lambda>(func, field).
     rbind (if field = ''*'' then Inr (SQL ''*'') else branch_field be trunc field) (\<lambda>e.
       Inr (fst a,
         aggregate_call func (func \<in> set numeric_aggregation_funcs \<and> native_column (br_grouping be) field = None) e)))"

definition branch_groups :: "branch_env \<Rightarrow> string option \<Rightarrow> composable list result" where
  "branch_groups be trunc = map_result (branch_field be trunc) (group_by (br_grouping be))"

definition branch_entries :: "branch_env \<Rightarrow> string option \<Rightarrow> (string \<times> composable) list result" where
  "branch_entries be trunc =
     rbind (branch_groups be trunc) (\<lambda>groups.
     rbind (map_result (branch_aggregation be trunc) (aggregations (br_grouping be))) (\<lambda>aggs.
       Inr (zip (group_by (br_grouping be)) groups @ aggs)))"

text \<open>\<open>dict(entries)\<close> keeps the last entry of a key; a key that is no entry raises.\<close>

definition branch_sort_exprs :: "(string \<times> composable) list \<Rightarrow> string list \<Rightarrow> composable list result" where
  "branch_sort_exprs entries keys =
     map_result (\<lambda>k. case map_of (rev entries) k of None \<Rightarrow> Inl KeyError | Some e \<Rightarrow> Inr e) keys"

definition branch_where :: "branch_env \<Rightarrow> pydate \<times> pydate \<Rightarrow> composable list" where
  "branch_where be bounds =
     [Composed [t_column (br_column be), SQL '' >= '', date_literal (fst bounds)],
      Composed [t_column (br_column be), SQL '' < '', date_literal (snd bounds)]]
     @ (case br_extra be of None \<Rightarrow> [] | Some e \<Rightarrow> [e])"

definition build_branch :: "branch_env \<Rightarrow> string \<Rightarrow> string option \<Rightarrow> pydate \<times> pydate \<Rightarrow> composable result" where
  "build_branch be view trunc bounds =
     rbind (branch_groups be trunc) (\<lambda>groups.
     rbind (branch_entries be trunc) (\<lambda>entries.
     rbind (branch_sort_exprs entries (br_keys be)) (\<lambda>sorts.
       Inr (Composed
         ([SQL ''SELECT '', build_nested_json_object entries, SQL ''::text'']
          @ concat (map (\<lambda>e. [SQL '', '', e]) sorts)
          @ [SQL '' FROM '', qualified_identifier view, SQL '' AS t WHERE '', sql_join '' AND '' (branch_where be bounds)]
          @ (if groups = [] then [] else [SQL '' GROUP BY '', sql_join '', '' groups]))))))"

definition build_fine_grain_branch :: "branch_env \<Rightarrow> string \<Rightarrow> string \<Rightarrow> pydate \<times> pydate \<Rightarrow> composable result" where
  "build_fine_grain_branch be view trunc bounds = build_branch be view (Some trunc) bounds"

definition build_coarse_branch :: "branch_env \<Rightarrow> string \<Rightarrow> pydate \<times> pydate \<Rightarrow> composable result" where
  "build_coarse_branch be view bounds = build_branch be view None bounds"

subsection \<open>Sort keys\<close>

definition sort_column :: "nat \<Rightarrow> string" where
  "sort_column i = ''s'' @ nat_digits i"

fun position :: "string \<Rightarrow> string list \<Rightarrow> nat" where
  "position k [] = 0"
| "position k (x # xs) = (if x = k then 0 else Suc (position k xs))"

definition union_order_term :: "string list \<Rightarrow> order_by \<Rightarrow> composable" where
  "union_order_term keys ob =
     Composed [(case ord_collation ob of
          None \<Rightarrow> Composed [Identifier ''u'', SQL ''.'', Identifier (sort_column (position (ord_field ob) keys))]
        | Some c \<Rightarrow> Composed [Identifier ''u'', SQL ''.'', Identifier (sort_column (position (ord_field ob) keys)),
                              SQL '' COLLATE '', Identifier c]),
        SQL '' '', direction_sql (ord_direction ob)]"

fun union_order_steps :: "string set \<Rightarrow> order_by list \<Rightarrow> string list \<Rightarrow> composable list \<Rightarrow> string list \<times> composable list" where
  "union_order_steps projectable [] keys terms = (keys, terms)"
| "union_order_steps projectable (ob # obs) keys terms =
     (if ord_field ob \<notin> projectable then union_order_steps projectable obs keys terms
      else
        let keys' = (if ord_field ob \<in> set keys then keys else keys @ [ord_field ob])
        in union_order_steps projectable obs keys' (terms @ [union_order_term keys' ob]))"

definition union_order_terms :: "order_by list option \<Rightarrow> grouping \<Rightarrow> string list \<times> composable list" where
  "union_order_terms obs g =
     union_order_steps (set (group_by g) \<union> set (map fst (aggregations g))) (case obs of Some xs \<Rightarrow> xs | None \<Rightarrow> []) [] []"

subsection \<open>The statement\<close>

record union_request =
  ur_coarse :: string
  ur_fine :: string
  ur_column :: string
  ur_trunc :: string
  ur_bounds :: "date_bound \<times> date_bound option"
  ur_grouping :: grouping
  ur_jsonb :: string
  ur_extra :: "where_clause option"
  ur_order :: "order_by list option"

definition shared_env :: "union_request \<Rightarrow> composable option \<Rightarrow> string list \<Rightarrow> branch_env" where
  "shared_env ur extra keys =
     \<lparr>br_column = ur_column ur, br_grouping = ur_grouping ur, br_jsonb = ur_jsonb ur, br_extra = extra, br_keys = keys\<rparr>"

definition union_branch :: "union_request \<Rightarrow> branch_env \<Rightarrow> segment \<Rightarrow> composable result" where
  "union_branch ur be s =
     (case s of
        Fine a b \<Rightarrow> build_fine_grain_branch be (ur_fine ur) (ur_trunc ur) (a, b)
      | Coarse a b \<Rightarrow> build_coarse_branch be (ur_coarse ur) (a, b))"

definition union_all :: "composable list \<Rightarrow> composable" where
  "union_all branches =
     (case branches of [b] \<Rightarrow> b | _ \<Rightarrow> Composed (tl (concat (map (\<lambda>b. [SQL '' UNION ALL '', b]) branches))))"

definition union_statement :: "string list \<Rightarrow> composable list \<Rightarrow> composable \<Rightarrow> composable" where
  "union_statement keys terms union_sql =
     (if terms = [] then Composed [union_sql, SQL '' ORDER BY 1'']
      else Composed
        [SQL ''SELECT '', Composed [Identifier ''u'', SQL ''.'', Identifier ''d''], SQL '' FROM ('', union_sql, SQL '') AS '',
         Identifier ''u'', SQL ''('',
         sql_join '', '' (Identifier ''d'' # map (\<lambda>i. Identifier (sort_column i)) [0..<length keys]),
         SQL '') ORDER BY '', sql_join '', '' terms])"

definition extra_where_sql :: "where_env \<Rightarrow> where_clause option \<Rightarrow> (composable option \<times> pyval list) result" where
  "extra_where_sql env extra =
     (case extra of
        None \<Rightarrow> Inr (None, [])
      | Some c \<Rightarrow>
          rbind (clause_to_sql env c) (\<lambda>(sql, ps). Inr (case sql of None \<Rightarrow> (None, []) | Some s \<Rightarrow> (Some s, ps))))"

definition build_partial_period_union_query :: "where_env \<Rightarrow> pydate \<Rightarrow> union_request \<Rightarrow> (composable \<times> pyval list) result" where
  "build_partial_period_union_query env today ur =
     rbind (union_segments_for (ur_trunc ur) (ur_bounds ur) today) (\<lambda>segs.
     rbind (extra_where_sql env (ur_extra ur)) (\<lambda>(extra, extra_params).
     let (keys, terms) = union_order_terms (ur_order ur) (ur_grouping ur)
     in rbind (map_result (union_branch ur (shared_env ur extra keys)) segs) (\<lambda>branches.
        Inr (union_statement keys terms (union_all branches), concat (map (\<lambda>_. extra_params) branches)))))"

subsection \<open>The dispatch of \<open>find\<close>\<close>

text \<open>
  \<open>find\<close> up to the execution of the statement: the mandatory filters, the JSONB column of the view,
  the automatic aggregation from the selected paths, and the choice between the two statements.
  The ordinary builder is called with the mandatory conditions already made, and looks for
  mandatory filters again.
\<close>

record view_aggregation = aggregation_meta +
  va_native_measures :: "(string \<times> string) list"
  va_fine_grain_view :: string
  va_time_grain_column :: string
  va_time_grain_trunc :: string

definition find_jsonb_column :: "norm_env \<Rightarrow> string \<Rightarrow> string option" where
  "find_jsonb_column ne view =
     (case table_metadata ne view of
        None \<Rightarrow> None
      | Some md \<Rightarrow>
          if has_jsonb_data md
          then Some (case meta_jsonb_column md of Some c \<Rightarrow> if c \<noteq> [] then c else ''data'' | None \<Rightarrow> ''data'')
          else meta_jsonb_column md)"

definition auto_grouping :: "find_env \<Rightarrow> view_aggregation option \<Rightarrow> string list list \<Rightarrow> find_request \<Rightarrow> find_request" where
  "auto_grouping fe va field_paths rq =
     (case va of
        None \<Rightarrow> rq
      | Some am \<Rightarrow>
          if group_by (fq_grouping rq) \<noteq> [] \<or> field_paths = [] then rq
          else case derive_auto_aggregation (aggregation_meta.truncate am) field_paths of
            None \<Rightarrow> rq
          | Some (gb, aggs) \<Rightarrow>
              let g = fq_grouping rq; mapping = view_column_mapping (fe_norm fe) (rq_view (fq_query rq)) in
              rq\<lparr>fq_grouping :=
                   g\<lparr>group_by := gb, aggregations := aggs,
                     native_dimensions := (if am_native_dimensions am \<noteq> [] then am_native_dimensions am else native_dimensions g),
                     native_measures := (if va_native_measures am \<noteq> [] then va_native_measures am else native_measures g)\<rparr>,
                 fq_mapping := (if mapping \<noteq> [] then Some mapping else fq_mapping rq)\<rparr>)"

definition union_plan ::
  "find_env \<Rightarrow> view_aggregation option \<Rightarrow> find_request \<Rightarrow> (where_clause \<times> date_bound \<times> date_bound option) option" where
  "union_plan fe va rq =
     (case (va, rq_where (fq_query rq)) of
        (Some am, Some arg) \<Rightarrow>
          if group_by (fq_grouping rq) = [] \<or> va_fine_grain_view am = [] \<or> va_time_grain_column am = []
             \<or> va_time_grain_trunc am = [] then None
          else
            (case normalize_where (fe_fuel fe) (fe_norm fe) (fe_type fe) arg (rq_view (fq_query rq))
                    (query_columns (fe_norm fe) (rq_view (fq_query rq)) None) of
               Inl _ \<Rightarrow> None
             | Inr c \<Rightarrow> map_option (\<lambda>b. (c, b)) (union_bounds c (va_time_grain_column am)))
      | _ \<Rightarrow> None)"

definition union_request_for ::
  "find_env \<Rightarrow> view_aggregation \<Rightarrow> find_request \<Rightarrow> pydict \<Rightarrow> where_clause \<times> date_bound \<times> date_bound option
   \<Rightarrow> union_request result" where
  "union_request_for fe am rq filters plan =
     rbind (map_result (\<lambda>(col, v). make_condition [col] ''eq'' v ''sql_column'' col None) filters) (\<lambda>mandatory.
     rbind (build_extra_where (fst plan) (va_time_grain_column am) mandatory) (\<lambda>extra.
     rbind (case fq_order_by rq of None \<Rightarrow> Inr None | Some arg \<Rightarrow> resolve_order_by_set (fe_order fe) (fe_type fe) arg) (\<lambda>obs.
       Inr \<lparr>ur_coarse = rq_view (fq_query rq), ur_fine = va_fine_grain_view am, ur_column = va_time_grain_column am,
            ur_trunc = va_time_grain_trunc am, ur_bounds = snd plan,
            ur_grouping = (fq_grouping rq)\<lparr>dimension_mapping := (case fq_mapping rq of Some m \<Rightarrow> m | None \<Rightarrow> [])\<rparr>,
            ur_jsonb = (case fq_jsonb_column rq of Some c \<Rightarrow> if c \<noteq> [] then c else ''data'' | None \<Rightarrow> ''data''),
            ur_extra = extra, ur_order = obs\<rparr>)))"

definition find_statement ::
  "find_env \<Rightarrow> pydate \<Rightarrow> view_aggregation option \<Rightarrow> string list list \<Rightarrow> find_request \<Rightarrow> (composable \<times> pyval list) result" where
  "find_statement fe today va field_paths rq =
     rbind (consume_mandatory_filters (rq_mandatory (fq_query rq)) (fe_auth_filters fe) (fe_field fe)) (\<lambda>filters.
     rbind (case filters of Some fs \<Rightarrow> make_mandatory_conditions fs | None \<Rightarrow> Inr ([], [])) (\<lambda>mandatory.
     let rq1 = rq\<lparr>fq_query := (fq_query rq)\<lparr>rq_mandatory := None\<rparr>,
                  fq_jsonb_column := find_jsonb_column (fe_norm fe) (rq_view (fq_query rq))\<rparr>;
         rq2 = auto_grouping fe va field_paths rq1
     in case union_plan fe va rq2 of
          Some plan \<Rightarrow>
            rbind (union_request_for fe (the va) rq2 (case filters of Some fs \<Rightarrow> fs | None \<Rightarrow> []) plan)
              (build_partial_period_union_query (fe_where fe) today)
        | None \<Rightarrow> build_find_query fe (rq2\<lparr>fq_mandatory := mandatory\<rparr>)))"

text \<open>\<open>find_one\<close> has no partial periods and no aggregation of its own.\<close>

definition find_one_statement :: "find_env \<Rightarrow> find_request \<Rightarrow> (composable \<times> pyval list) result" where
  "find_one_statement fe rq =
     rbind (consume_mandatory_filters (rq_mandatory (fq_query rq)) (fe_auth_filters fe) (fe_field fe)) (\<lambda>filters.
     rbind (case filters of Some fs \<Rightarrow> make_mandatory_conditions fs | None \<Rightarrow> Inr (fq_mandatory rq)) (\<lambda>mandatory.
       build_find_one_query fe
         (rq\<lparr>fq_query := (fq_query rq)\<lparr>rq_mandatory := None\<rparr>, fq_mandatory := mandatory,
             fq_jsonb_column := find_jsonb_column (fe_norm fe) (rq_view (fq_query rq))\<rparr>)))"

end
