(* ===== verification/OrderByProps.thy ===== *)
theory OrderByProps
  imports OrderBy
begin

section \<open>Sorting: what reaches the query\<close>

text \<open>
  Whatever shape an \<open>order_by\<close> has, its SQL is made of a fixed vocabulary and of quoted names and
  values; a string \<open>order_by\<close> reads back what it was printed from; a dictionary and the list of its
  leaves sort alike.
\<close>

subsection \<open>The vocabulary\<close>

definition sort_words :: "string \<Rightarrow> string set" where
  "sort_words table_ref =
     {'''', '' '', ''.'', ''t.'', ''('', '')'', '') '', '', '', '')::'', '' -> '', '' ->> '', '' COLLATE '', ''ASC'', ''DESC'', ''ORDER BY '',
      ''timestamptz'', ''date'', ''::bit('', ''::vector'', ''<=>'', ''<->'', ''<+>'', ''<#>'', ''<~>'', ''jaccard_distance'',
      '' ASC'', '' DESC'', '' NULLS FIRST'', '' NULLS LAST'', table_ref, table_ref @ '' -> ''}"

lemma sort_words [simp]:
  "'''' \<in> sort_words t" "'' '' \<in> sort_words t" "''.'' \<in> sort_words t" "''t.'' \<in> sort_words t" "''('' \<in> sort_words t"
  "'')'' \<in> sort_words t" "'') '' \<in> sort_words t" "'', '' \<in> sort_words t" "'')::'' \<in> sort_words t" "'' -> '' \<in> sort_words t"
  "'' ->> '' \<in> sort_words t" "'' COLLATE '' \<in> sort_words t" "''ASC'' \<in> sort_words t" "''DESC'' \<in> sort_words t"
  "''ORDER BY '' \<in> sort_words t" "''timestamptz'' \<in> sort_words t" "''date'' \<in> sort_words t" "''::bit('' \<in> sort_words t"
  "''::vector'' \<in> sort_words t" "''<=>'' \<in> sort_words t" "''<->'' \<in> sort_words t" "''<+>'' \<in> sort_words t"
  "''<#>'' \<in> sort_words t" "''<~>'' \<in> sort_words t" "''jaccard_distance'' \<in> sort_words t" "'' ASC'' \<in> sort_words t"
  "'' DESC'' \<in> sort_words t" "'' NULLS FIRST'' \<in> sort_words t" "'' NULLS LAST'' \<in> sort_words t" "t \<in> sort_words t"
  "t @ '' -> '' \<in> sort_words t"
  by (simp_all add: sort_words_def)

definition instruction_ok :: "order_by \<Rightarrow> bool" where
  "instruction_ok ob = (ord_direction ob \<in> {Asc, Desc} \<and> ord_cast ob \<in> {None, Some ''timestamptz'', Some ''date''})"

lemma direction_texts: "d \<in> {Asc, Desc} \<Longrightarrow> texts (direction_sql d) \<subseteq> sort_words t"
  by (auto simp: direction_sql_def)

lemma collated_texts: "texts e \<subseteq> sort_words t \<Longrightarrow> texts (collated ob e) \<subseteq> sort_words t"
  by (auto simp: collated_def split: option.splits)

lemma literals_texts: "texts (sql_join sep (map (\<lambda>p. Literal (f p)) ps)) \<subseteq> {sep}"
  using texts_sql_join [of sep "map (\<lambda>p. Literal (f p)) ps"] by auto

lemma json_sort_expr_texts: "texts (json_sort_expr t b f) \<subseteq> sort_words t"
  using literals_texts [of "'' -> ''" PStr "butlast (split_on CHR ''.'' f)"]
  by (auto simp: json_sort_expr_def Let_def)

lemma bit_cast_texts: "texts (bit_cast s) \<subseteq> sort_words t"
  by (simp add: bit_cast_def)

lemma vector_texts:
  assumes "d \<in> {Asc, Desc}" "build_vector_distance_sql f op d v t m = Inr c"
  shows "texts c \<subseteq> sort_words t"
proof -
  have w: "x \<in> texts (direction_sql d) \<Longrightarrow> x \<in> sort_words t" "x \<in> texts (bit_cast s) \<Longrightarrow> x \<in> sort_words t" for x s t
    using direction_texts [OF assms(1)] bit_cast_texts by blast+
  show ?thesis
    using assms(2) unfolding build_vector_distance_sql_def Let_def
    by (auto simp: rbind_eq_Inr intro: w split: if_splits)
qed

lemma instruction_texts:
  assumes "instruction_ok ob" "instruction_sql t ncs m ob = Inr c"
  shows "texts c \<subseteq> sort_words t"
proof -
  have d: "texts (direction_sql (ord_direction ob)) \<subseteq> sort_words t"
    using direction_texts assms(1) by (auto simp: instruction_ok_def)
  have w: "'' '' \<in> sort_words t" "''('' \<in> sort_words t" "'')'' \<in> sort_words t" "'')::'' \<in> sort_words t" "''.'' \<in> sort_words t"
    by simp_all
  have e: "texts (json_sort_expr t b (ord_field ob)) \<subseteq> sort_words t" for b by (rule json_sort_expr_texts)
  have cast: "ord_cast ob = Some x \<Longrightarrow> x \<in> sort_words t" for x using assms(1) by (auto simp: instruction_ok_def)
  consider (flat) x where "flat_column ncs m ob = Some x" | (vector) "flat_column ncs m ob = None" "is_vector_sort ob"
    | (plain) "flat_column ncs m ob = None" "\<not> is_vector_sort ob" by (cases "flat_column ncs m ob") auto
  then show ?thesis
  proof cases
    case flat
    then have "c = Composed [collated ob (Composed [Identifier ''t'', SQL ''.'', Identifier x]), SQL '' '', direction_sql (ord_direction ob)]"
      using assms(2) by (simp add: instruction_sql_def)
    with d w collated_texts [of "Composed [Identifier ''t'', SQL ''.'', Identifier x]" t ob] show ?thesis by simp
  next
    case vector
    then obtain f op where "build_vector_distance_sql f op (ord_direction ob) (ord_value ob) t m = Inr c"
      using assms(2) by (auto simp: instruction_sql_def Let_def)
    moreover have "ord_direction ob \<in> {Asc, Desc}" using assms(1) by (simp add: instruction_ok_def)
    ultimately show ?thesis by (rule vector_texts [rotated])
  next
    case plain
    have "texts (if ord_collation ob \<noteq> None then Composed [SQL ''('', json_sort_expr t True (ord_field ob), SQL '')'']
        else json_sort_expr t False (ord_field ob)) \<subseteq> sort_words t" using e w by simp
    note k = collated_texts [OF this]
    show ?thesis
    proof (cases "ord_cast ob")
      case None
      with plain assms(2) k [of ob] d w show ?thesis by (cases "ord_collation ob") (auto simp: instruction_sql_def Let_def)
    next
      case (Some x)
      with plain assms(2) d w e [of True] cast show ?thesis by (auto simp: instruction_sql_def Let_def)
    qed
  qed
qed

lemma order_set_texts:
  assumes "\<And>ob. ob \<in> set obs \<Longrightarrow> instruction_ok ob" "order_set_sql t ncs m obs = Inr c"
  shows "texts c \<subseteq> sort_words t"
proof (cases "obs = []")
  case False
  with assms(2) obtain cs where cs: "map_result (instruction_sql t ncs m) obs = Inr cs" "c = Composed [SQL ''ORDER BY '', sql_join '', '' cs]"
    by (auto simp: order_set_sql_def rbind_eq_Inr)
  have "texts x \<subseteq> sort_words t" if "x \<in> set cs" for x
    using map_result_set [OF cs(1) that] instruction_texts assms(1) by blast
  then have "texts (sql_join '', '' cs) \<subseteq> sort_words t" by (intro texts_sql_join_sub) auto
  with cs(2) show ?thesis by simp
qed (use assms(2) in \<open>auto simp: order_set_sql_def\<close>)

subsection \<open>What the shapes resolve to\<close>

lemma plain_order_ok [simp]: "d \<in> {Asc, Desc} \<Longrightarrow> instruction_ok (plain_order f d)"
  "instruction_ok (ob\<lparr>ord_value := v\<rparr>) = instruction_ok ob" "instruction_ok (ob\<lparr>ord_collation := c\<rparr>) = instruction_ok ob"
  by (simp_all add: instruction_ok_def plain_order_def)

lemma normalize_direction_ok: "normalize_order_direction v = Inr d \<Longrightarrow> d \<in> {Asc, Desc}"
  by (auto simp: normalize_order_direction_def split: pyval.splits if_splits option.splits)

lemma direction_instruction_ok: "direction_instruction env p v = Inr obs \<Longrightarrow> ob \<in> set obs \<Longrightarrow> instruction_ok ob"
  by (auto simp: direction_instruction_def rbind_eq_Inr dest!: normalize_direction_ok)

lemma vector_instructions_ok: "ob \<in> set (vector_instructions v p) \<Longrightarrow> instruction_ok ob"
  by (auto simp: vector_instructions_def split: option.splits)

lemma concat_results:
  assumes "map_result f xs = Inr yss" "ob \<in> set (concat yss)" "\<And>x ys. x \<in> set xs \<Longrightarrow> f x = Inr ys \<Longrightarrow> ob \<in> set ys \<Longrightarrow> P ob"
  shows "P ob"
proof -
  obtain ys where ys: "ys \<in> set yss" "ob \<in> set ys" using assms(2) by auto
  then obtain x where "x \<in> set xs" "f x = Inr ys" using map_result_set [OF assms(1)] by auto
  with ys assms(3) show ?thesis by blast
qed

lemma collect_ok: "collect_dict_order_by env pre v = Inr obs \<Longrightarrow> ob \<in> set obs \<Longrightarrow> instruction_ok ob"
proof (induction env pre v arbitrary: obs rule: collect_dict_order_by.induct)
  case (1 env pre d)
  from 1(2) obtain iss where m: "map_result (\<lambda>p.
         let name = to_snake_case (fst p); v = snd p; path = dotted pre name in
         if v = PNone then Inr []
         else if pre \<noteq> [] \<and> is_vector_operand name v then Inr [(plain_order path Asc)\<lparr>ord_value := v\<rparr>]
         else if is_dict v then collect_dict_order_by env path v
         else if is_vector_order_by v then Inr (vector_instructions v path)
         else if is_str v \<or> obj_attr v ''value'' \<noteq> None then direction_instruction env path v
         else Inr []) d = Inr iss" and obs: "obs = concat iss"
    by (auto simp: rbind_eq_Inr)
  from 1(3) obs have "ob \<in> set (concat iss)" by simp
  from m this show ?case
  proof (rule concat_results)
    fix p ys
    assume "p \<in> set d" "ob \<in> set ys" and "(let name = to_snake_case (fst p); v = snd p; path = dotted pre name in
         if v = PNone then Inr []
         else if pre \<noteq> [] \<and> is_vector_operand name v then Inr [(plain_order path Asc)\<lparr>ord_value := v\<rparr>]
         else if is_dict v then collect_dict_order_by env path v
         else if is_vector_order_by v then Inr (vector_instructions v path)
         else if is_str v \<or> obj_attr v ''value'' \<noteq> None then direction_instruction env path v
         else Inr []) = Inr ys"
    with 1(1) [OF _ refl refl refl] show "instruction_ok ob" unfolding Let_def
      by (auto split: if_splits dest: direction_instruction_ok vector_instructions_ok)
  qed
qed auto

lemma process_ok: "process_order_by env pre v = Inr obs \<Longrightarrow> ob \<in> set obs \<Longrightarrow> instruction_ok ob"
proof (induction env pre v arbitrary: obs rule: process_order_by.induct)
  case (1 env pre obj)
  from 1(2) obtain iss where m: "map_result (\<lambda>f.
         let path = dotted pre f in
         (case obj_attr obj f of
            None \<Rightarrow> Inl AttributeError
          | Some v \<Rightarrow>
              if v = PNone then Inr []
              else if is_vector_order_by v then Inr (vector_instructions v path)
              else if is_str v \<or> v \<in> {direction_object Asc, direction_object Desc} then direction_instruction env path v
              else if obj_attr v ''__gql_fields__'' \<noteq> None then process_order_by env path v
              else Inr [])) (gql_fields obj) = Inr iss" and obs: "obs = concat iss"
    unfolding process_order_by.simps [of env pre obj] rbind_eq_Inr by auto
  from 1(3) obs have "ob \<in> set (concat iss)" by simp
  from m this show ?case
  proof (rule concat_results)
    fix f ys
    assume f: "f \<in> set (gql_fields obj)" "ob \<in> set ys" and e: "(let path = dotted pre f in
         (case obj_attr obj f of
            None \<Rightarrow> Inl AttributeError
          | Some v \<Rightarrow>
              if v = PNone then Inr []
              else if is_vector_order_by v then Inr (vector_instructions v path)
              else if is_str v \<or> v \<in> {direction_object Asc, direction_object Desc} then direction_instruction env path v
              else if obj_attr v ''__gql_fields__'' \<noteq> None then process_order_by env path v
              else Inr [])) = Inr ys"
    then obtain v where v: "obj_attr obj f = Some v" by (auto simp: Let_def split: option.splits)
    with e have "(if v = PNone then Inr []
              else if is_vector_order_by v then Inr (vector_instructions v (dotted pre f))
              else if is_str v \<or> v \<in> {direction_object Asc, direction_object Desc} then direction_instruction env (dotted pre f) v
              else if obj_attr v ''__gql_fields__'' \<noteq> None then process_order_by env (dotted pre f) v
              else Inr []) = Inr ys" by (simp only: Let_def option.case)
    with 1(1) [OF f(1) refl v] f(2) show "instruction_ok ob"
      by (auto split: if_splits dest: direction_instruction_ok vector_instructions_ok)
  qed
qed

lemma item_from_sequence_ok:
  assumes "order_by_item_from_sequence v = Inr ob"
  shows "ord_direction ob \<in> {Asc, Desc}"
proof -
  have plain: "ord_direction (plain_order f d) = d" for f d by (simp add: plain_order_def)
  show ?thesis
  proof (cases v)
    case (PTuple vs)
    then consider f where "vs = [PStr f]" | f d where "vs = [PStr f, d]"
      using assms unfolding order_by_item_from_sequence_def by (auto split: list.splits pyval.splits)
    then show ?thesis
      using assms PTuple plain by cases (auto simp: order_by_item_from_sequence_def rbind_eq_Inr dest!: normalize_direction_ok split: if_splits)
  qed (use assms plain in \<open>auto simp: order_by_item_from_sequence_def\<close>)
qed

lemma item_instruction_ok:
  assumes "item_instruction env v = Inr obs" "ob \<in> set obs"
  shows "instruction_ok ob"
proof -
  from assms(1) obtain d where "normalize_order_direction (or_none (obj_attr v ''direction'')) = Inr d"
    and "\<exists>f c. obs = [(plain_order f d)\<lparr>ord_collation := c\<rparr>]"
    unfolding item_instruction_def rbind_eq_Inr Let_def by auto
  with normalize_direction_ok [of _ d] assms(2) show ?thesis by auto
qed

lemma list_item_ok:
  assumes "list_item_instructions env v = Inr obs" "ob \<in> set obs"
  shows "instruction_ok ob"
proof -
  consider "item_instruction env v = Inr obs" | "collect_dict_order_by env [] v = Inr obs"
    | b where "order_by_item_from_sequence v = Inr b" "obs = [(plain_order (ord_field b) (ord_direction b))\<lparr>ord_collation := default_collation env (ord_field b)\<rparr>]"
    | "obs = []"
    using assms(1) unfolding list_item_instructions_def by (auto simp: rbind_eq_Inr split: if_splits)
  then show ?thesis
    using assms(2) item_instruction_ok collect_ok item_from_sequence_ok by cases auto
qed

lemma convert_ok:
  assumes "convert_order_by_input env v = Inr (Some obs)" "ob \<in> set obs"
  shows "instruction_ok ob"
proof -
  have some: "r = Inr obs" if "rbind r (\<lambda>obs. Inr (if obs = [] then None else Some obs)) = Inr (Some obs)" for r :: "order_by list result"
    using that by (auto simp: rbind_eq_Inr split: if_splits)
  consider "item_instruction env v = Inr obs" | "collect_dict_order_by env [] v = Inr obs" | "process_order_by env [] v = Inr obs"
    | items where "rbind (map_result (list_item_instructions env) items) (\<lambda>iss. Inr (concat iss)) = Inr obs"
    using assms(1) unfolding convert_order_by_input_def Let_def by (cases v) (auto dest!: some split: if_splits)
  then show ?thesis
  proof cases
    case 4
    then obtain iss where m: "map_result (list_item_instructions env) items = Inr iss" and "obs = concat iss" by (auto simp: rbind_eq_Inr)
    with assms(2) have "ob \<in> set (concat iss)" by simp
    from m this show ?thesis by (rule concat_results) (rule list_item_ok)
  qed (use assms(2) item_instruction_ok collect_ok process_ok in blast)+
qed

lemma temporal_casts_ok: "\<forall>ob \<in> set obs. instruction_ok ob \<Longrightarrow> \<forall>ob \<in> set (with_temporal_casts ty obs). instruction_ok ob"
  by (auto simp: with_temporal_casts_def instruction_ok_def split: option.splits declared_temporal.splits)

lemma resolve_ok:
  assumes "resolve_order_by_set env ty (OrderValue v) = Inr (Some obs)"
  shows "\<forall>ob \<in> set obs. instruction_ok ob"
proof -
  from assms obtain obs' where "convert_order_by_input env (tuple_as_list v) = Inr (Some obs')" and obs: "obs = with_temporal_casts ty obs'"
    unfolding resolve_order_by_set_def Let_def by (auto simp: rbind_eq_Inr split: if_splits)
  then have "\<forall>ob \<in> set obs'. instruction_ok ob" using convert_ok by blast
  then show ?thesis unfolding obs by (rule temporal_casts_ok)
qed

subsection \<open>Names read back\<close>

definition quote_name :: "string \<Rightarrow> string" where
  "quote_name n = [CHR 0x22] @ concat (map (\<lambda>c. if c = CHR 0x22 then [CHR 0x22, CHR 0x22] else [c]) n) @ [CHR 0x22]"

lemma quoted_name_quote:
  assumes "CHR 0x00 \<notin> set n" "\<And>s. r \<noteq> CHR 0x22 # s"
  shows "quoted_name (concat (map (\<lambda>c. if c = CHR 0x22 then [CHR 0x22, CHR 0x22] else [c]) n) @ CHR 0x22 # r) = Some (n, r)"
  using assms(1)
proof (induction n)
  case Nil
  then show ?case using assms(2) by (auto split: list.splits)
qed auto

lemma order_name_quote:
  assumes "n \<noteq> []" "CHR 0x00 \<notin> set n" "\<And>s. r \<noteq> CHR 0x22 # s"
  shows "order_name (quote_name n @ r) = Some (n, r)"
  using quoted_name_quote [OF assms(2,3)] assms(1)
  by (simp add: order_name_def quote_name_def name_start_def is_upper_def is_lower_def)

lemma skip_space_quote [simp]: "skip_space (quote_name n @ r) = quote_name n @ r"
  by (simp add: skip_space_def quote_name_def is_space_def)

definition name_ok :: "string \<Rightarrow> bool" where
  "name_ok n = (n \<noteq> [] \<and> CHR 0x00 \<notin> set n)"

text \<open>What may follow the names of a printed key.\<close>

definition follows :: "string \<Rightarrow> bool" where
  "follows r = (r = [] \<or> hd r = CHR '' '' \<or> hd r = CHR '','')"

lemma follows_no_quote: "follows r \<Longrightarrow> r \<noteq> CHR 0x22 # s"
  by (auto simp: follows_def)

lemma more_names_quote:
  assumes "list_all name_ok nms" "length nms \<le> k" "follows r" "\<And>s. skip_space r \<noteq> CHR ''.'' # s"
  shows "more_names k (concat (map (\<lambda>n. CHR ''.'' # quote_name n) nms) @ r) = (nms, r)"
  using assms(1,2)
proof (induction nms arbitrary: k)
  case Nil
  then show ?case using assms(4) by (cases k) (auto split: list.splits)
next
  case (Cons n nms)
  then obtain k' where k: "k = Suc k'" by (cases k) auto
  let ?rest = "concat (map (\<lambda>n. CHR ''.'' # quote_name n) nms) @ r"
  have "?rest \<noteq> CHR 0x22 # s" for s using assms(3) follows_no_quote by (cases nms) auto
  then have "order_name (quote_name n @ ?rest) = Some (n, ?rest)"
    using Cons.prems(1) by (intro order_name_quote) (auto simp: name_ok_def)
  moreover have "skip_space (CHR ''.'' # s) = CHR ''.'' # s" for s by (simp add: skip_space_def is_space_def)
  ultimately show ?case using Cons k by simp
qed

subsection \<open>Keys read back\<close>

type_synonym sort_key = "string list \<times> string option \<times> string option"

definition print_key :: "sort_key \<Rightarrow> string" where
  "print_key k =
     (case k of (names, dir, nulls) \<Rightarrow> join_str ''.'' (map quote_name names)
        @ (case dir of Some d \<Rightarrow> '' '' @ d | None \<Rightarrow> '''') @ (case nulls of Some n \<Rightarrow> '' NULLS '' @ n | None \<Rightarrow> ''''))"

definition key_ok :: "sort_key \<Rightarrow> bool" where
  "key_ok k =
     (case k of (names, dir, nulls) \<Rightarrow> names \<noteq> [] \<and> length names \<le> 3 \<and> list_all name_ok names
        \<and> dir \<in> {None, Some ''ASC'', Some ''DESC''} \<and> nulls \<in> {None, Some ''FIRST'', Some ''LAST''})"

lemma join_dots: "names \<noteq> [] \<Longrightarrow>
  join_str ''.'' (map quote_name names) @ r = quote_name (hd names) @ concat (map (\<lambda>n. CHR ''.'' # quote_name n) (tl names)) @ r"
proof (induction names)
  case (Cons n names)
  then show ?case by (cases names) auto
qed simp

text \<open>Keywords, after a space and before what may follow.\<close>

lemma keyword_word:
  assumes "w \<noteq> []" "list_all (\<lambda>c. name_start c \<or> is_digit c) w" "upper w = w" "follows r"
  shows "keyword ks (CHR '' '' # w @ r) = (if w \<in> set ks then Some (w, r) else None)"
proof -
  obtain c cs where w: "w = c # cs" using assms(1) by (cases w) auto
  have nospace: "\<not> is_space c" if "name_start c \<or> is_digit c" for c :: char
    using that by (auto simp: name_start_def is_upper_def is_lower_def is_digit_def is_space_def)
  have s: "skip_space (CHR '' '' # w @ r) = w @ r"
    using assms(2) w nospace by (simp add: skip_space_def is_space_def [of "CHR '' ''"])
  have "takeWhile (\<lambda>c. name_start c \<or> is_digit c) (w @ r) = w"
  proof -
    have "takeWhile (\<lambda>c. name_start c \<or> is_digit c) r = []"
      using assms(4) by (cases r) (auto simp: follows_def name_start_def is_upper_def is_lower_def is_digit_def)
    then show ?thesis using assms(2) by (induction w) auto
  qed
  with s assms(3) show ?thesis by (simp add: keyword_def Let_def)
qed

lemma keyword_none: "[] \<notin> set ks \<Longrightarrow> r = [] \<or> hd r = CHR '','' \<Longrightarrow> keyword ks r = None"
  by (cases r) (auto simp: keyword_def skip_space_def is_space_def name_start_def is_upper_def is_lower_def is_digit_def upper_def)

lemma keyword_words [simp]:
  "follows r \<Longrightarrow> keyword ks (CHR '' '' # CHR ''A'' # CHR ''S'' # CHR ''C'' # r) = (if ''ASC'' \<in> set ks then Some (''ASC'', r) else None)"
  "follows r \<Longrightarrow> keyword ks (CHR '' '' # CHR ''D'' # CHR ''E'' # CHR ''S'' # CHR ''C'' # r) = (if ''DESC'' \<in> set ks then Some (''DESC'', r) else None)"
  "follows r \<Longrightarrow> keyword ks (CHR '' '' # CHR ''N'' # CHR ''U'' # CHR ''L'' # CHR ''L'' # CHR ''S'' # r) = (if ''NULLS'' \<in> set ks then Some (''NULLS'', r) else None)"
  "follows r \<Longrightarrow> keyword ks (CHR '' '' # CHR ''F'' # CHR ''I'' # CHR ''R'' # CHR ''S'' # CHR ''T'' # r) = (if ''FIRST'' \<in> set ks then Some (''FIRST'', r) else None)"
  "follows r \<Longrightarrow> keyword ks (CHR '' '' # CHR ''L'' # CHR ''A'' # CHR ''S'' # CHR ''T'' # r) = (if ''LAST'' \<in> set ks then Some (''LAST'', r) else None)"
  using keyword_word [of "''ASC''" r ks] keyword_word [of "''DESC''" r ks] keyword_word [of "''NULLS''" r ks]
    keyword_word [of "''FIRST''" r ks] keyword_word [of "''LAST''" r ks]
  by (simp_all add: name_start_def is_upper_def upper_def to_upper_def is_lower_def)

lemma order_key_print:
  assumes k: "key_ok k" and r: "r = [] \<or> hd r = CHR '','' "
  shows "order_key (print_key k @ r) = Some (k, r)" "order_key (CHR '' '' # print_key k @ r) = Some (k, r)"
proof -
  obtain names dir nulls where e: "k = (names, dir, nulls)" by (cases k) auto
  from k e have names: "names \<noteq> []" "length (tl names) \<le> 2" "list_all name_ok (tl names)" "name_ok (hd names)"
    and dn: "dir \<in> {None, Some ''ASC'', Some ''DESC''}" "nulls \<in> {None, Some ''FIRST'', Some ''LAST''}"
    by (auto simp: key_ok_def) (cases names; auto)+
  let ?n = "(case nulls of Some n \<Rightarrow> '' NULLS '' @ n | None \<Rightarrow> '''') @ r"
  let ?d = "(case dir of Some d \<Rightarrow> '' '' @ d | None \<Rightarrow> '''') @ ?n"
  have fr: "follows r" and sr: "skip_space r = r" using r by (cases r; auto simp: follows_def skip_space_def is_space_def)+
  have fn: "follows ?n" using dn(2) fr by (auto simp: follows_def)
  have fd: "follows ?d" using dn(1) fn by (auto simp: follows_def)
  have sd: "skip_space ?d \<noteq> CHR ''.'' # s" for s
    using dn r sr by (auto simp: skip_space_def is_space_def)
  let ?rest = "concat (map (\<lambda>n. CHR ''.'' # quote_name n) (tl names)) @ ?d"
  have s: "print_key k @ r = quote_name (hd names) @ ?rest"
    using join_dots [OF names(1), of ?d] by (simp add: print_key_def e)
  have "?rest \<noteq> CHR 0x22 # s" for s using follows_no_quote [OF fd] by (cases "tl names") auto
  then have n: "order_name (print_key k @ r) = Some (hd names, ?rest)"
    unfolding s using names(4) by (intro order_name_quote) (auto simp: name_ok_def)
  have m: "more_names 2 ?rest = (tl names, ?d)" by (rule more_names_quote [OF names(3,2) fd sd])
  have kn: "keyword [''NULLS''] ?n = (if nulls = None then None else Some (''NULLS'', '' '' @ the nulls @ r))"
    using dn(2) fr keyword_none [OF _ r, of "[''NULLS'']"] by (auto simp: follows_def)
  have kf: "nulls = Some x \<Longrightarrow> keyword [''FIRST'', ''LAST''] ('' '' @ x @ r) = Some (x, r)" for x using dn(2) fr by auto
  have kd: "keyword [''ASC'', ''DESC''] ?d = map_option (\<lambda>d. (d, ?n)) dir"
  proof (cases dir)
    case None
    then show ?thesis using dn(2) r fr keyword_none [OF _ r, of "[''ASC'', ''DESC'']"] by (auto simp: follows_def)
  next
    case (Some d)
    with dn(1) fn show ?thesis by auto
  qed
  have sk: "skip_space (print_key k @ r) = print_key k @ r" unfolding s by simp
  have sk': "skip_space (CHR '' '' # print_key k @ r) = print_key k @ r"
    using sk by (simp add: skip_space_def is_space_def [of "CHR '' ''"])
  have "order_key t = Some (k, r)" if "skip_space t = print_key k @ r" for t
  proof (cases nulls)
    case None
    with n m kd kn sr names(1) that show ?thesis unfolding order_key_def e by (cases dir) simp_all
  next
    case (Some x)
    with n m kd kn kf [OF Some] sr names(1) that show ?thesis unfolding order_key_def e by (cases dir) simp_all
  qed
  with sk sk' show "order_key (print_key k @ r) = Some (k, r)" "order_key (CHR '' '' # print_key k @ r) = Some (k, r)" by blast+
qed

definition print_keys :: "sort_key list \<Rightarrow> string" where
  "print_keys ks = join_str '', '' (map print_key ks)"

lemma print_keys_Cons:
  "print_keys (k # ks) = print_key k @ (if ks = [] then [] else CHR '','' # CHR '' '' # print_keys ks)"
  by (cases ks) (simp_all add: print_keys_def)

lemma order_keys_print:
  assumes "list_all key_ok ks" "ks \<noteq> []" "length ks \<le> m"
  shows "order_keys_of m (print_keys ks) = Inr ks \<and> order_keys_of m (CHR '' '' # print_keys ks) = Inr ks"
  using assms
proof (induction ks arbitrary: m)
  case (Cons k ks)
  then obtain m' where m: "m = Suc m'" by (cases m) auto
  let ?r = "if ks = [] then [] else CHR '','' # CHR '' '' # print_keys ks"
  have r: "?r = [] \<or> hd ?r = CHR '','' " by simp
  have key: "order_key (print_keys (k # ks)) = Some (k, ?r)" "order_key (CHR '' '' # print_keys (k # ks)) = Some (k, ?r)"
    unfolding print_keys_Cons using order_key_print [OF _ r] Cons.prems(1) by simp_all
  show ?case
  proof (cases "ks = []")
    case True
    with key m show ?thesis by simp
  next
    case False
    with Cons have "order_keys_of m' (CHR '' '' # print_keys ks) = Inr ks" using m by simp
    with False key m show ?thesis by simp
  qed
qed simp

lemma length_print_keys: "list_all key_ok ks \<Longrightarrow> length ks \<le> length (print_keys ks)"
proof (induction ks)
  case (Cons k ks)
  obtain names dir nulls where e: "k = (names, dir, nulls)" by (cases k) auto
  with Cons.prems have "names \<noteq> []" by (simp add: key_ok_def)
  then have "print_key k \<noteq> []" using e by (cases names; cases "tl names") (auto simp: print_key_def quote_name_def)
  then have "1 \<le> length (print_key k)" by (cases "print_key k") auto
  with Cons show ?case by (auto simp: print_keys_Cons)
qed simp

lemma keyword_word_D: "keyword ks s = Some (w, r) \<Longrightarrow> w \<in> set ks"
  by (auto simp: keyword_def Let_def split: if_splits)

lemma order_key_words:
  "order_key s = Some ((names, dir, nulls), r) \<Longrightarrow> dir \<in> {None, Some ''ASC'', Some ''DESC''} \<and> nulls \<in> {None, Some ''FIRST'', Some ''LAST''}"
  by (auto simp: order_key_def Let_def dest!: keyword_word_D split: option.splits prod.splits)

lemma order_keys_words:
  "order_keys_of n s = Inr ks \<Longrightarrow> k \<in> set ks \<Longrightarrow>
   fst (snd k) \<in> {None, Some ''ASC'', Some ''DESC''} \<and> snd (snd k) \<in> {None, Some ''FIRST'', Some ''LAST''}"
proof (induction n s arbitrary: ks rule: order_keys_of.induct)
  case (2 n s)
  from 2(2) obtain k' t where k': "order_key s = Some (k', t)" by (auto split: option.splits)
  have w: "fst (snd k') \<in> {None, Some ''ASC'', Some ''DESC''} \<and> snd (snd k') \<in> {None, Some ''FIRST'', Some ''LAST''}"
    using order_key_words [of s "fst k'" "fst (snd k')" "snd (snd k')" t] k' by simp
  show ?case
  proof (cases t)
    case Nil
    with 2(2) k' have "ks = [k']" by simp
    with 2(3) w show ?thesis by simp
  next
    case (Cons c r)
    with 2(2) k' obtain ks' where "c = CHR '',''" "order_keys_of n r = Inr ks'" "ks = k' # ks'"
      by (auto simp: rbind_eq_Inr split: if_splits)
    with 2(1) [OF k' refl Cons] 2(3) w show ?thesis by auto
  qed
qed simp

lemma key_texts:
  "fst (snd k) \<in> {None, Some ''ASC'', Some ''DESC''} \<and> snd (snd k) \<in> {None, Some ''FIRST'', Some ''LAST''} \<Longrightarrow>
   texts (key_sql k) \<subseteq> sort_words ''''"
  using texts_intersperse [of "''.''" "map Identifier (fst k)"]
  by (cases k) (auto simp: key_sql_def)

lemma string_texts:
  assumes "order_by_string_sql s = Inr c"
  shows "texts c \<subseteq> sort_words ''''"
proof -
  from assms obtain ks where ks: "order_keys_of (Suc (length s)) s = Inr ks" "c = Composed [SQL ''ORDER BY '', sql_join '', '' (map key_sql ks)]"
    by (auto simp: order_by_string_sql_def rbind_eq_Inr)
  have "texts (key_sql k) \<subseteq> sort_words ''''" if "k \<in> set ks" for k using order_keys_words [OF ks(1) that] by (rule key_texts)
  then have "texts (sql_join '', '' (map key_sql ks)) \<subseteq> sort_words ''''" by (intro texts_sql_join_sub) auto
  with ks(2) show ?thesis by simp
qed

subsection \<open>The properties\<close>

text \<open>
  Sorting cannot inject SQL.  Whatever the shape of \<open>order_by\<close>, every raw text of the generated
  ORDER BY is a word of a fixed vocabulary or the name of the JSONB column of the view; the same
  holds of a string \<open>order_by\<close>, whose vocabulary does not even have the column.
\<close>

theorem order_by_injection_safe:
  "(case build_order_by_sql env ty (OrderValue v) table_ref native mapping flat of
      Inr (Some c, b) \<Rightarrow> texts c \<subseteq> sort_words table_ref | _ \<Rightarrow> True)
   \<and> (case order_by_string_sql s of Inr c \<Rightarrow> texts c \<subseteq> sort_words '''' | Inl e \<Rightarrow> True)"
proof
  show "case build_order_by_sql env ty (OrderValue v) table_ref native mapping flat of
      Inr (Some c, b) \<Rightarrow> texts c \<subseteq> sort_words table_ref | _ \<Rightarrow> True"
  proof (cases "build_order_by_sql env ty (OrderValue v) table_ref native mapping flat")
    case (Inr r)
    show ?thesis
    proof (cases "fst r")
      case (Some c)
      with Inr obtain obs ncs where "resolve_order_by_set env ty (OrderValue v) = Inr (Some obs)" "order_set_sql table_ref ncs mapping obs = Inr c"
        by (cases r) (auto simp: build_order_by_sql_def rbind_eq_Inr Let_def split: option.splits)
      then have "texts c \<subseteq> sort_words table_ref" using resolve_ok order_set_texts by blast
      with Inr Some show ?thesis by (cases r) simp
    qed (use Inr in \<open>cases r; simp\<close>)
  qed simp
  show "case order_by_string_sql s of Inr c \<Rightarrow> texts c \<subseteq> sort_words '''' | Inl e \<Rightarrow> True"
    using string_texts by (auto split: sum.split)
qed

text \<open>
  A string \<open>order_by\<close> reads back.  Sort keys with any non-empty names (without the character NUL),
  quoted and printed with their direction and the position of nulls, are parsed into exactly those
  keys, each name one quoted identifier.
\<close>

theorem order_string_roundtrip:
  assumes "ks \<noteq> []" "list_all key_ok ks"
  shows "order_by_string_sql (print_keys ks) = Inr (Composed [SQL ''ORDER BY '', sql_join '', '' (map key_sql ks)])"
proof -
  have "length ks \<le> Suc (length (print_keys ks))" using length_print_keys [OF assms(2)] by simp
  from order_keys_print [OF assms(2,1) this] show ?thesis by (simp add: order_by_string_sql_def)
qed

theorem order_string_roundtrip_witness:
  "order_by_string_sql (print_keys [([''t'', ''created at''], Some ''DESC'', Some ''LAST''), ([''id''], None, None)]) =
     Inr (Composed [SQL ''ORDER BY '', Composed
       [Composed [Identifier ''t'', SQL ''.'', Identifier ''created at'', SQL '' DESC'', SQL '' NULLS LAST''], SQL '', '',
        Composed [Identifier ''id'']]])"
  using order_string_roundtrip [of "[([''t'', ''created at''], Some ''DESC'', Some ''LAST''), ([''id''], None, None)]"]
  by (simp add: key_ok_def name_ok_def key_sql_def sql_join_def)

subsection \<open>Dictionaries and lists of pairs\<close>

text \<open>The leaves of a nested dictionary, each with the path of its keys.\<close>

function (sequential) order_leaves :: "string list \<Rightarrow> pyval \<Rightarrow> (string list \<times> pyval) list" where
  "order_leaves path (PDict d) = concat (map (\<lambda>p. order_leaves (path @ [fst p]) (snd p)) d)"
| "order_leaves path v = [(path, v)]"
  by pat_completeness auto
termination
proof (relation "measure (\<lambda>(_, v). size v)", goal_cases)
  case (2 path d p)
  then have "size p \<le> size_list size d" for size :: "string \<times> pyval \<Rightarrow> nat"
    by (simp add: size_list_estimation')
  from this [of "size_prod (\<lambda>_. 0) size"] show ?case by (cases p) simp
qed simp

text \<open>Keys without dots, and leaves that are directions as text, no operand of a vector operator.\<close>

function (sequential) sort_dict :: "pyval \<Rightarrow> bool" where
  "sort_dict (PDict d) = (\<forall>p \<in> set d. fst p \<noteq> [] \<and> CHR ''.'' \<notin> set (fst p)
     \<and> \<not> is_vector_operand (to_snake_case (fst p)) (snd p) \<and> sort_dict (snd p))"
| "sort_dict (PStr s) = True"
| "sort_dict v = False"
  by pat_completeness auto
termination
proof (relation "measure size", goal_cases)
  case (2 d p)
  then have "size p \<le> size_list size d" for size :: "string \<times> pyval \<Rightarrow> nat"
    by (simp add: size_list_estimation')
  from this [of "size_prod (\<lambda>_. 0) size"] show ?case by (cases p) simp
qed simp

definition leaf_pair :: "string list \<times> pyval \<Rightarrow> pyval" where
  "leaf_pair l = PTuple [PStr (join_str ''.'' (fst l)), snd l]"

lemma split_join_dots: "ws \<noteq> [] \<Longrightarrow> list_all (\<lambda>w. CHR ''.'' \<notin> set w) ws \<Longrightarrow> split_on (CHR ''.'') (join_str ''.'' ws) = ws"
proof (induction ws)
  case (Cons w ws)
  then show ?case by (cases ws) (simp_all add: split_on_word split_on_append)
qed simp

lemma snake_nonempty: "s \<noteq> [] \<Longrightarrow> to_snake_case s \<noteq> []"
proof -
  assume "s \<noteq> []"
  then have "snake_pass1 s \<noteq> []" by (cases s rule: snake_pass1.cases) (auto simp: Let_def)
  then have "snake_pass2 (snake_pass1 s) \<noteq> []" by (cases "snake_pass1 s" rule: snake_pass2.cases) auto
  then show ?thesis by (simp add: to_snake_case_def lower_def)
qed

lemma join_append_one: "ws \<noteq> [] \<Longrightarrow> join_str sep (ws @ [w]) = join_str sep ws @ sep @ w"
proof (induction ws)
  case (Cons x ws)
  then show ?case by (cases ws) simp_all
qed simp

lemma join_nonempty: "ws \<noteq> [] \<Longrightarrow> list_all (\<lambda>w. w \<noteq> []) ws \<Longrightarrow> join_str sep ws \<noteq> []"
proof (induction ws)
  case (Cons x ws)
  then show ?case by (cases ws) simp_all
qed simp

lemma map_result_grouped:
  "rbind (map_result (\<lambda>p. rbind (map_result f (g p)) (\<lambda>ys. Inr (concat ys))) d) (\<lambda>iss. Inr (concat iss))
   = rbind (map_result f (concat (map g d))) (\<lambda>iss. Inr (concat iss))"
proof (induction d)
  case (Cons p d)
  have app: "map_result f (xs @ ys) = rbind (map_result f xs) (\<lambda>as. rbind (map_result f ys) (\<lambda>bs. Inr (as @ bs)))" for xs ys
  proof (induction xs)
    case (Cons x xs)
    then show ?case by (cases "f x"; cases "map_result f xs"; cases "map_result f ys") simp_all
  qed (cases "map_result f ys"; simp)
  show ?case
  proof (cases "map_result f (g p)")
    case (Inr as)
    with Cons show ?thesis
      by (cases "map_result (\<lambda>p. rbind (map_result f (g p)) (\<lambda>ys. Inr (concat ys))) d"; cases "map_result f (concat (map g d))")
        (simp_all add: app)
  qed (simp add: app)
qed simp

definition good_path :: "string list \<Rightarrow> bool" where
  "good_path path = list_all (\<lambda>w. w \<noteq> [] \<and> CHR ''.'' \<notin> set w) path"

lemma dotted_snake:
  "good_path path \<Longrightarrow> dotted (join_str ''.'' (map to_snake_case path)) (to_snake_case k) = join_str ''.'' (map to_snake_case (path @ [k]))"
proof (cases "path = []")
  case False
  moreover assume "good_path path"
  ultimately have "join_str ''.'' (map to_snake_case path) \<noteq> []"
    by (intro join_nonempty) (auto simp: good_path_def list_all_iff snake_nonempty)
  with False show ?thesis by (simp add: dotted_def join_append_one)
qed (simp add: dotted_def)

lemma leaf_instruction:
  assumes "good_path path" "path \<noteq> []"
  shows "list_item_instructions env (leaf_pair (path, PStr s)) = direction_instruction env (join_str ''.'' (map to_snake_case path)) (PStr s)"
proof -
  have "join_str ''.'' path \<noteq> []" using assms by (intro join_nonempty) (auto simp: good_path_def list_all_iff)
  moreover have "snake_path (join_str ''.'' path) = join_str ''.'' (map to_snake_case path)"
    using assms by (simp add: snake_path_def split_join_dots good_path_def list_all_iff)
  ultimately have i: "order_by_item_from_sequence (leaf_pair (path, PStr s)) =
      rbind (normalize_order_direction (PStr s)) (\<lambda>d. Inr (plain_order (join_str ''.'' (map to_snake_case path)) d))"
    by (simp add: order_by_item_from_sequence_def leaf_pair_def)
  have t: "\<not> has_direction (leaf_pair l)" "\<not> is_dict (leaf_pair l)" "is_tuple (leaf_pair l)" for l
    by (simp_all add: has_direction_def leaf_pair_def)
  show ?thesis
    using t i by (cases "normalize_order_direction (PStr s)")
      (simp_all add: list_item_instructions_def direction_instruction_def plain_order_def)
qed

lemma collect_leaves:
  assumes "sort_dict (PDict d)" "good_path path"
  shows "collect_dict_order_by env (join_str ''.'' (map to_snake_case path)) (PDict d) =
     rbind (map_result (\<lambda>l. list_item_instructions env (leaf_pair l)) (order_leaves path (PDict d))) (\<lambda>iss. Inr (concat iss))"
  using assms
proof (induction "PDict d" arbitrary: d path rule: sort_dict.induct)
  case (1 d)
  let ?pre = "join_str ''.'' (map to_snake_case path)" and ?F = "\<lambda>l. list_item_instructions env (leaf_pair l)"
  let ?E = "\<lambda>p. let name = to_snake_case (fst p); v = snd p; path = dotted ?pre name in
         if v = PNone then Inr []
         else if ?pre \<noteq> [] \<and> is_vector_operand name v then Inr [(plain_order path Asc)\<lparr>ord_value := v\<rparr>]
         else if is_dict v then collect_dict_order_by env path v
         else if is_vector_order_by v then Inr (vector_instructions v path)
         else if is_str v \<or> obj_attr v ''value'' \<noteq> None then direction_instruction env path v
         else Inr []"
  have e: "?E p = rbind (map_result ?F (order_leaves (path @ [fst p]) (snd p))) (\<lambda>ys. Inr (concat ys))" if p: "p \<in> set d" for p
  proof -
    from 1(2) p have g: "good_path (path @ [fst p])" and nv: "\<not> is_vector_operand (to_snake_case (fst p)) (snd p)" and sd: "sort_dict (snd p)"
      using 1(3) by (auto simp: good_path_def)
    note ds = dotted_snake [OF 1(3), of "fst p"]
    show ?thesis
    proof (cases "snd p")
      case (PDict d')
      have "?E p = collect_dict_order_by env (join_str ''.'' (map to_snake_case (path @ [fst p]))) (PDict d')"
        unfolding Let_def ds using PDict nv by simp
      also have "\<dots> = rbind (map_result ?F (order_leaves (path @ [fst p]) (PDict d'))) (\<lambda>ys. Inr (concat ys))"
        by (rule 1(1) [OF p PDict sd [unfolded PDict] g])
      finally show ?thesis unfolding PDict .
    next
      case (PStr s)
      have "?E p = direction_instruction env (join_str ''.'' (map to_snake_case (path @ [fst p]))) (snd p)"
        unfolding Let_def ds using PStr nv by (simp add: is_vector_order_by_def)
      also have "\<dots> = ?F (path @ [fst p], snd p)" using leaf_instruction [OF g] PStr by simp
      finally show ?thesis using PStr by (cases "?F (path @ [fst p], snd p)") simp_all
    qed (use sd in simp_all)
  qed
  have "collect_dict_order_by env ?pre (PDict d) = rbind (map_result ?E d) (\<lambda>iss. Inr (concat iss))" by simp
  also have "map_result ?E d = map_result (\<lambda>p. rbind (map_result ?F (order_leaves (path @ [fst p]) (snd p))) (\<lambda>ys. Inr (concat ys))) d"
    by (rule map_result_cong [OF refl e])
  also have "rbind \<dots> (\<lambda>iss. Inr (concat iss)) = rbind (map_result ?F (concat (map (\<lambda>p. order_leaves (path @ [fst p]) (snd p)) d))) (\<lambda>iss. Inr (concat iss))"
    by (rule map_result_grouped)
  finally show ?case by simp
qed

text \<open>
  A nested dictionary of directions and the list of pairs that names each of its leaves by the
  dotted path of its keys resolve to the same instructions, or to the same error: the two shapes
  cannot sort differently.
\<close>

theorem order_shapes_agree:
  assumes "sort_dict (PDict d)"
  shows "convert_order_by_input env (PDict d) = convert_order_by_input env (PList (map leaf_pair (order_leaves [] (PDict d))))"
proof -
  have m: "map_result (list_item_instructions env) (map leaf_pair ls) = map_result (\<lambda>l. list_item_instructions env (leaf_pair l)) ls" for ls
    by (induction ls) simp_all
  have "\<not> has_direction (PDict d)" "\<not> has_direction (PList vs)" for vs by (simp_all add: has_direction_def)
  with collect_leaves [OF assms, of "[]" env] m show ?thesis
    by (simp only: convert_order_by_input_def Let_def pyval.case pyval.distinct if_False)
      (simp add: good_path_def)
qed

theorem order_shapes_agree_witness:
  "convert_order_by_input \<lparr>default_string_collation = None, is_text_field = (\<lambda>_. False)\<rparr>
     (PDict [(''measures'', PDict [(''unitCost'', PStr ''desc'')]), (''name'', PStr ''ASC'')])
   = Inr (Some [plain_order ''measures.unit_cost'' Desc, plain_order ''name'' Asc])"
proof -
  let ?d = "[(''measures'', PDict [(''unitCost'', PStr ''desc'')]), (''name'', PStr ''ASC'')]"
  have "sort_dict (PDict ?d)" by code_simp
  from order_shapes_agree [OF this, of "\<lparr>default_string_collation = None, is_text_field = (\<lambda>_. False)\<rparr>"]
  show ?thesis by simp code_simp
qed

text \<open>A direction that Python code passes as a bare string is raw SQL.\<close>

lemma bare_direction_is_raw:
  "instruction_sql ''data'' [] [] (plain_order ''name'' (BareDirection ''asc; drop table x'')) =
     Inr (Composed [Composed [SQL ''data'', SQL '' -> '', Literal (PStr ''name'')], SQL '' '', SQL ''ASC; DROP TABLE X''])"
  by code_simp

end
