(* ===== verification/FindQueryProps.thy ===== *)
theory FindQueryProps
  imports FindQuery OrderByProps MandatoryFilters
begin

section \<open>The statement of a repository query\<close>

text \<open>
  The raw texts of the whole statement, its placeholders, and the paths of the JSON object that an
  aggregated query builds.
\<close>

subsection \<open>The vocabulary\<close>

definition query_words :: "string set" where
  "query_words =
     {'''', '' '', ''.'', ''->'', ''->>'', '', '', ''('', '')'', ''(*)'', ''(('', '')::'', ''numeric'', ''json_build_object('',
      ''SELECT '', ''::text FROM '', '' AS t'', '' WHERE '', '' AND '', '' GROUP BY '', '' LIMIT '', '' OFFSET '',
      ''row_to_json(t)'', ''(to_jsonb(t) || jsonb_build_object('', ''))'',
      '', CASE WHEN left(to_jsonb(t) ->> '', '', 1) = '[' AND jsonb_typeof(to_jsonb(t) -> '',
      '') = 'string' THEN (to_jsonb(t) ->> '', '')::jsonb ELSE to_jsonb(t) -> '', '' END''}
     \<union> set allowed_aggregation_funcs"

lemma query_words [simp]:
  "'''' \<in> query_words" "'' '' \<in> query_words" "''.'' \<in> query_words" "''->'' \<in> query_words" "''->>'' \<in> query_words"
  "'', '' \<in> query_words" "''('' \<in> query_words" "'')'' \<in> query_words" "''(*)'' \<in> query_words" "''(('' \<in> query_words"
  "'')::'' \<in> query_words" "''numeric'' \<in> query_words" "''json_build_object('' \<in> query_words" "''SELECT '' \<in> query_words"
  "''::text FROM '' \<in> query_words" "'' AS t'' \<in> query_words" "'' WHERE '' \<in> query_words" "'' AND '' \<in> query_words"
  "'' GROUP BY '' \<in> query_words" "'' LIMIT '' \<in> query_words" "'' OFFSET '' \<in> query_words" "''row_to_json(t)'' \<in> query_words"
  "''(to_jsonb(t) || jsonb_build_object('' \<in> query_words" "''))'' \<in> query_words"
  "'', CASE WHEN left(to_jsonb(t) ->> '' \<in> query_words" "'', 1) = '[' AND jsonb_typeof(to_jsonb(t) -> '' \<in> query_words"
  "'') = 'string' THEN (to_jsonb(t) ->> '' \<in> query_words" "'')::jsonb ELSE to_jsonb(t) -> '' \<in> query_words" "'' END'' \<in> query_words"
  "f \<in> set allowed_aggregation_funcs \<Longrightarrow> f \<in> query_words"
  by (simp_all add: query_words_def)

lemma query_words_no_percent: "w \<in> query_words \<Longrightarrow> ph_count w = Some 0"
  by (auto simp: query_words_def allowed_aggregation_funcs_def)

lemma sort_words_no_percent: "CHR ''%'' \<notin> set t \<Longrightarrow> w \<in> sort_words t \<Longrightarrow> ph_count w = Some 0"
  by (rule ph_count_no_percent) (auto simp: sort_words_def)

subsection \<open>Field expressions\<close>

lemma jsonb_field_texts: "texts (build_jsonb_field_expr fp ref) \<subseteq> query_words"
proof -
  have "texts e \<subseteq> query_words \<Longrightarrow> texts (foldl (\<lambda>e p. Composed [e, SQL ''->'', Literal (PStr p)]) e ps) \<subseteq> query_words" for e ps
    by (induction ps arbitrary: e) auto
  from this [of "Identifier ref"] show ?thesis by (auto simp: build_jsonb_field_expr_def Let_def)
qed

lemma non_jsonb_field_texts: "texts (build_non_jsonb_field_expr fp a) \<subseteq> query_words"
  by (simp add: build_non_jsonb_field_expr_def)

lemma build_field_texts: "texts (build_field g col fp) \<subseteq> query_words"
  using jsonb_field_texts non_jsonb_field_texts by (auto simp: build_field_def split: option.splits)

lemma qualified_texts: "texts (qualified_identifier n) \<subseteq> query_words"
  by (simp add: qualified_identifier_def)

lemma parse_aggregation_func: "parse_aggregation_expr e = Inr (f, x) \<Longrightarrow> f \<in> set allowed_aggregation_funcs"
  by (auto simp: parse_aggregation_expr_def Let_def split: if_splits)

lemma aggregation_entry_texts: "aggregation_entry g col a = Inr (k, e) \<Longrightarrow> texts e \<subseteq> query_words"
  using subsetD [OF build_field_texts]
  by (auto simp: aggregation_entry_def aggregate_call_def rbind_eq_Inr dest!: parse_aggregation_func split: if_splits)

lemma grouped_entries_texts:
  assumes "grouped_entries g col = Inr es" "(k, e) \<in> set es"
  shows "texts e \<subseteq> query_words"
proof -
  from assms(1) obtain aggs where aggs: "map_result (aggregation_entry g col) (aggregations g) = Inr aggs"
    and es: "es = map (\<lambda>fp. (fp, build_field g col fp)) (group_by g) @ aggs"
    by (auto simp: grouped_entries_def rbind_eq_Inr)
  from assms(2) es consider "e = build_field g col k" | "(k, e) \<in> set aggs" by auto
  then show ?thesis using build_field_texts map_result_set [OF aggs] aggregation_entry_texts by cases blast+
qed

subsection \<open>The JSON object\<close>

text \<open>The expressions at the leaves of a tree.\<close>

function leaves :: "json_node \<Rightarrow> composable set" where
  "leaves (Leaf e) = {e}"
| "leaves (Branch node) = (\<Union>p \<in> set node. leaves (snd p))"
  by pat_completeness auto
termination
proof (relation "measure size", goal_cases)
  case (2 node p)
  then have "size p \<le> size_list size node" for size :: "string \<times> json_node \<Rightarrow> nat"
    by (simp add: size_list_estimation')
  from this [of "size_prod (\<lambda>_. 0) size"] show ?case by (cases p) simp
qed simp

lemma render_texts:
  assumes "query_words \<subseteq> V"
  shows "(\<And>e. e \<in> leaves n \<Longrightarrow> texts e \<subseteq> V) \<Longrightarrow> texts (render_node n) \<subseteq> V"
proof (induction n rule: render_node.induct)
  case (2 node)
  let ?ps = "concat (map (\<lambda>p. [SQL '', '', Literal (PStr (fst p)), SQL '', '', render_node (snd p)]) node)"
  have node: "texts (render_node (snd p)) \<subseteq> V" if "p \<in> set node" for p
    by (rule 2(1) [OF that]) (use 2(2) that in auto)
  have "texts c \<subseteq> V" if c: "c \<in> set ?ps" for c
  proof -
    from c have "c = SQL '', '' \<or> (\<exists>p \<in> set node. c = Literal (PStr (fst p)) \<or> c = render_node (snd p))"
      by (auto split: if_splits)
    with node subsetD [OF assms] show ?thesis by (elim disjE bexE) simp_all
  qed
  then have "texts c \<subseteq> V" if "c \<in> set (tl ?ps)" for c using that by (cases ?ps) auto
  then have "texts (sql_join '''' (tl ?ps)) \<subseteq> V" using subsetD [OF assms] by (intro texts_sql_join_sub) auto
  with subsetD [OF assms] show ?case by simp
qed simp

lemma update_leaves: "leaves (Branch (AList.update k v node)) \<subseteq> leaves v \<union> leaves (Branch node)"
proof -
  have "set (AList.update k v node) \<subseteq> insert (k, v) (set node)" by (induction node) auto
  then show ?thesis by force
qed

lemma sub_entries_leaves: "leaves (Branch (sub_entries k node)) \<subseteq> leaves (Branch node)"
proof (cases "map_of node k")
  case (Some v)
  then have "(k, v) \<in> set node" by (rule map_of_SomeD)
  with Some show ?thesis by (cases v) (force simp: sub_entries_def)+
qed (simp add: sub_entries_def)

lemma put_entry_leaves: "leaves (Branch (put_entry ks e node)) \<subseteq> insert e (leaves (Branch node))"
proof (induction ks e node rule: put_entry.induct)
  case (2 k e node)
  then show ?case using update_leaves [of k "Leaf e" node] by simp
next
  case (3 k k' ks e node)
  have "leaves (Branch (put_entry (k # k' # ks) e node))
      \<subseteq> leaves (Branch (put_entry (k' # ks) e (sub_entries k node))) \<union> leaves (Branch node)"
    using update_leaves [of k "Branch (put_entry (k' # ks) e (sub_entries k node))" node] by (simp only: put_entry.simps)
  with 3 sub_entries_leaves [of k node] show ?case by blast
qed auto

lemma entry_tree_leaves: "leaves (Branch (entry_tree es)) \<subseteq> snd ` set es"
proof -
  have "leaves (Branch (foldl (\<lambda>node p. put_entry (split_on CHR ''.'' (fst p)) (snd p) node) n es)) \<subseteq> leaves (Branch n) \<union> snd ` set es" for n
  proof (induction es arbitrary: n)
    case (Cons p es)
    from Cons [of "put_entry (split_on CHR ''.'' (fst p)) (snd p) n"] put_entry_leaves [of "split_on CHR ''.'' (fst p)" "snd p" n]
    show ?case by auto
  qed simp
  from this [of "[]"] show ?thesis by (simp add: entry_tree_def)
qed

lemma nested_object_texts_in:
  "query_words \<subseteq> V \<Longrightarrow> (\<And>k e. (k, e) \<in> set es \<Longrightarrow> texts e \<subseteq> V) \<Longrightarrow> texts (build_nested_json_object es) \<subseteq> V"
  unfolding build_nested_json_object_def using entry_tree_leaves [of es] by (intro render_texts) force+

lemmas nested_object_texts = nested_object_texts_in [OF subset_refl]

subsection \<open>The parts of the statement\<close>

lemma row_json_texts: "texts (row_json cs) \<subseteq> query_words"
proof (cases "cs = []")
  case False
  let ?f = "\<lambda>c. let col = Literal (PStr c) in
          Composed [col, SQL '', CASE WHEN left(to_jsonb(t) ->> '', col, SQL '', 1) = '[' AND jsonb_typeof(to_jsonb(t) -> '', col,
            SQL '') = 'string' THEN (to_jsonb(t) ->> '', col, SQL '')::jsonb ELSE to_jsonb(t) -> '', col, SQL '' END'']"
  have "texts (sql_join '', '' (map ?f cs)) \<subseteq> query_words" by (intro texts_sql_join_sub) (auto simp: Let_def)
  with False show ?thesis by (simp add: row_json_def)
qed (simp add: row_json_def)

lemma select_texts:
  assumes "\<And>k e. (k, e) \<in> set entries \<Longrightarrow> texts e \<subseteq> query_words" "c \<in> set (select_part g col view fcs alias entries)"
  shows "texts c \<subseteq> query_words"
proof -
  have "texts (build_nested_json_object entries) \<subseteq> query_words"
    by (rule nested_object_texts) (rule assms(1))
  with assms(2) qualified_texts [of view] row_json_texts [of fcs] show ?thesis
    by (auto simp: select_part_def Let_def split: option.splits if_splits)
qed

lemma group_texts: "c \<in> set (group_part g col) \<Longrightarrow> texts c \<subseteq> query_words"
proof -
  have "texts (sql_join '', '' (map (build_field g col) (group_by g))) \<subseteq> query_words"
    using build_field_texts by (intro texts_sql_join_sub) auto
  then show "c \<in> set (group_part g col) \<Longrightarrow> texts c \<subseteq> query_words" by (auto simp: group_part_def split: if_splits)
qed

lemma limit_texts: "w \<in> query_words \<Longrightarrow> c \<in> set (limit_part w v) \<Longrightarrow> texts c \<subseteq> query_words"
  by (auto simp: limit_part_def split: if_splits)

lemma sort_words_empty: "sort_words '''' \<subseteq> sort_words t"
  by (auto simp: sort_words_def)

text \<open>The sort part, from a value of any shape.\<close>

lemma order_texts:
  assumes "(case arg of None \<Rightarrow> Inr (None, False) | Some a \<Rightarrow> build_order_by_sql env ty a t ncs m flat) = Inr (sql, al)"
    and "\<forall>a. arg = Some a \<longrightarrow> (\<exists>v. a = OrderValue v)" "order_part arg sql = Inr cs" "c \<in> set cs"
  shows "texts c \<subseteq> sort_words t"
proof (cases sql)
  case (Some s)
  with assms(1) obtain a where a: "arg = Some a" by (auto split: option.splits)
  with assms(2) obtain v where v: "a = OrderValue v" by blast
  obtain obs ncs' where "resolve_order_by_set env ty (OrderValue v) = Inr (Some obs)" "order_set_sql t ncs' m obs = Inr s"
    using assms(1) a v Some by (auto simp: build_order_by_sql_def rbind_eq_Inr Let_def split: option.splits)
  then have "texts s \<subseteq> sort_words t" using resolve_ok order_set_texts by blast
  with assms(3,4) Some show ?thesis by (auto simp: order_part_def)
next
  case None
  with assms(3,4) obtain s x where x: "order_by_string_sql s = Inr x" "c \<in> {SQL '' '', x}"
    by (auto simp: order_part_def rbind_eq_Inr split: option.splits order_arg.splits pyval.splits)
  then show ?thesis using string_texts [OF x(1)] sort_words_empty [of t] by auto
qed

lemma find_query_parts:
  assumes "build_find_query fe rq = Inr (stmt, params)"
    and ov: "\<forall>a. fq_order_by rq = Some a \<longrightarrow> (\<exists>v. a = OrderValue v)"
  obtains filters mandatory parts before after where
    "case filters of Some fs \<Rightarrow> make_mandatory_conditions fs = Inr mandatory | None \<Rightarrow> mandatory = fq_mandatory rq"
    "find_where fe rq mandatory = Inr (parts, params)"
    "stmt = sql_join '''' (before @ (if parts = [] then [] else [SQL '' WHERE '', sql_join '' AND '' parts]) @ after)"
    "\<forall>c \<in> set before. texts c \<subseteq> query_words"
    "\<forall>c \<in> set after. texts c \<subseteq> query_words \<union> sort_words (case fq_jsonb_column rq of Some c \<Rightarrow> c | None \<Rightarrow> ''t'')"
proof -
  let ?g = "effective_grouping fe rq" and ?col = "fq_jsonb_column rq" and ?view = "rq_view (fq_query rq)"
  let ?t = "case ?col of Some c \<Rightarrow> c | None \<Rightarrow> ''t''"
  from assms(1) obtain filters mandatory parts sql al entries order where
    f: "(case filters of Some fs \<Rightarrow> make_mandatory_conditions fs | None \<Rightarrow> Inr (fq_mandatory rq)) = Inr mandatory"
    and w: "find_where fe rq mandatory = Inr (parts, params)"
    and o: "(case fq_order_by rq of None \<Rightarrow> Inr (None, False)
             | Some arg \<Rightarrow> build_order_by_sql (fe_order fe) (fe_type fe) arg ?t (native_dimensions ?g) (dimension_mapping ?g) (?col = None))
           = Inr (sql, al)"
    and e: "(if group_by ?g \<noteq> [] then grouped_entries ?g ?col else Inr []) = Inr entries"
    and op: "order_part (fq_order_by rq) sql = Inr order"
    and stmt: "stmt = sql_join '''' (select_part ?g ?col ?view (fe_float_columns fe) al entries
               @ (if parts = [] then [] else [SQL '' WHERE '', sql_join '' AND '' parts])
               @ group_part ?g ?col @ order
               @ limit_part '' LIMIT '' (fq_limit rq) @ limit_part '' OFFSET '' (fq_offset rq))"
    unfolding build_find_query_def compose_find_def Let_def by (auto simp: rbind_eq_Inr split: if_split_asm prod.splits)
  show thesis
  proof
    show "case filters of Some fs \<Rightarrow> make_mandatory_conditions fs = Inr mandatory | None \<Rightarrow> mandatory = fq_mandatory rq"
      using f by (auto split: option.splits)
    have "texts x \<subseteq> query_words" if "(k, x) \<in> set entries" for k x
      using e that grouped_entries_texts [of ?g ?col entries] by (cases "group_by ?g = []") auto
    then show "\<forall>c \<in> set (select_part ?g ?col ?view (fe_float_columns fe) al entries). texts c \<subseteq> query_words"
      using select_texts by blast
    have "texts c \<subseteq> sort_words ?t" if "c \<in> set order" for c
      by (rule order_texts [OF o ov op that])
    then show "\<forall>c \<in> set (group_part ?g ?col @ order @ limit_part '' LIMIT '' (fq_limit rq) @ limit_part '' OFFSET '' (fq_offset rq)).
        texts c \<subseteq> query_words \<union> sort_words ?t"
      using group_texts limit_texts [of "'' LIMIT ''"] limit_texts [of "'' OFFSET ''"] by (simp add: ball_Un) blast
  qed (use w stmt in simp_all)
qed

subsection \<open>The properties\<close>

text \<open>
  No part of a query injects SQL.  For every filter dictionary, grouping, aggregation, sort order
  in any shape, limit and offset, every raw text of the statement is a word of a fixed vocabulary or
  the configured name of the JSONB column: names and values of the request occur quoted, as
  literals, or as parameters.
\<close>

theorem find_query_injection_safe:
  assumes "build_find_query fe rq = Inr (stmt, params)"
    and "\<forall>arg. rq_where (fq_query rq) = Some arg \<longrightarrow> (\<exists>d. arg_dict arg = Some d \<and> plain (PDict d))"
    and "\<forall>arg. fq_order_by rq = Some arg \<longrightarrow> (\<exists>v. arg = OrderValue v)"
    and "\<forall>p \<in> set (fst (fq_mandatory rq)). texts p \<subseteq> {'' = '', ''%s''}"
  shows "texts stmt \<subseteq> where_vocab \<union> {'' = '', ''%s''} \<union> query_words
    \<union> sort_words (case fq_jsonb_column rq of Some c \<Rightarrow> c | None \<Rightarrow> ''t'')"
proof -
  obtain filters mandatory parts before after where
    m: "case filters of Some fs \<Rightarrow> make_mandatory_conditions fs = Inr mandatory | None \<Rightarrow> mandatory = fq_mandatory rq"
    and w: "find_where fe rq mandatory = Inr (parts, params)"
    and stmt: "stmt = sql_join '''' (before @ (if parts = [] then [] else [SQL '' WHERE '', sql_join '' AND '' parts]) @ after)"
    and t: "\<forall>c \<in> set before. texts c \<subseteq> query_words"
      "\<forall>c \<in> set after. texts c \<subseteq> query_words \<union> sort_words (case fq_jsonb_column rq of Some c \<Rightarrow> c | None \<Rightarrow> ''t'')"
    by (rule find_query_parts [OF assms(1,3)])
  let ?V = "where_vocab \<union> {'' = '', ''%s''} \<union> query_words \<union> sort_words (case fq_jsonb_column rq of Some c \<Rightarrow> c | None \<Rightarrow> ''t'')"
  have "texts p \<subseteq> ?V" if p: "p \<in> set parts" for p
  proof -
    have "texts p \<subseteq> {'' = '', ''%s''}" if "p \<in> set (fst mandatory)"
      using m mandatory_texts assms(4) that by (cases filters) auto
    with where_parts_texts [OF assms(2) w [unfolded find_where_def] p] show ?thesis by blast
  qed
  then have "texts (sql_join '' AND '' parts) \<subseteq> ?V" by (intro texts_sql_join_sub) auto
  then show ?thesis unfolding stmt using t by (intro texts_sql_join_sub) (auto split: if_splits)
qed

text \<open>
  The parameters of a query are those of its WHERE clause.  SELECT, GROUP BY, ORDER BY, LIMIT and
  OFFSET add no placeholder, so the statement has exactly the placeholders of the WHERE parts and is
  executed with exactly their parameters.
\<close>

theorem find_query_placeholders:
  assumes "build_find_query fe rq = Inr (stmt, params)"
    and "\<forall>arg. fq_order_by rq = Some arg \<longrightarrow> (\<exists>v. arg = OrderValue v)"
    and "\<forall>c. fq_jsonb_column rq = Some c \<longrightarrow> CHR ''%'' \<notin> set c"
  shows "\<exists>mandatory parts. find_where fe rq mandatory = Inr (parts, params) \<and> comp_ph stmt = sum_ph (map comp_ph parts)"
proof -
  obtain filters mandatory parts before after where
    "case filters of Some fs \<Rightarrow> make_mandatory_conditions fs = Inr mandatory | None \<Rightarrow> mandatory = fq_mandatory rq"
    and w: "find_where fe rq mandatory = Inr (parts, params)"
    and stmt: "stmt = sql_join '''' (before @ (if parts = [] then [] else [SQL '' WHERE '', sql_join '' AND '' parts]) @ after)"
    and t: "\<forall>c \<in> set before. texts c \<subseteq> query_words"
      "\<forall>c \<in> set after. texts c \<subseteq> query_words \<union> sort_words (case fq_jsonb_column rq of Some c \<Rightarrow> c | None \<Rightarrow> ''t'')"
    by (rule find_query_parts [OF assms(1,2)])
  have "CHR ''%'' \<notin> set (case fq_jsonb_column rq of Some c \<Rightarrow> c | None \<Rightarrow> ''t'')" using assms(3) by (auto split: option.splits)
  then have "comp_ph c = Some 0" if "c \<in> set before \<or> c \<in> set after" for c
    using that t query_words_no_percent sort_words_no_percent by (intro comp_ph_zero) blast
  then have "sum_ph (map comp_ph before) = Some 0" "sum_ph (map comp_ph after) = Some 0" by (auto intro: sum_ph_zero)
  then have "comp_ph stmt = sum_ph (map comp_ph parts)"
    unfolding stmt by (cases "sum_ph (map comp_ph parts)") (auto simp: comp_ph_sql_join sum_ph_append)
  with w show ?thesis by blast
qed

definition example_find_env :: find_env where
  "example_find_env =
     \<lparr>fe_fuel = 9, fe_norm = example_norm_env, fe_where = example_env, fe_type = None,
      fe_order = \<lparr>default_string_collation = None, is_text_field = (\<lambda>_. False)\<rparr>,
      fe_auth_filters = Some [(''users'', [(''tenant_id'', PInt 7)])], fe_field = Some ''users'',
      fe_columns = Some [''id'', ''status''], fe_float_columns = []\<rparr>"

definition example_find_request :: find_request where
  "example_find_request =
     \<lparr>fq_query = example_request, fq_mandatory = ([], []), fq_jsonb_column = Some ''data'',
      fq_grouping = \<lparr>group_by = [''place.city''], aggregations = [(''stats.total'', ''SUM(cost)'')], native_dimensions = [],
        native_measures = [], dimension_mapping = []\<rparr>,
      fq_mapping = Some [], fq_order_by = Some (OrderValue (PDict [(''cost'', PStr ''desc'')])), fq_limit = PInt 5, fq_offset = PNone\<rparr>"

definition example_statement :: composable where
  "example_statement = fst (projr (build_find_query example_find_env example_find_request))"

lemma example_find: "build_find_query example_find_env example_find_request = Inr (example_statement, [PInt 7, PStr ''active''])"
  by code_simp

theorem find_query_injection_safe_witness:
  "render (\<lambda>s. s) py_repr example_statement = ''SELECT json_build_object('place', json_build_object('city', data->'place'->>'city'), 'stats', json_build_object('total', SUM((data->>'cost')::numeric)))::text FROM v_users WHERE tenant_id = %s AND status = %s GROUP BY data->'place'->>'city' ORDER BY data -> 'cost' DESC LIMIT 5''
   \<and> texts example_statement \<subseteq> where_vocab \<union> {'' = '', ''%s''} \<union> query_words \<union> sort_words ''data''"
proof
  show "render (\<lambda>s. s) py_repr example_statement = ''SELECT json_build_object('place', json_build_object('city', data->'place'->>'city'), 'stats', json_build_object('total', SUM((data->>'cost')::numeric)))::text FROM v_users WHERE tenant_id = %s AND status = %s GROUP BY data->'place'->>'city' ORDER BY data -> 'cost' DESC LIMIT 5''"
    by code_simp
  show "texts example_statement \<subseteq> where_vocab \<union> {'' = '', ''%s''} \<union> query_words \<union> sort_words ''data''"
    using find_query_injection_safe [OF example_find] by (simp add: example_find_request_def example_request_def)
qed

theorem find_query_placeholders_witness:
  "comp_ph example_statement = Some 2
   \<and> (\<exists>mandatory parts. find_where example_find_env example_find_request mandatory = Inr (parts, [PInt 7, PStr ''active''])
      \<and> comp_ph example_statement = sum_ph (map comp_ph parts))"
proof
  show "comp_ph example_statement = Some 2" by code_simp
qed (rule find_query_placeholders [OF example_find]; simp add: example_find_request_def)

text \<open>
  The sort key of a grouped dimension is not the expression that is grouped: the first is the JSON
  value, of the bare name of the column, and the second the text, of the quoted name.
\<close>

lemma sort_key_is_not_grouped:
  "build_field (fq_grouping example_find_request) (Some ''data'') ''city''
     = Composed [Identifier ''data'', SQL ''->>'', Literal (PStr ''city'')]
   \<and> instruction_sql ''data'' [] [] (plain_order ''city'' Asc)
     = Inr (Composed [Composed [SQL ''data'', SQL '' -> '', Literal (PStr ''city'')], SQL '' '', SQL ''ASC''])"
  by code_simp

subsection \<open>The paths of the JSON object\<close>

text \<open>The expression at a path of keys.\<close>

fun leaf_at :: "string list \<Rightarrow> (string \<times> json_node) list \<Rightarrow> composable option" where
  "leaf_at [] node = None"
| "leaf_at (k # ks) node =
     (case map_of node k of
        None \<Rightarrow> None
      | Some (Leaf e) \<Rightarrow> if ks = [] then Some e else None
      | Some (Branch b) \<Rightarrow> leaf_at ks b)"

lemma leaf_at_sub_entries: "ks \<noteq> [] \<Longrightarrow> leaf_at ks (sub_entries k node) = leaf_at (k # ks) node"
  by (cases ks) (auto simp: sub_entries_def split: option.splits json_node.splits)

lemma leaf_at_update:
  "leaf_at (k' # ks) (AList.update k v node) =
     (if k' = k then (case v of Leaf e \<Rightarrow> if ks = [] then Some e else None | Branch b \<Rightarrow> leaf_at ks b) else leaf_at (k' # ks) node)"
  by (simp add: AList.update_conv' split: json_node.split)

lemma leaf_at_put:
  "ks \<noteq> [] \<Longrightarrow> leaf_at path (put_entry ks e node) =
     (if path = ks then Some e else if Sublist.prefix path ks \<or> Sublist.prefix ks path then None else leaf_at path node)"
proof (induction ks e node arbitrary: path rule: put_entry.induct)
  case (2 k e node)
  then show ?case by (cases path) (auto simp: leaf_at_update simp del: leaf_at.simps(2))
next
  case (3 k k' ks e node)
  show ?case
  proof (cases path)
    case (Cons p ps)
    show ?thesis
    proof (cases "p = k \<and> ps \<noteq> []")
      case True
      with Cons 3(1) [of ps] leaf_at_sub_entries [of ps k node] show ?thesis
        by (simp add: leaf_at_update del: leaf_at.simps(2))
    qed (use Cons in \<open>auto simp: leaf_at_update simp del: leaf_at.simps(2)\<close>)
  qed simp
qed simp

lemma split_on_not_Nil [simp]: "split_on d s \<noteq> []"
  by (induction d s rule: split_on.induct) (auto simp: Let_def split: list.splits)

text \<open>
  An aggregated query returns every requested value at its place.  When no two entries have the
  same path and no path runs through another, the object that is built holds exactly the
  expressions of the entries, each at the path its dotted name spells.
\<close>

theorem nested_json_paths:
  assumes "distinct (map (\<lambda>p. split_on CHR ''.'' (fst p)) es)"
    and "pairwise (\<lambda>p q. \<not> Sublist.prefix (split_on CHR ''.'' (fst p)) (split_on CHR ''.'' (fst q))) (set es)"
  shows "leaf_at path (entry_tree es) = Some e \<longleftrightarrow> (\<exists>k. (k, e) \<in> set es \<and> split_on CHR ''.'' k = path)"
  using assms
proof (induction es arbitrary: e rule: rev_induct)
  case Nil
  then show ?case by (cases path) (auto simp: entry_tree_def)
next
  case (snoc p es)
  let ?w = "\<lambda>p. split_on CHR ''.'' (fst p)"
  have step: "entry_tree (es @ [p]) = put_entry (?w p) (snd p) (entry_tree es)" by (simp add: entry_tree_def)
  have distinct: "distinct (map ?w es)" "?w p \<notin> ?w ` set es" using snoc.prems(1) by simp_all
  have IH: "leaf_at path (entry_tree es) = Some e \<longleftrightarrow> (\<exists>k. (k, e) \<in> set es \<and> split_on CHR ''.'' k = path)"
    by (rule snoc.IH [OF distinct(1)]) (use snoc.prems(2) in \<open>simp add: pairwise_insert\<close>)
  consider "path = ?w p" | "path \<noteq> ?w p" "Sublist.prefix path (?w p) \<or> Sublist.prefix (?w p) path"
    | "path \<noteq> ?w p" "\<not> Sublist.prefix path (?w p)" "\<not> Sublist.prefix (?w p) path" by blast
  then show ?case
  proof cases
    case 1
    then have "(k, e) \<notin> set es" if "split_on CHR ''.'' k = path" for k
      using distinct(2) that imageI [of "(k, e)" "set es" ?w] 1 by auto
    moreover have "leaf_at path (entry_tree (es @ [p])) = Some (snd p)" using 1 by (simp add: step leaf_at_put)
    ultimately show ?thesis using 1 by (cases p) auto
  next
    case 2
    have "split_on CHR ''.'' k \<noteq> path" if "(k, e) \<in> set (es @ [p])" for k
    proof
      assume k: "split_on CHR ''.'' k = path"
      with 2 have "(k, e) \<noteq> p" by auto
      then show False using snoc.prems(2) that k 2(2) unfolding pairwise_def by (auto dest!: bspec)
    qed
    moreover have "leaf_at path (entry_tree (es @ [p])) = None" using 2 by (auto simp: step leaf_at_put)
    ultimately show ?thesis by auto
  next
    case 3
    then have "leaf_at path (entry_tree (es @ [p])) = leaf_at path (entry_tree es)" by (simp add: step leaf_at_put)
    with IH 3(1) show ?thesis by (cases p) auto
  qed
qed

theorem nested_json_paths_witness:
  "leaf_at [''place'', ''city''] (entry_tree [(''place.city'', SQL ''a''), (''place.zip'', SQL ''b''), (''n'', SQL ''c'')]) = Some (SQL ''a'')"
  by (subst nested_json_paths) (auto simp: pairwise_def)

end
