(* ===== verification/UnionQueryProps.thy ===== *)
theory UnionQueryProps
  imports UnionQuery FindQueryProps WindowRewrite
begin

section \<open>The union of a partial-period query\<close>

text \<open>
  The raw texts and the placeholders of the union, the alignment of the sort keys that its branches
  project with the columns the wrapper names, and what \<open>find\<close> does with mandatory filters, limit and
  offset on its two paths.
\<close>

subsection \<open>The vocabulary\<close>

definition union_words :: "string set" where
  "union_words =
     {''date_trunc('', '', t.'', '')::date'', ''MAKE_DATE(EXTRACT(YEAR FROM t.'', '')::int, CASE WHEN EXTRACT(MONTH FROM t.'',
      '') <= 6 THEN 1 ELSE 7 END, 1)'', ''CASE WHEN EXTRACT(DAY FROM t.'', '') <= 15 THEN date_trunc('month', t.'',
      '')::date ELSE date_trunc('month', t.'', '')::date + 15 END'', ''t.'', '' >= '', '' < '', ''::text'', ''*'', '' FROM '',
      '' AS t WHERE '', '' UNION ALL '', '' ORDER BY 1'', '' FROM ('', '') AS '', '') ORDER BY ''}
     \<union> query_words \<union> sort_words ''t''"

lemma union_words [simp]:
  "''date_trunc('' \<in> union_words" "'', t.'' \<in> union_words" "'')::date'' \<in> union_words"
  "''MAKE_DATE(EXTRACT(YEAR FROM t.'' \<in> union_words" "'')::int, CASE WHEN EXTRACT(MONTH FROM t.'' \<in> union_words"
  "'') <= 6 THEN 1 ELSE 7 END, 1)'' \<in> union_words" "''CASE WHEN EXTRACT(DAY FROM t.'' \<in> union_words"
  "'') <= 15 THEN date_trunc('month', t.'' \<in> union_words" "'')::date ELSE date_trunc('month', t.'' \<in> union_words"
  "'')::date + 15 END'' \<in> union_words" "''t.'' \<in> union_words" "'' >= '' \<in> union_words" "'' < '' \<in> union_words"
  "''::text'' \<in> union_words" "''*'' \<in> union_words" "'' FROM '' \<in> union_words" "'' AS t WHERE '' \<in> union_words"
  "'' UNION ALL '' \<in> union_words" "'' ORDER BY 1'' \<in> union_words" "'' FROM ('' \<in> union_words" "'') AS '' \<in> union_words"
  "'') ORDER BY '' \<in> union_words"
  "w \<in> query_words \<Longrightarrow> w \<in> union_words" "w \<in> sort_words ''t'' \<Longrightarrow> w \<in> union_words"
  by (simp_all add: union_words_def)

lemma union_words_no_percent: "w \<in> union_words \<Longrightarrow> ph_count w = Some 0"
  using query_words_no_percent sort_words_no_percent [of "''t''"]
  by (auto simp: union_words_def)

lemma queried: "texts c \<subseteq> query_words \<Longrightarrow> texts c \<subseteq> union_words" and sorted: "texts c \<subseteq> sort_words ''t'' \<Longrightarrow> texts c \<subseteq> union_words"
  by auto

subsection \<open>A branch\<close>

lemma trunc_texts: "build_trunc_expr g c = Inr e \<Longrightarrow> texts e \<subseteq> union_words"
  by (auto simp: build_trunc_expr_def split: if_splits)

lemma branch_field_texts: "branch_field be g fp = Inr e \<Longrightarrow> texts e \<subseteq> union_words"
  by (auto simp: branch_field_def split: if_splits option.splits
      dest: subsetD [OF trunc_texts] subsetD [OF jsonb_field_texts] subsetD [OF non_jsonb_field_texts])

lemma branch_aggregation_texts: "branch_aggregation be g a = Inr (k, e) \<Longrightarrow> texts e \<subseteq> union_words"
  by (auto simp: branch_aggregation_def aggregate_call_def rbind_eq_Inr dest!: parse_aggregation_func dest: subsetD [OF branch_field_texts] split: if_splits)

lemma branch_groups_texts: "branch_groups be g = Inr es \<Longrightarrow> e \<in> set es \<Longrightarrow> texts e \<subseteq> union_words"
  using map_result_set branch_field_texts unfolding branch_groups_def by fast

lemma branch_entries_texts:
  assumes "branch_entries be g = Inr es" "(k, e) \<in> set es"
  shows "texts e \<subseteq> union_words"
proof -
  from assms(1) obtain groups aggs where g: "branch_groups be g = Inr groups"
    and a: "map_result (branch_aggregation be g) (aggregations (br_grouping be)) = Inr aggs"
    and es: "es = zip (group_by (br_grouping be)) groups @ aggs"
    by (auto simp: branch_entries_def rbind_eq_Inr)
  from assms(2) es consider "e \<in> set groups" | "(k, e) \<in> set aggs" by (auto dest: set_zip_rightD)
  then show ?thesis using branch_groups_texts [OF g] map_result_set [OF a] branch_aggregation_texts by cases blast+
qed

lemma sort_expr_entry:
  assumes "branch_sort_exprs es ks = Inr sorts"
  shows "list_all2 (\<lambda>k e. map_of (rev es) k = Some e) ks sorts"
  using assms unfolding branch_sort_exprs_def map_result_Inr_iff by (rule list_all2_mono) (auto split: option.splits)

text \<open>A branch: its select list, its conditions, and what follows; only the conditions have placeholders.\<close>

lemma branch_parts:
  assumes "build_branch be view g window = Inr b"
  obtains before after where "b = Composed (before @ [sql_join '' AND '' (branch_where be window)] @ after)"
    "\<forall>c \<in> set (before @ after). texts c \<subseteq> union_words"
proof -
  from assms obtain groups entries sorts where
    g: "branch_groups be g = Inr groups" and e: "branch_entries be g = Inr entries" and s: "branch_sort_exprs entries (br_keys be) = Inr sorts"
    and b: "b = Composed
         ([SQL ''SELECT '', build_nested_json_object entries, SQL ''::text'']
          @ concat (map (\<lambda>e. [SQL '', '', e]) sorts)
          @ [SQL '' FROM '', qualified_identifier view, SQL '' AS t WHERE '', sql_join '' AND '' (branch_where be window)]
          @ (if groups = [] then [] else [SQL '' GROUP BY '', sql_join '', '' groups]))"
    by (auto simp: build_branch_def rbind_eq_Inr)
  let ?before = "[SQL ''SELECT '', build_nested_json_object entries, SQL ''::text''] @ concat (map (\<lambda>e. [SQL '', '', e]) sorts)
      @ [SQL '' FROM '', qualified_identifier view, SQL '' AS t WHERE '']"
  let ?after = "if groups = [] then [] else [SQL '' GROUP BY '', sql_join '', '' groups]"
  have nested: "texts (build_nested_json_object entries) \<subseteq> union_words"
    by (rule nested_object_texts_in) (use branch_entries_texts [OF e] in auto)
  have sorts: "texts c \<subseteq> union_words" if "c \<in> set sorts" for c
  proof -
    from that sort_expr_entry [OF s] obtain k where "map_of (rev entries) k = Some c"
      by (auto simp: list_all2_conv_all_nth in_set_conv_nth)
    then have "(k, c) \<in> set entries" using map_of_SomeD by fastforce
    then show ?thesis by (rule branch_entries_texts [OF e])
  qed
  have groups: "texts (sql_join '', '' groups) \<subseteq> union_words"
    using branch_groups_texts [OF g] by (intro texts_sql_join_sub) auto
  show thesis
  proof
    show "b = Composed (?before @ [sql_join '' AND '' (branch_where be window)] @ ?after)" using b by simp
    show "\<forall>c \<in> set (?before @ ?after). texts c \<subseteq> union_words"
      using nested sorts groups queried [OF qualified_texts [of view]] by auto
  qed
qed

subsection \<open>The sort keys\<close>

lemma union_order_steps_keys:
  assumes "union_order_steps P obs keys terms = (keys', terms')" "distinct keys" "set keys \<subseteq> P"
  shows "distinct keys' \<and> set keys' \<subseteq> P \<and> Sublist.prefix keys keys'"
  using assms
proof (induction P obs keys terms rule: union_order_steps.induct)
  case (2 P ob obs keys terms)
  then show ?case by (auto simp: Let_def split: if_splits dest: prefix_order.trans [rotated])
qed auto

lemma position_nth: "k \<in> set ks \<Longrightarrow> position k ks < length ks \<and> ks ! position k ks = k"
  by (induction ks) auto

lemma position_prefix: "k \<in> set ks \<Longrightarrow> Sublist.prefix ks ks' \<Longrightarrow> position k ks = position k ks'"
proof (induction ks arbitrary: ks')
  case (Cons x ks)
  then show ?case by (cases ks') auto
qed simp

lemma union_order_steps_terms:
  assumes "union_order_steps P obs keys terms = (keys', terms')"
  shows "terms' = terms @ map (union_order_term keys') (filter (\<lambda>ob. ord_field ob \<in> P) obs)"
  using assms
proof (induction P obs keys terms rule: union_order_steps.induct)
  case (2 P ob obs keys terms)
  show ?case
  proof (cases "ord_field ob \<in> P")
    case True
    let ?k = "if ord_field ob \<in> set keys then keys else keys @ [ord_field ob]"
    from True 2(3) have rest: "union_order_steps P obs ?k (terms @ [union_order_term ?k ob]) = (keys', terms')" by (simp add: Let_def)
    have "Sublist.prefix ks ks'" if "union_order_steps P obs ks ts = (ks', ts')" for ks ts ks' ts'
      using that by (induction P obs ks ts rule: union_order_steps.induct) (auto simp: Let_def split: if_splits dest: prefix_order.trans [rotated])
    from this [OF rest] have "position (ord_field ob) ?k = position (ord_field ob) keys'" by (intro position_prefix) auto
    then have "union_order_term ?k ob = union_order_term keys' ob" by (simp only: union_order_term_def)
    with 2(2) [OF _ refl, of] True rest show ?thesis by simp
  qed (use 2 in simp)
qed simp

lemma term_texts: "instruction_ok ob \<Longrightarrow> texts (union_order_term ks ob) \<subseteq> union_words"
  by (auto simp: union_order_term_def instruction_ok_def direction_sql_def split: option.splits)

subsection \<open>The statement\<close>

lemma union_branches:
  assumes "build_partial_period_union_query env today ur = Inr (stmt, params)"
  obtains segs extra ps keys terms branches where
    "union_segments_for (ur_trunc ur) (ur_bounds ur) today = Inr segs"
    "extra_where_sql env (ur_extra ur) = Inr (extra, ps)"
    "union_order_terms (ur_order ur) (ur_grouping ur) = (keys, terms)"
    "list_all2 (\<lambda>s b. union_branch ur (shared_env ur extra keys) s = Inr b) segs branches"
    "stmt = union_statement keys terms (union_all branches)"
    "params = concat (map (\<lambda>_. ps) branches)"
proof (cases "union_order_terms (ur_order ur) (ur_grouping ur)")
  case (Pair keys terms)
  with assms show thesis unfolding build_partial_period_union_query_def
    by (auto simp: rbind_eq_Inr map_result_Inr_iff intro: that)
qed

lemma segment_branch:
  assumes "union_branch ur be s = Inr b"
  obtains before after window where "b = Composed (before @ [sql_join '' AND '' (branch_where be window)] @ after)"
    "\<forall>c \<in> set (before @ after). texts c \<subseteq> union_words"
  using assms
  by (auto simp: union_branch_def build_fine_grain_branch_def build_coarse_branch_def split: segment.splits elim!: branch_parts)

lemma union_all_cases:
  obtains (one) b where "bs = [b]" "union_all bs = b"
  | (more) "union_all bs = Composed (tl (concat (map (\<lambda>b. [SQL '' UNION ALL '', b]) bs)))"
  unfolding union_all_def by (cases bs; cases "tl bs") auto

lemma union_all_texts:
  assumes "\<And>b. b \<in> set bs \<Longrightarrow> texts b \<subseteq> V" "'' UNION ALL '' \<in> V"
  shows "texts (union_all bs) \<subseteq> V"
proof -
  have "texts c \<subseteq> V" if "c \<in> set (concat (map (\<lambda>b. [SQL '' UNION ALL '', b]) bs))" for c
    using that assms by (auto split: if_splits)
  moreover have "set (tl xs) \<subseteq> set xs" for xs :: "composable list" by (cases xs) auto
  ultimately have "texts c \<subseteq> V" if "c \<in> set (tl (concat (map (\<lambda>b. [SQL '' UNION ALL '', b]) bs)))" for c
    using that by (meson subsetD)
  then have "texts (Composed (tl (concat (map (\<lambda>b. [SQL '' UNION ALL '', b]) bs)))) \<subseteq> V"
    unfolding texts.simps by (rule UN_least)
  then show ?thesis using assms(1) by (cases bs rule: union_all_cases) simp_all
qed

lemma statement_texts:
  assumes "texts u \<subseteq> V" "union_words \<subseteq> V" "\<forall>c \<in> set terms. texts c \<subseteq> union_words"
  shows "texts (union_statement keys terms u) \<subseteq> V"
proof -
  have "texts (sql_join '', '' terms) \<subseteq> union_words" using assms(3) by (intro texts_sql_join_sub) auto
  moreover have "texts (sql_join '', '' (Identifier ''d'' # map (\<lambda>i. Identifier (sort_column i)) [0..<length keys])) \<subseteq> union_words"
    by (intro texts_sql_join_sub) auto
  ultimately show ?thesis using assms(1,2) subsetD [OF assms(2)] by (auto simp: union_statement_def)
qed

subsection \<open>Raw texts and placeholders\<close>

lemma conditions_texts:
  assumes "\<forall>e. br_extra be = Some e \<longrightarrow> texts e \<subseteq> V" "union_words \<subseteq> V" "'' AND '' \<in> V"
  shows "texts (sql_join '' AND '' (branch_where be window)) \<subseteq> V"
proof (rule texts_sql_join_sub [OF assms(3)])
  fix c assume "c \<in> set (branch_where be window)"
  then consider "c \<in> set (take 2 (branch_where be window))" | "br_extra be = Some c"
    by (auto simp: branch_where_def split: option.splits)
  then show "texts c \<subseteq> V"
    using assms(1) subsetD [OF assms(2)] by cases (auto simp: branch_where_def t_column_def date_literal_def)
qed

lemma conditions_ph:
  assumes "case br_extra be of None \<Rightarrow> n = 0 | Some e \<Rightarrow> comp_ph e = Some n"
  shows "comp_ph (sql_join '' AND '' (branch_where be window)) = Some n"
  using assms
  by (auto simp: comp_ph_sql_join branch_where_def t_column_def date_literal_def ph_count_no_percent split: option.splits)

lemma extra_where_texts:
  assumes "extra_where_sql env extra = Inr (Some s, ps)"
    and "\<forall>c. extra = Some c \<longrightarrow> clause_valid c \<and> (\<forall>fc \<in> clause_conditions c. condition_typed fc)"
  shows "texts s \<subseteq> where_vocab"
proof -
  from assms(1) obtain c where "extra = Some c" "clause_to_sql env c = Inr (Some s, ps)"
    by (auto simp: extra_where_sql_def rbind_eq_Inr split: option.splits)
  with clause_words.clause_good [of c env s ps] assms(2) show ?thesis by simp
qed

lemma extra_where_ph:
  assumes "extra_where_sql env extra = Inr (sql, ps)"
    and "\<forall>c. extra = Some c \<longrightarrow> clause_valid c \<and> (\<forall>fc \<in> clause_conditions c. condition_ok fc)"
  shows "case sql of None \<Rightarrow> length ps = 0 | Some s \<Rightarrow> comp_ph s = Some (length ps)"
proof (cases sql)
  case (Some s)
  with assms(1) obtain c where "extra = Some c" "clause_to_sql env c = Inr (Some s, ps)"
    by (auto simp: extra_where_sql_def rbind_eq_Inr split: option.splits)
  with clause_ph.clause_good [of c env s ps] assms(2) Some show ?thesis by simp
qed (use assms(1) in \<open>auto simp: extra_where_sql_def rbind_eq_Inr split: option.splits\<close>)

lemma union_all_ph: "comp_ph (union_all bs) = sum_ph (map comp_ph bs)"
proof -
  have joined: "comp_ph (Composed (tl (concat (map (\<lambda>b. [SQL '' UNION ALL '', b]) bs)))) = sum_ph (map comp_ph bs)"
  proof (cases bs)
    case (Cons b bs')
    have "sum_ph (map comp_ph (concat (map (\<lambda>b. [SQL '' UNION ALL '', b]) bs'))) = sum_ph (map comp_ph bs')" for bs'
      by (induction bs') (simp_all add: ph_count_no_percent)
    with Cons show ?thesis by simp
  qed simp
  show ?thesis
  proof (cases bs rule: union_all_cases)
    case (one b)
    then show ?thesis by (cases "comp_ph b") simp_all
  qed (use joined in simp)
qed

lemma statement_ph:
  assumes "\<forall>c \<in> set terms. texts c \<subseteq> union_words"
  shows "comp_ph (union_statement keys terms u) = comp_ph u"
proof -
  have "texts (sql_join '', '' terms) \<subseteq> union_words" using assms by (intro texts_sql_join_sub) auto
  moreover have "texts (sql_join '', '' (Identifier ''d'' # map (\<lambda>i. Identifier (sort_column i)) [0..<length keys])) \<subseteq> union_words"
    by (intro texts_sql_join_sub) auto
  ultimately have "comp_ph (sql_join '', '' terms) = Some 0"
    "comp_ph (sql_join '', '' (Identifier ''d'' # map (\<lambda>i. Identifier (sort_column i)) [0..<length keys])) = Some 0"
    using union_words_no_percent by (auto intro!: comp_ph_zero)
  then show ?thesis by (cases "comp_ph u") (auto simp: union_statement_def ph_count_no_percent)
qed

lemma terms_in_words:
  assumes "union_order_terms obs g = (keys, terms)" "\<forall>os. obs = Some os \<longrightarrow> (\<forall>ob \<in> set os. instruction_ok ob)"
  shows "\<forall>c \<in> set terms. texts c \<subseteq> union_words"
proof -
  from union_order_steps_terms [OF assms(1) [unfolded union_order_terms_def]]
  have "terms = map (union_order_term keys) (filter (\<lambda>ob. ord_field ob \<in> set (group_by g) \<union> set (map fst (aggregations g)))
      (case obs of Some xs \<Rightarrow> xs | None \<Rightarrow> []))" by simp
  with assms(2) show ?thesis using term_texts by (auto split: option.splits)
qed

text \<open>
  No part of a partial-period query injects SQL.  Whatever the filter, the grouping, the
  aggregations and the sort order hold, every raw text of the union is a word of a fixed vocabulary.
\<close>

theorem union_injection_safe:
  assumes "build_partial_period_union_query env today ur = Inr (stmt, params)"
    and "\<forall>c. ur_extra ur = Some c \<longrightarrow> clause_valid c \<and> (\<forall>fc \<in> clause_conditions c. condition_typed fc)"
    and "\<forall>obs. ur_order ur = Some obs \<longrightarrow> (\<forall>ob \<in> set obs. instruction_ok ob)"
  shows "texts stmt \<subseteq> where_vocab \<union> union_words"
proof -
  obtain segs extra ps keys terms branches where
    "union_segments_for (ur_trunc ur) (ur_bounds ur) today = Inr segs"
    and e: "extra_where_sql env (ur_extra ur) = Inr (extra, ps)" and t: "union_order_terms (ur_order ur) (ur_grouping ur) = (keys, terms)"
    and b: "list_all2 (\<lambda>s b. union_branch ur (shared_env ur extra keys) s = Inr b) segs branches"
    and stmt: "stmt = union_statement keys terms (union_all branches)" and "params = concat (map (\<lambda>_. ps) branches)"
    by (rule union_branches [OF assms(1)])
  have "texts x \<subseteq> where_vocab" if "extra = Some x" for x using extra_where_texts [OF _ assms(2)] e that by simp
  then have extra: "\<forall>x. extra = Some x \<longrightarrow> texts x \<subseteq> where_vocab \<union> union_words" by blast
  have "texts c \<subseteq> where_vocab \<union> union_words" if "c \<in> set branches" for c
  proof -
    from b that obtain s where "union_branch ur (shared_env ur extra keys) s = Inr c" by (auto simp: list_all2_conv_all_nth in_set_conv_nth)
    then obtain before after window where "c = Composed (before @ [sql_join '' AND '' (branch_where (shared_env ur extra keys) window)] @ after)"
      and "\<forall>c \<in> set (before @ after). texts c \<subseteq> union_words" by (rule segment_branch)
    with conditions_texts [where be = "shared_env ur extra keys" and V = "where_vocab \<union> union_words"] extra show ?thesis
      by (simp add: shared_env_def) blast
  qed
  then have "texts (union_all branches) \<subseteq> where_vocab \<union> union_words" by (rule union_all_texts) auto
  then show ?thesis unfolding stmt by (rule statement_texts [OF _ _ terms_in_words [OF t assms(3)]]) auto
qed

text \<open>
  The parameters of a partial-period query match its placeholders.  The filter is repeated in
  every branch and so are its parameters: for one, two or three branches the union has exactly one
  placeholder for each parameter.
\<close>

theorem union_placeholders:
  assumes "build_partial_period_union_query env today ur = Inr (stmt, params)"
    and "\<forall>c. ur_extra ur = Some c \<longrightarrow> clause_valid c \<and> (\<forall>fc \<in> clause_conditions c. condition_ok fc)"
    and "\<forall>obs. ur_order ur = Some obs \<longrightarrow> (\<forall>ob \<in> set obs. instruction_ok ob)"
  shows "comp_ph stmt = Some (length params)"
proof -
  obtain segs extra ps keys terms branches where
    "union_segments_for (ur_trunc ur) (ur_bounds ur) today = Inr segs"
    and e: "extra_where_sql env (ur_extra ur) = Inr (extra, ps)" and t: "union_order_terms (ur_order ur) (ur_grouping ur) = (keys, terms)"
    and b: "list_all2 (\<lambda>s b. union_branch ur (shared_env ur extra keys) s = Inr b) segs branches"
    and stmt: "stmt = union_statement keys terms (union_all branches)" and params: "params = concat (map (\<lambda>_. ps) branches)"
    by (rule union_branches [OF assms(1)])
  have branch: "comp_ph c = Some (length ps)" if "c \<in> set branches" for c
  proof -
    from b that obtain s where "union_branch ur (shared_env ur extra keys) s = Inr c" by (auto simp: list_all2_conv_all_nth in_set_conv_nth)
    then obtain before after window where c: "c = Composed (before @ [sql_join '' AND '' (branch_where (shared_env ur extra keys) window)] @ after)"
      and "\<forall>c \<in> set (before @ after). texts c \<subseteq> union_words" by (rule segment_branch)
    then have "comp_ph x = Some 0" if "x \<in> set before \<or> x \<in> set after" for x
      using that union_words_no_percent by (intro comp_ph_zero) auto
    then have "sum_ph (map comp_ph before) = Some 0" "sum_ph (map comp_ph after) = Some 0" by (auto intro: sum_ph_zero)
    with conditions_ph [where n = "length ps" and be = "shared_env ur extra keys"] extra_where_ph [OF e assms(2)] show ?thesis
      unfolding c by (simp add: sum_ph_append shared_env_def)
  qed
  have "sum_ph (map comp_ph branches) = Some (length params)"
    unfolding params using branch by (induction branches) auto
  then show ?thesis unfolding stmt statement_ph [OF terms_in_words [OF t assms(3)]] union_all_ph .
qed

subsection \<open>Sorting a union\<close>

lemma branch_projects:
  assumes "build_branch be view g window = Inr b"
  shows "\<exists>groups aggs sorts rest. branch_groups be g = Inr groups
    \<and> map_result (branch_aggregation be g) (aggregations (br_grouping be)) = Inr aggs
    \<and> b = Composed ([SQL ''SELECT '', build_nested_json_object (zip (group_by (br_grouping be)) groups @ aggs), SQL ''::text'']
          @ concat (map (\<lambda>e. [SQL '', '', e]) sorts) @ SQL '' FROM '' # rest)
    \<and> list_all2 (\<lambda>k e. (k, e) \<in> set (zip (group_by (br_grouping be)) groups) \<union> set aggs) (br_keys be) sorts"
proof -
  from assms obtain groups aggs sorts where
    g: "branch_groups be g = Inr groups" and a: "map_result (branch_aggregation be g) (aggregations (br_grouping be)) = Inr aggs"
    and s: "branch_sort_exprs (zip (group_by (br_grouping be)) groups @ aggs) (br_keys be) = Inr sorts"
    and b: "b = Composed
         ([SQL ''SELECT '', build_nested_json_object (zip (group_by (br_grouping be)) groups @ aggs), SQL ''::text'']
          @ concat (map (\<lambda>e. [SQL '', '', e]) sorts)
          @ [SQL '' FROM '', qualified_identifier view, SQL '' AS t WHERE '', sql_join '' AND '' (branch_where be window)]
          @ (if groups = [] then [] else [SQL '' GROUP BY '', sql_join '', '' groups]))"
    by (auto simp: build_branch_def branch_entries_def rbind_eq_Inr)
  have "(k, e) \<in> set (zip (group_by (br_grouping be)) groups) \<union> set aggs"
    if "map_of (rev (zip (group_by (br_grouping be)) groups @ aggs)) k = Some e" for k e
    using map_of_SomeD [OF that] by auto
  then have "list_all2 (\<lambda>k e. (k, e) \<in> set (zip (group_by (br_grouping be)) groups) \<union> set aggs) (br_keys be) sorts"
    using sort_expr_entry [OF s] by (rule list_all2_mono [rotated])
  moreover have "b = Composed ([SQL ''SELECT '', build_nested_json_object (zip (group_by (br_grouping be)) groups @ aggs), SQL ''::text'']
          @ concat (map (\<lambda>e. [SQL '', '', e]) sorts)
          @ SQL '' FROM '' # ([qualified_identifier view, SQL '' AS t WHERE '', sql_join '' AND '' (branch_where be window)]
          @ (if groups = [] then [] else [SQL '' GROUP BY '', sql_join '', '' groups])))"
    using b by simp
  ultimately show ?thesis using g a by blast
qed

text \<open>
  A sorted partial-period query sorts by what was asked.  Every branch projects, behind the JSON
  object, its own grouped expression or aggregate for each sort key, in the same order; the wrapper
  names as many columns; and each term of the ORDER BY names the column of its own field, in the
  order of the instructions whose field the query returns.
\<close>

theorem union_sort_columns:
  assumes "build_partial_period_union_query env today ur = Inr (stmt, params)"
    and "union_order_terms (ur_order ur) (ur_grouping ur) = (keys, terms)"
  shows "terms = map (union_order_term keys)
           (filter (\<lambda>ob. ord_field ob \<in> set (group_by (ur_grouping ur)) \<union> fst ` set (aggregations (ur_grouping ur)))
              (case ur_order ur of Some obs \<Rightarrow> obs | None \<Rightarrow> []))
    \<and> distinct keys
    \<and> (\<exists>branches. stmt = union_statement keys terms (union_all branches)
        \<and> list_all (\<lambda>b. \<exists>obj sorts entries rest.
              b = Composed ([SQL ''SELECT '', obj, SQL ''::text''] @ concat (map (\<lambda>e. [SQL '', '', e]) sorts) @ SQL '' FROM '' # rest)
              \<and> obj = build_nested_json_object entries \<and> list_all2 (\<lambda>k e. (k, e) \<in> set entries) keys sorts) branches)"
proof (intro conjI)
  note steps = assms(2) [unfolded union_order_terms_def]
  show "distinct keys" using union_order_steps_keys [OF steps] by simp
  show "terms = map (union_order_term keys)
     (filter (\<lambda>ob. ord_field ob \<in> set (group_by (ur_grouping ur)) \<union> fst ` set (aggregations (ur_grouping ur)))
        (case ur_order ur of Some obs \<Rightarrow> obs | None \<Rightarrow> []))"
    using union_order_steps_terms [OF steps] by simp
  obtain segs extra ps keys' terms' branches where
    "union_segments_for (ur_trunc ur) (ur_bounds ur) today = Inr segs" and "extra_where_sql env (ur_extra ur) = Inr (extra, ps)"
    and t: "union_order_terms (ur_order ur) (ur_grouping ur) = (keys', terms')"
    and b: "list_all2 (\<lambda>s b. union_branch ur (shared_env ur extra keys') s = Inr b) segs branches"
    and stmt: "stmt = union_statement keys' terms' (union_all branches)" and "params = concat (map (\<lambda>_. ps) branches)"
    by (rule union_branches [OF assms(1)])
  have "\<exists>obj sorts entries rest. c = Composed ([SQL ''SELECT '', obj, SQL ''::text''] @ concat (map (\<lambda>e. [SQL '', '', e]) sorts) @ SQL '' FROM '' # rest)
      \<and> obj = build_nested_json_object entries \<and> list_all2 (\<lambda>k e. (k, e) \<in> set entries) keys sorts" if "c \<in> set branches" for c
  proof -
    from b that obtain s where "union_branch ur (shared_env ur extra keys') s = Inr c"
      by (auto simp: list_all2_conv_all_nth in_set_conv_nth)
    then obtain view g window where "build_branch (shared_env ur extra keys') view g window = Inr c"
      by (auto simp: union_branch_def build_fine_grain_branch_def build_coarse_branch_def split: segment.splits)
    from branch_projects [OF this] obtain groups aggs sorts rest where
      c: "c = Composed ([SQL ''SELECT '', build_nested_json_object (zip (group_by (ur_grouping ur)) groups @ aggs), SQL ''::text'']
          @ concat (map (\<lambda>e. [SQL '', '', e]) sorts) @ SQL '' FROM '' # rest)"
      and k: "list_all2 (\<lambda>k e. (k, e) \<in> set (zip (group_by (ur_grouping ur)) groups) \<union> set aggs) keys' sorts"
      by (auto simp: shared_env_def)
    have "keys' = keys" using t assms(2) by simp
    with k have "list_all2 (\<lambda>k e. (k, e) \<in> set (zip (group_by (ur_grouping ur)) groups @ aggs)) keys sorts" by simp
    with c show ?thesis by blast
  qed
  then show "\<exists>branches. stmt = union_statement keys terms (union_all branches)
        \<and> list_all (\<lambda>b. \<exists>obj sorts entries rest.
              b = Composed ([SQL ''SELECT '', obj, SQL ''::text''] @ concat (map (\<lambda>e. [SQL '', '', e]) sorts) @ SQL '' FROM '' # rest)
              \<and> obj = build_nested_json_object entries \<and> list_all2 (\<lambda>k e. (k, e) \<in> set entries) keys sorts) branches"
    using stmt t assms(2) unfolding list_all_iff by auto
qed

subsection \<open>An example\<close>

definition example_union :: union_request where
  "example_union =
     \<lparr>ur_coarse = ''v_sales_month'', ur_fine = ''v_sales_day'', ur_column = ''date'', ur_trunc = ''month'',
      ur_bounds = (DateBound (Date 2024 1 15), Some (DateBound (Date 2024 7 1))),
      ur_grouping = \<lparr>group_by = [''date'', ''region''], aggregations = [(''total'', ''SUM(cost)'')], native_dimensions = [''date''],
        native_measures = [], dimension_mapping = []\<rparr>,
      ur_jsonb = ''data'', ur_extra = Some (WhereClause [example_column ''tenant_id'' ''eq'' (PInt 7)] ''AND'' [] None),
      ur_order = Some [plain_order ''total'' Desc, plain_order ''name'' Asc, plain_order ''region'' Asc]\<rparr>"

definition union_example_statement :: composable where
  "union_example_statement = fst (projr (build_partial_period_union_query example_env (Date 2024 6 10) example_union))"

lemma example_union_sql: "condition_to_sql example_env (example_column ''tenant_id'' ''eq'' (PInt 7))
   = Inr (Composed [Identifier ''tenant_id'', SQL '' = '', SQL ''%s''], [PInt 7])"
  using mandatory_atom_sql [of example_env "(''tenant_id'', PInt 7)"] by (simp add: mandatory_atom_def example_column_def)

lemma example_tenant: "validate_condition (example_column ''tenant_id'' ''eq'' (PInt 7)) = Inr (example_column ''tenant_id'' ''eq'' (PInt 7))"
  by code_simp

lemma example_segments:
  "union_segments_for ''month'' (DateBound (Date 2024 1 15), Some (DateBound (Date 2024 7 1))) (Date 2024 6 10)
   = Inr [Fine (Date 2024 1 15) (Date 2024 2 1), Coarse (Date 2024 2 1) (Date 2024 6 1), Fine (Date 2024 6 1) (Date 2024 6 11)]"
  by (simp add: union_segments_for_def union_segments_def cut_points_def segments_of_def period_start_def next_period_start_def
      is_period_aligned_def validate_grain_trunc_def grain_truncs_def next_day_def prev_day_def days_in_month_def make_date_def
      valid_date_def date_order min_def max_def)

definition example_tenant_sql :: composable where
  "example_tenant_sql = Composed [Identifier ''tenant_id'', SQL '' = '', SQL ''%s'']"

lemma example_union_parts:
  "extra_where_sql example_env (ur_extra example_union) = Inr (Some example_tenant_sql, [PInt 7])"
  "union_order_terms (ur_order example_union) (ur_grouping example_union)
     = ([''total'', ''region''], [union_order_term [''total'', ''region''] (plain_order ''total'' Desc),
          union_order_term [''total'', ''region''] (plain_order ''region'' Asc)])"
  by code_simp+

lemma example_branch:
  assumes "trunc \<in> {None, Some ''month''}"
  shows "\<not> isl (build_branch (shared_env example_union (Some example_tenant_sql) [''total'', ''region'']) view trunc window)"
proof -
  let ?be = "shared_env example_union (Some example_tenant_sql) [''total'', ''region'']"
  have "\<not> isl (rbind (branch_groups ?be trunc) (\<lambda>_. rbind (branch_entries ?be trunc) (\<lambda>es. branch_sort_exprs es (br_keys ?be))))"
    if "trunc = None \<or> trunc = Some ''month''"
    using that by (elim disjE; hypsubst) (code_simp, code_simp)
  with assms show ?thesis by (auto simp: build_branch_def rbind_def split: sum.splits)
qed

lemma example_union_built:
  obtains stmt where "build_partial_period_union_query example_env (Date 2024 6 10) example_union = Inr (stmt, [PInt 7, PInt 7, PInt 7])"
proof -
  let ?be = "shared_env example_union (Some example_tenant_sql) [''total'', ''region'']"
  have "\<exists>b. union_branch example_union ?be s = Inr b" for s
  proof -
    have "ur_trunc example_union = ''month''" by (simp add: example_union_def)
    then have "\<not> isl (union_branch example_union ?be s)"
      using example_branch [of "Some ''month''"] example_branch [of None]
      by (auto simp: union_branch_def build_fine_grain_branch_def build_coarse_branch_def split: segment.splits)
    then show ?thesis by (cases "union_branch example_union ?be s") auto
  qed
  then obtain b where b: "\<And>s. union_branch example_union ?be s = Inr (b s)" by metis
  have "ur_trunc example_union = ''month''" "ur_bounds example_union = (DateBound (Date 2024 1 15), Some (DateBound (Date 2024 7 1)))"
    by (simp_all add: example_union_def)
  with example_segments b show thesis
    by (intro that) (simp add: build_partial_period_union_query_def example_union_parts)
qed

theorem union_placeholders_witness:
  "\<exists>stmt. build_partial_period_union_query example_env (Date 2024 6 10) example_union = Inr (stmt, [PInt 7, PInt 7, PInt 7])
     \<and> comp_ph stmt = Some 3"
proof -
  obtain stmt where s: "build_partial_period_union_query example_env (Date 2024 6 10) example_union = Inr (stmt, [PInt 7, PInt 7, PInt 7])"
    by (rule example_union_built)
  have "clause_valid c \<and> (\<forall>fc \<in> clause_conditions c. condition_ok fc)" if "ur_extra example_union = Some c" for c
    using that example_tenant by (auto simp: example_union_def condition_ok_def cast_ok_def balanced_def example_column_def)
  with union_placeholders [OF s] s show ?thesis
    by (auto simp: example_union_def instruction_ok_def plain_order_def)
qed

theorem union_injection_safe_witness:
  "\<exists>stmt. build_partial_period_union_query example_env (Date 2024 6 10) example_union = Inr (stmt, [PInt 7, PInt 7, PInt 7])
     \<and> texts stmt \<subseteq> where_vocab \<union> union_words"
proof -
  obtain stmt where s: "build_partial_period_union_query example_env (Date 2024 6 10) example_union = Inr (stmt, [PInt 7, PInt 7, PInt 7])"
    by (rule example_union_built)
  have "clause_valid c \<and> (\<forall>fc \<in> clause_conditions c. condition_typed fc)" if "ur_extra example_union = Some c" for c
    using that example_tenant by (auto simp: example_union_def condition_typed_def cast_ok_def example_column_def)
  with union_injection_safe [OF s] s show ?thesis
    by (auto simp: example_union_def instruction_ok_def plain_order_def)
qed

theorem union_sort_columns_witness:
  "\<exists>stmt branches. build_partial_period_union_query example_env (Date 2024 6 10) example_union = Inr (stmt, [PInt 7, PInt 7, PInt 7])
     \<and> stmt = union_statement [''total'', ''region''] [union_order_term [''total'', ''region''] (plain_order ''total'' Desc),
          union_order_term [''total'', ''region''] (plain_order ''region'' Asc)] (union_all branches)"
proof -
  obtain stmt where s: "build_partial_period_union_query example_env (Date 2024 6 10) example_union = Inr (stmt, [PInt 7, PInt 7, PInt 7])"
    by (rule example_union_built)
  with union_sort_columns [OF s example_union_parts(2)] show ?thesis by blast
qed

end
