(* ===== verification/FindScope.thy ===== *)
theory FindScope
  imports UnionQueryProps
begin

section \<open>Row scopes in \<open>find\<close>\<close>

text \<open>
  What \<open>find\<close> does with the mandatory filters of the caller and of the operation's authorization, on
  the ordinary path, where the builder looks for mandatory filters a second time, and on the path
  of a partial-period query; and what becomes of a limit there.
\<close>

subsection \<open>The two lookups\<close>

lemma consume_none: "consume_mandatory_filters None auth field = Inr (if auth_scope auth field = [] then None else Some (rebuild_dict (auth_scope auth field)))"
  by (simp add: consume_mandatory_filters_def auth_scope_def Let_def)

lemma consume_scope:
  "consume_mandatory_filters caller auth field =
     (let explicit = (case caller of Some d \<Rightarrow> d | None \<Rightarrow> []) in
      if auth_scope auth field = [] then Inr (if explicit = [] then None else Some explicit)
      else if list_ex (\<lambda>(k, _). k \<in> set (map fst (auth_scope auth field))) explicit then Inl GraphQLError
      else Inr (Some (rebuild_dict (explicit @ auth_scope auth field))))"
  unfolding consume_mandatory_filters_def auth_scope_def Let_def ..

text \<open>The builder with conditions already made, when a filter is found on the second look.\<close>

lemma compose_find_mandatory [simp]: "compose_find fe (rq\<lparr>fq_mandatory := m\<rparr>) = compose_find fe rq"
  unfolding compose_find_def effective_grouping_def find_where_def by (simp cong: option.case_cong if_cong)

lemma second_look:
  assumes "auth_scope (fe_auth_filters fe) (fe_field fe) \<noteq> []" "rq_mandatory (fq_query rq) = None"
  shows "build_find_query fe (rq\<lparr>fq_mandatory := m\<rparr>) =
    rbind (make_mandatory_conditions (rebuild_dict (auth_scope (fe_auth_filters fe) (fe_field fe)))) (compose_find fe rq)"
  using assms by (simp add: build_find_query_def consume_none)

lemma no_second_look:
  assumes "auth_scope (fe_auth_filters fe) (fe_field fe) = []" "rq_mandatory (fq_query rq) = None"
  shows "build_find_query fe (rq\<lparr>fq_mandatory := m\<rparr>) = compose_find fe rq m"
  using assms by (simp add: build_find_query_def consume_none)

text \<open>What the two paths of \<open>find\<close> are given.\<close>

definition find_plan :: "find_env \<Rightarrow> view_aggregation option \<Rightarrow> string list list \<Rightarrow> find_request
    \<Rightarrow> (where_clause \<times> date_bound \<times> date_bound option) option" where
  "find_plan fe va field_paths rq =
     union_plan fe va (auto_grouping fe va field_paths
       (rq\<lparr>fq_query := (fq_query rq)\<lparr>rq_mandatory := None\<rparr>,
           fq_jsonb_column := find_jsonb_column (fe_norm fe) (rq_view (fq_query rq))\<rparr>))"

lemma auto_grouping_query [simp]:
  "fq_query (auto_grouping fe va fps rq) = fq_query rq" "fq_order_by (auto_grouping fe va fps rq) = fq_order_by rq"
  "fq_jsonb_column (auto_grouping fe va fps rq) = fq_jsonb_column rq"
  "fq_limit (auto_grouping fe va fps rq) = fq_limit rq" "fq_offset (auto_grouping fe va fps rq) = fq_offset rq"
  by (auto simp: auto_grouping_def Let_def split: option.split)

lemma find_statement_paths:
  "find_statement fe today va field_paths rq =
     rbind (consume_mandatory_filters (rq_mandatory (fq_query rq)) (fe_auth_filters fe) (fe_field fe)) (\<lambda>filters.
     rbind (case filters of Some fs \<Rightarrow> make_mandatory_conditions fs | None \<Rightarrow> Inr ([], [])) (\<lambda>mandatory.
     let rq2 = auto_grouping fe va field_paths
           (rq\<lparr>fq_query := (fq_query rq)\<lparr>rq_mandatory := None\<rparr>,
               fq_jsonb_column := find_jsonb_column (fe_norm fe) (rq_view (fq_query rq))\<rparr>)
     in case find_plan fe va field_paths rq of
          Some plan \<Rightarrow>
            rbind (union_request_for fe (the va) rq2 (case filters of Some fs \<Rightarrow> fs | None \<Rightarrow> []) plan)
              (build_partial_period_union_query (fe_where fe) today)
        | None \<Rightarrow> build_find_query fe (rq2\<lparr>fq_mandatory := mandatory\<rparr>)))"
  unfolding find_statement_def find_plan_def Let_def ..

subsection \<open>The ordinary path\<close>

lemma where_prefix:
  assumes "find_where fe rq m = Inr (parts, params)"
  shows "Sublist.prefix (fst m) parts \<and> Sublist.prefix (snd m) params"
  using assms by (auto simp: find_where_def build_where_clause_def rbind_eq_Inr split: if_split_asm option.splits)

lemma update_new: "k \<notin> fst ` set d \<Longrightarrow> AList.update k v d = d @ [(k, v)]"
  by (induction d) auto

lemma rebuild_distinct: "distinct (map fst d) \<Longrightarrow> rebuild_dict d = d"
proof (induction d rule: rev_induct)
  case (snoc kv d)
  then have "rebuild_dict (d @ [kv]) = AList.update (fst kv) (snd kv) d" by (simp add: rebuild_dict_def)
  with snoc.prems show ?case by (cases kv) (simp add: update_new)
qed (simp add: rebuild_dict_def)

text \<open>
  What a statement of \<open>find\<close> holds before and after its WHERE clause; neither depends on the filters.
\<close>

definition find_frame :: "find_env \<Rightarrow> find_request \<Rightarrow> (composable list \<times> composable list) result" where
  "find_frame fe rq =
     (let g = effective_grouping fe rq; col = fq_jsonb_column rq in
      rbind (case fq_order_by rq of
               None \<Rightarrow> Inr (None, False)
             | Some arg \<Rightarrow>
                 build_order_by_sql (fe_order fe) (fe_type fe) arg (case col of Some c \<Rightarrow> c | None \<Rightarrow> ''t'')
                   (native_dimensions g) (dimension_mapping g) (col = None)) (\<lambda>(order_sql, order_alias).
      rbind (if group_by g \<noteq> [] then grouped_entries g col else Inr []) (\<lambda>entries.
      rbind (order_part (fq_order_by rq) order_sql) (\<lambda>order.
        Inr (select_part g col (rq_view (fq_query rq)) (fe_float_columns fe) order_alias entries,
             group_part g col @ order @ limit_part '' LIMIT '' (fq_limit rq) @ limit_part '' OFFSET '' (fq_offset rq))))))"

definition find_input :: "find_env \<Rightarrow> view_aggregation option \<Rightarrow> string list list \<Rightarrow> find_request \<Rightarrow> find_request" where
  "find_input fe va field_paths rq =
     auto_grouping fe va field_paths
       (rq\<lparr>fq_query := (fq_query rq)\<lparr>rq_mandatory := None\<rparr>, fq_jsonb_column := find_jsonb_column (fe_norm fe) (rq_view (fq_query rq))\<rparr>)"

lemma four_steps:
  assumes "rbind a (\<lambda>(p, q). rbind b (\<lambda>(x, y). rbind c (\<lambda>e. rbind (d x) (\<lambda>z. Inr (f p y e z, q))))) = Inr (s, r)"
  shows "\<exists>p x y e z. a = Inr (p, r) \<and> b = Inr (x, y) \<and> c = Inr e \<and> d x = Inr z \<and> s = f p y e z"
  using assms by (auto simp: rbind_eq_Inr)

lemma compose_framed:
  assumes "compose_find fe rq m = Inr (stmt, params)"
  shows "\<exists>parts before after. find_where fe rq m = Inr (parts, params) \<and> find_frame fe rq = Inr (before, after)
    \<and> stmt = sql_join '''' (before @ (if parts = [] then [] else [SQL '' WHERE '', sql_join '' AND '' parts]) @ after)"
proof -
  let ?g = "effective_grouping fe rq" and ?col = "fq_jsonb_column rq"
  let ?sorting = "case fq_order_by rq of None \<Rightarrow> Inr (None, False)
    | Some arg \<Rightarrow> build_order_by_sql (fe_order fe) (fe_type fe) arg (case ?col of Some c \<Rightarrow> c | None \<Rightarrow> ''t'')
        (native_dimensions ?g) (dimension_mapping ?g) (?col = None)"
  from assms obtain parts sorting aliased entries order where w: "find_where fe rq m = Inr (parts, params)"
    and s: "?sorting = Inr (sorting, aliased)" and e: "(if group_by ?g \<noteq> [] then grouped_entries ?g ?col else Inr []) = Inr entries"
    and o: "order_part (fq_order_by rq) sorting = Inr order"
    and stmt: "stmt = sql_join '''' (select_part ?g ?col (rq_view (fq_query rq)) (fe_float_columns fe) aliased entries
               @ (if parts = [] then [] else [SQL '' WHERE '', sql_join '' AND '' parts])
               @ group_part ?g ?col @ order
               @ limit_part '' LIMIT '' (fq_limit rq) @ limit_part '' OFFSET '' (fq_offset rq))"
  proof -
    have "\<not> (aggregations ?g \<noteq> [] \<and> group_by ?g = [])" using assms by (auto simp: compose_find_def Let_def)
    with assms have "rbind (find_where fe rq m) (\<lambda>(parts, params).
        rbind ?sorting (\<lambda>(order_sql, order_alias).
        rbind (if group_by ?g \<noteq> [] then grouped_entries ?g ?col else Inr []) (\<lambda>entries.
        rbind (order_part (fq_order_by rq) order_sql) (\<lambda>order.
          Inr (sql_join '''' (select_part ?g ?col (rq_view (fq_query rq)) (fe_float_columns fe) order_alias entries
               @ (if parts = [] then [] else [SQL '' WHERE '', sql_join '' AND '' parts])
               @ group_part ?g ?col @ order
               @ limit_part '' LIMIT '' (fq_limit rq) @ limit_part '' OFFSET '' (fq_offset rq)), params))))) = Inr (stmt, params)"
      unfolding compose_find_def Let_def by (simp only: if_False)
    from four_steps [OF this] that show thesis by blast
  qed
  from s e o have "find_frame fe rq = Inr (select_part ?g ?col (rq_view (fq_query rq)) (fe_float_columns fe) aliased entries,
      group_part ?g ?col @ order @ limit_part '' LIMIT '' (fq_limit rq) @ limit_part '' OFFSET '' (fq_offset rq))"
    by (simp add: find_frame_def Let_def)
  with w stmt show ?thesis by blast
qed

lemma join_str_empty: "join_str '''' xs = concat xs"
  by (induction xs rule: induct_list012) auto

lemma mandatory_values: "make_mandatory_conditions m = Inr c \<Longrightarrow> snd c = map snd m"
  using make_mandatory_parts(2) [of m "fst c" "snd c"] by simp

text \<open>
  C33: The row scope of \<open>find\<close>.  On the ordinary path the statement is, whatever filter dictionary the client
  sends, the text before the WHERE clause, the word WHERE, a clause, and the grouping, the order and the limits.
  The clause is a conjunction at the top, and when it is true of a row, read with SQL's precedence and
  three-valued logic, so are the client's clause and the equalities of all filters of the authorization, or,
  when the authorization has none, of all filters of the caller; their values are the first parameters.  That
  the filters of the caller are missing beside those of the authorization is \<open>caller_filters_dropped\<close>.
\<close>

theorem find_scope:
  assumes "find_statement fe today va field_paths rq = Inr (stmt, params)" "find_plan fe va field_paths rq = None"
    and "distinct (map fst (auth_scope (fe_auth_filters fe) (fe_field fe)))"
    and "scope = (if auth_scope (fe_auth_filters fe) (fe_field fe) \<noteq> [] then auth_scope (fe_auth_filters fe) (fe_field fe)
                  else case rq_mandatory (fq_query rq) of Some d \<Rightarrow> d | None \<Rightarrow> [])" "scope \<noteq> []"
    and "rq_where (fq_query rq) = None
         \<or> (\<exists>arg d. rq_where (fq_query rq) = Some arg \<and> arg_dict arg = Some d \<and> plain (PDict d))"
  shows "\<exists>before after ts e cl. find_frame fe (find_input fe va field_paths rq) = Inr (before, after)
    \<and> render qi ql stmt = concat (map (render qi ql) before) @ '' WHERE '' @ tokens_text (fe_where fe) qi ql ts
        @ concat (map (render qi ql) after)
    \<and> read_bool ts = Some e \<and> (\<exists>members. ts = join_tokens TAnd members \<and> (\<forall>p \<in> set members. is_part p))
    \<and> client_clause (fe_fuel fe) (fe_norm fe) (fe_type fe) (rq_where (fq_query rq)) (rq_view (fq_query rq)) cl
    \<and> (\<forall>v. bexp_val v e = Some True \<longrightarrow>
         (\<forall>x \<in> set scope. v (mandatory_atom x) = Some True) \<and> (\<forall>c \<in> set cl. clause_val v c = Some True))
    \<and> Sublist.prefix (map snd scope) params"
proof -
  let ?auth = "auth_scope (fe_auth_filters fe) (fe_field fe)"
  let ?rq = "find_input fe va field_paths rq"
  have q: "fq_query ?rq = (fq_query rq)\<lparr>rq_mandatory := None\<rparr>" by (simp add: find_input_def)
  have same: "find_where fe ?rq = find_where fe rq" by (simp add: find_where_def fun_eq_iff q)
  from assms(1,2) obtain filters mandatory where
    c: "consume_mandatory_filters (rq_mandatory (fq_query rq)) (fe_auth_filters fe) (fe_field fe) = Inr filters"
    and m: "(case filters of Some fs \<Rightarrow> make_mandatory_conditions fs | None \<Rightarrow> Inr ([], [])) = Inr mandatory"
    and b: "build_find_query fe (?rq\<lparr>fq_mandatory := mandatory\<rparr>) = Inr (stmt, params)"
    unfolding find_input_def by (auto simp: find_statement_paths rbind_eq_Inr Let_def)
  have "\<exists>m. make_mandatory_conditions scope = Inr m \<and> compose_find fe ?rq m = Inr (stmt, params)"
  proof (cases "?auth = []")
    case True
    then have "make_mandatory_conditions scope = Inr mandatory"
      using c m assms(4) by (auto simp: consume_scope Let_def make_mandatory_conditions_def split: if_split_asm option.splits)
    then show ?thesis using True b no_second_look [of fe ?rq mandatory] q by simp
  next
    case False
    then show ?thesis using b second_look [of fe ?rq mandatory] assms(4) q by (simp add: rebuild_distinct [OF assms(3)] rbind_eq_Inr)
  qed
  then obtain m where mk: "make_mandatory_conditions scope = Inr m" and comp: "compose_find fe ?rq m = Inr (stmt, params)" by blast
  from compose_framed [OF comp] obtain parts before after where
    w: "find_where fe rq m = Inr (parts, params)" and frame: "find_frame fe ?rq = Inr (before, after)"
    and stmt: "stmt = sql_join '''' (before @ (if parts = [] then [] else [SQL '' WHERE '', sql_join '' AND '' parts]) @ after)"
    unfolding same by blast
  obtain ts e cl where ne: "parts \<noteq> []" and ts: "read_bool ts = Some e"
    "client_clause (fe_fuel fe) (fe_norm fe) (fe_type fe) (rq_where (fq_query rq)) (rq_view (fq_query rq)) cl"
    "\<And>v. bexp_val v e = and3 (map (v \<circ> mandatory_atom) scope @ map (clause_val v) cl)"
    "\<exists>ps. ts = join_tokens TAnd ps \<and> (\<forall>p \<in> set ps. is_part p)"
    "join_str '' AND '' (map (render qi ql) parts) = tokens_text (fe_where fe) qi ql ts"
    by (rule where_tokens [OF w [unfolded find_where_def] mk assms(5,6), where qi = qi and ql = ql]) blast
  have "render qi ql stmt = concat (map (render qi ql) before) @ '' WHERE '' @ tokens_text (fe_where fe) qi ql ts
      @ concat (map (render qi ql) after)"
    using ne ts(5) by (simp add: stmt render_sql_join join_str_empty)
  moreover have "(\<forall>x \<in> set scope. v (mandatory_atom x) = Some True) \<and> (\<forall>c \<in> set cl. clause_val v c = Some True)"
    if "bexp_val v e = Some True" for v
    using that unfolding ts(3) and3_all by simp
  moreover have "Sublist.prefix (map snd scope) params" using where_prefix [OF w] mandatory_values [OF mk] by simp
  ultimately show ?thesis using frame ts(1,2,4) by blast
qed

text \<open>
  On that path the caller's filters are lost as soon as the authorization has some: the statement is
  the one without them.
\<close>

lemma caller_filters_dropped:
  assumes "find_plan fe va field_paths rq = None" "rq_mandatory (fq_query rq) = Some explicit"
    and "auth_scope (fe_auth_filters fe) (fe_field fe) \<noteq> []"
    and "distinct (map fst (explicit @ auth_scope (fe_auth_filters fe) (fe_field fe)))"
    and "list_all (safe_column \<circ> fst) (explicit @ auth_scope (fe_auth_filters fe) (fe_field fe))"
  shows "find_statement fe today va field_paths rq
    = find_statement fe today va field_paths (rq\<lparr>fq_query := (fq_query rq)\<lparr>rq_mandatory := None\<rparr>\<rparr>)"
proof -
  let ?auth = "auth_scope (fe_auth_filters fe) (fe_field fe)"
  have "list_ex (\<lambda>(k, _). k \<in> set (map fst ?auth)) explicit = False" using assms(4) by (force simp: list_ex_iff disjoint_iff)
  then have c: "consume_mandatory_filters (Some explicit) (fe_auth_filters fe) (fe_field fe) = Inr (Some (explicit @ ?auth))"
    using assms(3) rebuild_distinct [OF assms(4)] by (simp add: consume_scope)
  have c': "consume_mandatory_filters None (fe_auth_filters fe) (fe_field fe) = Inr (Some ?auth)"
    using assms(3) rebuild_distinct [of ?auth] assms(4) by (simp add: consume_none)
  have safe: "\<exists>m. make_mandatory_conditions d = Inr m" if "list_all (safe_column \<circ> fst) d" for d
    using that by (induction d) (auto simp: make_mandatory_conditions_def rbind_eq_Inr)
  obtain m m' where m: "make_mandatory_conditions (explicit @ ?auth) = Inr m" "make_mandatory_conditions ?auth = Inr m'"
    using safe [of "explicit @ ?auth"] safe [of ?auth] assms(5) by auto
  have plan: "find_plan fe va field_paths (rq\<lparr>fq_query := (fq_query rq)\<lparr>rq_mandatory := None\<rparr>\<rparr>) = None"
    using assms(1) by (simp add: find_plan_def)
  show ?thesis
    using assms(1,2) c c' m plan second_look [OF assms(3)] by (simp add: find_statement_paths)
qed

definition scoped_request :: find_request where
  "scoped_request = example_find_request\<lparr>fq_query := example_request\<lparr>rq_mandatory := Some [(''owner_id'', PInt 3)]\<rparr>\<rparr>"

lemma scoped_plan: "find_plan example_find_env None [] scoped_request = None"
  by code_simp

theorem find_scope_witness:
  "\<exists>stmt before after ts e. find_statement example_find_env (Date 2024 6 10) None [] scoped_request = Inr (stmt, [PInt 7, PStr ''active''])
     \<and> render (\<lambda>s. s) py_repr stmt = before @ '' WHERE '' @ tokens_text example_env (\<lambda>s. s) py_repr ts @ after
     \<and> read_bool ts = Some e \<and> (\<forall>v. bexp_val v e = Some True \<longrightarrow> v (mandatory_atom (''tenant_id'', PInt 7)) = Some True)"
proof -
  have params: "map_sum id snd (find_statement example_find_env (Date 2024 6 10) None [] scoped_request) = Inr [PInt 7, PStr ''active'']"
    by code_simp
  then obtain stmt where f: "find_statement example_find_env (Date 2024 6 10) None [] scoped_request = Inr (stmt, [PInt 7, PStr ''active''])"
    by (cases "find_statement example_find_env (Date 2024 6 10) None [] scoped_request") auto
  have auth: "auth_scope (fe_auth_filters example_find_env) (fe_field example_find_env) = [(''tenant_id'', PInt 7)]" by code_simp
  have env: "fe_where example_find_env = example_env" by (simp add: example_find_env_def)
  have w: "\<exists>arg d. rq_where (fq_query scoped_request) = Some arg \<and> arg_dict arg = Some d \<and> plain (PDict d)"
    by (simp add: scoped_request_def example_request_def)
  have scope: "[(''tenant_id'', PInt 7)] = (if auth_scope (fe_auth_filters example_find_env) (fe_field example_find_env) \<noteq> []
      then auth_scope (fe_auth_filters example_find_env) (fe_field example_find_env)
      else case rq_mandatory (fq_query scoped_request) of Some d \<Rightarrow> d | None \<Rightarrow> [])"
    "distinct (map fst (auth_scope (fe_auth_filters example_find_env) (fe_field example_find_env)))"
    by (simp_all add: auth)
  from find_scope [OF f scoped_plan scope(2,1) _ disjI2 [OF w], of "\<lambda>s. s" py_repr] obtain before after ts e where
    "render (\<lambda>s. s) py_repr stmt = concat (map (render (\<lambda>s. s) py_repr) before) @ '' WHERE '' @ tokens_text example_env (\<lambda>s. s) py_repr ts
       @ concat (map (render (\<lambda>s. s) py_repr) after)" "read_bool ts = Some e"
    "\<forall>v. bexp_val v e = Some True \<longrightarrow> v (mandatory_atom (''tenant_id'', PInt 7)) = Some True"
    unfolding env by auto
  with f show ?thesis by blast
qed

subsection \<open>The path of a partial-period query\<close>

text \<open>
  A partial-period query is scoped by all mandatory filters.  The rest of the filter that every
  branch applies accepts a row only if the row satisfies each filter of the caller and of the
  authorization.
\<close>

theorem find_union_scope:
  assumes "find_statement fe today va field_paths rq = Inr (stmt, params)" "find_plan fe va field_paths rq = Some plan"
  shows "\<exists>filters ur. consume_mandatory_filters (rq_mandatory (fq_query rq)) (fe_auth_filters fe) (fe_field fe) = Inr filters
    \<and> build_partial_period_union_query (fe_where fe) today ur = Inr (stmt, params) \<and> ur_bounds ur = snd plan
    \<and> (\<forall>v. list_all (\<lambda>c. clause_val v c = Some True) (case ur_extra ur of None \<Rightarrow> [] | Some c \<Rightarrow> [c]) \<longrightarrow>
        list_all (\<lambda>x. v (mandatory_atom x) = Some True) (case filters of Some fs \<Rightarrow> fs | None \<Rightarrow> []))"
proof -
  let ?rq = "auto_grouping fe va field_paths (rq\<lparr>fq_query := (fq_query rq)\<lparr>rq_mandatory := None\<rparr>,
               fq_jsonb_column := find_jsonb_column (fe_norm fe) (rq_view (fq_query rq))\<rparr>)"
  from assms obtain filters ur where
    c: "consume_mandatory_filters (rq_mandatory (fq_query rq)) (fe_auth_filters fe) (fe_field fe) = Inr filters"
    and u: "union_request_for fe (the va) ?rq (case filters of Some fs \<Rightarrow> fs | None \<Rightarrow> []) plan = Inr ur"
    and b: "build_partial_period_union_query (fe_where fe) today ur = Inr (stmt, params)"
    by (auto simp: find_statement_paths rbind_eq_Inr Let_def)
  let ?fs = "case filters of Some fs \<Rightarrow> fs | None \<Rightarrow> []"
  from u obtain mandatory where
    m: "map_result (\<lambda>(col, v). make_condition [col] ''eq'' v ''sql_column'' col None) ?fs = Inr mandatory"
    and e: "build_extra_where (fst plan) (va_time_grain_column (the va)) mandatory = Inr (ur_extra ur)" and bounds: "ur_bounds ur = snd plan"
    by (auto simp: union_request_for_def rbind_eq_Inr)
  have "mandatory = map mandatory_atom ?fs"
    using m unfolding map_result_Inr_iff
    by (induction rule: list_all2_induct) (auto simp: make_condition_def mandatory_atom_def validate_condition_def split: if_splits)
  moreover have "logical_op (fst plan) = ''AND''"
    using assms(2) by (auto simp: find_plan_def union_plan_def union_bounds_def split: option.splits if_splits sum.splits)
  then have "mandatory = [] \<or> ur_extra ur = Some (WhereClause (mandatory @ filter (\<lambda>fc. target_column fc \<noteq> va_time_grain_column (the va))
      (conditions (fst plan))) ''AND'' (nested_clauses (fst plan)) (not_clause (fst plan)))"
    using e by (auto simp: build_extra_where_def make_clause_def Let_def split: if_splits)
  ultimately have "list_all (\<lambda>x. v (mandatory_atom x) = Some True) ?fs"
    if "list_all (\<lambda>c. clause_val v c = Some True) (case ur_extra ur of None \<Rightarrow> [] | Some c \<Rightarrow> [c])" for v
    using that by (auto simp: list_all_iff clause_val_all)
  with c b bounds show ?thesis by blast
qed

definition sales_aggregation :: view_aggregation where
  "sales_aggregation =
     \<lparr>am_measures = [], am_dimensions = ''dimensions'', am_native_dimensions = [''date''], am_skip_when = [], va_native_measures = [],
      va_fine_grain_view = ''v_sales_day'', va_time_grain_column = ''date'', va_time_grain_trunc = ''month''\<rparr>"

definition sales_window :: where_clause where
  "sales_window = WhereClause [date_condition ''gte'' ''2024-01-15'', date_condition ''lte'' ''2024-06-30''] ''AND'' [] None"

definition sales_request :: find_request where
  "sales_request =
     \<lparr>fq_query = \<lparr>rq_view = ''v_sales_month'', rq_mandatory = None, rq_where = Some (ArgClause sales_window), rq_kwargs = []\<rparr>,
      fq_mandatory = ([], []), fq_jsonb_column = None,
      fq_grouping = ur_grouping example_union, fq_mapping = None,
      fq_order_by = Some (OrderSet [plain_order ''total'' Desc, plain_order ''name'' Asc, plain_order ''region'' Asc]),
      fq_limit = PInt 10, fq_offset = PNone\<rparr>"

lemma sales_window_bounds:
  "union_bounds sales_window ''date'' = Some (DateBound (Date 2024 1 15), Some (DateBound (Date 2024 7 1)))"
  by (simp add: union_bounds_def sales_window_def date_condition_def example_column_def extract_lower_date_bound_def
      extract_upper_date_bound_def sales_dates day_after_def next_day_def days_in_month_def)

lemma sales_auto: "auto_grouping fe va [] rq = rq"
  by (simp add: auto_grouping_def split: option.split)

lemma sales_plan: "find_plan example_find_env (Some sales_aggregation) [] sales_request
    = Some (sales_window, DateBound (Date 2024 1 15), Some (DateBound (Date 2024 7 1)))"
  using sales_window_bounds
  by (simp add: find_plan_def sales_auto union_plan_def sales_request_def sales_aggregation_def normalize_where_def example_union_def)

lemma sales_union:
  "union_request_for example_find_env sales_aggregation
     (sales_request\<lparr>fq_query := (fq_query sales_request)\<lparr>rq_mandatory := None\<rparr>,
        fq_jsonb_column := find_jsonb_column (fe_norm example_find_env) (rq_view (fq_query sales_request))\<rparr>)
     [(''tenant_id'', PInt 7)] (sales_window, DateBound (Date 2024 1 15), Some (DateBound (Date 2024 7 1))) = Inr example_union"
proof -
  have "make_condition [''tenant_id''] ''eq'' (PInt 7) ''sql_column'' ''tenant_id'' None = Inr (example_column ''tenant_id'' ''eq'' (PInt 7))"
    using example_tenant by (simp add: make_condition_def example_column_def)
  moreover have "find_jsonb_column (fe_norm example_find_env) ''v_sales_month'' = None \<or> find_jsonb_column (fe_norm example_find_env) ''v_sales_month'' = Some ''data''"
    by code_simp
  moreover have "resolve_order_by_set (fe_order example_find_env) (fe_type example_find_env)
      (OrderSet [plain_order ''total'' Desc, plain_order ''name'' Asc, plain_order ''region'' Asc])
    = Inr (Some [plain_order ''total'' Desc, plain_order ''name'' Asc, plain_order ''region'' Asc])"
    by code_simp
  ultimately show ?thesis
    by (auto simp: union_request_for_def sales_request_def sales_aggregation_def build_extra_where_def sales_window_def
        date_condition_def example_column_def make_clause_def example_union_def)
qed

theorem find_union_scope_witness:
  "\<exists>stmt ur. find_statement example_find_env (Date 2024 6 10) (Some sales_aggregation) [] sales_request = Inr (stmt, [PInt 7, PInt 7, PInt 7])
     \<and> build_partial_period_union_query (fe_where example_find_env) (Date 2024 6 10) ur = Inr (stmt, [PInt 7, PInt 7, PInt 7])"
proof -
  obtain stmt where "build_partial_period_union_query example_env (Date 2024 6 10) example_union = Inr (stmt, [PInt 7, PInt 7, PInt 7])"
    by (rule example_union_built)
  moreover have "fe_where example_find_env = example_env" by (simp add: example_find_env_def)
  moreover have "consume_mandatory_filters (rq_mandatory (fq_query sales_request)) (fe_auth_filters example_find_env) (fe_field example_find_env)
      = Inr (Some [(''tenant_id'', PInt 7)])" "make_mandatory_conditions [(''tenant_id'', PInt 7)] = Inr ([Composed [Identifier ''tenant_id'', SQL '' = '', SQL ''%s'']], [PInt 7])"
    unfolding sales_request_def by code_simp+
  ultimately have "find_statement example_find_env (Date 2024 6 10) (Some sales_aggregation) [] sales_request = Inr (stmt, [PInt 7, PInt 7, PInt 7])"
    using sales_plan sales_union by (simp add: find_statement_paths sales_auto)
  with find_union_scope [OF this sales_plan] show ?thesis by blast
qed

text \<open>But a limit and an offset are lost: the statement is the one without them.\<close>

lemma unlimited [simp]:
  "union_request_for fe am (rq\<lparr>fq_limit := l, fq_offset := m\<rparr>) = union_request_for fe am rq"
  "union_plan fe va (rq\<lparr>fq_limit := l, fq_offset := m\<rparr>) = union_plan fe va rq"
  "auto_grouping fe va fps (rq\<lparr>fq_limit := l, fq_offset := m\<rparr>) = (auto_grouping fe va fps rq)\<lparr>fq_limit := l, fq_offset := m\<rparr>"
  by (simp_all add: union_request_for_def union_plan_def auto_grouping_def fun_eq_iff Let_def split: option.split)

lemma limit_dropped:
  assumes "find_plan fe va field_paths rq = Some plan"
  shows "find_statement fe today va field_paths (rq\<lparr>fq_limit := l, fq_offset := m\<rparr>) = find_statement fe today va field_paths rq"
proof -
  have "(rq\<lparr>fq_limit := l, fq_offset := m\<rparr>)\<lparr>fq_query := q, fq_jsonb_column := c\<rparr>
      = (rq\<lparr>fq_query := q, fq_jsonb_column := c\<rparr>)\<lparr>fq_limit := l, fq_offset := m\<rparr>" for q c
    by (cases rq) simp
  note commute = this
  have "find_plan fe va field_paths (rq\<lparr>fq_limit := l, fq_offset := m\<rparr>) = Some plan"
    using assms unfolding find_plan_def commute unlimited by simp
  with assms show ?thesis unfolding find_statement_paths Let_def commute unlimited by simp
qed

end
