(* ===== verification/NativeAuth.thy ===== *)
theory NativeAuth
  imports PyValue
begin

section \<open>Native authentication\<close>

text \<open>
  \<open>auth/native\<close>: the token manager (\<open>tokens.py\<close>), the user rows and the password policy
  (\<open>models.py\<close>), the endpoints of the router (\<open>router.py\<close>) and the provider (\<open>provider.py\<close>), over
  the four tables of \<open>migrations/001_native_auth_schema.sql\<close>.

  The JWT codec, the password hash and SHA-256 are parameters, and so are the random identifiers
  that an operation draws.  An endpoint commits where the code commits; a connection of the pool
  rolls back when an exception leaves it.  Creation and update times of rows, the user agent and the
  address of a session are not modelled; an identifier is the text of a UUID.
\<close>

subsection \<open>Rows\<close>

record auth_user =
  u_id :: string
  u_email :: string
  u_hash :: "string option"
  u_name :: pyval
  u_roles :: "string list"
  u_permissions :: "string list"
  u_active :: bool
  u_verified :: bool

record auth_session =
  s_id :: string
  s_user :: string
  s_family :: string
  s_revoked :: "int option"

record reset_row =
  r_user :: string
  r_hash :: string
  r_expires :: int
  r_used :: "int option"

record auth_db =
  users :: "auth_user list"
  sessions :: "auth_session list"
  used_tokens :: "(pyval \<times> pyval) list"
  resets :: "reset_row list"

datatype jwt = Claims pydict | ExpiredSignature | MalformedToken

record auth_env =
  ae_access_ttl :: int
  ae_refresh_ttl :: int
  ae_encode :: "pydict \<Rightarrow> string"
  ae_decode :: "int \<Rightarrow> string \<Rightarrow> jwt"
  ae_hash :: "string \<Rightarrow> string \<Rightarrow> string"
  ae_verify :: "string \<Rightarrow> string \<Rightarrow> bool"
  ae_sha256 :: "string \<Rightarrow> string"

datatype auth_error = TokenExpired | InvalidToken | SecurityViolation | Http nat | Raised py_error

type_synonym 'a auth_result = "auth_error + 'a"

subsection \<open>Tokens\<close>

record token_set =
  access_token :: string
  refresh_token :: string
  ts_family :: pyval
  expires_at :: int

definition jwt_claim :: "pydict \<Rightarrow> string \<Rightarrow> pyval" where
  "jwt_claim c k = (case map_of c k of Some v \<Rightarrow> v | None \<Rightarrow> PNone)"

definition access_claims :: "auth_env \<Rightarrow> int \<Rightarrow> string \<Rightarrow> pyval \<Rightarrow> pydict \<Rightarrow> pydict" where
  "access_claims env now jti user claims =
     foldl (\<lambda>d kv. AList.update (fst kv) (snd kv) d)
       [(''sub'', user), (''type'', PStr ''access''), (''exp'', PInt (now + ae_access_ttl env)), (''iat'', PInt now), (''jti'', PStr jti)]
       claims"

definition refresh_claims :: "auth_env \<Rightarrow> int \<Rightarrow> string \<Rightarrow> pyval \<Rightarrow> pyval \<Rightarrow> pydict" where
  "refresh_claims env now jti user family =
     [(''sub'', user), (''type'', PStr ''refresh''), (''family'', family), (''exp'', PInt (now + ae_refresh_ttl env)), (''iat'', PInt now),
      (''jti'', PStr jti)]"

text \<open>The identifiers drawn are a new family, used when there is none, and those of the two tokens.\<close>

definition generate_tokens :: "auth_env \<Rightarrow> int \<Rightarrow> string \<times> string \<times> string \<Rightarrow> pyval \<Rightarrow> pyval \<Rightarrow> pydict \<Rightarrow> token_set" where
  "generate_tokens env now draw user family claims =
     (let fam = (if truthy family then family else PStr (fst draw)) in
      \<lparr>access_token = ae_encode env (access_claims env now (fst (snd draw)) user claims),
       refresh_token = ae_encode env (refresh_claims env now (snd (snd draw)) user fam),
       ts_family = fam, expires_at = now + ae_access_ttl env\<rparr>)"

definition verify_token :: "string \<Rightarrow> auth_env \<Rightarrow> int \<Rightarrow> string \<Rightarrow> pydict auth_result" where
  "verify_token kind env now token =
     (case ae_decode env now token of
        ExpiredSignature \<Rightarrow> Inl TokenExpired
      | MalformedToken \<Rightarrow> Inl InvalidToken
      | Claims c \<Rightarrow> if jwt_claim c ''type'' = PStr kind then Inr c else Inl InvalidToken)"

definition verify_access_token :: "auth_env \<Rightarrow> int \<Rightarrow> string \<Rightarrow> pydict auth_result" where
  "verify_access_token = verify_token ''access''"

definition verify_refresh_token :: "auth_env \<Rightarrow> int \<Rightarrow> string \<Rightarrow> pydict auth_result" where
  "verify_refresh_token = verify_token ''refresh''"

subsection \<open>Rows of the tables\<close>

definition normal_email :: "string \<Rightarrow> string" where
  "normal_email e = strip (lower e)"

definition get_by_email :: "auth_db \<Rightarrow> string \<Rightarrow> auth_user option" where
  "get_by_email db e = find (\<lambda>u. u_email u = normal_email e) (users db)"

definition get_by_id :: "auth_db \<Rightarrow> string \<Rightarrow> auth_user option" where
  "get_by_id db i = find (\<lambda>u. u_id u = i) (users db)"

text \<open>\<open>save\<close>: the constraints of the table are its unique e-mail and identifier and the password hash.\<close>

definition save_user :: "auth_user \<Rightarrow> auth_db \<Rightarrow> auth_db auth_result" where
  "save_user u db =
     (if u_hash u = None \<or> list_ex (\<lambda>v. u_email v = u_email u \<or> u_id v = u_id u) (users db) then Inl (Raised DatabaseError)
      else Inr (db\<lparr>users := users db @ [u]\<rparr>))"

text \<open>\<open>update\<close> writes the name, the roles, the permissions and the two flags.\<close>

definition update_user :: "auth_user \<Rightarrow> auth_db \<Rightarrow> auth_db" where
  "update_user u db =
     db\<lparr>users := map (\<lambda>v. if u_id v = u_id u
          then v\<lparr>u_name := u_name u, u_roles := u_roles u, u_permissions := u_permissions u, u_active := u_active u, u_verified := u_verified u\<rparr>
          else v) (users db)\<rparr>"

definition deactivate :: "auth_user \<Rightarrow> auth_db \<Rightarrow> auth_db" where
  "deactivate u db = db\<lparr>users := map (\<lambda>v. if u_id v = u_id u then v\<lparr>u_active := False\<rparr> else v) (users db)\<rparr>"

definition verify_email :: "auth_user \<Rightarrow> auth_db \<Rightarrow> auth_db" where
  "verify_email u db = db\<lparr>users := map (\<lambda>v. if u_id v = u_id u then v\<lparr>u_verified := True\<rparr> else v) (users db)\<rparr>"

definition revoke_where :: "(auth_session \<Rightarrow> bool) \<Rightarrow> int \<Rightarrow> auth_db \<Rightarrow> auth_db" where
  "revoke_where P now db = db\<lparr>sessions := map (\<lambda>s. if P s then s\<lparr>s_revoked := Some now\<rparr> else s) (sessions db)\<rparr>"

definition revoke_family :: "pyval \<Rightarrow> int \<Rightarrow> auth_db \<Rightarrow> auth_db" where
  "revoke_family family = revoke_where (\<lambda>s. PStr (s_family s) = family)"

definition invalidate_token_family :: "pyval \<Rightarrow> int \<Rightarrow> auth_db \<Rightarrow> auth_db" where
  "invalidate_token_family family = revoke_where (\<lambda>s. PStr (s_family s) = family \<and> s_revoked s = None)"

definition is_used :: "auth_db \<Rightarrow> pyval \<Rightarrow> bool" where
  "is_used db jti = (jti \<noteq> PNone \<and> jti \<in> fst ` set (used_tokens db))"

definition mark_used :: "pyval \<Rightarrow> pyval \<Rightarrow> auth_db \<Rightarrow> auth_db auth_result" where
  "mark_used jti family db =
     (if jti = PNone \<or> family = PNone \<or> is_used db jti then Inl (Raised DatabaseError)
      else Inr (db\<lparr>used_tokens := used_tokens db @ [(jti, family)]\<rparr>))"

subsection \<open>Passwords\<close>

definition policy :: "string \<Rightarrow> string \<Rightarrow> bool" where
  "policy special p =
     (length p \<ge> 8 \<and> list_ex is_upper p \<and> list_ex is_lower p \<and> list_ex is_digit p \<and> list_ex (\<lambda>c. c \<in> set special) p)"

definition request_password_ok :: "string \<Rightarrow> bool" where
  "request_password_ok = policy ''!@#$%^&*()_+-=[]{}|;:,.<>?''"

definition validate_password :: "string \<Rightarrow> bool" where
  "validate_password = policy (''!@#$%^&*(),.?:{}|<>'' @ [CHR 0x22])"

definition verify_password :: "auth_env \<Rightarrow> auth_user \<Rightarrow> string \<Rightarrow> bool" where
  "verify_password env u p =
     (case u_hash u of None \<Rightarrow> False | Some h \<Rightarrow> h \<noteq> [] \<and> p \<noteq> [] \<and> ae_verify env p h)"

definition set_password :: "auth_env \<Rightarrow> string \<Rightarrow> auth_user \<Rightarrow> string \<Rightarrow> auth_user auth_result" where
  "set_password env salt u p = (if validate_password p then Inr (u\<lparr>u_hash := Some (ae_hash env salt p)\<rparr>) else Inl (Raised ValueError))"

subsection \<open>The endpoints\<close>

text \<open>An endpoint draws identifiers from a sequence, and gives its response and the tables it leaves.\<close>

type_synonym 'a endpoint = "auth_env \<Rightarrow> int \<Rightarrow> (nat \<Rightarrow> string) \<Rightarrow> auth_db \<Rightarrow> 'a auth_result \<times> auth_db"

definition open_session :: "string \<Rightarrow> (pyval \<times> token_set) endpoint" where
  "open_session user env now draw db =
     (let family = ts_family (generate_tokens env now (draw 2, draw 3, draw 4) (PStr user) PNone []);
          session = \<lparr>s_id = draw 5, s_user = user, s_family = draw 2, s_revoked = None\<rparr>
      in (Inr (PStr user, generate_tokens env now (draw 6, draw 7, draw 8) (PStr user) family [(''session_id'', PStr (draw 5))]),
          db\<lparr>sessions := sessions db @ [session]\<rparr>))"

definition native_register :: "string \<Rightarrow> string \<Rightarrow> pyval \<Rightarrow> (pyval \<times> token_set) endpoint" where
  "native_register email password name env now draw db =
     (if \<not> request_password_ok password then (Inl (Http 422), db)
      else if get_by_email db email \<noteq> None then (Inl (Http 409), db)
      else
        let u = \<lparr>u_id = draw 0, u_email = normal_email email, u_hash = Some (ae_hash env (draw 1) password), u_name = name,
                 u_roles = [''user''], u_permissions = [], u_active = True, u_verified = False\<rparr>
        in case save_user u db of
             Inl e \<Rightarrow> (Inl e, db)
           | Inr db1 \<Rightarrow> open_session (u_id u) env now draw db1)"

definition native_login :: "string \<Rightarrow> string \<Rightarrow> (pyval \<times> token_set) endpoint" where
  "native_login email password env now draw db =
     (case get_by_email db email of
        None \<Rightarrow> (Inl (Http 401), db)
      | Some u \<Rightarrow>
          if \<not> verify_password env u password then (Inl (Http 401), db)
          else if \<not> u_active u then (Inl (Http 403), db)
          else open_session (u_id u) env now draw db)"

definition native_refresh :: "string \<Rightarrow> token_set endpoint" where
  "native_refresh token env now draw db =
     (case verify_refresh_token env now token of
        Inl _ \<Rightarrow> (Inl (Http 401), db)
      | Inr payload \<Rightarrow>
          if is_used db (jwt_claim payload ''jti'') then
            (if map_of payload ''family'' = None then (Inl (Raised KeyError), db)
             else (Inl (Http 401), revoke_family (jwt_claim payload ''family'') now db))
          else if map_of payload ''family'' = None then (Inl (Raised KeyError), db)
          else case mark_used (jwt_claim payload ''jti'') (jwt_claim payload ''family'') db of
            Inl e \<Rightarrow> (Inl e, db)
          | Inr db1 \<Rightarrow>
              (case map_of payload ''sub'' of
                 None \<Rightarrow> (Inl (Raised KeyError), db1)
               | Some user \<Rightarrow> (Inr (generate_tokens env now (draw 0, draw 1, draw 2) user (jwt_claim payload ''family'') []), db1)))"

text \<open>\<open>get_current_user\<close>: the user and the session that the access token names.\<close>

definition current_user :: "auth_env \<Rightarrow> int \<Rightarrow> string option \<Rightarrow> auth_db \<Rightarrow> (auth_user \<times> pyval) auth_result" where
  "current_user env now credentials db =
     (case credentials of
        None \<Rightarrow> Inl (Http 401)
      | Some token \<Rightarrow>
          (case verify_access_token env now token of
             Inl _ \<Rightarrow> Inl (Http 401)
           | Inr payload \<Rightarrow>
               (case map_of payload ''sub'' of
                  None \<Rightarrow> Inl (Raised KeyError)
                | Some (PStr i) \<Rightarrow>
                    (case get_by_id db i of
                       None \<Rightarrow> Inl (Http 401)
                     | Some u \<Rightarrow> if \<not> u_active u then Inl (Http 403) else Inr (u, jwt_claim payload ''session_id''))
                | Some _ \<Rightarrow> Inl (Raised AttributeError))))"

definition native_logout :: "string option \<Rightarrow> string \<Rightarrow> unit endpoint" where
  "native_logout credentials token env now draw db =
     (case current_user env now credentials db of
        Inl e \<Rightarrow> (Inl e, db)
      | Inr _ \<Rightarrow>
          (case verify_refresh_token env now token of
             Inl _ \<Rightarrow> (Inr (), db)
           | Inr payload \<Rightarrow>
               if map_of payload ''family'' = None then (Inl (Raised KeyError), db)
               else (Inr (), revoke_family (jwt_claim payload ''family'') now db)))"

definition forgot_password :: "string \<Rightarrow> unit endpoint" where
  "forgot_password email env now draw db =
     (case get_by_email db email of
        None \<Rightarrow> (Inr (), db)
      | Some u \<Rightarrow>
          if \<not> u_active u then (Inr (), db)
          else if list_ex (\<lambda>r. r_hash r = ae_sha256 env (draw 0)) (resets db) then (Inl (Raised DatabaseError), db)
          else (Inr (), db\<lparr>resets := resets db @ [\<lparr>r_user = u_id u, r_hash = ae_sha256 env (draw 0), r_expires = now + 3600, r_used = None\<rparr>]\<rparr>))"

definition open_reset :: "auth_env \<Rightarrow> int \<Rightarrow> string \<Rightarrow> auth_db \<Rightarrow> reset_row option" where
  "open_reset env now token db =
     find (\<lambda>r. r_hash r = ae_sha256 env token \<and> r_expires r > now \<and> r_used r = None
        \<and> (case get_by_id db (r_user r) of None \<Rightarrow> False | Some u \<Rightarrow> u_active u)) (resets db)"

text \<open>
  A reset reads the token, then writes.  Nothing locks the row of the token, and the write does not look at
  \<open>used_at\<close> again, so that other requests run between the two; \<open>reset_password\<close> is a reset that none interrupts.
\<close>

definition reset_check :: "string \<Rightarrow> string \<Rightarrow> auth_env \<Rightarrow> int \<Rightarrow> (nat \<Rightarrow> string) \<Rightarrow> auth_db \<Rightarrow> auth_user auth_result" where
  "reset_check token password env now draw db =
     (if \<not> request_password_ok password then Inl (Http 422)
      else case open_reset env now token db of
        None \<Rightarrow> Inl (Http 400)
      | Some row \<Rightarrow>
          (case get_by_id db (r_user row) of
             None \<Rightarrow> Inl (Raised AttributeError)
           | Some u \<Rightarrow> set_password env (draw 0) u password))"

definition reset_write :: "auth_user \<Rightarrow> string \<Rightarrow> auth_env \<Rightarrow> int \<Rightarrow> auth_db \<Rightarrow> auth_db" where
  "reset_write u token env now db =
     (let db1 = update_user u db;
          db2 = db1\<lparr>resets := map (\<lambda>r. if r_hash r = ae_sha256 env token then r\<lparr>r_used := Some now\<rparr> else r) (resets db1)\<rparr>
      in revoke_where (\<lambda>s. s_user s = u_id u) now db2)"

definition reset_password :: "string \<Rightarrow> string \<Rightarrow> unit endpoint" where
  "reset_password token password env now draw db =
     (case reset_check token password env now draw db of
        Inl e \<Rightarrow> (Inl e, db)
      | Inr u \<Rightarrow> (Inr (), reset_write u token env now db))"

definition list_sessions :: "string option \<Rightarrow> (string \<times> bool) list endpoint" where
  "list_sessions credentials env now draw db =
     (case current_user env now credentials db of
        Inl e \<Rightarrow> (Inl e, db)
      | Inr (u, current) \<Rightarrow>
          (Inr (map (\<lambda>s. (s_id s, PStr (s_id s) = current)) (filter (\<lambda>s. s_user s = u_id u \<and> s_revoked s = None) (sessions db))), db))"

definition revoke_session :: "string option \<Rightarrow> string \<Rightarrow> unit endpoint" where
  "revoke_session credentials session env now draw db =
     (case current_user env now credentials db of
        Inl e \<Rightarrow> (Inl e, db)
      | Inr (u, _) \<Rightarrow>
          (case find (\<lambda>s. s_id s = session \<and> s_user s = u_id u) (sessions db) of
             None \<Rightarrow> (Inl (Http 404), db)
           | Some s \<Rightarrow> (Inr (), revoke_family (PStr (s_family s)) now db)))"

subsection \<open>The provider\<close>

text \<open>\<open>rotate_refresh_token\<close> within the connection of \<open>refresh_token\<close>: an exception rolls it back.\<close>

definition rotate_refresh_token :: "string \<Rightarrow> token_set endpoint" where
  "rotate_refresh_token token env now draw db =
     (case verify_refresh_token env now token of
        Inl e \<Rightarrow> (Inl e, db)
      | Inr payload \<Rightarrow>
          if map_of payload ''jti'' = None then (Inl (Raised KeyError), db)
          else if is_used db (jwt_claim payload ''jti'') then
            (if map_of payload ''family'' = None then (Inl (Raised KeyError), db)
             else (Inl SecurityViolation, invalidate_token_family (jwt_claim payload ''family'') now db))
          else if map_of payload ''family'' = None then (Inl (Raised KeyError), db)
          else case mark_used (jwt_claim payload ''jti'') (jwt_claim payload ''family'') db of
            Inl e \<Rightarrow> (Inl e, db)
          | Inr db1 \<Rightarrow>
              (case map_of payload ''sub'' of
                 None \<Rightarrow> (Inl (Raised KeyError), db1)
               | Some user \<Rightarrow> (Inr (generate_tokens env now (draw 0, draw 1, draw 2) user (jwt_claim payload ''family'') []), db1)))"

definition in_connection :: "'a endpoint \<Rightarrow> 'a endpoint" where
  "in_connection f env now draw db = (case f env now draw db of (Inl e, _) \<Rightarrow> (Inl e, db) | (Inr r, db') \<Rightarrow> (Inr r, db'))"

definition provider_refresh_token :: "string \<Rightarrow> token_set endpoint" where
  "provider_refresh_token token = in_connection (rotate_refresh_token token)"

definition get_user_from_token :: "string \<Rightarrow> auth_env \<Rightarrow> int \<Rightarrow> auth_db \<Rightarrow> auth_user auth_result" where
  "get_user_from_token token env now db =
     (case verify_access_token env now token of
        Inl _ \<Rightarrow> Inl InvalidToken
      | Inr payload \<Rightarrow>
          (case jwt_claim payload ''sub'' of
             PStr i \<Rightarrow>
               if i = [] then Inl InvalidToken
               else (case get_by_id db i of
                       None \<Rightarrow> Inl InvalidToken
                     | Some u \<Rightarrow> if u_active u then Inr u else Inl InvalidToken)
           | v \<Rightarrow> if truthy v then Inl (Raised DatabaseError) else Inl InvalidToken))"

definition provider_revoke_token :: "string \<Rightarrow> unit endpoint" where
  "provider_revoke_token token env now draw db =
     (let family =
            (case verify_refresh_token env now token of
               Inr payload \<Rightarrow> jwt_claim payload ''family''
             | Inl _ \<Rightarrow>
                 (case verify_access_token env now token of
                    Inl _ \<Rightarrow> PNone
                  | Inr payload \<Rightarrow>
                      if \<not> truthy (jwt_claim payload ''session_id'') then PNone
                      else case find (\<lambda>s. PStr (s_id s) = jwt_claim payload ''session_id'') (sessions db) of
                        None \<Rightarrow> PNone | Some s \<Rightarrow> PStr (s_family s)))
      in if truthy family then (Inr (), invalidate_token_family family now db) else (Inr (), db))"

definition create_tokens_for_user :: "string \<Rightarrow> (pyval \<times> token_set) endpoint" where
  "create_tokens_for_user user env now draw db =
     (if get_by_id db user = None then (Inl (Raised DatabaseError), db) else open_session user env now draw db)"

definition get_active_user :: "string \<Rightarrow> auth_db \<Rightarrow> auth_user option" where
  "get_active_user i db = (case get_by_id db i of None \<Rightarrow> None | Some u \<Rightarrow> if u_active u then Some u else None)"

subsection \<open>Runs\<close>

datatype auth_op =
  Register string string pyval
| Login string string
| Refresh string
| Logout "string option" string
| Forgot string
| Reset string string
| ResetWrite auth_user string
| RevokeSession "string option" string
| ProviderRefresh string
| ProviderRevoke string
| CreateTokens string
| Deactivate auth_user
| VerifyEmail auth_user

definition auth_step :: "auth_env \<Rightarrow> int \<Rightarrow> (nat \<Rightarrow> string) \<Rightarrow> auth_op \<Rightarrow> auth_db \<Rightarrow> auth_db" where
  "auth_step env now draw op db =
     (case op of
        Register e p n \<Rightarrow> snd (native_register e p n env now draw db)
      | Login e p \<Rightarrow> snd (native_login e p env now draw db)
      | Refresh t \<Rightarrow> snd (native_refresh t env now draw db)
      | Logout c t \<Rightarrow> snd (native_logout c t env now draw db)
      | Forgot e \<Rightarrow> snd (forgot_password e env now draw db)
      | Reset t p \<Rightarrow> snd (reset_password t p env now draw db)
      | ResetWrite u t \<Rightarrow> reset_write u t env now db
      | RevokeSession c s \<Rightarrow> snd (revoke_session c s env now draw db)
      | ProviderRefresh t \<Rightarrow> snd (provider_refresh_token t env now draw db)
      | ProviderRevoke t \<Rightarrow> snd (provider_revoke_token t env now draw db)
      | CreateTokens u \<Rightarrow> snd (create_tokens_for_user u env now draw db)
      | Deactivate u \<Rightarrow> deactivate u db
      | VerifyEmail u \<Rightarrow> verify_email u db)"

text \<open>
  The states that any sequence of operations, at any times, can lead to; the write of a reset that was
  checked earlier is an operation of its own.
\<close>

inductive auth_reaches :: "auth_env \<Rightarrow> auth_db \<Rightarrow> auth_db \<Rightarrow> bool" for env where
  stay: "auth_reaches env db db"
| step: "auth_reaches env db db' \<Longrightarrow> auth_reaches env db (auth_step env now draw op db')"

end
