(* ===== verification/NativeAuthProps.thy ===== *)
theory NativeAuthProps
  imports NativeAuth
begin

section \<open>Refresh tokens, sessions and password resets\<close>

text \<open>
  A refresh token is exchanged once; presenting it again revokes its sessions; a reset token works
  once.  And what does not hold: a revoked session still refreshes, the provider's answer to a reused
  token is rolled back, and a password reset keeps the old password.
\<close>

subsection \<open>What every operation keeps\<close>

text \<open>A column of a table, read as a fact about the state.\<close>

definition revoked_ids :: "auth_db \<Rightarrow> string set" where
  "revoked_ids db = {s_id s | s. s \<in> set (sessions db) \<and> s_revoked s \<noteq> None}"

definition spent_hashes :: "auth_db \<Rightarrow> string set" where
  "spent_hashes db = {r_hash r | r. r \<in> set (resets db) \<and> r_used r \<noteq> None}"

definition later :: "auth_db \<Rightarrow> auth_db \<Rightarrow> bool" where
  "later db db' \<longleftrightarrow> fst ` set (used_tokens db) \<subseteq> fst ` set (used_tokens db') \<and> revoked_ids db \<subseteq> revoked_ids db'
     \<and> spent_hashes db \<subseteq> spent_hashes db'"

lemma later_refl: "later db db"
  by (simp add: later_def)

lemma later_trans: "later a b \<Longrightarrow> later b c \<Longrightarrow> later a c"
  by (auto simp: later_def)

lemma later_fields: "used_tokens db' = used_tokens db \<Longrightarrow> sessions db' = sessions db \<Longrightarrow> resets db' = resets db \<Longrightarrow> later db db'"
  by (simp add: later_def revoked_ids_def spent_hashes_def)

lemma kept_column:
  assumes "\<And>x. key (f x) = key x" "\<And>x. mark x \<noteq> None \<Longrightarrow> mark (f x) \<noteq> None"
  shows "{key x | x. x \<in> set xs \<and> mark x \<noteq> None} \<subseteq> {key x | x. x \<in> set (map f xs) \<and> mark x \<noteq> None}"
proof
  fix k assume "k \<in> {key x | x. x \<in> set xs \<and> mark x \<noteq> None}"
  then obtain x where "k = key x" "x \<in> set xs" "mark x \<noteq> None" by blast
  with assms [of x] have "k = key (f x)" "f x \<in> set (map f xs)" "mark (f x) \<noteq> None" by auto
  then show "k \<in> {key x | x. x \<in> set (map f xs) \<and> mark x \<noteq> None}" by blast
qed

lemma later_revoke: "later db (revoke_where P now db)"
proof -
  have s: "sessions (revoke_where P now db) = map (\<lambda>s. if P s then s\<lparr>s_revoked := Some now\<rparr> else s) (sessions db)"
    by (simp add: revoke_where_def)
  have "revoked_ids db \<subseteq> revoked_ids (revoke_where P now db)"
    unfolding revoked_ids_def s by (rule kept_column) simp_all
  then show ?thesis by (simp add: later_def revoke_where_def spent_hashes_def)
qed

lemma later_mark: "mark_used j f db = Inr db' \<Longrightarrow> later db db'"
  by (auto simp: mark_used_def later_def revoked_ids_def spent_hashes_def split: if_splits)

lemma later_open: "later db (snd (open_session u env now draw db))"
  by (auto simp: open_session_def Let_def later_def revoked_ids_def spent_hashes_def)

lemma later_save: "save_user u db = Inr db' \<Longrightarrow> later db db'"
  by (auto simp: save_user_def intro: later_fields split: if_splits)

lemma later_spend:
  "later db (db\<lparr>resets := map (\<lambda>r. if P r then r\<lparr>r_used := Some now\<rparr> else r) (resets db)\<rparr>)"
proof -
  let ?db = "db\<lparr>resets := map (\<lambda>r. if P r then r\<lparr>r_used := Some now\<rparr> else r) (resets db)\<rparr>"
  have s: "resets ?db = map (\<lambda>r. if P r then r\<lparr>r_used := Some now\<rparr> else r) (resets db)" by simp
  have "spent_hashes db \<subseteq> spent_hashes ?db"
    unfolding spent_hashes_def s by (rule kept_column) simp_all
  then show ?thesis by (simp add: later_def revoked_ids_def)
qed

lemmas later_rules = later_refl later_revoke later_mark later_open later_fields

lemma later_write: "later db (reset_write u t env now db)"
proof -
  have update: "later db (update_user u db)" by (rule later_fields) (simp_all add: update_user_def)
  show ?thesis unfolding reset_write_def Let_def by (rule later_trans [OF later_trans [OF update later_spend] later_revoke])
qed

lemma later_rotate: "later db (snd (rotate_refresh_token t env now draw db))"
  by (auto simp: rotate_refresh_token_def invalidate_token_family_def intro: later_rules split: sum.splits option.splits)

lemma later_step: "later db (auth_step env now draw op db)"
proof (cases op)
  case (Register e p n)
  then show ?thesis
    by (auto simp: auth_step_def native_register_def Let_def intro: later_refl later_trans [OF later_save later_open] split: sum.splits)
next
  case (Login e p)
  then show ?thesis by (auto simp: auth_step_def native_login_def intro: later_rules split: option.splits)
next
  case (Refresh t)
  then show ?thesis
    by (auto simp: auth_step_def native_refresh_def revoke_family_def intro: later_rules split: sum.splits option.splits)
next
  case (Logout c t)
  then show ?thesis
    by (auto simp: auth_step_def native_logout_def revoke_family_def intro: later_rules split: sum.splits option.splits)
next
  case (Forgot e)
  then show ?thesis
    by (auto simp: auth_step_def forgot_password_def later_def revoked_ids_def spent_hashes_def split: option.splits)
next
  case (Reset t p)
  then show ?thesis by (auto simp: auth_step_def reset_password_def intro: later_refl later_write split: sum.splits)
next
  case (ResetWrite u t)
  then show ?thesis by (simp add: auth_step_def later_write)
next
  case (RevokeSession c s)
  then show ?thesis
    by (auto simp: auth_step_def revoke_session_def revoke_family_def intro: later_rules split: sum.splits option.splits)
next
  case (ProviderRefresh t)
  then show ?thesis
    using later_rotate [of db t env now draw]
    by (auto simp: auth_step_def provider_refresh_token_def in_connection_def intro: later_refl split: prod.splits sum.splits)
next
  case (ProviderRevoke t)
  then show ?thesis
    by (auto simp: auth_step_def provider_revoke_token_def invalidate_token_family_def Let_def intro: later_rules)
next
  case (CreateTokens u)
  then show ?thesis by (auto simp: auth_step_def create_tokens_for_user_def intro: later_rules)
next
  case (Deactivate u)
  then show ?thesis by (auto simp: auth_step_def deactivate_def intro: later_fields)
next
  case (VerifyEmail u)
  then show ?thesis by (auto simp: auth_step_def verify_email_def intro: later_fields)
qed

lemma reaches_later: "auth_reaches env db db' \<Longrightarrow> later db db'"
  by (induction rule: auth_reaches.induct) (auto intro: later_refl later_trans later_step)

text \<open>
  An environment to try the theorems in: a token is the name of its identifier, and is a refresh token
  of the family \<open>f\<close> and the user \<open>u\<close>.
\<close>

definition example_env :: auth_env where
  "example_env = \<lparr>ae_access_ttl = 900, ae_refresh_ttl = 2592000,
     ae_encode = (\<lambda>c. case jwt_claim c ''jti'' of PStr j \<Rightarrow> j | _ \<Rightarrow> []),
     ae_decode = (\<lambda>now t. if t = [] then MalformedToken else Claims
        [(''sub'', PStr ''u''), (''type'', PStr ''refresh''), (''family'', PStr ''f''), (''exp'', PInt (now + 10)), (''iat'', PInt now), (''jti'', PStr t)]),
     ae_hash = (@), ae_verify = (\<lambda>p h. p = h), ae_sha256 = (\<lambda>t. t)\<rparr>"

definition example_auth_db :: auth_db where
  "example_auth_db = \<lparr>
     users = [\<lparr>u_id = ''u'', u_email = ''a@b'', u_hash = Some ''old'', u_name = PNone, u_roles = [''user''], u_permissions = [],
        u_active = True, u_verified = False\<rparr>],
     sessions = [\<lparr>s_id = ''s'', s_user = ''u'', s_family = ''f'', s_revoked = None\<rparr>],
     used_tokens = [(PStr ''spent'', PStr ''f'')],
     resets = [\<lparr>r_user = ''u'', r_hash = ''reset'', r_expires = 3600, r_used = None\<rparr>]\<rparr>"

abbreviation drawn :: "nat \<Rightarrow> string" where
  "drawn n \<equiv> replicate n CHR 0x61"

subsection \<open>Refresh tokens\<close>

lemma exchanged:
  assumes "native_refresh t env now draw db = (Inr ts, db1) \<or> provider_refresh_token t env now draw db = (Inr ts, db1)"
    and "verify_refresh_token env now t = Inr c"
  shows "jwt_claim c ''jti'' \<noteq> PNone" "jwt_claim c ''jti'' \<in> fst ` set (used_tokens db1)"
  using assms
  by (auto simp: native_refresh_def provider_refresh_token_def in_connection_def rotate_refresh_token_def mark_used_def
      split: if_splits option.splits prod.splits sum.splits)

text \<open>
  C30: A refresh token is exchanged at most once.  After the router or the provider has exchanged a
  token, no token with the same identifier is exchanged again, by either of them, whatever operations
  happen in between: the router answers 401 and revokes the sessions of the family, and the provider
  reports a security violation.
\<close>

theorem refresh_once:
  assumes "native_refresh t env now draw db = (Inr ts, db1) \<or> provider_refresh_token t env now draw db = (Inr ts, db1)"
    and "auth_reaches env db1 db2"
    and "verify_refresh_token env now t = Inr c" "verify_refresh_token env now2 t2 = Inr c2"
    and "jwt_claim c2 ''jti'' = jwt_claim c ''jti''" "map_of c2 ''family'' \<noteq> None"
  shows "native_refresh t2 env now2 draw2 db2 = (Inl (Http 401), revoke_family (jwt_claim c2 ''family'') now2 db2)
    \<and> fst (provider_refresh_token t2 env now2 draw2 db2) = Inl SecurityViolation"
proof -
  have "is_used db2 (jwt_claim c2 ''jti'')"
    using exchanged [OF assms(1,3)] reaches_later [OF assms(2)] assms(5) by (auto simp: is_used_def later_def)
  moreover have "map_of c2 ''jti'' \<noteq> None"
    using exchanged(1) [OF assms(1,3)] assms(5) by (auto simp: jwt_claim_def split: option.splits)
  ultimately show ?thesis using assms(4,6)
    by (auto simp: native_refresh_def provider_refresh_token_def in_connection_def rotate_refresh_token_def)
qed

theorem refresh_once_witness:
  "native_refresh ''t'' example_env 20 drawn (auth_step example_env 15 drawn (Login ''a@b'' ''old'') (snd (provider_refresh_token ''t'' example_env 10 drawn example_auth_db)))
     = (Inl (Http 401), revoke_family (PStr ''f'') 20 (auth_step example_env 15 drawn (Login ''a@b'' ''old'') (snd (provider_refresh_token ''t'' example_env 10 drawn example_auth_db))))"
proof -
  let ?r = "provider_refresh_token ''t'' example_env 10 drawn example_auth_db"
  let ?c = "\<lambda>now. [(''sub'', PStr ''u''), (''type'', PStr ''refresh''), (''family'', PStr ''f''), (''exp'', PInt (now + 10)), (''iat'', PInt now), (''jti'', PStr ''t'')]"
  obtain ts where ts: "fst ?r = Inr ts" by (cases "fst ?r") (code_simp, simp)
  then have first: "provider_refresh_token ''t'' example_env 10 drawn example_auth_db = (Inr ts, snd ?r)" by (metis prod.collapse)
  have c: "verify_refresh_token example_env now ''t'' = Inr (?c now)" for now
    by (simp add: verify_refresh_token_def verify_token_def example_env_def jwt_claim_def)
  have run: "auth_reaches example_env (snd ?r) (auth_step example_env 15 drawn (Login ''a@b'' ''old'') (snd ?r))"
    by (intro auth_reaches.intros)
  have "jwt_claim (?c 20) ''jti'' = jwt_claim (?c 10) ''jti''" "map_of (?c 20) ''family'' \<noteq> None" "jwt_claim (?c 20) ''family'' = PStr ''f''"
    by (simp_all add: jwt_claim_def)
  with refresh_once [OF disjI2 [OF first] run c c, where ?draw2.0 = drawn] show ?thesis by simp
qed

text \<open>
  C31: A stolen refresh token ends the sessions of its family, in the router.  When its refresh endpoint is
  given a token that was exchanged before, every session of the family is revoked, and stays revoked whatever
  happens later.  The provider's exchange does not: see \<open>provider_reuse_rolled_back\<close>.
\<close>

theorem reuse_revokes_sessions:
  assumes "verify_refresh_token env now t = Inr c" "is_used db (jwt_claim c ''jti'')" "map_of c ''family'' = Some (PStr f)"
    and "s \<in> set (sessions db)" "s_family s = f" "auth_reaches env (snd (native_refresh t env now draw db)) db'"
  shows "fst (native_refresh t env now draw db) = Inl (Http 401) \<and> s_id s \<in> revoked_ids db'"
proof -
  have r: "native_refresh t env now draw db = (Inl (Http 401), revoke_family (PStr f) now db)"
    using assms(1-3) by (simp add: native_refresh_def jwt_claim_def)
  have "s\<lparr>s_revoked := Some now\<rparr> \<in> set (sessions (revoke_family (PStr f) now db))"
    using assms(4,5) by (auto simp: revoke_family_def revoke_where_def image_iff)
  then have "s_id (s\<lparr>s_revoked := Some now\<rparr>) \<in> revoked_ids (revoke_family (PStr f) now db)"
    unfolding revoked_ids_def by fastforce
  with reaches_later [OF assms(6)] r show ?thesis by (auto simp: later_def)
qed

theorem reuse_revokes_sessions_witness:
  "fst (native_refresh ''spent'' example_env 20 drawn example_auth_db) = Inl (Http 401)
   \<and> ''s'' \<in> revoked_ids (auth_step example_env 30 drawn (Refresh ''t'') (snd (native_refresh ''spent'' example_env 20 drawn example_auth_db)))"
proof -
  let ?c = "[(''sub'', PStr ''u''), (''type'', PStr ''refresh''), (''family'', PStr ''f''), (''exp'', PInt 30), (''iat'', PInt 20), (''jti'', PStr ''spent'')]"
  let ?s = "\<lparr>s_id = ''s'', s_user = ''u'', s_family = ''f'', s_revoked = None\<rparr>"
  have "verify_refresh_token example_env 20 ''spent'' = Inr ?c"
    by (simp add: verify_refresh_token_def verify_token_def example_env_def jwt_claim_def)
  moreover have "is_used example_auth_db (jwt_claim ?c ''jti'')" by (simp add: is_used_def jwt_claim_def example_auth_db_def)
  moreover have "?s \<in> set (sessions example_auth_db)" by (simp add: example_auth_db_def)
  ultimately show ?thesis
    using reuse_revokes_sessions [of example_env 20 "''spent''" ?c example_auth_db "''f''" ?s drawn
        "auth_step example_env 30 drawn (Refresh ''t'') (snd (native_refresh ''spent'' example_env 20 drawn example_auth_db))"]
    by (simp add: auth_reaches.step auth_reaches.stay)
qed

text \<open>
  But a revoked session still refreshes: neither the exchange nor the check of an access token reads
  the table of sessions.  So a logout, the end of a session or a detected theft leaves the newest
  refresh token of the family usable.
\<close>

lemma sessions_not_read:
  "fst (native_refresh t env now draw (db\<lparr>sessions := ss\<rparr>)) = fst (native_refresh t env now draw db)"
  "fst (provider_refresh_token t env now draw (db\<lparr>sessions := ss\<rparr>)) = fst (provider_refresh_token t env now draw db)"
  "current_user env now cr (db\<lparr>sessions := ss\<rparr>) = current_user env now cr db"
  "get_user_from_token t env now (db\<lparr>sessions := ss\<rparr>) = get_user_from_token t env now db"
  by (auto simp: native_refresh_def provider_refresh_token_def in_connection_def rotate_refresh_token_def mark_used_def is_used_def
      current_user_def get_user_from_token_def get_by_id_def split: sum.splits option.splits pyval.splits prod.splits if_splits)

text \<open>And the provider's answer to a reused token is rolled back with the exception it raises.\<close>

lemma provider_reuse_rolled_back:
  "fst (provider_refresh_token t env now draw db) = Inl e \<Longrightarrow> snd (provider_refresh_token t env now draw db) = db"
  by (auto simp: provider_refresh_token_def in_connection_def split: prod.splits sum.splits)

subsection \<open>Password resets\<close>

definition unique_hashes :: "auth_db \<Rightarrow> bool" where
  "unique_hashes db = distinct (map r_hash (resets db))"

lemma revoke_resets [simp]: "resets (revoke_where P now db) = resets db"
  by (simp add: revoke_where_def)

lemma open_resets: "resets (snd (open_session u env now draw db)) = resets db"
  by (simp add: open_session_def Let_def)

lemma mark_resets: "mark_used j f db = Inr db' \<Longrightarrow> resets db' = resets db"
  by (auto simp: mark_used_def split: if_splits)

lemma save_resets: "save_user u db = Inr db' \<Longrightarrow> resets db' = resets db"
  by (auto simp: save_user_def split: if_splits)

lemma rotate_resets: "resets (snd (rotate_refresh_token t env now draw db)) = resets db"
  by (auto simp: rotate_refresh_token_def invalidate_token_family_def dest: mark_resets split: sum.splits option.splits)

lemma spend_hashes: "map r_hash (map (\<lambda>r. if P r then r\<lparr>r_used := u\<rparr> else r) rs) = map r_hash rs"
  by (induction rs) auto

lemma write_hashes: "map r_hash (resets (reset_write u t env now db)) = map r_hash (resets db)"
  by (simp add: reset_write_def update_user_def Let_def spend_hashes del: map_map list.map_comp)

lemma unique_step: "unique_hashes db \<Longrightarrow> unique_hashes (auth_step env now draw op db)"
proof (cases op)
  case (Forgot e)
  then show "unique_hashes db \<Longrightarrow> ?thesis"
    by (auto simp: auth_step_def forgot_password_def unique_hashes_def list_ex_iff split: option.splits)
next
  case (Reset t p)
  then show "unique_hashes db \<Longrightarrow> ?thesis"
    by (auto simp: auth_step_def reset_password_def unique_hashes_def write_hashes split: sum.splits)
next
  case (ResetWrite u t)
  then show "unique_hashes db \<Longrightarrow> ?thesis" by (simp add: auth_step_def unique_hashes_def write_hashes)
next
  case (ProviderRefresh t)
  then show "unique_hashes db \<Longrightarrow> ?thesis"
    using rotate_resets [of t env now draw db]
    by (auto simp: auth_step_def provider_refresh_token_def in_connection_def unique_hashes_def split: prod.splits sum.splits)
qed (auto simp: auth_step_def unique_hashes_def native_register_def native_login_def native_refresh_def native_logout_def
    revoke_session_def provider_revoke_token_def create_tokens_for_user_def deactivate_def verify_email_def revoke_family_def
    invalidate_token_family_def open_resets Let_def dest: mark_resets save_resets split: sum.splits option.splits)

lemma unique_reaches: "auth_reaches env db db' \<Longrightarrow> unique_hashes db \<Longrightarrow> unique_hashes db'"
  by (induction rule: auth_reaches.induct) (auto intro: unique_step)

lemma spent_closed:
  assumes "unique_hashes db" "ae_sha256 env t \<in> spent_hashes db"
  shows "open_reset env now t db = None"
proof -
  from assms(2) obtain r where r: "r \<in> set (resets db)" "r_hash r = ae_sha256 env t" "r_used r \<noteq> None"
    by (auto simp: spent_hashes_def)
  have "r' = r" if "r' \<in> set (resets db)" "r_hash r' = ae_sha256 env t" for r'
    using assms(1) that r(1,2) inj_onD [of r_hash "set (resets db)" r' r] by (simp add: unique_hashes_def distinct_map)
  with r(3) show ?thesis by (auto simp: open_reset_def find_None_iff)
qed

lemma hashes_step: "r_hash ` set (resets db) \<subseteq> r_hash ` set (resets (auth_step env now draw op db))"
proof (cases op)
  case (Forgot e)
  then show ?thesis by (auto simp: auth_step_def forgot_password_def split: option.splits)
next
  case (Reset t p)
  have "r_hash ` set (resets (reset_write u t env now db)) = r_hash ` set (resets db)" for u
    using arg_cong [OF write_hashes, of set u t env now db] by simp
  with Reset show ?thesis by (auto simp: auth_step_def reset_password_def split: sum.splits)
next
  case (ResetWrite u t)
  then show ?thesis using arg_cong [OF write_hashes, of set u t env now db] by (simp add: auth_step_def)
next
  case (ProviderRefresh t)
  then show ?thesis
    using rotate_resets [of t env now draw db]
    by (auto simp: auth_step_def provider_refresh_token_def in_connection_def split: prod.splits sum.splits)
qed (auto simp: auth_step_def native_register_def native_login_def native_refresh_def native_logout_def
    revoke_session_def provider_revoke_token_def create_tokens_for_user_def deactivate_def verify_email_def revoke_family_def
    invalidate_token_family_def open_resets Let_def dest: mark_resets save_resets split: sum.splits option.splits)

lemma hashes_kept: "auth_reaches env db db' \<Longrightarrow> r_hash ` set (resets db) \<subseteq> r_hash ` set (resets db')"
proof (induction rule: auth_reaches.induct)
  case (step db db' now draw op)
  with hashes_step [of db' env now draw op] show ?case by blast
qed simp

lemma checked_row:
  assumes "reset_check t p env now draw db = Inr u"
  shows "ae_sha256 env t \<in> r_hash ` set (resets db)"
proof -
  from assms obtain row where "open_reset env now t db = Some row"
    by (auto simp: reset_check_def split: if_splits option.splits)
  from find_Some_D [OF this [unfolded open_reset_def]] show ?thesis by (auto intro: rev_image_eqI)
qed

lemma write_spends:
  assumes "ae_sha256 env t \<in> r_hash ` set (resets db)"
  shows "ae_sha256 env t \<in> spent_hashes (reset_write u t env now db)"
proof -
  from assms obtain r where r: "r \<in> set (resets db)" "r_hash r = ae_sha256 env t" by auto
  then have "r\<lparr>r_used := Some now\<rparr> \<in> set (resets (reset_write u t env now db))"
    by (auto simp: reset_write_def update_user_def Let_def)
  moreover from r(2) have "r_hash (r\<lparr>r_used := Some now\<rparr>) = ae_sha256 env t" "r_used (r\<lparr>r_used := Some now\<rparr>) \<noteq> None" by simp_all
  ultimately show ?thesis unfolding spent_hashes_def by (metis (mono_tags, lifting) mem_Collect_eq)
qed

text \<open>
  C32: A reset token that has been spent stays spent.  Once a reset that was checked at any earlier moment
  has written, every reset with the token that is checked afterwards is refused, in every later state,
  whatever operations, other resets included, happen in between: the endpoint answers 400, or 422 for a weak
  password, and changes nothing.  Resets that are checked before the first of them writes all succeed:
  see \<open>parallel_resets_succeed\<close>.
\<close>

theorem reset_once:
  assumes "reset_check t p env now draw db0 = Inr u" "unique_hashes db0" "auth_reaches env db0 db"
    and "auth_reaches env (reset_write u t env now1 db) db2"
  shows "reset_password t p2 env now2 draw2 db2 = (Inl (Http (if request_password_ok p2 then 400 else 422)), db2)"
proof -
  have "ae_sha256 env t \<in> r_hash ` set (resets db)" using checked_row [OF assms(1)] hashes_kept [OF assms(3)] by blast
  from write_spends [OF this] have "ae_sha256 env t \<in> spent_hashes db2"
    using reaches_later [OF assms(4)] unfolding later_def by blast
  moreover have "unique_hashes (reset_write u t env now1 db)"
    using unique_reaches [OF assms(3,2)] by (simp add: unique_hashes_def write_hashes)
  then have "unique_hashes db2" using unique_reaches [OF assms(4)] by simp
  ultimately show ?thesis by (simp add: reset_password_def reset_check_def spent_closed)
qed

text \<open>Two resets that are checked in the same state both succeed, with different passwords.\<close>

lemma parallel_resets_succeed:
  assumes "reset_check t p env now draw db = Inr u" "request_password_ok p'" "validate_password p'"
  shows "\<exists>u'. reset_check t p' env now draw db = Inr u'"
  using assms by (auto simp: reset_check_def set_password_def split: if_splits option.splits)

theorem reset_once_witness:
  "reset_password ''reset'' ''Passw0rd!'' example_env 30 drawn
     (auth_step example_env 20 drawn (Forgot ''a@b'') (snd (reset_password ''reset'' ''Passw0rd!'' example_env 10 drawn example_auth_db)))
   = (Inl (Http 400), auth_step example_env 20 drawn (Forgot ''a@b'') (snd (reset_password ''reset'' ''Passw0rd!'' example_env 10 drawn example_auth_db)))"
proof -
  obtain u where c: "reset_check ''reset'' ''Passw0rd!'' example_env 10 drawn example_auth_db = Inr u"
    by (cases "reset_check ''reset'' ''Passw0rd!'' example_env 10 drawn example_auth_db") (code_simp, simp)
  have u: "unique_hashes example_auth_db" by (simp add: unique_hashes_def example_auth_db_def)
  have "request_password_ok ''Passw0rd!''" by code_simp
  moreover have "snd (reset_password ''reset'' ''Passw0rd!'' example_env 10 drawn example_auth_db) = reset_write u ''reset'' example_env 10 example_auth_db"
    by (simp add: reset_password_def c)
  ultimately show ?thesis
    using reset_once [OF c u auth_reaches.stay auth_reaches.step [OF auth_reaches.stay],
        where ?p2.0 = "''Passw0rd!''" and ?now2.0 = 30 and ?draw2.0 = drawn and ?now1.0 = 10] by simp
qed

text \<open>
  But a reset does not change a password: no column of a user's hash is written, so the old password
  still logs in and the new one does not.
\<close>

lemma reset_keeps_password:
  "map (\<lambda>u. (u_id u, u_hash u)) (users (snd (reset_password t p env now draw db))) = map (\<lambda>u. (u_id u, u_hash u)) (users db)"
  by (auto simp: reset_password_def reset_write_def update_user_def revoke_where_def Let_def split: sum.splits)

text \<open>A password that the request accepts can fail the policy of the user object, which then raises.\<close>

lemma policies_differ: "request_password_ok ''Passw0rd_'' \<and> \<not> validate_password ''Passw0rd_''"
  by code_simp

end
