(* ===== verification/ReadHelpers.thy ===== *)
theory ReadHelpers
  imports FindQueryProps
begin

section \<open>The read helpers of the repository\<close>

text \<open>
  The helpers of \<open>db.py\<close> beside \<open>find\<close>: \<open>count\<close>, \<open>exists\<close>, \<open>sum\<close>, \<open>avg\<close>, \<open>min\<close>, \<open>max\<close>, \<open>distinct\<close>,
  \<open>pluck\<close>, \<open>aggregate\<close> and \<open>batch_exists\<close>, each as the statement it executes with its parameters, and
  what it makes of the rows.  What the catalog says of an unregistered view is an argument.
\<close>

subsection \<open>The shape of a view and the SQL of a field\<close>

type_synonym view_shape = "string list option \<times> string option"

definition view_shape :: "norm_env \<Rightarrow> (string \<Rightarrow> view_shape) \<Rightarrow> string \<Rightarrow> view_shape" where
  "view_shape ne catalog view =
     (case table_metadata ne view of
        None \<Rightarrow> catalog view
      | Some md \<Rightarrow>
          (case columns md of Some cs \<Rightarrow> if cs = [] then None else Some cs | None \<Rightarrow> None,
           if has_jsonb_data md
           then Some (case meta_jsonb_column md of Some c \<Rightarrow> if c \<noteq> [] then c else ''data'' | None \<Rightarrow> ''data'')
           else meta_jsonb_column md))"

definition field_sql :: "view_shape \<Rightarrow> string \<Rightarrow> bool \<Rightarrow> composable \<times> bool" where
  "field_sql shape field numeric =
     (let is_column = (Some field = snd shape
            \<or> (case fst shape of Some cs \<Rightarrow> field \<in> set cs | None \<Rightarrow> field = ''id''))
      in case snd shape of
           None \<Rightarrow> (Composed [Identifier field], False)
         | Some col \<Rightarrow>
             if is_column then (Composed [Identifier field], False)
             else (if numeric
                   then Composed [SQL ''('', Identifier col, SQL '' ->> '', Literal (PStr field), SQL '')::numeric'']
                   else Composed [SQL ''('', Identifier col, SQL '' -> '', Literal (PStr field), SQL '')''], True))"

subsection \<open>The statements\<close>

type_synonym statement = "composable \<times> pyval list"

definition helper_parts :: "find_env \<Rightarrow> (string \<Rightarrow> view_shape) \<Rightarrow> query_request \<Rightarrow> (composable list \<times> pyval list) result" where
  "helper_parts fe catalog rq =
     helper_where (fe_fuel fe) (fe_norm fe) (fe_where fe) (fe_type fe) (fe_auth_filters fe) (fe_field fe)
       (view_shape (fe_norm fe) catalog (rq_view rq)) rq"

definition where_tail :: "composable list \<Rightarrow> composable list" where
  "where_tail parts = (if parts = [] then [] else [SQL '' WHERE '', sql_join '' AND '' parts])"

definition count_statement :: "find_env \<Rightarrow> (string \<Rightarrow> view_shape) \<Rightarrow> query_request \<Rightarrow> statement result" where
  "count_statement fe catalog rq =
     rbind (helper_parts fe catalog rq) (\<lambda>(parts, ps).
       Inr (Composed ([SQL ''SELECT COUNT(*) FROM '', qualified_identifier (rq_view rq)] @ where_tail parts), ps))"

definition exists_statement :: "find_env \<Rightarrow> (string \<Rightarrow> view_shape) \<Rightarrow> query_request \<Rightarrow> statement result" where
  "exists_statement fe catalog rq =
     rbind (helper_parts fe catalog rq) (\<lambda>(parts, ps).
       Inr (Composed ([SQL ''SELECT EXISTS(SELECT 1 FROM '', qualified_identifier (rq_view rq)] @ where_tail parts @ [SQL '')'']), ps))"

definition coalesce_statement :: "string \<Rightarrow> string \<Rightarrow> find_env \<Rightarrow> (string \<Rightarrow> view_shape) \<Rightarrow> query_request \<Rightarrow> statement result" where
  "coalesce_statement call field fe catalog rq =
     (let f = fst (field_sql (view_shape (fe_norm fe) catalog (rq_view rq)) field True) in
      rbind (helper_parts fe catalog rq) (\<lambda>(parts, ps).
        Inr (Composed [Composed [SQL call, f, SQL ''), 0) FROM '', qualified_identifier (rq_view rq)], where_sql parts], ps)))"

definition sum_statement :: "string \<Rightarrow> find_env \<Rightarrow> (string \<Rightarrow> view_shape) \<Rightarrow> query_request \<Rightarrow> statement result" where
  "sum_statement = coalesce_statement ''SELECT COALESCE(SUM(''"

definition avg_statement :: "string \<Rightarrow> find_env \<Rightarrow> (string \<Rightarrow> view_shape) \<Rightarrow> query_request \<Rightarrow> statement result" where
  "avg_statement = coalesce_statement ''SELECT COALESCE(AVG(''"

text \<open>\<open>_extreme\<close>, for \<open>MIN\<close> and \<open>MAX\<close>.\<close>

definition extreme_statement :: "string \<Rightarrow> string \<Rightarrow> find_env \<Rightarrow> (string \<Rightarrow> view_shape) \<Rightarrow> query_request \<Rightarrow> statement result" where
  "extreme_statement func field fe catalog rq =
     (let (f, in_jsonb) = field_sql (view_shape (fe_norm fe) catalog (rq_view rq)) field False;
          view = qualified_identifier (rq_view rq)
      in rbind (helper_parts fe catalog rq) (\<lambda>(parts, ps).
           Inr (if in_jsonb
                then Composed [Composed [SQL ''SELECT '', f, SQL '' FROM '', view],
                               where_sql (parts @ [Composed [SQL ''jsonb_typeof('', f, SQL ('') <> 'null'' @ [CHR 0x27])]]),
                               Composed [SQL '' ORDER BY 1 '', SQL (if func = ''MIN'' then ''ASC'' else ''DESC''), SQL '' LIMIT 1'']]
                else Composed [Composed [SQL ''SELECT '', SQL func, SQL ''('', f, SQL '') FROM '', view], where_sql parts], ps)))"

definition distinct_statement :: "string \<Rightarrow> find_env \<Rightarrow> (string \<Rightarrow> view_shape) \<Rightarrow> query_request \<Rightarrow> statement result" where
  "distinct_statement field fe catalog rq =
     (let (f, in_jsonb) = field_sql (view_shape (fe_norm fe) catalog (rq_view rq)) field False;
          f1 = (if in_jsonb then Composed [SQL ''NULLIF('', f, SQL '', 'null'::jsonb)''] else f)
      in rbind (helper_parts fe catalog rq) (\<lambda>(parts, ps).
           Inr (Composed [Composed [SQL ''SELECT DISTINCT '', f1, SQL '' FROM '', qualified_identifier (rq_view rq)],
                          where_sql parts, SQL '' ORDER BY 1''], ps)))"

definition pluck_statement ::
  "string \<Rightarrow> pyval \<Rightarrow> pyval \<Rightarrow> find_env \<Rightarrow> (string \<Rightarrow> view_shape) \<Rightarrow> query_request \<Rightarrow> statement result" where
  "pluck_statement field limit offset fe catalog rq =
     (let f = fst (field_sql (view_shape (fe_norm fe) catalog (rq_view rq)) field False) in
      rbind (helper_parts fe catalog rq) (\<lambda>(parts, ps).
        Inr (Composed ([Composed [SQL ''SELECT '', f, SQL '' FROM '', qualified_identifier (rq_view rq)], where_sql parts]
               @ limit_part '' LIMIT '' limit @ limit_part '' OFFSET '' offset), ps)))"

text \<open>The expressions of \<open>aggregate\<close> are SQL of the calling code; \<open>None\<close> when there are none to compute.\<close>

definition aggregate_statement ::
  "(string \<times> string) list \<Rightarrow> find_env \<Rightarrow> (string \<Rightarrow> view_shape) \<Rightarrow> query_request \<Rightarrow> statement option result" where
  "aggregate_statement exprs fe catalog rq =
     (if exprs = [] then Inr None
      else rbind (helper_parts fe catalog rq) (\<lambda>(parts, ps).
        Inr (Some (Composed ([SQL ''SELECT '', sql_join '', '' (map (\<lambda>(name, e). Composed [SQL e, SQL '' AS '', Identifier name]) exprs),
                      SQL '' FROM '', qualified_identifier (rq_view rq)] @ where_tail parts), ps))))"

text \<open>\<open>batch_exists\<close> looks at no catalog: its WHERE clause is the one of a view with unknown columns.\<close>

definition batch_condition :: "string \<Rightarrow> nat \<Rightarrow> composable list" where
  "batch_condition field n =
     (if n = 1 then [Identifier field, SQL '' = %s'']
      else [Identifier field, SQL ('' IN ('' @ join_str '', '' (replicate n ''%s'') @ '')'')])"

definition batch_statement ::
  "pyval list \<Rightarrow> string \<Rightarrow> find_env \<Rightarrow> (string \<Rightarrow> view_shape) \<Rightarrow> query_request \<Rightarrow> statement option result" where
  "batch_statement ids field fe catalog rq =
     (if ids = [] then Inr None
      else
        rbind (consume_mandatory_filters (rq_mandatory rq) (fe_auth_filters fe) (fe_field fe)) (\<lambda>filters.
        rbind (case filters of Some fs \<Rightarrow> make_mandatory_conditions fs | None \<Rightarrow> Inr ([], [])) (\<lambda>mandatory.
        rbind (build_where_clause (fe_fuel fe) (fe_norm fe) (fe_where fe) (fe_type fe) (rq_view rq) mandatory None
                 (rq_where rq) (rq_kwargs rq)) (\<lambda>(parts, ps).
          Inr (Some (Composed ([SQL ''SELECT '', Identifier field, SQL '' FROM '', qualified_identifier (rq_view rq)]
                        @ (if parts \<noteq> [] then [SQL '' WHERE '', sql_join '' AND '' parts, SQL '' AND ''] else [SQL '' WHERE ''])
                        @ batch_condition field (length ids)), ps @ ids))))))"

subsection \<open>The answers\<close>

text \<open>A row is the list of its values; a statement of one row gives the first row, if there is one.\<close>

type_synonym row = "pyval list"

definition count_answer :: "row option \<Rightarrow> pyval" where
  "count_answer r = (case r of Some row \<Rightarrow> hd row | None \<Rightarrow> PInt 0)"

definition exists_answer :: "row option \<Rightarrow> bool" where
  "exists_answer r = (case r of Some row \<Rightarrow> truthy (hd row) | None \<Rightarrow> False)"

definition number_answer :: "py_runtime \<Rightarrow> row option \<Rightarrow> pyval result" where
  "number_answer rt r =
     (case r of Some row \<Rightarrow> if hd row \<noteq> PNone then py_float rt (hd row) else Inr (PFloat ''0.0'') | None \<Rightarrow> Inr (PFloat ''0.0''))"

definition value_answer :: "row option \<Rightarrow> pyval" where
  "value_answer r = (case r of Some row \<Rightarrow> hd row | None \<Rightarrow> PNone)"

definition column_answer :: "row list \<Rightarrow> pyval list" where
  "column_answer rows = map hd rows"

definition aggregate_answer :: "(string \<times> string) list \<Rightarrow> row option \<Rightarrow> pydict" where
  "aggregate_answer exprs r =
     (case r of None \<Rightarrow> map (\<lambda>(name, _). (name, PNone)) exprs | Some row \<Rightarrow> rebuild_dict (zip (map fst exprs) row))"

definition batch_answer :: "pyval list \<Rightarrow> row list \<Rightarrow> (pyval \<times> bool) list" where
  "batch_answer ids rows = map (\<lambda>i. (i, i \<in> set (map hd rows))) (rev (remdups (rev ids)))"

subsection \<open>All of them\<close>

datatype helper =
  Count
| Exists
| Sum string
| Avg string
| Minimum string
| Maximum string
| Distinct string
| Pluck string pyval pyval
| Aggregate "(string \<times> string) list"
| BatchExists "pyval list" string

definition helper_statement :: "helper \<Rightarrow> find_env \<Rightarrow> (string \<Rightarrow> view_shape) \<Rightarrow> query_request \<Rightarrow> statement option result" where
  "helper_statement h fe catalog rq =
     (let one = (\<lambda>r. rbind r (\<lambda>s. Inr (Some s))) in
      case h of
        Count \<Rightarrow> one (count_statement fe catalog rq)
      | Exists \<Rightarrow> one (exists_statement fe catalog rq)
      | Sum f \<Rightarrow> one (sum_statement f fe catalog rq)
      | Avg f \<Rightarrow> one (avg_statement f fe catalog rq)
      | Minimum f \<Rightarrow> one (extreme_statement ''MIN'' f fe catalog rq)
      | Maximum f \<Rightarrow> one (extreme_statement ''MAX'' f fe catalog rq)
      | Distinct f \<Rightarrow> one (distinct_statement f fe catalog rq)
      | Pluck f l m \<Rightarrow> one (pluck_statement f l m fe catalog rq)
      | Aggregate es \<Rightarrow> aggregate_statement es fe catalog rq
      | BatchExists ids f \<Rightarrow> batch_statement ids f fe catalog rq)"

end
