(* ===== verification/ReadHelpersProps.thy ===== *)
theory ReadHelpersProps
  imports ReadHelpers
begin

section \<open>What every read helper promises\<close>

text \<open>
  Every statement is a head, the WHERE clause of the mandatory filters and of the client's filter,
  and a tail; so the row scope and the safety of the texts hold for each helper.
\<close>

subsection \<open>The pieces of a statement\<close>

text \<open>The texts, names and values of a statement in their order, without the nesting.\<close>

function pieces :: "composable \<Rightarrow> composable list" where
  "pieces (SQL s) = [SQL s]"
| "pieces (Identifier s) = [Identifier s]"
| "pieces (Literal v) = [Literal v]"
| "pieces (Composed cs) = concat (map pieces cs)"
  by pat_completeness auto
termination
  by (relation "measure size") (auto simp: size_list_estimation' less_Suc_eq_le)

lemma pieces_render: "concat (map (render qi ql) (pieces c)) = render qi ql c"
proof (induction c rule: pieces.induct)
  case (4 cs)
  then have "concat (map (render qi ql) (concat (map pieces cs))) = concat (map (render qi ql) cs)"
    by (induction cs) auto
  then show ?case by simp
qed simp_all

lemma pieces_texts: "(\<Union>p \<in> set (pieces c). texts p) = texts c"
  by (induction c rule: pieces.induct) auto

lemma pieces_same:
  assumes "pieces c = pieces d"
  shows "render qi ql c = render qi ql d" "texts c = texts d"
  using assms pieces_render [of qi ql c] pieces_render [of qi ql d] pieces_texts [of c] pieces_texts [of d] by simp_all

lemma pieces_join_snoc: "parts \<noteq> [] \<Longrightarrow> pieces (sql_join sep (parts @ [p])) = pieces (sql_join sep parts) @ SQL sep # pieces p"
  unfolding sql_join_def by (induction parts rule: induct_list012) simp_all

subsection \<open>The shape of the statements\<close>

definition bound_ids :: "helper \<Rightarrow> pyval list" where
  "bound_ids h = (case h of BatchExists ids _ \<Rightarrow> ids | _ \<Rightarrow> [])"

abbreviation null_text :: string where
  "null_text \<equiv> '') <> 'null'' @ [CHR 0x27]"

definition typeof_condition :: "view_shape \<Rightarrow> string \<Rightarrow> composable list" where
  "typeof_condition shape f =
     (if snd (field_sql shape f False)
      then [Composed [SQL ''jsonb_typeof('', fst (field_sql shape f False), SQL null_text]] else [])"

definition own_condition :: "helper \<Rightarrow> view_shape \<Rightarrow> composable list" where
  "own_condition h shape =
     (case h of
        Minimum f \<Rightarrow> typeof_condition shape f
      | Maximum f \<Rightarrow> typeof_condition shape f
      | BatchExists ids f \<Rightarrow> [Composed (batch_condition f (length ids))]
      | _ \<Rightarrow> [])"

definition raw_texts :: "helper \<Rightarrow> string set" where
  "raw_texts h =
     (case h of
        Aggregate es \<Rightarrow> snd ` set es
      | BatchExists ids _ \<Rightarrow> {'' IN ('' @ join_str '', '' (replicate (length ids) ''%s'') @ '')''}
      | _ \<Rightarrow> {})"

definition helper_words :: "string set" where
  "helper_words =
     {'''', '' FROM '', '' WHERE '', '' AND '', '', '', '' AS '', ''SELECT '', ''SELECT COUNT(*) FROM '', ''SELECT EXISTS(SELECT 1 FROM '', '')'',
      ''SELECT COALESCE(SUM('', ''SELECT COALESCE(AVG('', ''), 0) FROM '', ''MIN'', ''MAX'', ''ASC'', ''DESC'', ''('', '') FROM '',
      '' ORDER BY 1 '', '' LIMIT 1'', '' ORDER BY 1'', ''SELECT DISTINCT '', ''NULLIF('', '', 'null'::jsonb)'', ''jsonb_typeof('',
      null_text, '' ->> '', '' -> '', '')::numeric'', ''.'', '' LIMIT '', '' OFFSET '', '' = %s''}"

lemma helper_words [simp]:
  "'''' \<in> helper_words" "'' FROM '' \<in> helper_words" "'' WHERE '' \<in> helper_words" "'' AND '' \<in> helper_words" "'', '' \<in> helper_words"
  "'' AS '' \<in> helper_words" "''SELECT '' \<in> helper_words" "''SELECT COUNT(*) FROM '' \<in> helper_words"
  "''SELECT EXISTS(SELECT 1 FROM '' \<in> helper_words" "'')'' \<in> helper_words" "''SELECT COALESCE(SUM('' \<in> helper_words"
  "''SELECT COALESCE(AVG('' \<in> helper_words" "''), 0) FROM '' \<in> helper_words" "''MIN'' \<in> helper_words" "''MAX'' \<in> helper_words"
  "''ASC'' \<in> helper_words" "''DESC'' \<in> helper_words" "''('' \<in> helper_words" "'') FROM '' \<in> helper_words"
  "'' ORDER BY 1 '' \<in> helper_words" "'' LIMIT 1'' \<in> helper_words" "'' ORDER BY 1'' \<in> helper_words" "''SELECT DISTINCT '' \<in> helper_words"
  "''NULLIF('' \<in> helper_words" "'', 'null'::jsonb)'' \<in> helper_words" "''jsonb_typeof('' \<in> helper_words"
  "null_text \<in> helper_words" "'' ->> '' \<in> helper_words" "'' -> '' \<in> helper_words" "'')::numeric'' \<in> helper_words"
  "''.'' \<in> helper_words" "'' LIMIT '' \<in> helper_words" "'' OFFSET '' \<in> helper_words" "'' = %s'' \<in> helper_words"
  unfolding helper_words_def by (simp_all only: insert_iff simp_thms)

lemma helper_field_texts: "texts (fst (field_sql shape f n)) \<subseteq> helper_words"
  by (auto simp: field_sql_def Let_def split: option.splits)

lemma helper_view_texts: "texts (qualified_identifier v) \<subseteq> helper_words"
  by (simp add: qualified_identifier_def)

lemma typeof_texts: "p \<in> set (typeof_condition shape f) \<Longrightarrow> texts p \<subseteq> helper_words"
  using helper_field_texts [of shape f False] by (auto simp: typeof_condition_def simp del: append_Cons append_Nil split: if_splits)

lemma own_condition_texts: "p \<in> set (own_condition h shape) \<Longrightarrow> texts p \<subseteq> helper_words \<union> raw_texts h"
  using typeof_texts by (cases h) (auto simp: own_condition_def batch_condition_def raw_texts_def split: if_splits)

text \<open>
  What all of them have in common: the WHERE parts are those of \<open>build_where_clause\<close> for the mandatory
  filters, followed at most by one condition of the helper's own.
\<close>

definition parts_under :: "find_env \<Rightarrow> query_request \<Rightarrow> composable list \<times> pyval list \<Rightarrow> composable list \<times> pyval list \<Rightarrow> bool" where
  "parts_under fe rq mandatory where_parts \<longleftrightarrow>
     (\<exists>known. build_where_clause (fe_fuel fe) (fe_norm fe) (fe_where fe) (fe_type fe) (rq_view rq) mandatory known
        (rq_where rq) (rq_kwargs rq) = Inr where_parts)"

definition mandatory_of :: "find_env \<Rightarrow> query_request \<Rightarrow> composable list \<times> pyval list \<Rightarrow> bool" where
  "mandatory_of fe rq mandatory \<longleftrightarrow>
     (\<exists>filters. consume_mandatory_filters (rq_mandatory rq) (fe_auth_filters fe) (fe_field fe) = Inr filters
        \<and> (case filters of Some fs \<Rightarrow> make_mandatory_conditions fs | None \<Rightarrow> Inr ([], [])) = Inr mandatory)"

lemma helper_parts_where:
  "helper_parts fe catalog rq = Inr where_parts \<Longrightarrow> \<exists>m. mandatory_of fe rq m \<and> parts_under fe rq m where_parts"
  by (auto simp: helper_parts_def helper_where_def mandatory_of_def parts_under_def rbind_eq_Inr Let_def)

text \<open>
  What stands before and after the WHERE clause, for each helper, of a view of a given shape.
\<close>

definition extreme_frame :: "string \<Rightarrow> string \<Rightarrow> string \<Rightarrow> view_shape \<Rightarrow> string \<Rightarrow> composable list \<times> composable list" where
  "extreme_frame func order f shape view =
     (if snd (field_sql shape f False)
      then ([SQL ''SELECT '', fst (field_sql shape f False), SQL '' FROM '', qualified_identifier view],
            [SQL '' ORDER BY 1 '', SQL order, SQL '' LIMIT 1''])
      else ([SQL ''SELECT '', SQL func, SQL ''('', fst (field_sql shape f False), SQL '') FROM '', qualified_identifier view], []))"

definition helper_frame :: "helper \<Rightarrow> view_shape \<Rightarrow> string \<Rightarrow> composable list \<times> composable list" where
  "helper_frame h shape view =
     (let source = qualified_identifier view; x = (\<lambda>f. fst (field_sql shape f False)) in
      case h of
        Count \<Rightarrow> ([SQL ''SELECT COUNT(*) FROM '', source], [])
      | Exists \<Rightarrow> ([SQL ''SELECT EXISTS(SELECT 1 FROM '', source], [SQL '')''])
      | Sum f \<Rightarrow> ([SQL ''SELECT COALESCE(SUM('', fst (field_sql shape f True), SQL ''), 0) FROM '', source], [])
      | Avg f \<Rightarrow> ([SQL ''SELECT COALESCE(AVG('', fst (field_sql shape f True), SQL ''), 0) FROM '', source], [])
      | Minimum f \<Rightarrow> extreme_frame ''MIN'' ''ASC'' f shape view
      | Maximum f \<Rightarrow> extreme_frame ''MAX'' ''DESC'' f shape view
      | Distinct f \<Rightarrow>
          (SQL ''SELECT DISTINCT '' #
             (if snd (field_sql shape f False) then [SQL ''NULLIF('', x f, SQL '', 'null'::jsonb)''] else [x f])
             @ [SQL '' FROM '', source], [SQL '' ORDER BY 1''])
      | Pluck f l k \<Rightarrow> ([SQL ''SELECT '', x f, SQL '' FROM '', source], limit_part '' LIMIT '' l @ limit_part '' OFFSET '' k)
      | Aggregate es \<Rightarrow>
          ([SQL ''SELECT '', sql_join '', '' (map (\<lambda>(name, e). Composed [SQL e, SQL '' AS '', Identifier name]) es), SQL '' FROM '', source], [])
      | BatchExists ids f \<Rightarrow> ([SQL ''SELECT '', Identifier f, SQL '' FROM '', source], []))"

definition composed_of :: "helper \<Rightarrow> view_shape \<Rightarrow> string \<Rightarrow> composable list \<Rightarrow> composable \<Rightarrow> bool" where
  "composed_of h shape view parts stmt \<longleftrightarrow>
     (let ps = fst (helper_frame h shape view) @ where_tail (parts @ own_condition h shape) @ snd (helper_frame h shape view) in
      (\<forall>qi ql. render qi ql stmt = concat (map (render qi ql) ps)) \<and> texts stmt \<subseteq> insert '''' (\<Union>c \<in> set ps. texts c))"

lemma render_where: "render qi ql (where_sql parts) = concat (map (render qi ql) (where_tail parts))"
  by (simp add: where_sql_def where_tail_def sql_join_def)

lemma texts_where: "texts (where_sql parts) = (if parts = [] then {''''} else (\<Union>c \<in> set (where_tail parts). texts c))"
  by (simp add: where_sql_def where_tail_def sql_join_def)

lemma helper_limit_texts: "w \<in> helper_words \<Longrightarrow> c \<in> set (limit_part w v) \<Longrightarrow> texts c \<subseteq> helper_words"
  by (auto simp: limit_part_def split: if_splits)

lemma helper_frame_texts:
  assumes "c \<in> set (fst (helper_frame h shape view)) \<union> set (snd (helper_frame h shape view))"
  shows "texts c \<subseteq> helper_words \<union> raw_texts h"
proof (cases h)
  case (Aggregate es)
  have "texts (sql_join '', '' (map (\<lambda>(name, e). Composed [SQL e, SQL '' AS '', Identifier name]) es)) \<subseteq> helper_words \<union> raw_texts h"
    unfolding Aggregate by (rule texts_sql_join_sub) (auto simp: raw_texts_def image_iff, metis snd_conv)
  with assms Aggregate helper_view_texts [of view] show ?thesis by (auto simp: helper_frame_def Let_def)
next
  case (Pluck f l k)
  with assms helper_view_texts [of view] helper_field_texts [of shape f False]
    helper_limit_texts [of "'' LIMIT ''" c l] helper_limit_texts [of "'' OFFSET ''" c k]
  show ?thesis by (auto simp: helper_frame_def Let_def)
qed (use assms helper_view_texts [of view] helper_field_texts [of shape] in
    \<open>auto simp: helper_frame_def extreme_frame_def Let_def split: if_splits\<close>)

lemmas helper_defs = helper_statement_def count_statement_def exists_statement_def sum_statement_def avg_statement_def coalesce_statement_def
  extreme_statement_def distinct_statement_def pluck_statement_def aggregate_statement_def

lemma parts_composed:
  assumes "helper_statement h fe catalog rq = Inr (Some (stmt, ps))" "\<forall>ids f. h \<noteq> BatchExists ids f"
  shows "\<exists>parts. helper_parts fe catalog rq = Inr (parts, ps)
    \<and> composed_of h (view_shape (fe_norm fe) catalog (rq_view rq)) (rq_view rq) parts stmt"
  using assms
  by (cases h)
    (auto simp: helper_defs rbind_eq_Inr composed_of_def helper_frame_def extreme_frame_def own_condition_def typeof_condition_def
      Let_def render_where texts_where case_prod_beta split: if_splits)

lemma batch_composed:
  "composed_of (BatchExists ids f) shape view parts
     (Composed ([SQL ''SELECT '', Identifier f, SQL '' FROM '', qualified_identifier view]
        @ (if parts \<noteq> [] then [SQL '' WHERE '', sql_join '' AND '' parts, SQL '' AND ''] else [SQL '' WHERE ''])
        @ batch_condition f (length ids)))"
proof -
  have "render qi ql (sql_join '' AND '' (parts @ [p])) = render qi ql (sql_join '' AND '' parts) @ '' AND '' @ render qi ql p" 
    "texts (sql_join '' AND '' (parts @ [p])) = texts (sql_join '' AND '' parts) \<union> {'' AND ''} \<union> texts p" if "parts \<noteq> []" for qi ql p
    using pieces_join_snoc [OF that, of "'' AND ''" p] pieces_render [of qi ql "sql_join '' AND '' (parts @ [p])"]
      pieces_render [of qi ql "sql_join '' AND '' parts"] pieces_render [of qi ql p]
      pieces_texts [of "sql_join '' AND '' (parts @ [p])"] pieces_texts [of "sql_join '' AND '' parts"] pieces_texts [of p] by simp_all
  then show ?thesis
    by (cases "parts = []") (auto simp: composed_of_def helper_frame_def own_condition_def where_tail_def Let_def sql_join_def)
qed

lemma helper_shape:
  assumes "helper_statement h fe catalog rq = Inr (Some (stmt, ps))"
  obtains m parts qs where "mandatory_of fe rq m" "parts_under fe rq m (parts, qs)" "ps = qs @ bound_ids h"
    "composed_of h (view_shape (fe_norm fe) catalog (rq_view rq)) (rq_view rq) parts stmt"
proof (cases "\<exists>ids f. h = BatchExists ids f")
  case True
  then obtain ids f where h: "h = BatchExists ids f" by blast
  have "ids \<noteq> []" using assms h by (auto simp: helper_statement_def batch_statement_def)
  with assms h obtain m parts qs where "mandatory_of fe rq m" "parts_under fe rq m (parts, qs)" "ps = qs @ ids"
    and stmt: "stmt = Composed ([SQL ''SELECT '', Identifier f, SQL '' FROM '', qualified_identifier (rq_view rq)]
      @ (if parts \<noteq> [] then [SQL '' WHERE '', sql_join '' AND '' parts, SQL '' AND ''] else [SQL '' WHERE ''])
      @ batch_condition f (length ids))"
    unfolding helper_statement_def batch_statement_def mandatory_of_def parts_under_def
    by (auto simp: rbind_eq_Inr simp del: append_Cons) blast
  then show thesis using that [of m parts qs] batch_composed [of ids f _ "rq_view rq" parts] h by (simp add: bound_ids_def)
next
  case False
  with parts_composed [OF assms] obtain parts where p: "helper_parts fe catalog rq = Inr (parts, ps)"
    "composed_of h (view_shape (fe_norm fe) catalog (rq_view rq)) (rq_view rq) parts stmt" by blast
  moreover have "bound_ids h = []" using False by (cases h) (simp_all add: bound_ids_def)
  ultimately show thesis using helper_parts_where [OF p(1)] that by fastforce
qed

subsection \<open>The scope\<close>

lemma render_where_tail:
  "parts \<noteq> [] \<Longrightarrow> concat (map (render qi ql) (where_tail parts)) = '' WHERE '' @ join_str '' AND '' (map (render qi ql) parts)"
  by (simp add: where_tail_def render_sql_join)

lemma join_str_snoc: "xs \<noteq> [] \<Longrightarrow> join_str sep (xs @ ys) = join_str sep xs @ concat (map (\<lambda>y. sep @ y) ys)"
proof (induction xs rule: induct_list012)
  case (2 x)
  show ?case by (induction ys arbitrary: x) auto
qed auto

text \<open>
  C1: Row scope.  Whatever read helper runs and whatever filter dictionary the client sends, its statement is
  the fixed head of the helper, the word WHERE, a clause, the condition of the helper's own if it has one, and
  the fixed tail of the helper.  The clause is a conjunction at the top, each member of which is a single
  condition or in parentheses, and read with SQL's precedence and three-valued logic it is the conjunction of
  the equalities of all mandatory filters, of the caller and of the authorization, with the client's clause:
  nothing in the statement widens the scope.
\<close>

theorem read_helpers_scoped:
  assumes "helper_statement h fe catalog rq = Inr (Some (stmt, ps))"
    and "consume_mandatory_filters (rq_mandatory rq) (fe_auth_filters fe) (fe_field fe) = Inr (Some filters)" "filters \<noteq> []"
    and "rq_where rq = None \<or> (\<exists>arg d. rq_where rq = Some arg \<and> arg_dict arg = Some d \<and> plain (PDict d))"
  shows "\<exists>ts e cl. render qi ql stmt =
      concat (map (render qi ql) (fst (helper_frame h (view_shape (fe_norm fe) catalog (rq_view rq)) (rq_view rq))))
        @ '' WHERE '' @ tokens_text (fe_where fe) qi ql ts
        @ concat (map (\<lambda>c. '' AND '' @ render qi ql c) (own_condition h (view_shape (fe_norm fe) catalog (rq_view rq))))
        @ concat (map (render qi ql) (snd (helper_frame h (view_shape (fe_norm fe) catalog (rq_view rq)) (rq_view rq))))
    \<and> read_bool ts = Some e \<and> (\<exists>members. ts = join_tokens TAnd members \<and> (\<forall>p \<in> set members. is_part p))
    \<and> client_clause (fe_fuel fe) (fe_norm fe) (fe_type fe) (rq_where rq) (rq_view rq) cl
    \<and> (\<forall>v. bexp_val v e = and3 (map (v \<circ> mandatory_atom) filters @ map (clause_val v) cl))"
proof -
  let ?shape = "view_shape (fe_norm fe) catalog (rq_view rq)"
  let ?own = "own_condition h ?shape"
  obtain m parts qs where m: "mandatory_of fe rq m" and w: "parts_under fe rq m (parts, qs)"
    and shape: "composed_of h ?shape (rq_view rq) parts stmt"
    by (rule helper_shape [OF assms(1)])
  from m assms(2) have mk: "make_mandatory_conditions filters = Inr m" by (auto simp: mandatory_of_def)
  from w obtain known where b: "build_where_clause (fe_fuel fe) (fe_norm fe) (fe_where fe) (fe_type fe) (rq_view rq) m known
      (rq_where rq) (rq_kwargs rq) = Inr (parts, qs)" by (auto simp: parts_under_def)
  obtain ts e cl where ne: "parts \<noteq> []" and ts: "read_bool ts = Some e" "client_clause (fe_fuel fe) (fe_norm fe) (fe_type fe) (rq_where rq) (rq_view rq) cl"
    "\<And>v. bexp_val v e = and3 (map (v \<circ> mandatory_atom) filters @ map (clause_val v) cl)"
    "\<exists>ps. ts = join_tokens TAnd ps \<and> (\<forall>p \<in> set ps. is_part p)"
    "join_str '' AND '' (map (render qi ql) parts) = tokens_text (fe_where fe) qi ql ts"
    by (rule where_tokens [OF b mk assms(3,4), where qi = qi and ql = ql]) blast
  have "concat (map (render qi ql) (where_tail (parts @ ?own)))
      = '' WHERE '' @ tokens_text (fe_where fe) qi ql ts @ concat (map (\<lambda>c. '' AND '' @ render qi ql c) ?own)"
    using ne ts(5) by (simp add: render_where_tail join_str_snoc comp_def)
  with shape have "render qi ql stmt = concat (map (render qi ql) (fst (helper_frame h ?shape (rq_view rq))))
        @ ('' WHERE '' @ tokens_text (fe_where fe) qi ql ts @ concat (map (\<lambda>c. '' AND '' @ render qi ql c) ?own))
        @ concat (map (render qi ql) (snd (helper_frame h ?shape (rq_view rq))))"
    unfolding composed_of_def Let_def map_append concat_append by metis
  then show ?thesis using ts(1-4) by (intro exI [of _ ts] exI [of _ e] exI [of _ cl]) simp
qed

definition example_catalog :: "string \<Rightarrow> view_shape" where
  "example_catalog = (\<lambda>_. (Some [''id'', ''status''], Some ''data''))"

definition example_maximum :: composable where
  "example_maximum = fst (the (projr (helper_statement (Maximum ''cost'') example_find_env example_catalog example_request)))"

lemma example_maximum:
  "helper_statement (Maximum ''cost'') example_find_env example_catalog example_request = Inr (Some (example_maximum, [PInt 7, PStr ''active'']))"
  by code_simp

theorem read_helpers_scoped_witness:
  "render (\<lambda>s. s) py_repr example_maximum
     = ''SELECT (data -> 'cost') FROM v_users WHERE tenant_id = %s AND status = %s AND jsonb_typeof((data -> 'cost')) <> 'null' ORDER BY 1 DESC LIMIT 1''
   \<and> (\<exists>ts e cl. render (\<lambda>s. s) py_repr example_maximum = ''SELECT (data -> 'cost') FROM v_users WHERE ''
          @ tokens_text example_env (\<lambda>s. s) py_repr ts @ '' AND jsonb_typeof((data -> 'cost')) <> 'null' ORDER BY 1 DESC LIMIT 1''
        \<and> read_bool ts = Some e \<and> (\<exists>members. ts = join_tokens TAnd members \<and> (\<forall>p \<in> set members. is_part p))
        \<and> client_clause (fe_fuel example_find_env) (fe_norm example_find_env) (fe_type example_find_env) (rq_where example_request) (rq_view example_request) cl
        \<and> (\<forall>v. bexp_val v e = and3 (map (v \<circ> mandatory_atom) [(''tenant_id'', PInt 7)] @ map (clause_val v) cl)))"
proof
  show "render (\<lambda>s. s) py_repr example_maximum
     = ''SELECT (data -> 'cost') FROM v_users WHERE tenant_id = %s AND status = %s AND jsonb_typeof((data -> 'cost')) <> 'null' ORDER BY 1 DESC LIMIT 1''"
    by code_simp
  have env: "fe_where example_find_env = example_env"
    "view_shape (fe_norm example_find_env) example_catalog (rq_view example_request) = (Some [''id'', ''status''], Some ''data'')"
    by (simp_all add: example_find_env_def view_shape_def example_norm_env_def example_catalog_def)
  have frame: "concat (map (render (\<lambda>s. s) py_repr) (fst (helper_frame (Maximum ''cost'') (Some [''id'', ''status''], Some ''data'') (rq_view example_request))))
      = ''SELECT (data -> 'cost') FROM v_users''"
    "concat (map (render (\<lambda>s. s) py_repr) (snd (helper_frame (Maximum ''cost'') (Some [''id'', ''status''], Some ''data'') (rq_view example_request))))
      = '' ORDER BY 1 DESC LIMIT 1''"
    "concat (map (\<lambda>c. '' AND '' @ render (\<lambda>s. s) py_repr c) (own_condition (Maximum ''cost'') (Some [''id'', ''status''], Some ''data'')))
      = '' AND jsonb_typeof((data -> 'cost')) <> 'null'' @ [CHR 0x27]"
    by code_simp+
  have "consume_mandatory_filters (rq_mandatory example_request) (fe_auth_filters example_find_env) (fe_field example_find_env)
      = Inr (Some [(''tenant_id'', PInt 7)])" by code_simp
  from read_helpers_scoped [OF example_maximum this, of "\<lambda>s. s" py_repr, unfolded env frame]
  show "\<exists>ts e cl. render (\<lambda>s. s) py_repr example_maximum = ''SELECT (data -> 'cost') FROM v_users WHERE ''
          @ tokens_text example_env (\<lambda>s. s) py_repr ts @ '' AND jsonb_typeof((data -> 'cost')) <> 'null' ORDER BY 1 DESC LIMIT 1''
        \<and> read_bool ts = Some e \<and> (\<exists>members. ts = join_tokens TAnd members \<and> (\<forall>p \<in> set members. is_part p))
        \<and> client_clause (fe_fuel example_find_env) (fe_norm example_find_env) (fe_type example_find_env) (rq_where example_request) (rq_view example_request) cl
        \<and> (\<forall>v. bexp_val v e = and3 (map (v \<circ> mandatory_atom) [(''tenant_id'', PInt 7)] @ map (clause_val v) cl))"
    by (simp add: example_request_def)
qed

text \<open>
  No read helper injects SQL.  For every filter dictionary and field name, the raw texts of the
  statement are words of a fixed vocabulary, the expressions that the calling code passes to
  \<open>aggregate\<close>, and the placeholder list of \<open>batch_exists\<close>; the parameters are those of the WHERE
  clause followed by the identifiers.
\<close>

theorem read_helpers_injection_safe:
  assumes "helper_statement h fe catalog rq = Inr (Some (stmt, ps))"
    and "\<forall>arg. rq_where rq = Some arg \<longrightarrow> (\<exists>d. arg_dict arg = Some d \<and> plain (PDict d))"
  shows "texts stmt \<subseteq> where_vocab \<union> {'' = '', ''%s''} \<union> helper_words \<union> raw_texts h
    \<and> (\<exists>m parts qs. mandatory_of fe rq m \<and> parts_under fe rq m (parts, qs) \<and> ps = qs @ bound_ids h)"
proof -
  let ?own = "own_condition h (view_shape (fe_norm fe) catalog (rq_view rq))"
  let ?shape = "view_shape (fe_norm fe) catalog (rq_view rq)"
  let ?V = "where_vocab \<union> {'' = '', ''%s''} \<union> helper_words \<union> raw_texts h"
  obtain m parts qs where m: "mandatory_of fe rq m" and w: "parts_under fe rq m (parts, qs)" and ps: "ps = qs @ bound_ids h"
    and shape: "composed_of h ?shape (rq_view rq) parts stmt"
    by (rule helper_shape [OF assms(1)])
  have t: "\<forall>c \<in> set (fst (helper_frame h ?shape (rq_view rq))) \<union> set (snd (helper_frame h ?shape (rq_view rq))). texts c \<subseteq> helper_words \<union> raw_texts h"
    using helper_frame_texts by blast
  have "texts p \<subseteq> {'' = '', ''%s''}" if "p \<in> set (fst m)" for p
    using m that mandatory_texts [of _ m p] by (auto simp: mandatory_of_def split: option.splits)
  then have "texts p \<subseteq> ?V" if "p \<in> set parts" for p
    using w where_parts_texts [OF assms(2) _ that] unfolding parts_under_def by blast
  then have "texts (sql_join '' AND '' (parts @ ?own)) \<subseteq> ?V"
    using own_condition_texts [of _ h "view_shape (fe_norm fe) catalog (rq_view rq)"] by (intro texts_sql_join_sub) auto
  then have "texts (Composed (where_tail (parts @ ?own))) \<subseteq> ?V" by (auto simp: where_tail_def)
  moreover have "texts stmt \<subseteq> insert '''' (\<Union>c \<in> set (fst (helper_frame h ?shape (rq_view rq)) @ where_tail (parts @ ?own) @ snd (helper_frame h ?shape (rq_view rq))). texts c)"
    using shape by (simp only: composed_of_def Let_def)
  ultimately have "texts stmt \<subseteq> ?V" using t helper_words(1) by fastforce
  with m w ps show ?thesis by blast
qed

theorem read_helpers_injection_safe_witness:
  "helper_statement (BatchExists [PInt 1, PInt 2] ''id'') example_find_env example_catalog example_request
     = Inr (Some (fst (the (projr (helper_statement (BatchExists [PInt 1, PInt 2] ''id'') example_find_env example_catalog example_request))),
         [PInt 7, PStr ''active'', PInt 1, PInt 2]))
   \<and> texts (fst (the (projr (helper_statement (BatchExists [PInt 1, PInt 2] ''id'') example_find_env example_catalog example_request))))
     \<subseteq> where_vocab \<union> {'' = '', ''%s''} \<union> helper_words \<union> raw_texts (BatchExists [PInt 1, PInt 2] ''id'')"
proof (rule context_conjI)
  show b: "helper_statement (BatchExists [PInt 1, PInt 2] ''id'') example_find_env example_catalog example_request
     = Inr (Some (fst (the (projr (helper_statement (BatchExists [PInt 1, PInt 2] ''id'') example_find_env example_catalog example_request))),
         [PInt 7, PStr ''active'', PInt 1, PInt 2]))"
    by code_simp
  show "texts (fst (the (projr (helper_statement (BatchExists [PInt 1, PInt 2] ''id'') example_find_env example_catalog example_request))))
     \<subseteq> where_vocab \<union> {'' = '', ''%s''} \<union> helper_words \<union> raw_texts (BatchExists [PInt 1, PInt 2] ''id'')"
    using read_helpers_injection_safe [OF b] by (simp add: example_request_def)
qed

end
