(* ===== verification/GraphqlAst.thy ===== *)
theory GraphqlAst
  imports PyValue
begin

section \<open>GraphQL documents and schemas\<close>

text \<open>
  What the code reads of a parsed GraphQL document and of the schema: the selection sets with their
  fields, inline fragments and fragment spreads, the arguments (integers, variables, and other
  literals by their text), and the
  fields of the object and interface types.  Parsing and validation are those of \<open>graphql-core\<close>.
\<close>

lemma map_result_total: "(\<And>x. x \<in> set xs \<Longrightarrow> \<exists>y. f x = Inr y) \<Longrightarrow> \<exists>ys. map_result f xs = Inr ys"
  by (induction xs) fastforce+

subsection \<open>Documents\<close>

datatype gql_value = IntValue int | VariableValue string | OtherValue string

datatype selection =
  Field "string option" string "(string \<times> gql_value) list" "selection list option"
| Spread string
| Inline "string option" "selection list"

datatype operation_type = QueryOp | MutationOp | SubscriptionOp

datatype gql_definition =
  FragmentDef string string "selection list"
| OperationDef operation_type "string option" "selection list"
| OtherDef

type_synonym fragments = "(string \<times> string \<times> selection list) list"

text \<open>\<open>{d.name.value: d for d in definitions}\<close>: a later fragment of the same name replaces an earlier one.\<close>

definition fragments_of :: "gql_definition list \<Rightarrow> fragments" where
  "fragments_of ds = rev (concat (map (\<lambda>d. case d of FragmentDef n tc sels \<Rightarrow> [(n, tc, sels)] | _ \<Rightarrow> []) ds))"

subsection \<open>Schemas\<close>

datatype gql_type = NamedType string | ListType gql_type | NonNullType gql_type

record field_def =
  fd_type :: gql_type
  fd_args :: "(string \<times> pyval) list"

datatype type_def = ObjectType "(string \<times> field_def) list" | InterfaceType "(string \<times> field_def) list" | PlainType

record gql_schema =
  gs_types :: "(string \<times> type_def) list"
  gs_query :: "string option"
  gs_mutation :: "string option"
  gs_subscription :: "string option"

fun named_type :: "gql_type \<Rightarrow> string" where
  "named_type (NamedType n) = n"
| "named_type (ListType t) = named_type t"
| "named_type (NonNullType t) = named_type t"

fun is_list_field :: "gql_type \<Rightarrow> bool" where
  "is_list_field (ListType t) = True"
| "is_list_field (NonNullType t) = (case t of ListType _ \<Rightarrow> True | _ \<Rightarrow> False)"
| "is_list_field (NamedType n) = False"

definition get_type :: "gql_schema \<Rightarrow> string \<Rightarrow> string option" where
  "get_type sch n = (case map_of (gs_types sch) n of None \<Rightarrow> None | Some _ \<Rightarrow> Some n)"

text \<open>The definition of a field of an object or interface type.\<close>

definition field_of :: "gql_schema \<Rightarrow> string option \<Rightarrow> string \<Rightarrow> field_def option" where
  "field_of sch parent name =
     (case parent of
        None \<Rightarrow> None
      | Some p \<Rightarrow> (case map_of (gs_types sch) p of
             Some (ObjectType fs) \<Rightarrow> map_of fs name
           | Some (InterfaceType fs) \<Rightarrow> map_of fs name
           | _ \<Rightarrow> None))"

subsection \<open>Fragments without cycles\<close>

text \<open>The names of the spreads in a selection set, at any depth.\<close>

fun spreads :: "selection \<Rightarrow> string set" and spreads_all :: "selection list \<Rightarrow> string set" where
  "spreads (Field a n args None) = {}"
| "spreads (Field a n args (Some sels)) = spreads_all sels"
| "spreads (Spread n) = {n}"
| "spreads (Inline tc sels) = spreads_all sels"
| "spreads_all [] = {}"
| "spreads_all (s # ss) = spreads s \<union> spreads_all ss"

text \<open>
  \<open>graphql-core\<close> rejects a document whose fragments form a cycle; a rank is what the absence of cycles
  gives: every fragment spreads only fragments of a lower rank.
\<close>

definition ranked :: "fragments \<Rightarrow> (string \<Rightarrow> nat) \<Rightarrow> bool" where
  "ranked fr rank \<longleftrightarrow> (\<forall>n tc sels. map_of fr n = Some (tc, sels) \<longrightarrow> (\<forall>m \<in> spreads_all sels. rank m < rank n))"

text \<open>
  The document with its fragments written out: a spread becomes an inline fragment with the type
  condition and the selections of the fragment, to the given depth; an unknown one selects nothing.
\<close>

fun expand :: "fragments \<Rightarrow> nat \<Rightarrow> selection \<Rightarrow> selection" where
  "expand fr k (Field a n args sub) = Field a n args (map_option (map (expand fr k)) sub)"
| "expand fr k (Inline tc sels) = Inline tc (map (expand fr k) sels)"
| "expand fr 0 (Spread n) = Inline None []"
| "expand fr (Suc k) (Spread n) = (case map_of fr n of None \<Rightarrow> Inline None [] | Some (tc, sels) \<Rightarrow> Inline (Some tc) (map (expand fr k) sels))"

lemma expand_stable:
  assumes "ranked fr rank"
  shows "\<forall>m \<in> spreads s. rank m < k \<and> rank m < k' \<Longrightarrow> expand fr k s = expand fr k' s"
    and "\<forall>m \<in> spreads_all ss. rank m < k \<and> rank m < k' \<Longrightarrow> map (expand fr k) ss = map (expand fr k') ss"
proof (induction k arbitrary: k' s ss rule: less_induct)
  case (less k)
  have sel: "(\<forall>m \<in> spreads s. rank m < k \<and> rank m < k') \<Longrightarrow> expand fr k s = expand fr k' s"
    and sels: "(\<forall>m \<in> spreads_all ss. rank m < k \<and> rank m < k') \<Longrightarrow> map (expand fr k) ss = map (expand fr k') ss" for s ss k'
  proof (induction s and ss rule: spreads_spreads_all.induct)
    case (3 n)
    then obtain j j' where k: "k = Suc j" "k' = Suc j'" "rank n \<le> j" "rank n \<le> j'" by (cases k; cases k') auto
    show ?case
    proof (cases "map_of fr n")
      case (Some f)
      obtain tc body where f: "f = (tc, body)" by (cases f)
      have "\<forall>m \<in> spreads_all body. rank m < j \<and> rank m < j'" using assms Some f k(3,4) by (fastforce simp: ranked_def)
      then have "map (expand fr j) body = map (expand fr j') body" using less(2) [of j body j'] k(1) by simp
      with Some f k show ?thesis by simp
    qed (simp add: k)
  qed auto
  { case 1 then show ?case using sel by blast }
  { case 2 then show ?case using sels by blast }
qed

lemma expand_spread:
  assumes "ranked fr rank" "rank n < k" "map_of fr n = Some (tc, sels)"
  shows "expand fr k (Spread n) = Inline (Some tc) (map (expand fr (rank n)) sels)"
proof -
  obtain j where j: "k = Suc j" "rank n \<le> j" using assms(2) by (cases k) auto
  have "\<forall>m \<in> spreads_all sels. rank m < j \<and> rank m < rank n" using assms j(2) by (fastforce simp: ranked_def)
  with expand_stable(2) [OF assms(1)] j(1) assms(3) show ?thesis by simp
qed

lemma in_spreads_all: "s \<in> set ss \<Longrightarrow> spreads s \<subseteq> spreads_all ss"
  by (induction ss) auto

end
