(* ===== verification/QueryLimits.thy ===== *)
theory QueryLimits
  imports GraphqlAst
begin

section \<open>Query limits\<close>

text \<open>
  \<open>gql/query_limits.py\<close>: the depth and the complexity of a request, measured against the schema
  before anything is executed, and the check of both against the configured limits.
\<close>

record query_limits =
  max_depth :: "int option"
  max_complexity :: "int option"
  default_list_size :: int
  field_multipliers :: "(string \<times> int) list"

record limits_config =
  max_query_depth :: "int option"
  complexity_enabled :: bool
  complexity_max_depth :: int
  complexity_max_score :: int
  complexity_default_list_size :: int
  complexity_field_multipliers :: "(string \<times> int) list"

definition from_config :: "limits_config \<Rightarrow> query_limits option" where
  "from_config cfg =
     (let depths = (case max_query_depth cfg of Some d \<Rightarrow> [d] | None \<Rightarrow> []) @ (if complexity_enabled cfg then [complexity_max_depth cfg] else []);
          score = (if complexity_enabled cfg then Some (complexity_max_score cfg) else None)
      in if depths = [] \<and> score = None then None
         else Some \<lparr>max_depth = (if depths = [] then None else Some (Min (set depths))), max_complexity = score,
                    default_list_size = complexity_default_list_size cfg,
                    field_multipliers = complexity_field_multipliers cfg\<rparr>)"

subsection \<open>The size of a list\<close>

definition argument_size :: "pydict \<Rightarrow> field_def \<Rightarrow> (string \<times> gql_value) list \<Rightarrow> string \<Rightarrow> pyval" where
  "argument_size variables fd args name =
     (case map_of (rev args) name of
        Some (IntValue i) \<Rightarrow> PInt i
      | Some (VariableValue v) \<Rightarrow> (case map_of variables v of Some x \<Rightarrow> x | None \<Rightarrow> PNone)
      | Some (OtherValue _) \<Rightarrow> PNone
      | None \<Rightarrow> (case map_of (fd_args fd) name of Some d \<Rightarrow> d | None \<Rightarrow> PNone))"

fun first_size :: "pyval list \<Rightarrow> int \<Rightarrow> int" where
  "first_size [] d = d"
| "first_size (PInt i # vs) d = (if i \<ge> 0 then i else first_size vs d)"
| "first_size (v # vs) d = first_size vs d"

definition list_size :: "query_limits \<Rightarrow> pydict \<Rightarrow> (string \<times> gql_value) list \<Rightarrow> field_def \<Rightarrow> int" where
  "list_size ql variables args fd = first_size (map (argument_size variables fd args) [''limit'', ''first'']) (default_list_size ql)"

subsection \<open>The measurer\<close>

text \<open>
  The costs of the fragments measured so far are threaded through the walk; the names that are being
  visited are restored when a fragment has been measured, so they are an argument.
\<close>

record measurer =
  ms_schema :: gql_schema
  ms_fragments :: fragments
  ms_variables :: pydict
  ms_limits :: query_limits

type_synonym cost = "nat \<times> int"
type_synonym fragment_costs = "(string \<times> cost) list"

definition introspection_field :: "string \<Rightarrow> bool" where
  "introspection_field n = (n \<in> {''__schema'', ''__type'', ''__typename''})"

definition multiplier_of :: "query_limits \<Rightarrow> string option \<Rightarrow> string \<Rightarrow> int" where
  "multiplier_of ql parent name =
     (let own = (case parent of
                   None \<Rightarrow> 1
                 | Some p \<Rightarrow> (case map_of (field_multipliers ql) (p @ ''.'' @ name) of Some m \<Rightarrow> m | None \<Rightarrow> 1))
      in case map_of (field_multipliers ql) name of Some m \<Rightarrow> m | None \<Rightarrow> own)"

definition field_cost :: "measurer \<Rightarrow> string option \<Rightarrow> string \<Rightarrow> (string \<times> gql_value) list \<Rightarrow> cost \<Rightarrow> cost" where
  "field_cost ms parent name args below =
     (let size = (case field_of (ms_schema ms) parent name of
                    None \<Rightarrow> 1
                  | Some fd \<Rightarrow> if is_list_field (fd_type fd) then list_size (ms_limits ms) (ms_variables ms) args fd else 1)
      in (fst below + 1, multiplier_of (ms_limits ms) parent name + size * snd below))"

definition child_type :: "measurer \<Rightarrow> string option \<Rightarrow> string \<Rightarrow> string option" where
  "child_type ms parent name = map_option (\<lambda>fd. named_type (fd_type fd)) (field_of (ms_schema ms) parent name)"

definition inline_type :: "measurer \<Rightarrow> string option \<Rightarrow> string option \<Rightarrow> string option" where
  "inline_type ms parent tc = (case tc of None \<Rightarrow> parent | Some t \<Rightarrow> get_type (ms_schema ms) t)"

definition add_cost :: "cost \<Rightarrow> cost \<Rightarrow> cost" where
  "add_cost a b = (max (fst a) (fst b), snd a + snd b)"

function (sequential) measure_selection :: "measurer \<Rightarrow> string set \<Rightarrow> string option \<Rightarrow> selection \<Rightarrow> fragment_costs \<Rightarrow> cost \<times> fragment_costs"
  and measure_selections :: "measurer \<Rightarrow> string set \<Rightarrow> string option \<Rightarrow> selection list \<Rightarrow> fragment_costs \<Rightarrow> cost \<times> fragment_costs" where
  "measure_selection ms visiting parent (Field a name args sub) costs =
     (if introspection_field name then ((0, 0), costs)
      else case sub of
        None \<Rightarrow> ((0, multiplier_of (ms_limits ms) parent name), costs)
      | Some sels \<Rightarrow>
          (let (below, costs1) = measure_selections ms visiting (child_type ms parent name) sels costs
           in (field_cost ms parent name args below, costs1)))"
| "measure_selection ms visiting parent (Inline tc sels) costs = measure_selections ms visiting (inline_type ms parent tc) sels costs"
| "measure_selection ms visiting parent (Spread name) costs =
     (case map_of costs name of
        Some c \<Rightarrow> (c, costs)
      | None \<Rightarrow>
          (case map_of (ms_fragments ms) name of
             None \<Rightarrow> ((0, 0), costs)
           | Some (tc, sels) \<Rightarrow>
               if name \<in> visiting then ((0, 0), costs)
               else let (c, costs1) = measure_selections ms (insert name visiting) (get_type (ms_schema ms) tc) sels costs
                    in (c, (name, c) # costs1)))"
| "measure_selections ms visiting parent [] costs = ((0, 0), costs)"
| "measure_selections ms visiting parent (s # ss) costs =
     (let (c, costs1) = measure_selection ms visiting parent s costs;
          (cs, costs2) = measure_selections ms visiting parent ss costs1
      in (add_cost c cs, costs2))"
  by pat_completeness auto
termination
proof (relation "inv_image (less_than <*lex*> less_than)
    (\<lambda>x. case x of Inl (ms, v, p, s, c) \<Rightarrow> (card (fst ` set (ms_fragments ms) - v), size s)
                 | Inr (ms, v, p, ss, c) \<Rightarrow> (card (fst ` set (ms_fragments ms) - v), size_list size ss))", goal_cases)
  case (4 ms visiting parent name costs tc sels y)
  have "name \<in> fst ` set (ms_fragments ms)" using 4 by (metis map_of_eq_None_iff option.distinct(1))
  with 4 have "fst ` set (ms_fragments ms) - insert name visiting \<subset> fst ` set (ms_fragments ms) - visiting" by blast
  then have "card (fst ` set (ms_fragments ms) - insert name visiting) < card (fst ` set (ms_fragments ms) - visiting)"
    by (intro psubset_card_mono) simp_all
  then show ?case by simp
qed auto

subsection \<open>Requests\<close>

definition root_type :: "gql_schema \<Rightarrow> operation_type \<Rightarrow> string option" where
  "root_type sch op = (case op of MutationOp \<Rightarrow> gs_mutation sch | SubscriptionOp \<Rightarrow> gs_subscription sch | QueryOp \<Rightarrow> gs_query sch)"

definition operations_of :: "gql_definition list \<Rightarrow> string option \<Rightarrow> (operation_type \<times> selection list) list" where
  "operations_of ds wanted =
     concat (map (\<lambda>d. case d of
         OperationDef op name sels \<Rightarrow>
           (case wanted of
              Some w \<Rightarrow> if w = [] \<or> (name = Some w \<and> w \<noteq> []) then [(op, sels)] else []
            | None \<Rightarrow> [(op, sels)])
       | _ \<Rightarrow> []) ds)"

fun measure_operations :: "measurer \<Rightarrow> (operation_type \<times> selection list) list \<Rightarrow> cost \<Rightarrow> fragment_costs \<Rightarrow> cost" where
  "measure_operations ms [] acc costs = acc"
| "measure_operations ms ((op, sels) # ops) acc costs =
     (let (c, costs1) = measure_selections ms {} (root_type (ms_schema ms) op) sels costs
      in measure_operations ms ops (max (fst acc) (fst c), max (snd acc) (snd c)) costs1)"

text \<open>The parsed document is an argument: \<open>None\<close> when the query does not parse.\<close>

definition measure_query :: "query_limits \<Rightarrow> gql_schema \<Rightarrow> gql_definition list option \<Rightarrow> string option \<Rightarrow> pydict \<Rightarrow> cost option" where
  "measure_query ql sch document wanted variables =
     (case document of
        None \<Rightarrow> None
      | Some ds \<Rightarrow>
          (let ops = operations_of ds wanted in
           if ops = [] then None
           else Some (measure_operations \<lparr>ms_schema = sch, ms_fragments = fragments_of ds, ms_variables = variables, ms_limits = ql\<rparr>
                        ops (0, 0) [])))"

datatype limit_error = QueryTooDeep nat int | QueryTooComplex int int

definition check_query :: "query_limits \<Rightarrow> gql_schema \<Rightarrow> gql_definition list option \<Rightarrow> string option \<Rightarrow> pydict \<Rightarrow> limit_error option" where
  "check_query ql sch document wanted variables =
     (case measure_query ql sch document wanted variables of
        None \<Rightarrow> None
      | Some (d, c) \<Rightarrow>
          (case max_depth ql of
             Some m \<Rightarrow> if int d > m then Some (QueryTooDeep d m)
                       else (case max_complexity ql of Some k \<Rightarrow> if c > k then Some (QueryTooComplex c k) else None | None \<Rightarrow> None)
           | None \<Rightarrow> (case max_complexity ql of Some k \<Rightarrow> if c > k then Some (QueryTooComplex c k) else None | None \<Rightarrow> None)))"

end
