(* ===== verification/QueryLimitsProps.thy ===== *)
theory QueryLimitsProps
  imports QueryLimits
begin

section \<open>What the query limits guarantee\<close>

text \<open>
  The measurer, which measures every fragment once and guards against cycles, gives the cost of the
  query with its fragments written out; and the answer to a query that was let through is no deeper
  and no larger than the limits say.
\<close>

subsection \<open>The reference: fragments written out\<close>

fun tree_cost :: "measurer \<Rightarrow> string option \<Rightarrow> selection \<Rightarrow> cost"
  and trees_cost :: "measurer \<Rightarrow> string option \<Rightarrow> selection list \<Rightarrow> cost" where
  "tree_cost ms parent (Field a name args None) =
     (if introspection_field name then (0, 0) else (0, multiplier_of (ms_limits ms) parent name))"
| "tree_cost ms parent (Field a name args (Some sels)) =
     (if introspection_field name then (0, 0)
      else field_cost ms parent name args (trees_cost ms (child_type ms parent name) sels))"
| "tree_cost ms parent (Inline tc sels) = trees_cost ms (inline_type ms parent tc) sels"
| "tree_cost ms parent (Spread n) = (0, 0)"
| "trees_cost ms parent [] = (0, 0)"
| "trees_cost ms parent (s # ss) = add_cost (tree_cost ms parent s) (trees_cost ms parent ss)"

subsection \<open>The measurer gives the reference cost\<close>

definition fragment_cost :: "measurer \<Rightarrow> (string \<Rightarrow> nat) \<Rightarrow> string \<Rightarrow> cost option" where
  "fragment_cost ms rank n =
     (case map_of (ms_fragments ms) n of
        None \<Rightarrow> None
      | Some (tc, sels) \<Rightarrow> Some (trees_cost ms (get_type (ms_schema ms) tc) (map (expand (ms_fragments ms) (rank n)) sels)))"

definition valid_costs :: "measurer \<Rightarrow> (string \<Rightarrow> nat) \<Rightarrow> fragment_costs \<Rightarrow> bool" where
  "valid_costs ms rank costs \<longleftrightarrow> (\<forall>n c. map_of costs n = Some c \<longrightarrow> fragment_cost ms rank n = Some c)"

definition below :: "(string \<Rightarrow> nat) \<Rightarrow> string set \<Rightarrow> nat \<Rightarrow> string set \<Rightarrow> bool" where
  "below rank names k visiting \<longleftrightarrow> (\<forall>m \<in> names. rank m < k \<and> (\<forall>v \<in> visiting. rank m < rank v))"

lemma valid_costs_known:
  "valid_costs ms rank costs \<Longrightarrow> map_of (ms_fragments ms) n = None \<Longrightarrow> map_of costs n = None"
  "valid_costs ms rank costs \<Longrightarrow> map_of costs n = Some c \<Longrightarrow> map_of (ms_fragments ms) n = Some (tc, sels) \<Longrightarrow>
   c = trees_cost ms (get_type (ms_schema ms) tc) (map (expand (ms_fragments ms) (rank n)) sels)"
  unfolding valid_costs_def fragment_cost_def by (cases "map_of costs n"; fastforce)+

lemma below_Un [simp]: "below rank (A \<union> B) k v \<longleftrightarrow> below rank A k v \<and> below rank B k v"
  by (auto simp: below_def)

lemma measure_correct:
  assumes ranked: "ranked (ms_fragments ms) rank"
  shows "below rank (spreads s) k visiting \<Longrightarrow> valid_costs ms rank costs \<Longrightarrow>
      fst (measure_selection ms visiting parent s costs) = tree_cost ms parent (expand (ms_fragments ms) k s)
      \<and> valid_costs ms rank (snd (measure_selection ms visiting parent s costs))"
    and "below rank (spreads_all ss) k visiting \<Longrightarrow> valid_costs ms rank costs \<Longrightarrow>
      fst (measure_selections ms visiting parent ss costs) = trees_cost ms parent (map (expand (ms_fragments ms) k) ss)
      \<and> valid_costs ms rank (snd (measure_selections ms visiting parent ss costs))"
  using ranked
proof (induction ms visiting parent s costs and ms visiting parent ss costs arbitrary: k and k rule: measure_selection_measure_selections.induct)
  case (1 ms visiting parent a name args sub costs)
  then show ?case by (cases sub) (auto simp: case_prod_beta)
next
  case (2 ms visiting parent tc sels costs)
  then show ?case by simp
next
  case (3 ms visiting parent name costs)
  let ?fr = "ms_fragments ms"
  have k: "rank name < k" "name \<notin> visiting" using 3(2) by (auto simp: below_def)
  show ?case
  proof (cases "map_of ?fr name")
    case None
    then have "map_of costs name = None" using valid_costs_known(1) [OF 3(3)] by blast
    moreover have "expand ?fr k (Spread name) = Inline None []" using k(1) None by (cases k) simp_all
    ultimately show ?thesis using None 3(3) by simp
  next
    case (Some f)
    obtain tc sels where f: "f = (tc, sels)" by (cases f)
    note e = expand_spread [OF 3(4) k(1) Some [unfolded f]]
    show ?thesis
    proof (cases "map_of costs name")
      case (Some c)
      with valid_costs_known(2) [OF 3(3)] \<open>map_of ?fr name = Some f\<close> f have "c = trees_cost ms (get_type (ms_schema ms) tc) (map (expand ?fr (rank name)) sels)"
        by simp
      with Some 3(3) e show ?thesis by (simp add: inline_type_def)
    next
      case None
      have "below rank (spreads_all sels) (rank name) (insert name visiting)"
        using 3(2,4) \<open>map_of ?fr name = Some f\<close> f by (fastforce simp: below_def ranked_def)
      from 3(1) [OF None \<open>map_of ?fr name = Some f\<close> f [symmetric] k(2) this 3(3,4)] None \<open>map_of ?fr name = Some f\<close> f e k(2)
      show ?thesis by (auto simp: inline_type_def valid_costs_def fragment_cost_def case_prod_beta)
    qed
  qed
next
  case (5 ms visiting parent s ss costs)
  obtain c costs1 where one: "measure_selection ms visiting parent s costs = (c, costs1)" by fastforce
  have b: "below rank (spreads s) k visiting" "below rank (spreads_all ss) k visiting" using 5(3) by simp_all
  from 5(1) [OF b(1) 5(4,5)] one have
    c: "c = tree_cost ms parent (expand (ms_fragments ms) k s)" "valid_costs ms rank costs1" by simp_all
  from 5(2) [OF refl one [symmetric] b(2) c(2) 5(5)] c(1) one show ?case by (simp add: case_prod_beta)
qed simp

subsection \<open>Whole requests\<close>

definition worse_cost :: "cost \<Rightarrow> cost \<Rightarrow> cost" where
  "worse_cost a c = (max (fst a) (fst c), max (snd a) (snd c))"

lemma measure_operations_reference:
  assumes "ranked (ms_fragments ms) rank" "\<forall>(op, sels) \<in> set ops. \<forall>m \<in> spreads_all sels. rank m < k" "valid_costs ms rank costs"
  shows "measure_operations ms ops acc costs =
    foldl worse_cost acc
      (map (\<lambda>(op, sels). trees_cost ms (root_type (ms_schema ms) op) (map (expand (ms_fragments ms) k) sels)) ops)"
  using assms(2,3)
proof (induction ops arbitrary: acc costs)
  case (Cons o1 ops)
  obtain op sels where o1: "o1 = (op, sels)" by (cases o1)
  obtain c costs1 where one: "measure_selections ms {} (root_type (ms_schema ms) op) sels costs = (c, costs1)" by fastforce
  have "below rank (spreads_all sels) k {}" using Cons.prems(1) o1 by (simp add: below_def)
  from measure_correct(2) [OF assms(1) this Cons.prems(2), of "root_type (ms_schema ms) op"] one
  have "c = trees_cost ms (root_type (ms_schema ms) op) (map (expand (ms_fragments ms) k) sels)" "valid_costs ms rank costs1" by simp_all
  with Cons.IH [of costs1] Cons.prems(1) o1 one show ?case by (simp add: worse_cost_def)
qed simp

definition request_measurer :: "query_limits \<Rightarrow> gql_schema \<Rightarrow> gql_definition list \<Rightarrow> pydict \<Rightarrow> measurer" where
  "request_measurer ql sch ds variables = \<lparr>ms_schema = sch, ms_fragments = fragments_of ds, ms_variables = variables, ms_limits = ql\<rparr>"

definition reference_cost :: "measurer \<Rightarrow> nat \<Rightarrow> operation_type \<times> selection list \<Rightarrow> cost" where
  "reference_cost ms k = (\<lambda>(op, sels). trees_cost ms (root_type (ms_schema ms) op) (map (expand (ms_fragments ms) k) sels))"

lemma measure_is_reference_aux:
  assumes "ranked (fragments_of ds) rank" "\<forall>(op, sels) \<in> set (operations_of ds wanted). \<forall>m \<in> spreads_all sels. rank m < k"
    and "operations_of ds wanted \<noteq> []"
  shows "measure_query ql sch (Some ds) wanted variables =
    Some (foldl worse_cost (0, 0)
      (map (reference_cost (request_measurer ql sch ds variables) k) (operations_of ds wanted)))"
  using measure_operations_reference [of "request_measurer ql sch ds variables" rank "operations_of ds wanted" k "[]" "(0, 0)"] assms
  by (simp add: measure_query_def request_measurer_def reference_cost_def valid_costs_def Let_def)

text \<open>
  C35: The measurer is exact.  For a document without fragment cycles the measured depth and complexity
  are those of the operations with all fragments written out in place, although each fragment is
  measured only once.
\<close>

theorem measure_is_reference:
  assumes "ranked (fragments_of ds) rank" "\<forall>(op, sels) \<in> set (operations_of ds wanted). \<forall>m \<in> spreads_all sels. rank m < k"
    and "operations_of ds wanted \<noteq> []"
  shows "measure_query ql sch (Some ds) wanted variables =
    Some (foldl worse_cost (0, 0)
      (map (reference_cost (request_measurer ql sch ds variables) k) (operations_of ds wanted)))"
  by (rule measure_is_reference_aux [OF assms])

subsection \<open>The size of an answer\<close>

text \<open>
  The answers that execution can give to a selection set, as the number of field values resolved and
  the depth of their nesting: an object field gives one object or null, a list field at most as many
  objects as the size that its arguments ask for, and a fragment on another type is skipped.
  Introspection is not counted.
\<close>

definition answer_length :: "measurer \<Rightarrow> string option \<Rightarrow> string \<Rightarrow> (string \<times> gql_value) list \<Rightarrow> int" where
  "answer_length ms parent name args =
     (case field_of (ms_schema ms) parent name of
        None \<Rightarrow> 1
      | Some fd \<Rightarrow> if is_list_field (fd_type fd) then list_size (ms_limits ms) (ms_variables ms) args fd else 1)"

inductive answers :: "measurer \<Rightarrow> string option \<Rightarrow> selection list \<Rightarrow> nat \<Rightarrow> nat \<Rightarrow> bool" for ms where
  nothing: "answers ms parent [] 0 0"
| meta: "introspection_field name \<Longrightarrow> answers ms parent ss n d \<Longrightarrow> answers ms parent (Field a name args sub # ss) n d"
| leaf: "\<not> introspection_field name \<Longrightarrow> answers ms parent ss n d \<Longrightarrow> answers ms parent (Field a name args None # ss) (Suc n) d"
| objects: "\<not> introspection_field name \<Longrightarrow> answers ms parent ss n d \<Longrightarrow> int (length items) \<le> answer_length ms parent name args \<Longrightarrow>
    \<forall>item \<in> set items. answers ms (child_type ms parent name) sels (fst item) (snd item) \<Longrightarrow>
    answers ms parent (Field a name args (Some sels) # ss) (Suc (sum_list (map fst items) + n)) (max (Suc (foldr max (map snd items) 0)) d)"
| fragment: "answers ms (inline_type ms parent tc) sels k e \<Longrightarrow> answers ms parent ss n d \<Longrightarrow>
    answers ms parent (Inline tc sels # ss) (k + n) (max e d)"
| skipped: "answers ms parent ss n d \<Longrightarrow> answers ms parent (Inline tc sels # ss) n d"

definition positive_limits :: "query_limits \<Rightarrow> bool" where
  "positive_limits ql \<longleftrightarrow> (\<forall>m \<in> snd ` set (field_multipliers ql). m \<ge> 1) \<and> default_list_size ql \<ge> 0"

lemma positive_multiplier: "positive_limits ql \<Longrightarrow> multiplier_of ql parent name \<ge> 1"
  by (force simp: positive_limits_def multiplier_of_def Let_def split: option.splits dest: map_of_SomeD)

lemma first_size_nonneg: "d \<ge> 0 \<Longrightarrow> first_size vs d \<ge> 0"
  by (induction vs d rule: first_size.induct) simp_all

lemma answer_length_nonneg: "positive_limits (ms_limits ms) \<Longrightarrow> answer_length ms parent name args \<ge> 0"
  by (auto simp: answer_length_def list_size_def positive_limits_def intro: first_size_nonneg split: option.splits simp del: list.map)

lemma cost_nonneg:
  assumes "positive_limits (ms_limits ms)"
  shows "snd (tree_cost ms parent s) \<ge> 0" "snd (trees_cost ms parent ss) \<ge> 0"
  using assms
proof (induction ms parent s and ms parent ss rule: tree_cost_trees_cost.induct)
  case (2 ms parent a name args sels)
  then show ?case
    using answer_length_nonneg [of ms parent name args] positive_multiplier [of "ms_limits ms" parent name]
    by (auto simp: field_cost_def answer_length_def Let_def intro!: add_nonneg_nonneg mult_nonneg_nonneg)
qed (use positive_multiplier in \<open>auto simp: add_cost_def intro: order_trans [OF zero_le_one]\<close>)

lemma sum_items_bound:
  assumes "\<forall>item \<in> set items. int (fst item) \<le> c \<and> snd item \<le> (e :: nat)" "int (length items) \<le> z" "c \<ge> 0"
  shows "int (sum_list (map fst items)) \<le> z * c" "foldr max (map snd items) 0 \<le> e"
proof -
  have "int (sum_list (map fst items)) \<le> int (length items) * c" using assms(1) by (induction items) (auto simp: algebra_simps)
  also have "\<dots> \<le> z * c" using assms(2,3) by (rule mult_right_mono)
  finally show "int (sum_list (map fst items)) \<le> z * c" .
  show "foldr max (map snd items) 0 \<le> e" using assms(1) by (induction items) (auto simp: max_def)
qed

lemma answers_bounded:
  assumes "positive_limits (ms_limits ms)"
  shows "answers ms parent ss n d \<Longrightarrow> int n \<le> snd (trees_cost ms parent ss) \<and> d \<le> fst (trees_cost ms parent ss)"
proof (induction rule: answers.induct)
  case (meta name parent ss n d a args sub)
  then show ?case by (cases sub) (simp_all add: add_cost_def)
next
  case (leaf name parent ss n d a args)
  then show ?case using positive_multiplier [OF assms, of parent name] by (simp add: add_cost_def)
next
  case (objects name parent ss n d items args sels a)
  let ?c = "trees_cost ms (child_type ms parent name) sels"
  have "\<forall>item \<in> set items. int (fst item) \<le> snd ?c \<and> snd item \<le> fst ?c" using objects by blast
  note b = sum_items_bound [OF this objects(3) cost_nonneg(2) [OF assms]]
  have "field_cost ms parent name args ?c = (fst ?c + 1, multiplier_of (ms_limits ms) parent name + answer_length ms parent name args * snd ?c)"
    by (simp add: field_cost_def answer_length_def Let_def)
  with b objects(1,4) positive_multiplier [OF assms, of parent name] show ?case by (auto simp: add_cost_def intro: max.coboundedI1 max.coboundedI2)
next
  case (skipped parent ss n d tc sels)
  then show ?case using cost_nonneg(2) [OF assms, of "inline_type ms parent tc" sels] by (simp add: add_cost_def le_max_iff_disj)
qed (auto simp: add_cost_def)

lemma worse_cost_ge: "fst a \<le> fst (worse_cost a c) \<and> snd a \<le> snd (worse_cost a c)" "fst c \<le> fst (worse_cost a c) \<and> snd c \<le> snd (worse_cost a c)"
  by (simp_all add: worse_cost_def)

lemma worst_cost_acc: "fst acc \<le> fst (foldl worse_cost acc cs) \<and> snd acc \<le> snd (foldl worse_cost acc cs)"
proof (induction cs arbitrary: acc)
  case (Cons c cs)
  from Cons [of "worse_cost acc c"] worse_cost_ge(1) [of acc c] show ?case by simp
qed simp

lemma worst_cost: "c \<in> set cs \<Longrightarrow> fst c \<le> fst (foldl worse_cost acc cs) \<and> snd c \<le> snd (foldl worse_cost acc cs)"
proof (induction cs arbitrary: acc)
  case (Cons x cs)
  from Cons.IH [of "worse_cost acc x"] Cons.prems worst_cost_acc [of "worse_cost acc x" cs] worse_cost_ge(2) [of x acc]
  show ?case by auto
qed simp

text \<open>
  C34: The limits bound the answers.  Let a request pass the check, with multipliers of at least one and
  without fragment cycles.  When every list field returns at most as many objects as its arguments ask
  for, the answer to any operation that can run holds at most \<open>complexity_max_score\<close> field values, nested
  at most as deep as the maximum depth.
\<close>

theorem accepted_queries_bounded:
  assumes "check_query ql sch (Some ds) wanted variables = None" "positive_limits ql"
    and "ranked (fragments_of ds) rank" "\<forall>(op, sels) \<in> set (operations_of ds wanted). \<forall>m \<in> spreads_all sels. rank m < k"
    and "(op, sels) \<in> set (operations_of ds wanted)"
    and "answers (request_measurer ql sch ds variables) (root_type sch op) (map (expand (fragments_of ds) k) sels) n d"
  shows "(case max_complexity ql of None \<Rightarrow> True | Some m \<Rightarrow> int n \<le> m) \<and> (case max_depth ql of None \<Rightarrow> True | Some m \<Rightarrow> int d \<le> m)"
proof -
  let ?ms = "request_measurer ql sch ds variables"
  let ?c = "reference_cost ?ms k (op, sels)"
  let ?total = "foldl worse_cost (0, 0) (map (reference_cost ?ms k) (operations_of ds wanted))"
  have "operations_of ds wanted \<noteq> []" using assms(5) by auto
  then have m: "measure_query ql sch (Some ds) wanted variables = Some ?total" by (rule measure_is_reference_aux [OF assms(3,4)])
  have "fst ?c \<le> fst ?total \<and> snd ?c \<le> snd ?total" using assms(5) by (intro worst_cost) simp
  moreover have "int n \<le> snd ?c \<and> d \<le> fst ?c"
    using answers_bounded [OF _ assms(6)] assms(2) by (simp add: reference_cost_def request_measurer_def)
  ultimately show ?thesis using assms(1) m
    by (auto simp: check_query_def split: option.splits prod.splits if_splits)
qed

subsection \<open>An example\<close>

definition users_schema :: gql_schema where
  "users_schema = \<lparr>gs_types =
     [(''Query'', ObjectType [(''users'', \<lparr>fd_type = NonNullType (ListType (NamedType ''User'')), fd_args = [(''limit'', PInt 5)]\<rparr>)]),
      (''User'', ObjectType [(''id'', \<lparr>fd_type = NamedType ''ID'', fd_args = []\<rparr>), (''posts'', \<lparr>fd_type = ListType (NamedType ''Post''), fd_args = []\<rparr>)]),
      (''Post'', ObjectType [(''title'', \<lparr>fd_type = NamedType ''String'', fd_args = []\<rparr>)])],
     gs_query = Some ''Query'', gs_mutation = None, gs_subscription = None\<rparr>"

text \<open>\<open>{ users(limit: 2) { ...U ...U } }  fragment U on User { id posts { title } }\<close>\<close>

definition users_document :: "gql_definition list" where
  "users_document =
     [OperationDef QueryOp None [Field None ''users'' [(''limit'', IntValue 2)] (Some [Spread ''U'', Spread ''U''])],
      FragmentDef ''U'' ''User'' [Field None ''id'' [] None, Field None ''posts'' [] (Some [Field None ''title'' [] None])]]"

definition users_limits :: query_limits where
  "users_limits = \<lparr>max_depth = Some 2, max_complexity = Some 60, default_list_size = 10, field_multipliers = []\<rparr>"

lemma users_ranked: "ranked (fragments_of users_document) (\<lambda>_. 0)"
  by (simp add: ranked_def fragments_of_def users_document_def)

lemma users_rank_bound: "\<forall>(op, sels) \<in> set (operations_of users_document None). \<forall>m \<in> spreads_all sels. (\<lambda>_. 0) m < (1 :: nat)"
  by simp

theorem measure_is_reference_witness:
  "measure_query users_limits users_schema (Some users_document) None [] = Some (2, 49)
   \<and> map (reference_cost (request_measurer users_limits users_schema users_document []) 1) (operations_of users_document None) = [(2, 49)]"
proof -
  have "operations_of users_document None \<noteq> []" by code_simp
  moreover have "map (reference_cost (request_measurer users_limits users_schema users_document []) 1) (operations_of users_document None) = [(2, 49)]"
    by code_simp
  ultimately show ?thesis using measure_is_reference [OF users_ranked users_rank_bound] by (simp add: worse_cost_def)
qed

lemma users_answers:
  "answers (request_measurer users_limits users_schema users_document []) (root_type users_schema QueryOp)
     (map (expand (fragments_of users_document) 1) [Field None ''users'' [(''limit'', IntValue 2)] (Some [Spread ''U'', Spread ''U''])]) 17 2"
proof -
  let ?ms = "request_measurer users_limits users_schema users_document []"
  let ?title = "[Field None ''title'' [] None]"
  let ?user = "[Field None ''id'' [] None, Field None ''posts'' [] (Some ?title)]"
  let ?body = "[Inline (Some ''User'') ?user, Inline (Some ''User'') ?user]"
  have types: "child_type ?ms (Some ''User'') ''posts'' = Some ''Post''" "child_type ?ms (Some ''Query'') ''users'' = Some ''User''"
    "inline_type ?ms (Some ''User'') (Some ''User'') = Some ''User''" "answer_length ?ms (Some ''User'') ''posts'' [] = 10"
    "answer_length ?ms (Some ''Query'') ''users'' [(''limit'', IntValue 2)] = 2" by code_simp+
  have names: "\<not> introspection_field ''title''" "\<not> introspection_field ''id''" "\<not> introspection_field ''posts''" "\<not> introspection_field ''users''"
    by (simp_all add: introspection_field_def)
  have "answers ?ms (Some ''Post'') ?title 1 0" using answers.leaf [OF names(1) answers.nothing] by simp
  with types have "answers ?ms (Some ''User'') [Field None ''posts'' [] (Some ?title)] 3 1"
    using answers.objects [OF names(3) answers.nothing, where items = "[(1, 0), (1, 0)]" and args = "[]" and sels = ?title] by (simp add: numeral_eq_Suc)
  from answers.leaf [OF names(2) this] have "answers ?ms (Some ''User'') ?user 4 1" by (simp add: numeral_eq_Suc)
  then have user: "answers ?ms (inline_type ?ms (Some ''User'') (Some ''User'')) ?user 4 1" by (simp only: types(3))
  from answers.fragment [OF user answers.fragment [OF user answers.nothing]] have "answers ?ms (Some ''User'') ?body 8 1"
    by simp
  with types have "answers ?ms (Some ''Query'') [Field None ''users'' [(''limit'', IntValue 2)] (Some ?body)] 17 2"
    using answers.objects [OF names(4) answers.nothing, where items = "[(8, 1), (8, 1)]" and args = "[(''limit'', IntValue 2)]" and sels = ?body] by (simp add: numeral_eq_Suc)
  moreover have "root_type users_schema QueryOp = Some ''Query''"
    "map (expand (fragments_of users_document) 1) [Field None ''users'' [(''limit'', IntValue 2)] (Some [Spread ''U'', Spread ''U''])]
       = [Field None ''users'' [(''limit'', IntValue 2)] (Some ?body)]" by code_simp+
  ultimately show ?thesis by simp
qed

theorem accepted_queries_bounded_witness:
  "check_query users_limits users_schema (Some users_document) None [] = None \<and> int 17 \<le> 60 \<and> int 2 \<le> 2"
proof -
  have c: "check_query users_limits users_schema (Some users_document) None [] = None" by code_simp
  have p: "positive_limits users_limits" by (simp add: positive_limits_def users_limits_def)
  have o: "(QueryOp, [Field None ''users'' [(''limit'', IntValue 2)] (Some [Spread ''U'', Spread ''U''])]) \<in> set (operations_of users_document None)"
    by code_simp
  from accepted_queries_bounded [OF c p users_ranked users_rank_bound o users_answers] c show ?thesis by (simp add: users_limits_def)
qed

subsection \<open>Sizes that the measurer does not see\<close>

text \<open>
  A list sized by a variable that the request leaves to its default, or gives as a float, is counted
  with the default list size, although execution uses the value.
\<close>

lemma unset_variable_size:
  "list_size users_limits [] [(''limit'', VariableValue ''n'')] \<lparr>fd_type = ListType (NamedType ''User''), fd_args = [(''limit'', PInt 5)]\<rparr> = 10"
  "list_size users_limits [(''n'', PFloat ''1000000.0'')] [(''limit'', VariableValue ''n'')]
     \<lparr>fd_type = ListType (NamedType ''User''), fd_args = [(''limit'', PInt 5)]\<rparr> = 10"
  by code_simp+

text \<open>The multiplier of a bare field name replaces the one that names the type.\<close>

lemma bare_multiplier_wins:
  "multiplier_of (users_limits\<lparr>field_multipliers := [(''Query.users'', 20), (''users'', 1)]\<rparr>) (Some ''Query'') ''users'' = 1"
  by code_simp

end
