(* ===== verification/FieldPaths.thy ===== *)
theory FieldPaths
  imports GraphqlAst Casing
begin

section \<open>From a selection set to field paths\<close>

text \<open>
  \<open>core/fragment_resolver.py\<close>, \<open>core/ast_parser.py\<close> and \<open>core/selection_tree.py\<close>: the fields of a
  selection set with its fragments resolved, the flat list of the paths to its leaves, and the selections
  by which the pipeline projects a row.  A fuel argument stands for the recursion limit.
\<close>

subsection \<open>The fields of a selection set\<close>

fun resolve :: "nat \<Rightarrow> fragments \<Rightarrow> string option \<Rightarrow> selection \<Rightarrow> selection list result" where
  "resolve k fr typename (Field a name args sub) = Inr [Field a name args sub]"
| "resolve k fr typename (Inline tc sels) =
     (if typename = None \<or> tc = None \<or> tc = typename
      then rbind (map_result (resolve k fr typename) sels) (\<lambda>fss. Inr (concat fss))
      else Inr [])"
| "resolve 0 fr typename (Spread n) = Inl RecursionError"
| "resolve (Suc k) fr typename (Spread n) =
     (case map_of fr n of
        None \<Rightarrow> Inl ValueError
      | Some (tc, sels) \<Rightarrow> rbind (map_result (resolve k fr typename) sels) (\<lambda>fss. Inr (concat fss)))"

fun field_key :: "selection \<Rightarrow> string" where
  "field_key (Field a name args sub) = (case a of Some k \<Rightarrow> k | None \<Rightarrow> name)"
| "field_key _ = []"

fun deduplicate :: "string set \<Rightarrow> selection list \<Rightarrow> selection list" where
  "deduplicate seen [] = []"
| "deduplicate seen (f # fs) =
     (if field_key f \<in> seen then deduplicate seen fs else f # deduplicate (insert (field_key f) seen) fs)"

definition deduplicate_fields :: "selection list \<Rightarrow> selection list" where
  "deduplicate_fields = deduplicate {}"

definition resolve_all_fields :: "nat \<Rightarrow> fragments \<Rightarrow> string option \<Rightarrow> selection list \<Rightarrow> selection list result" where
  "resolve_all_fields k fr typename sels =
     rbind (map_result (resolve k fr typename) sels) (\<lambda>fss. Inr (deduplicate_fields (concat fss)))"

subsection \<open>Paths\<close>

record field_path_info =
  fp_alias :: string
  fp_path :: "string list"
  fp_names :: "string list option"
  fp_response_keys :: "string list option"

fun field_name_of :: "selection \<Rightarrow> string" where
  "field_name_of (Field a name args sub) = name"
| "field_name_of _ = []"

fun sub_selections :: "selection \<Rightarrow> selection list option" where
  "sub_selections (Field a name args sub) = sub"
| "sub_selections _ = None"

fun extract_flat_paths ::
  "nat \<Rightarrow> (string \<Rightarrow> string) \<Rightarrow> fragments \<Rightarrow> string list \<Rightarrow> string list \<Rightarrow> string list \<Rightarrow> selection list \<Rightarrow> field_path_info list result" where
  "extract_flat_paths 0 tr fr path names keys sels = Inl RecursionError"
| "extract_flat_paths (Suc k) tr fr path names keys sels =
     rbind (resolve_all_fields (Suc k) fr None sels) (\<lambda>fs.
     rbind (map_result (\<lambda>f.
         let path1 = path @ [tr (field_name_of f)];
             names1 = names @ [field_name_of f];
             keys1 = keys @ [field_key f]
         in case sub_selections f of
              Some sub \<Rightarrow> extract_flat_paths k tr fr path1 names1 keys1 sub
            | None \<Rightarrow> Inr [\<lparr>fp_alias = field_key f, fp_path = path1, fp_names = Some names1, fp_response_keys = Some keys1\<rparr>]) fs)
       (\<lambda>pss. Inr (concat pss)))"

text \<open>\<open>extract_field_paths_from_info\<close> reads the first of the field nodes.\<close>

definition extract_field_paths_from_info ::
  "nat \<Rightarrow> (string \<Rightarrow> string) \<Rightarrow> fragments \<Rightarrow> selection list \<Rightarrow> field_path_info list option result" where
  "extract_field_paths_from_info k tr fr field_nodes =
     (case field_nodes of
        [] \<Rightarrow> Inr None
      | node # _ \<Rightarrow>
          (case sub_selections node of
             None \<Rightarrow> Inr None
           | Some sels \<Rightarrow> rbind (extract_flat_paths k tr fr [] [] [] sels) (\<lambda>ps. Inr (Some ps))))"

subsection \<open>Selections\<close>

record field_info =
  fi_type_name :: string
  fi_nested :: bool
  fi_graphql_name :: string

definition is_object :: "gql_schema \<Rightarrow> string \<Rightarrow> bool" where
  "is_object sch n = (case map_of (gs_types sch) n of Some (ObjectType _) \<Rightarrow> True | _ \<Rightarrow> False)"

definition get_field_type :: "gql_schema \<Rightarrow> string \<Rightarrow> string \<Rightarrow> field_info option" where
  "get_field_type sch type_name field =
     (case map_of (gs_types sch) type_name of
        Some (ObjectType fs) \<Rightarrow>
          (let graphql_name = (if map_of fs field \<noteq> None then field else to_camel_case field) in
           case map_of fs graphql_name of
             None \<Rightarrow> None
           | Some fd \<Rightarrow>
               (let base = named_type (fd_type fd) in
                Some \<lparr>fi_type_name = base, fi_nested = is_object sch base, fi_graphql_name = graphql_name\<rparr>))
      | _ \<Rightarrow> None)"

record field_selection =
  fs_path :: "string list"
  fs_alias :: string
  fs_type_name :: string
  fs_nested :: bool
  fs_response_path :: "string list option"

text \<open>One selection for each segment of a path, with the keys they answer under.\<close>

definition output_keys :: "bool \<Rightarrow> field_path_info \<Rightarrow> string list option" where
  "output_keys by_alias fp =
     (case (if by_alias then fp_response_keys fp else fp_names fp) of
        None \<Rightarrow> None
      | Some ks \<Rightarrow> if length ks \<noteq> length (fp_path fp) then None else Some ks)"

definition segment_selection ::
  "gql_schema \<Rightarrow> field_path_info \<Rightarrow> string list option \<Rightarrow> string \<Rightarrow> nat \<Rightarrow> string list \<times> field_selection" where
  "segment_selection sch fp keys current i =
     (let field = fp_path fp ! i;
          info = get_field_type sch current field;
          path = take (Suc i) (fp_path fp);
          (type_name, nested) =
            (if field = ''__typename'' then (current, False)
             else case info of Some fi \<Rightarrow> (fi_type_name fi, fi_nested fi) | None \<Rightarrow> (''Unknown'', False));
          alias = (case keys of
                     Some ks \<Rightarrow> ks ! i
                   | None \<Rightarrow>
                       if Suc i = length (fp_path fp) then fp_alias fp
                       else (case info of Some fi \<Rightarrow> fi_graphql_name fi | None \<Rightarrow> to_camel_case field))
      in (case keys of Some ks \<Rightarrow> take (Suc i) ks | None \<Rightarrow> path,
          \<lparr>fs_path = path, fs_alias = alias, fs_type_name = type_name, fs_nested = nested,
            fs_response_path = map_option (take (Suc i)) keys\<rparr>))"

fun path_selections ::
  "gql_schema \<Rightarrow> field_path_info \<Rightarrow> string list option \<Rightarrow> string \<Rightarrow> nat \<Rightarrow> nat \<Rightarrow> (string list \<times> field_selection) list" where
  "path_selections sch fp keys current i 0 = []"
| "path_selections sch fp keys current i (Suc n) =
     segment_selection sch fp keys current i
     # path_selections sch fp keys
         (case get_field_type sch current (fp_path fp ! i) of Some fi \<Rightarrow> fi_type_name fi | None \<Rightarrow> current) (Suc i) n"

fun keep_first :: "('k \<times> 'v) list \<Rightarrow> ('k \<times> 'v) list \<Rightarrow> ('k \<times> 'v) list" where
  "keep_first d [] = d"
| "keep_first d ((k, v) # kvs) = keep_first (if map_of d k = None then d @ [(k, v)] else d) kvs"

definition build_selection_tree :: "field_path_info list \<Rightarrow> gql_schema \<Rightarrow> string \<Rightarrow> bool \<Rightarrow> field_selection list" where
  "build_selection_tree fps sch parent by_alias =
     map snd (keep_first [] (concat (map (\<lambda>fp. path_selections sch fp (output_keys by_alias fp) parent 0 (length (fp_path fp))) fps)))"

fun named_object_type :: "gql_schema \<Rightarrow> gql_type \<Rightarrow> string option" where
  "named_object_type sch (NonNullType t) = named_object_type sch t"
| "named_object_type sch (ListType t) = named_object_type sch t"
| "named_object_type sch (NamedType n) = (if is_object sch n then Some n else None)"

definition rust_field_selections :: "field_path_info list \<Rightarrow> gql_schema \<Rightarrow> string \<Rightarrow> bool \<Rightarrow> pydict list" where
  "rust_field_selections fps sch parent by_alias =
     map (\<lambda>sel. [(''materialized_path'', PStr (join_str ''.'' (fs_path sel))), (''alias'', PStr (fs_alias sel)),
                  (''type_name'', PStr (fs_type_name sel)), (''is_nested_object'', PBool (fs_nested sel))]
               @ (case fs_response_path sel of None \<Rightarrow> [] | Some ks \<Rightarrow> [(''response_path'', PStr (join_str ''.'' ks))]))
       (build_selection_tree fps sch parent by_alias)"

end
