(* ===== verification/FieldPathsProps.thy ===== *)
theory FieldPathsProps
  imports FieldPaths
begin

section \<open>The field paths of a query\<close>

text \<open>
  When no two fields of one selection set answer under the same key, the extracted paths are exactly
  the paths from the root to the leaves of the query with its fragments written out, and the selections
  built from them are exactly the prefixes of these paths, each once.
\<close>

subsection \<open>The reference\<close>

text \<open>The fields of a selection set without spreads, and the paths to its leaves.\<close>

fun flat :: "selection \<Rightarrow> selection list" where
  "flat (Field a name args sub) = [Field a name args sub]"
| "flat (Inline tc sels) = concat (map flat sels)"
| "flat (Spread n) = []"

definition add_segment :: "(string \<Rightarrow> string) \<Rightarrow> selection \<Rightarrow> string list \<times> string list \<times> string list \<Rightarrow> string list \<times> string list \<times> string list" where
  "add_segment tr f p = (tr (field_name_of f) # fst p, field_name_of f # fst (snd p), field_key f # snd (snd p))"

fun leaf_paths :: "(string \<Rightarrow> string) \<Rightarrow> selection \<Rightarrow> (string list \<times> string list \<times> string list) list" where
  "leaf_paths tr (Field a name args None) = [add_segment tr (Field a name args None) ([], [], [])]"
| "leaf_paths tr (Field a name args (Some sels)) =
     map (add_segment tr (Field a name args (Some sels))) (concat (map (leaf_paths tr) sels))"
| "leaf_paths tr (Inline tc sels) = concat (map (leaf_paths tr) sels)"
| "leaf_paths tr (Spread n) = []"

definition path_info :: "string list \<times> string list \<times> string list \<Rightarrow> field_path_info" where
  "path_info p = \<lparr>fp_alias = last (snd (snd p)), fp_path = fst p, fp_names = Some (fst (snd p)), fp_response_keys = Some (snd (snd p))\<rparr>"

definition under :: "string list \<times> string list \<times> string list \<Rightarrow> string list \<times> string list \<times> string list \<Rightarrow> string list \<times> string list \<times> string list" where
  "under q p = (fst q @ fst p, fst (snd q) @ fst (snd p), snd (snd q) @ snd (snd p))"

text \<open>Nesting of fields, and no key twice in any selection set.\<close>

fun nesting :: "selection \<Rightarrow> nat" where
  "nesting (Field a name args None) = 1"
| "nesting (Field a name args (Some sels)) = Suc (foldr max (map nesting sels) 0)"
| "nesting (Inline tc sels) = foldr max (map nesting sels) 0"
| "nesting (Spread n) = 0"

fun keys_below :: "selection \<Rightarrow> bool" where
  "keys_below (Field a name args None) = True"
| "keys_below (Field a name args (Some sels)) = (distinct (map field_key (concat (map flat sels))) \<and> (\<forall>s \<in> set sels. keys_below s))"
| "keys_below (Inline tc sels) = (\<forall>s \<in> set sels. keys_below s)"
| "keys_below (Spread n) = True"

definition distinct_keys :: "selection list \<Rightarrow> bool" where
  "distinct_keys sels \<longleftrightarrow> distinct (map field_key (concat (map flat sels))) \<and> (\<forall>s \<in> set sels. keys_below s)"

definition closed_fragments :: "fragments \<Rightarrow> bool" where
  "closed_fragments fr \<longleftrightarrow> (\<forall>n tc sels. map_of fr n = Some (tc, sels) \<longrightarrow> spreads_all sels \<subseteq> fst ` set fr)"

subsection \<open>Resolving the fields\<close>

lemma resolve_total:
  assumes "ranked fr rank" "closed_fragments fr"
  shows "\<forall>m \<in> spreads s. rank m < k \<and> m \<in> fst ` set fr \<Longrightarrow> \<exists>fs. resolve k fr None s = Inr fs"
  using assms
proof (induction k fr "None :: string option" s rule: resolve.induct)
  case (2 k fr tc sels)
  have "\<exists>fs. resolve k fr None s = Inr fs" if "s \<in> set sels" for s
    using 2(1) [OF _ that] 2(2-4) in_spreads_all [OF that] by auto
  from map_result_total [of sels "resolve k fr None", OF this] show ?case by auto
next
  case (4 k fr n)
  then obtain tc sels where n: "map_of fr n = Some (tc, sels)" by (cases "map_of fr n") (auto simp: map_of_eq_None_iff)
  have "\<forall>m \<in> spreads_all sels. rank m < k \<and> m \<in> fst ` set fr"
    using 4(2-4) n by (fastforce simp: ranked_def closed_fragments_def)
  then have "\<exists>fs. resolve k fr None s = Inr fs" if "s \<in> set sels" for s
    using 4(1) [OF n refl that] 4(3,4) in_spreads_all [OF that] by auto
  from map_result_total [of sels "resolve k fr None", OF this] n show ?case by auto
qed auto

definition ranks_below :: "fragments \<Rightarrow> (string \<Rightarrow> nat) \<Rightarrow> nat \<Rightarrow> string set \<Rightarrow> bool" where
  "ranks_below fr rank k names \<longleftrightarrow> (\<forall>m \<in> names. rank m < k \<and> m \<in> fst ` set fr)"

lemma map_result_concat:
  "map_result g xs = Inr yss \<Longrightarrow> (\<And>x ys. x \<in> set xs \<Longrightarrow> g x = Inr ys \<Longrightarrow> map e ys = h x \<and> (\<forall>y \<in> set ys. P y)) \<Longrightarrow>
   map e (concat yss) = concat (map h xs) \<and> (\<forall>y \<in> set (concat yss). P y)"
proof (induction xs arbitrary: yss)
  case (Cons x xs)
  from Cons.prems(1) obtain ys yss' where ys: "g x = Inr ys" "map_result g xs = Inr yss'" "yss = ys # yss'"
    by (auto simp: rbind_eq_Inr)
  from Cons.prems(2) [OF _ ys(1)] Cons.IH [OF ys(2) Cons.prems(2)] ys(3) show ?case by auto
qed simp

lemma resolve_fields:
  assumes "ranked fr rank" "closed_fragments fr"
  shows "resolve k fr None s = Inr fs \<Longrightarrow> ranks_below fr rank K (spreads s) \<Longrightarrow>
    map (expand fr K) fs = flat (expand fr K s) \<and> (\<forall>f \<in> set fs. ranks_below fr rank K (spreads f) \<and> (\<exists>a n args sub. f = Field a n args sub))"
  using assms
proof (induction k fr "None :: string option" s arbitrary: fs rule: resolve.induct)
  case (2 k fr tc sels)
  from 2(2) obtain fss where fss: "map_result (resolve k fr None) sels = Inr fss" "fs = concat fss" by (auto simp: rbind_eq_Inr)
  have "map (expand fr K) fs = flat (expand fr K s)
      \<and> (\<forall>f \<in> set fs. ranks_below fr rank K (spreads f) \<and> (\<exists>a n args sub. f = Field a n args sub))"
    if "s \<in> set sels" "resolve k fr None s = Inr fs" for s fs
    by (rule 2(1) [OF _ that _ 2(4,5)]) (use 2(3) in_spreads_all [OF that(1)] in \<open>auto simp: ranks_below_def\<close>)
  from map_result_concat [OF fss(1) this] fss(2) show ?case by (simp add: comp_def)
next
  case (4 k fr n)
  from 4(2) obtain tc sels fss where n: "map_of fr n = Some (tc, sels)"
    and fss: "map_result (resolve k fr None) sels = Inr fss" "fs = concat fss" by (auto simp: rbind_eq_Inr split: option.splits)
  have K: "rank n < K" using 4(3) by (simp add: ranks_below_def)
  have below: "ranks_below fr rank K (spreads_all sels)"
    using 4(4,5) n K by (fastforce simp: ranked_def closed_fragments_def ranks_below_def)
  have "map (expand fr K) fs = flat (expand fr K s)
      \<and> (\<forall>f \<in> set fs. ranks_below fr rank K (spreads f) \<and> (\<exists>a n args sub. f = Field a n args sub))"
    if "s \<in> set sels" "resolve k fr None s = Inr fs" for s fs
    by (rule 4(1) [OF n refl that _ 4(4,5)]) (use below in_spreads_all [OF that(1)] in \<open>auto simp: ranks_below_def\<close>)
  note each = map_result_concat [OF fss(1) this]
  have "\<forall>m \<in> spreads_all sels. rank m < rank n" using 4(4) n by (auto simp: ranked_def)
  then have "map (expand fr (rank n)) sels = map (expand fr K) sels"
    using expand_stable(2) [OF 4(4), of sels "rank n" K] below by (auto simp: ranks_below_def)
  with each fss(2) expand_spread [OF 4(4) K n] show ?case by (simp add: comp_def)
qed auto

lemma deduplicate_distinct: "distinct (map field_key fs) \<Longrightarrow> field_key ` set fs \<inter> seen = {} \<Longrightarrow> deduplicate seen fs = fs"
  by (induction seen fs rule: deduplicate.induct) auto

lemma expand_field [simp]: "field_key (expand fr K (Field a n args sub)) = field_key (Field a n args sub)"
  by simp

lemma resolve_all:
  assumes "ranked fr rank" "closed_fragments fr" "ranks_below fr rank K (spreads_all sels)" "K \<le> k"
    and "distinct (map field_key (concat (map flat (map (expand fr K) sels))))"
  obtains fs where "resolve_all_fields k fr None sels = Inr fs"
    "map (expand fr K) fs = concat (map flat (map (expand fr K) sels))"
    "\<And>f. f \<in> set fs \<Longrightarrow> ranks_below fr rank K (spreads f) \<and> (\<exists>a n args sub. f = Field a n args sub)"
proof -
  have "\<exists>fs. resolve k fr None s = Inr fs" if "s \<in> set sels" for s
    by (rule resolve_total [OF assms(1,2)]) (use assms(3,4) in_spreads_all [OF that] in \<open>fastforce simp: ranks_below_def\<close>)
  from map_result_total [of sels "resolve k fr None", OF this] obtain fss where fss: "map_result (resolve k fr None) sels = Inr fss" by blast
  have "map (expand fr K) fs = flat (expand fr K s)
      \<and> (\<forall>f \<in> set fs. ranks_below fr rank K (spreads f) \<and> (\<exists>a n args sub. f = Field a n args sub))"
    if "s \<in> set sels" "resolve k fr None s = Inr fs" for s fs
    by (rule resolve_fields [OF assms(1,2) that(2)]) (use assms(3) in_spreads_all [OF that(1)] in \<open>auto simp: ranks_below_def\<close>)
  note each = map_result_concat [OF fss this]
  have "field_key f = field_key (expand fr K f)" if "f \<in> set (concat fss)" for f using each that by fastforce
  then have "map field_key (concat fss) = map field_key (map (expand fr K) (concat fss))" unfolding map_map by (intro map_cong) auto
  with each assms(5) have "distinct (map field_key (concat fss))" by (simp add: comp_def)
  then have "deduplicate_fields (concat fss) = concat fss" by (simp add: deduplicate_fields_def deduplicate_distinct)
  with fss each show thesis by (intro that [of "concat fss"]) (auto simp: resolve_all_fields_def comp_def)
qed

subsection \<open>The leaves\<close>

lemma flat_leaf_paths: "concat (map (leaf_paths tr) (flat s)) = leaf_paths tr s"
proof (induction s rule: flat.induct)
  case (2 tc sels)
  then have "concat (map (leaf_paths tr) (concat (map flat sels))) = concat (map (leaf_paths tr) sels)" by (induction sels) auto
  then show ?case by simp
qed simp_all

lemma flat_leaf_paths_all: "concat (map (leaf_paths tr) (concat (map flat ss))) = concat (map (leaf_paths tr) ss)"
  by (induction ss) (simp_all add: flat_leaf_paths)

lemma foldr_max_ge: "x \<in> set xs \<Longrightarrow> (x :: nat) \<le> foldr max xs 0"
  by (induction xs) auto

lemma flat_keys_below: "keys_below s \<Longrightarrow> f \<in> set (flat s) \<Longrightarrow> keys_below f \<and> nesting f \<le> nesting s"
proof (induction s rule: flat.induct)
  case (2 tc sels)
  then obtain s where s: "s \<in> set sels" "f \<in> set (flat s)" by auto
  with 2 have "keys_below f \<and> nesting f \<le> nesting s" by auto
  moreover have "nesting s \<le> foldr max (map nesting sels) 0" using s(1) by (intro foldr_max_ge) simp
  ultimately show ?case by simp
qed auto

definition total_nesting :: "selection list \<Rightarrow> nat" where
  "total_nesting sels = foldr max (map nesting sels) 0"

lemma extract_correct:
  assumes "ranked fr rank" "closed_fragments fr"
  shows "ranks_below fr rank K (spreads_all sels) \<Longrightarrow> distinct_keys (map (expand fr K) sels) \<Longrightarrow>
    total_nesting (map (expand fr K) sels) + K < k \<Longrightarrow>
    extract_flat_paths k tr fr path names keys sels
      = Inr (map (path_info \<circ> under (path, names, keys)) (concat (map (leaf_paths tr) (map (expand fr K) sels))))"
proof (induction k arbitrary: path names keys sels)
  case (Suc k)
  let ?e = "expand fr K"
  obtain fs where fs: "resolve_all_fields (Suc k) fr None sels = Inr fs" "map ?e fs = concat (map flat (map ?e sels))"
    "\<And>f. f \<in> set fs \<Longrightarrow> ranks_below fr rank K (spreads f) \<and> (\<exists>a n args sub. f = Field a n args sub)"
    by (rule resolve_all [OF assms Suc.prems(1), of "Suc k"]) (use Suc.prems(2,3) in \<open>auto simp: distinct_keys_def\<close>)
  have "(let path1 = path @ [tr (field_name_of f)]; names1 = names @ [field_name_of f]; keys1 = keys @ [field_key f]
         in case sub_selections f of
              Some sub \<Rightarrow> extract_flat_paths k tr fr path1 names1 keys1 sub
            | None \<Rightarrow> Inr [\<lparr>fp_alias = field_key f, fp_path = path1, fp_names = Some names1, fp_response_keys = Some keys1\<rparr>])
      = Inr (map (path_info \<circ> under (path, names, keys)) (leaf_paths tr (?e f)))" if f: "f \<in> set fs" for f
  proof -
    obtain a n args sub where fd: "f = Field a n args sub" using fs(3) [OF f] by blast
    have "?e f \<in> set (concat (map flat (map ?e sels)))" using f fs(2) by (metis imageI list.set_map)
    then obtain s where s: "s \<in> set sels" "?e f \<in> set (flat (?e s))" by auto
    have below: "keys_below (?e f)" "nesting (?e f) \<le> nesting (?e s)"
      using flat_keys_below [OF _ s(2)] Suc.prems(2) s(1) by (auto simp: distinct_keys_def)
    have "nesting (?e s) \<le> total_nesting (map ?e sels)" unfolding total_nesting_def using s(1) by (intro foldr_max_ge) auto
    with below(2) Suc.prems(3) have nest: "nesting (?e f) + K < Suc k" by simp
    show ?thesis
    proof (cases sub)
      case None
      then show ?thesis by (simp add: fd path_info_def under_def add_segment_def)
    next
      case (Some ss)
      have "ranks_below fr rank K (spreads_all ss)" using fs(3) [OF f] by (simp add: fd Some)
      moreover have "distinct_keys (map ?e ss)" using below(1) by (simp add: fd Some distinct_keys_def comp_def)
      moreover have "total_nesting (map ?e ss) + K < k" using nest by (simp add: fd Some total_nesting_def comp_def)
      ultimately show ?thesis
        using Suc.IH [of ss] by (auto simp: fd Some comp_def under_def add_segment_def)
    qed
  qed
  note each = map_result_Inr_map [of fs, OF this]
  have "extract_flat_paths (Suc k) tr fr path names keys sels
      = Inr (concat (map (\<lambda>f. map (path_info \<circ> under (path, names, keys)) (leaf_paths tr (?e f))) fs))"
    by (simp add: fs(1) each del: Let_def)
  also have "concat (map (\<lambda>f. map (path_info \<circ> under (path, names, keys)) (leaf_paths tr (?e f))) fs)
      = map (path_info \<circ> under (path, names, keys)) (concat (map (leaf_paths tr) (map ?e fs)))"
    by (simp add: map_concat comp_def)
  finally show ?case unfolding fs(2) flat_leaf_paths_all .
qed simp

text \<open>
  C36: The paths of a query are exact.  For a document without fragment cycles and unknown fragments, in
  which no two fields of one selection set answer under the same key, extraction ends without an error
  for every sufficient recursion limit, and gives one path for each leaf of the selection set with its
  fragments written out, in their order: its JSON keys, its field names and its response keys.
\<close>

theorem flat_paths_exact:
  assumes "ranked fr rank" "closed_fragments fr" "ranks_below fr rank K (spreads_all sels)"
    and "distinct_keys (map (expand fr K) sels)" "total_nesting (map (expand fr K) sels) + K < k"
  shows "extract_flat_paths k tr fr [] [] [] sels = Inr (map path_info (concat (map (leaf_paths tr) (map (expand fr K) sels))))"
proof -
  have "path_info \<circ> under ([], [], []) = path_info" by (simp add: fun_eq_iff under_def)
  with extract_correct [OF assms, of tr "[]" "[]" "[]"] show ?thesis by simp
qed

text \<open>\<open>{ name ...F }  fragment F on User { m: machine { serialNumber } machine { name } }\<close>\<close>

definition machine_fragments :: fragments where
  "machine_fragments = [(''F'', ''User'', [Field (Some ''m'') ''machine'' [] (Some [Field None ''serialNumber'' [] None]),
     Field None ''machine'' [] (Some [Field None ''name'' [] None])])]"

definition machine_selection :: "selection list" where
  "machine_selection = [Field None ''name'' [] None, Spread ''F'']"

theorem flat_paths_exact_witness:
  "extract_flat_paths 9 to_snake_case machine_fragments [] [] [] machine_selection
   = Inr (map path_info
       [([''name''], [''name''], [''name'']),
        ([''machine'', ''serial_number''], [''machine'', ''serialNumber''], [''m'', ''serialNumber'']),
        ([''machine'', ''name''], [''machine'', ''name''], [''machine'', ''name''])])"
proof -
  have r: "ranked machine_fragments (\<lambda>_. 0)" "closed_fragments machine_fragments"
    by (auto simp: ranked_def closed_fragments_def machine_fragments_def split: if_splits)
  have b: "ranks_below machine_fragments (\<lambda>_. 0) 1 (spreads_all machine_selection)"
    by (simp add: ranks_below_def machine_selection_def machine_fragments_def)
  have d: "distinct_keys (map (expand machine_fragments 1) machine_selection)"
    "total_nesting (map (expand machine_fragments 1) machine_selection) + 1 < 9"
    "concat (map (leaf_paths to_snake_case) (map (expand machine_fragments 1) machine_selection)) =
       [([''name''], [''name''], [''name'']),
        ([''machine'', ''serial_number''], [''machine'', ''serialNumber''], [''m'', ''serialNumber'']),
        ([''machine'', ''name''], [''machine'', ''name''], [''machine'', ''name''])]"
    by code_simp+
  from flat_paths_exact [OF r b d(1,2), of to_snake_case] d(3) show ?thesis by simp
qed

text \<open>
  Without that condition a selection is lost: of two fields that answer under the same key only the
  first is kept, although GraphQL merges their selections.
\<close>

lemma merged_selection_lost:
  "extract_flat_paths 9 (\<lambda>s. s) [] [] [] []
     [Field None ''user'' [] (Some [Field None ''id'' [] None]), Field None ''user'' [] (Some [Field None ''name'' [] None])]
   = Inr [path_info ([''user'', ''id''], [''user'', ''id''], [''user'', ''id''])]"
  by code_simp

subsection \<open>The selection tree\<close>

lemma keep_first_keys:
  "distinct (map fst d) \<Longrightarrow> distinct (map fst (keep_first d kvs)) \<and> fst ` set (keep_first d kvs) = fst ` set d \<union> fst ` set kvs
     \<and> set (keep_first d kvs) \<subseteq> set d \<union> set kvs"
proof (induction d kvs rule: keep_first.induct)
  case (2 d k v kvs)
  show ?case
  proof (cases "map_of d k")
    case None
    then have "k \<notin> fst ` set d" by (simp add: map_of_eq_None_iff)
    with 2 None show ?thesis by auto
  next
    case (Some w)
    then have "k \<in> fst ` set d" by (metis map_of_eq_None_iff option.distinct(1))
    with 2 Some show ?thesis by auto
  qed
qed simp

definition selection_of :: "field_path_info \<Rightarrow> string list \<Rightarrow> nat \<Rightarrow> string list \<times> field_selection \<Rightarrow> bool" where
  "selection_of fp ks i ks_sel \<longleftrightarrow>
     fst ks_sel = take (Suc i) ks \<and> fs_path (snd ks_sel) = take (Suc i) (fp_path fp)
     \<and> fs_response_path (snd ks_sel) = Some (take (Suc i) ks) \<and> fs_alias (snd ks_sel) = ks ! i"

lemma path_selections_all:
  "list_all2 (selection_of fp ks) [i..<i + n] (path_selections sch fp (Some ks) current i n)"
proof (induction n arbitrary: i current)
  case (Suc n)
  have "selection_of fp ks i (segment_selection sch fp (Some ks) current i)"
    by (simp add: selection_of_def segment_selection_def Let_def split: prod.split)
  moreover have upt: "[i..<i + Suc n] = i # [Suc i..<Suc i + n]" by (simp add: upt_conv_Cons del: upt_Suc)
  ultimately show ?case unfolding upt path_selections.simps list.rel_inject(2) using Suc.IH by blast
qed simp

text \<open>
  C37: The selections are the prefixes of the paths, each once.  When every path has its response keys,
  the selection tree holds exactly one selection for each prefix of the response keys of a path, which
  is named by its last key and reads the JSON path of the same length.
\<close>

theorem selection_tree_exact:
  assumes "\<forall>fp \<in> set fps. output_keys by_alias fp \<noteq> None"
  shows "distinct (map fs_response_path (build_selection_tree fps sch parent by_alias))
    \<and> fs_response_path ` set (build_selection_tree fps sch parent by_alias)
       = {Some (take (Suc i) (the (output_keys by_alias fp))) | fp i. fp \<in> set fps \<and> i < length (fp_path fp)}
    \<and> list_all (\<lambda>sel. \<exists>fp \<in> set fps. \<exists>i < length (fp_path fp). fs_path sel = take (Suc i) (fp_path fp)
         \<and> fs_response_path sel = Some (take (Suc i) (the (output_keys by_alias fp))) \<and> fs_alias sel = the (output_keys by_alias fp) ! i)
       (build_selection_tree fps sch parent by_alias)"
proof -
  let ?ks = "\<lambda>fp. the (output_keys by_alias fp)"
  let ?sels = "\<lambda>fp. path_selections sch fp (output_keys by_alias fp) parent 0 (length (fp_path fp))"
  let ?all = "concat (map ?sels fps)"
  have each: "list_all2 (selection_of fp (?ks fp)) [0..<length (fp_path fp)] (?sels fp)" if "fp \<in> set fps" for fp
    using path_selections_all [of fp "?ks fp" 0 "length (fp_path fp)" sch parent] assms that by auto
  have from_all: "\<exists>fp \<in> set fps. \<exists>i < length (fp_path fp). selection_of fp (?ks fp) i p" if "p \<in> set ?all" for p
  proof -
    from that obtain fp where fp: "fp \<in> set fps" "p \<in> set (?sels fp)" by auto
    then obtain i where "i < length (?sels fp)" "p = ?sels fp ! i" by (auto simp: in_set_conv_nth)
    with each [OF fp(1)] have "i < length (fp_path fp)" "selection_of fp (?ks fp) i p" by (auto simp: list_all2_conv_all_nth)
    with fp(1) show ?thesis by blast
  qed
  define kept where "kept = keep_first [] ?all"
  have k: "distinct (map fst kept)" "fst ` set kept = fst ` set ?all" "set kept \<subseteq> set ?all"
    using keep_first_keys [of "[]" ?all] unfolding kept_def by simp_all
  have tree: "build_selection_tree fps sch parent by_alias = map snd kept" by (simp add: build_selection_tree_def kept_def)
  have resp: "fs_response_path (snd p) = Some (fst p)" if "p \<in> set ?all" for p
    using from_all [OF that] by (auto simp: selection_of_def)
  have same: "map fs_response_path (map snd kept) = map Some (map fst kept)"
    unfolding map_map comp_def using resp [OF subsetD [OF k(3)]] by (intro map_cong refl)
  have 1: "distinct (map fs_response_path (build_selection_tree fps sch parent by_alias))"
    unfolding tree same using k(1) distinct_map [of Some "map fst kept"] by simp
  have "fs_response_path ` set (build_selection_tree fps sch parent by_alias) = set (map fs_response_path (map snd kept))"
    unfolding tree list.set_map ..
  also have "\<dots> = Some ` fst ` set ?all" unfolding same list.set_map k(2) ..
  finally have keys: "fs_response_path ` set (build_selection_tree fps sch parent by_alias) = Some ` fst ` set ?all" .
  have "fst ` set ?all = {take (Suc i) (?ks fp) | fp i. fp \<in> set fps \<and> i < length (fp_path fp)}"
  proof (intro set_eqI iffI)
    fix k assume "k \<in> {take (Suc i) (?ks fp) | fp i. fp \<in> set fps \<and> i < length (fp_path fp)}"
    then obtain fp i where fp: "fp \<in> set fps" "i < length (fp_path fp)" "k = take (Suc i) (?ks fp)" by blast
    with each [OF fp(1)] have "selection_of fp (?ks fp) i (?sels fp ! i)" "?sels fp ! i \<in> set (?sels fp)"
      by (auto simp: list_all2_conv_all_nth)
    with fp show "k \<in> fst ` set ?all" by (force simp: selection_of_def)
  qed (use from_all in \<open>force simp: selection_of_def\<close>)
  with keys have 2: "fs_response_path ` set (build_selection_tree fps sch parent by_alias)
       = {Some (take (Suc i) (?ks fp)) | fp i. fp \<in> set fps \<and> i < length (fp_path fp)}" by auto
  have 3: "list_all (\<lambda>sel. \<exists>fp \<in> set fps. \<exists>i < length (fp_path fp). fs_path sel = take (Suc i) (fp_path fp)
         \<and> fs_response_path sel = Some (take (Suc i) (?ks fp)) \<and> fs_alias sel = ?ks fp ! i)
       (build_selection_tree fps sch parent by_alias)"
    unfolding tree list_all_iff using k(3) from_all by (fastforce simp: selection_of_def)
  from 1 2 3 show ?thesis by blast
qed

theorem selection_tree_exact_witness:
  "map fs_response_path (build_selection_tree
      (map path_info [([''machine'', ''serial_number''], [''machine'', ''serialNumber''], [''m'', ''serialNumber'']),
         ([''machine'', ''name''], [''machine'', ''name''], [''m'', ''name''])])
      \<lparr>gs_types = [], gs_query = None, gs_mutation = None, gs_subscription = None\<rparr> ''User'' True)
   = [Some [''m''], Some [''m'', ''serialNumber''], Some [''m'', ''name'']]
   \<and> distinct [Some [''m''], Some [''m'', ''serialNumber''], Some [''m'', ''name'']]"
proof (rule context_conjI)
  let ?fps = "map path_info [([''machine'', ''serial_number''], [''machine'', ''serialNumber''], [''m'', ''serialNumber'']),
         ([''machine'', ''name''], [''machine'', ''name''], [''m'', ''name''])]"
  show eq: "map fs_response_path (build_selection_tree ?fps \<lparr>gs_types = [], gs_query = None, gs_mutation = None, gs_subscription = None\<rparr> ''User'' True)
      = [Some [''m''], Some [''m'', ''serialNumber''], Some [''m'', ''name'']]" by code_simp
  have "\<forall>fp \<in> set ?fps. output_keys True fp \<noteq> None" by (simp add: output_keys_def path_info_def)
  from selection_tree_exact [OF this, of "\<lparr>gs_types = [], gs_query = None, gs_mutation = None, gs_subscription = None\<rparr>" "''User''"] eq
  show "distinct [Some [''m''], Some [''m'', ''serialNumber''], Some [''m'', ''name'']]" by simp
qed

end
