(* ===== verification/Authorization.thy ===== *)
theory Authorization
  imports PyValue
begin

section \<open>Operation authorization\<close>

text \<open>
  \<open>security/authorization.py\<close> and \<open>security/decision_cache.py\<close>: the decision of an authorizer, its
  enforcement, and the cache of decisions.  The authorizer is code of the application: what it answers
  is an argument.  A call is two steps, because the authorizer is awaited between them and calls of
  other requests run meanwhile: \<open>enforce_lookup\<close> up to the call of the authorizer, \<open>enforce_answer\<close> from
  its answer on.
\<close>

record decision =
  dc_allowed :: bool
  dc_code :: "string option"
  dc_message :: "string option"
  dc_filters :: "pydict option"

definition allow :: "pydict option \<Rightarrow> decision" where
  "allow filters = \<lparr>dc_allowed = True, dc_code = None, dc_message = None, dc_filters = filters\<rparr>"

definition deny :: "string \<Rightarrow> string option \<Rightarrow> decision" where
  "deny c message = \<lparr>dc_allowed = False, dc_code = Some c, dc_message = message, dc_filters = None\<rparr>"

definition DEFAULT_DENY_CODE :: string where "DEFAULT_DENY_CODE = ''FORBIDDEN''"
definition DEFAULT_DENY_MESSAGE :: string where "DEFAULT_DENY_MESSAGE = ''Operation not authorized''"

datatype verdict = Plain bool | Decided decision

datatype answer = Returned verdict | RaisedGraphQL string string | RaisedOther

fun normalize_decision :: "verdict \<Rightarrow> decision" where
  "normalize_decision (Decided d) = d"
| "normalize_decision (Plain b) = (if b then allow None else deny DEFAULT_DENY_CODE None)"

text \<open>An override of the operation replaces the default of the registry.\<close>

definition resolve_authorizer :: "'a option \<Rightarrow> 'a option \<Rightarrow> 'a option" where
  "resolve_authorizer own registry_default = (case own of Some a \<Rightarrow> Some a | None \<Rightarrow> registry_default)"

text \<open>
  The outcome of a call: the error with its message and code, or the decision.  \<open>''\<close> is a false value,
  so an empty message or code gives the default.
\<close>

record graphql_failure =
  gf_message :: string
  gf_code :: string

type_synonym enforcement = "graphql_failure + decision"

definition or_default :: "string option \<Rightarrow> string \<Rightarrow> string" where
  "or_default s d = (case s of None \<Rightarrow> d | Some t \<Rightarrow> if t = [] then d else t)"

definition raise_on_deny :: "decision \<Rightarrow> enforcement" where
  "raise_on_deny d =
     (if dc_allowed d then Inr d
      else Inl \<lparr>gf_message = or_default (dc_message d) DEFAULT_DENY_MESSAGE, gf_code = or_default (dc_code d) DEFAULT_DENY_CODE\<rparr>)"

subsection \<open>The cache of decisions\<close>

record 'c operation =
  op_context :: 'c
  op_type :: string
  op_name :: string
  op_arguments :: pydict

text \<open>
  \<open>json.dumps(arguments, sort_keys=True)\<close> sorts the keys of every dictionary; a value that is not
  JSON makes it raise.  The hash of the text is an argument.
\<close>

fun string_le :: "string \<Rightarrow> string \<Rightarrow> bool" where
  "string_le [] t = True"
| "string_le (c # s) [] = False"
| "string_le (c # s) (d # t) = ((of_char c :: nat) < of_char d \<or> c = d \<and> string_le s t)"

fun insert_key :: "string \<times> 'v \<Rightarrow> (string \<times> 'v) list \<Rightarrow> (string \<times> 'v) list" where
  "insert_key kv [] = [kv]"
| "insert_key kv (kv' # d) = (if string_le (fst kv) (fst kv') then kv # kv' # d else kv' # insert_key kv d)"

fun sort_keys :: "(string \<times> 'v) list \<Rightarrow> (string \<times> 'v) list" where
  "sort_keys [] = []"
| "sort_keys (kv # d) = insert_key kv (sort_keys d)"

function (sequential) sorted_value :: "pyval \<Rightarrow> pyval" where
  "sorted_value (PList vs) = PList (map sorted_value vs)"
| "sorted_value (PTuple vs) = PTuple (map sorted_value vs)"
| "sorted_value (PDict d) = PDict (sort_keys (map (\<lambda>p. (fst p, sorted_value (snd p))) d))"
| "sorted_value v = v"
  by pat_completeness auto
termination
proof (relation "measure size", goal_cases)
  case (4 d p)
  then have "size p \<le> size_list size d" for size :: "string \<times> pyval \<Rightarrow> nat"
    by (simp add: size_list_estimation')
  from this [of "size_prod (\<lambda>_. 0) size"] show ?case
    by (cases p) simp
qed (auto simp: size_list_estimation' less_Suc_eq_le)

definition stable_arguments_hash :: "(string \<Rightarrow> string) \<Rightarrow> pydict \<Rightarrow> string option" where
  "stable_arguments_hash digest arguments =
     (case json_dumps (sorted_value (PDict arguments)) of Inl _ \<Rightarrow> None | Inr s \<Rightarrow> Some (digest s))"

text \<open>The configuration; the hash function is the one of \<open>hashlib\<close>.\<close>

record ('c, 'p) cache_config =
  principal_key :: "'c \<Rightarrow> 'p option"
  ttl_seconds :: rat
  max_entries :: int
  cc_digest :: "string \<Rightarrow> string"

type_synonym 'p cache_key = "'p \<times> string \<times> string \<times> string"

text \<open>The entries from the least to the most recently used: key, expiry and decision.\<close>

type_synonym 'p cache_entries = "('p cache_key \<times> rat \<times> decision) list"

definition make_key :: "('c, 'p) cache_config \<Rightarrow> 'c operation \<Rightarrow> 'p cache_key option" where
  "make_key cfg rq =
     (case principal_key cfg (op_context rq) of
        None \<Rightarrow> None
      | Some p \<Rightarrow>
          (case stable_arguments_hash (cc_digest cfg) (op_arguments rq) of
             None \<Rightarrow> None
           | Some h \<Rightarrow> Some (p, op_type rq, op_name rq, h)))"

definition move_to_end :: "'k \<Rightarrow> ('k \<times> 'v) list \<Rightarrow> ('k \<times> 'v) list" where
  "move_to_end k es = (case map_of es k of None \<Rightarrow> es | Some v \<Rightarrow> AList.delete k es @ [(k, v)])"

definition cache_get :: "rat \<Rightarrow> 'p cache_key \<Rightarrow> 'p cache_entries \<Rightarrow> decision option \<times> 'p cache_entries" where
  "cache_get now k es =
     (case map_of es k of
        None \<Rightarrow> (None, es)
      | Some (expires_at, d) \<Rightarrow> if now \<ge> expires_at then (None, AList.delete k es) else (Some d, move_to_end k es))"

text \<open>\<open>popitem\<close> raises on an empty cache, which a negative bound leads to.\<close>

fun evict :: "int \<Rightarrow> 'p cache_entries \<Rightarrow> bool \<times> 'p cache_entries" where
  "evict bound [] = (bound \<ge> 0, [])"
| "evict bound (e # es) = (if int (length (e # es)) > bound then evict bound es else (True, e # es))"

definition cache_put :: "('c, 'p) cache_config \<Rightarrow> rat \<Rightarrow> 'p cache_key \<Rightarrow> decision \<Rightarrow> 'p cache_entries \<Rightarrow> bool \<times> 'p cache_entries" where
  "cache_put cfg now k d es = evict (max_entries cfg) (move_to_end k (AList.update k (now + ttl_seconds cfg, d) es))"

subsection \<open>Enforcement\<close>

text \<open>
  What happens before the authorizer is asked: no authorizer allows, a fresh entry is replayed.
  \<open>None\<close>: the authorizer is asked.
\<close>

definition enforce_lookup ::
  "bool \<Rightarrow> ('c, 'p) cache_config option \<Rightarrow> rat \<Rightarrow> 'c operation \<Rightarrow> 'p cache_entries \<Rightarrow> enforcement option \<times> 'p cache_entries" where
  "enforce_lookup has_authorizer cache now rq es =
     (if \<not> has_authorizer then (Some (Inr (allow None)), es)
      else case cache of
        None \<Rightarrow> (None, es)
      | Some cfg \<Rightarrow>
          (case make_key cfg rq of
             None \<Rightarrow> (None, es)
           | Some k \<Rightarrow> (case cache_get now k es of (r, es1) \<Rightarrow> (map_option raise_on_deny r, es1))))"

text \<open>A failure of the cache is handled like one of the authorizer.\<close>

definition enforce_answer ::
  "('c, 'p) cache_config option \<Rightarrow> rat \<Rightarrow> 'c operation \<Rightarrow> answer \<Rightarrow> 'p cache_entries \<Rightarrow> enforcement \<times> 'p cache_entries" where
  "enforce_answer cache now rq a es =
     (case a of
        RaisedGraphQL msg c \<Rightarrow> (Inl \<lparr>gf_message = msg, gf_code = c\<rparr>, es)
      | RaisedOther \<Rightarrow> (raise_on_deny (deny DEFAULT_DENY_CODE None), es)
      | Returned v \<Rightarrow>
          (case cache of
             None \<Rightarrow> (raise_on_deny (normalize_decision v), es)
           | Some cfg \<Rightarrow>
               (case make_key cfg rq of
                  None \<Rightarrow> (raise_on_deny (normalize_decision v), es)
                | Some k \<Rightarrow>
                    (case cache_put cfg now k (normalize_decision v) es of
                       (ok, es1) \<Rightarrow> (raise_on_deny (if ok then normalize_decision v else deny DEFAULT_DENY_CODE None), es1)))))"

text \<open>A call that nothing interrupts; \<open>asked\<close> and \<open>answered\<close> are the times of the two readings of the clock.\<close>

definition enforce_operation_value ::
  "('c operation \<Rightarrow> answer) option \<Rightarrow> ('c, 'p) cache_config option \<Rightarrow> rat \<Rightarrow> rat \<Rightarrow> 'c operation \<Rightarrow> 'p cache_entries
   \<Rightarrow> enforcement \<times> 'p cache_entries" where
  "enforce_operation_value authorizer cache asked answered rq es =
     (case enforce_lookup (authorizer \<noteq> None) cache asked rq es of
        (Some r, es1) \<Rightarrow> (r, es1)
      | (None, es1) \<Rightarrow> (case authorizer of Some f \<Rightarrow> enforce_answer cache answered rq (f rq) es1 | None \<Rightarrow> (Inr (allow None), es1)))"

end
