(* ===== verification/FieldAuth.thy ===== *)
theory FieldAuth
  imports Authorization GraphqlAst
begin

section \<open>Field authorization\<close>

text \<open>
  \<open>security/field_auth.py\<close>: permission checks and their combinations, the gate around the resolver of a
  field, and the enforcement for the paths that serve data without calling resolvers, which looks for
  the gated fields of a document.
\<close>

subsection \<open>Permission checks\<close>

text \<open>
  What a check gives after \<open>await\<close> when \<open>asyncio.iscoroutinefunction\<close> holds of it, else what the plain
  call gives: that may be an awaitable, from a callable object or a lambda.  As in the code, only a
  \<open>bool\<close> can be false: a decision and an awaitable are objects without a truth value of their own.
\<close>

datatype check_value = CheckBool bool | CheckDecision decision | CheckAwaitable

fun check_truth :: "check_value \<Rightarrow> bool" where
  "check_truth (CheckBool b) = b"
| "check_truth (CheckDecision d) = True"
| "check_truth CheckAwaitable = True"

record 'i permission_check =
  pc_async :: bool
  pc_call :: "'i \<Rightarrow> check_value result"

fun all_checks :: "'i permission_check list \<Rightarrow> 'i \<Rightarrow> bool result" where
  "all_checks [] i = Inr True"
| "all_checks (c # cs) i = rbind (pc_call c i) (\<lambda>v. if check_truth v then all_checks cs i else Inr False)"

fun some_check :: "'i permission_check list \<Rightarrow> 'i \<Rightarrow> bool result" where
  "some_check [] i = Inr False"
| "some_check (c # cs) i = rbind (pc_call c i) (\<lambda>v. if check_truth v then Inr True else some_check cs i)"

definition combine_permissions :: "'i permission_check list \<Rightarrow> 'i permission_check" where
  "combine_permissions cs =
     \<lparr>pc_async = list_ex pc_async cs, pc_call = (\<lambda>i. rbind (all_checks cs i) (\<lambda>b. Inr (CheckBool b)))\<rparr>"

definition any_permission :: "'i permission_check list \<Rightarrow> 'i permission_check" where
  "any_permission cs =
     \<lparr>pc_async = list_ex pc_async cs, pc_call = (\<lambda>i. rbind (some_check cs i) (\<lambda>b. Inr (CheckBool b)))\<rparr>"

definition FIELD_CODE :: string where "FIELD_CODE = ''FIELD_AUTHORIZATION_ERROR''"

definition decision_of :: "check_value \<Rightarrow> decision" where
  "decision_of v = (case v of CheckDecision d \<Rightarrow> d | _ \<Rightarrow> normalize_decision (Plain (check_truth v)))"

definition enforce_field_decision :: "check_value \<Rightarrow> string option \<Rightarrow> string \<Rightarrow> graphql_failure + unit" where
  "enforce_field_decision v error_message field =
     (let text = or_default error_message (''Not authorized to access field '' @ [CHR 0x27] @ field @ [CHR 0x27]) in
      if dc_allowed (decision_of v) then Inr ()
      else case v of
        CheckDecision d \<Rightarrow> Inl \<lparr>gf_message = or_default (dc_message d) text, gf_code = or_default (dc_code d) FIELD_CODE\<rparr>
      | _ \<Rightarrow> Inl \<lparr>gf_message = text, gf_code = FIELD_CODE\<rparr>)"

text \<open>An error that the check or the resolver raises, or the failure of the gate.\<close>

datatype field_error = CheckRaised py_error | FieldDenied graphql_failure

definition authorize_field ::
  "'i permission_check \<Rightarrow> string option \<Rightarrow> string \<Rightarrow> ('i \<Rightarrow> 'r result) \<Rightarrow> 'i \<Rightarrow> field_error + 'r" where
  "authorize_field check error_message field resolver i =
     (case pc_call check i of
        Inl e \<Rightarrow> Inl (CheckRaised e)
      | Inr v \<Rightarrow>
          (case enforce_field_decision v error_message field of
             Inl f \<Rightarrow> Inl (FieldDenied f)
           | Inr _ \<Rightarrow> (case resolver i of Inl e \<Rightarrow> Inl (CheckRaised e) | Inr r \<Rightarrow> Inr r)))"

subsection \<open>The default authorizer on a field\<close>

text \<open>
  The adapter awaits the answer: an authorizer that is not asynchronous makes it raise a \<open>TypeError\<close>,
  which denies like any other error.
\<close>

fun verdict_value :: "verdict \<Rightarrow> check_value" where
  "verdict_value (Plain b) = CheckBool b"
| "verdict_value (Decided d) = CheckDecision d"

definition field_authorizer_adapter :: "bool \<Rightarrow> answer \<Rightarrow> check_value result" where
  "field_authorizer_adapter asynchronous a =
     (case a of
        RaisedGraphQL m c \<Rightarrow> Inl GraphQLError
      | RaisedOther \<Rightarrow> Inr (CheckDecision (deny FIELD_CODE None))
      | Returned v \<Rightarrow> if asynchronous then Inr (verdict_value v) else Inr (CheckDecision (deny FIELD_CODE None)))"

definition field_operation :: "'c \<Rightarrow> string \<Rightarrow> pydict \<Rightarrow> 'c operation" where
  "field_operation ctx field arguments = \<lparr>op_context = ctx, op_type = ''field'', op_name = field, op_arguments = arguments\<rparr>"

definition field_lookup ::
  "bool \<Rightarrow> ('c, 'p) cache_config option \<Rightarrow> rat \<Rightarrow> 'c operation \<Rightarrow> 'p cache_entries \<Rightarrow> check_value option \<times> 'p cache_entries" where
  "field_lookup has_authorizer cache now rq es =
     (if \<not> has_authorizer then (Some (CheckBool True), es)
      else case cache of
        None \<Rightarrow> (None, es)
      | Some cfg \<Rightarrow>
          (case make_key cfg rq of
             None \<Rightarrow> (None, es)
           | Some k \<Rightarrow> (case cache_get now k es of (r, es1) \<Rightarrow> (map_option CheckDecision r, es1))))"

text \<open>A failure of \<open>cache.put\<close> is not caught here.\<close>

definition field_answer ::
  "bool \<Rightarrow> ('c, 'p) cache_config option \<Rightarrow> rat \<Rightarrow> 'c operation \<Rightarrow> answer \<Rightarrow> 'p cache_entries \<Rightarrow> check_value result \<times> 'p cache_entries" where
  "field_answer asynchronous cache now rq a es =
     (case field_authorizer_adapter asynchronous a of
        Inl e \<Rightarrow> (Inl e, es)
      | Inr v \<Rightarrow>
          (let d = (case v of CheckDecision d \<Rightarrow> d | _ \<Rightarrow> if check_truth v then allow None else deny FIELD_CODE None) in
           case cache of
             None \<Rightarrow> (Inr (CheckDecision d), es)
           | Some cfg \<Rightarrow>
               (case make_key cfg rq of
                  None \<Rightarrow> (Inr (CheckDecision d), es)
                | Some k \<Rightarrow> (case cache_put cfg now k d es of (ok, es1) \<Rightarrow> (if ok then Inr (CheckDecision d) else Inl KeyError, es1)))))"

text \<open>The gate around a resolver; \<open>r\<close> is what the resolver gives when it is called.\<close>

definition gate_field_resolver :: "check_value result \<Rightarrow> string \<Rightarrow> 'r result \<Rightarrow> field_error + 'r" where
  "gate_field_resolver v field r =
     (case v of
        Inl e \<Rightarrow> Inl (CheckRaised e)
      | Inr w \<Rightarrow>
          (case enforce_field_decision w None field of
             Inl f \<Rightarrow> Inl (FieldDenied f)
           | Inr _ \<Rightarrow> (case r of Inl e \<Rightarrow> Inl (CheckRaised e) | Inr x \<Rightarrow> Inr x)))"

subsection \<open>The requests that share the cache\<close>

datatype 'c auth_event =
  Asked "'c operation" rat
| Answered "'c operation" answer rat
| FieldAsked 'c string pydict rat
| FieldAnswered 'c string pydict bool answer rat

fun auth_step :: "('c, 'p) cache_config \<Rightarrow> 'c auth_event \<Rightarrow> 'p cache_entries \<Rightarrow> 'p cache_entries" where
  "auth_step cfg (Asked rq t) es = snd (enforce_lookup True (Some cfg) t rq es)"
| "auth_step cfg (Answered rq a t) es = snd (enforce_answer (Some cfg) t rq a es)"
| "auth_step cfg (FieldAsked ctx field args t) es = snd (field_lookup True (Some cfg) t (field_operation ctx field args) es)"
| "auth_step cfg (FieldAnswered ctx field args asynchronous a t) es =
     snd (field_answer asynchronous (Some cfg) t (field_operation ctx field args) a es)"

definition cache_after :: "('c, 'p) cache_config \<Rightarrow> 'c auth_event list \<Rightarrow> 'p cache_entries" where
  "cache_after cfg evs = fold (auth_step cfg) evs []"

subsection \<open>The gated fields of a document\<close>

text \<open>
  The identifier of a gated field is a table over type and field, the mark that the schema builder puts
  on the resolver.  Coercion of variables and arguments is that of \<open>graphql-core\<close>: the coerced variables
  of each operation and the function on arguments are parameters.
\<close>

record gate_env =
  ge_schema :: gql_schema
  ge_gates :: "string \<times> string \<Rightarrow> string option"
  ge_arguments :: "string \<Rightarrow> string \<Rightarrow> (string \<times> gql_value) list \<Rightarrow> pydict option \<Rightarrow> pydict result"

definition gate_of :: "gate_env \<Rightarrow> string option \<Rightarrow> string \<Rightarrow> string option" where
  "gate_of ge parent name =
     (case parent of
        None \<Rightarrow> None
      | Some p \<Rightarrow> (case field_of (ge_schema ge) (Some p) name of None \<Rightarrow> None | Some _ \<Rightarrow> ge_gates ge (p, name)))"

definition gated_arguments :: "gate_env \<Rightarrow> string option \<Rightarrow> string \<Rightarrow> (string \<times> gql_value) list \<Rightarrow> pydict option \<Rightarrow> pydict" where
  "gated_arguments ge parent name args vars =
     (case parent of None \<Rightarrow> [] | Some p \<Rightarrow> (case ge_arguments ge p name args vars of Inl _ \<Rightarrow> [] | Inr d \<Rightarrow> d))"

definition below_type :: "gql_schema \<Rightarrow> string option \<Rightarrow> string \<Rightarrow> string option" where
  "below_type sch parent name = map_option (\<lambda>fd. named_type (fd_type fd)) (field_of sch parent name)"

definition condition_type :: "gql_schema \<Rightarrow> string option \<Rightarrow> string option \<Rightarrow> string option" where
  "condition_type sch parent tc = (case tc of None \<Rightarrow> parent | Some t \<Rightarrow> get_type sch t)"

fun gated_in :: "gate_env \<Rightarrow> pydict option list \<Rightarrow> string option \<Rightarrow> selection \<Rightarrow> (string \<times> pydict) list" where
  "gated_in ge vars parent (Field a name args sub) =
     (case gate_of ge parent name of None \<Rightarrow> [] | Some g \<Rightarrow> map (\<lambda>v. (g, gated_arguments ge parent name args v)) vars)
     @ (case sub of None \<Rightarrow> [] | Some sels \<Rightarrow> concat (map (gated_in ge vars (below_type (ge_schema ge) parent name)) sels))"
| "gated_in ge vars parent (Inline tc sels) = concat (map (gated_in ge vars (condition_type (ge_schema ge) parent tc)) sels)"
| "gated_in ge vars parent (Spread n) = []"

definition operation_root :: "gql_schema \<Rightarrow> operation_type \<Rightarrow> string option" where
  "operation_root sch op = (case op of QueryOp \<Rightarrow> gs_query sch | MutationOp \<Rightarrow> gs_mutation sch | SubscriptionOp \<Rightarrow> gs_subscription sch)"

text \<open>In a fragment the variables of every operation are in scope, as any may spread it.\<close>

definition fragment_variables :: "pydict list \<Rightarrow> pydict option list" where
  "fragment_variables vs = (if vs = [] then [None] else map Some vs)"

fun gated_definitions :: "gate_env \<Rightarrow> pydict list \<Rightarrow> pydict list \<Rightarrow> gql_definition list \<Rightarrow> (string \<times> pydict) list" where
  "gated_definitions ge op_vars rest [] = []"
| "gated_definitions ge op_vars rest (OperationDef op name sels # ds) =
     concat (map (gated_in ge (map Some (take 1 rest)) (operation_root (ge_schema ge) op)) sels)
     @ gated_definitions ge op_vars (drop 1 rest) ds"
| "gated_definitions ge op_vars rest (FragmentDef n tc sels # ds) =
     concat (map (gated_in ge (fragment_variables op_vars) (get_type (ge_schema ge) tc)) sels)
     @ gated_definitions ge op_vars rest ds"
| "gated_definitions ge op_vars rest (OtherDef # ds) = gated_definitions ge op_vars rest ds"

text \<open>
  The entries are told apart by the identifier and the JSON text of the arguments, in which a value that
  JSON does not know stands as its \<open>str\<close>.
\<close>

fun json_default :: "pyval \<Rightarrow> pyval" where
  "json_default (PList vs) = PList (map json_default vs)"
| "json_default (PTuple vs) = PTuple (map json_default vs)"
| "json_default (PDict d) = PDict (map (map_prod id json_default) d)"
| "json_default PNone = PNone"
| "json_default (PBool b) = PBool b"
| "json_default (PInt i) = PInt i"
| "json_default (PFloat s) = PFloat s"
| "json_default (PStr s) = PStr s"
| "json_default v = PStr (py_str v)"

definition dedup_text :: "string \<times> pydict \<Rightarrow> string result" where
  "dedup_text e = rbind (json_dumps (sorted_value (json_default (PDict (snd e))))) (\<lambda>s. Inr (fst e @ CHR 0x00 # s))"

fun dedup_gated :: "string list \<Rightarrow> nat \<Rightarrow> (string \<times> pydict) list \<Rightarrow> (string \<times> pydict) list" where
  "dedup_gated seen n [] = []"
| "dedup_gated seen n (e # es) =
     (let k = (case dedup_text e of Inr s \<Rightarrow> s | Inl _ \<Rightarrow> fst e @ CHR 0x00 # int_str (int n)) in
      if k \<in> set seen then dedup_gated seen n es else e # dedup_gated (k # seen) (Suc n) es)"

definition iter_gated_selections :: "gate_env \<Rightarrow> gql_definition list \<Rightarrow> pydict list result \<Rightarrow> (string \<times> pydict) list result" where
  "iter_gated_selections ge document op_vars =
     rbind op_vars (\<lambda>vs. Inr (dedup_gated [] 0 (gated_definitions ge vs vs document)))"

text \<open>\<open>decide\<close> is the evaluation of the default authorizer on a field.\<close>

fun enforce_gated :: "(string \<times> pydict \<Rightarrow> check_value result) \<Rightarrow> (string \<times> pydict) list \<Rightarrow> field_error + unit" where
  "enforce_gated decide [] = Inr ()"
| "enforce_gated decide (e # es) =
     (case decide e of
        Inl err \<Rightarrow> Inl (CheckRaised err)
      | Inr v \<Rightarrow> (case enforce_field_decision v None (fst e) of Inl f \<Rightarrow> Inl (FieldDenied f) | Inr _ \<Rightarrow> enforce_gated decide es))"

definition enforce_selected_field_authorization ::
  "gate_env \<Rightarrow> bool \<Rightarrow> (string \<times> pydict \<Rightarrow> check_value result) \<Rightarrow> gql_definition list option \<Rightarrow> pydict list result \<Rightarrow> field_error + unit" where
  "enforce_selected_field_authorization ge has_authorizer decide document op_vars =
     (if \<not> has_authorizer then Inr ()
      else case document of
        None \<Rightarrow> Inr ()
      | Some ds \<Rightarrow>
          (case iter_gated_selections ge ds op_vars of
             Inl e \<Rightarrow> Inl (CheckRaised e)
           | Inr found \<Rightarrow> enforce_gated decide found))"

end
