(* ===== verification/FieldAuthProps.thy ===== *)
theory FieldAuthProps
  imports FieldAuth
begin

section \<open>Decisions are enforced\<close>

text \<open>
  The cache only holds decisions of the authorizer that are younger than the lifetime of an entry, an
  authorizer that is a function of the key cannot tell that there is a cache, and the search for gated
  fields misses none.
\<close>

subsection \<open>What the cache holds\<close>

text \<open>The decision that an answer gives, with its key and its time.\<close>

fun decides :: "('c, 'p) cache_config \<Rightarrow> 'c auth_event \<Rightarrow> 'p cache_key \<Rightarrow> decision \<Rightarrow> rat \<Rightarrow> bool" where
  "decides cfg (Answered rq a t) k d s = (s = t \<and> make_key cfg rq = Some k \<and> (\<exists>v. a = Returned v \<and> d = normalize_decision v))"
| "decides cfg (FieldAnswered ctx field args asynchronous a t) k d s =
     (s = t \<and> make_key cfg (field_operation ctx field args) = Some k)"
| "decides cfg _ k d s = False"

definition explained :: "('c, 'p) cache_config \<Rightarrow> 'c auth_event set \<Rightarrow> 'p cache_entries \<Rightarrow> bool" where
  "explained cfg evs es \<longleftrightarrow> (\<forall>k e d. (k, e, d) \<in> set es \<longrightarrow> (\<exists>ev \<in> evs. \<exists>t. decides cfg ev k d t \<and> e = t + ttl_seconds cfg))"

definition bounded_cache :: "('c, 'p) cache_config \<Rightarrow> 'p cache_entries \<Rightarrow> bool" where
  "bounded_cache cfg es \<longleftrightarrow> distinct (map fst es) \<and> length es \<le> nat (max_entries cfg)"

lemma evict_drop: "snd (evict bound es) = drop (length es - nat bound) es"
  by (induction es) (auto simp: Suc_diff_le nat_le_iff)

lemma evict_ok: "bound \<ge> 0 \<Longrightarrow> fst (evict bound es)"
  by (induction es) auto

lemma delete_entries: "set (AList.delete k es) = {e \<in> set es. fst e \<noteq> k}"
  by (auto simp: AList.delete_eq)

lemma move_to_end_set: "distinct (map fst es) \<Longrightarrow> set (move_to_end k es) = set es"
  by (auto simp: move_to_end_def delete_entries split: option.splits dest: map_of_SomeD eq_key_imp_eq_value)

lemma move_to_end_keys:
  "distinct (map fst es) \<Longrightarrow> distinct (map fst (move_to_end k es)) \<and> length (move_to_end k es) = length es"
proof (cases "map_of es k")
  case (Some v)
  assume d: "distinct (map fst es)"
  have "length (AList.delete k es) = length es - 1" using d Some
  proof (induction es)
    case (Cons e es)
    then show ?case
    proof (cases "k = fst e")
      case True
      with Cons.prems have "map_of es k = None" by (simp add: map_of_eq_None_iff)
      then have "AList.delete k es = es" by (simp add: delete_idem map_of_eq_None_iff image_image)
      with True show ?thesis by (cases e) simp
    next
      case False
      with Cons have "map_of es k = Some v" by (cases e) simp
      with Cons have "length (AList.delete k es) = length es - 1" "es \<noteq> []" by auto
      with False show ?thesis by (cases e; cases es) simp_all
    qed
  qed simp
  moreover have "es \<noteq> []" using Some by auto
  ultimately show ?thesis using d Some distinct_delete [of es k] by (auto simp: move_to_end_def delete_keys)
qed (simp add: move_to_end_def)

lemma delete_bounded: "bounded_cache cfg es \<Longrightarrow> bounded_cache cfg (AList.delete k es)"
  by (meson bounded_cache_def distinct_delete length_delete_le order_trans)

lemma cache_get_inv:
  assumes "explained cfg evs es" "bounded_cache cfg es"
  shows "explained cfg evs (snd (cache_get now k es)) \<and> bounded_cache cfg (snd (cache_get now k es))"
  using assms move_to_end_set [of es k] move_to_end_keys [of es k] delete_bounded [of cfg es k]
  by (auto simp: cache_get_def explained_def bounded_cache_def delete_entries split: option.splits prod.splits)

lemma cache_get_hit: "fst (cache_get now k es) = Some d \<Longrightarrow> \<exists>e. (k, e, d) \<in> set es \<and> now < e"
  by (auto simp: cache_get_def split: option.splits prod.splits if_splits dest: map_of_SomeD)

lemma cache_put_inv:
  assumes "explained cfg evs es" "bounded_cache cfg es" "ev \<in> evs" "decides cfg ev k d now"
  shows "explained cfg evs (snd (cache_put cfg now k d es)) \<and> bounded_cache cfg (snd (cache_put cfg now k d es))"
proof -
  let ?es1 = "AList.update k (now + ttl_seconds cfg, d) es"
  have d: "distinct (map fst ?es1)" using assms(2) by (simp add: bounded_cache_def distinct_update)
  have "set (snd (cache_put cfg now k d es)) \<subseteq> set ?es1"
    using move_to_end_set [OF d] set_drop_subset by (fastforce simp: cache_put_def evict_drop)
  moreover have "set ?es1 \<subseteq> insert (k, now + ttl_seconds cfg, d) (set es)"
    by (induction es) auto
  ultimately have "explained cfg evs (snd (cache_put cfg now k d es))" using assms(1,3,4) by (fastforce simp: explained_def)
  moreover have "bounded_cache cfg (snd (cache_put cfg now k d es))"
    using move_to_end_keys [OF d, of k] by (simp add: cache_put_def evict_drop bounded_cache_def drop_map [symmetric])
  ultimately show ?thesis by blast
qed

lemma auth_step_inv:
  assumes "explained cfg evs es" "bounded_cache cfg es" "ev \<in> evs"
  shows "explained cfg evs (auth_step cfg ev es) \<and> bounded_cache cfg (auth_step cfg ev es)"
proof (cases ev)
  case (Asked rq t)
  with assms cache_get_inv show ?thesis
    by (simp add: enforce_lookup_def case_prod_beta split: option.splits) blast
next
  case (Answered rq a t)
  show ?thesis
  proof (cases a)
    case (Returned v)
    have "decides cfg ev k (normalize_decision v) t" if "make_key cfg rq = Some k" for k
      using that Answered Returned by simp
    with cache_put_inv [OF assms(1,2,3)] Answered Returned assms show ?thesis
      by (simp add: enforce_answer_def case_prod_beta split: option.splits)
  qed (use assms Answered in \<open>simp_all add: enforce_answer_def\<close>)
next
  case (FieldAsked ctx field args t)
  with assms cache_get_inv show ?thesis
    by (simp add: field_lookup_def case_prod_beta split: option.splits) blast
next
  case (FieldAnswered ctx field args asynchronous a t)
  then have "decides cfg ev k d t" if "make_key cfg (field_operation ctx field args) = Some k" for k d
    using that by simp
  with cache_put_inv [OF assms(1,2,3)] FieldAnswered assms show ?thesis
    by (simp add: field_answer_def Let_def case_prod_beta split: sum.splits option.splits)
qed

lemma cache_after_inv: "explained cfg (set evs) (cache_after cfg evs) \<and> bounded_cache cfg (cache_after cfg evs)"
proof -
  have "explained cfg E (fold (auth_step cfg) evs es) \<and> bounded_cache cfg (fold (auth_step cfg) evs es)"
    if "set evs \<subseteq> E" "explained cfg E es" "bounded_cache cfg es" for E es
    using that
  proof (induction evs arbitrary: es)
    case (Cons ev evs)
    then show ?case using auth_step_inv [of cfg E es ev] by simp
  qed simp
  from this [of "set evs" "[]"] show ?thesis by (simp add: cache_after_def explained_def bounded_cache_def)
qed

lemma make_key_type: "make_key cfg rq = Some k \<Longrightarrow> fst (snd k) = op_type rq"
  by (auto simp: make_key_def split: option.splits)

lemma cached_decision:
  assumes "fst (cache_get now k (cache_after cfg evs)) = Some d" "make_key cfg rq = Some k" "op_type rq \<noteq> ''field''"
  shows "\<exists>rq' v t. Answered rq' (Returned v) t \<in> set evs \<and> make_key cfg rq' = Some k \<and> d = normalize_decision v \<and> now < t + ttl_seconds cfg"
proof -
  obtain e where e: "(k, e, d) \<in> set (cache_after cfg evs)" "now < e" using cache_get_hit [OF assms(1)] by blast
  with cache_after_inv obtain ev t where ev: "ev \<in> set evs" "decides cfg ev k d t" "e = t + ttl_seconds cfg"
    unfolding explained_def by blast
  have "fst (snd k) \<noteq> ''field''" using make_key_type [OF assms(2)] assms(3) by simp
  with ev e(2) show ?thesis
    by - (cases ev, auto simp: field_operation_def dest: make_key_type)
qed

lemma raise_on_deny_Inr: "raise_on_deny d = Inr d' \<longleftrightarrow> d' = d \<and> dc_allowed d"
  by (auto simp: raise_on_deny_def)

text \<open>
  C3: An operation runs only if the authorizer allows it.  When an authorizer is configured and a call
  gives a decision (so the resolver runs), the decision is one that the authorizer returned and that
  allows: now, for this very call, or less than the lifetime of a cache entry ago for a call with the
  same key, whatever calls of operations and fields ran before and however they interleaved.  An
  authorizer that raises never lets an operation run, now or later.
\<close>

theorem allowed_is_decided:
  assumes "fst (enforce_operation_value (Some f) (Some cfg) asked answered rq (cache_after cfg evs)) = Inr d"
    and "op_type rq \<noteq> ''field''"
  shows "dc_allowed d \<and>
    ((\<exists>v. f rq = Returned v \<and> d = normalize_decision v)
     \<or> (\<exists>rq' v t. Answered rq' (Returned v) t \<in> set evs \<and> make_key cfg rq' = make_key cfg rq \<and> make_key cfg rq \<noteq> None
          \<and> d = normalize_decision v \<and> asked < t + ttl_seconds cfg))"
proof (cases "enforce_lookup True (Some cfg) asked rq (cache_after cfg evs)")
  case (Pair r es)
  show ?thesis
  proof (cases r)
    case None
    with Pair assms(1) have "fst (enforce_answer (Some cfg) answered rq (f rq) es) = Inr d"
      by (simp add: enforce_operation_value_def)
    then show ?thesis
      by (cases "f rq") (auto simp: enforce_answer_def raise_on_deny_Inr deny_def split: option.splits prod.splits if_splits)
  next
    case (Some out)
    with Pair assms(1) have "out = Inr d" by (simp add: enforce_operation_value_def)
    with Some Pair obtain k where k: "make_key cfg rq = Some k" "fst (cache_get asked k (cache_after cfg evs)) = Some d" "dc_allowed d"
      by (auto simp: enforce_lookup_def raise_on_deny_Inr split: option.splits prod.splits)
    from cached_decision [OF k(2,1) assms(2)] k show ?thesis by auto
  qed
qed

text \<open>
  C6: The cache cannot be observed.  If the authorizer answers calls with equal keys alike, and the
  answers seen so far are its own, then a call with the cache has the outcome of a call without it, at
  any time, after any interleaving of other calls.
\<close>

theorem cache_is_transparent:
  assumes "\<And>rq rq' k. make_key cfg rq = Some k \<Longrightarrow> make_key cfg rq' = Some k \<Longrightarrow> f rq = f rq'"
    and "\<And>rq a t. Answered rq a t \<in> set evs \<Longrightarrow> a = f rq"
    and "op_type rq \<noteq> ''field''" "max_entries cfg \<ge> 0"
  shows "fst (enforce_operation_value (Some f) (Some cfg) asked answered rq (cache_after cfg evs))
       = fst (enforce_operation_value (Some f) None asked answered rq ([] :: 'p cache_entries))"
proof (cases "enforce_lookup True (Some cfg) asked rq (cache_after cfg evs)")
  case (Pair r es)
  have plain: "fst (enforce_operation_value (Some f) None asked answered rq ([] :: 'p cache_entries)) = fst (enforce_answer (Some cfg) answered rq (f rq) es')" for es'
    using evict_ok [OF assms(4)]
    by (cases "f rq") (auto simp: enforce_operation_value_def enforce_lookup_def enforce_answer_def cache_put_def case_prod_beta split: option.splits)
  show ?thesis
  proof (cases r)
    case None
    with Pair have "fst (enforce_operation_value (Some f) (Some cfg) asked answered rq (cache_after cfg evs)) = fst (enforce_answer (Some cfg) answered rq (f rq) es)"
      by (simp add: enforce_operation_value_def)
    with plain show ?thesis by simp
  next
    case (Some out)
    with Pair obtain k d where k: "make_key cfg rq = Some k" "fst (cache_get asked k (cache_after cfg evs)) = Some d" "out = raise_on_deny d"
      by (auto simp: enforce_lookup_def split: option.splits prod.splits)
    then obtain rq' v t where rq': "Answered rq' (Returned v) t \<in> set evs" "make_key cfg rq' = Some k" "d = normalize_decision v"
      using cached_decision [OF k(2,1) assms(3)] by blast
    then have "f rq = Returned v" using assms(1) [OF k(1) rq'(2)] assms(2) [OF rq'(1)] by simp
    then have "fst (enforce_operation_value (Some f) None asked answered rq ([] :: 'p cache_entries)) = raise_on_deny d"
      by (simp add: enforce_operation_value_def enforce_lookup_def enforce_answer_def rq'(3))
    with Some Pair k(3) show ?thesis by (simp add: enforce_operation_value_def)
  qed
qed

subsection \<open>No gated field is missed\<close>

text \<open>
  The fields that a selection set selects, in itself, in inline fragments and in the fragments it
  spreads, each with the type it is selected on.
\<close>

inductive selected :: "gql_schema \<Rightarrow> fragments \<Rightarrow> string option \<Rightarrow> selection list \<Rightarrow> string option \<Rightarrow> string \<Rightarrow> (string \<times> gql_value) list \<Rightarrow> bool"
  for sch fr where
  here: "Field a name args sub \<in> set sels \<Longrightarrow> selected sch fr p sels p name args"
| below: "Field a n as (Some sub) \<in> set sels \<Longrightarrow> selected sch fr (below_type sch p n) sub q name args \<Longrightarrow> selected sch fr p sels q name args"
| inline: "Inline tc sub \<in> set sels \<Longrightarrow> selected sch fr (condition_type sch p tc) sub q name args \<Longrightarrow> selected sch fr p sels q name args"
| spread: "Spread n \<in> set sels \<Longrightarrow> map_of fr n = Some (tc, sub) \<Longrightarrow> selected sch fr (get_type sch tc) sub q name args \<Longrightarrow> selected sch fr p sels q name args"

definition gate_entry :: "gate_env \<Rightarrow> pydict option \<Rightarrow> string option \<Rightarrow> string \<Rightarrow> (string \<times> gql_value) list \<Rightarrow> string \<Rightarrow> string \<times> pydict" where
  "gate_entry ge v q name args g = (g, gated_arguments ge q name args v)"

lemma selected_gated:
  assumes "selected (ge_schema ge) fr p sels q name args" "gate_of ge q name = Some g" "v \<in> set vars"
    and "\<And>n tc sub. map_of fr n = Some (tc, sub) \<Longrightarrow> \<exists>vars'. v \<in> set vars' \<and>
           set (concat (map (gated_in ge vars' (get_type (ge_schema ge) tc)) sub)) \<subseteq> found"
    and "set (concat (map (gated_in ge vars p) sels)) \<subseteq> found"
  shows "gate_entry ge v q name args g \<in> found"
  using assms(1,2,3,5)
proof (induction arbitrary: vars)
  case (here a name args sub sels p)
  then have "gate_entry ge v p name args g \<in> set (gated_in ge vars p (Field a name args sub))"
    by (auto simp: gate_entry_def)
  with here show ?case by (fastforce simp del: gated_in.simps)
next
  case (below a n as sub sels p q name args)
  have "set (concat (map (gated_in ge vars (below_type (ge_schema ge) p n)) sub)) \<subseteq> set (gated_in ge vars p (Field a n as (Some sub)))"
    by auto
  also have "\<dots> \<subseteq> set (concat (map (gated_in ge vars p) sels))" using below.hyps(1) by (auto simp del: gated_in.simps)
  finally show ?case using below by blast
next
  case (inline tc sub sels p q name args)
  have "set (concat (map (gated_in ge vars (condition_type (ge_schema ge) p tc)) sub)) \<subseteq> set (gated_in ge vars p (Inline tc sub))"
    by auto
  also have "\<dots> \<subseteq> set (concat (map (gated_in ge vars p) sels))" using inline.hyps(1) by (auto simp del: gated_in.simps)
  finally show ?case using inline by blast
next
  case (spread n sels tc sub q name args p)
  from assms(4) [OF spread.hyps(2)] obtain vars' where
    "v \<in> set vars'" "set (concat (map (gated_in ge vars' (get_type (ge_schema ge) tc)) sub)) \<subseteq> found" by blast
  with spread show ?case by blast
qed

lemma gated_definitions_fragment:
  "FragmentDef n tc sub \<in> set ds \<Longrightarrow>
   set (concat (map (gated_in ge (fragment_variables vs) (get_type (ge_schema ge) tc)) sub)) \<subseteq> set (gated_definitions ge vs rest ds)"
  by (induction ge vs rest ds rule: gated_definitions.induct) (auto simp del: gated_in.simps)

definition operations_with :: "pydict list \<Rightarrow> gql_definition list \<Rightarrow> (gql_definition \<times> pydict) list" where
  "operations_with vs ds = zip (filter (\<lambda>d. case d of OperationDef _ _ _ \<Rightarrow> True | _ \<Rightarrow> False) ds) vs"

lemma gated_definitions_operation:
  "(OperationDef op name sels, v) \<in> set (operations_with rest ds) \<Longrightarrow>
   set (concat (map (gated_in ge [Some v] (operation_root (ge_schema ge) op)) sels)) \<subseteq> set (gated_definitions ge vs rest ds)"
proof (induction ge vs rest ds rule: gated_definitions.induct)
  case (2 ge vs rest op' name' sels' ds)
  then show ?case by (cases rest) (auto simp: operations_with_def)
qed (auto simp: operations_with_def)

lemma fragments_of_def_in: "map_of (fragments_of ds) n = Some (tc, sub) \<Longrightarrow> FragmentDef n tc sub \<in> set ds"
  by (auto simp: fragments_of_def dest!: map_of_SomeD split: gql_definition.splits)

lemma set_sort_keys: "set (sort_keys d) = set d"
proof -
  have "set (insert_key kv d) = insert kv (set d)" for kv :: "string \<times> 'a" and d
    by (induction d) auto
  then show ?thesis by (induction d) auto
qed

lemma json_default_total: "\<exists>s. json_dumps (sorted_value (json_default v)) = Inr s"
proof (induction v rule: json_default.induct)
  case (1 vs)
  then have "\<exists>ys. map_result json_dumps (map sorted_value (map json_default vs)) = Inr ys" by (intro map_result_total) auto
  then show ?case by auto
next
  case (2 vs)
  then have "\<exists>ys. map_result json_dumps (map sorted_value (map json_default vs)) = Inr ys" by (intro map_result_total) auto
  then show ?case by auto
next
  case (3 d)
  let ?d = "sort_keys (map (\<lambda>p. (fst p, sorted_value (snd p))) (map (map_prod id json_default) d))"
  have "\<exists>s. json_dumps (snd p) = Inr s" if "p \<in> set ?d" for p
    using that 3 by (fastforce simp: set_sort_keys map_prod_def)
  then have "\<exists>ys. map_result (\<lambda>p. rbind (json_dumps (snd p)) (\<lambda>s. Inr (json_str (fst p) @ '': '' @ s))) ?d = Inr ys"
    by (intro map_result_total) fastforce
  then show ?case by auto
qed auto

lemma dedup_text_total: "\<exists>t. dedup_text e = Inr t"
  using json_default_total [of "PDict (snd e)"] by (auto simp: dedup_text_def simp del: json_default.simps sorted_value.simps)

lemma dedup_gated_complete:
  "e \<in> set es \<Longrightarrow> dedup_text e = Inr t \<Longrightarrow> t \<in> set seen \<or> (\<exists>e' \<in> set (dedup_gated seen n es). dedup_text e' = Inr t)"
proof (induction es arbitrary: seen n)
  case (Cons x es)
  obtain k where k: "dedup_text x = Inr k" using dedup_text_total by blast
  from Cons.prems consider "e = x" | "e \<in> set es" by auto
  then show ?case
  proof cases
    case 1
    with k Cons.prems show ?thesis by simp
  next
    case 2
    from Cons.IH [OF this Cons.prems(2), of seen n] Cons.IH [OF this Cons.prems(2), of "k # seen" "Suc n"] k show ?thesis
      by auto
  qed
qed simp

lemma enforce_gated_all:
  "enforce_gated decide es = Inr () \<Longrightarrow> e \<in> set es \<Longrightarrow> \<exists>v. decide e = Inr v \<and> enforce_field_decision v None (fst e) = Inr ()"
  by (induction es) (auto split: sum.splits)

lemma enforce_field_decision_iff: "enforce_field_decision v m field = Inr () \<longleftrightarrow> dc_allowed (decision_of v)"
  by (auto simp: enforce_field_decision_def Let_def split: check_value.splits)

text \<open>
  C5: The paths that serve data without calling resolvers enforce the gates of the types that a document
  selects on.  When the enforcement lets a document pass and the decision on a field depends on its arguments
  only through their JSON text, then for every operation of the document and every field that it selects,
  directly, in an inline fragment or in a fragment, on a type that has a gate for it, the gate around the
  resolver of that field, called with the arguments under the variables of the operation, lets the
  resolver run.  An interface has no gates: see \<open>interface_escapes_gate\<close>.
\<close>

theorem bypass_enforces_gates:
  assumes "enforce_selected_field_authorization ge True decide (Some ds) (Inr vs) = Inr ()"
    and "(OperationDef op nm sels, v) \<in> set (operations_with vs ds)"
    and "selected (ge_schema ge) (fragments_of ds) (operation_root (ge_schema ge) op) sels q name args"
    and "gate_of ge q name = Some g"
    and "\<And>e e'. dedup_text e = dedup_text e' \<Longrightarrow> decide e = decide e'"
  shows "gate_field_resolver (decide (g, gated_arguments ge q name args (Some v))) g (Inr r) = Inr r"
proof -
  let ?found = "gated_definitions ge vs vs ds" and ?e = "(g, gated_arguments ge q name args (Some v))"
  have v: "v \<in> set vs" using assms(2) by (auto simp: operations_with_def dest: set_zip_rightD)
  have "gate_entry ge (Some v) q name args g \<in> set ?found"
  proof (rule selected_gated [OF assms(3,4)])
    show "set (concat (map (gated_in ge [Some v] (operation_root (ge_schema ge) op)) sels)) \<subseteq> set ?found"
      by (rule gated_definitions_operation [OF assms(2)])
    fix n tc sub
    assume "map_of (fragments_of ds) n = Some (tc, sub)"
    then have "FragmentDef n tc sub \<in> set ds" by (rule fragments_of_def_in)
    moreover have "Some v \<in> set (fragment_variables vs)" using v by (auto simp: fragment_variables_def)
    ultimately show "\<exists>vars'. Some v \<in> set vars' \<and> set (concat (map (gated_in ge vars' (get_type (ge_schema ge) tc)) sub)) \<subseteq> set ?found"
      using gated_definitions_fragment by blast
  qed simp
  then have e: "?e \<in> set ?found" by (simp add: gate_entry_def)
  obtain t where t: "dedup_text ?e = Inr t" using dedup_text_total by blast
  from dedup_gated_complete [OF e t, of "[]" 0] obtain e' where e': "e' \<in> set (dedup_gated [] 0 ?found)" "dedup_text e' = Inr t" by auto
  have "enforce_gated decide (dedup_gated [] 0 ?found) = Inr ()"
    using assms(1) by (simp add: enforce_selected_field_authorization_def iter_gated_selections_def)
  from enforce_gated_all [OF this e'(1)] obtain w where "decide e' = Inr w" "enforce_field_decision w None (fst e') = Inr ()" by blast
  moreover have "decide ?e = decide e'" using assms(5) t e'(2) by simp
  moreover from calculation(2) have "enforce_field_decision w None g = Inr ()" by (simp only: enforce_field_decision_iff)
  ultimately show ?thesis by (simp add: gate_field_resolver_def)
qed

subsection \<open>Instances\<close>

text \<open>A cache whose principal is the context, and two calls of one user.\<close>

definition small_cache :: "(string, string) cache_config" where
  "small_cache = \<lparr>principal_key = Some, ttl_seconds = 5, max_entries = 2, cc_digest = id\<rparr>"

definition users_call :: "string operation" where
  "users_call = \<lparr>op_context = ''alice'', op_type = ''query'', op_name = ''users'', op_arguments = [(''limit'', PInt 3)]\<rparr>"

definition only_alice :: "string operation \<Rightarrow> answer" where
  "only_alice rq = Returned (Plain (op_context rq = ''alice''))"

definition earlier_calls :: "string auth_event list" where
  "earlier_calls = [Asked users_call 0, FieldAsked ''bob'' ''User.email'' [] 0, Answered users_call (only_alice users_call) 1,
     FieldAnswered ''bob'' ''User.email'' [] True (Returned (Plain False)) 2]"

lemma cached_call:
  "fst (enforce_operation_value (Some only_alice) (Some small_cache) 3 4 users_call (cache_after small_cache earlier_calls)) = Inr (allow None)"
  by code_simp

theorem allowed_is_decided_witness:
  "dc_allowed (allow None) \<and>
    ((\<exists>v. only_alice users_call = Returned v \<and> allow None = normalize_decision v)
     \<or> (\<exists>rq' v t. Answered rq' (Returned v) t \<in> set earlier_calls \<and> make_key small_cache rq' = make_key small_cache users_call
          \<and> make_key small_cache users_call \<noteq> None \<and> allow None = normalize_decision v \<and> 3 < t + ttl_seconds small_cache))"
proof (rule allowed_is_decided [OF cached_call])
  show "op_type users_call \<noteq> ''field''" by (simp add: users_call_def)
qed

theorem cache_is_transparent_witness:
  "fst (enforce_operation_value (Some only_alice) (Some small_cache) 3 4 users_call (cache_after small_cache earlier_calls))
     = fst (enforce_operation_value (Some only_alice) None 3 4 users_call ([] :: string cache_entries))"
proof (rule cache_is_transparent)
  show "op_type users_call \<noteq> ''field''" by (simp add: users_call_def)
  show "max_entries small_cache \<ge> 0" by (simp add: small_cache_def)
  show "a = only_alice rq" if "Answered rq a t \<in> set earlier_calls" for rq a t
    using that by (auto simp: earlier_calls_def)
  show "only_alice rq = only_alice rq'" if "make_key small_cache rq = Some k" "make_key small_cache rq' = Some k" for rq rq' k
    using that by (auto simp: make_key_def small_cache_def only_alice_def split: option.splits)
qed

text \<open>\<open>{ users { ...U } }  fragment U on User { email }\<close>, with \<open>User.email\<close> gated.\<close>

definition user_schema :: gql_schema where
  "user_schema = \<lparr>gs_types =
     [(''Query'', ObjectType [(''users'', \<lparr>fd_type = ListType (NamedType ''User''), fd_args = []\<rparr>),
                              (''nodes'', \<lparr>fd_type = ListType (NamedType ''Node''), fd_args = []\<rparr>)]),
      (''User'', ObjectType [(''email'', \<lparr>fd_type = NamedType ''String'', fd_args = []\<rparr>)]),
      (''Node'', InterfaceType [(''email'', \<lparr>fd_type = NamedType ''String'', fd_args = []\<rparr>)]),
      (''String'', PlainType)],
     gs_query = Some ''Query'', gs_mutation = None, gs_subscription = None\<rparr>"

definition user_gates :: gate_env where
  "user_gates = \<lparr>ge_schema = user_schema,
     ge_gates = (\<lambda>x. if x = (''User'', ''email'') then Some ''User.email'' else None),
     ge_arguments = (\<lambda>p n args v. Inr [])\<rparr>"

definition email_query :: "gql_definition list" where
  "email_query = [OperationDef QueryOp None [Field None ''users'' [] (Some [Spread ''U''])],
                  FragmentDef ''U'' ''User'' [Field None ''email'' [] None]]"

definition admits_email :: "string \<times> pydict \<Rightarrow> check_value result" where
  "admits_email e = Inr (CheckBool True)"

theorem bypass_enforces_gates_witness:
  "gate_field_resolver (admits_email (''User.email'', gated_arguments user_gates (Some ''User'') ''email'' [] (Some []))) ''User.email''
     (Inr (PStr ''a@x'')) = Inr (PStr ''a@x'')"
proof (rule bypass_enforces_gates)
  show "enforce_selected_field_authorization user_gates True admits_email (Some email_query) (Inr [[]]) = Inr ()" by code_simp
  show "(OperationDef QueryOp None [Field None ''users'' [] (Some [Spread ''U''])], []) \<in> set (operations_with [[]] email_query)"
    by (simp add: operations_with_def email_query_def)
  show "gate_of user_gates (Some ''User'') ''email'' = Some ''User.email''" by code_simp
  show "admits_email e = admits_email e'" for e e' by (simp add: admits_email_def)
  have f: "map_of (fragments_of email_query) ''U'' = Some (''User'', [Field None ''email'' [] None])" by code_simp
  have "get_type (ge_schema user_gates) ''User'' = Some ''User''" by code_simp
  then have "selected (ge_schema user_gates) (fragments_of email_query) (get_type (ge_schema user_gates) ''User'')
      [Field None ''email'' [] None] (Some ''User'') ''email'' []"
    by (auto intro: selected.here)
  from selected.spread [OF _ f this, where sels = "[Spread ''U'']" and p = "below_type (ge_schema user_gates) (Some ''Query'') ''users''"]
  have "selected (ge_schema user_gates) (fragments_of email_query) (below_type (ge_schema user_gates) (Some ''Query'') ''users'')
      [Spread ''U''] (Some ''User'') ''email'' []" by simp
  from selected.below [OF _ this, where sels = "[Field None ''users'' [] (Some [Spread ''U''])]" and a = None and as = "[]"]
  show "selected (ge_schema user_gates) (fragments_of email_query) (operation_root (ge_schema user_gates) QueryOp)
      [Field None ''users'' [] (Some [Spread ''U''])] (Some ''User'') ''email'' []"
    by (simp add: operation_root_def user_gates_def user_schema_def)
qed

subsection \<open>Where the gates are open\<close>

text \<open>
  A gate is a mark on the field of an object type.  The enforcement of the bypass paths looks at the
  type that a field is selected on: a document that selects the field on an interface passes, and the
  answer holds the field of the objects whose resolver is gated.
\<close>

lemma interface_escapes_gate:
  "enforce_selected_field_authorization user_gates True (\<lambda>_. Inr (CheckBool False))
     (Some [OperationDef QueryOp None [Field None ''nodes'' [] (Some [Field None ''email'' [] None])]]) (Inr [[]]) = Inr ()"
  "gate_field_resolver (Inr (CheckBool False)) ''User.email'' (Inr r) =
     Inl (FieldDenied \<lparr>gf_message = ''Not authorized to access field '' @ [CHR 0x27] @ ''User.email'' @ [CHR 0x27], gf_code = FIELD_CODE\<rparr>)"
proof -
  show "enforce_selected_field_authorization user_gates True (\<lambda>_. Inr (CheckBool False))
     (Some [OperationDef QueryOp None [Field None ''nodes'' [] (Some [Field None ''email'' [] None])]]) (Inr [[]]) = Inr ()"
    by code_simp
qed (simp add: gate_field_resolver_def enforce_field_decision_def decision_of_def deny_def or_default_def)

text \<open>
  A check may return a decision.  Alone its denial is enforced; inside a combination it counts as a
  true value, so that combining two checks that deny lets everyone in.
\<close>

lemma combined_denial_allows:
  assumes "\<And>i. pc_call c i = Inr (CheckDecision d)" "\<not> dc_allowed d"
  shows "\<exists>f. authorize_field c m field resolver i = Inl (FieldDenied f)"
    and "resolver i = Inr r \<Longrightarrow> authorize_field (combine_permissions [c, c]) m field resolver i = Inr r"
    and "resolver i = Inr r \<Longrightarrow> authorize_field (any_permission [c, c]) m field resolver i = Inr r"
  using assms by (auto simp: authorize_field_def enforce_field_decision_def decision_of_def Let_def
      combine_permissions_def any_permission_def allow_def)

text \<open>A check that returns an awaitable without being a coroutine function is never awaited and always passes.\<close>

lemma awaitable_check_allows:
  assumes "pc_call c i = Inr CheckAwaitable" "resolver i = Inr r"
  shows "authorize_field c m field resolver i = Inr r"
  using assms by (simp add: authorize_field_def enforce_field_decision_def decision_of_def allow_def)

text \<open>
  An error of the authorizer on a field is turned into a decision before the cache sees it, so it is
  kept for the lifetime of an entry; on an operation it is not.
\<close>

lemma field_error_is_cached:
  "fst (field_lookup True (Some small_cache) 4 (field_operation ''alice'' ''User.email'' [])
      (cache_after small_cache [FieldAnswered ''alice'' ''User.email'' [] True RaisedOther 0])) = Some (CheckDecision (deny FIELD_CODE None))"
  "fst (enforce_lookup True (Some small_cache) 4 users_call (cache_after small_cache [Answered users_call RaisedOther 0])) = None"
  by code_simp+

text \<open>An authorizer that is not asynchronous allows an operation and denies every field.\<close>

lemma synchronous_authorizer_denies_fields:
  "fst (enforce_answer None now rq (Returned (Plain True)) es) = Inr (allow None)"
  "field_authorizer_adapter False (Returned (Plain True)) = Inr (CheckDecision (deny FIELD_CODE None))"
  by (simp_all add: enforce_answer_def raise_on_deny_def allow_def field_authorizer_adapter_def)

end
