(* ===== verification/RowScope.thy ===== *)
theory RowScope
  imports Authorization MandatoryFilters
begin

section \<open>From a decision to the scope of a read\<close>

text \<open>
  The resolver of a root field (\<open>gql/builders/query_builder.py\<close>, with \<open>gql/list_arguments.py\<close>): it writes
  its name into the context of the repository, checks and maps its arguments, asks the authorizer and
  writes the filters of the decision into the context, from where every read takes its scope.
\<close>

subsection \<open>The context of the repository\<close>

text \<open>One context for a request: the current root field and the filters by root field.\<close>

record repo_context =
  rc_field :: "string option"
  rc_filters :: "(string \<times> pydict) list option"

definition enter_field :: "string \<Rightarrow> repo_context \<Rightarrow> repo_context" where
  "enter_field field ctx = ctx\<lparr>rc_field := Some field\<rparr>"

definition write_auth_filters_to_context :: "string \<Rightarrow> decision \<Rightarrow> repo_context \<Rightarrow> repo_context" where
  "write_auth_filters_to_context field d ctx =
     (case dc_filters d of
        None \<Rightarrow> ctx
      | Some fs \<Rightarrow>
          if fs = [] then ctx
          else ctx\<lparr>rc_filters := Some (AList.update field fs (case rc_filters ctx of Some bs \<Rightarrow> bs | None \<Rightarrow> []))\<rparr>)"

definition read_scope :: "pydict option \<Rightarrow> repo_context \<Rightarrow> pydict option result" where
  "read_scope caller ctx = consume_mandatory_filters caller (rc_filters ctx) (rc_field ctx)"

subsection \<open>Arguments\<close>

text \<open>The schema types the pagination arguments as integers.\<close>

definition LIST_QUERY_ARGUMENTS :: "(string \<times> string) list" where
  "LIST_QUERY_ARGUMENTS = [(''where'', ''where''), (''orderBy'', ''order_by''), (''limit'', ''limit''), (''offset'', ''offset'')]"

definition check_where :: "pydict \<Rightarrow> unit result" where
  "check_where kwargs =
     (case map_of kwargs ''where'' of
        None \<Rightarrow> Inr ()
      | Some v \<Rightarrow> if v = PNone \<or> is_dict v then Inr () else Inl GraphQLError)"

definition check_page :: "pydict \<Rightarrow> string \<Rightarrow> unit result" where
  "check_page kwargs name =
     (case map_of kwargs name of
        Some (PInt i) \<Rightarrow> if i < 0 then Inl GraphQLError else Inr ()
      | _ \<Rightarrow> Inr ())"

definition check_arguments :: "pydict \<Rightarrow> unit result" where
  "check_arguments kwargs =
     rbind (check_where kwargs) (\<lambda>_.
     rbind (map_result (check_page kwargs) [''limit'', ''offset'', ''first'', ''last'']) (\<lambda>_. Inr ()))"

definition map_arguments :: "(string \<times> string) list \<Rightarrow> pydict \<Rightarrow> pydict" where
  "map_arguments names kwargs =
     (if names = [] then kwargs
      else rebuild_dict (map (\<lambda>(k, v). (case map_of names k of Some n \<Rightarrow> n | None \<Rightarrow> k, v)) kwargs))"

text \<open>The values of list arguments that the resolver does not take, by the path of the field.\<close>

type_synonym held_arguments = "(pyval list \<times> (string \<times> pydict)) list"

definition hold_list_arguments :: "pyval list \<Rightarrow> string \<Rightarrow> pydict \<Rightarrow> string list \<Rightarrow> held_arguments \<Rightarrow> held_arguments" where
  "hold_list_arguments path view kwargs names held =
     (let values = rebuild_dict (concat (map (\<lambda>n. case map_of kwargs n of
                      None \<Rightarrow> []
                    | Some v \<Rightarrow> if v = PNone then []
                                else [(case map_of LIST_QUERY_ARGUMENTS n of Some k \<Rightarrow> k | None \<Rightarrow> n, v)]) names))
      in if values = [] then held else AList.update path (view, values) held)"

definition held_list_arguments :: "pyval list \<Rightarrow> string \<Rightarrow> held_arguments \<Rightarrow> pydict" where
  "held_list_arguments path view held =
     (case map_of held path of None \<Rightarrow> [] | Some (v, values) \<Rightarrow> if v = view then values else [])"

text \<open>\<open>kwargs.setdefault(name, value)\<close> in \<open>find\<close>: what the caller passes explicitly wins.\<close>

definition with_held :: "pydict \<Rightarrow> pydict \<Rightarrow> pydict" where
  "with_held kwargs held = foldl (\<lambda>d (k, v). if map_of d k = None then d @ [(k, v)] else d) kwargs held"

subsection \<open>The resolver of a root field\<close>

record root_field =
  rf_name :: string
  rf_names :: "(string \<times> string) list"
  rf_path :: "pyval list"
  rf_held :: "string list"
  rf_view :: string
  rf_kwargs :: pydict

text \<open>
  \<open>enforce\<close> is the enforcement of the authorization on the mapped arguments and \<open>body\<close> the resolver
  function with the context that its reads see.
\<close>

datatype resolver_error = BadArguments py_error | Forbidden graphql_failure | BodyRaised py_error

definition query_resolver ::
  "root_field \<Rightarrow> (pydict \<Rightarrow> enforcement) \<Rightarrow> (pydict \<Rightarrow> held_arguments \<Rightarrow> repo_context \<Rightarrow> 'r result)
   \<Rightarrow> held_arguments \<Rightarrow> repo_context \<Rightarrow> (resolver_error + 'r) \<times> held_arguments \<times> repo_context" where
  "query_resolver rf enforce body held ctx =
     (let ctx1 = enter_field (rf_name rf) ctx in
      case check_arguments (rf_kwargs rf) of
        Inl e \<Rightarrow> (Inl (BadArguments e), held, ctx1)
      | Inr _ \<Rightarrow>
          (let held1 = (if rf_held rf \<noteq> [] \<and> rf_view rf \<noteq> [] then hold_list_arguments (rf_path rf) (rf_view rf) (rf_kwargs rf) (rf_held rf) held
                        else held);
               kwargs = map_arguments (rf_names rf) (rf_kwargs rf)
           in case enforce kwargs of
             Inl f \<Rightarrow> (Inl (Forbidden f), held1, ctx1)
           | Inr d \<Rightarrow>
               (let ctx2 = write_auth_filters_to_context (rf_name rf) d ctx1 in
                (case body kwargs held1 ctx2 of Inl e \<Rightarrow> Inl (BodyRaised e) | Inr r \<Rightarrow> Inr r, held1, ctx2))))"

text \<open>The root fields of a request one after the other.\<close>

fun serve_fields ::
  "(root_field \<times> (pydict \<Rightarrow> enforcement) \<times> (pydict \<Rightarrow> held_arguments \<Rightarrow> repo_context \<Rightarrow> 'r result)) list
   \<Rightarrow> held_arguments \<Rightarrow> repo_context \<Rightarrow> (resolver_error + 'r) list" where
  "serve_fields [] held ctx = []"
| "serve_fields ((rf, enforce, body) # rfs) held ctx =
     (case query_resolver rf enforce body held ctx of (r, held1, ctx1) \<Rightarrow> r # serve_fields rfs held1 ctx1)"

subsection \<open>Concurrent resolvers\<close>

text \<open>
  \<open>graphql-core\<close> gathers asynchronous resolvers: a resolver that awaits its authorizer lets the others
  run.  What they do to the context: a resolver enters, and later writes the filters of its decision.
\<close>

datatype context_step = Enter string | Write string decision

fun run_step :: "context_step \<Rightarrow> repo_context \<Rightarrow> repo_context" where
  "run_step (Enter field) ctx = enter_field field ctx"
| "run_step (Write field d) ctx = write_auth_filters_to_context field d ctx"

definition run_context :: "context_step list \<Rightarrow> repo_context \<Rightarrow> repo_context" where
  "run_context = fold run_step"

definition fresh_context :: repo_context where
  "fresh_context = \<lparr>rc_field = None, rc_filters = None\<rparr>"

subsection \<open>Every read has its scope\<close>

lemma run_context_append: "run_context (xs @ ys) ctx = run_context ys (run_context xs ctx)"
  by (simp add: run_context_def)

definition bucket :: "repo_context \<Rightarrow> string \<Rightarrow> pydict option" where
  "bucket ctx field = (case rc_filters ctx of None \<Rightarrow> None | Some bs \<Rightarrow> map_of bs field)"

lemma bucket_write:
  "bucket (write_auth_filters_to_context field d ctx) g =
     (if g = field \<and> dc_filters d \<noteq> None \<and> dc_filters d \<noteq> Some [] then dc_filters d else bucket ctx g)"
  "rc_field (write_auth_filters_to_context field d ctx) = rc_field ctx"
  by (auto simp: bucket_def write_auth_filters_to_context_def update_conv' split: option.splits)

lemma bucket_enter [simp]: "bucket (enter_field field ctx) g = bucket ctx g" "rc_field (enter_field field ctx) = Some field"
  by (simp_all add: bucket_def enter_field_def)

lemma read_scope_bucket:
  "rc_field ctx = Some field \<Longrightarrow>
   read_scope caller ctx = consume_mandatory_filters caller (map_option (\<lambda>fs. [(field, fs)]) (bucket ctx field)) (Some field)"
  by (auto simp: read_scope_def consume_mandatory_filters_def bucket_def split: option.splits)

text \<open>No step of another resolver, and no second decision of its own, comes between.\<close>

fun leaves_alone :: "string \<Rightarrow> context_step \<Rightarrow> bool" where
  "leaves_alone field (Enter g) = (g = field)"
| "leaves_alone field (Write g d) = (g \<noteq> field)"

lemma run_context_alone:
  "\<forall>s \<in> set steps. leaves_alone field s \<Longrightarrow> rc_field ctx = Some field \<Longrightarrow>
   rc_field (run_context steps ctx) = Some field \<and> bucket (run_context steps ctx) field = bucket ctx field"
proof (induction steps arbitrary: ctx)
  case (Cons s steps)
  have "rc_field (run_step s ctx) = Some field \<and> bucket (run_step s ctx) field = bucket ctx field"
    using Cons.prems by (cases s) (auto simp: bucket_write)
  with Cons show ?case by (simp add: run_context_def)
qed (simp add: run_context_def)

text \<open>
  C4: The scope of a read is that of its own decision, when the decision has row filters.  If, between the
  moment a resolver enters and its read, no other resolver enters and no other decision is written for the
  same field name, then the filters that the read finds are those of the caller together with those that
  the authorizer decided for this operation, whatever ran before: every filter of the decision is among
  them with its value, unless a filter of the caller is on the same column, which refuses the read.  A
  decision without filters clears nothing: see \<open>alias_scope_shared\<close>; what \<open>find\<close> makes of the scope is
  \<open>FindScope\<close>.
\<close>

theorem read_has_own_scope:
  assumes "ctx = run_context (before @ [Enter field] @ mid @ [Write field d] @ rest) ctx0"
    and "\<forall>s \<in> set mid. leaves_alone field s" "\<forall>s \<in> set rest. leaves_alone field s"
    and "dc_filters d = Some fs" "fs \<noteq> []" "distinct (map fst fs)" "distinct (map fst (case caller of Some c \<Rightarrow> c | None \<Rightarrow> []))"
  shows "case read_scope caller ctx of
      Inl e \<Rightarrow> e = GraphQLError \<and> fst ` set (case caller of Some c \<Rightarrow> c | None \<Rightarrow> []) \<inter> fst ` set fs \<noteq> {}
    | Inr scope \<Rightarrow> \<exists>m. scope = Some m \<and> map_of m = map_of (case caller of Some c \<Rightarrow> c | None \<Rightarrow> []) ++ map_of fs
                     \<and> (\<forall>(col, v) \<in> set fs. map_of m col = Some v)"
proof -
  let ?c1 = "run_context mid (run_step (Enter field) (run_context before ctx0))"
  let ?c2 = "write_auth_filters_to_context field d ?c1"
  define ex where "ex = (case caller of Some c \<Rightarrow> c | None \<Rightarrow> [])"
  have ex: "distinct (map fst ex)" using assms(7) by (simp add: ex_def)
  have "rc_field ?c2 = Some field" "bucket ?c2 field = Some fs"
    using run_context_alone [OF assms(2)] assms(4,5) by (simp_all add: bucket_write)
  with run_context_alone [OF assms(3), of ?c2] have c: "rc_field ctx = Some field" "bucket ctx field = Some fs"
    by (simp_all add: assms(1) run_context_def)
  have scope: "read_scope caller ctx =
      (if list_ex (\<lambda>(k, _). k \<in> set (map fst fs)) ex then Inl GraphQLError else Inr (Some (rebuild_dict (ex @ fs))))"
    using read_scope_bucket [OF c(1), of caller] c(2) assms(5) by (simp add: consume_mandatory_filters_def ex_def)
  have "case read_scope caller ctx of
      Inl e \<Rightarrow> e = GraphQLError \<and> fst ` set ex \<inter> fst ` set fs \<noteq> {}
    | Inr scope \<Rightarrow> \<exists>m. scope = Some m \<and> map_of m = map_of ex ++ map_of fs \<and> (\<forall>(col, v) \<in> set fs. map_of m col = Some v)"
  proof (cases "list_ex (\<lambda>(k, _). k \<in> set (map fst fs)) ex")
    case True
    then have "fst ` set ex \<inter> fst ` set fs \<noteq> {}" by (force simp: list_ex_iff)
    with True scope show ?thesis by simp
  next
    case False
    then have "distinct (map fst (ex @ fs))" using assms(6) ex by (fastforce simp: list_ex_iff)
    then have m: "map_of (rebuild_dict (ex @ fs)) = map_of (ex @ fs)" by (rule map_of_rebuild_distinct)
    have disj: "fst ` set ex \<inter> fst ` set fs = {}" using False by (fastforce simp: list_ex_iff)
    have "map_of (ex @ fs) col = Some v" if "(col, v) \<in> set fs" for col v
    proof -
      have "map_of ex col = None" using disj that by (force simp: map_of_eq_None_iff)
      with that assms(6) show ?thesis by (simp add: map_add_def)
    qed
    moreover have "map_of (ex @ fs) = map_of ex ++ map_of fs"
      using disj map_add_comm [of "map_of ex" "map_of fs"] by (simp add: dom_map_of_conv_image_fst)
    ultimately show ?thesis using False scope m by auto
  qed
  then show ?thesis unfolding ex_def .
qed

theorem read_has_own_scope_witness:
  "case read_scope (Some [(''status'', PStr ''a'')])
      (run_context ([Enter ''posts'', Write ''posts'' (allow None)] @ [Enter ''users''] @ [Write ''posts'' (allow None)]
         @ [Write ''users'' (allow (Some [(''tenant_id'', PInt 7)]))] @ []) fresh_context) of
     Inl e \<Rightarrow> e = GraphQLError \<and> fst ` set (case Some [(''status'', PStr ''a'')] of Some c \<Rightarrow> c | None \<Rightarrow> []) \<inter> fst ` set [(''tenant_id'', PInt 7)] \<noteq> {}
   | Inr scope \<Rightarrow> \<exists>m. scope = Some m \<and> map_of m = map_of (case Some [(''status'', PStr ''a'')] of Some c \<Rightarrow> c | None \<Rightarrow> []) ++ map_of [(''tenant_id'', PInt 7)]
        \<and> (\<forall>(col, v) \<in> set [(''tenant_id'', PInt 7)]. map_of m col = Some v)"
  by (rule read_has_own_scope [OF refl]) (simp_all add: allow_def)

lemma query_resolver_keeps:
  "g \<noteq> rf_name rf \<Longrightarrow> query_resolver rf enforce body held ctx = (r, held1, ctx1) \<Longrightarrow> bucket ctx1 g = bucket ctx g"
  by (auto simp: query_resolver_def Let_def bucket_write split: sum.splits)

definition own_scope :: "root_field \<Rightarrow> (pydict \<Rightarrow> enforcement) \<Rightarrow> pydict option \<Rightarrow> resolver_error + pydict option" where
  "own_scope rf enforce caller =
     (case check_arguments (rf_kwargs rf) of
        Inl e \<Rightarrow> Inl (BadArguments e)
      | Inr _ \<Rightarrow>
          (case enforce (map_arguments (rf_names rf) (rf_kwargs rf)) of
             Inl f \<Rightarrow> Inl (Forbidden f)
           | Inr d \<Rightarrow>
               (case consume_mandatory_filters caller (map_option (\<lambda>fs. [(rf_name rf, fs)]) (dc_filters d)) (Some (rf_name rf)) of
                  Inl e \<Rightarrow> Inl (BodyRaised e) | Inr m \<Rightarrow> Inr m)))"

lemma resolver_own_scope:
  assumes "bucket ctx (rf_name rf) = None"
  shows "fst (query_resolver rf enforce (\<lambda>kwargs held c. read_scope caller c) held ctx) = own_scope rf enforce caller"
proof (cases "check_arguments (rf_kwargs rf)")
  case (Inr u)
  show ?thesis
  proof (cases "enforce (map_arguments (rf_names rf) (rf_kwargs rf))")
    case (Inr d)
    let ?c = "write_auth_filters_to_context (rf_name rf) d (enter_field (rf_name rf) ctx)"
    have "read_scope caller ?c = consume_mandatory_filters caller (map_option (\<lambda>fs. [(rf_name rf, fs)]) (dc_filters d)) (Some (rf_name rf))"
      using read_scope_bucket [of ?c "rf_name rf" caller] assms
      by (auto simp: bucket_write consume_mandatory_filters_def split: option.splits if_splits)
    with Inr \<open>check_arguments (rf_kwargs rf) = Inr u\<close> show ?thesis
      by (simp add: query_resolver_def own_scope_def Let_def)
  qed (use Inr in \<open>simp add: query_resolver_def own_scope_def Let_def\<close>)
qed (simp add: query_resolver_def own_scope_def Let_def)

lemma serve_fields_own_scope:
  assumes "distinct (map (rf_name \<circ> fst) rfs)" "\<forall>rf \<in> set rfs. bucket ctx (rf_name (fst rf)) = None"
  shows "serve_fields (map (\<lambda>(rf, enforce, caller). (rf, enforce, \<lambda>kwargs held c. read_scope caller c)) rfs) held ctx
       = map (\<lambda>(rf, enforce, caller). own_scope rf enforce caller) rfs"
  using assms
proof (induction rfs arbitrary: held ctx)
  case (Cons x rfs)
  obtain rf enforce caller where x: "x = (rf, enforce, caller)" by (cases x) auto
  obtain r held1 ctx1 where q: "query_resolver rf enforce (\<lambda>kwargs held c. read_scope caller c) held ctx = (r, held1, ctx1)"
    by (metis prod_cases3)
  have "r = own_scope rf enforce caller" using resolver_own_scope [of ctx rf enforce caller held] q x Cons.prems(2) by simp
  moreover have "\<forall>y \<in> set rfs. bucket ctx1 (rf_name (fst y)) = None"
  proof
    fix y
    assume y: "y \<in> set rfs"
    then have "rf_name (fst y) \<noteq> rf_name rf" using Cons.prems(1) x by force
    with query_resolver_keeps [OF _ q] Cons.prems(2) y show "bucket ctx1 (rf_name (fst y)) = None" by simp
  qed
  ultimately show ?case using Cons x q by simp
qed simp

text \<open>
  The root fields of a request that are resolved one after the other, with distinct names, each
  read within their own decision: the scope of the reads of a field is made of the filters of the
  caller and of the decision on that field, and a field without filters reads without those of another.
\<close>

theorem sequential_fields_scoped:
  assumes "distinct (map (rf_name \<circ> fst) rfs)"
  shows "serve_fields (map (\<lambda>(rf, enforce, caller). (rf, enforce, \<lambda>kwargs held c. read_scope caller c)) rfs) [] fresh_context
       = map (\<lambda>(rf, enforce, caller). own_scope rf enforce caller) rfs"
  by (rule serve_fields_own_scope [OF assms]) (simp add: bucket_def fresh_context_def)

definition plain_field :: "string \<Rightarrow> root_field" where
  "plain_field name = \<lparr>rf_name = name, rf_names = [], rf_path = [PStr name], rf_held = [], rf_view = [], rf_kwargs = [(''limit'', PInt 3)]\<rparr>"

theorem sequential_fields_scoped_witness:
  "serve_fields (map (\<lambda>(rf, enforce, caller). (rf, enforce, \<lambda>kwargs held c. read_scope caller c))
      [(plain_field ''users'', \<lambda>_. Inr (allow (Some [(''tenant_id'', PInt 7)])), None), (plain_field ''posts'', \<lambda>_. Inr (allow None), None)]) [] fresh_context
   = [Inr (Some [(''tenant_id'', PInt 7)]), Inr None]"
proof -
  have "[own_scope (plain_field ''users'') (\<lambda>_. Inr (allow (Some [(''tenant_id'', PInt 7)]))) None,
         own_scope (plain_field ''posts'') (\<lambda>_. Inr (allow None)) None] = [Inr (Some [(''tenant_id'', PInt 7)]), Inr None]"
    by code_simp
  then show ?thesis
    using sequential_fields_scoped [of "[(plain_field ''users'', \<lambda>_. Inr (allow (Some [(''tenant_id'', PInt 7)])), None),
        (plain_field ''posts'', \<lambda>_. Inr (allow None), None)]"]
    by (simp add: plain_field_def)
qed

subsection \<open>Where a scope is lost\<close>

text \<open>
  Two resolvers whose authorizers are awaited: both enter before either reads.  The first one reads
  under the name of the second, without the filters that the authorizer decided for it.
\<close>

lemma concurrent_read_unscoped:
  "read_scope None (run_context [Enter ''users'', Enter ''posts'', Write ''users'' (allow (Some [(''tenant_id'', PInt 7)]))] fresh_context) = Inr None"
  by code_simp

text \<open>
  Two aliases of one field have one entry: a decision without filters leaves the filters of the earlier
  one, and a later decision replaces those under which the first is still reading.
\<close>

lemma alias_scope_shared:
  "read_scope None (run_context [Enter ''users'', Write ''users'' (allow (Some [(''tenant_id'', PInt 7)])),
      Enter ''users'', Write ''users'' (allow None)] fresh_context) = Inr (Some [(''tenant_id'', PInt 7)])"
  "read_scope None (run_context [Enter ''users'', Write ''users'' (allow (Some [(''tenant_id'', PInt 7)])),
      Enter ''users'', Write ''users'' (allow (Some [(''tenant_id'', PInt 8)]))] fresh_context) = Inr (Some [(''tenant_id'', PInt 8)])"
  by code_simp+

end
