(* ===== verification/Regex.thy ===== *)
theory Regex
  imports Prelude
begin

section \<open>Regular expressions\<close>

text \<open>
  The regular expressions that the scalars match their texts against, as data, with a matcher by
  derivatives and its meaning as a set of strings.  \<open>re.match\<close> with a pattern \<open>^...$\<close> asks whether the
  text is in that set, but \<open>$\<close> also matches before a newline at the end of the text.
\<close>

datatype regex =
  Nothing
| Empty
| Chars "char \<Rightarrow> bool"
| Sequence regex regex
| Either regex regex
| Star regex
| Repeat regex nat nat

subsection \<open>The meaning\<close>

fun lang :: "regex \<Rightarrow> string set" where
  "lang Nothing = {}"
| "lang Empty = {[]}"
| "lang (Chars P) = {[c] |c. P c}"
| "lang (Sequence r s) = {u @ v |u v. u \<in> lang r \<and> v \<in> lang s}"
| "lang (Either r s) = lang r \<union> lang s"
| "lang (Star r) = {concat ws |ws. set ws \<subseteq> lang r}"
| "lang (Repeat r m n) = {concat ws |ws. set ws \<subseteq> lang r \<and> m \<le> length ws \<and> length ws \<le> n}"

subsection \<open>The matcher\<close>

fun nullable :: "regex \<Rightarrow> bool" where
  "nullable Nothing = False"
| "nullable Empty = True"
| "nullable (Chars P) = False"
| "nullable (Sequence r s) = (nullable r \<and> nullable s)"
| "nullable (Either r s) = (nullable r \<or> nullable s)"
| "nullable (Star r) = True"
| "nullable (Repeat r m n) = (m = 0 \<or> m \<le> n \<and> nullable r)"

fun sequence :: "regex \<Rightarrow> regex \<Rightarrow> regex" where
  "sequence Nothing s = Nothing"
| "sequence Empty s = s"
| "sequence r s = Sequence r s"

fun either :: "regex \<Rightarrow> regex \<Rightarrow> regex" where
  "either Nothing s = s"
| "either r Nothing = r"
| "either r s = Either r s"

fun deriv :: "char \<Rightarrow> regex \<Rightarrow> regex" where
  "deriv c Nothing = Nothing"
| "deriv c Empty = Nothing"
| "deriv c (Chars P) = (if P c then Empty else Nothing)"
| "deriv c (Sequence r s) = either (sequence (deriv c r) s) (if nullable r then deriv c s else Nothing)"
| "deriv c (Either r s) = either (deriv c r) (deriv c s)"
| "deriv c (Star r) = sequence (deriv c r) (Star r)"
| "deriv c (Repeat r m n) = (if n = 0 \<or> n < m then Nothing else sequence (deriv c r) (Repeat r (m - 1) (n - 1)))"

fun matches :: "regex \<Rightarrow> string \<Rightarrow> bool" where
  "matches r [] = nullable r"
| "matches r (c # s) = matches (deriv c r) s"

definition re_match :: "regex \<Rightarrow> string \<Rightarrow> bool" where
  "re_match r s = (matches r s \<or> (s \<noteq> [] \<and> last s = CHR 0x0A \<and> matches r (butlast s)))"

subsection \<open>The matcher decides the meaning\<close>

lemma lang_sequence [simp]: "lang (sequence r s) = lang (Sequence r s)"
  by (cases r) auto

lemma lang_either [simp]: "lang (either r s) = lang r \<union> lang s"
  by (induction r s rule: either.induct) auto

lemma empty_concat: "[] \<in> X \<Longrightarrow> \<exists>ws. concat ws = ([] :: string) \<and> set ws \<subseteq> X \<and> length ws = n"
  by (rule exI [of _ "replicate n []"]) auto

lemma nullable_lang: "nullable r \<longleftrightarrow> [] \<in> lang r"
proof (induction r)
  case (Repeat r m n)
  have "[] \<in> lang (Repeat r m n)" if "m \<le> n" "[] \<in> lang r"
  proof -
    from empty_concat [OF that(2), of m] obtain ws where "concat ws = ([] :: string)" "set ws \<subseteq> lang r" "length ws = m" by blast
    with that(1) show ?thesis by (simp, intro exI [of _ ws]) auto
  qed
  moreover have "[] \<in> lang (Repeat r 0 n)" by (auto intro!: exI [of _ "[]"])
  moreover have "m = 0 \<or> m \<le> n \<and> [] \<in> lang r" if nil: "[] \<in> lang (Repeat r m n)"
  proof -
    from nil obtain ws where ws: "concat ws = ([] :: string)" "set ws \<subseteq> lang r" "m \<le> length ws" "length ws \<le> n" by auto
    show ?thesis using ws by (cases ws) auto
  qed
  ultimately show ?case using Repeat by auto
qed (auto intro!: exI [of _ "[]"])

lemma concat_Cons_split:
  "concat ws = c # s \<Longrightarrow> \<exists>k u rest. ws = replicate k [] @ (c # u) # rest \<and> s = u @ concat rest"
proof (induction ws)
  case (Cons w ws)
  show ?case
  proof (cases w)
    case Nil
    with Cons obtain k u rest where "ws = replicate k [] @ (c # u) # rest" "s = u @ concat rest" by auto
    with Nil show ?thesis by (intro exI [of _ "Suc k"]) auto
  next
    case (Cons d u)
    with Cons.prems show ?thesis by (intro exI [of _ 0]) auto
  qed
qed simp

lemma replicate_nil_concat: "concat (replicate k [] @ xs) = concat xs"
  by (induction k) auto

lemma deriv_lang: "s \<in> lang (deriv c r) \<longleftrightarrow> c # s \<in> lang r"
proof (induction r arbitrary: s)
  case (Sequence r1 r2)
  have "c # s \<in> lang (Sequence r1 r2) \<longleftrightarrow>
      (\<exists>u v. s = u @ v \<and> c # u \<in> lang r1 \<and> v \<in> lang r2) \<or> ([] \<in> lang r1 \<and> c # s \<in> lang r2)"
    by (auto simp: Cons_eq_append_conv)
  also have "\<dots> \<longleftrightarrow> s \<in> lang (deriv c (Sequence r1 r2))"
    using Sequence by (auto simp: nullable_lang)
  finally show ?case by simp
next
  case (Star r)
  have "c # s \<in> lang (Star r) \<longleftrightarrow> (\<exists>u v. s = u @ v \<and> c # u \<in> lang r \<and> v \<in> lang (Star r))"
  proof
    assume "c # s \<in> lang (Star r)"
    then obtain ws where ws: "concat ws = c # s" "set ws \<subseteq> lang r" by auto
    from concat_Cons_split [OF ws(1)] obtain k u rest where "ws = replicate k [] @ (c # u) # rest" "s = u @ concat rest" by blast
    with ws(2) show "\<exists>u v. s = u @ v \<and> c # u \<in> lang r \<and> v \<in> lang (Star r)" by auto
  next
    assume "\<exists>u v. s = u @ v \<and> c # u \<in> lang r \<and> v \<in> lang (Star r)"
    then obtain u ws where "s = u @ concat ws" "c # u \<in> lang r" "set ws \<subseteq> lang r" by auto
    then show "c # s \<in> lang (Star r)" by (auto intro!: exI [of _ "(c # u) # ws"])
  qed
  with Star show ?case by auto
next
  case (Repeat r m n)
  have "c # s \<in> lang (Repeat r m n) \<longleftrightarrow> n \<noteq> 0 \<and> m \<le> n \<and> (\<exists>u v. s = u @ v \<and> c # u \<in> lang r \<and> v \<in> lang (Repeat r (m - 1) (n - 1)))"
  proof
    assume "c # s \<in> lang (Repeat r m n)"
    then obtain ws where ws: "concat ws = c # s" "set ws \<subseteq> lang r" "m \<le> length ws" "length ws \<le> n" by auto
    from concat_Cons_split [OF ws(1)] obtain k u rest where k: "ws = replicate k [] @ (c # u) # rest" "s = u @ concat rest" by blast
    then have "set (replicate k [] @ rest) \<subseteq> lang r" "concat (replicate k [] @ rest) = concat rest"
      "length (replicate k [] @ rest) = length ws - 1"
      using ws(2) by (auto simp: replicate_nil_concat)
    with ws(3,4) have "concat rest \<in> lang (Repeat r (m - 1) (n - 1))"
      by (auto intro!: exI [of _ "replicate k [] @ rest"] simp del: concat_append)
    with k ws show "n \<noteq> 0 \<and> m \<le> n \<and> (\<exists>u v. s = u @ v \<and> c # u \<in> lang r \<and> v \<in> lang (Repeat r (m - 1) (n - 1)))" by auto
  next
    assume "n \<noteq> 0 \<and> m \<le> n \<and> (\<exists>u v. s = u @ v \<and> c # u \<in> lang r \<and> v \<in> lang (Repeat r (m - 1) (n - 1)))"
    then obtain u ws where "n \<noteq> 0" "s = u @ concat ws" "c # u \<in> lang r" "set ws \<subseteq> lang r" "m - 1 \<le> length ws" "length ws \<le> n - 1" by auto
    then show "c # s \<in> lang (Repeat r m n)" by (auto intro!: exI [of _ "(c # u) # ws"])
  qed
  with Repeat show ?case by auto
qed auto

lemma matches_lang: "matches r s \<longleftrightarrow> s \<in> lang r"
  by (induction s arbitrary: r) (auto simp: nullable_lang deriv_lang)

subsection \<open>Words of characters\<close>

definition text_of :: "string \<Rightarrow> regex" where
  "text_of s = foldr (\<lambda>c. Sequence (Chars (\<lambda>d. d = c))) s Empty"

definition optional :: "regex \<Rightarrow> regex" where "optional r = Either Empty r"
definition some_of :: "regex \<Rightarrow> regex" where "some_of r = Sequence r (Star r)"
definition exactly :: "nat \<Rightarrow> (char \<Rightarrow> bool) \<Rightarrow> regex" where "exactly n P = Repeat (Chars P) n n"
definition between :: "nat \<Rightarrow> nat \<Rightarrow> (char \<Rightarrow> bool) \<Rightarrow> regex" where "between m n P = Repeat (Chars P) m n"
definition one_of :: "regex list \<Rightarrow> regex" where "one_of rs = foldr Either rs Nothing"
definition all_of :: "regex list \<Rightarrow> regex" where "all_of rs = foldr Sequence rs Empty"

lemma lang_chars_list: "(\<exists>ws. s = concat ws \<and> set ws \<subseteq> {[c] |c. P c} \<and> length ws = k) \<longleftrightarrow> length s = k \<and> list_all P s"
proof
  assume "\<exists>ws. s = concat ws \<and> set ws \<subseteq> {[c] |c. P c} \<and> length ws = k"
  then obtain ws where ws: "s = concat ws" "set ws \<subseteq> {[c] |c. P c}" "length ws = k" by blast
  from ws(2) have "length (concat ws) = length ws \<and> list_all P (concat ws)" by (induction ws) auto
  with ws show "length s = k \<and> list_all P s" by simp
next
  assume s: "length s = k \<and> list_all P s"
  have "s = concat (map (\<lambda>c. [c]) s)" by simp
  moreover have "set (map (\<lambda>c. [c]) s) \<subseteq> {[c] |c. P c}" using s by (auto simp: list_all_iff)
  ultimately show "\<exists>ws. s = concat ws \<and> set ws \<subseteq> {[c] |c. P c} \<and> length ws = k" using s by (intro exI [of _ "map (\<lambda>c. [c]) s"]) simp
qed

lemma lang_between [simp]: "lang (between m n P) = {s. m \<le> length s \<and> length s \<le> n \<and> list_all P s}"
proof -
  have "s \<in> lang (between m n P) \<longleftrightarrow> (\<exists>k. m \<le> k \<and> k \<le> n \<and> (\<exists>ws. s = concat ws \<and> set ws \<subseteq> {[c] |c. P c} \<and> length ws = k))" for s
    by (auto simp: between_def)
  then show ?thesis unfolding lang_chars_list by blast
qed

lemma lang_exactly [simp]: "lang (exactly n P) = {s. length s = n \<and> list_all P s}"
  using lang_between [of n n P] by (auto simp: exactly_def between_def)

lemma lang_all_of: "lang (all_of []) = {[]}" "lang (all_of (r # rs)) = {u @ v |u v. u \<in> lang r \<and> v \<in> lang (all_of rs)}"
  by (simp_all add: all_of_def)

lemma lang_one_of: "lang (one_of rs) = (\<Union>r \<in> set rs. lang r)"
  by (induction rs) (auto simp: one_of_def)

lemma lang_optional [simp]: "lang (optional r) = insert [] (lang r)"
  by (simp add: optional_def)

lemma lang_text_of [simp]: "lang (text_of s) = {s}"
  by (induction s) (auto simp: text_of_def)

end
