(* ===== verification/Scalars.thy ===== *)
theory Scalars
  imports Regex PyValue Calendar
begin

section \<open>Scalars\<close>

text \<open>
  \<open>types/scalars\<close>: the texts that the scalar types accept, and what \<open>serialize\<close>, \<open>parse_value\<close>,
  \<open>parse_literal\<close> and the constructor of the Python type give for a value.  The strings hold the
  characters up to 255; of these \<open>upper\<close> writes the sharp s as two letters and leaves two letters whose
  capitals are beyond 255, which no pattern accepts in either case.
\<close>

definition str_upper :: "string \<Rightarrow> string" where
  "str_upper s = concat (map (\<lambda>c. let n = (of_char c :: nat) in
     if n = 223 then ''SS'' else if 224 \<le> n \<and> n \<le> 254 \<and> n \<noteq> 247 then [char_of (n - 32)] else [to_upper c]) s)"

definition str_lower :: "string \<Rightarrow> string" where
  "str_lower = map (\<lambda>c. let n = (of_char c :: nat) in
     if 192 \<le> n \<and> n \<le> 222 \<and> n \<noteq> 215 then char_of (n + 32) else to_lower c)"

definition is_alpha :: "char \<Rightarrow> bool" where "is_alpha c = (is_upper c \<or> is_lower c)"
definition is_alnum :: "char \<Rightarrow> bool" where "is_alnum c = (is_alpha c \<or> is_digit c)"

definition is_hex :: "char \<Rightarrow> bool" where
  "is_hex c = (is_digit c \<or> c \<in> set ''abcdefABCDEF'')"

text \<open>\<open>re.IGNORECASE\<close> on a word of letters.\<close>

definition text_of_any_case :: "string \<Rightarrow> regex" where
  "text_of_any_case s = all_of (map (\<lambda>c. Chars (\<lambda>d. to_lower d = c)) s)"

text \<open>The characters of a file path: no control characters and none of \<open><>:"|?*\<close>.\<close>

definition file_char :: "char \<Rightarrow> bool" where
  "file_char c = (let n = (of_char c :: nat) in 32 \<le> n \<and> n \<noteq> 34 \<and> n \<noteq> 42 \<and> n \<noteq> 58 \<and> n \<noteq> 60 \<and> n \<noteq> 62 \<and> n \<noteq> 63 \<and> n \<noteq> 124
     \<and> \<not> (127 \<le> n \<and> n \<le> 159))"

subsection \<open>The common shape\<close>

text \<open>
  A scalar prepares the text (case, blanks) and accepts it or not; what it accepts it may rewrite.  The
  check itself may raise.
\<close>

record text_scalar =
  prepare :: "string \<Rightarrow> string"
  accept :: "string \<Rightarrow> string option result"

definition accepted :: "text_scalar \<Rightarrow> py_error \<Rightarrow> string \<Rightarrow> string result" where
  "accepted ts e s = rbind (accept ts (prepare ts s)) (\<lambda>r. of_option e r)"

definition serialize_text :: "text_scalar \<Rightarrow> pyval \<Rightarrow> string option result" where
  "serialize_text ts v =
     (if v = PNone then Inr None else rbind (accepted ts GraphQLError (py_str v)) (\<lambda>t. Inr (Some t)))"

definition parse_text :: "text_scalar \<Rightarrow> pyval \<Rightarrow> string result" where
  "parse_text ts v = (case v of PStr s \<Rightarrow> accepted ts GraphQLError s | _ \<Rightarrow> Inl GraphQLError)"

datatype graphql_literal =
  StringLit string | IntLit string | FloatLit string | BooleanLit bool | NullLit | EnumLit string | ListLit | ObjectLit

definition parse_text_literal :: "text_scalar \<Rightarrow> graphql_literal \<Rightarrow> string result" where
  "parse_text_literal ts l = (case l of StringLit s \<Rightarrow> parse_text ts (PStr s) | _ \<Rightarrow> Inl GraphQLError)"

definition new_field :: "text_scalar \<Rightarrow> string \<Rightarrow> string result" where
  "new_field ts s = accepted ts ValueError s"

definition regex_scalar :: "(string \<Rightarrow> string) \<Rightarrow> regex \<Rightarrow> text_scalar" where
  "regex_scalar prep r = \<lparr>prepare = prep, accept = (\<lambda>s. Inr (if re_match r s then Some s else None))\<rparr>"

text \<open>A scalar that checks more than its pattern.\<close>

definition checked_scalar :: "(string \<Rightarrow> string) \<Rightarrow> regex \<Rightarrow> (string \<Rightarrow> bool result) \<Rightarrow> text_scalar" where
  "checked_scalar prep r check =
     \<lparr>prepare = prep, accept = (\<lambda>s. if re_match r s then rbind (check s) (\<lambda>ok. Inr (if ok then Some s else None)) else Inr None)\<rparr>"

subsection \<open>Texts with a pattern\<close>

definition AIRPORT_CODE_REGEX :: regex where
  "AIRPORT_CODE_REGEX = exactly 3 is_upper"

definition airport_code_scalar :: text_scalar where "airport_code_scalar = regex_scalar str_upper AIRPORT_CODE_REGEX"
definition AirportCodeField :: "string \<Rightarrow> string result" where "AirportCodeField = new_field airport_code_scalar"

definition API_KEY_REGEX :: regex where
  "API_KEY_REGEX = between 16 128 (\<lambda>c. is_alnum c \<or> c = CHR ''_'' \<or> c = CHR ''-'')"

definition api_key_scalar :: text_scalar where "api_key_scalar = regex_scalar id API_KEY_REGEX"
definition ApiKeyField :: "string \<Rightarrow> string result" where "ApiKeyField = new_field api_key_scalar"

definition COLOR_REGEX :: regex where
  "COLOR_REGEX = all_of [text_of ''#'', one_of [exactly 3 is_hex, exactly 6 is_hex]]"

definition color_scalar :: text_scalar where "color_scalar = regex_scalar id COLOR_REGEX"
definition ColorField :: "string \<Rightarrow> string result" where "ColorField = new_field color_scalar"

definition CURRENCY_CODE_REGEX :: regex where
  "CURRENCY_CODE_REGEX = exactly 3 is_upper"

definition currency_code_scalar :: text_scalar where "currency_code_scalar = regex_scalar str_upper CURRENCY_CODE_REGEX"
definition CurrencyCodeField :: "string \<Rightarrow> string result" where "CurrencyCodeField = new_field currency_code_scalar"

definition CUSIP_REGEX :: regex where
  "CUSIP_REGEX = all_of [exactly 3 is_digit, exactly 5 (\<lambda>c. is_upper c \<or> is_digit c), exactly 1 is_digit]"

definition cusip_scalar :: text_scalar where "cusip_scalar = regex_scalar str_upper CUSIP_REGEX"
definition CUSIPField :: "string \<Rightarrow> string result" where "CUSIPField = new_field cusip_scalar"

definition DURATION_REGEX :: regex where
  "DURATION_REGEX = all_of [text_of ''P'', optional (all_of [some_of (Chars is_digit), text_of ''Y'']), optional (all_of [some_of (Chars is_digit), text_of ''M'']), optional (all_of [some_of (Chars is_digit), text_of ''W'']), optional (all_of [some_of (Chars is_digit), text_of ''D'']), optional (all_of [text_of ''T'', optional (all_of [some_of (Chars is_digit), text_of ''H'']), optional (all_of [some_of (Chars is_digit), text_of ''M'']), optional (all_of [some_of (Chars is_digit), text_of ''S''])])]"

definition duration_scalar :: text_scalar where "duration_scalar = regex_scalar id DURATION_REGEX"
definition DurationField :: "string \<Rightarrow> string result" where "DurationField = new_field duration_scalar"

definition EXCHANGE_CODE_REGEX :: regex where
  "EXCHANGE_CODE_REGEX = between 2 6 is_upper"

definition exchange_code_scalar :: text_scalar where "exchange_code_scalar = regex_scalar str_upper EXCHANGE_CODE_REGEX"
definition ExchangeCodeField :: "string \<Rightarrow> string result" where "ExchangeCodeField = new_field exchange_code_scalar"

definition http_prefix :: regex where
  "http_prefix = all_of [text_of_any_case ''http'', optional (text_of_any_case ''s''), text_of ''://'']"

definition FILE_REGEX :: regex where
  "FILE_REGEX = one_of [all_of [http_prefix, some_of (Chars (\<lambda>c. c \<noteq> CHR 0x0A))], all_of [optional (one_of [text_of ''./'', text_of ''/'', text_of ''../'', text_of ''../../'']), some_of (Chars file_char)]]"

definition file_scalar :: text_scalar where "file_scalar = regex_scalar id FILE_REGEX"
definition FileField :: "string \<Rightarrow> string result" where "FileField = new_field file_scalar"

definition FLIGHT_NUMBER_REGEX :: regex where
  "FLIGHT_NUMBER_REGEX = all_of [exactly 2 is_upper, between 1 4 is_digit, between 0 1 is_upper]"

definition flight_number_scalar :: text_scalar where "flight_number_scalar = regex_scalar str_upper FLIGHT_NUMBER_REGEX"
definition FlightNumberField :: "string \<Rightarrow> string result" where "FlightNumberField = new_field flight_number_scalar"

definition HASH_SHA256_REGEX :: regex where
  "HASH_SHA256_REGEX = exactly 64 is_hex"

definition hash_sha256_scalar :: text_scalar where "hash_sha256_scalar = regex_scalar id HASH_SHA256_REGEX"
definition HashSHA256Field :: "string \<Rightarrow> string result" where "HashSHA256Field = new_field hash_sha256_scalar"

definition image_extension :: regex where
  "image_extension = one_of [text_of_any_case ''jpg'', text_of_any_case ''jpeg'', text_of_any_case ''png'', text_of_any_case ''gif'', text_of_any_case ''webp'', text_of_any_case ''svg'', text_of_any_case ''bmp'', text_of_any_case ''tiff'', text_of_any_case ''tif'']"

definition IMAGE_REGEX :: regex where
  "IMAGE_REGEX = one_of [all_of [http_prefix, Star (Chars (\<lambda>c. c \<noteq> CHR 0x0A)), text_of ''.'', image_extension], all_of [Star (Chars (\<lambda>c. c \<noteq> CHR 0x0A)), text_of ''.'', image_extension]]"

definition image_scalar :: text_scalar where "image_scalar = regex_scalar id IMAGE_REGEX"
definition ImageField :: "string \<Rightarrow> string result" where "ImageField = new_field image_scalar"

definition LANGUAGE_CODE_REGEX :: regex where
  "LANGUAGE_CODE_REGEX = exactly 2 is_lower"

definition language_code_scalar :: text_scalar where "language_code_scalar = regex_scalar str_lower LANGUAGE_CODE_REGEX"
definition LanguageCodeField :: "string \<Rightarrow> string result" where "LanguageCodeField = new_field language_code_scalar"

definition LATITUDE_REGEX :: regex where
  "LATITUDE_REGEX = one_of [all_of [optional (text_of ''-''), text_of ''90'', optional (all_of [text_of ''.'', between 1 8 (\<lambda>c. c \<in> set ''0'')])], all_of [optional (text_of ''-''), between 0 1 (\<lambda>c. c \<in> set ''12345678''), exactly 1 is_digit, optional (all_of [text_of ''.'', between 1 8 is_digit])]]"

definition latitude_scalar :: text_scalar where "latitude_scalar = regex_scalar id LATITUDE_REGEX"
definition LatitudeField :: "string \<Rightarrow> string result" where "LatitudeField = new_field latitude_scalar"

definition LEI_REGEX :: regex where
  "LEI_REGEX = all_of [exactly 18 (\<lambda>c. is_upper c \<or> is_digit c), exactly 2 is_digit]"

definition lei_scalar :: text_scalar where "lei_scalar = regex_scalar str_upper LEI_REGEX"
definition LEIField :: "string \<Rightarrow> string result" where "LEIField = new_field lei_scalar"

definition LICENSE_PLATE_REGEX :: regex where
  "LICENSE_PLATE_REGEX = between 2 12 (\<lambda>c. is_upper c \<or> is_digit c \<or> c = CHR '' '' \<or> c = CHR ''-'')"

definition license_plate_scalar :: text_scalar where "license_plate_scalar = regex_scalar id LICENSE_PLATE_REGEX"
definition LicensePlateField :: "string \<Rightarrow> string result" where "LicensePlateField = new_field license_plate_scalar"

definition LOCALE_CODE_REGEX :: regex where
  "LOCALE_CODE_REGEX = all_of [exactly 2 is_lower, optional (all_of [text_of ''-'', exactly 2 is_upper])]"

definition locale_code_scalar :: text_scalar where "locale_code_scalar = regex_scalar id LOCALE_CODE_REGEX"
definition LocaleCodeField :: "string \<Rightarrow> string result" where "LocaleCodeField = new_field locale_code_scalar"

definition LONGITUDE_REGEX :: regex where
  "LONGITUDE_REGEX = one_of [all_of [optional (text_of ''-''), text_of ''180'', optional (all_of [text_of ''.'', between 1 8 (\<lambda>c. c \<in> set ''0'')])], all_of [optional (text_of ''-''), optional (one_of [all_of [text_of ''1'', exactly 1 (\<lambda>c. c \<in> set ''01234567'')], exactly 1 (\<lambda>c. c \<in> set ''123456789'')]), exactly 1 is_digit, optional (all_of [text_of ''.'', between 1 8 is_digit])]]"

definition longitude_scalar :: text_scalar where "longitude_scalar = regex_scalar id LONGITUDE_REGEX"
definition LongitudeField :: "string \<Rightarrow> string result" where "LongitudeField = new_field longitude_scalar"

definition MIC_REGEX :: regex where
  "MIC_REGEX = exactly 4 is_upper"

definition mic_scalar :: text_scalar where "mic_scalar = regex_scalar str_upper MIC_REGEX"
definition MICField :: "string \<Rightarrow> string result" where "MICField = new_field mic_scalar"

definition mime_part :: regex where
  "mime_part = all_of [exactly 1 is_alpha, exactly 1 is_alnum, Star (Chars (\<lambda>c. is_alnum c \<or> c \<in> set ''!#$&^_-''))]"

definition MIME_TYPE_REGEX :: regex where
  "MIME_TYPE_REGEX = all_of [mime_part, text_of ''/'', mime_part, optional (all_of [text_of ''+'', mime_part])]"

definition mime_type_scalar :: text_scalar where "mime_type_scalar = regex_scalar id MIME_TYPE_REGEX"
definition MimeTypeField :: "string \<Rightarrow> string result" where "MimeTypeField = new_field mime_type_scalar"

definition PHONE_NUMBER_REGEX :: regex where
  "PHONE_NUMBER_REGEX = all_of [text_of ''+'', exactly 1 (\<lambda>c. c \<in> set ''123456789''), between 6 14 is_digit]"

definition phone_number_scalar :: text_scalar where "phone_number_scalar = regex_scalar id PHONE_NUMBER_REGEX"
definition PhoneNumberField :: "string \<Rightarrow> string result" where "PhoneNumberField = new_field phone_number_scalar"

definition PORT_CODE_REGEX :: regex where
  "PORT_CODE_REGEX = all_of [exactly 2 is_upper, exactly 3 (\<lambda>c. is_upper c \<or> is_digit c)]"

definition port_code_scalar :: text_scalar where "port_code_scalar = regex_scalar str_upper PORT_CODE_REGEX"
definition PortCodeField :: "string \<Rightarrow> string result" where "PortCodeField = new_field port_code_scalar"

definition POSTAL_CODE_REGEX :: regex where
  "POSTAL_CODE_REGEX = all_of [exactly 1 is_alnum, between 1 8 (\<lambda>c. is_alnum c \<or> c = CHR '' '' \<or> c = CHR ''-''), exactly 1 is_alnum]"

definition postal_code_scalar :: text_scalar where "postal_code_scalar = regex_scalar strip POSTAL_CODE_REGEX"
definition PostalCodeField :: "string \<Rightarrow> string result" where "PostalCodeField = new_field postal_code_scalar"

definition SEDOL_REGEX :: regex where
  "SEDOL_REGEX = all_of [exactly 6 (\<lambda>c. is_digit c \<or> is_upper c \<and> c \<notin> set ''AEIOU''), exactly 1 is_digit]"

definition sedol_scalar :: text_scalar where "sedol_scalar = regex_scalar str_upper SEDOL_REGEX"
definition SEDOLField :: "string \<Rightarrow> string result" where "SEDOLField = new_field sedol_scalar"

definition semver_number :: regex where
  "semver_number = one_of [text_of ''0'', all_of [exactly 1 (\<lambda>c. c \<in> set ''123456789''), Star (Chars is_digit)]]"

definition semver_identifier :: regex where
  "semver_identifier = one_of [semver_number, all_of [Star (Chars is_digit), exactly 1 (\<lambda>c. is_lower c \<or> c = CHR ''-''), Star (Chars (\<lambda>c. is_digit c \<or> is_lower c \<or> c = CHR ''-''))]]"

definition semver_build :: regex where
  "semver_build = some_of (Chars (\<lambda>c. is_digit c \<or> is_lower c \<or> c = CHR ''-''))"

definition SEMVER_REGEX :: regex where
  "SEMVER_REGEX = all_of [semver_number, text_of ''.'', semver_number, text_of ''.'', semver_number, optional (all_of [text_of ''-'', semver_identifier, Star (all_of [text_of ''.'', semver_identifier])]), optional (all_of [text_of ''+'', semver_build, Star (all_of [text_of ''.'', semver_build])])]"

definition semantic_version_scalar :: text_scalar where "semantic_version_scalar = regex_scalar id SEMVER_REGEX"
definition SemanticVersionField :: "string \<Rightarrow> string result" where "SemanticVersionField = new_field semantic_version_scalar"

definition SLUG_REGEX :: regex where
  "SLUG_REGEX = all_of [some_of (Chars (\<lambda>c. is_lower c \<or> is_digit c)), Star (all_of [text_of ''-'', some_of (Chars (\<lambda>c. is_lower c \<or> is_digit c))])]"

definition slug_scalar :: text_scalar where "slug_scalar = regex_scalar id SLUG_REGEX"
definition SlugField :: "string \<Rightarrow> string result" where "SlugField = new_field slug_scalar"

definition STOCK_SYMBOL_REGEX :: regex where
  "STOCK_SYMBOL_REGEX = all_of [between 1 5 is_upper, optional (all_of [text_of ''.'', exactly 1 is_upper])]"

definition stock_symbol_scalar :: text_scalar where "stock_symbol_scalar = regex_scalar str_upper STOCK_SYMBOL_REGEX"
definition StockSymbolField :: "string \<Rightarrow> string result" where "StockSymbolField = new_field stock_symbol_scalar"

definition TIME_REGEX :: regex where
  "TIME_REGEX = all_of [one_of [all_of [exactly 1 (\<lambda>c. c \<in> set ''01''), exactly 1 is_digit], all_of [text_of ''2'', exactly 1 (\<lambda>c. c \<in> set ''0123'')]], text_of '':'', exactly 1 (\<lambda>c. c \<in> set ''012345''), exactly 1 is_digit, optional (all_of [text_of '':'', exactly 1 (\<lambda>c. c \<in> set ''012345''), exactly 1 is_digit])]"

definition time_scalar :: text_scalar where "time_scalar = regex_scalar id TIME_REGEX"
definition TimeField :: "string \<Rightarrow> string result" where "TimeField = new_field time_scalar"

definition timezone_part :: regex where
  "timezone_part = all_of [exactly 1 is_upper, some_of (Chars is_lower), Star (Chars (\<lambda>c. is_alpha c \<or> c = CHR ''_''))]"

definition TIMEZONE_REGEX :: regex where
  "TIMEZONE_REGEX = all_of [timezone_part, Repeat (all_of [text_of ''/'', timezone_part]) 1 2]"

definition timezone_scalar :: text_scalar where "timezone_scalar = regex_scalar id TIMEZONE_REGEX"
definition TimezoneField :: "string \<Rightarrow> string result" where "TimezoneField = new_field timezone_scalar"

definition TRACKING_NUMBER_REGEX :: regex where
  "TRACKING_NUMBER_REGEX = between 8 30 (\<lambda>c. is_upper c \<or> is_digit c)"

definition tracking_number_scalar :: text_scalar where "tracking_number_scalar = regex_scalar id TRACKING_NUMBER_REGEX"
definition TrackingNumberField :: "string \<Rightarrow> string result" where "TrackingNumberField = new_field tracking_number_scalar"

subsection \<open>Names of hosts\<close>

text \<open>
  A label neither starts nor ends with a hyphen; the lookarounds of the patterns say this of every
  label, and of the whole name that it is short enough and has no two hyphens in a row.
\<close>

definition dns_label :: regex where
  "dns_label = all_of [exactly 1 is_alnum, optional (all_of [between 0 61 (\<lambda>c. is_alnum c \<or> c = CHR ''-''), exactly 1 is_alnum])]"

definition dns_text :: "regex \<Rightarrow> string \<Rightarrow> bool" where
  "dns_text r s = (length s \<le> 253 \<and> \<not> contains_str ''--'' s \<and> matches r s)"

definition dns_scalar :: "regex \<Rightarrow> text_scalar" where
  "dns_scalar r = \<lparr>prepare = str_lower,
     accept = (\<lambda>s. Inr (if dns_text r s \<or> (s \<noteq> [] \<and> last s = CHR 0x0A \<and> dns_text r (butlast s)) then Some s else None))\<rparr>"

definition DOMAIN_NAME_REGEX :: regex where
  "DOMAIN_NAME_REGEX = all_of [dns_label, Star (all_of [text_of ''.'', dns_label]), text_of ''.'', exactly 2 is_alpha, Star (Chars is_alpha)]"

definition domain_name_scalar :: text_scalar where "domain_name_scalar = dns_scalar DOMAIN_NAME_REGEX"
definition DomainNameField :: "string \<Rightarrow> string result" where "DomainNameField = new_field domain_name_scalar"

definition HOSTNAME_REGEX :: regex where
  "HOSTNAME_REGEX = all_of [Star (all_of [dns_label, text_of ''.'']), dns_label]"

definition hostname_scalar :: text_scalar where "hostname_scalar = dns_scalar HOSTNAME_REGEX"
definition HostnameField :: "string \<Rightarrow> string result" where "HostnameField = new_field hostname_scalar"

subsection \<open>Texts that are not checked on the way out\<close>

definition EMAIL_REGEX :: regex where
  "EMAIL_REGEX = all_of [some_of (Chars (\<lambda>c. c \<noteq> CHR ''@'')), text_of ''@'', some_of (Chars (\<lambda>c. c \<noteq> CHR ''@'')), text_of ''.'',
     some_of (Chars (\<lambda>c. c \<noteq> CHR ''@''))]"

definition serialize_email_address :: "pyval \<Rightarrow> pyval" where "serialize_email_address v = v"

definition parse_email_address :: "pyval \<Rightarrow> string result" where
  "parse_email_address v = (case v of PStr s \<Rightarrow> if re_match EMAIL_REGEX s then Inr s else Inl GraphQLError | _ \<Rightarrow> Inl GraphQLError)"

definition parse_email_literal :: "graphql_literal \<Rightarrow> string result" where
  "parse_email_literal l = (case l of StringLit s \<Rightarrow> parse_email_address (PStr s) | _ \<Rightarrow> Inl GraphQLError)"

definition html_scalar :: text_scalar where "html_scalar = \<lparr>prepare = id, accept = (\<lambda>s. Inr (Some s))\<rparr>"
definition markdown_scalar :: text_scalar where "markdown_scalar = \<lparr>prepare = id, accept = (\<lambda>s. Inr (Some s))\<rparr>"

definition parse_ltree_value :: "pyval \<Rightarrow> string result" where
  "parse_ltree_value v = (case v of PStr s \<Rightarrow> Inr s | _ \<Rightarrow> Inl GraphQLError)"

definition parse_ltree_literal :: "graphql_literal \<Rightarrow> string result" where
  "parse_ltree_literal l = (case l of StringLit s \<Rightarrow> Inr s | _ \<Rightarrow> Inl GraphQLError)"

subsection \<open>MAC addresses\<close>

definition MAC_PATTERNS :: "regex list" where
  "MAC_PATTERNS =
     [all_of [Repeat (all_of [exactly 2 is_hex, text_of '':'']) 5 5, exactly 2 is_hex],
      all_of [Repeat (all_of [exactly 2 is_hex, text_of ''-'']) 5 5, exactly 2 is_hex],
      all_of [Repeat (all_of [exactly 4 is_hex, text_of ''.'']) 2 2, exactly 4 is_hex],
      exactly 12 is_hex]"

definition upper_hex :: "char \<Rightarrow> bool" where "upper_hex c = (c \<in> set ''0123456789ABCDEF'')"

fun pairs_text :: "string \<Rightarrow> string list" where
  "pairs_text (a # b # s) = [a, b] # pairs_text s"
| "pairs_text s = (if s = [] then [] else [s])"

definition normalize_mac_address :: "string \<Rightarrow> string result" where
  "normalize_mac_address mac =
     (let clean = filter (\<lambda>c. c \<notin> set '':-.'') (str_upper mac) in
      if length clean \<noteq> 12 \<or> \<not> list_all upper_hex clean then Inl ValueError
      else Inr (join_str '':'' (pairs_text clean)))"

definition mac_address_scalar :: text_scalar where
  "mac_address_scalar = \<lparr>prepare = id,
     accept = (\<lambda>s. if list_ex (\<lambda>p. re_match p s) MAC_PATTERNS
                    then Inr (case normalize_mac_address s of Inr t \<Rightarrow> Some t | Inl _ \<Rightarrow> None) else Inr None)\<rparr>"

definition MacAddressField :: "string \<Rightarrow> string result" where "MacAddressField = new_field mac_address_scalar"

subsection \<open>Numbers with check digits\<close>

text \<open>The value of a letter counts from ten.\<close>

definition letter_value :: "char \<Rightarrow> int" where "letter_value c = int (of_char c) - 55"

definition IBAN_REGEX :: regex where
  "IBAN_REGEX = all_of [exactly 2 is_upper, exactly 2 is_digit, between 11 30 (\<lambda>c. is_upper c \<or> is_digit c)]"

definition IBAN_LENGTHS :: "(string \<times> nat) list" where
  "IBAN_LENGTHS = [
    (''AL'', 28), (''AD'', 24), (''AT'', 20), (''AZ'', 28), (''BH'', 22), (''BY'', 28), (''BE'', 16),
    (''BA'', 20), (''BR'', 29), (''BG'', 22), (''CR'', 22), (''HR'', 21), (''CY'', 28), (''CZ'', 24),
    (''DK'', 18), (''DO'', 28), (''EG'', 29), (''EE'', 20), (''FO'', 18), (''FI'', 18), (''FR'', 27),
    (''GE'', 22), (''DE'', 22), (''GI'', 23), (''GR'', 27), (''GL'', 18), (''GT'', 28), (''HU'', 28),
    (''IS'', 26), (''IQ'', 23), (''IE'', 22), (''IL'', 23), (''IT'', 27), (''JO'', 30), (''KZ'', 20),
    (''XK'', 20), (''KW'', 30), (''LV'', 21), (''LB'', 28), (''LY'', 25), (''LI'', 21), (''LT'', 20),
    (''LU'', 20), (''MK'', 19), (''MT'', 31), (''MR'', 27), (''MU'', 30), (''MD'', 24), (''MC'', 27),
    (''ME'', 22), (''NL'', 18), (''NO'', 15), (''PK'', 24), (''PS'', 29), (''PL'', 28), (''PT'', 25),
    (''QA'', 29), (''RO'', 24), (''LC'', 32), (''SM'', 27), (''ST'', 25), (''SA'', 24), (''RS'', 22),
    (''SC'', 31), (''SK'', 24), (''SI'', 19), (''ES'', 24), (''SE'', 24), (''CH'', 21), (''TL'', 23),
    (''TN'', 24), (''TR'', 26), (''UA'', 29), (''AE'', 23), (''GB'', 22), (''VA'', 22), (''VG'', 24),
    (''DZ'', 24), (''AO'', 25), (''BJ'', 28), (''BF'', 28), (''BI'', 16), (''CM'', 27), (''CV'', 25),
    (''CF'', 27), (''TD'', 27), (''KM'', 27), (''CG'', 27), (''DJ'', 27), (''GQ'', 27), (''GA'', 27),
    (''GW'', 25), (''HN'', 28), (''IR'', 26), (''CI'', 28), (''MG'', 27), (''ML'', 28), (''MA'', 28),
    (''MZ'', 25), (''NI'', 32), (''NE'', 28), (''SN'', 28), (''TG'', 28)]"

definition iban_numeric :: "string \<Rightarrow> string" where
  "iban_numeric s = concat (map (\<lambda>c. if is_digit c then [c] else int_str (letter_value c)) s)"

definition validate_iban_check_digits :: "string \<Rightarrow> bool" where
  "validate_iban_check_digits iban =
     (case int_of_str (iban_numeric (drop 4 iban @ take 4 iban)) of None \<Rightarrow> False | Some n \<Rightarrow> n mod 97 = 1)"

definition iban_check :: "string \<Rightarrow> bool" where
  "iban_check s =
     ((case map_of IBAN_LENGTHS (take 2 s) of None \<Rightarrow> True | Some n \<Rightarrow> length s = n) \<and> validate_iban_check_digits s)"

definition iban_prepare :: "string \<Rightarrow> string" where
  "iban_prepare s = filter (\<lambda>c. c \<noteq> CHR '' '') (str_upper s)"

definition iban_scalar :: text_scalar where
  "iban_scalar = checked_scalar iban_prepare IBAN_REGEX (\<lambda>s. Inr (iban_check s))"
definition IBANField :: "string \<Rightarrow> string result" where "IBANField = new_field iban_scalar"

definition ISIN_REGEX :: regex where
  "ISIN_REGEX = all_of [exactly 2 is_upper, exactly 9 (\<lambda>c. is_upper c \<or> is_digit c), exactly 1 is_digit]"

definition isin_digits :: "string \<Rightarrow> int list" where
  "isin_digits s = concat (map (\<lambda>c. if is_digit c then [int (of_char c) - 48] else [letter_value c div 10, letter_value c mod 10]) s)"

text \<open>The sum over the digits from the right; every other one, the first included, is doubled.\<close>

definition luhn_double :: "int \<Rightarrow> int" where
  "luhn_double d = (if 2 * d < 10 then 2 * d else 2 * d - 9)"

fun luhn_total :: "bool \<Rightarrow> int list \<Rightarrow> int" where
  "luhn_total twice [] = 0"
| "luhn_total twice (d # ds) = (if twice then luhn_double d else d) + luhn_total (\<not> twice) ds"

definition validate_isin_check_digit :: "string \<Rightarrow> bool result" where
  "validate_isin_check_digit isin =
     (let total = luhn_total True (rev (isin_digits (butlast isin)));
          check_digit = (10 - total mod 10) mod 10
      in rbind (of_option ValueError (int_of_str [last isin])) (\<lambda>n. Inr (check_digit = n)))"

definition isin_scalar :: text_scalar where
  "isin_scalar = checked_scalar str_upper ISIN_REGEX validate_isin_check_digit"
definition ISINField :: "string \<Rightarrow> string result" where "ISINField = new_field isin_scalar"

definition CONTAINER_NUMBER_REGEX :: regex where
  "CONTAINER_NUMBER_REGEX = all_of [exactly 3 is_upper, exactly 1 (\<lambda>c. c \<in> set ''UJZ''), exactly 6 is_digit, exactly 1 is_digit]"

definition CHAR_VALUES :: "(char \<times> int) list" where
  "CHAR_VALUES = [
    (CHR ''0'', 0), (CHR ''1'', 1), (CHR ''2'', 2), (CHR ''3'', 3), (CHR ''4'', 4), (CHR ''5'', 5), 
    (CHR ''6'', 6), (CHR ''7'', 7), (CHR ''8'', 8), (CHR ''9'', 9), (CHR ''A'', 10), (CHR ''B'', 12), 
    (CHR ''C'', 13), (CHR ''D'', 14), (CHR ''E'', 15), (CHR ''F'', 16), (CHR ''G'', 17), (CHR ''H'', 18), 
    (CHR ''I'', 19), (CHR ''J'', 20), (CHR ''K'', 21), (CHR ''L'', 23), (CHR ''M'', 24), (CHR ''N'', 25), 
    (CHR ''O'', 26), (CHR ''P'', 27), (CHR ''Q'', 28), (CHR ''R'', 29), (CHR ''S'', 30), (CHR ''T'', 31), 
    (CHR ''U'', 32), (CHR ''V'', 34), (CHR ''W'', 35), (CHR ''X'', 36), (CHR ''Y'', 37), (CHR ''Z'', 38)]"

fun weighted_sum :: "(char \<times> int) list \<Rightarrow> int list \<Rightarrow> string \<Rightarrow> int option" where
  "weighted_sum tab [] s = Some 0"
| "weighted_sum tab (w # ws) [] = Some 0"
| "weighted_sum tab (w # ws) (c # s) =
     (case map_of tab c of None \<Rightarrow> None | Some v \<Rightarrow> map_option (\<lambda>t. v * w + t) (weighted_sum tab ws s))"

definition calculate_iso6346_check_digit :: "string \<Rightarrow> int result" where
  "calculate_iso6346_check_digit container =
     (if length container \<noteq> 11 then Inl ValueError
      else rbind (of_option ValueError (weighted_sum CHAR_VALUES (map (\<lambda>i. 2 ^ i) [0..<10]) (map to_upper (take 10 container))))
             (\<lambda>total. Inr ((total mod 11) mod 10)))"

definition validate_container_check_digit :: "string \<Rightarrow> bool" where
  "validate_container_check_digit container =
     (if length container \<noteq> 11 then False
      else case calculate_iso6346_check_digit container of
        Inl _ \<Rightarrow> False
      | Inr d \<Rightarrow> (case int_of_str [container ! 10] of None \<Rightarrow> False | Some n \<Rightarrow> d = n))"

definition container_number_scalar :: text_scalar where
  "container_number_scalar = checked_scalar str_upper CONTAINER_NUMBER_REGEX (\<lambda>s. Inr (validate_container_check_digit s))"
definition ContainerNumberField :: "string \<Rightarrow> string result" where "ContainerNumberField = new_field container_number_scalar"

definition VIN_REGEX :: regex where
  "VIN_REGEX = exactly 17 (\<lambda>c. is_digit c \<or> is_upper c \<and> c \<notin> set ''IOQ'')"

definition VIN_CHAR_VALUES :: "(char \<times> int) list" where
  "VIN_CHAR_VALUES = [
    (CHR ''0'', 0), (CHR ''1'', 1), (CHR ''2'', 2), (CHR ''3'', 3), (CHR ''4'', 4), (CHR ''5'', 5), 
    (CHR ''6'', 6), (CHR ''7'', 7), (CHR ''8'', 8), (CHR ''9'', 9), (CHR ''A'', 1), (CHR ''B'', 2), 
    (CHR ''C'', 3), (CHR ''D'', 4), (CHR ''E'', 5), (CHR ''F'', 6), (CHR ''G'', 7), (CHR ''H'', 8), 
    (CHR ''I'', 9), (CHR ''J'', 1), (CHR ''K'', 2), (CHR ''L'', 3), (CHR ''M'', 4), (CHR ''N'', 5), 
    (CHR ''O'', 0), (CHR ''P'', 7), (CHR ''Q'', 0), (CHR ''R'', 9), (CHR ''S'', 2), (CHR ''T'', 3), 
    (CHR ''U'', 4), (CHR ''V'', 5), (CHR ''W'', 6), (CHR ''X'', 7), (CHR ''Y'', 8), (CHR ''Z'', 9)]"

definition VIN_WEIGHTS :: "int list" where
  "VIN_WEIGHTS = [8, 7, 6, 5, 4, 3, 2, 10, 0, 9, 8, 7, 6, 5, 4, 3, 2]"

definition calculate_vin_check_digit :: "string \<Rightarrow> string result" where
  "calculate_vin_check_digit vin =
     (if length vin \<noteq> 17 then Inl ValueError
      else rbind (of_option ValueError (weighted_sum VIN_CHAR_VALUES VIN_WEIGHTS (map to_upper vin)))
             (\<lambda>total. Inr (if total mod 11 = 10 then ''X'' else int_str (total mod 11))))"

definition validate_vin_check_digit :: "string \<Rightarrow> bool" where
  "validate_vin_check_digit vin =
     (if length vin \<noteq> 17 then False
      else case calculate_vin_check_digit vin of Inl _ \<Rightarrow> False | Inr d \<Rightarrow> map to_upper d = [to_upper (vin ! 8)])"

definition vin_scalar :: text_scalar where
  "vin_scalar = checked_scalar str_upper VIN_REGEX (\<lambda>s. Inr (validate_vin_check_digit s))"
definition VINField :: "string \<Rightarrow> string result" where "VINField = new_field vin_scalar"

end
