(* ===== verification/NumberScalars.thy ===== *)
theory NumberScalars
  imports Scalars
begin

section \<open>Scalars of numbers and dates\<close>

text \<open>
  \<open>money.py\<close>, \<open>exchange_rate.py\<close> and \<open>percentage.py\<close> (a number is written with a fixed number of
  decimals and without trailing zeros), \<open>port.py\<close>, \<open>vector.py\<close>, \<open>daterange.py\<close> and \<open>json.py\<close>.
\<close>

subsection \<open>Decimal numbers\<close>

text \<open>
  The text of a \<open>Decimal\<close> or a float: sign, digits, point, exponent; anything else (\<open>nan\<close>, \<open>inf\<close>) is no
  number here.  The value is the coefficient times a power of ten.
\<close>

definition split_sign :: "string \<Rightarrow> bool \<times> string" where
  "split_sign s = (case s of c # t \<Rightarrow> if c = CHR ''-'' then (True, t) else if c = CHR ''+'' then (False, t) else (False, s) | [] \<Rightarrow> (False, s))"

definition parse_decimal :: "string \<Rightarrow> (bool \<times> nat \<times> int) option" where
  "parse_decimal s =
     (let (neg, t) = split_sign s;
          mantissa = takeWhile (\<lambda>c. c \<noteq> CHR ''e'' \<and> c \<noteq> CHR ''E'') t;
          rest = drop (length mantissa) t;
          whole = takeWhile (\<lambda>c. c \<noteq> CHR ''.'') mantissa;
          fraction = drop (Suc (length whole)) mantissa;
          digits = whole @ fraction
      in if digits = [] \<or> \<not> list_all is_digit digits then None
         else case nat_of_str digits of
           None \<Rightarrow> None
         | Some n \<Rightarrow>
             (if rest = [] then Some (neg, n, - int (length fraction))
              else case split_sign (tl rest) of
                (eneg, es) \<Rightarrow>
                  if es = [] \<or> \<not> list_all is_digit es then None
                  else (case nat_of_str es of
                          None \<Rightarrow> None
                        | Some e \<Rightarrow> Some (neg, n, (if eneg then - int e else int e) - int (length fraction)))))"

text \<open>Rounding half to even.\<close>

definition round_half_even :: "nat \<Rightarrow> nat \<Rightarrow> nat" where
  "round_half_even n d =
     (let q = n div d; r = n mod d in if 2 * r > d \<or> (2 * r = d \<and> odd q) then q + 1 else q)"

text \<open>\<open>f"{value:.kf}"\<close>\<close>

definition scaled :: "nat \<Rightarrow> nat \<Rightarrow> int \<Rightarrow> nat" where
  "scaled k n e =
     (if e + int k \<ge> 0 then n * 10 ^ nat (e + int k) else round_half_even n (10 ^ nat (- (e + int k))))"

definition pad_zeros :: "nat \<Rightarrow> string \<Rightarrow> string" where
  "pad_zeros k s = replicate (k - length s) (CHR ''0'') @ s"

definition fixed_text :: "nat \<Rightarrow> bool \<times> nat \<times> int \<Rightarrow> string" where
  "fixed_text k d =
     (case d of (neg, n, e) \<Rightarrow>
        (let ds = pad_zeros (Suc k) (int_str (int (scaled k n e)))
         in (if neg then ''-'' else []) @ take (length ds - k) ds @ CHR ''.'' # drop (length ds - k) ds))"

definition rstrip_char :: "char \<Rightarrow> string \<Rightarrow> string" where
  "rstrip_char c s = rev (dropWhile (\<lambda>d. d = c) (rev s))"

definition trimmed :: "string \<Rightarrow> string" where
  "trimmed s = rstrip_char (CHR ''.'') (rstrip_char (CHR ''0'') s)"

text \<open>\<open>Decimal("True")\<close> raises, and no handler catches it.  A value that is no number formats to a name.\<close>

definition number_text :: "nat \<Rightarrow> pyval \<Rightarrow> string result" where
  "number_text k v =
     (case v of
        PBool b \<Rightarrow> Inl InvalidOperation
      | PInt i \<Rightarrow> Inr (trimmed (fixed_text k (i < 0, nat \<bar>i\<bar>, 0)))
      | _ \<Rightarrow> (case parse_decimal (py_str v) of Some d \<Rightarrow> Inr (trimmed (fixed_text k d)) | None \<Rightarrow> Inr ''NaN''))"

definition number_value :: "pyval \<Rightarrow> bool" where
  "number_value v = (is_int v \<or> is_float v \<or> is_decimal v)"

definition serialize_number :: "nat \<Rightarrow> regex \<Rightarrow> pyval \<Rightarrow> string option result" where
  "serialize_number k r v =
     (if v = PNone then Inr None
      else rbind (if number_value v then number_text k v else Inr (py_str v))
             (\<lambda>s. if re_match r s then Inr (Some s) else Inl GraphQLError))"

definition parse_number :: "py_error \<Rightarrow> py_error \<Rightarrow> nat \<Rightarrow> regex \<Rightarrow> pyval \<Rightarrow> string result" where
  "parse_number type_error value_error k r v =
     (if number_value v then rbind (number_text k v) (\<lambda>s. if re_match r s then Inr s else Inl value_error)
      else case v of PStr s \<Rightarrow> if re_match r s then Inr s else Inl value_error | _ \<Rightarrow> Inl type_error)"

definition parse_number_literal :: "nat \<Rightarrow> regex \<Rightarrow> graphql_literal \<Rightarrow> string result" where
  "parse_number_literal k r l =
     (case l of StringLit s \<Rightarrow> parse_number GraphQLError GraphQLError k r (PStr s) | _ \<Rightarrow> Inl GraphQLError)"

definition EXCHANGE_RATE_REGEX :: regex where
  "EXCHANGE_RATE_REGEX = all_of [between 1 12 is_digit, optional (all_of [text_of ''.'', between 1 8 is_digit])]"

definition serialize_exchange_rate :: "pyval \<Rightarrow> string option result" where
  "serialize_exchange_rate = serialize_number 8 EXCHANGE_RATE_REGEX"
definition parse_exchange_rate_value :: "pyval \<Rightarrow> string result" where
  "parse_exchange_rate_value = parse_number GraphQLError GraphQLError 8 EXCHANGE_RATE_REGEX"
definition ExchangeRateField :: "pyval \<Rightarrow> string result" where
  "ExchangeRateField = parse_number TypeError ValueError 8 EXCHANGE_RATE_REGEX"

definition MONEY_REGEX :: regex where
  "MONEY_REGEX = all_of [optional (text_of ''-''), between 1 15 is_digit, optional (all_of [text_of ''.'', between 1 4 is_digit])]"

definition serialize_money :: "pyval \<Rightarrow> string option result" where
  "serialize_money = serialize_number 4 MONEY_REGEX"
definition parse_money_value :: "pyval \<Rightarrow> string result" where
  "parse_money_value = parse_number GraphQLError GraphQLError 4 MONEY_REGEX"
definition MoneyField :: "pyval \<Rightarrow> string result" where
  "MoneyField = parse_number TypeError ValueError 4 MONEY_REGEX"

definition PERCENTAGE_REGEX :: regex where
  "PERCENTAGE_REGEX =
     one_of [all_of [text_of ''100'', optional (all_of [text_of ''.0'', optional (text_of ''0'')])],
             all_of [between 0 1 (\<lambda>c. c \<in> set ''123456789''), exactly 1 is_digit, optional (all_of [text_of ''.'', between 1 2 is_digit])]]"

definition serialize_percentage :: "pyval \<Rightarrow> string option result" where
  "serialize_percentage = serialize_number 2 PERCENTAGE_REGEX"
definition parse_percentage_value :: "pyval \<Rightarrow> string result" where
  "parse_percentage_value = parse_number GraphQLError GraphQLError 2 PERCENTAGE_REGEX"
definition PercentageField :: "pyval \<Rightarrow> string result" where
  "PercentageField = parse_number TypeError ValueError 2 PERCENTAGE_REGEX"

subsection \<open>Ports\<close>

definition port_in_range :: "int \<Rightarrow> bool" where "port_in_range i = (1 \<le> i \<and> i \<le> 65535)"

text \<open>An infinite float raises an \<open>OverflowError\<close> that is not caught.\<close>

definition serialize_port :: "py_runtime \<Rightarrow> pyval \<Rightarrow> int option result" where
  "serialize_port rt v =
     (if v = PNone then Inr None
      else case py_int rt v of
        Inl e \<Rightarrow> Inl (if e = TypeError \<or> e = ValueError then GraphQLError else e)
      | Inr i \<Rightarrow> if port_in_range i then Inr (Some i) else Inl GraphQLError)"

text \<open>A boolean is an integer, and is returned as it is.\<close>

definition parse_port_value :: "pyval \<Rightarrow> pyval result" where
  "parse_port_value v =
     (case v of
        PInt i \<Rightarrow> if port_in_range i then Inr v else Inl GraphQLError
      | PBool b \<Rightarrow> if b then Inr v else Inl GraphQLError
      | _ \<Rightarrow> Inl GraphQLError)"

definition parse_port_literal :: "graphql_literal \<Rightarrow> int result" where
  "parse_port_literal l =
     (case l of
        IntLit s \<Rightarrow> rbind (of_option ValueError (int_of_str s)) (\<lambda>i. if port_in_range i then Inr i else Inl GraphQLError)
      | _ \<Rightarrow> Inl GraphQLError)"

definition PortField :: "int \<Rightarrow> int result" where
  "PortField i = (if port_in_range i then Inr i else Inl ValueError)"

subsection \<open>Vectors\<close>

definition parse_vector_value :: "py_runtime \<Rightarrow> pyval \<Rightarrow> pyval list result" where
  "parse_vector_value rt v =
     (case v of
        PList vs \<Rightarrow> if list_all (\<lambda>x. is_int x \<or> is_float x) vs then map_result (py_float rt) vs else Inl GraphQLError
      | _ \<Rightarrow> Inl GraphQLError)"

definition serialize_vector :: "py_runtime \<Rightarrow> pyval \<Rightarrow> pyval list result" where
  "serialize_vector = parse_vector_value"

subsection \<open>Date ranges\<close>

text \<open>The groups of the pattern are the two dates of ten characters; blanks may follow the comma.\<close>

definition date_text :: "string \<Rightarrow> bool" where
  "date_text s = (length s = 10 \<and> list_all is_digit (take 4 s) \<and> s ! 4 = CHR ''-'' \<and> list_all is_digit (take 2 (drop 5 s))
     \<and> s ! 7 = CHR ''-'' \<and> list_all is_digit (drop 8 s))"

definition is_valid_date :: "string \<Rightarrow> bool" where
  "is_valid_date s =
     (case (nat_of_str (take 4 s), nat_of_str (take 2 (drop 5 s)), nat_of_str (drop 8 s)) of
        (Some y, Some m, Some d) \<Rightarrow> valid_date (Date y m d)
      | _ \<Rightarrow> False)"

definition range_body :: "string \<Rightarrow> (string \<times> string) option" where
  "range_body s =
     (let a = take 10 s; rest = drop 10 s in
      if date_text a \<and> rest \<noteq> [] \<and> hd rest = CHR '',''
      then (let b = dropWhile is_space (tl rest) in if date_text b then Some (a, b) else None)
      else None)"

definition strip_newline :: "string \<Rightarrow> string" where
  "strip_newline s = (if s \<noteq> [] \<and> last s = CHR 0x0A then butlast s else s)"

definition range_of_value :: "string \<Rightarrow> (string \<times> string) option" where
  "range_of_value s =
     (if length s < 2 \<or> hd s \<notin> set ''[('' \<or> last s \<notin> set '')]'' then None else range_body (butlast (tl s)))"

definition checked_range :: "string \<Rightarrow> (string \<times> string) option \<Rightarrow> string result" where
  "checked_range s groups =
     (case groups of
        None \<Rightarrow> Inl GraphQLError
      | Some (a, b) \<Rightarrow> if is_valid_date a \<and> is_valid_date b then Inr s else Inl GraphQLError)"

definition parse_date_range_value :: "pyval \<Rightarrow> string option result" where
  "parse_date_range_value v =
     (case v of
        PNone \<Rightarrow> Inr None
      | PStr s \<Rightarrow> rbind (checked_range s (range_of_value (strip_newline s))) (\<lambda>t. Inr (Some t))
      | _ \<Rightarrow> Inl GraphQLError)"

text \<open>In a literal each bracket may be missing.\<close>

definition drop_char :: "char \<Rightarrow> string \<Rightarrow> string" where
  "drop_char c s = (case s of d # t \<Rightarrow> if d = c then t else s | [] \<Rightarrow> [])"

definition range_of_literal :: "string \<Rightarrow> (string \<times> string) option" where
  "range_of_literal s =
     range_body (rev (drop_char (CHR '')'') (drop_char (CHR '']'') (rev (drop_char (CHR ''('') (drop_char (CHR ''['') s))))))"

definition parse_date_range_literal :: "graphql_literal \<Rightarrow> string result" where
  "parse_date_range_literal l =
     (case l of StringLit s \<Rightarrow> checked_range s (range_of_literal (strip_newline s)) | _ \<Rightarrow> Inl GraphQLError)"

definition serialize_date_range :: "pyval \<Rightarrow> string result" where
  "serialize_date_range v = (case v of PStr s \<Rightarrow> Inr s | _ \<Rightarrow> Inl GraphQLError)"

subsection \<open>JSON\<close>

definition serialize_json :: "pyval \<Rightarrow> pyval result" where
  "serialize_json v = (case json_dumps v of Inr _ \<Rightarrow> Inr v | Inl _ \<Rightarrow> Inl GraphQLError)"

definition parse_json_value :: "pyval \<Rightarrow> pyval result" where
  "parse_json_value v =
     (if is_dict v \<or> is_list v \<or> is_str v \<or> is_int v \<or> is_float v \<or> v = PNone then Inr v else Inl GraphQLError)"

end
