(* ===== verification/ScalarProps.thy ===== *)
theory ScalarProps
  imports NumberScalars
begin

section \<open>What the scalars accept\<close>

text \<open>
  The matcher decides the meaning of a pattern, a scalar accepts its own output unchanged, check digits
  catch a mistyped or swapped character.
\<close>

subsection \<open>The matcher\<close>

lemma re_match_exact:
  "re_match r s \<longleftrightarrow> s \<in> lang r \<or> (\<exists>t. s = t @ [CHR 0x0A] \<and> t \<in> lang r)"
proof -
  have "(s \<noteq> [] \<and> last s = CHR 0x0A \<and> butlast s \<in> lang r) \<longleftrightarrow> (\<exists>t. s = t @ [CHR 0x0A] \<and> t \<in> lang r)"
    by (metis append_butlast_last_id butlast_snoc last_snoc snoc_eq_iff_butlast)
  then show ?thesis by (simp add: re_match_def matches_lang)
qed

lemma re_match_lang:
  "re_match r s \<Longrightarrow> \<exists>t. (s = t \<or> s = t @ [CHR 0x0A]) \<and> t \<in> lang r"
  by (auto simp: re_match_def matches_lang) (metis append_butlast_last_id)

subsection \<open>Case\<close>

lemma str_upper_append: "str_upper (s @ t) = str_upper s @ str_upper t"
  by (simp add: str_upper_def)

lemma str_upper_fix: "(\<And>c. c \<in> set s \<Longrightarrow> str_upper [c] = [c]) \<Longrightarrow> str_upper s = s"
proof (induction s)
  case (Cons c s)
  have "str_upper [c] = [c]" "str_upper s = s" using Cons by simp_all
  then show ?case using str_upper_append [of "[c]" s] by simp
qed (simp add: str_upper_def)

lemma str_upper_set: "d \<in> set (str_upper s) \<Longrightarrow> str_upper [d] = [d]"
proof (induction s)
  case (Cons c s)
  have "str_upper [d] = [d]" if "d \<in> set (str_upper [c])"
    using that by (auto simp: str_upper_def Let_def to_upper_def is_lower_def of_char_char_of_small split: if_splits)
  with Cons show ?case using str_upper_append [of "[c]" s] by auto
qed (simp add: str_upper_def)

lemma str_upper_idem: "str_upper (str_upper s) = str_upper s"
  by (rule str_upper_fix) (rule str_upper_set)

lemma str_lower_idem: "str_lower (str_lower s) = str_lower s"
proof (induction s)
  case (Cons c s)
  have "str_lower (str_lower [c]) = str_lower [c]"
    by (auto simp: str_lower_def Let_def to_lower_def is_upper_def of_char_char_of_small)
  with Cons show ?case by (simp add: str_lower_def)
qed (simp add: str_lower_def)

lemma dropWhile_hd: "xs = [] \<or> \<not> P (hd xs) \<Longrightarrow> dropWhile P xs = xs"
  by (cases xs) auto

lemma strip_idem: "strip (strip s) = strip s"
proof -
  define u where "u = dropWhile is_space s"
  define t where "t = rev (dropWhile is_space (rev u))"
  have "rev u = takeWhile is_space (rev u) @ dropWhile is_space (rev u)" by simp
  then have u: "u = t @ rev (takeWhile is_space (rev u))" unfolding t_def by (metis rev_append rev_rev_ident)
  have "t = [] \<or> \<not> is_space (hd t)"
  proof (cases "t = []")
    case False
    then have "hd t = hd u" "u \<noteq> []" using u by (metis hd_append2, metis append_is_Nil_conv)
    then show ?thesis unfolding u_def by (simp add: hd_dropWhile)
  qed simp
  moreover have "rev t = [] \<or> \<not> is_space (hd (rev t))"
    using hd_dropWhile [of is_space "rev u"] by (cases "dropWhile is_space (rev u) = []") (simp_all add: t_def)
  ultimately have "strip t = t" by (simp add: strip_def dropWhile_hd)
  then show ?thesis by (simp add: t_def u_def strip_def)
qed

subsection \<open>A scalar accepts its own output\<close>

text \<open>
  All the scalars whose four functions have the shape \<open>text_scalar\<close>.  The e-mail address is not one of them:
  its \<open>serialize\<close> returns the value unchecked.
\<close>

definition TEXT_SCALARS :: "text_scalar list" where
  "TEXT_SCALARS =
     [airport_code_scalar, api_key_scalar, color_scalar, currency_code_scalar, cusip_scalar, duration_scalar,
      exchange_code_scalar, file_scalar, flight_number_scalar, hash_sha256_scalar, image_scalar, language_code_scalar,
      latitude_scalar, lei_scalar, license_plate_scalar, locale_code_scalar, longitude_scalar, mic_scalar, mime_type_scalar,
      phone_number_scalar, port_code_scalar, postal_code_scalar, sedol_scalar, semantic_version_scalar, slug_scalar,
      stock_symbol_scalar, time_scalar, timezone_scalar, tracking_number_scalar, domain_name_scalar, hostname_scalar,
      html_scalar, markdown_scalar, mac_address_scalar, iban_scalar, isin_scalar, container_number_scalar, vin_scalar]"

definition stable_scalar :: "text_scalar \<Rightarrow> bool" where
  "stable_scalar ts \<longleftrightarrow> (\<forall>s t. accept ts (prepare ts s) = Inr (Some t) \<longrightarrow> prepare ts t = t \<and> accept ts t = Inr (Some t))"

lemma stable_regex: "(\<And>s. prep (prep s) = prep s) \<Longrightarrow> stable_scalar (regex_scalar prep r)"
  by (simp add: stable_scalar_def regex_scalar_def)

lemma stable_checked: "(\<And>s. prep (prep s) = prep s) \<Longrightarrow> stable_scalar (checked_scalar prep r check)"
  by (auto simp: stable_scalar_def checked_scalar_def rbind_eq_Inr split: if_splits)

lemma stable_dns: "stable_scalar (dns_scalar r)"
  by (simp add: stable_scalar_def dns_scalar_def str_lower_idem)

lemma iban_prepare_idem: "iban_prepare (iban_prepare s) = iban_prepare s"
proof -
  have "str_upper (iban_prepare s) = iban_prepare s"
    by (rule str_upper_fix) (auto simp: iban_prepare_def dest: str_upper_set)
  then show ?thesis by (simp add: iban_prepare_def)
qed

lemma upper_hex_facts: "upper_hex c \<Longrightarrow> is_hex c \<and> str_upper [c] = [c] \<and> c \<noteq> CHR '':'' \<and> c \<noteq> CHR ''-'' \<and> c \<noteq> CHR ''.''"
proof -
  have "list_all (\<lambda>c. is_hex c \<and> str_upper [c] = [c] \<and> c \<noteq> CHR '':'' \<and> c \<noteq> CHR ''-'' \<and> c \<noteq> CHR ''.'') ''0123456789ABCDEF''"
    by code_simp
  then show "upper_hex c \<Longrightarrow> ?thesis" unfolding list_all_iff upper_hex_def by blast
qed

lemma stable_mac: "stable_scalar mac_address_scalar"
proof -
  have "accept mac_address_scalar t = Inr (Some t)" if acc: "accept mac_address_scalar s = Inr (Some t)" for s t
  proof -
    have n: "normalize_mac_address s = Inr t"
      using acc by (auto simp: mac_address_scalar_def split: if_splits sum.splits)
    define clean where "clean = filter (\<lambda>c. c \<notin> set '':-.'') (str_upper s)"
    from n have c: "length clean = 12" "list_all upper_hex clean" "t = join_str '':'' (pairs_text clean)"
      unfolding normalize_mac_address_def Let_def clean_def [symmetric] by (auto split: if_splits)
    then obtain a b c d e f g h i j k l where cl: "clean = [a, b, c, d, e, f, g, h, i, j, k, l]"
      by (auto simp: length_Suc_conv numeral_eq_Suc)
    let ?u = "[a, b, CHR '':'', c, d, CHR '':'', e, f, CHR '':'', g, h, CHR '':'', i, j, CHR '':'', k, l]"
    have t: "t = ?u" using c(3) cl by simp
    have hex: "upper_hex x" if "x \<in> set clean" for x using c(2) that by (simp add: list_all_iff)
    have colon: "str_upper '':'' = '':''" by code_simp
    have "set ?u = insert (CHR '':'') (set clean)" unfolding cl by auto
    then have cases: "x = CHR '':'' \<or> x \<in> set clean" if "x \<in> set ?u" for x using that by (simp only: insert_iff)
    have "str_upper ?u = ?u"
    proof (rule str_upper_fix)
      fix x
      assume "x \<in> set ?u"
      from cases [OF this] show "str_upper [x] = [x]"
        using colon hex [of x, THEN upper_hex_facts] by (elim disjE) (simp_all only:)
    qed
    moreover have "filter (\<lambda>c. c \<notin> set '':-.'') ?u = clean"
    proof -
      have "x \<notin> set '':-.''" if "x \<in> set clean" for x using hex [OF that, THEN upper_hex_facts] by simp
      then have sep: "a \<notin> set '':-.''" "b \<notin> set '':-.''" "c \<notin> set '':-.''" "d \<notin> set '':-.''" "e \<notin> set '':-.''" "f \<notin> set '':-.''"
        "g \<notin> set '':-.''" "h \<notin> set '':-.''" "i \<notin> set '':-.''" "j \<notin> set '':-.''" "k \<notin> set '':-.''" "l \<notin> set '':-.''"
        unfolding cl by simp_all
      moreover have "CHR '':'' \<in> set '':-.''" by simp
      ultimately show ?thesis unfolding cl by (simp only: filter.simps if_True if_False not_not simp_thms)
    qed
    ultimately have e: "filter (\<lambda>c. c \<notin> set '':-.'') (str_upper t) = clean" unfolding t by (simp only:)
    have "normalize_mac_address t = Inr t"
      unfolding normalize_mac_address_def Let_def e using c by (simp only: simp_thms if_False)
    moreover have "is_hex a" "is_hex b" "is_hex c" "is_hex d" "is_hex e" "is_hex f" "is_hex g" "is_hex h" "is_hex i" "is_hex j" "is_hex k" "is_hex l"
      using hex [THEN upper_hex_facts] unfolding cl by simp_all
    moreover from calculation(2-) have "matches (hd MAC_PATTERNS) ?u"
      by (simp add: MAC_PATTERNS_def exactly_def all_of_def text_of_def)
    ultimately show ?thesis unfolding t by (simp add: mac_address_scalar_def MAC_PATTERNS_def re_match_def)
  qed
  then show ?thesis by (simp add: stable_scalar_def mac_address_scalar_def)
qed

lemma text_scalars_stable: "ts \<in> set TEXT_SCALARS \<Longrightarrow> stable_scalar ts"
proof -
  have "\<forall>ts \<in> set TEXT_SCALARS. stable_scalar ts"
    unfolding TEXT_SCALARS_def list.set ball_simps insert_iff
    by (intro conjI)
      (simp_all add: stable_mac stable_dns domain_name_scalar_def hostname_scalar_def html_scalar_def markdown_scalar_def
        airport_code_scalar_def api_key_scalar_def color_scalar_def currency_code_scalar_def cusip_scalar_def duration_scalar_def
        exchange_code_scalar_def file_scalar_def flight_number_scalar_def hash_sha256_scalar_def image_scalar_def
        language_code_scalar_def latitude_scalar_def lei_scalar_def license_plate_scalar_def locale_code_scalar_def
        longitude_scalar_def mic_scalar_def mime_type_scalar_def phone_number_scalar_def port_code_scalar_def
        postal_code_scalar_def sedol_scalar_def semantic_version_scalar_def slug_scalar_def stock_symbol_scalar_def
        time_scalar_def timezone_scalar_def tracking_number_scalar_def iban_scalar_def isin_scalar_def
        container_number_scalar_def vin_scalar_def stable_regex stable_checked
        str_upper_idem str_lower_idem strip_idem iban_prepare_idem stable_scalar_def [of html_scalar] stable_scalar_def [of markdown_scalar]
        stable_scalar_def [of "\<lparr>prepare = id, accept = \<lambda>s. Inr (Some s)\<rparr>"])
  then show "ts \<in> set TEXT_SCALARS \<Longrightarrow> stable_scalar ts" by blast
qed

lemma accepted_Inr: "accepted ts e s = Inr t \<longleftrightarrow> accept ts (prepare ts s) = Inr (Some t)"
  by (auto simp: accepted_def rbind_eq_Inr of_option_def split: option.splits)

lemma parse_text_Inr: "parse_text ts v = Inr t \<Longrightarrow> \<exists>s. v = PStr s \<and> accepted ts GraphQLError s = Inr t"
  by (cases v) (simp_all add: parse_text_def)

lemma serialize_text_Inr: "serialize_text ts v = Inr (Some t) \<Longrightarrow> accepted ts GraphQLError (py_str v) = Inr t"
  by (simp add: serialize_text_def rbind_eq_Inr split: if_splits)

text \<open>
  A pattern scalar returns exactly the strings of its pattern.  For any pattern and any preparation,
  parsing returns a text when the value is a string that, once prepared, is this text, and the text is in
  the language of the pattern, possibly with one newline after it; every other value is refused with a
  \<open>GraphQLError\<close>.
\<close>

theorem pattern_scalar_exact:
  "parse_text (regex_scalar prep r) v =
    (case v of
       PStr s \<Rightarrow> if prep s \<in> lang r \<or> (\<exists>t. prep s = t @ [CHR 0x0A] \<and> t \<in> lang r) then Inr (prep s) else Inl GraphQLError
     | _ \<Rightarrow> Inl GraphQLError)"
  by (cases v) (simp_all add: parse_text_def accepted_def regex_scalar_def of_option_def re_match_exact)

text \<open>
  C22: A scalar accepts its own output unchanged.  For every scalar of the shape \<open>text_scalar\<close>: what
  \<open>serialize\<close> writes into an answer, or \<open>parse_value\<close> hands to a resolver, is parsed to itself, constructs
  to itself and serialises to itself, so that a client can send back any value it was given.  For the
  e-mail address this holds of what was parsed; its \<open>serialize\<close> checks nothing (\<open>email_unchecked\<close>).
\<close>

theorem scalar_roundtrip:
  "(ts \<in> set TEXT_SCALARS \<and> (serialize_text ts v = Inr (Some t) \<or> parse_text ts v = Inr t) \<longrightarrow>
      parse_text ts (PStr t) = Inr t \<and> new_field ts t = Inr t \<and> serialize_text ts (PStr t) = Inr (Some t))
   \<and> (parse_email_address w = Inr u \<longrightarrow> parse_email_address (PStr u) = Inr u \<and> serialize_email_address (PStr u) = PStr u)"
proof (intro conjI impI)
  assume out: "ts \<in> set TEXT_SCALARS \<and> (serialize_text ts v = Inr (Some t) \<or> parse_text ts v = Inr t)"
  obtain s where "accepted ts GraphQLError s = Inr t"
    using out parse_text_Inr [of ts v t] serialize_text_Inr [of ts v t] by blast
  then have "accept ts (prepare ts s) = Inr (Some t)" by (simp only: accepted_Inr)
  with text_scalars_stable [of ts] out have "prepare ts t = t" "accept ts t = Inr (Some t)"
    unfolding stable_scalar_def by blast+
  then have "accepted ts e t = Inr t" for e by (simp only: accepted_Inr)
  then show "parse_text ts (PStr t) = Inr t" "new_field ts t = Inr t" "serialize_text ts (PStr t) = Inr (Some t)"
    by (simp_all add: parse_text_def new_field_def serialize_text_def)
qed (auto simp: parse_email_address_def serialize_email_address_def split: pyval.splits if_splits)

theorem scalar_roundtrip_witness:
  "(parse_text mac_address_scalar (PStr ''00:1A:2B:3C:4D:5E'') = Inr ''00:1A:2B:3C:4D:5E''
    \<and> new_field mac_address_scalar ''00:1A:2B:3C:4D:5E'' = Inr ''00:1A:2B:3C:4D:5E''
    \<and> serialize_text mac_address_scalar (PStr ''00:1A:2B:3C:4D:5E'') = Inr (Some ''00:1A:2B:3C:4D:5E''))
   \<and> parse_email_address (PStr ''a@b.c'') = Inr ''a@b.c'' \<and> serialize_email_address (PStr ''a@b.c'') = PStr ''a@b.c''"
proof -
  have mac: "mac_address_scalar \<in> set TEXT_SCALARS" by (simp add: TEXT_SCALARS_def)
  have parsed: "parse_text mac_address_scalar (PStr ''001a.2b3c.4d5e'') = Inr ''00:1A:2B:3C:4D:5E''" by code_simp
  have email: "parse_email_address (PStr ''a@b.c'') = Inr ''a@b.c''" by code_simp
  from scalar_roundtrip [of mac_address_scalar "PStr ''001a.2b3c.4d5e''" "''00:1A:2B:3C:4D:5E''" "PStr ''a@b.c''" "''a@b.c''"] mac parsed email
  show ?thesis by simp
qed

text \<open>The e-mail address scalar answers any value, also one that it refuses when a client sends it back.\<close>

lemma email_unchecked:
  "serialize_email_address (PStr ''nobody'') = PStr ''nobody'' \<and> parse_email_address (PStr ''nobody'') = Inl GraphQLError"
  by code_simp

subsection \<open>IBAN\<close>

text \<open>The number that the letters and digits spell.\<close>

definition code_char :: "char \<Rightarrow> bool" where "code_char c \<longleftrightarrow> is_upper c \<or> is_digit c"

fun spelled :: "nat \<Rightarrow> string \<Rightarrow> nat" where
  "spelled acc [] = acc"
| "spelled acc (c # s) = spelled (if is_digit c then 10 * acc + (of_char c - 48) else 100 * acc + (of_char c - 55)) s"

definition width :: "string \<Rightarrow> nat" where
  "width s = (\<Sum>c \<leftarrow> s. if is_digit c then 1 else 2)"

lemma spelled_add: "spelled acc s = acc * 10 ^ width s + spelled 0 s"
proof (induction s arbitrary: acc)
  case (Cons c s)
  show ?case
    using Cons [of "10 * acc + (of_char c - 48)"] Cons [of "of_char c - 48"] Cons [of "100 * acc + (of_char c - 55)"] Cons [of "of_char c - 55"]
    by (cases "is_digit c") (simp_all add: width_def algebra_simps)
qed (simp add: width_def)

lemma spelled_append: "spelled acc (s @ t) = spelled (spelled acc s) t"
  by (induction s arbitrary: acc) auto

lemma letter_text:
  assumes "is_upper c"
  shows "\<exists>d e. int_str (letter_value c) = [d, e] \<and> is_digit d \<and> is_digit e \<and> 10 * (of_char d - 48) + (of_char e - 48) = (of_char c - 55 :: nat)"
proof -
  have "list_all (\<lambda>n. int_str (int n) = [char_of (48 + n div 10), char_of (48 + n mod 10)]) [10..<36]" by code_simp
  then have all: "int_str (int n) = [char_of (48 + n div 10), char_of (48 + n mod 10)]" if "n \<in> set [10..<36]" for n
    using that unfolding list_all_iff by blast
  let ?n = "of_char c - 55 :: nat"
  have n: "10 \<le> ?n" "?n < 36" using assms by (auto simp: is_upper_def)
  have "letter_value c = int ?n" using assms by (simp add: letter_value_def is_upper_def of_nat_diff)
  note lv = this
  have "?n \<in> set [10..<36]" using n unfolding set_upt atLeastLessThan_iff by blast
  then have s: "int_str (letter_value c) = [char_of (48 + ?n div 10), char_of (48 + ?n mod 10)]" unfolding lv by (rule all)
  have "?n div 10 < 10" "?n mod 10 < 10" using n by simp_all
  then have of_c: "of_char (char_of (48 + ?n div 10)) = 48 + ?n div 10" "of_char (char_of (48 + ?n mod 10)) = 48 + ?n mod 10"
    by (intro of_char_char_of_small; simp)+
  have "is_digit (char_of (48 + ?n div 10))" "is_digit (char_of (48 + ?n mod 10))"
    unfolding is_digit_def of_c using \<open>?n div 10 < 10\<close> \<open>?n mod 10 < 10\<close> by simp_all
  with s show ?thesis
    by - (rule exI [of _ "char_of (48 + ?n div 10)"], rule exI [of _ "char_of (48 + ?n mod 10)"], simp add: of_c del: of_char_of)
qed

lemma digits_val_text:
  assumes "list_all code_char s"
  shows "digits_val acc (iban_numeric s @ t) = digits_val (spelled acc s) t"
  using assms
proof (induction s arbitrary: acc)
  case (Cons c s)
  show ?case
  proof (cases "is_digit c")
    case True
    with Cons show ?thesis by (simp add: iban_numeric_def)
  next
    case False
    with Cons.prems have "is_upper c" by (simp add: code_char_def)
    from letter_text [OF this] obtain d e where de: "int_str (letter_value c) = [d, e]" "is_digit d" "is_digit e"
      "10 * (of_char d - 48) + (of_char e - 48) = (of_char c - 55 :: nat)" by blast
    have e: "100 * acc + 10 * (of_char d - 48) + (of_char e - 48) = 100 * acc + (of_char c - 55 :: nat)"
      using de(4) by linarith
    show ?thesis using False Cons de(1-3) by (simp add: iban_numeric_def e)
  qed
qed (simp add: iban_numeric_def)

lemma digits_val_minus: "digits_val acc (CHR ''-'' # s) = None"
  by (simp add: is_digit_def)

lemma iban_numeric_append: "iban_numeric (s @ t) = iban_numeric s @ iban_numeric t"
  by (simp add: iban_numeric_def)

lemma numeric_head: "s \<noteq> [] \<Longrightarrow> code_char (hd s) \<Longrightarrow> iban_numeric s \<noteq> [] \<and> is_digit (hd (iban_numeric s))"
proof (cases s)
  case (Cons c t)
  assume "code_char (hd s)"
  with Cons show ?thesis using letter_text [of c] by (auto simp: iban_numeric_def code_char_def)
qed simp

lemma digit_not_space: "is_digit c \<Longrightarrow> \<not> is_space c \<and> c \<noteq> CHR ''-'' \<and> c \<noteq> CHR ''+''"
  by (auto simp: is_digit_def is_space_def)

lemma iban_digits: "list_all code_char s \<Longrightarrow> list_all is_digit (iban_numeric s)"
proof (induction s)
  case (Cons c s)
  then show ?case using letter_text [of c] by (auto simp: iban_numeric_def code_char_def)
qed (simp add: iban_numeric_def)

lemma strip_text: "s \<noteq> [] \<Longrightarrow> is_digit (hd s) \<Longrightarrow> is_digit (last s) \<Longrightarrow> strip s = s"
  using digit_not_space [of "hd s"] digit_not_space [of "last s"] by (simp add: strip_def dropWhile_hd hd_rev)

lemma iban_int:
  assumes "s \<noteq> []" "list_all code_char s"
  shows "int_of_str (iban_numeric s) = Some (int (spelled 0 s))"
proof -
  have ne: "iban_numeric s \<noteq> [] \<and> is_digit (hd (iban_numeric s))"
    using numeric_head assms by (cases s) auto
  then have strip: "strip (iban_numeric s) = iban_numeric s"
    using iban_digits [OF assms(2)] by (intro strip_text) (simp_all add: list_all_iff)
  have "nat_of_str (iban_numeric s) = Some (spelled 0 s)"
    using ne digits_val_text [OF assms(2), of 0 "[]"] by (simp add: nat_of_str_def)
  with ne digit_not_space show ?thesis
    unfolding int_of_str_def Let_def strip by (cases "iban_numeric s") auto
qed

lemma spelled_substitute:
  assumes "is_digit c = is_digit d" "code_char c" "code_char d"
    and "spelled 0 (p @ c # q) mod 97 = spelled 0 (p @ d # q) mod 97"
  shows "c = d"
proof -
  define b where "b = (if is_digit c then 48 else 55 :: nat)"
  define x where "x = of_char c - b"
  define y where "y = of_char d - b"
  have xy: "x < 97" "y < 97" "of_char c = x + b" "of_char d = y + b"
    using assms(1-3) by (auto simp: x_def y_def b_def code_char_def is_upper_def is_digit_def)
  define B where "B = (if is_digit c then 10 else 100) * spelled 0 p"
  define A where "A = B * 10 ^ width q + spelled 0 q"
  have sp: "spelled 0 (p @ e # q) = A + (of_char e - b) * 10 ^ width q" if "is_digit e = is_digit c" for e
  proof -
    have "spelled 0 (p @ e # q) = spelled (B + (of_char e - b)) q"
      using that by (simp add: spelled_append b_def B_def)
    also have "\<dots> = (B + (of_char e - b)) * 10 ^ width q + spelled 0 q" by (rule spelled_add)
    finally show ?thesis by (simp add: A_def algebra_simps)
  qed
  have "spelled 0 (p @ c # q) = A + x * 10 ^ width q" "spelled 0 (p @ d # q) = A + y * 10 ^ width q"
    using sp [of c] sp [of d] assms(1) by (auto simp: x_def y_def)
  then have "int (A + x * 10 ^ width q) mod 97 = int (A + y * 10 ^ width q) mod 97"
    using assms(4) by (metis of_nat_mod of_nat_numeral)
  then have "97 dvd int (A + x * 10 ^ width q) - int (A + y * 10 ^ width q)" by (simp only: mod_eq_dvd_iff)
  then have "97 dvd (int x - int y) * 10 ^ width q" by (simp add: algebra_simps)
  moreover have "coprime 97 (10 ^ width q :: int)"
  proof -
    have "coprime (97 :: int) 10" by code_simp
    then show ?thesis by simp
  qed
  ultimately have "97 dvd int x - int y" by (simp add: coprime_dvd_mult_left_iff)
  then have "int x - int y = 0" using dvd_imp_le_int [of "int x - int y" 97] xy(1,2) by linarith
  then have "x = y" by simp
  with xy(3,4) have "(of_char c :: nat) = of_char d" by simp
  then show ?thesis by simp
qed

lemma spelled_swap:
  assumes "is_digit c = is_digit d" "code_char c" "code_char d"
    and "spelled 0 (p @ c # d # q) mod 97 = spelled 0 (p @ d # c # q) mod 97"
  shows "c = d"
proof -
  define b where "b = (if is_digit c then 48 else 55 :: nat)"
  define w where "w = (if is_digit c then 10 else 100 :: nat)"
  define x where "x = of_char c - b"
  define y where "y = of_char d - b"
  have xy: "x < 36" "y < 36" "of_char c = x + b" "of_char d = y + b"
    using assms(1-3) by (auto simp: x_def y_def b_def code_char_def is_upper_def is_digit_def)
  have sp: "spelled 0 (p @ e # f # q) = ((w * spelled 0 p + (of_char e - b)) * w + (of_char f - b)) * 10 ^ width q + spelled 0 q"
    if "is_digit e = is_digit c" "is_digit f = is_digit c" for e f
  proof -
    have "spelled 0 (p @ e # f # q) = spelled ((w * spelled 0 p + (of_char e - b)) * w + (of_char f - b)) q"
      using that by (simp add: spelled_append b_def w_def mult.commute)
    then show ?thesis by (simp only: spelled_add [of "(w * spelled 0 p + (of_char e - b)) * w + (of_char f - b)"])
  qed
  define X where "X = ((w * spelled 0 p + x) * w + y) * 10 ^ width q + spelled 0 q"
  define Y where "Y = ((w * spelled 0 p + y) * w + x) * 10 ^ width q + spelled 0 q"
  have "spelled 0 (p @ c # d # q) = X" "spelled 0 (p @ d # c # q) = Y"
    unfolding X_def Y_def x_def y_def by (rule sp; simp only: assms(1))+
  with assms(4) have "X mod 97 = Y mod 97" by simp
  then have "int X mod 97 = int Y mod 97" by (metis zmod_int of_nat_numeral)
  then have "97 dvd int X - int Y" by (simp only: mod_eq_dvd_iff)
  then have "97 dvd ((int x - int y) * (int w - 1)) * 10 ^ width q" by (simp add: X_def Y_def algebra_simps)
  moreover have "coprime 97 (10 ^ width q :: int)"
  proof -
    have "coprime (97 :: int) 10" by code_simp
    then show ?thesis by simp
  qed
  ultimately have "97 dvd (int x - int y) * (int w - 1)" by (simp add: coprime_dvd_mult_left_iff)
  moreover have "coprime 97 (int w - 1)" unfolding w_def by (cases "is_digit c") (simp_all, code_simp+)
  ultimately have "97 dvd int x - int y" by (simp add: coprime_dvd_mult_left_iff)
  then have "int x - int y = 0" using dvd_imp_le_int [of "int x - int y" 97] xy(1,2) by linarith
  with xy(3,4) have "(of_char c :: nat) = of_char d" by simp
  then show ?thesis by simp
qed

lemma checked_accept:
  "accepted (checked_scalar prep r check) e s = Inr t \<longleftrightarrow> t = prep s \<and> re_match r t \<and> check t = Inr True"
  by (auto simp: accepted_Inr checked_scalar_def rbind_eq_Inr split: if_splits)

lemma iban_lang: "s \<in> lang IBAN_REGEX \<Longrightarrow> 15 \<le> length s \<and> list_all code_char s"
  by (auto simp: IBAN_REGEX_def lang_all_of code_char_def list_all_iff)

lemma iban_newline:
  assumes "list_all code_char u" "list_all code_char v" "u \<noteq> []" "v \<noteq> []"
  shows "int_of_str (iban_numeric (u @ CHR 0x0A # v)) = None"
proof -
  have "int_str (letter_value CHR 0x0A) = ''-45''" "\<not> is_digit (CHR 0x0A)" by code_simp+
  then have n: "iban_numeric (u @ CHR 0x0A # v) = iban_numeric u @ CHR ''-'' # ''45'' @ iban_numeric v"
    by (simp add: iban_numeric_def)
  have hd: "iban_numeric u \<noteq> []" "is_digit (hd (iban_numeric u))" and ne: "iban_numeric v \<noteq> []"
    using numeric_head assms by (auto simp: list_all_iff)
  moreover have "is_digit (last (iban_numeric v))" using iban_digits [OF assms(2)] ne by (simp add: list_all_iff)
  ultimately have strip: "strip (iban_numeric (u @ CHR 0x0A # v)) = iban_numeric (u @ CHR 0x0A # v)"
    unfolding n by (intro strip_text) simp_all
  have "nat_of_str (iban_numeric (u @ CHR 0x0A # v)) = None"
    unfolding n nat_of_str_def using digits_val_text [OF assms(1)] by (simp add: digits_val_minus is_digit_def [of "CHR ''-''"])
  moreover have "hd (iban_numeric (u @ CHR 0x0A # v)) \<noteq> CHR ''-''" "hd (iban_numeric (u @ CHR 0x0A # v)) \<noteq> CHR ''+''"
    using hd digit_not_space unfolding n by simp_all
  ultimately show ?thesis
    unfolding int_of_str_def Let_def strip by (cases "iban_numeric (u @ CHR 0x0A # v)") auto
qed

lemma iban_spelled:
  assumes "accepted iban_scalar e s = Inr t"
  shows "list_all code_char t \<and> spelled 0 (drop 4 t @ take 4 t) mod 97 = 1"
proof -
  have m: "re_match IBAN_REGEX t" "validate_iban_check_digits t"
    using assms by (auto simp: iban_scalar_def checked_accept iban_check_def)
  then obtain u where u: "t = u \<or> t = u @ [CHR 0x0A]" "15 \<le> length u" "list_all code_char u"
    using re_match_lang iban_lang by blast
  have parts: "list_all code_char (drop 4 u)" "list_all code_char (take 4 u)" "drop 4 u \<noteq> []" "take 4 u \<noteq> []"
    using u(2,3) by (auto simp: list_all_iff dest: in_set_dropD in_set_takeD)
  have "t = u"
  proof (rule ccontr)
    assume "t \<noteq> u"
    with u have "drop 4 t @ take 4 t = drop 4 u @ CHR 0x0A # take 4 u" by simp
    with m(2) iban_newline [OF parts] show False by (simp add: validate_iban_check_digits_def)
  qed
  with m(2) iban_int [of "drop 4 u @ take 4 u"] parts have "int (spelled 0 (drop 4 t @ take 4 t)) mod 97 = 1"
    by (simp add: validate_iban_check_digits_def)
  then have "spelled 0 (drop 4 t @ take 4 t) mod 97 = 1" by (metis of_nat_1 of_nat_eq_iff zmod_int of_nat_numeral)
  with u(3) \<open>t = u\<close> show ?thesis by simp
qed

lemma rotate_one: "\<exists>P Q. \<forall>c. drop 4 (p @ c # q) @ take 4 (p @ c # q) = P @ c # Q"
proof (cases "length p < 4")
  case True
  then obtain k where "4 - length p = Suc k" by (cases "4 - length p") simp_all
  then have "drop 4 (p @ c # q) @ take 4 (p @ c # q) = (drop k q @ p) @ c # take k q" for c
    using True by simp
  then show ?thesis by blast
next
  case False
  then have "drop 4 (p @ c # q) @ take 4 (p @ c # q) = drop 4 p @ c # q @ take 4 p" for c by simp
  then show ?thesis by blast
qed

lemma rotate_two:
  assumes "length p \<noteq> 3"
  shows "\<exists>P Q. \<forall>c d. drop 4 (p @ c # d # q) @ take 4 (p @ c # d # q) = P @ c # d # Q"
proof (cases "length p < 4")
  case True
  with assms have "4 - length p = Suc (Suc (2 - length p))" by linarith
  then have "drop 4 (p @ c # d # q) @ take 4 (p @ c # d # q) = (drop (2 - length p) q @ p) @ c # d # take (2 - length p) q" for c d
    using True by simp
  then show ?thesis by blast
next
  case False
  then have "drop 4 (p @ c # d # q) @ take 4 (p @ c # d # q) = drop 4 p @ c # d # q @ take 4 p" for c d by simp
  then show ?thesis by blast
qed

text \<open>
  C23: The check digits of an IBAN catch every mistyped character and every swap of two neighbours.  If
  an IBAN is accepted, then no text that differs from it in one character (a letter for a letter, a digit
  for a digit), or in two neighbouring letters or digits that are swapped, is accepted too; a swap over
  the end of the four leading characters is not covered.
\<close>

theorem iban_errors_caught:
  assumes "parse_text iban_scalar v = Inr s" "c \<noteq> d" "is_digit c = is_digit d"
    and "s = p @ c # q \<and> s' = p @ d # q \<or> s = p @ c # d # q \<and> s' = p @ d # c # q \<and> length p \<noteq> 3"
  shows "parse_text iban_scalar v' \<noteq> Inr s'"
proof
  assume "parse_text iban_scalar v' = Inr s'"
  with assms(1) have s: "list_all code_char s" "list_all code_char s'"
    "spelled 0 (drop 4 s @ take 4 s) mod 97 = spelled 0 (drop 4 s' @ take 4 s') mod 97"
    using parse_text_Inr iban_spelled by metis+
  from assms(4) show False
  proof
    assume a: "s = p @ c # q \<and> s' = p @ d # q"
    obtain P Q where "drop 4 (p @ c # q) @ take 4 (p @ c # q) = P @ c # Q" for c using rotate_one by metis
    with s a spelled_substitute [OF assms(3), of P Q] assms(2) show False by simp
  next
    assume a: "s = p @ c # d # q \<and> s' = p @ d # c # q \<and> length p \<noteq> 3"
    obtain P Q where "drop 4 (p @ c # d # q) @ take 4 (p @ c # d # q) = P @ c # d # Q" for c d using rotate_two a by metis
    with s a spelled_swap [OF assms(3), of P Q] assms(2) show False by simp
  qed
qed

theorem iban_errors_caught_witness:
  "parse_text iban_scalar (PStr ''GB82WEST12345698765423'') \<noteq> Inr ''GB82WEST12345698765423''"
proof (rule iban_errors_caught)
  have "iban_prepare ''gb82 WEST 1234 5698 7654 32'' = ''GB82WEST12345698765432''"
    "map_of IBAN_LENGTHS (take 2 ''GB82WEST12345698765432'') = Some 22" "matches IBAN_REGEX ''GB82WEST12345698765432''" by code_simp+
  moreover have "validate_iban_check_digits ''GB82WEST12345698765432''"
    using iban_int [of "''WEST12345698765432GB82''"]
    by (simp add: validate_iban_check_digits_def code_char_def is_upper_def is_digit_def)
  ultimately show "parse_text iban_scalar (PStr ''gb82 WEST 1234 5698 7654 32'') = Inr ''GB82WEST12345698765432''"
    by (simp add: parse_text_def iban_scalar_def checked_accept re_match_def iban_check_def)
  show "''GB82WEST12345698765432'' = ''GB82WEST123456987654'' @ CHR ''3'' # [] \<and> ''GB82WEST12345698765423'' = ''GB82WEST123456987654'' @ CHR ''2'' # []
    \<or> ''GB82WEST12345698765432'' = ''GB82WEST123456987654'' @ CHR ''3'' # CHR ''2'' # [] \<and> ''GB82WEST12345698765423'' = ''GB82WEST123456987654'' @ CHR ''2'' # CHR ''3'' # [] \<and> length ''GB82WEST123456987654'' \<noteq> 3"
    by simp
qed (simp_all add: is_digit_def)

subsection \<open>ISIN and VIN\<close>

text \<open>
  The sum of Luhn: doubling permutes the digits, so that a change of one digit changes the last digit of
  the sum.
\<close>

lemma luhn_double_bounds: "0 \<le> d \<Longrightarrow> d \<le> 9 \<Longrightarrow> 0 \<le> luhn_double d \<and> luhn_double d \<le> 9"
  by (auto simp: luhn_double_def)

lemma luhn_double_inj: "0 \<le> d \<Longrightarrow> d \<le> 9 \<Longrightarrow> 0 \<le> e \<Longrightarrow> e \<le> 9 \<Longrightarrow> luhn_double d = luhn_double e \<Longrightarrow> d = e"
  by (auto simp: luhn_double_def split: if_splits) presburger+

lemma luhn_total_append: "luhn_total b (xs @ ys) = luhn_total b xs + luhn_total (if even (length xs) then b else \<not> b) ys"
  by (induction xs arbitrary: b) simp_all

lemma luhn_change:
  assumes "0 \<le> d" "d \<le> 9" "0 \<le> e" "e \<le> 9"
    and "luhn_total b (xs @ d # ys) mod 10 = luhn_total b (xs @ e # ys) mod 10"
  shows "d = e"
proof -
  define twice where "twice = (if even (length xs) then b else \<not> b)"
  define f where "f = (if twice then luhn_double else id)"
  have "luhn_total b (xs @ x # ys) = luhn_total b xs + f x + luhn_total (\<not> twice) ys" for x
    by (simp add: luhn_total_append f_def flip: twice_def)
  with assms(5) have "10 dvd f d - f e" by (simp add: mod_eq_dvd_iff)
  moreover have "0 \<le> f d \<and> f d \<le> 9" "0 \<le> f e \<and> f e \<le> 9"
    using luhn_double_bounds assms by (auto simp: f_def)
  ultimately have "f d = f e" using dvd_imp_le_int [of "f d - f e" 10] by linarith
  then show ?thesis using luhn_double_inj assms by (auto simp: f_def split: if_splits)
qed

definition digit_value :: "char \<Rightarrow> int" where "digit_value c = int (of_char c) - 48"

lemma digit_value: "is_digit c \<Longrightarrow> 0 \<le> digit_value c \<and> digit_value c \<le> 9"
  by (auto simp: digit_value_def is_digit_def)

lemma digit_value_inj: "digit_value c = digit_value d \<Longrightarrow> c = d"
  by (simp add: digit_value_def)

lemma isin_digits_append: "isin_digits (p @ q) = isin_digits p @ isin_digits q"
  by (simp add: isin_digits_def)

lemma isin_digits_digit: "is_digit c \<Longrightarrow> isin_digits (c # q) = digit_value c # isin_digits q"
  by (simp add: isin_digits_def digit_value_def)

lemma int_of_digit: "is_digit c \<Longrightarrow> int_of_str [c] = Some (digit_value c)"
  using digit_not_space [of c]
  by (auto simp: int_of_str_def strip_def nat_of_str_def digit_value_def is_digit_def of_nat_diff)

lemma isin_parts: "accepted isin_scalar e v = Inr t \<Longrightarrow> re_match ISIN_REGEX t \<and> validate_isin_check_digit t = Inr True"
  by (auto simp only: isin_scalar_def checked_accept)

lemma isin_accepted:
  assumes "accepted isin_scalar e v = Inr (p @ c # q)" "is_digit c"
  shows "if q = [] then digit_value c = (10 - luhn_total True (rev (isin_digits p)) mod 10) mod 10
    else \<exists>k q'. q = q' @ [k] \<and> is_digit k \<and> digit_value k = (10 - luhn_total True (rev (isin_digits q') @ digit_value c # rev (isin_digits p)) mod 10) mod 10"
proof -
  have m: "validate_isin_check_digit (p @ c # q) = Inr True"
    using isin_parts [OF assms(1)] by simp
  show ?thesis
  proof (cases q rule: rev_cases)
    case Nil
    with m int_of_digit [OF assms(2)] show ?thesis
      by (simp add: validate_isin_check_digit_def Let_def of_option_def)
  next
    case (snoc q' k)
    have "re_match ISIN_REGEX (p @ c # q)" using isin_parts [OF assms(1)] by simp
    then obtain t where t: "p @ c # q = t \<or> p @ c # q = t @ [CHR 0x0A]" "t \<in> lang ISIN_REGEX" using re_match_lang by blast
    have "p @ c # q = t"
    proof (rule ccontr)
      assume "p @ c # q \<noteq> t"
      with t snoc have "k = CHR 0x0A" by (metis last_snoc append.assoc append_Cons)
      moreover have "int_of_str [CHR 0x0A] = None" by code_simp
      ultimately show False using m snoc by (simp add: validate_isin_check_digit_def Let_def of_option_def butlast_append)
    qed
    moreover have "is_digit (last t)" using t(2) by (auto simp: ISIN_REGEX_def lang_all_of length_Suc_conv)
    ultimately have k: "is_digit k" using snoc by (metis last_snoc append.assoc append_Cons)
    with m snoc int_of_digit [OF k] show ?thesis
      by (simp add: validate_isin_check_digit_def Let_def of_option_def butlast_append isin_digits_append isin_digits_digit [OF assms(2)])
  qed
qed


lemma complement_inj:
  fixes a b :: int
  assumes "(10 - a mod 10) mod 10 = (10 - b mod 10) mod 10"
  shows "a mod 10 = b mod 10"
proof -
  from assms have "10 dvd (10 - a mod 10) - (10 - b mod 10)" by (simp only: mod_eq_dvd_iff)
  then have "10 dvd b mod 10 - a mod 10" by (simp add: algebra_simps)
  moreover have "0 \<le> a mod 10" "a mod 10 < 10" "0 \<le> b mod 10" "b mod 10 < 10" by simp_all
  ultimately show ?thesis using dvd_imp_le_int [of "b mod 10 - a mod 10" 10] by linarith
qed

lemma isin_substitute:
  assumes "accepted isin_scalar e v = Inr (p @ c # q)" "accepted isin_scalar e' v' = Inr (p @ d # q)"
    and "is_digit c" "is_digit d"
  shows "c = d"
proof (cases "q = []")
  case True
  with isin_accepted [OF assms(1,3)] isin_accepted [OF assms(2,4)] show ?thesis by (simp add: digit_value_inj)
next
  case False
  define total where "total x xs = luhn_total True (rev (isin_digits xs) @ digit_value x # rev (isin_digits p))" for x xs
  obtain k xs where "q = xs @ [k]" using False by (cases q rule: rev_cases) simp_all
  with isin_accepted [OF assms(1,3)] isin_accepted [OF assms(2,4)] False
  have "(10 - total c xs mod 10) mod 10 = (10 - total d xs mod 10) mod 10" by (simp add: total_def)
  then have "total c xs mod 10 = total d xs mod 10" by (rule complement_inj)
  then have "digit_value c = digit_value d"
    unfolding total_def using digit_value [OF assms(3)] digit_value [OF assms(4)] by (blast intro: luhn_change)
  then show ?thesis by (rule digit_value_inj)
qed

text \<open>The weights of a VIN are all smaller than 11 and only the one of the check digit is 0.\<close>

lemma weighted_sum_change:
  assumes "weighted_sum tab ws (p @ c # q) = Some t" "weighted_sum tab ws (p @ d # q) = Some u"
    and "length p < length ws" "map_of tab c = Some x" "map_of tab d = Some y"
  shows "t - u = (x - y) * ws ! length p"
  using assms
proof (induction tab ws p arbitrary: t u rule: weighted_sum.induct)
  case (2 tab w ws)
  then show ?case by (auto simp: algebra_simps)
next
  case (3 tab w ws e p)
  then show ?case by (auto simp: algebra_simps split: option.splits)
qed simp_all

lemma vin_value: "is_digit c \<Longrightarrow> map_of VIN_CHAR_VALUES c = Some (digit_value c)"
proof -
  assume "is_digit c"
  then have "48 \<le> (of_char c :: nat)" "(of_char c :: nat) \<le> 57" by (simp_all add: is_digit_def)
  define n where "n = (of_char c - 48 :: nat)"
  have "n < 10" using \<open>(of_char c :: nat) \<le> 57\<close> by (simp add: n_def)
  then have n: "n = 0 \<or> n = 1 \<or> n = 2 \<or> n = 3 \<or> n = 4 \<or> n = 5 \<or> n = 6 \<or> n = 7 \<or> n = 8 \<or> n = 9" by presburger
  have c: "c = char_of (n + 48)" using \<open>48 \<le> (of_char c :: nat)\<close> by (simp add: n_def)
  have "map_of VIN_CHAR_VALUES (char_of (n + 48)) = Some (int n)"
    using n by (elim disjE; simp only:; code_simp)
  moreover have "digit_value c = int n" using \<open>48 \<le> (of_char c :: nat)\<close> by (simp add: n_def digit_value_def of_nat_diff)
  ultimately show ?thesis by (simp only: c [symmetric])
qed

lemma of_option_eq_Inr: "of_option e x = Inr y \<longleftrightarrow> x = Some y"
  by (cases x) (simp_all add: of_option_def)

lemma vin_accepted:
  assumes "accepted vin_scalar e v = Inr t"
  shows "length t = 17 \<and> (\<exists>n. weighted_sum VIN_CHAR_VALUES VIN_WEIGHTS (map to_upper t) = Some n
    \<and> map to_upper (if n mod 11 = 10 then ''X'' else int_str (n mod 11)) = [to_upper (t ! 8)])"
proof -
  have t: "validate_vin_check_digit t" using assms by (auto simp only: vin_scalar_def checked_accept)
  then have "length t = 17" by (simp only: validate_vin_check_digit_def split: if_splits)
  with t obtain d where d: "calculate_vin_check_digit t = Inr d" "map to_upper d = [to_upper (t ! 8)]"
    by (simp add: validate_vin_check_digit_def split: sum.splits)
  have "calculate_vin_check_digit t = rbind (of_option ValueError (weighted_sum VIN_CHAR_VALUES VIN_WEIGHTS (map to_upper t)))
      (\<lambda>n. Inr (if n mod 11 = 10 then ''X'' else int_str (n mod 11)))"
    using \<open>length t = 17\<close> by (simp only: calculate_vin_check_digit_def refl not_True_eq_False if_False)
  from d(1) [unfolded this rbind_eq_Inr of_option_eq_Inr] obtain n
    where n: "weighted_sum VIN_CHAR_VALUES VIN_WEIGHTS (map to_upper t) = Some n"
      "Inr (if n mod 11 = 10 then ''X'' else int_str (n mod 11)) = (Inr d :: string result)"
    by (elim exE conjE) (rule that)
  from n(2) have "d = (if n mod 11 = 10 then ''X'' else int_str (n mod 11))" by (simp only: sum.inject)
  with n(1) d(2) \<open>length t = 17\<close> show ?thesis by (intro conjI exI [of _ n]) simp_all
qed


lemma check_text_inj:
  fixes n m :: int
  assumes "map to_upper (if n mod 11 = 10 then ''X'' else int_str (n mod 11)) = map to_upper (if m mod 11 = 10 then ''X'' else int_str (m mod 11))"
  shows "n mod 11 = m mod 11"
proof -
  define f where "f k = map to_upper (if k = 10 then ''X'' else int_str k)" for k
  have "list_all (\<lambda>i. list_all (\<lambda>j. f i = f j \<longrightarrow> i = j) [0..10]) [0..10]" unfolding f_def by code_simp
  moreover have "n mod 11 \<in> set [0..10]" "m mod 11 \<in> set [0..10]" by simp_all
  ultimately show ?thesis using assms by (simp add: list_all_iff f_def [symmetric])
qed

lemma digit_upper: "is_digit c \<Longrightarrow> to_upper c = c"
  by (simp add: to_upper_def is_digit_def is_lower_def)

lemma vin_weight: "i < 17 \<Longrightarrow> i \<noteq> 8 \<Longrightarrow> coprime 11 (VIN_WEIGHTS ! i)"
proof -
  assume "i < 17" "i \<noteq> 8"
  moreover have "list_all (\<lambda>i. i = 8 \<or> coprime 11 (VIN_WEIGHTS ! i)) [0..<17]" by code_simp
  moreover have "i \<in> set [0..<17]" using \<open>i < 17\<close> by simp
  ultimately show ?thesis by (auto simp only: list_all_iff)
qed

lemma vin_substitute:
  assumes "accepted vin_scalar e v = Inr (p @ c # q)" "accepted vin_scalar e' v' = Inr (p @ d # q)"
    and "is_digit c" "is_digit d"
  shows "c = d"
proof -
  let ?text = "\<lambda>n :: int. map to_upper (if n mod 11 = 10 then ''X'' else int_str (n mod 11))"
  obtain n m where n: "weighted_sum VIN_CHAR_VALUES VIN_WEIGHTS (map to_upper (p @ c # q)) = Some n" "?text n = [to_upper ((p @ c # q) ! 8)]"
    and m: "weighted_sum VIN_CHAR_VALUES VIN_WEIGHTS (map to_upper (p @ d # q)) = Some m" "?text m = [to_upper ((p @ d # q) ! 8)]"
    and len: "length p < 17"
    using vin_accepted [OF assms(1)] vin_accepted [OF assms(2)] by auto
  have "length (map to_upper p) < length VIN_WEIGHTS" using len by (simp add: VIN_WEIGHTS_def)
  with n(1) m(1) have diff: "n - m = (digit_value c - digit_value d) * VIN_WEIGHTS ! length p"
    using weighted_sum_change vin_value assms(3,4) by (simp add: digit_upper)
  show ?thesis
  proof (cases "length p = 8")
    case True
    then have "n = m" using diff by (simp add: VIN_WEIGHTS_def)
    moreover have "(p @ c # q) ! 8 = c" "(p @ d # q) ! 8 = d" using True by (simp_all add: nth_append)
    ultimately have "[to_upper c] = [to_upper d]" using n(2) m(2) by metis
    with assms(3,4) show ?thesis by (simp add: digit_upper)
  next
    case False
    then have "(p @ c # q) ! 8 = (p @ d # q) ! 8" by (simp add: nth_append nth_Cons')
    with n(2) m(2) have "n mod 11 = m mod 11" by (intro check_text_inj) simp
    then have "11 dvd (digit_value c - digit_value d) * VIN_WEIGHTS ! length p" using diff by (simp add: mod_eq_dvd_iff)
    then have "11 dvd digit_value c - digit_value d"
      using vin_weight [OF len False] by (simp add: coprime_dvd_mult_left_iff)
    then have "digit_value c = digit_value d"
      using digit_value [OF assms(3)] digit_value [OF assms(4)] dvd_imp_le_int [of "digit_value c - digit_value d" 11] by linarith
    then show ?thesis by (rule digit_value_inj)
  qed
qed

text \<open>
  C24: The check digits of security identifiers and vehicle numbers catch every mistyped digit.  If an ISIN
  (or a VIN) is accepted, then no text that differs from it in one digit is accepted too, the check
  digit included.
\<close>

theorem wrong_digit_caught:
  assumes "ts = isin_scalar \<or> ts = vin_scalar" "parse_text ts v = Inr (p @ c # q)"
    and "is_digit c" "is_digit d" "c \<noteq> d"
  shows "parse_text ts v' \<noteq> Inr (p @ d # q)"
proof
  assume "parse_text ts v' = Inr (p @ d # q)"
  with assms(2) obtain s s' where "accepted ts GraphQLError s = Inr (p @ c # q)" "accepted ts GraphQLError s' = Inr (p @ d # q)"
    using parse_text_Inr by metis
  with assms(1,3-5) show False using isin_substitute vin_substitute by blast
qed

theorem wrong_digit_caught_witness:
  "parse_text isin_scalar (PStr ''us0378331005'') = Inr ''US0378331005''
   \<and> parse_text isin_scalar (PStr ''US0378331905'') \<noteq> Inr ''US0378331905''"
proof
  show a: "parse_text isin_scalar (PStr ''us0378331005'') = Inr ''US0378331005''" by code_simp
  show "parse_text isin_scalar (PStr ''US0378331905'') \<noteq> Inr ''US0378331905''"
    using wrong_digit_caught [of isin_scalar "PStr ''us0378331005''" "''US0378331''" "CHR ''0''" "''05''" "CHR ''9''" "PStr ''US0378331905''"] a
    by (simp add: is_digit_def)
qed


subsection \<open>Edge cases\<close>

text \<open>\<open>$\<close> also matches before a newline at the end, so the text keeps it; for an ISIN the check digit is then no digit.\<close>

lemma newline_kept: "parse_text slug_scalar (PStr (''a'' @ [CHR 0x0A])) = Inr (''a'' @ [CHR 0x0A])"
  by code_simp

lemma isin_newline_raises: "parse_text isin_scalar (PStr (''US0378331005'' @ [CHR 0x0A])) = Inl ValueError"
  by code_simp

text \<open>The lookahead that asks for a component of a duration is optional.\<close>

lemma empty_duration: "parse_text duration_scalar (PStr ''P'') = Inr ''P'' \<and> parse_text duration_scalar (PStr ''PT'') = Inr ''PT''"
  by code_simp

text \<open>A boolean is an \<open>int\<close>: it is a port, and it is formatted as a number, which raises.\<close>

lemma boolean_numbers:
  "parse_port_value (PBool True) = Inr (PBool True)" "parse_money_value (PBool True) = Inl InvalidOperation"
  by code_simp+

text \<open>Without brackets a date range is accepted in a literal and refused in a variable.\<close>

lemma bare_range:
  "parse_date_range_literal (StringLit ''2024-01-01,2024-02-01'') = Inr ''2024-01-01,2024-02-01''"
  "parse_date_range_value (PStr ''2024-01-01,2024-02-01'') = Inl GraphQLError"
  by code_simp+

end
