(* ===== verification/CacheKey.thy ===== *)
theory CacheKey
  imports Authorization OrderBy
begin

section \<open>Keys of cached results\<close>

text \<open>
  \<open>caching/cache_key.py\<close> and the decorator of \<open>caching/result_cache.py\<close>: the text under which a result
  is stored.  The hash functions of \<open>hashlib\<close> are arguments, they give a text of hexadecimal digits.
\<close>

subsection \<open>Values\<close>

text \<open>\<open>json.dumps(..., sort_keys=True, default=str)\<close>: what is not JSON is written as its text.\<close>

function (sequential) jsonable :: "pyval \<Rightarrow> pyval" where
  "jsonable (PList vs) = PList (map jsonable vs)"
| "jsonable (PTuple vs) = PTuple (map jsonable vs)"
| "jsonable (PDict d) = PDict (map (\<lambda>p. (fst p, jsonable (snd p))) d)"
| "jsonable PNone = PNone"
| "jsonable (PBool b) = PBool b"
| "jsonable (PInt i) = PInt i"
| "jsonable (PFloat s) = PFloat s"
| "jsonable (PStr s) = PStr s"
| "jsonable v = PStr (py_str v)"
  by pat_completeness auto
termination
proof (relation "measure size", goal_cases)
  case (4 d p)
  then have "size p \<le> size_list size d" for size :: "string \<times> pyval \<Rightarrow> nat"
    by (simp add: size_list_estimation')
  from this [of "size_prod (\<lambda>_. 0) size"] show ?case
    by (cases p) simp
qed (auto simp: size_list_estimation' less_Suc_eq_le)

definition dumps_default :: "pyval \<Rightarrow> string" where
  "dumps_default v = (case json_dumps (sorted_value (jsonable v)) of Inr s \<Rightarrow> s | Inl _ \<Rightarrow> [])"

definition sort_texts :: "string list \<Rightarrow> string list" where
  "sort_texts ss = map fst (sort_keys (map (\<lambda>s. (s, ())) ss))"

text \<open>\<open>isoformat\<close> writes a \<open>T\<close> where \<open>str\<close> has a blank.\<close>

definition iso_text :: "string \<Rightarrow> string" where
  "iso_text s = map (\<lambda>c. if c = CHR '' '' then CHR ''T'' else c) s"

definition str_of_item :: "pyval \<Rightarrow> string" where
  "str_of_item v = (case v of PStr s \<Rightarrow> s | _ \<Rightarrow> [])"

definition serialize_value :: "(string \<Rightarrow> string) \<Rightarrow> pyval \<Rightarrow> string" where
  "serialize_value md5 v =
     (case v of
        PUUID s \<Rightarrow> s
      | PDatetime s r \<Rightarrow> iso_text s
      | PDate s r \<Rightarrow> iso_text s
      | PList vs \<Rightarrow> if list_all is_str vs then join_str '','' (sort_texts (map str_of_item vs)) else take 8 (md5 (dumps_default v))
      | PTuple vs \<Rightarrow> if list_all is_str vs then join_str '','' (sort_texts (map str_of_item vs)) else take 8 (md5 (dumps_default v))
      | PBool b \<Rightarrow> if b then ''true'' else ''false''
      | PNone \<Rightarrow> ''null''
      | _ \<Rightarrow> py_str v)"

definition serialize_filter :: "(string \<Rightarrow> string) \<Rightarrow> string \<Rightarrow> pyval \<Rightarrow> string" where
  "serialize_filter md5 field v =
     (case v of
        PDict d \<Rightarrow> join_str '':'' (field # map (\<lambda>(op, w). op @ '':'' @ serialize_value md5 w) (sort_keys d))
      | _ \<Rightarrow> field @ '':'' @ serialize_value md5 v)"

subsection \<open>The order\<close>

text \<open>\<open>for field, direction in pairs\<close> unpacks each item.\<close>

definition unpack_pair :: "pyval \<Rightarrow> (string \<times> string) result" where
  "unpack_pair v =
     (case v of
        PTuple [a, b] \<Rightarrow> Inr (py_str a, py_str b)
      | PList [a, b] \<Rightarrow> Inr (py_str a, py_str b)
      | PStr [c, d] \<Rightarrow> Inr ([c], [d])
      | PDict [(k, _), (l, _)] \<Rightarrow> Inr (k, l)
      | _ \<Rightarrow> if is_tuple v \<or> is_list v \<or> is_str v \<or> is_dict v then Inl ValueError else Inl TypeError)"

definition direction_text :: "sort_direction \<Rightarrow> string" where
  "direction_text d = (case d of Asc \<Rightarrow> ''OrderDirection.ASC'' | Desc \<Rightarrow> ''OrderDirection.DESC'' | BareDirection s \<Rightarrow> s)"

definition instruction_pair :: "order_by \<Rightarrow> string \<times> string" where
  "instruction_pair ob = (ord_field ob, direction_text (ord_direction ob))"

definition convert_order_by_to_tuples :: "order_env \<Rightarrow> order_arg \<Rightarrow> (string \<times> string) list option result" where
  "convert_order_by_to_tuples env arg =
     (case arg of
        OrderSet obs \<Rightarrow> Inr (Some (map instruction_pair obs))
      | OrderValue v \<Rightarrow>
          if \<not> truthy v then Inr None
          else (case v of
              PList (PTuple p # vs) \<Rightarrow> rbind (map_result unpack_pair (PTuple p # vs)) (\<lambda>ps. Inr (Some ps))
            | _ \<Rightarrow> if is_list v \<or> is_dict v
                    then rbind (convert_order_by_input env v) (\<lambda>r. Inr (map_option (map instruction_pair) r))
                    else Inr None))"

subsection \<open>The key\<close>

definition build_key ::
  "(string \<Rightarrow> string) \<Rightarrow> order_env \<Rightarrow> string \<Rightarrow> string \<Rightarrow> pyval \<Rightarrow> pydict \<Rightarrow> order_arg option \<Rightarrow> int option \<Rightarrow> int option \<Rightarrow> pydict
   \<Rightarrow> string result" where
  "build_key md5 env key_prefix query_name tenant_id filters order_by limit offset kwargs =
     rbind (case order_by of None \<Rightarrow> Inr None | Some arg \<Rightarrow> convert_order_by_to_tuples env arg) (\<lambda>order.
       Inr (join_str '':''
         (key_prefix
          # (if tenant_id = PNone then [] else [py_str tenant_id])
          @ [query_name]
          @ map (\<lambda>(f, v). serialize_filter md5 f v) (sort_keys filters)
          @ (case order of None \<Rightarrow> [] | Some ps \<Rightarrow> map (\<lambda>(f, d). ''order:'' @ f @ '':'' @ d) ps)
          @ (case limit of None \<Rightarrow> [] | Some n \<Rightarrow> [''limit:'' @ int_str n])
          @ (case offset of None \<Rightarrow> [] | Some n \<Rightarrow> [''offset:'' @ int_str n])
          @ map (\<lambda>(k, v). k @ '':'' @ serialize_value md5 v) (sort_keys kwargs))))"

definition build_mutation_pattern :: "string \<Rightarrow> string \<Rightarrow> string" where
  "build_mutation_pattern key_prefix table_name = key_prefix @ '':'' @ table_name @ '':*''"

text \<open>The decorator joins the name of the function and the texts of its arguments.\<close>

definition cached_query_key :: "string \<Rightarrow> pyval list \<Rightarrow> pydict \<Rightarrow> string" where
  "cached_query_key name args kwargs =
     join_str '':'' (name # map py_str args @ map (\<lambda>(k, v). k @ '':'' @ py_str v) (sort_keys kwargs))"

subsection \<open>Different queries with one key\<close>

text \<open>
  The parts are joined without quoting: an operator is the text of a value, an element with a comma is
  two elements, a list has the key of every order of its elements, and a text the one of a number.
\<close>

definition plain_key :: "pydict \<Rightarrow> string result" where
  "plain_key filters = build_key id \<lparr>default_string_collation = None, is_text_field = (\<lambda>_. False)\<rparr> ''fraiseql'' ''users'' PNone filters None None None []"

lemma filters_share_keys:
  "plain_key [(''name'', PDict [(''neq'', PStr ''x'')])] = plain_key [(''name'', PStr ''neq:x'')]"
  "plain_key [(''tags'', PList [PStr ''a,b''])] = plain_key [(''tags'', PList [PStr ''a'', PStr ''b''])]"
  "plain_key [(''code'', PStr ''null'')] = plain_key [(''code'', PNone)]"
  "plain_key [(''a'', PStr ''1''), (''b'', PStr ''2'')] = plain_key [(''a'', PStr ''1:b:2'')]"
  by code_simp+

text \<open>The order does not say what it compares with: the vector of a distance is no part of the key.\<close>

lemma order_value_not_in_key:
  "convert_order_by_to_tuples env (OrderSet [ob\<lparr>ord_value := v\<rparr>]) = convert_order_by_to_tuples env (OrderSet [ob\<lparr>ord_value := w\<rparr>])"
  by (simp add: convert_order_by_to_tuples_def instruction_pair_def)

end
