(* ===== verification/ResultCache.thy ===== *)
theory ResultCache
  imports CacheKey
begin

section \<open>The result cache\<close>

text \<open>
  \<open>caching/result_cache.py\<close> over any backend: a lookup, the execution of the query on a miss, the
  storing of its result, and the invalidation.  Other tasks may run between the lookup and the storing,
  so that they are steps of their own.
\<close>

subsection \<open>The backend\<close>

text \<open>\<open>CacheBackend\<close>; \<open>None\<close> as the value of \<open>get\<close> says that there is no entry.\<close>

record 'b backend =
  be_get :: "rat \<Rightarrow> string \<Rightarrow> 'b \<Rightarrow> pyval result \<times> 'b"
  be_set :: "rat \<Rightarrow> string \<Rightarrow> pyval \<Rightarrow> int \<Rightarrow> 'b \<Rightarrow> unit result \<times> 'b"
  be_delete :: "string \<Rightarrow> 'b \<Rightarrow> bool result \<times> 'b"
  be_delete_pattern :: "string \<Rightarrow> 'b \<Rightarrow> int result \<times> 'b"

record result_config =
  rc_enabled :: bool
  rc_default_ttl :: int
  rc_max_ttl :: int
  rc_cache_errors :: bool
  rc_key_prefix :: string

definition default_result_config :: result_config where
  "default_result_config = \<lparr>rc_enabled = True, rc_default_ttl = 300, rc_max_ttl = 3600, rc_cache_errors = False, rc_key_prefix = ''fraiseql''\<rparr>"

record cache_stats =
  st_hits :: int
  st_misses :: int
  st_errors :: int

definition no_stats :: cache_stats where "no_stats = \<lparr>st_hits = 0, st_misses = 0, st_errors = 0\<rparr>"

definition stats_total :: "cache_stats \<Rightarrow> int" where "stats_total st = st_hits st + st_misses st"

definition hit_rate :: "cache_stats \<Rightarrow> rat" where
  "hit_rate st = (if stats_total st = 0 then 0 else of_int (st_hits st) / of_int (stats_total st) * 100)"

subsection \<open>\<open>get_or_set\<close>\<close>

datatype looked_up = Hit pyval | Run_and_store | Run_only

definition cache_lookup :: "'b backend \<Rightarrow> result_config \<Rightarrow> rat \<Rightarrow> string \<Rightarrow> 'b \<times> cache_stats \<Rightarrow> looked_up \<times> 'b \<times> cache_stats" where
  "cache_lookup be cfg now key s =
     (case s of (b, st) \<Rightarrow>
        if \<not> rc_enabled cfg then (Run_only, b, st)
        else case be_get be now key b of
          (Inr v, b1) \<Rightarrow>
            (if v \<noteq> PNone then (Hit v, b1, st\<lparr>st_hits := st_hits st + 1\<rparr>)
             else (Run_and_store, b1, st\<lparr>st_misses := st_misses st + 1\<rparr>))
        | (Inl e, b1) \<Rightarrow>
            (if \<not> rc_cache_errors cfg then (Run_only, b1, st\<lparr>st_errors := st_errors st + 1\<rparr>)
             else (Run_and_store, b1, st\<lparr>st_misses := st_misses st + 1, st_errors := st_errors st + 1\<rparr>)))"

text \<open>A lifetime of 0 or \<open>None\<close> is the default one.\<close>

definition effective_ttl :: "result_config \<Rightarrow> int option \<Rightarrow> int" where
  "effective_ttl cfg ttl =
     min (case ttl of None \<Rightarrow> rc_default_ttl cfg | Some t \<Rightarrow> if t = 0 then rc_default_ttl cfg else t) (rc_max_ttl cfg)"

definition cache_store ::
  "'b backend \<Rightarrow> result_config \<Rightarrow> rat \<Rightarrow> string \<Rightarrow> int option \<Rightarrow> pyval \<Rightarrow> 'b \<times> cache_stats \<Rightarrow> 'b \<times> cache_stats" where
  "cache_store be cfg now key ttl v s =
     (case s of (b, st) \<Rightarrow>
        case be_set be now key v (effective_ttl cfg ttl) b of
          (Inr _, b1) \<Rightarrow> (b1, st)
        | (Inl e, b1) \<Rightarrow> (b1, st\<lparr>st_errors := st_errors st + 1\<rparr>))"

text \<open>
  A call that nothing interrupts: \<open>fetched\<close> is what the query gives when it is run; \<open>asked\<close> and \<open>answered\<close> are
  the times of the lookup and of the storing.
\<close>

definition get_or_set ::
  "'b backend \<Rightarrow> result_config \<Rightarrow> rat \<Rightarrow> rat \<Rightarrow> string \<Rightarrow> pyval result \<Rightarrow> int option \<Rightarrow> 'b \<times> cache_stats
   \<Rightarrow> pyval result \<times> 'b \<times> cache_stats" where
  "get_or_set be cfg asked answered key fetched ttl s =
     (case cache_lookup be cfg asked key s of
        (Hit v, s1) \<Rightarrow> (Inr v, s1)
      | (Run_only, s1) \<Rightarrow> (fetched, s1)
      | (Run_and_store, s1) \<Rightarrow>
          (case fetched of Inl e \<Rightarrow> (Inl e, s1) | Inr v \<Rightarrow> (Inr v, cache_store be cfg answered key ttl v s1)))"

subsection \<open>Invalidation and warming\<close>

text \<open>A failure of the backend is logged and swallowed.\<close>

definition invalidate :: "'b backend \<Rightarrow> string \<Rightarrow> 'b \<times> cache_stats \<Rightarrow> 'b \<times> cache_stats" where
  "invalidate be key s = (snd (be_delete be key (fst s)), snd s)"

definition invalidate_pattern :: "'b backend \<Rightarrow> string \<Rightarrow> 'b \<times> cache_stats \<Rightarrow> 'b \<times> cache_stats" where
  "invalidate_pattern be pattern s = (snd (be_delete_pattern be pattern (fst s)), snd s)"

definition reset_stats :: "'b \<times> cache_stats \<Rightarrow> 'b \<times> cache_stats" where
  "reset_stats s = (fst s, no_stats)"

fun warm_cache ::
  "'b backend \<Rightarrow> result_config \<Rightarrow> (string \<Rightarrow> pydict \<Rightarrow> string) \<Rightarrow> (string \<Rightarrow> pydict \<Rightarrow> pyval result) \<Rightarrow> rat \<Rightarrow> (string \<times> pydict) list
   \<Rightarrow> 'b \<times> cache_stats \<Rightarrow> 'b \<times> cache_stats" where
  "warm_cache be cfg key_of query now [] s = s"
| "warm_cache be cfg key_of query now ((name, filters) # qs) s =
     warm_cache be cfg key_of query now qs
       (case query name filters of
          Inl e \<Rightarrow> s
        | Inr v \<Rightarrow> (snd (be_set be now (key_of name filters) v (rc_default_ttl cfg) (fst s)), snd s))"

text \<open>The decorator of a query function.\<close>

definition cached_query ::
  "'b backend \<Rightarrow> result_config \<Rightarrow> int option \<Rightarrow> (pydict \<Rightarrow> string) option \<Rightarrow> string \<Rightarrow> (pyval list \<Rightarrow> pydict \<Rightarrow> pyval result)
   \<Rightarrow> rat \<Rightarrow> rat \<Rightarrow> bool \<Rightarrow> pyval list \<Rightarrow> pydict \<Rightarrow> 'b \<times> cache_stats \<Rightarrow> pyval result \<times> 'b \<times> cache_stats" where
  "cached_query be cfg ttl key_func name func asked answered skip_cache args kwargs s =
     (if skip_cache then (func args kwargs, s)
      else get_or_set be cfg asked answered (case key_func of Some f \<Rightarrow> f kwargs | None \<Rightarrow> cached_query_key name args kwargs)
             (func args kwargs) ttl s)"

subsection \<open>Interleaved operations\<close>

datatype cache_op =
  Look_up rat string
| Store rat string "int option" pyval
| Drop string
| Drop_pattern string

fun run_cache_op :: "'b backend \<Rightarrow> result_config \<Rightarrow> cache_op \<Rightarrow> 'b \<times> cache_stats \<Rightarrow> 'b \<times> cache_stats" where
  "run_cache_op be cfg (Look_up now key) s = snd (cache_lookup be cfg now key s)"
| "run_cache_op be cfg (Store now key ttl v) s = cache_store be cfg now key ttl v s"
| "run_cache_op be cfg (Drop key) s = invalidate be key s"
| "run_cache_op be cfg (Drop_pattern p) s = invalidate_pattern be p s"

definition run_cache :: "'b backend \<Rightarrow> result_config \<Rightarrow> cache_op list \<Rightarrow> 'b \<times> cache_stats \<Rightarrow> 'b \<times> cache_stats" where
  "run_cache be cfg ops s = fold (run_cache_op be cfg) ops s"

text \<open>The operation removes the key: it names it, or a pattern that matches it, and the backend answers.\<close>

fun removes :: "'b backend \<Rightarrow> (string \<Rightarrow> string \<Rightarrow> bool) \<Rightarrow> cache_op \<Rightarrow> string \<Rightarrow> 'b \<times> cache_stats \<Rightarrow> bool" where
  "removes be covers (Drop k) key s = (k = key \<and> (\<exists>r. fst (be_delete be k (fst s)) = Inr r))"
| "removes be covers (Drop_pattern p) key s = (covers p key \<and> (\<exists>r. fst (be_delete_pattern be p (fst s)) = Inr r))"
| "removes be covers _ key s = False"

subsection \<open>What a backend promises\<close>

text \<open>
  \<open>held\<close> gives the entries of a backend with their expiry, \<open>unpack\<close> what \<open>get\<close> makes of a stored value, and
  \<open>covers\<close> which keys a pattern matches.
\<close>

locale cache_backend =
  fixes be :: "'b backend"
    and held :: "'b \<Rightarrow> string \<Rightarrow> (pyval \<times> rat) option"
    and unpack :: "pyval \<Rightarrow> pyval"
    and covers :: "string \<Rightarrow> string \<Rightarrow> bool"
  assumes get_keeps: "be_get be now key b = (r, b1) \<Longrightarrow> held b1 = held b"
    and get_held: "be_get be now key b = (Inr v, b1) \<Longrightarrow> v \<noteq> PNone \<Longrightarrow> \<exists>w e. held b key = Some (w, e) \<and> now < e \<and> v = unpack w"
    and set_ok: "be_set be now key v ttl b = (Inr x, b1) \<Longrightarrow> held b1 = (held b)(key \<mapsto> (v, now + of_int ttl))"
    and set_fails: "be_set be now key v ttl b = (Inl err, b1) \<Longrightarrow> held b1 = held b"
    and delete_ok: "be_delete be key b = (Inr y, b1) \<Longrightarrow> held b1 = (held b)(key := None)"
    and delete_fails: "be_delete be key b = (Inl err, b1) \<Longrightarrow> held b1 = held b"
    and pattern_ok: "be_delete_pattern be p b = (Inr n, b1) \<Longrightarrow> held b1 = (\<lambda>k. if covers p k then None else held b k)"
    and pattern_fails: "be_delete_pattern be p b = (Inl err, b1) \<Longrightarrow> held b1 = held b"
begin

lemma lookup_keeps: "cache_lookup be cfg now key (b, st) = (l, b1, st1) \<Longrightarrow> held b1 = held b"
  using get_keeps by (auto simp: cache_lookup_def split: prod.splits sum.splits if_splits)

lemma lookup_hit:
  assumes "cache_lookup be cfg now key (b, st) = (Hit v, b1, st1)"
  shows "\<exists>w e. held b key = Some (w, e) \<and> now < e \<and> v = unpack w"
proof -
  obtain r b2 where g: "be_get be now key b = (r, b2)" by (metis prod.exhaust)
  with assms have "r = Inr v" "v \<noteq> PNone" by (auto simp: cache_lookup_def split: sum.splits if_splits)
  with g get_held show ?thesis by blast
qed

lemma store_held:
  "held (fst (cache_store be cfg now key ttl v (b, st))) = held b
   \<or> held (fst (cache_store be cfg now key ttl v (b, st))) = (held b)(key \<mapsto> (v, now + of_int (effective_ttl cfg ttl)))"
proof -
  obtain r b1 where g: "be_set be now key v (effective_ttl cfg ttl) b = (r, b1)" by (metis prod.exhaust)
  then show ?thesis using set_ok set_fails by (cases r) (auto simp: cache_store_def)
qed

text \<open>One operation: an entry is there because it was, or because the operation stores it.\<close>

lemma run_op_held:
  assumes "held (fst (run_cache_op be cfg op s)) key = Some (v, e)"
  shows "held (fst s) key = Some (v, e) \<and> \<not> removes be covers op key s
    \<or> (\<exists>t ttl. op = Store t key ttl v \<and> e = t + of_int (effective_ttl cfg ttl))"
proof (cases op)
  case (Look_up now k)
  obtain b st where s: "s = (b, st)" by (cases s)
  obtain l b1 st1 where "cache_lookup be cfg now k (b, st) = (l, b1, st1)" by (metis prod_cases3)
  with lookup_keeps assms Look_up s show ?thesis by fastforce
next
  case (Store now k ttl w)
  obtain b st where s: "s = (b, st)" by (cases s)
  from store_held [of cfg now k ttl w b st] show ?thesis
    using assms Store s by (cases "k = key") auto
next
  case (Drop k)
  obtain r b1 where "be_delete be k (fst s) = (r, b1)" by (metis prod.exhaust)
  with delete_ok delete_fails assms Drop show ?thesis
    by (cases r) (fastforce simp: invalidate_def split: if_splits)+
next
  case (Drop_pattern p)
  obtain r b1 where "be_delete_pattern be p (fst s) = (r, b1)" by (metis prod.exhaust)
  with pattern_ok pattern_fails assms Drop_pattern show ?thesis
    by (cases r) (fastforce simp: invalidate_pattern_def split: if_splits)+
qed

lemma run_cache_snoc: "run_cache be cfg (ops @ [op]) s = run_cache_op be cfg op (run_cache be cfg ops s)"
  by (simp add: run_cache_def)

text \<open>Every entry was stored by one of the operations, and none after it removed it.\<close>

lemma run_held:
  assumes "held (fst s) = (\<lambda>_. None)"
  shows "held (fst (run_cache be cfg ops s)) key = Some (v, e) \<Longrightarrow>
    \<exists>before t ttl after. ops = before @ [Store t key ttl v] @ after \<and> e = t + of_int (effective_ttl cfg ttl)
      \<and> (\<forall>mid op rest. after = mid @ [op] @ rest \<longrightarrow> \<not> removes be covers op key (run_cache be cfg (before @ [Store t key ttl v] @ mid) s))"
proof (induction ops rule: rev_induct)
  case Nil
  then show ?case using assms by (simp add: run_cache_def)
next
  case (snoc op ops)
  from run_op_held [OF snoc.prems [unfolded run_cache_snoc]] show ?case
  proof
    assume h: "held (fst (run_cache be cfg ops s)) key = Some (v, e) \<and> \<not> removes be covers op key (run_cache be cfg ops s)"
    with snoc.IH obtain before t ttl after where o: "ops = before @ [Store t key ttl v] @ after" "e = t + of_int (effective_ttl cfg ttl)"
      "\<forall>mid op rest. after = mid @ [op] @ rest \<longrightarrow> \<not> removes be covers op key (run_cache be cfg (before @ [Store t key ttl v] @ mid) s)"
      by blast
    have "\<not> removes be covers op' key (run_cache be cfg (before @ [Store t key ttl v] @ mid) s)"
      if "after @ [op] = mid @ [op'] @ rest" for mid op' rest
    proof (cases rest rule: rev_cases)
      case Nil
      with that have "after = mid" "op' = op" by simp_all
      with h o(1) show ?thesis by simp
    next
      case (snoc rest' z)
      with that have "after = mid @ [op'] @ rest'" by simp
      with o(3) show ?thesis by blast
    qed
    with o(1,2) show ?case by (intro exI [of _ before] exI [of _ t] exI [of _ ttl] exI [of _ "after @ [op]"]) simp
  next
    assume "\<exists>t ttl. op = Store t key ttl v \<and> e = t + of_int (effective_ttl cfg ttl)"
    then obtain t ttl where "op = Store t key ttl v" "e = t + of_int (effective_ttl cfg ttl)" by blast
    then show ?case by (intro exI [of _ ops] exI [of _ t] exI [of _ ttl] exI [of _ "[]"]) simp
  qed
qed

lemma hit_was_stored:
  assumes "held (fst s) = (\<lambda>_. None)" "cache_lookup be cfg now key (run_cache be cfg ops s) = (Hit v, s1)"
  shows "\<exists>w before t ttl after. v = unpack w \<and> ops = before @ [Store t key ttl w] @ after \<and> now < t + of_int (effective_ttl cfg ttl)
      \<and> (\<forall>mid op rest. after = mid @ [op] @ rest \<longrightarrow> \<not> removes be covers op key (run_cache be cfg (before @ [Store t key ttl w] @ mid) s))"
proof -
  obtain b st where r: "run_cache be cfg ops s = (b, st)" by (metis prod.exhaust)
  obtain b1 st1 where "s1 = (b1, st1)" by (cases s1)
  with r assms(2) lookup_hit obtain w e where "held b key = Some (w, e)" "now < e" "v = unpack w" by metis
  note w = this
  from w(1) have "held (fst (run_cache be cfg ops s)) key = Some (w, e)" by (simp only: r fst_conv)
  then obtain before t ttl after where o: "ops = before @ [Store t key ttl w] @ after" "e = t + of_int (effective_ttl cfg ttl)"
    "\<forall>mid op rest. after = mid @ [op] @ rest \<longrightarrow> \<not> removes be covers op key (run_cache be cfg (before @ [Store t key ttl w] @ mid) s)"
    using run_held [OF assms(1)] by blast
  show ?thesis
    by (intro exI [of _ w] exI [of _ before] exI [of _ t] exI [of _ ttl] exI [of _ after] conjI w(3) o(1,3))
      (use w(2) o(2) in simp)
qed

text \<open>Without an operation that stores it, a key that is not held stays away.\<close>

lemma run_absent:
  "held (fst s) key = None \<Longrightarrow> \<forall>op \<in> set ops. \<forall>t ttl v. op \<noteq> Store t key ttl v \<Longrightarrow> held (fst (run_cache be cfg ops s)) key = None"
proof (induction ops rule: rev_induct)
  case (snoc op ops)
  then have ih: "held (fst (run_cache be cfg ops s)) key = None" by simp
  show ?case
  proof (cases "held (fst (run_cache be cfg (ops @ [op]) s)) key")
    case (Some x)
    then obtain v e where "held (fst (run_cache be cfg (ops @ [op]) s)) key = Some (v, e)" by (cases x) simp
    from run_op_held [OF this [unfolded run_cache_snoc]] ih snoc.prems(2) show ?thesis by auto
  qed simp
qed (simp add: run_cache_def)

lemma absent_no_hit: "held b key = None \<Longrightarrow> fst (cache_lookup be cfg now key (b, st)) \<noteq> Hit v"
  using lookup_hit [of cfg now key b st v] by (metis option.distinct(1) prod.collapse)

end

end
