(* ===== verification/PgCache.thy ===== *)
theory PgCache
  imports ResultCache
begin

section \<open>The PostgreSQL cache\<close>

text \<open>
  \<open>caching/postgres_cache.py\<close>: the table of entries, the detection of the extension \<open>pg_fraiseql_cache\<close>,
  the versions of its domains and its cascade rules.  A server that does not answer makes every
  operation raise.  What the JSONB column gives back for a value is PostgreSQL's and psycopg's work, so
  it is an argument: nothing for a value the column refuses.
\<close>

subsection \<open>\<open>LIKE\<close>\<close>

text \<open>\<open>%\<close> is any text, \<open>_\<close> any character, and a backslash takes the next character as it is.\<close>

function (sequential) like :: "string \<Rightarrow> string \<Rightarrow> bool" where
  "like [] s = (s = [])"
| "like (c # p) s =
     (if c = CHR ''%'' then like p s \<or> (case s of [] \<Rightarrow> False | d # t \<Rightarrow> like (c # p) t)
      else if c = CHR ''_'' then (case s of [] \<Rightarrow> False | d # t \<Rightarrow> like p t)
      else if c = CHR 0x5C then (case p of [] \<Rightarrow> False | e # p' \<Rightarrow> (case s of [] \<Rightarrow> False | d # t \<Rightarrow> e = d \<and> like p' t))
      else (case s of [] \<Rightarrow> False | d # t \<Rightarrow> c = d \<and> like p t))"
  by pat_completeness auto
termination by (relation "measure (\<lambda>(p, s). length p + length s)") auto

text \<open>The pattern of the cache writes \<open>*\<close> for any text.\<close>

definition sql_pattern :: "string \<Rightarrow> string" where
  "sql_pattern p = map (\<lambda>c. if c = CHR ''*'' then CHR ''%'' else c) p"

definition covers :: "string \<Rightarrow> string \<Rightarrow> bool" where "covers p key = like (sql_pattern p) key"

subsection \<open>The server and the cache object\<close>

record pg_server =
  sv_up :: bool
  sv_catalog :: bool
  sv_extension :: "string option"
  sv_table :: bool
  sv_rows :: "(string \<times> pyval \<times> rat) list"
  sv_domain_versions :: "((string \<times> string) \<times> int) list"
  sv_rules :: "((string \<times> string) \<times> string) list"

record pg_cache =
  pc_auto_initialize :: bool
  pc_initialized :: bool
  pc_has_versions :: bool
  pc_extension :: "string option"
  pc_server :: pg_server

definition new_pg_cache :: "bool \<Rightarrow> pg_server \<Rightarrow> pg_cache" where
  "new_pg_cache auto sv =
     \<lparr>pc_auto_initialize = auto, pc_initialized = False, pc_has_versions = False, pc_extension = None, pc_server = sv\<rparr>"

text \<open>
  One transaction creates the table and reads the catalog.  When reading the catalog fails, the error is
  caught and the transaction is committed all the same, which rolls it back; the object is initialised.
\<close>

definition setup_cache :: "bool \<Rightarrow> pg_cache \<Rightarrow> unit result \<times> pg_cache" where
  "setup_cache create_table pc =
     (let sv = pc_server pc in
      if \<not> sv_up sv then (Inl DatabaseError, pc)
      else if sv_catalog sv
      then (Inr (), pc\<lparr>pc_initialized := True, pc_has_versions := sv_extension sv \<noteq> None, pc_extension := sv_extension sv,
                       pc_server := sv\<lparr>sv_table := sv_table sv \<or> create_table\<rparr>\<rparr>)
      else (Inr (), pc\<lparr>pc_initialized := True, pc_has_versions := False, pc_extension := None\<rparr>))"

definition initialize :: "pg_cache \<Rightarrow> unit result \<times> pg_cache" where "initialize pc = setup_cache True pc"

definition ensure_initialized :: "pg_cache \<Rightarrow> unit result \<times> pg_cache" where
  "ensure_initialized pc = (if pc_initialized pc then (Inr (), pc) else setup_cache (pc_auto_initialize pc) pc)"

definition as_cache_error :: "py_error \<Rightarrow> py_error" where
  "as_cache_error e = (if e = DatabaseError then PostgresCacheError else e)"

text \<open>An operation on the server, and one on the table.\<close>

definition pg_op :: "(pg_cache \<Rightarrow> 'a result \<times> pg_cache) \<Rightarrow> pg_cache \<Rightarrow> 'a result \<times> pg_cache" where
  "pg_op body pc =
     (case ensure_initialized pc of
        (Inl e, pc1) \<Rightarrow> (Inl (as_cache_error e), pc1)
      | (Inr _, pc1) \<Rightarrow> body pc1)"

definition on_server :: "(pg_cache \<Rightarrow> 'a result \<times> pg_cache) \<Rightarrow> pg_cache \<Rightarrow> 'a result \<times> pg_cache" where
  "on_server body pc = (if sv_up (pc_server pc) then body pc else (Inl PostgresCacheError, pc))"

definition on_table :: "(pg_cache \<Rightarrow> 'a result \<times> pg_cache) \<Rightarrow> pg_cache \<Rightarrow> 'a result \<times> pg_cache" where
  "on_table body pc = (if sv_up (pc_server pc) \<and> sv_table (pc_server pc) then body pc else (Inl PostgresCacheError, pc))"

definition set_rows :: "(string \<times> pyval \<times> rat) list \<Rightarrow> pg_cache \<Rightarrow> pg_cache" where
  "set_rows rows pc = pc\<lparr>pc_server := (pc_server pc)\<lparr>sv_rows := rows\<rparr>\<rparr>"

abbreviation rows :: "pg_cache \<Rightarrow> (string \<times> pyval \<times> rat) list" where
  "rows pc \<equiv> sv_rows (pc_server pc)"

subsection \<open>Entries\<close>

definition live_value :: "(pyval \<Rightarrow> pyval option) \<Rightarrow> rat \<Rightarrow> string \<Rightarrow> pg_cache \<Rightarrow> pyval option" where
  "live_value jsonb now key pc =
     (case map_of (rows pc) key of None \<Rightarrow> None | Some (v, e) \<Rightarrow> if now < e then jsonb v else None)"

text \<open>A dictionary with the keys \<open>result\<close> and \<open>versions\<close> is taken for the wrapper of a value.\<close>

definition unwrap :: "pyval \<Rightarrow> pyval \<times> pyval" where
  "unwrap v =
     (case v of
        PDict d \<Rightarrow> (case (map_of d ''result'', map_of d ''versions'') of (Some r, Some w) \<Rightarrow> (r, w) | _ \<Rightarrow> (v, PNone))
      | _ \<Rightarrow> (v, PNone))"

definition pg_get :: "(pyval \<Rightarrow> pyval option) \<Rightarrow> rat \<Rightarrow> string \<Rightarrow> pg_cache \<Rightarrow> pyval result \<times> pg_cache" where
  "pg_get jsonb now key =
     pg_op (on_table (\<lambda>pc. (Inr (case live_value jsonb now key pc of None \<Rightarrow> PNone | Some v \<Rightarrow> fst (unwrap v)), pc)))"

definition get_with_metadata :: "(pyval \<Rightarrow> pyval option) \<Rightarrow> rat \<Rightarrow> string \<Rightarrow> pg_cache \<Rightarrow> (pyval \<times> pyval) result \<times> pg_cache" where
  "get_with_metadata jsonb now key =
     pg_op (on_table (\<lambda>pc. (Inr (case live_value jsonb now key pc of None \<Rightarrow> (PNone, PNone) | Some v \<Rightarrow> unwrap v), pc)))"

definition pg_set ::
  "(pyval \<Rightarrow> pyval option) \<Rightarrow> rat \<Rightarrow> string \<Rightarrow> string \<Rightarrow> pyval \<Rightarrow> int \<Rightarrow> pydict \<Rightarrow> pg_cache \<Rightarrow> unit result \<times> pg_cache" where
  "pg_set jsonb now stamp key v ttl versions =
     pg_op (\<lambda>pc.
       let w = (if pc_has_versions pc \<and> versions \<noteq> []
                then PDict [(''result'', v), (''versions'', PDict versions), (''cached_at'', PStr stamp)] else v)
       in case json_dumps w of
            Inl _ \<Rightarrow> (Inl ValueError, pc)
          | Inr _ \<Rightarrow>
              on_table (\<lambda>pc. if jsonb w = None then (Inl PostgresCacheError, pc)
                             else (Inr (), set_rows (AList.update key (w, now + of_int ttl) (rows pc)) pc)) pc)"

definition pg_delete :: "string \<Rightarrow> pg_cache \<Rightarrow> bool result \<times> pg_cache" where
  "pg_delete key =
     pg_op (on_table (\<lambda>pc. (Inr (key \<in> fst ` set (rows pc)), set_rows (AList.delete key (rows pc)) pc)))"

definition pg_delete_pattern :: "string \<Rightarrow> pg_cache \<Rightarrow> int result \<times> pg_cache" where
  "pg_delete_pattern p =
     pg_op (on_table (\<lambda>pc.
       (Inr (int (length (filter (\<lambda>(k, _). covers p k) (rows pc)))), set_rows (filter (\<lambda>(k, _). \<not> covers p k) (rows pc)) pc)))"

definition pg_exists :: "rat \<Rightarrow> string \<Rightarrow> pg_cache \<Rightarrow> bool result \<times> pg_cache" where
  "pg_exists now key =
     pg_op (on_table (\<lambda>pc. (Inr (case map_of (rows pc) key of None \<Rightarrow> False | Some (_, e) \<Rightarrow> now < e), pc)))"

definition ping :: "pg_cache \<Rightarrow> bool result \<times> pg_cache" where
  "ping = pg_op (on_server (\<lambda>pc. (Inr True, pc)))"

definition cleanup_expired_rows :: "rat \<Rightarrow> pg_cache \<Rightarrow> int result \<times> pg_cache" where
  "cleanup_expired_rows now =
     pg_op (on_table (\<lambda>pc.
       (Inr (int (length (filter (\<lambda>(_, _, e). e \<le> now) (rows pc)))), set_rows (filter (\<lambda>(_, _, e). \<not> e \<le> now) (rows pc)) pc)))"

definition clear_all :: "pg_cache \<Rightarrow> int result \<times> pg_cache" where
  "clear_all = pg_op (on_table (\<lambda>pc. (Inr (int (length (rows pc))), set_rows [] pc)))"

text \<open>Total, expired and active entries; the size of the table is left out.\<close>

definition pg_stats :: "rat \<Rightarrow> pg_cache \<Rightarrow> (int \<times> int \<times> int) result \<times> pg_cache" where
  "pg_stats now =
     pg_op (on_table (\<lambda>pc.
       let total = int (length (rows pc)); expired = int (length (filter (\<lambda>(_, _, e). e \<le> now) (rows pc)))
       in (Inr (total, expired, total - expired), pc)))"

subsection \<open>Domains\<close>

definition get_domain_versions :: "string \<Rightarrow> string list \<Rightarrow> pg_cache \<Rightarrow> (string \<times> int) list result \<times> pg_cache" where
  "get_domain_versions tenant domains pc =
     (if domains = [] then (Inr [], pc)
      else pg_op (\<lambda>pc.
        if \<not> pc_has_versions pc then (Inr [], pc)
        else on_server (\<lambda>pc. (Inr (map (\<lambda>((t, d), n). (d, n))
               (filter (\<lambda>((t, d), n). t = tenant \<and> d \<in> set domains) (sv_domain_versions (pc_server pc)))), pc)) pc) pc)"

definition set_rules :: "((string \<times> string) \<times> string) list \<Rightarrow> pg_cache \<Rightarrow> pg_cache" where
  "set_rules rs pc = pc\<lparr>pc_server := (pc_server pc)\<lparr>sv_rules := rs\<rparr>\<rparr>"

definition register_cascade_rule :: "string \<Rightarrow> string \<Rightarrow> string \<Rightarrow> pg_cache \<Rightarrow> bool result \<times> pg_cache" where
  "register_cascade_rule src tgt rule_type =
     pg_op (\<lambda>pc.
       if \<not> pc_has_versions pc then (Inr False, pc)
       else on_server (\<lambda>pc. (Inr True, set_rules (AList.update (src, tgt) rule_type (sv_rules (pc_server pc))) pc)) pc)"

definition clear_cascade_rules :: "string option \<Rightarrow> pg_cache \<Rightarrow> int result \<times> pg_cache" where
  "clear_cascade_rules src =
     pg_op (\<lambda>pc.
       if \<not> pc_has_versions pc then (Inr 0, pc)
       else on_server (\<lambda>pc.
         let cleared = (\<lambda>((s, t), r). case src of None \<Rightarrow> True | Some x \<Rightarrow> x = [] \<or> s = x)
         in (Inr (int (length (filter cleared (sv_rules (pc_server pc))))),
             set_rules (filter (\<lambda>x. \<not> cleared x) (sv_rules (pc_server pc))) pc)) pc)"

text \<open>The arguments of the call of the extension's function, if it is called.\<close>

definition setup_table_trigger :: "string \<Rightarrow> string option \<Rightarrow> string \<Rightarrow> pg_cache \<Rightarrow> (string \<times> string option \<times> string) option result \<times> pg_cache" where
  "setup_table_trigger table domain tenant_column =
     pg_op (\<lambda>pc.
       if \<not> pc_has_versions pc then (Inr None, pc)
       else on_server (\<lambda>pc. (Inr (Some (table, (case domain of Some d \<Rightarrow> if d = [] then None else Some d | None \<Rightarrow> None), tenant_column)), pc)) pc)"

end
