(* ===== verification/CachedRepository.thy ===== *)
theory CachedRepository
  imports PgCache RowScope
begin

section \<open>The cached repository\<close>

text \<open>
  \<open>caching/repository_integration.py\<close>: \<open>find\<close> and \<open>find_one\<close> behind the result cache, and the invalidation
  after a database function was run.  The wrapped repository is an argument: what its methods give.
\<close>

subsection \<open>Results\<close>

text \<open>A response of the Rust pipeline is its JSON text with a schema type; other results are values.\<close>

datatype found = Response string pyval | Rows pyval

definition RUST_RESPONSE_MARKER :: string where "RUST_RESPONSE_MARKER = ''__fraiseql_rust_response__''"

definition encode_found :: "found \<Rightarrow> pyval" where
  "encode_found r =
     (case r of
        Response t st \<Rightarrow> PDict [(RUST_RESPONSE_MARKER, PStr t), (''schema_type'', st)]
      | Rows v \<Rightarrow> v)"

definition decode_found :: "pyval \<Rightarrow> found" where
  "decode_found v =
     (case v of
        PDict d \<Rightarrow>
          (case map_of d RUST_RESPONSE_MARKER of
             Some (PStr t) \<Rightarrow> Response t (case map_of d ''schema_type'' of Some st \<Rightarrow> st | None \<Rightarrow> PNone)
           | _ \<Rightarrow> Rows v)
      | _ \<Rightarrow> Rows v)"

subsection \<open>The key\<close>

text \<open>What a key reads of the GraphQL info: the printed nodes and fragments, and the variables.\<close>

record find_info =
  fi_field_name :: pyval
  fi_response_key :: pyval
  fi_selection :: "string list"
  fi_fragments :: "(string \<times> string) list"
  fi_variables :: pydict
  fi_multiple_roots :: bool

definition selection_text :: "find_info \<Rightarrow> string" where
  "selection_text fi =
     dumps_default (PDict [(''field'', fi_field_name fi), (''response_key'', fi_response_key fi), (''selection'', PList (map PStr (fi_selection fi))),
       (''fragments'', PDict (map (\<lambda>(n, t). (n, PStr t)) (sort_keys (fi_fragments fi)))), (''variables'', PDict (fi_variables fi)),
       (''multiple_root_fields'', PBool (fi_multiple_roots fi))])"

definition selection_fingerprint :: "(string \<Rightarrow> string) \<Rightarrow> find_info option \<Rightarrow> string option" where
  "selection_fingerprint sha info = map_option (\<lambda>fi. take 16 (sha (selection_text fi))) info"

definition arguments_fingerprint :: "(string \<Rightarrow> string) \<Rightarrow> pydict \<Rightarrow> string" where
  "arguments_fingerprint sha arguments = take 16 (sha (dumps_default (PDict arguments)))"

text \<open>The context of the wrapped repository: the tenant, the current GraphQL info, and the row scope.\<close>

record find_context =
  fc_tenant :: pyval
  fc_info :: "find_info option"
  fc_scope :: repo_context

datatype find_method = Find | Find_one

definition key_view :: "find_method \<Rightarrow> string \<Rightarrow> string" where
  "key_view m view = (case m of Find \<Rightarrow> view | Find_one \<Rightarrow> view @ '':one'')"

definition text_or_none :: "string option \<Rightarrow> pyval" where
  "text_or_none x = (case x of None \<Rightarrow> PNone | Some s \<Rightarrow> PStr s)"

definition effective_info :: "find_context \<Rightarrow> find_info option \<Rightarrow> find_info option" where
  "effective_info cx info = (case info of None \<Rightarrow> fc_info cx | Some fi \<Rightarrow> Some fi)"

definition fingerprints :: "(string \<Rightarrow> string) \<Rightarrow> find_context \<Rightarrow> string option \<Rightarrow> find_info option \<Rightarrow> pydict \<Rightarrow> string list" where
  "fingerprints sha cx field_name info kwargs =
     arguments_fingerprint sha ((''field_name'', text_or_none field_name) # kwargs)
     # (case selection_fingerprint sha (effective_info cx info) of None \<Rightarrow> [] | Some h \<Rightarrow> [h])"

definition no_order :: order_env where "no_order = \<lparr>default_string_collation = None, is_text_field = (\<lambda>_. False)\<rparr>"

definition find_key ::
  "(string \<Rightarrow> string) \<Rightarrow> result_config \<Rightarrow> find_context \<Rightarrow> find_method \<Rightarrow> string \<Rightarrow> string option \<Rightarrow> find_info option \<Rightarrow> pydict \<Rightarrow> string result" where
  "find_key sha cfg cx m view field_name info kwargs =
     build_key sha no_order (rc_key_prefix cfg) (key_view m view) (fc_tenant cx) [] None None None
       [(''q'', PStr (join_str '':'' (fingerprints sha cx field_name info kwargs)))]"

subsection \<open>\<open>find\<close> and \<open>find_one\<close>\<close>

text \<open>
  \<open>base\<close> is the wrapped method.  A response is also kept in the GraphQL context, from where the HTTP
  layer serves it.
\<close>

type_synonym base_find = "find_context \<Rightarrow> find_method \<Rightarrow> string \<Rightarrow> string option \<Rightarrow> find_info option \<Rightarrow> pydict \<Rightarrow> found result"

definition keep_rust_response ::
  "found \<Rightarrow> string \<Rightarrow> string option \<Rightarrow> find_info option \<Rightarrow> (string \<times> found) list \<Rightarrow> (string \<times> found) list" where
  "keep_rust_response r view field_name info kept =
     (case (r, info) of
        (Response t st, Some fi) \<Rightarrow>
          (let name = (case field_name of Some n \<Rightarrow> if n \<noteq> [] then PStr n else fi_field_name fi | None \<Rightarrow> fi_field_name fi);
               key = (case fi_response_key fi of PStr k \<Rightarrow> if k \<noteq> [] then k else (case name of PStr n \<Rightarrow> if n \<noteq> [] then n else view | _ \<Rightarrow> view)
                      | _ \<Rightarrow> (case name of PStr n \<Rightarrow> if n \<noteq> [] then n else view | _ \<Rightarrow> view))
           in AList.update key r kept)
      | _ \<Rightarrow> kept)"

definition cached_find ::
  "'b backend \<Rightarrow> result_config \<Rightarrow> (string \<Rightarrow> string) \<Rightarrow> base_find \<Rightarrow> rat \<Rightarrow> rat \<Rightarrow> find_context \<Rightarrow> find_method \<Rightarrow> string \<Rightarrow> string option
   \<Rightarrow> find_info option \<Rightarrow> bool \<Rightarrow> int option \<Rightarrow> pydict \<Rightarrow> (string \<times> found) list \<Rightarrow> 'b \<times> cache_stats
   \<Rightarrow> found result \<times> (string \<times> found) list \<times> 'b \<times> cache_stats" where
  "cached_find be cfg sha base asked answered cx m view field_name info skip_cache cache_ttl kwargs kept s =
     (if skip_cache then (base cx m view field_name info kwargs, kept, s)
      else case find_key sha cfg cx m view field_name info kwargs of
        Inl e \<Rightarrow> (Inl e, kept, s)
      | Inr key \<Rightarrow>
          (case get_or_set be cfg asked answered key (rbind (base cx m view field_name info kwargs) (\<lambda>r. Inr (encode_found r))) cache_ttl s of
             (Inl e, s1) \<Rightarrow> (Inl e, kept, s1)
           | (Inr v, s1) \<Rightarrow>
               (Inr (decode_found v), keep_rust_response (decode_found v) view field_name (effective_info cx info) kept, s1)))"

subsection \<open>Invalidation\<close>

definition last_part :: "char \<Rightarrow> string \<Rightarrow> string" where
  "last_part c s = rev (takeWhile (\<lambda>d. d \<noteq> c) (rev s))"

definition view_patterns :: "result_config \<Rightarrow> pyval \<Rightarrow> bool \<Rightarrow> string \<Rightarrow> string list" where
  "view_patterns cfg tenant all_tenants view_name =
     (let pre = rc_key_prefix cfg; name = last_part (CHR ''.'') view_name in
      if \<not> all_tenants \<and> tenant \<noteq> PNone
      then [pre @ '':'' @ py_str tenant @ '':'' @ name @ '':*'', pre @ '':'' @ py_str tenant @ '':*.'' @ name @ '':*'']
      else [pre @ '':'' @ name @ '':*'', pre @ '':*:'' @ name @ '':*'', pre @ '':*.'' @ name @ '':*''])"

definition invalidate_view ::
  "'b backend \<Rightarrow> result_config \<Rightarrow> find_context \<Rightarrow> bool \<Rightarrow> string \<Rightarrow> 'b \<times> cache_stats \<Rightarrow> 'b \<times> cache_stats" where
  "invalidate_view be cfg cx all_tenants view_name s =
     fold (invalidate_pattern be) (view_patterns cfg (fc_tenant cx) all_tenants view_name) s"

definition FUNCTION_VERBS :: "string list" where
  "FUNCTION_VERBS = [''create'', ''insert'', ''add'', ''update'', ''upsert'', ''edit'', ''patch'', ''set'', ''delete'', ''remove'', ''archive'', ''restore'']"

definition strip_verb :: "string \<Rightarrow> string" where
  "strip_verb name =
     (let rest = (if startswith name ''fn_'' then drop 3 name else name) in
      case find (\<lambda>v. startswith rest (v @ ''_'')) FUNCTION_VERBS of
        Some v \<Rightarrow> drop (length v + 1) rest
      | None \<Rightarrow> name)"

definition function_entities :: "string \<Rightarrow> string list" where
  "function_entities function_name =
     (let name = last_part (CHR ''.'') function_name in
      filter (\<lambda>e. e \<noteq> []) (if strip_verb name = last_part (CHR ''_'') name then [strip_verb name] else [strip_verb name, last_part (CHR ''_'') name]))"

definition function_views :: "string \<Rightarrow> string list" where
  "function_views function_name =
     concat (map (\<lambda>e. concat (map (\<lambda>pre. map (\<lambda>suf. pre @ e @ suf) ['''', ''s'']) ['''', ''v_'', ''tv_''])) (function_entities function_name))"

definition invalidate_for_function ::
  "'b backend \<Rightarrow> result_config \<Rightarrow> find_context \<Rightarrow> string \<Rightarrow> 'b \<times> cache_stats \<Rightarrow> 'b \<times> cache_stats" where
  "invalidate_for_function be cfg cx function_name s =
     fold (invalidate_view be cfg cx True) (function_views function_name) s"

text \<open>\<open>outcome\<close> is what the wrapped repository's method gives, with the context arguments or without.\<close>

definition execute_function ::
  "'b backend \<Rightarrow> result_config \<Rightarrow> find_context \<Rightarrow> string \<Rightarrow> 'r result \<Rightarrow> 'b \<times> cache_stats \<Rightarrow> 'r result \<times> 'b \<times> cache_stats" where
  "execute_function be cfg cx function_name outcome s =
     (case outcome of
        Inl e \<Rightarrow> (Inl e, s)
      | Inr r \<Rightarrow> (Inr r, invalidate_for_function be cfg cx function_name s))"

end
