(* ===== verification/CachedProps.thy ===== *)
theory CachedProps
  imports CachedRepository
begin

section \<open>What the cache serves\<close>

text \<open>
  The PostgreSQL cache is a backend in the sense of \<open>cache_backend\<close>; keys keep tenants apart, an
  invalidated view is gone from the cache, and a hit is a stored result that is not too old.
\<close>

subsection \<open>The PostgreSQL cache is a backend\<close>

definition pg_backend :: "(pyval \<Rightarrow> pyval option) \<Rightarrow> string \<Rightarrow> pg_cache backend" where
  "pg_backend jsonb stamp =
     \<lparr>be_get = pg_get jsonb, be_set = (\<lambda>now key v ttl. pg_set jsonb now stamp key v ttl []), be_delete = pg_delete,
      be_delete_pattern = pg_delete_pattern\<rparr>"

definition pg_held :: "pg_cache \<Rightarrow> string \<Rightarrow> (pyval \<times> rat) option" where
  "pg_held pc = map_of (rows pc)"

definition pg_unpack :: "(pyval \<Rightarrow> pyval option) \<Rightarrow> pyval \<Rightarrow> pyval" where
  "pg_unpack jsonb w = fst (unwrap (the (jsonb w)))"

lemma setup_keeps_rows: "setup_cache c pc = (r, pc1) \<Longrightarrow> rows pc1 = rows pc"
  by (auto simp: setup_cache_def Let_def split: if_splits)

lemma ensure_keeps_rows: "ensure_initialized pc = (r, pc1) \<Longrightarrow> rows pc1 = rows pc"
  using setup_keeps_rows by (auto simp: ensure_initialized_def split: if_splits)

text \<open>An operation works on the rows of the cache as it found it.\<close>

lemma pg_op_rows:
  assumes "pg_op body pc = (r, pc1)"
  shows "\<exists>pc0. rows pc0 = rows pc \<and> ((\<exists>e. r = Inl e \<and> pc1 = pc0) \<or> body pc0 = (r, pc1))"
proof -
  obtain x pc0 where "ensure_initialized pc = (x, pc0)" by (metis prod.exhaust)
  with ensure_keeps_rows assms show ?thesis
    by (cases x) (fastforce simp: pg_op_def)+
qed

lemma on_table_cases: "on_table body pc = (r, pc1) \<Longrightarrow> (r = Inl PostgresCacheError \<and> pc1 = pc) \<or> body pc = (r, pc1)"
  by (auto simp: on_table_def split: if_splits)

lemma map_of_filter_key: "map_of (filter (\<lambda>(k, _). P k) xs) k = (if P k then map_of xs k else None)"
  by (induction xs) auto

lemma set_rows_rows [simp]: "rows (set_rows rs pc) = rs"
  by (simp add: set_rows_def)

lemma pg_get_held:
  assumes "pg_get jsonb now key pc = (r, pc1)"
  shows "pg_held pc1 = pg_held pc
    \<and> (\<forall>v. r = Inr v \<longrightarrow> v \<noteq> PNone \<longrightarrow> (\<exists>w e. pg_held pc key = Some (w, e) \<and> now < e \<and> v = pg_unpack jsonb w))"
proof -
  from pg_op_rows [OF assms [unfolded pg_get_def]] obtain pc0 where r0: "rows pc0 = rows pc" and
    c: "(\<exists>e. r = Inl e \<and> pc1 = pc0) \<or> on_table (\<lambda>pc. (Inr (case live_value jsonb now key pc of None \<Rightarrow> PNone | Some v \<Rightarrow> fst (unwrap v)), pc)) pc0 = (r, pc1)"
    by blast
  from c show ?thesis
  proof
    assume "\<exists>e. r = Inl e \<and> pc1 = pc0"
    with r0 show ?thesis by (auto simp: pg_held_def)
  next
    assume t: "on_table (\<lambda>pc. (Inr (case live_value jsonb now key pc of None \<Rightarrow> PNone | Some v \<Rightarrow> fst (unwrap v)), pc)) pc0 = (r, pc1)"
    from on_table_cases [OF t] r0 show ?thesis
      by (auto simp: pg_held_def live_value_def pg_unpack_def split: option.splits if_splits)
  qed
qed

lemma pg_set_held:
  assumes "pg_set jsonb now stamp key v ttl [] pc = (r, pc1)"
  shows "pg_held pc1 = (case r of Inl _ \<Rightarrow> pg_held pc | Inr _ \<Rightarrow> (pg_held pc)(key \<mapsto> (v, now + of_int ttl)))"
  using pg_op_rows [OF assms [unfolded pg_set_def]]
  by (cases "json_dumps v") (auto simp: pg_held_def update_conv' on_table_def split: sum.splits if_splits)

lemma pg_delete_held:
  assumes "pg_delete key pc = (r, pc1)"
  shows "pg_held pc1 = (case r of Inl _ \<Rightarrow> pg_held pc | Inr _ \<Rightarrow> (pg_held pc)(key := None))"
  using pg_op_rows [OF assms [unfolded pg_delete_def]]
  by (auto simp: pg_held_def delete_conv' on_table_def split: sum.splits if_splits)

lemma pg_delete_pattern_held:
  assumes "pg_delete_pattern p pc = (r, pc1)"
  shows "pg_held pc1 = (case r of Inl _ \<Rightarrow> pg_held pc | Inr _ \<Rightarrow> (\<lambda>k. if covers p k then None else pg_held pc k))"
  using pg_op_rows [OF assms [unfolded pg_delete_pattern_def]]
  by (auto simp: pg_held_def map_of_filter_key on_table_def fun_eq_iff split: sum.splits if_splits)

interpretation pg: cache_backend "pg_backend jsonb stamp" pg_held "pg_unpack jsonb" covers for jsonb stamp
proof unfold_locales
  fix now key b r b1
  assume "be_get (pg_backend jsonb stamp) now key b = (r, b1)"
  then show "pg_held b1 = pg_held b" using pg_get_held by (fastforce simp: pg_backend_def)
next
  fix now key b v b1
  assume "be_get (pg_backend jsonb stamp) now key b = (Inr v, b1)" "v \<noteq> PNone"
  then show "\<exists>w e. pg_held b key = Some (w, e) \<and> now < e \<and> v = pg_unpack jsonb w"
    using pg_get_held by (fastforce simp: pg_backend_def)
next
  fix now key v ttl b x b1
  assume "be_set (pg_backend jsonb stamp) now key v ttl b = (Inr x, b1)"
  then show "pg_held b1 = (pg_held b)(key \<mapsto> (v, now + of_int ttl))" using pg_set_held by (fastforce simp: pg_backend_def)
next
  fix now key v ttl b err b1
  assume "be_set (pg_backend jsonb stamp) now key v ttl b = (Inl err, b1)"
  then show "pg_held b1 = pg_held b" using pg_set_held by (fastforce simp: pg_backend_def)
next
  fix key b y b1
  assume "be_delete (pg_backend jsonb stamp) key b = (Inr y, b1)"
  then show "pg_held b1 = (pg_held b)(key := None)" using pg_delete_held by (fastforce simp: pg_backend_def)
next
  fix key b err b1
  assume "be_delete (pg_backend jsonb stamp) key b = (Inl err, b1)"
  then show "pg_held b1 = pg_held b" using pg_delete_held by (fastforce simp: pg_backend_def)
next
  fix p b n b1
  assume "be_delete_pattern (pg_backend jsonb stamp) p b = (Inr n, b1)"
  then show "pg_held b1 = (\<lambda>k. if covers p k then None else pg_held b k)" using pg_delete_pattern_held by (fastforce simp: pg_backend_def)
next
  fix p b err b1
  assume "be_delete_pattern (pg_backend jsonb stamp) p b = (Inl err, b1)"
  then show "pg_held b1 = pg_held b" using pg_delete_pattern_held by (fastforce simp: pg_backend_def)
qed


subsection \<open>Patterns\<close>

lemma sql_pattern_append: "sql_pattern (p @ q) = sql_pattern p @ sql_pattern q"
  by (simp add: sql_pattern_def)

lemma like_any: "like p t \<Longrightarrow> like (CHR ''%'' # p) (s @ t)"
  by (induction s) auto

text \<open>A text without backslashes matches itself: an underscore, and a wildcard in a name, only match more.\<close>

lemma like_literal: "CHR 0x5C \<notin> set s \<Longrightarrow> like p t \<Longrightarrow> like (sql_pattern s @ p) (s @ t)"
proof (induction s)
  case (Cons c s)
  then have ih: "like (sql_pattern s @ p) (s @ t)" and c: "c \<noteq> CHR 0x5C" by auto
  have "like (CHR ''%'' # sql_pattern s @ p) (c # s @ t)" using like_any [OF ih, of "[c]"] by simp
  moreover have "sql_pattern (c # s) = (if c = CHR ''*'' then CHR ''%'' else c) # sql_pattern s" by (simp add: sql_pattern_def)
  ultimately show ?case using ih c by (cases "c = CHR ''*''"; cases "c = CHR ''%''"; cases "c = CHR ''_''") simp_all
qed (simp add: sql_pattern_def)

lemma covers_plain:
  assumes "CHR 0x5C \<notin> set a"
  shows "covers (a @ ''*'') (a @ t)"
  using like_literal [OF assms like_any [of "[]" "[]" t]] by (simp add: covers_def sql_pattern_append) (simp add: sql_pattern_def)

lemma covers_between:
  assumes "CHR 0x5C \<notin> set a" "CHR 0x5C \<notin> set b"
  shows "covers (a @ ''*'' @ b @ ''*'') (a @ s @ b @ t)"
proof -
  have "like (sql_pattern b @ ''%'') (b @ t)" using like_literal [OF assms(2) like_any [of "[]" "[]" t]] by simp
  from like_literal [OF assms(1) like_any [OF this, of s]] show ?thesis
    by (simp add: covers_def sql_pattern_append) (simp add: sql_pattern_def)
qed

lemma last_part_cases: "last_part c s = s \<or> (\<exists>q. s = q @ c # last_part c s)"
proof (cases "c \<in> set s")
  case True
  have "rev s = takeWhile (\<lambda>d. d \<noteq> c) (rev s) @ dropWhile (\<lambda>d. d \<noteq> c) (rev s)" by simp
  moreover obtain r where "dropWhile (\<lambda>d. d \<noteq> c) (rev s) = c # r"
    using True hd_dropWhile [of "\<lambda>d. d \<noteq> c" "rev s"] by (cases "dropWhile (\<lambda>d. d \<noteq> c) (rev s)") auto
  ultimately have "rev s = rev (last_part c s) @ c # r" by (simp add: last_part_def)
  then have "s = rev r @ c # last_part c s" by (metis append_assoc append_Cons append_Nil rev.simps(2) rev_append rev_rev_ident)
  then show ?thesis by blast
next
  case False
  then have "takeWhile (\<lambda>d. d \<noteq> c) (rev s) = rev s" by (auto simp: takeWhile_eq_all_conv)
  then have "last_part c s = s" by (simp only: last_part_def rev_rev_ident)
  then show ?thesis by blast
qed

subsection \<open>The shape of a key\<close>

definition tenant_part :: "pyval \<Rightarrow> string list" where
  "tenant_part tenant = (if tenant = PNone then [] else [py_str tenant])"

lemma find_key_eq:
  "find_key sha cfg cx m view field_name info kwargs =
     Inr (join_str '':'' (rc_key_prefix cfg # tenant_part (fc_tenant cx) @ [key_view m view, ''q:'' @ join_str '':'' (fingerprints sha cx field_name info kwargs)]))"
  by (simp add: find_key_def build_key_def tenant_part_def serialize_value_def)

lemma find_key_view:
  assumes "find_key sha cfg cx m view field_name info kwargs = Inr key"
  shows "\<exists>a t. key = rc_key_prefix cfg @ '':'' @ a @ view @ '':'' @ t \<and> (a = [] \<or> (\<exists>b. a = b @ '':''))"
proof (cases m; cases "fc_tenant cx = PNone")
  assume "m = Find" "fc_tenant cx = PNone"
  with assms show ?thesis by (auto simp: find_key_eq tenant_part_def key_view_def)
next
  assume "m = Find_one" "fc_tenant cx = PNone"
  with assms show ?thesis by (auto simp: find_key_eq tenant_part_def key_view_def)
next
  assume "m = Find" "fc_tenant cx \<noteq> PNone"
  with assms have "key = rc_key_prefix cfg @ '':'' @ (py_str (fc_tenant cx) @ '':'') @ view @ '':'' @ ''q:'' @ join_str '':'' (fingerprints sha cx field_name info kwargs)"
    by (simp add: find_key_eq tenant_part_def key_view_def)
  then show ?thesis by blast
next
  assume "m = Find_one" "fc_tenant cx \<noteq> PNone"
  with assms have "key = rc_key_prefix cfg @ '':'' @ (py_str (fc_tenant cx) @ '':'') @ view @ '':'' @ ''one:q:'' @ join_str '':'' (fingerprints sha cx field_name info kwargs)"
    by (simp add: find_key_eq tenant_part_def key_view_def)
  then show ?thesis by blast
qed

lemma view_patterns_cover:
  assumes "find_key sha cfg cx m view field_name info kwargs = Inr key"
    and "last_part (CHR ''.'') view = last_part (CHR ''.'') view_name"
    and "CHR 0x5C \<notin> set (rc_key_prefix cfg)" "CHR 0x5C \<notin> set (last_part (CHR ''.'') view_name)"
  shows "\<exists>p \<in> set (view_patterns cfg tenant True view_name). covers p key"
proof -
  define pre name where "pre = rc_key_prefix cfg" and "name = last_part (CHR ''.'') view_name"
  have bs: "CHR 0x5C \<notin> set pre" "CHR 0x5C \<notin> set name" using assms(3,4) by (simp_all add: pre_def name_def)
  have pats: "set (view_patterns cfg tenant True view_name) = {pre @ '':'' @ name @ '':*'', pre @ '':*:'' @ name @ '':*'', pre @ '':*.'' @ name @ '':*''}"
    by (simp add: view_patterns_def Let_def pre_def name_def)
  obtain a t where key: "key = pre @ '':'' @ a @ view @ '':'' @ t" "a = [] \<or> (\<exists>b. a = b @ '':'')"
    using find_key_view [OF assms(1)] by (auto simp: pre_def)
  from last_part_cases [of "CHR ''.''" view] consider "view = name" | q where "view = q @ CHR ''.'' # name"
    using assms(2) by (auto simp: name_def)
  then show ?thesis
  proof cases
    case 1
    show ?thesis
    proof (cases "a = []")
      case True
      have "covers ((pre @ '':'' @ name @ '':'') @ ''*'') ((pre @ '':'' @ name @ '':'') @ t)" by (rule covers_plain) (use bs in auto)
      with key True 1 pats show ?thesis by simp
    next
      case False
      then obtain b where "a = b @ '':''" using key(2) by blast
      moreover have "covers ((pre @ '':'') @ ''*'' @ ('':'' @ name @ '':'') @ ''*'') ((pre @ '':'') @ b @ ('':'' @ name @ '':'') @ t)"
        by (rule covers_between) (use bs in auto)
      ultimately show ?thesis using key 1 pats by simp
    qed
  next
    case 2
    have "covers ((pre @ '':'') @ ''*'' @ (''.'' @ name @ '':'') @ ''*'') ((pre @ '':'') @ (a @ q) @ (''.'' @ name @ '':'') @ t)"
      by (rule covers_between) (use bs in auto)
    with key 2 pats show ?thesis by simp
  qed
qed


subsection \<open>Invalidation\<close>

definition answers :: "pg_cache \<Rightarrow> bool" where
  "answers pc = (pc_initialized pc \<and> sv_up (pc_server pc) \<and> sv_table (pc_server pc))"

lemma delete_pattern_answers: "answers pc \<Longrightarrow> answers (snd (pg_delete_pattern p pc)) \<and> (\<exists>n. fst (pg_delete_pattern p pc) = Inr n)"
  by (simp add: answers_def pg_delete_pattern_def pg_op_def ensure_initialized_def on_table_def set_rows_def)

lemma invalidate_patterns_held:
  "answers (fst s) \<Longrightarrow>
   answers (fst (fold (invalidate_pattern (pg_backend jsonb stamp)) ps s))
   \<and> pg_held (fst (fold (invalidate_pattern (pg_backend jsonb stamp)) ps s)) key = (if \<exists>p \<in> set ps. covers p key then None else pg_held (fst s) key)"
proof (induction ps arbitrary: s)
  case (Cons p ps)
  obtain r pc1 where d: "pg_delete_pattern p (fst s) = (r, pc1)" by (metis prod.exhaust)
  with delete_pattern_answers [OF Cons.prems, of p] have a: "answers pc1" "\<exists>n. r = Inr n" by auto
  with pg_delete_pattern_held [OF d] have "pg_held pc1 key = (if covers p key then None else pg_held (fst s) key)" by auto
  moreover have "invalidate_pattern (pg_backend jsonb stamp) p s = (pc1, snd s)"
    by (simp add: invalidate_pattern_def pg_backend_def d)
  ultimately show ?case using Cons.IH [of "(pc1, snd s)"] a(1) by auto
qed simp

lemma invalidate_views_held:
  "answers (fst s) \<Longrightarrow>
   answers (fst (fold (invalidate_view (pg_backend jsonb stamp) cfg cx True) vs s))
   \<and> pg_held (fst (fold (invalidate_view (pg_backend jsonb stamp) cfg cx True) vs s)) key
       = (if \<exists>v \<in> set vs. \<exists>p \<in> set (view_patterns cfg (fc_tenant cx) True v). covers p key then None else pg_held (fst s) key)"
proof (induction vs arbitrary: s)
  case (Cons v vs)
  let ?s1 = "invalidate_view (pg_backend jsonb stamp) cfg cx True v s"
  have "answers (fst ?s1)" "pg_held (fst ?s1) key = (if \<exists>p \<in> set (view_patterns cfg (fc_tenant cx) True v). covers p key then None else pg_held (fst s) key)"
    using invalidate_patterns_held [OF Cons.prems, of jsonb stamp _ key] by (simp_all add: invalidate_view_def)
  with Cons.IH [of ?s1] show ?case by auto
qed simp

text \<open>
  C14: A read after a write is not served from before it, as long as the cache server answers.  Once
  \<open>execute_function\<close> has run a database function with an initialised cache on a server that answers, no cached result of a view of the entity the function writes is
  served: for every tenant, method, selection and arguments, and for the view in any schema, the lookup
  of a later \<open>find\<close> is not a hit, until a \<open>find\<close> with the same key stores its result again.  On a server that
  does not answer the write succeeds and the old result is served on: see \<open>failed_invalidation_swallowed\<close>.
\<close>

theorem read_after_write:
  assumes "answers (fst s)" "execute_function (pg_backend jsonb stamp) cfg cx function_name (Inr r) s = (x, s1)"
    and "find_key sha cfg cx' m view field_name info kwargs = Inr key"
    and "last_part (CHR ''.'') view \<in> last_part (CHR ''.'') ` set (function_views function_name)"
    and "CHR 0x5C \<notin> set (rc_key_prefix cfg)" "CHR 0x5C \<notin> set (last_part (CHR ''.'') view)"
    and "\<forall>op \<in> set ops. \<forall>t ttl v. op \<noteq> Store t key ttl v"
  shows "fst (cache_lookup (pg_backend jsonb stamp) cfg now key (run_cache (pg_backend jsonb stamp) cfg ops s1)) \<noteq> Hit v"
proof -
  have s1: "s1 = fold (invalidate_view (pg_backend jsonb stamp) cfg cx True) (function_views function_name) s"
    using assms(2) by (simp add: execute_function_def invalidate_for_function_def)
  from assms(4) obtain w where "w \<in> set (function_views function_name)" "last_part (CHR ''.'') view = last_part (CHR ''.'') w" by blast
  with view_patterns_cover [OF assms(3) this(2) assms(5)] assms(6) have "pg_held (fst s1) key = None"
    unfolding s1 using invalidate_views_held [OF assms(1), of jsonb stamp cfg cx "function_views function_name" key] by auto
  from pg.run_absent [OF this assms(7)] show ?thesis
    using pg.absent_no_hit by (metis prod.collapse)
qed

definition test_server :: pg_server where
  "test_server = \<lparr>sv_up = True, sv_catalog = True, sv_extension = None, sv_table = True, sv_rows = [], sv_domain_versions = [], sv_rules = []\<rparr>"

definition test_cache :: pg_cache where
  "test_cache = \<lparr>pc_auto_initialize = True, pc_initialized = True, pc_has_versions = False, pc_extension = None, pc_server = test_server\<rparr>"

definition tenant_context :: "string \<Rightarrow> repo_context \<Rightarrow> find_context" where
  "tenant_context t scope = \<lparr>fc_tenant = PStr t, fc_info = None, fc_scope = scope\<rparr>"

abbreviation user_key :: string where "user_key \<equiv> ''fraiseql:acme:app.v_user:q:{''"

theorem read_after_write_witness:
  "fst (cache_lookup (pg_backend Some []) default_result_config 5 user_key
      (run_cache (pg_backend Some []) default_result_config [Look_up 4 user_key]
        (snd (execute_function (pg_backend Some []) default_result_config (tenant_context ''other'' fresh_context) ''fn_update_user'' (Inr ())
           (run_cache (pg_backend Some []) default_result_config [Store 1 user_key None (PInt 1)] (test_cache, no_stats))))))
   \<noteq> Hit (PInt 1)"
proof (rule read_after_write [where sha = "\<lambda>t. take 1 t" and m = Find and view = "''app.v_user''" and function_name = "''fn_update_user''"
      and cx' = "tenant_context ''acme'' fresh_context" and kwargs = "[]" and info = None and field_name = None
      and cx = "tenant_context ''other'' fresh_context" and r = "()"])
  show "answers (fst (run_cache (pg_backend Some []) default_result_config [Store 1 user_key None (PInt 1)] (test_cache, no_stats)))" by code_simp
  show "execute_function (pg_backend Some []) default_result_config (tenant_context ''other'' fresh_context) ''fn_update_user'' (Inr ())
      (run_cache (pg_backend Some []) default_result_config [Store 1 user_key None (PInt 1)] (test_cache, no_stats))
    = (Inr (), snd (execute_function (pg_backend Some []) default_result_config (tenant_context ''other'' fresh_context) ''fn_update_user'' (Inr ())
      (run_cache (pg_backend Some []) default_result_config [Store 1 user_key None (PInt 1)] (test_cache, no_stats))))"
    by (simp add: execute_function_def)
  show "find_key (\<lambda>t. take 1 t) default_result_config (tenant_context ''acme'' fresh_context) Find ''app.v_user'' None None [] = Inr user_key" by code_simp
  show "last_part (CHR ''.'') ''app.v_user'' \<in> last_part (CHR ''.'') ` set (function_views ''fn_update_user'')" by code_simp
  show "CHR 0x5C \<notin> set (rc_key_prefix default_result_config)" by code_simp
  show "CHR 0x5C \<notin> set (last_part (CHR ''.'') ''app.v_user'')" by code_simp
  show "\<forall>op \<in> set [Look_up 4 user_key]. \<forall>t ttl v. op \<noteq> Store t user_key ttl v" by simp
qed


subsection \<open>Hits\<close>

text \<open>
  C16: A hit is a result that was stored under this key not longer ago than its lifetime.  Starting from
  an empty table, whatever lookups, stores and invalidations of any tasks came before, when a lookup is
  a hit then a store with this key is among them, made less than its effective lifetime ago, the value
  is what the database gives back for the value stored, and no invalidation that the server answered
  has removed the key since.
\<close>

theorem hit_is_recent:
  assumes "rows (fst s) = []"
    and "cache_lookup (pg_backend jsonb stamp) cfg now key (run_cache (pg_backend jsonb stamp) cfg ops s) = (Hit v, s1)"
  shows "\<exists>w before t ttl after. v = fst (unwrap (the (jsonb w))) \<and> ops = before @ [Store t key ttl w] @ after
      \<and> now < t + of_int (effective_ttl cfg ttl)
      \<and> (\<forall>mid op rest. after = mid @ [op] @ rest \<longrightarrow>
           \<not> removes (pg_backend jsonb stamp) covers op key (run_cache (pg_backend jsonb stamp) cfg (before @ [Store t key ttl w] @ mid) s))"
proof -
  have "pg_held (fst s) = (\<lambda>_. None)" using assms(1) by (simp add: pg_held_def)
  from pg.hit_was_stored [OF this assms(2)] show ?thesis unfolding pg_unpack_def .
qed

theorem hit_is_recent_witness:
  "\<exists>w before t ttl after. PInt 1 = fst (unwrap (the (Some w))) \<and> [Store 1 ''k'' (Some 9) (PInt 1), Drop ''j''] = before @ [Store t ''k'' ttl w] @ after
      \<and> 5 < t + of_int (effective_ttl default_result_config ttl)
      \<and> (\<forall>mid op rest. after = mid @ [op] @ rest \<longrightarrow>
           \<not> removes (pg_backend Some []) covers op ''k'' (run_cache (pg_backend Some []) default_result_config (before @ [Store t ''k'' ttl w] @ mid) (test_cache, no_stats)))"
proof (rule hit_is_recent)
  show "rows (fst (test_cache, no_stats)) = []" by (simp add: test_cache_def test_server_def)
  show "cache_lookup (pg_backend Some []) default_result_config 5 ''k''
      (run_cache (pg_backend Some []) default_result_config [Store 1 ''k'' (Some 9) (PInt 1), Drop ''j''] (test_cache, no_stats))
    = (Hit (PInt 1), snd (cache_lookup (pg_backend Some []) default_result_config 5 ''k''
      (run_cache (pg_backend Some []) default_result_config [Store 1 ''k'' (Some 9) (PInt 1), Drop ''j''] (test_cache, no_stats))))" by code_simp
qed

subsection \<open>Keys keep tenants apart\<close>

lemma split_text_join: "xs \<noteq> [] \<Longrightarrow> \<forall>x \<in> set xs. c \<notin> set x \<Longrightarrow> split_on c (join_str [c] xs) = xs"
proof (induction xs)
  case (Cons x xs)
  then show ?case by (cases xs) (simp_all add: split_on_word split_on_append)
qed simp

definition key_parts :: "find_context \<Rightarrow> find_method \<Rightarrow> string \<Rightarrow> string list \<Rightarrow> string list" where
  "key_parts cx m view hs = tenant_part (fc_tenant cx) @ [view] @ (if m = Find then [] else [''one'']) @ [''q''] @ hs"

lemma join_str_append: "xs \<noteq> [] \<Longrightarrow> ys \<noteq> [] \<Longrightarrow> join_str sep (xs @ ys) = join_str sep xs @ sep @ join_str sep ys"
  by (induction xs rule: induct_list012) (auto simp: neq_Nil_conv)

lemma find_key_parts:
  "find_key sha cfg cx m view field_name info kwargs
   = Inr (rc_key_prefix cfg @ '':'' @ join_str '':'' (key_parts cx m view (fingerprints sha cx field_name info kwargs)))"
  by (cases m) (simp_all add: find_key_eq key_parts_def tenant_part_def key_view_def fingerprints_def)

definition hex_digest :: "(string \<Rightarrow> string) \<Rightarrow> bool" where
  "hex_digest sha \<longleftrightarrow> (\<forall>t. length (sha t) = 64 \<and> CHR '':'' \<notin> set (sha t))"

lemma fingerprints_plain: "hex_digest sha \<Longrightarrow> h \<in> set (fingerprints sha cx field_name info kwargs) \<Longrightarrow> length h = 16 \<and> CHR '':'' \<notin> set h"
  by (auto simp: fingerprints_def selection_fingerprint_def arguments_fingerprint_def hex_digest_def split: option.splits dest: in_set_takeD)

lemma first_q: "us @ q # a = q # b \<Longrightarrow> q \<notin> set b \<Longrightarrow> us = [] \<and> a = b"
  by (cases us) auto

lemma last_q: "xs @ ''q'' # hs = ys @ ''q'' # hs' \<Longrightarrow> ''q'' \<notin> set hs \<Longrightarrow> ''q'' \<notin> set hs' \<Longrightarrow> xs = ys \<and> hs = hs'"
  by (auto simp: append_eq_append_conv2 dest: first_q first_q [OF sym])

text \<open>
  C15: Keys keep apart what they should.  Two finds that share a key have the same tenant (or both none),
  the same method and the same view, and the digests of their arguments and selections are the same:
  no result is served across tenants or views.  The tenant and the views contain no colon, and no view
  is called \<open>one\<close>; the hash function gives 64 digits.
\<close>

theorem keys_keep_tenants_apart:
  assumes "find_key sha cfg cx m view field_name info kwargs = Inr key" "find_key sha cfg cx' m' view' field_name' info' kwargs' = Inr key"
    and "hex_digest sha" "CHR '':'' \<notin> set (view @ view')" "view \<noteq> ''one''" "view' \<noteq> ''one''"
    and "CHR '':'' \<notin> set (py_str (fc_tenant cx) @ py_str (fc_tenant cx'))"
  shows "tenant_part (fc_tenant cx) = tenant_part (fc_tenant cx') \<and> m = m' \<and> view = view'
    \<and> fingerprints sha cx field_name info kwargs = fingerprints sha cx' field_name' info' kwargs'"
proof -
  let ?hs = "fingerprints sha cx field_name info kwargs" and ?hs' = "fingerprints sha cx' field_name' info' kwargs'"
  have plain: "\<forall>x \<in> set (key_parts cx m view ?hs). CHR '':'' \<notin> set x" "\<forall>x \<in> set (key_parts cx' m' view' ?hs'). CHR '':'' \<notin> set x"
    using fingerprints_plain [OF assms(3)] assms(4,7) by (auto simp: key_parts_def tenant_part_def)
  have ne: "key_parts cx m view ?hs \<noteq> []" "key_parts cx' m' view' ?hs' \<noteq> []" by (simp_all add: key_parts_def)
  have "join_str '':'' (key_parts cx m view ?hs) = join_str '':'' (key_parts cx' m' view' ?hs')"
    using trans [OF assms(1) assms(2) [symmetric]] by (simp only: find_key_parts sum.inject append_same_eq same_append_eq)
  from arg_cong [OF this, of "split_on (CHR '':'')"] have "key_parts cx m view ?hs = key_parts cx' m' view' ?hs'"
    by (simp only: split_text_join [OF ne(1) plain(1)] split_text_join [OF ne(2) plain(2)])
  then have "(tenant_part (fc_tenant cx) @ [view] @ (if m = Find then [] else [''one''])) @ ''q'' # ?hs
      = (tenant_part (fc_tenant cx') @ [view'] @ (if m' = Find then [] else [''one''])) @ ''q'' # ?hs'"
    by (simp add: key_parts_def)
  moreover have "''q'' \<notin> set ?hs" "''q'' \<notin> set ?hs'" using fingerprints_plain [OF assms(3)] by fastforce+
  ultimately have parts: "tenant_part (fc_tenant cx) @ [view] @ (if m = Find then [] else [''one''])
      = tenant_part (fc_tenant cx') @ [view'] @ (if m' = Find then [] else [''one''])" and hs: "?hs = ?hs'"
    using last_q by blast+
  show ?thesis
    using parts hs assms(5,6) by (cases m; cases m') (auto simp: tenant_part_def split: if_splits)
qed

text \<open>A digest for the examples: the first 64 characters of a text, filled up, with colons written as dots.\<close>

definition test_digest :: "string \<Rightarrow> string" where
  "test_digest t = take 64 (map (\<lambda>c. if c = CHR '':'' then CHR ''.'' else c) t @ replicate 64 (CHR ''0''))"

theorem keys_keep_tenants_apart_witness:
  "tenant_part (PStr ''acme'') = tenant_part (PStr ''acme'') \<and> Find = Find \<and> ''v_user'' = ''v_user''
   \<and> fingerprints test_digest (tenant_context ''acme'' fresh_context) None None [] = fingerprints test_digest (tenant_context ''acme'' fresh_context) None None []"
proof -
  let ?cx = "tenant_context ''acme'' fresh_context"
  have "hex_digest test_digest" by (auto simp: hex_digest_def test_digest_def dest!: in_set_takeD split: if_splits)
  then show ?thesis
    using keys_keep_tenants_apart [of test_digest default_result_config ?cx Find "''v_user''" None None "[]" _ ?cx Find "''v_user''" None None "[]", OF find_key_parts find_key_parts]
    by (simp add: tenant_context_def)
qed


subsection \<open>A response comes back\<close>

text \<open>
  The JSONB column gives a dictionary of texts back as one with the same entries, in any order.  It takes no
  text with the character U+0000, which a JSON text of the Rust pipeline never holds.
\<close>

definition storable_text :: "pyval \<Rightarrow> bool" where
  "storable_text v = (case v of PNone \<Rightarrow> True | PStr s \<Rightarrow> CHR 0x00 \<notin> set s | _ \<Rightarrow> False)"

definition keeps_texts :: "(pyval \<Rightarrow> pyval option) \<Rightarrow> bool" where
  "keeps_texts jsonb \<longleftrightarrow>
     (\<forall>d. distinct (map fst d) \<longrightarrow> list_all (\<lambda>(k, v). CHR 0x00 \<notin> set k \<and> storable_text v) d \<longrightarrow> (\<exists>d'. jsonb (PDict d) = Some (PDict d') \<and> map_of d' = map_of d))"

lemma decode_stored:
  assumes "keeps_texts jsonb" "storable_text (PStr t)" "storable_text st"
  shows "\<exists>w. jsonb (encode_found (Response t st)) = Some w \<and> fst (unwrap w) \<noteq> PNone \<and> decode_found (fst (unwrap w)) = Response t st"
proof -
  let ?d = "[(RUST_RESPONSE_MARKER, PStr t), (''schema_type'', st)]"
  have "distinct (map fst ?d)" "list_all (\<lambda>(k, v). CHR 0x00 \<notin> set k \<and> storable_text v) ?d"
    using assms(2,3) by (simp_all add: RUST_RESPONSE_MARKER_def)
  then obtain d' where d': "jsonb (PDict ?d) = Some (PDict d')" "map_of d' = map_of ?d"
    using assms(1) unfolding keeps_texts_def by blast
  then have "map_of d' ''result'' = None" "map_of d' RUST_RESPONSE_MARKER = Some (PStr t)" "map_of d' ''schema_type'' = Some st"
    by (simp_all add: RUST_RESPONSE_MARKER_def)
  with d'(1) show ?thesis by (simp add: encode_found_def decode_found_def unwrap_def)
qed

text \<open>
  C17: What is cached comes back unchanged.  When a \<open>find\<close> misses and the wrapped method gives a response
  of the Rust pipeline, the same \<open>find\<close> repeated within the lifetime returns the same text and schema
  type and does not run the wrapped method, whatever that would give now.  The text and the schema type hold
  no character U+0000, which the JSONB column refuses.
\<close>

theorem cached_response_returns:
  assumes "keeps_texts jsonb" "storable_text (PStr t) \<and> storable_text st" "answers pc" "rc_enabled cfg"
    and "find_key sha cfg cx m view field_name info kwargs = Inr key" "fst (cache_lookup (pg_backend jsonb stamp) cfg t1 key (pc, stats)) = Run_and_store"
    and "base cx m view field_name info kwargs = Inr (Response t st)"
    and "cached_find (pg_backend jsonb stamp) cfg sha base t1 t2 cx m view field_name info False ttl kwargs kept (pc, stats) = (r, kept1, s1)"
    and "t3 < t2 + of_int (effective_ttl cfg ttl)"
  shows "r = Inr (Response t st)
    \<and> fst (cached_find (pg_backend jsonb stamp) cfg sha base' t3 t4 cx m view field_name info False ttl' kwargs kept' s1) = Inr (Response t st)"
proof -
  let ?be = "pg_backend jsonb stamp" and ?v = "encode_found (Response t st)"
  obtain w where w: "jsonb ?v = Some w" "fst (unwrap w) \<noteq> PNone" "decode_found (fst (unwrap w)) = Response t st"
    using decode_stored [OF assms(1)] assms(2) by blast
  have up: "pc_initialized pc" "sv_up (pc_server pc)" "sv_table (pc_server pc)" using assms(3) by (simp_all add: answers_def)
  have dumps: "\<exists>x. json_dumps ?v = Inr x" using assms(2) by (cases st) (auto simp: encode_found_def storable_text_def)
  have dec: "decode_found ?v = Response t st" by (simp add: encode_found_def decode_found_def RUST_RESPONSE_MARKER_def)
  let ?pc2 = "set_rows (AList.update key (?v, t2 + of_int (effective_ttl cfg ttl)) (rows pc)) pc"
  have set: "pg_set jsonb t2 stamp key ?v (effective_ttl cfg ttl) [] pc = (Inr (), ?pc2)"
    using up dumps w(1) by (auto simp: pg_set_def pg_op_def ensure_initialized_def on_table_def)
  have look: "cache_lookup ?be cfg t1 key (pc, stats) = (Run_and_store, pc, stats\<lparr>st_misses := st_misses stats + 1\<rparr>)"
    using assms(4,6) up by (auto simp: cache_lookup_def pg_backend_def pg_get_def pg_op_def ensure_initialized_def on_table_def split: if_splits)
  have first: "cached_find ?be cfg sha base t1 t2 cx m view field_name info False ttl kwargs kept (pc, stats)
    = (Inr (Response t st), keep_rust_response (Response t st) view field_name (effective_info cx info) kept, ?pc2, stats\<lparr>st_misses := st_misses stats + 1\<rparr>)"
    using look set by (simp add: cached_find_def assms(5,7) get_or_set_def cache_store_def pg_backend_def dec)
  have up2: "pc_initialized ?pc2" "sv_up (pc_server ?pc2)" "sv_table (pc_server ?pc2)" using up by (simp_all add: set_rows_def)
  have "cache_lookup ?be cfg t3 key (?pc2, stats\<lparr>st_misses := st_misses stats + 1\<rparr>)
    = (Hit (fst (unwrap w)), ?pc2, stats\<lparr>st_misses := st_misses stats + 1, st_hits := st_hits stats + 1\<rparr>)"
    using up2 w assms(4,9)
    by (simp add: cache_lookup_def pg_backend_def pg_get_def pg_op_def ensure_initialized_def on_table_def live_value_def update_conv')
  then show ?thesis using first assms(8) w(3) by (simp add: cached_find_def assms(5) get_or_set_def)
qed


theorem cached_response_returns_witness:
  "Inr (Response ''rows'' PNone) = (Inr (Response ''rows'' PNone) :: found result)
   \<and> fst (cached_find (pg_backend Some []) default_result_config (\<lambda>t. take 1 t) (\<lambda>_ _ _ _ _ _. Inl RuntimeError) 3 4 (tenant_context ''acme'' fresh_context)
        Find ''app.v_user'' None None False None [] []
        (snd (snd (cached_find (pg_backend Some []) default_result_config (\<lambda>t. take 1 t) (\<lambda>_ _ _ _ _ _. Inr (Response ''rows'' PNone)) 1 2
           (tenant_context ''acme'' fresh_context) Find ''app.v_user'' None None False None [] [] (test_cache, no_stats)))))
     = Inr (Response ''rows'' PNone)"
proof -
  let ?base = "(\<lambda>_ _ _ _ _ _. Inr (Response ''rows'' PNone)) :: base_find"
  let ?c = "cached_find (pg_backend Some []) default_result_config (\<lambda>t. take 1 t) ?base 1 2
           (tenant_context ''acme'' fresh_context) Find ''app.v_user'' None None False None [] [] (test_cache, no_stats)"
  have texts: "keeps_texts Some" by (simp add: keeps_texts_def)
  have up: "answers test_cache" by (simp add: answers_def test_cache_def test_server_def)
  have key: "find_key (\<lambda>t. take 1 t) default_result_config (tenant_context ''acme'' fresh_context) Find ''app.v_user'' None None [] = Inr user_key" by code_simp
  have miss: "fst (cache_lookup (pg_backend Some []) default_result_config 1 user_key (test_cache, no_stats)) = Run_and_store" by code_simp
  have "fst ?c = Inr (Response ''rows'' PNone)" by code_simp
  then have c: "?c = (Inr (Response ''rows'' PNone), fst (snd ?c), snd (snd ?c))" by (simp only: prod_eq_iff fst_conv snd_conv simp_thms)
  have ttl: "3 < (2 :: rat) + of_int (effective_ttl default_result_config None)" by (simp add: effective_ttl_def default_result_config_def)
  show ?thesis
    by (rule cached_response_returns [OF texts _ up _ key miss _ c ttl]) (simp_all add: default_result_config_def storable_text_def)
qed

subsection \<open>Where the cache goes wrong\<close>

text \<open>
  The row filters that an authorizer decides for the caller are no part of the key.  Two callers of one
  tenant with different scopes: the second one is served the rows of the first.
\<close>

lemma find_key_ignores_scope:
  "find_key sha cfg (cx\<lparr>fc_scope := scope\<rparr>) m view field_name info kwargs = find_key sha cfg cx m view field_name info kwargs"
  by (cases info) (simp_all add: find_key_def fingerprints_def effective_info_def)

definition scoped_base :: base_find where
  "scoped_base cx m view field_name info kwargs =
     rbind (read_scope None (fc_scope cx)) (\<lambda>f. Inr (Response (case f of None \<Rightarrow> ''all rows'' | Some m \<Rightarrow> py_repr (PDict m)) PNone))"

definition scope_of :: "int \<Rightarrow> find_context" where
  "scope_of owner = tenant_context ''acme'' (run_context [Enter ''users'', Write ''users'' (allow (Some [(''owner'', PInt owner)]))] fresh_context)"

lemma cached_rows_cross_scopes:
  "fst (cached_find (pg_backend Some []) default_result_config (\<lambda>t. take 1 t) scoped_base 3 4 (scope_of 2) Find ''v_user'' None None False None [] []
     (snd (snd (cached_find (pg_backend Some []) default_result_config (\<lambda>t. take 1 t) scoped_base 1 2 (scope_of 1) Find ''v_user'' None None False None [] []
        (test_cache, no_stats)))))
   = Inr (Response (py_repr (PDict [(''owner'', PInt 1)])) PNone)"
  by code_simp

text \<open>
  A \<open>find\<close> that read before a write and stores after the invalidation leaves its stale rows in the cache.
\<close>

lemma late_store_is_stale:
  "fst (cache_lookup (pg_backend Some []) default_result_config 5 user_key
     (run_cache (pg_backend Some []) default_result_config
        [Look_up 1 user_key, Drop_pattern ''fraiseql:*.v_user:*'', Store 2 user_key None (PStr ''rows before the write'')] (test_cache, no_stats)))
   = Hit (PStr ''rows before the write'')"
  by code_simp

text \<open>An invalidation that the server does not answer is swallowed: the write succeeds and the entry stays.\<close>

definition failing_cache :: pg_cache where
  "failing_cache = test_cache\<lparr>pc_server := test_server\<lparr>sv_up := False, sv_rows := [(user_key, PInt 1, 301)]\<rparr>\<rparr>"

lemma failed_invalidation_swallowed:
  "pg_held (fst (snd (execute_function (pg_backend Some []) default_result_config (tenant_context ''acme'' fresh_context) ''fn_update_user'' (Inr ()) (failing_cache, no_stats)))) user_key
   = Some (PInt 1, 301)"
  by code_simp

text \<open>A lifetime of zero seconds is the default lifetime.\<close>

lemma zero_lifetime: "effective_ttl default_result_config (Some 0) = 300"
  by (simp add: effective_ttl_def default_result_config_def)

text \<open>A result that is a dictionary with the keys \<open>result\<close> and \<open>versions\<close> comes back as its \<open>result\<close>.\<close>

lemma result_is_unwrapped:
  "fst (get_or_set (pg_backend Some []) default_result_config 3 4 ''k'' (Inr (PInt 0)) None
     (snd (get_or_set (pg_backend Some []) default_result_config 1 2 ''k'' (Inr (PDict [(''result'', PInt 7), (''versions'', PList [])])) None (test_cache, no_stats))))
   = Inr (PInt 7)"
  by code_simp

text \<open>
  When the catalog cannot be read, the creation of the table is rolled back with it, and the object
  counts as initialised: every operation fails from then on.
\<close>

lemma failed_detection_loses_table:
  "sv_up sv \<Longrightarrow> \<not> sv_catalog sv \<Longrightarrow> \<not> sv_table sv \<Longrightarrow>
   fst (pg_get jsonb 1 key (snd (initialize (new_pg_cache True sv)))) = Inl PostgresCacheError"
  by (simp add: initialize_def new_pg_cache_def setup_cache_def Let_def pg_get_def pg_op_def ensure_initialized_def on_table_def)

text \<open>The pattern of \<open>build_mutation_pattern\<close> does not match the keys of a tenant.\<close>

lemma mutation_pattern_misses_tenants:
  "\<not> covers (build_mutation_pattern ''fraiseql'' ''users'') ''fraiseql:acme:users:limit:10''"
  "build_key id no_order ''fraiseql'' ''users'' (PStr ''acme'') [] None (Some 10) None [] = Inr ''fraiseql:acme:users:limit:10''"
  by code_simp+

end
