(* ===== verification/CascadeRules.thy ===== *)
theory CascadeRules
  imports PgCache Casing
begin

section \<open>Cascade rules from the schema\<close>

text \<open>
  \<open>caching/schema_analyzer.py\<close>: an object type whose field refers to another object type depends on it, and
  every such pair of domains becomes a rule of the cache.
\<close>

subsection \<open>The schema\<close>

datatype gtype = Named string | List_of gtype | Non_null gtype

record schema_type =
  ty_name :: string
  ty_object :: bool
  ty_fields :: "(string \<times> gtype) list"

fun result_type :: "gtype \<Rightarrow> string" where
  "result_type (Named n) = n"
| "result_type (List_of t) = result_type t"
| "result_type (Non_null t) = result_type t"

definition is_object_type :: "schema_type list \<Rightarrow> gtype \<Rightarrow> bool" where
  "is_object_type schema t = list_ex (\<lambda>ty. ty_name ty = result_type t \<and> ty_object ty) schema"

fun is_list_type :: "gtype \<Rightarrow> bool" where
  "is_list_type (Non_null t) = (case t of List_of _ \<Rightarrow> True | _ \<Rightarrow> False)"
| "is_list_type (List_of t) = True"
| "is_list_type (Named n) = False"

definition DEFAULT_EXCLUDED :: "string list" where
  "DEFAULT_EXCLUDED = [''Query'', ''Mutation'', ''Subscription'', ''__Schema'', ''__Type'', ''__Field'', ''__InputValue'', ''__EnumValue'', ''__Directive'']"

definition default_type_to_domain :: "string \<Rightarrow> string" where
  "default_type_to_domain = to_snake_case"

subsection \<open>The rules\<close>

record cascade_rule =
  cr_source :: string
  cr_target :: string
  cr_type :: string
  cr_confidence :: rat

definition rule_key :: "cascade_rule \<Rightarrow> string \<times> string" where "rule_key r = (cr_source r, cr_target r)"

definition analyze_field :: "(string \<Rightarrow> string) \<Rightarrow> schema_type list \<Rightarrow> schema_type \<Rightarrow> gtype \<Rightarrow> cascade_rule list \<Rightarrow> cascade_rule list" where
  "analyze_field domain schema ty t rules =
     (if \<not> is_object_type schema t \<or> result_type t = ty_name ty then rules
      else let src = domain (result_type t); tgt = domain (ty_name ty) in
        if (src, tgt) \<in> rule_key ` set rules then rules
        else rules @ [\<lparr>cr_source = src, cr_target = tgt, cr_type = ''invalidate'', cr_confidence = (if is_list_type t then 9 / 10 else 1)\<rparr>])"

definition analyze_type :: "(string \<Rightarrow> string) \<Rightarrow> string list \<Rightarrow> schema_type list \<Rightarrow> schema_type \<Rightarrow> cascade_rule list \<Rightarrow> cascade_rule list" where
  "analyze_type domain excluded schema ty rules =
     (if ty_name ty \<in> set excluded \<or> \<not> ty_object ty then rules
      else fold (\<lambda>(_, t). analyze_field domain schema ty t) (ty_fields ty) rules)"

definition analyze_relationships :: "(string \<Rightarrow> string) \<Rightarrow> string list \<Rightarrow> schema_type list \<Rightarrow> cascade_rule list" where
  "analyze_relationships domain excluded schema = fold (analyze_type domain excluded schema) schema []"

definition get_domain_dependencies :: "(string \<Rightarrow> string) \<Rightarrow> string list \<Rightarrow> schema_type list \<Rightarrow> string \<Rightarrow> string set option" where
  "get_domain_dependencies domain excluded schema =
     fold (\<lambda>r deps. deps(cr_target r \<mapsto> insert (cr_source r) (case deps (cr_target r) of Some ds \<Rightarrow> ds | None \<Rightarrow> {})))
       (analyze_relationships domain excluded schema) (\<lambda>_. None)"

text \<open>A rule that cannot be registered is logged; one that is skipped is not counted.\<close>

fun register_rules :: "cascade_rule list \<Rightarrow> pg_cache \<Rightarrow> int \<times> pg_cache" where
  "register_rules [] pc = (0, pc)"
| "register_rules (r # rs) pc =
     (case register_cascade_rule (cr_source r) (cr_target r) (cr_type r) pc of
        (x, pc1) \<Rightarrow> (case register_rules rs pc1 of (n, pc2) \<Rightarrow> (case x of Inr True \<Rightarrow> n + 1 | _ \<Rightarrow> n, pc2)))"

definition setup_auto_cascade_rules :: "(string \<Rightarrow> string) \<Rightarrow> string list \<Rightarrow> schema_type list \<Rightarrow> pg_cache \<Rightarrow> int \<times> pg_cache" where
  "setup_auto_cascade_rules domain excluded schema pc = register_rules (analyze_relationships domain excluded schema) pc"

subsection \<open>The rules are the relationships\<close>

text \<open>
  An object type, not excluded, with a field of another object type.  The rule leads from the type of the
  field to the type that has the field: \<open>Post\<close> with a field of type \<open>[Comment]\<close> gives comment to post.  The
  example in the docstring of \<open>SchemaAnalyzer\<close> has this pair the other way round.
\<close>

definition refers :: "string list \<Rightarrow> schema_type list \<Rightarrow> schema_type \<Rightarrow> string \<Rightarrow> bool" where
  "refers excluded schema ty s \<longleftrightarrow>
     ty_name ty \<notin> set excluded \<and> ty_object ty \<and> s \<noteq> ty_name ty
     \<and> (\<exists>(f, t) \<in> set (ty_fields ty). result_type t = s \<and> is_object_type schema t)"

lemma analyze_field_keys:
  "rule_key ` set (analyze_field domain schema ty t rules) = rule_key ` set rules
     \<union> (if is_object_type schema t \<and> result_type t \<noteq> ty_name ty then {(domain (result_type t), domain (ty_name ty))} else {})"
  "distinct (map rule_key rules) \<Longrightarrow> distinct (map rule_key (analyze_field domain schema ty t rules))"
  "\<forall>r \<in> set rules. cr_type r = ''invalidate'' \<Longrightarrow> \<forall>r \<in> set (analyze_field domain schema ty t rules). cr_type r = ''invalidate''"
  by (auto simp: analyze_field_def Let_def rule_key_def)

lemma analyze_fields_keys:
  "rule_key ` set (fold (\<lambda>(_, t). analyze_field domain schema ty t) fs rules) = rule_key ` set rules
     \<union> (\<Union>(f, t) \<in> set fs. if is_object_type schema t \<and> result_type t \<noteq> ty_name ty then {(domain (result_type t), domain (ty_name ty))} else {})"
  "distinct (map rule_key rules) \<Longrightarrow> distinct (map rule_key (fold (\<lambda>(_, t). analyze_field domain schema ty t) fs rules))"
  "\<forall>r \<in> set rules. cr_type r = ''invalidate'' \<Longrightarrow> \<forall>r \<in> set (fold (\<lambda>(_, t). analyze_field domain schema ty t) fs rules). cr_type r = ''invalidate''"
proof (induction fs arbitrary: rules)
  case (Cons x fs)
  obtain f t where x: "x = (f, t)" by (cases x)
  { case 1 show ?case by (simp only: x fold_simps case_prod_conv Cons.IH(1) analyze_field_keys(1) list.set UN_insert Un_assoc) }
  { case 2 then show ?case unfolding x fold_simps case_prod_conv by (intro Cons.IH(2) analyze_field_keys(2)) }
  { case 3 then show ?case unfolding x fold_simps case_prod_conv by (intro Cons.IH(3) analyze_field_keys(3)) }
qed simp_all

lemma analyze_types_keys:
  "rule_key ` set (fold (analyze_type domain excluded schema) tys rules) = rule_key ` set rules
     \<union> {(domain s, domain (ty_name ty)) | s ty. ty \<in> set tys \<and> refers excluded schema ty s}"
  "distinct (map rule_key rules) \<Longrightarrow> distinct (map rule_key (fold (analyze_type domain excluded schema) tys rules))"
  "\<forall>r \<in> set rules. cr_type r = ''invalidate'' \<Longrightarrow> \<forall>r \<in> set (fold (analyze_type domain excluded schema) tys rules). cr_type r = ''invalidate''"
proof (induction tys arbitrary: rules)
  case (Cons ty tys)
  have "rule_key ` set (analyze_type domain excluded schema ty rules) = rule_key ` set rules
     \<union> {(domain s, domain (ty_name ty)) | s. refers excluded schema ty s}" for rules
  proof (cases "ty_name ty \<in> set excluded \<or> \<not> ty_object ty")
    case True
    then show ?thesis by (auto simp: analyze_type_def refers_def)
  next
    case False
    then have "{(domain s, domain (ty_name ty)) | s. refers excluded schema ty s} = (\<Union>(f, t) \<in> set (ty_fields ty).
        if is_object_type schema t \<and> result_type t \<noteq> ty_name ty then {(domain (result_type t), domain (ty_name ty))} else {})"
      by (auto simp: refers_def split: if_splits) (rule exI conjI refl | assumption | force)+
    with False show ?thesis by (simp add: analyze_type_def analyze_fields_keys(1))
  qed
  note keys = this
  { case 1 show ?case unfolding fold_simps Cons.IH(1) keys by auto }
  { case 2 then show ?case unfolding fold_simps by (intro Cons.IH(2)) (simp add: analyze_type_def analyze_fields_keys(2)) }
  { case 3 then show ?case unfolding fold_simps by (intro Cons.IH(3)) (simp add: analyze_type_def analyze_fields_keys(3)) }
qed simp_all

lemma relationships_keys:
  "rule_key ` set (analyze_relationships domain excluded schema)
     = {(domain s, domain (ty_name ty)) | s ty. ty \<in> set schema \<and> refers excluded schema ty s}"
  "distinct (map rule_key (analyze_relationships domain excluded schema))"
  "\<forall>r \<in> set (analyze_relationships domain excluded schema). cr_type r = ''invalidate''"
  using analyze_types_keys [where rules = "[]" and tys = schema and domain = domain and excluded = excluded and schema = schema]
  by (simp_all add: analyze_relationships_def)

lemma register_rules_effect:
  assumes "pc_initialized pc" "pc_has_versions pc" "sv_up (pc_server pc)" "\<forall>r \<in> set rs. cr_type r = ''invalidate''"
  shows "fst (register_rules rs pc) = int (length rs)
    \<and> map_of (sv_rules (pc_server (snd (register_rules rs pc)))) k
        = (if k \<in> rule_key ` set rs then Some ''invalidate'' else map_of (sv_rules (pc_server pc)) k)"
  using assms
proof (induction rs arbitrary: pc)
  case (Cons r rs)
  let ?pc1 = "set_rules (AList.update (rule_key r) ''invalidate'' (sv_rules (pc_server pc))) pc"
  have reg: "register_cascade_rule (cr_source r) (cr_target r) (cr_type r) pc = (Inr True, ?pc1)"
    using Cons.prems by (simp add: register_cascade_rule_def pg_op_def ensure_initialized_def on_server_def rule_key_def)
  have "pc_initialized ?pc1" "pc_has_versions ?pc1" "sv_up (pc_server ?pc1)" using Cons.prems by (simp_all add: set_rules_def)
  from Cons.IH [OF this] Cons.prems(4) reg show ?case
    by (auto simp: set_rules_def update_conv' split: prod.splits)
qed simp

text \<open>
  C21: The automatic setup registers exactly the relationships of the schema.  On a server that answers and
  has the extension (without it nothing is registered), the rules after \<open>setup_auto_cascade_rules\<close> are those from before and one for each pair of
  domains of which an object type, not excluded, has a field of the other object type, through any
  lists and non-null wrappers; each new rule is counted once.  The rule leads from the domain of the field's
  type to the domain of the type that has the field (see \<open>post_comment_rules\<close> for the docstring's example).
\<close>

theorem cascade_rules_exact:
  assumes "pc_initialized pc" "pc_has_versions pc" "sv_up (pc_server pc)"
    and "setup_auto_cascade_rules domain excluded schema pc = (n, pc1)"
  shows "n = int (card {(domain s, domain (ty_name ty)) | s ty. ty \<in> set schema \<and> refers excluded schema ty s})
    \<and> map_of (sv_rules (pc_server pc1)) (src, tgt)
      = (if \<exists>s ty. ty \<in> set schema \<and> refers excluded schema ty s \<and> src = domain s \<and> tgt = domain (ty_name ty)
         then Some ''invalidate'' else map_of (sv_rules (pc_server pc)) (src, tgt))"
proof -
  let ?rs = "analyze_relationships domain excluded schema"
  have "n = int (length ?rs)" "map_of (sv_rules (pc_server pc1)) (src, tgt)
      = (if (src, tgt) \<in> rule_key ` set ?rs then Some ''invalidate'' else map_of (sv_rules (pc_server pc)) (src, tgt))"
    using register_rules_effect [OF assms(1-3) relationships_keys(3), of domain excluded schema "(src, tgt)"] assms(4)
    by (simp_all add: setup_auto_cascade_rules_def)
  moreover have "length ?rs = card (rule_key ` set ?rs)"
    using distinct_card [OF relationships_keys(2), of domain excluded schema] by simp
  ultimately show ?thesis by (simp add: relationships_keys(1)) blast
qed

definition blog_schema :: "schema_type list" where
  "blog_schema =
     [\<lparr>ty_name = ''Query'', ty_object = True, ty_fields = [(''posts'', List_of (Named ''BlogPost''))]\<rparr>,
      \<lparr>ty_name = ''BlogPost'', ty_object = True, ty_fields = [(''author'', Non_null (Named ''User'')), (''editor'', Named ''User''), (''owner'', Named ''Owner'')]\<rparr>,
      \<lparr>ty_name = ''User'', ty_object = True, ty_fields = [(''name'', Named ''String'')]\<rparr>,
      \<lparr>ty_name = ''Owner'', ty_object = False, ty_fields = []\<rparr>]"

definition versioned_cache :: pg_cache where
  "versioned_cache = \<lparr>pc_auto_initialize = True, pc_initialized = True, pc_has_versions = True, pc_extension = Some ''1.0'',
     pc_server = \<lparr>sv_up = True, sv_catalog = True, sv_extension = Some ''1.0'', sv_table = True, sv_rows = [], sv_domain_versions = [], sv_rules = []\<rparr>\<rparr>"

theorem cascade_rules_exact_witness:
  "fst (setup_auto_cascade_rules default_type_to_domain DEFAULT_EXCLUDED blog_schema versioned_cache)
     = int (card {(default_type_to_domain s, default_type_to_domain (ty_name ty)) | s ty. ty \<in> set blog_schema \<and> refers DEFAULT_EXCLUDED blog_schema ty s})
   \<and> map_of (sv_rules (pc_server (snd (setup_auto_cascade_rules default_type_to_domain DEFAULT_EXCLUDED blog_schema versioned_cache)))) (''user'', ''blog_post'')
      = Some ''invalidate''"
proof -
  have "map_of (sv_rules (pc_server (snd (setup_auto_cascade_rules default_type_to_domain DEFAULT_EXCLUDED blog_schema versioned_cache)))) (''user'', ''blog_post'')
      = Some ''invalidate''" by code_simp
  then show ?thesis
    using cascade_rules_exact [of versioned_cache default_type_to_domain DEFAULT_EXCLUDED blog_schema _ _ "''user''" "''blog_post''", OF _ _ _ prod.collapse [symmetric]]
    by (simp add: versioned_cache_def)
qed

text \<open>
  The example of the docstring of \<open>SchemaAnalyzer\<close>.  It announces user to post, post to comment and user to
  comment; the analyzer finds comment to post instead of post to comment.
\<close>

lemma post_comment_rules:
  "map rule_key (analyze_relationships default_type_to_domain DEFAULT_EXCLUDED
     [\<lparr>ty_name = ''Post'', ty_object = True, ty_fields = [(''id'', Non_null (Named ''ID'')), (''title'', Non_null (Named ''String'')),
        (''author'', Non_null (Named ''User'')), (''comments'', Non_null (List_of (Non_null (Named ''Comment''))))]\<rparr>,
      \<lparr>ty_name = ''User'', ty_object = True, ty_fields = [(''id'', Non_null (Named ''ID'')), (''name'', Non_null (Named ''String''))]\<rparr>,
      \<lparr>ty_name = ''Comment'', ty_object = True, ty_fields = [(''id'', Non_null (Named ''ID'')), (''content'', Non_null (Named ''String'')),
        (''author'', Non_null (Named ''User''))]\<rparr>])
   = [(''user'', ''post''), (''comment'', ''post''), (''user'', ''comment'')]"
  by code_simp

text \<open>A field of an interface or union type is no relationship: changes of the types behind it cascade nowhere.\<close>

lemma interface_fields_have_no_rule:
  "map rule_key (analyze_relationships default_type_to_domain DEFAULT_EXCLUDED blog_schema) = [(''user'', ''blog_post'')]"
  by code_simp

end
