(* ===== verification/Cursor.thy ===== *)
theory Cursor
  imports PyValue
begin

section \<open>Cursors\<close>

text \<open>
  The cursors of \<open>db.paginate\<close>: Base64 of the UTF-8 bytes of a JSON text.
  \<open>base64\<close> and \<open>json.loads\<close> of the Python library are written out; the strings hold the characters up to
  255, an escape or a byte sequence beyond them has no value here.
\<close>

subsection \<open>Base64\<close>

definition b64_char :: "nat \<Rightarrow> char" where
  "b64_char n = (if n < 26 then char_of (65 + n) else if n < 52 then char_of (71 + n) else if n < 62 then char_of (n - 4)
     else if n = 62 then CHR ''+'' else CHR ''/'')"

definition b64_val :: "char \<Rightarrow> nat option" where
  "b64_val c =
     (let n = (of_char c :: nat) in
      if is_upper c then Some (n - 65) else if is_lower c then Some (n - 71) else if is_digit c then Some (n + 4)
      else if c = CHR ''+'' then Some 62 else if c = CHR ''/'' then Some 63 else None)"

fun b64encode :: "string \<Rightarrow> string" where
  "b64encode [] = []"
| "b64encode [x] = (let a = (of_char x :: nat) in [b64_char (a div 4), b64_char (a mod 4 * 16), CHR ''='', CHR ''=''])"
| "b64encode [x, y] =
     (let a = (of_char x :: nat); b = (of_char y :: nat)
      in [b64_char (a div 4), b64_char (a mod 4 * 16 + b div 16), b64_char (b mod 16 * 4), CHR ''=''])"
| "b64encode (x # y # z # s) =
     (let a = (of_char x :: nat); b = (of_char y :: nat); c = (of_char z :: nat)
      in b64_char (a div 4) # b64_char (a mod 4 * 16 + b div 16) # b64_char (b mod 16 * 4 + c div 64) # b64_char (c mod 64) # b64encode s)"

text \<open>The strict decoder: groups of four, padding only in the last one.\<close>

fun b64decode :: "string \<Rightarrow> string option" where
  "b64decode [] = Some []"
| "b64decode (p # q # r # t # s) =
     (case (b64_val p, b64_val q) of
        (Some a, Some b) \<Rightarrow>
          (if r = CHR ''='' \<and> t = CHR ''='' \<and> s = [] then Some [char_of (a * 4 + b div 16)]
           else case b64_val r of
             None \<Rightarrow> None
           | Some c \<Rightarrow>
               (if t = CHR ''='' \<and> s = [] then Some [char_of (a * 4 + b div 16), char_of (b mod 16 * 16 + c div 4)]
                else case b64_val t of
                  None \<Rightarrow> None
                | Some d \<Rightarrow>
                    map_option (\<lambda>u. char_of (a * 4 + b div 16) # char_of (b mod 16 * 16 + c div 4) # char_of (c mod 4 * 64 + d) # u) (b64decode s)))
      | _ \<Rightarrow> None)"
| "b64decode s = None"

lemma char_eq_code: "c = CHR ''='' \<longleftrightarrow> (of_char c :: nat) = 61" "c = CHR ''+'' \<longleftrightarrow> (of_char c :: nat) = 43" "c = CHR ''/'' \<longleftrightarrow> (of_char c :: nat) = 47"
  using of_char_eq_iff [where ?'a = nat, of c "CHR ''=''"] of_char_eq_iff [where ?'a = nat, of c "CHR ''+''"] of_char_eq_iff [where ?'a = nat, of c "CHR ''/''"]
  by simp_all

lemma b64_val_char: "n < 64 \<Longrightarrow> b64_val (b64_char n) = Some n \<and> b64_char n \<noteq> CHR ''=''"
  unfolding b64_val_def b64_char_def char_eq_code Let_def is_upper_def is_lower_def is_digit_def
  by (auto split: if_splits)

lemma byte: "(of_char c :: nat) < 256" by simp

lemma b64_parts:
  assumes "a < 256" "b < 256" "c < (256 :: nat)"
  shows "a div 4 < 64" "a mod 4 * 16 < 64" "a mod 4 * 16 + b div 16 < 64" "b mod 16 * 4 < 64" "b mod 16 * 4 + c div 64 < 64" "c mod 64 < 64"
    "a div 4 * 4 + a mod 4 * 16 div 16 = a" "a div 4 * 4 + (a mod 4 * 16 + b div 16) div 16 = a"
    "(a mod 4 * 16 + b div 16) mod 16 * 16 + b mod 16 * 4 div 4 = b"
    "(a mod 4 * 16 + b div 16) mod 16 * 16 + (b mod 16 * 4 + c div 64) div 4 = b"
    "(b mod 16 * 4 + c div 64) mod 4 * 64 + c mod 64 = c"
proof -
  have "c div 64 < 4" using assms(3) by (simp add: div_less_iff_less_mult)
  moreover have "b div 16 < 16" using assms(2) by (simp add: div_less_iff_less_mult)
  moreover have "a div 4 < 64" using assms(1) by (simp add: div_less_iff_less_mult)
  moreover have "a mod 4 < 4" "b mod 16 < 16" "c mod 64 < 64" by simp_all
  ultimately show "a div 4 < 64" "a mod 4 * 16 < 64" "a mod 4 * 16 + b div 16 < 64" "b mod 16 * 4 < 64" "b mod 16 * 4 + c div 64 < 64" "c mod 64 < 64"
    "a div 4 * 4 + a mod 4 * 16 div 16 = a" "a div 4 * 4 + (a mod 4 * 16 + b div 16) div 16 = a"
    "(a mod 4 * 16 + b div 16) mod 16 * 16 + b mod 16 * 4 div 4 = b"
    "(a mod 4 * 16 + b div 16) mod 16 * 16 + (b mod 16 * 4 + c div 64) div 4 = b"
    "(b mod 16 * 4 + c div 64) mod 4 * 64 + c mod 64 = c"
    by (simp_all add: mod_mult_self3 div_mult_self3)
qed

lemma b64_roundtrip: "b64decode (b64encode s) = Some s"
proof (induction s rule: b64encode.induct)
  case (2 x)
  show ?case using b64_parts [of "of_char x" "of_char x" "of_char x", OF byte byte byte] by (simp add: Let_def b64_val_char)
next
  case (3 x y)
  show ?case using b64_parts [of "of_char x" "of_char y" "of_char y", OF byte byte byte] by (simp add: Let_def b64_val_char)
next
  case (4 x y z s)
  then show ?case using b64_parts [of "of_char x" "of_char y" "of_char z", OF byte byte byte] by (simp add: Let_def b64_val_char)
qed simp


subsection \<open>UTF-8\<close>

fun utf8_encode :: "string \<Rightarrow> string" where
  "utf8_encode [] = []"
| "utf8_encode (c # s) =
     (let n = (of_char c :: nat) in
      (if n < 128 then [c] else [char_of (192 + n div 64), char_of (128 + n mod 64)]) @ utf8_encode s)"

fun utf8_decode :: "string \<Rightarrow> string option" where
  "utf8_decode [] = Some []"
| "utf8_decode (c # s) =
     (let n = (of_char c :: nat) in
      if n < 128 then map_option (Cons c) (utf8_decode s)
      else if n = 194 \<or> n = 195
      then (case s of
              [] \<Rightarrow> None
            | d # t \<Rightarrow> (let m = (of_char d :: nat) in
                if 128 \<le> m \<and> m < 192 then map_option (Cons (char_of ((n - 192) * 64 + (m - 128)))) (utf8_decode t) else None))
      else None)"

lemma utf8_roundtrip: "utf8_decode (utf8_encode s) = Some s"
proof (induction s)
  case (Cons c s)
  define n where "n = (of_char c :: nat)"
  have n: "n < 256" "c = char_of n" by (simp_all add: n_def)
  show ?case
  proof (cases "n < 128")
    case True
    then show ?thesis using Cons by (simp add: n_def Let_def)
  next
    case False
    define p q where "p = 192 + n div 64" and "q = 128 + n mod 64"
    have "n div 64 < 4" using n(1) by (simp add: div_less_iff_less_mult)
    moreover have "2 \<le> n div 64" using False by (simp add: less_eq_div_iff_mult_less_eq)
    ultimately have "n div 64 = 2 \<or> n div 64 = 3" by linarith
    then have p: "p = 194 \<or> p = 195" "p < 256" by (auto simp: p_def)
    have "n mod 64 < 64" by simp
    then have q: "128 \<le> q" "q < 192" by (simp_all add: q_def)
    have "utf8_encode (c # s) = char_of p # char_of q # utf8_encode s"
      using False by (simp add: n_def p_def q_def Let_def)
    moreover have "(of_char (char_of p :: char) :: nat) = p" "(of_char (char_of q :: char) :: nat) = q" using p q by simp_all
    moreover have "(p - 192) * 64 + (q - 128) = n" by (simp add: p_def q_def)
    ultimately show ?thesis using p(1) q Cons n(2) by (auto simp add: Let_def)
  qed
qed simp

lemma utf8_ascii: "list_all (\<lambda>c. (of_char c :: nat) < 128) s \<Longrightarrow> utf8_decode s = Some s"
  by (induction s) (auto simp: Let_def)

subsection \<open>\<open>json.loads\<close>\<close>

definition json_skip :: "string \<Rightarrow> string" where
  "json_skip s = dropWhile (\<lambda>c. (of_char c :: nat) \<in> {9, 10, 13, 32}) s"

definition hex_value :: "char \<Rightarrow> nat option" where
  "hex_value c =
     (let n = (of_char c :: nat) in
      if is_digit c then Some (n - 48) else if 97 \<le> n \<and> n \<le> 102 then Some (n - 87) else if 65 \<le> n \<and> n \<le> 70 then Some (n - 55) else None)"

definition hex4 :: "char \<Rightarrow> char \<Rightarrow> char \<Rightarrow> char \<Rightarrow> nat option" where
  "hex4 a b c d =
     (case (hex_value a, hex_value b, hex_value c, hex_value d) of
        (Some w, Some x, Some y, Some z) \<Rightarrow> Some (((w * 16 + x) * 16 + y) * 16 + z)
      | _ \<Rightarrow> None)"

definition simple_escape :: "char \<Rightarrow> char option" where
  "simple_escape e = map_of [(CHR 0x22, CHR 0x22), (CHR 0x5C, CHR 0x5C), (CHR ''/'', CHR ''/''), (CHR ''b'', CHR 0x08), (CHR ''f'', CHR 0x0C),
     (CHR ''n'', CHR 0x0A), (CHR ''r'', CHR 0x0D), (CHR ''t'', CHR 0x09)] e"

text \<open>The rest of a text after its opening quote; control characters are refused.\<close>

function (sequential) json_string :: "string \<Rightarrow> (string \<times> string) option" where
  "json_string [] = None"
| "json_string (c # s) =
     (if c = CHR 0x22 then Some ([], s)
      else if c = CHR 0x5C then
        (case s of
           [] \<Rightarrow> None
         | e # t \<Rightarrow>
             (case simple_escape e of
                Some d \<Rightarrow> map_option (apfst (Cons d)) (json_string t)
              | None \<Rightarrow>
                  if e = CHR ''u'' \<and> 4 \<le> length t then
                    (case hex4 (t ! 0) (t ! 1) (t ! 2) (t ! 3) of
                       Some n \<Rightarrow> if n < 256 then map_option (apfst (Cons (char_of n))) (json_string (drop 4 t)) else None
                     | None \<Rightarrow> None)
                  else None))
      else if (of_char c :: nat) < 32 then None
      else map_option (apfst (Cons c)) (json_string s))"
  by pat_completeness auto
termination by (relation "measure length") auto

text \<open>A number: an integer, or a float when it has a fraction or an exponent.\<close>

definition json_fraction :: "string \<Rightarrow> string" where
  "json_fraction r =
     (if r \<noteq> [] \<and> hd r = CHR ''.'' \<and> takeWhile is_digit (tl r) \<noteq> [] then CHR ''.'' # takeWhile is_digit (tl r) else [])"

definition json_exponent :: "string \<Rightarrow> string" where
  "json_exponent r =
     (if r \<noteq> [] \<and> hd r \<in> set ''eE'' then
        (let sg = (if tl r \<noteq> [] \<and> hd (tl r) \<in> set ''+-'' then [hd (tl r)] else []);
             ds = takeWhile is_digit (drop (length sg) (tl r))
         in if ds = [] then [] else hd r # sg @ ds)
      else [])"

definition json_number :: "py_runtime \<Rightarrow> string \<Rightarrow> (pyval \<times> string) option" where
  "json_number rt s =
     (let neg = (s \<noteq> [] \<and> hd s = CHR ''-'');
          t = (if neg then tl s else s);
          whole = (if t \<noteq> [] \<and> hd t = CHR ''0'' then ''0'' else takeWhile is_digit t);
          r = drop (length whole) t;
          frac = json_fraction r;
          expo = json_exponent (drop (length frac) r);
          rest = drop (length expo) (drop (length frac) r);
          txt = (if neg then ''-'' else []) @ whole @ frac @ expo
      in if whole = [] then None
         else if frac = [] \<and> expo = [] then map_option (\<lambda>n. (PInt (if neg then - int n else int n), rest)) (digits_val 0 whole)
         else map_option (\<lambda>f. (PFloat f, rest)) (rt_float_of_str rt txt))"

definition json_word :: "string \<Rightarrow> (pyval \<times> string) option" where
  "json_word s =
     (case find (\<lambda>(w, v). startswith s w)
         [(''null'', PNone), (''true'', PBool True), (''false'', PBool False), (''NaN'', PFloat ''nan''), (''Infinity'', PFloat ''inf''), (''-Infinity'', PFloat ''-inf'')] of
        Some (w, v) \<Rightarrow> Some (v, drop (length w) s)
      | None \<Rightarrow> None)"

text \<open>Each level of nesting, and each element, takes one unit of fuel: the length of the text is enough.\<close>

fun json_value :: "py_runtime \<Rightarrow> nat \<Rightarrow> string \<Rightarrow> (pyval \<times> string) option"
  and json_items :: "py_runtime \<Rightarrow> nat \<Rightarrow> string \<Rightarrow> (pyval list \<times> string) option"
  and json_members :: "py_runtime \<Rightarrow> nat \<Rightarrow> string \<Rightarrow> ((string \<times> pyval) list \<times> string) option" where
  "json_value rt 0 s = None"
| "json_value rt (Suc n) s =
     (case s of
        [] \<Rightarrow> None
      | c # t \<Rightarrow>
          if c = CHR 0x22 then map_option (apfst PStr) (json_string t)
          else if c = CHR ''['' then
            (let u = json_skip t in if u \<noteq> [] \<and> hd u = CHR '']'' then Some (PList [], tl u) else map_option (apfst PList) (json_items rt n u))
          else if c = CHR ''{'' then
            (let u = json_skip t in if u \<noteq> [] \<and> hd u = CHR ''}'' then Some (PDict [], tl u)
                                    else map_option (apfst (\<lambda>d. PDict (foldl (\<lambda>d kv. AList.update (fst kv) (snd kv) d) [] d))) (json_members rt n u))
          else (case json_word s of Some r \<Rightarrow> Some r | None \<Rightarrow> json_number rt s))"
| "json_items rt 0 s = None"
| "json_items rt (Suc n) s =
     (case json_value rt n s of
        None \<Rightarrow> None
      | Some (v, r) \<Rightarrow>
          (let u = json_skip r in
           if u \<noteq> [] \<and> hd u = CHR '']'' then Some ([v], tl u)
           else if u \<noteq> [] \<and> hd u = CHR '','' then map_option (apfst (Cons v)) (json_items rt n (json_skip (tl u)))
           else None))"
| "json_members rt 0 s = None"
| "json_members rt (Suc n) s =
     (if s = [] \<or> hd s \<noteq> CHR 0x22 then None
      else case json_string (tl s) of
        None \<Rightarrow> None
      | Some (k, r) \<Rightarrow>
          (let u = json_skip r in
           if u = [] \<or> hd u \<noteq> CHR '':'' then None
           else case json_value rt n (json_skip (tl u)) of
             None \<Rightarrow> None
           | Some (v, q) \<Rightarrow>
               (let w = json_skip q in
                if w \<noteq> [] \<and> hd w = CHR ''}'' then Some ([(k, v)], tl w)
                else if w \<noteq> [] \<and> hd w = CHR '','' then map_option (apfst (Cons (k, v))) (json_members rt n (json_skip (tl w)))
                else None)))"

definition json_loads :: "py_runtime \<Rightarrow> string \<Rightarrow> pyval option" where
  "json_loads rt s =
     (case json_value rt (Suc (length s)) (json_skip s) of
        Some (v, r) \<Rightarrow> if json_skip r = [] then Some v else None
      | None \<Rightarrow> None)"

subsection \<open>The codec\<close>

text \<open>
  \<open>db.paginate\<close> writes the JSON text of a value.  The texts of this model have the characters up to U+00FF: a cursor with a character above them, which the code decodes, is an error
  here, so nothing is claimed of it.
\<close>

definition encode_json_cursor :: "pyval \<Rightarrow> string result" where
  "encode_json_cursor v = rbind (json_dumps v) (\<lambda>s. Inr (b64encode (utf8_encode s)))"

definition decode_json_cursor :: "py_runtime \<Rightarrow> string \<Rightarrow> pyval result" where
  "decode_json_cursor rt cursor =
     of_option ValueError (Option.bind (b64decode cursor) (\<lambda>b. Option.bind (utf8_decode b) (json_loads rt)))"


subsection \<open>A cursor reads back\<close>

lemma nat_digits_facts:
  "list_all is_digit (nat_digits n) \<and> nat_digits n \<noteq> [] \<and> digits_val a (nat_digits n) = Some (a * 10 ^ length (nat_digits n) + n)
   \<and> (hd (nat_digits n) = CHR ''0'' \<longrightarrow> n = 0)"
proof (induction n arbitrary: a rule: nat_digits.induct)
  case (1 n)
  have code: "(of_char (char_of (48 + k) :: char) :: nat) = 48 + k" if "k < 10" for k :: nat using that by simp
  have zero: "k = 0" if "char_of (48 + k) = CHR ''0''" "k < 10" for k :: nat
    using code [OF that(2)] by (simp add: that(1))
  show ?case
  proof (cases "n < 10")
    case True
    then show ?thesis using code [of n] zero [of n] by (simp add: nat_digits.simps [of n] is_digit_def)
  next
    case False
    have d: "digits_val b (xs @ [char_of (48 + k)]) = Some (10 * m + k)" if "digits_val b xs = Some m" "k < 10" "list_all is_digit xs" for b xs m k
      using that(1,3)
    proof (induction xs arbitrary: b)
      case Nil
      then show ?case using code [OF that(2)] that(2) by (simp add: is_digit_def)
    qed simp
    have "n mod 10 < 10" by simp
    moreover have "digits_val a (nat_digits (n div 10)) = Some (a * 10 ^ length (nat_digits (n div 10)) + n div 10)"
      "list_all is_digit (nat_digits (n div 10))" "nat_digits (n div 10) \<noteq> []" "hd (nat_digits (n div 10)) = CHR ''0'' \<longrightarrow> n div 10 = 0"
      using 1 [OF False] by blast+
    moreover have "0 < n div 10" using False by simp
    moreover have "is_digit (char_of (48 + n mod 10))" using code [of "n mod 10"] \<open>n mod 10 < 10\<close> by (simp add: is_digit_def)
    ultimately show ?thesis
      using False d [of a "nat_digits (n div 10)" _ "n mod 10"]
      by (simp add: nat_digits.simps [of n] algebra_simps)
  qed
qed


lemma takeWhile_digits: "list_all is_digit s \<Longrightarrow> takeWhile is_digit s = s"
  by (induction s) auto

lemma digit_facts:
  assumes "is_digit c"
  shows "c \<noteq> CHR ''-''" "c \<noteq> CHR 0x22" "c \<noteq> CHR ''[''" "c \<noteq> CHR ''{''" "c \<noteq> CHR ''n''" "c \<noteq> CHR ''t''" "c \<noteq> CHR ''f''" "c \<noteq> CHR ''N''" "c \<noteq> CHR ''I''"
    "json_skip (c # s) = c # s" "(of_char c :: nat) < 128"
  using assms by (auto simp: is_digit_def json_skip_def)

lemma json_word_digit:
  "is_digit c \<Longrightarrow> json_word (c # s) = None" "is_digit c \<Longrightarrow> json_word (CHR ''-'' # c # s) = None"
  using digit_facts by (auto simp: json_word_def startswith_def)

lemma char_codes: "char_of (48 :: nat) = CHR ''0''" "char_of (34 :: nat) = CHR 0x22" "char_of (92 :: nat) = CHR 0x5C"
  "char_of (10 :: nat) = CHR 0x0A" "char_of (13 :: nat) = CHR 0x0D" "char_of (9 :: nat) = CHR 0x09" "char_of (8 :: nat) = CHR 0x08" "char_of (12 :: nat) = CHR 0x0C"
  by code_simp+

lemma json_number_int: "json_number rt (int_str i) = Some (PInt i, [])"
proof -
  define n where "n = nat \<bar>i\<bar>"
  have s: "int_str i = (if i < 0 then CHR ''-'' # nat_digits n else nat_digits n)" by (simp add: int_str_def n_def)
  note f = nat_digits_facts [of n 0]
  then have ne: "nat_digits n \<noteq> []" "hd (nat_digits n) \<noteq> CHR ''-''" using digit_facts(1) by (metis list.pred_inject(2) list.exhaust_sel)+
  have zero: "n = 0 \<Longrightarrow> nat_digits n = ''0''" by (simp add: nat_digits.simps char_codes)
  have tw: "takeWhile is_digit (nat_digits n) = nat_digits n" using f takeWhile_digits by blast
  have dv: "digits_val 0 (nat_digits n) = Some n" using f by simp
  have nil: "json_fraction [] = []" "json_exponent [] = []" by (simp_all add: json_fraction_def json_exponent_def)
  show ?thesis
  proof (cases "n = 0")
    case True
    then have "i = 0" by (simp add: n_def)
    then show ?thesis by (simp add: int_str_def nat_digits.simps char_codes json_number_def Let_def nil is_digit_def)
  next
    case False
    then have hd0: "hd (nat_digits n) \<noteq> CHR ''0''" using f by blast
    have "json_number rt (CHR ''-'' # nat_digits n) = Some (PInt (- int n), [])" "json_number rt (nat_digits n) = Some (PInt (int n), [])"
      by (simp_all add: json_number_def Let_def tw hd0 dv nil ne)
    then show ?thesis unfolding s by (auto simp: n_def)
  qed
qed

lemma json_value_int: "json_value rt (Suc k) (int_str i) = Some (PInt i, [])"
proof -
  obtain c s where c: "nat_digits (nat \<bar>i\<bar>) = c # s" "is_digit c"
    using nat_digits_facts [of "nat \<bar>i\<bar>" 0] by (metis list.exhaust list.pred_inject(2))
  then have "int_str i = (if i < 0 then CHR ''-'' # c # s else c # s)" by (auto simp: int_str_def)
  then show ?thesis using json_number_int [of rt i] c(2) digit_facts json_word_digit by (auto split: if_splits)
qed

lemma hex_value_digit: "n < 16 \<Longrightarrow> hex_value (hex_digit n) = Some n"
  by (auto simp: hex_value_def hex_digit_def is_digit_def Let_def)

lemma json_string_char: "json_string (json_char c @ r) = map_option (apfst (Cons c)) (json_string r)"
proof -
  define n where "n = (of_char c :: nat)"
  have c: "c = char_of n" "n < 256" by (simp_all add: n_def)
  have hex: "json_string (CHR 0x5C # CHR ''u'' # CHR ''0'' # CHR ''0'' # hex2 n @ r) = map_option (apfst (Cons c)) (json_string r)"
  proof -
    have "hex_value (CHR ''0'') = Some 0" by (simp add: hex_value_def is_digit_def)
    then have "hex4 (CHR ''0'') (CHR ''0'') (hex_digit (n div 16)) (hex_digit (n mod 16)) = Some n"
      using c(2) by (simp add: hex4_def hex_value_digit div_less_iff_less_mult)
    then show ?thesis using c by (simp add: hex2_def simple_escape_def)
  qed
  consider "n = 34 \<or> n = 92" | "n = 10" | "n = 13" | "n = 9" | "n = 8" | "n = 12"
    | "n < 32 \<or> 126 < n" "n \<notin> {34, 92, 10, 13, 9, 8, 12}" | "32 \<le> n" "n \<le> 126" "n \<noteq> 34" "n \<noteq> 92" by fastforce
  then show ?thesis
  proof cases
    case 1
    then have "c = CHR 0x22 \<or> c = CHR 0x5C" using c(1) char_codes by auto
    then show ?thesis by (auto simp: json_char_def simple_escape_def)
  next
    case 7
    then have "json_char c = CHR 0x5C # CHR ''u'' # CHR ''0'' # CHR ''0'' # hex2 n" by (auto simp: json_char_def n_def Let_def)
    with hex show ?thesis by simp
  next
    case 8
    then have "json_char c = [c]" "c \<noteq> CHR 0x22" "c \<noteq> CHR 0x5C" by (auto simp: json_char_def n_def Let_def)
    with 8 show ?thesis by (simp add: n_def)
  qed (use c(1) in \<open>simp_all add: json_char_def simple_escape_def char_codes\<close>)
qed

lemma json_string_body: "json_string (concat (map json_char s) @ CHR 0x22 # r) = Some (s, r)"
  by (induction s) (simp_all add: json_string_char)

lemma json_value_str: "json_value rt (Suc k) (json_str s) = Some (PStr s, [])"
  using json_string_body [of s "[]"] by (simp add: json_str_def)


lemma json_skip_value: "json_skip (int_str i) = int_str i" "json_skip (json_str s) = json_str s"
proof -
  obtain c t where c: "nat_digits (nat \<bar>i\<bar>) = c # t" "is_digit c"
    using nat_digits_facts [of "nat \<bar>i\<bar>" 0] by (metis list.exhaust list.pred_inject(2))
  then have "int_str i = (if i < 0 then CHR ''-'' # c # t else c # t)" by (auto simp: int_str_def)
  then show "json_skip (int_str i) = int_str i" using digit_facts(10) [OF c(2)] by (auto simp: json_skip_def)
qed (simp add: json_str_def json_skip_def)

lemma hex2_ascii: "n < 256 \<Longrightarrow> list_all (\<lambda>c. (of_char c :: nat) < 128) (hex2 n)"
proof -
  assume "n < 256"
  then have "n div 16 < 16" "n mod 16 < 16" by (simp_all add: div_less_iff_less_mult)
  then show ?thesis by (auto simp: hex2_def hex_digit_def)
qed

lemma json_ascii:
  "list_all (\<lambda>c. (of_char c :: nat) < 128) (int_str i)" "list_all (\<lambda>c. (of_char c :: nat) < 128) (json_str s)"
proof -
  have "list_all is_digit (nat_digits n)" for n using nat_digits_facts [of n 0] by simp
  then have "list_all (\<lambda>c. (of_char c :: nat) < 128) (nat_digits n)" for n using digit_facts(11) by (metis list.pred_mono_strong)
  then show "list_all (\<lambda>c. (of_char c :: nat) < 128) (int_str i)" by (simp add: int_str_def)
  have "list_all (\<lambda>c. (of_char c :: nat) < 128) (json_char c)" for c
    using hex2_ascii [of "of_char c"] by (auto simp: json_char_def Let_def)
  then have "list_all (\<lambda>c. (of_char c :: nat) < 128) (concat (map json_char s))" for s by (induction s) simp_all
  then show "list_all (\<lambda>c. (of_char c :: nat) < 128) (json_str s)" by (simp add: json_str_def)
qed

lemma utf8_encode_ascii: "list_all (\<lambda>c. (of_char c :: nat) < 128) s \<Longrightarrow> utf8_encode s = s"
  by (induction s) (auto simp: Let_def)

definition cursor_value :: "pyval \<Rightarrow> bool" where
  "cursor_value v = (v = PNone \<or> is_bool v \<or> is_int v \<and> \<not> is_bool v \<or> is_str v)"

lemma cursor_decodes:
  assumes "cursor_value v"
  shows "\<exists>c. encode_json_cursor v = Inr c \<and> decode_json_cursor rt c = Inr v"
proof -
  have loads: "\<exists>t. json_dumps v = Inr t \<and> json_loads rt t = Some v"
  proof (cases v)
    case PNone
    then show ?thesis by (simp add: json_loads_def json_skip_def json_word_def startswith_def)
  next
    case (PBool b)
    then show ?thesis by (cases b) (simp_all add: json_loads_def json_skip_def json_word_def startswith_def)
  next
    case (PInt i)
    then show ?thesis by (simp add: json_loads_def json_value_int json_skip_value del: json_value.simps) (simp add: json_skip_def)
  next
    case (PStr s)
    then show ?thesis by (simp add: json_loads_def json_value_str json_skip_value del: json_value.simps) (simp add: json_skip_def)
  qed (use assms in \<open>simp_all add: cursor_value_def\<close>)
  then obtain t where t: "json_dumps v = Inr t" "json_loads rt t = Some v" by blast
  show ?thesis
    by (simp add: encode_json_cursor_def decode_json_cursor_def t b64_roundtrip utf8_roundtrip of_option_def)
qed

text \<open>
  C40: A cursor stands for its value.  Decoding the cursor that was made of \<open>None\<close>, a boolean, an integer
  or a text gives this value back, whatever characters the text holds.  The texts of the model have the
  characters up to U+00FF; floats are not covered.
\<close>

theorem cursor_roundtrip:
  "cursor_value v \<Longrightarrow> \<exists>c. encode_json_cursor v = Inr c \<and> decode_json_cursor rt c = Inr v"
  by (rule cursor_decodes)

definition int_runtime :: py_runtime where
  "int_runtime = \<lparr>rt_value = (\<lambda>s. None), rt_float_of_int = (\<lambda>i. None), rt_float_of_str = (\<lambda>s. None)\<rparr>"

theorem cursor_roundtrip_witness:
  "\<exists>c. encode_json_cursor (PStr ''2024-01-31'') = Inr c \<and> decode_json_cursor int_runtime c = Inr (PStr ''2024-01-31'')"
  by (rule cursor_roundtrip) (simp add: cursor_value_def)

end
