(* ===== verification/Pagination.thy ===== *)
theory Pagination
  imports Cursor Casing
begin

section \<open>Pages of a view\<close>

text \<open>
  \<open>db.paginate\<close>: a page is a call of \<open>find\<close> for one row more than asked, with the cursors as conditions on
  the field of the order.  \<open>find\<close> and \<open>count\<close> are arguments; their clause and statement are modelled in
  \<open>FindQuery\<close> and \<open>ReadHelpers\<close>, running it is PostgreSQL's work.
\<close>

subsection \<open>A page\<close>

record page_request =
  pr_first :: "int option"
  pr_after :: "string option"
  pr_last :: "int option"
  pr_before :: "string option"
  pr_filters :: "pyval option"
  pr_order_by :: string
  pr_direction :: string
  pr_include_total :: bool

record page_edge =
  ed_node :: pydict
  ed_cursor :: string

record page =
  pg_edges :: "page_edge list"
  pg_has_next :: bool
  pg_has_previous :: bool
  pg_start :: "string option"
  pg_end :: "string option"
  pg_total :: "int option"

definition upper_text :: "string \<Rightarrow> string" where "upper_text s = map to_upper s"

text \<open>The conditions of a page: the filter, then the cursors.\<close>

datatype condition = Client pyval | Above pyval | Below pyval

definition condition_value :: "string \<Rightarrow> condition \<Rightarrow> pyval" where
  "condition_value f c =
     (case c of
        Client w \<Rightarrow> w
      | Above v \<Rightarrow> PDict [(f, PDict [(''gt'', v)])]
      | Below v \<Rightarrow> PDict [(f, PDict [(''lt'', v)])])"

definition where_of :: "pyval list \<Rightarrow> pyval option" where
  "where_of cs = (case cs of [] \<Rightarrow> None | [c] \<Rightarrow> Some c | _ \<Rightarrow> Some (PDict [(''AND'', PList cs)]))"

definition client_filter :: "page_request \<Rightarrow> pyval option" where
  "client_filter rq = (case pr_filters rq of Some w \<Rightarrow> if truthy w then Some w else None | None \<Rightarrow> None)"

definition cursor_condition :: "py_runtime \<Rightarrow> bool \<Rightarrow> string option \<Rightarrow> condition list result" where
  "cursor_condition rt is_above cursor =
     (case cursor of
        None \<Rightarrow> Inr []
      | Some c \<Rightarrow> rbind (decode_json_cursor rt c) (\<lambda>v. Inr [if is_above then Above v else Below v]))"

definition page_conditions :: "py_runtime \<Rightarrow> page_request \<Rightarrow> condition list result" where
  "page_conditions rt rq =
     (let asc = (upper_text (pr_direction rq) = ''ASC'') in
      rbind (cursor_condition rt asc (pr_after rq)) (\<lambda>after.
      rbind (cursor_condition rt (\<not> asc) (pr_before rq)) (\<lambda>before.
        Inr ((case client_filter rq of Some w \<Rightarrow> [Client w] | None \<Rightarrow> []) @ after @ before))))"

definition row_value :: "string \<Rightarrow> pydict \<Rightarrow> pyval" where
  "row_value f row =
     (case map_of row (to_camel_case f) of
        Some v \<Rightarrow> v
      | None \<Rightarrow> (case map_of row f of Some v \<Rightarrow> v | None \<Rightarrow> PNone))"

definition page_edge_of :: "string \<Rightarrow> pydict \<Rightarrow> page_edge result" where
  "page_edge_of f row = rbind (encode_json_cursor (row_value f row)) (\<lambda>c. Inr \<lparr>ed_node = row, ed_cursor = c\<rparr>)"

text \<open>
  \<open>find\<close> answers rows, or a response for the router that holds them as its data; \<open>find\<close> also keeps such a
  response in the context, and the page takes it out again.  A response is known by its identity.
\<close>

datatype find_answer = Found "pydict list" | Response nat "(string \<times> pydict list option) list"

definition answer_rows :: "find_answer \<Rightarrow> pydict list" where
  "answer_rows a =
     (case a of
        Found rows \<Rightarrow> rows
      | Response ident data \<Rightarrow> (case data of [] \<Rightarrow> [] | (k, rows) # rest \<Rightarrow> (case rows of None \<Rightarrow> [] | Some rows \<Rightarrow> rows)))"

definition drop_response :: "find_answer \<Rightarrow> (string \<times> nat) list \<Rightarrow> (string \<times> nat) list" where
  "drop_response a stored = (case a of Found rows \<Rightarrow> stored | Response ident data \<Rightarrow> filter (\<lambda>(k, i). i \<noteq> ident) stored)"

lemma drop_response_keeps:
  "(k, i) \<in> set (drop_response a stored) \<longleftrightarrow> (k, i) \<in> set stored \<and> (\<forall>data. a \<noteq> Response i data)"
  by (cases a) (auto simp: drop_response_def)

definition db_paginate ::
  "py_runtime \<Rightarrow> (pyval option \<Rightarrow> string \<Rightarrow> bool \<Rightarrow> nat \<Rightarrow> find_answer result) \<Rightarrow> (pyval option \<Rightarrow> int result) \<Rightarrow> page_request \<Rightarrow> page result" where
  "db_paginate rt find_rows count_rows rq =
     (if pr_first rq \<noteq> None \<and> pr_last rq \<noteq> None then Inl ValueError
      else if (\<exists>n. pr_first rq = Some n \<and> n < 0) \<or> (\<exists>n. pr_last rq = Some n \<and> n < 0) then Inl ValueError
      else if upper_text (pr_direction rq) \<notin> {''ASC'', ''DESC''} then Inl ValueError
      else
        (let backward = (pr_last rq \<noteq> None);
             size = nat (case pr_last rq of Some n \<Rightarrow> n | None \<Rightarrow> (case pr_first rq of Some n \<Rightarrow> n | None \<Rightarrow> 20));
             ascending = ((upper_text (pr_direction rq) = ''ASC'') \<noteq> backward)
         in rbind (page_conditions rt rq) (\<lambda>cs.
            rbind (find_rows (where_of (map (condition_value (pr_order_by rq)) cs)) (pr_order_by rq) ascending (size + 1)) (\<lambda>answer.
              let found_rows = answer_rows answer;
                  has_more = (length found_rows > size);
                  kept = take size found_rows
              in rbind (map_result (page_edge_of (pr_order_by rq)) (if backward then rev kept else kept)) (\<lambda>edges.
                 rbind (if pr_include_total rq then rbind (count_rows (client_filter rq)) (\<lambda>n. Inr (Some n)) else Inr None) (\<lambda>total.
                   Inr \<lparr>pg_edges = edges,
                        pg_has_next = (if backward then pr_before rq \<noteq> None else has_more),
                        pg_has_previous = (if backward then has_more else pr_after rq \<noteq> None),
                        pg_start = (if edges = [] then None else Some (ed_cursor (hd edges))),
                        pg_end = (if edges = [] then None else Some (ed_cursor (last edges))),
                        pg_total = total\<rparr>))))))"

subsection \<open>What a page should be\<close>

text \<open>
  A view is a list of rows in ascending order of the field, strictly, since the values of the field are
  unique.  \<open>find\<close> reads it: the rows that satisfy the conditions, in the order asked for, up to the limit.
\<close>

definition holds :: "(pyval \<Rightarrow> pyval \<Rightarrow> bool) \<Rightarrow> (pyval \<Rightarrow> pydict \<Rightarrow> bool) \<Rightarrow> string \<Rightarrow> condition \<Rightarrow> pydict \<Rightarrow> bool" where
  "holds lt ok f c row =
     (case c of Client w \<Rightarrow> ok w row | Above v \<Rightarrow> lt v (row_value f row) | Below v \<Rightarrow> lt (row_value f row) v)"

definition ordered :: "bool \<Rightarrow> 'a list \<Rightarrow> 'a list" where "ordered asc xs = (if asc then xs else rev xs)"

definition client_conditions :: "pyval option \<Rightarrow> condition list" where
  "client_conditions client = (case client of Some w \<Rightarrow> [Client w] | None \<Rightarrow> [])"

text \<open>
  \<open>find\<close> reads the view for the filter of the client, alone and with comparisons with rows of the view: it
  does not refuse the filter, and answers the rows that satisfy it.
\<close>

definition reads_view ::
  "(pyval option \<Rightarrow> string \<Rightarrow> bool \<Rightarrow> nat \<Rightarrow> find_answer result) \<Rightarrow> (pyval \<Rightarrow> pyval \<Rightarrow> bool) \<Rightarrow> (pyval \<Rightarrow> pydict \<Rightarrow> bool) \<Rightarrow> pyval option \<Rightarrow> string \<Rightarrow> pydict list \<Rightarrow> bool" where
  "reads_view find_rows lt ok client f view \<longleftrightarrow>
     (\<forall>cursors asc n. set cursors \<subseteq> (\<Union>r \<in> set view. {Above (row_value f r), Below (row_value f r)}) \<longrightarrow>
       (\<exists>a. find_rows (where_of (map (condition_value f) (client_conditions client @ cursors))) f asc n = Inr a
          \<and> answer_rows a = take n (ordered asc (filter (\<lambda>r. \<forall>c \<in> set (client_conditions client @ cursors). holds lt ok f c r) view))))"

text \<open>The order of the database is strict on the values of the field, and cursors can be made of them.\<close>

definition well_ordered :: "(pyval \<Rightarrow> pyval \<Rightarrow> bool) \<Rightarrow> string \<Rightarrow> pydict list \<Rightarrow> bool" where
  "well_ordered lt f view \<longleftrightarrow>
     sorted_wrt (\<lambda>r s. lt (row_value f r) (row_value f s)) view \<and> (\<forall>r \<in> set view. \<forall>s \<in> set view. \<not> (lt (row_value f r) (row_value f s) \<and> lt (row_value f s) (row_value f r)))
     \<and> (\<forall>r \<in> set view. cursor_value (row_value f r))"

text \<open>The rows of a request, in its order.\<close>

definition visible :: "(pyval \<Rightarrow> pydict \<Rightarrow> bool) \<Rightarrow> page_request \<Rightarrow> pydict list \<Rightarrow> pydict list" where
  "visible ok rq view =
     ordered (upper_text (pr_direction rq) = ''ASC'') (filter (\<lambda>r. case client_filter rq of Some w \<Rightarrow> ok w r | None \<Rightarrow> True) view)"

definition before_row :: "(pyval \<Rightarrow> pyval \<Rightarrow> bool) \<Rightarrow> page_request \<Rightarrow> pydict \<Rightarrow> pydict \<Rightarrow> bool" where
  "before_row lt rq r s =
     (if upper_text (pr_direction rq) = ''ASC'' then lt (row_value (pr_order_by rq) r) (row_value (pr_order_by rq) s)
      else lt (row_value (pr_order_by rq) s) (row_value (pr_order_by rq) r))"

lemma sorted_after:
  assumes "sorted_wrt R xs" "\<forall>a \<in> set xs. \<forall>b \<in> set xs. \<not> (R a b \<and> R b a)" "i < length xs"
  shows "filter (\<lambda>b. R (xs ! i) b) xs = drop (Suc i) xs" "filter (\<lambda>b. R b (xs ! i)) xs = take i xs"
proof -
  have split: "xs = take i xs @ xs ! i # drop (Suc i) xs" using assms(3) by (simp add: id_take_nth_drop)
  have less: "\<forall>a \<in> set (take i xs). R a (xs ! i)" "\<forall>b \<in> set (drop (Suc i) xs). R (xs ! i) b"
    using assms(1) by (subst (asm) split, simp add: sorted_wrt_append)+
  have "xs ! i \<in> set xs" using assms(3) by simp
  then have no: "\<forall>a \<in> set (take i xs). \<not> R (xs ! i) a" "\<not> R (xs ! i) (xs ! i)" "\<forall>b \<in> set (drop (Suc i) xs). \<not> R b (xs ! i)"
    using less assms(2) by (meson in_set_dropD in_set_takeD)+
  show "filter (\<lambda>b. R (xs ! i) b) xs = drop (Suc i) xs"
    by (subst (2) split) (use less no in \<open>simp add: filter_False filter_id_conv\<close>)
  show "filter (\<lambda>b. R b (xs ! i)) xs = take i xs"
    by (subst (2) split) (use less no in \<open>simp add: filter_False filter_id_conv\<close>)
qed


text \<open>In the order of a request the rows of a view are sorted.\<close>

lemma visible_sorted:
  assumes "well_ordered lt (pr_order_by rq) view"
  shows "sorted_wrt (before_row lt rq) (visible ok rq view)"
    "\<forall>a \<in> set (visible ok rq view). \<forall>b \<in> set (visible ok rq view). \<not> (before_row lt rq a b \<and> before_row lt rq b a)"
proof -
  have b: "before_row lt rq = (if upper_text (pr_direction rq) = ''ASC'' then (\<lambda>r s. lt (row_value (pr_order_by rq) r) (row_value (pr_order_by rq) s))
      else (\<lambda>r s. lt (row_value (pr_order_by rq) s) (row_value (pr_order_by rq) r)))"
    by (auto simp: fun_eq_iff before_row_def)
  show "sorted_wrt (before_row lt rq) (visible ok rq view)"
    using assms unfolding b by (simp add: visible_def ordered_def well_ordered_def sorted_wrt_filter sorted_wrt_rev)
  show "\<forall>a \<in> set (visible ok rq view). \<forall>b \<in> set (visible ok rq view). \<not> (before_row lt rq a b \<and> before_row lt rq b a)"
    using assms by (auto simp: visible_def ordered_def well_ordered_def before_row_def)
qed

lemma visible_subset: "set (visible ok rq view) \<subseteq> set view"
  by (auto simp: visible_def ordered_def)

text \<open>What a request for a page reads.\<close>

definition request_rows :: "(pyval \<Rightarrow> pyval \<Rightarrow> bool) \<Rightarrow> (pyval \<Rightarrow> pydict \<Rightarrow> bool) \<Rightarrow> page_request \<Rightarrow> condition list \<Rightarrow> pydict list \<Rightarrow> pydict list" where
  "request_rows lt ok rq cursors view = filter (\<lambda>r. \<forall>c \<in> set cursors. holds lt ok (pr_order_by rq) c r) (visible ok rq view)"

lemma filter_ordered: "filter P (ordered asc xs) = ordered asc (filter P xs)"
  by (simp add: ordered_def rev_filter)

lemma ordered_flip: "ordered (asc \<noteq> backward) xs = (if backward then rev (ordered asc xs) else ordered asc xs)"
  by (auto simp: ordered_def)

lemma find_page:
  assumes "reads_view find_rows lt ok (client_filter rq) (pr_order_by rq) view"
    and "set cursors \<subseteq> (\<Union>r \<in> set view. {Above (row_value (pr_order_by rq) r), Below (row_value (pr_order_by rq) r)})"
  shows "\<exists>a. find_rows (where_of (map (condition_value (pr_order_by rq)) ((case client_filter rq of Some w \<Rightarrow> [Client w] | None \<Rightarrow> []) @ cursors)))
      (pr_order_by rq) ((upper_text (pr_direction rq) = ''ASC'') \<noteq> backward) n = Inr a
    \<and> answer_rows a = take n (if backward then rev (request_rows lt ok rq cursors view) else request_rows lt ok rq cursors view)"
proof -
  let ?cs = "client_conditions (client_filter rq) @ cursors"
  have "filter (\<lambda>r. \<forall>c \<in> set ?cs. holds lt ok (pr_order_by rq) c r) view
      = filter (\<lambda>r. \<forall>c \<in> set cursors. holds lt ok (pr_order_by rq) c r) (filter (\<lambda>r. case client_filter rq of Some w \<Rightarrow> ok w r | None \<Rightarrow> True) view)"
    by (cases "client_filter rq") (auto simp: holds_def client_conditions_def intro!: filter_cong)
  then have "ordered ((upper_text (pr_direction rq) = ''ASC'') \<noteq> backward) (filter (\<lambda>r. \<forall>c \<in> set ?cs. holds lt ok (pr_order_by rq) c r) view)
      = (if backward then rev (request_rows lt ok rq cursors view) else request_rows lt ok rq cursors view)"
    by (cases backward; cases "upper_text (pr_direction rq) = ''ASC''") (simp_all add: request_rows_def visible_def ordered_def rev_filter)
  moreover obtain a where "find_rows (where_of (map (condition_value (pr_order_by rq)) ?cs)) (pr_order_by rq)
        ((upper_text (pr_direction rq) = ''ASC'') \<noteq> backward) n = Inr a"
      "answer_rows a = take n (ordered ((upper_text (pr_direction rq) = ''ASC'') \<noteq> backward) (filter (\<lambda>r. \<forall>c \<in> set ?cs. holds lt ok (pr_order_by rq) c r) view))"
    using assms unfolding reads_view_def by blast
  ultimately show ?thesis by (simp add: client_conditions_def)
qed

lemma edges_of:
  assumes "\<forall>r \<in> set rs. cursor_value (row_value f r)"
  shows "\<exists>es. map_result (page_edge_of f) rs = Inr es \<and> map ed_node es = rs \<and> (\<forall>e \<in> set es. encode_json_cursor (row_value f (ed_node e)) = Inr (ed_cursor e))"
  using assms
proof (induction rs)
  case (Cons r rs)
  then obtain es where es: "map_result (page_edge_of f) rs = Inr es" "map ed_node es = rs" "\<forall>e \<in> set es. encode_json_cursor (row_value f (ed_node e)) = Inr (ed_cursor e)"
    by auto
  obtain c where "encode_json_cursor (row_value f r) = Inr c" using cursor_decodes [of "row_value f r"] Cons.prems by auto
  moreover from this have "page_edge_of f r = Inr \<lparr>ed_node = r, ed_cursor = c\<rparr>" by (simp add: page_edge_of_def)
  ultimately show ?case using es by (intro exI [of _ "\<lparr>ed_node = r, ed_cursor = c\<rparr> # es"]) simp
qed simp

text \<open>A cursor is that of a row.\<close>

definition cursor_of :: "string \<Rightarrow> pydict \<Rightarrow> string" where
  "cursor_of f row = (case encode_json_cursor (row_value f row) of Inr c \<Rightarrow> c | Inl _ \<Rightarrow> [])"

lemma decode_cursor_of: "cursor_value (row_value f r) \<Longrightarrow> decode_json_cursor rt (cursor_of f r) = Inr (row_value f r)"
  using cursor_decodes [of "row_value f r" rt] by (auto simp: cursor_of_def)

lemma rows_after:
  assumes "well_ordered lt (pr_order_by rq) view" "i < length (visible ok rq view)"
  shows "request_rows lt ok rq [if upper_text (pr_direction rq) = ''ASC'' then Above (row_value (pr_order_by rq) (visible ok rq view ! i))
      else Below (row_value (pr_order_by rq) (visible ok rq view ! i))] view = drop (Suc i) (visible ok rq view)"
    "request_rows lt ok rq [if upper_text (pr_direction rq) = ''ASC'' then Below (row_value (pr_order_by rq) (visible ok rq view ! i))
      else Above (row_value (pr_order_by rq) (visible ok rq view ! i))] view = take i (visible ok rq view)"
  using sorted_after [OF visible_sorted [OF assms(1)] assms(2)]
  by (cases "upper_text (pr_direction rq) = ''ASC''"; simp add: request_rows_def holds_def before_row_def)+

lemma row_condition:
  "r \<in> set view \<Longrightarrow> set [if up then Above (row_value f r) else Below (row_value f r)]
     \<subseteq> (\<Union>r \<in> set view. {Above (row_value f r), Below (row_value f r)})"
  by auto

lemma page_slice:
  assumes "reads_view find_rows lt ok (client_filter rq) (pr_order_by rq) view" "well_ordered lt (pr_order_by rq) view"
    and "upper_text (pr_direction rq) \<in> {''ASC'', ''DESC''}" "vs = visible ok rq view"
    and "pr_first rq = Some (int n) \<and> pr_last rq = None \<and> pr_before rq = None
         \<and> (pr_after rq = None \<and> start = 0 \<or> (\<exists>i < length vs. pr_after rq = Some (cursor_of (pr_order_by rq) (vs ! i)) \<and> start = Suc i)) \<and> slice = take n (drop start vs)
       \<or> pr_first rq = None \<and> pr_last rq = Some (int n) \<and> pr_after rq = None
         \<and> (pr_before rq = None \<and> stop = length vs \<or> (\<exists>j < length vs. pr_before rq = Some (cursor_of (pr_order_by rq) (vs ! j)) \<and> stop = j)) \<and> slice = drop (stop - n) (take stop vs)"
    and "count_rows (client_filter rq) = Inr tot"
  shows "\<exists>p. db_paginate rt find_rows count_rows rq = Inr p \<and> map ed_node (pg_edges p) = slice
    \<and> map ed_cursor (pg_edges p) = map (cursor_of (pr_order_by rq)) slice
    \<and> (if pr_last rq = None then pg_has_next p = (start + n < length vs) else pg_has_previous p = (n < stop))
    \<and> pg_total p = (if pr_include_total rq then Some tot else None)"
proof -
  let ?f = "pr_order_by rq" and ?asc = "upper_text (pr_direction rq) = ''ASC''"
  have cursors: "\<forall>r \<in> set vs. cursor_value (row_value ?f r)"
    using assms(2,4) visible_subset by (fastforce simp: well_ordered_def)
  show ?thesis
  proof (cases "pr_last rq = None")
    case True
    with assms(5) have a: "pr_first rq = Some (int n)" "pr_before rq = None" "slice = take n (drop start vs)"
      "pr_after rq = None \<and> start = 0 \<or> (\<exists>i < length vs. pr_after rq = Some (cursor_of ?f (vs ! i)) \<and> start = Suc i)" by auto
    obtain cs where cs: "cursor_condition rt ?asc (pr_after rq) = Inr cs" "request_rows lt ok rq cs view = drop start vs"
      "set cs \<subseteq> (\<Union>r \<in> set view. {Above (row_value ?f r), Below (row_value ?f r)})"
    proof (cases "pr_after rq")
      case None
      then show ?thesis using a(4) that [of "[]"] by (auto simp: cursor_condition_def request_rows_def assms(4))
    next
      case (Some c)
      then obtain i where i: "i < length vs" "c = cursor_of ?f (vs ! i)" "start = Suc i" using a(4) by auto
      then have "decode_json_cursor rt c = Inr (row_value ?f (vs ! i))" using cursors decode_cursor_of by simp
      moreover have "vs ! i \<in> set view" using nth_mem [OF i(1)] visible_subset assms(4) by blast
      moreover have "request_rows lt ok rq [if ?asc then Above (row_value ?f (vs ! i)) else Below (row_value ?f (vs ! i))] view = drop (Suc i) vs"
        using rows_after(1) [OF assms(2), of i] i assms(4) by (cases ?asc) simp_all
      ultimately show ?thesis using Some i
        by (intro that [of "[if ?asc then Above (row_value ?f (vs ! i)) else Below (row_value ?f (vs ! i))]"])
          (simp_all add: cursor_condition_def row_condition del: list.set)
    qed
    have "\<forall>r \<in> set slice. cursor_value (row_value ?f r)" using cursors a(3) by (meson in_set_dropD in_set_takeD)
    from edges_of [OF this] obtain es where es: "map_result (page_edge_of ?f) slice = Inr es" "map ed_node es = slice"
      "\<forall>e \<in> set es. encode_json_cursor (row_value ?f (ed_node e)) = Inr (ed_cursor e)" by blast
    then have "map ed_cursor es = map (cursor_of ?f) slice" by (auto simp: cursor_of_def)
    moreover obtain a where "find_rows (where_of (map (condition_value ?f) ((case client_filter rq of Some w \<Rightarrow> [Client w] | None \<Rightarrow> []) @ cs))) ?f (?asc \<noteq> False) (n + 1) = Inr a"
      "answer_rows a = take (n + 1) (drop start vs)"
      using find_page [OF assms(1) cs(3), of False "n + 1"] cs(2) by auto
    ultimately show ?thesis
      using True a es cs(1) assms(3,6)
      by (auto simp: db_paginate_def Let_def page_conditions_def cursor_condition_def min_def)
  next
    case False
    with assms(5) have a: "pr_last rq = Some (int n)" "pr_first rq = None" "pr_after rq = None" "slice = drop (stop - n) (take stop vs)"
      "pr_before rq = None \<and> stop = length vs \<or> (\<exists>j < length vs. pr_before rq = Some (cursor_of ?f (vs ! j)) \<and> stop = j)" by auto
    obtain cs where cs: "cursor_condition rt (\<not> ?asc) (pr_before rq) = Inr cs" "request_rows lt ok rq cs view = take stop vs"
      "set cs \<subseteq> (\<Union>r \<in> set view. {Above (row_value ?f r), Below (row_value ?f r)})"
    proof (cases "pr_before rq")
      case None
      then show ?thesis using a(5) that [of "[]"] by (auto simp: cursor_condition_def request_rows_def assms(4))
    next
      case (Some c)
      then obtain j where j: "j < length vs" "c = cursor_of ?f (vs ! j)" "stop = j" using a(5) by auto
      then have "decode_json_cursor rt c = Inr (row_value ?f (vs ! j))" using cursors decode_cursor_of by simp
      moreover have "vs ! j \<in> set view" using nth_mem [OF j(1)] visible_subset assms(4) by blast
      moreover have "request_rows lt ok rq [if \<not> ?asc then Above (row_value ?f (vs ! j)) else Below (row_value ?f (vs ! j))] view = take j vs"
        using rows_after(2) [OF assms(2), of j] j assms(4) by (cases ?asc) simp_all
      ultimately show ?thesis using Some j
        by (intro that [of "[if \<not> ?asc then Above (row_value ?f (vs ! j)) else Below (row_value ?f (vs ! j))]"])
          (simp_all add: cursor_condition_def row_condition del: list.set)
    qed
    have stop: "stop \<le> length vs" using a(5) by auto
    have rev_slice: "rev (take n (rev (take stop vs))) = slice" using a(4) stop by (subst rev_take) (simp add: min_def)
    have "\<forall>r \<in> set slice. cursor_value (row_value ?f r)" using cursors a(4) by (meson in_set_dropD in_set_takeD)
    from edges_of [OF this] obtain es where es: "map_result (page_edge_of ?f) slice = Inr es" "map ed_node es = slice"
      "\<forall>e \<in> set es. encode_json_cursor (row_value ?f (ed_node e)) = Inr (ed_cursor e)" by blast
    then have "map ed_cursor es = map (cursor_of ?f) slice" by (auto simp: cursor_of_def)
    moreover obtain a where "find_rows (where_of (map (condition_value ?f) ((case client_filter rq of Some w \<Rightarrow> [Client w] | None \<Rightarrow> []) @ cs))) ?f (?asc \<noteq> True) (n + 1) = Inr a"
      "answer_rows a = take (n + 1) (rev (take stop vs))"
      using find_page [OF assms(1) cs(3), of True "n + 1"] cs(2) by auto
    ultimately show ?thesis
      using False a es cs(1) assms(3,6) stop rev_slice
      by (auto simp: db_paginate_def Let_def page_conditions_def cursor_condition_def min_def)
  qed
qed


text \<open>
  C39: A page is the slice of the view that was asked for.  Forward from the cursor of row \<open>i\<close> (or from the
  start), the page holds the next \<open>size\<close> rows, in order, and says whether more follow; backward from the
  cursor of row \<open>j\<close> (or from the end), it holds the last \<open>size\<close> rows before it, in the same order, and says
  whether more precede.  Its cursors are those of its rows.  The values of the order field are unique, and
  \<open>find\<close> accepts the filter of the client (a malformed filter makes it raise, and the page with it).
\<close>

theorem page_is_slice:
  assumes "reads_view find_rows lt ok (client_filter rq) (pr_order_by rq) view" "well_ordered lt (pr_order_by rq) view"
    and "upper_text (pr_direction rq) \<in> {''ASC'', ''DESC''}" "vs = visible ok rq view"
    and "pr_first rq = Some (int n) \<and> pr_last rq = None \<and> pr_before rq = None
         \<and> (pr_after rq = None \<and> start = 0 \<or> (\<exists>i < length vs. pr_after rq = Some (cursor_of (pr_order_by rq) (vs ! i)) \<and> start = Suc i)) \<and> slice = take n (drop start vs)
       \<or> pr_first rq = None \<and> pr_last rq = Some (int n) \<and> pr_after rq = None
         \<and> (pr_before rq = None \<and> stop = length vs \<or> (\<exists>j < length vs. pr_before rq = Some (cursor_of (pr_order_by rq) (vs ! j)) \<and> stop = j)) \<and> slice = drop (stop - n) (take stop vs)"
    and "count_rows (client_filter rq) = Inr tot"
  shows "\<exists>p. db_paginate rt find_rows count_rows rq = Inr p \<and> map ed_node (pg_edges p) = slice
    \<and> map ed_cursor (pg_edges p) = map (cursor_of (pr_order_by rq)) slice
    \<and> (if pr_last rq = None then pg_has_next p = (start + n < length vs) else pg_has_previous p = (n < stop))
    \<and> pg_total p = (if pr_include_total rq then Some tot else None)"
  by (rule page_slice) (rule assms)+

subsection \<open>Walking through a view\<close>

text \<open>A client that asks for page after page, each from the end cursor of the one before.\<close>

fun walk ::
  "py_runtime \<Rightarrow> (pyval option \<Rightarrow> string \<Rightarrow> bool \<Rightarrow> nat \<Rightarrow> find_answer result) \<Rightarrow> (pyval option \<Rightarrow> int result) \<Rightarrow> nat \<Rightarrow> page_request \<Rightarrow> pydict list" where
  "walk rt find_rows count_rows 0 rq = []"
| "walk rt find_rows count_rows (Suc k) rq =
     (case db_paginate rt find_rows count_rows rq of
        Inl e \<Rightarrow> []
      | Inr p \<Rightarrow> map ed_node (pg_edges p) @ (if pg_has_next p then walk rt find_rows count_rows k (rq\<lparr>pr_after := pg_end p\<rparr>) else []))"

lemma pg_end_cursor: "db_paginate rt find_rows count_rows rq = Inr p \<Longrightarrow> pg_edges p \<noteq> [] \<Longrightarrow> pg_end p = Some (ed_cursor (last (pg_edges p)))"
  by (auto simp: db_paginate_def Let_def rbind_eq_Inr split: if_splits)

lemma walk_from:
  assumes "reads_view find_rows lt ok (client_filter rq) (pr_order_by rq) view" "well_ordered lt (pr_order_by rq) view"
    and "upper_text (pr_direction rq) \<in> {''ASC'', ''DESC''}" "vs = visible ok rq view"
    and "pr_first rq = Some (int n)" "pr_last rq = None" "pr_before rq = None" "0 < n"
    and "pr_after rq = None \<and> start = 0 \<or> (\<exists>i < length vs. pr_after rq = Some (cursor_of (pr_order_by rq) (vs ! i)) \<and> start = Suc i)"
    and "count_rows (client_filter rq) = Inr tot" "length vs - start < k"
  shows "walk rt find_rows count_rows k rq = drop start vs"
  using assms
proof (induction k arbitrary: rq start)
  case (Suc k)
  let ?slice = "take n (drop start vs)"
  obtain p where p: "db_paginate rt find_rows count_rows rq = Inr p" "map ed_node (pg_edges p) = ?slice"
    "map ed_cursor (pg_edges p) = map (cursor_of (pr_order_by rq)) ?slice" "pg_has_next p = (start + n < length vs)"
    using page_slice [OF Suc.prems(1-4), where n = n and start = start and stop = 0 and slice = ?slice
      and count_rows = count_rows and tot = tot and rt = rt] Suc.prems(5-7,9,10) by auto
  show ?case
  proof (cases "start + n < length vs")
    case False
    then show ?thesis using p by simp
  next
    case True
    let ?i = "start + n - 1"
    have i: "?i < length vs" "Suc ?i = start + n" using True Suc.prems(8) by simp_all
    have ne: "?slice \<noteq> []" using True Suc.prems(8) by simp
    then have "pg_edges p \<noteq> []" using p(2) by auto
    with pg_end_cursor [OF p(1)] have "pg_end p = Some (last (map ed_cursor (pg_edges p)))" by (simp add: last_map)
    moreover have "last ?slice = vs ! ?i" using ne True Suc.prems(8) by (simp add: last_conv_nth)
    ultimately have "pg_end p = Some (cursor_of (pr_order_by rq) (vs ! ?i))" using p(3) ne by (simp add: last_map)
    then have "walk rt find_rows count_rows k (rq\<lparr>pr_after := pg_end p\<rparr>) = drop (start + n) vs"
      using Suc.prems i True by (intro Suc.IH) (auto simp: visible_def client_filter_def)
    then show ?thesis using p True by (simp add: add.commute flip: drop_drop)
  qed
qed simp

text \<open>
  C38: Paging forward visits every row once.  A client that starts without a cursor and follows the end
  cursors while a next page is announced receives, page by page, exactly the rows that the filter
  accepts, each once and in the order asked for, ascending or descending; it stops by itself.  The values of
  the order field are unique, and \<open>find\<close> accepts the filter of the client.
\<close>

theorem walk_visits_all:
  assumes "reads_view find_rows lt ok (client_filter rq) (pr_order_by rq) view" "well_ordered lt (pr_order_by rq) view"
    and "upper_text (pr_direction rq) \<in> {''ASC'', ''DESC''}" "0 < n"
    and "pr_first rq = Some (int n)" "pr_last rq = None" "pr_before rq = None" "pr_after rq = None"
    and "count_rows (client_filter rq) = Inr tot" "length view < k"
  shows "walk rt find_rows count_rows k rq = visible ok rq view"
proof -
  have "length (visible ok rq view) \<le> length view" by (simp add: visible_def ordered_def)
  with walk_from [OF assms(1-3) refl assms(5-7,4), where start = 0] assms(8-10) show ?thesis by simp
qed

subsection \<open>A view\<close>

text \<open>A view of integers with a \<open>find\<close> that reads it: what the hypotheses of the theorems look like.\<close>

definition int_less :: "pyval \<Rightarrow> pyval \<Rightarrow> bool" where
  "int_less v w = (case (v, w) of (PInt i, PInt j) \<Rightarrow> i < j | _ \<Rightarrow> False)"

fun accepts :: "pyval \<Rightarrow> pydict \<Rightarrow> bool" where
  "accepts (PDict [(k, PList ws)]) row = list_all (\<lambda>w. accepts w row) ws"
| "accepts (PDict [(k, PDict [(oper, v)])]) row =
     (if oper = ''gt'' then int_less v (row_value k row) else if oper = ''lt'' then int_less (row_value k row) v else True)"
| "accepts _ row = True"

definition number_rows :: "pydict list" where
  "number_rows = [[(''id'', PInt 1)], [(''id'', PInt 2)], [(''id'', PInt 3)], [(''id'', PInt 5)], [(''id'', PInt 8)]]"

definition find_numbers :: "pyval option \<Rightarrow> string \<Rightarrow> bool \<Rightarrow> nat \<Rightarrow> find_answer result" where
  "find_numbers w f asc n =
     Inr (Response 7 [(''numbers'', Some (take n (ordered asc (filter (\<lambda>r. case w of None \<Rightarrow> True | Some w \<Rightarrow> accepts w r) number_rows))))])"

definition count_numbers :: "pyval option \<Rightarrow> int result" where
  "count_numbers w = Inr (int (length (filter (\<lambda>r. case w of None \<Rightarrow> True | Some w \<Rightarrow> accepts w r) number_rows)))"

definition number_request :: page_request where
  "number_request = \<lparr>pr_first = Some 2, pr_after = None, pr_last = None, pr_before = None, pr_filters = None,
     pr_order_by = ''id'', pr_direction = ''desc'', pr_include_total = True\<rparr>"

lemma accepts_condition: "accepts (condition_value f c) r = holds int_less accepts f c r"
  by (cases c) (simp_all add: condition_value_def holds_def)

lemma numbers_read: "reads_view find_numbers int_less accepts client f number_rows"
proof -
  have "(case where_of (map (condition_value f) cs) of None \<Rightarrow> True | Some w \<Rightarrow> accepts w r) = (\<forall>c \<in> set cs. holds int_less accepts f c r)" for cs r
    by (auto simp: where_of_def accepts_condition list_all_iff split: list.splits)
  then show ?thesis by (simp add: reads_view_def find_numbers_def answer_rows_def del: set_append map_append)
qed

lemma number_values: "row_value ''id'' [(''id'', v)] = v"
proof -
  have "to_camel_case ''id'' = ''id''" by code_simp
  then show ?thesis by (simp add: row_value_def)
qed

lemma numbers_ordered: "well_ordered int_less ''id'' number_rows"
  by (simp add: well_ordered_def number_rows_def number_values int_less_def cursor_value_def)

lemma numbers_visible: "visible accepts number_request number_rows = rev number_rows"
proof -
  have "upper_text ''desc'' \<noteq> ''ASC''" by code_simp
  then show ?thesis by (simp add: visible_def number_request_def client_filter_def ordered_def)
qed

theorem page_is_slice_witness:
  "\<exists>p. db_paginate int_runtime find_numbers count_numbers (number_request\<lparr>pr_first := None, pr_last := Some 2, pr_before := Some (cursor_of ''id'' [(''id'', PInt 1)])\<rparr>) = Inr p
     \<and> map ed_node (pg_edges p) = [[(''id'', PInt 3)], [(''id'', PInt 2)]]
     \<and> map ed_cursor (pg_edges p) = map (cursor_of ''id'') [[(''id'', PInt 3)], [(''id'', PInt 2)]]
     \<and> pg_has_previous p \<and> pg_total p = Some 5"
proof -
  let ?rq = "number_request\<lparr>pr_first := None, pr_last := Some 2, pr_before := Some (cursor_of ''id'' [(''id'', PInt 1)])\<rparr>"
  have rows: "visible accepts ?rq number_rows = rev number_rows"
    using numbers_visible by (simp add: visible_def client_filter_def)
  have "\<exists>p. db_paginate int_runtime find_numbers count_numbers ?rq = Inr p \<and> map ed_node (pg_edges p) = [[(''id'', PInt 3)], [(''id'', PInt 2)]]
    \<and> map ed_cursor (pg_edges p) = map (cursor_of (pr_order_by ?rq)) [[(''id'', PInt 3)], [(''id'', PInt 2)]]
    \<and> (if pr_last ?rq = None then pg_has_next p = ((0 :: nat) + 2 < length (rev number_rows)) else pg_has_previous p = ((2 :: nat) < 4))
    \<and> pg_total p = (if pr_include_total ?rq then Some 5 else None)"
  proof (rule page_is_slice [where view = number_rows and lt = int_less and ok = accepts and slice = "[[(''id'', PInt 3)], [(''id'', PInt 2)]]"])
    show "reads_view find_numbers int_less accepts (client_filter ?rq) (pr_order_by ?rq) number_rows" by (rule numbers_read)
    show "well_ordered int_less (pr_order_by ?rq) number_rows" using numbers_ordered by (simp add: number_request_def)
    show "upper_text (pr_direction ?rq) \<in> {''ASC'', ''DESC''}" by (simp add: number_request_def) code_simp
    show "count_numbers (client_filter ?rq) = Inr 5" by (simp add: count_numbers_def client_filter_def number_request_def number_rows_def)
  qed (simp_all only: rows, auto simp: number_request_def number_rows_def intro!: exI [of _ 4])
  then show ?thesis by (simp add: number_request_def)
qed

theorem walk_visits_all_witness:
  "walk int_runtime find_numbers count_numbers 6 number_request
     = [[(''id'', PInt 8)], [(''id'', PInt 5)], [(''id'', PInt 3)], [(''id'', PInt 2)], [(''id'', PInt 1)]]"
proof -
  have "walk int_runtime find_numbers count_numbers 6 number_request = visible accepts number_request number_rows"
  proof (rule walk_visits_all [where n = 2 and tot = 5 and lt = int_less])
    show "reads_view find_numbers int_less accepts (client_filter number_request) (pr_order_by number_request) number_rows" by (rule numbers_read)
    show "well_ordered int_less (pr_order_by number_request) number_rows" using numbers_ordered by (simp add: number_request_def)
    show "upper_text (pr_direction number_request) \<in> {''ASC'', ''DESC''}" by (simp add: number_request_def) code_simp
    show "count_numbers (client_filter number_request) = Inr 5" by (simp add: count_numbers_def client_filter_def number_request_def number_rows_def)
  qed (simp_all add: number_request_def number_rows_def)
  then show ?thesis by (simp add: numbers_visible) (simp add: number_rows_def)
qed

end
