(* ===== verification/ApqSelection.thy ===== *)
theory ApqSelection
  imports FieldPaths
begin

section \<open>The selection of a persisted query\<close>

text \<open>
  \<open>middleware/apq_selection.py\<close>: the selection set of the operation that a request names, and the filter
  that keeps of a response the fields which the selection set asks for.  Parsing is \<open>graphql-core\<close>'s, so the
  parser is an argument; a fuel argument stands for the recursion limit.
\<close>

type_synonym parser = "string \<Rightarrow> gql_definition list option"

fun names_operation :: "string option \<Rightarrow> gql_definition \<Rightarrow> bool" where
  "names_operation name (OperationDef op n sels) = (name = None \<or> n = name)"
| "names_operation name _ = False"

fun definition_selections :: "gql_definition \<Rightarrow> selection list" where
  "definition_selections (OperationDef op n sels) = sels"
| "definition_selections _ = []"

definition extract_selection_set :: "parser \<Rightarrow> string \<Rightarrow> string option \<Rightarrow> selection list option" where
  "extract_selection_set parse text name =
     (case parse text of
        None \<Rightarrow> None
      | Some ds \<Rightarrow> map_option definition_selections (find (names_operation name) ds))"

definition extract_fragments :: "parser \<Rightarrow> string \<Rightarrow> fragments" where
  "extract_fragments parse text = (case parse text of None \<Rightarrow> [] | Some ds \<Rightarrow> fragments_of ds)"

subsection \<open>The filter\<close>

definition handle_field_selection ::
  "(selection list \<Rightarrow> pyval \<Rightarrow> pyval result) \<Rightarrow> pydict \<Rightarrow> string \<Rightarrow> string \<Rightarrow> selection list option \<Rightarrow> pydict \<Rightarrow> pydict result" where
  "handle_field_selection filt d key name sub filtered =
     (case (case map_of d key of Some v \<Rightarrow> Some v | None \<Rightarrow> map_of d name) of
        None \<Rightarrow> Inr filtered
      | Some v \<Rightarrow>
          (case sub of
             Some sels \<Rightarrow> rbind (filt sels v) (\<lambda>w. Inr (AList.update key w filtered))
           | None \<Rightarrow> Inr (AList.update key v filtered)))"

definition merge_nested :: "pyval \<Rightarrow> pydict \<Rightarrow> pydict" where
  "merge_nested v filtered =
     (case v of PDict e \<Rightarrow> foldl (\<lambda>d kv. AList.update (fst kv) (snd kv) d) filtered e | _ \<Rightarrow> filtered)"

fun select_item ::
  "(selection list \<Rightarrow> pyval \<Rightarrow> pyval result) \<Rightarrow> fragments \<Rightarrow> pydict \<Rightarrow> selection \<Rightarrow> pydict \<Rightarrow> pydict result" where
  "select_item filt fr d (Field a name args sub) filtered =
     handle_field_selection filt d (case a of Some k \<Rightarrow> k | None \<Rightarrow> name) name sub filtered"
| "select_item filt fr d (Spread n) filtered =
     (case map_of fr n of
        None \<Rightarrow> Inr filtered
      | Some (tc, sels) \<Rightarrow> rbind (filt sels (PDict d)) (\<lambda>v. Inr (merge_nested v filtered)))"
| "select_item filt fr d (Inline tc sels) filtered =
     rbind (filt sels (PDict d)) (\<lambda>v. Inr (merge_nested v filtered))"

fun select_all ::
  "(selection list \<Rightarrow> pyval \<Rightarrow> pyval result) \<Rightarrow> fragments \<Rightarrow> pydict \<Rightarrow> selection list \<Rightarrow> pydict \<Rightarrow> pydict result" where
  "select_all filt fr d [] filtered = Inr filtered"
| "select_all filt fr d (s # ss) filtered = rbind (select_item filt fr d s filtered) (select_all filt fr d ss)"

fun filter_data :: "nat \<Rightarrow> fragments \<Rightarrow> selection list \<Rightarrow> pyval \<Rightarrow> pyval result" where
  "filter_data 0 fr sels v = Inl RecursionError"
| "filter_data (Suc k) fr sels v =
     (case v of
        PList vs \<Rightarrow> rbind (map_result (filter_data k fr sels) vs) (\<lambda>ws. Inr (PList ws))
      | PDict d \<Rightarrow> rbind (select_all (filter_data k fr) fr d sels []) (\<lambda>e. Inr (PDict e))
      | _ \<Rightarrow> Inr v)"

definition filter_response :: "nat \<Rightarrow> fragments \<Rightarrow> selection list \<Rightarrow> pydict \<Rightarrow> pydict result" where
  "filter_response k fr sels resp =
     (case map_of resp ''data'' of
        None \<Rightarrow> Inr resp
      | Some v \<Rightarrow> if v = PNone then Inr resp else rbind (filter_data k fr sels v) (\<lambda>w. Inr (AList.update ''data'' w resp)))"

subsection \<open>Responses of an execution\<close>

text \<open>The fields of a selection set whose fragments are written out (\<^const>\<open>expand\<close>).\<close>

fun flat_fields :: "selection \<Rightarrow> selection list" where
  "flat_fields (Field a name args sub) = [Field a name args sub]"
| "flat_fields (Inline tc sels) = concat (map flat_fields sels)"
| "flat_fields (Spread n) = []"

abbreviation fields_in :: "selection list \<Rightarrow> selection list" where
  "fields_in sels \<equiv> concat (map flat_fields sels)"

definition add_key :: "string list \<Rightarrow> string \<Rightarrow> string list" where
  "add_key ks k = (if k \<in> set ks then ks else ks @ [k])"

definition present :: "pydict \<Rightarrow> selection list \<Rightarrow> string list" where
  "present d fs = filter (\<lambda>k. map_of d k \<noteq> None) (map field_key fs)"

text \<open>
  \<open>fits sels v\<close>: \<open>v\<close> has the shape of \<open>sels\<close>.  This is what an execution answers when no response key is
  selected twice with different sub-selections; the merged object that it answers for such a key fits
  neither of them (\<open>repeated_key_overwritten\<close>).  The keys of an object are the response keys of
  the fields that apply to it, in the order in which they are first selected; a field that does not apply
  (skipped, or of another type) does not have its name as a key; each value fits every selection set of its
  key.
\<close>

inductive fits :: "selection list \<Rightarrow> pyval \<Rightarrow> bool" where
  fits_list: "(\<And>v. v \<in> set vs \<Longrightarrow> fits sels v) \<Longrightarrow> fits sels (PList vs)"
| fits_scalar: "\<not> is_list v \<Longrightarrow> \<not> is_dict v \<Longrightarrow> fits sels v"
| fits_object: "map fst d = foldl add_key [] (present d (fields_in sels)) \<Longrightarrow>
    (\<forall>f \<in> set (fields_in sels). map_of d (field_key f) = None \<longrightarrow> map_of d (field_name_of f) = None) \<Longrightarrow>
    (\<And>f sub v. f \<in> set (fields_in sels) \<Longrightarrow> sub_selections f = Some sub \<Longrightarrow> map_of d (field_key f) = Some v \<Longrightarrow> fits sub v) \<Longrightarrow>
    fits sels (PDict d)"

inductive_cases fits_listE: "fits sels (PList vs)"
inductive_cases fits_objectE: "fits sels (PDict d)"

subsection \<open>The entries of an object in the order of their selection\<close>

definition pick :: "pydict \<Rightarrow> string list \<Rightarrow> pydict" where
  "pick d ks = map (\<lambda>k. (k, the (map_of d k))) ks"

lemma add_key_simps: "set (add_key ks k) = insert k (set ks)" "distinct ks \<Longrightarrow> distinct (add_key ks k)"
  by (auto simp: add_key_def)

lemma add_keys_set: "set (foldl add_key ks js) = set ks \<union> set js"
  by (induction js arbitrary: ks) (auto simp: add_key_simps)

lemma add_keys_distinct: "distinct ks \<Longrightarrow> distinct (foldl add_key ks js)"
  by (induction js arbitrary: ks) (auto simp: add_key_simps)

lemma add_keys_twice: "foldl add_key ks (foldl add_key is js) = foldl add_key (foldl add_key ks is) js"
proof (induction js arbitrary: "is")
  case (Cons j js)
  have "foldl add_key ks (add_key is j) = add_key (foldl add_key ks is) j"
    by (auto simp: add_key_def add_keys_set)
  then show ?case by (simp add: Cons.IH)
qed simp

lemma update_pick: "map_of d k = Some v \<Longrightarrow> AList.update k v (pick d ks) = pick d (add_key ks k)"
  by (induction ks) (auto simp: pick_def add_key_def)

lemma merge_pick:
  assumes "\<forall>k \<in> set js. map_of d k \<noteq> None"
  shows "foldl (\<lambda>d kv. AList.update (fst kv) (snd kv) d) (pick d ks) (pick d js) = pick d (foldl add_key ks js)"
  using assms
proof (induction js arbitrary: ks)
  case (Cons j js)
  then obtain v where "map_of d j = Some v" by auto
  with Cons update_pick [of d j v ks] show ?case by (simp add: pick_def)
qed (simp add: pick_def)

lemma pick_all: "distinct (map fst d) \<Longrightarrow> pick d (map fst d) = d"
proof -
  assume "distinct (map fst d)"
  then have "\<forall>p \<in> set d. (fst p, the (map_of d (fst p))) = p" by auto
  then show ?thesis by (simp add: pick_def comp_def map_idI)
qed

lemma present_known: "k \<in> set (present d fs) \<Longrightarrow> map_of d k \<noteq> None"
  by (simp add: present_def)

lemma value_size: "map_of d k = Some v \<Longrightarrow> size v < size (PDict d)"
proof -
  assume "map_of d k = Some v"
  then have "(k, v) \<in> set d" by (rule map_of_SomeD)
  then have "size_prod (\<lambda>_. 0) size (k, v) \<le> size_list (size_prod (\<lambda>_. 0) size) d"
    by (rule size_list_estimation') simp
  then show ?thesis by simp
qed

lemma element_size: "v \<in> set vs \<Longrightarrow> size v < size (PList vs)"
  by (induction vs) auto

lemma selection_size: "s \<in> set ss \<Longrightarrow> size s < size_list size ss"
  by (induction ss) auto

subsection \<open>A response that fits is kept\<close>

definition holds_fields :: "pydict \<Rightarrow> selection list \<Rightarrow> bool" where
  "holds_fields d fs \<longleftrightarrow>
     (\<forall>f \<in> set fs. (map_of d (field_key f) = None \<longrightarrow> map_of d (field_name_of f) = None)
        \<and> (\<forall>sub v. sub_selections f = Some sub \<longrightarrow> map_of d (field_key f) = Some v \<longrightarrow> fits sub v))"

lemma covers_append [simp]: "holds_fields d (fs @ gs) \<longleftrightarrow> holds_fields d fs \<and> holds_fields d gs"
  by (auto simp: holds_fields_def)

lemma fits_object_iff:
  "fits sels (PDict d) \<longleftrightarrow> map fst d = foldl add_key [] (present d (fields_in sels)) \<and> holds_fields d (fields_in sels)"
proof
  assume "fits sels (PDict d)"
  then show "map fst d = foldl add_key [] (present d (fields_in sels)) \<and> holds_fields d (fields_in sels)"
    by (rule fits_objectE) (fastforce simp: holds_fields_def)
next
  assume "map fst d = foldl add_key [] (present d (fields_in sels)) \<and> holds_fields d (fields_in sels)"
  then show "fits sels (PDict d)" unfolding holds_fields_def by (intro fits_object) blast+
qed

text \<open>What filtering an object gives: its entries in the order of their selection.\<close>

definition selected :: "pydict \<Rightarrow> string list \<Rightarrow> selection list \<Rightarrow> pydict" where
  "selected d ks fs = pick d (foldl add_key ks (present d fs))"

lemma selected_append: "selected d ks (fs @ gs) = selected d (foldl add_key ks (present d fs)) gs"
  by (simp add: selected_def present_def)

lemma merge_selected: "merge_nested (PDict (selected d [] fs)) (pick d ks) = selected d ks fs"
  using merge_pick [of "foldl add_key [] (present d fs)" d ks]
  by (auto simp: merge_nested_def selected_def add_keys_set add_keys_twice present_def)

lemma select_item_selected:
  assumes "ranked fr rank" "\<forall>m \<in> spreads s. rank m < K" "holds_fields d (flat_fields (expand fr K s))"
    and size: "size (expand fr K s) + size (PDict d) \<le> k"
    and nested: "\<And>ss v j. \<forall>m \<in> spreads_all ss. rank m < j \<Longrightarrow> fits (map (expand fr j) ss) v
          \<Longrightarrow> size_list size (map (expand fr j) ss) + size v < k \<Longrightarrow> filt ss v = Inr v"
    and object: "\<And>ss j. \<forall>m \<in> spreads_all ss. rank m < j \<Longrightarrow> holds_fields d (fields_in (map (expand fr j) ss))
          \<Longrightarrow> size_list size (map (expand fr j) ss) + size (PDict d) < k
          \<Longrightarrow> filt ss (PDict d) = Inr (PDict (selected d [] (fields_in (map (expand fr j) ss))))"
  shows "select_item filt fr d s (pick d ks) = Inr (selected d ks (flat_fields (expand fr K s)))"
proof (cases s)
  case (Field a name args sub')
  let ?key = "case a of Some k \<Rightarrow> k | None \<Rightarrow> name"
  show ?thesis
  proof (cases "map_of d ?key")
    case None
    with assms(3) Field have "map_of d name = None" by (simp add: holds_fields_def)
    with None Field show ?thesis by (simp add: handle_field_selection_def present_def selected_def)
  next
    case (Some v)
    have kept: "(case sub' of Some sels \<Rightarrow> filt sels v | None \<Rightarrow> Inr v) = Inr v"
    proof (cases sub')
      case sub: (Some sels)
      have "filt sels v = Inr v"
      proof (rule nested)
        show "\<forall>m \<in> spreads_all sels. rank m < K" using assms(2) Field sub by auto
        show "fits (map (expand fr K) sels) v" using assms(3) Field sub Some by (auto simp: holds_fields_def)
        show "size_list size (map (expand fr K) sels) + size v < k" using size Field sub value_size [OF Some] by simp
      qed
      with sub show ?thesis by simp
    qed simp
    have "select_item filt fr d s (pick d ks)
        = rbind (case sub' of Some sels \<Rightarrow> filt sels v | None \<Rightarrow> Inr v) (\<lambda>w. Inr (AList.update ?key w (pick d ks)))"
      using Some Field by (cases sub') (simp_all add: handle_field_selection_def)
    also have "\<dots> = Inr (pick d (add_key ks ?key))" using kept update_pick [OF Some] by simp
    also have "add_key ks ?key = foldl add_key ks (present d (flat_fields (expand fr K s)))" using Some Field by (simp add: present_def)
    finally show ?thesis by (simp add: selected_def)
  qed
next
  case (Inline tc sels)
  have "filt sels (PDict d) = Inr (PDict (selected d [] (fields_in (map (expand fr K) sels))))"
    using assms(2,3) size Inline by (intro object) simp_all
  then show ?thesis using Inline merge_selected by (simp add: comp_def)
next
  case (Spread n)
  show ?thesis
  proof (cases "map_of fr n")
    case None
    then have "expand fr K s = Inline None []" using Spread by (cases K) simp_all
    then show ?thesis using None Spread by (simp add: selected_def present_def)
  next
    case (Some f)
    obtain tc sels where f: "f = (tc, sels)" by (cases f)
    have ex: "expand fr K s = Inline (Some tc) (map (expand fr (rank n)) sels)"
      using expand_spread [OF assms(1) _ Some [unfolded f]] assms(2) Spread by simp
    have "filt sels (PDict d) = Inr (PDict (selected d [] (fields_in (map (expand fr (rank n)) sels))))"
    proof (rule object)
      show "\<forall>m \<in> spreads_all sels. rank m < rank n" using assms(1) Some f by (auto simp: ranked_def)
    qed (use assms(3) size ex in simp_all)
    then show ?thesis using Some f Spread ex merge_selected by (simp add: comp_def)
  qed
qed

lemma select_all_selected:
  assumes "ranked fr rank" "\<forall>m \<in> spreads_all sels. rank m < K" "holds_fields d (fields_in (map (expand fr K) sels))"
    and "size_list size (map (expand fr K) sels) + size (PDict d) \<le> k"
    and nested: "\<And>ss v j. \<forall>m \<in> spreads_all ss. rank m < j \<Longrightarrow> fits (map (expand fr j) ss) v
          \<Longrightarrow> size_list size (map (expand fr j) ss) + size v < k \<Longrightarrow> filt ss v = Inr v"
    and object: "\<And>ss j. \<forall>m \<in> spreads_all ss. rank m < j \<Longrightarrow> holds_fields d (fields_in (map (expand fr j) ss))
          \<Longrightarrow> size_list size (map (expand fr j) ss) + size (PDict d) < k
          \<Longrightarrow> filt ss (PDict d) = Inr (PDict (selected d [] (fields_in (map (expand fr j) ss))))"
  shows "select_all filt fr d sels (pick d ks) = Inr (selected d ks (fields_in (map (expand fr K) sels)))"
  using assms(2-4)
proof (induction sels arbitrary: ks)
  case (Cons s ss)
  have "select_item filt fr d s (pick d ks) = Inr (selected d ks (flat_fields (expand fr K s)))"
    by (rule select_item_selected [OF assms(1) _ _ _ nested object]) (use Cons.prems in simp_all)
  moreover have "select_all filt fr d ss (pick d ks') = Inr (selected d ks' (fields_in (map (expand fr K) ss)))" for ks'
    using Cons.prems by (intro Cons.IH) simp_all
  ultimately show ?case by (simp add: selected_append) (simp add: selected_def)
qed (simp add: selected_def present_def)

lemma filter_keeps:
  assumes "ranked fr rank"
  shows "\<forall>m \<in> spreads_all sels. rank m < K \<Longrightarrow> fits (map (expand fr K) sels) v
      \<Longrightarrow> size_list size (map (expand fr K) sels) + size v < k \<Longrightarrow> filter_data k fr sels v = Inr v"
    and "\<forall>m \<in> spreads_all sels. rank m < K \<Longrightarrow> holds_fields d (fields_in (map (expand fr K) sels))
      \<Longrightarrow> size_list size (map (expand fr K) sels) + size (PDict d) < k
      \<Longrightarrow> filter_data k fr sels (PDict d) = Inr (PDict (selected d [] (fields_in (map (expand fr K) sels))))"
proof (induction k arbitrary: sels K v d)
  case (Suc k)
  have object: "filter_data (Suc k) fr sels (PDict d) = Inr (PDict (selected d [] (fields_in (map (expand fr K) sels))))"
    if "\<forall>m \<in> spreads_all sels. rank m < K" "holds_fields d (fields_in (map (expand fr K) sels))"
      "size_list size (map (expand fr K) sels) + size (PDict d) < Suc k" for sels K d
  proof -
    have "select_all (filter_data k fr) fr d sels (pick d []) = Inr (selected d [] (fields_in (map (expand fr K) sels)))"
      by (rule select_all_selected [OF assms that(1,2), where k = k]) (use that(3) in simp, (rule Suc.IH; assumption)+)
    then show ?thesis by (simp add: pick_def)
  qed
  { case 1
    show ?case
    proof (cases v)
      case (PList vs)
      have "filter_data k fr sels w = Inr w" if "w \<in> set vs" for w
      proof (rule Suc.IH(1) [OF 1(1)])
        show "fits (map (expand fr K) sels) w" using 1(2) PList that by (auto elim: fits_listE)
        show "size_list size (map (expand fr K) sels) + size w < k" using 1(3) PList element_size [OF that] by simp
      qed
      then have "map_result (filter_data k fr sels) vs = Inr vs"
        using map_result_Inr_map [of vs "filter_data k fr sels" id] by simp
      with PList show ?thesis by simp
    next
      case (PDict d)
      have d: "map fst d = foldl add_key [] (present d (fields_in (map (expand fr K) sels)))" "holds_fields d (fields_in (map (expand fr K) sels))"
        using 1(2) PDict fits_object_iff by blast+
      have "distinct (map fst d)" using d(1) add_keys_distinct [of "[]"] by simp
      then have "selected d [] (fields_in (map (expand fr K) sels)) = d" using pick_all [of d] d(1) unfolding selected_def by metis
      with object [OF 1(1) d(2)] 1(3) PDict show ?thesis by simp
    qed simp_all }
  { case 2 then show ?case by (rule object) }
qed simp_all

end
