(* ===== verification/ApqStore.thy ===== *)
theory ApqStore
  imports ApqSelection Authorization
begin

section \<open>Stores of persisted queries and responses\<close>

text \<open>
  \<open>storage/backends\<close> and \<open>storage/apq_store.py\<close>: the in-memory and the PostgreSQL backend of persisted
  queries and cached responses, and the keys of \<open>middleware/apq_caching.py\<close>.  The digest is
  \<open>sha256(...).hexdigest()\<close>; it, the answer of the JSONB column, and whether the database accepts a tenant as
  a \<open>varchar\<close> are arguments.
\<close>

subsection \<open>Who asks\<close>

definition get_or_none :: "pydict \<Rightarrow> string \<Rightarrow> pyval" where
  "get_or_none d k = (case map_of d k of Some v \<Rightarrow> v | None \<Rightarrow> PNone)"

definition extract_tenant_id :: "pydict option \<Rightarrow> pyval" where
  "extract_tenant_id context =
     (case context of
        None \<Rightarrow> PNone
      | Some c \<Rightarrow>
          (let from_user = (case map_of c ''user'' of
                 Some (PDict user) \<Rightarrow>
                   (case (case map_of user ''metadata'' of Some (PDict md) \<Rightarrow> map_of md ''tenant_id'' | _ \<Rightarrow> None) of
                      Some t \<Rightarrow> Some t
                    | None \<Rightarrow> map_of user ''tenant_id'')
               | _ \<Rightarrow> None)
           in case from_user of Some t \<Rightarrow> t | None \<Rightarrow> get_or_none c ''tenant_id''))"

definition USER_ID_KEYS :: "string list" where "USER_ID_KEYS = [''user_id'', ''id'', ''sub'']"

definition user_value :: "pyval \<Rightarrow> string \<Rightarrow> pyval" where
  "user_value user key =
     (case user of PDict d \<Rightarrow> get_or_none d key | _ \<Rightarrow> (case obj_attr user key of Some v \<Rightarrow> v | None \<Rightarrow> PNone))"

text \<open>The text of an id: of a text, a number or a UUID, when it is not empty.\<close>

definition id_text :: "pyval \<Rightarrow> string option" where
  "id_text v = (if v = PNone \<or> is_bool v \<or> is_dict v \<or> is_list v \<or> is_tuple v \<or> py_str v = [] then None else Some (py_str v))"

fun first_id :: "pyval \<Rightarrow> string list \<Rightarrow> string option" where
  "first_id user [] = None"
| "first_id user (k # ks) = (case id_text (user_value user k) of Some t \<Rightarrow> Some t | None \<Rightarrow> first_id user ks)"

text \<open>Whether a response may be cached, and the user it belongs to.\<close>

definition response_cache_user_id :: "pydict option \<Rightarrow> bool \<times> string option" where
  "response_cache_user_id context =
     (case context of
        None \<Rightarrow> (True, None)
      | Some c \<Rightarrow>
          if c = [] then (True, None)
          else if get_or_none c ''user'' = PNone then (\<not> truthy (get_or_none c ''authenticated''), None)
          else (case first_id (get_or_none c ''user'') USER_ID_KEYS of Some t \<Rightarrow> (True, Some t) | None \<Rightarrow> (False, None)))"

subsection \<open>Keys\<close>

text \<open>\<open>json.dumps(v, sort_keys=True, separators=(",", ":"))\<close>.\<close>

function (sequential) json_compact :: "pyval \<Rightarrow> string result" where
  "json_compact (PList vs) = rbind (map_result json_compact vs) (\<lambda>ss. Inr (''['' @ join_str '','' ss @ '']''))"
| "json_compact (PTuple vs) = rbind (map_result json_compact vs) (\<lambda>ss. Inr (''['' @ join_str '','' ss @ '']''))"
| "json_compact (PDict d) =
     rbind (map_result (\<lambda>p. rbind (json_compact (snd p)) (\<lambda>s. Inr (json_str (fst p) @ '':'' @ s))) d)
       (\<lambda>ss. Inr (''{'' @ join_str '','' ss @ ''}''))"
| "json_compact v = json_dumps v"
  by pat_completeness auto
termination
proof (relation "measure size", goal_cases)
  case (4 d p)
  then have "size p \<le> size_list size d" for size :: "string \<times> pyval \<Rightarrow> nat"
    by (simp add: size_list_estimation')
  from this [of "size_prod (\<lambda>_. 0) size"] show ?case
    by (cases p) simp
qed (auto simp: size_list_estimation' less_Suc_eq_le)

definition variables_text :: "pydict option \<Rightarrow> string result" where
  "variables_text variables = json_compact (sorted_value (PDict (case variables of Some d \<Rightarrow> d | None \<Rightarrow> [])))"

text \<open>The text that is digested; without a user and without variables the hash is the key itself.\<close>

definition response_key_text :: "string \<Rightarrow> pydict option \<Rightarrow> string option \<Rightarrow> string option result" where
  "response_key_text query_hash variables user_id =
     (case user_id of
        Some u \<Rightarrow>
          rbind (json_compact (sorted_value (PList [PStr query_hash, PDict (case variables of Some d \<Rightarrow> d | None \<Rightarrow> []), PStr u])))
            (\<lambda>s. Inr (Some (''user:'' @ s)))
      | None \<Rightarrow>
          if variables = None \<or> variables = Some [] then Inr None
          else rbind (variables_text variables) (\<lambda>s. Inr (Some (query_hash @ '':'' @ s))))"

definition compute_response_cache_key ::
  "(string \<Rightarrow> string) \<Rightarrow> string \<Rightarrow> pydict option \<Rightarrow> string option \<Rightarrow> string result" where
  "compute_response_cache_key sha query_hash variables user_id =
     rbind (response_key_text query_hash variables user_id)
       (\<lambda>text. Inr (case text of None \<Rightarrow> query_hash | Some s \<Rightarrow> sha s))"

definition compute_query_hash :: "(string \<Rightarrow> string) \<Rightarrow> string \<Rightarrow> string" where "compute_query_hash sha query = sha query"

definition check_query_hash :: "(string \<Rightarrow> string) \<Rightarrow> string \<Rightarrow> string \<Rightarrow> unit result" where
  "check_query_hash sha h query = (if h = compute_query_hash sha query then Inr () else Inl ValueError)"

subsection \<open>The interface of a backend\<close>

record 'b apq_backend =
  bk_get_query :: "string \<Rightarrow> 'b \<Rightarrow> string option \<times> 'b"
  bk_store_query :: "string \<Rightarrow> string \<Rightarrow> 'b \<Rightarrow> unit result \<times> 'b"
  bk_get_response :: "rat \<Rightarrow> string \<Rightarrow> pydict option \<Rightarrow> 'b \<Rightarrow> pydict option \<times> 'b"
  bk_store_response :: "rat \<Rightarrow> string \<Rightarrow> pydict \<Rightarrow> pydict option \<Rightarrow> 'b \<Rightarrow> 'b"

text \<open>\<open>register_queries\<close> of the base class: each text once, under its digest.\<close>

fun register_all :: "'b apq_backend \<Rightarrow> (string \<Rightarrow> string) \<Rightarrow> string list \<Rightarrow> (string \<times> string) list \<Rightarrow> 'b \<Rightarrow> (string \<times> string) list result \<times> 'b" where
  "register_all bk sha [] done_so_far b = (Inr done_so_far, b)"
| "register_all bk sha (q # qs) done_so_far b =
     (if map_of done_so_far (compute_query_hash sha q) \<noteq> None then register_all bk sha qs done_so_far b
      else case bk_store_query bk (compute_query_hash sha q) q b of
             (Inl e, b') \<Rightarrow> (Inl e, b')
           | (Inr _, b') \<Rightarrow> register_all bk sha qs (done_so_far @ [(compute_query_hash sha q, q)]) b')"

definition register_queries :: "'b apq_backend \<Rightarrow> (string \<Rightarrow> string) \<Rightarrow> string list \<Rightarrow> 'b \<Rightarrow> (string \<times> string) list result \<times> 'b" where
  "register_queries bk sha qs b = register_all bk sha qs [] b"

subsection \<open>The backend in memory\<close>

record apq_memory =
  am_queries :: "(string \<times> string) list"
  am_responses :: "(string \<times> pydict) list"
  am_stored_at :: "(string \<times> rat) list"
  am_ttl :: "int option"

definition new_apq_memory :: "int option \<Rightarrow> apq_memory" where
  "new_apq_memory ttl = \<lparr>am_queries = [], am_responses = [], am_stored_at = [], am_ttl = (if ttl = Some 0 then None else ttl)\<rparr>"

definition memory_cache_key :: "string \<Rightarrow> pydict option \<Rightarrow> string" where
  "memory_cache_key h context =
     (let t = extract_tenant_id context in if truthy t then py_str t @ '':'' @ h else h)"

definition memory_get_query :: "string \<Rightarrow> apq_memory \<Rightarrow> string option" where
  "memory_get_query h m = (if h = [] then None else map_of (am_queries m) h)"

definition memory_store_query :: "(string \<Rightarrow> string) \<Rightarrow> string \<Rightarrow> string \<Rightarrow> apq_memory \<Rightarrow> unit result \<times> apq_memory" where
  "memory_store_query sha h query m =
     (case check_query_hash sha h query of
        Inl e \<Rightarrow> (Inl e, m)
      | Inr _ \<Rightarrow> (Inr (), m\<lparr>am_queries := AList.update h query (am_queries m)\<rparr>))"

definition drop_expired :: "rat \<Rightarrow> string \<Rightarrow> apq_memory \<Rightarrow> apq_memory" where
  "drop_expired now k m =
     (case am_ttl m of
        None \<Rightarrow> m
      | Some ttl \<Rightarrow>
          if map_of (am_responses m) k \<noteq> None
             \<and> now - (case map_of (am_stored_at m) k of Some t \<Rightarrow> t | None \<Rightarrow> 0) \<ge> of_int ttl
          then m\<lparr>am_responses := AList.delete k (am_responses m), am_stored_at := AList.delete k (am_stored_at m)\<rparr>
          else m)"

definition memory_get_response :: "rat \<Rightarrow> string \<Rightarrow> pydict option \<Rightarrow> apq_memory \<Rightarrow> pydict option \<times> apq_memory" where
  "memory_get_response now h context m =
     (if h = [] then (None, m)
      else let k = memory_cache_key h context; m' = drop_expired now k m in (map_of (am_responses m') k, m'))"

definition memory_store_response :: "rat \<Rightarrow> string \<Rightarrow> pydict \<Rightarrow> pydict option \<Rightarrow> apq_memory \<Rightarrow> apq_memory" where
  "memory_store_response now h response context m =
     (let k = memory_cache_key h context
      in m\<lparr>am_responses := AList.update k response (am_responses m), am_stored_at := AList.update k now (am_stored_at m)\<rparr>)"

definition memory_clear_storage :: "apq_memory \<Rightarrow> apq_memory" where
  "memory_clear_storage m = m\<lparr>am_queries := [], am_responses := [], am_stored_at := []\<rparr>"

definition memory_backend :: "(string \<Rightarrow> string) \<Rightarrow> apq_memory apq_backend" where
  "memory_backend sha =
     \<lparr>bk_get_query = (\<lambda>h m. (memory_get_query h m, m)), bk_store_query = memory_store_query sha,
      bk_get_response = memory_get_response, bk_store_response = memory_store_response\<rparr>"

text \<open>\<open>apq_store.store_persisted_query\<close> refuses blank texts before it stores in the memory of the process.\<close>

definition store_persisted_query :: "(string \<Rightarrow> string) \<Rightarrow> string \<Rightarrow> string \<Rightarrow> apq_memory \<Rightarrow> unit result \<times> apq_memory" where
  "store_persisted_query sha h query m =
     (if strip h = [] \<or> strip query = [] then (Inl ValueError, m) else memory_store_query sha h query m)"

subsection \<open>The backend in PostgreSQL\<close>

text \<open>
  A row of the table of responses has the key \<open>(hash, COALESCE(tenant_id, ''))\<close> and holds the tenant, the
  response and the time of its last write.  A database that does not answer makes a read a miss and a write
  a message in the log.
\<close>

record apq_postgres =
  ap_up :: bool
  ap_queries :: "(string \<times> string) list"
  ap_responses :: "((string \<times> string) \<times> (string option \<times> pydict \<times> rat)) list"
  ap_texts :: "(string \<times> string) list"
  ap_ttl :: "int option"

definition new_apq_postgres :: "bool \<Rightarrow> int option \<Rightarrow> apq_postgres" where
  "new_apq_postgres up ttl = \<lparr>ap_up = up, ap_queries = [], ap_responses = [], ap_texts = [], ap_ttl = (if ttl = Some 0 then None else ttl)\<rparr>"

definition postgres_get_query :: "string \<Rightarrow> apq_postgres \<Rightarrow> string option \<times> apq_postgres" where
  "postgres_get_query h b =
     (if h = [] then (None, b)
      else case map_of (ap_texts b) h of
             Some q \<Rightarrow> (Some q, b)
           | None \<Rightarrow>
               (case (if ap_up b then map_of (ap_queries b) h else None) of
                  Some q \<Rightarrow> (Some q, b\<lparr>ap_texts := AList.update h q (ap_texts b)\<rparr>)
                | None \<Rightarrow> (None, b)))"

definition postgres_store_query :: "(string \<Rightarrow> string) \<Rightarrow> string \<Rightarrow> string \<Rightarrow> apq_postgres \<Rightarrow> unit result \<times> apq_postgres" where
  "postgres_store_query sha h query b =
     (case check_query_hash sha h query of
        Inl e \<Rightarrow> (Inl e, b)
      | Inr _ \<Rightarrow>
          (Inr (), if ap_up b then b\<lparr>ap_queries := AList.update h query (ap_queries b), ap_texts := AList.update h query (ap_texts b)\<rparr> else b))"

definition postgres_register_queries :: "(string \<Rightarrow> string) \<Rightarrow> string list \<Rightarrow> apq_postgres \<Rightarrow> (string \<times> string) list result \<times> apq_postgres" where
  "postgres_register_queries sha qs b =
     (let result = foldl (\<lambda>d q. AList.update (compute_query_hash sha q) q d) [] qs;
          put = foldl (\<lambda>d kv. AList.update (fst kv) (snd kv) d)
      in if result = [] then (Inr result, b)
         else if \<not> ap_up b then (Inl DatabaseError, b)
         else (Inr result, b\<lparr>ap_queries := put (ap_queries b) result, ap_texts := put (ap_texts b) result\<rparr>))"

text \<open>The tenant as a parameter: nothing when the database refuses it.\<close>

definition tenant_parameter :: "(pyval \<Rightarrow> bool) \<Rightarrow> pyval \<Rightarrow> string option option" where
  "tenant_parameter varchar t = (if t = PNone then Some None else if varchar t then Some (Some (py_str t)) else None)"

definition live_row :: "int option \<Rightarrow> rat \<Rightarrow> rat \<Rightarrow> bool" where
  "live_row ttl now updated_at = (case ttl of None \<Rightarrow> True | Some n \<Rightarrow> updated_at > now - of_int n)"

definition response_row :: "(pyval \<Rightarrow> bool) \<Rightarrow> rat \<Rightarrow> string \<Rightarrow> pydict option \<Rightarrow> apq_postgres \<Rightarrow> ((string \<times> string) \<times> string option \<times> pydict \<times> rat) option" where
  "response_row varchar now h context b =
     (let t = extract_tenant_id context
      in if truthy t
         then case tenant_parameter varchar t of
                Some tenant \<Rightarrow>
                  find (\<lambda>(k, tn, r, updated_at). fst k = h \<and> tn = tenant \<and> tn \<noteq> None \<and> live_row (ap_ttl b) now updated_at) (ap_responses b)
              | None \<Rightarrow> None
         else find (\<lambda>(k, tn, r, updated_at). fst k = h \<and> tn = None \<and> live_row (ap_ttl b) now updated_at) (ap_responses b))"

definition postgres_get_response :: "(pyval \<Rightarrow> bool) \<Rightarrow> rat \<Rightarrow> string \<Rightarrow> pydict option \<Rightarrow> apq_postgres \<Rightarrow> pydict option \<times> apq_postgres" where
  "postgres_get_response varchar now h context b =
     (if h = [] \<or> \<not> ap_up b then (None, b)
      else (map_option (\<lambda>(k, tn, r, updated_at). r) (response_row varchar now h context b), b))"

definition postgres_store_response ::
  "(pyval \<Rightarrow> bool) \<Rightarrow> (pydict \<Rightarrow> pydict option) \<Rightarrow> rat \<Rightarrow> string \<Rightarrow> pydict \<Rightarrow> pydict option \<Rightarrow> apq_postgres \<Rightarrow> apq_postgres" where
  "postgres_store_response varchar column now h response context b =
     (case (tenant_parameter varchar (extract_tenant_id context), column response) of
        (Some tenant, Some value) \<Rightarrow>
          (let k = (h, case tenant of Some t \<Rightarrow> t | None \<Rightarrow> [])
           in if \<not> ap_up b then b
              else b\<lparr>ap_responses := (case map_of (ap_responses b) k of
                       Some row \<Rightarrow> AList.update k (fst row, value, now) (ap_responses b)
                     | None \<Rightarrow> AList.update k (tenant, value, now) (ap_responses b))\<rparr>)
      | _ \<Rightarrow> b)"

definition postgres_backend :: "(string \<Rightarrow> string) \<Rightarrow> (pyval \<Rightarrow> bool) \<Rightarrow> (pydict \<Rightarrow> pydict option) \<Rightarrow> apq_postgres apq_backend" where
  "postgres_backend sha varchar column =
     \<lparr>bk_get_query = postgres_get_query, bk_store_query = postgres_store_query sha,
      bk_get_response = postgres_get_response varchar, bk_store_response = postgres_store_response varchar column\<rparr>"

end
