(* ===== verification/ApqRequest.thy ===== *)
theory ApqRequest
  imports ApqStore
begin

section \<open>Requests for persisted queries\<close>

text \<open>
  \<open>fastapi/routers.py\<close> (\<open>GraphQLRequest\<close>, \<open>_execute_graphql_request\<close> up to the execution, \<open>graphql_endpoint\<close>)
  and \<open>middleware/apq_caching.py\<close>: how a request is accepted, answered from the cache, or turned into a
  query to run, and how the response of that query is stored.  The execution, the enforcement of the
  authorizer (\<open>Authorization\<close>) and the gates of fields (\<open>FieldAuth\<close>) are arguments.
\<close>

datatype apq_mode = Optional | Required | Disabled

definition allows_arbitrary_queries :: "apq_mode \<Rightarrow> bool" where "allows_arbitrary_queries m = (m \<noteq> Required)"
definition processes_apq :: "apq_mode \<Rightarrow> bool" where "processes_apq m = (m \<noteq> Disabled)"

record apq_config =
  aq_mode :: apq_mode
  aq_cache_responses :: bool
  aq_auth_enabled :: bool
  aq_introspection_allowed :: bool

record gql_request =
  gq_query :: "string option"
  gq_variables :: "pydict option"
  gq_operation :: "string option"
  gq_extensions :: "pydict option"

definition validate_extensions :: "pydict option \<Rightarrow> pydict option result" where
  "validate_extensions ext =
     (case ext of
        None \<Rightarrow> Inr None
      | Some e \<Rightarrow>
          (case map_of e ''persistedQuery'' of
             None \<Rightarrow> Inr ext
           | Some (PDict pq) \<Rightarrow>
               (case (map_of pq ''version'', map_of pq ''sha256Hash'') of
                  (None, _) \<Rightarrow> Inl ValueError
                | (_, None) \<Rightarrow> Inl ValueError
                | (Some version, Some h) \<Rightarrow>
                    if version \<notin> {PInt 1, PFloat ''1.0'', PBool True} then Inl ValueError
                    else if \<not> is_str h \<or> h = PStr [] then Inl ValueError
                    else Inr ext)
           | Some _ \<Rightarrow> Inl ValueError))"

definition persisted_query :: "gql_request \<Rightarrow> pyval option" where
  "persisted_query rq = (case gq_extensions rq of None \<Rightarrow> None | Some e \<Rightarrow> map_of e ''persistedQuery'')"

definition is_apq_request :: "gql_request \<Rightarrow> bool" where "is_apq_request rq = (persisted_query rq \<noteq> None)"

definition get_apq_hash :: "gql_request \<Rightarrow> string option" where
  "get_apq_hash rq =
     (case persisted_query rq of
        Some (PDict pq) \<Rightarrow> (case map_of pq ''sha256Hash'' of Some (PStr h) \<Rightarrow> Some h | _ \<Rightarrow> None)
      | _ \<Rightarrow> None)"

definition request_text :: "gql_request \<Rightarrow> string option" where
  "request_text rq = (case gq_query rq of Some q \<Rightarrow> if q = [] then None else Some q | None \<Rightarrow> None)"

subsection \<open>Cached responses\<close>

record 'b apq_env =
  ae_backend :: "'b apq_backend"
  ae_sha :: "string \<Rightarrow> string"
  ae_parse :: parser
  ae_fuel :: nat

text \<open>Every exception of the lookup is caught: it is a miss.\<close>

definition handle_apq_request_with_cache ::
  "'b apq_env \<Rightarrow> apq_config \<Rightarrow> rat \<Rightarrow> gql_request \<Rightarrow> pydict option \<Rightarrow> 'b \<Rightarrow> pydict option \<times> 'b" where
  "handle_apq_request_with_cache ae cfg now rq context b =
     (case (if aq_cache_responses cfg then get_apq_hash rq else None) of
        None \<Rightarrow> (None, b)
      | Some h \<Rightarrow>
          (let (cacheable, user) = response_cache_user_id context in
           if h = [] \<or> \<not> cacheable then (None, b)
           else case compute_response_cache_key (ae_sha ae) h (gq_variables rq) user of
             Inl e \<Rightarrow> (None, b)
           | Inr key \<Rightarrow>
               (case bk_get_response (ae_backend ae) now key context b of
                  (None, b1) \<Rightarrow> (None, b1)
                | (Some cached, b1) \<Rightarrow>
                    if cached = [] then (None, b1)
                    else (case bk_get_query (ae_backend ae) h b1 of
                       (query_text, b2) \<Rightarrow>
                         (case (case query_text of
                                  None \<Rightarrow> None
                                | Some q \<Rightarrow> if q = [] then None else extract_selection_set (ae_parse ae) q (gq_operation rq)) of
                            None \<Rightarrow> (Some cached, b2)
                          | Some sels \<Rightarrow>
                              (case filter_response (ae_fuel ae) (extract_fragments (ae_parse ae) (the query_text)) sels cached of
                                 Inl e \<Rightarrow> (None, b2)
                               | Inr r \<Rightarrow> (Some r, b2)))))))"

definition response_to_store :: "'b apq_env \<Rightarrow> string \<Rightarrow> string option \<Rightarrow> pydict \<Rightarrow> pydict result" where
  "response_to_store ae query_text operation response =
     (case (if query_text = [] then None else extract_selection_set (ae_parse ae) query_text operation) of
        None \<Rightarrow> Inr response
      | Some sels \<Rightarrow> filter_response (ae_fuel ae) (extract_fragments (ae_parse ae) query_text) sels response)"

definition is_cacheable_response :: "pydict \<Rightarrow> bool" where
  "is_cacheable_response response = (map_of response ''errors'' = None \<and> map_of response ''data'' \<noteq> None)"

definition store_response_in_cache ::
  "'b apq_env \<Rightarrow> apq_config \<Rightarrow> rat \<Rightarrow> string \<Rightarrow> pydict \<Rightarrow> pydict option \<Rightarrow> pydict option \<Rightarrow> string \<Rightarrow> string option \<Rightarrow> 'b \<Rightarrow> 'b" where
  "store_response_in_cache ae cfg now h response variables context query_text operation b =
     (if \<not> aq_cache_responses cfg \<or> \<not> is_cacheable_response response then b
      else let (cacheable, user) = response_cache_user_id context in
        if \<not> cacheable then b
        else case rbind (response_to_store ae query_text operation response)
               (\<lambda>filtered. rbind (compute_response_cache_key (ae_sha ae) h variables user) (\<lambda>key. Inr (key, filtered))) of
          Inl e \<Rightarrow> b
        | Inr (key, filtered) \<Rightarrow> bk_store_response (ae_backend ae) now key filtered context b)"

text \<open>\<open>get_operation_ast\<close>: the operation of the given name, or the only one.\<close>

fun document_operations :: "gql_definition list \<Rightarrow> (operation_type \<times> string option) list" where
  "document_operations [] = []"
| "document_operations (OperationDef op n sels # ds) = (op, n) # document_operations ds"
| "document_operations (d # ds) = document_operations ds"

definition get_operation :: "gql_definition list \<Rightarrow> string option \<Rightarrow> operation_type option" where
  "get_operation ds name =
     (case name of
        None \<Rightarrow> (case document_operations ds of [(op, n)] \<Rightarrow> Some op | _ \<Rightarrow> None)
      | Some _ \<Rightarrow> map_option fst (find (\<lambda>(op, n). n = name) (document_operations ds)))"

definition is_query_operation :: "parser \<Rightarrow> string \<Rightarrow> string option \<Rightarrow> bool" where
  "is_query_operation parse query_text operation =
     (case parse query_text of None \<Rightarrow> False | Some ds \<Rightarrow> get_operation ds operation = Some QueryOp)"

text \<open>What the route returned: a dictionary, or a response with a status, a media type and a body, which may be JSON.\<close>

datatype route_result = Answered pydict | HttpResponse nat bool "pyval option"

definition response_object :: "route_result \<Rightarrow> pydict option" where
  "response_object res =
     (case res of
        Answered d \<Rightarrow> Some d
      | HttpResponse status json body \<Rightarrow>
          if status \<noteq> 200 \<or> \<not> json then None else (case body of Some (PDict d) \<Rightarrow> Some d | _ \<Rightarrow> None))"

definition store_executed_response ::
  "'b apq_env \<Rightarrow> apq_config \<Rightarrow> rat \<Rightarrow> route_result \<Rightarrow> string \<Rightarrow> string \<Rightarrow> pydict option \<Rightarrow> pydict option \<Rightarrow> string option \<Rightarrow> 'b \<Rightarrow> 'b" where
  "store_executed_response ae cfg now res h query_text variables context operation b =
     (if \<not> is_query_operation (ae_parse ae) query_text operation then b
      else case response_object res of
        None \<Rightarrow> b
      | Some d \<Rightarrow> store_response_in_cache ae cfg now h (filter (\<lambda>(k, v). k \<noteq> ''extensions'') d) variables context query_text operation b)"

subsection \<open>The route\<close>

text \<open>The operation the authorizer is asked about: the type and the first root field of the first operation.\<close>

fun first_field :: "selection list \<Rightarrow> string" where
  "first_field [] = []"
| "first_field (Field a name args sub # ss) = name"
| "first_field (s # ss) = first_field ss"

fun first_operation :: "gql_definition list \<Rightarrow> operation_type \<times> string" where
  "first_operation [] = (QueryOp, [])"
| "first_operation (OperationDef op n sels # ds) = (op, first_field sels)"
| "first_operation (d # ds) = first_operation ds"

definition derive_operation_info :: "parser \<Rightarrow> string option \<Rightarrow> operation_type \<times> string" where
  "derive_operation_info parse text =
     (case text of
        None \<Rightarrow> (QueryOp, [])
      | Some q \<Rightarrow> if q = [] then (QueryOp, []) else (case parse q of None \<Rightarrow> (QueryOp, []) | Some ds \<Rightarrow> first_operation ds))"

record gates =
  gt_authorizer :: "(operation_type \<times> string \<Rightarrow> pydict option \<Rightarrow> pydict \<Rightarrow> enforcement) option"
  gt_fields :: "string \<Rightarrow> pydict option \<Rightarrow> pydict \<Rightarrow> graphql_failure + unit"

datatype apq_refusal = ArbitraryQueryNotAllowed | PersistedQueryNotFound | ShaMismatch | NotInList

datatype apq_outcome =
  Unauthenticated
| Refused apq_refusal
| Raised py_error
| Forbidden graphql_failure
| Served pydict
| Run "string option" "(string \<times> string) option"

definition must_authenticate :: "apq_config \<Rightarrow> gql_request \<Rightarrow> pydict option \<Rightarrow> bool" where
  "must_authenticate cfg rq context =
     (aq_auth_enabled cfg \<and> \<not> truthy (get_or_none (case context of Some c \<Rightarrow> c | None \<Rightarrow> []) ''authenticated'')
      \<and> \<not> ((case request_text rq of Some q \<Rightarrow> contains_str ''__schema'' q | None \<Rightarrow> False) \<and> aq_introspection_allowed cfg))"

text \<open>The text of a hash: of the backend, or of the store of the process.\<close>

definition known_text :: "'b apq_env \<Rightarrow> string \<Rightarrow> apq_memory \<times> 'b \<Rightarrow> string option \<times> apq_memory \<times> 'b" where
  "known_text ae h st =
     (case bk_get_query (ae_backend ae) h (snd st) of
        (q, b) \<Rightarrow> (if q = None \<or> q = Some [] then memory_get_query h (fst st) else q, fst st, b))"

text \<open>
  Whether a cached response is served: the authorizer is asked, a decision that filters rows sends the
  request on to the execution, and the gates of the fields are checked when the text is known.
\<close>

definition check_cached :: "'b apq_env \<Rightarrow> gates \<Rightarrow> string \<Rightarrow> gql_request \<Rightarrow> pydict option \<Rightarrow> 'b \<Rightarrow> graphql_failure + bool" where
  "check_cached ae gt h rq context b =
     (let text = fst (bk_get_query (ae_backend ae) h b);
          variables = (case gq_variables rq of Some d \<Rightarrow> d | None \<Rightarrow> []);
          fields_ok = (case text of None \<Rightarrow> Inr True
                       | Some q \<Rightarrow> if q = [] then Inr True else (case gt_fields gt q context variables of Inl e \<Rightarrow> Inl e | Inr _ \<Rightarrow> Inr True))
      in case gt_authorizer gt of
           None \<Rightarrow> fields_ok
         | Some ask \<Rightarrow>
             (case ask (derive_operation_info (ae_parse ae) text) context variables of
                Inl e \<Rightarrow> Inl e
              | Inr d \<Rightarrow> if dc_filters d \<noteq> None \<and> dc_filters d \<noteq> Some [] then Inr False else fields_ok))"

definition cache_target :: "apq_config \<Rightarrow> string \<Rightarrow> string \<Rightarrow> (string \<times> string) option" where
  "cache_target cfg h q = (if aq_cache_responses cfg then Some (h, q) else None)"

definition run_known :: "'b apq_env \<Rightarrow> apq_config \<Rightarrow> apq_refusal \<Rightarrow> string \<Rightarrow> apq_memory \<times> 'b \<Rightarrow> apq_outcome \<times> apq_memory \<times> 'b" where
  "run_known ae cfg refusal h st =
     (case known_text ae h st of
        (q, st') \<Rightarrow> (case q of
             None \<Rightarrow> (Refused refusal, st')
           | Some q \<Rightarrow> if q = [] then (Refused refusal, st') else (Run (Some q) (cache_target cfg h q), st')))"

definition register_and_run :: "'b apq_env \<Rightarrow> apq_config \<Rightarrow> string \<Rightarrow> string \<Rightarrow> apq_memory \<times> 'b \<Rightarrow> apq_outcome \<times> apq_memory \<times> 'b" where
  "register_and_run ae cfg h q st =
     (case store_persisted_query (ae_sha ae) h q (fst st) of
        (Inl e, g) \<Rightarrow> (Raised e, g, snd st)
      | (Inr _, g) \<Rightarrow>
          (case bk_store_query (ae_backend ae) h q (snd st) of
             (Inl e, b) \<Rightarrow> (Raised e, g, b)
           | (Inr _, b) \<Rightarrow> (Run (Some q) (cache_target cfg h q), g, b)))"

definition hash_only :: "'b apq_env \<Rightarrow> apq_config \<Rightarrow> gates \<Rightarrow> rat \<Rightarrow> string \<Rightarrow> gql_request \<Rightarrow> pydict option \<Rightarrow> apq_memory \<times> 'b \<Rightarrow> apq_outcome \<times> apq_memory \<times> 'b" where
  "hash_only ae cfg gt now h rq context st =
     (case handle_apq_request_with_cache ae cfg now rq context (snd st) of
        (cached, b) \<Rightarrow>
          (case cached of
             None \<Rightarrow> run_known ae cfg PersistedQueryNotFound h (fst st, b)
           | Some r \<Rightarrow>
               if r = [] then run_known ae cfg PersistedQueryNotFound h (fst st, b)
               else (case check_cached ae gt h rq context b of
                       Inl e \<Rightarrow> (Forbidden e, fst st, b)
                     | Inr serve \<Rightarrow> if serve then (Served r, fst st, b) else run_known ae cfg PersistedQueryNotFound h (fst st, b))))"

definition accept_request ::
  "'b apq_env \<Rightarrow> apq_config \<Rightarrow> gates \<Rightarrow> rat \<Rightarrow> gql_request \<Rightarrow> pydict option \<Rightarrow> apq_memory \<times> 'b \<Rightarrow> apq_outcome \<times> apq_memory \<times> 'b" where
  "accept_request ae cfg gt now rq context st =
     (if must_authenticate cfg rq context then (Unauthenticated, st)
      else if \<not> allows_arbitrary_queries (aq_mode cfg) \<and> \<not> is_apq_request rq then (Refused ArbitraryQueryNotAllowed, st)
      else if is_apq_request rq \<and> processes_apq (aq_mode cfg)
      then case get_apq_hash rq of
             None \<Rightarrow> (Refused PersistedQueryNotFound, st)
           | Some h \<Rightarrow>
               if strip h = [] then (Refused PersistedQueryNotFound, st)
               else (case request_text rq of
                       Some q \<Rightarrow>
                         if compute_query_hash (ae_sha ae) q \<noteq> h then (Refused ShaMismatch, st)
                         else if \<not> allows_arbitrary_queries (aq_mode cfg) then run_known ae cfg NotInList h st
                         else register_and_run ae cfg h q st
                     | None \<Rightarrow> hash_only ae cfg gt now h rq context st)
      else (Run (gq_query rq) None, st))"

text \<open>The endpoint: a request that runs answers what the execution answers, and that response is stored.\<close>

definition graphql_endpoint ::
  "'b apq_env \<Rightarrow> apq_config \<Rightarrow> gates \<Rightarrow> (string option \<Rightarrow> gql_request \<Rightarrow> pydict option \<Rightarrow> route_result) \<Rightarrow> rat \<Rightarrow> rat
     \<Rightarrow> gql_request \<Rightarrow> pydict option \<Rightarrow> apq_memory \<times> 'b \<Rightarrow> apq_outcome \<times> apq_memory \<times> 'b" where
  "graphql_endpoint ae cfg gt exec now later rq context st =
     (case accept_request ae cfg gt now rq context st of
        (out, st') \<Rightarrow>
          (case out of
             Run q (Some (h, text)) \<Rightarrow>
               (out, fst st', store_executed_response ae cfg later (exec q rq context) h text (gq_variables rq) context (gq_operation rq) (snd st'))
           | _ \<Rightarrow> (out, st')))"

subsection \<open>Requests side by side\<close>

text \<open>
  Between the acceptance of a request and the storing of its response other requests run.  The world holds
  the stores and the requests whose query is being executed.
\<close>

record 'b apq_world =
  aw_global :: apq_memory
  aw_backend :: 'b
  aw_pending :: "(gql_request \<times> pydict option \<times> string \<times> string) list"

datatype apq_event = Arrives rat gql_request "pydict option" | Finished rat nat route_result

fun apq_step :: "'b apq_env \<Rightarrow> apq_config \<Rightarrow> gates \<Rightarrow> apq_event \<Rightarrow> 'b apq_world \<Rightarrow> 'b apq_world" where
  "apq_step ae cfg gt (Arrives now rq context) w =
     (case accept_request ae cfg gt now rq context (aw_global w, aw_backend w) of
        (out, g, b) \<Rightarrow>
          \<lparr>aw_global = g, aw_backend = b,
           aw_pending = aw_pending w @ (case out of Run q (Some (h, text)) \<Rightarrow> [(rq, context, h, text)] | _ \<Rightarrow> [])\<rparr>)"
| "apq_step ae cfg gt (Finished later i res) w =
     (if i < length (aw_pending w)
      then case aw_pending w ! i of
             (rq, context, h, text) \<Rightarrow>
               w\<lparr>aw_backend := store_executed_response ae cfg later res h text (gq_variables rq) context (gq_operation rq) (aw_backend w),
                 aw_pending := take i (aw_pending w) @ drop (Suc i) (aw_pending w)\<rparr>
      else w)"

definition run_events :: "'b apq_env \<Rightarrow> apq_config \<Rightarrow> gates \<Rightarrow> apq_event list \<Rightarrow> 'b apq_world \<Rightarrow> 'b apq_world" where
  "run_events ae cfg gt evs w = fold (apq_step ae cfg gt) evs w"

definition outcome :: "'b apq_env \<Rightarrow> apq_config \<Rightarrow> gates \<Rightarrow> rat \<Rightarrow> gql_request \<Rightarrow> pydict option \<Rightarrow> 'b apq_world \<Rightarrow> apq_outcome" where
  "outcome ae cfg gt now rq context w = fst (accept_request ae cfg gt now rq context (aw_global w, aw_backend w))"

text \<open>The endpoint is the two steps of a request with nothing in between.\<close>

lemma endpoint_steps:
  assumes "fst (accept_request ae cfg gt now rq context (g, b)) = Run q (Some (h, text))"
  shows "run_events ae cfg gt [Arrives now rq context, Finished later (length ps) (exec q rq context)] \<lparr>aw_global = g, aw_backend = b, aw_pending = ps\<rparr>
    = (case graphql_endpoint ae cfg gt exec now later rq context (g, b) of (out, g', b') \<Rightarrow> \<lparr>aw_global = g', aw_backend = b', aw_pending = ps\<rparr>)"
  using assms by (cases "accept_request ae cfg gt now rq context (g, b)") (simp add: run_events_def graphql_endpoint_def)

end
