(* ===== verification/ApqKeys.thy ===== *)
theory ApqKeys
  imports ApqRequest Cursor
begin

section \<open>The keys of cached responses\<close>

text \<open>
  Two requests that share a key have the same persisted query, variables, user and tenant.  The texts that
  are digested can be taken apart: the text of a JSON value ends where its brackets close.
\<close>

subsection \<open>Where a JSON text ends\<close>

text \<open>\<open>closing q d s\<close>: what follows the bracket that closes the \<open>d\<close> open ones; \<open>q\<close> within a string.\<close>

fun closing :: "bool \<Rightarrow> nat \<Rightarrow> string \<Rightarrow> string option" where
  "closing q d [] = None"
| "closing True d (c # s) =
     (if c = CHR 0x5C then (case s of [] \<Rightarrow> None | e # t \<Rightarrow> closing True d t)
      else closing (c \<noteq> CHR 0x22) d s)"
| "closing False d (c # s) =
     (if c = CHR 0x22 then closing True d s
      else if c = CHR ''{'' \<or> c = CHR ''['' then closing False (Suc d) s
      else if c = CHR ''}'' \<or> c = CHR '']'' then (if d \<le> 1 then Some s else closing False (d - 1) s)
      else closing False d s)"

definition harmless :: "char \<Rightarrow> bool" where
  "harmless c = (c \<notin> {CHR 0x22, CHR ''{'', CHR ''['', CHR ''}'', CHR '']''})"

lemma closing_harmless: "list_all harmless s \<Longrightarrow> closing False d (s @ r) = closing False d r"
  by (induction s) (auto simp: harmless_def)

lemma closing_char: "closing True d (json_char c @ r) = closing True d r"
proof -
  have "closing True d (hex2 n @ r) = closing True d r" if "n < 256" for n
  proof -
    have "hex_digit m \<noteq> CHR 0x5C" "hex_digit m \<noteq> CHR 0x22" if "m < 16" for m
    proof -
      have "(of_char (hex_digit m) :: nat) \<in> {48..<58} \<union> {97..<103}" using that by (auto simp: hex_digit_def of_char_char_of_small)
      then show "hex_digit m \<noteq> CHR 0x5C" "hex_digit m \<noteq> CHR 0x22" by auto
    qed
    moreover have "n div 16 < 16" "n mod 16 < 16" using that by (simp_all add: div_less_iff_less_mult)
    ultimately show ?thesis by (simp add: hex2_def)
  qed
  moreover have "of_char c \<noteq> (34 :: nat) \<Longrightarrow> c \<noteq> CHR 0x22" by auto
  ultimately show ?thesis by (auto simp: json_char_def Let_def)
qed

lemma closing_string: "closing False d (json_str s @ r) = closing False d r"
proof -
  have "closing True d (concat (map json_char s) @ CHR 0x22 # r) = closing False d r" for s
    by (induction s) (simp_all add: closing_char)
  then show ?thesis by (simp add: json_str_def)
qed

text \<open>JSON values whose floats are written without brackets and quotes.\<close>

fun json_value_ok :: "pyval \<Rightarrow> bool" where
  "json_value_ok (PFloat s) = list_all harmless (json_float s)"
| "json_value_ok (PList vs) = list_all json_value_ok vs"
| "json_value_ok (PTuple vs) = list_all json_value_ok vs"
| "json_value_ok (PDict d) = list_all (\<lambda>p. json_value_ok (snd p)) d"
| "json_value_ok v = True"

lemma digits_harmless: "list_all harmless (nat_digits n)"
proof -
  have "list_all is_digit (nat_digits n)" using nat_digits_facts [of n 0] by simp
  moreover have "is_digit c \<Longrightarrow> harmless c" for c by (auto simp: is_digit_def harmless_def)
  ultimately show ?thesis by (metis list.pred_mono_strong)
qed

lemma int_harmless: "list_all harmless (int_str i)"
  using digits_harmless by (simp add: int_str_def harmless_def)

lemma closing_join: "(\<And>s r. s \<in> set ss \<Longrightarrow> closing False d (s @ r) = closing False d r) \<Longrightarrow> closing False d (join_str '','' ss @ r) = closing False d r"
  by (induction "'',''" ss rule: join_str.induct) auto

lemma closing_compact: "json_compact v = Inr t \<Longrightarrow> json_value_ok v \<Longrightarrow> 0 < d \<Longrightarrow> closing False d (t @ r) = closing False d r"
proof (induction v arbitrary: t r d rule: json_compact.induct)
  case (1 vs)
  then obtain ss where ss: "map_result json_compact vs = Inr ss" "t = ''['' @ join_str '','' ss @ '']''" by (auto simp: rbind_eq_Inr)
  have "closing False (Suc d) (s @ r) = closing False (Suc d) r" if s: "s \<in> set ss" for s r
  proof -
    obtain v where "v \<in> set vs" "json_compact v = Inr s" using map_result_set [OF ss(1) s] by blast
    then show ?thesis using "1.IH" "1.prems"(2) by (simp add: list_all_iff)
  qed
  from closing_join [OF this] ss(2) show ?case using "1.prems"(3) by simp
next
  case (2 vs)
  then obtain ss where ss: "map_result json_compact vs = Inr ss" "t = ''['' @ join_str '','' ss @ '']''" by (auto simp: rbind_eq_Inr)
  have "closing False (Suc d) (s @ r) = closing False (Suc d) r" if s: "s \<in> set ss" for s r
  proof -
    obtain v where "v \<in> set vs" "json_compact v = Inr s" using map_result_set [OF ss(1) s] by blast
    then show ?thesis using "2.IH" "2.prems"(2) by (simp add: list_all_iff)
  qed
  from closing_join [OF this] ss(2) show ?case using "2.prems"(3) by simp
next
  case (3 dct)
  then obtain ss where ss: "map_result (\<lambda>p. rbind (json_compact (snd p)) (\<lambda>s. Inr (json_str (fst p) @ '':'' @ s))) dct = Inr ss"
    "t = ''{'' @ join_str '','' ss @ ''}''" by (auto simp: rbind_eq_Inr)
  have "closing False (Suc d) (s @ r) = closing False (Suc d) r" if s: "s \<in> set ss" for s r
  proof -
    obtain p u where p: "p \<in> set dct" "json_compact (snd p) = Inr u" "s = json_str (fst p) @ '':'' @ u"
      using map_result_set [OF ss(1) s] by (auto simp: rbind_eq_Inr)
    then show ?thesis using "3.IH" [of p u "Suc d"] "3.prems"(2) by (simp add: list_all_iff closing_string)
  qed
  from closing_join [OF this] ss(2) show ?case using "3.prems"(3) by simp
qed (auto simp: closing_string closing_harmless int_harmless)

lemma object_closes:
  assumes "json_compact (PDict dct) = Inr t" "json_value_ok (PDict dct)"
  shows "closing False 0 (t @ r) = Some r"
proof -
  obtain ss where ss: "map_result (\<lambda>p. rbind (json_compact (snd p)) (\<lambda>s. Inr (json_str (fst p) @ '':'' @ s))) dct = Inr ss"
    "t = ''{'' @ join_str '','' ss @ ''}''" using assms(1) by (auto simp: rbind_eq_Inr)
  have "closing False 1 (s @ r) = closing False 1 r" if s: "s \<in> set ss" for s r
  proof -
    obtain p u where p: "p \<in> set dct" "json_compact (snd p) = Inr u" "s = json_str (fst p) @ '':'' @ u"
      using map_result_set [OF ss(1) s] by (auto simp: rbind_eq_Inr)
    then show ?thesis using closing_compact [of "snd p" u 1] assms(2) by (simp add: list_all_iff closing_string)
  qed
  from closing_join [OF this] ss(2) show ?thesis by simp
qed

subsection \<open>Keys determine the request\<close>

lemma sort_keys_elements: "set (sort_keys d) = set d"
proof (induction d)
  case (Cons kv d)
  have "set (insert_key kv e) = insert kv (set e)" for e :: "(string \<times> 'a) list"
    by (induction e) auto
  with Cons show ?case by simp
qed simp

lemma json_value_ok_sorted: "json_value_ok v \<Longrightarrow> json_value_ok (sorted_value v)"
proof (induction v rule: sorted_value.induct)
  case (3 d)
  then show ?case by (auto simp: list_all_iff sort_keys_elements)
qed (simp_all add: list_all_iff)

definition hex_char :: "char \<Rightarrow> bool" where "hex_char c = (is_digit c \<or> c \<in> {CHR ''a'', CHR ''b'', CHR ''c'', CHR ''d'', CHR ''e'', CHR ''f''})"

definition hex64 :: "string \<Rightarrow> bool" where "hex64 s = (length s = 64 \<and> list_all hex_char s)"

lemma hex_char_plain: "hex_char c \<Longrightarrow> c \<noteq> CHR '':'' \<and> c \<noteq> CHR ''u''"
  by (auto simp: hex_char_def is_digit_def)

lemma json_str_hex: "hex64 h \<Longrightarrow> length (json_str h) = 66"
proof -
  assume h: "hex64 h"
  have "list_all (\<lambda>c. json_char c = [c]) ''abcdef''" by code_simp
  then have letters: "\<forall>c \<in> {CHR ''a'', CHR ''b'', CHR ''c'', CHR ''d'', CHR ''e'', CHR ''f''}. json_char c = [c]" by simp
  have "is_digit c \<Longrightarrow> json_char c = [c]" for c by (simp add: json_char_def Let_def is_digit_def)
  with letters have "json_char c = [c]" if "hex_char c" for c using that unfolding hex_char_def by blast
  then have "list_all hex_char s \<Longrightarrow> concat (map json_char s) = s" for s by (induction s) auto
  with h show ?thesis by (simp add: json_str_def hex64_def)
qed

lemma json_str_inj: "json_str s = json_str t \<Longrightarrow> s = t"
proof -
  assume "json_str s = json_str t"
  then have "concat (map json_char s) @ CHR 0x22 # [] = concat (map json_char t) @ CHR 0x22 # []" by (simp add: json_str_def)
  then have "Some (s, [] :: string) = Some (t, [])" using json_string_body by metis
  then show ?thesis by simp
qed

definition variables_ok :: "pydict option \<Rightarrow> bool" where
  "variables_ok variables = (case variables of None \<Rightarrow> True | Some d \<Rightarrow> json_value_ok (PDict d))"

lemma variables_close:
  assumes "variables_ok v" "variables_text v = Inr t"
  shows "closing False 0 (t @ r) = Some r"
proof -
  define d where "d = (case v of Some d \<Rightarrow> d | None \<Rightarrow> [])"
  have "json_value_ok (PDict d)" using assms(1) by (auto simp: d_def variables_ok_def split: option.splits)
  from json_value_ok_sorted [OF this] show ?thesis using object_closes assms(2) by (simp add: variables_text_def d_def)
qed

text \<open>The text that a user's key digests.\<close>

lemma user_key_text:
  assumes "response_key_text h v (Some u) = Inr a"
  shows "\<exists>t. variables_text v = Inr t \<and> a = Some (''user:['' @ json_str h @ '','' @ t @ '','' @ json_str u @ '']'')"
proof -
  have "sorted_value (PList [PStr h, w, PStr u]) = PList [PStr h, sorted_value w, PStr u]" for w by simp
  with assms show ?thesis
    by (auto simp: response_key_text_def variables_text_def rbind_eq_Inr)
qed

lemma user_key_text_inj:
  assumes "hex64 h" "hex64 h'" "variables_ok v" "variables_ok v'" "variables_text v = Inr t" "variables_text v' = Inr t'"
    and "''user:['' @ json_str h @ '','' @ t @ '','' @ json_str u @ '']'' = ''user:['' @ json_str h' @ '','' @ t' @ '','' @ json_str u' @ '']''"
  shows "h = h' \<and> t = t' \<and> u = u'"
proof -
  have "json_str h @ '','' @ t @ '','' @ json_str u @ '']'' = json_str h' @ '','' @ t' @ '','' @ json_str u' @ '']''" using assms(7) by simp
  then have h: "json_str h = json_str h'" and rest: "t @ '','' @ json_str u @ '']'' = t' @ '','' @ json_str u' @ '']''"
    using json_str_hex [OF assms(1)] json_str_hex [OF assms(2)] by (auto simp: append_eq_append_conv)
  have "Some ('','' @ json_str u @ '']'') = Some ('','' @ json_str u' @ '']'')"
    using variables_close [OF assms(3,5)] variables_close [OF assms(4,6)] rest by metis
  then have "json_str u = json_str u'" by simp
  with rest json_str_inj h show ?thesis by auto
qed

definition digested_key :: "(string \<Rightarrow> string) \<Rightarrow> string \<Rightarrow> string option \<Rightarrow> string" where
  "digested_key sha h a = (case a of None \<Rightarrow> h | Some s \<Rightarrow> sha s)"

lemma response_key_inj:
  assumes "response_key_text h v u = Inr a" "response_key_text h' v' u' = Inr a'" "digested_key sha h a = digested_key sha h' a'"
    and "hex64 h" "hex64 h'" "variables_ok v" "variables_ok v'"
    and "\<And>s s'. a = Some s \<Longrightarrow> a' = Some s' \<Longrightarrow> sha s = sha s' \<Longrightarrow> s = s'"
    and "\<And>s. a = Some s \<Longrightarrow> h' \<noteq> sha s" "\<And>s. a' = Some s \<Longrightarrow> h \<noteq> sha s"
  shows "h = h' \<and> u = u' \<and> variables_text v = variables_text v'"
proof (cases a)
  case None
  then have a': "a' = None" using assms(3,10) by (cases a') (auto simp: digested_key_def)
  have "u = None" "v = None \<or> v = Some []" using assms(1) None
    by (cases u; auto simp: response_key_text_def rbind_eq_Inr split: if_splits)+
  moreover have "u' = None" "v' = None \<or> v' = Some []" using assms(2) a'
    by (cases u'; auto simp: response_key_text_def rbind_eq_Inr split: if_splits)+
  ultimately show ?thesis using assms(3) None a' by (auto simp: digested_key_def variables_text_def)
next
  case (Some s)
  then obtain s' where s': "a' = Some s'" using assms(3,9) by (cases a') (auto simp: digested_key_def)
  with Some assms(3,8) have eq: "s = s'" by (simp add: digested_key_def)
  have first: "s = h @ '':'' @ t" if "u = None" "variables_text v = Inr t" for t
    using assms(1) Some that by (auto simp: response_key_text_def split: if_splits)
  have first': "s' = h' @ '':'' @ t" if "u' = None" "variables_text v' = Inr t" for t
    using assms(2) s' that by (auto simp: response_key_text_def split: if_splits)
  have vt: "\<exists>t. variables_text v = Inr t" if "response_key_text h v u = Inr (Some s)" for h v u s
  proof (cases u)
    case None
    with that show ?thesis by (cases "variables_text v") (auto simp: response_key_text_def split: if_splits)
  next
    case u: (Some w)
    with user_key_text that show ?thesis by blast
  qed
  from vt [of h v u s] vt [of h' v' u' s'] assms(1,2) Some s' obtain t t' where t: "variables_text v = Inr t" "variables_text v' = Inr t'" by blast
  have hd: "hd h \<noteq> CHR ''u''" "hd h' \<noteq> CHR ''u''" "h \<noteq> []" "h' \<noteq> []"
    using assms(4,5) hex_char_plain by (cases h; cases h'; auto simp: hex64_def)+
  show ?thesis
  proof (cases u)
    case None
    show ?thesis
    proof (cases u')
      case u': None
      have "h @ '':'' @ t = h' @ '':'' @ t'" using first [OF None t(1)] first' [OF u' t(2)] eq by simp
      moreover have "length h = length h'" using assms(4,5) by (simp add: hex64_def)
      ultimately show ?thesis using t None u' by simp
    next
      case u': (Some w)
      from user_key_text [OF assms(2) [unfolded u']] s' have "hd s' = CHR ''u''" by auto
      then show ?thesis using first [OF None t(1)] eq hd by simp
    qed
  next
    case u: (Some w)
    from user_key_text [OF assms(1) [unfolded u]] Some t have s: "s = ''user:['' @ json_str h @ '','' @ t @ '','' @ json_str w @ '']''" by auto
    show ?thesis
    proof (cases u')
      case None
      have "hd s = CHR ''u''" using s by simp
      then show ?thesis using first' [OF None t(2)] eq hd by simp
    next
      case u': (Some w')
      from user_key_text [OF assms(2) [unfolded u']] s' t
      have "s' = ''user:['' @ json_str h' @ '','' @ t' @ '','' @ json_str w' @ '']''" by auto
      with user_key_text_inj [OF assms(4-7) t, of w w'] s eq u u' t show ?thesis by simp
    qed
  qed
qed

end
