(* ===== verification/ApqProps.thy ===== *)
theory ApqProps
  imports ApqKeys
begin

section \<open>Persisted queries answer what they name\<close>

text \<open>
  What a backend of persisted queries promises (\<open>apq_store\<close>), kept by the backend in memory and the one in
  PostgreSQL; a response that is served was executed for the same user, tenant, text and variables; and the
  filter of a response keeps what was asked for.
\<close>

lemma update_same: "map_of d k = Some v \<Longrightarrow> AList.update k v d = d"
  by (induction d) (auto split: if_splits)

lemma update_elements: "p \<in> set (AList.update k v d) \<Longrightarrow> p = (k, v) \<or> p \<in> set d"
  by (induction d) (auto split: if_splits)

subsection \<open>What a backend promises\<close>

definition tenant_text :: "pydict option \<Rightarrow> string option" where
  "tenant_text ctx = (let t = extract_tenant_id ctx in if truthy t then Some (py_str t) else None)"

text \<open>A tenant is missing, empty, or a value with a text.\<close>

definition proper_tenant :: "pydict option \<Rightarrow> bool" where
  "proper_tenant ctx =
     (let t = extract_tenant_id ctx in t = PNone \<or> t = PStr [] \<or> truthy t \<and> py_str t \<noteq> [])"

subsection \<open>What happened before\<close>

definition queries_sent :: "apq_event list \<Rightarrow> string set" where
  "queries_sent evs = {q. \<exists>now rq ctx. Arrives now rq ctx \<in> set evs \<and> gq_query rq = Some q}"

text \<open>\<open>finished\<close>: at \<open>later\<close> the execution of the text \<open>q\<close> for a request with the hash \<open>h\<close> ended with \<open>res\<close>.\<close>

definition finished ::
  "'b apq_env \<Rightarrow> apq_config \<Rightarrow> gates \<Rightarrow> 'b apq_world \<Rightarrow> apq_event list \<Rightarrow> rat \<Rightarrow> gql_request \<times> pydict option \<times> string \<times> string \<Rightarrow> route_result \<Rightarrow> bool" where
  "finished ae cfg gt w evs later pending res \<longleftrightarrow>
     (\<exists>before after i. evs = before @ Finished later i res # after \<and> i < length (aw_pending (run_events ae cfg gt before w))
        \<and> aw_pending (run_events ae cfg gt before w) ! i = pending)"

lemma finished_append: "finished ae cfg gt w evs later p res \<Longrightarrow> finished ae cfg gt w (evs @ evs') later p res"
  unfolding finished_def by fastforce

text \<open>\<open>own_response\<close>: a response that was executed for the same persisted query, variables, user and tenant, lately.\<close>

definition own_response ::
  "'b apq_env \<Rightarrow> apq_config \<Rightarrow> gates \<Rightarrow> 'b apq_world \<Rightarrow> (pydict \<Rightarrow> pydict option) \<Rightarrow> int option \<Rightarrow> apq_event list \<Rightarrow> rat \<Rightarrow> gql_request \<Rightarrow> pydict option \<Rightarrow> string \<Rightarrow> pydict \<Rightarrow> bool" where
  "own_response ae cfg gt w column ttl evs now rq ctx h r \<longleftrightarrow>
     (\<exists>later rq' ctx' q res d s c. finished ae cfg gt w evs later (rq', ctx', h, q) res
        \<and> get_apq_hash rq' = Some h \<and> ae_sha ae q = h
        \<and> variables_text (gq_variables rq') = variables_text (gq_variables rq)
        \<and> response_cache_user_id ctx' = response_cache_user_id ctx \<and> tenant_text ctx' = tenant_text ctx
        \<and> response_object res = Some d \<and> is_cacheable_response d
        \<and> response_to_store ae q (gq_operation rq') (filter (\<lambda>(k, v). k \<noteq> ''extensions'') d) = Inr s \<and> column s = Some c
        \<and> (r = c \<or> (\<exists>fr sels. filter_response (ae_fuel ae) fr sels c = Inr r))
        \<and> (\<forall>n. ttl = Some n \<longrightarrow> now - later < of_int n))"

definition arrivals_ok :: "apq_event list \<Rightarrow> bool" where
  "arrivals_ok evs \<longleftrightarrow> (\<forall>now rq ctx. Arrives now rq ctx \<in> set evs \<longrightarrow> proper_tenant ctx \<and> variables_ok (gq_variables rq))"

text \<open>The texts that are digested: the queries and the texts of the keys.\<close>

definition digested_texts :: "apq_event list \<Rightarrow> string set" where
  "digested_texts evs = queries_sent evs
     \<union> {s. \<exists>now rq ctx h. Arrives now rq ctx \<in> set evs \<and> get_apq_hash rq = Some h
            \<and> response_key_text h (gq_variables rq) (snd (response_cache_user_id ctx)) = Inr (Some s)}"

text \<open>The grammar: no document starts as the texts of the keys do.\<close>

definition graphql_parser :: "parser \<Rightarrow> bool" where
  "graphql_parser parse \<longleftrightarrow> (\<forall>s. parse (''user:'' @ s) = None) \<and> (\<forall>h s. hex64 h \<longrightarrow> parse (h @ '':'' @ s) = None)"

lemma key_text_no_document:
  assumes "graphql_parser parse" "hex64 h" "response_key_text h v u = Inr (Some s)"
  shows "parse s = None"
proof (cases u)
  case None
  with assms(3) obtain t where "s = h @ '':'' @ t" by (auto simp: response_key_text_def rbind_eq_Inr split: if_splits)
  with assms(1,2) show ?thesis by (simp add: graphql_parser_def)
next
  case (Some w)
  with assms(3) obtain t where t: "s = ''user:'' @ t" by (auto simp: response_key_text_def rbind_eq_Inr)
  have "parse (''user:'' @ t) = None" using assms(1) unfolding graphql_parser_def by blast
  with t show ?thesis by (simp only:)
qed

subsection \<open>The interface\<close>

text \<open>
  \<open>texts\<close> and \<open>answers\<close> are what a state holds: the persisted queries, and the responses with their slots
  and times.  \<open>slot\<close> is where a response is kept, and \<open>column\<close> what the store makes of it.
\<close>

locale apq_store =
  fixes bk :: "'b apq_backend"
    and sha :: "string \<Rightarrow> string"
    and texts :: "'b \<Rightarrow> (string \<times> string) set"
    and answers :: "'b \<Rightarrow> ('k \<times> pydict \<times> rat) set"
    and slot :: "string \<Rightarrow> pydict option \<Rightarrow> 'k"
    and column :: "pydict \<Rightarrow> pydict option"
    and lifetime :: "'b \<Rightarrow> int option"
    and ok :: "'b \<Rightarrow> bool"
  assumes get_query: "ok b \<Longrightarrow> bk_get_query bk h b = (q, b') \<Longrightarrow>
      ok b' \<and> texts b' \<subseteq> texts b \<and> answers b' = answers b \<and> lifetime b' = lifetime b \<and> (\<forall>t. q = Some t \<longrightarrow> (h, t) \<in> texts b)"
    and store_query: "ok b \<Longrightarrow> bk_store_query bk h t b = (r, b') \<Longrightarrow>
      ok b' \<and> texts b' \<subseteq> texts b \<union> (if sha t = h then {(h, t)} else {}) \<and> answers b' = answers b \<and> lifetime b' = lifetime b"
    and get_response: "ok b \<Longrightarrow> proper_tenant c \<Longrightarrow> bk_get_response bk now k c b = (a, b') \<Longrightarrow>
      ok b' \<and> texts b' = texts b \<and> answers b' \<subseteq> answers b \<and> lifetime b' = lifetime b
      \<and> (\<forall>d. a = Some d \<longrightarrow> (\<exists>t. (slot k c, d, t) \<in> answers b \<and> (\<forall>ttl. lifetime b = Some ttl \<longrightarrow> now - t < of_int ttl)))"
    and store_response: "ok b \<Longrightarrow> proper_tenant c \<Longrightarrow> b' = bk_store_response bk now k d c b \<Longrightarrow>
      ok b' \<and> texts b' = texts b \<and> lifetime b' = lifetime b \<and> answers b' \<subseteq> answers b \<union> {(slot k c, e, now) | e. column d = Some e}"
    and slot_inj: "hex64 k \<Longrightarrow> hex64 k' \<Longrightarrow> proper_tenant c \<Longrightarrow> proper_tenant c' \<Longrightarrow> slot k c = slot k' c' \<Longrightarrow> k = k' \<and> tenant_text c = tenant_text c'"
begin

definition known :: "apq_memory \<times> 'b \<Rightarrow> (string \<times> string) set" where
  "known st = set (am_queries (fst st)) \<union> texts (snd st)"

text \<open>What a step leaves as it was.\<close>

definition quiet :: "apq_memory \<times> 'b \<Rightarrow> apq_memory \<times> 'b \<Rightarrow> bool" where
  "quiet st st' \<longleftrightarrow> ok (snd st') \<and> known st' \<subseteq> known st \<and> answers (snd st') \<subseteq> answers (snd st) \<and> lifetime (snd st') = lifetime (snd st)"

lemma quiet_refl: "ok (snd st) \<Longrightarrow> quiet st st" by (simp add: quiet_def)

lemma quiet_trans: "quiet st st' \<Longrightarrow> quiet st' st'' \<Longrightarrow> quiet st st''" by (auto simp: quiet_def)

lemma known_text_quiet:
  assumes "ok (snd st)" "ae_backend ae = bk" "known_text ae h st = (q, st')"
  shows "quiet st st' \<and> (\<forall>t. q = Some t \<longrightarrow> (h, t) \<in> known st)"
proof -
  obtain r b where r: "bk_get_query bk h (snd st) = (r, b)" by (cases "bk_get_query bk h (snd st)")
  note law = get_query [OF assms(1) r]
  have "\<forall>t. memory_get_query h (fst st) = Some t \<longrightarrow> (h, t) \<in> set (am_queries (fst st))"
    by (auto simp: memory_get_query_def dest: map_of_SomeD split: if_splits)
  with law r assms(2,3) show ?thesis
    by (auto simp: known_text_def quiet_def known_def split: if_splits)
qed

lemma run_known_quiet:
  assumes "ok (snd st)" "ae_backend ae = bk" "run_known ae cfg refusal h st = (out, st')"
  shows "quiet st st'" "out = Run q (Some (h', t)) \<Longrightarrow> h' = h \<and> (h, t) \<in> known st" "out \<noteq> Served r"
    "out = Run (Some t) target \<Longrightarrow> (h, t) \<in> known st" "out \<noteq> Run None target"
  using known_text_quiet [OF assms(1,2)] assms(3)
  by (auto simp: run_known_def cache_target_def split: prod.splits option.splits if_splits)

lemma register_quiet:
  assumes "ok (snd st)" "ae_backend ae = bk" "ae_sha ae = sha" "sha t = h" "register_and_run ae cfg h t st = (out, st')"
  shows "ok (snd st')" "known st' \<subseteq> known st \<union> {(h, t)}" "answers (snd st') = answers (snd st)" "lifetime (snd st') = lifetime (snd st)"
    "out = Run q (Some (h', t')) \<Longrightarrow> h' = h \<and> t' = t" "out \<noteq> Served r"
proof -
  obtain r1 g where g: "store_persisted_query sha h t (fst st) = (r1, g)" by (cases "store_persisted_query sha h t (fst st)")
  have gq: "set (am_queries g) \<subseteq> insert (h, t) (set (am_queries (fst st)))"
    using g by (auto simp: store_persisted_query_def memory_store_query_def split: if_splits sum.splits dest!: update_elements)
  obtain r2 b where b: "bk_store_query bk h t (snd st) = (r2, b)" by (cases "bk_store_query bk h t (snd st)")
  note law = store_query [OF assms(1) b]
  show "ok (snd st')" "known st' \<subseteq> known st \<union> {(h, t)}" "answers (snd st') = answers (snd st)" "lifetime (snd st') = lifetime (snd st)"
    "out = Run q (Some (h', t')) \<Longrightarrow> h' = h \<and> t' = t" "out \<noteq> Served r"
    using assms g b law gq
    by (auto simp: register_and_run_def known_def cache_target_def split: sum.splits if_splits)
qed

text \<open>A cached answer is of its key.\<close>

lemma lookup_quiet:
  assumes "ok b" "ae_backend ae = bk" "proper_tenant ctx" "handle_apq_request_with_cache ae cfg now rq ctx b = (cached, b')"
  shows "quiet (g, b) (g, b')"
    "cached = Some r \<Longrightarrow> \<exists>h user key c t. get_apq_hash rq = Some h \<and> response_cache_user_id ctx = (True, user)
       \<and> compute_response_cache_key (ae_sha ae) h (gq_variables rq) user = Inr key
       \<and> (slot key ctx, c, t) \<in> answers b \<and> (\<forall>ttl. lifetime b = Some ttl \<longrightarrow> now - t < of_int ttl)
       \<and> (r = c \<or> (\<exists>fr sels. filter_response (ae_fuel ae) fr sels c = Inr r))"
proof -
  have "quiet (g, b) (g, b') \<and> (cached = Some r \<longrightarrow> (\<exists>h user key c t. get_apq_hash rq = Some h \<and> response_cache_user_id ctx = (True, user)
       \<and> compute_response_cache_key (ae_sha ae) h (gq_variables rq) user = Inr key
       \<and> (slot key ctx, c, t) \<in> answers b \<and> (\<forall>ttl. lifetime b = Some ttl \<longrightarrow> now - t < of_int ttl)
       \<and> (r = c \<or> (\<exists>fr sels. filter_response (ae_fuel ae) fr sels c = Inr r))))"
  proof (cases "if aq_cache_responses cfg then get_apq_hash rq else None")
    case None
    then show ?thesis using assms quiet_refl [of "(g, b)"] by (simp add: handle_apq_request_with_cache_def)
  next
    case (Some h)
    then have h: "get_apq_hash rq = Some h" by (simp split: if_splits)
    obtain cacheable user where u: "response_cache_user_id ctx = (cacheable, user)" by (cases "response_cache_user_id ctx")
    show ?thesis
    proof (cases "h = [] \<or> \<not> cacheable \<or> (\<exists>e. compute_response_cache_key (ae_sha ae) h (gq_variables rq) user = Inl e)")
      case True
      then have "(cached, b') = (None, b)" using assms(4) Some u by (auto simp: handle_apq_request_with_cache_def split: if_splits)
      then show ?thesis using assms(1) quiet_refl [of "(g, b)"] by simp
    next
      case False
      then obtain key where key: "compute_response_cache_key (ae_sha ae) h (gq_variables rq) user = Inr key" and c: cacheable "h \<noteq> []"
        by (cases "compute_response_cache_key (ae_sha ae) h (gq_variables rq) user") auto
      obtain a b1 where a: "bk_get_response bk now key ctx b = (a, b1)" by (cases "bk_get_response bk now key ctx b")
      note law = get_response [OF assms(1,3) a]
      have q1: "quiet (g, b) (g, b1)" using law by (auto simp: quiet_def known_def)
      show ?thesis
      proof (cases a)
        case None
        then show ?thesis using assms(2,4) Some u key c a q1 by (simp add: handle_apq_request_with_cache_def)
      next
        case a_some: (Some d)
        obtain q b2 where q: "bk_get_query bk h b1 = (q, b2)" by (cases "bk_get_query bk h b1")
        have "quiet (g, b1) (g, b2)" using get_query [OF _ q] law by (auto simp: quiet_def known_def)
        with q1 have q2: "quiet (g, b) (g, b2)" by (rule quiet_trans)
        define sel where "sel = (case q of None \<Rightarrow> None | Some t \<Rightarrow> if t = [] then None else extract_selection_set (ae_parse ae) t (gq_operation rq))"
        define fr where "fr = extract_fragments (ae_parse ae) (the q)"
        have eq: "(cached, b') = (if d = [] then (None, b1)
            else case sel of
                None \<Rightarrow> (Some d, b2)
              | Some sels \<Rightarrow> (case filter_response (ae_fuel ae) fr sels d of Inl e \<Rightarrow> (None, b2) | Inr r \<Rightarrow> (Some r, b2)))"
          unfolding sel_def fr_def
          using assms(2,4) Some u key c a a_some q by (cases "d = []") (simp_all add: handle_apq_request_with_cache_def)
        have "(b' = b1 \<or> b' = b2) \<and> (cached = Some r \<longrightarrow> r = d \<or> (\<exists>fr sels. filter_response (ae_fuel ae) fr sels d = Inr r))"
        proof (cases "d = []")
          case False
          show ?thesis
          proof (cases sel)
            case None
            then show ?thesis using eq False by simp
          next
            case (Some sels)
            with eq False show ?thesis by (cases "filter_response (ae_fuel ae) fr sels d") auto
          qed
        qed (use eq in simp)
        then have "b' = b1 \<or> b' = b2" and r: "cached = Some r \<longrightarrow> r = d \<or> (\<exists>fr sels. filter_response (ae_fuel ae) fr sels d = Inr r)"
          by blast+
        then have "quiet (g, b) (g, b')" using q1 q2 by blast
        moreover obtain t where "(slot key ctx, d, t) \<in> answers b" "\<forall>ttl. lifetime b = Some ttl \<longrightarrow> now - t < of_int ttl"
          using law a_some by blast
        moreover have "response_cache_user_id ctx = (True, user)" using u c(1) by simp
        ultimately show ?thesis using r h key by (intro conjI impI exI [of _ h] exI [of _ user] exI [of _ key] exI [of _ d] exI [of _ t]) simp_all
      qed
    qed
  qed
  then show "quiet (g, b) (g, b')" "cached = Some r \<Longrightarrow> \<exists>h user key c t. get_apq_hash rq = Some h \<and> response_cache_user_id ctx = (True, user)
       \<and> compute_response_cache_key (ae_sha ae) h (gq_variables rq) user = Inr key
       \<and> (slot key ctx, c, t) \<in> answers b \<and> (\<forall>ttl. lifetime b = Some ttl \<longrightarrow> now - t < of_int ttl)
       \<and> (r = c \<or> (\<exists>fr sels. filter_response (ae_fuel ae) fr sels c = Inr r))" by blast+
qed

lemma hash_only_quiet:
  assumes "ok (snd st)" "ae_backend ae = bk" "proper_tenant ctx" "hash_only ae cfg gt now h rq ctx st = (out, st')"
  shows "quiet st st'" "out = Run q (Some (h', t)) \<Longrightarrow> h' = h \<and> (h, t) \<in> known st" "out = Run (Some t) target \<Longrightarrow> (h, t) \<in> known st"
    "out \<noteq> Run None target" "out = Served r \<Longrightarrow> \<exists>b'. handle_apq_request_with_cache ae cfg now rq ctx (snd st) = (Some r, b')"
proof -
  obtain g b where st: "st = (g, b)" by (cases st)
  obtain cached b1 where c: "handle_apq_request_with_cache ae cfg now rq ctx b = (cached, b1)"
    by (cases "handle_apq_request_with_cache ae cfg now rq ctx b")
  have q1: "quiet st (g, b1)" using lookup_quiet(1) [OF _ assms(2,3) c] assms(1) st by simp
  then have ok1: "ok (snd (g, b1))" and k1: "known (g, b1) \<subseteq> known st" by (simp_all add: quiet_def)
  consider "run_known ae cfg PersistedQueryNotFound h (g, b1) = (out, st')"
    | e where "out = Forbidden e" "st' = (g, b1)"
    | d where "out = Served d" "cached = Some d" "st' = (g, b1)"
    using assms(4) st c by (auto simp: hash_only_def split: option.splits if_splits sum.splits)
  then have "quiet st st' \<and> (out = Run q (Some (h', t)) \<longrightarrow> h' = h \<and> (h, t) \<in> known st) \<and> (out = Run (Some t) target \<longrightarrow> (h, t) \<in> known st)
    \<and> out \<noteq> Run None target \<and> (out = Served r \<longrightarrow> cached = Some r)"
  proof cases
    case 1
    note known = run_known_quiet [OF ok1 assms(2) 1]
    have "quiet st st'" using quiet_trans [OF q1 known(1)] .
    with known(2-5) k1 show ?thesis by blast
  qed (use q1 in simp_all)
  then show "quiet st st'" "out = Run q (Some (h', t)) \<Longrightarrow> h' = h \<and> (h, t) \<in> known st" "out = Run (Some t) target \<Longrightarrow> (h, t) \<in> known st"
    "out \<noteq> Run None target" "out = Served r \<Longrightarrow> \<exists>b'. handle_apq_request_with_cache ae cfg now rq ctx (snd st) = (Some r, b')"
    using c st by auto
qed

text \<open>Accepting a request.\<close>

lemma accept_quiet:
  assumes "ok (snd st)" "ae_backend ae = bk" "ae_sha ae = sha" "proper_tenant ctx" "accept_request ae cfg gt now rq ctx st = (out, st')"
  shows "ok (snd st')" "answers (snd st') \<subseteq> answers (snd st)" "lifetime (snd st') = lifetime (snd st)"
    "known st' \<subseteq> known st \<union> {(h, t) | h t. aq_mode cfg \<noteq> Required \<and> gq_query rq = Some t \<and> sha t = h}"
    "out = Run q (Some (h, t)) \<Longrightarrow> get_apq_hash rq = Some h \<and> ((h, t) \<in> known st \<or> gq_query rq = Some t \<and> sha t = h)"
    "out = Served r \<Longrightarrow> \<exists>b'. handle_apq_request_with_cache ae cfg now rq ctx (snd st) = (Some r, b')"
    "aq_mode cfg = Required \<Longrightarrow> out = Run q target \<Longrightarrow> \<exists>h t. get_apq_hash rq = Some h \<and> q = Some t \<and> (h, t) \<in> known st"
proof -
  have "ok (snd st') \<and> answers (snd st') \<subseteq> answers (snd st) \<and> lifetime (snd st') = lifetime (snd st)
    \<and> known st' \<subseteq> known st \<union> {(h, t) | h t. aq_mode cfg \<noteq> Required \<and> gq_query rq = Some t \<and> sha t = h}
    \<and> (out = Run q (Some (h, t)) \<longrightarrow> get_apq_hash rq = Some h \<and> ((h, t) \<in> known st \<or> gq_query rq = Some t \<and> sha t = h))
    \<and> (out = Served r \<longrightarrow> (\<exists>b'. handle_apq_request_with_cache ae cfg now rq ctx (snd st) = (Some r, b')))
    \<and> (aq_mode cfg = Required \<longrightarrow> out = Run q target \<longrightarrow> (\<exists>h t. get_apq_hash rq = Some h \<and> q = Some t \<and> (h, t) \<in> known st))"
  proof -
    consider (still) "st' = st" "out \<noteq> Run q (Some (h, t))" "\<forall>r. out \<noteq> Served r" "aq_mode cfg = Required \<longrightarrow> out \<noteq> Run q target"
      | (list) h' where "get_apq_hash rq = Some h'" "run_known ae cfg NotInList h' st = (out, st')"
      | (register) h' t' where "aq_mode cfg \<noteq> Required" "get_apq_hash rq = Some h'" "gq_query rq = Some t'" "sha t' = h'" "register_and_run ae cfg h' t' st = (out, st')"
      | (hash) h' where "get_apq_hash rq = Some h'" "hash_only ae cfg gt now h' rq ctx st = (out, st')"
      using assms(3,5)
      by (auto simp: accept_request_def compute_query_hash_def allows_arbitrary_queries_def processes_apq_def request_text_def split: if_splits option.splits)
    then show ?thesis
    proof cases
      case list
      from run_known_quiet [OF assms(1,2) list(2)] list(1) show ?thesis unfolding quiet_def by (cases q) blast+
    next
      case register
      from register_quiet [OF assms(1-3) register(4,5)] register(1-4) show ?thesis by blast
    next
      case hash
      from hash_only_quiet [OF assms(1,2,4) hash(2)] hash(1) show ?thesis unfolding quiet_def by (cases q) blast+
    qed (use assms(1) in auto)
  qed
  then show "ok (snd st')" "answers (snd st') \<subseteq> answers (snd st)" "lifetime (snd st') = lifetime (snd st)"
    "known st' \<subseteq> known st \<union> {(h, t) | h t. aq_mode cfg \<noteq> Required \<and> gq_query rq = Some t \<and> sha t = h}"
    "out = Run q (Some (h, t)) \<Longrightarrow> get_apq_hash rq = Some h \<and> ((h, t) \<in> known st \<or> gq_query rq = Some t \<and> sha t = h)"
    "out = Served r \<Longrightarrow> \<exists>b'. handle_apq_request_with_cache ae cfg now rq ctx (snd st) = (Some r, b')"
    "aq_mode cfg = Required \<Longrightarrow> out = Run q target \<Longrightarrow> \<exists>h t. get_apq_hash rq = Some h \<and> q = Some t \<and> (h, t) \<in> known st"
    by blast+
qed

text \<open>What the responses in a store are.\<close>

definition made :: "'b apq_env \<Rightarrow> apq_config \<Rightarrow> gates \<Rightarrow> 'b apq_world \<Rightarrow> apq_event list \<Rightarrow> 'k \<Rightarrow> pydict \<Rightarrow> rat \<Rightarrow> bool" where
  "made ae cfg gt w evs sl c t \<longleftrightarrow>
     (\<exists>rq ctx h q res user key d s now. finished ae cfg gt w evs t (rq, ctx, h, q) res \<and> Arrives now rq ctx \<in> set evs
        \<and> get_apq_hash rq = Some h \<and> sha q = h \<and> q \<in> queries_sent evs \<and> ae_parse ae q \<noteq> None
        \<and> response_cache_user_id ctx = (True, user) \<and> compute_response_cache_key sha h (gq_variables rq) user = Inr key
        \<and> sl = slot key ctx \<and> response_object res = Some d \<and> is_cacheable_response d
        \<and> response_to_store ae q (gq_operation rq) (filter (\<lambda>(k, v). k \<noteq> ''extensions'') d) = Inr s \<and> column s = Some c)"

lemma made_append: "made ae cfg gt w evs sl c t \<Longrightarrow> made ae cfg gt w (evs @ evs') sl c t"
  unfolding made_def queries_sent_def using finished_append [of ae cfg gt w evs _ _ _ evs'] by auto blast

text \<open>Storing an executed response.\<close>

lemma store_executed:
  assumes "ok b" "ae_backend ae = bk" "ae_sha ae = sha" "proper_tenant ctx"
    and "b' = store_executed_response ae cfg later res h q variables ctx operation b"
  shows "ok b'" "texts b' = texts b" "lifetime b' = lifetime b"
    "(sl, c, t) \<in> answers b' \<Longrightarrow> (sl, c, t) \<notin> answers b \<Longrightarrow> t = later \<and> (\<exists>user key d s. ae_parse ae q \<noteq> None \<and> response_cache_user_id ctx = (True, user)
        \<and> compute_response_cache_key sha h variables user = Inr key \<and> sl = slot key ctx \<and> response_object res = Some d \<and> is_cacheable_response d
        \<and> response_to_store ae q operation (filter (\<lambda>(k, v). k \<noteq> ''extensions'') d) = Inr s \<and> column s = Some c)"
proof -
  have same: "map_of (filter (\<lambda>(k, v). k \<noteq> ''extensions'') d) k = map_of d k" if "k \<noteq> ''extensions''" for d :: pydict and k
    using that by (induction d) auto
  have "b' = b \<or> (\<exists>user key d s. ae_parse ae q \<noteq> None \<and> response_cache_user_id ctx = (True, user)
        \<and> compute_response_cache_key sha h variables user = Inr key \<and> response_object res = Some d \<and> is_cacheable_response d
        \<and> response_to_store ae q operation (filter (\<lambda>(k, v). k \<noteq> ''extensions'') d) = Inr s \<and> b' = bk_store_response bk later key s ctx b)"
  proof (cases "is_query_operation (ae_parse ae) q operation \<and> response_object res \<noteq> None")
    case True
    then obtain d where d: "response_object res = Some d" "ae_parse ae q \<noteq> None" by (auto simp: is_query_operation_def split: option.splits)
    have cacheable: "is_cacheable_response (filter (\<lambda>(k, v). k \<noteq> ''extensions'') d) = is_cacheable_response d"
      by (simp add: is_cacheable_response_def same)
    obtain ok_user user where u: "response_cache_user_id ctx = (ok_user, user)" by (cases "response_cache_user_id ctx")
    from True assms(2,3,5) d(1) u show ?thesis
      by (auto simp: store_executed_response_def store_response_in_cache_def cacheable d(2) rbind_eq_Inr split: if_splits sum.splits)
  qed (use assms(5) in \<open>auto simp: store_executed_response_def split: option.splits\<close>)
  then show "ok b'" "texts b' = texts b" "lifetime b' = lifetime b"
    "(sl, c, t) \<in> answers b' \<Longrightarrow> (sl, c, t) \<notin> answers b \<Longrightarrow> t = later \<and> (\<exists>user key d s. ae_parse ae q \<noteq> None \<and> response_cache_user_id ctx = (True, user)
        \<and> compute_response_cache_key sha h variables user = Inr key \<and> sl = slot key ctx \<and> response_object res = Some d \<and> is_cacheable_response d
        \<and> response_to_store ae q operation (filter (\<lambda>(k, v). k \<noteq> ''extensions'') d) = Inr s \<and> column s = Some c)"
    using store_response [OF assms(1,4)] assms(1) by blast+
qed

text \<open>The invariant of a run.\<close>

definition traced :: "'b apq_env \<Rightarrow> apq_config \<Rightarrow> gates \<Rightarrow> 'b apq_world \<Rightarrow> int option \<Rightarrow> apq_event list \<Rightarrow> 'b apq_world \<Rightarrow> bool" where
  "traced ae cfg gt w0 ttl evs w \<longleftrightarrow>
     ok (aw_backend w) \<and> lifetime (aw_backend w) = ttl
     \<and> known (aw_global w, aw_backend w) \<subseteq> {(h, q). q \<in> queries_sent evs \<and> sha q = h}
     \<and> (\<forall>sl c t. (sl, c, t) \<in> answers (aw_backend w) \<longrightarrow> made ae cfg gt w0 evs sl c t)
     \<and> (\<forall>rq ctx h q. (rq, ctx, h, q) \<in> set (aw_pending w) \<longrightarrow> (\<exists>now. Arrives now rq ctx \<in> set evs)
          \<and> get_apq_hash rq = Some h \<and> q \<in> queries_sent evs \<and> sha q = h)"

lemma queries_sent_append: "q \<in> queries_sent evs \<Longrightarrow> q \<in> queries_sent (evs @ evs')"
  by (auto simp: queries_sent_def)

lemma traced_arrives:
  assumes "traced ae cfg gt w0 ttl evs w" "ae_backend ae = bk" "ae_sha ae = sha" "proper_tenant ctx"
  shows "traced ae cfg gt w0 ttl (evs @ [Arrives now rq ctx]) (apq_step ae cfg gt (Arrives now rq ctx) w)"
proof -
  let ?evs = "evs @ [Arrives now rq ctx]"
  obtain out g b where a: "accept_request ae cfg gt now rq ctx (aw_global w, aw_backend w) = (out, g, b)"
    by (cases "accept_request ae cfg gt now rq ctx (aw_global w, aw_backend w)") auto
  have "ok (snd (aw_global w, aw_backend w))" using assms(1) by (simp add: traced_def)
  note q = accept_quiet [OF this assms(2-4) a]
  have sent: "gq_query rq = Some t \<Longrightarrow> t \<in> queries_sent ?evs" for t by (auto simp: queries_sent_def)
  have old: "known (aw_global w, aw_backend w) \<subseteq> {(h, q). q \<in> queries_sent ?evs \<and> sha q = h}"
    using assms(1) queries_sent_append by (fastforce simp: traced_def)
  have "known (g, b) \<subseteq> {(h, q). q \<in> queries_sent ?evs \<and> sha q = h}" using q(4) old sent by blast
  moreover have "made ae cfg gt w0 ?evs sl c t" if "(sl, c, t) \<in> answers b" for sl c t
    using that q(2) assms(1) made_append by (fastforce simp: traced_def)
  moreover have "(\<exists>now. Arrives now rq' c \<in> set ?evs) \<and> get_apq_hash rq' = Some h \<and> t \<in> queries_sent ?evs \<and> sha t = h"
    if pending: "(rq', c, h, t) \<in> set (aw_pending w @ (case out of Run q (Some (h, text)) \<Rightarrow> [(rq, ctx, h, text)] | _ \<Rightarrow> []))" for rq' c h t
  proof (cases "(rq', c, h, t) \<in> set (aw_pending w)")
    case True
    with assms(1) queries_sent_append show ?thesis by (fastforce simp: traced_def)
  next
    case False
    with pending obtain q where run: "out = Run q (Some (h, t))" and "rq' = rq" "c = ctx"
      by (auto split: apq_outcome.splits option.splits)
    with q(5) [OF run] old sent show ?thesis by auto
  qed
  ultimately show ?thesis using q(1,3) assms(1) by (simp add: traced_def a)
qed

lemma traced_finished:
  assumes "traced ae cfg gt w0 ttl evs w" "ae_backend ae = bk" "ae_sha ae = sha" "arrivals_ok evs" "w = run_events ae cfg gt evs w0"
  shows "traced ae cfg gt w0 ttl (evs @ [Finished later i res]) (apq_step ae cfg gt (Finished later i res) w)"
proof -
  let ?evs = "evs @ [Finished later i res]"
  have sent: "queries_sent ?evs = queries_sent evs" by (simp add: queries_sent_def)
  have kept: "traced ae cfg gt w0 ttl ?evs w"
    using assms(1) made_append [of ae cfg gt w0 evs _ _ _ "[Finished later i res]"] by (auto simp: traced_def sent)
  show ?thesis
  proof (cases "i < length (aw_pending w)")
    case True
    obtain rq ctx h q where p: "aw_pending w ! i = (rq, ctx, h, q)" by (cases "aw_pending w ! i")
    then have "(rq, ctx, h, q) \<in> set (aw_pending w)" using True by (metis nth_mem)
    then obtain now where arr: "Arrives now rq ctx \<in> set evs" and hq: "get_apq_hash rq = Some h" "q \<in> queries_sent evs" "sha q = h"
      using assms(1) unfolding traced_def by blast
    have proper: "proper_tenant ctx" using arr assms(4) by (auto simp: arrivals_ok_def)
    have fin: "finished ae cfg gt w0 ?evs later (rq, ctx, h, q) res"
      unfolding finished_def using True p assms(5) by blast
    define b where "b = store_executed_response ae cfg later res h q (gq_variables rq) ctx (gq_operation rq) (aw_backend w)"
    have okw: "ok (aw_backend w)" using assms(1) by (simp add: traced_def)
    note st = store_executed [OF okw assms(2,3) proper b_def]
    have "made ae cfg gt w0 ?evs sl c t" if "(sl, c, t) \<in> answers b" for sl c t
    proof (cases "(sl, c, t) \<in> answers (aw_backend w)")
      case True
      with kept show ?thesis by (simp add: traced_def)
    next
      case False
      from st(4) [OF that False] obtain user key d s where m: "t = later" "ae_parse ae q \<noteq> None" "response_cache_user_id ctx = (True, user)"
        "compute_response_cache_key sha h (gq_variables rq) user = Inr key" "sl = slot key ctx" "response_object res = Some d" "is_cacheable_response d"
        "response_to_store ae q (gq_operation rq) (filter (\<lambda>(k, v). k \<noteq> ''extensions'') d) = Inr s" "column s = Some c" by blast
      have "Arrives now rq ctx \<in> set ?evs" using arr by simp
      with m fin hq show ?thesis unfolding made_def sent by blast
    qed
    moreover have "set (take i (aw_pending w) @ drop (Suc i) (aw_pending w)) \<subseteq> set (aw_pending w)"
      by (auto dest: in_set_takeD in_set_dropD)
    ultimately show ?thesis
      using kept st(1-3) True p by (fastforce simp: traced_def known_def simp flip: b_def)
  qed (use kept in simp)
qed

lemma traced_run:
  assumes "ae_backend ae = bk" "ae_sha ae = sha" "arrivals_ok evs"
    and "ok b" "known (g, b) = {}" "answers b = {}" "lifetime b = ttl"
  shows "traced ae cfg gt \<lparr>aw_global = g, aw_backend = b, aw_pending = []\<rparr> ttl evs (run_events ae cfg gt evs \<lparr>aw_global = g, aw_backend = b, aw_pending = []\<rparr>)"
  using assms(3)
proof (induction evs rule: rev_induct)
  case Nil
  then show ?case using assms(4-7) by (simp add: traced_def run_events_def)
next
  case (snoc e evs)
  let ?start = "\<lparr>aw_global = g, aw_backend = b, aw_pending = []\<rparr>"
  have "arrivals_ok evs" using snoc.prems by (auto simp: arrivals_ok_def)
  with snoc.IH have tr: "traced ae cfg gt ?start ttl evs (run_events ae cfg gt evs ?start)" .
  have "run_events ae cfg gt (evs @ [e]) ?start = apq_step ae cfg gt e (run_events ae cfg gt evs ?start)" by (simp add: run_events_def)
  moreover have "traced ae cfg gt ?start ttl (evs @ [e]) (apq_step ae cfg gt e (run_events ae cfg gt evs ?start))"
  proof (cases e)
    case (Arrives now rq ctx)
    then have "proper_tenant ctx" using snoc.prems by (auto simp: arrivals_ok_def)
    with traced_arrives [OF tr assms(1,2)] Arrives show ?thesis by blast
  next
    case (Finished later i res)
    with traced_finished [OF tr assms(1,2) \<open>arrivals_ok evs\<close> refl] show ?thesis by blast
  qed
  ultimately show ?case by simp
qed

text \<open>A response that is served was made for the request.\<close>

lemma served_is_own:
  assumes "ae_backend ae = bk" "ae_sha ae = sha" "arrivals_ok (evs @ [Arrives now rq ctx])"
    and "ok b" "known (g, b) = {}" "answers b = {}" "lifetime b = ttl"
    and "outcome ae cfg gt now rq ctx (run_events ae cfg gt evs \<lparr>aw_global = g, aw_backend = b, aw_pending = []\<rparr>) = Served r"
    and "get_apq_hash rq = Some (sha q0)" "ae_parse ae q0 \<noteq> None" "graphql_parser (ae_parse ae)"
    and "\<forall>s. hex64 (sha s)" "inj_on sha (insert q0 (digested_texts (evs @ [Arrives now rq ctx])))"
  shows "own_response ae cfg gt \<lparr>aw_global = g, aw_backend = b, aw_pending = []\<rparr> column ttl evs now rq ctx (sha q0) r"
proof -
  let ?start = "\<lparr>aw_global = g, aw_backend = b, aw_pending = []\<rparr>"
  let ?w = "run_events ae cfg gt evs ?start" and ?evs = "evs @ [Arrives now rq ctx]"
  have ok_evs: "arrivals_ok evs" and here: "proper_tenant ctx" "variables_ok (gq_variables rq)" using assms(3) by (auto simp: arrivals_ok_def)
  have tr: "traced ae cfg gt ?start ttl evs ?w" by (rule traced_run) (use assms ok_evs in auto)
  then have okw: "ok (aw_backend ?w)" "lifetime (aw_backend ?w) = ttl" by (auto simp: traced_def)
  obtain st' where acc: "accept_request ae cfg gt now rq ctx (aw_global ?w, aw_backend ?w) = (Served r, st')"
    using assms(8) unfolding outcome_def by (metis prod.collapse)
  have "\<exists>b'. handle_apq_request_with_cache ae cfg now rq ctx (aw_backend ?w) = (Some r, b')"
    using accept_quiet(6) [OF _ assms(1,2) here(1) acc refl] okw(1) by simp
  then obtain b' where "handle_apq_request_with_cache ae cfg now rq ctx (aw_backend ?w) = (Some r, b')" by blast
  from lookup_quiet(2) [OF okw(1) assms(1) here(1) this refl, unfolded okw(2) assms(2)] obtain h' user key c t where
    look': "get_apq_hash rq = Some h'" and look: "response_cache_user_id ctx = (True, user)"
    "compute_response_cache_key sha h' (gq_variables rq) user = Inr key"
    "(slot key ctx, c, t) \<in> answers (aw_backend ?w)" "\<forall>n. ttl = Some n \<longrightarrow> now - t < of_int n"
    "r = c \<or> (\<exists>fr sels. filter_response (ae_fuel ae) fr sels c = Inr r)" by blast
  have h': "h' = sha q0" using look' assms(9) by simp
  from tr look(3) have "made ae cfg gt ?start evs (slot key ctx) c t" by (simp add: traced_def)
  then obtain rq' ctx' h q res user' key' d s now' where m: "finished ae cfg gt ?start evs t (rq', ctx', h, q) res"
    "Arrives now' rq' ctx' \<in> set evs" "get_apq_hash rq' = Some h" "sha q = h" "q \<in> queries_sent evs" "ae_parse ae q \<noteq> None"
    "response_cache_user_id ctx' = (True, user')" "compute_response_cache_key sha h (gq_variables rq') user' = Inr key'"
    "slot key ctx = slot key' ctx'" "response_object res = Some d" "is_cacheable_response d"
    "response_to_store ae q (gq_operation rq') (filter (\<lambda>(k, v). k \<noteq> ''extensions'') d) = Inr s" "column s = Some c"
    unfolding made_def by blast
  have there: "proper_tenant ctx'" "variables_ok (gq_variables rq')" using m(2) ok_evs by (auto simp: arrivals_ok_def)
  obtain a where a: "response_key_text (sha q0) (gq_variables rq) user = Inr a" "key = digested_key sha (sha q0) a"
    using look(2) h' by (auto simp: compute_response_cache_key_def digested_key_def rbind_eq_Inr)
  obtain a' where a': "response_key_text h (gq_variables rq') user' = Inr a'" "key' = digested_key sha h a'"
    using m(8) by (auto simp: compute_response_cache_key_def digested_key_def rbind_eq_Inr)
  have hex: "hex64 (sha q0)" "hex64 h" "hex64 key" "hex64 key'" using assms(12) m(4) a(2) a'(2) by (auto simp: digested_key_def split: option.splits)
  from slot_inj [OF hex(3,4) here(1) there(1) m(9)] have key: "key = key'" and tenant: "tenant_text ctx = tenant_text ctx'" by blast+
  have dig: "a = Some x \<Longrightarrow> x \<in> digested_texts ?evs" "a' = Some x \<Longrightarrow> x \<in> digested_texts ?evs" for x
    using a(1) a'(1) look(1) m(2,3,7) assms(9) unfolding digested_texts_def by fastforce+
  have qin: "q \<in> digested_texts ?evs" using m(5) by (auto simp: digested_texts_def queries_sent_def)
  have none: "a = Some x \<Longrightarrow> ae_parse ae x = None" "a' = Some x \<Longrightarrow> ae_parse ae x = None" for x
    using key_text_no_document [OF assms(11) hex(1)] key_text_no_document [OF assms(11) hex(2)] a(1) a'(1) by blast+
  have "sha q0 = h \<and> user = user' \<and> variables_text (gq_variables rq) = variables_text (gq_variables rq')"
  proof (rule response_key_inj [OF a(1) a'(1) _ hex(1,2) here(2) there(2)])
    show "digested_key sha (sha q0) a = digested_key sha h a'" using key a(2) a'(2) by simp
    show "x = y" if "a = Some x" "a' = Some y" "sha x = sha y" for x y
      using inj_onD [OF assms(13) that(3)] dig that(1,2) by blast
    show "h \<noteq> sha x" if "a = Some x" for x
      using inj_onD [OF assms(13), of q x] m(4,6) none(1) [OF that] dig(1) [OF that] qin by auto
    show "sha q0 \<noteq> sha x" if "a' = Some x" for x
      using inj_onD [OF assms(13), of q0 x] assms(10) none(2) [OF that] dig(2) [OF that] by auto
  qed
  then show ?thesis unfolding own_response_def
    using m look(1,4,5) tenant assms(2) by (intro exI [of _ t] exI [of _ rq'] exI [of _ ctx'] exI [of _ q] exI [of _ res] exI [of _ d] exI [of _ s] exI [of _ c]) simp
qed

end

subsection \<open>The two backends keep the promise\<close>

definition stored_time :: "apq_memory \<Rightarrow> string \<Rightarrow> rat" where
  "stored_time m k = (case map_of (am_stored_at m) k of Some t \<Rightarrow> t | None \<Rightarrow> 0)"

definition memory_answers :: "apq_memory \<Rightarrow> (string \<times> pydict \<times> rat) set" where
  "memory_answers m = {(k, r, t). map_of (am_responses m) k = Some r \<and> t = stored_time m k}"

lemma drop_expired_facts:
  "am_queries (drop_expired now k m) = am_queries m" "am_ttl (drop_expired now k m) = am_ttl m"
  "memory_answers (drop_expired now k m) \<subseteq> memory_answers m"
  "map_of (am_responses (drop_expired now k m)) k = Some r \<Longrightarrow> am_ttl m = Some ttl \<Longrightarrow> now - stored_time m k < of_int ttl"
  "map_of (am_responses (drop_expired now k m)) k = Some r \<Longrightarrow> map_of (am_responses m) k = Some r"
  by (auto simp: drop_expired_def memory_answers_def stored_time_def delete_conv split: option.splits if_splits)

lemma colon_split:
  assumes "list_all hex_char k" "list_all hex_char k'" "length k = length k'" "a @ k = b @ k'"
  shows "a = b \<and> k = k'"
  using assms(3,4) by simp

lemma memory_slot_inj:
  assumes "hex64 k" "hex64 k'" "proper_tenant c" "proper_tenant c'" "memory_cache_key k c = memory_cache_key k' c'"
  shows "k = k' \<and> tenant_text c = tenant_text c'"
proof -
  have key: "memory_cache_key k c = (case tenant_text c of Some t \<Rightarrow> t @ '':'' | None \<Rightarrow> []) @ k" for k c
    by (simp add: memory_cache_key_def tenant_text_def Let_def)
  have "length k = length k'" using assms(1,2) by (simp add: hex64_def)
  with assms(5) have eq: "k = k'" "(case tenant_text c of Some t \<Rightarrow> t @ '':'' | None \<Rightarrow> []) = (case tenant_text c' of Some t \<Rightarrow> t @ '':'' | None \<Rightarrow> [])"
    unfolding key by (auto simp: append_eq_append_conv)
  from eq(2) have "tenant_text c = tenant_text c'" by (auto split: option.splits)
  with eq(1) show ?thesis by simp
qed

interpretation mem: apq_store "memory_backend sha" sha "\<lambda>m. set (am_queries m)" memory_answers memory_cache_key Some am_ttl "\<lambda>m. True"
  for sha
proof unfold_locales
  fix b b' h q
  assume "bk_get_query (memory_backend sha) h b = (q, b')"
  then show "True \<and> set (am_queries b') \<subseteq> set (am_queries b) \<and> memory_answers b' = memory_answers b \<and> am_ttl b' = am_ttl b
      \<and> (\<forall>t. q = Some t \<longrightarrow> (h, t) \<in> set (am_queries b))"
    by (auto simp: memory_backend_def memory_get_query_def dest: map_of_SomeD split: if_splits)
next
  fix b b' h t r
  assume "bk_store_query (memory_backend sha) h t b = (r, b')"
  then show "True \<and> set (am_queries b') \<subseteq> set (am_queries b) \<union> (if sha t = h then {(h, t)} else {}) \<and> memory_answers b' = memory_answers b \<and> am_ttl b' = am_ttl b"
    by (auto simp: memory_backend_def memory_store_query_def check_query_hash_def compute_query_hash_def memory_answers_def stored_time_def
        split: if_splits dest!: update_elements)
next
  fix b b' c now k a
  assume g: "bk_get_response (memory_backend sha) now k c b = (a, b')"
  show "True \<and> set (am_queries b') = set (am_queries b) \<and> memory_answers b' \<subseteq> memory_answers b \<and> am_ttl b' = am_ttl b
      \<and> (\<forall>d. a = Some d \<longrightarrow> (\<exists>t. (memory_cache_key k c, d, t) \<in> memory_answers b \<and> (\<forall>ttl. am_ttl b = Some ttl \<longrightarrow> now - t < of_int ttl)))"
    using g drop_expired_facts [of now "memory_cache_key k c" b]
    by (auto simp: memory_backend_def memory_get_response_def Let_def memory_answers_def split: if_splits)
next
  fix b b' c now k d
  assume "b' = bk_store_response (memory_backend sha) now k d c b"
  then show "True \<and> set (am_queries b') = set (am_queries b) \<and> am_ttl b' = am_ttl b
      \<and> memory_answers b' \<subseteq> memory_answers b \<union> {(memory_cache_key k c, e, now) | e. Some d = Some e}"
    by (auto simp: memory_backend_def memory_store_response_def Let_def memory_answers_def stored_time_def update_conv' split: if_splits)
qed (rule memory_slot_inj)

definition postgres_answers :: "apq_postgres \<Rightarrow> ((string \<times> string) \<times> pydict \<times> rat) set" where
  "postgres_answers b = {(k, d, t). \<exists>tenant. (k, tenant, d, t) \<in> set (ap_responses b)}"

definition postgres_slot :: "string \<Rightarrow> pydict option \<Rightarrow> string \<times> string" where
  "postgres_slot k c = (k, case tenant_text c of Some t \<Rightarrow> t | None \<Rightarrow> [])"

text \<open>The key of a row is that of its tenant.\<close>

definition rows_ok :: "apq_postgres \<Rightarrow> bool" where
  "rows_ok b \<longleftrightarrow> (\<forall>(k, row) \<in> set (ap_responses b). snd k = (case fst row of Some t \<Rightarrow> t | None \<Rightarrow> []))"

lemma postgres_slot_inj:
  assumes "proper_tenant c" "proper_tenant c'" "postgres_slot k c = postgres_slot k' c'"
  shows "k = k' \<and> tenant_text c = tenant_text c'"
proof -
  have "tenant_text c \<noteq> Some []" if "proper_tenant c" for c using that by (auto simp: proper_tenant_def tenant_text_def Let_def)
  with assms show ?thesis by (auto simp: postgres_slot_def split: option.splits)
qed

lemma tenant_parameter_proper:
  assumes "proper_tenant c" "tenant_parameter varchar (extract_tenant_id c) = Some tenant"
  shows "(case tenant of Some t \<Rightarrow> t | None \<Rightarrow> []) = (case tenant_text c of Some t \<Rightarrow> t | None \<Rightarrow> [])"
proof -
  have "py_str (PStr []) = []" by (simp add: py_str_def)
  with assms show ?thesis by (auto simp: tenant_parameter_def proper_tenant_def tenant_text_def Let_def split: if_splits)
qed

lemma response_row_slot:
  assumes "rows_ok b" "response_row varchar now k c b = Some (k', tenant, d, t)"
  shows "(postgres_slot k c, d, t) \<in> postgres_answers b" "ap_ttl b = Some ttl \<Longrightarrow> now - t < of_int ttl"
proof -
  have k': "(k', tenant, d, t) \<in> set (ap_responses b)" "fst k' = k" "live_row (ap_ttl b) now t" "tenant = tenant_text c"
    using assms(2)
    by (auto simp: response_row_def tenant_parameter_def tenant_text_def Let_def dest!: find_Some_D split: if_splits option.splits)
  then have "snd k' = (case tenant_text c of Some t \<Rightarrow> t | None \<Rightarrow> [])" using assms(1) by (fastforce simp: rows_ok_def)
  with k' have "k' = postgres_slot k c" by (cases k') (simp add: postgres_slot_def)
  with k'(1) show "(postgres_slot k c, d, t) \<in> postgres_answers b" by (auto simp: postgres_answers_def)
  show "now - t < of_int ttl" if "ap_ttl b = Some ttl" using k'(3) that by (simp add: live_row_def)
qed

lemma texts_keep_rows [simp]:
  "rows_ok (b\<lparr>ap_texts := x\<rparr>) = rows_ok b" "rows_ok (b\<lparr>ap_queries := y\<rparr>) = rows_ok b"
  "postgres_answers (b\<lparr>ap_texts := x\<rparr>) = postgres_answers b" "postgres_answers (b\<lparr>ap_queries := y\<rparr>) = postgres_answers b"
  by (simp_all add: rows_ok_def postgres_answers_def)

lemma postgres_query_known:
  assumes "postgres_get_query h b = (q, b')"
  shows "b' = b \<or> (\<exists>t. (h, t) \<in> set (ap_queries b) \<and> b' = b\<lparr>ap_texts := AList.update h t (ap_texts b)\<rparr>)"
    "q = Some t \<Longrightarrow> (h, t) \<in> set (ap_queries b) \<union> set (ap_texts b)"
proof -
  have "(b' = b \<or> (\<exists>t. (h, t) \<in> set (ap_queries b) \<and> b' = b\<lparr>ap_texts := AList.update h t (ap_texts b)\<rparr>))
      \<and> (q = Some t \<longrightarrow> (h, t) \<in> set (ap_queries b) \<union> set (ap_texts b))"
  proof (cases "h = []")
    case False
    show ?thesis
    proof (cases "map_of (ap_texts b) h")
      case None
      then show ?thesis using False assms map_of_SomeD [of "ap_queries b" h]
        by (cases "if ap_up b then map_of (ap_queries b) h else None") (auto simp: postgres_get_query_def split: if_splits)
    next
      case (Some u)
      then show ?thesis using False assms map_of_SomeD [OF Some] by (auto simp: postgres_get_query_def)
    qed
  qed (use assms in \<open>simp add: postgres_get_query_def\<close>)
  then show "b' = b \<or> (\<exists>t. (h, t) \<in> set (ap_queries b) \<and> b' = b\<lparr>ap_texts := AList.update h t (ap_texts b)\<rparr>)"
    "q = Some t \<Longrightarrow> (h, t) \<in> set (ap_queries b) \<union> set (ap_texts b)" by blast+
qed

interpretation pgq: apq_store "postgres_backend sha varchar column" sha "\<lambda>b. set (ap_queries b) \<union> set (ap_texts b)" postgres_answers postgres_slot column ap_ttl rows_ok
  for sha varchar column
proof unfold_locales
  fix b b' h q
  assume "rows_ok b" "bk_get_query (postgres_backend sha varchar column) h b = (q, b')"
  then show "rows_ok b' \<and> set (ap_queries b') \<union> set (ap_texts b') \<subseteq> set (ap_queries b) \<union> set (ap_texts b) \<and> postgres_answers b' = postgres_answers b
      \<and> ap_ttl b' = ap_ttl b \<and> (\<forall>t. q = Some t \<longrightarrow> (h, t) \<in> set (ap_queries b) \<union> set (ap_texts b))"
    using postgres_query_known [of h b q b'] by (auto simp: postgres_backend_def dest!: update_elements)
next
  fix b b' h t r
  assume "rows_ok b" "bk_store_query (postgres_backend sha varchar column) h t b = (r, b')"
  then show "rows_ok b' \<and> set (ap_queries b') \<union> set (ap_texts b') \<subseteq> set (ap_queries b) \<union> set (ap_texts b) \<union> (if sha t = h then {(h, t)} else {})
      \<and> postgres_answers b' = postgres_answers b \<and> ap_ttl b' = ap_ttl b"
    by (auto simp: postgres_backend_def postgres_store_query_def check_query_hash_def compute_query_hash_def
        split: if_splits dest!: update_elements)
next
  fix b b' c now k a
  assume b: "rows_ok b" and g: "bk_get_response (postgres_backend sha varchar column) now k c b = (a, b')"
  have same: "b' = b" using g by (auto simp: postgres_backend_def postgres_get_response_def split: if_splits)
  have "\<exists>t. (postgres_slot k c, d, t) \<in> postgres_answers b \<and> (\<forall>ttl. ap_ttl b = Some ttl \<longrightarrow> now - t < of_int ttl)" if a: "a = Some d" for d
  proof -
    obtain k' tenant t where row: "response_row varchar now k c b = Some (k', tenant, d, t)"
      using g a by (auto simp: postgres_backend_def postgres_get_response_def split: if_splits)
    show ?thesis using response_row_slot(1) [OF b row] response_row_slot(2) [OF b row] by blast
  qed
  with same b show "rows_ok b' \<and> set (ap_queries b') \<union> set (ap_texts b') = set (ap_queries b) \<union> set (ap_texts b) \<and> postgres_answers b' \<subseteq> postgres_answers b
      \<and> ap_ttl b' = ap_ttl b \<and> (\<forall>d. a = Some d \<longrightarrow> (\<exists>t. (postgres_slot k c, d, t) \<in> postgres_answers b \<and> (\<forall>ttl. ap_ttl b = Some ttl \<longrightarrow> now - t < of_int ttl)))"
    by simp
next
  fix b b' c now k d
  assume b: "rows_ok b" and c: "proper_tenant c" and b': "b' = bk_store_response (postgres_backend sha varchar column) now k d c b"
  have "b' = b \<or> (\<exists>tenant e row. column d = Some e \<and> row = (fst row, e, now) \<and> (case fst row of Some t \<Rightarrow> t | None \<Rightarrow> []) = snd (postgres_slot k c)
      \<and> b' = b\<lparr>ap_responses := AList.update (postgres_slot k c) row (ap_responses b)\<rparr>)"
  proof (cases "tenant_parameter varchar (extract_tenant_id c) = None \<or> column d = None \<or> \<not> ap_up b")
    case True
    then show ?thesis using b' by (auto simp: postgres_backend_def postgres_store_response_def split: option.splits)
  next
    case False
    then obtain tenant e where te: "tenant_parameter varchar (extract_tenant_id c) = Some tenant" "column d = Some e" "ap_up b" by auto
    have k: "(k, case tenant of Some t \<Rightarrow> t | None \<Rightarrow> []) = postgres_slot k c" using tenant_parameter_proper [OF c te(1)] by (simp add: postgres_slot_def)
    show ?thesis
    proof (cases "map_of (ap_responses b) (postgres_slot k c)")
      case None
      then show ?thesis using b' te k tenant_parameter_proper [OF c te(1)]
        by (auto simp: postgres_backend_def postgres_store_response_def Let_def postgres_slot_def)
    next
      case (Some row)
      then have "(postgres_slot k c, row) \<in> set (ap_responses b)" by (rule map_of_SomeD)
      then have "snd (postgres_slot k c) = (case fst row of Some t \<Rightarrow> t | None \<Rightarrow> [])" using b by (fastforce simp: rows_ok_def)
      with Some show ?thesis using b' te k
        by (intro disjI2 exI [of _ tenant] exI [of _ e] exI [of _ "(fst row, e, now)"])
          (simp add: postgres_backend_def postgres_store_response_def Let_def, intro exI [of _ "fst row"] conjI refl)
    qed
  qed
  then show "rows_ok b' \<and> set (ap_queries b') \<union> set (ap_texts b') = set (ap_queries b) \<union> set (ap_texts b) \<and> ap_ttl b' = ap_ttl b
      \<and> postgres_answers b' \<subseteq> postgres_answers b \<union> {(postgres_slot k c, e, now) | e. column d = Some e}"
    using b by (auto simp: rows_ok_def postgres_answers_def dest!: update_elements) (metis snd_conv, fastforce)
qed (rule postgres_slot_inj)

subsection \<open>Properties\<close>

text \<open>
  C18: A cached response is the requester's own, when the hash that is sent is the digest of a document.  When
  a persisted query is answered from the PostgreSQL cache, after any requests in any interleaving, the answer was executed for a request with the same
  persisted query, variables, user and tenant, whose text has the hash, without errors, less than the lifetime
  ago; only the filter of the selection has been applied to it.  This supposes that the digest has no
  collision among the texts at hand, that the tenants are missing, empty or values with a text and the
  variables JSON values (\<open>arrivals_ok\<close>), and that the hash asked for is the digest of a document: a hash that is not
  reads the response of another user (\<open>derived_hash_reads_others\<close>).
\<close>

theorem cached_response_is_own:
  assumes "ae_backend ae = postgres_backend (ae_sha ae) varchar column" "arrivals_ok (evs @ [Arrives now rq ctx])"
    and "outcome ae cfg gt now rq ctx
           (run_events ae cfg gt evs \<lparr>aw_global = new_apq_memory gttl, aw_backend = new_apq_postgres up ttl, aw_pending = []\<rparr>) = Served r"
    and "get_apq_hash rq = Some (ae_sha ae q0)" "ae_parse ae q0 \<noteq> None" "graphql_parser (ae_parse ae)"
    and "\<forall>s. hex64 (ae_sha ae s)" "inj_on (ae_sha ae) (insert q0 (digested_texts (evs @ [Arrives now rq ctx])))"
  shows "own_response ae cfg gt \<lparr>aw_global = new_apq_memory gttl, aw_backend = new_apq_postgres up ttl, aw_pending = []\<rparr> column
           (if ttl = Some 0 then None else ttl) evs now rq ctx (ae_sha ae q0) r"
  by (rule pgq.served_is_own [OF assms(1) refl assms(2) _ _ _ _ assms(3-8)])
    (simp_all add: rows_ok_def postgres_answers_def new_apq_postgres_def new_apq_memory_def pgq.known_def)

text \<open>The same of the cache in memory.\<close>

lemma memory_response_is_own:
  assumes "ae_backend ae = memory_backend (ae_sha ae)" "arrivals_ok (evs @ [Arrives now rq ctx])"
    and "outcome ae cfg gt now rq ctx
           (run_events ae cfg gt evs \<lparr>aw_global = new_apq_memory gttl, aw_backend = new_apq_memory ttl, aw_pending = []\<rparr>) = Served r"
    and "get_apq_hash rq = Some (ae_sha ae q0)" "ae_parse ae q0 \<noteq> None" "graphql_parser (ae_parse ae)"
    and "\<forall>s. hex64 (ae_sha ae s)" "inj_on (ae_sha ae) (insert q0 (digested_texts (evs @ [Arrives now rq ctx])))"
  shows "own_response ae cfg gt \<lparr>aw_global = new_apq_memory gttl, aw_backend = new_apq_memory ttl, aw_pending = []\<rparr> Some
           (if ttl = Some 0 then None else ttl) evs now rq ctx (ae_sha ae q0) r"
  by (rule mem.served_is_own [OF assms(1) refl assms(2) _ _ _ _ assms(3-8)])
    (simp_all add: memory_answers_def new_apq_memory_def mem.known_def)

text \<open>
  C20: Filtering a response changes nothing that was asked for, when no response key is selected twice with
  different sub-selections.  Of a response that fits the selection set of its document (\<open>fits\<close>), fragments
  written out, the filter of the cache keeps everything, at every depth, when the recursion limit is above the
  sizes of the two.  A key that is selected twice loses fields: see \<open>repeated_key_overwritten\<close>.
\<close>

theorem filter_keeps_response:
  assumes "ranked fr rank" "\<forall>m \<in> spreads_all sels. rank m < K" "fits (map (expand fr K) sels) v"
    and "size_list size (map (expand fr K) sels) + size v < k" "map_of resp ''data'' = Some v"
  shows "filter_response k fr sels resp = Inr resp"
  using filter_keeps(1) [OF assms(1-4)] update_same [OF assms(5)] assms(5) by (simp add: filter_response_def)

subsection \<open>Examples\<close>

definition toy_sha :: "string \<Rightarrow> string" where
  "toy_sha s = replicate 63 CHR ''0'' @ [''0123456789abcdef'' ! (length s mod 16)]"

definition toy_parse :: parser where
  "toy_parse s =
     (if s = ''{ me }'' then Some [OperationDef QueryOp None [Field None ''me'' [] None]]
      else if s = ''query A { x: me } query B { x: you }''
      then Some [OperationDef QueryOp (Some ''A'') [Field (Some ''x'') ''me'' [] None], OperationDef QueryOp (Some ''B'') [Field (Some ''x'') ''you'' [] None]]
      else None)"

definition toy_env :: "apq_postgres apq_env" where
  "toy_env = \<lparr>ae_backend = postgres_backend toy_sha (\<lambda>t. True) Some, ae_sha = toy_sha, ae_parse = toy_parse, ae_fuel = 100\<rparr>"

definition toy_config :: "apq_mode \<Rightarrow> apq_config" where
  "toy_config m = \<lparr>aq_mode = m, aq_cache_responses = True, aq_auth_enabled = False, aq_introspection_allowed = False\<rparr>"

definition open_gates :: gates where "open_gates = \<lparr>gt_authorizer = None, gt_fields = (\<lambda>q c v. Inr ())\<rparr>"

definition hash_request :: "string option \<Rightarrow> string option \<Rightarrow> string \<Rightarrow> gql_request" where
  "hash_request q op h =
     \<lparr>gq_query = q, gq_variables = None, gq_operation = op,
      gq_extensions = Some [(''persistedQuery'', PDict [(''version'', PInt 1), (''sha256Hash'', PStr h)])]\<rparr>"

definition alice :: "pydict option" where "alice = Some [(''user'', PDict [(''user_id'', PStr ''alice'')])]"

definition toy_world :: "apq_postgres apq_world" where
  "toy_world = \<lparr>aw_global = new_apq_memory None, aw_backend = new_apq_postgres True (Some 60), aw_pending = []\<rparr>"

definition toy_events :: "pydict option \<Rightarrow> string \<Rightarrow> string option \<Rightarrow> apq_event list" where
  "toy_events c q op =
     [Arrives 0 (hash_request (Some q) op (toy_sha q)) c,
      Finished 1 0 (Answered [(''data'', PDict [(if op = None then ''me'' else ''x'', PInt 7)]), (''extensions'', PNone)])]"

lemma alice_served:
  "outcome toy_env (toy_config Optional) open_gates 2 (hash_request None None (toy_sha ''{ me }'')) alice
     (run_events toy_env (toy_config Optional) open_gates (toy_events alice ''{ me }'' None) toy_world) = Served [(''data'', PDict [(''me'', PInt 7)])]"
  by code_simp

lemma toy_sha_hex: "hex64 (toy_sha s)"
proof -
  have "\<forall>c \<in> set ''0123456789abcdef''. hex_char c" by (simp add: hex_char_def is_digit_def)
  moreover have "''0123456789abcdef'' ! (length s mod 16) \<in> set ''0123456789abcdef''" by (rule nth_mem) simp
  ultimately have "hex_char (''0123456789abcdef'' ! (length s mod 16))" by blast
  then show ?thesis by (simp add: hex64_def toy_sha_def hex_char_def is_digit_def list_all_iff)
qed

lemma toy_parser: "graphql_parser toy_parse"
proof -
  have "h @ '':'' @ s \<noteq> ''{ me }''" "h @ '':'' @ s \<noteq> ''query A { x: me } query B { x: you }''" if "hex64 h" for h s
    using that by (cases h; auto simp: hex64_def hex_char_def is_digit_def)+
  then show ?thesis by (simp add: graphql_parser_def toy_parse_def)
qed

lemma alice_key: "response_key_text (toy_sha ''{ me }'') None (Some ''alice'') = Inr (Some (''user:['' @ json_str (toy_sha ''{ me }'') @ '',{},'' @ json_str ''alice'' @ '']''))"
  by code_simp

lemma alice_texts:
  "digested_texts (toy_events alice ''{ me }'' None @ [Arrives 2 (hash_request None None (toy_sha ''{ me }'')) alice])
     \<subseteq> {''{ me }'', ''user:['' @ json_str (toy_sha ''{ me }'') @ '',{},'' @ json_str ''alice'' @ '']''}"
proof -
  have "snd (response_cache_user_id alice) = Some ''alice''" by code_simp
  then show ?thesis using alice_key
    by (auto simp: digested_texts_def queries_sent_def toy_events_def hash_request_def get_apq_hash_def persisted_query_def)
qed

lemma alice_ok: "arrivals_ok (toy_events alice q op @ [Arrives 2 (hash_request None None h) alice])"
proof -
  have "proper_tenant alice" by (simp add: proper_tenant_def alice_def extract_tenant_id_def get_or_none_def)
  then show ?thesis by (auto simp: arrivals_ok_def toy_events_def variables_ok_def hash_request_def)
qed

theorem cached_response_is_own_witness:
  "own_response toy_env (toy_config Optional) open_gates toy_world Some (Some 60) (toy_events alice ''{ me }'' None) 2
     (hash_request None None (toy_sha ''{ me }'')) alice (toy_sha ''{ me }'') [(''data'', PDict [(''me'', PInt 7)])]"
proof -
  have sha: "ae_sha toy_env = toy_sha" by (simp add: toy_env_def)
  have "own_response toy_env (toy_config Optional) open_gates \<lparr>aw_global = new_apq_memory None, aw_backend = new_apq_postgres True (Some 60), aw_pending = []\<rparr> Some
     (if Some 60 = Some (0 :: int) then None else Some 60) (toy_events alice ''{ me }'' None) 2
     (hash_request None None (toy_sha ''{ me }'')) alice (ae_sha toy_env ''{ me }'') [(''data'', PDict [(''me'', PInt 7)])]"
  proof (rule cached_response_is_own)
    show "ae_backend toy_env = postgres_backend (ae_sha toy_env) (\<lambda>t. True) Some" by (simp add: toy_env_def)
    show "outcome toy_env (toy_config Optional) open_gates 2 (hash_request None None (toy_sha ''{ me }'')) alice
        (run_events toy_env (toy_config Optional) open_gates (toy_events alice ''{ me }'' None)
          \<lparr>aw_global = new_apq_memory None, aw_backend = new_apq_postgres True (Some 60), aw_pending = []\<rparr>) = Served [(''data'', PDict [(''me'', PInt 7)])]"
      using alice_served by (simp add: toy_world_def)
    show "get_apq_hash (hash_request None None (toy_sha ''{ me }'')) = Some (ae_sha toy_env ''{ me }'')"
      by (simp add: sha get_apq_hash_def persisted_query_def hash_request_def)
    show "ae_parse toy_env ''{ me }'' \<noteq> None" by (simp add: toy_env_def toy_parse_def)
    show "graphql_parser (ae_parse toy_env)" using toy_parser by (simp add: toy_env_def)
    show "inj_on (ae_sha toy_env) (insert ''{ me }'' (digested_texts (toy_events alice ''{ me }'' None @ [Arrives 2 (hash_request None None (toy_sha ''{ me }'')) alice])))"
    proof -
      have "toy_sha (''user:['' @ json_str (toy_sha ''{ me }'') @ '',{},'' @ json_str ''alice'' @ '']'') \<noteq> toy_sha ''{ me }''" by code_simp
      then have "inj_on toy_sha {''{ me }'', ''user:['' @ json_str (toy_sha ''{ me }'') @ '',{},'' @ json_str ''alice'' @ '']''}"
        by (simp add: inj_on_def)
      then show ?thesis unfolding sha by (rule inj_on_subset) (use alice_texts in blast)
    qed
  qed (use alice_ok toy_sha_hex sha in simp_all)
  then show ?thesis unfolding sha toy_world_def by simp
qed

text \<open>
  A key is an answer to the hash it is: an anonymous request that sends the digest of the text of Alice's key,
  which holds nothing secret, is answered with the response that was executed for Alice.
\<close>

lemma derived_hash_reads_others:
  "outcome toy_env (toy_config Optional) open_gates 2
     (hash_request None None (toy_sha (''user:['' @ json_str (toy_sha ''{ me }'') @ '',{},'' @ json_str ''alice'' @ '']''))) None
     (run_events toy_env (toy_config Optional) open_gates (toy_events alice ''{ me }'' None) toy_world)
   = Served [(''data'', PDict [(''me'', PInt 7)])]"
  by code_simp

text \<open>
  The name of the operation is not part of the key: of a document with two operations, the response of \<open>A\<close> is
  served to a request for \<open>B\<close>.
\<close>

lemma other_operation_served:
  "outcome toy_env (toy_config Optional) open_gates 2
     (hash_request None (Some ''B'') (toy_sha ''query A { x: me } query B { x: you }'')) None
     (run_events toy_env (toy_config Optional) open_gates (toy_events None ''query A { x: me } query B { x: you }'' (Some ''A'')) toy_world)
   = Served [(''data'', PDict [(''x'', PInt 7)])]"
  by code_simp

text \<open>
  A key that is selected twice keeps the fields of its last selection only, and an alias that was skipped
  comes back when its field is in the response under its own name.
\<close>

lemma repeated_key_overwritten:
  "filter_data 10 [] [Field None ''user'' [] (Some [Field None ''id'' [] None]), Field None ''user'' [] (Some [Field None ''name'' [] None])]
     (PDict [(''user'', PDict [(''id'', PInt 1), (''name'', PStr ''Ann'')])])
   = Inr (PDict [(''user'', PDict [(''name'', PStr ''Ann'')])])"
  "filter_data 10 [] [Field (Some ''nick'') ''name'' [] None, Field None ''name'' [] None] (PDict [(''name'', PStr ''Ann'')])
   = Inr (PDict [(''nick'', PStr ''Ann''), (''name'', PStr ''Ann'')])"
  by code_simp+

text \<open>The gate of a cached response asks about the first root field only.\<close>

lemma first_root_field_only:
  "first_operation [OperationDef QueryOp None [Field None ''public'' [] None, Field None ''secret'' [] None]] = (QueryOp, ''public'')"
  by simp

theorem filter_keeps_response_witness:
  "filter_response 100 [(''F'', ''User'', [Field None ''id'' [] None])]
     [Field None ''users'' [] (Some [Spread ''F'', Field None ''name'' [] None])]
     [(''data'', PDict [(''users'', PList [PDict [(''id'', PInt 1), (''name'', PStr ''Ann'')]])])]
   = Inr [(''data'', PDict [(''users'', PList [PDict [(''id'', PInt 1), (''name'', PStr ''Ann'')]])])]"
proof (rule filter_keeps_response [where rank = "\<lambda>n. 0" and K = 1])
  let ?row = "PDict [(''id'', PInt 1), (''name'', PStr ''Ann'')]"
  have row: "fits [Inline (Some ''User'') [Field None ''id'' [] None], Field None ''name'' [] None] ?row"
    by (rule fits_object) (auto simp: present_def add_key_def)
  have rows: "fits [Inline (Some ''User'') [Field None ''id'' [] None], Field None ''name'' [] None] (PList [?row])"
    by (rule fits_list) (use row in simp)
  show "fits (map (expand [(''F'', ''User'', [Field None ''id'' [] None])] 1) [Field None ''users'' [] (Some [Spread ''F'', Field None ''name'' [] None])])
      (PDict [(''users'', PList [?row])])"
    by (rule fits_object) (use rows in \<open>auto simp: present_def add_key_def numeral_eq_Suc\<close>)
qed (auto simp: ranked_def numeral_eq_Suc)

end
