(* ===== verification/RequiredMode.thy ===== *)
theory RequiredMode
  imports ApqProps
begin

section \<open>The required mode\<close>

text \<open>
  In the mode \<open>Required\<close> of \<open>fastapi/routers.py\<close> no request registers a text: the stores hold at any time
  texts that they held at the start, and only these run.  The interface \<open>apq_texts\<close> is what this needs of a
  backend; both backends keep it in every state, for any requests.
\<close>

locale apq_texts =
  fixes bk :: "'b apq_backend"
    and texts :: "'b \<Rightarrow> (string \<times> string) set"
  assumes get_query: "bk_get_query bk h b = (q, b') \<Longrightarrow> texts b' \<subseteq> texts b \<and> (\<forall>t. q = Some t \<longrightarrow> (h, t) \<in> texts b)"
    and get_response: "bk_get_response bk now k c b = (a, b') \<Longrightarrow> texts b' \<subseteq> texts b"
    and store_response: "texts (bk_store_response bk now k d c b) \<subseteq> texts b"
begin

definition held :: "apq_memory \<times> 'b \<Rightarrow> (string \<times> string) set" where
  "held st = set (am_queries (fst st)) \<union> texts (snd st)"

lemma known_text_held:
  assumes "ae_backend ae = bk" "known_text ae h st = (q, st')"
  shows "held st' \<subseteq> held st \<and> (\<forall>t. q = Some t \<longrightarrow> (h, t) \<in> held st)"
proof -
  obtain r b where r: "bk_get_query bk h (snd st) = (r, b)" by (cases "bk_get_query bk h (snd st)")
  have "\<forall>t. memory_get_query h (fst st) = Some t \<longrightarrow> (h, t) \<in> set (am_queries (fst st))"
    by (auto simp: memory_get_query_def dest: map_of_SomeD split: if_splits)
  with get_query [OF r] r assms show ?thesis
    by (auto simp: known_text_def held_def split: if_splits)
qed

lemma run_known_held:
  assumes "ae_backend ae = bk" "run_known ae cfg refusal h st = (out, st')"
  shows "held st' \<subseteq> held st \<and> (\<forall>q target. out = Run q target \<longrightarrow> (\<exists>t. q = Some t \<and> (h, t) \<in> held st))"
proof -
  obtain q0 st0 where k: "known_text ae h st = (q0, st0)" by (cases "known_text ae h st")
  from known_text_held [OF assms(1) k] k assms(2) show ?thesis by (auto simp: run_known_def split: option.splits if_splits)
qed

lemma lookup_held:
  assumes "ae_backend ae = bk" "handle_apq_request_with_cache ae cfg now rq ctx b = (cached, b')"
  shows "texts b' \<subseteq> texts b"
proof -
  obtain cacheable user where u: "response_cache_user_id ctx = (cacheable, user)" by (cases "response_cache_user_id ctx")
  show ?thesis
  proof (cases "\<exists>h key. (if aq_cache_responses cfg then get_apq_hash rq else None) = Some h \<and> h \<noteq> [] \<and> cacheable
      \<and> compute_response_cache_key (ae_sha ae) h (gq_variables rq) user = Inr key")
    case False
    then have "b' = b" using assms u by (auto simp: handle_apq_request_with_cache_def split: option.splits if_splits sum.splits)
    then show ?thesis by simp
  next
    case True
    then obtain h key where h: "(if aq_cache_responses cfg then get_apq_hash rq else None) = Some h" "h \<noteq> []" cacheable
      and key: "compute_response_cache_key (ae_sha ae) h (gq_variables rq) user = Inr key" by blast
    obtain a b1 where a: "bk_get_response bk now key ctx b = (a, b1)" by (cases "bk_get_response bk now key ctx b")
    obtain q b2 where q: "bk_get_query bk h b1 = (q, b2)" by (cases "bk_get_query bk h b1")
    have "texts b1 \<subseteq> texts b" "texts b2 \<subseteq> texts b1" using get_response [OF a] get_query [OF q] by blast+
    moreover have "b' = b1 \<or> b' = b2"
    proof (cases a)
      case None
      then show ?thesis using assms h u key a by (simp add: handle_apq_request_with_cache_def)
    next
      case (Some d)
      define sel where "sel = (case q of None \<Rightarrow> None | Some t \<Rightarrow> if t = [] then None else extract_selection_set (ae_parse ae) t (gq_operation rq))"
      define fr where "fr = extract_fragments (ae_parse ae) (the q)"
      have eq: "(cached, b') = (if d = [] then (None, b1)
          else case sel of
              None \<Rightarrow> (Some d, b2)
            | Some sels \<Rightarrow> (case filter_response (ae_fuel ae) fr sels d of Inl e \<Rightarrow> (None, b2) | Inr r \<Rightarrow> (Some r, b2)))"
        unfolding sel_def fr_def
        using assms h u key a Some q by (cases "d = []") (simp_all add: handle_apq_request_with_cache_def)
      show ?thesis
      proof (cases sel)
        case (Some sels)
        with eq show ?thesis by (cases "filter_response (ae_fuel ae) fr sels d") (auto split: if_splits)
      qed (use eq in \<open>simp split: if_splits\<close>)
    qed
    ultimately show ?thesis by blast
  qed
qed

lemma hash_only_held:
  assumes "ae_backend ae = bk" "hash_only ae cfg gt now h rq ctx st = (out, st')"
  shows "held st' \<subseteq> held st \<and> (\<forall>q target. out = Run q target \<longrightarrow> (\<exists>t. q = Some t \<and> (h, t) \<in> held st))"
proof -
  obtain cached b where c: "handle_apq_request_with_cache ae cfg now rq ctx (snd st) = (cached, b)"
    by (cases "handle_apq_request_with_cache ae cfg now rq ctx (snd st)")
  have sub: "held (fst st, b) \<subseteq> held st" using lookup_held [OF assms(1) c] by (auto simp: held_def)
  consider "run_known ae cfg PersistedQueryNotFound h (fst st, b) = (out, st')" | "st' = (fst st, b)" "\<forall>q target. out \<noteq> Run q target"
    using assms(2) c by (auto simp: hash_only_def split: option.splits if_splits sum.splits)
  then show ?thesis
  proof cases
    case 1
    from run_known_held [OF assms(1) this] sub show ?thesis by blast
  qed (use sub in simp)
qed

lemma required_held:
  assumes "ae_backend ae = bk" "aq_mode cfg = Required" "accept_request ae cfg gt now rq ctx st = (out, st')"
  shows "held st' \<subseteq> held st" "out = Run q target \<Longrightarrow> \<exists>h t. get_apq_hash rq = Some h \<and> q = Some t \<and> (h, t) \<in> held st"
proof -
  consider "st' = st" "\<forall>q target. out \<noteq> Run q target"
    | h where "get_apq_hash rq = Some h" "run_known ae cfg NotInList h st = (out, st')"
    | h where "get_apq_hash rq = Some h" "hash_only ae cfg gt now h rq ctx st = (out, st')"
    using assms(2,3)
    by (auto simp: accept_request_def allows_arbitrary_queries_def processes_apq_def split: if_splits option.splits)
  then have "held st' \<subseteq> held st \<and> (\<forall>q target. out = Run q target \<longrightarrow> (\<exists>h t. get_apq_hash rq = Some h \<and> q = Some t \<and> (h, t) \<in> held st))"
  proof cases
    case 2
    from run_known_held [OF assms(1) 2(2)] 2(1) show ?thesis by blast
  next
    case 3
    from hash_only_held [OF assms(1) 3(2)] 3(1) show ?thesis by blast
  qed auto
  then show "held st' \<subseteq> held st" "out = Run q target \<Longrightarrow> \<exists>h t. get_apq_hash rq = Some h \<and> q = Some t \<and> (h, t) \<in> held st" by blast+
qed

lemma store_executed_held:
  assumes "ae_backend ae = bk"
  shows "texts (store_executed_response ae cfg later res h q variables ctx operation b) \<subseteq> texts b"
  using store_response assms
  by (auto simp: store_executed_response_def store_response_in_cache_def Let_def split: option.splits sum.splits prod.splits if_splits)

lemma step_held:
  assumes "ae_backend ae = bk" "aq_mode cfg = Required"
  shows "held (aw_global (apq_step ae cfg gt e w), aw_backend (apq_step ae cfg gt e w)) \<subseteq> held (aw_global w, aw_backend w)"
proof (cases e)
  case (Arrives now rq c)
  obtain out g b where a: "accept_request ae cfg gt now rq c (aw_global w, aw_backend w) = (out, g, b)"
    by (cases "accept_request ae cfg gt now rq c (aw_global w, aw_backend w)") auto
  with required_held(1) [OF assms a] Arrives show ?thesis by simp
next
  case (Finished later i res)
  then show ?thesis using store_executed_held [OF assms(1)]
    by (cases "i < length (aw_pending w)"; cases "aw_pending w ! i") (fastforce simp: held_def)+
qed

lemma run_texts_held:
  assumes "ae_backend ae = bk" "aq_mode cfg = Required"
  shows "held (aw_global (run_events ae cfg gt evs w), aw_backend (run_events ae cfg gt evs w)) \<subseteq> held (aw_global w, aw_backend w)"
proof (induction evs rule: rev_induct)
  case (snoc e evs)
  with step_held [OF assms, of gt e "run_events ae cfg gt evs w"] show ?case by (simp add: run_events_def)
qed (simp add: run_events_def)

lemma required_runs_known:
  assumes "ae_backend ae = bk" "aq_mode cfg = Required" "outcome ae cfg gt now rq ctx (run_events ae cfg gt evs w) = Run q target"
  shows "\<exists>h t. get_apq_hash rq = Some h \<and> q = Some t \<and> (h, t) \<in> held (aw_global w, aw_backend w)"
proof -
  let ?w = "run_events ae cfg gt evs w"
  obtain st' where acc: "accept_request ae cfg gt now rq ctx (aw_global ?w, aw_backend ?w) = (Run q target, st')"
    using assms(3) unfolding outcome_def by (metis prod.collapse)
  from required_held(2) [OF assms(1,2) acc refl] run_texts_held [OF assms(1,2)] show ?thesis by blast
qed

end

interpretation memt: apq_texts "memory_backend sha" "\<lambda>m. set (am_queries m)" for sha
  by unfold_locales
    (auto simp: memory_backend_def memory_get_query_def memory_get_response_def memory_store_response_def Let_def drop_expired_def
      dest: map_of_SomeD split: if_splits option.splits)

interpretation pgt: apq_texts "postgres_backend sha varchar column" "\<lambda>b. set (ap_queries b) \<union> set (ap_texts b)" for sha varchar column
proof unfold_locales
  fix b b' h q
  assume "bk_get_query (postgres_backend sha varchar column) h b = (q, b')"
  then show "set (ap_queries b') \<union> set (ap_texts b') \<subseteq> set (ap_queries b) \<union> set (ap_texts b) \<and> (\<forall>t. q = Some t \<longrightarrow> (h, t) \<in> set (ap_queries b) \<union> set (ap_texts b))"
    using postgres_query_known [of h b q b'] by (auto simp: postgres_backend_def dest!: update_elements)
qed (auto simp: postgres_backend_def postgres_get_response_def postgres_store_response_def Let_def split: if_splits option.splits)

text \<open>
  C19: The required mode runs registered queries only.  With the backend in memory or the one in PostgreSQL,
  from any stores, and whatever requests arrive and end in whatever order, a request that is run in the
  required mode names the hash of a text that was in the stores at the start, and this text is what runs: no
  request can register a query.
\<close>

theorem required_mode_closed:
  assumes "aq_mode cfg = Required" "ae_backend aem = memory_backend sha" "ae_backend aep = postgres_backend sha varchar column"
  shows "(outcome aem cfg gt now rq ctx (run_events aem cfg gt evs wm) = Run q target \<longrightarrow>
            (\<exists>h t. get_apq_hash rq = Some h \<and> q = Some t \<and> (h, t) \<in> set (am_queries (aw_global wm)) \<union> set (am_queries (aw_backend wm))))
       \<and> (outcome aep cfg gt now rq ctx (run_events aep cfg gt evs wp) = Run q target \<longrightarrow>
            (\<exists>h t. get_apq_hash rq = Some h \<and> q = Some t
               \<and> (h, t) \<in> set (am_queries (aw_global wp)) \<union> (set (ap_queries (aw_backend wp)) \<union> set (ap_texts (aw_backend wp)))))"
  using memt.required_runs_known [OF assms(2,1)] pgt.required_runs_known [OF assms(3,1)] by (simp add: memt.held_def pgt.held_def)

definition registered :: apq_postgres where
  "registered = snd (postgres_register_queries toy_sha [''{ me }''] (new_apq_postgres True None))"

definition registered_in_memory :: apq_memory where
  "registered_in_memory = snd (memory_store_query toy_sha (toy_sha ''{ me }'') ''{ me }'' (new_apq_memory None))"

definition memory_env :: "apq_memory apq_env" where
  "memory_env = \<lparr>ae_backend = memory_backend toy_sha, ae_sha = toy_sha, ae_parse = toy_parse, ae_fuel = 100\<rparr>"

theorem required_mode_closed_witness:
  "(\<exists>h t. get_apq_hash (hash_request None None (toy_sha ''{ me }'')) = Some h \<and> Some ''{ me }'' = Some t
      \<and> (h, t) \<in> set (am_queries (new_apq_memory None)) \<union> set (am_queries registered_in_memory))
   \<and> (\<exists>h t. get_apq_hash (hash_request None None (toy_sha ''{ me }'')) = Some h \<and> Some ''{ me }'' = Some t
      \<and> (h, t) \<in> set (am_queries (new_apq_memory None)) \<union> (set (ap_queries registered) \<union> set (ap_texts registered)))"
proof -
  let ?wm = "\<lparr>aw_global = new_apq_memory None, aw_backend = registered_in_memory, aw_pending = []\<rparr>"
  let ?wp = "\<lparr>aw_global = new_apq_memory None, aw_backend = registered, aw_pending = []\<rparr>"
  have m: "outcome memory_env (toy_config Required) open_gates 2 (hash_request None None (toy_sha ''{ me }'')) alice
      (run_events memory_env (toy_config Required) open_gates (toy_events alice ''{ you }'' None) ?wm) = Run (Some ''{ me }'') (Some (toy_sha ''{ me }'', ''{ me }''))"
    by code_simp
  have p: "outcome toy_env (toy_config Required) open_gates 2 (hash_request None None (toy_sha ''{ me }'')) alice
      (run_events toy_env (toy_config Required) open_gates (toy_events alice ''{ you }'' None) ?wp) = Run (Some ''{ me }'') (Some (toy_sha ''{ me }'', ''{ me }''))"
    by code_simp
  have "aq_mode (toy_config Required) = Required" "ae_backend memory_env = memory_backend toy_sha" "ae_backend toy_env = postgres_backend toy_sha (\<lambda>t. True) Some"
    by (simp_all add: toy_config_def memory_env_def toy_env_def)
  from required_mode_closed [OF this, of open_gates 2 "hash_request None None (toy_sha ''{ me }'')" alice "toy_events alice ''{ you }'' None" ?wm
      "Some ''{ me }''" "Some (toy_sha ''{ me }'', ''{ me }'')" ?wp] m p
  show ?thesis by simp
qed

end
