(* ===== verification/Spec2Isabelle.thy ===== *)
theory Spec2Isabelle
  imports MandatoryFilters FilterReading LimiterRace RevocationProps WindowRewrite FindScope NativeAuthProps ReadHelpersProps
    QueryLimitsProps FieldPathsProps FieldAuthProps RowScope ScalarProps CachedProps CascadeRules Pagination RequiredMode
begin

text \<open>
  FraiseQL (\<open>src/fraiseql\<close>) answers GraphQL requests from PostgreSQL views.  This development models the Python
  code on the way of a request and proves what makes it correct.  Paths below are relative to
  \<open>src/fraiseql\<close>; definitions have the names of the functions they translate, with a suffix or a prefix where two
  classes share a name.

  \<^bold>\<open>The way of a request.\<close>  The endpoint accepts a request, possibly for a persisted query, and answers it from a
  cache of responses or runs it.  A query is measured against the limits before it runs.  The resolver of a root
  field asks the authorizer and writes the row filters of its decision into the context of the repository.
  The repository turns the filter and the order of the client into one statement, to which it adds the
  mandatory filters of the caller and of the context, and a wrapper keeps its results in a cache which the
  database functions invalidate.  Scalars check the values at the edge; rate limits, native authentication and
  token revocation guard the endpoint.

  \<^bold>\<open>Values, errors, texts.\<close>
  \<^item> \<open>Prelude\<close>: exceptions as values of \<open>py_error\<close>, results as a sum, the string functions of Python, lists and
    association lists (a dictionary is an association list in insertion order).
  \<^item> \<open>PyValue\<close>: the Python values \<open>pyval\<close> and the composables of \<open>psycopg.sql\<close>, which are mutually recursive, and
    \<open>repr\<close>, truth and JSON text.  A float is its \<open>repr\<close> text; what the runtime knows of floats is a record of
    functions (\<open>py_runtime\<close>).  Strings hold the characters up to U+00FF.
  \<^item> \<open>SqlCompose\<close>: what a composed query says: its raw texts, its placeholders, its rendering.
  \<^item> \<open>Calendar\<close>: \<open>datetime.date\<close>.  \<open>Casing\<close>: \<open>utils/casing.py\<close>.  \<open>Regex\<close>: regular expressions as data with a matcher
    by derivatives.  \<open>GraphqlAst\<close>: parsed documents and the schema, as far as the code reads them.

  \<^bold>\<open>Filters.\<close>
  \<^item> \<open>OperatorBase\<close>, \<open>CoreStrategies\<close>, \<open>PgStrategies\<close>, \<open>LtreeStrategy\<close>, \<open>CoordinateOps\<close>, \<open>Registry\<close>: \<open>sql/operators\<close>, one
    record of two functions per strategy class, and the registry.  Each strategy interprets the locale
    \<open>safe_strategy\<close> and the registry \<open>safe_registry\<close>: their raw texts come from a fixed vocabulary.
  \<^item> \<open>WhereClause\<close>, \<open>WhereProps\<close>, \<open>ClauseProps\<close>, \<open>WhereTexts\<close>, \<open>BoolStructure\<close>: \<open>where_clause.py\<close>.  The locale
    \<open>clause_contract\<close> lifts a property of conditions to clauses.  Placeholders match the parameters, raw texts
    are of the vocabulary, and the text read back with the precedence of SQL is the structure of the clause.
  \<^item> \<open>WhereNormalize\<close>, \<open>NormalizeProps\<close>, \<open>FilterMeaning\<close>, \<open>FilterReading\<close>: \<open>where_normalization.py\<close>.  The result is
    valid; a depth above the nesting of the filter is enough (C12); and it means what the dictionary says, by a
    meaning that is defined without the translation.
  \<^item> \<open>QueryWhere\<close>, \<open>MandatoryFilters\<close>: the WHERE clause of \<open>db.py\<close> with the mandatory filters.

  \<^bold>\<open>Statements of the repository\<close> (\<open>db.py\<close>).
  \<^item> \<open>OrderBy\<close>, \<open>OrderByProps\<close>: \<open>sql/order_by_generator.py\<close>, \<open>sql/graphql_order_by_generator.py\<close>.
  \<^item> \<open>FindQuery\<close>, \<open>FindQueryProps\<close>, \<open>FindScope\<close>: the statement of \<open>find\<close> and \<open>find_one\<close> and its row scope.
  \<^item> \<open>ReadHelpers\<close>, \<open>ReadHelpersProps\<close>: \<open>count\<close>, \<open>exists\<close>, \<open>sum\<close>, \<open>avg\<close>, \<open>min\<close>, \<open>max\<close>, \<open>distinct\<close>, \<open>pluck\<close>,
    \<open>aggregate\<close>, \<open>batch_exists\<close>.
  \<^item> \<open>Cursor\<close>, \<open>Pagination\<close>: \<open>paginate\<close>, over a \<open>find\<close> and a \<open>count\<close> that are arguments.
  \<^item> \<open>PartialPeriod\<close>, \<open>PartialPeriodProps\<close>, \<open>UnionRows\<close>, \<open>WindowRewrite\<close>, \<open>UnionQuery\<close>, \<open>UnionQueryProps\<close>:
    \<open>partial_period.py\<close> and the union query.  The laws of a grain are the locale \<open>grain\<close>, interpreted for each of
    the seven grains.  The branches return the rows that the fine-grain view would give.

  \<^bold>\<open>Authorization.\<close>
  \<^item> \<open>Authorization\<close>: \<open>security/authorization.py\<close>, \<open>security/decision_cache.py\<close>.  The authorizer is awaited, so that a
    call is two steps, \<open>enforce_lookup\<close> and \<open>enforce_answer\<close>, between which other calls run.
  \<^item> \<open>FieldAuth\<close>, \<open>FieldAuthProps\<close>: \<open>security/field_auth.py\<close>; an allow is a decision of the authorizer that is not too
    old, the cache cannot be seen from outside, and the search for gated fields misses none on object types.
  \<^item> \<open>RowScope\<close>: the resolvers of \<open>gql/builders/query_builder.py\<close>; the state is the context of the repository,
    steps of several resolvers interleave.

  \<^bold>\<open>Queries.\<close>
  \<^item> \<open>QueryLimits\<close>, \<open>QueryLimitsProps\<close>: \<open>gql/query_limits.py\<close>.  The memoised measurement equals the one of the expanded
    document, and it bounds the answers of an independent relation of what an execution may answer.
  \<^item> \<open>FieldPaths\<close>, \<open>FieldPathsProps\<close>: \<open>core/fragment_resolver.py\<close>, \<open>core/ast_parser.py\<close>, \<open>core/selection_tree.py\<close>.

  \<^bold>\<open>Caches.\<close>
  \<^item> \<open>CacheKey\<close>, \<open>ResultCache\<close>, \<open>PgCache\<close>, \<open>CachedRepository\<close>, \<open>CachedProps\<close>, \<open>CascadeRules\<close>: \<open>caching\<close>.  The result cache
    works over any backend with the contract \<open>cache_backend\<close>, which the PostgreSQL cache keeps.  Its state is the
    server (table, versions, rules, whether it answers) with the flags of the object.
  \<^item> \<open>ApqSelection\<close>, \<open>ApqStore\<close>, \<open>ApqRequest\<close>, \<open>ApqKeys\<close>, \<open>ApqProps\<close>, \<open>RequiredMode\<close>: \<open>storage\<close>, \<open>middleware/apq*.py\<close>,
    \<open>fastapi/routers.py\<close>.  A world holds the stores and the requests that are executed at the moment; the events
    are the arrival of a request and the end of an execution.  Both backends keep \<open>apq_store\<close> and \<open>apq_texts\<close>.

  \<^bold>\<open>Guards.\<close>
  \<^item> \<open>RateLimit\<close>, \<open>RateLimitProps\<close>, \<open>LimiterRace\<close>: \<open>middleware/rate_limiter.py\<close>.  Both limiters keep \<open>request_limiter\<close>
    when their checks run one after another; the statements of the PostgreSQL limiter are steps of their own
    that interleave in \<open>LimiterRace\<close>.
  \<^item> \<open>Revocation\<close>, \<open>RevocationProps\<close>: \<open>auth/token_revocation.py\<close>, with the contract \<open>revocation_store\<close>.
  \<^item> \<open>NativeAuth\<close>, \<open>NativeAuthProps\<close>: \<open>auth/native\<close>; the state is the four tables, reachability is an inductive relation.
    A reset of a password is two steps, \<open>reset_check\<close> and \<open>reset_write\<close>.
  \<^item> \<open>Scalars\<close>, \<open>NumberScalars\<close>, \<open>ScalarProps\<close>: \<open>types/scalars\<close>.

  \<^bold>\<open>Properties.\<close>  C1 to C4, C10 and C33 are about the row scope of the statements, C7 to C9, C11 and C12 about filters,
  C5, C3 and C6 about authorization, C14 to C21 about the caches, C22 to C24 about scalars, C25, C26 and C29 to C32
  about the guards, C27 and C28 about partial periods, C34 to C37 about queries, C13, C38 to C40 about names and
  pages.  Each stands with a witness that applies it at a concrete input.  Where the code falls short of a
  property, the property names the condition under which it holds and a lemma shows the counterexample.

  \<^bold>\<open>Fuel.\<close>  Where the source recurses on the Python stack over an input that may be too deep or cyclic, the model takes
  the remaining depth and raises \<open>RecursionError\<close>: the normalisation of filters (its depth plus one is enough,
  C12), the resolution of fragments and the filter of responses (the rank of the fragments, or the sizes of the
  two, are enough: assumptions of C36, C37 and C20).  The JSON reader of cursors takes the length of its text.  All
  other functions recurse structurally or with a measure.

  \<^bold>\<open>Assumed of code outside the repository\<close>, as arguments of the definitions or named hypotheses: the execution of SQL,
  transactions and the rollback of an exception (psycopg, PostgreSQL), the answer of a JSONB column, the JWT codec,
  argon2, SHA-256 and MD5, parsing, validation, printing and coercion of \<open>graphql-core\<close>, the authorizer and the
  permission checks of an application, the Rust pipeline.  PostgreSQL's reading of the generated text (precedence,
  three-valued logic) is the reader of \<open>BoolStructure\<close> and the values of \<open>FilterMeaning\<close>.

  \<^bold>\<open>Not modelled\<close>: messages of exceptions, logging, tracing and metrics; the building of the schema and of input classes
  from Python classes; the execution of a request after it was accepted; mutations; subscriptions; the Redis
  limiter; the CQRS package; role-based access, key management and audit; command line tools.  They are I/O,
  introspection, or calls of the libraries above; the manifest lists each with its reason.
\<close>

end
